(* ===== verification/Js_Text.thy ===== *)
theory Js_Text
  imports Prelude
begin

text \<open>
  Strings of the source language. A string is a sequence of UTF-16 code units, here the
  naturals below \<open>65536\<close>; no operation depends on the bound, so the lemmas hold for every
  list of naturals unless they say otherwise. The theory gives the operations of the
  standard library that the modelled code uses: white-space trimming, digits, decimal
  printing and reading, padding, ASCII case folding and the character classes of the
  regular expressions in the source.
\<close>

section \<open>Code units\<close>

type_synonym jstr = "nat list"

definition js :: "string \<Rightarrow> jstr" where
  "js s = map of_char s"

definition is_space :: "nat \<Rightarrow> bool" where
  "is_space c \<longleftrightarrow>
     (9 \<le> c \<and> c \<le> 13) \<or> c = 32 \<or> c = 160 \<or> c = 5760 \<or> (8192 \<le> c \<and> c \<le> 8202) \<or>
     c = 8232 \<or> c = 8233 \<or> c = 8239 \<or> c = 8287 \<or> c = 12288 \<or> c = 65279"

definition is_digit :: "nat \<Rightarrow> bool" where
  "is_digit c \<longleftrightarrow> 48 \<le> c \<and> c \<le> 57"

definition is_upper :: "nat \<Rightarrow> bool" where
  "is_upper c \<longleftrightarrow> 65 \<le> c \<and> c \<le> 90"

definition is_lower :: "nat \<Rightarrow> bool" where
  "is_lower c \<longleftrightarrow> 97 \<le> c \<and> c \<le> 122"

definition is_alnum :: "nat \<Rightarrow> bool" where
  "is_alnum c \<longleftrightarrow> is_digit c \<or> is_upper c \<or> is_lower c"

definition is_hex_lower :: "nat \<Rightarrow> bool" where
  "is_hex_lower c \<longleftrightarrow> is_digit c \<or> (97 \<le> c \<and> c \<le> 102)"

definition is_hex :: "nat \<Rightarrow> bool" where
  "is_hex c \<longleftrightarrow> is_hex_lower c \<or> (65 \<le> c \<and> c \<le> 70)"

definition lower1 :: "nat \<Rightarrow> nat" where
  "lower1 c = (if is_upper c then c + 32 else c)"

text \<open>\<open>toLowerCase\<close> on the ASCII strings the code applies it to.\<close>

definition to_lower :: "jstr \<Rightarrow> jstr" where
  "to_lower s = map lower1 s"

section \<open>String operations\<close>

definition trim_start :: "jstr \<Rightarrow> jstr" where
  "trim_start s = dropWhile is_space s"

definition trim :: "jstr \<Rightarrow> jstr" where
  "trim s = rev (dropWhile is_space (rev (dropWhile is_space s)))"

definition pad_end :: "nat \<Rightarrow> nat \<Rightarrow> jstr \<Rightarrow> jstr" where
  "pad_end n c s = s @ replicate (n - length s) c"

definition pad_start :: "nat \<Rightarrow> nat \<Rightarrow> jstr \<Rightarrow> jstr" where
  "pad_start n c s = replicate (n - length s) c @ s"

text \<open>\<open>slice(0, -n)\<close> and \<open>slice(-n)\<close> for \<open>0 < n\<close>.\<close>

definition slice_but :: "nat \<Rightarrow> jstr \<Rightarrow> jstr" where
  "slice_but n s = take (length s - n) s"

definition slice_last :: "nat \<Rightarrow> jstr \<Rightarrow> jstr" where
  "slice_last n s = drop (length s - n) s"

section \<open>Decimal numerals\<close>

fun show_nat :: "nat \<Rightarrow> jstr" where
  "show_nat n = (if n < 10 then [48 + n] else show_nat (n div 10) @ [48 + n mod 10])"

declare show_nat.simps [simp del]

definition read_nat :: "jstr \<Rightarrow> nat" where
  "read_nat s = foldl (\<lambda>a c. 10 * a + (c - 48)) 0 s"

definition show_int :: "int \<Rightarrow> jstr" where
  "show_int i = (if i < 0 then 45 # show_nat (nat (- i)) else show_nat (nat i))"

definition strip_zeros :: "jstr \<Rightarrow> jstr" where
  "strip_zeros s =
     (let t = dropWhile (\<lambda>c. c = 48) s
      in if (case t of [] \<Rightarrow> False | c # _ \<Rightarrow> is_digit c) then t
         else drop (length s - length t - 1) s)"

section \<open>Literals\<close>

lemma js_inj [simp]: "js s = js t \<longleftrightarrow> s = t"
proof -
  have "inj (of_char :: char \<Rightarrow> nat)"
    by (rule inj_of_char)
  then have "inj (map (of_char :: char \<Rightarrow> nat))"
    by (rule inj_mapI)
  then show ?thesis by (auto simp: js_def dest: injD)
qed

lemma js_eq_Nil [simp]: "js s = [] \<longleftrightarrow> s = []" "[] = js s \<longleftrightarrow> s = []"
  by (auto simp: js_def)

lemma length_js [simp]: "length (js s) = length s"
  by (simp add: js_def)

lemma js_simps: "js [] = []" "js (c # s) = of_char c # js s" "length (js s) = length s"
  by (simp_all add: js_def)

section \<open>Trimming\<close>

lemma trim_Nil [simp]: "trim [] = []"
  by (simp add: trim_def)

lemma trim_id:
  assumes "s = [] \<or> \<not> is_space (hd s) \<and> \<not> is_space (last s)"
  shows "trim s = s"
proof (cases "s = []")
  case False
  with assms have "dropWhile is_space s = s" "dropWhile is_space (rev s) = rev s"
    by (auto intro!: dropWhile_id split: list.split simp: hd_rev dest: arg_cong [of _ _ hd])
  then show ?thesis by (simp add: trim_def)
qed simp

lemma trim_hd: "trim s \<noteq> [] \<Longrightarrow> \<not> is_space (hd (trim s))"
proof -
  assume ne: "trim s \<noteq> []"
  let ?t = "dropWhile is_space s"
  from ne have t: "?t \<noteq> []" unfolding trim_def by (metis dropWhile.simps(1) rev.simps(1))
  obtain k where k: "rev ?t = k @ dropWhile is_space (rev ?t)"
    by (metis takeWhile_dropWhile_id)
  then have split: "?t = trim s @ rev k"
    by (metis rev_append rev_rev_ident trim_def)
  with ne have "hd (trim s) = hd ?t" by (metis hd_append2)
  then show ?thesis using t by (simp add: hd_dropWhile)
qed

lemma trim_last: "trim s \<noteq> [] \<Longrightarrow> \<not> is_space (last (trim s))"
proof -
  assume ne: "trim s \<noteq> []"
  let ?u = "dropWhile is_space (rev (dropWhile is_space s))"
  from ne have "?u \<noteq> []" by (simp add: trim_def)
  then have "\<not> is_space (hd ?u)" by (rule hd_dropWhile)
  with \<open>?u \<noteq> []\<close> show ?thesis by (simp add: trim_def last_rev)
qed

lemma trim_trim [simp]: "trim (trim s) = trim s"
  by (rule trim_id) (use trim_hd trim_last in blast)

lemma set_trim: "set (trim s) \<subseteq> set s"
  by (auto simp: trim_def dest!: set_dropWhileD)

lemma length_trim: "length (trim s) \<le> length s"
  by (metis length_dropWhile_le length_rev order_trans trim_def)

lemma trim_no_space: "list_all (\<lambda>c. \<not> is_space c) s \<Longrightarrow> trim s = s"
  by (rule trim_id) (auto simp: list_all_iff)

section \<open>Digits and decimal numerals\<close>

lemma is_digit_not_space: "is_digit c \<Longrightarrow> \<not> is_space c"
  by (auto simp: is_digit_def is_space_def)

lemma read_nat_Nil [simp]: "read_nat [] = 0"
  by (simp add: read_nat_def)

lemma read_nat_snoc [simp]: "read_nat (s @ [c]) = 10 * read_nat s + (c - 48)"
  by (simp add: read_nat_def)

lemma read_nat_append: "read_nat (s @ t) = read_nat s * 10 ^ length t + read_nat t"
proof (induction t rule: rev_induct)
  case (snoc c t)
  have "read_nat (s @ t @ [c]) = 10 * read_nat (s @ t) + (c - 48)"
    by (metis append.assoc read_nat_snoc)
  with snoc show ?case by (simp add: algebra_simps)
qed simp

lemma read_nat_single [simp]: "read_nat [c] = c - 48"
  by (simp add: read_nat_def)

lemma read_nat_Cons: "read_nat (c # s) = (c - 48) * 10 ^ length s + read_nat s"
  using read_nat_append [of "[c]" s] by simp

lemma read_nat_replicate0 [simp]: "read_nat (replicate n 48) = 0"
  by (induction n) (simp_all add: read_nat_Cons)

lemma read_nat_less: "list_all is_digit s \<Longrightarrow> read_nat s < 10 ^ length s"
proof (induction s rule: rev_induct)
  case (snoc c s)
  then have "read_nat s < 10 ^ length s" "c - 48 < 10"
    by (auto simp: is_digit_def)
  then show ?case by simp
qed simp

lemma show_nat_digits [simp]: "list_all is_digit (show_nat n)"
proof (induction n rule: show_nat.induct)
  case (1 n)
  show ?case
    by (subst show_nat.simps) (use 1 in \<open>auto simp: is_digit_def [of "48 + _"]\<close>)
qed

lemma show_nat_nonempty [simp]: "show_nat n \<noteq> []"
  by (subst show_nat.simps) simp

lemma read_show_nat [simp]: "read_nat (show_nat n) = n"
proof (induction n rule: show_nat.induct)
  case (1 n)
  show ?case
    by (subst show_nat.simps) (use 1 in \<open>auto\<close>)
qed

lemma show_nat_hd: "0 < n \<Longrightarrow> hd (show_nat n) \<noteq> 48"
proof (induction n rule: show_nat.induct)
  case (1 n)
  show ?case
  proof (cases "n < 10")
    case True
    with 1 show ?thesis by (subst show_nat.simps) simp
  next
    case False
    with 1 have "hd (show_nat (n div 10)) \<noteq> 48" by auto
    with False show ?thesis by (subst show_nat.simps) simp
  qed
qed

lemma show_nat_0 [simp]: "show_nat 0 = [48]"
  by (simp add: show_nat.simps)

lemma show_nat_lower: "0 < n \<Longrightarrow> 10 ^ (length (show_nat n) - 1) \<le> n"
proof (induction n rule: show_nat.induct)
  case (1 n)
  show ?case
  proof (cases "n < 10")
    case True
    with 1 show ?thesis by (subst show_nat.simps) simp
  next
    case False
    with 1 have "10 ^ (length (show_nat (n div 10)) - 1) \<le> n div 10" by auto
    moreover have "length (show_nat (n div 10)) \<noteq> 0" by simp
    moreover have "length (show_nat n) = Suc (length (show_nat (n div 10)))"
      using False by (subst show_nat.simps) simp
    ultimately have "10 ^ length (show_nat (n div 10)) \<le> 10 * (n div 10)"
      by (cases "length (show_nat (n div 10))") auto
    with \<open>length (show_nat n) = _\<close> show ?thesis by simp
  qed
qed

lemma show_nat_upper: "n < 10 ^ length (show_nat n)"
  using read_nat_less [OF show_nat_digits, of n] by simp

lemma show_nat_snoc:
  assumes "0 < n" and "d < 10"
  shows "show_nat (10 * n + d) = show_nat n @ [48 + d]"
proof -
  from assms have "\<not> 10 * n + d < 10" "(10 * n + d) div 10 = n" "(10 * n + d) mod 10 = d"
    by auto
  then show ?thesis by (subst show_nat.simps) simp
qed

lemma show_read_nat:
  "list_all is_digit s \<Longrightarrow> s \<noteq> [] \<Longrightarrow> hd s \<noteq> 48 \<Longrightarrow> show_nat (read_nat s) = s"
proof (induction s rule: rev_induct)
  case (snoc c s)
  show ?case
  proof (cases "s = []")
    case True
    with snoc.prems show ?thesis
      by (subst show_nat.simps) (auto simp: is_digit_def)
  next
    case False
    with snoc have IH: "show_nat (read_nat s) = s" by simp
    have "0 < read_nat s"
    proof (rule ccontr)
      assume "\<not> 0 < read_nat s"
      with IH have "s = [48]" by simp
      with snoc.prems show False by simp
    qed
    moreover have "c - 48 < 10" and "48 + (c - 48) = c"
      using snoc.prems by (auto simp: is_digit_def)
    ultimately show ?thesis
      using show_nat_snoc [of "read_nat s" "c - 48"] IH by simp
  qed
qed simp

lemma show_nat_inj [simp]: "show_nat m = show_nat n \<longleftrightarrow> m = n"
  by (metis read_show_nat)

lemma show_nat_length_le:
  assumes "0 < k"
  shows "length (show_nat n) \<le> k \<longleftrightarrow> n < 10 ^ k"
proof
  assume "length (show_nat n) \<le> k"
  then have "(10::nat) ^ length (show_nat n) \<le> 10 ^ k" by simp
  with show_nat_upper [of n] show "n < 10 ^ k" by linarith
next
  assume n: "n < 10 ^ k"
  show "length (show_nat n) \<le> k"
  proof (cases "n = 0")
    case True
    with assms show ?thesis by simp
  next
    case False
    then have "(10::nat) ^ (length (show_nat n) - 1) < 10 ^ k"
      using show_nat_lower [of n] n by linarith
    then have "length (show_nat n) - 1 < k" by (simp add: power_less_imp_less_exp)
    then show ?thesis by linarith
  qed
qed

lemma trim_digits: "list_all is_digit s \<Longrightarrow> trim s = s"
  by (rule trim_no_space) (auto simp: list_all_iff is_digit_not_space)

text \<open>Stripping leading zeros keeps one digit and the value.\<close>

lemma strip_zeros_digits:
  assumes "list_all is_digit s" and "s \<noteq> []"
  shows "strip_zeros s = (if list_all (\<lambda>c. c = 48) s then [48] else dropWhile (\<lambda>c. c = 48) s)"
proof (cases "list_all (\<lambda>c. c = 48) s")
  case True
  then have "dropWhile (\<lambda>c. c = 48) s = []" by (simp only: dropWhile_eq_Nil_conv list_all_iff)
  moreover have "drop (length s - 1) s = [last s]"
    using assms(2) by (metis append_butlast_last_id append_eq_conv_conj length_butlast)
  moreover have "last s = 48" using True assms(2) by (simp add: list_all_iff)
  ultimately show ?thesis using True unfolding strip_zeros_def Let_def
    by (simp del: dropWhile_eq_Nil_conv)
next
  case False
  then obtain c t where ct: "dropWhile (\<lambda>c. c = 48) s = c # t"
    by (cases "dropWhile (\<lambda>c. c = 48) s") (auto simp: list_all_iff dropWhile_eq_Nil_conv)
  then have "c \<in> set s" by (metis list.set_intros(1) set_dropWhileD)
  with assms(1) have "is_digit c" by (simp add: list_all_iff)
  with ct False show ?thesis by (simp add: strip_zeros_def)
qed

lemma read_dropWhile_zeros: "read_nat (dropWhile (\<lambda>c. c = 48) s) = read_nat s"
  by (induction s) (auto simp: read_nat_Cons)

lemma all_zeros_replicate: "list_all (\<lambda>c. c = 48) s \<Longrightarrow> s = replicate (length s) 48"
  by (induction s) auto

lemma strip_zeros_show:
  assumes "list_all is_digit s" and "s \<noteq> []"
  shows "strip_zeros s = show_nat (read_nat s)"
proof (cases "list_all (\<lambda>c. c = 48) s")
  case True
  then have "read_nat s = 0" by (metis all_zeros_replicate read_nat_replicate0)
  with True assms show ?thesis by (simp add: strip_zeros_digits)
next
  case False
  let ?t = "dropWhile (\<lambda>c. c = 48) s"
  from False have "?t \<noteq> []" by (simp add: list_all_iff dropWhile_eq_Nil_conv)
  then have "hd ?t \<noteq> 48" by (rule hd_dropWhile)
  moreover have "list_all is_digit ?t"
    using assms(1) by (auto simp: list_all_iff dest: set_dropWhileD)
  ultimately have "show_nat (read_nat ?t) = ?t"
    using \<open>?t \<noteq> []\<close> by (intro show_read_nat)
  with False assms show ?thesis by (simp add: strip_zeros_digits read_dropWhile_zeros)
qed

end
