(* ===== verification/Js_Value.thy ===== *)
theory Js_Value
  imports Js_Text
begin

text \<open>
  Numbers and JSON values of the source language.

  A finite number is represented by the decimal that \<open>Number::toString\<close> prints for it:
  \<open>Dec s e\<close> stands for \<open>s * 10 ^ e\<close> with no trailing zero in \<open>s\<close>. Distinct doubles print
  distinct decimals and the order of doubles is the order of those decimals, so
  comparison, \<open>Math.min\<close>, \<open>Math.max\<close> and the integer tests are exact. Minus zero is
  identified with zero, and a number literal is taken at its decimal value.

  An object is its list of own enumerable members in insertion order.
\<close>

section \<open>Numbers\<close>

datatype jsnum = NumNaN | NumInf bool | Dec int int

function dec :: "int \<Rightarrow> int \<Rightarrow> jsnum" where
  "dec s e =
     (if s = 0 then Dec 0 0
      else if s mod 10 = 0 then dec (s div 10) (e + 1)
      else Dec s e)"
  by pat_completeness auto
termination
  by (relation "measure (\<lambda>(s, e). nat \<bar>s\<bar>)") auto

declare dec.simps [simp del]

fun wf_num :: "jsnum \<Rightarrow> bool" where
  "wf_num (Dec s e) \<longleftrightarrow> s = 0 \<and> e = 0 \<or> s mod 10 \<noteq> 0"
| "wf_num _ \<longleftrightarrow> True"

definition num_of_int :: "int \<Rightarrow> jsnum" where
  "num_of_int i = dec i 0"

fun is_finite :: "jsnum \<Rightarrow> bool" where
  "is_finite (Dec _ _) \<longleftrightarrow> True"
| "is_finite _ \<longleftrightarrow> False"

fun is_integer :: "jsnum \<Rightarrow> bool" where
  "is_integer (Dec _ e) \<longleftrightarrow> 0 \<le> e"
| "is_integer _ \<longleftrightarrow> False"

fun num_int :: "jsnum \<Rightarrow> int" where
  "num_int (Dec s e) = s * 10 ^ nat e"
| "num_int _ = 0"

fun num_val :: "jsnum \<Rightarrow> rat" where
  "num_val (Dec s e) = (if 0 \<le> e then of_int (s * 10 ^ nat e) else of_int s / 10 ^ nat (- e))"
| "num_val _ = 0"

definition is_safe_integer :: "jsnum \<Rightarrow> bool" where
  "is_safe_integer x \<longleftrightarrow> is_integer x \<and> \<bar>num_int x\<bar> \<le> 2 ^ 53 - 1"

text \<open>\<open>Math.max\<close> and \<open>Math.min\<close> on finite numbers.\<close>

definition num_max :: "jsnum \<Rightarrow> jsnum \<Rightarrow> jsnum" where
  "num_max x y = (if num_val x < num_val y then y else x)"

definition num_min :: "jsnum \<Rightarrow> jsnum \<Rightarrow> jsnum" where
  "num_min x y = (if num_val y < num_val x then y else x)"

section \<open>JSON values\<close>

datatype json =
    JNull
  | JBool bool
  | JNum jsnum
  | JStr jstr
  | JArr "json list"
  | JObj "(jstr \<times> json) list"

text \<open>A member read, \<open>undefined\<close> being \<open>None\<close>.\<close>

definition member :: "(jstr \<times> json) list \<Rightarrow> string \<Rightarrow> json option" where
  "member o' k = map_of o' (js k)"

definition isRecord :: "json option \<Rightarrow> bool" where
  "isRecord v \<longleftrightarrow> (case v of Some (JObj _) \<Rightarrow> True | _ \<Rightarrow> False)"

fun as_record :: "json option \<Rightarrow> (jstr \<times> json) list option" where
  "as_record (Some (JObj ms)) = Some ms"
| "as_record _ = None"

fun as_string :: "json option \<Rightarrow> jstr option" where
  "as_string (Some (JStr s)) = Some s"
| "as_string _ = None"

fun as_number :: "json option \<Rightarrow> jsnum option" where
  "as_number (Some (JNum x)) = Some x"
| "as_number _ = None"

fun as_boolean :: "json option \<Rightarrow> bool option" where
  "as_boolean (Some (JBool b)) = Some b"
| "as_boolean _ = None"

fun as_array :: "json option \<Rightarrow> json list option" where
  "as_array (Some (JArr xs)) = Some xs"
| "as_array _ = None"

section \<open>Facts on numbers\<close>

lemma dec_wf [simp]: "wf_num (dec s e)"
proof (induction s e rule: dec.induct)
  case (1 s e)
  show ?case by (subst dec.simps) (use 1 in auto)
qed

lemma wf_num_of_int [simp]: "wf_num (num_of_int i)"
  by (simp add: num_of_int_def)

lemma dec_shift: "s mod 10 \<noteq> 0 \<Longrightarrow> dec (s * 10 ^ k) (e - int k) = Dec s e"
proof (induction k arbitrary: e)
  case 0
  then have "s \<noteq> 0" by auto
  with 0 show ?case by (simp add: dec.simps)
next
  case (Suc k)
  have ne: "s * 10 ^ Suc k \<noteq> 0" using Suc.prems by auto
  have "dec (s * 10 ^ Suc k) (e - int (Suc k)) = dec (s * 10 ^ k) (e - int k)"
    by (subst dec.simps) (use ne in \<open>auto simp: algebra_simps\<close>)
  with Suc show ?case by simp
qed

lemma dec_canonical: "wf_num (Dec s e) \<Longrightarrow> dec (s * 10 ^ k) (e - int k) = Dec s e"
  by (cases "s = 0") (auto simp: dec_shift dec.simps [of 0])

lemma dec_integer: "0 \<le> e \<Longrightarrow> is_integer (dec s e) \<and> num_int (dec s e) = s * 10 ^ nat e"
proof (induction s e rule: dec.induct)
  case (1 s e)
  show ?case
  proof (cases "s = 0 \<or> s mod 10 \<noteq> 0")
    case True
    with 1 show ?thesis by (subst (1 2) dec.simps) auto
  next
    case False
    then have s: "s = 10 * (s div 10)" by auto
    from False 1 have "is_integer (dec (s div 10) (e + 1))"
      "num_int (dec (s div 10) (e + 1)) = s div 10 * 10 ^ nat (e + 1)"
      by auto
    moreover have "dec s e = dec (s div 10) (e + 1)"
      using False by (subst dec.simps) auto
    moreover have "s div 10 * 10 ^ nat (e + 1) = s * 10 ^ nat e"
      using \<open>0 \<le> e\<close> s by (simp add: nat_add_distrib)
    ultimately show ?thesis by simp
  qed
qed

lemma is_integer_of_int [simp]: "is_integer (num_of_int i)"
  and num_int_of_int [simp]: "num_int (num_of_int i) = i"
  using dec_integer [of 0 i] by (simp_all add: num_of_int_def)

lemma num_val_integer: "is_integer x \<Longrightarrow> num_val x = of_int (num_int x)"
  by (cases x) auto

lemma is_integer_finite: "is_integer x \<Longrightarrow> is_finite x"
  by (cases x) auto

lemma member_Cons [simp]:
  "member ((js k', v) # ms) k = (if k = k' then Some v else member ms k)"
  by (simp add: member_def)

lemma member_Nil [simp]: "member [] k = None"
  by (simp add: member_def)

lemma as_simps:
  "as_string v = Some s \<longleftrightarrow> v = Some (JStr s)"
  "as_number v = Some x \<longleftrightarrow> v = Some (JNum x)"
  "as_boolean v = Some b \<longleftrightarrow> v = Some (JBool b)"
  "as_array v = Some xs \<longleftrightarrow> v = Some (JArr xs)"
  "as_record v = Some ms \<longleftrightarrow> v = Some (JObj ms)"
proof -
  show "as_string v = Some s \<longleftrightarrow> v = Some (JStr s)" by (cases v rule: as_string.cases) auto
  show "as_number v = Some x \<longleftrightarrow> v = Some (JNum x)" by (cases v rule: as_number.cases) auto
  show "as_boolean v = Some b \<longleftrightarrow> v = Some (JBool b)" by (cases v rule: as_boolean.cases) auto
  show "as_array v = Some xs \<longleftrightarrow> v = Some (JArr xs)" by (cases v rule: as_array.cases) auto
  show "as_record v = Some ms \<longleftrightarrow> v = Some (JObj ms)" by (cases v rule: as_record.cases) auto
qed

end
