(* ===== verification/Payment_Money.thy ===== *)
theory Payment_Money
  imports Js_Value
begin

text \<open>
  Exact money amounts, after \<open>web/src/lib/payment-money.ts\<close>: the reading of a user-facing
  major-unit amount into integer minor units, its printing, and the refund arithmetic of
  the payment administration. A \<open>bigint\<close> is a natural number here: no operation of the
  file produces a negative one.
\<close>

section \<open>Data\<close>

text \<open>The fields of \<open>PaymentAdminRecord\<close> (\<open>web/src/api.ts\<close>) that the file reads.\<close>

record PaymentAdminRecord =
  captured_amount :: jstr
  refunded_amount :: jstr
  currency_scale :: jsnum
  status :: jstr

definition MAX_CURRENCY_SCALE :: int where
  "MAX_CURRENCY_SCALE = 18"

definition MAX_MINOR_UNIT_DIGITS :: nat where
  "MAX_MINOR_UNIT_DIGITS = 38"

definition MAX_AMOUNT_TEXT_LENGTH :: nat where
  "MAX_AMOUNT_TEXT_LENGTH = 128"

section \<open>Operations\<close>

definition isValidCurrencyScale :: "jsnum \<Rightarrow> bool" where
  "isValidCurrencyScale v \<longleftrightarrow>
     is_integer v \<and> 0 \<le> num_int v \<and> num_int v \<le> MAX_CURRENCY_SCALE"

text \<open>The scale as a count of digits, once it has been validated.\<close>

definition scale_digits :: "jsnum \<Rightarrow> nat" where
  "scale_digits v = nat (num_int v)"

definition parseMinorUnitDigits :: "jstr \<Rightarrow> nat option" where
  "parseMinorUnitDigits v =
     (let normalized = strip_zeros v
      in if length normalized = 0 \<or> MAX_MINOR_UNIT_DIGITS < length normalized then None
         else Some (read_nat normalized))"

definition parseStoredMinorUnits :: "jstr \<Rightarrow> nat option" where
  "parseStoredMinorUnits v =
     (let text = trim v
      in if text = [] \<or> \<not> list_all is_digit text then None else parseMinorUnitDigits text)"

text \<open>The match of \<open>^(\d+)(?:\.(\d+))?$\<close>: the two groups, the second one \<open>""\<close> if absent.\<close>

definition match_amount :: "jstr \<Rightarrow> (jstr \<times> jstr) option" where
  "match_amount text =
     (let whole = takeWhile is_digit text; rest = dropWhile is_digit text
      in if whole = [] then None
         else case rest of
           [] \<Rightarrow> Some (whole, [])
         | c # fraction \<Rightarrow>
             if c = 46 \<and> fraction \<noteq> [] \<and> list_all is_digit fraction
             then Some (whole, fraction) else None)"

definition parseMoneyMinorUnits :: "jstr \<Rightarrow> jsnum \<Rightarrow> nat option" where
  "parseMoneyMinorUnits v scale =
     (if \<not> isValidCurrencyScale scale then None
      else let text = trim v
      in if length text = 0 \<or> MAX_AMOUNT_TEXT_LENGTH < length text then None
      else case match_amount text of
        None \<Rightarrow> None
      | Some (whole, fraction) \<Rightarrow>
          if scale_digits scale < length fraction then None
          else parseMinorUnitDigits (whole @ pad_end (scale_digits scale) 48 fraction))"

definition formatMoneyMinorUnits :: "nat \<Rightarrow> jsnum \<Rightarrow> jstr" where
  "formatMoneyMinorUnits v scale =
     (if scale_digits scale = 0 then show_nat v
      else let digits = pad_start (scale_digits scale + 1) 48 (show_nat v)
      in slice_but (scale_digits scale) digits @ [46] @ slice_last (scale_digits scale) digits)"

definition formatStoredMoneyAmount :: "jstr \<Rightarrow> jsnum \<Rightarrow> jstr option" where
  "formatStoredMoneyAmount v scale =
     (if \<not> isValidCurrencyScale scale then None
      else case parseStoredMinorUnits v of
        None \<Rightarrow> None
      | Some minorUnits \<Rightarrow> Some (formatMoneyMinorUnits minorUnits scale))"

definition remainingRefundMinorUnits :: "PaymentAdminRecord \<Rightarrow> nat option" where
  "remainingRefundMinorUnits payment =
     (if \<not> isValidCurrencyScale (currency_scale payment) then None
      else case (parseStoredMinorUnits (captured_amount payment),
                 parseStoredMinorUnits (refunded_amount payment)) of
        (Some captured, Some refunded) \<Rightarrow>
          if captured < refunded then None else Some (captured - refunded)
      | _ \<Rightarrow> None)"

definition remainingRefundAmount :: "PaymentAdminRecord \<Rightarrow> jstr option" where
  "remainingRefundAmount payment =
     (case remainingRefundMinorUnits payment of
        None \<Rightarrow> None
      | Some remaining \<Rightarrow> Some (formatMoneyMinorUnits remaining (currency_scale payment)))"

definition isRefundablePayment :: "PaymentAdminRecord \<Rightarrow> bool" where
  "isRefundablePayment payment \<longleftrightarrow>
     status payment = js ''captured'' \<and>
     (case remainingRefundMinorUnits payment of None \<Rightarrow> False | Some remaining \<Rightarrow> 0 < remaining)"

definition refundAmountMinorUnits :: "PaymentAdminRecord \<Rightarrow> jstr \<Rightarrow> jstr option" where
  "refundAmountMinorUnits payment amount =
     (case (parseMoneyMinorUnits amount (currency_scale payment),
            remainingRefundMinorUnits payment) of
        (Some requested, Some remaining) \<Rightarrow>
          if 0 < requested \<and> requested \<le> remaining then Some (show_nat requested) else None
      | _ \<Rightarrow> None)"

definition isRefundAmountWithinRemaining :: "PaymentAdminRecord \<Rightarrow> jstr \<Rightarrow> bool" where
  "isRefundAmountWithinRemaining payment amount \<longleftrightarrow> refundAmountMinorUnits payment amount \<noteq> None"

section \<open>The amount grammar\<close>

lemma match_amount_Some:
  "match_amount text = Some (whole, fraction) \<Longrightarrow>
     whole \<noteq> [] \<and> list_all is_digit whole \<and> list_all is_digit fraction"
  by (auto simp: match_amount_def Let_def list_all_iff split: list.splits if_splits
      dest: set_takeWhileD)

lemma match_amount_whole:
  "list_all is_digit w \<Longrightarrow> w \<noteq> [] \<Longrightarrow> match_amount w = Some (w, [])"
  by (simp add: match_amount_def takeWhile_all dropWhile_all)

lemma match_amount_dot:
  assumes "list_all is_digit w" "w \<noteq> []" "list_all is_digit f" "f \<noteq> []"
  shows "match_amount (w @ 46 # f) = Some (w, f)"
  using assms by (simp add: match_amount_def takeWhile_append_all dropWhile_append_all is_digit_def)

lemma parseMinorUnitDigits_digits:
  assumes "list_all is_digit s" and "s \<noteq> []"
  shows "parseMinorUnitDigits s =
     (if length (show_nat (read_nat s)) \<le> MAX_MINOR_UNIT_DIGITS then Some (read_nat s) else None)"
  using assms by (auto simp: parseMinorUnitDigits_def strip_zeros_show)

lemma parseMinorUnitDigits_value:
  assumes "list_all is_digit s" and "s \<noteq> []"
  shows "parseMinorUnitDigits s = (if read_nat s < 10 ^ 38 then Some (read_nat s) else None)"
  using assms show_nat_length_le [of 38 "read_nat s"]
  by (simp add: parseMinorUnitDigits_digits MAX_MINOR_UNIT_DIGITS_def)

lemma parseStoredMinorUnits_show:
  "n < 10 ^ 38 \<Longrightarrow> parseStoredMinorUnits (show_nat n) = Some n"
  by (simp add: parseStoredMinorUnits_def trim_digits parseMinorUnitDigits_value Let_def)

lemma parseStoredMinorUnits_bound: "parseStoredMinorUnits v = Some n \<Longrightarrow> n < 10 ^ 38"
  by (auto simp: parseStoredMinorUnits_def Let_def parseMinorUnitDigits_value split: if_splits)

lemma parseMoneyMinorUnits_bound: "parseMoneyMinorUnits v scale = Some n \<Longrightarrow> n < 10 ^ 38"
proof -
  assume "parseMoneyMinorUnits v scale = Some n"
  then obtain w f where m: "match_amount (trim v) = Some (w, f)"
    and p: "parseMinorUnitDigits (w @ pad_end (scale_digits scale) 48 f) = Some n"
    by (auto simp: parseMoneyMinorUnits_def Let_def split: if_splits option.splits)
  from match_amount_Some [OF m] have "list_all is_digit (w @ pad_end (scale_digits scale) 48 f)"
    and "w @ pad_end (scale_digits scale) 48 f \<noteq> []"
    by (auto simp: pad_end_def list_all_iff is_digit_def)
  from parseMinorUnitDigits_value [OF this] p show ?thesis by (auto split: if_splits)
qed

section \<open>The shape of a printed amount\<close>

lemma formatMoney_parts:
  assumes "0 < k" and "k = scale_digits scale"
  obtains w f where "formatMoneyMinorUnits v scale = w @ 46 # f"
    and "list_all is_digit w" and "w \<noteq> []" and "list_all is_digit f" and "length f = k"
    and "w @ f = pad_start (k + 1) 48 (show_nat v)"
proof -
  let ?d = "pad_start (k + 1) 48 (show_nat v)"
  let ?w = "slice_but k ?d" and ?f = "slice_last k ?d"
  have digits: "list_all is_digit ?d"
    by (auto simp: pad_start_def list_all_iff is_digit_def show_nat_digits [unfolded list_all_iff is_digit_def])
  have len: "k + 1 \<le> length ?d" by (simp add: pad_start_def)
  have app: "?w @ ?f = ?d" by (simp add: slice_but_def slice_last_def)
  then have "set ?w \<subseteq> set ?d" "set ?f \<subseteq> set ?d" by (metis set_append Un_upper1 Un_upper2)+
  with digits have "list_all is_digit ?w" "list_all is_digit ?f"
    by (auto simp: list_all_iff)
  moreover have "?w \<noteq> []" using len by (auto simp: slice_but_def)
  moreover have "length ?f = k" using len by (simp add: slice_last_def)
  moreover have "formatMoneyMinorUnits v scale = ?w @ 46 # ?f"
    using assms by (simp add: formatMoneyMinorUnits_def Let_def)
  ultimately show ?thesis using app that by blast
qed

lemma read_pad_start: "read_nat (pad_start k 48 s) = read_nat s"
  by (simp add: pad_start_def read_nat_append)

lemma length_formatMoney:
  assumes "v < 10 ^ 38" and "isValidCurrencyScale scale"
  shows "length (formatMoneyMinorUnits v scale) \<le> 39"
proof -
  from assms(2) have k: "scale_digits scale \<le> 18"
    unfolding isValidCurrencyScale_def MAX_CURRENCY_SCALE_def scale_digits_def by arith
  from assms(1) have n: "length (show_nat v) \<le> 38" using show_nat_length_le [of 38 v] by simp
  with k show ?thesis
    by (auto simp: formatMoneyMinorUnits_def Let_def slice_but_def slice_last_def pad_start_def)
qed

lemma parse_format_money:
  assumes "isValidCurrencyScale scale" and "v < 10 ^ 38"
  shows "parseMoneyMinorUnits (formatMoneyMinorUnits v scale) scale = Some v"
proof (cases "scale_digits scale = 0")
  case True
  then have "formatMoneyMinorUnits v scale = show_nat v" by (simp add: formatMoneyMinorUnits_def)
  moreover have "length (show_nat v) \<le> 128"
    using length_formatMoney [OF assms(2,1)] calculation by simp
  ultimately show ?thesis
    using True assms
    by (simp add: parseMoneyMinorUnits_def Let_def trim_digits match_amount_whole pad_end_def
        MAX_AMOUNT_TEXT_LENGTH_def parseMinorUnitDigits_value)
next
  case False
  let ?k = "scale_digits scale"
  obtain w f where fmt: "formatMoneyMinorUnits v scale = w @ 46 # f"
    and w: "list_all is_digit w" "w \<noteq> []" and f: "list_all is_digit f" "length f = ?k"
    and wf: "w @ f = pad_start (?k + 1) 48 (show_nat v)"
    using formatMoney_parts [of ?k scale v] False by blast
  have "f \<noteq> []" using f(2) False by auto
  have "trim (w @ 46 # f) = w @ 46 # f"
    using w f by (intro trim_no_space) (auto simp: list_all_iff is_digit_not_space, simp add: is_space_def)
  moreover have "length (w @ 46 # f) \<le> 39" using length_formatMoney [OF assms(2,1)] fmt by simp
  moreover have "read_nat (w @ f) = v" using wf by (simp add: read_pad_start)
  ultimately show ?thesis
    using assms w f \<open>f \<noteq> []\<close>
    by (simp add: fmt parseMoneyMinorUnits_def Let_def match_amount_dot pad_end_def
        MAX_AMOUNT_TEXT_LENGTH_def parseMinorUnitDigits_value)
qed

section \<open>Properties\<close>

text \<open>
  C16. Printing an amount of minor units and reading the printed text back gives the amount, for
  every valid currency scale and every amount the payment interface can carry (fewer than 39
  digits): no amount is rounded, truncated or rejected on the way.
\<close>

theorem money_round_trip:
  assumes "isValidCurrencyScale scale" and "v < 10 ^ 38"
  shows "parseMoneyMinorUnits (formatMoneyMinorUnits v scale) scale = Some v"
  by (rule parse_format_money [OF assms])

theorem money_round_trip_witness:
  "isValidCurrencyScale (num_of_int 2) \<and>
   parseMoneyMinorUnits (formatMoneyMinorUnits 1205 (num_of_int 2)) (num_of_int 2) = Some 1205"
proof -
  have s: "isValidCurrencyScale (num_of_int 2)"
    by (simp add: isValidCurrencyScale_def MAX_CURRENCY_SCALE_def)
  show ?thesis by (intro conjI s money_round_trip) simp
qed

text \<open>
  A refund request is accepted exactly when the payment's amounts and the requested amount
  are readable, the request is positive, and what was refunded before plus the request stays
  within what was captured; the accepted value is the decimal text of the request. A refund
  can never exceed the captured amount.
\<close>

theorem refund_within_captured:
  "refundAmountMinorUnits payment amount = Some t \<longleftrightarrow>
     (\<exists>requested captured refunded.
        parseMoneyMinorUnits amount (currency_scale payment) = Some requested \<and>
        parseStoredMinorUnits (captured_amount payment) = Some captured \<and>
        parseStoredMinorUnits (refunded_amount payment) = Some refunded \<and>
        isValidCurrencyScale (currency_scale payment) \<and>
        0 < requested \<and> refunded + requested \<le> captured \<and> t = show_nat requested)"
  by (auto simp: refundAmountMinorUnits_def remainingRefundMinorUnits_def split: option.splits if_splits)

text \<open>
  A payment shown as refundable can be refunded in full: the remaining amount is displayed,
  and entering the displayed text is accepted as exactly the remaining minor units, so display
  and validation never disagree.
\<close>

theorem refundable_in_full:
  assumes "isRefundablePayment payment"
  shows "\<exists>text remaining. remainingRefundAmount payment = Some text \<and>
     remainingRefundMinorUnits payment = Some remaining \<and>
     refundAmountMinorUnits payment text = Some (show_nat remaining)"
proof -
  from assms obtain remaining where r: "remainingRefundMinorUnits payment = Some remaining" "0 < remaining"
    by (auto simp: isRefundablePayment_def split: option.splits)
  then obtain captured where "isValidCurrencyScale (currency_scale payment)" and
      c: "parseStoredMinorUnits (captured_amount payment) = Some captured" and "remaining \<le> captured"
    by (auto simp: remainingRefundMinorUnits_def split: option.splits if_splits)
  moreover from parseStoredMinorUnits_bound [OF c] have "captured < 10 ^ 38" .
  ultimately have
    "parseMoneyMinorUnits (formatMoneyMinorUnits remaining (currency_scale payment)) (currency_scale payment)
       = Some remaining"
    by (intro parse_format_money) auto
  with r show ?thesis by (simp add: remainingRefundAmount_def refundAmountMinorUnits_def)
qed

definition example_payment :: PaymentAdminRecord where
  "example_payment = \<lparr> captured_amount = show_nat 1200, refunded_amount = show_nat 150,
     currency_scale = num_of_int 2, status = js ''captured'' \<rparr>"

theorem refundable_in_full_witness:
  "isRefundablePayment example_payment \<and>
   (\<exists>text remaining. remainingRefundAmount example_payment = Some text \<and>
     remainingRefundMinorUnits example_payment = Some remaining \<and>
     refundAmountMinorUnits example_payment text = Some (show_nat remaining))"
proof -
  have "isRefundablePayment example_payment"
    by (simp add: isRefundablePayment_def example_payment_def remainingRefundMinorUnits_def
        parseStoredMinorUnits_show isValidCurrencyScale_def MAX_CURRENCY_SCALE_def)
  then show ?thesis using refundable_in_full by blast
qed

end
