(* ===== verification/Js_Json.thy ===== *)
theory Js_Json
  imports Js_Value
begin

text \<open>
  \<open>JSON.stringify\<close> and \<open>JSON.parse\<close> on the values of \<^typ>\<open>json\<close>, with the escapes, the
  number notation and the white space of the language standard, and the proof that
  parsing what was printed gives the value back. Members with the same name overwrite
  each other in place, as object construction does.
\<close>

section \<open>Printing\<close>

definition is_high :: "nat \<Rightarrow> bool" where
  "is_high c \<longleftrightarrow> 55296 \<le> c \<and> c \<le> 56319"

definition is_low :: "nat \<Rightarrow> bool" where
  "is_low c \<longleftrightarrow> 56320 \<le> c \<and> c \<le> 57343"

definition hex_digit :: "nat \<Rightarrow> nat" where
  "hex_digit d = (if d < 10 then 48 + d else 87 + d)"

definition hex4 :: "nat \<Rightarrow> jstr" where
  "hex4 c = [hex_digit (c div 4096), hex_digit (c div 256 mod 16),
             hex_digit (c div 16 mod 16), hex_digit (c mod 16)]"

definition escape_u :: "nat \<Rightarrow> jstr" where
  "escape_u c = 92 # 117 # hex4 c"

definition quote_unit :: "nat \<Rightarrow> jstr" where
  "quote_unit c =
     (if c = 34 then [92, 34] else if c = 92 then [92, 92] else if c = 8 then [92, 98]
      else if c = 9 then [92, 116] else if c = 10 then [92, 110] else if c = 12 then [92, 102]
      else if c = 13 then [92, 114] else if c < 32 then escape_u c else [c])"

fun quote_body :: "jstr \<Rightarrow> jstr" where
  "quote_body [] = []"
| "quote_body (c # s) =
     (if is_high c then
        (case s of
           d # t \<Rightarrow> if is_low d then c # d # quote_body t else escape_u c @ quote_body s
         | [] \<Rightarrow> escape_u c)
      else if is_low c then escape_u c @ quote_body s
      else quote_unit c @ quote_body s)"

definition quote :: "jstr \<Rightarrow> jstr" where
  "quote s = 34 # quote_body s @ [34]"

definition abs_text :: "nat \<Rightarrow> int \<Rightarrow> jstr" where
  "abs_text m e =
     (let ds = show_nat m; k = int (length ds); n = k + e
      in if k \<le> n \<and> n \<le> 21 then ds @ replicate (nat e) 48
         else if 0 < n \<and> n \<le> 21 then take (nat n) ds @ 46 # drop (nat n) ds
         else if - 6 < n \<and> n \<le> 0 then 48 # 46 # replicate (nat (- n)) 48 @ ds
         else (if k = 1 then ds else hd ds # 46 # tl ds) @
              101 # (if 0 \<le> n - 1 then 43 else 45) # show_nat (nat \<bar>n - 1\<bar>))"

fun num_text :: "jsnum \<Rightarrow> jstr" where
  "num_text (Dec s e) =
     (if s = 0 then [48] else (if s < 0 then [45] else []) @ abs_text (nat \<bar>s\<bar>) e)"
| "num_text _ = js ''null''"

fun stringify :: "json \<Rightarrow> jstr"
  and str_elems :: "json list \<Rightarrow> jstr"
  and str_members :: "(jstr \<times> json) list \<Rightarrow> jstr" where
  "stringify JNull = js ''null''"
| "stringify (JBool b) = (if b then js ''true'' else js ''false'')"
| "stringify (JNum x) = num_text x"
| "stringify (JStr s) = quote s"
| "stringify (JArr vs) = 91 # str_elems vs @ [93]"
| "stringify (JObj ms) = 123 # str_members ms @ [125]"
| "str_elems [] = []"
| "str_elems (v # vs) = stringify v @ (if vs = [] then [] else 44 # str_elems vs)"
| "str_members [] = []"
| "str_members ((k, v) # ms) =
     quote k @ 58 # stringify v @ (if ms = [] then [] else 44 # str_members ms)"

section \<open>Parsing\<close>

definition is_ws :: "nat \<Rightarrow> bool" where
  "is_ws c \<longleftrightarrow> c = 32 \<or> c = 9 \<or> c = 10 \<or> c = 13"

definition skip_ws :: "jstr \<Rightarrow> jstr" where
  "skip_ws s = dropWhile is_ws s"

definition hex_value :: "nat \<Rightarrow> nat" where
  "hex_value c = (if c \<le> 57 then c - 48 else if c \<le> 70 then c - 55 else c - 87)"

definition simple_escape :: "nat \<Rightarrow> nat option" where
  "simple_escape e =
     (if e = 34 \<or> e = 92 \<or> e = 47 then Some e else if e = 98 then Some 8
      else if e = 102 then Some 12 else if e = 110 then Some 10 else if e = 114 then Some 13
      else if e = 116 then Some 9 else None)"

fun pstr :: "jstr \<Rightarrow> (jstr \<times> jstr) option" where
  "pstr [] = None"
| "pstr (c # s) =
     (if c = 34 then Some ([], s)
      else if c = 92 then
        (case s of
           [] \<Rightarrow> None
         | e # t \<Rightarrow>
             if e = 117 then
               (if 4 \<le> length t \<and> list_all is_hex (take 4 t)
                then map_option (apfst (Cons
                       (hex_value (t ! 0) * 4096 + hex_value (t ! 1) * 256 +
                        hex_value (t ! 2) * 16 + hex_value (t ! 3)))) (pstr (drop 4 t))
                else None)
             else (case simple_escape e of
                     None \<Rightarrow> None
                   | Some x \<Rightarrow> map_option (apfst (Cons x)) (pstr t)))
      else if c < 32 then None
      else map_option (apfst (Cons c)) (pstr s))"

definition pfrac :: "jstr \<Rightarrow> (jstr \<times> jstr) option" where
  "pfrac s =
     (case s of
        c # t \<Rightarrow>
          if c = 46 then
            (let f = takeWhile is_digit t in if f = [] then None else Some (f, dropWhile is_digit t))
          else Some ([], s)
      | [] \<Rightarrow> Some ([], s))"

definition pexp_digits :: "bool \<Rightarrow> jstr \<Rightarrow> (int \<times> jstr) option" where
  "pexp_digits neg s =
     (let d = takeWhile is_digit s
      in if d = [] then None
         else Some (if neg then - int (read_nat d) else int (read_nat d), dropWhile is_digit s))"

definition pexp :: "jstr \<Rightarrow> (int \<times> jstr) option" where
  "pexp s =
     (case s of
        c # t \<Rightarrow>
          if c = 101 \<or> c = 69 then
            (case t of
               d # u \<Rightarrow> if d = 43 then pexp_digits False u
                        else if d = 45 then pexp_digits True u else pexp_digits False t
             | [] \<Rightarrow> None)
          else Some (0, s)
      | [] \<Rightarrow> Some (0, s))"

definition pint :: "jstr \<Rightarrow> (jstr \<times> jstr) option" where
  "pint s =
     (case s of
        c # t \<Rightarrow> if c = 48 then Some ([48], t)
                 else if is_digit c then Some (takeWhile is_digit s, dropWhile is_digit s)
                 else None
      | [] \<Rightarrow> None)"

definition pabs :: "bool \<Rightarrow> jstr \<Rightarrow> (json \<times> jstr) option" where
  "pabs neg s =
     (case pint s of
        None \<Rightarrow> None
      | Some (i, r) \<Rightarrow>
          (case pfrac r of
             None \<Rightarrow> None
           | Some (f, r') \<Rightarrow>
               (case pexp r' of
                  None \<Rightarrow> None
                | Some (x, r'') \<Rightarrow>
                    (let m = int (read_nat (i @ f))
                     in Some (JNum (dec (if neg then - m else m) (x - int (length f))), r'')))))"

definition pnum :: "jstr \<Rightarrow> (json \<times> jstr) option" where
  "pnum s = (case s of c # t \<Rightarrow> if c = 45 then pabs True t else pabs False s | [] \<Rightarrow> None)"

definition pword :: "string \<Rightarrow> json \<Rightarrow> jstr \<Rightarrow> (json \<times> jstr) option" where
  "pword w v s = (if take (length w) s = js w then Some (v, drop (length w) s) else None)"

fun obj_put :: "(jstr \<times> json) list \<Rightarrow> jstr \<Rightarrow> json \<Rightarrow> (jstr \<times> json) list" where
  "obj_put [] k v = [(k, v)]"
| "obj_put ((k', v') # ms) k v = (if k' = k then (k, v) # ms else (k', v') # obj_put ms k v)"

fun pval :: "nat \<Rightarrow> jstr \<Rightarrow> (json \<times> jstr) option"
  and parr :: "nat \<Rightarrow> json list \<Rightarrow> jstr \<Rightarrow> (json \<times> jstr) option"
  and pobj :: "nat \<Rightarrow> (jstr \<times> json) list \<Rightarrow> jstr \<Rightarrow> (json \<times> jstr) option" where
  "pval 0 s = None"
| "pval (Suc n) s =
     (case skip_ws s of
        [] \<Rightarrow> None
      | c # t \<Rightarrow>
          if c = 123 then
            (case skip_ws t of
               d # u \<Rightarrow> if d = 125 then Some (JObj [], u) else pobj n [] (d # u)
             | [] \<Rightarrow> None)
          else if c = 91 then
            (case skip_ws t of
               d # u \<Rightarrow> if d = 93 then Some (JArr [], u) else parr n [] (d # u)
             | [] \<Rightarrow> None)
          else if c = 34 then map_option (apfst JStr) (pstr t)
          else if c = 110 then pword ''null'' JNull (c # t)
          else if c = 116 then pword ''true'' (JBool True) (c # t)
          else if c = 102 then pword ''false'' (JBool False) (c # t)
          else pnum (c # t))"
| "parr 0 acc s = None"
| "parr (Suc n) acc s =
     (case pval n s of
        None \<Rightarrow> None
      | Some (v, r) \<Rightarrow>
          (case skip_ws r of
             c # t \<Rightarrow> if c = 44 then parr n (acc @ [v]) t
                      else if c = 93 then Some (JArr (acc @ [v]), t) else None
           | [] \<Rightarrow> None))"
| "pobj 0 acc s = None"
| "pobj (Suc n) acc s =
     (case skip_ws s of
        [] \<Rightarrow> None
      | c # t \<Rightarrow>
          if c \<noteq> 34 then None
          else (case pstr t of
             None \<Rightarrow> None
           | Some (k, r) \<Rightarrow>
               (case skip_ws r of
                  [] \<Rightarrow> None
                | d # u \<Rightarrow>
                    if d \<noteq> 58 then None
                    else (case pval n u of
                       None \<Rightarrow> None
                     | Some (v, r') \<Rightarrow>
                         (case skip_ws r' of
                            [] \<Rightarrow> None
                          | c' # t' \<Rightarrow>
                              if c' = 44 then pobj n (obj_put acc k v) t'
                              else if c' = 125 then Some (JObj (obj_put acc k v), t')
                              else None)))))"

text \<open>
  \<open>JSON.parse\<close>: one value with nothing but white space after it. The recursion bound is
  twice the length of the text: a value spends at least one character per two calls.
\<close>

definition json_parse :: "jstr \<Rightarrow> json option" where
  "json_parse s =
     (case pval (2 * length s + 2) s of
        None \<Rightarrow> None
      | Some (v, r) \<Rightarrow> if skip_ws r = [] then Some v else None)"

section \<open>Values that print and parse faithfully\<close>

definition wf_str :: "jstr \<Rightarrow> bool" where
  "wf_str s \<longleftrightarrow> list_all (\<lambda>c. c < 65536) s"

fun wf_json :: "json \<Rightarrow> bool" where
  "wf_json (JNum x) \<longleftrightarrow> is_finite x \<and> wf_num x"
| "wf_json (JStr s) \<longleftrightarrow> wf_str s"
| "wf_json (JArr vs) \<longleftrightarrow> list_all wf_json vs"
| "wf_json (JObj ms) \<longleftrightarrow>
     distinct (map fst ms) \<and> list_all (\<lambda>(k, v). wf_str k \<and> wf_json v) ms"
| "wf_json _ \<longleftrightarrow> True"

lemma wf_json_Obj:
  "wf_json (JObj ms) \<longleftrightarrow> distinct (map fst ms) \<and> list_all (\<lambda>m. wf_str (fst m) \<and> wf_json (snd m)) ms"
  by (auto simp: list_all_iff)

declare wf_json.simps(4) [simp del]

section \<open>Strings\<close>

lemma hex_digit_hex: "d < 16 \<Longrightarrow> is_hex (hex_digit d)"
  by (auto simp: hex_digit_def is_hex_def is_hex_lower_def is_digit_def)

lemma hex_value_digit: "d < 16 \<Longrightarrow> hex_value (hex_digit d) = d"
  by (auto simp: hex_digit_def hex_value_def)

lemma hex4_value:
  fixes c :: nat
  shows "c div 4096 * 4096 + c div 256 mod 16 * 256 + c div 16 mod 16 * 16 + c mod 16 = c"
proof -
  have "c div 256 = c div 16 div 16" "c div 4096 = c div 256 div 16"
    by (simp_all add: div_mult2_eq [symmetric])
  moreover have "c = c div 16 * 16 + c mod 16" "c div 16 = c div 16 div 16 * 16 + c div 16 mod 16"
    "c div 256 = c div 256 div 16 * 16 + c div 256 mod 16"
    by simp_all
  ultimately show ?thesis by linarith
qed

lemma hex4_sound:
  assumes "c < 65536"
  shows "length (hex4 c) = 4" and "list_all is_hex (hex4 c)"
    and "hex_value (hex4 c ! 0) * 4096 + hex_value (hex4 c ! 1) * 256 +
         hex_value (hex4 c ! 2) * 16 + hex_value (hex4 c ! 3) = c"
proof -
  from assms have "c div 4096 < 16" by auto
  then show "length (hex4 c) = 4" "list_all is_hex (hex4 c)"
    "hex_value (hex4 c ! 0) * 4096 + hex_value (hex4 c ! 1) * 256 +
         hex_value (hex4 c ! 2) * 16 + hex_value (hex4 c ! 3) = c"
    using hex4_value [of c] by (simp_all add: hex4_def hex_digit_hex hex_value_digit)
qed

lemma pstr_escape_u:
  "c < 65536 \<Longrightarrow> pstr (escape_u c @ r) = map_option (apfst (Cons c)) (pstr r)"
  using hex4_sound [of c] by (simp add: escape_u_def nth_append)

lemma pstr_quote_unit:
  assumes "c < 65536"
  shows "pstr (quote_unit c @ r) = map_option (apfst (Cons c)) (pstr r)"
  using assms pstr_escape_u [OF assms, of r]
  by (auto simp: quote_unit_def simple_escape_def simp del: pstr.simps)
     (simp_all add: simple_escape_def)

lemma pstr_plain:
  "32 \<le> c \<Longrightarrow> c \<noteq> 34 \<Longrightarrow> c \<noteq> 92 \<Longrightarrow> pstr (c # r) = map_option (apfst (Cons c)) (pstr r)"
  by simp

lemma pstr_quote_body: "wf_str s \<Longrightarrow> pstr (quote_body s @ 34 # r) = Some (s, r)"
proof (induction s rule: quote_body.induct)
  case 1
  then show ?case by simp
next
  case (2 c s)
  have c: "c < 65536" and s: "wf_str s" using "2.prems" by (auto simp: wf_str_def)
  show ?case
  proof (cases "is_high c")
    case True
    then have plain: "32 \<le> c" "c \<noteq> 34" "c \<noteq> 92" by (auto simp: is_high_def)
    show ?thesis
    proof (cases s)
      case Nil
      with True c show ?thesis by (simp add: pstr_escape_u del: pstr.simps(2)) (simp add: pstr.simps)
    next
      case (Cons d t)
      show ?thesis
      proof (cases "is_low d")
        case True
        then have pd: "32 \<le> d" "d \<noteq> 34" "d \<noteq> 92" by (auto simp: is_low_def)
        have "pstr (quote_body t @ 34 # r) = Some (t, r)"
          using "2.IH"(1) \<open>is_high c\<close> Cons True s by (simp add: wf_str_def)
        with True Cons \<open>is_high c\<close> show ?thesis
          by (simp add: pstr_plain [OF plain] pstr_plain [OF pd] del: pstr.simps(2))
      next
        case False
        with 2 True Cons s have "pstr (quote_body s @ 34 # r) = Some (s, r)" by simp
        with False Cons True c show ?thesis by (simp add: pstr_escape_u del: pstr.simps(2))
      qed
    qed
  next
    case False
    show ?thesis
    proof (cases "is_low c")
      case True
      with 2 False s have "pstr (quote_body s @ 34 # r) = Some (s, r)" by simp
      with False True c show ?thesis by (simp add: pstr_escape_u del: pstr.simps(2))
    next
      case nl: False
      with 2 False s have "pstr (quote_body s @ 34 # r) = Some (s, r)" by simp
      with False nl c show ?thesis by (simp add: pstr_quote_unit del: pstr.simps(2))
    qed
  qed
qed

section \<open>Numbers\<close>

text \<open>\<open>nd r\<close>: no digit follows; \<open>delim r\<close>: nothing follows that would extend a number.\<close>

definition nd :: "jstr \<Rightarrow> bool" where
  "nd r \<longleftrightarrow> (case r of [] \<Rightarrow> True | c # _ \<Rightarrow> \<not> is_digit c)"

definition delim :: "jstr \<Rightarrow> bool" where
  "delim r \<longleftrightarrow> (case r of [] \<Rightarrow> True | c # _ \<Rightarrow> c = 44 \<or> c = 93 \<or> c = 125)"

lemma nd_simps [simp]: "nd []" "nd (c # r) \<longleftrightarrow> \<not> is_digit c"
  by (simp_all add: nd_def)

lemma delim_simps [simp]: "delim []" "delim (c # r) \<longleftrightarrow> c = 44 \<or> c = 93 \<or> c = 125"
  by (simp_all add: delim_def)

lemma delim_nd: "delim r \<Longrightarrow> nd r"
  by (cases r) (auto simp: is_digit_def)

lemma digits_split:
  assumes "list_all is_digit d" and "nd r"
  shows "takeWhile is_digit (d @ r) = d" and "dropWhile is_digit (d @ r) = r"
  using assms takeWhile_append_all [of is_digit d r] dropWhile_append_all [of is_digit d r]
  by (cases r; simp)+

lemma pint_ok:
  assumes "list_all is_digit i" "i \<noteq> []" "hd i \<noteq> 48 \<or> i = [48]" "nd r"
  shows "pint (i @ r) = Some (i, r)"
proof (cases i)
  case (Cons c t)
  with assms digits_split [OF assms(1,4)] show ?thesis
    by (auto simp: pint_def)
qed (use assms in simp)

lemma pfrac_none: "r = [] \<or> hd r \<noteq> 46 \<Longrightarrow> pfrac r = Some ([], r)"
  by (cases r) (auto simp: pfrac_def)

lemma pfrac_dot:
  "list_all is_digit f \<Longrightarrow> f \<noteq> [] \<Longrightarrow> nd r \<Longrightarrow> pfrac (46 # f @ r) = Some (f, r)"
  by (simp add: pfrac_def digits_split)

lemma pexp_none: "delim r \<Longrightarrow> pexp r = Some (0, r)"
  by (cases r) (auto simp: pexp_def)

lemma pexp_e:
  "list_all is_digit d \<Longrightarrow> d \<noteq> [] \<Longrightarrow> nd r \<Longrightarrow>
     pexp (101 # (if b then 43 else 45) # d @ r) =
       Some (if b then int (read_nat d) else - int (read_nat d), r)"
  by (simp add: pexp_def pexp_digits_def digits_split)

lemma delim_not_dot: "delim r \<Longrightarrow> r = [] \<or> hd r \<noteq> 46"
  by (cases r) auto

lemma pabs_ok:
  assumes "pint s = Some (i, r1)" "pfrac r1 = Some (f, r2)" "pexp r2 = Some (x, r)"
    and "int (read_nat (i @ f)) = int m * 10 ^ j" and "x - int (length f) = e - int j"
    and "m mod 10 \<noteq> 0"
  shows "pabs neg s = Some (JNum (Dec (if neg then - int m else int m) e), r)"
proof -
  have "(if neg then - int m else int m) mod 10 \<noteq> 0"
    using assms(6) by auto presburger+
  from dec_shift [OF this, of j e] assms(1-5) show ?thesis
    by (auto simp: pabs_def)
qed

lemma show_nat_shape:
  assumes "0 < m"
  shows "list_all is_digit (show_nat m)" "show_nat m \<noteq> []" "hd (show_nat m) \<noteq> 48"
  using assms by (simp_all add: show_nat_hd)

lemma list_all_take_drop:
  "list_all P xs \<Longrightarrow> list_all P (take n xs)" "list_all P xs \<Longrightarrow> list_all P (drop n xs)"
  "list_all P xs \<Longrightarrow> list_all P (tl xs)"
  by (auto simp: list_all_iff dest: in_set_takeD in_set_dropD)
     (metis list.set_sel(2) list.sel(2))

lemma pabs_abs_text:
  assumes m: "0 < m" "m mod 10 \<noteq> 0" and r: "delim r"
  shows "pabs neg (abs_text m e @ r) = Some (JNum (Dec (if neg then - int m else int m) e), r)"
proof -
  let ?ds = "show_nat m" let ?k = "int (length ?ds)" let ?n = "?k + e"
  note sh = show_nat_shape [OF m(1)]
  have lz: "list_all is_digit (replicate j 48)" for j by (simp add: list_all_iff is_digit_def)
  consider (a) "?k \<le> ?n \<and> ?n \<le> 21" | (b) "\<not> (?k \<le> ?n \<and> ?n \<le> 21)" "0 < ?n \<and> ?n \<le> 21"
    | (c) "?n \<le> 0" "- 6 < ?n"
    | (d) "\<not> (?k \<le> ?n \<and> ?n \<le> 21)" "\<not> (0 < ?n \<and> ?n \<le> 21)" "\<not> (- 6 < ?n \<and> ?n \<le> 0)"
    by linarith
  then show ?thesis
  proof cases
    case a
    then have t: "abs_text m e = ?ds @ replicate (nat e) 48" by (simp add: abs_text_def)
    show ?thesis unfolding t
    proof (rule pabs_ok [where j = "nat e", OF _ _ pexp_none [OF r] _ _ m(2)])
      show "pint ((?ds @ replicate (nat e) 48) @ r) = Some (?ds @ replicate (nat e) 48, r)"
        using sh lz r by (intro pint_ok) (auto intro: delim_nd)
      show "pfrac r = Some ([], r)" by (rule pfrac_none [OF delim_not_dot [OF r]])
    qed (use a in \<open>simp_all add: read_nat_append\<close>)
  next
    case b
    let ?n' = "nat ?n"
    from b have n': "0 < ?n'" "?n' < length ?ds" by auto
    with b have t: "abs_text m e = take ?n' ?ds @ 46 # drop ?n' ?ds" by (simp add: abs_text_def Let_def)
    have hdn: "hd (take ?n' ?ds) \<noteq> 48" using sh n' by (simp add: hd_take)
    show ?thesis unfolding t
    proof (rule pabs_ok [where j = 0, OF _ _ pexp_none [OF r] _ _ m(2)])
      show "pint ((take ?n' ?ds @ 46 # drop ?n' ?ds) @ r) =
          Some (take ?n' ?ds, 46 # drop ?n' ?ds @ r)"
        using pint_ok [of "take ?n' ?ds" "46 # drop ?n' ?ds @ r"] sh n' hdn
        by (simp add: list_all_take_drop is_digit_def [of 46])
      show "pfrac (46 # drop ?n' ?ds @ r) = Some (drop ?n' ?ds, r)"
        using n' r by (intro pfrac_dot) (auto intro: list_all_take_drop delim_nd)
    qed (use n' in auto)
  next
    case c
    let ?z = "replicate (nat (- ?n)) 48"
    have "e < 0" using sh(2) c(1) by (cases ?ds) auto
    with c have t: "abs_text m e = 48 # 46 # ?z @ ?ds"
      by (auto simp: abs_text_def Let_def)
    show ?thesis unfolding t
    proof (rule pabs_ok [where j = 0, OF _ _ pexp_none [OF r] _ _ m(2)])
      show "pint ((48 # 46 # ?z @ ?ds) @ r) = Some ([48], 46 # (?z @ ?ds) @ r)"
        by (simp add: pint_def)
      show "pfrac (46 # (?z @ ?ds) @ r) = Some (?z @ ?ds, r)"
        using r sh lz by (intro pfrac_dot) (auto intro: delim_nd)
    qed (use c in \<open>auto simp: read_nat_Cons read_nat_append\<close>)
  next
    case d
    let ?x = "show_nat (nat \<bar>?n - 1\<bar>)"
    let ?tail = "101 # (if 0 \<le> ?n - 1 then 43 else 45) # ?x"
    have ex: "pexp (?tail @ r) = Some (?n - 1, r)"
      using pexp_e [of ?x r "0 \<le> ?n - 1"] delim_nd [OF r] by simp
    have t0: "abs_text m e = (if ?k = 1 then ?ds else hd ?ds # 46 # tl ?ds) @ ?tail"
      unfolding abs_text_def Let_def using d by (simp only: if_False)
    show ?thesis
    proof (cases "length ?ds = 1")
      case True
      then have t: "abs_text m e = ?ds @ ?tail" using t0 by simp
      show ?thesis unfolding t
      proof (rule pabs_ok [where j = 0, OF _ _ ex _ _ m(2)])
        show "pint ((?ds @ ?tail) @ r) = Some (?ds, ?tail @ r)"
          using pint_ok [of ?ds "?tail @ r"] sh by (simp add: is_digit_def [of 101])
        show "pfrac (?tail @ r) = Some ([], ?tail @ r)" by (rule pfrac_none) simp
      qed (use True in auto)
    next
      case False
      then have t: "abs_text m e = hd ?ds # 46 # tl ?ds @ ?tail"
        using t0 by simp
      obtain c ds' where ds: "?ds = c # ds'" using sh(2) by (cases ?ds) auto
      with False have ds': "ds' \<noteq> []" by auto
      have len: "length (show_nat m) = Suc (length ds')" and rd: "read_nat (c # ds') = m"
        using ds by (metis length_Cons, metis read_show_nat)
      show ?thesis unfolding t ds list.sel
      proof (rule pabs_ok [where j = 0, OF _ _ _ _ _ m(2)])
        show "pint ((c # 46 # ds' @ 101 # (if 0 \<le> int (length (c # ds')) + e - 1 then 43 else 45) #
            show_nat (nat \<bar>int (length (c # ds')) + e - 1\<bar>)) @ r) =
          Some ([c], 46 # ds' @ (?tail @ r))"
          using pint_ok [of "[c]"] sh ds by (simp add: is_digit_def [of 46])
        show "pfrac (46 # ds' @ (?tail @ r)) = Some (ds', ?tail @ r)"
          using ds' sh ds by (intro pfrac_dot) (auto simp: is_digit_def [of 101])
        show "pexp (?tail @ r) = Some (?n - 1, r)" by (rule ex)
      qed (use len rd in auto)
    qed
  qed
qed

lemma abs_text_first: "0 < m \<Longrightarrow> \<exists>c t. abs_text m e = c # t \<and> is_digit c"
proof -
  assume "0 < m"
  then obtain c ds where ds: "show_nat m = c # ds" "is_digit c"
    using show_nat_shape [of m] by (cases "show_nat m") auto
  then show ?thesis
    by (auto simp: abs_text_def Let_def is_digit_def [of 48] take_Cons' split: if_splits)
qed

lemma num_text_first:
  assumes "is_finite x" "wf_num x"
  shows "\<exists>c t. num_text x = c # t \<and> (c = 45 \<or> is_digit c)"
proof (cases x)
  case (Dec s e)
  show ?thesis
  proof (cases "s = 0")
    case False
    then have "0 < nat \<bar>s\<bar>" by simp
    then obtain c t where "abs_text (nat \<bar>s\<bar>) e = c # t" "is_digit c"
      using abs_text_first by blast
    with False Dec show ?thesis by auto
  qed (use Dec in \<open>simp add: is_digit_def\<close>)
qed (use assms in auto)

lemma pnum_num_text:
  assumes "is_finite x" "wf_num x" and r: "delim r"
  shows "pnum (num_text x @ r) = Some (JNum x, r)"
proof (cases x)
  case (Dec s e)
  show ?thesis
  proof (cases "s = 0")
    case True
    with assms Dec have x: "x = Dec 0 0" by simp
    show ?thesis
      using pfrac_none [OF delim_not_dot [OF r]] pexp_none [OF r]
      by (simp add: x pnum_def pabs_def pint_def dec.simps)
  next
    case False
    with assms Dec have m: "0 < nat \<bar>s\<bar>" "nat \<bar>s\<bar> mod 10 \<noteq> 0"
      by (auto simp: mod_eq_0_iff_dvd dvd_nat_abs_iff)
    obtain c t where ct: "abs_text (nat \<bar>s\<bar>) e = c # t" "is_digit c"
      using abs_text_first [OF m(1)] by blast
    show ?thesis
      using pabs_abs_text [OF m r, of "s < 0" e] False Dec ct
      by (auto simp: pnum_def is_digit_def)
  qed
qed (use assms in auto)

section \<open>The round trip\<close>

lemma stringify_first:
  assumes "wf_json v"
  obtains c t where "stringify v = c # t" "\<not> is_ws c" "c \<noteq> 93" "c \<noteq> 125" "c \<noteq> 44"
proof (cases v)
  case (JNum x)
  with assms obtain c t where "stringify v = c # t" "c = 45 \<or> is_digit c"
    using num_text_first [of x] by auto
  with that [of c t] show ?thesis by (auto simp: is_digit_def is_ws_def)
next
  case JNull
  then show ?thesis using that by (simp add: js_def is_ws_def)
next
  case (JBool b)
  then show ?thesis using that by (cases b) (simp_all add: js_def is_ws_def)
qed (use that in \<open>simp_all add: quote_def is_ws_def\<close>)

lemma skip_ws_id: "\<not> is_ws c \<Longrightarrow> skip_ws (c # t) = c # t"
  by (simp add: skip_ws_def)

lemma skip_stringify: "wf_json v \<Longrightarrow> skip_ws (stringify v @ r) = stringify v @ r"
  by (metis append_Cons skip_ws_id stringify_first)

lemma obj_put_new: "k \<notin> fst ` set ms \<Longrightarrow> obj_put ms k v = ms @ [(k, v)]"
  by (induction ms) auto

lemma skip_delim: "delim r \<Longrightarrow> skip_ws r = r"
  by (cases r) (auto simp: skip_ws_def is_ws_def)

lemma pval_stringify:
  shows "wf_json v \<Longrightarrow> delim r \<Longrightarrow> 2 * length (stringify v) \<le> n \<Longrightarrow>
      pval n (stringify v @ r) = Some (v, r)"
    and "list_all wf_json vs \<Longrightarrow> vs \<noteq> [] \<Longrightarrow> 2 * length (str_elems vs) + 1 \<le> n \<Longrightarrow>
      parr n acc (str_elems vs @ 93 # r) = Some (JArr (acc @ vs), r)"
    and "list_all (\<lambda>m. wf_str (fst m) \<and> wf_json (snd m)) ms \<Longrightarrow> distinct (map fst (acc' @ ms)) \<Longrightarrow>
      ms \<noteq> [] \<Longrightarrow> 2 * length (str_members ms) + 1 \<le> n \<Longrightarrow>
      pobj n acc' (str_members ms @ 125 # r) = Some (JObj (acc' @ ms), r)"
proof (induction v and vs and ms arbitrary: n r and n r acc and n r acc'
    rule: stringify_str_elems_str_members.induct)
  case 1
  then show ?case by (cases n) (simp_all add: js_def skip_ws_id is_ws_def pword_def)
next
  case (2 b)
  then show ?case
    by (cases n; cases b) (simp_all add: js_def skip_ws_id is_ws_def pword_def)
next
  case (3 x)
  then obtain c t where ct: "num_text x = c # t" "c = 45 \<or> is_digit c"
    using num_text_first [of x] by auto
  have p: "pnum (num_text x @ r) = Some (JNum x, r)" using 3 by (intro pnum_num_text) auto
  obtain n' where n: "n = Suc n'" using 3 ct by (cases n) auto
  have ws: "skip_ws (num_text x @ r) = c # t @ r"
    using ct by (auto simp: skip_ws_id is_ws_def is_digit_def)
  have "c \<noteq> 123 \<and> c \<noteq> 91 \<and> c \<noteq> 34 \<and> c \<noteq> 110 \<and> c \<noteq> 116 \<and> c \<noteq> 102"
    using ct(2) by (auto simp: is_digit_def)
  with p ct n ws show ?case by simp
next
  case (4 s)
  then obtain n' where n: "n = Suc n'" by (cases n) (auto simp: quote_def)
  with 4 show ?case
    using pstr_quote_body [of s r] by (simp add: quote_def skip_ws_id is_ws_def del: pstr.simps)
next
  case (5 vs)
  then obtain n' where n: "n = Suc n'" by (cases n) auto
  show ?case
  proof (cases vs)
    case Nil
    with n show ?thesis by (simp add: skip_ws_id is_ws_def)
  next
    case (Cons v ws)
    then have v: "wf_json v" using 5 by simp
    obtain c t where ct: "stringify v = c # t" "\<not> is_ws c" "c \<noteq> 93"
      using stringify_first [OF v] by metis
    have "parr n' [] (str_elems vs @ 93 # r) = Some (JArr ([] @ vs), r)"
      using 5 Cons n by (intro "5.IH") auto
    with ct Cons n show ?thesis
      by (simp add: skip_ws_id is_ws_def [of 91] del: parr.simps)
  qed
next
  case (6 ms)
  then obtain n' where n: "n = Suc n'" by (cases n) auto
  show ?case
  proof (cases ms)
    case Nil
    with n show ?thesis by (simp add: skip_ws_id is_ws_def)
  next
    case (Cons m ms')
    obtain k v where m: "m = (k, v)" by fastforce
    have "pobj n' [] (str_members ms @ 125 # r) = Some (JObj ([] @ ms), r)"
      using 6 Cons n by (intro "6.IH") (auto simp: wf_json_Obj)
    with Cons n m show ?thesis
      by (simp add: quote_def skip_ws_id is_ws_def [of 123] is_ws_def [of 34] del: pobj.simps)
  qed
next
  case 7
  then show ?case by simp
next
  case (8 v vs)
  then obtain n' where n: "n = Suc n'" by (cases n) auto
  show ?case
  proof (cases "vs = []")
    case True
    have "pval n' (stringify v @ 93 # r) = Some (v, 93 # r)"
      using 8 n True by (intro "8.IH"(1)) auto
    with True n show ?thesis by (simp add: skip_ws_id is_ws_def)
  next
    case False
    have "pval n' (stringify v @ 44 # str_elems vs @ 93 # r) = Some (v, 44 # str_elems vs @ 93 # r)"
      using 8 n False by (intro "8.IH"(1)) auto
    moreover have "parr n' (acc @ [v]) (str_elems vs @ 93 # r) = Some (JArr ((acc @ [v]) @ vs), r)"
      using 8 n False by (intro "8.IH"(2)) auto
    ultimately show ?thesis using False n by (simp add: skip_ws_id is_ws_def)
  qed
next
  case 9
  then show ?case by simp
next
  case (10 k v ms)
  then obtain n' where n: "n = Suc n'" by (cases n) auto
  have k: "pstr (quote_body k @ 34 # s) = Some (k, s)" for s
    using 10 by (intro pstr_quote_body) auto
  have put: "obj_put acc' k v = acc' @ [(k, v)]"
    using 10 by (intro obj_put_new) auto
  show ?case
  proof (cases "ms = []")
    case True
    have "pval n' (stringify v @ 125 # r) = Some (v, 125 # r)"
      using 10 n True by (intro "10.IH"(1)) (auto simp: quote_def)
    with True n k put show ?thesis
      by (simp add: quote_def skip_ws_id is_ws_def del: pstr.simps)
  next
    case False
    have "pval n' (stringify v @ 44 # str_members ms @ 125 # r) =
        Some (v, 44 # str_members ms @ 125 # r)"
      using 10 n False by (intro "10.IH"(1)) (auto simp: quote_def)
    moreover have "pobj n' (acc' @ [(k, v)]) (str_members ms @ 125 # r) =
        Some (JObj ((acc' @ [(k, v)]) @ ms), r)"
      using 10 n False by (intro "10.IH"(2)) auto
    ultimately show ?thesis using False n k put
      by (simp add: quote_def skip_ws_id is_ws_def del: pstr.simps)
  qed
qed

lemma json_parse_stringify:
  assumes "wf_json v"
  shows "json_parse (stringify v) = Some v"
  using pval_stringify(1) [OF assms, of "[]" "2 * length (stringify v) + 2"]
  by (simp add: json_parse_def skip_ws_def)

end
