(* ===== verification/Router_Contract.thy ===== *)
theory Router_Contract
  imports Js_Json
begin

text \<open>
  The stored configuration of the platform router, after
  \<open>web/src/lib/platform-router-config/contract.ts\<close>, with the address policy of
  \<open>web/src/lib/public-endpoint.ts\<close> it calls. The URL parser, \<open>isIP\<close> and the address
  classification of \<open>ipaddr.js\<close> are parameters, collected in the record \<open>platform\<close>; a
  field the source types as \<open>unknown\<close> is a \<^typ>\<open>json option\<close>, \<open>None\<close> being \<open>undefined\<close>.
\<close>

section \<open>Errors of the subsystem\<close>

datatype errno = ENOENT | EEXIST | ENOTEMPTY | ENOTDIR | ELOOP | EISDIR | EIO

datatype router_error =
    ConfigValidation
  | PlainError
  | TransactionError
  | ValidationError
  | CorruptionError
  | ConflictError
  | LockTimeoutError
  | LockOwnershipError
  | CommitUncertainError
  | AuditPendingError
  | StorageUncertainError
  | StateIndeterminateError
  | ProtectedUncertainError
  | NodeError errno

section \<open>Parameters\<close>

record url =
  url_protocol :: jstr
  url_username :: jstr
  url_password :: jstr
  url_hash :: jstr
  url_search :: jstr
  url_pathname :: jstr
  url_hostname :: jstr
  url_origin :: jstr

record ip_address =
  ip_unicast :: bool
  ip_is_v4 :: bool
  ip_global6 :: bool

record platform =
  url_parse :: "jstr \<Rightarrow> url option"
  isIP :: "jstr \<Rightarrow> nat"
  ip_process :: "jstr \<Rightarrow> ip_address option"
  sha256 :: "nat list \<Rightarrow> jstr"

section \<open>Data\<close>

datatype ManagedRouterProtocol = OpenaiCompatible | AnthropicMessages | GeminiGenerateContent

record NormalizedStoredRouterConfig =
  cfg_endpoint :: jstr
  cfg_model :: jstr
  cfg_protocol :: ManagedRouterProtocol
  cfg_enabled :: bool
  cfg_credentialFile :: jstr
  cfg_assistantInstructions :: jstr
  cfg_assistantMaxOutputTokens :: jsnum
  cfg_assistantTemperature :: jsnum
  cfg_assistantMaxSteps :: jsnum
  cfg_assistantTimeoutMs :: jsnum
  cfg_modelReasoningEfforts :: "jstr list"
  cfg_assistantReasoningEffort :: jstr

record StoredRouterConfigCandidate =
  cand_endpoint :: "json option"
  cand_model :: "json option"
  cand_protocol :: "json option"
  cand_enabled :: "json option"
  cand_credentialFile :: "json option"
  cand_assistantInstructions :: "json option"
  cand_assistantMaxOutputTokens :: "json option"
  cand_assistantTemperature :: "json option"
  cand_assistantMaxSteps :: "json option"
  cand_assistantTimeoutMs :: "json option"
  cand_modelReasoningEfforts :: "json option"
  cand_assistantReasoningEffort :: "json option"

record ManagedPlatformRouterConfig =
  m_endpoint :: jstr
  m_model :: jstr
  m_protocol :: ManagedRouterProtocol
  m_enabled :: bool
  m_credentialConfigured :: bool
  m_assistantInstructions :: jstr
  m_assistantMaxOutputTokens :: jsnum
  m_assistantTemperature :: jsnum
  m_assistantMaxSteps :: jsnum
  m_assistantTimeoutMs :: jsnum
  m_assistantReasoningEffort :: jstr
  m_modelReasoningEfforts :: "jstr list"

definition LEGACY_ROUTER_KEY_FILE :: jstr where
  "LEGACY_ROUTER_KEY_FILE = js ''platform-router.key''"

text \<open>\<open>MANAGED_ROUTER_KEY_FILE\<close>: \<open>^platform-router-key-[0-9a-f-]{36}\.key$\<close>.\<close>

definition MANAGED_ROUTER_KEY_FILE :: "jstr \<Rightarrow> bool" where
  "MANAGED_ROUTER_KEY_FILE s \<longleftrightarrow>
     length s = 60 \<and> take 20 s = js ''platform-router-key-'' \<and> drop 56 s = js ''.key'' \<and>
     list_all (\<lambda>c. is_hex_lower c \<or> c = 45) (take 36 (drop 20 s))"

section \<open>Address policy\<close>

definition strip_brackets :: "jstr \<Rightarrow> jstr" where
  "strip_brackets s =
     (let t = (case s of c # r \<Rightarrow> if c = 91 then r else s | [] \<Rightarrow> [])
      in if t \<noteq> [] \<and> last t = 93 then butlast t else t)"

definition isPrivateOrReservedIpLiteral :: "platform \<Rightarrow> jstr \<Rightarrow> bool" where
  "isPrivateOrReservedIpLiteral P hostname =
     (let normalized = to_lower (strip_brackets hostname); family = isIP P normalized
      in if family = 0 then False
         else case ip_process P normalized of
           None \<Rightarrow> True
         | Some address \<Rightarrow>
             if \<not> ip_unicast address then True
             else if family = 6 \<and> ip_is_v4 address then True
             else family = 6 \<and> \<not> ip_global6 address)"

section \<open>Field normalisation\<close>

definition strip_slashes :: "jstr \<Rightarrow> jstr" where
  "strip_slashes s = rev (dropWhile (\<lambda>c. c = 47) (rev s))"

definition text_of :: "json option \<Rightarrow> jstr" where
  "text_of v = (case as_string v of Some s \<Rightarrow> trim s | None \<Rightarrow> [])"

definition normalizeEndpoint :: "platform \<Rightarrow> json option \<Rightarrow> router_error + jstr" where
  "normalizeEndpoint P v =
     (case url_parse P (text_of v) of
        None \<Rightarrow> Inl ConfigValidation
      | Some url \<Rightarrow>
          if url_protocol url \<noteq> js ''https:'' \<or> url_username url \<noteq> [] \<or> url_password url \<noteq> [] \<or>
             url_hash url \<noteq> [] \<or> url_search url \<noteq> [] \<or> 512 < length (url_pathname url) \<or>
             isPrivateOrReservedIpLiteral P (url_hostname url)
          then Inl ConfigValidation
          else let pathname = strip_slashes (url_pathname url)
               in Inr (url_origin url @ (if pathname = js ''/'' then [] else pathname)))"

fun protocol_text :: "ManagedRouterProtocol \<Rightarrow> jstr" where
  "protocol_text OpenaiCompatible = js ''openai-compatible''"
| "protocol_text AnthropicMessages = js ''anthropic-messages''"
| "protocol_text GeminiGenerateContent = js ''gemini-generate-content''"

definition normalizeProtocol :: "json option \<Rightarrow> router_error + ManagedRouterProtocol" where
  "normalizeProtocol v =
     (if v = Some (JStr (protocol_text OpenaiCompatible)) then Inr OpenaiCompatible
      else if v = Some (JStr (protocol_text AnthropicMessages)) then Inr AnthropicMessages
      else if v = Some (JStr (protocol_text GeminiGenerateContent)) then Inr GeminiGenerateContent
      else Inl ConfigValidation)"

definition model_char :: "nat \<Rightarrow> bool" where
  "model_char c \<longleftrightarrow> is_alnum c \<or> c = 46 \<or> c = 95 \<or> c = 58 \<or> c = 47 \<or> c = 45"

definition isValidProviderModel :: "json option \<Rightarrow> ManagedRouterProtocol option \<Rightarrow> bool" where
  "isValidProviderModel v protocol =
     (case as_string v of
        None \<Rightarrow> False
      | Some s \<Rightarrow>
          if s \<noteq> trim s \<or> length s = 0 \<or> 256 < length s \<or>
             \<not> (is_alnum (hd s) \<and> list_all model_char s)
          then False
          else case protocol of
            Some GeminiGenerateContent \<Rightarrow> 47 \<notin> set s \<and> 58 \<notin> set s
          | Some _ \<Rightarrow> True
          | None \<Rightarrow> False)"

definition boundedText :: "json option \<Rightarrow> nat \<Rightarrow> router_error + jstr" where
  "boundedText v maximum =
     (let normalized = text_of v
      in if normalized = [] \<or> maximum < length normalized then Inl ConfigValidation
         else Inr normalized)"

definition normalizeProviderModel ::
    "json option \<Rightarrow> ManagedRouterProtocol \<Rightarrow> router_error + jstr" where
  "normalizeProviderModel v protocol =
     rbind (boundedText v 256) (\<lambda>model.
       if isValidProviderModel (Some (JStr model)) (Some protocol) then Inr model
       else Inl ConfigValidation)"

definition boundedAuditText :: "jstr \<Rightarrow> router_error + jstr" where
  "boundedAuditText v =
     (let normalized = trim v
      in if normalized = [] \<or> 256 < length normalized \<or> 13 \<in> set normalized \<or> 10 \<in> set normalized
         then Inl ConfigValidation else Inr normalized)"

definition effort_char :: "nat \<Rightarrow> bool" where
  "effort_char c \<longleftrightarrow> is_alnum c \<or> c = 95 \<or> c = 45"

definition effort_ok :: "jstr \<Rightarrow> bool" where
  "effort_ok s \<longleftrightarrow> 1 \<le> length s \<and> length s \<le> 32 \<and> list_all effort_char s"

definition normalizeReasoningEfforts :: "json option \<Rightarrow> jstr list" where
  "normalizeReasoningEfforts v =
     (case as_array v of
        None \<Rightarrow> []
      | Some xs \<Rightarrow>
          take 16 (dedup (filter effort_ok (List.map_filter (\<lambda>x. as_string (Some x)) xs))))"

definition normalizeReasoningEffort :: "json option \<Rightarrow> jstr list \<Rightarrow> jstr" where
  "normalizeReasoningEffort v supported =
     (case as_string v of
        Some s \<Rightarrow> if s \<in> set supported then s else js ''none''
      | None \<Rightarrow> js ''none'')"

definition normalizeCredentialFile :: "json option \<Rightarrow> router_error + jstr" where
  "normalizeCredentialFile v =
     (let candidate = (case as_string v of
                         Some s \<Rightarrow> if s \<noteq> [] then s else LEGACY_ROUTER_KEY_FILE
                       | None \<Rightarrow> LEGACY_ROUTER_KEY_FILE)
      in if candidate \<noteq> LEGACY_ROUTER_KEY_FILE \<and> \<not> MANAGED_ROUTER_KEY_FILE candidate
         then Inl ConfigValidation else Inr candidate)"

definition boundedOptionalText :: "json option \<Rightarrow> nat \<Rightarrow> router_error + jstr" where
  "boundedOptionalText v maximum =
     (let normalized = text_of v
      in if maximum < length normalized then Inl ConfigValidation else Inr normalized)"

definition boundedInteger :: "json option \<Rightarrow> jsnum \<Rightarrow> jsnum \<Rightarrow> jsnum \<Rightarrow> jsnum" where
  "boundedInteger v fallback minimum maximum =
     (case as_number v of
        Some x \<Rightarrow> if is_safe_integer x then num_max minimum (num_min maximum x) else fallback
      | None \<Rightarrow> fallback)"

definition boundedNumber :: "json option \<Rightarrow> jsnum \<Rightarrow> jsnum \<Rightarrow> jsnum \<Rightarrow> jsnum" where
  "boundedNumber v fallback minimum maximum =
     (case as_number v of
        Some x \<Rightarrow> if is_finite x then num_max minimum (num_min maximum x) else fallback
      | None \<Rightarrow> fallback)"

definition requiredBoolean :: "json option \<Rightarrow> router_error + bool" where
  "requiredBoolean v = (case as_boolean v of Some b \<Rightarrow> Inr b | None \<Rightarrow> Inl ConfigValidation)"

definition outputTokens :: "json option \<Rightarrow> jsnum" where
  "outputTokens v = boundedInteger v (num_of_int 320) (num_of_int 64) (num_of_int 512)"

definition temperature :: "json option \<Rightarrow> jsnum" where
  "temperature v = boundedNumber v (dec 2 (- 1)) (num_of_int 0) (num_of_int 1)"

definition maxSteps :: "json option \<Rightarrow> jsnum" where
  "maxSteps v = boundedInteger v (num_of_int 5) (num_of_int 2) (num_of_int 8)"

definition timeoutMs :: "json option \<Rightarrow> jsnum" where
  "timeoutMs v = boundedInteger v (num_of_int 20000) (num_of_int 4000) (num_of_int 30000)"

section \<open>Whole configurations\<close>

definition normalizeStoredRouterConfig ::
    "platform \<Rightarrow> StoredRouterConfigCandidate \<Rightarrow> router_error + NormalizedStoredRouterConfig" where
  "normalizeStoredRouterConfig P v =
     (let reasoningEfforts = normalizeReasoningEfforts (cand_modelReasoningEfforts v)
      in rbind (normalizeProtocol (cand_protocol v)) (\<lambda>protocol.
         rbind (normalizeEndpoint P (cand_endpoint v)) (\<lambda>endpoint.
         rbind (normalizeProviderModel (cand_model v) protocol) (\<lambda>model.
         rbind (requiredBoolean (cand_enabled v)) (\<lambda>enabled.
         rbind (normalizeCredentialFile (cand_credentialFile v)) (\<lambda>credentialFile.
         rbind (boundedOptionalText (cand_assistantInstructions v) 4000) (\<lambda>instructions.
         Inr \<lparr> cfg_endpoint = endpoint, cfg_model = model, cfg_protocol = protocol,
               cfg_enabled = enabled, cfg_credentialFile = credentialFile,
               cfg_assistantInstructions = instructions,
               cfg_assistantMaxOutputTokens = outputTokens (cand_assistantMaxOutputTokens v),
               cfg_assistantTemperature = temperature (cand_assistantTemperature v),
               cfg_assistantMaxSteps = maxSteps (cand_assistantMaxSteps v),
               cfg_assistantTimeoutMs = timeoutMs (cand_assistantTimeoutMs v),
               cfg_modelReasoningEfforts = reasoningEfforts,
               cfg_assistantReasoningEffort =
                 normalizeReasoningEffort (cand_assistantReasoningEffort v) reasoningEfforts \<rparr>)))))))"

text \<open>A normalised configuration as the candidate it is when it is read again.\<close>

definition cand_of :: "NormalizedStoredRouterConfig \<Rightarrow> StoredRouterConfigCandidate" where
  "cand_of c =
     \<lparr> cand_endpoint = Some (JStr (cfg_endpoint c)), cand_model = Some (JStr (cfg_model c)),
       cand_protocol = Some (JStr (protocol_text (cfg_protocol c))),
       cand_enabled = Some (JBool (cfg_enabled c)),
       cand_credentialFile = Some (JStr (cfg_credentialFile c)),
       cand_assistantInstructions = Some (JStr (cfg_assistantInstructions c)),
       cand_assistantMaxOutputTokens = Some (JNum (cfg_assistantMaxOutputTokens c)),
       cand_assistantTemperature = Some (JNum (cfg_assistantTemperature c)),
       cand_assistantMaxSteps = Some (JNum (cfg_assistantMaxSteps c)),
       cand_assistantTimeoutMs = Some (JNum (cfg_assistantTimeoutMs c)),
       cand_modelReasoningEfforts = Some (JArr (map JStr (cfg_modelReasoningEfforts c))),
       cand_assistantReasoningEffort = Some (JStr (cfg_assistantReasoningEffort c)) \<rparr>"

text \<open>
  \<open>normalizeManagedRouterInput\<close> normalises every field of the administrator's input and
  normalises the result once more.
\<close>

definition normalizeManagedRouterInput ::
    "platform \<Rightarrow> StoredRouterConfigCandidate \<Rightarrow> jstr \<Rightarrow>
     router_error + NormalizedStoredRouterConfig" where
  "normalizeManagedRouterInput P input credentialFile =
     (let reasoningEfforts = normalizeReasoningEfforts (cand_modelReasoningEfforts input)
      in rbind (normalizeProtocol (cand_protocol input)) (\<lambda>protocol.
         rbind (normalizeEndpoint P (cand_endpoint input)) (\<lambda>endpoint.
         rbind (normalizeProviderModel (cand_model input) protocol) (\<lambda>model.
         rbind (boundedOptionalText (cand_assistantInstructions input) 4000) (\<lambda>instructions.
         normalizeStoredRouterConfig P
           \<lparr> cand_endpoint = Some (JStr endpoint), cand_model = Some (JStr model),
             cand_protocol = Some (JStr (protocol_text protocol)),
             cand_enabled = cand_enabled input,
             cand_credentialFile = Some (JStr credentialFile),
             cand_assistantInstructions = Some (JStr instructions),
             cand_assistantMaxOutputTokens =
               Some (JNum (outputTokens (cand_assistantMaxOutputTokens input))),
             cand_assistantTemperature =
               Some (JNum (temperature (cand_assistantTemperature input))),
             cand_assistantMaxSteps = Some (JNum (maxSteps (cand_assistantMaxSteps input))),
             cand_assistantTimeoutMs = Some (JNum (timeoutMs (cand_assistantTimeoutMs input))),
             cand_modelReasoningEfforts = Some (JArr (map JStr reasoningEfforts)),
             cand_assistantReasoningEffort =
               Some (JStr (normalizeReasoningEffort (cand_assistantReasoningEffort input)
                 reasoningEfforts)) \<rparr>)))))"

text \<open>The twelve members that the decoders copy out of a parsed object.\<close>

definition cand_of_record :: "(jstr \<times> json) list \<Rightarrow> StoredRouterConfigCandidate" where
  "cand_of_record r =
     \<lparr> cand_endpoint = member r ''endpoint'', cand_model = member r ''model'',
       cand_protocol = member r ''protocol'', cand_enabled = member r ''enabled'',
       cand_credentialFile = member r ''credentialFile'',
       cand_assistantInstructions = member r ''assistantInstructions'',
       cand_assistantMaxOutputTokens = member r ''assistantMaxOutputTokens'',
       cand_assistantTemperature = member r ''assistantTemperature'',
       cand_assistantMaxSteps = member r ''assistantMaxSteps'',
       cand_assistantTimeoutMs = member r ''assistantTimeoutMs'',
       cand_modelReasoningEfforts = member r ''modelReasoningEfforts'',
       cand_assistantReasoningEffort = member r ''assistantReasoningEffort'' \<rparr>"

definition decodeStoredRouterConfig ::
    "platform \<Rightarrow> jstr option \<Rightarrow> NormalizedStoredRouterConfig option" where
  "decodeStoredRouterConfig P raw =
     (case raw of
        None \<Rightarrow> None
      | Some text \<Rightarrow>
          (case as_record (json_parse text) of
             None \<Rightarrow> None
           | Some r \<Rightarrow>
               if as_boolean (member r ''enabled'') = None then None
               else case normalizeStoredRouterConfig P (cand_of_record r) of
                 Inl _ \<Rightarrow> None
               | Inr c \<Rightarrow> Some c))"

definition presentManagedConfig ::
    "platform \<Rightarrow> NormalizedStoredRouterConfig \<Rightarrow> bool \<Rightarrow>
     router_error + ManagedPlatformRouterConfig" where
  "presentManagedConfig P v credentialConfigured =
     rbind (normalizeStoredRouterConfig P (cand_of v)) (\<lambda>n.
       Inr \<lparr> m_endpoint = cfg_endpoint n, m_model = cfg_model n, m_protocol = cfg_protocol n,
             m_enabled = cfg_enabled n, m_credentialConfigured = credentialConfigured,
             m_assistantInstructions = cfg_assistantInstructions n,
             m_assistantMaxOutputTokens = cfg_assistantMaxOutputTokens n,
             m_assistantTemperature = cfg_assistantTemperature n,
             m_assistantMaxSteps = cfg_assistantMaxSteps n,
             m_assistantTimeoutMs = cfg_assistantTimeoutMs n,
             m_assistantReasoningEffort = cfg_assistantReasoningEffort n,
             m_modelReasoningEfforts = cfg_modelReasoningEfforts n \<rparr>)"

text \<open>The object that \<open>JSON.stringify\<close> prints for a normalised configuration.\<close>

definition cfg_json :: "NormalizedStoredRouterConfig \<Rightarrow> json" where
  "cfg_json c = JObj
     [(js ''endpoint'', JStr (cfg_endpoint c)), (js ''model'', JStr (cfg_model c)),
      (js ''protocol'', JStr (protocol_text (cfg_protocol c))),
      (js ''enabled'', JBool (cfg_enabled c)),
      (js ''credentialFile'', JStr (cfg_credentialFile c)),
      (js ''assistantInstructions'', JStr (cfg_assistantInstructions c)),
      (js ''assistantMaxOutputTokens'', JNum (cfg_assistantMaxOutputTokens c)),
      (js ''assistantTemperature'', JNum (cfg_assistantTemperature c)),
      (js ''assistantMaxSteps'', JNum (cfg_assistantMaxSteps c)),
      (js ''assistantTimeoutMs'', JNum (cfg_assistantTimeoutMs c)),
      (js ''modelReasoningEfforts'', JArr (map JStr (cfg_modelReasoningEfforts c))),
      (js ''assistantReasoningEffort'', JStr (cfg_assistantReasoningEffort c))]"

section \<open>Laws of the URL parser\<close>

text \<open>
  What the code relies on of the URL parser: the origin and the path of a parsed
  \<open>https\<close> URL are ASCII text without surrounding white space, and parsing the origin,
  alone or followed by the path without its trailing slashes, gives a URL with the same
  scheme, host and origin, that path (\<open>/\<close> for the empty one) and nothing else.
\<close>

definition reparsed :: "url \<Rightarrow> jstr \<Rightarrow> url" where
  "reparsed u p = u\<lparr>url_username := [], url_password := [], url_hash := [], url_search := [],
     url_pathname := (if p = [] then js ''/'' else p)\<rparr>"

definition url_laws :: "platform \<Rightarrow> bool" where
  "url_laws P \<longleftrightarrow>
     (\<forall>s u p. url_parse P s = Some u \<and> url_protocol u = js ''https:'' \<and>
        (p = [] \<or> p = strip_slashes (url_pathname u)) \<longrightarrow>
        trim (url_origin u @ p) = url_origin u @ p \<and>
        list_all (\<lambda>c. c < 128) (url_origin u @ p) \<and>
        url_parse P (url_origin u @ p) = Some (reparsed u p))"

lemma url_lawsD:
  assumes "url_laws P" "url_parse P s = Some u" "url_protocol u = js ''https:''"
    and "p = [] \<or> p = strip_slashes (url_pathname u)"
  shows "trim (url_origin u @ p) = url_origin u @ p"
    and "list_all (\<lambda>c. c < 128) (url_origin u @ p)"
    and "url_parse P (url_origin u @ p) = Some (reparsed u p)"
  using assms unfolding url_laws_def by blast+

lemma strip_slashes_props:
  "strip_slashes (js ''/'') = []" "strip_slashes (strip_slashes s) = strip_slashes s"
  "strip_slashes s \<noteq> js ''/''" "length (strip_slashes s) \<le> length s" "strip_slashes [] = []"
proof -
  show "strip_slashes (js ''/'') = []" "strip_slashes [] = []"
    by (simp_all add: strip_slashes_def js_def)
  have idem: "dropWhile P (dropWhile P xs) = dropWhile P xs" for P :: "nat \<Rightarrow> bool" and xs
    by (induction xs) auto
  show i: "strip_slashes (strip_slashes s) = strip_slashes s" for s
    by (simp add: strip_slashes_def idem)
  show "strip_slashes s \<noteq> js ''/''"
    using i [of s] \<open>strip_slashes (js ''/'') = []\<close> by force
  show "length (strip_slashes s) \<le> length s"
    by (metis length_dropWhile_le length_rev strip_slashes_def)
qed

section \<open>Fields are fixed points of their normalisation\<close>

lemma text_of_trim [simp]: "text_of (Some (JStr s)) = trim s"
  by (simp add: text_of_def)

lemma trim_text_of [simp]: "trim (text_of v) = text_of v"
  by (simp add: text_of_def split: option.split)

lemma normalizeEndpoint_Inr:
  "normalizeEndpoint P v = Inr e \<longleftrightarrow>
     (\<exists>u. url_parse P (text_of v) = Some u \<and> url_protocol u = js ''https:'' \<and>
        url_username u = [] \<and> url_password u = [] \<and> url_hash u = [] \<and> url_search u = [] \<and>
        length (url_pathname u) \<le> 512 \<and> \<not> isPrivateOrReservedIpLiteral P (url_hostname u) \<and>
        e = url_origin u @ strip_slashes (url_pathname u))"
  by (auto simp: normalizeEndpoint_def Let_def strip_slashes_props split: option.splits)

lemma normalizeEndpoint_again:
  assumes laws: "url_laws P" and parsed: "url_parse P s = Some u" "url_protocol u = js ''https:''"
    and len: "length (url_pathname u) \<le> 512" "\<not> isPrivateOrReservedIpLiteral P (url_hostname u)"
    and p: "p = [] \<or> p = strip_slashes (url_pathname u)"
  shows "normalizeEndpoint P (Some (JStr (url_origin u @ p))) = Inr (url_origin u @ p)"
proof -
  note l = url_lawsD [OF laws parsed p]
  have sp: "strip_slashes (url_pathname (reparsed u p)) = p"
    using p by (auto simp: reparsed_def strip_slashes_props)
  have "length (url_pathname (reparsed u p)) \<le> 512"
    using p len strip_slashes_props(4) [of "url_pathname u"] by (auto simp: reparsed_def)
  with l sp parsed len show ?thesis
    by (simp add: normalizeEndpoint_Inr) (simp add: reparsed_def)
qed

lemma normalizeEndpoint_idem:
  assumes "url_laws P" and "normalizeEndpoint P v = Inr e"
  shows "normalizeEndpoint P (Some (JStr e)) = Inr e"
  using assms normalizeEndpoint_again [OF assms(1)] by (auto simp: normalizeEndpoint_Inr)

lemma normalizeEndpoint_ascii:
  "url_laws P \<Longrightarrow> normalizeEndpoint P v = Inr e \<Longrightarrow> list_all (\<lambda>c. c < 128) e"
  by (auto simp: normalizeEndpoint_Inr dest: url_lawsD(2))

lemma normalizeProtocol_text [simp]: "normalizeProtocol (Some (JStr (protocol_text p))) = Inr p"
  by (cases p) (simp_all add: normalizeProtocol_def)

lemma normalizeProviderModel_Inr:
  "normalizeProviderModel v p = Inr m \<longleftrightarrow>
     m = text_of v \<and> isValidProviderModel (Some (JStr m)) (Some p)"
  by (auto simp: normalizeProviderModel_def boundedText_def Let_def isValidProviderModel_def
      split: if_splits)

lemma normalizeProviderModel_idem:
  "normalizeProviderModel v p = Inr m \<Longrightarrow> normalizeProviderModel (Some (JStr m)) p = Inr m"
  by (auto simp: normalizeProviderModel_Inr)

lemma normalizeCredentialFile_idem:
  "normalizeCredentialFile v = Inr f \<Longrightarrow> normalizeCredentialFile (Some (JStr f)) = Inr f"
  by (auto simp: normalizeCredentialFile_def Let_def LEGACY_ROUTER_KEY_FILE_def
      MANAGED_ROUTER_KEY_FILE_def split: if_splits option.splits)

lemma boundedOptionalText_idem:
  "boundedOptionalText v n = Inr t \<Longrightarrow> boundedOptionalText (Some (JStr t)) n = Inr t"
  by (auto simp: boundedOptionalText_def Let_def split: if_splits)

lemma boundedAuditText_idem: "boundedAuditText v = Inr t \<Longrightarrow> boundedAuditText t = Inr t"
  by (auto simp: boundedAuditText_def Let_def split: if_splits)

lemma boundedText_idem: "boundedText v n = Inr t \<Longrightarrow> boundedText (Some (JStr t)) n = Inr t"
  by (auto simp: boundedText_def Let_def split: if_splits)

lemma map_filter_JStr: "List.map_filter (\<lambda>x. as_string (Some x)) (map JStr xs) = xs"
  by (induction xs) (simp_all add: List.map_filter_def)

lemma efforts_props:
  "distinct (normalizeReasoningEfforts v)" "list_all effort_ok (normalizeReasoningEfforts v)"
  "length (normalizeReasoningEfforts v) \<le> 16"
  by (auto simp: normalizeReasoningEfforts_def list_all_iff split: option.splits
      dest: in_set_takeD)

lemma normalizeReasoningEfforts_idem:
  "normalizeReasoningEfforts (Some (JArr (map JStr (normalizeReasoningEfforts v)))) =
     normalizeReasoningEfforts v"
proof -
  have "filter effort_ok (normalizeReasoningEfforts v) = normalizeReasoningEfforts v"
    using efforts_props(2) [of v] by (simp add: filter_id_conv list_all_iff)
  then show ?thesis
    using efforts_props(1,3) [of v]
    by (subst normalizeReasoningEfforts_def) (simp add: map_filter_JStr)
qed

lemma normalizeReasoningEffort_idem:
  "normalizeReasoningEffort (Some (JStr (normalizeReasoningEffort v es))) es =
     normalizeReasoningEffort v es"
  by (auto simp: normalizeReasoningEffort_def split: option.splits)

section \<open>Clamped numbers\<close>

definition clamp :: "jsnum \<Rightarrow> jsnum \<Rightarrow> jsnum \<Rightarrow> jsnum" where
  "clamp mn mx x = num_max mn (num_min mx x)"

lemma clamp_cases:
  assumes "num_val mn < num_val mx"
  obtains "clamp mn mx x = mn" | "clamp mn mx x = mx"
  | "clamp mn mx x = x" "num_val mn < num_val x" "num_val x < num_val mx"
  by (cases "num_val x < num_val mx"; cases "num_val mn < num_val x")
     (use assms that in \<open>simp_all add: clamp_def num_max_def num_min_def\<close>)

lemma clamp_between [simp]:
  "num_val mn < num_val x \<Longrightarrow> num_val x < num_val mx \<Longrightarrow> clamp mn mx x = x"
  by (simp add: clamp_def num_max_def num_min_def)

lemma clamp_ends: "num_val mn < num_val mx \<Longrightarrow> clamp mn mx mn = mn \<and> clamp mn mx mx = mx"
  by (simp add: clamp_def num_max_def num_min_def)

lemma clamp_idem:
  assumes "num_val mn < num_val mx"
  shows "clamp mn mx (clamp mn mx x) = clamp mn mx x"
  by (rule clamp_cases [OF assms, of x]) (simp_all add: clamp_ends [OF assms])

lemma clamp_range:
  assumes "num_val mn < num_val mx"
  shows "num_val mn \<le> num_val (clamp mn mx x) \<and> num_val (clamp mn mx x) \<le> num_val mx"
  by (rule clamp_cases [OF assms, of x]) (use assms in auto)

lemma clamp_keeps: "num_val mn < num_val mx \<Longrightarrow> Q mn \<Longrightarrow> Q mx \<Longrightarrow> Q x \<Longrightarrow> Q (clamp mn mx x)"
  by (erule clamp_cases [of mn mx x]) simp_all

lemma num_val_of_int [simp]: "num_val (num_of_int i) = of_int i"
  by (simp add: num_val_integer)

lemma safe_of_int: "\<bar>i\<bar> \<le> 2 ^ 53 - 1 \<Longrightarrow> is_safe_integer (num_of_int i)"
  by (simp add: is_safe_integer_def)

lemma boundedInteger_clamp:
  "boundedInteger v f mn mx =
     (case as_number v of Some x \<Rightarrow> if is_safe_integer x then clamp mn mx x else f | None \<Rightarrow> f)"
  by (simp add: boundedInteger_def clamp_def split: option.split)

lemma boundedNumber_clamp:
  "boundedNumber v f mn mx =
     (case as_number v of Some x \<Rightarrow> if is_finite x then clamp mn mx x else f | None \<Rightarrow> f)"
  by (simp add: boundedNumber_def clamp_def split: option.split)

lemma boundedInteger_safe:
  assumes "num_val mn < num_val mx" "is_safe_integer mn" "is_safe_integer mx" "is_safe_integer f"
  shows "is_safe_integer (boundedInteger v f mn mx)"
  using assms clamp_keeps [of mn mx is_safe_integer]
  by (auto simp: boundedInteger_clamp split: option.split)

lemma boundedInteger_idem:
  assumes mn: "num_val mn < num_val mx" "is_safe_integer mn" "is_safe_integer mx" "is_safe_integer f"
    and f: "num_val mn < num_val f" "num_val f < num_val mx"
  shows "boundedInteger (Some (JNum (boundedInteger v f mn mx))) f mn mx = boundedInteger v f mn mx"
proof -
  have "clamp mn mx (boundedInteger v f mn mx) = boundedInteger v f mn mx"
    using mn(1) f by (auto simp: boundedInteger_clamp clamp_idem split: option.split)
  with boundedInteger_safe [OF mn, of v] show ?thesis
    by (subst boundedInteger_clamp) simp
qed

lemma boundedNumber_finite:
  assumes "num_val mn < num_val mx" "is_finite mn" "is_finite mx" "is_finite f"
  shows "is_finite (boundedNumber v f mn mx)"
  using assms clamp_keeps [of mn mx is_finite]
  by (auto simp: boundedNumber_clamp split: option.split)

lemma boundedNumber_idem:
  assumes mn: "num_val mn < num_val mx" "is_finite mn" "is_finite mx" "is_finite f"
    and f: "num_val mn < num_val f" "num_val f < num_val mx"
  shows "boundedNumber (Some (JNum (boundedNumber v f mn mx))) f mn mx = boundedNumber v f mn mx"
proof -
  have "clamp mn mx (boundedNumber v f mn mx) = boundedNumber v f mn mx"
    using mn(1) f by (auto simp: boundedNumber_clamp clamp_idem split: option.split)
  with boundedNumber_finite [OF mn, of v] show ?thesis
    by (subst boundedNumber_clamp) simp
qed

lemma dec_fifth: "dec 2 (- 1) = Dec 2 (- 1)"
  by (simp add: dec.simps)

lemma assistant_idem:
  "outputTokens (Some (JNum (outputTokens v))) = outputTokens v"
  "temperature (Some (JNum (temperature v))) = temperature v"
  "maxSteps (Some (JNum (maxSteps v))) = maxSteps v"
  "timeoutMs (Some (JNum (timeoutMs v))) = timeoutMs v"
  unfolding outputTokens_def temperature_def maxSteps_def timeoutMs_def
  by (intro boundedInteger_idem boundedNumber_idem;
      simp add: safe_of_int is_integer_finite dec_fifth)+

section \<open>Reading a normalised configuration again\<close>

lemma normalizeStored_Inr:
  "normalizeStoredRouterConfig P v = Inr c \<longleftrightarrow>
     normalizeProtocol (cand_protocol v) = Inr (cfg_protocol c) \<and>
     normalizeEndpoint P (cand_endpoint v) = Inr (cfg_endpoint c) \<and>
     normalizeProviderModel (cand_model v) (cfg_protocol c) = Inr (cfg_model c) \<and>
     requiredBoolean (cand_enabled v) = Inr (cfg_enabled c) \<and>
     normalizeCredentialFile (cand_credentialFile v) = Inr (cfg_credentialFile c) \<and>
     boundedOptionalText (cand_assistantInstructions v) 4000 = Inr (cfg_assistantInstructions c) \<and>
     cfg_assistantMaxOutputTokens c = outputTokens (cand_assistantMaxOutputTokens v) \<and>
     cfg_assistantTemperature c = temperature (cand_assistantTemperature v) \<and>
     cfg_assistantMaxSteps c = maxSteps (cand_assistantMaxSteps v) \<and>
     cfg_assistantTimeoutMs c = timeoutMs (cand_assistantTimeoutMs v) \<and>
     cfg_modelReasoningEfforts c = normalizeReasoningEfforts (cand_modelReasoningEfforts v) \<and>
     cfg_assistantReasoningEffort c = normalizeReasoningEffort (cand_assistantReasoningEffort v)
       (normalizeReasoningEfforts (cand_modelReasoningEfforts v))"
  by (cases c) (auto simp: normalizeStoredRouterConfig_def Let_def rbind_Inr)

lemma requiredBoolean_JBool [simp]: "requiredBoolean (Some (JBool b)) = Inr b"
  by (simp add: requiredBoolean_def)

lemma normalizeStored_idem:
  assumes "url_laws P" and "normalizeStoredRouterConfig P v = Inr c"
  shows "normalizeStoredRouterConfig P (cand_of c) = Inr c"
  using assms
  by (auto simp: normalizeStored_Inr cand_of_def normalizeProviderModel_idem
      normalizeCredentialFile_idem boundedOptionalText_idem normalizeReasoningEfforts_idem
      normalizeReasoningEffort_idem assistant_idem intro: normalizeEndpoint_idem)

lemma cand_of_cfg_json: "cfg_json c = JObj r \<Longrightarrow> cand_of_record r = cand_of c"
  by (auto simp: cfg_json_def cand_of_record_def cand_of_def)

end
