(* ===== verification/Io.thy ===== *)
theory Io
  imports Prelude Router_Contract
begin

text \<open>
  Programs with effects. A program reads a constant machine, transforms a state and ends
  by returning a value, by throwing an error or by \<open>Crash\<close>: the process does not continue (it
  is killed, or a loop exceeds the bound the machine sets), and no handler runs. The combinators are the control flow of the source: sequencing,
  \<open>try/catch\<close>, \<open>try/finally\<close>, and the \<open>let d = null; try { d = open(); ... } catch
  {...} finally { if (d !== null) close(d) }\<close> idiom. Two kinds of facts are built over
  them: programs that stay inside a relation between the states before and after
  (\<open>keeps\<close>), and outcome triples.
\<close>

section \<open>Programs\<close>

datatype 'a outcome = Ret 'a | Throw router_error | Crash

type_synonym ('m, 's, 'a) prog = "'m \<Rightarrow> 's \<Rightarrow> 'a outcome \<times> 's"

definition ret :: "'a \<Rightarrow> ('m, 's, 'a) prog" where
  "ret x = (\<lambda>M w. (Ret x, w))"

definition throw :: "router_error \<Rightarrow> ('m, 's, 'a) prog" where
  "throw e = (\<lambda>M w. (Throw e, w))"

definition bnd :: "('m, 's, 'a) prog \<Rightarrow> ('a \<Rightarrow> ('m, 's, 'b) prog) \<Rightarrow> ('m, 's, 'b) prog" where
  "bnd m f = (\<lambda>M w. case m M w of
      (Ret x, w') \<Rightarrow> f x M w' | (Throw e, w') \<Rightarrow> (Throw e, w') | (Crash, w') \<Rightarrow> (Crash, w'))"

definition thn :: "('m, 's, 'a) prog \<Rightarrow> ('m, 's, 'b) prog \<Rightarrow> ('m, 's, 'b) prog" where
  "thn m n = bnd m (\<lambda>_. n)"

definition catch :: "('m, 's, 'a) prog \<Rightarrow> (router_error \<Rightarrow> ('m, 's, 'a) prog) \<Rightarrow> ('m, 's, 'a) prog" where
  "catch m h = (\<lambda>M w. case m M w of
      (Ret x, w') \<Rightarrow> (Ret x, w') | (Throw e, w') \<Rightarrow> h e M w' | (Crash, w') \<Rightarrow> (Crash, w'))"

definition run_finally :: "('m, 's, 'a) prog \<Rightarrow> ('m, 's, unit) prog \<Rightarrow> ('m, 's, 'a) prog" where
  "run_finally m c = (\<lambda>M w. case m M w of
      (Ret x, w') \<Rightarrow> thn c (ret x) M w'
    | (Throw e, w') \<Rightarrow> thn c (throw e) M w'
    | (Crash, w') \<Rightarrow> (Crash, w'))"

definition with_fd ::
    "('m, 's, 'd) prog \<Rightarrow> ('d \<Rightarrow> ('m, 's, 'a) prog) \<Rightarrow> (router_error \<Rightarrow> ('m, 's, 'a) prog) \<Rightarrow>
     ('d \<Rightarrow> ('m, 's, unit) prog) \<Rightarrow> ('m, 's, 'a) prog" where
  "with_fd acquire body handler release = (\<lambda>M w. case acquire M w of
      (Ret d, w') \<Rightarrow> run_finally (catch (body d) handler) (release d) M w'
    | (Throw e, w') \<Rightarrow> handler e M w'
    | (Crash, w') \<Rightarrow> (Crash, w'))"

definition get :: "('m \<Rightarrow> 's \<Rightarrow> 'a) \<Rightarrow> ('m, 's, 'a) prog" where
  "get f = (\<lambda>M w. (Ret (f M w), w))"

definition lift_res :: "router_error + 'a \<Rightarrow> ('m, 's, 'a) prog" where
  "lift_res r = (case r of Inl e \<Rightarrow> throw e | Inr x \<Rightarrow> ret x)"

definition guard :: "bool \<Rightarrow> router_error \<Rightarrow> ('m, 's, unit) prog" where
  "guard b e = (if b then ret () else throw e)"

definition run_if :: "bool \<Rightarrow> ('m, 's, unit) prog \<Rightarrow> ('m, 's, unit) prog" where
  "run_if b m = (if b then m else ret ())"

fun each :: "('a \<Rightarrow> ('m, 's, unit) prog) \<Rightarrow> 'a list \<Rightarrow> ('m, 's, unit) prog" where
  "each f [] = ret ()"
| "each f (x # xs) = thn (f x) (each f xs)"

fun foldm :: "('b \<Rightarrow> 'a \<Rightarrow> ('m, 's, 'b) prog) \<Rightarrow> 'b \<Rightarrow> 'a list \<Rightarrow> ('m, 's, 'b) prog" where
  "foldm f b [] = ret b"
| "foldm f b (x # xs) = bnd (f b x) (\<lambda>b'. foldm f b' xs)"

text \<open>
  \<open>instanceof\<close> tests on the error classes: \<open>PlatformRouterTransactionError\<close> is the
  superclass of every error of the transaction layer.
\<close>

fun is_transaction_error :: "router_error \<Rightarrow> bool" where
  "is_transaction_error ConfigValidation = False"
| "is_transaction_error PlainError = False"
| "is_transaction_error ProtectedUncertainError = False"
| "is_transaction_error (NodeError c) = False"
| "is_transaction_error e = True"

text \<open>The handler \<open>if (cause instanceof TransactionError) throw cause; throw new e(...)\<close>.\<close>

definition wrap_as :: "router_error \<Rightarrow> router_error \<Rightarrow> ('m, 's, 'a) prog" where
  "wrap_as e cause = (if is_transaction_error cause then throw cause else throw e)"

section \<open>Outcome triples\<close>

text \<open>
  \<open>outcome M P m Q X C\<close>: from a state satisfying \<open>P\<close>, a return satisfies \<open>Q\<close>, a throw
  \<open>X\<close> and a death \<open>C\<close>.
\<close>

definition outcome ::
    "'m \<Rightarrow> ('s \<Rightarrow> bool) \<Rightarrow> ('m, 's, 'a) prog \<Rightarrow> ('a \<Rightarrow> 's \<Rightarrow> bool) \<Rightarrow>
     (router_error \<Rightarrow> 's \<Rightarrow> bool) \<Rightarrow> ('s \<Rightarrow> bool) \<Rightarrow> bool" where
  "outcome M P m Q X C \<longleftrightarrow>
     (\<forall>w. P w \<longrightarrow> (case m M w of
        (Ret x, w') \<Rightarrow> Q x w' | (Throw e, w') \<Rightarrow> X e w' | (Crash, w') \<Rightarrow> C w'))"

lemma outcomeD:
  assumes "outcome M P m Q X C" "P w"
  shows "m M w = (Ret x, w') \<Longrightarrow> Q x w'"
    and "m M w = (Throw e, w') \<Longrightarrow> X e w'"
    and "m M w = (Crash, w') \<Longrightarrow> C w'"
  using assms by (auto simp: outcome_def dest!: spec [of _ w])

lemma outcome_ret: "(\<And>w. P w \<Longrightarrow> Q x w) \<Longrightarrow> outcome M P (ret x) Q X C"
  by (simp add: outcome_def ret_def)

lemma outcome_throw: "(\<And>w. P w \<Longrightarrow> X e w) \<Longrightarrow> outcome M P (throw e) Q X C"
  by (simp add: outcome_def throw_def)

lemma outcome_get: "(\<And>w. P w \<Longrightarrow> Q (f M w) w) \<Longrightarrow> outcome M P (get f) Q X C"
  by (simp add: outcome_def get_def)

lemma outcome_bnd:
  assumes "outcome M P m R X C" and "\<And>x. outcome M (R x) (f x) Q X C"
  shows "outcome M P (bnd m f) Q X C"
  unfolding outcome_def
proof (intro allI impI)
  fix w assume "P w"
  with assms(1) have m: "case m M w of
      (Ret x, w') \<Rightarrow> R x w' | (Throw e, w') \<Rightarrow> X e w' | (Crash, w') \<Rightarrow> C w'"
    by (simp add: outcome_def)
  obtain r w' where r: "m M w = (r, w')" by fastforce
  show "case bnd m f M w of
      (Ret x, w') \<Rightarrow> Q x w' | (Throw e, w') \<Rightarrow> X e w' | (Crash, w') \<Rightarrow> C w'"
    using m r assms(2) by (cases r) (auto simp: bnd_def outcome_def)
qed

lemma outcome_thn:
  "outcome M P m (\<lambda>_. R) X C \<Longrightarrow> outcome M R n Q X C \<Longrightarrow> outcome M P (thn m n) Q X C"
  unfolding thn_def by (rule outcome_bnd)

lemma outcome_catch:
  assumes "outcome M P m Q Y C" and "\<And>e. outcome M (Y e) (h e) Q X C"
  shows "outcome M P (catch m h) Q X C"
  unfolding outcome_def
proof (intro allI impI)
  fix w assume "P w"
  with assms(1) have m: "case m M w of
      (Ret x, w') \<Rightarrow> Q x w' | (Throw e, w') \<Rightarrow> Y e w' | (Crash, w') \<Rightarrow> C w'"
    by (simp add: outcome_def)
  obtain r w' where r: "m M w = (r, w')" by fastforce
  show "case catch m h M w of
      (Ret x, w') \<Rightarrow> Q x w' | (Throw e, w') \<Rightarrow> X e w' | (Crash, w') \<Rightarrow> C w'"
    using m r assms(2) by (cases r) (auto simp: catch_def outcome_def)
qed

lemma outcome_run_finally:
  assumes "outcome M P m Q' X' C"
    and "\<And>x. outcome M (Q' x) c (\<lambda>_. Q x) X C"
    and "\<And>e. outcome M (X' e) c (\<lambda>_. X e) X C"
  shows "outcome M P (run_finally m c) Q X C"
  unfolding outcome_def
proof (intro allI impI)
  fix w assume "P w"
  with assms(1) have m: "case m M w of
      (Ret x, w') \<Rightarrow> Q' x w' | (Throw e, w') \<Rightarrow> X' e w' | (Crash, w') \<Rightarrow> C w'"
    by (simp add: outcome_def)
  obtain r w' where r: "m M w = (r, w')" by fastforce
  have "outcome M (Q' x) (thn c (ret x)) Q X C" for x
    by (rule outcome_thn [OF assms(2)]) (rule outcome_ret)
  moreover have "outcome M (X' e) (thn c (throw e)) Q X C" for e
    by (rule outcome_thn [OF assms(3)]) (rule outcome_throw)
  ultimately show "case run_finally m c M w of
      (Ret x, w') \<Rightarrow> Q x w' | (Throw e, w') \<Rightarrow> X e w' | (Crash, w') \<Rightarrow> C w'"
    using m r by (cases r) (auto simp: run_finally_def outcome_def)
qed

lemma outcome_with_fd:
  assumes "outcome M P a R Y C"
    and "\<And>d. outcome M (R d) (run_finally (catch (b d) h) (r d)) Q X C"
    and "\<And>e. outcome M (Y e) (h e) Q X C"
  shows "outcome M P (with_fd a b h r) Q X C"
  unfolding outcome_def
proof (intro allI impI)
  fix w assume "P w"
  with assms(1) have m: "case a M w of
      (Ret x, w') \<Rightarrow> R x w' | (Throw e, w') \<Rightarrow> Y e w' | (Crash, w') \<Rightarrow> C w'"
    by (simp add: outcome_def)
  obtain o' w' where r: "a M w = (o', w')" by fastforce
  show "case with_fd a b h r M w of
      (Ret x, w') \<Rightarrow> Q x w' | (Throw e, w') \<Rightarrow> X e w' | (Crash, w') \<Rightarrow> C w'"
    using m r assms(2,3) by (cases o') (auto simp: with_fd_def outcome_def)
qed

lemma outcome_weaken:
  assumes "outcome M P' m Q' X' C'"
    and "\<And>w. P w \<Longrightarrow> P' w" "\<And>x w. Q' x w \<Longrightarrow> Q x w" "\<And>e w. X' e w \<Longrightarrow> X e w" "\<And>w. C' w \<Longrightarrow> C w"
  shows "outcome M P m Q X C"
  using assms unfolding outcome_def by (fastforce split: prod.splits outcome.splits)

lemma outcome_conj:
  "outcome M P m Q X C \<Longrightarrow> outcome M P m Q' X' C' \<Longrightarrow>
     outcome M P m (\<lambda>x w. Q x w \<and> Q' x w) (\<lambda>e w. X e w \<and> X' e w) (\<lambda>w. C w \<and> C' w)"
  unfolding outcome_def by (fastforce split: prod.splits outcome.splits)

lemma outcome_lift:
  "(\<And>w x. P w \<Longrightarrow> r = Inr x \<Longrightarrow> Q x w) \<Longrightarrow> (\<And>w e. P w \<Longrightarrow> r = Inl e \<Longrightarrow> X e w) \<Longrightarrow>
     outcome M P (lift_res r) Q X C"
  by (cases r) (simp_all add: lift_res_def outcome_ret outcome_throw)

lemma outcome_guard:
  "(\<And>w. P w \<Longrightarrow> b \<Longrightarrow> Q () w) \<Longrightarrow> (\<And>w. P w \<Longrightarrow> \<not> b \<Longrightarrow> X e w) \<Longrightarrow> outcome M P (guard b e) Q X C"
  by (simp add: guard_def outcome_ret outcome_throw)

lemma outcome_pre: "(A \<Longrightarrow> outcome M P m Q X C) \<Longrightarrow> outcome M (\<lambda>w. P w \<and> A) m Q X C"
  by (auto simp: outcome_def)

lemma outcome_ex: "(\<And>a. outcome M (P a) m Q X C) \<Longrightarrow> outcome M (\<lambda>w. \<exists>a. P a w) m Q X C"
  unfolding outcome_def
proof (intro allI impI, elim exE)
  fix w a
  assume m: "\<And>a. \<forall>w. P a w \<longrightarrow> (case m M w of
      (Ret x, w') \<Rightarrow> Q x w' | (Throw e, w') \<Rightarrow> X e w' | (Crash, w') \<Rightarrow> C w')" and "P a w"
  then show "case m M w of (Ret x, w') \<Rightarrow> Q x w' | (Throw e, w') \<Rightarrow> X e w' | (Crash, w') \<Rightarrow> C w'"
    by (intro m [of a, THEN spec, THEN mp])
qed

section \<open>Errors that cannot be thrown\<close>

definition avoids :: "'m \<Rightarrow> router_error \<Rightarrow> ('m, 's, 'a) prog \<Rightarrow> bool" where
  "avoids M e m \<longleftrightarrow> (\<forall>w w'. m M w \<noteq> (Throw e, w'))"

named_theorems avoids_intro \<open>programs that do not throw a given error\<close>

lemma avoids_basic [avoids_intro]:
  "avoids M e (ret x)" "avoids M e (get f)" "e' \<noteq> e \<Longrightarrow> avoids M e (throw e')"
  "r \<noteq> Inl e \<Longrightarrow> avoids M e (lift_res r)" "e' \<noteq> e \<Longrightarrow> avoids M e (guard b e')"
  by (auto simp: avoids_def ret_def get_def throw_def lift_res_def guard_def split: sum.splits)

lemma avoids_bnd [avoids_intro]:
  "avoids M e m \<Longrightarrow> (\<And>x. avoids M e (f x)) \<Longrightarrow> avoids M e (bnd m f)"
  by (auto simp: avoids_def bnd_def split: prod.splits outcome.splits)

lemma avoids_thn [avoids_intro]: "avoids M e m \<Longrightarrow> avoids M e n \<Longrightarrow> avoids M e (thn m n)"
  unfolding thn_def by (rule avoids_bnd)

lemma avoids_catch [avoids_intro]:
  "avoids M e m \<Longrightarrow> (\<And>e'. e' \<noteq> e \<Longrightarrow> avoids M e (h e')) \<Longrightarrow> avoids M e (catch m h)"
  unfolding avoids_def catch_def by (fastforce split: prod.splits outcome.splits)

lemma avoids_run_finally [avoids_intro]:
  "avoids M e m \<Longrightarrow> avoids M e c \<Longrightarrow> avoids M e (run_finally m c)"
  unfolding avoids_def run_finally_def thn_def bnd_def throw_def ret_def
  by (fastforce split: prod.splits outcome.splits)

lemma avoids_with_fd [avoids_intro]:
  assumes "avoids M e a" "\<And>d. avoids M e (b d)" "\<And>e'. e' \<noteq> e \<Longrightarrow> avoids M e (h e')" "\<And>d. avoids M e (c d)"
  shows "avoids M e (with_fd a b h c)"
proof -
  have "avoids M e (run_finally (catch (b d) h) (c d))" for d by (intro avoids_intro assms)
  with assms show ?thesis
    unfolding avoids_def with_fd_def by (fastforce split: prod.splits outcome.splits)
qed

lemma avoids_if [avoids_intro]:
  "(b \<Longrightarrow> avoids M e m) \<Longrightarrow> (\<not> b \<Longrightarrow> avoids M e n) \<Longrightarrow> avoids M e (if b then m else n)"
  by simp

lemma avoids_case_option [avoids_intro]:
  "avoids M e m \<Longrightarrow> (\<And>x. avoids M e (f x)) \<Longrightarrow> avoids M e (case v of None \<Rightarrow> m | Some x \<Rightarrow> f x)"
  by (cases v) simp_all

lemma avoids_case_prod [avoids_intro]:
  "(\<And>x y. avoids M e (f x y)) \<Longrightarrow> avoids M e (case p of (x, y) \<Rightarrow> f x y)"
  by (cases p) simp

lemma avoids_wrap [avoids_intro]: "e' \<noteq> e \<Longrightarrow> c \<noteq> e \<Longrightarrow> avoids M e (wrap_as e' c)"
  by (simp add: wrap_as_def avoids_intro)

lemma outcome_avoids:
  "avoids M e' m \<Longrightarrow> outcome M P m Q X C \<Longrightarrow> outcome M P m Q (\<lambda>e w. X e w \<and> e \<noteq> e') C"
  unfolding avoids_def outcome_def by (fastforce split: prod.splits outcome.splits)

section \<open>Frames\<close>

text \<open>
  A program keeps a relation when every outcome of it is related to the state it started
  from. For a reflexive and transitive relation the property is closed under all the
  combinators, which is what the locale packages.
\<close>

definition keeps :: "'m \<Rightarrow> ('s \<Rightarrow> 's \<Rightarrow> bool) \<Rightarrow> ('m, 's, 'a) prog \<Rightarrow> bool" where
  "keeps M R m \<longleftrightarrow> (\<forall>w. R w (snd (m M w)))"

lemma keepsD: "keeps M R m \<Longrightarrow> m M w = (r, w') \<Longrightarrow> R w w'"
  by (metis keeps_def snd_conv)

text \<open>Every value a program returns satisfies \<open>A\<close>.\<close>

definition returns :: "'m \<Rightarrow> ('m, 's, 'a) prog \<Rightarrow> ('a \<Rightarrow> bool) \<Rightarrow> bool" where
  "returns M m A \<longleftrightarrow> (\<forall>w x w'. m M w = (Ret x, w') \<longrightarrow> A x)"

lemma returnsD: "returns M m A \<Longrightarrow> m M w = (Ret x, w') \<Longrightarrow> A x"
  by (auto simp: returns_def)

lemma returns_any: "returns M m (\<lambda>_. True)"
  by (simp add: returns_def)

lemma outcome_returns:
  "returns M m A \<Longrightarrow> outcome M P m Q X C \<Longrightarrow> outcome M P m (\<lambda>x w. Q x w \<and> A x) X C"
  unfolding returns_def outcome_def by (fastforce split: prod.splits outcome.splits)

lemma returns_bnd: "(\<And>x. returns M (f x) A) \<Longrightarrow> returns M (bnd m f) A"
  by (auto simp: returns_def bnd_def split: prod.splits outcome.splits)

lemma returns_thn: "returns M n A \<Longrightarrow> returns M (thn m n) A"
  unfolding thn_def by (rule returns_bnd)

locale io_frame =
  fixes M :: 'm and R :: "'s \<Rightarrow> 's \<Rightarrow> bool"
  assumes R_refl: "R w w"
    and R_trans: "R u v \<Longrightarrow> R v w \<Longrightarrow> R u w"
begin

lemma keeps_ret: "keeps M R (ret x)"
  by (simp add: keeps_def ret_def R_refl)

lemma keeps_throw: "keeps M R (throw e)"
  by (simp add: keeps_def throw_def R_refl)

lemma keeps_get: "keeps M R (get f)"
  by (simp add: keeps_def get_def R_refl)

lemma keeps_bnd_returns:
  assumes "keeps M R m" and "returns M m A" and "\<And>x. A x \<Longrightarrow> keeps M R (f x)"
  shows "keeps M R (bnd m f)"
  unfolding keeps_def
proof (intro allI)
  fix w
  obtain r w' where r: "m M w = (r, w')" by fastforce
  then have "R w w'" using assms(1) by (blast dest: keepsD)
  moreover have "R w' (snd (f x M w'))" if "r = Ret x" for x
    using returnsD [OF assms(2)] r that assms(3) by (auto simp: keeps_def)
  ultimately show "R w (snd (bnd m f M w))"
    using r by (cases r) (auto simp: bnd_def intro: R_trans)
qed

lemma keeps_bnd: "keeps M R m \<Longrightarrow> (\<And>x. keeps M R (f x)) \<Longrightarrow> keeps M R (bnd m f)"
  by (rule keeps_bnd_returns [OF _ returns_any])

lemma keeps_thn: "keeps M R m \<Longrightarrow> keeps M R n \<Longrightarrow> keeps M R (thn m n)"
  unfolding thn_def by (rule keeps_bnd)

lemma keeps_catch:
  assumes "keeps M R m" and "\<And>e. keeps M R (h e)"
  shows "keeps M R (catch m h)"
  unfolding keeps_def
proof (intro allI)
  fix w
  obtain r w' where r: "m M w = (r, w')" by fastforce
  then have "R w w'" using assms(1) by (blast dest: keepsD)
  moreover have "R w' (snd (h e M w'))" for e using assms(2) by (simp add: keeps_def)
  ultimately show "R w (snd (catch m h M w))"
    using r by (cases r) (auto simp: catch_def intro: R_trans)
qed

lemma keeps_run_finally:
  assumes "keeps M R m" and "keeps M R c"
  shows "keeps M R (run_finally m c)"
  unfolding keeps_def
proof (intro allI)
  fix w
  obtain r w' where r: "m M w = (r, w')" by fastforce
  then have "R w w'" using assms(1) by (blast dest: keepsD)
  moreover have "R w' (snd (thn c n M w'))" if "keeps M R n" for n :: "('m, 's, 'b) prog"
    using keeps_thn [OF assms(2) that] by (simp add: keeps_def)
  ultimately show "R w (snd (run_finally m c M w))"
    using r by (cases r) (auto simp: run_finally_def intro: R_trans keeps_ret keeps_throw)
qed

lemma keeps_with_fd_returns:
  assumes "keeps M R a" and "returns M a A" and "\<And>d. A d \<Longrightarrow> keeps M R (b d)"
    and "\<And>e. keeps M R (h e)" and "\<And>d. keeps M R (c d)"
  shows "keeps M R (with_fd a b h c)"
  unfolding keeps_def
proof (intro allI)
  fix w
  obtain r w' where r: "a M w = (r, w')" by fastforce
  then have "R w w'" using assms(1) by (blast dest: keepsD)
  moreover have "R w' (snd (h e M w'))" for e using assms(4) by (simp add: keeps_def)
  moreover have "R w' (snd (run_finally (catch (b d) h) (c d) M w'))" if "r = Ret d" for d
    using keeps_run_finally [OF keeps_catch [OF assms(3) assms(4)] assms(5)] r that
      returnsD [OF assms(2)] by (auto simp: keeps_def)
  ultimately show "R w (snd (with_fd a b h c M w))"
    using r by (cases r) (auto simp: with_fd_def intro: R_trans)
qed

lemma keeps_with_fd:
  "\<lbrakk>keeps M R a; \<And>d. keeps M R (b d); \<And>e. keeps M R (h e); \<And>d. keeps M R (c d)\<rbrakk> \<Longrightarrow>
     keeps M R (with_fd a b h c)"
  by (rule keeps_with_fd_returns [OF _ returns_any])

lemma keeps_lift: "keeps M R (lift_res r)"
  by (cases r) (simp_all add: lift_res_def keeps_ret keeps_throw)

lemma keeps_guard: "keeps M R (guard b e)"
  by (simp add: guard_def keeps_ret keeps_throw)

lemma keeps_wrap: "keeps M R (wrap_as e c)"
  by (simp add: wrap_as_def keeps_throw)

lemma keeps_run_if: "(b \<Longrightarrow> keeps M R m) \<Longrightarrow> keeps M R (run_if b m)"
  by (simp add: run_if_def keeps_ret)

lemma keeps_each: "(\<And>x. x \<in> set xs \<Longrightarrow> keeps M R (f x)) \<Longrightarrow> keeps M R (each f xs)"
  by (induction xs) (simp_all add: keeps_ret keeps_thn)

lemma keeps_foldm: "(\<And>b x. x \<in> set xs \<Longrightarrow> keeps M R (f b x)) \<Longrightarrow> keeps M R (foldm f b xs)"
  by (induction xs arbitrary: b) (simp_all add: keeps_ret keeps_bnd)

lemma keeps_if: "(b \<Longrightarrow> keeps M R m) \<Longrightarrow> (\<not> b \<Longrightarrow> keeps M R n) \<Longrightarrow> keeps M R (if b then m else n)"
  by simp

lemma keeps_case_option:
  "keeps M R m \<Longrightarrow> (\<And>x. v = Some x \<Longrightarrow> keeps M R (f x)) \<Longrightarrow> keeps M R (case v of None \<Rightarrow> m | Some x \<Rightarrow> f x)"
  by (cases v) simp_all

lemma keeps_case_prod: "(\<And>x y. keeps M R (f x y)) \<Longrightarrow> keeps M R (case p of (x, y) \<Rightarrow> f x y)"
  by (cases p) simp

text \<open>A kept relation turns into a triple about any property the relation preserves.\<close>

lemma keeps_outcome:
  assumes "keeps M R m" and "\<And>w w'. I w \<Longrightarrow> R w w' \<Longrightarrow> I w'"
  shows "outcome M I m (\<lambda>_. I) (\<lambda>_. I) I"
  unfolding outcome_def
proof (intro allI impI)
  fix w assume "I w"
  moreover obtain r w' where r: "m M w = (r, w')" by fastforce
  ultimately have "I w'" using assms by (blast dest: keepsD)
  with r show "case m M w of (Ret x, w') \<Rightarrow> I w' | (Throw e, w') \<Rightarrow> I w' | (Crash, w') \<Rightarrow> I w'"
    by (cases r) auto
qed

end

end
