(* ===== verification/Router_Audit.thy ===== *)
theory Router_Audit
  imports Router_Contract
begin

text \<open>
  Audit records of the platform router, after
  \<open>web/src/lib/platform-router-config/audit.ts\<close>: how a record is built for an event, how a
  stored record is decoded, and that a record survives being written and read. The theory
  also holds the identifiers the transaction layer shares with it: the UUID pattern and the
  ISO instants, the strings that \<open>Date.prototype.toISOString\<close> produces.
\<close>

section \<open>Identifiers and instants\<close>

text \<open>A string matches a picture when each \<open>d\<close> stands over a digit and every other
  character over itself.\<close>

definition picture :: "string \<Rightarrow> jstr \<Rightarrow> bool" where
  "picture p s \<longleftrightarrow> list_all2 (\<lambda>q c. if q = CHR ''d'' then is_digit c else c = of_char q) p s"

definition field :: "nat \<Rightarrow> nat \<Rightarrow> jstr \<Rightarrow> nat" where
  "field i n s = read_nat (take n (drop i s))"

definition leap :: "int \<Rightarrow> bool" where
  "leap y \<longleftrightarrow> y mod 4 = 0 \<and> (y mod 100 \<noteq> 0 \<or> y mod 400 = 0)"

definition days_in_month :: "int \<Rightarrow> nat \<Rightarrow> nat" where
  "days_in_month y m =
     (if m = 2 then (if leap y then 29 else 28)
      else if m = 4 \<or> m = 6 \<or> m = 9 \<or> m = 11 then 30 else 31)"

definition valid_time :: "int \<Rightarrow> jstr \<Rightarrow> bool" where
  "valid_time y t \<longleftrightarrow>
     1 \<le> field 1 2 t \<and> field 1 2 t \<le> 12 \<and>
     1 \<le> field 4 2 t \<and> field 4 2 t \<le> days_in_month y (field 1 2 t) \<and>
     field 7 2 t \<le> 23 \<and> field 10 2 t \<le> 59 \<and> field 13 2 t \<le> 59"

text \<open>The time values end at midnight of 13 September 275760 and start at that of
  20 April of the year -271821.\<close>

definition in_time_range :: "int \<Rightarrow> jstr \<Rightarrow> bool" where
  "in_time_range y t \<longleftrightarrow>
     (let md = int (field 1 2 t * 100 + field 4 2 t);
          clock = field 7 2 t + field 10 2 t + field 13 2 t + field 16 3 t
      in (y < 275760 \<or> y = 275760 \<and> (md < 913 \<or> md = 913 \<and> clock = 0)) \<and>
         (- 271821 < y \<or> y = - 271821 \<and> 420 \<le> md))"

definition iso_instant :: "jstr \<Rightarrow> bool" where
  "iso_instant s \<longleftrightarrow>
     (picture ''dddd-dd-ddTdd:dd:dd.dddZ'' s \<and> valid_time (int (field 0 4 s)) (drop 4 s)) \<or>
     (picture ''+dddddd-dd-ddTdd:dd:dd.dddZ'' s \<and>
        (let y = int (field 1 6 s)
         in 9999 < y \<and> valid_time y (drop 7 s) \<and> in_time_range y (drop 7 s))) \<or>
     (picture ''-dddddd-dd-ddTdd:dd:dd.dddZ'' s \<and>
        (let y = - int (field 1 6 s)
         in y < 0 \<and> valid_time y (drop 7 s) \<and> in_time_range y (drop 7 s)))"

definition is_dash :: "nat \<Rightarrow> bool" where
  "is_dash i \<longleftrightarrow> i = 8 \<or> i = 13 \<or> i = 18 \<or> i = 23"

text \<open>\<open>/^[0-9a-f]{8}-[0-9a-f]{4}-[1-8][0-9a-f]{3}-[89ab][0-9a-f]{3}-[0-9a-f]{12}$/i\<close>.\<close>

definition UUID_PATTERN :: "jstr \<Rightarrow> bool" where
  "UUID_PATTERN s \<longleftrightarrow>
     length s = 36 \<and> list_all (\<lambda>(i, c). if is_dash i then c = 45 else is_hex c) (enumerate 0 s) \<and>
     49 \<le> s ! 14 \<and> s ! 14 \<le> 56 \<and> lower1 (s ! 19) \<in> {56, 57, 97, 98}"

section \<open>Data\<close>

datatype audit_action = StageAction | TestAction | ActivateAction

record PlatformRouterAuditRecord =
  a_eventId :: jstr
  a_at :: jstr
  a_action :: audit_action
  a_actor :: jstr
  a_requestId :: jstr
  a_endpointOrigin :: jstr
  a_model :: jstr
  a_enabled :: bool
  a_keyChanged :: bool

record PlatformRouterAuditEvent =
  e_eventId :: "jstr option"
  e_action :: audit_action
  e_actor :: jstr
  e_requestId :: jstr
  e_endpoint :: jstr
  e_model :: jstr
  e_enabled :: bool
  e_keyChanged :: bool

section \<open>Operations\<close>

definition normalizeAuditEventId :: "json option \<Rightarrow> router_error + jstr" where
  "normalizeAuditEventId v =
     (case as_string v of
        Some s \<Rightarrow> if UUID_PATTERN s then Inr (to_lower s) else Inl PlainError
      | None \<Rightarrow> Inl PlainError)"

fun action_text :: "audit_action \<Rightarrow> jstr" where
  "action_text StageAction = js ''stage''"
| "action_text TestAction = js ''test''"
| "action_text ActivateAction = js ''activate''"

definition normalizeAuditAction :: "json option \<Rightarrow> router_error + audit_action" where
  "normalizeAuditAction v =
     (if v = Some (JStr (action_text StageAction)) then Inr StageAction
      else if v = Some (JStr (action_text TestAction)) then Inr TestAction
      else if v = Some (JStr (action_text ActivateAction)) then Inr ActivateAction
      else Inl PlainError)"

definition auditEndpointOrigin :: "platform \<Rightarrow> json option \<Rightarrow> bool \<Rightarrow> router_error + jstr" where
  "auditEndpointOrigin P v requireOrigin =
     (case normalizeEndpoint P v of
        Inl _ \<Rightarrow> Inl PlainError
      | Inr endpoint \<Rightarrow>
          (case url_parse P endpoint of
             None \<Rightarrow> Inl PlainError
           | Some u \<Rightarrow>
               if requireOrigin \<and> url_origin u \<noteq> endpoint then Inl PlainError
               else Inr (url_origin u)))"

text \<open>The clock argument is the printed instant, \<open>None\<close> for an invalid date.\<close>

definition buildPlatformRouterAuditRecord ::
    "platform \<Rightarrow> PlatformRouterAuditEvent \<Rightarrow> jstr option \<Rightarrow> jstr \<Rightarrow>
     router_error + PlatformRouterAuditRecord" where
  "buildPlatformRouterAuditRecord P event now nextId =
     (case now of
        None \<Rightarrow> Inl PlainError
      | Some instant \<Rightarrow>
          rbind (normalizeAuditEventId (Some (JStr
              (case e_eventId event of Some i \<Rightarrow> i | None \<Rightarrow> nextId)))) (\<lambda>eventId.
          rbind (normalizeAuditAction (Some (JStr (action_text (e_action event))))) (\<lambda>action.
          rbind (boundedAuditText (e_actor event)) (\<lambda>actor.
          rbind (boundedAuditText (e_requestId event)) (\<lambda>requestId.
          rbind (auditEndpointOrigin P (Some (JStr (e_endpoint event))) False) (\<lambda>origin.
          rbind (boundedText (Some (JStr (e_model event))) 256) (\<lambda>model.
          Inr \<lparr> a_eventId = eventId, a_at = instant, a_action = action, a_actor = actor,
                a_requestId = requestId, a_endpointOrigin = origin, a_model = model,
                a_enabled = e_enabled event, a_keyChanged = e_keyChanged event \<rparr>)))))))"

definition decodePlatformRouterAuditRecord ::
    "platform \<Rightarrow> json option \<Rightarrow> router_error + PlatformRouterAuditRecord" where
  "decodePlatformRouterAuditRecord P v =
     (case as_record v of
        None \<Rightarrow> Inl PlainError
      | Some r \<Rightarrow>
          (case (as_string (member r ''at''), as_string (member r ''actor''),
                 as_string (member r ''requestId''), as_string (member r ''endpointOrigin''),
                 as_string (member r ''model''), as_boolean (member r ''enabled''),
                 as_boolean (member r ''keyChanged'')) of
             (Some instant, Some actor0, Some requestId0, Some origin0, Some model0,
              Some enabled, Some keyChanged) \<Rightarrow>
               if \<not> iso_instant instant then Inl PlainError
               else
                 rbind (auditEndpointOrigin P (Some (JStr origin0)) True) (\<lambda>endpoint.
                 rbind (normalizeAuditEventId (member r ''eventId'')) (\<lambda>eventId.
                 rbind (normalizeAuditAction (member r ''action'')) (\<lambda>action.
                 rbind (boundedAuditText actor0) (\<lambda>actor.
                 rbind (boundedAuditText requestId0) (\<lambda>requestId.
                 rbind (boundedText (Some (JStr model0)) 256) (\<lambda>model.
                 Inr \<lparr> a_eventId = eventId, a_at = instant, a_action = action, a_actor = actor,
                       a_requestId = requestId, a_endpointOrigin = endpoint, a_model = model,
                       a_enabled = enabled, a_keyChanged = keyChanged \<rparr>))))))
           | _ \<Rightarrow> Inl PlainError))"

text \<open>The object that \<open>JSON.stringify\<close> prints for a record.\<close>

definition audit_json :: "PlatformRouterAuditRecord \<Rightarrow> json" where
  "audit_json r = JObj
     [(js ''eventId'', JStr (a_eventId r)), (js ''at'', JStr (a_at r)),
      (js ''action'', JStr (action_text (a_action r))), (js ''actor'', JStr (a_actor r)),
      (js ''requestId'', JStr (a_requestId r)),
      (js ''endpointOrigin'', JStr (a_endpointOrigin r)), (js ''model'', JStr (a_model r)),
      (js ''enabled'', JBool (a_enabled r)), (js ''keyChanged'', JBool (a_keyChanged r))]"

section \<open>Identifiers\<close>

lemma lower1_hex: "is_hex c \<Longrightarrow> is_hex (lower1 c) \<and> lower1 (lower1 c) = lower1 c"
  by (auto simp: is_hex_def is_hex_lower_def is_digit_def lower1_def is_upper_def)

lemma lower1_idem [simp]: "lower1 (lower1 c) = lower1 c"
  by (auto simp: lower1_def is_upper_def)

lemma to_lower_idem [simp]: "to_lower (to_lower s) = to_lower s"
  by (simp add: to_lower_def comp_def)

lemma length_to_lower [simp]: "length (to_lower s) = length s"
  by (simp add: to_lower_def)

lemma UUID_to_lower: "UUID_PATTERN s \<Longrightarrow> UUID_PATTERN (to_lower s)"
  unfolding UUID_PATTERN_def
  by (auto simp: to_lower_def list_all_length nth_enumerate_eq lower1_hex lower1_def [of 45]
      is_upper_def [of 45] split: if_splits) (auto simp: lower1_def is_upper_def)

lemma normalizeAuditEventId_Inr:
  "normalizeAuditEventId v = Inr i \<longleftrightarrow> (\<exists>s. v = Some (JStr s) \<and> UUID_PATTERN s \<and> i = to_lower s)"
  by (auto simp: normalizeAuditEventId_def as_simps split: option.splits if_splits)

lemma normalizeAuditEventId_idem:
  "normalizeAuditEventId v = Inr i \<Longrightarrow> normalizeAuditEventId (Some (JStr i)) = Inr i"
  by (auto simp: normalizeAuditEventId_Inr UUID_to_lower)

lemma normalizeAuditAction_text [simp]:
  "normalizeAuditAction (Some (JStr (action_text a))) = Inr a"
  by (cases a) (simp_all add: normalizeAuditAction_def)

section \<open>Endpoint origins\<close>

lemma auditEndpointOrigin_again:
  assumes laws: "url_laws P" and ok: "auditEndpointOrigin P v b = Inr origin"
  shows "auditEndpointOrigin P (Some (JStr origin)) True = Inr origin"
    and "list_all (\<lambda>c. c < 128) origin"
proof -
  from ok obtain e u' where e: "normalizeEndpoint P v = Inr e" "url_parse P e = Some u'"
      "origin = url_origin u'"
    by (auto simp: auditEndpointOrigin_def split: sum.splits option.splits if_splits)
  from e(1) obtain u where u: "url_parse P (text_of v) = Some u" "url_protocol u = js ''https:''"
      "length (url_pathname u) \<le> 512" "\<not> isPrivateOrReservedIpLiteral P (url_hostname u)"
      "e = url_origin u @ strip_slashes (url_pathname u)"
    by (auto simp: normalizeEndpoint_Inr)
  have "url_parse P e = Some (reparsed u (strip_slashes (url_pathname u)))"
    using url_lawsD(3) [OF laws u(1,2)] u(5) by simp
  with e have "u' = reparsed u (strip_slashes (url_pathname u))" by simp
  with e(3) have origin: "origin = url_origin u" by (simp add: reparsed_def)
  have "normalizeEndpoint P (Some (JStr (url_origin u))) = Inr (url_origin u)"
    using normalizeEndpoint_again [OF laws u(1,2,3,4), of "[]"] by simp
  moreover have "url_parse P (url_origin u) = Some (reparsed u [])"
    using url_lawsD(3) [OF laws u(1,2), of "[]"] by simp
  ultimately show "auditEndpointOrigin P (Some (JStr origin)) True = Inr origin"
    by (simp add: auditEndpointOrigin_def origin reparsed_def)
  show "list_all (\<lambda>c. c < 128) origin"
    using url_lawsD(2) [OF laws u(1,2), of "[]"] origin by simp
qed

section \<open>Stored records\<close>

lemma decodeAudit_Inr:
  "decodePlatformRouterAuditRecord P v = Inr r \<longleftrightarrow>
     (\<exists>m actor0 requestId0 origin0 model0. v = Some (JObj m) \<and>
        member m ''at'' = Some (JStr (a_at r)) \<and> iso_instant (a_at r) \<and>
        member m ''actor'' = Some (JStr actor0) \<and> boundedAuditText actor0 = Inr (a_actor r) \<and>
        member m ''requestId'' = Some (JStr requestId0) \<and>
        boundedAuditText requestId0 = Inr (a_requestId r) \<and>
        member m ''endpointOrigin'' = Some (JStr origin0) \<and>
        auditEndpointOrigin P (Some (JStr origin0)) True = Inr (a_endpointOrigin r) \<and>
        member m ''model'' = Some (JStr model0) \<and>
        boundedText (Some (JStr model0)) 256 = Inr (a_model r) \<and>
        member m ''enabled'' = Some (JBool (a_enabled r)) \<and>
        member m ''keyChanged'' = Some (JBool (a_keyChanged r)) \<and>
        normalizeAuditEventId (member m ''eventId'') = Inr (a_eventId r) \<and>
        normalizeAuditAction (member m ''action'') = Inr (a_action r))"
  by (cases r) (auto simp: decodePlatformRouterAuditRecord_def rbind_Inr as_simps
      split: option.splits prod.splits if_splits)

text \<open>A record that its own JSON decodes to.\<close>

definition audit_ok :: "platform \<Rightarrow> PlatformRouterAuditRecord \<Rightarrow> bool" where
  "audit_ok P r \<longleftrightarrow> decodePlatformRouterAuditRecord P (Some (audit_json r)) = Inr r"

lemma audit_okI:
  assumes "iso_instant (a_at r)" "boundedAuditText (a_actor r) = Inr (a_actor r)"
    "boundedAuditText (a_requestId r) = Inr (a_requestId r)"
    "auditEndpointOrigin P (Some (JStr (a_endpointOrigin r))) True = Inr (a_endpointOrigin r)"
    "boundedText (Some (JStr (a_model r))) 256 = Inr (a_model r)"
    "normalizeAuditEventId (Some (JStr (a_eventId r))) = Inr (a_eventId r)"
  shows "audit_ok P r"
  unfolding audit_ok_def decodeAudit_Inr audit_json_def
  by (intro exI conjI) (use assms in \<open>auto\<close>)

lemma decodeAudit_ok:
  assumes "url_laws P" and "decodePlatformRouterAuditRecord P v = Inr r"
  shows "audit_ok P r"
  using assms(2) unfolding decodeAudit_Inr
  by (auto intro!: audit_okI intro: boundedAuditText_idem boundedText_idem
      normalizeAuditEventId_idem auditEndpointOrigin_again [OF assms(1)])

lemma buildAudit_ok:
  assumes "url_laws P" and "buildPlatformRouterAuditRecord P event now nextId = Inr r"
    and "\<And>t. now = Some t \<Longrightarrow> iso_instant t"
  shows "audit_ok P r"
  using assms(2,3)
  by (auto simp: buildPlatformRouterAuditRecord_def rbind_Inr split: option.splits
      intro!: audit_okI intro: boundedAuditText_idem boundedText_idem
      normalizeAuditEventId_idem auditEndpointOrigin_again [OF assms(1)])

section \<open>Well-formed strings\<close>

definition audit_wf :: "PlatformRouterAuditRecord \<Rightarrow> bool" where
  "audit_wf r \<longleftrightarrow> wf_json (audit_json r)"

lemma wf_str_simps [simp]: "wf_str []" "wf_str (c # s) \<longleftrightarrow> c < 65536 \<and> wf_str s"
  "wf_str (s @ t) \<longleftrightarrow> wf_str s \<and> wf_str t"
  by (simp_all add: wf_str_def)

lemma wf_str_js [simp]: "wf_str (js s)"
proof -
  have "of_char c < (65536::nat)" for c :: char
    using nat_of_char_less_256 [of c] by linarith
  then show ?thesis by (simp add: wf_str_def js_def list_all_iff)
qed

lemma wf_str_ascii: "list_all (\<lambda>c. c < 128) s \<Longrightarrow> wf_str s"
  by (auto simp: wf_str_def list_all_iff)

lemma wf_str_trim: "wf_str s \<Longrightarrow> wf_str (trim s)"
  using set_trim [of s] by (auto simp: wf_str_def list_all_iff)

lemma wf_str_lower: "wf_str s \<Longrightarrow> wf_str (to_lower s)"
  by (auto simp: wf_str_def list_all_iff to_lower_def lower1_def is_upper_def)

lemma wf_str_picture: "picture p s \<Longrightarrow> wf_str s"
proof -
  have c: "of_char q < (65536::nat)" for q :: char
    using nat_of_char_less_256 [of q] by linarith
  show "picture p s \<Longrightarrow> wf_str s"
    unfolding picture_def
    by (induction p s rule: list_all2_induct) (auto simp: is_digit_def c split: if_splits)
qed

lemma wf_str_iso: "iso_instant s \<Longrightarrow> wf_str s"
  unfolding iso_instant_def by (auto intro: wf_str_picture)

lemma hex_less: "is_hex c \<Longrightarrow> c < 65536"
  by (auto simp: is_hex_def is_hex_lower_def is_digit_def)

lemma wf_str_uuid:
  assumes "UUID_PATTERN s"
  shows "wf_str s"
proof -
  have "s ! i < 65536" if "i < length s" for i
  proof -
    from assms that have "if is_dash i then s ! i = 45 else is_hex (s ! i)"
      by (auto simp: UUID_PATTERN_def list_all_length nth_enumerate_eq)
    then show ?thesis by (auto split: if_splits dest: hex_less)
  qed
  then show ?thesis by (simp add: wf_str_def list_all_length)
qed

lemma wf_action [simp]: "wf_str (action_text a)"
  by (cases a) simp_all

lemma audit_wf_iff:
  "audit_wf r \<longleftrightarrow> wf_str (a_eventId r) \<and> wf_str (a_at r) \<and> wf_str (a_actor r) \<and>
     wf_str (a_requestId r) \<and> wf_str (a_endpointOrigin r) \<and> wf_str (a_model r)"
  by (auto simp: audit_wf_def audit_json_def wf_json_Obj)

lemma wf_json_member: "wf_json (JObj m) \<Longrightarrow> member m k = Some v \<Longrightarrow> wf_json v"
  by (auto simp: wf_json_Obj member_def list_all_iff dest!: map_of_SomeD)

lemma wf_str_boundedAudit: "boundedAuditText s = Inr t \<Longrightarrow> wf_str s \<Longrightarrow> wf_str t"
  by (auto simp: boundedAuditText_def Let_def wf_str_trim split: if_splits)

lemma wf_str_boundedText: "boundedText (Some (JStr s)) n = Inr t \<Longrightarrow> wf_str s \<Longrightarrow> wf_str t"
  by (auto simp: boundedText_def Let_def wf_str_trim split: if_splits)

lemma wf_str_eventId: "normalizeAuditEventId v = Inr i \<Longrightarrow> wf_str i"
  by (auto simp: normalizeAuditEventId_Inr wf_str_lower wf_str_uuid)

lemma decodeAudit_wf:
  assumes "url_laws P" and "decodePlatformRouterAuditRecord P (Some v) = Inr r" and "wf_json v"
  shows "audit_wf r"
proof -
  from assms(2) obtain m actor0 requestId0 origin0 model0 where v: "v = JObj m"
    and m: "member m ''actor'' = Some (JStr actor0)" "boundedAuditText actor0 = Inr (a_actor r)"
      "member m ''requestId'' = Some (JStr requestId0)"
      "boundedAuditText requestId0 = Inr (a_requestId r)"
      "auditEndpointOrigin P (Some (JStr origin0)) True = Inr (a_endpointOrigin r)"
      "member m ''model'' = Some (JStr model0)"
      "boundedText (Some (JStr model0)) 256 = Inr (a_model r)"
      "iso_instant (a_at r)" "normalizeAuditEventId (member m ''eventId'') = Inr (a_eventId r)"
    unfolding decodeAudit_Inr by blast
  have "wf_str actor0" "wf_str requestId0" "wf_str model0"
    using assms(3) v m wf_json_member [of m] by force+
  with m show ?thesis
    by (auto simp: audit_wf_iff intro: wf_str_boundedAudit wf_str_boundedText wf_str_iso
        wf_str_eventId wf_str_ascii auditEndpointOrigin_again(2) [OF assms(1)])
qed

end
