(* ===== verification/Js_Utf8.thy ===== *)
theory Js_Utf8
  imports Js_Json
begin

text \<open>
  The UTF-8 layer between strings and file contents: \<open>Buffer.from(text)\<close>,
  \<open>buffer.toString("utf8")\<close> (replacing every ill-formed sequence by U+FFFD) and
  \<open>TextDecoder\<close> in fatal mode. A byte is a natural number below \<open>256\<close>. Decoding follows
  the maximal-subpart rule of the Encoding standard; a sequence cut off by the end of the
  input is told apart from an impossible one, because the streaming decoder accepts it.
\<close>

type_synonym bytes = "nat list"

fun utf8_encode :: "jstr \<Rightarrow> bytes" where
  "utf8_encode [] = []"
| "utf8_encode (c # s) =
     (if c < 128 then c # utf8_encode s
      else if c < 2048 then (192 + c div 64) # (128 + c mod 64) # utf8_encode s
      else if is_high c then
        (case s of
           d # t \<Rightarrow>
             if is_low d then
               (let p = 65536 + (c - 55296) * 1024 + (d - 56320)
                in (240 + p div 262144) # (128 + p div 4096 mod 64) #
                   (128 + p div 64 mod 64) # (128 + p mod 64) # utf8_encode t)
             else 239 # 191 # 189 # utf8_encode s
         | [] \<Rightarrow> [239, 191, 189])
      else if is_low c then 239 # 191 # 189 # utf8_encode s
      else (224 + c div 4096) # (128 + c div 64 mod 64) # (128 + c mod 64) # utf8_encode s)"

datatype u8item = U8 nat | U8bad | U8cut

definition cont :: "nat \<Rightarrow> bool" where
  "cont b \<longleftrightarrow> 128 \<le> b \<and> b \<le> 191"

definition second3 :: "nat \<Rightarrow> nat \<Rightarrow> bool" where
  "second3 b c \<longleftrightarrow> cont c \<and> (b = 224 \<longrightarrow> 160 \<le> c) \<and> (b = 237 \<longrightarrow> c \<le> 159)"

definition second4 :: "nat \<Rightarrow> nat \<Rightarrow> bool" where
  "second4 b c \<longleftrightarrow> cont c \<and> (b = 240 \<longrightarrow> 144 \<le> c) \<and> (b = 244 \<longrightarrow> c \<le> 143)"

fun utf8_items :: "bytes \<Rightarrow> u8item list" where
  "utf8_items [] = []"
| "utf8_items (b # r) =
     (if b < 128 then U8 b # utf8_items r
      else if 194 \<le> b \<and> b \<le> 223 then
        (case r of
           [] \<Rightarrow> [U8cut]
         | c # t \<Rightarrow> if cont c then U8 ((b - 192) * 64 + (c - 128)) # utf8_items t
                    else U8bad # utf8_items r)
      else if 224 \<le> b \<and> b \<le> 239 then
        (case r of
           [] \<Rightarrow> [U8cut]
         | c # t \<Rightarrow>
             if second3 b c then
               (case t of
                  [] \<Rightarrow> [U8cut]
                | d # u \<Rightarrow>
                    if cont d then U8 ((b - 224) * 4096 + (c - 128) * 64 + (d - 128)) # utf8_items u
                    else U8bad # utf8_items t)
             else U8bad # utf8_items r)
      else if 240 \<le> b \<and> b \<le> 244 then
        (case r of
           [] \<Rightarrow> [U8cut]
         | c # t \<Rightarrow>
             if second4 b c then
               (case t of
                  [] \<Rightarrow> [U8cut]
                | d # u \<Rightarrow>
                    if cont d then
                      (case u of
                         [] \<Rightarrow> [U8cut]
                       | f # w \<Rightarrow>
                           if cont f then
                             U8 ((b - 240) * 262144 + (c - 128) * 4096 + (d - 128) * 64 + (f - 128))
                             # utf8_items w
                           else U8bad # utf8_items u)
                    else U8bad # utf8_items t)
             else U8bad # utf8_items r)
      else U8bad # utf8_items r)"

definition utf16 :: "nat \<Rightarrow> jstr" where
  "utf16 p =
     (if p < 65536 then [p]
      else [55296 + (p - 65536) div 1024, 56320 + (p - 65536) mod 1024])"

definition item_text :: "u8item \<Rightarrow> jstr" where
  "item_text i = (case i of U8 p \<Rightarrow> utf16 p | _ \<Rightarrow> [65533])"

definition is_U8 :: "u8item \<Rightarrow> bool" where
  "is_U8 i \<longleftrightarrow> (case i of U8 _ \<Rightarrow> True | _ \<Rightarrow> False)"

text \<open>\<open>buffer.toString("utf8")\<close>.\<close>

definition utf8_lossy :: "bytes \<Rightarrow> jstr" where
  "utf8_lossy bs = concat (map item_text (utf8_items bs))"

text \<open>
  \<open>new TextDecoder("utf-8", { fatal: true }).decode(bytes)\<close>, which also drops a leading
  byte order mark, and the streaming variant, of which only the success matters.
\<close>

definition drop_bom :: "jstr \<Rightarrow> jstr" where
  "drop_bom s = (case s of c # t \<Rightarrow> if c = 65279 then t else s | [] \<Rightarrow> [])"

definition utf8_fatal :: "bytes \<Rightarrow> jstr option" where
  "utf8_fatal bs =
     (if list_all is_U8 (utf8_items bs) then Some (drop_bom (utf8_lossy bs)) else None)"

definition utf8_stream_ok :: "bytes \<Rightarrow> bool" where
  "utf8_stream_ok bs \<longleftrightarrow> U8bad \<notin> set (utf8_items bs)"

text \<open>Well-formed UTF-16: code units below \<open>65536\<close> and every surrogate in a pair.\<close>

fun wf16 :: "jstr \<Rightarrow> bool" where
  "wf16 [] \<longleftrightarrow> True"
| "wf16 (c # s) \<longleftrightarrow>
     c < 65536 \<and> \<not> is_low c \<and>
     (if is_high c then (case s of d # t \<Rightarrow> is_low d \<and> wf16 t | [] \<Rightarrow> False) else wf16 s)"

section \<open>Encoding then decoding\<close>

declare utf8_encode.simps(2) [simp del] utf8_items.simps(2) [simp del] wf16.simps(2) [simp del]

lemma wf16_single: "c < 65536 \<Longrightarrow> \<not> is_low c \<Longrightarrow> \<not> is_high c \<Longrightarrow> wf16 (c # s) \<longleftrightarrow> wf16 s"
  by (simp add: wf16.simps)

lemma wf16_pair: "is_high c \<Longrightarrow> is_low d \<Longrightarrow> wf16 (c # d # s) \<longleftrightarrow> wf16 s"
  by (auto simp: wf16.simps is_high_def is_low_def)

lemma wf16_induct [consumes 1, case_names Nil single pair]:
  assumes "wf16 s" and "P []"
    and "\<And>c s. c < 65536 \<Longrightarrow> \<not> is_low c \<Longrightarrow> \<not> is_high c \<Longrightarrow> wf16 s \<Longrightarrow> P s \<Longrightarrow> P (c # s)"
    and "\<And>c d s. is_high c \<Longrightarrow> is_low d \<Longrightarrow> wf16 s \<Longrightarrow> P s \<Longrightarrow> P (c # d # s)"
  shows "P s"
  using assms(1)
proof (induction s rule: wf16.induct)
  case 1
  show ?case by (rule assms(2))
next
  case (2 c s)
  show ?case
  proof (cases "is_high c")
    case True
    with "2.prems" obtain d t where "s = d # t" "is_low d" "wf16 t"
      by (auto simp: wf16.simps split: list.splits)
    with True 2 show ?thesis by (simp add: assms(4))
  next
    case False
    with 2 show ?thesis by (auto simp: wf16.simps intro!: assms(3))
  qed
qed

lemma encode_ascii: "c < 128 \<Longrightarrow> utf8_encode (c # s) = c # utf8_encode s"
  by (simp add: utf8_encode.simps)

lemma encode_2byte:
  "128 \<le> c \<Longrightarrow> c < 2048 \<Longrightarrow>
     utf8_encode (c # s) = (192 + c div 64) # (128 + c mod 64) # utf8_encode s"
  by (simp add: utf8_encode.simps)

lemma encode_3byte:
  "2048 \<le> c \<Longrightarrow> \<not> is_high c \<Longrightarrow> \<not> is_low c \<Longrightarrow>
     utf8_encode (c # s) =
       (224 + c div 4096) # (128 + c div 64 mod 64) # (128 + c mod 64) # utf8_encode s"
  by (simp add: utf8_encode.simps)

lemma encode_pair:
  assumes "is_high c" "is_low d" and "p = 65536 + (c - 55296) * 1024 + (d - 56320)"
  shows "utf8_encode (c # d # s) =
    (240 + p div 262144) # (128 + p div 4096 mod 64) # (128 + p div 64 mod 64) #
    (128 + p mod 64) # utf8_encode s"
proof -
  have "\<not> c < 128" "\<not> c < 2048" using assms(1) by (auto simp: is_high_def)
  with assms show ?thesis by (simp add: utf8_encode.simps(2) [of c] Let_def)
qed

lemma items_ascii: "b < 128 \<Longrightarrow> utf8_items (b # r) = U8 b # utf8_items r"
  by (simp add: utf8_items.simps)

lemma surrogate_range:
  "is_high c \<Longrightarrow> 55296 \<le> c \<and> c \<le> 56319" "is_low c \<Longrightarrow> 56320 \<le> c \<and> c \<le> 57343"
  by (simp_all add: is_high_def is_low_def)

lemma items_2byte:
  assumes "128 \<le> c" "c < 2048"
  shows "utf8_items ((192 + c div 64) # (128 + c mod 64) # r) = U8 c # utf8_items r"
proof -
  have "2 \<le> c div 64" "c div 64 \<le> 31" "c mod 64 \<le> 63" using assms by auto
  then show ?thesis by (simp add: cont_def utf8_items.simps)
qed

lemma items_3byte:
  assumes "2048 \<le> c" "c < 65536" "\<not> is_high c" "\<not> is_low c"
  shows "utf8_items ((224 + c div 4096) # (128 + c div 64 mod 64) # (128 + c mod 64) # r) =
    U8 c # utf8_items r"
proof -
  let ?a = "c div 4096" let ?b = "c div 64 mod 64" let ?d = "c mod 64"
  have e: "c div 4096 = c div 64 div 64" by (simp add: div_mult2_eq [symmetric])
  have c: "c = ?a * 4096 + ?b * 64 + ?d"
    using e div_mult_mod_eq [of "c div 64" 64] div_mult_mod_eq [of c 64] by linarith
  have bd: "?b \<le> 63" "?d \<le> 63" "?a \<le> 15" using assms by auto
  have "?a = 0 \<longrightarrow> 32 \<le> ?b" using c bd assms(1) by linarith
  moreover have "?a = 13 \<longrightarrow> ?b \<le> 31"
    using c bd assms(3,4) by (auto simp: is_high_def is_low_def)
  ultimately have "second3 (224 + ?a) (128 + ?b)"
    using bd by (simp add: second3_def cont_def)
  then show ?thesis using bd c by (simp add: cont_def utf8_items.simps)
qed

lemma items_4byte:
  assumes "65536 \<le> p" "p < 1114112"
  shows "utf8_items ((240 + p div 262144) # (128 + p div 4096 mod 64) #
      (128 + p div 64 mod 64) # (128 + p mod 64) # r) = U8 p # utf8_items r"
proof -
  let ?a = "p div 262144" let ?b = "p div 4096 mod 64" let ?c = "p div 64 mod 64" let ?d = "p mod 64"
  have e: "p div 4096 = p div 64 div 64" "p div 262144 = p div 4096 div 64"
    by (simp_all add: div_mult2_eq [symmetric])
  have p: "p = ?a * 262144 + ?b * 4096 + ?c * 64 + ?d"
    using e div_mult_mod_eq [of "p div 4096" 64] div_mult_mod_eq [of "p div 64" 64]
      div_mult_mod_eq [of p 64] by linarith
  have bd: "?b \<le> 63" "?c \<le> 63" "?d \<le> 63" "?a \<le> 4" using assms by auto
  have "?a = 0 \<longrightarrow> 16 \<le> ?b" "?a = 4 \<longrightarrow> ?b \<le> 15" using p bd assms by linarith+
  then have "second4 (240 + ?a) (128 + ?b)" using bd by (auto simp: second4_def cont_def)
  then show ?thesis using bd p by (simp add: cont_def utf8_items.simps)
qed

lemma div_mod_1024:
  fixes x y :: nat
  assumes "y < 1024"
  shows "(x * 1024 + y) div 1024 = x" "(x * 1024 + y) mod 1024 = y"
  using assms by simp_all

lemma item_simps [simp]: "is_U8 (U8 p)" "item_text (U8 p) = utf16 p"
  by (simp_all add: is_U8_def item_text_def)

lemma pair_value:
  assumes "is_high c" "is_low d" and "p = 65536 + (c - 55296) * 1024 + (d - 56320)"
  shows "65536 \<le> p" "p < 1114112" "utf16 p = [c, d]"
proof -
  from surrogate_range assms have b: "55296 \<le> c" "c \<le> 56319" "56320 \<le> d" "d \<le> 57343" by auto
  with assms(3) show "65536 \<le> p" "p < 1114112" by auto
  have "p - 65536 = (c - 55296) * 1024 + (d - 56320)" using assms(3) by simp
  moreover have "((c - 55296) * 1024 + (d - 56320)) div 1024 = c - 55296"
    "((c - 55296) * 1024 + (d - 56320)) mod 1024 = d - 56320"
    using b by (intro div_mod_1024; arith)+
  ultimately show "utf16 p = [c, d]" using \<open>65536 \<le> p\<close> b by (simp add: utf16_def)
qed

lemma items_single:
  assumes "c < 65536" "\<not> is_low c" "\<not> is_high c"
  shows "utf8_items (utf8_encode (c # s)) = U8 c # utf8_items (utf8_encode s)"
proof -
  consider "c < 128" | "128 \<le> c" "c < 2048" | "2048 \<le> c" by linarith
  then show ?thesis
    using assms by cases (simp_all add: encode_ascii items_ascii encode_2byte items_2byte
        encode_3byte items_3byte)
qed

lemma items_encode:
  "wf16 s \<Longrightarrow>
     list_all is_U8 (utf8_items (utf8_encode s)) \<and>
     concat (map item_text (utf8_items (utf8_encode s))) = s"
proof (induction s rule: wf16_induct)
  case (single c s)
  then show ?case by (simp add: items_single utf16_def)
next
  case (pair c d s)
  let ?p = "65536 + (c - 55296) * 1024 + (d - 56320)"
  note p = pair_value [OF pair(1,2) refl]
  have "utf8_items (utf8_encode (c # d # s)) = U8 ?p # utf8_items (utf8_encode s)"
    unfolding encode_pair [OF pair(1,2) refl] by (rule items_4byte [OF p(1,2)])
  with pair p(3) show ?case by simp
qed simp

lemma utf8_lossy_encode: "wf16 s \<Longrightarrow> utf8_lossy (utf8_encode s) = s"
  by (simp add: utf8_lossy_def items_encode)

lemma utf8_fatal_encode:
  "wf16 s \<Longrightarrow> s \<noteq> [] \<Longrightarrow> hd s \<noteq> 65279 \<Longrightarrow> utf8_fatal (utf8_encode s) = Some s"
  by (cases s) (simp_all add: utf8_fatal_def items_encode utf8_lossy_encode drop_bom_def)

section \<open>Byte-level shape of encoded text\<close>

lemma utf8_ascii_byte: "wf16 s \<Longrightarrow> b < 128 \<Longrightarrow> b \<in> set (utf8_encode s) \<longleftrightarrow> b \<in> set s"
proof (induction s rule: wf16_induct)
  case (single c s)
  consider "c < 128" | "128 \<le> c" "c < 2048" | "2048 \<le> c" by linarith
  then show ?case
    using single by cases (auto simp: encode_ascii encode_2byte encode_3byte)
next
  case (pair c d s)
  then have "c \<noteq> b" "d \<noteq> b" using surrogate_range by fastforce+
  with pair show ?case by (simp add: encode_pair [OF pair(1,2) refl])
qed simp

lemma utf8_encode_Nil: "wf16 s \<Longrightarrow> utf8_encode s = [] \<longleftrightarrow> s = []"
proof (induction s rule: wf16_induct)
  case (single c s)
  consider "c < 128" | "128 \<le> c" "c < 2048" | "2048 \<le> c" by linarith
  then show ?case
    using single by cases (auto simp: encode_ascii encode_2byte encode_3byte)
qed (simp_all add: encode_pair)

lemma wf16_append: "wf16 a \<Longrightarrow> wf16 b \<Longrightarrow> wf16 (a @ b)"
  by (induction a rule: wf16_induct) (auto simp: wf16_single wf16_pair)

lemma utf8_encode_append: "wf16 a \<Longrightarrow> utf8_encode (a @ b) = utf8_encode a @ utf8_encode b"
proof (induction a rule: wf16_induct)
  case (single c s)
  consider "c < 128" | "128 \<le> c" "c < 2048" | "2048 \<le> c" by linarith
  then show ?case
    using single by cases (auto simp: encode_ascii encode_2byte encode_3byte)
qed (simp_all add: encode_pair)

lemma plain_unit: "c < 55296 \<Longrightarrow> \<not> is_high c \<and> \<not> is_low c"
  by (simp add: is_high_def is_low_def)

lemma wf16_Cons: "c < 55296 \<Longrightarrow> wf16 (c # s) \<longleftrightarrow> wf16 s"
  by (simp add: wf16_single plain_unit)

lemma wf16_ascii: "list_all (\<lambda>c. c < 55296) s \<Longrightarrow> wf16 s"
  by (induction s) (auto simp: wf16_Cons)

section \<open>Printed JSON is well-formed and free of line breaks\<close>

lemma hex_digit_less: "d < 16 \<Longrightarrow> hex_digit d < 55296" "hex_digit d \<noteq> 10"
  by (simp_all add: hex_digit_def)

lemma wf16_escape_u: "c < 65536 \<Longrightarrow> wf16 (escape_u c)"
proof -
  assume "c < 65536"
  then have "c div 4096 < 16" by simp
  then show ?thesis by (intro wf16_ascii) (simp add: escape_u_def hex4_def hex_digit_less)
qed

lemma wf16_quote_unit: "c < 65536 \<Longrightarrow> \<not> is_high c \<Longrightarrow> \<not> is_low c \<Longrightarrow> wf16 (quote_unit c)"
  by (simp add: quote_unit_def wf16_single wf16_Cons wf16_escape_u)

lemma wf16_quote_body: "wf_str s \<Longrightarrow> wf16 (quote_body s)"
proof (induction s rule: quote_body.induct)
  case (2 c s)
  have c: "c < 65536" and s: "wf_str s" using "2.prems" by (auto simp: wf_str_def)
  note esc = wf16_append [OF wf16_escape_u [OF c]]
  show ?case
  proof (cases "is_high c")
    case True
    show ?thesis
    proof (cases s)
      case Nil
      with True wf16_escape_u [OF c] show ?thesis by simp
    next
      case (Cons d t)
      with s have t: "wf_str t" by (simp add: wf_str_def)
      show ?thesis
      proof (cases "is_low d")
        case True
        with "2.IH"(1) \<open>is_high c\<close> Cons t show ?thesis by (simp add: wf16_pair)
      next
        case False
        with 2 \<open>is_high c\<close> Cons s have "wf16 (quote_body s)" by simp
        from esc [OF this] False \<open>is_high c\<close> Cons show ?thesis by simp
      qed
    qed
  next
    case False
    with 2 s have "wf16 (quote_body s)" by (cases "is_low c") auto
    with False esc wf16_append [OF wf16_quote_unit [OF c False]] show ?thesis by simp
  qed
qed simp

lemma wf16_quote: "wf_str s \<Longrightarrow> wf16 (quote s)"
  unfolding quote_def
  using wf16_append [OF wf16_quote_body, of s "[34]"] by (simp add: wf16_Cons)

lemma abs_text_units: "c \<in> set (abs_text m e) \<Longrightarrow> is_digit c \<or> c = 46 \<or> c = 101 \<or> c = 43 \<or> c = 45"
proof -
  assume c: "c \<in> set (abs_text m e)"
  have d: "list_all is_digit (show_nat n)" for n by simp
  then have dd: "x \<in> set (show_nat n) \<Longrightarrow> is_digit x" for x n by (auto simp: list_all_iff)
  have "is_digit (hd (show_nat m))" by (rule dd) (rule hd_in_set, simp)
  moreover have "set (tl (show_nat m)) \<subseteq> set (show_nat m)" by (meson list.set_sel(2) show_nat_nonempty subsetI)
  ultimately show ?thesis using c dd
    by (auto simp: abs_text_def Let_def is_digit_def [of 48] split: if_splits
        dest: in_set_takeD in_set_dropD)
qed

lemma num_text_units: "c \<in> set (num_text x) \<Longrightarrow> c < 128 \<and> c \<noteq> 10"
proof (cases x)
  case (Dec s e)
  assume "c \<in> set (num_text x)"
  with Dec have "c = 48 \<or> c = 45 \<or> c \<in> set (abs_text (nat \<bar>s\<bar>) e)"
    by (auto split: if_splits)
  then show ?thesis by (auto simp: is_digit_def dest!: abs_text_units)
qed (auto simp: js_def)

lemma escape_u_no_nl: "10 \<notin> set (escape_u c)"
  by (simp add: escape_u_def hex4_def hex_digit_less(2) hex_digit_less(2) [symmetric])

lemma quote_body_no_nl: "10 \<notin> set (quote_body s)"
proof (induction s rule: quote_body.induct)
  case (2 c s)
  then show ?case
    by (auto simp: quote_unit_def escape_u_no_nl is_high_def is_low_def split: list.splits)
qed simp

lemma stringify_wf16:
  "wf_json v \<Longrightarrow> wf16 (stringify v)"
  "list_all wf_json vs \<Longrightarrow> wf16 (str_elems vs)"
  "list_all (\<lambda>m. wf_str (fst m) \<and> wf_json (snd m)) ms \<Longrightarrow> wf16 (str_members ms)"
proof (induction v and vs and ms rule: stringify_str_elems_str_members.induct)
  case (3 x)
  have "list_all (\<lambda>c. c < 55296) (num_text x)"
    using num_text_units [of _ x] by (fastforce simp: list_all_iff)
  then show ?case by (simp add: wf16_ascii)
next
  case (5 vs)
  then show ?case using wf16_append [of "str_elems vs" "[93]"] by (simp add: wf16_Cons)
next
  case (6 ms)
  then show ?case using wf16_append [of "str_members ms" "[125]"]
    by (simp add: wf_json_Obj wf16_Cons)
next
  case (8 v vs)
  then show ?case using wf16_append [of "stringify v" "44 # str_elems vs"]
    by (auto simp: wf16_Cons)
next
  case (10 k v ms)
  then have "wf16 (stringify v @ (if ms = [] then [] else 44 # str_members ms))"
    by (intro wf16_append) (auto simp: wf16_Cons)
  then have "wf16 (58 # stringify v @ (if ms = [] then [] else 44 # str_members ms))"
    by (simp add: wf16_Cons)
  with 10 show ?case using wf16_append [OF wf16_quote [of k]] by simp
qed (auto simp: js_def wf16_Cons wf16_quote)

lemma stringify_no_nl:
  "10 \<notin> set (stringify v)" "10 \<notin> set (str_elems vs)" "10 \<notin> set (str_members ms)"
proof (induction v and vs and ms rule: stringify_str_elems_str_members.induct)
  case (3 x)
  then show ?case using num_text_units [of 10 x] by auto
qed (auto simp: js_def quote_def quote_body_no_nl)

end
