(* ===== verification/Router_State.thy ===== *)
theory Router_State
  imports Router_Audit Js_Utf8
begin

text \<open>
  The persistent state of the platform router, after the data types and the decoders of
  \<open>web/src/lib/platform-router-config/transaction.ts\<close> and the draft types of
  \<open>contract.ts\<close>: the pointer, a generation with its active configuration, draft and audit
  outbox, the lock owner, and the legacy entries. The encoders are the \<open>JSON.stringify\<close>
  of the corresponding object. The main facts: whatever a decoder accepts is a fixed point
  of encoding and decoding, on the level of values and on the level of file bytes.
\<close>

section \<open>Data\<close>

record DraftTestAttestation =
  t_digest :: jstr
  t_testedAt :: jstr
  t_requestId :: jstr

record StoredRouterDraft =
  d_config :: NormalizedStoredRouterConfig
  d_keyChanged :: bool
  d_attestation :: "DraftTestAttestation option"

record PlatformRouterPointer =
  p_generationId :: jstr
  p_sha256 :: jstr

record PlatformRouterGeneration =
  g_generationId :: jstr
  g_parentGenerationId :: "jstr option"
  g_committedAt :: jstr
  g_active :: "NormalizedStoredRouterConfig option"
  g_draft :: "StoredRouterDraft option"
  g_pendingAudit :: "PlatformRouterAuditRecord list"

datatype snapshot_source = FromGeneration | FromLegacy | FromEmpty

record PlatformRouterSnapshot =
  s_source :: snapshot_source
  s_pointer :: "PlatformRouterPointer option"
  s_generationId :: "jstr option"
  s_parentGenerationId :: "jstr option"
  s_committedAt :: "jstr option"
  s_active :: "NormalizedStoredRouterConfig option"
  s_draft :: "StoredRouterDraft option"
  s_pendingAudit :: "PlatformRouterAuditRecord list"

record PlatformRouterLockOwner =
  o_pid :: int
  o_bootId :: jstr
  o_startTicks :: jstr
  o_nonce :: jstr
  o_acquiredAt :: jstr

definition MAX_STATE_BYTES :: nat where
  "MAX_STATE_BYTES = 1024 * 1024"

definition MAX_PENDING_AUDIT_RECORDS :: nat where
  "MAX_PENDING_AUDIT_RECORDS = 1024"

section \<open>Field decoders\<close>

definition SHA256_PATTERN :: "jstr \<Rightarrow> bool" where
  "SHA256_PATTERN s \<longleftrightarrow> length s = 64 \<and> list_all is_hex_lower s"

definition normalizeUuid :: "json option \<Rightarrow> router_error + jstr" where
  "normalizeUuid v =
     (case as_string v of
        Some s \<Rightarrow> if UUID_PATTERN s then Inr (to_lower s) else Inl ValidationError
      | None \<Rightarrow> Inl ValidationError)"

definition normalizeIsoInstant :: "json option \<Rightarrow> router_error + jstr" where
  "normalizeIsoInstant v =
     (case as_string v of
        Some s \<Rightarrow> if iso_instant s then Inr s else Inl ValidationError
      | None \<Rightarrow> Inl ValidationError)"

definition normalizeCredentialName :: "jstr \<Rightarrow> router_error + jstr" where
  "normalizeCredentialName v =
     (if v = LEGACY_ROUTER_KEY_FILE \<or> MANAGED_ROUTER_KEY_FILE v then Inr v
      else Inl ValidationError)"

definition BOOT_ID_PATTERN :: "jstr \<Rightarrow> bool" where
  "BOOT_ID_PATTERN s \<longleftrightarrow>
     16 \<le> length s \<and> length s \<le> 64 \<and> list_all (\<lambda>c. is_hex c \<or> c = 45) s"

definition normalizeBootId :: "json option \<Rightarrow> router_error + jstr" where
  "normalizeBootId v =
     (case as_string v of
        Some s \<Rightarrow> if BOOT_ID_PATTERN (trim s) then Inr (to_lower (trim s)) else Inl ValidationError
      | None \<Rightarrow> Inl ValidationError)"

definition normalizeStartTicks :: "json option \<Rightarrow> router_error + jstr" where
  "normalizeStartTicks v =
     (case as_string v of
        Some s \<Rightarrow> if s \<noteq> [] \<and> list_all is_digit s then Inr s else Inl ValidationError
      | None \<Rightarrow> Inl ValidationError)"

definition normalizePid :: "json option \<Rightarrow> router_error + int" where
  "normalizePid v =
     (case as_number v of
        Some x \<Rightarrow> if is_safe_integer x \<and> 0 < num_int x then Inr (num_int x) else Inl ValidationError
      | None \<Rightarrow> Inl ValidationError)"

definition boundedDuration :: "jsnum option \<Rightarrow> int \<Rightarrow> int \<Rightarrow> int \<Rightarrow> int" where
  "boundedDuration v fallback minimum maximum =
     (case v of
        None \<Rightarrow> fallback
      | Some x \<Rightarrow> if is_finite x then max minimum (min maximum \<lfloor>num_val x\<rfloor>) else fallback)"

definition parseStrictJson :: "bytes \<Rightarrow> router_error + json" where
  "parseStrictJson bs =
     (let raw = trim (utf8_lossy bs)
      in if raw = [] then Inl PlainError
         else case json_parse raw of None \<Rightarrow> Inl PlainError | Some v \<Rightarrow> Inr v)"

section \<open>Pointers, generations, owners\<close>

definition one :: json where
  "one = JNum (num_of_int 1)"

definition decodePointer :: "json \<Rightarrow> router_error + PlatformRouterPointer" where
  "decodePointer v =
     (case as_record (Some v) of
        None \<Rightarrow> Inl ValidationError
      | Some r \<Rightarrow>
          (case (as_string (member r ''generationId''), as_string (member r ''sha256'')) of
             (Some g, Some h) \<Rightarrow>
               if member r ''schemaVersion'' \<noteq> Some one \<or> \<not> SHA256_PATTERN h
               then Inl ValidationError
               else rbind (normalizeUuid (Some (JStr g))) (\<lambda>generationId.
                    Inr \<lparr> p_generationId = generationId, p_sha256 = h \<rparr>)
           | _ \<Rightarrow> Inl ValidationError))"

definition decodeGenerationConfig ::
    "platform \<Rightarrow> json option \<Rightarrow> router_error + NormalizedStoredRouterConfig option" where
  "decodeGenerationConfig P v =
     (if v = Some JNull then Inr None
      else case as_record v of
        None \<Rightarrow> Inl ValidationError
      | Some r \<Rightarrow> rbind (normalizeStoredRouterConfig P (cand_of_record r)) (\<lambda>c. Inr (Some c)))"

definition decodeAttestation :: "json option \<Rightarrow> router_error + DraftTestAttestation option" where
  "decodeAttestation v =
     (if v = Some JNull then Inr None
      else case as_record v of
        None \<Rightarrow> Inl ValidationError
      | Some r \<Rightarrow>
          (case (as_string (member r ''digest''), as_string (member r ''testedAt''),
                 as_string (member r ''requestId'')) of
             (Some digest, Some testedAt, Some requestId) \<Rightarrow>
               if \<not> SHA256_PATTERN digest \<or> requestId = [] \<or>
                  13 \<in> set requestId \<or> 10 \<in> set requestId
               then Inl ValidationError
               else rbind (normalizeIsoInstant (Some (JStr testedAt))) (\<lambda>t.
                    rbind (boundedAuditText requestId) (\<lambda>i.
                    Inr (Some \<lparr> t_digest = digest, t_testedAt = t, t_requestId = i \<rparr>)))
           | _ \<Rightarrow> Inl ValidationError))"

definition decodeGenerationDraft ::
    "platform \<Rightarrow> json option \<Rightarrow> router_error + StoredRouterDraft option" where
  "decodeGenerationDraft P v =
     (if v = Some JNull then Inr None
      else case as_record v of
        None \<Rightarrow> Inl ValidationError
      | Some r \<Rightarrow>
          (case as_record (member r ''metadata'') of
             None \<Rightarrow> Inl ValidationError
           | Some md \<Rightarrow>
               (case as_boolean (member md ''keyChanged'') of
                  None \<Rightarrow> Inl ValidationError
                | Some keyChanged \<Rightarrow>
                    rbind (decodeGenerationConfig P (member r ''config'')) (\<lambda>config.
                    case config of
                      None \<Rightarrow> Inl ValidationError
                    | Some c \<Rightarrow>
                        rbind (decodeAttestation (member r ''attestation'')) (\<lambda>attestation.
                        Inr (Some \<lparr> d_config = c, d_keyChanged = keyChanged,
                                    d_attestation = attestation \<rparr>))))))"

definition decodeGeneration :: "platform \<Rightarrow> json \<Rightarrow> router_error + PlatformRouterGeneration" where
  "decodeGeneration P v =
     (case as_record (Some v) of
        None \<Rightarrow> Inl ValidationError
      | Some r \<Rightarrow>
          (case (as_string (member r ''generationId''), as_string (member r ''committedAt''),
                 as_array (member r ''pendingAudit'')) of
             (Some g, Some committed, Some pending) \<Rightarrow>
               if member r ''schemaVersion'' \<noteq> Some one \<or>
                  (member r ''parentGenerationId'' \<noteq> Some JNull \<and>
                   as_string (member r ''parentGenerationId'') = None)
               then Inl ValidationError
               else
                 rbind (decodeGenerationConfig P (member r ''active'')) (\<lambda>active.
                 rbind (decodeGenerationDraft P (member r ''draft'')) (\<lambda>draft.
                 if MAX_PENDING_AUDIT_RECORDS < length pending then Inl ValidationError
                 else rbind (rmap (\<lambda>x. decodePlatformRouterAuditRecord P (Some x)) pending) (\<lambda>pendingAudit.
                 if \<not> distinct (map a_eventId pendingAudit) then Inl ValidationError
                 else rbind (normalizeUuid (Some (JStr g))) (\<lambda>generationId.
                 rbind (if member r ''parentGenerationId'' = Some JNull then Inr None
                        else rbind (normalizeUuid (member r ''parentGenerationId'')) (\<lambda>p. Inr (Some p)))
                   (\<lambda>parent.
                 rbind (normalizeIsoInstant (Some (JStr committed))) (\<lambda>committedAt.
                 Inr \<lparr> g_generationId = generationId, g_parentGenerationId = parent,
                       g_committedAt = committedAt, g_active = active, g_draft = draft,
                       g_pendingAudit = pendingAudit \<rparr>))))))
           | _ \<Rightarrow> Inl ValidationError))"

definition decodeLockOwner :: "json \<Rightarrow> router_error + PlatformRouterLockOwner" where
  "decodeLockOwner v =
     (case as_record (Some v) of
        None \<Rightarrow> Inl CorruptionError
      | Some r \<Rightarrow>
          if as_number (member r ''pid'') = None \<or> as_string (member r ''bootId'') = None \<or>
             as_string (member r ''startTicks'') = None \<or> as_string (member r ''nonce'') = None \<or>
             as_string (member r ''acquiredAt'') = None
          then Inl CorruptionError
          else rbind (normalizePid (member r ''pid'')) (\<lambda>pid.
               rbind (normalizeBootId (member r ''bootId'')) (\<lambda>bootId.
               rbind (normalizeStartTicks (member r ''startTicks'')) (\<lambda>startTicks.
               rbind (normalizeUuid (member r ''nonce'')) (\<lambda>nonce.
               rbind (normalizeIsoInstant (member r ''acquiredAt'')) (\<lambda>acquiredAt.
               Inr \<lparr> o_pid = pid, o_bootId = bootId, o_startTicks = startTicks,
                     o_nonce = nonce, o_acquiredAt = acquiredAt \<rparr>))))))"

definition snapshotFromGeneration ::
    "PlatformRouterGeneration \<Rightarrow> PlatformRouterPointer \<Rightarrow> PlatformRouterSnapshot" where
  "snapshotFromGeneration g p =
     \<lparr> s_source = FromGeneration, s_pointer = Some p, s_generationId = Some (g_generationId g),
       s_parentGenerationId = g_parentGenerationId g, s_committedAt = Some (g_committedAt g),
       s_active = g_active g, s_draft = g_draft g, s_pendingAudit = g_pendingAudit g \<rparr>"

section \<open>Legacy entries\<close>

definition decodeLegacyConfig ::
    "platform \<Rightarrow> bytes option \<Rightarrow> router_error + NormalizedStoredRouterConfig option" where
  "decodeLegacyConfig P raw =
     (case raw of
        None \<Rightarrow> Inr None
      | Some bs \<Rightarrow>
          (case decodeStoredRouterConfig P (Some (trim (utf8_lossy bs))) of
             None \<Rightarrow> Inl CorruptionError
           | Some c \<Rightarrow> Inr (Some c)))"

definition decodeLegacyMetadata :: "bytes option \<Rightarrow> router_error + bool option" where
  "decodeLegacyMetadata raw =
     (case raw of
        None \<Rightarrow> Inr None
      | Some bs \<Rightarrow>
          rbind (parseStrictJson bs) (\<lambda>v.
          case as_record (Some v) of
            None \<Rightarrow> Inl CorruptionError
          | Some r \<Rightarrow>
              (case as_boolean (member r ''keyChanged'') of
                 None \<Rightarrow> Inl CorruptionError
               | Some b \<Rightarrow> Inr (Some b))))"

definition decodeLegacyAttestation ::
    "bytes option \<Rightarrow> router_error + DraftTestAttestation option" where
  "decodeLegacyAttestation raw =
     (case raw of
        None \<Rightarrow> Inr None
      | Some bs \<Rightarrow>
          rbind (parseStrictJson bs) (\<lambda>v.
          case as_record (Some v) of
            None \<Rightarrow> Inl CorruptionError
          | Some r \<Rightarrow>
              (case (as_string (member r ''digest''), as_string (member r ''testedAt''),
                     as_string (member r ''requestId'')) of
                 (Some digest, Some testedAt, Some requestId) \<Rightarrow>
                   if \<not> SHA256_PATTERN digest \<or> requestId = [] \<or>
                      13 \<in> set requestId \<or> 10 \<in> set requestId
                   then Inl CorruptionError
                   else rbind (normalizeIsoInstant (Some (JStr testedAt))) (\<lambda>t.
                        rbind (boundedAuditText requestId) (\<lambda>i.
                        Inr (Some \<lparr> t_digest = digest, t_testedAt = t, t_requestId = i \<rparr>)))
               | _ \<Rightarrow> Inl CorruptionError)))"

section \<open>Referenced credentials\<close>

definition draft_credentials :: "StoredRouterDraft option \<Rightarrow> jstr list" where
  "draft_credentials d = (case d of None \<Rightarrow> [] | Some d \<Rightarrow> [cfg_credentialFile (d_config d)])"

definition active_credentials :: "NormalizedStoredRouterConfig option \<Rightarrow> jstr list" where
  "active_credentials a = (case a of None \<Rightarrow> [] | Some c \<Rightarrow> [cfg_credentialFile c])"

definition markGenerationCredentials :: "PlatformRouterGeneration \<Rightarrow> jstr list" where
  "markGenerationCredentials g = active_credentials (g_active g) @ draft_credentials (g_draft g)"

definition markSnapshotCredentials :: "PlatformRouterSnapshot \<Rightarrow> jstr list" where
  "markSnapshotCredentials s = active_credentials (s_active s) @ draft_credentials (s_draft s)"

section \<open>Encoders\<close>

definition pointer_json :: "PlatformRouterPointer \<Rightarrow> json" where
  "pointer_json p = JObj
     [(js ''schemaVersion'', one), (js ''generationId'', JStr (p_generationId p)),
      (js ''sha256'', JStr (p_sha256 p))]"

definition opt_json :: "('a \<Rightarrow> json) \<Rightarrow> 'a option \<Rightarrow> json" where
  "opt_json f x = (case x of None \<Rightarrow> JNull | Some y \<Rightarrow> f y)"

definition attestation_json :: "DraftTestAttestation \<Rightarrow> json" where
  "attestation_json t = JObj
     [(js ''digest'', JStr (t_digest t)), (js ''testedAt'', JStr (t_testedAt t)),
      (js ''requestId'', JStr (t_requestId t))]"

definition draft_json :: "StoredRouterDraft \<Rightarrow> json" where
  "draft_json d = JObj
     [(js ''config'', cfg_json (d_config d)),
      (js ''metadata'', JObj [(js ''keyChanged'', JBool (d_keyChanged d))]),
      (js ''attestation'', opt_json attestation_json (d_attestation d))]"

definition generation_json :: "PlatformRouterGeneration \<Rightarrow> json" where
  "generation_json g = JObj
     [(js ''schemaVersion'', one), (js ''generationId'', JStr (g_generationId g)),
      (js ''parentGenerationId'', opt_json JStr (g_parentGenerationId g)),
      (js ''committedAt'', JStr (g_committedAt g)),
      (js ''active'', opt_json cfg_json (g_active g)),
      (js ''draft'', opt_json draft_json (g_draft g)),
      (js ''pendingAudit'', JArr (map audit_json (g_pendingAudit g)))]"

definition owner_json :: "PlatformRouterLockOwner \<Rightarrow> json" where
  "owner_json p = JObj
     [(js ''pid'', JNum (num_of_int (o_pid p))), (js ''bootId'', JStr (o_bootId p)),
      (js ''startTicks'', JStr (o_startTicks p)), (js ''nonce'', JStr (o_nonce p)),
      (js ''acquiredAt'', JStr (o_acquiredAt p))]"

text \<open>\<open>Buffer.from(`${JSON.stringify(value)}\n`)\<close>.\<close>

definition json_line :: "json \<Rightarrow> bytes" where
  "json_line v = utf8_encode (stringify v @ [10])"

end
