(* ===== verification/Router_Fs.thy ===== *)
theory Router_Fs
  imports Io Router_State "HOL-Library.AList"
begin

text \<open>
  The file system under the transaction root and the file helpers of
  \<open>web/src/lib/platform-router-config/transaction.ts\<close> (\<open>readRegularFile\<close>,
  \<open>writeExclusiveFile\<close>, \<open>writeAll\<close>, \<open>fsyncDirectory\<close> and the path assertions).

  A directory is an inode with a list of entries. Regular files are kept in their entry: the
  source never renames or replaces a file it has open, so a file descriptor is the location
  it was opened at. A directory descriptor is the inode, which stays valid after a rename;
  this is what the lock relies on. Every system call is one tick of the machine: before it
  the other processes may change the disk, and the schedule of the machine may let it fail
  with an error code the source does not test for, write or read less than asked, or kill
  the process. A disk also records, for every entry, the older versions a loss of power may
  bring back: the entry is settled by a sync of its directory, the content by a sync of the
  file.
\<close>

section \<open>Disk\<close>

datatype node =
    FileN bytes rat bool      \<comment> \<open>content, modification time, content is synced\<close>
  | DirN nat
  | LinkN "nat option"        \<comment> \<open>symbolic link and the directory it leads to, if any\<close>
  | OtherN

record disk =
  k_root :: "node option"
  k_dirs :: "nat \<Rightarrow> (jstr \<times> node) list"
  k_older :: "nat \<Rightarrow> jstr \<Rightarrow> node option list"
  k_mtime :: "nat \<Rightarrow> rat"
  k_inode :: nat

definition entry :: "disk \<Rightarrow> nat \<Rightarrow> jstr \<Rightarrow> node option" where
  "entry d i n = map_of (k_dirs d i) n"

definition set_node :: "nat \<Rightarrow> jstr \<Rightarrow> node option \<Rightarrow> disk \<Rightarrow> disk" where
  "set_node i n v d = d
     \<lparr> k_dirs := (k_dirs d)(i := (case v of Some x \<Rightarrow> AList.update n x (k_dirs d i)
                                       | None \<Rightarrow> AList.delete n (k_dirs d i))),
       k_older := (k_older d)(i := (k_older d i)(n := entry d i n # k_older d i n)) \<rparr>"

definition touch_dir :: "nat \<Rightarrow> rat \<Rightarrow> disk \<Rightarrow> disk" where
  "touch_dir i t d = d\<lparr> k_mtime := (k_mtime d)(i := t) \<rparr>"

definition settle :: "nat \<Rightarrow> disk \<Rightarrow> disk" where
  "settle i d = d\<lparr> k_older := (k_older d)(i := (\<lambda>n. [])) \<rparr>"

text \<open>What a loss of power may leave at an entry: one of the unsettled versions, the content of
  an unsynced file being arbitrary.\<close>

definition cands :: "disk \<Rightarrow> nat \<Rightarrow> jstr \<Rightarrow> node option set" where
  "cands d i n = insert (entry d i n) (set (k_older d i n))"

fun node_after_loss :: "node option \<Rightarrow> node option \<Rightarrow> bool" where
  "node_after_loss (Some (FileN b t True)) (Some (FileN b' t' s')) = (b' = b)"
| "node_after_loss (Some (FileN b t False)) (Some (FileN b' t' s')) = True"
| "node_after_loss x y = (y = x)"

definition power_loss :: "disk \<Rightarrow> disk \<Rightarrow> bool" where
  "power_loss d d' \<longleftrightarrow> k_root d' = k_root d \<and>
     (\<forall>i n. \<exists>c \<in> cands d i n. node_after_loss c (entry d' i n))"

section \<open>Machine and world\<close>

record LockCapability =
  c_descriptor :: nat
  c_device :: nat
  c_inode :: nat
  c_nonce :: jstr
  c_ownerBytes :: bytes
  c_released :: bool
  c_publicationUncertain :: bool

record world =
  w_disk :: disk
  w_tick :: nat
  w_ids :: nat
  w_caps :: "nat \<Rightarrow> LockCapability option"
  w_handles :: nat

datatype fault = NoFault | FailIO | Short nat | Die

record machine =
  mc_sched :: "nat \<Rightarrow> fault"
  mc_others :: "nat \<Rightarrow> disk \<Rightarrow> disk"
  mc_fuel :: nat
  mc_platform :: platform
  mc_device :: nat
  mc_root :: jstr
  mc_pid :: jsnum
  mc_nowMs :: "nat \<Rightarrow> rat"
  mc_now :: "nat \<Rightarrow> jstr"
  mc_monotonicNowMs :: "nat \<Rightarrow> rat"
  mc_random :: "nat \<Rightarrow> rat"
  mc_nextId :: "nat \<Rightarrow> jstr"
  mc_readBootId :: "nat \<Rightarrow> jstr"
  mc_readProcessStartTicks :: "nat \<Rightarrow> int \<Rightarrow> jstr option"

type_synonym 'a io = "(machine, world, 'a) prog"

definition sys :: "(machine \<Rightarrow> nat \<Rightarrow> disk \<Rightarrow> errno + 'a \<times> disk) \<Rightarrow> 'a io" where
  "sys f = (\<lambda>M w.
     let t = w_tick w; d = mc_others M t (w_disk w); w1 = w\<lparr> w_disk := d, w_tick := Suc t \<rparr>
     in case mc_sched M t of
          Die \<Rightarrow> (Crash, w1)
        | FailIO \<Rightarrow> (Throw (NodeError EIO), w1)
        | _ \<Rightarrow> (case f M t d of
                   Inl e \<Rightarrow> (Throw (NodeError e), w1)
                 | Inr (x, d') \<Rightarrow> (Ret x, w1\<lparr> w_disk := d' \<rparr>)))"

definition next_id :: "jstr io" where
  "next_id = (\<lambda>M w. (Ret (mc_nextId M (w_ids w)), w\<lparr> w_ids := Suc (w_ids w) \<rparr>))"

definition now_ms :: "rat io" where
  "now_ms = get (\<lambda>M w. mc_nowMs M (w_tick w))"

definition now_iso :: "jstr io" where
  "now_iso = get (\<lambda>M w. mc_now M (w_tick w))"

section \<open>Paths\<close>

text \<open>\<open>path.join(root, a, b)\<close> and \<open>/proc/self/fd/N/a\<close>, the descriptor being the inode.\<close>

datatype path = RootPath "jstr list" | FdPath nat "jstr list"

fun follow :: "node option \<Rightarrow> errno + nat" where
  "follow (Some (DirN i)) = Inr i"
| "follow (Some (LinkN (Some i))) = Inr i"
| "follow (Some (LinkN None)) = Inl ENOENT"
| "follow None = Inl ENOENT"
| "follow (Some v) = Inl ENOTDIR"

fun walk :: "disk \<Rightarrow> nat \<Rightarrow> jstr list \<Rightarrow> errno + nat \<times> jstr" where
  "walk d i [] = Inl EISDIR"
| "walk d i [n] = Inr (i, n)"
| "walk d i (n # m # ns) = rbind (follow (entry d i n)) (\<lambda>j. walk d j (m # ns))"

fun locate :: "disk \<Rightarrow> path \<Rightarrow> errno + nat \<times> jstr" where
  "locate d (RootPath ns) = rbind (follow (k_root d)) (\<lambda>i. walk d i ns)"
| "locate d (FdPath i ns) = walk d i ns"

fun node_at :: "disk \<Rightarrow> path \<Rightarrow> errno + node" where
  "node_at d (RootPath []) = (case k_root d of None \<Rightarrow> Inl ENOENT | Some v \<Rightarrow> Inr v)"
| "node_at d (FdPath i []) = Inr (DirN i)"
| "node_at d p = rbind (locate d p) (\<lambda>(i, n).
     case entry d i n of None \<Rightarrow> Inl ENOENT | Some v \<Rightarrow> Inr v)"

fun basename :: "path \<Rightarrow> jstr" where
  "basename (RootPath ns) = (if ns = [] then [] else last ns)"
| "basename (FdPath i ns) = (if ns = [] then [] else last ns)"

fun dirname :: "path \<Rightarrow> path" where
  "dirname (RootPath ns) = RootPath (butlast ns)"
| "dirname (FdPath i ns) = FdPath i (butlast ns)"

fun is_file :: "node \<Rightarrow> bool" where
  "is_file (FileN b t s) = True"
| "is_file v = False"

fun is_directory :: "node \<Rightarrow> bool" where
  "is_directory (DirN i) = True"
| "is_directory v = False"

fun node_inode :: "node \<Rightarrow> nat" where
  "node_inode (DirN i) = i"
| "node_inode v = 0"

fun node_size :: "node \<Rightarrow> nat" where
  "node_size (FileN b t s) = length b"
| "node_size v = 0"

fun node_mtime :: "disk \<Rightarrow> node \<Rightarrow> rat" where
  "node_mtime d (FileN b t s) = t"
| "node_mtime d (DirN i) = k_mtime d i"
| "node_mtime d v = 0"

section \<open>System calls\<close>

type_synonym fd = "nat \<times> jstr"

definition lstat :: "path \<Rightarrow> (node \<times> rat) io" where
  "lstat p = sys (\<lambda>M t d. rbind (node_at d p) (\<lambda>v. Inr ((v, node_mtime d v), d)))"

text \<open>\<open>O_CREAT | O_EXCL | O_WRONLY | O_NOFOLLOW\<close>.\<close>

definition open_excl :: "path \<Rightarrow> fd io" where
  "open_excl p = sys (\<lambda>M t d. rbind (locate d p) (\<lambda>(i, n).
     case entry d i n of
       Some v \<Rightarrow> Inl EEXIST
     | None \<Rightarrow> Inr ((i, n), touch_dir i (mc_nowMs M t)
                 (set_node i n (Some (FileN [] (mc_nowMs M t) False)) d))))"

text \<open>\<open>O_RDONLY | O_NOFOLLOW\<close> on something expected to be a file.\<close>

definition open_read :: "path \<Rightarrow> fd io" where
  "open_read p = sys (\<lambda>M t d. rbind (locate d p) (\<lambda>(i, n).
     case entry d i n of
       None \<Rightarrow> Inl ENOENT
     | Some (LinkN x) \<Rightarrow> Inl ELOOP
     | Some v \<Rightarrow> Inr ((i, n), d)))"

text \<open>\<open>O_APPEND | O_CREAT | O_WRONLY | O_NOFOLLOW\<close>.\<close>

definition open_append :: "path \<Rightarrow> fd io" where
  "open_append p = sys (\<lambda>M t d. rbind (locate d p) (\<lambda>(i, n).
     case entry d i n of
       None \<Rightarrow> Inr ((i, n), touch_dir i (mc_nowMs M t)
                 (set_node i n (Some (FileN [] (mc_nowMs M t) False)) d))
     | Some (LinkN x) \<Rightarrow> Inl ELOOP
     | Some (DirN j) \<Rightarrow> Inl EISDIR
     | Some v \<Rightarrow> Inr ((i, n), d)))"

text \<open>\<open>O_RDONLY | O_DIRECTORY | O_NOFOLLOW\<close>.\<close>

definition open_dir :: "path \<Rightarrow> nat io" where
  "open_dir p = sys (\<lambda>M t d. rbind (node_at d p) (\<lambda>v.
     case v of DirN i \<Rightarrow> Inr (i, d) | _ \<Rightarrow> Inl ENOTDIR))"

definition fstat :: "fd \<Rightarrow> node io" where
  "fstat f = sys (\<lambda>M t d. case entry d (fst f) (snd f) of
     None \<Rightarrow> Inl EIO | Some v \<Rightarrow> Inr (v, d))"

definition fstat_dir :: "nat \<Rightarrow> (node \<times> rat) io" where
  "fstat_dir i = sys (\<lambda>M t d. Inr ((DirN i, k_mtime d i), d))"

text \<open>Modes are not part of the disk: \<open>chmod\<close>, \<open>fchmod\<close> and \<open>close\<close> can only fail.\<close>

definition no_effect :: "unit io" where
  "no_effect = sys (\<lambda>M t d. Inr ((), d))"

definition close_fd :: "'d \<Rightarrow> unit io" where
  "close_fd f = no_effect"

definition amount :: "machine \<Rightarrow> nat \<Rightarrow> nat \<Rightarrow> nat" where
  "amount M t n = (case mc_sched M t of Short k \<Rightarrow> min k n | _ \<Rightarrow> n)"

definition write_fd :: "fd \<Rightarrow> bytes \<Rightarrow> nat io" where
  "write_fd f bs = sys (\<lambda>M t d. case entry d (fst f) (snd f) of
     Some (FileN b t' s) \<Rightarrow>
       (let k = amount M t (length bs)
        in Inr (k, set_node (fst f) (snd f) (Some (FileN (b @ take k bs) (mc_nowMs M t) False)) d))
   | _ \<Rightarrow> Inl EIO)"

text \<open>A read returns at least one byte before the end of the file.\<close>

definition read_fd :: "fd \<Rightarrow> nat \<Rightarrow> nat \<Rightarrow> bytes io" where
  "read_fd f pos n = sys (\<lambda>M t d. case entry d (fst f) (snd f) of
     Some (FileN b t' s) \<Rightarrow> Inr (take (max 1 (amount M t n)) (drop pos b), d)
   | _ \<Rightarrow> Inl EISDIR)"

definition read_all :: "fd \<Rightarrow> bytes io" where
  "read_all f = sys (\<lambda>M t d. case entry d (fst f) (snd f) of
     Some (FileN b t' s) \<Rightarrow> Inr (b, d) | _ \<Rightarrow> Inl EISDIR)"

definition fsync_file :: "fd \<Rightarrow> unit io" where
  "fsync_file f = sys (\<lambda>M t d. case entry d (fst f) (snd f) of
     Some (FileN b t' s) \<Rightarrow> Inr ((), set_node (fst f) (snd f) (Some (FileN b t' True)) d)
   | _ \<Rightarrow> Inr ((), d))"

definition fsync_dir :: "nat \<Rightarrow> unit io" where
  "fsync_dir i = sys (\<lambda>M t d. Inr ((), settle i d))"

definition unlink :: "path \<Rightarrow> unit io" where
  "unlink p = sys (\<lambda>M t d. rbind (locate d p) (\<lambda>(i, n).
     case entry d i n of
       None \<Rightarrow> Inl ENOENT
     | Some (DirN j) \<Rightarrow> Inl EISDIR
     | Some v \<Rightarrow> Inr ((), touch_dir i (mc_nowMs M t) (set_node i n None d))))"

definition rename_ok :: "disk \<Rightarrow> node \<Rightarrow> node option \<Rightarrow> errno + unit" where
  "rename_ok d v old =
     (case old of
        None \<Rightarrow> Inr ()
      | Some (DirN j) \<Rightarrow>
          if \<not> is_directory v then Inl EISDIR
          else if k_dirs d j = [] then Inr () else Inl ENOTEMPTY
      | Some u \<Rightarrow> if is_directory v then Inl ENOTDIR else Inr ())"

definition rename :: "path \<Rightarrow> path \<Rightarrow> unit io" where
  "rename p q = sys (\<lambda>M t d.
     rbind (locate d p) (\<lambda>(i, n). rbind (locate d q) (\<lambda>(j, m).
     case entry d i n of
       None \<Rightarrow> Inl ENOENT
     | Some v \<Rightarrow> rbind (rename_ok d v (entry d j m)) (\<lambda>_.
         if (i, n) = (j, m) then Inr ((), d)
         else Inr ((), touch_dir i (mc_nowMs M t) (touch_dir j (mc_nowMs M t)
                (set_node i n None (set_node j m (Some v) d))))))))"

definition mkdir :: "path \<Rightarrow> unit io" where
  "mkdir p = sys (\<lambda>M t d. rbind (locate d p) (\<lambda>(i, n).
     case entry d i n of
       Some v \<Rightarrow> Inl EEXIST
     | None \<Rightarrow>
         (let j = k_inode d
          in Inr ((), touch_dir j (mc_nowMs M t) (touch_dir i (mc_nowMs M t)
               (set_node i n (Some (DirN j))
                 (d\<lparr> k_inode := Suc j, k_dirs := (k_dirs d)(j := []) \<rparr>)))))))"

definition rmdir :: "path \<Rightarrow> unit io" where
  "rmdir p = sys (\<lambda>M t d. rbind (locate d p) (\<lambda>(i, n).
     case entry d i n of
       None \<Rightarrow> Inl ENOENT
     | Some (DirN j) \<Rightarrow> if k_dirs d j = [] then Inr ((), touch_dir i (mc_nowMs M t) (set_node i n None d))
                     else Inl ENOTEMPTY
     | Some v \<Rightarrow> Inl ENOTDIR))"

definition readdir :: "path \<Rightarrow> jstr list io" where
  "readdir p = sys (\<lambda>M t d. rbind (node_at d p) (\<lambda>v.
     rbind (follow (Some v)) (\<lambda>i. Inr (map fst (k_dirs d i), d))))"

text \<open>\<open>rmSync(p, { recursive: true })\<close> on a directory of files.\<close>

definition path_in :: "path \<Rightarrow> jstr \<Rightarrow> path" where
  "path_in p n = (case p of RootPath ns \<Rightarrow> RootPath (ns @ [n]) | FdPath i ns \<Rightarrow> FdPath i (ns @ [n]))"

definition rm_recursive :: "path \<Rightarrow> unit io" where
  "rm_recursive p = bnd (readdir p) (\<lambda>ns. thn (each (\<lambda>n. unlink (path_in p n)) ns) (rmdir p))"

section \<open>File helpers\<close>

definition assertRegularPathIfPresent :: "path \<Rightarrow> unit io" where
  "assertRegularPathIfPresent p =
     catch (bnd (lstat p) (\<lambda>(v, _). guard (is_file v) CorruptionError))
       (\<lambda>e. if e = NodeError ENOENT then ret () else throw e)"

definition assertTrustedDirectory :: "path \<Rightarrow> unit io" where
  "assertTrustedDirectory p =
     bnd (catch (lstat p) (\<lambda>e. throw TransactionError)) (\<lambda>(v, _).
     guard (is_directory v) CorruptionError)"

definition assertAbsent :: "path \<Rightarrow> unit io" where
  "assertAbsent p =
     catch (thn (lstat p) (throw ConflictError))
       (\<lambda>e. if e = NodeError ENOENT then ret () else throw e)"

definition pathExists :: "path \<Rightarrow> bool io" where
  "pathExists p =
     catch (thn (lstat p) (ret True)) (\<lambda>e. if e = NodeError ENOENT then ret False else throw e)"

definition fsyncDirectory :: "path \<Rightarrow> unit io" where
  "fsyncDirectory p = bnd (open_dir p) (\<lambda>i. run_finally (fsync_dir i) (close_fd i))"

function writeAll :: "fd \<Rightarrow> bytes \<Rightarrow> unit io" where
  "writeAll f bs =
     (if bs = [] then ret ()
      else bnd (write_fd f bs) (\<lambda>written.
           if written = 0 then throw TransactionError else writeAll f (drop written bs)))"
  by auto
termination
  by (relation "measure (\<lambda>(f, bs). length bs)") auto

declare writeAll.simps [simp del]

definition writeExclusiveFile :: "path \<Rightarrow> bytes \<Rightarrow> unit io" where
  "writeExclusiveFile p bs =
     with_fd (open_excl p)
       (\<lambda>f. bnd (fstat f) (\<lambda>v.
            thn (guard (is_file v) CorruptionError)
           (thn no_effect
           (thn (writeAll f bs)
                (fsync_file f)))))
       throw close_fd"

definition readRegularFile :: "path \<Rightarrow> bool \<Rightarrow> bytes option io" where
  "readRegularFile p optional =
     with_fd (thn (assertRegularPathIfPresent p) (open_read p))
       (\<lambda>f. bnd (fstat f) (\<lambda>v.
            thn (guard (is_file v \<and> node_size v \<le> MAX_STATE_BYTES) CorruptionError)
                (bnd (read_all f) (\<lambda>b. ret (Some b)))))
       (\<lambda>e. if optional \<and> e = NodeError ENOENT then ret None else wrap_as CorruptionError e)
       close_fd"

end
