(* ===== verification/Router_Frame.thy ===== *)
theory Router_Frame
  imports Router_Fs
begin

text \<open>
  Frames of the file operations: which entries of the disk an operation leaves alone,
  whatever the schedule of faults, provided the other processes leave them alone too.
\<close>

section \<open>The relation\<close>

text \<open>
  The entries of \<open>K\<close> are unchanged, and those of \<open>L\<close> are unchanged once they exist;
  neither gains an unsettled version.
\<close>

type_synonym zone = "nat \<Rightarrow> jstr \<Rightarrow> bool"

definition frame :: "zone \<Rightarrow> zone \<Rightarrow> disk \<Rightarrow> disk \<Rightarrow> bool" where
  "frame K L d d' \<longleftrightarrow> k_root d' = k_root d \<and> k_inode d \<le> k_inode d' \<and>
     (\<forall>i n. i < k_inode d \<longrightarrow> K i n \<or> L i n \<and> entry d i n \<noteq> None \<longrightarrow>
        entry d' i n = entry d i n \<and> cands d' i n \<subseteq> cands d i n)"

definition wframe :: "zone \<Rightarrow> zone \<Rightarrow> world \<Rightarrow> world \<Rightarrow> bool" where
  "wframe K L w w' \<longleftrightarrow> frame K L (w_disk w) (w_disk w')"

definition rely :: "zone \<Rightarrow> zone \<Rightarrow> machine \<Rightarrow> bool" where
  "rely K L M \<longleftrightarrow> (\<forall>t d. frame K L d (mc_others M t d))"

lemma frame_refl: "frame K L d d"
  by (simp add: frame_def)

lemma frame_trans: "frame K L c d \<Longrightarrow> frame K L d e \<Longrightarrow> frame K L c e"
  unfolding frame_def by (metis dual_order.trans less_le_trans)

lemma frame_mono:
  "frame K L d d' \<Longrightarrow> (\<And>i n. K' i n \<Longrightarrow> K i n) \<Longrightarrow> (\<And>i n. L' i n \<Longrightarrow> K i n \<or> L i n) \<Longrightarrow> frame K' L' d d'"
  unfolding frame_def by blast

lemma rely_mono:
  "rely K L M \<Longrightarrow> (\<And>i n. K' i n \<Longrightarrow> K i n) \<Longrightarrow> (\<And>i n. L' i n \<Longrightarrow> K i n \<or> L i n) \<Longrightarrow> rely K' L' M"
  unfolding rely_def by (blast intro: frame_mono)

interpretation fr: io_frame M "wframe K L" for M :: machine and K L
  by unfold_locales (auto simp: wframe_def intro: frame_refl frame_trans)

section \<open>Disk updates\<close>

lemma entry_set_node [simp]:
  "entry (set_node i n v d) j m = (if j = i \<and> m = n then v else entry d j m)"
  by (auto simp: entry_def set_node_def update_conv' delete_conv' split: option.splits)

lemma older_set_node [simp]:
  "k_older (set_node i n v d) j m =
     (if j = i \<and> m = n then entry d i n # k_older d i n else k_older d j m)"
  by (auto simp: set_node_def)

lemma disk_simps [simp]:
  "entry (touch_dir i t d) = entry d" "entry (settle i d) = entry d"
  "k_older (touch_dir i t d) = k_older d" "k_older (settle i d) j m = (if j = i then [] else k_older d j m)"
  "k_root (touch_dir i t d) = k_root d" "k_root (settle i d) = k_root d" "k_root (set_node i n v d) = k_root d"
  "k_inode (touch_dir i t d) = k_inode d" "k_inode (settle i d) = k_inode d"
  "k_inode (set_node i n v d) = k_inode d"
  by (auto simp: touch_dir_def settle_def set_node_def entry_def fun_eq_iff)

lemma frame_set_node: "\<not> K i n \<Longrightarrow> \<not> L i n \<Longrightarrow> frame K L d (set_node i n v d)"
  by (auto simp: frame_def cands_def)

lemma frame_create: "\<not> K i n \<Longrightarrow> entry d i n = None \<Longrightarrow> frame K L d (set_node i n v d)"
  by (auto simp: frame_def cands_def)

lemma frame_touch: "frame K L d (touch_dir i t d)"
  by (simp add: frame_def cands_def)

lemma frame_settle: "frame K L d (settle i d)"
  by (auto simp: frame_def cands_def)

lemma frame_fresh: "frame K L d (d\<lparr> k_inode := Suc (k_inode d), k_dirs := (k_dirs d)(k_inode d := []) \<rparr>)"
  by (auto simp: frame_def cands_def entry_def)

lemmas frame_steps = frame_set_node frame_touch frame_settle frame_fresh frame_refl

lemma walk_name: "walk d i ns = Inr (j, n) \<Longrightarrow> ns \<noteq> [] \<and> n = last ns"
  by (induction d i ns rule: walk.induct) (auto simp: rbind_Inr)

lemma locate_name: "locate d p = Inr (j, n) \<Longrightarrow> n = basename p"
  by (cases p) (auto simp: rbind_Inr dest: walk_name)

section \<open>System calls\<close>

lemma keeps_sys:
  assumes "rely K L M" and "\<And>t d x d'. f M t d = Inr (x, d') \<Longrightarrow> frame K L d d'"
  shows "keeps M (wframe K L) (sys f)"
  unfolding keeps_def
proof
  fix w :: world
  have o: "frame K L (w_disk w) (mc_others M (w_tick w) (w_disk w))"
    using assms(1) by (simp add: rely_def)
  then show "wframe K L w (snd (sys f M w))"
    by (auto simp: sys_def Let_def wframe_def split: fault.split sum.split prod.split
        intro: frame_trans [OF o] assms(2))
qed

lemma keeps_next_id [keeps_intro]: "keeps M (wframe K L) next_id"
  by (simp add: keeps_def next_id_def wframe_def frame_refl)

lemma keeps_now [keeps_intro]: "keeps M (wframe K L) now_ms" "keeps M (wframe K L) now_iso"
  by (simp_all add: now_ms_def now_iso_def fr.keeps_get)

lemma keeps_sys_read:
  assumes "rely K L M" and "\<And>t d x d'. f M t d = Inr (x, d') \<Longrightarrow> d' = d"
  shows "keeps M (wframe K L) (sys f)"
  by (rule keeps_sys [OF assms(1)]) (metis assms(2) frame_refl)

lemma keeps_sys_at:
  assumes "rely K L M"
    and "\<And>t d i n x d'. n = basename p \<Longrightarrow> g M t d i n = Inr (x, d') \<Longrightarrow> frame K L d d'"
  shows "keeps M (wframe K L) (sys (\<lambda>M t d. rbind (locate d p) (\<lambda>(i, n). g M t d i n)))"
  by (rule keeps_sys [OF assms(1)]) (use assms(2) in \<open>auto simp: rbind_Inr dest!: locate_name\<close>)

lemma keeps_lstat [keeps_intro]: "rely K L M \<Longrightarrow> keeps M (wframe K L) (lstat p)"
  unfolding lstat_def by (rule keeps_sys_read) (auto simp: rbind_Inr)

lemma keeps_open_read [keeps_intro]: "rely K L M \<Longrightarrow> keeps M (wframe K L) (open_read p)"
  unfolding open_read_def
  by (rule keeps_sys_at) (auto split: option.split_asm node.split_asm intro: frame_refl)

lemma keeps_open_dir [keeps_intro]: "rely K L M \<Longrightarrow> keeps M (wframe K L) (open_dir p)"
  unfolding open_dir_def by (rule keeps_sys_read) (auto elim!: rbindE split: node.split_asm)

lemma keeps_readers [keeps_intro]:
  assumes "rely K L M"
  shows "keeps M (wframe K L) (fstat f)"
    "keeps M (wframe K L) (fstat_dir i)" "keeps M (wframe K L) no_effect"
    "keeps M (wframe K L) (close_fd c)" "keeps M (wframe K L) (read_fd f pos n)"
    "keeps M (wframe K L) (read_all f)" "keeps M (wframe K L) (readdir p)"
  unfolding fstat_def fstat_dir_def no_effect_def close_fd_def read_fd_def read_all_def readdir_def
  by (rule keeps_sys_read [OF assms], auto elim!: rbindE split: option.split_asm node.split_asm)+

lemma keeps_fsync_dir [keeps_intro]: "rely K L M \<Longrightarrow> keeps M (wframe K L) (fsync_dir i)"
  unfolding fsync_dir_def by (rule keeps_sys) (auto intro: frame_settle)

text \<open>A writer keeps the frame when the name it writes is outside it.\<close>

definition free_name :: "zone \<Rightarrow> zone \<Rightarrow> jstr \<Rightarrow> bool" where
  "free_name K L n \<longleftrightarrow> (\<forall>i. \<not> K i n \<and> \<not> L i n)"

definition new_name :: "zone \<Rightarrow> jstr \<Rightarrow> bool" where
  "new_name K n \<longleftrightarrow> (\<forall>i. \<not> K i n)"

lemma free_new: "free_name K L n \<Longrightarrow> new_name K n"
  by (simp add: free_name_def new_name_def)

lemma frame_set_touch: "\<not> K i n \<Longrightarrow> \<not> L i n \<Longrightarrow> frame K L d (touch_dir j t (set_node i n v d))"
  by (rule frame_trans [OF frame_set_node frame_touch])

lemma frame_create_touch:
  "\<not> K i n \<Longrightarrow> entry d i n = None \<Longrightarrow> frame K L d (touch_dir j t (set_node i n v d))"
  by (rule frame_trans [OF frame_create frame_touch])

lemma keeps_open_excl [keeps_intro]:
  "rely K L M \<Longrightarrow> new_name K (basename p) \<Longrightarrow> keeps M (wframe K L) (open_excl p)"
  unfolding open_excl_def
  by (rule keeps_sys_at) (auto simp: new_name_def split: option.split_asm intro: frame_create_touch)

lemma keeps_open_append [keeps_intro]:
  "rely K L M \<Longrightarrow> new_name K (basename p) \<Longrightarrow> keeps M (wframe K L) (open_append p)"
  unfolding open_append_def
  by (rule keeps_sys_at)
     (auto simp: new_name_def split: option.split_asm node.split_asm intro: frame_create_touch frame_refl)

lemma keeps_unlink [keeps_intro]:
  "rely K L M \<Longrightarrow> free_name K L (basename p) \<Longrightarrow> keeps M (wframe K L) (unlink p)"
  unfolding unlink_def
  by (rule keeps_sys_at)
     (auto simp: free_name_def split: option.split_asm node.split_asm intro: frame_set_touch)

lemma keeps_rmdir [keeps_intro]:
  "rely K L M \<Longrightarrow> free_name K L (basename p) \<Longrightarrow> keeps M (wframe K L) (rmdir p)"
  unfolding rmdir_def
  by (rule keeps_sys_at)
     (auto simp: free_name_def split: option.split_asm node.split_asm if_split_asm intro: frame_set_touch)

lemma keeps_mkdir [keeps_intro]:
  assumes "rely K L M" "new_name K (basename p)"
  shows "keeps M (wframe K L) (mkdir p)"
  unfolding mkdir_def
proof (rule keeps_sys_at [OF assms(1)])
  fix t and d :: disk and i n x d'
  let ?e = "d\<lparr> k_inode := Suc (k_inode d), k_dirs := (k_dirs d)(k_inode d := []) \<rparr>"
  assume n: "n = basename p" and "(case entry d i n of
       Some v \<Rightarrow> Inl EEXIST
     | None \<Rightarrow>
         (let j = k_inode d
          in Inr ((), touch_dir j (mc_nowMs M t) (touch_dir i (mc_nowMs M t)
               (set_node i n (Some (DirN j))
                 (d\<lparr> k_inode := Suc j, k_dirs := (k_dirs d)(j := []) \<rparr>)))))) = Inr (x, d')"
  then have e: "entry d i n = None" and d': "d' = touch_dir (k_inode d) (mc_nowMs M t)
      (touch_dir i (mc_nowMs M t) (set_node i n (Some (DirN (k_inode d))) ?e))"
    by (auto simp: Let_def split: option.split_asm)
  from e have "entry ?e i n = None" by (simp add: entry_def)
  with assms(2) n show "frame K L d d'"
    unfolding d' by (intro frame_trans [OF frame_trans [OF frame_fresh frame_create_touch] frame_touch])
      (simp_all add: new_name_def)
qed

lemma keeps_rename [keeps_intro]:
  assumes "rely K L M" "free_name K L (basename p)" "free_name K L (basename q)"
  shows "keeps M (wframe K L) (rename p q)"
  unfolding rename_def
proof (rule keeps_sys_at [OF assms(1)])
  fix t d i n x d'
  assume n: "n = basename p" and "rbind (locate d q) (\<lambda>(j, m).
     case entry d i n of
       None \<Rightarrow> Inl ENOENT
     | Some v \<Rightarrow> rbind (rename_ok d v (entry d j m)) (\<lambda>_.
         if (i, n) = (j, m) then Inr ((), d)
         else Inr ((), touch_dir i (mc_nowMs M t) (touch_dir j (mc_nowMs M t)
                (set_node i n None (set_node j m (Some v) d)))))) = Inr (x, d')"
  then obtain j m v where "m = basename q"
      "d' = d \<or> d' = touch_dir i (mc_nowMs M t) (touch_dir j (mc_nowMs M t)
         (set_node i n None (set_node j m (Some v) d)))"
    by (auto simp: rbind_Inr split: option.split_asm if_split_asm dest!: locate_name)
  with n assms(2,3) show "frame K L d d'"
    by (auto simp: free_name_def intro: frame_refl
        intro!: frame_trans [OF frame_trans [OF frame_set_node frame_set_touch] frame_touch])
qed

lemma keeps_write_fd [keeps_intro]:
  "rely K L M \<Longrightarrow> free_name K L (snd f) \<Longrightarrow> keeps M (wframe K L) (write_fd f bs)"
  unfolding write_fd_def
  by (rule keeps_sys)
     (auto simp: free_name_def Let_def split: option.split_asm node.split_asm intro: frame_set_node)

lemma keeps_fsync_file [keeps_intro]:
  "rely K L M \<Longrightarrow> free_name K L (snd f) \<Longrightarrow> keeps M (wframe K L) (fsync_file f)"
  unfolding fsync_file_def
  by (rule keeps_sys)
     (auto simp: free_name_def split: option.split_asm node.split_asm intro: frame_set_node frame_refl)

lemma returns_sys:
  "(\<And>t d x d'. f M t d = Inr (x, d') \<Longrightarrow> A x) \<Longrightarrow> returns M (sys f) A"
  by (auto simp: returns_def sys_def Let_def split: fault.splits sum.splits prod.splits)

lemma returns_open_excl: "returns M (open_excl p) (\<lambda>f. snd f = basename p)"
  unfolding open_excl_def
  by (rule returns_sys) (auto elim!: rbindE split: option.split_asm dest: locate_name)

lemma returns_open_append: "returns M (open_append p) (\<lambda>f. snd f = basename p)"
  unfolding open_append_def
  by (rule returns_sys) (auto elim!: rbindE split: option.split_asm node.split_asm dest: locate_name)

section \<open>File helpers\<close>

lemmas combinators = fr.keeps_ret fr.keeps_throw fr.keeps_get fr.keeps_bnd fr.keeps_thn fr.keeps_catch
  fr.keeps_run_finally fr.keeps_with_fd fr.keeps_lift fr.keeps_guard fr.keeps_wrap fr.keeps_run_if
  fr.keeps_each fr.keeps_foldm fr.keeps_if fr.keeps_case_option fr.keeps_case_prod

lemma keeps_assertRegularPathIfPresent [keeps_intro]: "rely K L M \<Longrightarrow> keeps M (wframe K L) (assertRegularPathIfPresent p)"
  unfolding assertRegularPathIfPresent_def by (intro combinators keeps_intro)

lemma keeps_assertTrustedDirectory [keeps_intro]: "rely K L M \<Longrightarrow> keeps M (wframe K L) (assertTrustedDirectory p)"
  unfolding assertTrustedDirectory_def by (intro combinators keeps_intro)

lemma keeps_assertAbsent [keeps_intro]: "rely K L M \<Longrightarrow> keeps M (wframe K L) (assertAbsent p)"
  unfolding assertAbsent_def by (intro combinators keeps_intro)

lemma keeps_pathExists [keeps_intro]: "rely K L M \<Longrightarrow> keeps M (wframe K L) (pathExists p)"
  unfolding pathExists_def by (intro combinators keeps_intro)

lemma keeps_fsyncDirectory [keeps_intro]: "rely K L M \<Longrightarrow> keeps M (wframe K L) (fsyncDirectory p)"
  unfolding fsyncDirectory_def by (intro combinators keeps_intro)

lemma keeps_readRegularFile [keeps_intro]: "rely K L M \<Longrightarrow> keeps M (wframe K L) (readRegularFile p b)"
  unfolding readRegularFile_def by (intro combinators keeps_intro)

lemma keeps_writeAll [keeps_intro]:
  assumes "rely K L M" "free_name K L (snd f)"
  shows "keeps M (wframe K L) (writeAll f bs)"
  using assms(2)
proof (induction f bs rule: writeAll.induct)
  case (1 f bs)
  then show ?case
    by (subst writeAll.simps) (auto intro!: combinators keeps_intro assms(1))
qed

lemma keeps_writeExclusiveFile [keeps_intro]:
  assumes "rely K L M" "free_name K L (basename p)"
  shows "keeps M (wframe K L) (writeExclusiveFile p bs)"
  unfolding writeExclusiveFile_def
proof (rule fr.keeps_with_fd_returns [OF _ returns_open_excl])
  show "keeps M (wframe K L) (open_excl p)" using assms by (intro keeps_intro free_new)
  fix f :: fd assume "snd f = basename p"
  with assms show "keeps M (wframe K L) (bnd (fstat f) (\<lambda>v. thn (guard (is_file v) CorruptionError)
      (thn no_effect (thn (writeAll f bs) (fsync_file f)))))"
    by (intro combinators keeps_intro) simp_all
qed (intro combinators keeps_intro assms)+

end
