(* ===== verification/Router_Lock.thy ===== *)
theory Router_Lock
  imports Router_Frame
begin

text \<open>
  The directory lock of \<open>web/src/lib/platform-router-config/transaction.ts\<close>: acquisition by
  renaming a private candidate directory onto the lock path, ownership checks through a
  pinned directory descriptor, takeover of a stale lock and release. The capability that
  the source keeps in a \<open>WeakMap\<close> is \<open>w_caps\<close> of the world, indexed by handle; the
  root of a machine stands for the resolved root of the transaction options.
\<close>

section \<open>Names\<close>

definition POINTER_FILE :: jstr where
  "POINTER_FILE = js ''platform-router.current''"

definition GENERATION_DIRECTORY :: jstr where
  "GENERATION_DIRECTORY = js ''platform-router.generations''"

definition LOCK_DIRECTORY :: jstr where
  "LOCK_DIRECTORY = js ''platform-router.tx.lock''"

definition LOCK_OWNER_FILE :: jstr where
  "LOCK_OWNER_FILE = js ''owner.json''"

definition hexdash36 :: "jstr \<Rightarrow> bool" where
  "hexdash36 s \<longleftrightarrow> length s = 36 \<and> list_all (\<lambda>c. is_hex c \<or> c = 45) s"

definition starts_with_nocase :: "string \<Rightarrow> jstr \<Rightarrow> bool" where
  "starts_with_nocase p s \<longleftrightarrow> to_lower (take (length p) s) = js p"

definition LOCK_CANDIDATE_PATTERN :: "jstr \<Rightarrow> bool" where
  "LOCK_CANDIDATE_PATTERN s \<longleftrightarrow>
     starts_with_nocase ''.platform-router.tx.lock.candidate-'' s \<and> hexdash36 (drop 35 s)"

definition LOCK_RELEASED_PATTERN :: "jstr \<Rightarrow> bool" where
  "LOCK_RELEASED_PATTERN s \<longleftrightarrow>
     starts_with_nocase ''.platform-router.tx.lock.released-'' s \<and> hexdash36 (drop 34 s)"

definition LOCK_RECOVERY_CLAIM_PATTERN :: "jstr \<Rightarrow> bool" where
  "LOCK_RECOVERY_CLAIM_PATTERN s \<longleftrightarrow> starts_with_nocase ''.recovery-claim-'' s \<and>
     (hexdash36 (drop 16 s) \<or> (length s = 80 \<and> list_all is_hex (drop 16 s)))"

definition lockPath :: path where
  "lockPath = RootPath [LOCK_DIRECTORY]"

definition candidatePath :: "jstr \<Rightarrow> path" where
  "candidatePath nonce = RootPath [js ''.platform-router.tx.lock.candidate-'' @ nonce]"

definition releasedPath :: "jstr \<Rightarrow> path" where
  "releasedPath nonce = RootPath [js ''.platform-router.tx.lock.released-'' @ nonce]"

section \<open>Handles\<close>

record PlatformRouterLockHandle =
  h_id :: nat
  h_owner :: PlatformRouterLockOwner
  h_root :: jstr

definition capability :: "PlatformRouterLockHandle \<Rightarrow> LockCapability option io" where
  "capability h = get (\<lambda>M w. w_caps w (h_id h))"

definition set_capability :: "nat \<Rightarrow> LockCapability option \<Rightarrow> unit io" where
  "set_capability i c = (\<lambda>M w. (Ret (), w\<lparr> w_caps := (w_caps w)(i := c) \<rparr>))"

definition new_handle :: "PlatformRouterLockOwner \<Rightarrow> LockCapability \<Rightarrow> PlatformRouterLockHandle io" where
  "new_handle own c = (\<lambda>M w.
     let i = w_handles w
     in (Ret \<lparr> h_id = i, h_owner = own, h_root = mc_root M \<rparr>,
         w\<lparr> w_handles := Suc i, w_caps := (w_caps w)(i := Some c) \<rparr>))"

definition finishLockCapability :: "PlatformRouterLockHandle \<Rightarrow> LockCapability \<Rightarrow> unit io" where
  "finishLockCapability h c = thn (set_capability (h_id h) None) (close_fd (c_descriptor c))"

text \<open>\<open>try\<close> as a value, for the handlers that depend on how far the body came.\<close>

definition attempt :: "'a io \<Rightarrow> (router_error + 'a) io" where
  "attempt m = catch (bnd m (\<lambda>x. ret (Inr x))) (\<lambda>e. ret (Inl e))"

section \<open>Ownership\<close>

definition sameLockDirectory :: "path \<Rightarrow> nat \<Rightarrow> nat \<Rightarrow> bool io" where
  "sameLockDirectory p device inode =
     catch (bnd (lstat p) (\<lambda>(v, _). get (\<lambda>M w.
              is_directory v \<and> mc_device M = device \<and> node_inode v = inode)))
       (\<lambda>e. if e = NodeError ENOENT then ret False else throw e)"

definition sameNullableBuffer :: "bytes option \<Rightarrow> bytes option \<Rightarrow> bool" where
  "sameNullableBuffer l r \<longleftrightarrow> l = r"

definition readLockOwnerState :: "path \<Rightarrow> (bytes \<times> PlatformRouterLockOwner option) option io" where
  "readLockOwnerState p =
     bnd (readRegularFile p True) (\<lambda>b. case b of
       None \<Rightarrow> ret None
     | Some bs \<Rightarrow> ret (Some (bs, case rbind (parseStrictJson bs) decodeLockOwner of
                                   Inl e \<Rightarrow> None | Inr x \<Rightarrow> Some x)))"

definition ownedBy ::
    "(bytes \<times> PlatformRouterLockOwner option) option \<Rightarrow> bytes \<Rightarrow> jstr \<Rightarrow> bool" where
  "ownedBy actual bs nonce =
     (case actual of
        Some (b, Some x) \<Rightarrow> b = bs \<and> o_nonce x = nonce
      | _ \<Rightarrow> False)"

definition assertPlatformRouterLockOwned :: "PlatformRouterLockHandle \<Rightarrow> unit io" where
  "assertPlatformRouterLockOwned h =
     bnd (capability h) (\<lambda>cap. bnd (get (\<lambda>M w. mc_root M)) (\<lambda>root.
     case cap of
       None \<Rightarrow> throw LockOwnershipError
     | Some c \<Rightarrow>
         if c_released c \<or> h_root h \<noteq> root then throw LockOwnershipError
         else catch
           (bnd (fstat_dir (c_descriptor c)) (\<lambda>(held, _).
            bnd (get (\<lambda>M w. mc_device M)) (\<lambda>dev.
            if \<not> is_directory held \<or> dev \<noteq> c_device c \<or> node_inode held \<noteq> c_inode c
            then throw LockOwnershipError
            else
            bnd (sameLockDirectory lockPath (c_device c) (c_inode c)) (\<lambda>same.
            thn (guard same LockOwnershipError)
           (bnd (readLockOwnerState (FdPath (c_descriptor c) [LOCK_OWNER_FILE])) (\<lambda>actual.
            guard (ownedBy actual (c_ownerBytes c) (c_nonce c) \<and> o_nonce (h_owner h) = c_nonce c)
              LockOwnershipError))))))
           (\<lambda>e. throw LockOwnershipError)))"

definition resolveHandleEnvironment :: "PlatformRouterLockHandle \<Rightarrow> unit io" where
  "resolveHandleEnvironment h = bnd (get (\<lambda>M w. mc_root M)) (\<lambda>root.
     guard (root = h_root h) LockOwnershipError)"

definition createLockHandle ::
    "PlatformRouterLockOwner \<Rightarrow> (nat \<times> nat) option \<Rightarrow> PlatformRouterLockHandle io" where
  "createLockHandle own expectedIdentity =
     bnd (open_dir lockPath) (\<lambda>descriptor.
     catch
       (bnd (fstat_dir descriptor) (\<lambda>(v, _).
        bnd (get (\<lambda>M w. mc_device M)) (\<lambda>dev.
        bnd (readLockOwnerState (FdPath descriptor [LOCK_OWNER_FILE])) (\<lambda>actual.
        if \<not> is_directory v \<or> (expectedIdentity \<noteq> None \<and> expectedIdentity \<noteq> Some (dev, node_inode v))
        then throw LockOwnershipError
        else
        bnd (sameLockDirectory lockPath dev (node_inode v)) (\<lambda>same.
        thn (guard (same \<and> ownedBy actual (json_line (owner_json own)) (o_nonce own)) LockOwnershipError)
            (new_handle own
              \<lparr> c_descriptor = descriptor, c_device = dev, c_inode = node_inode v,
                c_nonce = o_nonce own, c_ownerBytes = json_line (owner_json own),
                c_released = False, c_publicationUncertain = False \<rparr>))))))
       (\<lambda>e. thn (close_fd descriptor) (throw e)))"

section \<open>Cleanup of lock artifacts\<close>

datatype artifact = CandidateArtifact | ReleasedArtifact

definition removeLockArtifact :: "path \<Rightarrow> artifact \<Rightarrow> nat \<times> nat \<Rightarrow> bool io" where
  "removeLockArtifact target kind identity =
     (if \<not> (case kind of CandidateArtifact \<Rightarrow> LOCK_CANDIDATE_PATTERN (basename target)
                        | ReleasedArtifact \<Rightarrow> LOCK_RELEASED_PATTERN (basename target))
      then ret False
      else bnd (catch (bnd (lstat target) (\<lambda>(v, _). ret (Some v)))
                  (\<lambda>e. if e = NodeError ENOENT then ret None else throw e)) (\<lambda>stat.
           case stat of
             None \<Rightarrow> ret False
           | Some v \<Rightarrow>
               thn (guard (is_directory v) CorruptionError)
              (bnd (get (\<lambda>M w. mc_device M)) (\<lambda>dev.
               if (dev, node_inode v) \<noteq> identity then ret False
               else thn (rm_recursive target) (ret True)))))"

definition removeLockFile :: "path \<Rightarrow> unit io" where
  "removeLockFile target =
     (if \<not> LOCK_RECOVERY_CLAIM_PATTERN (basename target) then ret ()
      else catch (bnd (lstat target) (\<lambda>(v, _). if \<not> is_file v then ret () else unlink target))
             (\<lambda>e. if e = NodeError ENOENT then ret () else throw e))"

section \<open>Release\<close>

definition releasePlatformRouterLock :: "PlatformRouterLockHandle \<Rightarrow> bool \<Rightarrow> unit io" where
  "releasePlatformRouterLock h syncRoot =
     bnd (capability h) (\<lambda>cap. case cap of
       None \<Rightarrow> throw LockOwnershipError
     | Some c \<Rightarrow>
         thn (catch (assertPlatformRouterLockOwned h)
               (\<lambda>e. thn (finishLockCapability h c) (throw e)))
        (thn (assertAbsent (releasedPath (c_nonce c)))
        (thn (assertPlatformRouterLockOwned h)
        (thn (rename lockPath (releasedPath (c_nonce c)))
        (bnd (sameLockDirectory (releasedPath (c_nonce c)) (c_device c) (c_inode c)) (\<lambda>releasedIsOwned.
         if \<not> releasedIsOwned
         then bnd (pathExists lockPath) (\<lambda>locked.
              bnd (if locked then ret False else pathExists (releasedPath (c_nonce c))) (\<lambda>stray.
              thn (run_if (\<not> locked \<and> stray)
                     (catch (rename (releasedPath (c_nonce c)) lockPath) (\<lambda>e. ret ())))
             (thn (finishLockCapability h c) (throw LockOwnershipError))))
         else
         bnd (catch (thn (run_if syncRoot (fsyncDirectory (RootPath []))) (ret None))
                (\<lambda>e. ret (Some e))) (\<lambda>failure.
         bnd (run_finally
               (catch (thn (removeLockArtifact (releasedPath (c_nonce c)) ReleasedArtifact
                              (c_device c, c_inode c))
                      (thn (run_if syncRoot (fsyncDirectory (RootPath []))) (ret failure)))
                  (\<lambda>e. ret (case failure of None \<Rightarrow> Some e | Some x \<Rightarrow> Some x)))
               (finishLockCapability h c)) (\<lambda>syncFailure.
         case syncFailure of None \<Rightarrow> ret () | Some e \<Rightarrow> throw e))))))))"

text \<open>The \<open>release\<close> method of a handle: nothing on a handle already released.\<close>

definition handle_release :: "PlatformRouterLockHandle \<Rightarrow> unit io" where
  "handle_release h = bnd (capability h) (\<lambda>cap.
     case cap of None \<Rightarrow> ret () | Some c \<Rightarrow> releasePlatformRouterLock h True)"

section \<open>Staleness and takeover\<close>

definition createLockOwner :: "PlatformRouterLockOwner io" where
  "createLockOwner =
     bnd (get (\<lambda>M w. normalizeBootId (Some (JStr (mc_readBootId M (w_tick w)))))) (\<lambda>b.
     bnd (lift_res b) (\<lambda>bootId.
     bnd (get (\<lambda>M w. normalizeStartTicks
                (map_option JStr (mc_readProcessStartTicks M (w_tick w) (num_int (mc_pid M)))))) (\<lambda>s.
     bnd (lift_res s) (\<lambda>startTicks.
     bnd (get (\<lambda>M w. normalizePid (Some (JNum (mc_pid M))))) (\<lambda>p.
     bnd (lift_res p) (\<lambda>pid.
     bnd next_id (\<lambda>i.
     bnd (lift_res (normalizeUuid (Some (JStr i)))) (\<lambda>nonce.
     bnd now_iso (\<lambda>t.
     bnd (lift_res (normalizeIsoInstant (Some (JStr t)))) (\<lambda>acquiredAt.
     ret \<lparr> o_pid = pid, o_bootId = bootId, o_startTicks = startTicks, o_nonce = nonce,
           o_acquiredAt = acquiredAt \<rparr>))))))))))"

definition isStaleLockOwner :: "PlatformRouterLockOwner option \<Rightarrow> rat \<Rightarrow> int \<Rightarrow> bool io" where
  "isStaleLockOwner own modifiedAtMs grace =
     (case own of
        None \<Rightarrow> bnd now_ms (\<lambda>now. ret (of_int grace \<le> now - modifiedAtMs))
      | Some x \<Rightarrow>
          bnd (get (\<lambda>M w. normalizeBootId (Some (JStr (mc_readBootId M (w_tick w)))))) (\<lambda>b.
          bnd (lift_res b) (\<lambda>bootId.
          if o_bootId x \<noteq> bootId then ret True
          else bnd (get (\<lambda>M w. mc_readProcessStartTicks M (w_tick w) (o_pid x))) (\<lambda>ticks.
               ret (ticks \<noteq> Some (o_startTicks x))))))"

record LockInspection =
  i_descriptor :: nat
  i_device :: nat
  i_inode :: nat
  i_modifiedAtMs :: rat
  i_ownerBytes :: "bytes option"
  i_owner :: "PlatformRouterLockOwner option"
  i_stale :: bool

definition inspectLockStaleness :: "int \<Rightarrow> LockInspection option io" where
  "inspectLockStaleness grace =
     bnd (catch (bnd (open_dir lockPath) (\<lambda>i. ret (Some i)))
            (\<lambda>e. if e = NodeError ENOENT then ret None else throw CorruptionError)) (\<lambda>opened.
     case opened of
       None \<Rightarrow> ret None
     | Some descriptor \<Rightarrow>
         catch
           (bnd (fstat_dir descriptor) (\<lambda>(v, mtime).
            thn (guard (is_directory v) CorruptionError)
           (bnd (readLockOwnerState (FdPath descriptor [LOCK_OWNER_FILE])) (\<lambda>ownerState.
            bnd (get (\<lambda>M w. mc_device M)) (\<lambda>dev.
            bnd (sameLockDirectory lockPath dev (node_inode v)) (\<lambda>same.
            if \<not> same then thn (close_fd descriptor) (ret None)
            else
            bnd (isStaleLockOwner (Option.bind ownerState snd) mtime grace) (\<lambda>stale.
            ret (Some \<lparr> i_descriptor = descriptor, i_device = dev, i_inode = node_inode v,
                        i_modifiedAtMs = mtime, i_ownerBytes = map_option fst ownerState,
                        i_owner = Option.bind ownerState snd, i_stale = stale \<rparr>)))))))) 
           (\<lambda>e. thn (close_fd descriptor) (throw e)))"

text \<open>
  What the source does when a sync after publication fails: roll the lock back, or
  return it flagged when the rollback failed but the lock is still ours.
\<close>

definition settle_publication ::
    "unit io \<Rightarrow> PlatformRouterLockHandle \<Rightarrow> PlatformRouterLockHandle io" where
  "settle_publication sync h =
     catch (thn sync (ret h)) (\<lambda>cause.
       bnd (attempt (releasePlatformRouterLock h False)) (\<lambda>cleanup.
       case cleanup of
         Inr _ \<Rightarrow> throw cause
       | Inl _ \<Rightarrow>
           bnd (attempt (assertPlatformRouterLockOwned h)) (\<lambda>owned.
           case owned of
             Inl _ \<Rightarrow> throw TransactionError
           | Inr _ \<Rightarrow>
               bnd (capability h) (\<lambda>cap.
               thn (case cap of
                      None \<Rightarrow> ret ()
                    | Some c \<Rightarrow> set_capability (h_id h) (Some (c\<lparr> c_publicationUncertain := True \<rparr>)))
                   (ret h)))))"

definition takeOverStaleLock ::
    "LockInspection \<Rightarrow> PlatformRouterLockOwner \<Rightarrow> int \<Rightarrow> PlatformRouterLockHandle option io" where
  "takeOverStaleLock ins own grace =
     bnd (get (\<lambda>M w. case i_owner ins of
            Some x \<Rightarrow> o_nonce x
          | None \<Rightarrow> sha256 (mc_platform M)
              (show_nat (i_device ins) @ [58] @ show_nat (i_inode ins) @ [58] @
               (case i_ownerBytes ins of None \<Rightarrow> [] | Some b \<Rightarrow> b)))) (\<lambda>identity.
     let claimName = js ''.recovery-claim-'' @ identity;
         claimPath = FdPath (i_descriptor ins) [claimName];
         ownerPath = FdPath (i_descriptor ins) [LOCK_OWNER_FILE]
     in
     thn (guard (LOCK_RECOVERY_CLAIM_PATTERN claimName) CorruptionError)
    (bnd (sameLockDirectory lockPath (i_device ins) (i_inode ins)) (\<lambda>same.
     if \<not> same then ret None
     else
     bnd (catch (thn (writeExclusiveFile claimPath (json_line (owner_json own))) (ret True))
            (\<lambda>e. if e = NodeError EEXIST \<or> e = NodeError ENOENT then ret False else throw e)) (\<lambda>claimed.
     if \<not> claimed then ret None
     else
     run_finally
       (thn (fsync_dir (i_descriptor ins))
       (bnd (sameLockDirectory lockPath (i_device ins) (i_inode ins)) (\<lambda>same2.
        if \<not> same2 then ret None
        else
        bnd (readLockOwnerState ownerPath) (\<lambda>current.
        if \<not> sameNullableBuffer (map_option fst current) (i_ownerBytes ins) then ret None
        else
        bnd (isStaleLockOwner (Option.bind current snd) (i_modifiedAtMs ins) grace) (\<lambda>stale.
        if \<not> stale then ret None
        else
        thn (rename claimPath ownerPath)
       (bnd (createLockHandle own (Some (i_device ins, i_inode ins))) (\<lambda>h.
        bnd (settle_publication (fsync_dir (i_descriptor ins)) h) (\<lambda>h'.
        ret (Some h')))))))))
       (removeLockFile claimPath)))))"

section \<open>Acquisition\<close>

definition pause :: "rat \<Rightarrow> unit io" where
  "pause ms = (\<lambda>M w.
     let t = w_tick w; w1 = w\<lparr> w_disk := mc_others M t (w_disk w), w_tick := Suc t \<rparr>
     in case mc_sched M t of Die \<Rightarrow> (Crash, w1) | _ \<Rightarrow> (Ret (), w1))"

definition contended :: "router_error \<Rightarrow> PlatformRouterLockHandle option io" where
  "contended e =
     (if e = ConflictError \<or> e = NodeError EEXIST \<or> e = NodeError ENOTEMPTY then ret None
      else wrap_as TransactionError e)"

definition publishCandidate :: "PlatformRouterLockOwner \<Rightarrow> PlatformRouterLockHandle option io" where
  "publishCandidate own =
     (let cand = candidatePath (o_nonce own) in
     bnd (get (\<lambda>M w. mc_device M)) (\<lambda>dev.
     bnd (attempt
           (thn (mkdir cand)
           (bnd (lstat cand) (\<lambda>(v, _).
            thn (guard (is_directory v) CorruptionError) (ret (dev, node_inode v)))))) (\<lambda>created.
     case created of
       Inl e \<Rightarrow> contended e
     | Inr identity \<Rightarrow>
         bnd (attempt
               (thn no_effect
               (thn (writeExclusiveFile (path_in cand LOCK_OWNER_FILE) (json_line (owner_json own)))
               (thn (fsyncDirectory cand)
               (thn (assertAbsent lockPath)
                    (rename cand lockPath)))))) (\<lambda>published.
         case published of
           Inl e \<Rightarrow> thn (removeLockArtifact cand CandidateArtifact identity) (contended e)
         | Inr _ \<Rightarrow>
             bnd (attempt
                   (bnd (createLockHandle own (Some identity))
                      (settle_publication (fsyncDirectory (RootPath []))))) (\<lambda>handle.
             case handle of Inl e \<Rightarrow> contended e | Inr h \<Rightarrow> ret (Some h))))))"

definition DEFAULT_LOCK_TIMEOUT_MS :: int where
  "DEFAULT_LOCK_TIMEOUT_MS = 2000"

definition DEFAULT_OWNER_CREATION_GRACE_MS :: int where
  "DEFAULT_OWNER_CREATION_GRACE_MS = 250"

fun acquire_loop :: "nat \<Rightarrow> rat \<Rightarrow> int \<Rightarrow> int \<Rightarrow> PlatformRouterLockHandle io" where
  "acquire_loop 0 startedAt timeout grace = (\<lambda>M w. (Crash, w))"
| "acquire_loop (Suc n) startedAt timeout grace =
     bnd createLockOwner (\<lambda>own.
     bnd (publishCandidate own) (\<lambda>handle.
     case handle of
       Some h \<Rightarrow> ret h
     | None \<Rightarrow>
         bnd (inspectLockStaleness grace) (\<lambda>inspection.
         case inspection of
           None \<Rightarrow> acquire_loop n startedAt timeout grace
         | Some ins \<Rightarrow>
             bnd (run_finally
                   (if i_stale ins
                    then thn (pause 0) (bnd createLockOwner (\<lambda>own2.
                         bnd (takeOverStaleLock ins own2 grace) (\<lambda>r. ret (Some r))))
                    else ret None)
                   (close_fd (i_descriptor ins))) (\<lambda>takeover.
             case takeover of
               Some (Some h) \<Rightarrow> ret h
             | Some None \<Rightarrow> acquire_loop n startedAt timeout grace
             | None \<Rightarrow>
                 bnd (get (\<lambda>M w. max 0 (mc_monotonicNowMs M (w_tick w) - startedAt))) (\<lambda>elapsed.
                 if of_int timeout \<le> elapsed then throw LockTimeoutError
                 else
                 bnd (get (\<lambda>M w. 25 + of_int \<lfloor>mc_random M (w_tick w) * 76\<rfloor>)) (\<lambda>jitter.
                 thn (pause (max 1 (min jitter (of_int timeout - elapsed))))
                     (acquire_loop n startedAt timeout grace)))))))"

definition acquirePlatformRouterLock ::
    "jsnum option \<Rightarrow> jsnum option \<Rightarrow> PlatformRouterLockHandle io" where
  "acquirePlatformRouterLock timeout grace =
     thn (assertTrustedDirectory (RootPath []))
    (bnd (get (\<lambda>M w. (mc_fuel M, mc_monotonicNowMs M (w_tick w)))) (\<lambda>(fuel, startedAt).
     acquire_loop fuel startedAt
       (boundedDuration timeout DEFAULT_LOCK_TIMEOUT_MS 0 60000)
       (boundedDuration grace DEFAULT_OWNER_CREATION_GRACE_MS 25 5000)))"

definition withPlatformRouterLock ::
    "(PlatformRouterLockHandle \<Rightarrow> 'a io) \<Rightarrow> jsnum option \<Rightarrow> jsnum option \<Rightarrow> 'a io" where
  "withPlatformRouterLock operation timeout grace =
     bnd (acquirePlatformRouterLock timeout grace) (\<lambda>h.
     run_finally (operation h) (handle_release h))"

section \<open>Frames of the read-only operations\<close>

lemma keeps_attempt [keeps_intro]: "keeps M (wframe K L) m \<Longrightarrow> keeps M (wframe K L) (attempt m)"
  unfolding attempt_def by (intro combinators)

lemma keeps_caps [keeps_intro]:
  "keeps M (wframe K L) (capability h)" "keeps M (wframe K L) (set_capability i c)"
  "keeps M (wframe K L) (new_handle own k)"
  by (simp_all add: capability_def get_def keeps_def set_capability_def new_handle_def
      wframe_def frame_refl Let_def)

lemma keeps_finish [keeps_intro]: "rely K L M \<Longrightarrow> keeps M (wframe K L) (finishLockCapability h c)"
  unfolding finishLockCapability_def by (intro combinators keeps_intro)

lemma keeps_sameLockDirectory [keeps_intro]:
  "rely K L M \<Longrightarrow> keeps M (wframe K L) (sameLockDirectory p dev i)"
  unfolding sameLockDirectory_def by (intro combinators keeps_intro)

lemma keeps_readLockOwnerState [keeps_intro]:
  "rely K L M \<Longrightarrow> keeps M (wframe K L) (readLockOwnerState p)"
  unfolding readLockOwnerState_def by (intro combinators keeps_intro)

lemma keeps_resolveHandle [keeps_intro]: "keeps M (wframe K L) (resolveHandleEnvironment h)"
  unfolding resolveHandleEnvironment_def by (intro combinators)

lemma keeps_assertOwned [keeps_intro]:
  "rely K L M \<Longrightarrow> keeps M (wframe K L) (assertPlatformRouterLockOwned h)"
  unfolding assertPlatformRouterLockOwned_def by (intro combinators keeps_intro)

end
