(* ===== verification/Router_Codec.thy ===== *)
theory Router_Codec
  imports Router_State
begin

text \<open>
  Encoding and decoding of the persistent state: what the decoders of
  \<^theory_text>\<open>Router_State\<close> accept is what they give back when they read their own
  output, first on JSON values and then on file bytes.
\<close>

section \<open>Identifiers\<close>

lemma normalizeUuid_Inr:
  "normalizeUuid v = Inr i \<longleftrightarrow> (\<exists>s. v = Some (JStr s) \<and> UUID_PATTERN s \<and> i = to_lower s)"
  by (auto simp: normalizeUuid_def as_simps split: option.splits if_splits)

lemma normalizeUuid_idem: "normalizeUuid v = Inr i \<Longrightarrow> normalizeUuid (Some (JStr i)) = Inr i"
  by (auto simp: normalizeUuid_Inr UUID_to_lower)

lemma normalizeUuid_wf: "normalizeUuid v = Inr i \<Longrightarrow> wf_str i"
  by (auto simp: normalizeUuid_Inr wf_str_lower wf_str_uuid)

lemma normalizeIsoInstant_Inr [simp]:
  "normalizeIsoInstant (Some (JStr s)) = Inr t \<longleftrightarrow> iso_instant s \<and> t = s"
  by (auto simp: normalizeIsoInstant_def)

lemma normalizeIsoInstant_ok [simp]: "iso_instant s \<Longrightarrow> normalizeIsoInstant (Some (JStr s)) = Inr s"
  by (simp add: normalizeIsoInstant_def)

lemma wf_str_sha: "SHA256_PATTERN s \<Longrightarrow> wf_str s"
  by (auto simp: SHA256_PATTERN_def wf_str_def list_all_iff is_hex_lower_def is_digit_def)

lemma wf_one [simp]: "wf_json one"
  by (simp add: one_def is_integer_finite)

section \<open>Pointers\<close>

lemma decodePointer_Inr:
  "decodePointer v = Inr p \<longleftrightarrow>
     (\<exists>r g. v = JObj r \<and> member r ''schemaVersion'' = Some one \<and>
        member r ''generationId'' = Some (JStr g) \<and> normalizeUuid (Some (JStr g)) = Inr (p_generationId p) \<and>
        member r ''sha256'' = Some (JStr (p_sha256 p)) \<and> SHA256_PATTERN (p_sha256 p))"
  by (cases p) (auto simp: decodePointer_def as_simps rbind_Inr split: option.splits prod.splits if_splits)

definition pointer_ok :: "PlatformRouterPointer \<Rightarrow> bool" where
  "pointer_ok p \<longleftrightarrow>
     normalizeUuid (Some (JStr (p_generationId p))) = Inr (p_generationId p) \<and>
     SHA256_PATTERN (p_sha256 p)"

lemma pointer_ok_decode: "pointer_ok p \<Longrightarrow> decodePointer (pointer_json p) = Inr p"
  by (simp add: pointer_ok_def decodePointer_Inr pointer_json_def)

lemma decodePointer_ok: "decodePointer v = Inr p \<Longrightarrow> pointer_ok p"
  by (auto simp: decodePointer_Inr pointer_ok_def intro: normalizeUuid_idem)

lemma pointer_wf: "pointer_ok p \<Longrightarrow> wf_json (pointer_json p)"
  by (auto simp: pointer_ok_def pointer_json_def wf_json_Obj wf_str_sha dest: normalizeUuid_wf)

section \<open>Configurations and drafts\<close>

text \<open>A configuration that is its own normal form, with printable strings and numbers.\<close>

definition cfg_ok :: "platform \<Rightarrow> NormalizedStoredRouterConfig \<Rightarrow> bool" where
  "cfg_ok P c \<longleftrightarrow> normalizeStoredRouterConfig P (cand_of c) = Inr c \<and> wf_json (cfg_json c)"

lemma cfg_json_not_null [simp]: "cfg_json c \<noteq> JNull" "audit_json r \<noteq> JNull" "draft_json d \<noteq> JNull"
  "attestation_json t \<noteq> JNull"
  by (simp_all add: cfg_json_def audit_json_def draft_json_def attestation_json_def)

lemma decodeConfig_json:
  assumes "normalizeStoredRouterConfig P (cand_of c) = Inr c"
  shows "decodeGenerationConfig P (Some (cfg_json c)) = Inr (Some c)"
proof -
  obtain r where r: "cfg_json c = JObj r" by (simp add: cfg_json_def)
  with assms cand_of_cfg_json [OF r] show ?thesis by (simp add: decodeGenerationConfig_def)
qed

lemma decodeConfig_opt:
  "\<lbrakk>\<And>c. a = Some c \<Longrightarrow> normalizeStoredRouterConfig P (cand_of c) = Inr c\<rbrakk> \<Longrightarrow>
     decodeGenerationConfig P (Some (opt_json cfg_json a)) = Inr a"
  by (cases a) (simp_all add: opt_json_def decodeConfig_json, simp add: decodeGenerationConfig_def)

lemma decodeConfig_fixed:
  assumes "url_laws P" and "decodeGenerationConfig P v = Inr (Some c)"
  shows "normalizeStoredRouterConfig P (cand_of c) = Inr c"
  using assms by (auto simp: decodeGenerationConfig_def rbind_Inr intro: normalizeStored_idem
      split: if_splits option.splits)

definition attestation_ok :: "DraftTestAttestation \<Rightarrow> bool" where
  "attestation_ok t \<longleftrightarrow>
     SHA256_PATTERN (t_digest t) \<and> iso_instant (t_testedAt t) \<and>
     boundedAuditText (t_requestId t) = Inr (t_requestId t)"

lemma boundedAuditText_props:
  "boundedAuditText s = Inr t \<Longrightarrow> t \<noteq> [] \<and> 13 \<notin> set t \<and> 10 \<notin> set t \<and> length t \<le> 256"
  by (auto simp: boundedAuditText_def Let_def split: if_splits)

lemma decodeAttestation_json:
  "(\<And>t. a = Some t \<Longrightarrow> attestation_ok t) \<Longrightarrow>
     decodeAttestation (Some (opt_json attestation_json a)) = Inr a"
  by (cases a)
     (auto simp: opt_json_def decodeAttestation_def attestation_json_def attestation_ok_def
      rbind_Inr dest!: boundedAuditText_props)

lemma decodeAttestation_ok: "decodeAttestation v = Inr (Some t) \<Longrightarrow> attestation_ok t"
  by (auto simp: decodeAttestation_def attestation_ok_def rbind_Inr
      split: if_splits option.splits prod.splits intro: boundedAuditText_idem)

definition draft_fixed :: "platform \<Rightarrow> StoredRouterDraft \<Rightarrow> bool" where
  "draft_fixed P d \<longleftrightarrow>
     normalizeStoredRouterConfig P (cand_of (d_config d)) = Inr (d_config d) \<and>
     (\<forall>t. d_attestation d = Some t \<longrightarrow> attestation_ok t)"

lemma decodeDraft_json:
  "(\<And>d. a = Some d \<Longrightarrow> draft_fixed P d) \<Longrightarrow>
     decodeGenerationDraft P (Some (opt_json draft_json a)) = Inr a"
proof (cases a)
  case (Some d)
  assume "\<And>d. a = Some d \<Longrightarrow> draft_fixed P d"
  with Some have d: "draft_fixed P d" by simp
  have "decodeAttestation (Some (opt_json attestation_json (d_attestation d))) = Inr (d_attestation d)"
    using d by (intro decodeAttestation_json) (simp add: draft_fixed_def)
  with Some d show ?thesis
    by (simp add: opt_json_def decodeGenerationDraft_def draft_fixed_def decodeConfig_json
        draft_json_def)
qed (simp add: opt_json_def decodeGenerationDraft_def)

lemma decodeDraft_fixed:
  assumes "url_laws P" and "decodeGenerationDraft P v = Inr (Some d)"
  shows "draft_fixed P d"
proof -
  from assms(2) obtain r where
      c: "decodeGenerationConfig P (member r ''config'') = Inr (Some (d_config d))" and
      t: "decodeAttestation (member r ''attestation'') = Inr (d_attestation d)"
    by (auto simp: decodeGenerationDraft_def rbind_Inr split: if_splits option.splits)
  from decodeConfig_fixed [OF assms(1) c] decodeAttestation_ok t show ?thesis
    by (auto simp: draft_fixed_def)
qed

section \<open>Generations\<close>

definition generation_fixed :: "platform \<Rightarrow> PlatformRouterGeneration \<Rightarrow> bool" where
  "generation_fixed P g \<longleftrightarrow>
     normalizeUuid (Some (JStr (g_generationId g))) = Inr (g_generationId g) \<and>
     (\<forall>p. g_parentGenerationId g = Some p \<longrightarrow> normalizeUuid (Some (JStr p)) = Inr p) \<and>
     iso_instant (g_committedAt g) \<and>
     (\<forall>c. g_active g = Some c \<longrightarrow> normalizeStoredRouterConfig P (cand_of c) = Inr c) \<and>
     (\<forall>d. g_draft g = Some d \<longrightarrow> draft_fixed P d) \<and>
     length (g_pendingAudit g) \<le> MAX_PENDING_AUDIT_RECORDS \<and>
     (\<forall>r \<in> set (g_pendingAudit g). audit_ok P r) \<and>
     distinct (map a_eventId (g_pendingAudit g))"

lemma decodeGeneration_Inr:
  "decodeGeneration P v = Inr g \<longleftrightarrow>
     (\<exists>r gid pend. v = JObj r \<and> member r ''schemaVersion'' = Some one \<and>
        member r ''generationId'' = Some (JStr gid) \<and>
        normalizeUuid (Some (JStr gid)) = Inr (g_generationId g) \<and>
        (case g_parentGenerationId g of
           None \<Rightarrow> member r ''parentGenerationId'' = Some JNull
         | Some p \<Rightarrow> normalizeUuid (member r ''parentGenerationId'') = Inr p) \<and>
        member r ''committedAt'' = Some (JStr (g_committedAt g)) \<and> iso_instant (g_committedAt g) \<and>
        decodeGenerationConfig P (member r ''active'') = Inr (g_active g) \<and>
        decodeGenerationDraft P (member r ''draft'') = Inr (g_draft g) \<and>
        member r ''pendingAudit'' = Some (JArr pend) \<and> length pend \<le> MAX_PENDING_AUDIT_RECORDS \<and>
        rmap (\<lambda>x. decodePlatformRouterAuditRecord P (Some x)) pend = Inr (g_pendingAudit g) \<and>
        distinct (map a_eventId (g_pendingAudit g)))"
  (is "?lhs \<longleftrightarrow> ?rhs")
proof
  assume ?lhs
  then obtain r gid pend where r: "v = JObj r" "as_string (member r ''generationId'') = Some gid"
      "as_array (member r ''pendingAudit'') = Some pend"
    by (auto simp: decodeGeneration_def as_simps split: option.splits prod.splits)
  with \<open>?lhs\<close> show ?rhs
    by (intro exI [of _ r] exI [of _ gid] exI [of _ pend])
       (auto simp: decodeGeneration_def as_simps rbind_Inr not_less
        split: option.splits prod.splits if_splits)
next
  assume ?rhs
  then obtain r gid pend where r: "v = JObj r" "member r ''schemaVersion'' = Some one"
      "member r ''generationId'' = Some (JStr gid)"
      "normalizeUuid (Some (JStr gid)) = Inr (g_generationId g)"
      "case g_parentGenerationId g of
           None \<Rightarrow> member r ''parentGenerationId'' = Some JNull
         | Some p \<Rightarrow> normalizeUuid (member r ''parentGenerationId'') = Inr p"
      "member r ''committedAt'' = Some (JStr (g_committedAt g))" "iso_instant (g_committedAt g)"
      "decodeGenerationConfig P (member r ''active'') = Inr (g_active g)"
      "decodeGenerationDraft P (member r ''draft'') = Inr (g_draft g)"
      "member r ''pendingAudit'' = Some (JArr pend)" "length pend \<le> MAX_PENDING_AUDIT_RECORDS"
      "rmap (\<lambda>x. decodePlatformRouterAuditRecord P (Some x)) pend = Inr (g_pendingAudit g)"
      "distinct (map a_eventId (g_pendingAudit g))"
    by blast
  show ?lhs
  proof (cases "g_parentGenerationId g")
    case None
    with r show ?thesis by (cases g) (simp add: decodeGeneration_def)
  next
    case (Some p)
    with r(5) obtain s where "member r ''parentGenerationId'' = Some (JStr s)"
      by (auto simp: normalizeUuid_Inr)
    with Some r show ?thesis by (cases g) (simp add: decodeGeneration_def)
  qed
qed

lemma generation_fixed_decode:
  assumes "generation_fixed P g"
  shows "decodeGeneration P (generation_json g) = Inr g"
proof -
  have "rmap (\<lambda>x. decodePlatformRouterAuditRecord P (Some x)) (map audit_json (g_pendingAudit g)) =
      Inr (g_pendingAudit g)"
    using assms by (intro rmap_map_id) (auto simp: generation_fixed_def audit_ok_def)
  moreover have "decodeGenerationConfig P (Some (opt_json cfg_json (g_active g))) = Inr (g_active g)"
    using assms by (intro decodeConfig_opt) (auto simp: generation_fixed_def)
  moreover have "decodeGenerationDraft P (Some (opt_json draft_json (g_draft g))) = Inr (g_draft g)"
    using assms by (intro decodeDraft_json) (auto simp: generation_fixed_def)
  ultimately show ?thesis
    using assms unfolding decodeGeneration_Inr generation_json_def
    by (intro exI conjI) (auto simp: generation_fixed_def opt_json_def split: option.split)
qed

lemma decodeGeneration_fixed:
  assumes laws: "url_laws P" and g: "decodeGeneration P v = Inr g"
  shows "generation_fixed P g"
proof -
  from g obtain r gid pend where r: "normalizeUuid (Some (JStr gid)) = Inr (g_generationId g)"
      "case g_parentGenerationId g of
           None \<Rightarrow> member r ''parentGenerationId'' = Some JNull
         | Some p \<Rightarrow> normalizeUuid (member r ''parentGenerationId'') = Inr p"
      "iso_instant (g_committedAt g)"
      "decodeGenerationConfig P (member r ''active'') = Inr (g_active g)"
      "decodeGenerationDraft P (member r ''draft'') = Inr (g_draft g)"
      "length pend \<le> MAX_PENDING_AUDIT_RECORDS"
      "rmap (\<lambda>x. decodePlatformRouterAuditRecord P (Some x)) pend = Inr (g_pendingAudit g)"
      "distinct (map a_eventId (g_pendingAudit g))"
    unfolding decodeGeneration_Inr by blast
  from r(7) have l: "list_all2 (\<lambda>x y. decodePlatformRouterAuditRecord P (Some x) = Inr y) pend (g_pendingAudit g)"
    by (simp add: rmap_Inr_iff)
  have "audit_ok P a" if "a \<in> set (g_pendingAudit g)" for a
    using l that by (auto simp: list_all2_conv_all_nth in_set_conv_nth intro: decodeAudit_ok [OF laws])
  moreover have "length (g_pendingAudit g) \<le> MAX_PENDING_AUDIT_RECORDS"
    using l r(6) by (simp add: list_all2_lengthD)
  moreover have "\<forall>p. g_parentGenerationId g = Some p \<longrightarrow> normalizeUuid (Some (JStr p)) = Inr p"
    using r(2) by (auto intro: normalizeUuid_idem)
  moreover have "\<forall>c. g_active g = Some c \<longrightarrow> normalizeStoredRouterConfig P (cand_of c) = Inr c"
    using r(4) by (auto intro: decodeConfig_fixed [OF laws])
  moreover have "\<forall>d. g_draft g = Some d \<longrightarrow> draft_fixed P d"
    using r(5) by (auto intro: decodeDraft_fixed [OF laws])
  ultimately show ?thesis
    using r(1,3,8) by (auto simp: generation_fixed_def intro: normalizeUuid_idem)
qed

section \<open>File bytes\<close>

lemma trim_snoc_nl:
  assumes "s \<noteq> []" "\<not> is_space (hd s)" "\<not> is_space (last s)"
  shows "trim (s @ [10]) = s"
proof -
  have "dropWhile is_space (s @ [10]) = s @ [10]"
    using assms by (cases s) auto
  then have "trim (s @ [10]) = rev (dropWhile is_space (10 # rev s))" by (simp add: trim_def)
  also have "dropWhile is_space (10 # rev s) = rev s"
    using assms by (cases s rule: rev_cases) (auto simp: is_space_def [of 10])
  finally show ?thesis by simp
qed

lemma parseStrictJson_line:
  assumes "wf_json v" and "v = JObj r"
  shows "parseStrictJson (json_line v) = Inr v"
proof -
  have wf: "wf16 (stringify v @ [10])"
    using stringify_wf16(1) [OF assms(1)] by (intro wf16_append) (simp_all add: wf16_Cons)
  have "trim (stringify v @ [10]) = stringify v"
    by (rule trim_snoc_nl) (simp_all add: assms(2) is_space_def)
  then have "parseStrictJson (json_line v) =
      (case json_parse (stringify v) of None \<Rightarrow> Inl PlainError | Some x \<Rightarrow> Inr x)"
    using wf by (simp add: parseStrictJson_def json_line_def utf8_lossy_encode assms(2))
  then show ?thesis by (simp only: json_parse_stringify [OF assms(1)] option.case)
qed

section \<open>The errors of the decoders\<close>

text \<open>Decoders and normalisers only throw validation errors, never an error of the transaction
  protocol.\<close>

fun mild_error :: "router_error \<Rightarrow> bool" where
  "mild_error ConfigValidation = True"
| "mild_error PlainError = True"
| "mild_error ValidationError = True"
| "mild_error e = False"

definition mild :: "router_error + 'a \<Rightarrow> bool" where
  "mild r \<longleftrightarrow> (case r of Inl e \<Rightarrow> mild_error e | Inr x \<Rightarrow> True)"

named_theorems mild_intro \<open>decoders that only throw validation errors\<close>

lemma mild_not: "mild r \<Longrightarrow> \<not> mild_error e \<Longrightarrow> r \<noteq> Inl e"
  by (auto simp: mild_def)

lemma mild_basic [mild_intro]: "mild (Inr x)" "mild_error e \<Longrightarrow> mild (Inl e)"
  by (simp_all add: mild_def)

lemma mild_rbind [mild_intro]: "mild m \<Longrightarrow> (\<And>x. mild (f x)) \<Longrightarrow> mild (rbind m f)"
  by (cases m) (simp_all add: mild_def)

lemma mild_if [mild_intro]: "mild a \<Longrightarrow> mild b \<Longrightarrow> mild (if c then a else b)"
  by simp

lemma mild_option [mild_intro]: "mild a \<Longrightarrow> (\<And>x. mild (f x)) \<Longrightarrow> mild (case v of None \<Rightarrow> a | Some x \<Rightarrow> f x)"
  by (cases v) simp_all

lemma mild_prod [mild_intro]: "(\<And>x y. mild (f x y)) \<Longrightarrow> mild (case p of (x, y) \<Rightarrow> f x y)"
  by (cases p) simp

lemma mild_sum [mild_intro]:
  "(\<And>x. mild (f x)) \<Longrightarrow> (\<And>x. mild (g x)) \<Longrightarrow> mild (case v of Inl x \<Rightarrow> f x | Inr x \<Rightarrow> g x)"
  by (cases v) simp_all

lemma mild_rmap [mild_intro]: "(\<And>x. mild (f x)) \<Longrightarrow> mild (rmap f xs)"
  by (induction xs) (auto intro: mild_intro)

lemma mild_fields [mild_intro]:
  "mild (normalizeUuid v)" "mild (normalizeIsoInstant v)" "mild (boundedAuditText t)"
  "mild (normalizeEndpoint P v)" "mild (normalizeProtocol v)" "mild (boundedText v n)"
  "mild (requiredBoolean v)" "mild (normalizeCredentialFile v)" "mild (boundedOptionalText v n)"
  "mild (normalizeAuditEventId v)" "mild (normalizeAuditAction v)" "mild (parseStrictJson bs)"
  "mild (normalizeCredentialName t)"
  unfolding normalizeUuid_def normalizeIsoInstant_def boundedAuditText_def normalizeEndpoint_def
    normalizeProtocol_def boundedText_def requiredBoolean_def normalizeCredentialFile_def
    boundedOptionalText_def normalizeAuditEventId_def normalizeAuditAction_def parseStrictJson_def
    normalizeCredentialName_def Let_def
  by (rule mild_intro mild_error.simps[THEN iffD2] TrueI)+

lemma mild_config [mild_intro]:
  "mild (normalizeProviderModel v p)" "mild (normalizeStoredRouterConfig P c)"
  "mild (decodeGenerationConfig P w)" "mild (decodeAttestation w)"
  unfolding normalizeProviderModel_def normalizeStoredRouterConfig_def decodeGenerationConfig_def
    decodeAttestation_def Let_def
  by (intro mild_intro; simp)+

lemma mild_records [mild_intro]:
  "mild (decodeGenerationDraft P w)" "mild (auditEndpointOrigin P w b)"
  "mild (decodePlatformRouterAuditRecord P w)" "mild (decodePointer v)"
  unfolding decodeGenerationDraft_def auditEndpointOrigin_def decodePlatformRouterAuditRecord_def
    decodePointer_def
  by (intro mild_intro; simp)+

lemma mild_decodeGeneration [mild_intro]: "mild (decodeGeneration P v)"
  unfolding decodeGeneration_def by (intro mild_intro; simp)

end
