(* ===== verification/Router_Transaction.thy ===== *)
theory Router_Transaction
  imports Router_Lock Router_Codec "HOL-Library.List_Lexorder"
begin

text \<open>
  The transaction layer of \<open>web/src/lib/platform-router-config/transaction.ts\<close>: reading the
  current snapshot, committing a generation, the audit outbox and its journal, the
  checkpoint, recovery, and the collection of unreferenced credentials.
\<close>

section \<open>Names\<close>

definition AUDIT_FILE :: jstr where
  "AUDIT_FILE = js ''platform-router.audit.jsonl''"

definition ends_with_nocase :: "string \<Rightarrow> jstr \<Rightarrow> bool" where
  "ends_with_nocase p s \<longleftrightarrow> length p \<le> length s \<and> to_lower (drop (length s - length p) s) = js p"

definition POINTER_TEMP_PATTERN :: "jstr \<Rightarrow> bool" where
  "POINTER_TEMP_PATTERN s \<longleftrightarrow> length s = 65 \<and>
     starts_with_nocase ''.platform-router.current.'' s \<and> hexdash36 (take 36 (drop 25 s)) \<and>
     ends_with_nocase ''.tmp'' s"

definition GENERATION_FILE_PATTERN :: "jstr \<Rightarrow> bool" where
  "GENERATION_FILE_PATTERN s \<longleftrightarrow> length s = 41 \<and> hexdash36 (take 36 s) \<and> ends_with_nocase ''.json'' s"

definition GENERATION_TEMP_PATTERN :: "jstr \<Rightarrow> bool" where
  "GENERATION_TEMP_PATTERN s \<longleftrightarrow> length s = 78 \<and> take 1 s = [46] \<and> hexdash36 (take 36 (drop 1 s)) \<and>
     take 1 (drop 37 s) = [46] \<and> hexdash36 (take 36 (drop 38 s)) \<and> ends_with_nocase ''.tmp'' s"

definition pointerPath :: path where
  "pointerPath = RootPath [POINTER_FILE]"

definition auditPath :: path where
  "auditPath = RootPath [AUDIT_FILE]"

definition generationDirectory :: path where
  "generationDirectory = RootPath [GENERATION_DIRECTORY]"

definition generation_name :: "jstr \<Rightarrow> jstr" where
  "generation_name i = i @ js ''.json''"

definition generation_path :: "jstr \<Rightarrow> path" where
  "generation_path i = RootPath [GENERATION_DIRECTORY, generation_name i]"

definition generationPathFor :: "jstr \<Rightarrow> path io" where
  "generationPathFor i = bnd (lift_res (normalizeUuid (Some (JStr i)))) (\<lambda>n. ret (generation_path n))"

definition generation_temp_name :: "jstr \<Rightarrow> jstr \<Rightarrow> jstr" where
  "generation_temp_name i t = [46] @ i @ [46] @ t @ js ''.tmp''"

definition pointer_temp_name :: "jstr \<Rightarrow> jstr" where
  "pointer_temp_name t = js ''.platform-router.current.'' @ t @ js ''.tmp''"

section \<open>Reading\<close>

text \<open>A \<open>try\<close> around pure code whose handler throws one error.\<close>

definition or_else :: "router_error + 'a \<Rightarrow> router_error \<Rightarrow> 'a io" where
  "or_else r e = (case r of Inl _ \<Rightarrow> throw e | Inr x \<Rightarrow> ret x)"

definition platform_of :: "platform io" where
  "platform_of = get (\<lambda>M w. mc_platform M)"

definition readRequired :: "path \<Rightarrow> bytes io" where
  "readRequired p = bnd (readRegularFile p False) (\<lambda>b.
     case b of None \<Rightarrow> throw PlainError | Some bs \<Rightarrow> ret bs)"

definition readLegacyEntry :: "string \<Rightarrow> bytes option io" where
  "readLegacyEntry n = readRegularFile (RootPath [js n]) True"

definition legacySnapshot ::
    "platform \<Rightarrow> bytes option \<Rightarrow> bytes option \<Rightarrow> bytes option \<Rightarrow> bytes option \<Rightarrow>
     router_error + PlatformRouterSnapshot" where
  "legacySnapshot P activeRaw draftRaw metadataRaw attestationRaw =
     rbind (decodeLegacyConfig P activeRaw) (\<lambda>active.
     rbind (decodeLegacyConfig P draftRaw) (\<lambda>draftConfig.
     rbind (decodeLegacyMetadata metadataRaw) (\<lambda>metadata.
     rbind (decodeLegacyAttestation attestationRaw) (\<lambda>attestation.
     if draftConfig = None \<and> (metadataRaw \<noteq> None \<or> attestationRaw \<noteq> None)
     then Inl CorruptionError
     else
       let draft = (case draftConfig of
             None \<Rightarrow> None
           | Some c \<Rightarrow> Some \<lparr> d_config = c,
                             d_keyChanged = (case metadata of None \<Rightarrow> False | Some b \<Rightarrow> b),
                             d_attestation = attestation \<rparr>)
       in Inr \<lparr> s_source = (if active \<noteq> None \<or> draft \<noteq> None then FromLegacy else FromEmpty),
                s_pointer = None, s_generationId = None, s_parentGenerationId = None,
                s_committedAt = None, s_active = active, s_draft = draft, s_pendingAudit = [] \<rparr>))))"

definition readLegacySnapshot :: "PlatformRouterSnapshot io" where
  "readLegacySnapshot =
     bnd (readLegacyEntry ''platform-router.json'') (\<lambda>activeRaw.
     bnd (readLegacyEntry ''platform-router.draft.json'') (\<lambda>draftRaw.
     bnd (readLegacyEntry ''platform-router.draft.meta.json'') (\<lambda>metadataRaw.
     bnd (readLegacyEntry ''platform-router.draft.test.json'') (\<lambda>attestationRaw.
     bnd platform_of (\<lambda>P.
     lift_res (legacySnapshot P activeRaw draftRaw metadataRaw attestationRaw))))))"

definition readCurrentSnapshot :: "PlatformRouterSnapshot io" where
  "readCurrentSnapshot =
     thn (assertTrustedDirectory (RootPath []))
    (bnd platform_of (\<lambda>P.
     bnd (readRegularFile pointerPath True) (\<lambda>pointerBytes. case pointerBytes of
       None \<Rightarrow> readLegacySnapshot
     | Some pb \<Rightarrow>
         bnd (or_else (rbind (parseStrictJson pb) decodePointer) CorruptionError) (\<lambda>pointer.
         bnd (generationPathFor (p_generationId pointer)) (\<lambda>gp.
         bnd (readRequired gp) (\<lambda>generationBytes.
         thn (guard (sha256 P generationBytes = p_sha256 pointer) CorruptionError)
        (bnd (or_else (rbind (parseStrictJson generationBytes) (decodeGeneration P)) CorruptionError)
           (\<lambda>generation.
         thn (guard (g_generationId generation = p_generationId pointer) CorruptionError)
             (ret (snapshotFromGeneration generation pointer))))))))))"

section \<open>Committing\<close>

record PlatformRouterGenerationInput =
  gi_generationId :: "jstr option"
  gi_parentGenerationId :: "jstr option"
  gi_committedAt :: "jstr option"
  gi_active :: "NormalizedStoredRouterConfig option"
  gi_draft :: "StoredRouterDraft option"
  gi_pendingAudit :: "PlatformRouterAuditRecord list"

definition validateCommitParent :: "jstr \<Rightarrow> jstr option \<Rightarrow> bytes option io" where
  "validateCommitParent generationId parentGenerationId =
     thn (guard (Some generationId \<noteq> parentGenerationId) ConflictError)
    (bnd platform_of (\<lambda>P.
     bnd (readRegularFile pointerPath True) (\<lambda>pointerBytes. case pointerBytes of
       None \<Rightarrow> thn (guard (parentGenerationId = None) ConflictError) (ret None)
     | Some pb \<Rightarrow>
         bnd (or_else (rbind (parseStrictJson pb) decodePointer) CorruptionError) (\<lambda>pointer.
         case parentGenerationId of
           None \<Rightarrow> throw ConflictError
         | Some parent \<Rightarrow>
             thn (guard (parent = p_generationId pointer) ConflictError)
            (bnd (generationPathFor parent) (\<lambda>gp.
             bnd (readRequired gp) (\<lambda>parentBytes.
             thn (guard (sha256 P parentBytes = p_sha256 pointer) CorruptionError)
            (bnd (lift_res (rbind (parseStrictJson parentBytes) (decodeGeneration P))) (\<lambda>g.
             thn (guard (g_generationId g = parent) CorruptionError)
                 (ret (Some pb))))))))))) "

definition assertPointerUnchanged :: "bytes option \<Rightarrow> unit io" where
  "assertPointerUnchanged expected =
     bnd (readRegularFile pointerPath True) (\<lambda>actual.
     guard (sameNullableBuffer actual expected) ConflictError)"

definition ensureGenerationDirectory :: "unit io" where
  "ensureGenerationDirectory =
     catch (bnd (lstat generationDirectory) (\<lambda>(v, _). guard (is_directory v) CorruptionError))
       (\<lambda>e. if e \<noteq> NodeError ENOENT then throw e
            else thn (mkdir generationDirectory)
                (thn no_effect (fsyncDirectory (RootPath []))))"

definition removeRecognizedTemporary :: "path \<Rightarrow> unit io" where
  "removeRecognizedTemporary target =
     (if \<not> POINTER_TEMP_PATTERN (basename target) \<and> \<not> GENERATION_TEMP_PATTERN (basename target)
      then ret ()
      else catch (thn (assertRegularPathIfPresent target)
                 (thn (unlink target) (fsyncDirectory (dirname target))))
             (\<lambda>e. ret ()))"

definition normalized_generation ::
    "PlatformRouterGenerationInput \<Rightarrow> PlatformRouterGeneration io" where
  "normalized_generation input =
     bnd (case gi_generationId input of Some i \<Rightarrow> ret i | None \<Rightarrow> next_id) (\<lambda>rawId.
     bnd (lift_res (normalizeUuid (Some (JStr rawId)))) (\<lambda>generationId.
     bnd (case gi_parentGenerationId input of
            None \<Rightarrow> ret None
          | Some p \<Rightarrow> bnd (lift_res (normalizeUuid (Some (JStr p)))) (\<lambda>x. ret (Some x))) (\<lambda>parent.
     bnd (case gi_committedAt input of Some t \<Rightarrow> ret t | None \<Rightarrow> now_iso) (\<lambda>rawTime.
     bnd (lift_res (normalizeIsoInstant (Some (JStr rawTime)))) (\<lambda>committedAt.
     bnd platform_of (\<lambda>P.
     lift_res (decodeGeneration P (generation_json
       \<lparr> g_generationId = generationId, g_parentGenerationId = parent, g_committedAt = committedAt,
         g_active = gi_active input, g_draft = gi_draft input,
         g_pendingAudit = gi_pendingAudit input \<rparr>))))))))"

definition generation_bytes :: "PlatformRouterGeneration \<Rightarrow> bytes" where
  "generation_bytes g = json_line (generation_json g)"

definition pointer_to :: "platform \<Rightarrow> PlatformRouterGeneration \<Rightarrow> PlatformRouterPointer" where
  "pointer_to P g = \<lparr> p_generationId = g_generationId g, p_sha256 = sha256 P (generation_bytes g) \<rparr>"

definition pointer_bytes :: "PlatformRouterPointer \<Rightarrow> bytes" where
  "pointer_bytes p = json_line (pointer_json p)"

text \<open>The \<open>try\<close> block up to and including the rename of the pointer.\<close>

definition publishGeneration ::
    "PlatformRouterLockHandle \<Rightarrow> PlatformRouterGeneration \<Rightarrow> PlatformRouterPointer \<Rightarrow> bytes option \<Rightarrow>
     path \<Rightarrow> path \<Rightarrow> unit io" where
  "publishGeneration h g pointer expectedPointer generationTemporary pointerTemporary =
     (let owned = assertPlatformRouterLockOwned h; gp = generation_path (g_generationId g) in
     thn (assertAbsent gp)
    (thn owned
    (thn (writeExclusiveFile generationTemporary (generation_bytes g))
    (thn owned
    (thn (rename generationTemporary gp)
    (thn (fsyncDirectory generationDirectory)
    (thn (assertRegularPathIfPresent pointerPath)
    (thn owned
    (thn (writeExclusiveFile pointerTemporary (pointer_bytes pointer))
    (thn owned
    (thn (assertPointerUnchanged expectedPointer)
         (rename pointerTemporary pointerPath))))))))))))"

definition cleanupCommit :: "PlatformRouterLockHandle \<Rightarrow> path \<Rightarrow> path \<Rightarrow> unit io" where
  "cleanupCommit h generationTemporary pointerTemporary =
     catch
       (thn (assertPlatformRouterLockOwned h)
       (thn (removeRecognizedTemporary generationTemporary)
       (thn (assertPlatformRouterLockOwned h)
            (removeRecognizedTemporary pointerTemporary))))
       (\<lambda>e. if e \<noteq> LockOwnershipError then throw e else ret ())"

definition commitGeneration ::
    "PlatformRouterGenerationInput \<Rightarrow> PlatformRouterLockHandle \<Rightarrow> PlatformRouterSnapshot io" where
  "commitGeneration input h =
     thn (resolveHandleEnvironment h)
    (thn (assertPlatformRouterLockOwned h)
    (bnd (normalized_generation input) (\<lambda>g.
     thn (guard (length (generation_bytes g) \<le> MAX_STATE_BYTES) ValidationError)
    (bnd (validateCommitParent (g_generationId g) (g_parentGenerationId g)) (\<lambda>expectedPointer.
     bnd platform_of (\<lambda>P.
     thn (assertPlatformRouterLockOwned h)
    (thn ensureGenerationDirectory
    (bnd next_id (\<lambda>i1. bnd (lift_res (normalizeUuid (Some (JStr i1)))) (\<lambda>t1.
     bnd next_id (\<lambda>i2. bnd (lift_res (normalizeUuid (Some (JStr i2)))) (\<lambda>t2.
     let generationTemporary = RootPath [GENERATION_DIRECTORY, generation_temp_name (g_generationId g) t1];
         pointerTemporary = RootPath [pointer_temp_name t2];
         pointer = pointer_to P g
     in
     bnd (attempt (publishGeneration h g pointer expectedPointer generationTemporary pointerTemporary))
       (\<lambda>published. case published of
         Inl cause \<Rightarrow>
           thn (cleanupCommit h generationTemporary pointerTemporary) (wrap_as TransactionError cause)
       | Inr _ \<Rightarrow>
           bnd (attempt (catch (fsyncDirectory (RootPath [])) (\<lambda>e. throw CommitUncertainError)))
             (\<lambda>synced. case synced of
               Inl cause \<Rightarrow> thn (cleanupCommit h generationTemporary pointerTemporary) (throw cause)
             | Inr _ \<Rightarrow> ret (snapshotFromGeneration g pointer)))))))))))))))"

section \<open>Audit journal\<close>

definition AUDIT_SCAN_CHUNK_BYTES :: nat where
  "AUDIT_SCAN_CHUNK_BYTES = 64 * 1024"

definition MAX_AUDIT_RECORD_BYTES :: nat where
  "MAX_AUDIT_RECORD_BYTES = 64 * 1024"

type_synonym audit_map = "jstr \<Rightarrow> PlatformRouterAuditRecord option"

definition audit_text :: "PlatformRouterAuditRecord \<Rightarrow> jstr" where
  "audit_text r = stringify (audit_json r)"

definition decodeAuditJournalLine ::
    "platform \<Rightarrow> jstr set \<Rightarrow> bytes \<Rightarrow> audit_map \<Rightarrow> router_error + audit_map" where
  "decodeAuditJournalLine P wanted line records =
     (if line = [] \<or> MAX_AUDIT_RECORD_BYTES < length line then Inl CorruptionError
      else case utf8_fatal line of
        None \<Rightarrow> Inl CorruptionError
      | Some text \<Rightarrow>
          (case json_parse text of
             None \<Rightarrow> Inl CorruptionError
           | Some v \<Rightarrow>
               (case decodePlatformRouterAuditRecord P (Some v) of
                  Inl e \<Rightarrow> Inl CorruptionError
                | Inr r \<Rightarrow>
                    if a_eventId r \<notin> wanted then Inr records
                    else case records (a_eventId r) of
                      Some existing \<Rightarrow>
                        if audit_text existing \<noteq> audit_text r then Inl CorruptionError
                        else Inr (records(a_eventId r \<mapsto> r))
                    | None \<Rightarrow> Inr (records(a_eventId r \<mapsto> r)))))"

text \<open>The lines of a buffer that end in a newline, and what is left after the last one.\<close>

function complete_lines :: "bytes \<Rightarrow> bytes list \<times> bytes" where
  "complete_lines bs =
     (case dropWhile (\<lambda>b. b \<noteq> 10) bs of
        [] \<Rightarrow> ([], bs)
      | _ # rest \<Rightarrow> (let (ls, c) = complete_lines rest in (takeWhile (\<lambda>b. b \<noteq> 10) bs # ls, c)))"
  by auto
termination
proof (relation "measure length")
  fix bs :: bytes and b rest assume "dropWhile (\<lambda>b. b \<noteq> 10) bs = b # rest"
  then have "length (b # rest) \<le> length bs" by (metis length_dropWhile_le)
  then show "(rest, bs) \<in> measure length" by simp
qed simp

declare complete_lines.simps [simp del]

fun decode_lines ::
    "platform \<Rightarrow> jstr set \<Rightarrow> bytes list \<Rightarrow> audit_map \<Rightarrow> router_error + audit_map" where
  "decode_lines P wanted [] records = Inr records"
| "decode_lines P wanted (l # ls) records =
     rbind (decodeAuditJournalLine P wanted l records) (decode_lines P wanted ls)"

definition scan_chunk ::
    "platform \<Rightarrow> jstr set \<Rightarrow> bytes \<Rightarrow> bytes \<times> audit_map \<Rightarrow> router_error + bytes \<times> audit_map" where
  "scan_chunk P wanted chunk st =
     (let (ls, carry) = complete_lines (fst st @ chunk)
      in rbind (decode_lines P wanted ls (snd st)) (\<lambda>records.
         if MAX_AUDIT_RECORD_BYTES < length carry then Inl CorruptionError
         else Inr (carry, records)))"

fun scan_loop ::
    "nat \<Rightarrow> platform \<Rightarrow> jstr set \<Rightarrow> fd \<Rightarrow> nat \<Rightarrow> bytes \<times> audit_map \<Rightarrow> (bytes \<times> audit_map) io" where
  "scan_loop 0 P wanted f pos st = (\<lambda>M w. (Crash, w))"
| "scan_loop (Suc n) P wanted f pos st =
     bnd (read_fd f pos AUDIT_SCAN_CHUNK_BYTES) (\<lambda>chunk.
     if chunk = [] then ret st
     else bnd (lift_res (scan_chunk P wanted chunk st)) (\<lambda>st'.
          scan_loop n P wanted f (pos + length chunk) st'))"

definition finish_scan :: "bytes \<times> audit_map \<Rightarrow> router_error + audit_map" where
  "finish_scan st =
     (if fst st = [] then Inr (snd st)
      else if utf8_stream_ok (fst st) then Inl AuditPendingError else Inl CorruptionError)"

definition scanAndRepairAuditJournal :: "jstr set \<Rightarrow> audit_map io" where
  "scanAndRepairAuditJournal wanted =
     bnd (pathExists auditPath) (\<lambda>exists.
     if \<not> exists then ret (\<lambda>_. None)
     else
     thn (assertRegularPathIfPresent auditPath)
    (bnd platform_of (\<lambda>P.
     bnd (get (\<lambda>M w. mc_fuel M)) (\<lambda>fuel.
     with_fd (open_read auditPath)
       (\<lambda>f. bnd (fstat f) (\<lambda>v.
            thn (guard (is_file v) CorruptionError)
           (bnd (scan_loop fuel P wanted f 0 ([], \<lambda>_. None)) (\<lambda>st. lift_res (finish_scan st)))))
       throw close_fd))))"

fun missing_records ::
    "audit_map \<Rightarrow> PlatformRouterAuditRecord list \<Rightarrow> router_error + PlatformRouterAuditRecord list" where
  "missing_records records [] = Inr []"
| "missing_records records (r # rs) =
     (case records (a_eventId r) of
        None \<Rightarrow> rbind (missing_records records rs) (\<lambda>ms. Inr (r # ms))
      | Some existing \<Rightarrow>
          if audit_text existing \<noteq> audit_text r then Inl CorruptionError
          else missing_records records rs)"

record PlatformRouterAuditFlushResult =
  f_deliveredEventIds :: "jstr list"
  f_appendedEventIds :: "jstr list"
  f_repairedTail :: bool

definition append_records ::
    "PlatformRouterLockHandle \<Rightarrow> PlatformRouterAuditRecord list \<Rightarrow> bool \<Rightarrow> unit io" where
  "append_records h missing existed =
     (let owned = assertPlatformRouterLockOwned h in
     with_fd (thn (assertRegularPathIfPresent auditPath) (thn owned (open_append auditPath)))
       (\<lambda>f. bnd (fstat f) (\<lambda>v.
            thn (guard (is_file v) CorruptionError)
           (thn owned (thn no_effect (thn owned
           (thn (each (\<lambda>r. thn owned (writeAll f (json_line (audit_json r)))) missing)
           (thn owned
           (thn (fsync_file f)
                (run_if (\<not> existed) (fsyncDirectory (RootPath [])))))))))))
       (wrap_as TransactionError) close_fd)"

definition flushAuditOutbox ::
    "PlatformRouterSnapshot \<Rightarrow> PlatformRouterLockHandle \<Rightarrow> PlatformRouterAuditFlushResult io" where
  "flushAuditOutbox snapshot h =
     thn (resolveHandleEnvironment h)
    (thn (assertPlatformRouterLockOwned h)
    (bnd platform_of (\<lambda>P.
     bnd (lift_res (rmap (\<lambda>r. decodePlatformRouterAuditRecord P (Some (audit_json r)))
            (s_pendingAudit snapshot))) (\<lambda>pending.
     bnd (scanAndRepairAuditJournal (set (map a_eventId pending))) (\<lambda>records.
     thn (assertPlatformRouterLockOwned h)
    (bnd (lift_res (missing_records records pending)) (\<lambda>missing.
     thn (run_if (missing \<noteq> [])
            (bnd (pathExists auditPath) (append_records h missing)))
         (ret \<lparr> f_deliveredEventIds = map a_eventId pending,
                f_appendedEventIds = map a_eventId missing,
                f_repairedTail = False \<rparr>))))))))"

definition checkpointDeliveredAudit ::
    "PlatformRouterSnapshot \<Rightarrow> jstr list \<Rightarrow> PlatformRouterLockHandle \<Rightarrow> PlatformRouterSnapshot io" where
  "checkpointDeliveredAudit snapshot deliveredEventIds h =
     thn (resolveHandleEnvironment h)
    (thn (assertPlatformRouterLockOwned h)
    (thn (guard (s_source snapshot = FromGeneration \<and> s_generationId snapshot \<noteq> None) ConflictError)
    (bnd readCurrentSnapshot (\<lambda>current.
     thn (guard (s_source current = FromGeneration \<and>
                 s_generationId current = s_generationId snapshot) ConflictError)
    (bnd (lift_res (rmap (\<lambda>i. normalizeAuditEventId (Some (JStr i))) deliveredEventIds)) (\<lambda>delivered.
     let remaining = filter (\<lambda>r. a_eventId r \<notin> set delivered) (s_pendingAudit current) in
     thn (assertPlatformRouterLockOwned h)
         (if length remaining = length (s_pendingAudit current) then ret current
          else commitGeneration
            \<lparr> gi_generationId = None, gi_parentGenerationId = s_generationId current,
              gi_committedAt = None, gi_active = s_active current, gi_draft = s_draft current,
              gi_pendingAudit = remaining \<rparr> h)))))))"

section \<open>Credentials\<close>

definition check_credential :: "jstr \<Rightarrow> unit io" where
  "check_credential credentialFile =
     bnd (lift_res (normalizeCredentialName credentialFile)) (\<lambda>n.
     with_fd (thn (assertRegularPathIfPresent (RootPath [n])) (open_read (RootPath [n])))
       (\<lambda>f. bnd (fstat f) (\<lambda>v. guard (is_file v \<and> 0 < node_size v) CorruptionError))
       (wrap_as CorruptionError) close_fd)"

definition validateReferencedCredentials :: "PlatformRouterSnapshot \<Rightarrow> unit io" where
  "validateReferencedCredentials snapshot =
     each check_credential (dedup (markSnapshotCredentials snapshot))"

definition readGenerationWithoutPointer :: "jstr \<Rightarrow> PlatformRouterGeneration io" where
  "readGenerationWithoutPointer generationId =
     bnd platform_of (\<lambda>P.
     bnd (generationPathFor generationId) (\<lambda>gp.
     bnd (readRequired gp) (\<lambda>bs.
     bnd (or_else (rbind (parseStrictJson bs) (decodeGeneration P)) CorruptionError) (\<lambda>g.
     thn (guard (g_generationId g = generationId) CorruptionError) (ret g)))))"

definition MAX_GENERATION_LINEAGE_DEPTH :: nat where
  "MAX_GENERATION_LINEAGE_DEPTH = 10000"

text \<open>The walk along the parents; the first argument is the depth still allowed.\<close>

fun lineage :: "nat \<Rightarrow> jstr list \<Rightarrow> jstr option \<Rightarrow> PlatformRouterGeneration list io" where
  "lineage left visited None = ret []"
| "lineage 0 visited (Some i) = throw CorruptionError"
| "lineage (Suc left) visited (Some i) =
     thn (guard (i \<notin> set visited) CorruptionError)
    (bnd (readGenerationWithoutPointer i) (\<lambda>g.
     bnd (lineage left (i # visited) (g_parentGenerationId g)) (\<lambda>gs. ret (g # gs))))"

definition DEFAULT_GC_GRACE_MS :: int where
  "DEFAULT_GC_GRACE_MS = 5 * 60000"

record PlatformRouterGarbageCollectionResult =
  gc_retainedGenerations :: "jstr list"
  gc_removedGenerations :: "jstr list"
  gc_removedCredentials :: "jstr list"

definition retain_recent ::
    "rat \<Rightarrow> (jstr \<times> PlatformRouterGeneration) list \<Rightarrow> jstr \<Rightarrow> (jstr \<times> PlatformRouterGeneration) list io" where
  "retain_recent cutoff kept name =
     (if \<not> GENERATION_FILE_PATTERN name then ret kept
      else bnd (lift_res (normalizeUuid (Some (JStr (take 36 name))))) (\<lambda>generationId.
           bnd (lstat (path_in generationDirectory name)) (\<lambda>(v, mtime).
           thn (guard (is_file v) CorruptionError)
               (if cutoff \<le> mtime
                then bnd (readGenerationWithoutPointer generationId) (\<lambda>g.
                     ret (AList.update generationId g kept))
                else ret kept))))"

definition collect_credential ::
    "PlatformRouterLockHandle \<Rightarrow> rat \<Rightarrow> jstr set \<Rightarrow> jstr list \<Rightarrow> jstr \<Rightarrow> jstr list io" where
  "collect_credential h cutoff referenced removed name =
     (if \<not> MANAGED_ROUTER_KEY_FILE name \<or> name \<in> referenced then ret removed
      else bnd (lstat (RootPath [name])) (\<lambda>(v, mtime).
           thn (guard (is_file v) CorruptionError)
               (if cutoff \<le> mtime then ret removed
                else thn (assertPlatformRouterLockOwned h)
                    (thn (unlink (RootPath [name])) (ret (removed @ [name]))))))"

definition garbageCollectPlatformRouterArtifacts ::
    "PlatformRouterLockHandle \<Rightarrow> jsnum option \<Rightarrow> PlatformRouterGarbageCollectionResult io" where
  "garbageCollectPlatformRouterArtifacts h gcGrace =
     thn (resolveHandleEnvironment h)
    (thn (assertPlatformRouterLockOwned h)
    (bnd readCurrentSnapshot (\<lambda>current.
     thn (guard (s_source current = FromGeneration \<and> s_generationId current \<noteq> None) ConflictError)
    (thn (assertTrustedDirectory generationDirectory)
    (bnd now_ms (\<lambda>now.
     let cutoff = now - of_int (boundedDuration gcGrace DEFAULT_GC_GRACE_MS 0 (7 * 24 * 60 * 60000)) in
     bnd (lineage MAX_GENERATION_LINEAGE_DEPTH [] (s_generationId current)) (\<lambda>gs.
     bnd (readdir generationDirectory) (\<lambda>names.
     bnd (foldm (retain_recent cutoff) (map (\<lambda>g. (g_generationId g, g)) (take 3 gs)) names) (\<lambda>kept.
     bnd readLegacySnapshot (\<lambda>legacy.
     let referenced = set (concat (map (\<lambda>(i, g). markGenerationCredentials g) kept)) \<union>
           set (markSnapshotCredentials legacy) \<union> {LEGACY_ROUTER_KEY_FILE} in
     bnd (readdir (RootPath [])) (\<lambda>rootEntries.
     thn (assertPlatformRouterLockOwned h)
    (bnd (foldm (collect_credential h cutoff referenced) [] rootEntries) (\<lambda>removed.
     thn (run_if (removed \<noteq> []) (fsyncDirectory (RootPath [])))
         (ret \<lparr> gc_retainedGenerations = sort (dedup (map fst kept)),
                gc_removedGenerations = [],
                gc_removedCredentials = sort removed \<rparr>))))))))))))))"

section \<open>Recovery\<close>

record PlatformRouterRecoveryResult =
  r_importedLegacy :: bool
  r_snapshot :: PlatformRouterSnapshot
  r_audit :: PlatformRouterAuditFlushResult
  r_garbageCollection :: PlatformRouterGarbageCollectionResult

definition recovery_body ::
    "jsnum option \<Rightarrow> PlatformRouterLockHandle \<Rightarrow> PlatformRouterRecoveryResult io" where
  "recovery_body gcGrace h =
     bnd readCurrentSnapshot (\<lambda>found.
     thn (validateReferencedCredentials found)
    (bnd (if s_source found \<noteq> FromGeneration
          then commitGeneration
            \<lparr> gi_generationId = None, gi_parentGenerationId = None, gi_committedAt = None,
              gi_active = s_active found, gi_draft = s_draft found,
              gi_pendingAudit = s_pendingAudit found \<rparr> h
          else ret found) (\<lambda>snapshot.
     bnd (flushAuditOutbox snapshot h) (\<lambda>audit.
     bnd (checkpointDeliveredAudit snapshot (f_deliveredEventIds audit) h) (\<lambda>checkpointed.
     thn (validateReferencedCredentials checkpointed)
    (bnd (garbageCollectPlatformRouterArtifacts h gcGrace) (\<lambda>gc.
     ret \<lparr> r_importedLegacy = (s_source found \<noteq> FromGeneration), r_snapshot = checkpointed,
           r_audit = audit, r_garbageCollection = gc \<rparr>)))))))"

definition recoverPlatformRouterTransactions ::
    "jsnum option \<Rightarrow> jsnum option \<Rightarrow> jsnum option \<Rightarrow> PlatformRouterRecoveryResult io" where
  "recoverPlatformRouterTransactions timeout grace gcGrace =
     withPlatformRouterLock (recovery_body gcGrace) timeout grace"

end
