(* ===== verification/Router_Visible.thy ===== *)
theory Router_Visible
  imports Router_Transaction
begin

text \<open>
  What a reader sees: a specification of the current snapshot as a function of the disk, and
  the refinement of \<open>readCurrentSnapshot\<close> to it. On a machine without faults and
  interference the program returns exactly the specified result; on any machine a snapshot
  it returns is the specified one.
\<close>

section \<open>Quiet machines\<close>

definition quiet :: "machine \<Rightarrow> bool" where
  "quiet M \<longleftrightarrow> (\<forall>t. mc_sched M t = NoFault \<and> mc_others M t = id)"

definition at_tick :: "world \<Rightarrow> nat \<Rightarrow> world" where
  "at_tick w t = w\<lparr> w_tick := t \<rparr>"

lemma at_tick_simps [simp]:
  "w_disk (at_tick w t) = w_disk w" "w_tick (at_tick w t) = t" "w_ids (at_tick w t) = w_ids w"
  "w_caps (at_tick w t) = w_caps w" "w_handles (at_tick w t) = w_handles w"
  "at_tick (at_tick w s) t = at_tick w t"
  by (simp_all add: at_tick_def)

lemma sys_quiet:
  "quiet M \<Longrightarrow> sys f M w = (case f M (w_tick w) (w_disk w) of
     Inl e \<Rightarrow> (Throw (NodeError e), at_tick w (Suc (w_tick w)))
   | Inr (x, d) \<Rightarrow> (Ret x, at_tick w (Suc (w_tick w))\<lparr> w_disk := d \<rparr>))"
  by (auto simp: sys_def quiet_def Let_def at_tick_def split: sum.split prod.split)

text \<open>A program that computes a result and leaves the world as it is, the tick apart.\<close>

definition computes :: "machine \<Rightarrow> 'a io \<Rightarrow> world \<Rightarrow> router_error + 'a \<Rightarrow> bool" where
  "computes M m w r \<longleftrightarrow>
     (\<forall>t. \<exists>t'. m M (at_tick w t) = (case r of Inl e \<Rightarrow> Throw e | Inr x \<Rightarrow> Ret x, at_tick w t'))"

lemma computes_at: "computes M m (at_tick w t) r \<longleftrightarrow> computes M m w r"
  by (simp add: computes_def)

lemma computesD:
  "computes M m w r \<Longrightarrow> \<exists>t. m M w = (case r of Inl e \<Rightarrow> Throw e | Inr x \<Rightarrow> Ret x, at_tick w t)"
  unfolding computes_def by (drule spec [of _ "w_tick w"]) (simp add: at_tick_def)

lemma computes_ret: "computes M (ret x) w (Inr x)"
  by (auto simp: computes_def ret_def)

lemma computes_throw: "computes M (throw e) w (Inl e)"
  by (auto simp: computes_def throw_def)

lemma computes_get: "(\<And>t. f M (at_tick w t) = x) \<Longrightarrow> computes M (get f) w (Inr x)"
  by (auto simp: computes_def get_def)

lemma computes_lift: "computes M (lift_res r) w r"
  by (cases r) (simp_all add: lift_res_def computes_ret computes_throw)

lemma computes_guard: "computes M (guard b e) w (ensure b e)"
  by (cases b) (simp_all add: guard_def computes_ret computes_throw)

lemma computes_or_else: "computes M (or_else r e) w (case r of Inl _ \<Rightarrow> Inl e | Inr x \<Rightarrow> Inr x)"
  by (cases r) (simp_all add: or_else_def computes_ret computes_throw)

lemma computes_bnd:
  assumes "computes M m w r" and "\<And>x. r = Inr x \<Longrightarrow> computes M (f x) w (g x)"
  shows "computes M (bnd m f) w (rbind r g)"
  unfolding computes_def
proof
  fix t
  from assms(1) obtain t1 where
    m: "m M (at_tick w t) = (case r of Inl e \<Rightarrow> Throw e | Inr x \<Rightarrow> Ret x, at_tick w t1)"
    by (auto simp: computes_def)
  show "\<exists>t'. bnd m f M (at_tick w t) = (case rbind r g of Inl e \<Rightarrow> Throw e | Inr x \<Rightarrow> Ret x, at_tick w t')"
  proof (cases r)
    case (Inl e)
    with m show ?thesis by (auto simp: bnd_def)
  next
    case (Inr x)
    with assms(2) obtain t2 where
      "f x M (at_tick w t1) = (case g x of Inl e \<Rightarrow> Throw e | Inr x \<Rightarrow> Ret x, at_tick w t2)"
      by (auto simp: computes_def)
    with m Inr show ?thesis by (auto simp: bnd_def)
  qed
qed

lemma computes_thn:
  "computes M m w r \<Longrightarrow> computes M n w s \<Longrightarrow> computes M (thn m n) w (rbind r (\<lambda>_. s))"
  unfolding thn_def by (rule computes_bnd)

lemma computes_catch:
  assumes "computes M m w r" and "\<And>e. r = Inl e \<Longrightarrow> computes M (h e) w (g e)"
  shows "computes M (catch m h) w (case r of Inl e \<Rightarrow> g e | Inr x \<Rightarrow> Inr x)"
  unfolding computes_def
proof
  fix t
  from assms(1) obtain t1 where
    m: "m M (at_tick w t) = (case r of Inl e \<Rightarrow> Throw e | Inr x \<Rightarrow> Ret x, at_tick w t1)"
    by (auto simp: computes_def)
  show "\<exists>t'. catch m h M (at_tick w t) =
      (case (case r of Inl e \<Rightarrow> g e | Inr x \<Rightarrow> Inr x) of Inl e \<Rightarrow> Throw e | Inr x \<Rightarrow> Ret x, at_tick w t')"
  proof (cases r)
    case (Inl e)
    with assms(2) obtain t2 where
      "h e M (at_tick w t1) = (case g e of Inl e \<Rightarrow> Throw e | Inr x \<Rightarrow> Ret x, at_tick w t2)"
      by (auto simp: computes_def)
    with m Inl show ?thesis by (auto simp: catch_def)
  next
    case (Inr x)
    with m show ?thesis by (auto simp: catch_def)
  qed
qed

lemma computes_sys:
  assumes "quiet M" and "\<And>t. f M t (w_disk w) = (case r of Inl e \<Rightarrow> Inl e | Inr x \<Rightarrow> Inr (x, w_disk w))"
  shows "computes M (sys f) w (case r of Inl e \<Rightarrow> Inl (NodeError e) | Inr x \<Rightarrow> Inr x)"
  using assms
  by (cases r) (auto simp: computes_def sys_quiet at_tick_def)

lemma computes_close: "quiet M \<Longrightarrow> computes M (close_fd f) w (Inr ())"
  unfolding close_fd_def no_effect_def
  using computes_sys [where r = "Inr ()"] by simp

lemma computes_run_finally:
  assumes "computes M m w r" and "computes M c w (Inr ())"
  shows "computes M (run_finally m c) w r"
  unfolding computes_def
proof
  fix t
  from assms(1) obtain t1 where
    m: "m M (at_tick w t) = (case r of Inl e \<Rightarrow> Throw e | Inr x \<Rightarrow> Ret x, at_tick w t1)"
    by (auto simp: computes_def)
  from assms(2) obtain t2 where "c M (at_tick w t1) = (Ret (), at_tick w t2)"
    by (auto simp: computes_def)
  with m show "\<exists>t'. run_finally m c M (at_tick w t) =
      (case r of Inl e \<Rightarrow> Throw e | Inr x \<Rightarrow> Ret x, at_tick w t')"
    by (cases r) (auto simp: run_finally_def thn_def bnd_def ret_def throw_def)
qed

lemma computes_with_fd:
  assumes "computes M a w r" and "\<And>d. r = Inr d \<Longrightarrow> computes M (b d) w (g d)"
    and "\<And>e. computes M (h e) w (k e)" and "\<And>d. computes M (c d) w (Inr ())"
  shows "computes M (with_fd a b h c) w
     (case rbind r g of Inl e \<Rightarrow> k e | Inr x \<Rightarrow> Inr x)"
  unfolding computes_def
proof
  fix t
  from assms(1) obtain t1 where
    m: "a M (at_tick w t) = (case r of Inl e \<Rightarrow> Throw e | Inr x \<Rightarrow> Ret x, at_tick w t1)"
    by (auto simp: computes_def)
  show "\<exists>t'. with_fd a b h c M (at_tick w t) =
      (case (case rbind r g of Inl e \<Rightarrow> k e | Inr x \<Rightarrow> Inr x) of Inl e \<Rightarrow> Throw e | Inr x \<Rightarrow> Ret x, at_tick w t')"
  proof (cases r)
    case (Inl e)
    from assms(3) obtain t2 where
      "h e M (at_tick w t1) = (case k e of Inl e \<Rightarrow> Throw e | Inr x \<Rightarrow> Ret x, at_tick w t2)"
      unfolding computes_def by blast
    with m Inl show ?thesis by (auto simp: with_fd_def)
  next
    case (Inr d)
    have "computes M (run_finally (catch (b d) h) (c d)) w (case g d of Inl e \<Rightarrow> k e | Inr x \<Rightarrow> Inr x)"
      by (intro computes_run_finally computes_catch assms(2-) Inr)
    then obtain t2 where "run_finally (catch (b d) h) (c d) M (at_tick w t1) =
        (case (case g d of Inl e \<Rightarrow> k e | Inr x \<Rightarrow> Inr x) of Inl e \<Rightarrow> Throw e | Inr x \<Rightarrow> Ret x, at_tick w t2)"
      unfolding computes_def by blast
    with m Inr show ?thesis by (auto simp: with_fd_def)
  qed
qed

section \<open>Reading a regular file\<close>

text \<open>What \<open>readRegularFile(p, true)\<close> makes of what is found at a path.\<close>

definition regular :: "errno + node \<Rightarrow> router_error + bytes option" where
  "regular r =
     (case r of
        Inl c \<Rightarrow> if c = ENOENT then Inr None else Inl CorruptionError
      | Inr v \<Rightarrow> (case v of
            FileN b t s \<Rightarrow> if length b \<le> MAX_STATE_BYTES then Inr (Some b) else Inl CorruptionError
          | _ \<Rightarrow> Inl CorruptionError))"

definition required :: "router_error + bytes option \<Rightarrow> router_error + bytes" where
  "required r = rbind r (\<lambda>b. case b of None \<Rightarrow> Inl CorruptionError | Some bs \<Rightarrow> Inr bs)"

text \<open>The paths the helpers are called with name an entry of a directory.\<close>

fun names_entry :: "path \<Rightarrow> bool" where
  "names_entry (RootPath ns) = (ns \<noteq> [])"
| "names_entry (FdPath i ns) = (ns \<noteq> [])"

lemma node_at_entry:
  "names_entry p \<Longrightarrow> node_at d p = rbind (locate d p) (\<lambda>(i, n).
     case entry d i n of None \<Rightarrow> Inl ENOENT | Some v \<Rightarrow> Inr v)"
  by (cases "(d, p)" rule: node_at.cases) auto

definition node_error :: "errno + 'a \<Rightarrow> router_error + 'a" where
  "node_error r = (case r of Inl c \<Rightarrow> Inl (NodeError c) | Inr x \<Rightarrow> Inr x)"

lemma computes_lstat:
  assumes "quiet M"
  shows "computes M (lstat p) w
     (node_error (rbind (node_at (w_disk w) p) (\<lambda>v. Inr (v, node_mtime (w_disk w) v))))"
  unfolding lstat_def node_error_def
  by (rule computes_sys [OF assms]) (auto split: sum.split simp: rbind_def)

lemma computes_assertRegular:
  assumes "quiet M"
  shows "computes M (assertRegularPathIfPresent p) w
     (case node_at (w_disk w) p of
        Inl c \<Rightarrow> if c = ENOENT then Inr () else Inl (NodeError c)
      | Inr v \<Rightarrow> ensure (is_file v) CorruptionError)"
proof -
  have "computes M (assertRegularPathIfPresent p) w
     (case rbind (node_error (rbind (node_at (w_disk w) p) (\<lambda>v. Inr (v, node_mtime (w_disk w) v))))
         (\<lambda>(v, _). ensure (is_file v) CorruptionError) of
        Inl e \<Rightarrow> if e = NodeError ENOENT then Inr () else Inl e | Inr x \<Rightarrow> Inr x)"
    unfolding assertRegularPathIfPresent_def
    by (intro computes_catch computes_bnd computes_lstat assms)
       (auto intro: computes_guard computes_ret computes_throw)
  then show ?thesis
    by (cases "node_at (w_disk w) p") (auto simp: node_error_def ensure_def split: if_splits)
qed

lemma computes_open_read:
  assumes "quiet M"
  shows "computes M (open_read p) w
     (node_error (rbind (locate (w_disk w) p) (\<lambda>(i, n). case entry (w_disk w) i n of
        None \<Rightarrow> Inl ENOENT | Some v \<Rightarrow> (case v of LinkN x \<Rightarrow> Inl ELOOP | _ \<Rightarrow> Inr (i, n)))))"
  unfolding open_read_def node_error_def
  by (rule computes_sys [OF assms])
     (auto split: sum.split option.split node.split prod.split simp: rbind_def)

lemma computes_fstat:
  assumes "quiet M"
  shows "computes M (fstat f) w
     (node_error (case entry (w_disk w) (fst f) (snd f) of None \<Rightarrow> Inl EIO | Some v \<Rightarrow> Inr v))"
  unfolding fstat_def node_error_def
  by (rule computes_sys [OF assms]) (auto split: option.split)

lemma computes_read_all:
  assumes "quiet M"
  shows "computes M (read_all f) w
     (node_error (case entry (w_disk w) (fst f) (snd f) of
        Some (FileN b t s) \<Rightarrow> Inr b | _ \<Rightarrow> Inl EISDIR))"
  unfolding read_all_def node_error_def
  by (rule computes_sys [OF assms]) (auto split: option.split node.split)

lemma computes_readRegularFile:
  assumes q: "quiet M" and p: "names_entry p"
  shows "computes M (readRegularFile p b) w
     (case regular (node_at (w_disk w) p) of
        Inr None \<Rightarrow> if b then Inr None else Inl CorruptionError | r \<Rightarrow> r)"
proof -
  let ?d = "w_disk w" and ?h = "\<lambda>e. if b \<and> e = NodeError ENOENT then Inr None
      else if is_transaction_error e then Inl e else Inl CorruptionError"
  have h: "computes M (if b \<and> e = NodeError ENOENT then ret None else wrap_as CorruptionError e) w (?h e)" for e
    by (auto simp: wrap_as_def intro: computes_ret computes_throw)
  have "computes M (readRegularFile p b) w
     (case rbind (rbind (case node_at ?d p of
              Inl c \<Rightarrow> if c = ENOENT then Inr () else Inl (NodeError c)
            | Inr v \<Rightarrow> ensure (is_file v) CorruptionError)
          (\<lambda>_. node_error (rbind (locate ?d p) (\<lambda>(i, n). case entry ?d i n of
              None \<Rightarrow> Inl ENOENT | Some v \<Rightarrow> (case v of LinkN x \<Rightarrow> Inl ELOOP | _ \<Rightarrow> Inr (i, n))))))
        (\<lambda>f. rbind (node_error (case entry ?d (fst f) (snd f) of None \<Rightarrow> Inl EIO | Some v \<Rightarrow> Inr v))
          (\<lambda>v. rbind (ensure (is_file v \<and> node_size v \<le> MAX_STATE_BYTES) CorruptionError)
            (\<lambda>_. rbind (node_error (case entry ?d (fst f) (snd f) of
                Some (FileN b t s) \<Rightarrow> Inr b | _ \<Rightarrow> Inl EISDIR)) (\<lambda>b. Inr (Some b))))) of
        Inl e \<Rightarrow> ?h e | Inr x \<Rightarrow> Inr x)"
    unfolding readRegularFile_def
    by (intro computes_with_fd computes_thn computes_bnd computes_assertRegular computes_open_read
        computes_fstat computes_guard computes_read_all computes_ret computes_close h q)
  moreover have "node_at ?d p = rbind (locate ?d p) (\<lambda>(i, n).
      case entry ?d i n of None \<Rightarrow> Inl ENOENT | Some v \<Rightarrow> Inr v)"
    by (rule node_at_entry [OF p])
  ultimately show ?thesis
    by (cases "locate ?d p")
       (auto simp: regular_def node_error_def ensure_def rbind_def
        split: option.split node.split if_splits)
qed

section \<open>Reading on any machine\<close>

definition on :: "(disk \<Rightarrow> bool) \<Rightarrow> world \<Rightarrow> bool" where
  "on P w \<longleftrightarrow> P (w_disk w)"

definition undisturbed :: "machine \<Rightarrow> (disk \<Rightarrow> bool) \<Rightarrow> bool" where
  "undisturbed M P \<longleftrightarrow> (\<forall>t d. P d \<longrightarrow> P (mc_others M t d))"

lemma outcome_sys:
  assumes "undisturbed M P"
    and "\<And>t d x d'. P d \<Longrightarrow> f M t d = Inr (x, d') \<Longrightarrow> Q x d'"
    and "\<And>t d c. P d \<Longrightarrow> f M t d = Inl c \<Longrightarrow> X (NodeError c) d"
    and "\<And>d. P d \<Longrightarrow> X (NodeError EIO) d"
    and "\<And>d. P d \<Longrightarrow> C d"
  shows "outcome M (on P) (sys f) (\<lambda>x. on (Q x)) (\<lambda>e. on (X e)) (on C)"
  unfolding outcome_def
proof (intro allI impI)
  fix w assume "on P w"
  with assms(1) have "P (mc_others M (w_tick w) (w_disk w))" by (simp add: on_def undisturbed_def)
  then show "case sys f M w of (Ret x, w') \<Rightarrow> on (Q x) w' | (Throw e, w') \<Rightarrow> on (X e) w'
      | (Crash, w') \<Rightarrow> on C w'"
    by (auto simp: sys_def Let_def on_def split: fault.split sum.split prod.split intro: assms(2-5))
qed

lemma outcome_sys_inv:
  assumes "undisturbed M P" and "\<And>t d x d'. P d \<Longrightarrow> f M t d = Inr (x, d') \<Longrightarrow> P d' \<and> A x"
    and "\<And>t d c. P d \<Longrightarrow> f M t d = Inl c \<Longrightarrow> B (NodeError c)" and "B (NodeError EIO)"
  shows "outcome M (on P) (sys f) (\<lambda>x w. on P w \<and> A x) (\<lambda>e w. on P w \<and> B e) (on P)"
  by (rule outcome_weaken [OF outcome_sys [OF assms(1), of f "\<lambda>x d. P d \<and> A x" "\<lambda>e d. P d \<and> B e" P]])
     (use assms in \<open>auto simp: on_def\<close>)

lemma outcome_lstat:
  assumes "undisturbed M P" and "\<And>d. P d \<Longrightarrow> node_at d p = r"
  shows "outcome M (on P) (lstat p) (\<lambda>x w. on P w \<and> r = Inr (fst x))
     (\<lambda>e w. on P w \<and> (e = NodeError EIO \<or> (\<exists>c. e = NodeError c \<and> r = Inl c))) (on P)"
  unfolding lstat_def
  by (rule outcome_sys_inv [OF assms(1)]) (auto simp: assms(2) rbind_def split: sum.splits)

lemma outcome_assertRegular:
  assumes "undisturbed M P" and "\<And>d. P d \<Longrightarrow> node_at d p = r"
  shows "outcome M (on P) (assertRegularPathIfPresent p)
     (\<lambda>x w. on P w \<and> (r = Inl ENOENT \<or> (\<exists>v. r = Inr v \<and> is_file v)))
     (\<lambda>e w. on P w \<and> e \<noteq> NodeError ENOENT) (on P)"
proof -
  have b: "outcome M (on P) (bnd (lstat p) (\<lambda>(v, _). guard (is_file v) CorruptionError))
      (\<lambda>x w. on P w \<and> (r = Inl ENOENT \<or> (\<exists>v. r = Inr v \<and> is_file v)))
      (\<lambda>e w. on P w \<and> (e = NodeError ENOENT \<longrightarrow> r = Inl ENOENT)) (on P)"
    by (rule outcome_bnd [OF outcome_weaken [OF outcome_lstat [OF assms],
          where Q = "\<lambda>x w. on P w \<and> r = Inr (fst x)"]])
       (auto split: prod.split intro!: outcome_guard)
  show ?thesis
    unfolding assertRegularPathIfPresent_def
    by (rule outcome_catch [OF b]) (auto intro: outcome_ret outcome_throw)
qed

definition seen_at :: "errno + nat \<times> jstr \<Rightarrow> node option \<Rightarrow> errno + node" where
  "seen_at l x = rbind l (\<lambda>_. case x of None \<Rightarrow> Inl ENOENT | Some v \<Rightarrow> Inr v)"

text \<open>A path that leads to the same node on every disk of an undisturbed class.\<close>

locale steady_file =
  fixes M :: machine and P :: "disk \<Rightarrow> bool" and p :: path
    and l :: "errno + nat \<times> jstr" and x :: "node option"
  assumes calm: "undisturbed M P"
    and entry_path: "names_entry p"
    and located: "P d \<Longrightarrow> locate d p = l"
    and found: "P d \<Longrightarrow> l = Inr (i, n) \<Longrightarrow> entry d i n = x"
begin

lemma node_at_seen: "P d \<Longrightarrow> node_at d p = seen_at l x"
  using located [of d] found [of d]
  by (cases l) (auto simp: seen_at_def node_at_entry [OF entry_path])

lemma outcome_open:
  "outcome M (on P) (open_read p) (\<lambda>f w. on P w \<and> l = Inr f \<and> x \<noteq> None)
     (\<lambda>e w. on P w \<and> (e = NodeError ENOENT \<longrightarrow> seen_at l x = Inl ENOENT)) (on P)"
  unfolding open_read_def
proof (rule outcome_sys_inv [OF calm])
  fix t d f d' assume P: "P d" and o: "rbind (locate d p) (\<lambda>(i, n). case entry d i n of
      None \<Rightarrow> Inl ENOENT | Some (LinkN u) \<Rightarrow> Inl ELOOP | Some v \<Rightarrow> Inr ((i, n), d)) = Inr (f, d')"
  then obtain i n where "l = Inr (i, n)" using located [OF P] by (cases l) auto
  with o located [OF P] found [OF P] P show "P d' \<and> l = Inr f \<and> x \<noteq> None"
    by (auto split: option.split_asm node.split_asm)
next
  fix t d c assume P: "P d" and o: "rbind (locate d p) (\<lambda>(i, n). case entry d i n of
      None \<Rightarrow> Inl ENOENT | Some (LinkN u) \<Rightarrow> Inl ELOOP | Some v \<Rightarrow> Inr ((i, n), d)) = Inl c"
  with located [OF P] found [OF P] show "NodeError c = NodeError ENOENT \<longrightarrow> seen_at l x = Inl ENOENT"
    by (cases l) (auto simp: seen_at_def split: option.split_asm node.split_asm)
qed simp

lemma outcome_fstat:
  "l = Inr f \<Longrightarrow> outcome M (on P) (fstat f) (\<lambda>v w. on P w \<and> x = Some v)
     (\<lambda>e w. on P w \<and> e \<noteq> NodeError ENOENT) (on P)"
  unfolding fstat_def
  by (rule outcome_sys_inv [OF calm]) (auto simp: found [of _ "fst f" "snd f"] split: option.split_asm)

lemma outcome_read_all:
  "l = Inr f \<Longrightarrow> outcome M (on P) (read_all f) (\<lambda>b w. on P w \<and> (\<exists>t s. x = Some (FileN b t s)))
     (\<lambda>e w. on P w \<and> e \<noteq> NodeError ENOENT) (on P)"
  unfolding read_all_def
  by (rule outcome_sys_inv [OF calm])
     (auto simp: found [of _ "fst f" "snd f"] split: option.split_asm node.split_asm)

lemma outcome_close: "outcome M (on P) (close_fd c) (\<lambda>_. on P) (\<lambda>e. on P) (on P)"
  unfolding close_fd_def no_effect_def
  by (rule outcome_weaken [OF outcome_sys_inv [OF calm, of _ "\<lambda>_. True" "\<lambda>_. True"]]) auto

text \<open>What the program returns is what is there.\<close>

lemma outcome_readRegularFile:
  "outcome M (on P) (readRegularFile p b)
     (\<lambda>r w. on P w \<and> regular (seen_at l x) = Inr r \<and> (r = None \<longrightarrow> b)) (\<lambda>e. on P) (on P)"
proof -
  let ?Q = "\<lambda>r w. on P w \<and> regular (seen_at l x) = Inr r \<and> (r = None \<longrightarrow> b)"
  let ?Y = "\<lambda>e w. on P w \<and> (e = NodeError ENOENT \<longrightarrow> seen_at l x = Inl ENOENT)"
  let ?h = "\<lambda>e. if b \<and> e = NodeError ENOENT then ret None else wrap_as CorruptionError e"
  let ?body = "\<lambda>f. bnd (fstat f) (\<lambda>v. thn (guard (is_file v \<and> node_size v \<le> MAX_STATE_BYTES) CorruptionError)
      (bnd (read_all f) (\<lambda>b. ret (Some b))))"
  have h: "outcome M (?Y e) (?h e) ?Q (\<lambda>e. on P) (on P)" for e
    by (auto simp: wrap_as_def regular_def intro!: outcome_ret outcome_throw)
  have body: "outcome M (on P) (?body f) ?Q ?Y (on P)" if f: "l = Inr f" for f
  proof -
    have read: "outcome M (on P) (bnd (read_all f) (\<lambda>b. ret (Some b))) ?Q
        (\<lambda>e w. on P w \<and> e \<noteq> NodeError ENOENT) (on P)"
      if "x = Some v" "node_size v \<le> MAX_STATE_BYTES" for v
      by (rule outcome_bnd [OF outcome_read_all [OF f]], rule outcome_ret)
         (use that in \<open>auto simp: regular_def seen_at_def f\<close>)
    have "outcome M (on P) (?body f) ?Q (\<lambda>e w. on P w \<and> e \<noteq> NodeError ENOENT) (on P)"
    proof (rule outcome_bnd [OF outcome_fstat [OF f]], rule outcome_pre)
      fix v assume v: "x = Some v"
      show "outcome M (on P) (thn (guard (is_file v \<and> node_size v \<le> MAX_STATE_BYTES) CorruptionError)
          (bnd (read_all f) (\<lambda>b. ret (Some b)))) ?Q (\<lambda>e w. on P w \<and> e \<noteq> NodeError ENOENT) (on P)"
        by (rule outcome_thn [where R = "\<lambda>w. on P w \<and> node_size v \<le> MAX_STATE_BYTES"])
           (auto intro!: outcome_guard outcome_pre read v)
    qed
    then show ?thesis
      by (rule outcome_weaken) auto
  qed
  have acquire: "outcome M (on P) (thn (assertRegularPathIfPresent p) (open_read p))
      (\<lambda>f w. on P w \<and> l = Inr f) ?Y (on P)"
    by (rule outcome_thn [where R = "on P"];
        rule outcome_weaken [OF outcome_assertRegular [OF calm node_at_seen]]
             outcome_weaken [OF outcome_open]) auto
  show ?thesis
    unfolding readRegularFile_def
  proof (rule outcome_with_fd [OF acquire _ h])
    fix f
    have "outcome M (on P) (run_finally (catch (?body f) ?h) (close_fd f)) ?Q (\<lambda>e. on P) (on P)"
      if f: "l = Inr f"
    proof (rule outcome_run_finally [OF outcome_catch [OF body [OF f] h]])
      show "outcome M (?Q r) (close_fd f) (\<lambda>_. ?Q r) (\<lambda>e. on P) (on P)" for r
        by (rule outcome_pre, rule outcome_weaken [OF outcome_close]) auto
      show "outcome M (on P) (close_fd f) (\<lambda>_. on P) (\<lambda>e. on P) (on P)" for e :: router_error
        by (rule outcome_close)
    qed
    then show "outcome M (\<lambda>w. on P w \<and> l = Inr f) (run_finally (catch (?body f) ?h) (close_fd f)) ?Q
        (\<lambda>e. on P) (on P)"
      by (rule outcome_pre)
  qed
qed

end

section \<open>Disks the other processes can lead to\<close>

inductive drift :: "machine \<Rightarrow> disk \<Rightarrow> disk \<Rightarrow> bool" for M where
  here: "drift M d d"
| others: "drift M d d' \<Longrightarrow> drift M d (mc_others M t d')"

lemma drift_first: "drift M (mc_others M t d) d' \<Longrightarrow> drift M d d'"
  by (induction "mc_others M t d" d' rule: drift.induct) (auto intro: drift.intros)

definition lasting :: "machine \<Rightarrow> (disk \<Rightarrow> bool) \<Rightarrow> disk \<Rightarrow> bool" where
  "lasting M B d \<longleftrightarrow> (\<forall>d'. drift M d d' \<longrightarrow> B d')"

definition leads :: "path \<Rightarrow> errno + nat \<times> jstr \<Rightarrow> node option \<Rightarrow> disk \<Rightarrow> bool" where
  "leads p l x d \<longleftrightarrow> locate d p = l \<and> (\<forall>i n. l = Inr (i, n) \<longrightarrow> entry d i n = x)"

lemma lasting_now: "lasting M B d \<Longrightarrow> B d"
  by (auto simp: lasting_def intro: drift.here)

lemma lasting_undisturbed: "undisturbed M (lasting M B)"
  by (auto simp: undisturbed_def lasting_def dest: drift_first)

interpretation root_file: steady_file M "lasting M (leads (RootPath (n # ns)) l x)" "RootPath (n # ns)" l x
  for M n ns l x
  by unfold_locales (auto simp: lasting_undisturbed leads_def dest!: lasting_now)

end
