(* ===== verification/Router_Zone.thy ===== *)
theory Router_Zone
  imports Router_Visible
begin

text \<open>
  The names of the configuration store, the assumption on other processes while the lock
  is held, and what the writing operations achieve: a file written exclusively has
  the given bytes, synced; a rename moves a node; a directory sync settles its entries.
\<close>

section \<open>Names and zones\<close>

definition legacy_names :: "jstr list" where
  "legacy_names = map js [''platform-router.json'', ''platform-router.draft.json'',
     ''platform-router.draft.meta.json'', ''platform-router.draft.test.json'']"

definition router_name :: "jstr \<Rightarrow> bool" where
  "router_name n \<longleftrightarrow> n = POINTER_FILE \<or> n = GENERATION_DIRECTORY \<or> n \<in> set legacy_names \<or>
     GENERATION_FILE_PATTERN n \<or> POINTER_TEMP_PATTERN n \<or> GENERATION_TEMP_PATTERN n"

text \<open>The store without the names of \<open>X\<close>, and the names of \<open>Y\<close>, in every directory.\<close>

definition Kz :: "jstr set \<Rightarrow> zone" where
  "Kz X = (\<lambda>i n. router_name n \<and> n \<notin> X)"

definition Lz :: "jstr set \<Rightarrow> zone" where
  "Lz Y = (\<lambda>i n. router_name n \<and> n \<in> Y)"

text \<open>
  While one process holds the lock the others leave the names of the store alone. They may
  create candidate directories and anything else.
\<close>

definition calm :: "machine \<Rightarrow> bool" where
  "calm M \<longleftrightarrow> rely (Kz {}) (Lz {}) M"

lemma calm_rely: "calm M \<Longrightarrow> rely (Kz X) (Lz Y) M"
  unfolding calm_def by (erule rely_mono) (auto simp: Kz_def Lz_def)

definition zstable :: "jstr set \<Rightarrow> jstr set \<Rightarrow> (disk \<Rightarrow> bool) \<Rightarrow> bool" where
  "zstable X Y P \<longleftrightarrow> (\<forall>d d'. P d \<longrightarrow> frame (Kz X) (Lz Y) d d' \<longrightarrow> P d')"

lemma zstableD: "zstable X Y P \<Longrightarrow> P d \<Longrightarrow> frame (Kz X) (Lz Y) d d' \<Longrightarrow> P d'"
  by (auto simp: zstable_def)

lemma zstable_calm: "zstable X Y P \<Longrightarrow> calm M \<Longrightarrow> undisturbed M P"
  using calm_rely [of M X Y] by (auto simp: undisturbed_def rely_def zstable_def)

lemma zstable_conj: "zstable X Y P \<Longrightarrow> zstable X Y Q \<Longrightarrow> zstable X Y (\<lambda>d. P d \<and> Q d)"
  unfolding zstable_def by blast

lemma zstable_ex: "(\<And>t. zstable X Y (P t)) \<Longrightarrow> zstable X Y (\<lambda>d. \<exists>t. P t d)"
  unfolding zstable_def by blast

lemma zstable_less:
  assumes "zstable X Y P" and "X' \<subseteq> X" and "Y \<subseteq> Y' \<union> - X'"
  shows "zstable X' Y' P"
proof -
  have "frame (Kz X) (Lz Y) d d'" if "frame (Kz X') (Lz Y') d d'" for d d'
    using that assms(2,3) by (auto simp: Kz_def Lz_def elim!: frame_mono)
  with assms(1) show ?thesis unfolding zstable_def by blast
qed

lemma zstable_root: "zstable X Y (\<lambda>d. k_root d = v)"
  by (simp add: zstable_def frame_def)

lemma zstable_inode: "zstable X Y (\<lambda>d. i < k_inode d)"
  by (auto simp: zstable_def frame_def)

lemma zstable_entry:
  "router_name n \<Longrightarrow> n \<notin> X \<Longrightarrow> zstable X Y (\<lambda>d. i < k_inode d \<and> entry d i n = v)"
  by (auto simp: zstable_def frame_def Kz_def)

lemma zstable_present:
  "router_name n \<Longrightarrow> n \<in> Y \<Longrightarrow> zstable X Y (\<lambda>d. i < k_inode d \<and> entry d i n = Some v)"
  by (auto simp: zstable_def frame_def Lz_def)

lemma zstable_settled:
  "router_name n \<Longrightarrow> n \<notin> X \<Longrightarrow> zstable X Y (\<lambda>d. i < k_inode d \<and> cands d i n \<subseteq> S)"
  by (force simp: zstable_def frame_def Kz_def)

lemma outcome_keeps:
  fixes m :: "'a io"
  assumes "keeps M (wframe (Kz X) (Lz Y)) m" and "zstable X Y P"
  shows "outcome M (on P) m (\<lambda>_. on P) (\<lambda>_. on P) (on P)"
  by (rule fr.keeps_outcome [OF assms(1)]) (auto simp: on_def wframe_def intro: zstableD [OF assms(2)])

lemma outcome_calm:
  fixes m :: "'a io"
  shows "(\<And>K L. rely K L M \<Longrightarrow> keeps M (wframe K L) m) \<Longrightarrow> calm M \<Longrightarrow> zstable X Y P \<Longrightarrow>
     outcome M (on P) m (\<lambda>_. on P) (\<lambda>_. on P) (on P)"
  by (rule outcome_keeps) (auto intro: calm_rely)

section \<open>Writing a file\<close>

definition holds_file :: "nat \<Rightarrow> jstr \<Rightarrow> bytes \<Rightarrow> disk \<Rightarrow> bool" where
  "holds_file i n b d \<longleftrightarrow> i < k_inode d \<and> (\<exists>t s. entry d i n = Some (FileN b t s))"

definition holds_synced :: "nat \<Rightarrow> jstr \<Rightarrow> bytes \<Rightarrow> disk \<Rightarrow> bool" where
  "holds_synced i n b d \<longleftrightarrow> i < k_inode d \<and> (\<exists>t. entry d i n = Some (FileN b t True))"

lemma zstable_holds:
  "router_name n \<Longrightarrow> n \<notin> X \<Longrightarrow> zstable X Y (holds_file i n b)"
  "router_name n \<Longrightarrow> n \<notin> X \<Longrightarrow> zstable X Y (holds_synced i n b)"
  by (auto simp: zstable_def frame_def Kz_def holds_file_def holds_synced_def)

lemma write_fd_outcome:
  assumes M: "calm M" and n: "router_name n" and P: "zstable (insert n X) Y P" and Y: "n \<notin> Y"
  shows "outcome M (on (\<lambda>d. P d \<and> holds_file i n c d)) (write_fd (i, n) bs)
     (\<lambda>k. on (\<lambda>d. P d \<and> holds_file i n (c @ take k bs) d)) (\<lambda>_. on P) (on P)"
  unfolding write_fd_def
proof (rule outcome_sys)
  show "undisturbed M (\<lambda>d. P d \<and> holds_file i n c d)"
  proof (rule zstable_calm [OF zstable_conj M])
    show "zstable {} {} (holds_file i n c)" using n by (rule zstable_holds) simp
    show "zstable {} {} P"
      by (rule zstable_less [OF P]) auto
  qed
  fix t d k d'
  assume d: "P d \<and> holds_file i n c d"
  assume "(case entry d (fst (i, n)) (snd (i, n)) of
      Some (FileN b t' s) \<Rightarrow> (let k = amount M t (length bs)
        in Inr (k, set_node (fst (i, n)) (snd (i, n)) (Some (FileN (b @ take k bs) (mc_nowMs M t) False)) d))
    | _ \<Rightarrow> Inl EIO) = Inr (k, d')"
  with d have "d' = set_node i n (Some (FileN (c @ take k bs) (mc_nowMs M t) False)) d"
    by (auto simp: holds_file_def Let_def)
  moreover have "frame (Kz (insert n X)) (Lz Y) d (set_node i n v d)" for v
    using Y by (intro frame_set_node) (auto simp: Kz_def Lz_def)
  ultimately show "P d' \<and> holds_file i n (c @ take k bs) d'"
    using d zstableD [OF P] by (auto simp: holds_file_def)
qed auto

lemma writeAll_outcome:
  assumes M: "calm M" and n: "router_name n" and P: "zstable (insert n X) Y P" and Y: "n \<notin> Y"
  shows "outcome M (on (\<lambda>d. P d \<and> holds_file i n c d)) (writeAll (i, n) bs)
     (\<lambda>_. on (\<lambda>d. P d \<and> holds_file i n (c @ bs) d)) (\<lambda>_. on P) (on P)"
proof (induction "(i, n)" bs arbitrary: c rule: writeAll.induct)
  case (1 bs)
  show ?case
  proof (cases "bs = []")
    case True
    then show ?thesis by (subst writeAll.simps) (auto intro: outcome_ret)
  next
    case False
    have "outcome M (on (\<lambda>d. P d \<and> holds_file i n (c @ take k bs) d))
        (if k = 0 then throw TransactionError else writeAll (i, n) (drop k bs))
        (\<lambda>_. on (\<lambda>d. P d \<and> holds_file i n (c @ bs) d)) (\<lambda>_. on P) (on P)" for k
      using 1 [OF False, of k "c @ take k bs"] by (auto simp: on_def intro: outcome_throw)
    with False show ?thesis
      by (subst writeAll.simps) (auto intro: outcome_bnd [OF write_fd_outcome [OF assms]])
  qed
qed

lemma fstat_outcome:
  assumes "undisturbed M (\<lambda>d. P d \<and> holds_file i n c d)"
  shows "outcome M (on (\<lambda>d. P d \<and> holds_file i n c d)) (fstat (i, n))
     (\<lambda>v. on (\<lambda>d. P d \<and> holds_file i n c d)) (\<lambda>_. on P) (on P)"
  unfolding fstat_def
  by (rule outcome_sys [OF assms]) (auto split: option.split_asm)

lemma fsync_file_outcome:
  assumes M: "calm M" and n: "router_name n" and P: "zstable (insert n X) Y P" and Y: "n \<notin> Y"
  shows "outcome M (on (\<lambda>d. P d \<and> holds_file i n c d)) (fsync_file (i, n))
     (\<lambda>_. on (\<lambda>d. P d \<and> holds_synced i n c d)) (\<lambda>_. on P) (on P)"
  unfolding fsync_file_def
proof (rule outcome_sys)
  show "undisturbed M (\<lambda>d. P d \<and> holds_file i n c d)"
    by (rule zstable_calm [OF zstable_conj M, of "{}" "{}"])
       (use n zstable_less [OF P, of "{}" "{}"] in \<open>auto intro: zstable_holds\<close>)
  fix t d k d'
  assume d: "P d \<and> holds_file i n c d"
  assume "(case entry d (fst (i, n)) (snd (i, n)) of
      Some (FileN b t' s) \<Rightarrow> Inr ((), set_node (fst (i, n)) (snd (i, n)) (Some (FileN b t' True)) d)
    | _ \<Rightarrow> Inr ((), d)) = Inr (k, d')"
  with d obtain t' where "d' = set_node i n (Some (FileN c t' True)) d"
    by (auto simp: holds_file_def)
  moreover have "frame (Kz (insert n X)) (Lz Y) d (set_node i n v d)" for v
    using Y by (intro frame_set_node) (auto simp: Kz_def Lz_def)
  ultimately show "P d' \<and> holds_synced i n c d'"
    using d zstableD [OF P] by (auto simp: holds_file_def holds_synced_def)
qed auto

lemma open_excl_outcome:
  assumes M: "calm M" and P: "zstable (insert n X) Y P" and Y: "n \<notin> Y"
    and loc: "\<And>d. P d \<Longrightarrow> locate d p = Inr (i, n) \<and> i < k_inode d"
  shows "outcome M (on P) (open_excl p)
     (\<lambda>f w. on (\<lambda>d. P d \<and> holds_file i n [] d) w \<and> f = (i, n)) (\<lambda>_. on P) (on P)"
proof -
  have "outcome M (on P) (open_excl p)
     (\<lambda>f. on (\<lambda>d. P d \<and> holds_file i n [] d \<and> f = (i, n))) (\<lambda>_. on P) (on P)"
    unfolding open_excl_def
  proof (rule outcome_sys)
    show "undisturbed M P" by (rule zstable_calm [OF P M])
    fix t d f d'
    assume d: "P d" and o: "rbind (locate d p) (\<lambda>(i, n). case entry d i n of
         Some v \<Rightarrow> Inl EEXIST
       | None \<Rightarrow> Inr ((i, n), touch_dir i (mc_nowMs M t)
                   (set_node i n (Some (FileN [] (mc_nowMs M t) False)) d))) = Inr (f, d')"
    have "frame (Kz (insert n X)) (Lz Y) d (touch_dir i s (set_node i n v d))" for s v
      using Y by (intro frame_set_touch) (auto simp: Kz_def Lz_def)
    with d o loc [OF d] zstableD [OF P d] show "P d' \<and> holds_file i n [] d' \<and> f = (i, n)"
      by (auto simp: holds_file_def split: option.split_asm)
  qed auto
  then show ?thesis by (rule outcome_weaken) (auto simp: on_def)
qed

lemma close_outcome: "undisturbed M P \<Longrightarrow> outcome M (on P) (close_fd f) (\<lambda>_. on P) (\<lambda>_. on P) (on P)"
  unfolding close_fd_def no_effect_def by (rule outcome_sys) auto

lemma no_effect_outcome:
  assumes "undisturbed M (\<lambda>d. P d \<and> Q d)"
  shows "outcome M (on (\<lambda>d. P d \<and> Q d)) no_effect (\<lambda>_. on (\<lambda>d. P d \<and> Q d)) (\<lambda>_. on P) (on P)"
  unfolding no_effect_def by (rule outcome_sys [OF assms]) auto

lemma writeExclusiveFile_outcome:
  assumes M: "calm M" and n: "router_name n" and P: "zstable (insert n X) Y P" and Y: "n \<notin> Y"
    and loc: "\<And>d. P d \<Longrightarrow> locate d p = Inr (i, n) \<and> i < k_inode d"
  shows "outcome M (on P) (writeExclusiveFile p bs)
     (\<lambda>_. on (\<lambda>d. P d \<and> holds_synced i n bs d)) (\<lambda>_. on P) (on P)"
proof -
  let ?H = "\<lambda>c d. P d \<and> holds_file i n c d" and ?S = "\<lambda>d. P d \<and> holds_synced i n bs d"
  have P0: "zstable {} {} P" by (rule zstable_less [OF P]) auto
  have uP: "undisturbed M P" by (rule zstable_calm [OF P0 M])
  have uH: "undisturbed M (?H c)" for c
    by (rule zstable_calm [OF zstable_conj [OF P0] M]) (use n in \<open>auto intro: zstable_holds\<close>)
  have uS: "undisturbed M ?S"
    by (rule zstable_calm [OF zstable_conj [OF P0] M]) (use n in \<open>auto intro: zstable_holds\<close>)
  let ?body = "\<lambda>f. bnd (fstat f) (\<lambda>v. thn (guard (is_file v) CorruptionError)
      (thn no_effect (thn (writeAll f bs) (fsync_file f))))"
  have body: "outcome M (on (?H [])) (?body (i, n)) (\<lambda>_. on ?S) (\<lambda>_. on P) (on P)"
  proof (rule outcome_bnd [OF fstat_outcome [OF uH]])
    fix v
    have "outcome M (on (?H [])) (thn (writeAll (i, n) bs) (fsync_file (i, n))) (\<lambda>_. on ?S) (\<lambda>_. on P) (on P)"
      using outcome_thn [OF writeAll_outcome [OF M n P Y, of i "[]" bs, simplified]
          fsync_file_outcome [OF M n P Y]] by simp
    then show "outcome M (on (?H [])) (thn (guard (is_file v) CorruptionError)
        (thn no_effect (thn (writeAll (i, n) bs) (fsync_file (i, n))))) (\<lambda>_. on ?S) (\<lambda>_. on P) (on P)"
      by (intro outcome_thn [OF _ outcome_thn [OF no_effect_outcome [OF uH]]] outcome_guard)
         (auto simp: on_def)
  qed
  show ?thesis
    unfolding writeExclusiveFile_def
  proof (rule outcome_with_fd [OF open_excl_outcome [OF M P Y loc]])
    fix f
    show "outcome M (\<lambda>w. on (?H []) w \<and> f = (i, n)) (run_finally (catch (?body f) throw) (close_fd f))
        (\<lambda>_. on ?S) (\<lambda>_. on P) (on P)"
    proof (rule outcome_pre)
      assume f: "f = (i, n)"
      have "outcome M (on (?H [])) (catch (?body f) throw) (\<lambda>_. on ?S) (\<lambda>_. on P) (on P)"
        unfolding f by (rule outcome_catch [OF body]) (rule outcome_throw)
      then show "outcome M (on (?H [])) (run_finally (catch (?body f) throw) (close_fd f))
          (\<lambda>_. on ?S) (\<lambda>_. on P) (on P)"
        by (rule outcome_run_finally)
           (auto intro: close_outcome [OF uP] outcome_weaken [OF close_outcome [OF uS]] simp: on_def)
    qed
  qed (auto intro: outcome_throw)
qed

section \<open>Renames, syncs and absence\<close>

lemma rename_outcome:
  assumes M: "calm M" and P: "undisturbed M P"
    and loc: "\<And>d. P d \<Longrightarrow> locate d p = Inr (i, n) \<and> locate d q = Inr (j, m) \<and> (i, n) \<noteq> (j, m)"
    and move: "\<And>d v s t. P d \<Longrightarrow> entry d i n = Some v \<Longrightarrow>
        Q (touch_dir i t (touch_dir j t (set_node i n None (set_node j m (Some v) d))))"
  shows "outcome M (on P) (rename p q) (\<lambda>_. on Q) (\<lambda>_. on P) (on P)"
  unfolding rename_def
proof (rule outcome_sys [OF P])
  fix t d x d'
  assume d: "P d" and "rbind (locate d p) (\<lambda>(i, n). rbind (locate d q) (\<lambda>(j, m).
     case entry d i n of
       None \<Rightarrow> Inl ENOENT
     | Some v \<Rightarrow> rbind (rename_ok d v (entry d j m)) (\<lambda>_.
         if (i, n) = (j, m) then Inr ((), d)
         else Inr ((), touch_dir i (mc_nowMs M t) (touch_dir j (mc_nowMs M t)
                (set_node i n None (set_node j m (Some v) d))))))) = Inr (x, d')"
  with loc [OF d] obtain v where "entry d i n = Some v"
      "d' = touch_dir i (mc_nowMs M t) (touch_dir j (mc_nowMs M t) (set_node i n None (set_node j m (Some v) d)))"
    by (auto elim!: rbindE split: option.split_asm)
  with move [OF d] show "Q d'" by blast
qed auto

lemma assertAbsent_outcome:
  assumes P: "undisturbed M P" and r: "\<And>d. P d \<Longrightarrow> node_at d p = r"
  shows "outcome M (on P) (assertAbsent p) (\<lambda>_ w. on P w \<and> r = Inl ENOENT) (\<lambda>_. on P) (on P)"
proof -
  have "outcome M (on P) (thn (lstat p) (throw ConflictError)) (\<lambda>_ w. on P w \<and> r = Inl ENOENT)
      (\<lambda>e w. on P w \<and> (e = NodeError ENOENT \<longrightarrow> r = Inl ENOENT)) (on P)"
    by (rule outcome_thn [where R = "on P"])
       (auto intro: outcome_throw outcome_weaken [OF outcome_lstat [OF P r]])
  then show ?thesis
    unfolding assertAbsent_def by (rule outcome_catch) (auto intro: outcome_ret outcome_throw)
qed

lemma fsyncDirectory_outcome:
  assumes M: "calm M" and P: "zstable X Y P" and n: "router_name n"
    and at: "\<And>d. P d \<Longrightarrow> node_at d p = Inr (DirN i) \<and> i < k_inode d \<and> entry d i n = v"
  shows "outcome M (on P) (fsyncDirectory p)
     (\<lambda>_. on (\<lambda>d. P d \<and> cands d i n = {v})) (\<lambda>_. on P) (on P)"
proof -
  let ?S = "\<lambda>d. P d \<and> (i < k_inode d \<and> cands d i n \<subseteq> {v})"
  have P0: "undisturbed M P" by (rule zstable_calm [OF P M])
  have uS: "undisturbed M ?S"
  proof (rule zstable_calm [OF zstable_conj M, of "{}" "{}"])
    show "zstable {} {} (\<lambda>d. i < k_inode d \<and> cands d i n \<subseteq> {v})"
      using n by (rule zstable_settled) simp
    show "zstable {} {} P" by (rule zstable_less [OF P]) auto
  qed
  have "outcome M (on P) (open_dir p) (\<lambda>j w. on P w \<and> j = i) (\<lambda>_. on P) (on P)"
    unfolding open_dir_def
    by (rule outcome_weaken [OF outcome_sys_inv [OF P0, where A = "\<lambda>j. j = i" and B = "\<lambda>_. True"]])
       (auto simp: at)
  moreover have "outcome M (on P) (fsync_dir i) (\<lambda>_. on ?S) (\<lambda>_. on P) (on P)"
    unfolding fsync_dir_def
    by (rule outcome_sys [OF P0]) (auto simp: at cands_def intro: zstableD [OF P] frame_settle)
  then have "outcome M (on P) (run_finally (fsync_dir i) (close_fd i)) (\<lambda>_. on ?S) (\<lambda>_. on P) (on P)"
  proof (rule outcome_run_finally)
    show "outcome M (on ?S) (close_fd i) (\<lambda>_. on ?S) (\<lambda>_. on P) (on P)" for x :: unit
      by (rule outcome_weaken [OF close_outcome [OF uS]]) (auto simp: on_def)
  qed (rule close_outcome [OF P0])
  ultimately have "outcome M (on P) (fsyncDirectory p) (\<lambda>_. on ?S) (\<lambda>_. on P) (on P)"
    unfolding fsyncDirectory_def by (auto intro!: outcome_bnd outcome_pre)
  then show ?thesis
    by (rule outcome_weaken) (auto simp: on_def cands_def at)
qed

end
