(* ===== verification/Router_Commit.thy ===== *)
theory Router_Commit
  imports Router_Zone
begin

text \<open>
  Atomicity of a commit. Through every schedule of failures, short writes and deaths of the
  process, the disk is either still in a state in which the old snapshot is visible or
  already in one in which the new snapshot is visible, and the way the commit ends tells
  which. The two descriptions of the disk, \<open>old_disk\<close> and \<open>new_disk\<close>, also bound what
  a loss of power may bring back.
\<close>

section \<open>Names\<close>

lemma UUID_hexdash: "UUID_PATTERN s \<Longrightarrow> hexdash36 s"
proof -
  assume u: "UUID_PATTERN s"
  have "is_hex (s ! i) \<or> s ! i = 45" if "i < length s" for i
    using u that by (auto simp: UUID_PATTERN_def list_all_length nth_enumerate_eq split: if_splits)
  with u show ?thesis by (auto simp: hexdash36_def UUID_PATTERN_def list_all_length)
qed

lemma canonical_uuid:
  assumes "normalizeUuid v = Inr i"
  shows "UUID_PATTERN i" "hexdash36 i" "length i = 36"
proof -
  from assms show "UUID_PATTERN i" by (auto simp: normalizeUuid_Inr UUID_to_lower)
  then show "hexdash36 i" by (rule UUID_hexdash)
  then show "length i = 36" by (simp add: hexdash36_def)
qed

lemma to_lower_append: "to_lower (s @ t) = to_lower s @ to_lower t"
  by (simp add: to_lower_def)

lemma generation_name_router: "hexdash36 i \<Longrightarrow> router_name (generation_name i)"
  by (simp add: router_name_def GENERATION_FILE_PATTERN_def generation_name_def ends_with_nocase_def
      hexdash36_def to_lower_def lower1_def is_upper_def js_simps)

lemma generation_temp_router:
  "hexdash36 i \<Longrightarrow> hexdash36 t \<Longrightarrow>
     GENERATION_TEMP_PATTERN (generation_temp_name i t) \<and> router_name (generation_temp_name i t)"
  by (simp add: router_name_def GENERATION_TEMP_PATTERN_def generation_temp_name_def ends_with_nocase_def
      hexdash36_def to_lower_def lower1_def is_upper_def js_simps)

lemma pointer_temp_router:
  "hexdash36 t \<Longrightarrow> POINTER_TEMP_PATTERN (pointer_temp_name t) \<and> router_name (pointer_temp_name t)"
  by (simp add: router_name_def POINTER_TEMP_PATTERN_def pointer_temp_name_def ends_with_nocase_def
      starts_with_nocase_def hexdash36_def to_lower_def lower1_def is_upper_def js_simps)

lemma fixed_names_router [simp]:
  "router_name POINTER_FILE" "router_name GENERATION_DIRECTORY"
  "n \<in> set legacy_names \<Longrightarrow> router_name n"
  by (simp_all add: router_name_def)

lemma name_lengths:
  "length POINTER_FILE = 23" "length GENERATION_DIRECTORY = 27"
  "n \<in> set legacy_names \<Longrightarrow> length n \<in> {20, 26, 31}"
  "hexdash36 i \<Longrightarrow> length (generation_name i) = 41"
  "hexdash36 i \<Longrightarrow> hexdash36 t \<Longrightarrow> length (generation_temp_name i t) = 78"
  "hexdash36 t \<Longrightarrow> length (pointer_temp_name t) = 65"
  by (auto simp: POINTER_FILE_def GENERATION_DIRECTORY_def legacy_names_def generation_name_def
      generation_temp_name_def pointer_temp_name_def hexdash36_def js_simps)

section \<open>Two descriptions of the disk\<close>

definition commit_names :: "jstr \<Rightarrow> jstr \<Rightarrow> jstr \<Rightarrow> jstr set" where
  "commit_names gid gt pt = {gt, pt, GENERATION_DIRECTORY, generation_name gid}"

definition once_names :: "jstr \<Rightarrow> jstr set" where
  "once_names gid = {GENERATION_DIRECTORY, generation_name gid}"

definition old_disk :: "jstr \<Rightarrow> jstr \<Rightarrow> jstr \<Rightarrow> disk \<Rightarrow> disk \<Rightarrow> bool" where
  "old_disk gid gt pt d0 d \<longleftrightarrow> frame (Kz (commit_names gid gt pt)) (Lz (once_names gid)) d0 d"

text \<open>
  The generation directory is where it should be; with the flag, its entry is settled.
\<close>

definition gens_at :: "bool \<Rightarrow> nat \<Rightarrow> nat \<Rightarrow> disk \<Rightarrow> bool" where
  "gens_at b r gi d \<longleftrightarrow> k_root d = Some (DirN r) \<and> r < k_inode d \<and>
     entry d r GENERATION_DIRECTORY = Some (DirN gi) \<and> gi < k_inode d \<and>
     (b \<longrightarrow> cands d r GENERATION_DIRECTORY \<subseteq> {Some (DirN gi)})"

definition gens_settled :: "nat \<Rightarrow> disk \<Rightarrow> bool" where
  "gens_settled r d \<longleftrightarrow> cands d r GENERATION_DIRECTORY \<subseteq> {entry d r GENERATION_DIRECTORY}"

definition settled_file :: "nat \<Rightarrow> jstr \<Rightarrow> bytes \<Rightarrow> disk \<Rightarrow> bool" where
  "settled_file i n b d \<longleftrightarrow> i < k_inode d \<and>
     (\<exists>t. entry d i n = Some (FileN b t True) \<and> cands d i n \<subseteq> {Some (FileN b t True)})"

definition new_disk ::
    "jstr \<Rightarrow> jstr \<Rightarrow> jstr \<Rightarrow> nat \<Rightarrow> nat \<Rightarrow> bytes \<Rightarrow> bytes \<Rightarrow> disk \<Rightarrow> disk \<Rightarrow> bool" where
  "new_disk gid gt pt r gi gb pb d0 d \<longleftrightarrow>
     frame (Kz (insert POINTER_FILE (commit_names gid gt pt))) (Lz (once_names gid)) d0 d \<and>
     gens_at (gens_settled r d0) r gi d \<and> settled_file gi (generation_name gid) gb d \<and>
     (\<exists>t. entry d r POINTER_FILE = Some (FileN pb t True) \<and>
        cands d r POINTER_FILE \<subseteq> insert (Some (FileN pb t True)) (cands d0 r POINTER_FILE))"

lemma old_disk_refl: "old_disk gid gt pt d d"
  by (simp add: old_disk_def frame_refl)

lemma zstable_old:
  assumes "X \<subseteq> commit_names gid gt pt" and "once_names gid \<inter> X \<subseteq> Y"
  shows "zstable X Y (old_disk gid gt pt d0)"
proof -
  have "frame (Kz (commit_names gid gt pt)) (Lz (once_names gid)) d d'" if "frame (Kz X) (Lz Y) d d'" for d d'
    using that by (rule frame_mono) (use assms in \<open>auto simp: Kz_def Lz_def\<close>)
  then show ?thesis
    unfolding zstable_def old_disk_def by (blast intro: frame_trans)
qed

lemma zone_entry:
  "frame (Kz X) (Lz Y) d d' \<Longrightarrow> i < k_inode d \<Longrightarrow> router_name n \<Longrightarrow> n \<notin> X \<Longrightarrow>
     entry d' i n = entry d i n \<and> cands d' i n \<subseteq> cands d i n"
  by (simp add: frame_def Kz_def)

lemma zone_present:
  "frame (Kz X) (Lz Y) d d' \<Longrightarrow> i < k_inode d \<Longrightarrow> router_name n \<Longrightarrow> n \<in> Y \<Longrightarrow> entry d i n \<noteq> None \<Longrightarrow>
     entry d' i n = entry d i n \<and> cands d' i n \<subseteq> cands d i n"
  by (simp add: frame_def Lz_def)

lemma zstable_gens:
  assumes "GENERATION_DIRECTORY \<in> X \<longrightarrow> GENERATION_DIRECTORY \<in> Y"
  shows "zstable X Y (gens_at b r gi)"
  unfolding zstable_def
proof (intro allI impI)
  fix d d' assume g: "gens_at b r gi d" and f: "frame (Kz X) (Lz Y) d d'"
  have "entry d' r GENERATION_DIRECTORY = entry d r GENERATION_DIRECTORY \<and>
      cands d' r GENERATION_DIRECTORY \<subseteq> cands d r GENERATION_DIRECTORY"
    using g assms zone_entry [OF f, of r GENERATION_DIRECTORY] zone_present [OF f, of r GENERATION_DIRECTORY]
    by (cases "GENERATION_DIRECTORY \<in> X") (simp_all add: gens_at_def)
  with g f show "gens_at b r gi d'" by (auto simp: gens_at_def frame_def)
qed

lemma zstable_settled_file:
  assumes "router_name n" "n \<notin> X"
  shows "zstable X Y (settled_file i n b)"
  using assms by (fastforce simp: zstable_def frame_def Kz_def settled_file_def)

lemma zstable_new:
  assumes "X \<subseteq> {gt, pt}" "gt \<noteq> POINTER_FILE" "pt \<noteq> POINTER_FILE" "hexdash36 gid"
    "gt \<noteq> generation_name gid" "pt \<noteq> generation_name gid"
    "gt \<noteq> GENERATION_DIRECTORY" "pt \<noteq> GENERATION_DIRECTORY"
  shows "zstable X Y (new_disk gid gt pt r gi gb pb d0)"
  unfolding zstable_def
proof (intro allI impI)
  fix d d' assume n: "new_disk gid gt pt r gi gb pb d0 d" and f: "frame (Kz X) (Lz Y) d d'"
  from f have "frame (Kz (insert POINTER_FILE (commit_names gid gt pt))) (Lz (once_names gid)) d d'"
    by (rule frame_mono) (use assms in \<open>auto simp: Kz_def Lz_def commit_names_def once_names_def\<close>)
  moreover have "gens_at (gens_settled r d0) r gi d'"
    using zstable_gens [of X Y "gens_settled r d0" r gi] n f assms by (auto simp: zstable_def new_disk_def)
  moreover have "settled_file gi (generation_name gid) gb d'"
    using zstable_settled_file [OF generation_name_router [OF assms(4)], of X Y gi gb] n f assms
    by (auto simp: zstable_def new_disk_def)
  moreover have "entry d' r POINTER_FILE = entry d r POINTER_FILE \<and> cands d' r POINTER_FILE \<subseteq> cands d r POINTER_FILE"
  proof (rule zone_entry [OF f])
    show "r < k_inode d" using n by (simp add: new_disk_def gens_at_def)
  qed (use assms in auto)
  ultimately show "new_disk gid gt pt r gi gb pb d0 d'"
    using n unfolding new_disk_def by (auto intro: frame_trans)
qed

section \<open>Publishing\<close>

lemma locate_root: "k_root d = Some (DirN r) \<Longrightarrow> locate d (RootPath [n]) = Inr (r, n)"
  by simp

lemma locate_gens: "gens_at b r gi d \<Longrightarrow> locate d (RootPath [GENERATION_DIRECTORY, n]) = Inr (gi, n)"
  by (simp add: gens_at_def)

lemma node_at_gens: "gens_at b r gi d \<Longrightarrow> node_at d generationDirectory = Inr (DirN gi)"
  by (simp add: gens_at_def generationDirectory_def)

lemma keeps_assertPointerUnchanged [keeps_intro]:
  "rely K L M \<Longrightarrow> keeps M (wframe K L) (assertPointerUnchanged b)"
  unfolding assertPointerUnchanged_def by (intro combinators keeps_intro)

lemma outcome_thn_keep:
  fixes m :: "'a io"
  assumes "\<And>K L. rely K L M \<Longrightarrow> keeps M (wframe K L) m" and "calm M" and "zstable {} {} P"
    and "\<And>w. on P w \<Longrightarrow> I w" and "outcome M (on P) n Q (\<lambda>_. I) I"
  shows "outcome M (on P) (thn m n) Q (\<lambda>_. I) I"
  by (rule outcome_thn [OF outcome_weaken [OF outcome_calm [OF assms(1-3)]] assms(5)])
     (auto intro: assms(4))

lemma commit_name_facts:
  assumes "hexdash36 gid" "hexdash36 t1" "hexdash36 t2"
  defines "gt \<equiv> generation_temp_name gid t1" and "pt \<equiv> pointer_temp_name t2" and "gn \<equiv> generation_name gid"
  shows "router_name gt" "router_name pt" "router_name gn"
    "distinct [gt, pt, gn, GENERATION_DIRECTORY, POINTER_FILE]"
    "n \<in> set legacy_names \<Longrightarrow> n \<notin> {gt, pt, gn, GENERATION_DIRECTORY, POINTER_FILE}"
proof -
  show "router_name gt" "router_name pt" "router_name gn"
    using assms by (simp_all add: generation_temp_router pointer_temp_router generation_name_router)
  have l: "length gt = 78" "length pt = 65" "length gn = 41" "length GENERATION_DIRECTORY = 27"
      "length POINTER_FILE = 23"
    using assms by (simp_all add: name_lengths)
  show "distinct [gt, pt, gn, GENERATION_DIRECTORY, POINTER_FILE]"
    using l by (auto dest: arg_cong [where f = length])
  assume "n \<in> set legacy_names"
  from name_lengths(3) [OF this] l show "n \<notin> {gt, pt, gn, GENERATION_DIRECTORY, POINTER_FILE}"
    by auto
qed

text \<open>The states a commit passes through before the pointer is renamed.\<close>

definition ready :: "jstr \<Rightarrow> jstr \<Rightarrow> jstr \<Rightarrow> nat \<Rightarrow> nat \<Rightarrow> disk \<Rightarrow> disk \<Rightarrow> bool" where
  "ready gid gt pt r gi d0 d \<longleftrightarrow> old_disk gid gt pt d0 d \<and> gens_at (gens_settled r d0) r gi d"

lemma zstable_ready:
  assumes "X \<subseteq> {gt, pt}" "GENERATION_DIRECTORY \<notin> X" "generation_name gid \<notin> X"
  shows "zstable X {} (ready gid gt pt r gi d0)"
  unfolding ready_def
  by (rule zstable_conj [OF zstable_old zstable_gens])
     (use assms in \<open>auto simp: commit_names_def once_names_def\<close>)

lemma ready_old: "on (ready gid gt pt r gi d0) w \<Longrightarrow> on (old_disk gid gt pt d0) w"
  by (simp add: on_def ready_def)

lemma commit_absent:
  fixes r gi :: nat and d0 :: disk and gb pb :: bytes
  assumes M: "calm M" and i: "hexdash36 gid" "hexdash36 t1" "hexdash36 t2"
  defines "R \<equiv> ready gid (generation_temp_name gid t1) (pointer_temp_name t2) r gi d0"
  shows "outcome M (on R) (assertAbsent (generation_path gid))
     (\<lambda>_. on (\<lambda>d. R d \<and> (gi < k_inode d \<and> entry d gi (generation_name gid) = None)))
     (\<lambda>_. on R) (on R)"
proof -
  let ?P = "\<lambda>x d. R d \<and> (gi < k_inode d \<and> entry d gi (generation_name gid) = x)"
  have "outcome M (on (?P x)) (assertAbsent (generation_path gid)) (\<lambda>_. on (?P None)) (\<lambda>_. on R) (on R)" for x
  proof -
    have u: "undisturbed M (?P x)"
      by (rule zstable_calm [OF zstable_conj [OF _ zstable_entry] M, of "{}" "{}"])
         (auto simp: R_def intro!: zstable_ready generation_name_router i)
    have n: "node_at d (generation_path gid) = (case x of None \<Rightarrow> Inl ENOENT | Some v \<Rightarrow> Inr v)" if "?P x d" for d
      using that by (auto simp: R_def ready_def gens_at_def generation_path_def)
    show ?thesis
      by (rule outcome_weaken [OF assertAbsent_outcome [OF u n]])
         (auto simp: on_def split: option.split_asm)
  qed
  then have "outcome M (\<lambda>w. \<exists>x. on (?P x) w) (assertAbsent (generation_path gid)) (\<lambda>_. on (?P None)) (\<lambda>_. on R) (on R)"
    by (rule outcome_ex)
  then show ?thesis
    by (rule outcome_weaken) (auto simp: on_def R_def ready_def gens_at_def)
qed

lemma commit_write_generation:
  fixes r gi :: nat and d0 :: disk and gb pb :: bytes
  assumes M: "calm M" and i: "hexdash36 gid" "hexdash36 t1" "hexdash36 t2"
  defines "R \<equiv> ready gid (generation_temp_name gid t1) (pointer_temp_name t2) r gi d0"
  defines "B \<equiv> \<lambda>d. R d \<and> (gi < k_inode d \<and> entry d gi (generation_name gid) = None)"
  shows "outcome M (on B) (writeExclusiveFile (RootPath [GENERATION_DIRECTORY, generation_temp_name gid t1]) gb)
     (\<lambda>_. on (\<lambda>d. B d \<and> holds_synced gi (generation_temp_name gid t1) gb d)) (\<lambda>_. on B) (on B)"
proof (rule writeExclusiveFile_outcome [OF M, of _ "{}" "{}"])
  note f = commit_name_facts [OF i]
  show "router_name (generation_temp_name gid t1)" by (rule f)
  show "zstable (insert (generation_temp_name gid t1) {}) {} B"
    unfolding B_def R_def
    by (rule zstable_conj [OF zstable_ready zstable_entry]) (use f in auto)
qed (auto simp: B_def R_def ready_def gens_at_def)

lemma commit_rename_generation:
  fixes r gi :: nat and d0 :: disk and gb pb :: bytes
  assumes M: "calm M" and i: "hexdash36 gid" "hexdash36 t1" "hexdash36 t2"
  defines "R \<equiv> ready gid (generation_temp_name gid t1) (pointer_temp_name t2) r gi d0"
  defines "B \<equiv> \<lambda>d. R d \<and> (gi < k_inode d \<and> entry d gi (generation_name gid) = None)"
  shows "outcome M (on (\<lambda>d. B d \<and> holds_synced gi (generation_temp_name gid t1) gb d))
     (rename (RootPath [GENERATION_DIRECTORY, generation_temp_name gid t1]) (generation_path gid))
     (\<lambda>_. on (\<lambda>d. R d \<and> holds_synced gi (generation_name gid) gb d)) (\<lambda>_. on R) (on R)"
proof -
  let ?gt = "generation_temp_name gid t1" and ?gn = "generation_name gid"
  let ?C = "\<lambda>d. B d \<and> holds_synced gi ?gt gb d"
  note f = commit_name_facts [OF i]
  have u: "undisturbed M ?C"
    unfolding B_def R_def
    by (rule zstable_calm [OF zstable_conj [OF zstable_conj [OF zstable_ready zstable_entry] zstable_holds(2)] M,
          of "{}"]) (use f in auto)
  have "outcome M (on ?C) (rename (RootPath [GENERATION_DIRECTORY, ?gt]) (generation_path gid))
      (\<lambda>_. on (\<lambda>d. R d \<and> holds_synced gi ?gn gb d)) (\<lambda>_. on ?C) (on ?C)"
  proof (rule rename_outcome [OF M u])
    fix d v t
    assume d: "?C d" and v: "entry d gi ?gt = Some v"
    let ?d = "touch_dir gi t (touch_dir gi t (set_node gi ?gt None (set_node gi ?gn (Some v) d)))"
    have "frame (Kz (commit_names gid ?gt (pointer_temp_name t2))) (Lz (once_names gid)) d ?d"
      using d f
      by (intro frame_trans [OF frame_trans [OF frame_trans [OF frame_create frame_set_node] frame_touch] frame_touch])
         (auto simp: B_def Kz_def Lz_def commit_names_def once_names_def)
    moreover have "gens_at (gens_settled r d0) r gi ?d"
      using d f by (auto simp: B_def R_def ready_def gens_at_def cands_def)
    moreover have "holds_synced gi ?gn gb ?d"
      using d v f by (auto simp: holds_synced_def)
    ultimately show "R ?d \<and> holds_synced gi ?gn gb ?d"
      using d by (auto simp: B_def R_def ready_def old_disk_def intro: frame_trans)
  qed (use f in \<open>auto simp: B_def R_def ready_def gens_at_def generation_path_def\<close>)
  then show ?thesis by (rule outcome_weaken) (auto simp: on_def B_def)
qed

lemma commit_sync_generation:
  fixes r gi :: nat and d0 :: disk and gb pb :: bytes
  assumes M: "calm M" and i: "hexdash36 gid" "hexdash36 t1" "hexdash36 t2"
  defines "R \<equiv> ready gid (generation_temp_name gid t1) (pointer_temp_name t2) r gi d0"
  shows "outcome M (on (\<lambda>d. R d \<and> holds_synced gi (generation_name gid) gb d))
     (fsyncDirectory generationDirectory)
     (\<lambda>_. on (\<lambda>d. R d \<and> settled_file gi (generation_name gid) gb d)) (\<lambda>_. on R) (on R)"
proof -
  let ?gn = "generation_name gid"
  let ?P = "\<lambda>t d. R d \<and> (gi < k_inode d \<and> entry d gi ?gn = Some (FileN gb t True))"
  note f = commit_name_facts [OF i]
  have "outcome M (on (?P t)) (fsyncDirectory generationDirectory)
      (\<lambda>_. on (\<lambda>d. R d \<and> settled_file gi ?gn gb d)) (\<lambda>_. on R) (on R)" for t
  proof (rule outcome_weaken [OF fsyncDirectory_outcome [OF M, of "{}" "{}" "?P t"]])
    show "zstable {} {} (?P t)"
      unfolding R_def by (rule zstable_conj [OF zstable_ready zstable_entry]) (use f in auto)
    show "router_name ?gn" by (rule f)
    show "node_at d generationDirectory = Inr (DirN gi) \<and> gi < k_inode d \<and> entry d gi ?gn = Some (FileN gb t True)"
      if "?P t d" for d using that by (auto simp: R_def ready_def intro: node_at_gens)
  qed (auto simp: on_def settled_file_def)
  then have "outcome M (\<lambda>w. \<exists>t. on (?P t) w) (fsyncDirectory generationDirectory)
      (\<lambda>_. on (\<lambda>d. R d \<and> settled_file gi ?gn gb d)) (\<lambda>_. on R) (on R)"
    by (rule outcome_ex)
  then show ?thesis by (rule outcome_weaken) (auto simp: on_def holds_synced_def)
qed

lemma commit_write_pointer:
  fixes r gi :: nat and d0 :: disk and gb pb :: bytes
  assumes M: "calm M" and i: "hexdash36 gid" "hexdash36 t1" "hexdash36 t2"
  defines "R \<equiv> ready gid (generation_temp_name gid t1) (pointer_temp_name t2) r gi d0"
  defines "E \<equiv> \<lambda>d. R d \<and> settled_file gi (generation_name gid) gb d"
  shows "outcome M (on E) (writeExclusiveFile (RootPath [pointer_temp_name t2]) pb)
     (\<lambda>_. on (\<lambda>d. E d \<and> holds_synced r (pointer_temp_name t2) pb d)) (\<lambda>_. on E) (on E)"
proof (rule writeExclusiveFile_outcome [OF M, of _ "{}" "{}"])
  note f = commit_name_facts [OF i]
  show "router_name (pointer_temp_name t2)" by (rule f)
  show "zstable (insert (pointer_temp_name t2) {}) {} E"
    unfolding E_def R_def
    by (rule zstable_conj [OF zstable_ready zstable_settled_file]) (use f in auto)
qed (auto simp: E_def R_def ready_def gens_at_def)

lemma commit_rename_pointer:
  fixes r gi :: nat and d0 :: disk and gb pb :: bytes
  assumes M: "calm M" and i: "hexdash36 gid" "hexdash36 t1" "hexdash36 t2"
    and r: "r < k_inode d0"
  defines "R \<equiv> ready gid (generation_temp_name gid t1) (pointer_temp_name t2) r gi d0"
  defines "E \<equiv> \<lambda>d. R d \<and> settled_file gi (generation_name gid) gb d"
  shows "outcome M (on (\<lambda>d. E d \<and> holds_synced r (pointer_temp_name t2) pb d))
     (rename (RootPath [pointer_temp_name t2]) pointerPath)
     (\<lambda>_. on (new_disk gid (generation_temp_name gid t1) (pointer_temp_name t2) r gi gb pb d0))
     (\<lambda>_. on R) (on R)"
proof -
  let ?gt = "generation_temp_name gid t1" and ?pt = "pointer_temp_name t2" and ?gn = "generation_name gid"
  let ?F = "\<lambda>d. E d \<and> holds_synced r ?pt pb d"
  note f = commit_name_facts [OF i]
  have u: "undisturbed M ?F"
    unfolding E_def R_def
    by (rule zstable_calm [OF zstable_conj [OF zstable_conj [OF zstable_ready zstable_settled_file] zstable_holds(2)] M,
          of "{}"]) (use f in auto)
  have "outcome M (on ?F) (rename (RootPath [?pt]) pointerPath)
      (\<lambda>_. on (new_disk gid ?gt ?pt r gi gb pb d0)) (\<lambda>_. on ?F) (on ?F)"
  proof (rule rename_outcome [OF M u])
    fix d v t
    assume d: "?F d" and v: "entry d r ?pt = Some v"
    let ?d = "touch_dir r t (touch_dir r t (set_node r ?pt None (set_node r POINTER_FILE (Some v) d)))"
    let ?X = "insert POINTER_FILE (commit_names gid ?gt ?pt)"
    have fr: "frame (Kz (commit_names gid ?gt ?pt)) (Lz (once_names gid)) d0 d" and g: "gens_at (gens_settled r d0) r gi d"
      using d by (auto simp: E_def R_def ready_def old_disk_def)
    have "frame (Kz ?X) (Lz (once_names gid)) d0 d"
      using fr by (rule frame_mono) (auto simp: Kz_def Lz_def)
    moreover have "frame (Kz ?X) (Lz (once_names gid)) d ?d"
      using f by (intro frame_trans [OF frame_trans [OF frame_trans [OF frame_set_node frame_set_node] frame_touch] frame_touch])
         (auto simp: Kz_def Lz_def commit_names_def once_names_def)
    moreover have "gens_at (gens_settled r d0) r gi ?d" using g f by (auto simp: gens_at_def cands_def)
    moreover have "settled_file gi ?gn gb ?d"
      using d f by (auto simp: E_def settled_file_def cands_def)
    moreover obtain s where "v = FileN pb s True" using d v by (auto simp: holds_synced_def)
    moreover have "cands d r POINTER_FILE \<subseteq> cands d0 r POINTER_FILE"
      using zone_entry [OF fr r, of POINTER_FILE] f by (auto simp: commit_names_def)
    ultimately show "new_disk gid ?gt ?pt r gi gb pb d0 ?d"
      using f by (auto simp: new_disk_def cands_def intro: frame_trans)
  qed (use f in \<open>auto simp: E_def R_def ready_def gens_at_def pointerPath_def\<close>)
  then show ?thesis by (rule outcome_weaken) (auto simp: on_def E_def)
qed

lemma commit_publish:
  assumes M: "calm M" and i: "hexdash36 gid" "hexdash36 t1" "hexdash36 t2"
    and r: "r < k_inode d0" and g: "g_generationId g = gid"
  shows "outcome M (on (ready gid (generation_temp_name gid t1) (pointer_temp_name t2) r gi d0))
     (publishGeneration h g pointer expected
        (RootPath [GENERATION_DIRECTORY, generation_temp_name gid t1]) (RootPath [pointer_temp_name t2]))
     (\<lambda>_. on (new_disk gid (generation_temp_name gid t1) (pointer_temp_name t2) r gi
             (generation_bytes g) (pointer_bytes pointer) d0))
     (\<lambda>_. on (ready gid (generation_temp_name gid t1) (pointer_temp_name t2) r gi d0))
     (on (ready gid (generation_temp_name gid t1) (pointer_temp_name t2) r gi d0))"
    (is "outcome M (on ?R) _ (\<lambda>_. on ?New) _ _")
proof -
  let ?gt = "generation_temp_name gid t1" and ?pt = "pointer_temp_name t2" and ?gn = "generation_name gid"
  let ?B = "\<lambda>d. ?R d \<and> (gi < k_inode d \<and> entry d gi ?gn = None)"
  let ?C = "\<lambda>d. ?B d \<and> holds_synced gi ?gt (generation_bytes g) d"
  let ?E = "\<lambda>d. ?R d \<and> settled_file gi ?gn (generation_bytes g) d"
  let ?F = "\<lambda>d. ?E d \<and> holds_synced r ?pt (pointer_bytes pointer) d"
  note f = commit_name_facts [OF i]
  have zR: "zstable {} {} ?R" by (rule zstable_ready) auto
  have zB: "zstable {} {} ?B" by (rule zstable_conj [OF zR zstable_entry]) (use f in auto)
  have zC: "zstable {} {} ?C" by (rule zstable_conj [OF zB zstable_holds(2)]) (use f in auto)
  have zE: "zstable {} {} ?E" by (rule zstable_conj [OF zR zstable_settled_file]) (use f in auto)
  have zF: "zstable {} {} ?F" by (rule zstable_conj [OF zE zstable_holds(2)]) (use f in auto)
  have weak: "outcome M (on P) m Q (\<lambda>_. on P') (on P') \<Longrightarrow> (\<And>d. P' d \<Longrightarrow> ?R d) \<Longrightarrow>
      outcome M (on P) m Q (\<lambda>_. on ?R) (on ?R)" for P P' Q and m :: "'z io"
    by (erule outcome_weaken) (auto simp: on_def)
  have pointer: "outcome M (on ?E) (thn (assertRegularPathIfPresent pointerPath)
      (thn (assertPlatformRouterLockOwned h)
      (thn (writeExclusiveFile (RootPath [?pt]) (pointer_bytes pointer))
      (thn (assertPlatformRouterLockOwned h)
      (thn (assertPointerUnchanged expected) (rename (RootPath [?pt]) pointerPath))))))
      (\<lambda>_. on ?New) (\<lambda>_. on ?R) (on ?R)"
    by (intro outcome_thn_keep [OF keeps_assertRegularPathIfPresent M zE]
          outcome_thn_keep [OF keeps_assertOwned M zE]
          outcome_thn [OF weak [OF commit_write_pointer [OF M i]]]
          outcome_thn_keep [OF keeps_assertOwned M zF]
          outcome_thn_keep [OF keeps_assertPointerUnchanged M zF]
          commit_rename_pointer [OF M i r])
       (auto simp: on_def)
  have generation: "outcome M (on ?C) (thn (rename (RootPath [GENERATION_DIRECTORY, ?gt]) (generation_path gid))
      (fsyncDirectory generationDirectory)) (\<lambda>_. on ?E) (\<lambda>_. on ?R) (on ?R)"
    by (rule outcome_thn [OF commit_rename_generation [OF M i] commit_sync_generation [OF M i]])
  have assoc: "thn (thn a b) c = thn a (thn b c)" for a :: "'x io" and b :: "'y io" and c :: "'z io"
    by (auto simp: thn_def bnd_def fun_eq_iff split: prod.split outcome.split)
  show ?thesis
    unfolding publishGeneration_def Let_def g
    using outcome_thn [OF generation pointer]
    by (intro outcome_thn [OF commit_absent [OF M i]]
          outcome_thn_keep [OF keeps_assertOwned M zB]
          outcome_thn [OF weak [OF commit_write_generation [OF M i]]]
          outcome_thn_keep [OF keeps_assertOwned M zC])
       (auto simp: on_def assoc)
qed

section \<open>The generation directory\<close>

definition based :: "jstr \<Rightarrow> jstr \<Rightarrow> jstr \<Rightarrow> nat \<Rightarrow> disk \<Rightarrow> disk \<Rightarrow> bool" where
  "based gid gt pt r d0 d \<longleftrightarrow> old_disk gid gt pt d0 d \<and> k_root d = Some (DirN r) \<and> r < k_inode d \<and>
     (\<forall>gi. entry d r GENERATION_DIRECTORY = Some (DirN gi) \<longrightarrow> gi < k_inode d) \<and>
     (gens_settled r d0 \<longrightarrow> gens_settled r d)"

lemma zstable_based: "zstable {} {} (based gid gt pt r d0)"
  unfolding zstable_def based_def
proof (intro allI impI conjI; elim conjE)
  fix d d' assume f: "frame (Kz {}) (Lz {}) d d'" and r: "r < k_inode d" "k_root d = Some (DirN r)"
  show "k_root d' = Some (DirN r)" "r < k_inode d'" using f r by (auto simp: frame_def)
  assume "old_disk gid gt pt d0 d"
  with f show "old_disk gid gt pt d0 d'"
    using zstable_old [of "{}" gid gt pt "{}" d0] by (auto simp: zstable_def)
next
  fix d d' gi
  assume f: "frame (Kz {}) (Lz {}) d d'" and r: "r < k_inode d"
    and g: "\<forall>gi. entry d r GENERATION_DIRECTORY = Some (DirN gi) \<longrightarrow> gi < k_inode d"
    and e: "entry d' r GENERATION_DIRECTORY = Some (DirN gi)"
  from zone_entry [OF f r] e have "entry d r GENERATION_DIRECTORY = Some (DirN gi)" by simp
  with g f show "gi < k_inode d'" by (auto simp: frame_def)
next
  fix d d'
  assume f: "frame (Kz {}) (Lz {}) d d'" and r: "r < k_inode d"
    and "gens_settled r d0 \<longrightarrow> gens_settled r d" "gens_settled r d0"
  with zone_entry [OF f r, of GENERATION_DIRECTORY] show "gens_settled r d'"
    by (auto simp: gens_settled_def)
qed

lemma mkdir_outcome:
  assumes M: "calm M"
  shows "outcome M (on (\<lambda>d. based gid gt pt r d0 d \<and> (r < k_inode d \<and> entry d r GENERATION_DIRECTORY = None)))
     (mkdir generationDirectory) (\<lambda>_. on (\<lambda>d. \<exists>gi. old_disk gid gt pt d0 d \<and> gens_at False r gi d))
     (\<lambda>_. on (old_disk gid gt pt d0)) (on (old_disk gid gt pt d0))"
  unfolding mkdir_def
proof (rule outcome_sys)
  let ?P = "\<lambda>d. based gid gt pt r d0 d \<and> (r < k_inode d \<and> entry d r GENERATION_DIRECTORY = None)"
  show "undisturbed M ?P"
    by (rule zstable_calm [OF zstable_conj [OF zstable_based zstable_entry] M]) auto
  fix t x d'
  fix d :: disk
  assume d: "?P d"
  let ?e = "d\<lparr> k_inode := Suc (k_inode d), k_dirs := (k_dirs d)(k_inode d := []) \<rparr>"
  assume "rbind (locate d generationDirectory) (\<lambda>(i, n). case entry d i n of
       Some v \<Rightarrow> Inl EEXIST
     | None \<Rightarrow> (let j = k_inode d
          in Inr ((), touch_dir j (mc_nowMs M t) (touch_dir i (mc_nowMs M t)
               (set_node i n (Some (DirN j))
                 (d\<lparr> k_inode := Suc j, k_dirs := (k_dirs d)(j := []) \<rparr>)))))) = Inr (x, d')"
  with d have d': "d' = touch_dir (k_inode d) (mc_nowMs M t) (touch_dir r (mc_nowMs M t)
      (set_node r GENERATION_DIRECTORY (Some (DirN (k_inode d))) ?e))"
    by (auto simp: based_def generationDirectory_def Let_def)
  have "entry ?e r GENERATION_DIRECTORY = None" using d by (auto simp: entry_def)
  then have "frame (Kz (commit_names gid gt pt)) (Lz (once_names gid)) d d'"
    unfolding d'
    by (intro frame_trans [OF frame_trans [OF frame_fresh frame_create_touch] frame_touch])
       (auto simp: Kz_def commit_names_def)
  with d have "old_disk gid gt pt d0 d'" by (auto simp: based_def old_disk_def intro: frame_trans)
  moreover have "gens_at False r (k_inode d) d'" using d by (auto simp: d' gens_at_def based_def)
  ultimately show "\<exists>gi. old_disk gid gt pt d0 d' \<and> gens_at False r gi d'" by auto
qed (auto simp: based_def)

lemma zstable_some_ready: "zstable {} {} (\<lambda>d. \<exists>gi. ready gid gt pt r gi d0 d)"
  by (intro zstable_ex zstable_ready) auto

lemma ensure_outcome:
  assumes M: "calm M"
  shows "outcome M (on (based gid gt pt r d0)) ensureGenerationDirectory
     (\<lambda>_. on (\<lambda>d. \<exists>gi. ready gid gt pt r gi d0 d)) (\<lambda>_. on (old_disk gid gt pt d0)) (on (old_disk gid gt pt d0))"
proof -
  let ?B = "based gid gt pt r d0" and ?Old = "old_disk gid gt pt d0"
  let ?R = "\<lambda>d. \<exists>gi. ready gid gt pt r gi d0 d"
  let ?P = "\<lambda>x d. ?B d \<and> (r < k_inode d \<and> entry d r GENERATION_DIRECTORY = x)"
  have R_old: "on ?R w \<Longrightarrow> on ?Old w" for w by (auto simp: on_def ready_def)
  have make: "outcome M (on (?P None)) (thn (mkdir generationDirectory)
      (thn no_effect (fsyncDirectory (RootPath [])))) (\<lambda>_. on ?R) (\<lambda>_. on ?Old) (on ?Old)"
  proof (rule outcome_thn [OF mkdir_outcome [OF M]],
      rule outcome_thn_keep [OF keeps_readers(3) M zstable_ex])
    let ?G = "\<lambda>gi d. ?Old d \<and> gens_at False r gi d"
    show z: "zstable {} {} (?G gi)" for gi
      by (intro zstable_conj zstable_old zstable_gens) (auto simp: once_names_def)
    have "outcome M (on (?G gi)) (fsyncDirectory (RootPath [])) (\<lambda>_. on ?R) (\<lambda>_. on ?Old) (on ?Old)" for gi
      by (rule outcome_weaken [OF fsyncDirectory_outcome [OF M z, of GENERATION_DIRECTORY gi "RootPath []" r "Some (DirN gi)"]])
         (auto simp: on_def gens_at_def ready_def)
    then have "outcome M (\<lambda>w. \<exists>gi. on (?G gi) w) (fsyncDirectory (RootPath [])) (\<lambda>_. on ?R) (\<lambda>_. on ?Old) (on ?Old)"
      by (rule outcome_ex)
    then show "outcome M (on (\<lambda>d. \<exists>gi. ?G gi d)) (fsyncDirectory (RootPath [])) (\<lambda>_. on ?R) (\<lambda>_. on ?Old) (on ?Old)"
      by (rule outcome_weaken) (auto simp: on_def)
  qed (auto simp: on_def)
  have "outcome M (on (?P x)) ensureGenerationDirectory (\<lambda>_. on ?R) (\<lambda>_. on ?Old) (on ?Old)" for x
  proof -
    have u: "undisturbed M (?P x)"
      by (rule zstable_calm [OF zstable_conj [OF zstable_based zstable_entry] M]) auto
    have n: "?P x d \<Longrightarrow> node_at d generationDirectory = (case x of None \<Rightarrow> Inl ENOENT | Some v \<Rightarrow> Inr v)" for d
      by (auto simp: based_def generationDirectory_def)
    let ?Y = "\<lambda>e w. on (?P x) w \<and> (e = NodeError ENOENT \<longrightarrow> x = None)"
    have "outcome M (on (?P x)) (bnd (lstat generationDirectory) (\<lambda>(v, _). guard (is_directory v) CorruptionError))
        (\<lambda>_. on ?R) ?Y (on ?Old)"
    proof (rule outcome_bnd [OF outcome_weaken [OF outcome_lstat [OF u n],
            where Q = "\<lambda>y w. on (?P x) w \<and> x = Some (fst y)" and X = ?Y and C = "on ?Old"]])
      fix y
      show "outcome M (\<lambda>w. on (?P x) w \<and> x = Some (fst y)) (case y of (v, _) \<Rightarrow> guard (is_directory v) CorruptionError)
          (\<lambda>_. on ?R) ?Y (on ?Old)"
        by (cases y, cases "fst y")
           (auto intro!: outcome_guard simp: on_def based_def ready_def gens_at_def gens_settled_def)
    qed (auto simp: on_def based_def split: option.split_asm)
    then show ?thesis
      unfolding ensureGenerationDirectory_def
    proof (rule outcome_catch)
      fix e
      show "outcome M (?Y e) (if e \<noteq> NodeError ENOENT then throw e
          else thn (mkdir generationDirectory) (thn no_effect (fsyncDirectory (RootPath []))))
          (\<lambda>_. on ?R) (\<lambda>_. on ?Old) (on ?Old)"
      proof (cases "e = NodeError ENOENT")
        case True
        have "outcome M (\<lambda>w. on (?P x) w \<and> x = None) (thn (mkdir generationDirectory)
            (thn no_effect (fsyncDirectory (RootPath [])))) (\<lambda>_. on ?R) (\<lambda>_. on ?Old) (on ?Old)"
          by (rule outcome_pre) (use make in simp)
        with True show ?thesis by simp
      qed (auto intro!: outcome_throw simp: on_def based_def)
    qed
  qed
  then have "outcome M (\<lambda>w. \<exists>x. on (?P x) w) ensureGenerationDirectory (\<lambda>_. on ?R) (\<lambda>_. on ?Old) (on ?Old)"
    by (rule outcome_ex)
  then show ?thesis by (rule outcome_weaken) (auto simp: on_def based_def)
qed

section \<open>Errors before the pointer is renamed\<close>

lemma avoids_sys [avoids_intro]: "(\<And>c. e \<noteq> NodeError c) \<Longrightarrow> avoids M e (sys f)"
  by (auto simp: avoids_def sys_def Let_def split: fault.split sum.split prod.split)

lemmas sys_defs = lstat_def open_excl_def open_read_def open_append_def open_dir_def fstat_def
  fstat_dir_def no_effect_def close_fd_def write_fd_def read_fd_def read_all_def fsync_file_def
  fsync_dir_def unlink_def rename_def mkdir_def rmdir_def readdir_def

lemma avoids_writeAll [avoids_intro]: "avoids M CommitUncertainError (writeAll f bs)"
proof (induction f bs rule: writeAll.induct)
  case (1 f bs)
  then show ?case by (subst writeAll.simps) (auto intro!: avoids_intro simp: sys_defs)
qed

lemma avoids_helpers [avoids_intro]:
  "avoids M CommitUncertainError (assertRegularPathIfPresent p)"
  "avoids M CommitUncertainError (assertTrustedDirectory p)"
  "avoids M CommitUncertainError (assertAbsent p)"
  "avoids M CommitUncertainError (pathExists p)"
  "avoids M CommitUncertainError (fsyncDirectory p)"
  "avoids M CommitUncertainError (writeExclusiveFile p bs)"
  "avoids M CommitUncertainError (readRegularFile p b)"
  unfolding assertRegularPathIfPresent_def assertTrustedDirectory_def assertAbsent_def pathExists_def
    fsyncDirectory_def writeExclusiveFile_def readRegularFile_def sys_defs
  by (intro avoids_intro; simp)+

lemma avoids_owned [avoids_intro]:
  "avoids M CommitUncertainError (capability h)"
  "avoids M CommitUncertainError (resolveHandleEnvironment h)"
  "avoids M CommitUncertainError (assertPlatformRouterLockOwned h)"
  unfolding capability_def resolveHandleEnvironment_def assertPlatformRouterLockOwned_def
  by (auto simp: avoids_def get_def bnd_def guard_def ret_def throw_def catch_def
      split: option.split outcome.split prod.split)

lemma avoids_or_else [avoids_intro]: "e' \<noteq> e \<Longrightarrow> avoids M e (or_else r e')"
  by (cases r) (simp_all add: or_else_def avoids_intro)

lemma avoids_next_id [avoids_intro]: "avoids M e next_id" "avoids M e now_iso" "avoids M e now_ms"
  "avoids M e platform_of"
  by (simp_all add: avoids_def next_id_def now_iso_def now_ms_def platform_of_def get_def)

lemma avoids_mild [avoids_intro]: "mild r \<Longrightarrow> \<not> mild_error e \<Longrightarrow> avoids M e (lift_res r)"
  by (intro avoids_intro) (rule mild_not)

lemma avoids_read [avoids_intro]:
  "avoids M CommitUncertainError (generationPathFor i)"
  "avoids M CommitUncertainError (readRequired p)"
  unfolding generationPathFor_def readRequired_def
  by (intro avoids_intro mild_intro; simp)+

lemma avoids_commit_parts [avoids_intro]:
  "avoids M CommitUncertainError (normalized_generation input)"
  "avoids M CommitUncertainError (validateCommitParent i q)"
  "avoids M CommitUncertainError (assertPointerUnchanged b)"
  "avoids M CommitUncertainError ensureGenerationDirectory"
  "avoids M CommitUncertainError (removeRecognizedTemporary p)"
  unfolding normalized_generation_def validateCommitParent_def assertPointerUnchanged_def
    ensureGenerationDirectory_def removeRecognizedTemporary_def sys_defs
  by (intro avoids_intro mild_intro; simp)+

lemma avoids_publish [avoids_intro]:
  "avoids M CommitUncertainError (publishGeneration h g pointer b p1 p2)"
  "avoids M CommitUncertainError (cleanupCommit h p1 p2)"
  unfolding publishGeneration_def cleanupCommit_def Let_def rename_def
  by (intro avoids_intro; simp)+

text \<open>The clean-up of a failed commit throws nothing: it cannot mask the state of the commit.\<close>

lemma owned_only: "e \<noteq> LockOwnershipError \<Longrightarrow> avoids M e (assertPlatformRouterLockOwned h)"
  unfolding capability_def assertPlatformRouterLockOwned_def
  by (auto simp: avoids_def get_def bnd_def guard_def ret_def throw_def catch_def
      split: option.split outcome.split prod.split)

lemma catch_all: "(\<And>e'. avoids M e (h e')) \<Longrightarrow> avoids M e (catch m h)"
  by (auto simp: avoids_def catch_def split: prod.splits outcome.splits)

lemma cleanup_silent: "avoids M e (cleanupCommit h p1 p2)"
proof (cases "e = LockOwnershipError")
  case True
  then show ?thesis
    unfolding cleanupCommit_def by (auto intro!: catch_all avoids_intro)
next
  case False
  have "avoids M e (removeRecognizedTemporary p)" for p
    unfolding removeRecognizedTemporary_def by (auto intro!: catch_all avoids_intro)
  with False show ?thesis
    unfolding cleanupCommit_def by (intro avoids_intro owned_only) auto
qed

section \<open>The whole commit\<close>

text \<open>The generation a commit builds from its input.\<close>

definition generation_of :: "platform \<Rightarrow> PlatformRouterGenerationInput \<Rightarrow> PlatformRouterGeneration \<Rightarrow> bool" where
  "generation_of P input g \<longleftrightarrow>
     (\<exists>gid parent instant. decodeGeneration P (generation_json
        \<lparr> g_generationId = gid, g_parentGenerationId = parent, g_committedAt = instant,
          g_active = gi_active input, g_draft = gi_draft input, g_pendingAudit = gi_pendingAudit input \<rparr>)
        = Inr g)"

definition committable :: "platform \<Rightarrow> PlatformRouterGenerationInput \<Rightarrow> PlatformRouterGeneration \<Rightarrow> bool" where
  "committable P input g \<longleftrightarrow> generation_of P input g \<and> length (generation_bytes g) \<le> MAX_STATE_BYTES"

definition unchanged :: "disk \<Rightarrow> disk \<Rightarrow> bool" where
  "unchanged d0 d \<longleftrightarrow> (\<exists>gid t1 t2. hexdash36 gid \<and> hexdash36 t1 \<and> hexdash36 t2 \<and>
     old_disk gid (generation_temp_name gid t1) (pointer_temp_name t2) d0 d)"

definition replaced ::
    "nat \<Rightarrow> PlatformRouterGeneration \<Rightarrow> PlatformRouterPointer \<Rightarrow> disk \<Rightarrow> disk \<Rightarrow> bool" where
  "replaced r g p d0 d \<longleftrightarrow> (\<exists>t1 t2 gi. hexdash36 (g_generationId g) \<and> hexdash36 t1 \<and> hexdash36 t2 \<and>
     new_disk (g_generationId g) (generation_temp_name (g_generationId g) t1) (pointer_temp_name t2)
       r gi (generation_bytes g) (pointer_bytes p) d0 d)"

lemma returns_normalized:
  "returns M (normalized_generation input) (\<lambda>g. generation_of (mc_platform M) input g)"
  by (auto simp: returns_def normalized_generation_def generation_of_def bnd_def ret_def lift_res_def
      platform_of_def get_def throw_def split: prod.splits outcome.splits sum.splits)

lemma generation_of_hexdash: "generation_of P input g \<Longrightarrow> hexdash36 (g_generationId g)"
  by (auto simp: generation_of_def decodeGeneration_Inr dest: canonical_uuid(2))

lemma keeps_normalized [keeps_intro]:
  "keeps M (wframe K L) (normalized_generation input)"
  unfolding normalized_generation_def platform_of_def
  by (intro combinators keeps_intro)

lemma keeps_validate [keeps_intro]:
  "rely K L M \<Longrightarrow> keeps M (wframe K L) (validateCommitParent i q)"
  unfolding validateCommitParent_def platform_of_def generationPathFor_def readRequired_def or_else_def
  by (intro combinators keeps_intro) (auto split: sum.split intro: combinators)

lemma old_unchanged:
  "hexdash36 gid \<Longrightarrow> hexdash36 t1 \<Longrightarrow> hexdash36 t2 \<Longrightarrow>
     old_disk gid (generation_temp_name gid t1) (pointer_temp_name t2) d0 d \<Longrightarrow> unchanged d0 d"
  by (auto simp: unchanged_def)

lemma same_unchanged: "frame (Kz {}) (Lz {}) d0 d \<Longrightarrow> unchanged d0 d"
proof -
  assume "frame (Kz {}) (Lz {}) d0 d"
  then have "old_disk gid gt pt d0 d" for gid gt pt
    unfolding old_disk_def by (rule frame_mono) (auto simp: Kz_def Lz_def)
  moreover have "hexdash36 (replicate 36 48)" by (simp add: hexdash36_def list_all_iff is_hex_def is_hex_lower_def is_digit_def)
  ultimately show ?thesis unfolding unchanged_def by blast
qed

lemma keeps_removeTemporary:
  "rely K L M \<Longrightarrow> free_name K L (basename p) \<Longrightarrow> keeps M (wframe K L) (removeRecognizedTemporary p)"
  unfolding removeRecognizedTemporary_def by (intro combinators keeps_intro)

lemma cleanup_outcome:
  assumes M: "calm M" and z: "zstable {gt, pt} {} P"
  shows "outcome M (on P) (cleanupCommit h (RootPath [GENERATION_DIRECTORY, gt]) (RootPath [pt]))
     (\<lambda>_. on P) (\<lambda>_. on P) (on P)"
proof (rule outcome_keeps [OF _ z])
  show "keeps M (wframe (Kz {gt, pt}) (Lz {})) (cleanupCommit h (RootPath [GENERATION_DIRECTORY, gt]) (RootPath [pt]))"
    unfolding cleanupCommit_def
    by (intro combinators keeps_intro keeps_removeTemporary calm_rely M)
       (simp_all add: free_name_def Kz_def Lz_def)
qed

lemma sync_pointer:
  fixes r gi :: nat and d0 :: disk and gb pb :: bytes
  assumes M: "calm M" and i: "hexdash36 gid" "hexdash36 t1" "hexdash36 t2"
  defines "N \<equiv> new_disk gid (generation_temp_name gid t1) (pointer_temp_name t2) r gi gb pb d0"
  shows "outcome M (on N) (fsyncDirectory (RootPath []))
     (\<lambda>_. on (\<lambda>d. N d \<and> settled_file r POINTER_FILE pb d)) (\<lambda>_. on N) (on N)"
proof -
  note f = commit_name_facts [OF i]
  let ?P = "\<lambda>t d. N d \<and> (r < k_inode d \<and> entry d r POINTER_FILE = Some (FileN pb t True))"
  have z: "zstable {} {} N" unfolding N_def by (rule zstable_new) (use f i in auto)
  have "outcome M (on (?P t)) (fsyncDirectory (RootPath []))
      (\<lambda>_. on (\<lambda>d. N d \<and> settled_file r POINTER_FILE pb d)) (\<lambda>_. on N) (on N)" for t
  proof (rule outcome_weaken [OF fsyncDirectory_outcome [OF M, of "{}" "{}" "?P t"]])
    show "zstable {} {} (?P t)" by (rule zstable_conj [OF z zstable_entry]) auto
    show "router_name POINTER_FILE" by simp
    show "node_at d (RootPath []) = Inr (DirN r) \<and> r < k_inode d \<and> entry d r POINTER_FILE = Some (FileN pb t True)"
      if "?P t d" for d using that by (auto simp: N_def new_disk_def gens_at_def)
  qed (auto simp: on_def settled_file_def)
  then have "outcome M (\<lambda>w. \<exists>t. on (?P t) w) (fsyncDirectory (RootPath []))
      (\<lambda>_. on (\<lambda>d. N d \<and> settled_file r POINTER_FILE pb d)) (\<lambda>_. on N) (on N)"
    by (rule outcome_ex)
  then show ?thesis
    by (rule outcome_weaken) (auto simp: on_def N_def new_disk_def gens_at_def)
qed

lemma outcome_silent:
  assumes "\<And>e. avoids M e m" and "outcome M P m Q X C"
  shows "outcome M P m Q (\<lambda>e w. False) C"
  using assms unfolding avoids_def outcome_def by (fastforce split: prod.splits outcome.splits)

lemma attempt_outcome:
  assumes "outcome M P m Q X C"
  shows "outcome M P (attempt m) (\<lambda>y w. case y of Inl e \<Rightarrow> X e w | Inr x \<Rightarrow> Q x w) Z C"
  unfolding attempt_def
  by (rule outcome_catch [OF outcome_bnd [OF assms outcome_ret]]) (auto intro: outcome_ret)

text \<open>From the point where the generation directory exists to the end of the commit.\<close>

definition finish_commit ::
    "PlatformRouterLockHandle \<Rightarrow> PlatformRouterGeneration \<Rightarrow> PlatformRouterPointer \<Rightarrow> bytes option \<Rightarrow>
     path \<Rightarrow> path \<Rightarrow> PlatformRouterSnapshot io" where
  "finish_commit h g pointer expected p1 p2 =
     bnd (attempt (publishGeneration h g pointer expected p1 p2)) (\<lambda>published. case published of
         Inl cause \<Rightarrow> thn (cleanupCommit h p1 p2) (wrap_as TransactionError cause)
       | Inr _ \<Rightarrow>
           bnd (attempt (catch (fsyncDirectory (RootPath [])) (\<lambda>e. throw CommitUncertainError)))
             (\<lambda>synced. case synced of
               Inl cause \<Rightarrow> thn (cleanupCommit h p1 p2) (throw cause)
             | Inr _ \<Rightarrow> ret (snapshotFromGeneration g pointer)))"

lemma finish_outcome:
  fixes r gi :: nat and d0 :: disk
  assumes M: "calm M" and i: "hexdash36 (g_generationId g)" "hexdash36 t1" "hexdash36 t2"
    and r: "r < k_inode d0"
  defines "gt \<equiv> generation_temp_name (g_generationId g) t1" and "pt \<equiv> pointer_temp_name t2"
  shows "outcome M (on (ready (g_generationId g) gt pt r gi d0))
     (finish_commit h g pointer expected (RootPath [GENERATION_DIRECTORY, gt]) (RootPath [pt]))
     (\<lambda>s. on (\<lambda>d. s = snapshotFromGeneration g pointer \<and> replaced r g pointer d0 d \<and>
            settled_file r POINTER_FILE (pointer_bytes pointer) d))
     (\<lambda>e. on (\<lambda>d. if e = CommitUncertainError then replaced r g pointer d0 d else unchanged d0 d))
     (on (\<lambda>d. unchanged d0 d \<or> replaced r g pointer d0 d))"
    (is "outcome M _ _ ?Q ?X ?C")
proof -
  let ?R = "ready (g_generationId g) gt pt r gi d0"
  let ?N = "new_disk (g_generationId g) gt pt r gi (generation_bytes g) (pointer_bytes pointer) d0"
  let ?clean = "cleanupCommit h (RootPath [GENERATION_DIRECTORY, gt]) (RootPath [pt])"
  note f = commit_name_facts [OF i, folded gt_def pt_def]
  have R: "?R d \<Longrightarrow> unchanged d0 d" for d
    using old_unchanged [OF i] by (simp add: ready_def gt_def pt_def)
  have N: "?N d \<Longrightarrow> replaced r g pointer d0 d" for d
    using i by (auto simp: replaced_def gt_def pt_def)
  have zR: "zstable {gt, pt} {} ?R" by (rule zstable_ready) (use f in auto)
  have zN: "zstable {gt, pt} {} ?N" by (rule zstable_new) (use f i in auto)
  have old: "outcome M (\<lambda>w. on ?R w \<and> e \<noteq> CommitUncertainError) (thn ?clean (wrap_as TransactionError e)) ?Q ?X ?C" for e
  proof (rule outcome_pre, rule outcome_thn [where R = "on ?R"])
    have "outcome M (on ?R) ?clean (\<lambda>_. on ?R) (\<lambda>e w. on ?R w \<and> e \<noteq> CommitUncertainError) (on ?R)"
      by (rule outcome_avoids [OF avoids_publish(2) cleanup_outcome [OF M zR]])
    then show "outcome M (on ?R) ?clean (\<lambda>_. on ?R) ?X ?C"
      by (rule outcome_weaken) (auto simp: on_def R)
    assume "e \<noteq> CommitUncertainError"
    then show "outcome M (on ?R) (wrap_as TransactionError e) ?Q ?X ?C"
      by (auto simp: wrap_as_def on_def R intro!: outcome_throw)
  qed
  have unsure: "outcome M (\<lambda>w. on ?N w \<and> e = CommitUncertainError) (thn ?clean (throw e)) ?Q ?X ?C" for e
  proof (rule outcome_pre, rule outcome_thn [where R = "on ?N"])
    assume e: "e = CommitUncertainError"
    show "outcome M (on ?N) (throw e) ?Q ?X ?C" by (rule outcome_throw) (simp add: e on_def N)
    show "outcome M (on ?N) ?clean (\<lambda>_. on ?N) ?X ?C"
      by (rule outcome_weaken [OF outcome_silent [OF cleanup_silent cleanup_outcome [OF M zN]]])
         (auto simp: on_def N)
  qed
  have sync: "outcome M (on ?N) (attempt (catch (fsyncDirectory (RootPath [])) (\<lambda>e. throw CommitUncertainError)))
      (\<lambda>y w. case y of
         Inl e \<Rightarrow> on ?N w \<and> e = CommitUncertainError
       | Inr _ \<Rightarrow> on (\<lambda>d. ?N d \<and> settled_file r POINTER_FILE (pointer_bytes pointer) d) w) ?X ?C"
    by (rule outcome_weaken [OF attempt_outcome [OF outcome_catch [OF
            sync_pointer [OF M i, folded gt_def pt_def] outcome_throw]]])
       (auto simp: on_def N split: sum.split)
  have publish: "outcome M (on ?R) (attempt (publishGeneration h g pointer expected
        (RootPath [GENERATION_DIRECTORY, gt]) (RootPath [pt])))
      (\<lambda>y w. case y of Inl e \<Rightarrow> on ?R w \<and> e \<noteq> CommitUncertainError | Inr _ \<Rightarrow> on ?N w) ?X ?C"
    by (rule outcome_weaken [OF attempt_outcome [OF outcome_avoids [OF avoids_publish(1)
            commit_publish [OF M i r refl, folded gt_def pt_def]]]])
       (auto simp: on_def R split: sum.split)
  show ?thesis
    unfolding finish_commit_def
  proof (rule outcome_bnd [OF publish])
    fix y :: "router_error + unit"
    show "outcome M (\<lambda>w. case y of Inl e \<Rightarrow> on ?R w \<and> e \<noteq> CommitUncertainError | Inr _ \<Rightarrow> on ?N w)
        (case y of Inl cause \<Rightarrow> thn ?clean (wrap_as TransactionError cause)
         | Inr _ \<Rightarrow> bnd (attempt (catch (fsyncDirectory (RootPath [])) (\<lambda>e. throw CommitUncertainError)))
             (\<lambda>synced. case synced of Inl cause \<Rightarrow> thn ?clean (throw cause)
               | Inr _ \<Rightarrow> ret (snapshotFromGeneration g pointer))) ?Q ?X ?C"
    proof (cases y)
      case (Inl e)
      then show ?thesis using old [of e] by simp
    next
      case (Inr u)
      have "outcome M (\<lambda>w. case z of Inl e \<Rightarrow> on ?N w \<and> e = CommitUncertainError
            | Inr _ \<Rightarrow> on (\<lambda>d. ?N d \<and> settled_file r POINTER_FILE (pointer_bytes pointer) d) w)
          (case z of Inl cause \<Rightarrow> thn ?clean (throw cause) | Inr _ \<Rightarrow> ret (snapshotFromGeneration g pointer))
          ?Q ?X ?C" for z :: "router_error + unit"
        using unsure by (cases z) (auto simp: on_def N intro!: outcome_ret)
      from outcome_bnd [OF sync this] Inr show ?thesis by (simp only: sum.case)
    qed
  qed
qed

text \<open>The facts the whole argument is about: how a commit may end, from disk \<open>d0\<close>.\<close>

definition ends_committed ::
    "platform \<Rightarrow> PlatformRouterGenerationInput \<Rightarrow> nat \<Rightarrow> disk \<Rightarrow> PlatformRouterSnapshot \<Rightarrow> world \<Rightarrow> bool" where
  "ends_committed P input r d0 s w \<longleftrightarrow>
     (\<exists>g. committable P input g \<and> s = snapshotFromGeneration g (pointer_to P g) \<and>
        replaced r g (pointer_to P g) d0 (w_disk w) \<and>
        settled_file r POINTER_FILE (pointer_bytes (pointer_to P g)) (w_disk w))"

definition may_have_committed ::
    "platform \<Rightarrow> PlatformRouterGenerationInput \<Rightarrow> nat \<Rightarrow> disk \<Rightarrow> world \<Rightarrow> bool" where
  "may_have_committed P input r d0 w \<longleftrightarrow>
     (\<exists>g. committable P input g \<and> replaced r g (pointer_to P g) d0 (w_disk w))"

definition ends_failed ::
    "platform \<Rightarrow> PlatformRouterGenerationInput \<Rightarrow> nat \<Rightarrow> disk \<Rightarrow> router_error \<Rightarrow> world \<Rightarrow> bool" where
  "ends_failed P input r d0 e w \<longleftrightarrow>
     (if e = CommitUncertainError then may_have_committed P input r d0 w else unchanged d0 (w_disk w))"

definition ends_dead ::
    "platform \<Rightarrow> PlatformRouterGenerationInput \<Rightarrow> nat \<Rightarrow> disk \<Rightarrow> world \<Rightarrow> bool" where
  "ends_dead P input r d0 w \<longleftrightarrow> unchanged d0 (w_disk w) \<or> may_have_committed P input r d0 w"

definition wf_store :: "nat \<Rightarrow> disk \<Rightarrow> bool" where
  "wf_store r d \<longleftrightarrow> k_root d = Some (DirN r) \<and> r < k_inode d \<and>
     (\<forall>gi. follow (entry d r GENERATION_DIRECTORY) = Inr gi \<longrightarrow> gi < k_inode d)"

abbreviation "same_store d0 \<equiv> frame (Kz {}) (Lz {}) d0"

lemma zstable_same: "zstable {} {} (same_store d0)"
  by (auto simp: zstable_def intro: frame_trans)

lemma same_based:
  assumes "wf_store r d0" and "same_store d0 d"
  shows "based gid gt pt r d0 d"
proof -
  have "entry d r GENERATION_DIRECTORY = entry d0 r GENERATION_DIRECTORY"
    using assms zone_entry [of "{}" "{}" d0 d r GENERATION_DIRECTORY] by (auto simp: wf_store_def)
  moreover have "old_disk gid gt pt d0 d"
    unfolding old_disk_def by (rule frame_mono [OF assms(2)]) (auto simp: Kz_def Lz_def)
  moreover have "gi < k_inode d0" if "entry d0 r GENERATION_DIRECTORY = Some (DirN gi)" for gi
    using assms(1) that by (simp add: wf_store_def)
  moreover have "k_inode d0 \<le> k_inode d" "k_root d = k_root d0" using assms(2) by (auto simp: frame_def)
  moreover have "cands d r GENERATION_DIRECTORY \<subseteq> cands d0 r GENERATION_DIRECTORY"
    using assms zone_entry [of "{}" "{}" d0 d r GENERATION_DIRECTORY] by (auto simp: wf_store_def)
  ultimately show ?thesis
    using assms(1) by (auto simp: based_def wf_store_def gens_settled_def intro: less_le_trans)
qed

lemma outcome_all:
  assumes "\<And>a. outcome M P m (Q a) X C"
  shows "outcome M P m (\<lambda>x w. \<forall>a. Q a x w) X C"
  unfolding outcome_def
proof (intro allI impI)
  fix w assume w: "P w"
  obtain o' w' where o: "m M w = (o', w')" by fastforce
  have "case m M w of (Ret x, w') \<Rightarrow> Q a x w' | (Throw e, w') \<Rightarrow> X e w' | (Crash, w') \<Rightarrow> C w'" for a
    using assms [of a] w by (simp add: outcome_def)
  then show "case m M w of (Ret x, w') \<Rightarrow> \<forall>a. Q a x w' | (Throw e, w') \<Rightarrow> X e w' | (Crash, w') \<Rightarrow> C w'"
    by (cases o') (simp_all add: o)
qed

lemma outcome_bnd_keep:
  fixes m :: "'a io"
  assumes "\<And>K L. rely K L M \<Longrightarrow> keeps M (wframe K L) m" and "avoids M CommitUncertainError m"
    and "returns M m A" and "calm M" and "zstable {} {} I" and "\<And>d. I d \<Longrightarrow> unchanged d0 d"
    and "\<And>x. A x \<Longrightarrow> outcome M (on I) (f x) Q (ends_failed P input r d0) (ends_dead P input r d0)"
  shows "outcome M (on I) (bnd m f) Q (ends_failed P input r d0) (ends_dead P input r d0)"
proof (rule outcome_bnd)
  have "outcome M (on I) m (\<lambda>x w. on I w \<and> A x) (\<lambda>e w. on I w \<and> e \<noteq> CommitUncertainError) (on I)"
    by (intro outcome_avoids outcome_returns outcome_calm [OF assms(1,4,5)] assms(2,3))
  then show "outcome M (on I) m (\<lambda>x w. on I w \<and> A x) (ends_failed P input r d0) (ends_dead P input r d0)"
    by (rule outcome_weaken) (auto simp: on_def ends_failed_def ends_dead_def assms(6))
  show "outcome M (\<lambda>w. on I w \<and> A x) (f x) Q (ends_failed P input r d0) (ends_dead P input r d0)" for x
    by (rule outcome_pre) (rule assms(7))
qed

lemmas outcome_bnd_keep' = outcome_bnd_keep [OF _ _ returns_any]

lemma outcome_thn_keep':
  fixes m :: "'a io"
  assumes "\<And>K L. rely K L M \<Longrightarrow> keeps M (wframe K L) m" and "avoids M CommitUncertainError m"
    and "calm M" and "zstable {} {} I" and "\<And>d. I d \<Longrightarrow> unchanged d0 d"
    and "outcome M (on I) n Q (ends_failed P input r d0) (ends_dead P input r d0)"
  shows "outcome M (on I) (thn m n) Q (ends_failed P input r d0) (ends_dead P input r d0)"
  unfolding thn_def by (intro outcome_bnd_keep' assms)

lemma returns_uuid: "returns M (lift_res (normalizeUuid v)) hexdash36"
  by (auto simp: returns_def lift_res_def ret_def throw_def split: sum.splits dest: canonical_uuid(2))

lemma returns_platform: "returns M platform_of (\<lambda>P. P = mc_platform M)"
  by (simp add: returns_def platform_of_def get_def)

lemma keeps_platform [keeps_intro]: "keeps M (wframe K L) platform_of"
  unfolding platform_of_def by (rule fr.keeps_get)

lemma outcome_guard_keep:
  assumes "e \<noteq> CommitUncertainError" and "\<And>d. I d \<Longrightarrow> unchanged d0 d"
    and "b \<Longrightarrow> outcome M (on I) n Q (ends_failed P input r d0) (ends_dead P input r d0)"
  shows "outcome M (on I) (thn (guard b e) n) Q (ends_failed P input r d0) (ends_dead P input r d0)"
proof (rule outcome_thn [where R = "\<lambda>w. on I w \<and> b"])
  show "outcome M (on I) (guard b e) (\<lambda>_ w. on I w \<and> b) (ends_failed P input r d0) (ends_dead P input r d0)"
    by (rule outcome_guard) (auto simp: on_def ends_failed_def assms(1,2))
qed (intro outcome_pre assms(3))

definition publish_phase ::
    "PlatformRouterLockHandle \<Rightarrow> PlatformRouterGeneration \<Rightarrow> platform \<Rightarrow> bytes option \<Rightarrow> PlatformRouterSnapshot io" where
  "publish_phase h g P expected =
     thn ensureGenerationDirectory
    (bnd next_id (\<lambda>i1. bnd (lift_res (normalizeUuid (Some (JStr i1)))) (\<lambda>t1.
     bnd next_id (\<lambda>i2. bnd (lift_res (normalizeUuid (Some (JStr i2)))) (\<lambda>t2.
     finish_commit h g (pointer_to P g) expected
       (RootPath [GENERATION_DIRECTORY, generation_temp_name (g_generationId g) t1])
       (RootPath [pointer_temp_name t2]))))))"

lemma commit_phases:
  "commitGeneration input h =
     thn (resolveHandleEnvironment h)
    (thn (assertPlatformRouterLockOwned h)
    (bnd (normalized_generation input) (\<lambda>g.
     thn (guard (length (generation_bytes g) \<le> MAX_STATE_BYTES) ValidationError)
    (bnd (validateCommitParent (g_generationId g) (g_parentGenerationId g)) (\<lambda>expected.
     bnd platform_of (\<lambda>P.
     thn (assertPlatformRouterLockOwned h)
         (publish_phase h g P expected)))))))"
  unfolding commitGeneration_def publish_phase_def finish_commit_def Let_def ..

lemma publish_outcome:
  assumes M: "calm M" and wf: "wf_store r d0" and g: "committable P input g" and P: "P = mc_platform M"
  shows "outcome M (on (same_store d0)) (publish_phase h g P expected)
     (ends_committed P input r d0) (ends_failed P input r d0) (ends_dead P input r d0)"
proof -
  let ?gid = "g_generationId g"
  let ?A = "\<lambda>d. \<forall>gt pt. \<exists>gi. ready ?gid gt pt r gi d0 d"
  have gid: "hexdash36 ?gid" using g by (auto simp: committable_def intro: generation_of_hexdash)
  have r: "r < k_inode d0" using wf by (simp add: wf_store_def)
  have zA: "zstable {} {} ?A"
    unfolding zstable_def
    by (intro allI impI) (metis zstable_some_ready [unfolded zstable_def])
  have A: "unchanged d0 d" if "?A d" for d
    using that old_unchanged [OF gid gid gid] by (auto simp: ready_def)
  have old: "unchanged d0 d" if "old_disk ?gid (generation_temp_name ?gid ?gid) (pointer_temp_name ?gid) d0 d" for d
    by (rule old_unchanged [OF gid gid gid that])
  have "outcome M (on (same_store d0)) ensureGenerationDirectory
      (\<lambda>_ w. \<forall>a. case a of (gt, pt) \<Rightarrow> on (\<lambda>d. \<exists>gi. ready ?gid gt pt r gi d0 d) w)
      (ends_failed P input r d0) (ends_dead P input r d0)"
  proof (rule outcome_all, clarify)
    fix gt pt
    have e: "outcome M (on (same_store d0)) ensureGenerationDirectory
        (\<lambda>_. on (\<lambda>d. \<exists>gi. ready ?gid gt pt r gi d0 d))
        (\<lambda>_. on (old_disk ?gid gt pt d0)) (on (old_disk ?gid gt pt d0))" for gt pt
      by (rule outcome_weaken [OF ensure_outcome [OF M]]) (auto simp: on_def intro: same_based [OF wf])
    show "outcome M (on (same_store d0)) ensureGenerationDirectory
        (\<lambda>_. on (\<lambda>d. \<exists>gi. ready ?gid gt pt r gi d0 d)) (ends_failed P input r d0) (ends_dead P input r d0)"
      by (rule outcome_weaken [OF outcome_conj [OF e [of gt pt] outcome_avoids [OF avoids_commit_parts(4)
              e [of "generation_temp_name ?gid ?gid" "pointer_temp_name ?gid"]]]])
         (auto simp: on_def ends_failed_def ends_dead_def old)
  qed
  then have ensure: "outcome M (on (same_store d0)) ensureGenerationDirectory (\<lambda>_. on ?A)
      (ends_failed P input r d0) (ends_dead P input r d0)"
    by (rule outcome_weaken) (auto simp: on_def)
  have finish: "outcome M (on ?A) (finish_commit h g (pointer_to P g) expected
        (RootPath [GENERATION_DIRECTORY, generation_temp_name ?gid t1]) (RootPath [pointer_temp_name t2]))
      (ends_committed P input r d0) (ends_failed P input r d0) (ends_dead P input r d0)"
    if t: "hexdash36 t1" "hexdash36 t2" for t1 t2
  proof -
    have "outcome M (\<lambda>w. \<exists>gi. on (ready ?gid (generation_temp_name ?gid t1) (pointer_temp_name t2) r gi d0) w)
        (finish_commit h g (pointer_to P g) expected
          (RootPath [GENERATION_DIRECTORY, generation_temp_name ?gid t1]) (RootPath [pointer_temp_name t2]))
        (ends_committed P input r d0) (ends_failed P input r d0) (ends_dead P input r d0)"
      by (rule outcome_ex, rule outcome_weaken [OF finish_outcome [OF M gid t r]])
         (use g in \<open>auto simp: on_def ends_committed_def ends_failed_def ends_dead_def may_have_committed_def\<close>)
    then show ?thesis by (rule outcome_weaken) (auto simp: on_def)
  qed
  show ?thesis
    unfolding publish_phase_def
    by (intro outcome_thn [OF ensure]
          outcome_bnd_keep' [OF keeps_next_id avoids_next_id(1) M zA A]
          outcome_bnd_keep [OF fr.keeps_lift avoids_mild returns_uuid M zA A] finish)
       (auto intro: mild_intro)
qed

lemma commit_outcome:
  assumes M: "calm M" and wf: "wf_store r d0" and P: "P = mc_platform M"
  shows "outcome M (on (same_store d0)) (commitGeneration input h)
     (ends_committed P input r d0) (ends_failed P input r d0) (ends_dead P input r d0)"
  unfolding commit_phases
  by (intro outcome_thn_keep' [OF keeps_resolveHandle avoids_owned(2) M zstable_same same_unchanged]
        outcome_thn_keep' [OF keeps_assertOwned avoids_owned(3) M zstable_same same_unchanged]
        outcome_bnd_keep [OF keeps_normalized avoids_commit_parts(1) returns_normalized M zstable_same same_unchanged]
        outcome_guard_keep [OF _ same_unchanged]
        outcome_bnd_keep' [OF keeps_validate avoids_commit_parts(2) M zstable_same same_unchanged]
        outcome_bnd_keep [OF keeps_platform avoids_next_id(4) returns_platform M zstable_same same_unchanged])
     (simp_all add: publish_outcome [OF M wf] P committable_def)

end
