(* ===== verification/Router_View.thy ===== *)
theory Router_View
  imports Router_Commit
begin

text \<open>
  The snapshot a disk shows, as a function; \<open>readCurrentSnapshot\<close> computes it. The descriptions
  of the disk during a commit (\<open>unchanged\<close>, \<open>replaced\<close>) determine the snapshot shown, also
  after a loss of power.
\<close>

section \<open>The visible snapshot\<close>

definition entry_node :: "node option \<Rightarrow> errno + node" where
  "entry_node x = (case x of None \<Rightarrow> Inl ENOENT | Some v \<Rightarrow> Inr v)"

definition file_of :: "disk \<Rightarrow> nat \<Rightarrow> jstr \<Rightarrow> router_error + bytes option" where
  "file_of d i n = regular (entry_node (entry d i n))"

definition generation_file :: "disk \<Rightarrow> nat \<Rightarrow> jstr \<Rightarrow> router_error + bytes" where
  "generation_file d r i =
     (case follow (entry d r GENERATION_DIRECTORY) of
        Inl c \<Rightarrow> Inl CorruptionError
      | Inr gi \<Rightarrow> required (file_of d gi (generation_name i)))"

definition checked_generation ::
    "platform \<Rightarrow> PlatformRouterPointer \<Rightarrow> bytes \<Rightarrow> router_error + PlatformRouterSnapshot" where
  "checked_generation P p gb =
     (if sha256 P gb \<noteq> p_sha256 p then Inl CorruptionError
      else case rbind (parseStrictJson gb) (decodeGeneration P) of
        Inl e \<Rightarrow> Inl CorruptionError
      | Inr g \<Rightarrow> if g_generationId g = p_generationId p then Inr (snapshotFromGeneration g p)
                else Inl CorruptionError)"

definition visible_at :: "platform \<Rightarrow> nat \<Rightarrow> disk \<Rightarrow> router_error + PlatformRouterSnapshot" where
  "visible_at P r d =
     rbind (file_of d r POINTER_FILE) (\<lambda>pb. case pb of
       None \<Rightarrow>
         rbind (file_of d r (js ''platform-router.json'')) (\<lambda>activeRaw.
         rbind (file_of d r (js ''platform-router.draft.json'')) (\<lambda>draftRaw.
         rbind (file_of d r (js ''platform-router.draft.meta.json'')) (\<lambda>metadataRaw.
         rbind (file_of d r (js ''platform-router.draft.test.json'')) (\<lambda>attestationRaw.
         legacySnapshot P activeRaw draftRaw metadataRaw attestationRaw))))
     | Some bs \<Rightarrow>
         (case rbind (parseStrictJson bs) decodePointer of
            Inl e \<Rightarrow> Inl CorruptionError
          | Inr p \<Rightarrow> rbind (generation_file d r (p_generationId p)) (checked_generation P p)))"

definition visible :: "platform \<Rightarrow> disk \<Rightarrow> router_error + PlatformRouterSnapshot" where
  "visible P d =
     (case k_root d of
        None \<Rightarrow> Inl TransactionError
      | Some v \<Rightarrow> (case v of DirN r \<Rightarrow> visible_at P r d | _ \<Rightarrow> Inl CorruptionError))"

section \<open>Reading computes it\<close>

lemma computes_trusted:
  assumes "quiet M"
  shows "computes M (assertTrustedDirectory (RootPath [])) w
     (case k_root (w_disk w) of None \<Rightarrow> Inl TransactionError | Some v \<Rightarrow> ensure (is_directory v) CorruptionError)"
proof -
  have "computes M (assertTrustedDirectory (RootPath [])) w
     (rbind (case node_error (rbind (node_at (w_disk w) (RootPath [])) (\<lambda>v. Inr (v, node_mtime (w_disk w) v))) of
          Inl e \<Rightarrow> Inl TransactionError | Inr x \<Rightarrow> Inr x)
        (\<lambda>(v, _). ensure (is_directory v) CorruptionError))"
    unfolding assertTrustedDirectory_def
    by (intro computes_bnd computes_catch computes_lstat assms computes_throw)
       (auto split: prod.split intro: computes_guard)
  then show ?thesis by (cases "k_root (w_disk w)") (simp_all add: node_error_def)
qed

lemma computes_root_file:
  assumes "quiet M" and "k_root (w_disk w) = Some (DirN r)"
  shows "computes M (readRegularFile (RootPath [n]) True) w (file_of (w_disk w) r n)"
  using computes_readRegularFile [OF assms(1), of "RootPath [n]" True w] assms(2)
  by (simp add: file_of_def entry_node_def split: sum.splits option.splits)

lemma computes_generation_file:
  assumes "quiet M" and "k_root (w_disk w) = Some (DirN r)"
  shows "computes M (readRequired (generation_path i)) w (generation_file (w_disk w) r i)"
proof -
  let ?d = "w_disk w"
  let ?reg = "regular (node_at ?d (generation_path i))"
  have "computes M (readRequired (generation_path i)) w
     (rbind (case ?reg of Inr None \<Rightarrow> Inl CorruptionError | r \<Rightarrow> r)
        (\<lambda>b. case b of None \<Rightarrow> Inl PlainError | Some bs \<Rightarrow> Inr bs))"
    unfolding readRequired_def
    by (intro computes_bnd computes_readRegularFile [OF assms(1), of "generation_path i" False w, unfolded if_False])
       (auto simp: generation_path_def split: option.split intro: computes_ret computes_throw)
  moreover have "rbind (case ?reg of Inr None \<Rightarrow> Inl CorruptionError | r \<Rightarrow> r)
        (\<lambda>b. case b of None \<Rightarrow> Inl PlainError | Some bs \<Rightarrow> Inr bs) = generation_file ?d r i"
    using assms(2)
    by (cases "follow (entry ?d r GENERATION_DIRECTORY)")
       (auto simp: generation_file_def generation_path_def file_of_def entry_node_def required_def
        regular_def rbind_def split: option.split sum.split node.split)
  ultimately show ?thesis by simp
qed

lemma computes_legacy:
  assumes "quiet M" and r: "k_root (w_disk w) = Some (DirN r)"
  shows "computes M readLegacySnapshot w
     (rbind (file_of (w_disk w) r (js ''platform-router.json'')) (\<lambda>activeRaw.
      rbind (file_of (w_disk w) r (js ''platform-router.draft.json'')) (\<lambda>draftRaw.
      rbind (file_of (w_disk w) r (js ''platform-router.draft.meta.json'')) (\<lambda>metadataRaw.
      rbind (file_of (w_disk w) r (js ''platform-router.draft.test.json'')) (\<lambda>attestationRaw.
      legacySnapshot (mc_platform M) activeRaw draftRaw metadataRaw attestationRaw)))))"
proof -
  have "computes M (bnd platform_of (\<lambda>P. lift_res (legacySnapshot P a b c e))) w
      (rbind (Inr (mc_platform M)) (\<lambda>P. legacySnapshot P a b c e))" for a b c e
    unfolding platform_of_def by (intro computes_bnd computes_get computes_lift) simp
  then show ?thesis
    unfolding readLegacySnapshot_def readLegacyEntry_def
    by (intro computes_bnd computes_root_file assms) simp
qed

lemma computes_checked:
  "computes M (thn (guard (sha256 P gb = p_sha256 p) CorruptionError)
      (bnd (or_else (rbind (parseStrictJson gb) (decodeGeneration P)) CorruptionError) (\<lambda>g.
       thn (guard (g_generationId g = p_generationId p) CorruptionError)
           (ret (snapshotFromGeneration g p))))) w (checked_generation P p gb)"
proof -
  let ?dec = "rbind (parseStrictJson gb) (decodeGeneration P)"
  have "computes M (thn (guard (sha256 P gb = p_sha256 p) CorruptionError)
      (bnd (or_else ?dec CorruptionError) (\<lambda>g.
       thn (guard (g_generationId g = p_generationId p) CorruptionError)
           (ret (snapshotFromGeneration g p))))) w
     (rbind (ensure (sha256 P gb = p_sha256 p) CorruptionError) (\<lambda>_.
      rbind (case ?dec of Inl _ \<Rightarrow> Inl CorruptionError | Inr x \<Rightarrow> Inr x) (\<lambda>g.
      rbind (ensure (g_generationId g = p_generationId p) CorruptionError) (\<lambda>_.
      Inr (snapshotFromGeneration g p)))))"
    by (intro computes_thn computes_bnd computes_guard computes_or_else computes_ret)
  moreover have "rbind (ensure (sha256 P gb = p_sha256 p) CorruptionError) (\<lambda>_.
      rbind (case ?dec of Inl _ \<Rightarrow> Inl CorruptionError | Inr x \<Rightarrow> Inr x) (\<lambda>g.
      rbind (ensure (g_generationId g = p_generationId p) CorruptionError) (\<lambda>_.
      Inr (snapshotFromGeneration g p)))) = checked_generation P p gb"
    by (cases ?dec) (simp_all add: checked_generation_def ensure_def)
  ultimately show ?thesis by simp
qed

lemma computes_pointer:
  assumes q: "quiet M" and r: "k_root (w_disk w) = Some (DirN r)"
  shows "computes M
     (bnd (or_else (rbind (parseStrictJson pb) decodePointer) CorruptionError) (\<lambda>pointer.
      bnd (generationPathFor (p_generationId pointer)) (\<lambda>gp.
      bnd (readRequired gp) (\<lambda>gb.
      thn (guard (sha256 P gb = p_sha256 pointer) CorruptionError)
     (bnd (or_else (rbind (parseStrictJson gb) (decodeGeneration P)) CorruptionError) (\<lambda>g.
      thn (guard (g_generationId g = p_generationId pointer) CorruptionError)
          (ret (snapshotFromGeneration g pointer)))))))) w
     (case rbind (parseStrictJson pb) decodePointer of
        Inl e \<Rightarrow> Inl CorruptionError
      | Inr p \<Rightarrow> rbind (generation_file (w_disk w) r (p_generationId p)) (checked_generation P p))"
proof (cases "rbind (parseStrictJson pb) decodePointer")
  case (Inl e)
  then show ?thesis by (auto simp: or_else_def computes_def bnd_def throw_def)
next
  case (Inr p)
  then have "normalizeUuid (Some (JStr (p_generationId p))) = Inr (p_generationId p)"
    by (auto simp: rbind_Inr pointer_ok_def dest: decodePointer_ok)
  then have path: "computes M (generationPathFor (p_generationId p)) w (Inr (generation_path (p_generationId p)))"
    by (auto simp: generationPathFor_def lift_res_def computes_def bnd_def ret_def)
  have "computes M (bnd (generationPathFor (p_generationId p)) (\<lambda>gp.
      bnd (readRequired gp) (\<lambda>gb.
      thn (guard (sha256 P gb = p_sha256 p) CorruptionError)
     (bnd (or_else (rbind (parseStrictJson gb) (decodeGeneration P)) CorruptionError) (\<lambda>g.
      thn (guard (g_generationId g = p_generationId p) CorruptionError)
          (ret (snapshotFromGeneration g p))))))) w
     (rbind (Inr (generation_path (p_generationId p)))
        (\<lambda>_. rbind (generation_file (w_disk w) r (p_generationId p)) (checked_generation P p)))"
    by (intro computes_bnd [OF path] computes_bnd computes_checked)
       (auto intro: computes_generation_file [OF q r])
  with Inr show ?thesis by (simp add: or_else_def bnd_def ret_def)
qed

lemma computes_current:
  assumes q: "quiet M"
  shows "computes M readCurrentSnapshot w (visible (mc_platform M) (w_disk w))"
proof (cases "\<exists>r. k_root (w_disk w) = Some (DirN r)")
  case False
  obtain e where e: "visible (mc_platform M) (w_disk w) = Inl e"
    "(case k_root (w_disk w) of None \<Rightarrow> Inl TransactionError
      | Some v \<Rightarrow> ensure (is_directory v) CorruptionError) = Inl e"
  proof (cases "k_root (w_disk w)")
    case None
    with that show ?thesis by (simp add: visible_def)
  next
    case (Some v)
    with that False show ?thesis by (cases v) (simp_all add: visible_def)
  qed
  have "computes M (assertTrustedDirectory (RootPath [])) w (Inl e)"
    using computes_trusted [OF q, of w] by (simp only: e(2))
  from computes_bnd [OF this] show ?thesis
    unfolding readCurrentSnapshot_def thn_def e(1) by simp
next
  case True
  then obtain r where r: "k_root (w_disk w) = Some (DirN r)" by blast
  have t: "computes M (assertTrustedDirectory (RootPath [])) w (Inr ())"
    using computes_trusted [OF q, of w] r by simp
  have p: "computes M platform_of w (Inr (mc_platform M))"
    unfolding platform_of_def by (rule computes_get) simp
  have "computes M readCurrentSnapshot w (rbind (Inr ()) (\<lambda>_. rbind (Inr (mc_platform M)) (\<lambda>P.
      rbind (file_of (w_disk w) r POINTER_FILE) (\<lambda>pb. case pb of
        None \<Rightarrow> rbind (file_of (w_disk w) r (js ''platform-router.json'')) (\<lambda>activeRaw.
          rbind (file_of (w_disk w) r (js ''platform-router.draft.json'')) (\<lambda>draftRaw.
          rbind (file_of (w_disk w) r (js ''platform-router.draft.meta.json'')) (\<lambda>metadataRaw.
          rbind (file_of (w_disk w) r (js ''platform-router.draft.test.json'')) (\<lambda>attestationRaw.
          legacySnapshot (mc_platform M) activeRaw draftRaw metadataRaw attestationRaw))))
      | Some bs \<Rightarrow> (case rbind (parseStrictJson bs) decodePointer of
          Inl e \<Rightarrow> Inl CorruptionError
        | Inr p \<Rightarrow> rbind (generation_file (w_disk w) r (p_generationId p)) (checked_generation P p))))))"
    unfolding readCurrentSnapshot_def pointerPath_def
    by (intro computes_thn computes_bnd t p computes_root_file q r)
       (auto split: option.split intro: computes_legacy [OF q r] computes_pointer [OF q r])
  then show ?thesis by (simp add: visible_def visible_at_def r)
qed

section \<open>What the view depends on\<close>

definition agrees :: "disk \<Rightarrow> disk \<Rightarrow> nat \<Rightarrow> jstr \<Rightarrow> bool" where
  "agrees d d' i n \<longleftrightarrow> follow (entry d' i n) = follow (entry d i n) \<and> file_of d' i n = file_of d i n"

lemma agrees_same: "entry d' i n = entry d i n \<Longrightarrow> agrees d d' i n"
  by (simp add: agrees_def file_of_def)

lemma required_present: "required (file_of d i n) = Inr b \<Longrightarrow> entry d i n \<noteq> None"
  by (cases "entry d i n") (auto simp: required_def file_of_def entry_node_def regular_def)

lemma follow_present: "follow x = Inr i \<Longrightarrow> x \<noteq> None"
  by (cases x) auto

lemma visible_at_agrees:
  assumes vis: "visible_at P r d = Inr s"
    and pointer: "agrees d d' r POINTER_FILE"
    and legacy: "\<And>n. n \<in> set legacy_names \<Longrightarrow> agrees d d' r n"
    and gens: "entry d r GENERATION_DIRECTORY \<noteq> None \<Longrightarrow> agrees d d' r GENERATION_DIRECTORY"
    and files: "\<And>gi i. follow (entry d r GENERATION_DIRECTORY) = Inr gi \<Longrightarrow> hexdash36 i \<Longrightarrow>
        entry d gi (generation_name i) \<noteq> None \<Longrightarrow> agrees d d' gi (generation_name i)"
  shows "visible_at P r d' = Inr s"
proof -
  from vis obtain pb where pb: "file_of d r POINTER_FILE = Inr pb"
    by (auto simp: visible_at_def rbind_Inr)
  with pointer have pb': "file_of d' r POINTER_FILE = Inr pb" by (simp add: agrees_def)
  show ?thesis
  proof (cases pb)
    case None
    have "file_of d' r n = file_of d r n" if "n \<in> set legacy_names" for n
      using legacy [OF that] by (simp add: agrees_def)
    with vis pb pb' None show ?thesis
      by (simp add: visible_at_def legacy_names_def)
  next
    case (Some bs)
    with vis pb obtain p gb where p: "rbind (parseStrictJson bs) decodePointer = Inr p"
      and g: "generation_file d r (p_generationId p) = Inr gb" "checked_generation P p gb = Inr s"
      by (auto simp: visible_at_def rbind_Inr split: sum.split_asm)
    from p have "hexdash36 (p_generationId p)"
      by (auto simp: rbind_Inr pointer_ok_def dest!: decodePointer_ok intro: canonical_uuid(2))
    moreover from g(1) obtain gi where gi: "follow (entry d r GENERATION_DIRECTORY) = Inr gi"
        "required (file_of d gi (generation_name (p_generationId p))) = Inr gb"
      by (auto simp: generation_file_def split: sum.split_asm)
    ultimately have "agrees d d' gi (generation_name (p_generationId p))"
      using files required_present by blast
    moreover have "agrees d d' r GENERATION_DIRECTORY" using gens follow_present [OF gi(1)] .
    ultimately have "generation_file d' r (p_generationId p) = Inr gb"
      using gi by (simp add: generation_file_def agrees_def)
    with Some pb' p g(2) show ?thesis by (simp add: visible_at_def)
  qed
qed

lemma visible_Inr: "visible P d = Inr s \<longleftrightarrow> (\<exists>r. k_root d = Some (DirN r) \<and> visible_at P r d = Inr s)"
  by (auto simp: visible_def split: option.split node.split)

text \<open>The store keeps its entries, its pointer apart: enough for the rest of the view.\<close>

lemma zone_agrees:
  assumes f: "frame (Kz (insert POINTER_FILE (commit_names gid gt pt))) (Lz (once_names gid)) d0 d"
    and i: "hexdash36 gid" "hexdash36 t1" "hexdash36 t2"
    and names: "gt = generation_temp_name gid t1" "pt = pointer_temp_name t2"
    and wf: "wf_store r d0"
    and keep: "\<And>i n. i < k_inode d0 \<Longrightarrow> router_name n \<Longrightarrow> entry d i n = entry d0 i n \<Longrightarrow>
        cands d i n \<subseteq> cands d0 i n \<Longrightarrow> agrees d0 d' i n"
    and pointer: "agrees d0 d' r POINTER_FILE"
    and vis: "visible_at P r d0 = Inr s"
  shows "visible_at P r d' = Inr s"
proof (rule visible_at_agrees [OF vis pointer])
  note nf = commit_name_facts [OF i, folded names]
  have r: "r < k_inode d0" using wf by (simp add: wf_store_def)
  show "agrees d0 d' r n" if n: "n \<in> set legacy_names" for n
  proof -
    have "router_name n" "n \<notin> insert POINTER_FILE (commit_names gid gt pt)"
      using nf(5) [OF n] n by (auto simp: commit_names_def)
    then show ?thesis using zone_entry [OF f r] keep [OF r] by blast
  qed
  show "agrees d0 d' r GENERATION_DIRECTORY" if "entry d0 r GENERATION_DIRECTORY \<noteq> None"
    using zone_present [OF f r, of GENERATION_DIRECTORY] that keep [OF r] by (simp add: once_names_def)
  fix gi j
  assume gi: "follow (entry d0 r GENERATION_DIRECTORY) = Inr gi" and j: "hexdash36 j"
    and e: "entry d0 gi (generation_name j) \<noteq> None"
  from wf gi have g: "gi < k_inode d0" by (simp add: wf_store_def)
  have rn: "router_name (generation_name j)" by (rule generation_name_router [OF j])
  show "agrees d0 d' gi (generation_name j)"
  proof (cases "generation_name j = generation_name gid")
    case True
    then show ?thesis using zone_present [OF f g rn] e keep [OF g rn] by (simp add: once_names_def)
  next
    case False
    have "length (generation_name j) = 41" using j by (simp add: name_lengths)
    then have "generation_name j \<notin> insert POINTER_FILE (commit_names gid gt pt)"
      using False name_lengths(1,2) name_lengths(5) [OF i(1,2)] name_lengths(6) [OF i(3)]
      by (auto simp: commit_names_def names)
    then show ?thesis using zone_entry [OF f g rn] keep [OF g rn] by blast
  qed
qed

section \<open>Before, after, and after a loss of power\<close>

lemma old_frame:
  "old_disk gid gt pt d0 d \<Longrightarrow>
     frame (Kz (insert POINTER_FILE (commit_names gid gt pt))) (Lz (once_names gid)) d0 d"
  unfolding old_disk_def by (erule frame_mono) (auto simp: Kz_def Lz_def)

lemma old_pointer:
  assumes "old_disk gid gt pt d0 d" and "hexdash36 gid" "hexdash36 t1" "hexdash36 t2"
    and "gt = generation_temp_name gid t1" "pt = pointer_temp_name t2" and "wf_store r d0"
  shows "entry d r POINTER_FILE = entry d0 r POINTER_FILE \<and> cands d r POINTER_FILE \<subseteq> cands d0 r POINTER_FILE"
proof (rule zone_entry [OF assms(1) [unfolded old_disk_def]])
  show "POINTER_FILE \<notin> commit_names gid gt pt"
    using commit_name_facts(4) [OF assms(2-4)] assms(5,6) by (auto simp: commit_names_def)
qed (use assms(7) in \<open>simp_all add: wf_store_def\<close>)

lemma visible_unchanged:
  assumes u: "unchanged d0 d" and wf: "wf_store r d0" and vis: "visible P d0 = Inr s"
  shows "visible P d = Inr s"
proof -
  from u obtain gid t1 t2 where i: "hexdash36 gid" "hexdash36 t1" "hexdash36 t2"
    and o: "old_disk gid (generation_temp_name gid t1) (pointer_temp_name t2) d0 d"
    by (auto simp: unchanged_def)
  from vis wf have v: "visible_at P r d0 = Inr s" by (auto simp: visible_Inr wf_store_def)
  have "visible_at P r d = Inr s"
    by (rule zone_agrees [OF old_frame [OF o] i refl refl wf _ _ v])
       (use old_pointer [OF o i refl refl wf] in \<open>auto intro: agrees_same\<close>)
  moreover have "k_root d = Some (DirN r)" using o wf by (auto simp: old_disk_def frame_def wf_store_def)
  ultimately show ?thesis by (simp add: visible_Inr)
qed

definition synced :: "node option \<Rightarrow> bool" where
  "synced x \<longleftrightarrow> (case x of Some (FileN b t s) \<Rightarrow> s | _ \<Rightarrow> True)"

text \<open>A store at rest: nothing a loss of power could take back.\<close>

definition settled_store :: "disk \<Rightarrow> bool" where
  "settled_store d \<longleftrightarrow> (\<forall>i n. i < k_inode d \<longrightarrow> router_name n \<longrightarrow>
     cands d i n \<subseteq> {entry d i n} \<and> synced (entry d i n))"

lemma loss_agrees:
  assumes "node_after_loss x y" and "synced x"
  shows "follow y = follow x \<and> regular (entry_node y) = regular (entry_node x)"
  using assms
  by (cases "(x, y)" rule: node_after_loss.cases)
     (auto simp: synced_def entry_node_def regular_def)

lemma power_loss_agrees:
  assumes "power_loss d d'" and "cands d i n \<subseteq> {entry d0 i n}" and "synced (entry d0 i n)"
  shows "agrees d0 d' i n"
proof -
  from assms(1) obtain c where "c \<in> cands d i n" "node_after_loss c (entry d' i n)"
    by (auto simp: power_loss_def)
  with assms(2,3) show ?thesis
    using loss_agrees [of "entry d0 i n" "entry d' i n"] by (auto simp: agrees_def file_of_def)
qed

lemma settled_keep:
  assumes "settled_store d0" and "power_loss d d'" and "i < k_inode d0" and "router_name n"
    and "cands d i n \<subseteq> cands d0 i n"
  shows "agrees d0 d' i n"
  using assms by (intro power_loss_agrees [OF assms(2)]) (auto simp: settled_store_def)

lemma visible_unchanged_loss:
  assumes u: "unchanged d0 d" and wf: "wf_store r d0" and vis: "visible P d0 = Inr s"
    and set: "settled_store d0" and loss: "power_loss d d'"
  shows "visible P d' = Inr s"
proof -
  from u obtain gid t1 t2 where i: "hexdash36 gid" "hexdash36 t1" "hexdash36 t2"
    and o: "old_disk gid (generation_temp_name gid t1) (pointer_temp_name t2) d0 d"
    by (auto simp: unchanged_def)
  from vis wf have v: "visible_at P r d0 = Inr s" by (auto simp: visible_Inr wf_store_def)
  have "visible_at P r d' = Inr s"
    by (rule zone_agrees [OF old_frame [OF o] i refl refl wf _ _ v])
       (use settled_keep [OF set loss] old_pointer [OF o i refl refl wf] wf in \<open>auto simp: wf_store_def\<close>)
  moreover have "k_root d' = Some (DirN r)"
    using o wf loss by (auto simp: old_disk_def frame_def wf_store_def power_loss_def)
  ultimately show ?thesis by (simp add: visible_Inr)
qed

text \<open>The parameters of the platform: SHA-256 prints 64 hexadecimal digits.\<close>

definition sha_law :: "platform \<Rightarrow> bool" where
  "sha_law P \<longleftrightarrow> (\<forall>b. SHA256_PATTERN (sha256 P b))"

definition generation_ok :: "platform \<Rightarrow> PlatformRouterGeneration \<Rightarrow> bool" where
  "generation_ok P g \<longleftrightarrow> generation_fixed P g \<and> wf_json (generation_json g) \<and>
     length (generation_bytes g) \<le> MAX_STATE_BYTES"

lemma decode_generation_bytes:
  assumes "generation_ok P g"
  shows "rbind (parseStrictJson (generation_bytes g)) (decodeGeneration P) = Inr g"
proof -
  obtain m where "generation_json g = JObj m" by (simp add: generation_json_def)
  with assms have "parseStrictJson (generation_bytes g) = Inr (generation_json g)"
    unfolding generation_bytes_def by (intro parseStrictJson_line) (auto simp: generation_ok_def)
  then show ?thesis using assms by (simp add: generation_ok_def generation_fixed_decode)
qed

lemma pointer_to_ok: "generation_ok P g \<Longrightarrow> sha_law P \<Longrightarrow> pointer_ok (pointer_to P g)"
  by (simp add: pointer_ok_def pointer_to_def generation_ok_def generation_fixed_def sha_law_def)

lemma decode_pointer_bytes:
  assumes "pointer_ok p"
  shows "rbind (parseStrictJson (pointer_bytes p)) decodePointer = Inr p"
proof -
  obtain m where m: "pointer_json p = JObj m" by (simp add: pointer_json_def)
  have "parseStrictJson (pointer_bytes p) = Inr (pointer_json p)"
    unfolding pointer_bytes_def by (rule parseStrictJson_line [OF pointer_wf [OF assms] m])
  with assms show ?thesis by (simp add: pointer_ok_decode)
qed

text \<open>Strings that are printed as they are.\<close>

definition plain :: "nat \<Rightarrow> bool" where
  "plain c \<longleftrightarrow> 32 \<le> c \<and> c < 128 \<and> c \<noteq> 34 \<and> c \<noteq> 92"

lemma quote_plain: "list_all plain s \<Longrightarrow> quote_body s = s"
  by (induction s) (auto simp: plain_def is_high_def is_low_def quote_unit_def)

lemma utf8_plain: "list_all (\<lambda>c. c < 128) s \<Longrightarrow> utf8_encode s = s"
  by (induction s) (simp_all add: encode_ascii)

lemma plain_hexdash: "hexdash36 s \<Longrightarrow> list_all plain s"
  by (auto simp: hexdash36_def list_all_iff plain_def is_hex_def is_hex_lower_def is_digit_def)

lemma plain_sha: "SHA256_PATTERN s \<Longrightarrow> list_all plain s"
  by (auto simp: SHA256_PATTERN_def list_all_iff plain_def is_hex_lower_def is_digit_def)

lemma plain_ascii: "list_all plain s \<Longrightarrow> list_all (\<lambda>c. c < 128) s"
  by (auto simp: list_all_iff plain_def)

lemma length_pointer:
  assumes "pointer_ok p"
  shows "length (pointer_bytes p) \<le> MAX_STATE_BYTES"
proof -
  have g: "hexdash36 (p_generationId p)" and h: "SHA256_PATTERN (p_sha256 p)"
    using assms by (auto simp: pointer_ok_def intro: canonical_uuid(2))
  have one: "stringify one = [49]"
    by (simp add: one_def num_of_int_def dec.simps [of 1] abs_text_def Let_def show_nat.simps [of "Suc 0"])
  have k: "quote (js ''schemaVersion'') = [34] @ js ''schemaVersion'' @ [34]"
    "quote (js ''generationId'') = [34] @ js ''generationId'' @ [34]"
    "quote (js ''sha256'') = [34] @ js ''sha256'' @ [34]"
    unfolding quote_def by (subst quote_plain; simp add: js_simps plain_def)+
  have s: "stringify (pointer_json p) = [123, 34] @ js ''schemaVersion'' @ [34, 58, 49, 44, 34] @
      js ''generationId'' @ [34, 58, 34] @ p_generationId p @ [34, 44, 34] @
      js ''sha256'' @ [34, 58, 34] @ p_sha256 p @ [34, 125]"
    by (simp add: pointer_json_def one k quote_def [of "p_generationId p"] quote_def [of "p_sha256 p"]
        quote_plain plain_hexdash [OF g] plain_sha [OF h])
  have "list_all (\<lambda>c. c < 128) (stringify (pointer_json p) @ [10])"
    using plain_ascii [OF plain_hexdash [OF g]] plain_ascii [OF plain_sha [OF h]]
    by (simp add: s js_simps)
  then have "pointer_bytes p = stringify (pointer_json p) @ [10]"
    unfolding pointer_bytes_def json_line_def by (rule utf8_plain)
  then show ?thesis
    using g h by (simp add: s js_simps hexdash36_def SHA256_PATTERN_def MAX_STATE_BYTES_def)
qed

section \<open>After a commit\<close>

lemma visible_new:
  assumes "generation_ok P g" and "sha_law P" and "k_root d = Some (DirN r)"
    and "file_of d r POINTER_FILE = Inr (Some (pointer_bytes (pointer_to P g)))"
    and "follow (entry d r GENERATION_DIRECTORY) = Inr gi"
    and "file_of d gi (generation_name (g_generationId g)) = Inr (Some (generation_bytes g))"
  shows "visible P d = Inr (snapshotFromGeneration g (pointer_to P g))"
proof -
  have "generation_file d r (g_generationId g) = Inr (generation_bytes g)"
    using assms(5,6) by (simp add: generation_file_def required_def)
  moreover have "checked_generation P (pointer_to P g) (generation_bytes g) =
      Inr (snapshotFromGeneration g (pointer_to P g))"
    using decode_generation_bytes [OF assms(1)] by (simp add: checked_generation_def pointer_to_def)
  ultimately show ?thesis
    using assms(3,4) decode_pointer_bytes [OF pointer_to_ok [OF assms(1,2)]]
    by (simp add: visible_def visible_at_def) (simp add: pointer_to_def)
qed

lemma file_of_entry: "entry d i n = Some (FileN b t s) \<Longrightarrow> length b \<le> MAX_STATE_BYTES \<Longrightarrow> file_of d i n = Inr (Some b)"
  by (simp add: file_of_def entry_node_def regular_def)

lemma visible_replaced:
  assumes "generation_ok P g" "sha_law P" "replaced r g (pointer_to P g) d0 d"
  shows "visible P d = Inr (snapshotFromGeneration g (pointer_to P g))"
proof -
  from assms(3) obtain gi t t' where "k_root d = Some (DirN r)"
      "entry d r GENERATION_DIRECTORY = Some (DirN gi)"
      "entry d gi (generation_name (g_generationId g)) = Some (FileN (generation_bytes g) t True)"
      "entry d r POINTER_FILE = Some (FileN (pointer_bytes (pointer_to P g)) t' True)"
    by (auto simp: replaced_def new_disk_def gens_at_def settled_file_def)
  then show ?thesis
    using assms(1) length_pointer [OF pointer_to_ok [OF assms(1,2)]]
    by (intro visible_new [OF assms(1,2)]) (auto intro: file_of_entry simp: generation_ok_def)
qed

text \<open>After a loss of power during or after the switch: the old or the new snapshot.\<close>

lemma loss_file:
  assumes "node_after_loss (Some (FileN b t True)) y" "length b \<le> MAX_STATE_BYTES"
  shows "regular (entry_node y) = Inr (Some b)"
  using loss_agrees [OF assms(1)] assms(2) by (simp add: synced_def entry_node_def regular_def)

lemma replaced_loss_new:
  assumes ok: "generation_ok P g" "sha_law P" and set: "settled_store d0" and wf: "wf_store r d0"
    and rep: "replaced r g (pointer_to P g) d0 d" and loss: "power_loss d d'"
    and p: "node_after_loss (Some (FileN (pointer_bytes (pointer_to P g)) t True)) (entry d' r POINTER_FILE)"
  shows "visible P d' = Inr (snapshotFromGeneration g (pointer_to P g))"
proof -
  have "gens_settled r d0"
    using set wf by (auto simp: settled_store_def wf_store_def gens_settled_def)
  with rep obtain gi t' where d: "k_root d = Some (DirN r)"
      "cands d r GENERATION_DIRECTORY \<subseteq> {Some (DirN gi)}"
      "cands d gi (generation_name (g_generationId g)) \<subseteq> {Some (FileN (generation_bytes g) t' True)}"
    by (auto simp: replaced_def new_disk_def gens_at_def settled_file_def)
  from loss d have "node_after_loss (Some (DirN gi)) (entry d' r GENERATION_DIRECTORY)"
      and g: "node_after_loss (Some (FileN (generation_bytes g) t' True)) (entry d' gi (generation_name (g_generationId g)))"
    unfolding power_loss_def by (metis subset_singletonD empty_iff singletonD)+
  then have "follow (entry d' r GENERATION_DIRECTORY) = Inr gi"
    using loss_agrees [of "Some (DirN gi)"] by (simp add: synced_def)
  then show ?thesis
    using loss d(1) ok(1) loss_file [OF g] loss_file [OF p length_pointer [OF pointer_to_ok [OF ok]]]
    by (intro visible_new [OF ok]) (auto simp: power_loss_def file_of_def generation_ok_def)
qed

lemma visible_replaced_loss:
  assumes ok: "generation_ok P g" "sha_law P" and set: "settled_store d0" and wf: "wf_store r d0"
    and rep: "replaced r g (pointer_to P g) d0 d" and loss: "power_loss d d'"
    and vis: "visible P d0 = Inr s"
  shows "visible P d' \<in> {Inr s, Inr (snapshotFromGeneration g (pointer_to P g))}"
proof -
  from rep obtain t1 t2 gi t where i: "hexdash36 (g_generationId g)" "hexdash36 t1" "hexdash36 t2"
    and n: "new_disk (g_generationId g) (generation_temp_name (g_generationId g) t1) (pointer_temp_name t2)
        r gi (generation_bytes g) (pointer_bytes (pointer_to P g)) d0 d"
    and c: "cands d r POINTER_FILE \<subseteq>
        insert (Some (FileN (pointer_bytes (pointer_to P g)) t True)) (cands d0 r POINTER_FILE)"
    by (auto simp: replaced_def new_disk_def)
  have r: "r < k_inode d0" and v: "visible_at P r d0 = Inr s"
    using wf vis by (auto simp: wf_store_def visible_Inr)
  from loss obtain x where x: "x \<in> cands d r POINTER_FILE" "node_after_loss x (entry d' r POINTER_FILE)"
    by (auto simp: power_loss_def)
  have f: "frame (Kz (insert POINTER_FILE (commit_names (g_generationId g)
      (generation_temp_name (g_generationId g) t1) (pointer_temp_name t2)))) (Lz (once_names (g_generationId g))) d0 d"
    using n by (simp add: new_disk_def)
  show ?thesis
  proof (cases "x = Some (FileN (pointer_bytes (pointer_to P g)) t True)")
    case True
    with replaced_loss_new [OF ok set wf rep loss] x show ?thesis by blast
  next
    case False
    with x c have "x \<in> cands d0 r POINTER_FILE" by auto
    moreover have "cands d0 r POINTER_FILE \<subseteq> {entry d0 r POINTER_FILE}" "synced (entry d0 r POINTER_FILE)"
      using set r by (auto simp: settled_store_def)
    ultimately have "agrees d0 d' r POINTER_FILE"
      using x(2) loss_agrees [of x] by (auto simp: agrees_def file_of_def)
    then have "visible_at P r d' = Inr s"
      by (intro zone_agrees [OF f i refl refl wf _ _ v]) (auto intro: settled_keep [OF set loss])
    moreover have "k_root d' = Some (DirN r)"
      using n loss by (auto simp: new_disk_def gens_at_def power_loss_def)
    ultimately show ?thesis by (simp add: visible_Inr)
  qed
qed

lemma visible_settled_loss:
  assumes ok: "generation_ok P g" "sha_law P" and set: "settled_store d0" and wf: "wf_store r d0"
    and rep: "replaced r g (pointer_to P g) d0 d"
    and p: "settled_file r POINTER_FILE (pointer_bytes (pointer_to P g)) d" and loss: "power_loss d d'"
  shows "visible P d' = Inr (snapshotFromGeneration g (pointer_to P g))"
proof -
  from p loss obtain t where
    "node_after_loss (Some (FileN (pointer_bytes (pointer_to P g)) t True)) (entry d' r POINTER_FILE)"
    unfolding settled_file_def power_loss_def by (metis subset_singletonD empty_iff singletonD)
  then show ?thesis by (rule replaced_loss_new [OF ok set wf rep loss])
qed

end
