(* ===== verification/Router_Read.thy ===== *)
theory Router_Read
  imports Router_View
begin

text \<open>
  Reading under faults: on a machine that may fail, read short or kill the process at any
  system call, a snapshot that \<open>readCurrentSnapshot\<close> returns is the one the disk shows.
\<close>

lemma drift_store:
  assumes "drift M d d'" and "calm M"
  shows "same_store d d'"
  using assms(1)
proof induction
  case (others d d' t)
  moreover have "same_store d' (mc_others M t d')" using assms(2) by (simp add: calm_def rely_def)
  ultimately show ?case by (blast intro: frame_trans)
qed (rule frame_refl)

lemma lasting_store:
  assumes "calm M" and "\<And>d. same_store d0 d \<Longrightarrow> B d" and "same_store d0 d"
  shows "lasting M B d"
  using assms by (auto simp: lasting_def intro: frame_trans dest: drift_store)

lemma read_steady:
  assumes M: "calm M" and "\<And>d. same_store d0 d \<Longrightarrow> leads (RootPath (n # ns)) l x d"
  shows "outcome M (on (same_store d0)) (readRegularFile (RootPath (n # ns)) b)
     (\<lambda>r w. on (same_store d0) w \<and> regular (seen_at l x) = Inr r \<and> (r = None \<longrightarrow> b))
     (\<lambda>_. on (same_store d0)) (on (same_store d0))"
proof -
  let ?L = "lasting M (leads (RootPath (n # ns)) l x)"
  have "?L d" if "same_store d0 d" for d
    using that by (intro lasting_store [OF M assms(2)])
  then have "outcome M (on (same_store d0)) (readRegularFile (RootPath (n # ns)) b)
     (\<lambda>r w. regular (seen_at l x) = Inr r \<and> (r = None \<longrightarrow> b)) (\<lambda>_ _. True) (\<lambda>_. True)"
    by (intro outcome_weaken [OF root_file.outcome_readRegularFile [of M n ns l x b]]) (auto simp: on_def)
  moreover have "outcome M (on (same_store d0)) (readRegularFile (RootPath (n # ns)) b)
     (\<lambda>_. on (same_store d0)) (\<lambda>_. on (same_store d0)) (on (same_store d0))"
    by (rule outcome_calm [OF keeps_readRegularFile M zstable_same])
  ultimately show ?thesis
    using outcome_conj by (fastforce intro: outcome_weaken [OF outcome_conj])
qed

lemma read_root_file:
  assumes M: "calm M" and wf: "wf_store r d0" and n: "router_name n"
  shows "outcome M (on (same_store d0)) (readRegularFile (RootPath [n]) b)
     (\<lambda>v w. on (same_store d0) w \<and> file_of d0 r n = Inr v) (\<lambda>_. on (same_store d0)) (on (same_store d0))"
proof (rule outcome_weaken [OF read_steady [OF M, of d0 n "[]" "Inr (r, n)" "entry d0 r n" b]])
  fix d assume "same_store d0 d"
  with wf n show "leads (RootPath [n]) (Inr (r, n)) (entry d0 r n) d"
    using zone_entry [of "{}" "{}" d0 d r n] by (auto simp: leads_def wf_store_def frame_def)
qed (auto simp: file_of_def seen_at_def entry_node_def)

lemma read_generation_file:
  assumes M: "calm M" and wf: "wf_store r d0" and i: "hexdash36 i"
  shows "outcome M (on (same_store d0)) (readRequired (generation_path i))
     (\<lambda>v w. on (same_store d0) w \<and> generation_file d0 r i = Inr v) (\<lambda>_. on (same_store d0)) (on (same_store d0))"
proof -
  let ?n = "generation_name i"
  let ?l = "rbind (follow (entry d0 r GENERATION_DIRECTORY)) (\<lambda>gi. Inr (gi, ?n))"
  let ?x = "case follow (entry d0 r GENERATION_DIRECTORY) of Inl e \<Rightarrow> None | Inr gi \<Rightarrow> entry d0 gi ?n"
  have "leads (RootPath [GENERATION_DIRECTORY, ?n]) ?l ?x d" if d: "same_store d0 d" for d
  proof -
    have "entry d r GENERATION_DIRECTORY = entry d0 r GENERATION_DIRECTORY"
      using zone_entry [OF d, of r GENERATION_DIRECTORY] wf by (simp add: wf_store_def)
    moreover have "entry d gi ?n = entry d0 gi ?n" if "follow (entry d0 r GENERATION_DIRECTORY) = Inr gi" for gi
      using zone_entry [OF d, of gi ?n] wf that generation_name_router [OF i] by (simp add: wf_store_def)
    moreover have "k_root d = Some (DirN r)" using d wf by (simp add: wf_store_def frame_def)
    ultimately show ?thesis
      by (cases "follow (entry d0 r GENERATION_DIRECTORY)") (simp_all add: leads_def)
  qed
  then have "outcome M (on (same_store d0)) (readRegularFile (RootPath [GENERATION_DIRECTORY, ?n]) False)
     (\<lambda>v w. on (same_store d0) w \<and> regular (seen_at ?l ?x) = Inr v \<and> (v = None \<longrightarrow> False))
     (\<lambda>_. on (same_store d0)) (on (same_store d0))"
    by (rule read_steady [OF M])
  then have "outcome M (on (same_store d0)) (readRequired (generation_path i))
     (\<lambda>v w. on (same_store d0) w \<and> regular (seen_at ?l ?x) = Inr (Some v))
     (\<lambda>_. on (same_store d0)) (on (same_store d0))"
    unfolding readRequired_def generation_path_def
    by (rule outcome_bnd) (auto intro!: outcome_ret outcome_throw split: option.split)
  then show ?thesis
    by (rule outcome_weaken)
       (auto simp: generation_file_def file_of_def entry_node_def seen_at_def required_def regular_def
        split: sum.splits option.splits if_splits)
qed

lemma bnd_ret: "bnd (ret x) f = f x"
  by (simp add: bnd_def ret_def)

lemma outcome_or_else:
  "outcome M I (or_else r e) (\<lambda>x w. I w \<and> r = Inr x) (\<lambda>_. I) I"
  by (cases r) (auto simp: or_else_def intro: outcome_ret outcome_throw)

lemma legacy_router: "n \<in> set legacy_names \<Longrightarrow> router_name n"
  by (simp add: router_name_def)

lemma read_legacy:
  assumes M: "calm M" and wf: "wf_store r d0"
  shows "outcome M (on (same_store d0)) readLegacySnapshot
     (\<lambda>s w. on (same_store d0) w \<and>
        rbind (file_of d0 r (js ''platform-router.json'')) (\<lambda>a.
        rbind (file_of d0 r (js ''platform-router.draft.json'')) (\<lambda>b.
        rbind (file_of d0 r (js ''platform-router.draft.meta.json'')) (\<lambda>c.
        rbind (file_of d0 r (js ''platform-router.draft.test.json'')) (\<lambda>e.
        legacySnapshot (mc_platform M) a b c e)))) = Inr s)
     (\<lambda>_. on (same_store d0)) (on (same_store d0))"
proof -
  have n: "router_name (js ''platform-router.json'')" "router_name (js ''platform-router.draft.json'')"
    "router_name (js ''platform-router.draft.meta.json'')" "router_name (js ''platform-router.draft.test.json'')"
    by (auto intro: legacy_router simp: legacy_names_def)
  show ?thesis
    unfolding readLegacySnapshot_def readLegacyEntry_def platform_of_def
    by (intro outcome_bnd [OF read_root_file [OF M wf n(1)]] outcome_pre
          outcome_bnd [OF read_root_file [OF M wf n(2)]]
          outcome_bnd [OF read_root_file [OF M wf n(3)]]
          outcome_bnd [OF read_root_file [OF M wf n(4)]]
          outcome_bnd [OF outcome_get [where Q = "\<lambda>P w. on (same_store d0) w \<and> P = mc_platform M"]] outcome_lift)
       auto
qed

lemma read_outcome:
  assumes M: "calm M" and wf: "wf_store r d0"
  shows "outcome M (on (same_store d0)) readCurrentSnapshot
     (\<lambda>s w. on (same_store d0) w \<and> visible (mc_platform M) d0 = Inr s)
     (\<lambda>_. on (same_store d0)) (on (same_store d0))"
proof -
  let ?I = "on (same_store d0)" and ?P = "mc_platform M"
  have v: "visible ?P d0 = visible_at ?P r d0" using wf by (simp add: visible_def wf_store_def)
  have ptr: "router_name POINTER_FILE" by simp
  have trust: "outcome M ?I (assertTrustedDirectory (RootPath [])) (\<lambda>_. ?I) (\<lambda>_. ?I) ?I"
    by (rule outcome_calm [OF keeps_assertTrustedDirectory M zstable_same])
  have gen: "outcome M ?I (bnd (generationPathFor (p_generationId p)) (\<lambda>gp.
      bnd (readRequired gp) (\<lambda>gb.
      thn (guard (sha256 ?P gb = p_sha256 p) CorruptionError)
     (bnd (or_else (rbind (parseStrictJson gb) (decodeGeneration ?P)) CorruptionError) (\<lambda>g.
      thn (guard (g_generationId g = p_generationId p) CorruptionError)
          (ret (snapshotFromGeneration g p)))))))
     (\<lambda>s w. ?I w \<and> rbind (generation_file d0 r (p_generationId p)) (checked_generation ?P p) = Inr s)
     (\<lambda>_. ?I) ?I" (is "outcome M ?I ?gen ?Q ?X ?C") if p: "pointer_ok p" for p
  proof -
    have n: "normalizeUuid (Some (JStr (p_generationId p))) = Inr (p_generationId p)"
      using p by (simp add: pointer_ok_def)
    have check: "outcome M (\<lambda>w. ?I w \<and> generation_file d0 r (p_generationId p) = Inr gb)
       (thn (guard (sha256 ?P gb = p_sha256 p) CorruptionError)
         (bnd (or_else (rbind (parseStrictJson gb) (decodeGeneration ?P)) CorruptionError) (\<lambda>g.
          thn (guard (g_generationId g = p_generationId p) CorruptionError)
              (ret (snapshotFromGeneration g p))))) ?Q ?X ?C" for gb
    proof (rule outcome_pre)
      assume gb: "generation_file d0 r (p_generationId p) = Inr gb"
      show "outcome M ?I (thn (guard (sha256 ?P gb = p_sha256 p) CorruptionError)
         (bnd (or_else (rbind (parseStrictJson gb) (decodeGeneration ?P)) CorruptionError) (\<lambda>g.
          thn (guard (g_generationId g = p_generationId p) CorruptionError)
              (ret (snapshotFromGeneration g p))))) ?Q ?X ?C"
        by (intro outcome_thn [OF outcome_guard [where Q = "\<lambda>_ w. ?I w \<and> sha256 ?P gb = p_sha256 p"]]
              outcome_pre outcome_bnd [OF outcome_or_else]
              outcome_thn [OF outcome_guard [where Q = "\<lambda>_ w. ?I w \<and> g_generationId _ = p_generationId p"]]
              outcome_ret)
           (auto simp: gb checked_generation_def)
    qed
    show ?thesis
      unfolding generationPathFor_def n lift_res_def sum.case bnd_ret
      by (rule outcome_bnd [OF read_generation_file [OF M wf canonical_uuid(2) [OF n]] check])
  qed
  have pointed: "outcome M ?I
      (bnd (or_else (rbind (parseStrictJson pb) decodePointer) CorruptionError) (\<lambda>p.
       bnd (generationPathFor (p_generationId p)) (\<lambda>gp.
       bnd (readRequired gp) (\<lambda>gb.
       thn (guard (sha256 ?P gb = p_sha256 p) CorruptionError)
      (bnd (or_else (rbind (parseStrictJson gb) (decodeGeneration ?P)) CorruptionError) (\<lambda>g.
       thn (guard (g_generationId g = p_generationId p) CorruptionError)
           (ret (snapshotFromGeneration g p))))))))
      (\<lambda>s w. ?I w \<and> visible_at ?P r d0 = Inr s) (\<lambda>_. ?I) ?I"
    if pb: "file_of d0 r POINTER_FILE = Inr (Some pb)" for pb
    by (rule outcome_bnd [OF outcome_or_else], rule outcome_pre, rule outcome_weaken [OF gen])
       (auto simp: visible_at_def pb rbind_Inr dest: decodePointer_ok)
  have legacy: "outcome M ?I readLegacySnapshot (\<lambda>s w. ?I w \<and> visible_at ?P r d0 = Inr s) (\<lambda>_. ?I) ?I"
    if "file_of d0 r POINTER_FILE = Inr None"
    by (rule outcome_weaken [OF read_legacy [OF M wf]]) (simp_all add: visible_at_def that)
  show ?thesis
    unfolding readCurrentSnapshot_def platform_of_def v pointerPath_def
    by (intro outcome_thn [OF trust]
          outcome_bnd [OF outcome_get [where Q = "\<lambda>P w. ?I w \<and> P = ?P"]] outcome_pre
          outcome_bnd [OF read_root_file [OF M wf ptr]])
       (auto split: option.split intro: pointed legacy)
qed

end
