(* ===== verification/Router_Atomicity.thy ===== *)
theory Router_Atomicity
  imports Router_Read
begin

text \<open>
  The properties of \<open>readCurrentSnapshot\<close> and \<open>commitGeneration\<close>: reading refines the
  specification, a commit is atomic for every schedule of faults and every death of the
  process, and it stays atomic when the machine loses power.
\<close>

section \<open>Inputs\<close>

text \<open>What the callers pass: normal configurations, attestations and audit records, printable.\<close>

definition input_ok :: "platform \<Rightarrow> PlatformRouterGenerationInput \<Rightarrow> bool" where
  "input_ok P input \<longleftrightarrow>
     (\<forall>c. gi_active input = Some c \<longrightarrow> cfg_ok P c) \<and>
     (\<forall>d. gi_draft input = Some d \<longrightarrow> draft_fixed P d \<and> wf_json (draft_json d)) \<and>
     (\<forall>a \<in> set (gi_pendingAudit input). audit_ok P a \<and> wf_json (audit_json a))"

definition carries :: "PlatformRouterGenerationInput \<Rightarrow> PlatformRouterSnapshot \<Rightarrow> bool" where
  "carries input s \<longleftrightarrow> s_source s = FromGeneration \<and> s_active s = gi_active input \<and>
     s_draft s = gi_draft input \<and> s_pendingAudit s = gi_pendingAudit input"

lemma generation_of_fields:
  assumes ok: "input_ok P input" and g: "generation_of P input g"
  shows "g_active g = gi_active input" "g_draft g = gi_draft input"
    "g_pendingAudit g = gi_pendingAudit input"
proof -
  from g obtain gid parent instant where d: "decodeGeneration P (generation_json
        \<lparr> g_generationId = gid, g_parentGenerationId = parent, g_committedAt = instant,
          g_active = gi_active input, g_draft = gi_draft input, g_pendingAudit = gi_pendingAudit input \<rparr>)
        = Inr g"
    by (auto simp: generation_of_def)
  then have "decodeGenerationConfig P (Some (opt_json cfg_json (gi_active input))) = Inr (g_active g)"
      "decodeGenerationDraft P (Some (opt_json draft_json (gi_draft input))) = Inr (g_draft g)"
      "rmap (\<lambda>x. decodePlatformRouterAuditRecord P (Some x)) (map audit_json (gi_pendingAudit input)) =
         Inr (g_pendingAudit g)"
    by (auto simp: decodeGeneration_Inr generation_json_def)
  moreover have "decodeGenerationConfig P (Some (opt_json cfg_json (gi_active input))) = Inr (gi_active input)"
    using ok by (intro decodeConfig_opt) (auto simp: input_ok_def cfg_ok_def)
  moreover have "decodeGenerationDraft P (Some (opt_json draft_json (gi_draft input))) = Inr (gi_draft input)"
    using ok by (intro decodeDraft_json) (auto simp: input_ok_def)
  moreover have "rmap (\<lambda>x. decodePlatformRouterAuditRecord P (Some x)) (map audit_json (gi_pendingAudit input)) =
      Inr (gi_pendingAudit input)"
    using ok by (intro rmap_map_id) (auto simp: input_ok_def audit_ok_def)
  ultimately show "g_active g = gi_active input" "g_draft g = gi_draft input"
    "g_pendingAudit g = gi_pendingAudit input"
    by simp_all
qed

lemma committable_ok:
  assumes laws: "url_laws P" and ok: "input_ok P input" and g: "committable P input g"
  shows "generation_ok P g"
proof -
  from g have gen: "generation_of P input g" and size: "length (generation_bytes g) \<le> MAX_STATE_BYTES"
    by (auto simp: committable_def)
  then have fixed: "generation_fixed P g"
    by (auto simp: generation_of_def intro: decodeGeneration_fixed [OF laws])
  note fields = generation_of_fields [OF ok gen]
  have "wf_json (generation_json g)"
    using ok fixed
    by (auto simp: generation_json_def wf_json_Obj opt_json_def fields input_ok_def cfg_ok_def
        generation_fixed_def wf_str_iso list_all_iff dest: normalizeUuid_wf split: option.split)
  with fixed size show ?thesis by (simp add: generation_ok_def)
qed

lemma carries_snapshot:
  "input_ok P input \<Longrightarrow> committable P input g \<Longrightarrow> carries input (snapshotFromGeneration g p)"
  using generation_of_fields [of P input g]
  by (simp add: carries_def snapshotFromGeneration_def committable_def)

section \<open>An example\<close>

definition example_platform :: platform where
  "example_platform = \<lparr> url_parse = (\<lambda>s. None), isIP = (\<lambda>s. 0), ip_process = (\<lambda>s. None),
     sha256 = (\<lambda>b. replicate 64 48) \<rparr>"

definition example_uuid :: "nat \<Rightarrow> jstr" where
  "example_uuid n = js ''00000000-0000-4000-8000-0000000000'' @ [48 + n div 10 mod 10, 48 + n mod 10]"

definition example_machine :: machine where
  "example_machine = \<lparr> mc_sched = (\<lambda>t. NoFault), mc_others = (\<lambda>t. id), mc_fuel = 10,
     mc_platform = example_platform, mc_device = 1, mc_root = js ''/secret'', mc_pid = num_of_int 7,
     mc_nowMs = (\<lambda>t. 0), mc_now = (\<lambda>t. js ''2024-01-02T03:04:05.678Z''),
     mc_monotonicNowMs = (\<lambda>t. of_nat t), mc_random = (\<lambda>t. 0), mc_nextId = example_uuid,
     mc_readBootId = (\<lambda>t. js ''0123456789abcdef''),
     mc_readProcessStartTicks = (\<lambda>t p. Some (js ''42'')) \<rparr>"

definition empty_disk :: disk where
  "empty_disk = \<lparr> k_root = Some (DirN 0), k_dirs = (\<lambda>i. []), k_older = (\<lambda>i n. []),
     k_mtime = (\<lambda>i. 0), k_inode = 1 \<rparr>"

definition example_owner :: PlatformRouterLockOwner where
  "example_owner = \<lparr> o_pid = 7, o_bootId = js ''0123456789abcdef'', o_startTicks = js ''42'',
     o_nonce = example_uuid 99, o_acquiredAt = js ''2024-01-02T03:04:05.678Z'' \<rparr>"

definition locked_disk :: disk where
  "locked_disk = empty_disk\<lparr> k_dirs := (\<lambda>i.
       if i = 0 then [(LOCK_DIRECTORY, DirN 1)]
       else if i = 1 then [(LOCK_OWNER_FILE, FileN (json_line (owner_json example_owner)) 0 True)]
       else []), k_inode := 2 \<rparr>"

definition example_handle :: PlatformRouterLockHandle where
  "example_handle = \<lparr> h_id = 0, h_owner = example_owner, h_root = js ''/secret'' \<rparr>"

definition locked_world :: world where
  "locked_world = \<lparr> w_disk = locked_disk, w_tick = 0, w_ids = 0,
     w_caps = (\<lambda>i. if i = 0 then Some \<lparr> c_descriptor = 1, c_device = 1, c_inode = 1,
        c_nonce = example_uuid 99, c_ownerBytes = json_line (owner_json example_owner),
        c_released = False, c_publicationUncertain = False \<rparr> else None),
     w_handles = 1 \<rparr>"

definition empty_input :: PlatformRouterGenerationInput where
  "empty_input = \<lparr> gi_generationId = None, gi_parentGenerationId = None, gi_committedAt = None,
     gi_active = None, gi_draft = None, gi_pendingAudit = [] \<rparr>"

lemma example_calm: "calm example_machine"
  by (simp add: calm_def rely_def example_machine_def frame_refl)

lemma example_laws: "url_laws example_platform" "sha_law example_platform"
  by (simp_all add: url_laws_def sha_law_def SHA256_PATTERN_def example_platform_def list_all_iff
      is_hex_lower_def is_digit_def)

lemma example_entry:
  "entry locked_disk 0 n = (if n = LOCK_DIRECTORY then Some (DirN 1) else None)"
  by (simp add: entry_def locked_disk_def)

definition example_before :: PlatformRouterSnapshot where
  "example_before = \<lparr> s_source = FromEmpty, s_pointer = None, s_generationId = None,
     s_parentGenerationId = None, s_committedAt = None, s_active = None, s_draft = None, s_pendingAudit = [] \<rparr>"

lemma example_quiet: "quiet example_machine"
  by (simp add: quiet_def example_machine_def)

lemma example_platform_of [simp]: "mc_platform example_machine = example_platform"
  by (simp add: example_machine_def)

lemma example_root: "k_root locked_disk = Some (DirN 0)" "k_inode locked_disk = 2"
  by (simp_all add: locked_disk_def empty_disk_def)

lemma lock_other: "LOCK_DIRECTORY \<noteq> POINTER_FILE" "LOCK_DIRECTORY \<noteq> GENERATION_DIRECTORY"
    "n \<in> set legacy_names \<Longrightarrow> n \<noteq> LOCK_DIRECTORY"
  by (auto simp: LOCK_DIRECTORY_def POINTER_FILE_def GENERATION_DIRECTORY_def legacy_names_def js_simps)

lemma example_wf: "wf_store 0 locked_disk"
  using lock_other by (auto simp: wf_store_def example_root example_entry)

lemma example_visible: "visible example_platform locked_disk = Inr example_before"
proof -
  have n: "file_of locked_disk 0 n = Inr None" if "n \<noteq> LOCK_DIRECTORY" for n
    using that by (simp add: file_of_def example_entry entry_node_def regular_def)
  have l: "n \<in> set legacy_names \<Longrightarrow> file_of locked_disk 0 n = Inr None" for n
    using n lock_other(3) by blast
  have "file_of locked_disk 0 POINTER_FILE = Inr None" using n lock_other(1) by metis
  then show ?thesis
    using l by (simp add: visible_def visible_at_def example_root legacy_names_def legacySnapshot_def
        decodeLegacyConfig_def decodeLegacyMetadata_def decodeLegacyAttestation_def example_before_def)
qed

lemma example_input: "input_ok P empty_input"
  by (simp add: input_ok_def empty_input_def)

lemma locked_world_disk [simp]: "w_disk locked_world = locked_disk"
  by (simp add: locked_world_def)

section \<open>Reading\<close>

text \<open>
  C6. Without faults and interference \<open>readCurrentSnapshot\<close> computes the specified view of the
  disk, errors included, and leaves everything as it was.
\<close>

theorem read_refines:
  assumes "quiet M"
  shows "\<exists>t. readCurrentSnapshot M w =
     (case visible (mc_platform M) (w_disk w) of Inl e \<Rightarrow> Throw e | Inr s \<Rightarrow> Ret s, at_tick w t)"
  by (rule computesD [OF computes_current [OF assms]])

theorem read_refines_witness:
  "quiet example_machine \<and>
   (\<exists>t. readCurrentSnapshot example_machine locked_world = (Ret example_before, at_tick locked_world t))"
  using read_refines [OF example_quiet, of locked_world]
  by (simp add: example_quiet example_visible)

text \<open>
  Whatever system calls fail and wherever the process dies: a snapshot that
  \<open>readCurrentSnapshot\<close> returns is the view of the disk it started on, and the store still
  shows it.
\<close>

theorem read_sound:
  assumes "calm M" and "wf_store r (w_disk w)" and "readCurrentSnapshot M w = (Ret s, w')"
  shows "visible (mc_platform M) (w_disk w) = Inr s \<and> visible (mc_platform M) (w_disk w') = Inr s"
proof -
  have w: "on (same_store (w_disk w)) w" by (simp add: on_def frame_refl)
  from outcomeD [OF read_outcome [OF assms(1,2)] w] assms(3)
  have "visible (mc_platform M) (w_disk w) = Inr s" "same_store (w_disk w) (w_disk w')"
    by (auto simp: on_def)
  then show ?thesis using visible_unchanged [OF same_unchanged assms(2)] by blast
qed

theorem read_sound_witness:
  "calm example_machine \<and> wf_store 0 locked_disk \<and>
   (\<exists>w'. readCurrentSnapshot example_machine locked_world = (Ret example_before, w') \<and>
      visible example_platform (w_disk w') = Inr example_before)"
proof -
  obtain w' where r: "readCurrentSnapshot example_machine locked_world = (Ret example_before, w')"
    using computesD [OF computes_current [OF example_quiet, of locked_world]]
    by (auto simp: example_visible)
  with read_sound [OF example_calm, of 0 locked_world example_before w'] example_calm example_wf
  show ?thesis by auto
qed

section \<open>Committing\<close>

text \<open>What a commit of \<open>input\<close> leaves to be seen: the new generation, with exactly its contents.\<close>

definition shows_new :: "platform \<Rightarrow> PlatformRouterGenerationInput \<Rightarrow> disk \<Rightarrow> bool" where
  "shows_new P input d \<longleftrightarrow> (\<exists>s. visible P d = Inr s \<and> carries input s)"

lemma shows_committed:
  assumes "url_laws P" "sha_law P" "input_ok P input" "committable P input g"
    and "replaced r g (pointer_to P g) d0 d"
  shows "visible P d = Inr (snapshotFromGeneration g (pointer_to P g))" "shows_new P input d"
proof -
  show v: "visible P d = Inr (snapshotFromGeneration g (pointer_to P g))"
    by (rule visible_replaced [OF committable_ok [OF assms(1,3,4)] assms(2,5)])
  then show "shows_new P input d"
    using carries_snapshot [OF assms(3,4)] by (auto simp: shows_new_def)
qed

text \<open>
  C1. A commit is atomic. Whatever system calls fail, read short or write short and wherever
  the process dies, a reader sees the old snapshot or the new one: the new one after a
  return (and it is the snapshot returned, with exactly the given contents) and after
  \<open>CommitUncertainError\<close>, the old one after every other error, one of the two after a death.
\<close>

theorem commit_atomic:
  assumes M: "calm M" and wf: "wf_store r (w_disk w)"
    and laws: "url_laws (mc_platform M)" "sha_law (mc_platform M)"
    and ok: "input_ok (mc_platform M) input"
    and old: "visible (mc_platform M) (w_disk w) = Inr before"
    and run: "commitGeneration input h M w = (result, w')"
  shows "case result of
       Ret s \<Rightarrow> visible (mc_platform M) (w_disk w') = Inr s \<and> carries input s
     | Throw CommitUncertainError \<Rightarrow> shows_new (mc_platform M) input (w_disk w')
     | Throw e \<Rightarrow> visible (mc_platform M) (w_disk w') = Inr before
     | Crash \<Rightarrow> visible (mc_platform M) (w_disk w') = Inr before \<or>
         shows_new (mc_platform M) input (w_disk w')"
proof -
  let ?P = "mc_platform M" and ?d0 = "w_disk w"
  have w: "on (same_store ?d0) w" by (simp add: on_def frame_refl)
  note out = outcomeD [OF commit_outcome [OF M wf refl] w]
  note new = shows_committed [OF laws ok]
  show ?thesis
  proof (cases result)
    case (Ret s)
    with out(1) run have "ends_committed ?P input r ?d0 s w'" by blast
    with Ret new(1) show ?thesis by (auto simp: ends_committed_def carries_snapshot [OF ok])
  next
    case (Throw e)
    with out(2) run have "ends_failed ?P input r ?d0 e w'" by blast
    with Throw new(2) show ?thesis
      by (cases e) (auto simp: ends_failed_def may_have_committed_def visible_unchanged [OF _ wf old])
  next
    case Crash
    with out(3) run have "ends_dead ?P input r ?d0 w'" by blast
    with Crash new(2) show ?thesis
      by (auto simp: ends_dead_def may_have_committed_def visible_unchanged [OF _ wf old])
  qed
qed

theorem commit_atomic_witness:
  "\<exists>result w'. commitGeneration empty_input example_handle example_machine locked_world = (result, w') \<and>
     (case result of
        Ret s \<Rightarrow> visible example_platform (w_disk w') = Inr s \<and> carries empty_input s
      | Throw CommitUncertainError \<Rightarrow> shows_new example_platform empty_input (w_disk w')
      | Throw e \<Rightarrow> visible example_platform (w_disk w') = Inr example_before
      | Crash \<Rightarrow> visible example_platform (w_disk w') = Inr example_before \<or>
          shows_new example_platform empty_input (w_disk w'))"
proof -
  obtain result w' where r: "commitGeneration empty_input example_handle example_machine locked_world = (result, w')"
    by fastforce
  note c = commit_atomic [of example_machine 0 locked_world empty_input example_before example_handle result w',
      unfolded example_platform_of locked_world_disk]
  show ?thesis
    by (intro exI conjI, rule r, rule c)
       (simp_all add: r example_calm example_wf example_laws example_input example_visible)
qed

text \<open>
  C2. The switch is durable. When the machine loses power after the commit ended, a store that
  was at rest shows the new snapshot if the commit had returned, the old one if it had
  failed for certain, and one of the two otherwise.
\<close>

theorem commit_durable:
  assumes M: "calm M" and wf: "wf_store r (w_disk w)"
    and laws: "url_laws (mc_platform M)" "sha_law (mc_platform M)"
    and ok: "input_ok (mc_platform M) input"
    and old: "visible (mc_platform M) (w_disk w) = Inr before" and rest: "settled_store (w_disk w)"
    and run: "commitGeneration input h M w = (result, w')" and loss: "power_loss (w_disk w') d"
  shows "case result of
       Ret s \<Rightarrow> visible (mc_platform M) d = Inr s \<and> carries input s
     | Throw e \<Rightarrow> visible (mc_platform M) d = Inr before \<or>
         e = CommitUncertainError \<and> shows_new (mc_platform M) input d
     | Crash \<Rightarrow> visible (mc_platform M) d = Inr before \<or> shows_new (mc_platform M) input d"
proof -
  let ?P = "mc_platform M" and ?d0 = "w_disk w"
  have w: "on (same_store ?d0) w" by (simp add: on_def frame_refl)
  note out = outcomeD [OF commit_outcome [OF M wf refl] w]
  note unch = visible_unchanged_loss [OF _ wf old rest loss]
  have may: "visible ?P d = Inr before \<or> shows_new ?P input d" if c: "may_have_committed ?P input r ?d0 w'"
  proof -
    from c obtain g where g: "committable ?P input g" "replaced r g (pointer_to ?P g) ?d0 (w_disk w')"
      by (auto simp: may_have_committed_def)
    from visible_replaced_loss [OF committable_ok [OF laws(1) ok g(1)] laws(2) rest wf g(2) loss old]
      carries_snapshot [OF ok g(1)] show ?thesis by (auto simp: shows_new_def)
  qed
  show ?thesis
  proof (cases result)
    case (Ret s)
    with out(1) run have "ends_committed ?P input r ?d0 s w'" by blast
    then obtain g where g: "committable ?P input g" "s = snapshotFromGeneration g (pointer_to ?P g)"
        "replaced r g (pointer_to ?P g) ?d0 (w_disk w')"
        "settled_file r POINTER_FILE (pointer_bytes (pointer_to ?P g)) (w_disk w')"
      by (auto simp: ends_committed_def)
    from visible_settled_loss [OF committable_ok [OF laws(1) ok g(1)] laws(2) rest wf g(3,4) loss]
      Ret g(2) carries_snapshot [OF ok g(1)] show ?thesis by simp
  next
    case (Throw e)
    with out(2) run have "ends_failed ?P input r ?d0 e w'" by blast
    with Throw unch may show ?thesis by (auto simp: ends_failed_def split: if_splits)
  next
    case Crash
    with out(3) run have "ends_dead ?P input r ?d0 w'" by blast
    with Crash unch may show ?thesis by (auto simp: ends_dead_def)
  qed
qed

lemma node_after_loss_refl: "node_after_loss x x"
  by (cases "(x, x)" rule: node_after_loss.cases) simp_all

lemma power_loss_refl: "power_loss d d"
  using node_after_loss_refl by (auto simp: power_loss_def cands_def)

lemma example_settled: "settled_store locked_disk"
  by (simp add: settled_store_def cands_def entry_def synced_def locked_disk_def empty_disk_def)

theorem commit_durable_witness:
  "\<exists>result w'. commitGeneration empty_input example_handle example_machine locked_world = (result, w') \<and>
     power_loss (w_disk w') (w_disk w') \<and>
     (case result of
        Ret s \<Rightarrow> visible example_platform (w_disk w') = Inr s \<and> carries empty_input s
      | Throw e \<Rightarrow> visible example_platform (w_disk w') = Inr example_before \<or>
          e = CommitUncertainError \<and> shows_new example_platform empty_input (w_disk w')
      | Crash \<Rightarrow> visible example_platform (w_disk w') = Inr example_before \<or>
          shows_new example_platform empty_input (w_disk w'))"
proof -
  obtain result w' where r: "commitGeneration empty_input example_handle example_machine locked_world = (result, w')"
    by fastforce
  note c = commit_durable [of example_machine 0 locked_world empty_input example_before example_handle result w' "w_disk w'",
      unfolded example_platform_of locked_world_disk]
  show ?thesis
    by (intro exI conjI, rule r, rule power_loss_refl, rule c)
       (simp_all add: r example_calm example_wf example_laws example_input example_visible example_settled
        power_loss_refl)
qed

end
