(* ===== verification/Router_Storage.thy ===== *)
theory Router_Storage
  imports Router_Transaction
begin

text \<open>
  The protected storage of \<open>web/src/lib/platform-router-config/protected-storage.ts\<close>: named
  entries kept as single files that are replaced by a write to a private temporary file and
  a rename. The credentials of the configuration are stored here.
\<close>

section \<open>Entries\<close>

datatype PlatformRouterStorageEntry =
    ActiveConfig | DraftConfig | DraftMetadata | DraftAttestation | Credential jstr

definition credentialStorageEntry :: "jstr \<Rightarrow> router_error + PlatformRouterStorageEntry" where
  "credentialStorageEntry credentialFile =
     rbind (normalizeCredentialFile (Some (JStr credentialFile))) (\<lambda>n. Inr (Credential n))"

fun entry_file :: "PlatformRouterStorageEntry \<Rightarrow> router_error + jstr" where
  "entry_file ActiveConfig = Inr (js ''platform-router.json'')"
| "entry_file DraftConfig = Inr (js ''platform-router.draft.json'')"
| "entry_file DraftMetadata = Inr (js ''platform-router.draft.meta.json'')"
| "entry_file DraftAttestation = Inr (js ''platform-router.draft.test.json'')"
| "entry_file (Credential n) = normalizeCredentialFile (Some (JStr n))"

section \<open>File helpers\<close>

text \<open>
  The helpers of this module: those of the transaction layer with the plain error class.
  \<open>fsyncDirectory\<close> is the same program in both files.
\<close>

definition storage_assertRegular :: "path \<Rightarrow> unit io" where
  "storage_assertRegular p =
     catch (bnd (lstat p) (\<lambda>(v, _). guard (is_file v) PlainError))
       (\<lambda>e. if e = NodeError ENOENT then ret () else throw e)"

definition storage_assertTrusted :: "path \<Rightarrow> unit io" where
  "storage_assertTrusted p = bnd (lstat p) (\<lambda>(v, _). guard (is_directory v) PlainError)"

function storage_writeAll :: "fd \<Rightarrow> bytes \<Rightarrow> unit io" where
  "storage_writeAll f bs =
     (if bs = [] then ret ()
      else bnd (write_fd f bs) (\<lambda>written.
           if written = 0 then throw PlainError else storage_writeAll f (drop written bs)))"
  by auto
termination
  by (relation "measure (\<lambda>(f, bs). length bs)") auto

declare storage_writeAll.simps [simp del]

text \<open>The error of a failed removal is only kept as the cause of the error thrown.\<close>

definition removeTemporaryFile :: "path \<Rightarrow> router_error option io" where
  "removeTemporaryFile p =
     catch (thn (unlink p) (ret None)) (\<lambda>e. ret (if e = NodeError ENOENT then None else Some e))"

section \<open>Operations\<close>

definition storage_read :: "PlatformRouterStorageEntry \<Rightarrow> jstr option io" where
  "storage_read e =
     bnd (lift_res (entry_file e)) (\<lambda>name.
     with_fd (thn (storage_assertRegular (RootPath [name])) (open_read (RootPath [name])))
       (\<lambda>f. bnd (fstat f) (\<lambda>v.
            thn (guard (is_file v) PlainError)
           (bnd (read_all f) (\<lambda>b.
            ret (let value = trim (utf8_lossy b) in if value = [] then None else Some value)))))
       (\<lambda>e. if e = NodeError ENOENT then ret None else throw PlainError)
       close_fd)"

definition MAX_ENTRY_CHARACTERS :: nat where
  "MAX_ENTRY_CHARACTERS = 16384"

definition storage_temp_name :: "jstr \<Rightarrow> jstr \<Rightarrow> jstr" where
  "storage_temp_name name i = [46] @ name @ [46] @ i @ js ''.tmp''"

text \<open>The \<open>try\<close> block up to the rename; the descriptor is closed on every way out of it.\<close>

definition storage_publish :: "jstr \<Rightarrow> path \<Rightarrow> bytes \<Rightarrow> unit io" where
  "storage_publish name temporary bs =
     thn (storage_assertTrusted (RootPath []))
    (thn (storage_assertRegular (RootPath [name]))
    (bnd (open_excl temporary) (\<lambda>f.
     thn (catch
            (thn (bnd (fstat f) (\<lambda>v.
                  thn (guard (is_file v) PlainError)
                 (thn no_effect
                 (thn (storage_writeAll f bs)
                      (fsync_file f)))))
                 (close_fd f))
            (\<lambda>e. thn (catch (close_fd f) (\<lambda>_. ret ())) (throw e)))
         (rename temporary (RootPath [name])))))"

definition storage_write :: "PlatformRouterStorageEntry \<Rightarrow> jstr \<Rightarrow> unit io" where
  "storage_write e value =
     (let content = trim value in
      if content = [] \<or> MAX_ENTRY_CHARACTERS < length content then throw PlainError
      else
      bnd (lift_res (entry_file e)) (\<lambda>name.
      bnd next_id (\<lambda>i.
      let temporary = RootPath [storage_temp_name name i] in
      bnd (attempt (storage_publish name temporary (utf8_encode (content @ [10])))) (\<lambda>committed.
      case committed of
        Inl cause \<Rightarrow> thn (removeTemporaryFile temporary) (throw PlainError)
      | Inr _ \<Rightarrow> catch (fsyncDirectory (RootPath []))
          (\<lambda>cause. thn (removeTemporaryFile temporary) (throw ProtectedUncertainError))))))"

definition storage_remove :: "PlatformRouterStorageEntry \<Rightarrow> unit io" where
  "storage_remove e =
     bnd (lift_res (entry_file e)) (\<lambda>name.
     bnd (attempt (thn (storage_assertRegular (RootPath [name])) (unlink (RootPath [name])))) (\<lambda>committed.
     case committed of
       Inl cause \<Rightarrow> if cause = NodeError ENOENT then ret () else throw PlainError
     | Inr _ \<Rightarrow> catch (fsyncDirectory (RootPath [])) (\<lambda>cause. throw ProtectedUncertainError)))"

end
