(* ===== verification/Router_Lifecycle.thy ===== *)
theory Router_Lifecycle
  imports Router_Storage
begin

unbundle bit_operations_syntax

text \<open>
  The transactional lifecycle of the managed configuration, after
  \<open>web/src/lib/platform-router-config/transactional-lifecycle.ts\<close>: a draft is staged, tested
  and activated; every step is one committed generation with its audit record. The callbacks
  that the source passes to \<open>withPlatformRouterLock\<close> are definitions of their own
  (\<open>stage_locked\<close>, \<open>markTested_locked\<close>, \<open>activate_locked\<close>).
\<close>

section \<open>Data\<close>

record PlatformRouterMutationContext =
  x_actor :: jstr
  x_requestId :: jstr

record PlatformRouterMarkTestedInput =
  mt_actor :: jstr
  mt_requestId :: jstr
  mt_expectedGenerationId :: jstr
  mt_expectedDraftDigest :: jstr
  mt_status :: "jstr option"

record ManagedPlatformRouterInput =
  in_config :: StoredRouterConfigCandidate
  in_apiKey :: "jstr option"

record ManagedPlatformRouterSecretConfig =
  sec_config :: NormalizedStoredRouterConfig
  sec_apiKey :: jstr

record ManagedPlatformRouterDraftConfig =
  md_config :: ManagedPlatformRouterConfig
  md_testedReady :: bool
  md_testedAt :: "jstr option"
  md_keyChanged :: bool

record PlatformRouterPublicState =
  ps_config :: "ManagedPlatformRouterConfig option"
  ps_draft :: "ManagedPlatformRouterDraftConfig option"

record PlatformRouterDraftProbe =
  pb_draft :: ManagedPlatformRouterDraftConfig
  pb_secret :: ManagedPlatformRouterSecretConfig
  pb_expectedGenerationId :: jstr
  pb_expectedDraftDigest :: jstr

record FinalizationState =
  fin_auditPending :: bool
  fin_maintenancePending :: bool

record 'a PlatformRouterMutationResult =
  res_value :: 'a
  res_state :: PlatformRouterPublicState
  res_auditPending :: bool
  res_maintenancePending :: bool
  res_generationId :: jstr

section \<open>Pure helpers\<close>

definition char_code :: "jstr \<Rightarrow> nat \<Rightarrow> nat" where
  "char_code s i = (if i < length s then s ! i else 0)"

fun difference_from :: "nat \<Rightarrow> nat \<Rightarrow> nat \<Rightarrow> jstr \<Rightarrow> jstr \<Rightarrow> nat" where
  "difference_from index 0 difference left right = difference"
| "difference_from index (Suc n) difference left right =
     difference_from (Suc index) n
       (difference OR (char_code left index XOR char_code right index)) left right"

definition constantTimeTextEqual :: "jstr \<Rightarrow> jstr \<Rightarrow> bool" where
  "constantTimeTextEqual left right =
     (difference_from 0 (max (length left) (length right)) (length left XOR length right) left right = 0)"

definition draftDigest :: "platform \<Rightarrow> NormalizedStoredRouterConfig \<Rightarrow> jstr \<Rightarrow> router_error + jstr" where
  "draftDigest P config apiKey =
     rbind (normalizeStoredRouterConfig P (cand_of config)) (\<lambda>n.
     Inr (sha256 P (utf8_encode (stringify (cfg_json n)) @ [0] @ utf8_encode apiKey)))"

definition sameState ::
    "PlatformRouterSnapshot \<Rightarrow> NormalizedStoredRouterConfig option \<Rightarrow> StoredRouterDraft option \<Rightarrow> bool" where
  "sameState snapshot active draft \<longleftrightarrow>
     stringify (opt_json cfg_json (s_active snapshot)) = stringify (opt_json cfg_json active) \<and>
     stringify (opt_json draft_json (s_draft snapshot)) = stringify (opt_json draft_json draft)"

definition emptySnapshot :: PlatformRouterSnapshot where
  "emptySnapshot = \<lparr> s_source = FromEmpty, s_pointer = None, s_generationId = None,
     s_parentGenerationId = None, s_committedAt = None, s_active = None, s_draft = None,
     s_pendingAudit = [] \<rparr>"

definition normalizeMutationContext ::
    "jstr \<Rightarrow> jstr \<Rightarrow> router_error + PlatformRouterMutationContext" where
  "normalizeMutationContext actor requestId =
     rbind (boundedAuditText actor) (\<lambda>a. rbind (boundedAuditText requestId) (\<lambda>r.
     Inr \<lparr> x_actor = a, x_requestId = r \<rparr>))"

definition publicDraft ::
    "platform \<Rightarrow> StoredRouterDraft option \<Rightarrow> jstr option \<Rightarrow>
     router_error + ManagedPlatformRouterDraftConfig option" where
  "publicDraft P draft apiKey =
     (case draft of
        None \<Rightarrow> Inr None
      | Some d \<Rightarrow>
          rbind (case apiKey of
                   None \<Rightarrow> Inr None
                 | Some k \<Rightarrow> rbind (draftDigest P (d_config d) k) (\<lambda>g. Inr (Some g))) (\<lambda>digest.
          rbind (presentManagedConfig P (d_config d) (apiKey \<noteq> None)) (\<lambda>c.
          Inr (Some \<lparr> md_config = c,
            md_testedReady = (case (digest, d_attestation d) of
               (Some g, Some a) \<Rightarrow> constantTimeTextEqual (t_digest a) g | _ \<Rightarrow> False),
            md_testedAt = map_option t_testedAt (d_attestation d),
            md_keyChanged = d_keyChanged d \<rparr>))))"

definition publicState ::
    "platform \<Rightarrow> PlatformRouterSnapshot \<Rightarrow> jstr option \<Rightarrow> jstr option \<Rightarrow>
     router_error + PlatformRouterPublicState" where
  "publicState P snapshot activeApiKey draftApiKey =
     rbind (case s_active snapshot of
              None \<Rightarrow> Inr None
            | Some a \<Rightarrow> rbind (presentManagedConfig P a (activeApiKey \<noteq> None)) (\<lambda>c. Inr (Some c))) (\<lambda>config.
     rbind (publicDraft P (s_draft snapshot) draftApiKey) (\<lambda>draft.
     Inr \<lparr> ps_config = config, ps_draft = draft \<rparr>))"

definition mutationResult ::
    "'a \<Rightarrow> PlatformRouterPublicState \<Rightarrow> PlatformRouterSnapshot \<Rightarrow> FinalizationState \<Rightarrow>
     router_error + 'a PlatformRouterMutationResult" where
  "mutationResult value state committed pending =
     (case s_generationId committed of
        None \<Rightarrow> Inl StateIndeterminateError
      | Some i \<Rightarrow>
          if i = [] then Inl StateIndeterminateError
          else Inr \<lparr> res_value = value, res_state = state,
                 res_auditPending = fin_auditPending pending,
                 res_maintenancePending = fin_maintenancePending pending, res_generationId = i \<rparr>)"

section \<open>Reading\<close>

definition readValidatedSnapshot :: "PlatformRouterSnapshot io" where
  "readValidatedSnapshot =
     bnd (attempt (lstat (RootPath []))) (\<lambda>found. case found of
       Inl cause \<Rightarrow> if cause = NodeError ENOENT then ret emptySnapshot else throw cause
     | Inr _ \<Rightarrow>
         bnd readCurrentSnapshot (\<lambda>snapshot.
         thn (validateReferencedCredentials snapshot) (ret snapshot)))"

definition readSecret ::
    "NormalizedStoredRouterConfig option \<Rightarrow> ManagedPlatformRouterSecretConfig option io" where
  "readSecret config =
     (case config of
        None \<Rightarrow> ret None
      | Some c \<Rightarrow>
          bnd (lift_res (credentialStorageEntry (cfg_credentialFile c))) (\<lambda>e.
          bnd (storage_read e) (\<lambda>apiKey. case apiKey of
            None \<Rightarrow> throw TransactionError
          | Some k \<Rightarrow> ret (Some \<lparr> sec_config = c, sec_apiKey = k \<rparr>))))"

definition secret_key :: "ManagedPlatformRouterSecretConfig option \<Rightarrow> jstr option" where
  "secret_key s = map_option sec_apiKey s"

definition getState :: "PlatformRouterPublicState io" where
  "getState =
     bnd platform_of (\<lambda>P.
     bnd readValidatedSnapshot (\<lambda>snapshot.
     bnd (readSecret (s_active snapshot)) (\<lambda>a.
     bnd (readSecret (map_option d_config (s_draft snapshot))) (\<lambda>d.
     lift_res (publicState P snapshot (secret_key a) (secret_key d))))))"

definition getActive :: "ManagedPlatformRouterConfig option io" where
  "getActive = bnd getState (\<lambda>s. ret (ps_config s))"

definition getDraft :: "ManagedPlatformRouterDraftConfig option io" where
  "getDraft = bnd getState (\<lambda>s. ret (ps_draft s))"

definition readActive :: "ManagedPlatformRouterSecretConfig option io" where
  "readActive = bnd readValidatedSnapshot (\<lambda>s. readSecret (s_active s))"

definition readDraft :: "ManagedPlatformRouterSecretConfig option io" where
  "readDraft = bnd readValidatedSnapshot (\<lambda>s. readSecret (map_option d_config (s_draft s)))"

definition prepareDraftProbe :: "PlatformRouterDraftProbe io" where
  "prepareDraftProbe =
     bnd platform_of (\<lambda>P.
     bnd readValidatedSnapshot (\<lambda>snapshot.
     case (s_generationId snapshot, s_draft snapshot) of
       (Some i, Some d) \<Rightarrow>
         if s_source snapshot \<noteq> FromGeneration \<or> i = [] then throw ConfigValidation
         else
         bnd (readSecret (Some (d_config d))) (\<lambda>secret. case secret of
           None \<Rightarrow> throw ConfigValidation
         | Some k \<Rightarrow>
             bnd (lift_res (draftDigest P (d_config d) (sec_apiKey k))) (\<lambda>digest.
             bnd (lift_res (publicDraft P (Some d) (Some (sec_apiKey k)))) (\<lambda>draft. case draft of
               None \<Rightarrow> throw ConfigValidation
             | Some md \<Rightarrow> ret \<lparr> pb_draft = md, pb_secret = k, pb_expectedGenerationId = i,
                   pb_expectedDraftDigest = digest \<rparr>)))
     | _ \<Rightarrow> throw ConfigValidation))"

section \<open>Committing\<close>

definition reconcileCommit ::
    "PlatformRouterSnapshot \<Rightarrow> NormalizedStoredRouterConfig option \<Rightarrow> StoredRouterDraft option \<Rightarrow>
     jstr \<Rightarrow> jstr \<Rightarrow> PlatformRouterSnapshot io" where
  "reconcileCommit current active draft auditEventId generationId =
     bnd (catch
           (bnd readCurrentSnapshot (\<lambda>visible.
            thn (validateReferencedCredentials visible) (ret visible)))
           (\<lambda>e. throw StateIndeterminateError)) (\<lambda>visible.
     if s_source visible = FromGeneration \<and> s_generationId visible = Some generationId \<and>
        s_parentGenerationId visible = s_generationId current \<and>
        (\<exists>r \<in> set (s_pendingAudit visible). a_eventId r = auditEventId) \<and>
        sameState visible active draft
     then ret visible else throw StateIndeterminateError)"

definition commitSemanticGeneration ::
    "PlatformRouterSnapshot \<Rightarrow> NormalizedStoredRouterConfig option \<Rightarrow> StoredRouterDraft option \<Rightarrow>
     jstr \<Rightarrow> PlatformRouterLockHandle \<Rightarrow> PlatformRouterAuditRecord list \<Rightarrow> PlatformRouterSnapshot io" where
  "commitSemanticGeneration current active draft auditEventId h newAudit =
     bnd next_id (\<lambda>generationId.
     catch
       (commitGeneration
          \<lparr> gi_generationId = Some generationId, gi_parentGenerationId = s_generationId current,
            gi_committedAt = None, gi_active = active, gi_draft = draft,
            gi_pendingAudit = s_pendingAudit current @ newAudit \<rparr> h)
       (\<lambda>cause. if cause \<noteq> CommitUncertainError then throw cause
               else reconcileCommit current active draft auditEventId generationId))"

definition pendingAuditStillVisible :: "jstr list \<Rightarrow> bool io" where
  "pendingAuditStillVisible eventIds =
     catch
       (bnd readCurrentSnapshot (\<lambda>visible.
        ret (\<exists>i \<in> set eventIds. i \<in> set (map a_eventId (s_pendingAudit visible)))))
       (\<lambda>e. ret True)"

definition deliverAudit ::
    "PlatformRouterSnapshot \<Rightarrow> PlatformRouterLockHandle \<Rightarrow> bool io" where
  "deliverAudit committed h =
     (let still = pendingAuditStillVisible (map a_eventId (s_pendingAudit committed)) in
     catch
       (bnd (flushAuditOutbox committed h) (\<lambda>audit.
        catch (thn (checkpointDeliveredAudit committed (f_deliveredEventIds audit) h) (ret False))
          (\<lambda>e. still)))
       (\<lambda>e. still))"

definition finalizeCommittedGeneration ::
    "PlatformRouterSnapshot \<Rightarrow> PlatformRouterLockHandle \<Rightarrow> jsnum option \<Rightarrow> FinalizationState io" where
  "finalizeCommittedGeneration committed h gcGrace =
     bnd (deliverAudit committed h) (\<lambda>auditPending.
     bnd (catch (thn (garbageCollectPlatformRouterArtifacts h gcGrace) (ret False)) (\<lambda>e. ret True))
       (\<lambda>maintenancePending.
     ret \<lparr> fin_auditPending = auditPending, fin_maintenancePending = maintenancePending \<rparr>))"

definition writeCredentialWithReconciliation :: "jstr \<Rightarrow> jstr \<Rightarrow> unit io" where
  "writeCredentialWithReconciliation credentialFile suppliedKey =
     bnd (lift_res (credentialStorageEntry credentialFile)) (\<lambda>e.
     catch (storage_write e suppliedKey)
       (\<lambda>cause. if cause \<noteq> ProtectedUncertainError then throw cause
         else
         bnd (catch (storage_read e) (\<lambda>c. throw StorageUncertainError)) (\<lambda>visible.
         case visible of
           Some v \<Rightarrow> guard (constantTimeTextEqual v suppliedKey) StorageUncertainError
         | None \<Rightarrow> throw StorageUncertainError)))"

section \<open>Mutations\<close>

definition audit_event ::
    "jstr \<Rightarrow> audit_action \<Rightarrow> PlatformRouterMutationContext \<Rightarrow> NormalizedStoredRouterConfig \<Rightarrow> bool \<Rightarrow>
     PlatformRouterAuditEvent" where
  "audit_event i action ctx config keyChanged =
     \<lparr> e_eventId = Some i, e_action = action, e_actor = x_actor ctx, e_requestId = x_requestId ctx,
       e_endpoint = cfg_endpoint config, e_model = cfg_model config,
       e_enabled = cfg_enabled config, e_keyChanged = keyChanged \<rparr>"

definition buildAudit ::
    "audit_action \<Rightarrow> PlatformRouterMutationContext \<Rightarrow> NormalizedStoredRouterConfig \<Rightarrow> bool \<Rightarrow>
     PlatformRouterAuditRecord io" where
  "buildAudit action ctx config keyChanged =
     bnd platform_of (\<lambda>P.
     bnd next_id (\<lambda>i.
     bnd now_iso (\<lambda>t.
     lift_res (buildPlatformRouterAuditRecord P (audit_event i action ctx config keyChanged) (Some t) []))))"

definition stage_locked ::
    "ManagedPlatformRouterInput \<Rightarrow> PlatformRouterMutationContext \<Rightarrow> jsnum option \<Rightarrow>
     PlatformRouterLockHandle \<Rightarrow> ManagedPlatformRouterDraftConfig PlatformRouterMutationResult io" where
  "stage_locked input ctx gcGrace h =
     bnd platform_of (\<lambda>P.
     bnd readValidatedSnapshot (\<lambda>current.
     bnd (readSecret (s_active current)) (\<lambda>activeSecret.
     let suppliedKey = (case in_apiKey input of
           None \<Rightarrow> None | Some k \<Rightarrow> if trim k = [] then None else Some (trim k));
         inherited = (case s_draft current of Some d \<Rightarrow> Some (d_config d) | None \<Rightarrow> s_active current) in
     bnd (readSecret inherited) (\<lambda>existing.
     let existingKey = secret_key existing in
     thn (guard (suppliedKey \<noteq> None \<or> existingKey \<noteq> None) ConfigValidation)
    (bnd (case suppliedKey of
            Some k \<Rightarrow> bnd next_id (\<lambda>i. ret (js ''platform-router-key-'' @ i @ js ''.key''))
          | None \<Rightarrow> ret (case inherited of Some c \<Rightarrow> cfg_credentialFile c | None \<Rightarrow> LEGACY_ROUTER_KEY_FILE))
       (\<lambda>credentialFile.
     let keyChanged = (suppliedKey \<noteq> None \<and> suppliedKey \<noteq> existingKey) in
     bnd (lift_res (normalizeManagedRouterInput P (in_config input) credentialFile)) (\<lambda>config.
     thn (case suppliedKey of
            Some k \<Rightarrow> writeCredentialWithReconciliation credentialFile k | None \<Rightarrow> ret ())
    (let draft = \<lparr> d_config = config, d_keyChanged = keyChanged, d_attestation = None \<rparr> in
     bnd (buildAudit StageAction ctx config keyChanged) (\<lambda>audit.
     bnd (commitSemanticGeneration current (s_active current) (Some draft) (a_eventId audit) h [audit])
       (\<lambda>committed.
     bnd (lift_res (publicState P committed (secret_key activeSecret)
            (case suppliedKey of Some k \<Rightarrow> Some k | None \<Rightarrow> existingKey))) (\<lambda>state.
     bnd (finalizeCommittedGeneration committed h gcGrace) (\<lambda>pending.
     case ps_draft state of
       None \<Rightarrow> throw StateIndeterminateError
     | Some d \<Rightarrow> lift_res (mutationResult d state committed pending)))))))))))))"

definition stage ::
    "ManagedPlatformRouterInput \<Rightarrow> PlatformRouterMutationContext \<Rightarrow> jsnum option \<Rightarrow> jsnum option \<Rightarrow>
     jsnum option \<Rightarrow> ManagedPlatformRouterDraftConfig PlatformRouterMutationResult io" where
  "stage input context timeout grace gcGrace =
     bnd (lift_res (normalizeMutationContext (x_actor context) (x_requestId context))) (\<lambda>ctx.
     thn (recoverPlatformRouterTransactions timeout grace gcGrace)
         (withPlatformRouterLock (stage_locked input ctx gcGrace) timeout grace))"

definition markTested_locked ::
    "PlatformRouterMarkTestedInput \<Rightarrow> PlatformRouterMutationContext \<Rightarrow> jsnum option \<Rightarrow>
     PlatformRouterLockHandle \<Rightarrow> ManagedPlatformRouterDraftConfig PlatformRouterMutationResult io" where
  "markTested_locked input ctx gcGrace h =
     bnd platform_of (\<lambda>P.
     bnd readValidatedSnapshot (\<lambda>current.
     bnd (readSecret (s_active current)) (\<lambda>activeSecret.
     case s_draft current of
       None \<Rightarrow> throw ConflictError
     | Some d \<Rightarrow>
         thn (guard (s_source current = FromGeneration \<and>
                     s_generationId current = Some (mt_expectedGenerationId input)) ConflictError)
        (bnd (readSecret (Some (d_config d))) (\<lambda>secret. case secret of
           None \<Rightarrow> throw ConflictError
         | Some k \<Rightarrow>
             bnd (lift_res (draftDigest P (d_config d) (sec_apiKey k))) (\<lambda>digest.
             thn (guard (constantTimeTextEqual digest (mt_expectedDraftDigest input)) ConflictError)
            (bnd now_iso (\<lambda>testedAt.
             let draft = d\<lparr> d_attestation := Some \<lparr> t_digest = digest, t_testedAt = testedAt,
                   t_requestId = x_requestId ctx \<rparr> \<rparr> in
             bnd (buildAudit TestAction ctx (d_config draft) (d_keyChanged draft)) (\<lambda>audit.
             bnd (commitSemanticGeneration current (s_active current) (Some draft) (a_eventId audit) h [audit])
               (\<lambda>committed.
             bnd (lift_res (publicState P committed (secret_key activeSecret) (Some (sec_apiKey k)))) (\<lambda>state.
             bnd (finalizeCommittedGeneration committed h gcGrace) (\<lambda>pending.
             case ps_draft state of
               None \<Rightarrow> throw StateIndeterminateError
             | Some d \<Rightarrow> lift_res (mutationResult d state committed pending)))))))))))))"

definition markTested ::
    "PlatformRouterMarkTestedInput \<Rightarrow> jsnum option \<Rightarrow> jsnum option \<Rightarrow> jsnum option \<Rightarrow>
     ManagedPlatformRouterDraftConfig PlatformRouterMutationResult io" where
  "markTested input timeout grace gcGrace =
     bnd (lift_res (normalizeMutationContext (mt_actor input) (mt_requestId input))) (\<lambda>ctx.
     thn (guard (mt_status input = None \<or> mt_status input = Some (js ''ready'')) ConfigValidation)
    (thn (guard (length (mt_expectedDraftDigest input) = 64 \<and>
                 list_all is_hex (mt_expectedDraftDigest input)) ConfigValidation)
    (thn (recoverPlatformRouterTransactions timeout grace gcGrace)
         (withPlatformRouterLock (markTested_locked input ctx gcGrace) timeout grace))))"

definition activate_locked ::
    "PlatformRouterMutationContext \<Rightarrow> jsnum option \<Rightarrow> PlatformRouterLockHandle \<Rightarrow>
     ManagedPlatformRouterConfig PlatformRouterMutationResult io" where
  "activate_locked ctx gcGrace h =
     bnd platform_of (\<lambda>P.
     bnd readValidatedSnapshot (\<lambda>current.
     case s_draft current of
       None \<Rightarrow> throw ConfigValidation
     | Some d \<Rightarrow> (case d_attestation d of
         None \<Rightarrow> throw ConfigValidation
       | Some attestation \<Rightarrow>
         bnd (readSecret (Some (d_config d))) (\<lambda>secret. case secret of
           None \<Rightarrow> throw ConfigValidation
         | Some k \<Rightarrow>
             bnd (lift_res (draftDigest P (d_config d) (sec_apiKey k))) (\<lambda>digest.
             thn (guard (constantTimeTextEqual (t_digest attestation) digest) ConflictError)
            (thn (guard (cfg_enabled (d_config d)) ConfigValidation)
            (bnd (lift_res (normalizeStoredRouterConfig P (cand_of (d_config d)))) (\<lambda>active.
             bnd (buildAudit ActivateAction ctx active (d_keyChanged d)) (\<lambda>audit.
             bnd (commitSemanticGeneration current (Some active) None (a_eventId audit) h [audit])
               (\<lambda>committed.
             bnd (lift_res (publicState P committed (Some (sec_apiKey k)) None)) (\<lambda>state.
             bnd (finalizeCommittedGeneration committed h gcGrace) (\<lambda>pending.
             case ps_config state of
               None \<Rightarrow> throw StateIndeterminateError
             | Some c \<Rightarrow> lift_res (mutationResult c state committed pending)))))))))))))"

definition activate ::
    "PlatformRouterMutationContext \<Rightarrow> jsnum option \<Rightarrow> jsnum option \<Rightarrow> jsnum option \<Rightarrow>
     ManagedPlatformRouterConfig PlatformRouterMutationResult io" where
  "activate context timeout grace gcGrace =
     bnd (lift_res (normalizeMutationContext (x_actor context) (x_requestId context))) (\<lambda>ctx.
     thn (recoverPlatformRouterTransactions timeout grace gcGrace)
         (withPlatformRouterLock (activate_locked ctx gcGrace) timeout grace))"

end
