(* ===== verification/Router_Effects.thy ===== *)
theory Router_Effects
  imports Router_Atomicity Router_Lifecycle
begin

text \<open>
  What the operations other than a commit may change: the audit journal is only written
  under its own name, garbage collection only removes managed credentials, the protected
  storage only touches its entry and a private temporary file. None of these is a name of
  the configuration store, so the visible snapshot stays as it is.
\<close>

section \<open>Names outside the store\<close>

lemma managed_not_router: "MANAGED_ROUTER_KEY_FILE n \<Longrightarrow> \<not> router_name n"
proof
  assume m: "MANAGED_ROUTER_KEY_FILE n" and r: "router_name n"
  then have "length n = 60" by (simp add: MANAGED_ROUTER_KEY_FILE_def)
  with r name_lengths(1,2) name_lengths(3) [of n] show False
    by (auto simp: router_name_def GENERATION_FILE_PATTERN_def POINTER_TEMP_PATTERN_def
        GENERATION_TEMP_PATTERN_def)
qed

lemma not_router_name:
  assumes "n \<noteq> POINTER_FILE" "n \<noteq> GENERATION_DIRECTORY" "n \<notin> set legacy_names"
    and "length n \<notin> {41, 65, 78}"
  shows "\<not> router_name n"
  using assms by (auto simp: router_name_def GENERATION_FILE_PATTERN_def POINTER_TEMP_PATTERN_def
      GENERATION_TEMP_PATTERN_def)

lemma audit_not_router: "\<not> router_name AUDIT_FILE"
  by (rule not_router_name)
     (auto simp: AUDIT_FILE_def POINTER_FILE_def GENERATION_DIRECTORY_def legacy_names_def js_simps)

lemma legacy_key_not_router: "\<not> router_name LEGACY_ROUTER_KEY_FILE"
  by (rule not_router_name)
     (auto simp: LEGACY_ROUTER_KEY_FILE_def POINTER_FILE_def GENERATION_DIRECTORY_def legacy_names_def js_simps)

lemma credential_not_router: "normalizeCredentialFile v = Inr n \<Longrightarrow> \<not> router_name n"
  using managed_not_router legacy_key_not_router
  by (auto simp: normalizeCredentialFile_def Let_def split: if_splits)

lemma credential_head:
  assumes "normalizeCredentialFile v = Inr n"
  shows "n ! 0 = 112" "n ! 16 = 107" "16 < length n"
proof -
  from assms consider "n = LEGACY_ROUTER_KEY_FILE" | "MANAGED_ROUTER_KEY_FILE n"
    by (auto simp: normalizeCredentialFile_def Let_def split: if_splits)
  then have "n ! 0 = 112 \<and> n ! 16 = 107 \<and> 16 < length n"
  proof cases
    case 1
    then show ?thesis by (simp add: LEGACY_ROUTER_KEY_FILE_def js_simps)
  next
    case 2
    then have l: "length n = 60" and t: "take 20 n = js ''platform-router-key-''"
      by (simp_all add: MANAGED_ROUTER_KEY_FILE_def)
    have "n ! 0 = take 20 n ! 0" "n ! 16 = take 20 n ! 16" using l by simp_all
    with l show ?thesis unfolding t by (simp add: js_simps)
  qed
  then show "n ! 0 = 112" "n ! 16 = 107" "16 < length n" by simp_all
qed

lemma storage_temp_not_router:
  assumes "normalizeCredentialFile v = Inr n"
  shows "\<not> router_name (storage_temp_name n i)"
proof
  let ?s = "storage_temp_name n i"
  have len: "17 < length ?s" and h: "?s ! 0 = 46" and k: "?s ! 17 = 107" and p: "?s ! 1 = 112"
    using credential_head [OF assms]
    by (auto simp: storage_temp_name_def nth_append js_simps)
  assume "router_name ?s"
  then consider "?s = POINTER_FILE" | "?s = GENERATION_DIRECTORY" | "?s \<in> set legacy_names"
    | "GENERATION_FILE_PATTERN ?s" | "POINTER_TEMP_PATTERN ?s" | "GENERATION_TEMP_PATTERN ?s"
    by (auto simp: router_name_def)
  then show False
  proof cases
    case 4
    then have "list_all (\<lambda>c. is_hex c \<or> c = 45) (take 36 ?s)" by (simp add: GENERATION_FILE_PATTERN_def hexdash36_def)
    moreover have "take 36 ?s ! 0 = 46" "0 < length (take 36 ?s)" using h len by auto
    ultimately show False
      by (auto simp: list_all_length is_hex_def is_hex_lower_def is_digit_def dest!: spec [of _ 0])
  next
    case 5
    then have "to_lower (take 25 ?s) = js ''.platform-router.current.''"
      by (simp add: POINTER_TEMP_PATTERN_def starts_with_nocase_def eval_nat_numeral)
    then have "to_lower (take 25 ?s) ! 17 = js ''.platform-router.current.'' ! 17" by simp
    moreover have "to_lower (take 25 ?s) ! 17 = lower1 (?s ! 17)" using len by (simp add: to_lower_def)
    ultimately show False using k by (simp add: js_simps lower1_def is_upper_def)
  next
    case 6
    then have "list_all (\<lambda>c. is_hex c \<or> c = 45) (take 36 (drop 1 ?s))" by (simp add: GENERATION_TEMP_PATTERN_def hexdash36_def)
    moreover have "take 36 (drop 1 ?s) ! 0 = 112" "0 < length (take 36 (drop 1 ?s))" using p len by auto
    ultimately show False
      by (auto simp: list_all_length is_hex_def is_hex_lower_def is_digit_def dest!: spec [of _ 0])
  qed (use h in \<open>auto simp: POINTER_FILE_def GENERATION_DIRECTORY_def legacy_names_def js_simps\<close>)
qed

section \<open>Frames\<close>

lemma free_store: "\<not> router_name n \<Longrightarrow> free_name (Kz X) (Lz Y) n"
  by (simp add: free_name_def Kz_def Lz_def)

lemma keeps_or_else [keeps_intro]: "keeps M (wframe K L) (or_else r e)"
  unfolding or_else_def by (auto split: sum.split intro: combinators)

lemma keeps_reads [keeps_intro]:
  assumes "rely K L M"
  shows "keeps M (wframe K L) (readRequired p)" "keeps M (wframe K L) (generationPathFor i)"
    "keeps M (wframe K L) readLegacySnapshot" "keeps M (wframe K L) readCurrentSnapshot"
    "keeps M (wframe K L) (readGenerationWithoutPointer i)"
proof -
  show r: "keeps M (wframe K L) (readRequired p)" for p
    unfolding readRequired_def by (intro combinators keeps_intro assms)
  show g: "keeps M (wframe K L) (generationPathFor i)" for i
    unfolding generationPathFor_def by (intro combinators)
  show l: "keeps M (wframe K L) readLegacySnapshot"
    unfolding readLegacySnapshot_def readLegacyEntry_def by (intro combinators keeps_intro assms)
  show "keeps M (wframe K L) readCurrentSnapshot"
    unfolding readCurrentSnapshot_def by (intro combinators keeps_intro assms r g l)
  show "keeps M (wframe K L) (readGenerationWithoutPointer i)"
    unfolding readGenerationWithoutPointer_def by (intro combinators keeps_intro assms r g)
qed

lemma keeps_validateReferenced [keeps_intro]:
  "rely K L M \<Longrightarrow> keeps M (wframe K L) (validateReferencedCredentials s)"
  unfolding validateReferencedCredentials_def check_credential_def
  by (intro combinators keeps_intro)

lemma keeps_scan_loop [keeps_intro]:
  "rely K L M \<Longrightarrow> keeps M (wframe K L) (scan_loop n P wanted f pos st)"
proof (induction n arbitrary: pos st)
  case 0
  show ?case by (simp add: keeps_def wframe_def frame_refl)
next
  case (Suc n)
  then show ?case unfolding scan_loop.simps by (intro combinators keeps_intro)
qed

lemma keeps_scan [keeps_intro]: "rely K L M \<Longrightarrow> keeps M (wframe K L) (scanAndRepairAuditJournal wanted)"
  unfolding scanAndRepairAuditJournal_def by (intro combinators keeps_intro)

lemma keeps_append_records [keeps_intro]:
  assumes "rely K L M" "free_name K L AUDIT_FILE"
  shows "keeps M (wframe K L) (append_records h missing existed)"
  unfolding append_records_def Let_def
proof (rule fr.keeps_with_fd_returns [OF _ returns_thn [OF returns_thn [OF returns_open_append]]])
  show "keeps M (wframe K L) (thn (assertRegularPathIfPresent auditPath)
      (thn (assertPlatformRouterLockOwned h) (open_append auditPath)))"
    using assms by (intro combinators keeps_intro free_new) (simp_all add: auditPath_def)
  fix f :: fd assume "snd f = basename auditPath"
  with assms show "keeps M (wframe K L) (bnd (fstat f) (\<lambda>v. thn (guard (is_file v) CorruptionError)
      (thn (assertPlatformRouterLockOwned h) (thn no_effect (thn (assertPlatformRouterLockOwned h)
      (thn (each (\<lambda>r. thn (assertPlatformRouterLockOwned h) (writeAll f (json_line (audit_json r)))) missing)
      (thn (assertPlatformRouterLockOwned h)
      (thn (fsync_file f) (run_if (\<not> existed) (fsyncDirectory (RootPath [])))))))))))"
    by (intro combinators keeps_intro) (simp_all add: auditPath_def)
qed (intro combinators keeps_intro assms)+

lemma keeps_flush [keeps_intro]:
  "rely K L M \<Longrightarrow> free_name K L AUDIT_FILE \<Longrightarrow> keeps M (wframe K L) (flushAuditOutbox s h)"
  unfolding flushAuditOutbox_def by (intro combinators keeps_intro)

lemma keeps_lineage [keeps_intro]: "rely K L M \<Longrightarrow> keeps M (wframe K L) (lineage n visited i)"
  by (induction n visited i rule: lineage.induct) (auto intro!: combinators keeps_intro)

lemma keeps_readdir [keeps_intro]: "rely K L M \<Longrightarrow> keeps M (wframe K L) (readdir p)"
  unfolding readdir_def by (rule keeps_sys) (auto elim!: rbindE intro: frame_refl)

lemma keeps_retain [keeps_intro]: "rely K L M \<Longrightarrow> keeps M (wframe K L) (retain_recent c kept n)"
  unfolding retain_recent_def by (intro combinators keeps_intro)

lemma keeps_collect [keeps_intro]:
  assumes "rely K L M" and "MANAGED_ROUTER_KEY_FILE n \<Longrightarrow> n \<notin> referenced \<Longrightarrow> free_name K L n"
  shows "keeps M (wframe K L) (collect_credential h cutoff referenced removed n)"
  unfolding collect_credential_def
  by (intro combinators keeps_intro assms(1)) (auto intro: assms(2))

lemma keeps_gc [keeps_intro]:
  assumes "rely K L M" and "\<And>n. MANAGED_ROUTER_KEY_FILE n \<Longrightarrow> free_name K L n"
  shows "keeps M (wframe K L) (garbageCollectPlatformRouterArtifacts h g)"
  unfolding garbageCollectPlatformRouterArtifacts_def Let_def
  by (intro combinators keeps_intro assms)

section \<open>Protected storage\<close>

lemma keeps_storage_helpers [keeps_intro]:
  assumes "rely K L M"
  shows "keeps M (wframe K L) (storage_assertRegular p)" "keeps M (wframe K L) (storage_assertTrusted p)"
  unfolding storage_assertRegular_def storage_assertTrusted_def by (intro combinators keeps_intro assms)+

lemma keeps_storage_read [keeps_intro]: "rely K L M \<Longrightarrow> keeps M (wframe K L) (storage_read e)"
  unfolding storage_read_def by (intro combinators keeps_intro)

lemma keeps_storage_writeAll [keeps_intro]:
  assumes "rely K L M" "free_name K L (snd f)"
  shows "keeps M (wframe K L) (storage_writeAll f bs)"
  using assms(2)
proof (induction f bs rule: storage_writeAll.induct)
  case (1 f bs)
  then show ?case
    by (subst storage_writeAll.simps) (auto intro!: combinators keeps_intro assms(1))
qed

lemma keeps_removeTemporaryFile [keeps_intro]:
  "rely K L M \<Longrightarrow> free_name K L (basename p) \<Longrightarrow> keeps M (wframe K L) (removeTemporaryFile p)"
  unfolding removeTemporaryFile_def by (intro combinators keeps_intro)

lemma keeps_storage_publish [keeps_intro]:
  assumes "rely K L M" "free_name K L name" "free_name K L (basename temporary)"
  shows "keeps M (wframe K L) (storage_publish name temporary bs)"
  unfolding storage_publish_def
  by (intro combinators keeps_intro assms fr.keeps_bnd_returns [OF _ returns_open_excl] free_new)
     (use assms in auto)

definition entry_free :: "zone \<Rightarrow> zone \<Rightarrow> PlatformRouterStorageEntry \<Rightarrow> bool" where
  "entry_free K L e \<longleftrightarrow> (\<forall>name i. entry_file e = Inr name \<longrightarrow>
     free_name K L name \<and> free_name K L (storage_temp_name name i))"

lemma credential_entry_free:
  "credentialStorageEntry f = Inr e \<Longrightarrow> entry_free (Kz X) (Lz Y) e"
  using credential_not_router storage_temp_not_router
  by (auto simp: entry_free_def credentialStorageEntry_def rbind_Inr intro!: free_store)

lemma keeps_bnd_lift:
  "(\<And>x. r = Inr x \<Longrightarrow> keeps M (wframe K L) (f x)) \<Longrightarrow> keeps M (wframe K L) (bnd (lift_res r) f)"
  by (cases r) (auto simp: lift_res_def ret_def bnd_def throw_def keeps_def wframe_def frame_refl)

lemma keeps_storage_write [keeps_intro]:
  assumes "rely K L M" "entry_free K L e"
  shows "keeps M (wframe K L) (storage_write e value)"
  unfolding storage_write_def Let_def
  by (rule fr.keeps_if, rule fr.keeps_throw, rule keeps_bnd_lift, intro combinators keeps_intro assms)
     (use assms in \<open>auto simp: entry_free_def split: sum.split intro!: combinators keeps_intro\<close>)

lemma keeps_storage_remove [keeps_intro]:
  assumes "rely K L M" "entry_free K L e"
  shows "keeps M (wframe K L) (storage_remove e)"
  unfolding storage_remove_def
  by (rule keeps_bnd_lift, intro combinators keeps_intro assms)
     (use assms in \<open>auto simp: entry_free_def split: sum.split intro!: combinators keeps_intro\<close>)

lemma keeps_writeCredential [keeps_intro]:
  assumes "rely (Kz X) (Lz Y) M"
  shows "keeps M (wframe (Kz X) (Lz Y)) (writeCredentialWithReconciliation f k)"
  unfolding writeCredentialWithReconciliation_def
  by (rule keeps_bnd_lift, intro combinators keeps_intro assms) (rule credential_entry_free)

lemma keeps_readSecret [keeps_intro]: "rely K L M \<Longrightarrow> keeps M (wframe K L) (readSecret c)"
  unfolding readSecret_def by (intro combinators keeps_intro)

lemma keeps_readValidated [keeps_intro]: "rely K L M \<Longrightarrow> keeps M (wframe K L) readValidatedSnapshot"
  unfolding readValidatedSnapshot_def
  by (intro combinators keeps_intro) (auto split: sum.split intro!: combinators keeps_intro)

lemma keeps_buildAudit [keeps_intro]: "keeps M (wframe K L) (buildAudit a ctx c k)"
  unfolding buildAudit_def by (intro combinators keeps_intro)

end
