(* ===== verification/Router_Mutation.thy ===== *)
theory Router_Mutation
  imports Router_Effects
begin

unbundle bit_operations_syntax

text \<open>
  The mutations of the lifecycle change the configuration atomically: \<open>stage\<close>,
  \<open>markTested\<close> and \<open>activate\<close>, run under the lock, either leave the visible configuration as
  it was or replace it by exactly the one they build, for every schedule of faults; and an
  activation only publishes a draft whose test digest matches.
\<close>

section \<open>Comparison in constant time\<close>

lemma xor_zero: "(a::nat) XOR b = 0 \<longleftrightarrow> a = b"
  by (auto simp: bit_eq_iff bit_simps)

lemma difference_zero:
  "difference_from i n d l r = 0 \<longleftrightarrow> d = 0 \<and> (\<forall>j. i \<le> j \<and> j < i + n \<longrightarrow> char_code l j = char_code r j)"
proof (induction n arbitrary: i d)
  case (Suc n)
  have split: "(\<forall>j. i \<le> j \<and> j < i + Suc n \<longrightarrow> p j) \<longleftrightarrow> p i \<and> (\<forall>j. Suc i \<le> j \<and> j < Suc i + n \<longrightarrow> p j)" for p
    by (metis Suc_leD Suc_leI add_Suc add_Suc_right le_eq_less_or_eq less_add_Suc1)
  show ?case
    unfolding difference_from.simps Suc.IH split
    by (auto simp: or_eq_0_iff xor_zero)
qed auto

lemma constantTime_correct: "constantTimeTextEqual l r \<longleftrightarrow> l = r"
  unfolding constantTimeTextEqual_def difference_zero xor_zero
  by (auto simp: char_code_def list_eq_iff_nth_eq)

section \<open>Stores with a generation\<close>

definition has_generations :: "nat \<Rightarrow> disk \<Rightarrow> bool" where
  "has_generations r d \<longleftrightarrow> wf_store r d \<and> entry d r GENERATION_DIRECTORY \<noteq> None"

lemma wf_same:
  assumes "wf_store r d0" "same_store d0 d"
  shows "wf_store r d"
proof -
  have e: "entry d r GENERATION_DIRECTORY = entry d0 r GENERATION_DIRECTORY"
    using zone_entry [OF assms(2), of r GENERATION_DIRECTORY] assms(1) by (simp add: wf_store_def)
  have "k_inode d0 \<le> k_inode d" "k_root d = k_root d0" using assms(2) by (simp_all add: frame_def)
  with assms(1) e show ?thesis by (auto simp: wf_store_def intro: less_le_trans)
qed

lemma has_generations_same: "has_generations r d0 \<Longrightarrow> same_store d0 d \<Longrightarrow> has_generations r d"
  using zone_entry [of "{}" "{}" d0 d r GENERATION_DIRECTORY] wf_same [of r d0 d]
  by (simp add: has_generations_def wf_store_def)

lemma has_generations_unchanged:
  assumes "has_generations r d0" "unchanged d0 d"
  shows "has_generations r d"
proof -
  from assms(2) obtain gid t1 t2 where
    f: "frame (Kz (commit_names gid (generation_temp_name gid t1) (pointer_temp_name t2))) (Lz (once_names gid)) d0 d"
    by (auto simp: unchanged_def old_disk_def)
  have r: "r < k_inode d0" and p: "entry d0 r GENERATION_DIRECTORY \<noteq> None"
    using assms(1) by (simp_all add: has_generations_def wf_store_def)
  have "entry d r GENERATION_DIRECTORY = entry d0 r GENERATION_DIRECTORY"
    using zone_present [OF f r _ _ p] by (simp add: once_names_def)
  moreover have "k_inode d0 \<le> k_inode d" "k_root d = k_root d0" using f by (simp_all add: frame_def)
  ultimately show ?thesis
    using assms(1) by (auto simp: has_generations_def wf_store_def intro: less_le_trans)
qed

lemma has_generations_replaced:
  "wf_store r d0 \<Longrightarrow> replaced r g p d0 d \<Longrightarrow> has_generations r d"
  by (auto simp: replaced_def new_disk_def gens_at_def has_generations_def wf_store_def frame_def
      settled_file_def)

text \<open>Worlds that show a snapshot, and worlds that show one in a store with generations.\<close>

definition shows_snap :: "machine \<Rightarrow> nat \<Rightarrow> PlatformRouterSnapshot \<Rightarrow> world \<Rightarrow> bool" where
  "shows_snap M r s = on (\<lambda>d. wf_store r d \<and> visible (mc_platform M) d = Inr s)"

definition shows_gen :: "machine \<Rightarrow> nat \<Rightarrow> PlatformRouterSnapshot \<Rightarrow> world \<Rightarrow> bool" where
  "shows_gen M r s = on (\<lambda>d. has_generations r d \<and> visible (mc_platform M) d = Inr s)"

lemma gen_snap: "shows_gen M r s w \<Longrightarrow> shows_snap M r s w"
  by (simp add: shows_gen_def shows_snap_def on_def has_generations_def)

lemma visible_same: "wf_store r d0 \<Longrightarrow> same_store d0 d \<Longrightarrow> visible P d0 = Inr s \<Longrightarrow> visible P d = Inr s"
  by (rule visible_unchanged [OF same_unchanged])

lemma snap_stable: "shows_snap M r s w \<Longrightarrow> wframe (Kz {}) (Lz {}) w w' \<Longrightarrow> shows_snap M r s w'"
  by (auto simp: shows_snap_def on_def wframe_def wf_same visible_same)

lemma gen_stable: "shows_gen M r s w \<Longrightarrow> wframe (Kz {}) (Lz {}) w w' \<Longrightarrow> shows_gen M r s w'"
  using has_generations_same [of r "w_disk w" "w_disk w'"] visible_same [of r "w_disk w" "w_disk w'"]
  by (simp add: shows_gen_def on_def wframe_def has_generations_def)

lemma outcome_same:
  fixes m :: "'a io"
  assumes "keeps M (wframe (Kz {}) (Lz {})) m"
  shows "outcome M (shows_snap M r s) m (\<lambda>_. shows_snap M r s) (\<lambda>_. shows_snap M r s) (shows_snap M r s)"
    and "outcome M (shows_gen M r s) m (\<lambda>_. shows_gen M r s) (\<lambda>_. shows_gen M r s) (shows_gen M r s)"
proof -
  show "outcome M (shows_snap M r s) m (\<lambda>_. shows_snap M r s) (\<lambda>_. shows_snap M r s) (shows_snap M r s)"
    by (rule fr.keeps_outcome [OF assms snap_stable])
  show "outcome M (shows_gen M r s) m (\<lambda>_. shows_gen M r s) (\<lambda>_. shows_gen M r s) (shows_gen M r s)"
    by (rule fr.keeps_outcome [OF assms gen_stable])
qed

text \<open>The triples of a program are those of its runs from one disk.\<close>

lemma outcome_from:
  assumes "\<And>w. P w \<Longrightarrow> outcome M (on (same_store (w_disk w))) m (Q' w) (X' w) (C' w)"
    and "\<And>w x w'. P w \<Longrightarrow> Q' w x w' \<Longrightarrow> Q x w'" and "\<And>w e w'. P w \<Longrightarrow> X' w e w' \<Longrightarrow> X e w'"
    and "\<And>w w'. P w \<Longrightarrow> C' w w' \<Longrightarrow> C w'"
  shows "outcome M P m Q X C"
  unfolding outcome_def
proof (intro allI impI)
  fix w assume w: "P w"
  have o: "on (same_store (w_disk w)) w" by (simp add: on_def frame_refl)
  obtain r w' where r: "m M w = (r, w')" by fastforce
  note d = outcomeD [OF assms(1) [OF w] o]
  show "case m M w of (Ret x, w') \<Rightarrow> Q x w' | (Throw e, w') \<Rightarrow> X e w' | (Crash, w') \<Rightarrow> C w'"
    using r d w assms(2-4) by (cases r) auto
qed

lemma outcome_read_snap:
  assumes "calm M"
  shows "outcome M (shows_snap M r s) readCurrentSnapshot
     (\<lambda>x w. shows_snap M r s w \<and> x = s) (\<lambda>_. shows_snap M r s) (shows_snap M r s)"
proof (rule outcome_from)
  show "outcome M (on (same_store (w_disk w))) readCurrentSnapshot
      (\<lambda>x w'. on (same_store (w_disk w)) w' \<and> visible (mc_platform M) (w_disk w) = Inr x)
      (\<lambda>_. on (same_store (w_disk w))) (on (same_store (w_disk w)))" if "shows_snap M r s w" for w
    using that by (intro read_outcome [OF assms]) (auto simp: shows_snap_def on_def)
qed (auto simp: shows_snap_def on_def wf_same visible_same)

lemma outcome_read_gen:
  assumes "calm M"
  shows "outcome M (shows_gen M r s) readCurrentSnapshot
     (\<lambda>x w. shows_gen M r s w \<and> x = s) (\<lambda>_. shows_gen M r s) (shows_gen M r s)"
proof -
  have "outcome M (shows_gen M r s) readCurrentSnapshot (\<lambda>x _. x = s) (\<lambda>_ _. True) (\<lambda>_. True)"
    by (rule outcome_weaken [OF outcome_read_snap [OF assms]]) (auto intro: gen_snap)
  from outcome_conj [OF outcome_same(2) [OF keeps_reads(4) [OF calm_rely [OF assms]]] this]
  show ?thesis by (rule outcome_weaken) auto
qed

section \<open>Commits\<close>

definition snap_ok :: "platform \<Rightarrow> PlatformRouterSnapshot \<Rightarrow> bool" where
  "snap_ok P s \<longleftrightarrow>
     (\<forall>c. s_active s = Some c \<longrightarrow> cfg_ok P c) \<and>
     (\<forall>d. s_draft s = Some d \<longrightarrow> draft_fixed P d \<and> wf_json (draft_json d)) \<and>
     (\<forall>a \<in> set (s_pendingAudit s). audit_ok P a \<and> wf_json (audit_json a))"

lemma carries_ok: "input_ok P input \<Longrightarrow> carries input s \<Longrightarrow> snap_ok P s"
  by (auto simp: input_ok_def carries_def snap_ok_def)

text \<open>What a machine must provide for a commit: the laws of its parameters, and calm.\<close>

definition fit :: "machine \<Rightarrow> bool" where
  "fit M \<longleftrightarrow> calm M \<and> url_laws (mc_platform M) \<and> sha_law (mc_platform M)"

lemma fit_calm: "fit M \<Longrightarrow> calm M"
  by (simp add: fit_def)

lemma committed_gen:
  assumes "fit M" and "input_ok (mc_platform M) input" and "wf_store r d0"
    and "committable (mc_platform M) input g"
    and "replaced r g (pointer_to (mc_platform M) g) d0 (w_disk w)"
  shows "shows_gen M r (snapshotFromGeneration g (pointer_to (mc_platform M) g)) w \<and>
     carries input (snapshotFromGeneration g (pointer_to (mc_platform M) g))"
  using assms has_generations_replaced [OF assms(3,5)] shows_committed(1) [OF _ _ assms(2,4,5)]
    carries_snapshot [OF assms(2,4)]
  by (simp add: shows_gen_def on_def fit_def)

lemma may_have_committed_gen:
  assumes "fit M" and "input_ok (mc_platform M) input" and "wf_store r d0"
    and "may_have_committed (mc_platform M) input r d0 w"
  shows "\<exists>s. shows_gen M r s w \<and> carries input s"
proof -
  from assms(4) obtain g where g: "committable (mc_platform M) input g"
      "replaced r g (pointer_to (mc_platform M) g) d0 (w_disk w)"
    by (auto simp: may_have_committed_def)
  from committed_gen [OF assms(1-3) g] show ?thesis by blast
qed

lemma outcome_commit:
  assumes M: "fit M" and ok: "input_ok (mc_platform M) input"
  shows "outcome M (shows_snap M r s) (commitGeneration input h)
     (\<lambda>s' w. shows_gen M r s' w \<and> carries input s')
     (\<lambda>e w. if e = CommitUncertainError then \<exists>s'. shows_gen M r s' w \<and> carries input s'
            else visible (mc_platform M) (w_disk w) = Inr s)
     (\<lambda>w. visible (mc_platform M) (w_disk w) = Inr s \<or> shows_new (mc_platform M) input (w_disk w))"
proof (rule outcome_from)
  let ?P = "mc_platform M"
  have laws: "url_laws ?P" "sha_law ?P" using M by (simp_all add: fit_def)
  fix w assume w: "shows_snap M r s w"
  then have wf: "wf_store r (w_disk w)" and vis: "visible ?P (w_disk w) = Inr s"
    by (simp_all add: shows_snap_def on_def)
  show "outcome M (on (same_store (w_disk w))) (commitGeneration input h)
      (ends_committed ?P input r (w_disk w)) (ends_failed ?P input r (w_disk w)) (ends_dead ?P input r (w_disk w))"
    by (rule commit_outcome [OF fit_calm [OF M] wf refl])
  note new = committed_gen [OF M ok wf]
  fix w'
  show "shows_gen M r s' w' \<and> carries input s'" if "ends_committed ?P input r (w_disk w) s' w'" for s'
    using that by (auto simp: ends_committed_def dest: new)
  show "if e = CommitUncertainError then \<exists>s'. shows_gen M r s' w' \<and> carries input s'
      else visible ?P (w_disk w') = Inr s" if "ends_failed ?P input r (w_disk w) e w'" for e
    using that visible_unchanged [OF _ wf vis]
      may_have_committed_gen [OF M ok wf] by (simp add: ends_failed_def)
  show "visible ?P (w_disk w') = Inr s \<or> shows_new ?P input (w_disk w')"
    if "ends_dead ?P input r (w_disk w) w'"
    using that shows_committed(2) [OF laws ok] visible_unchanged [OF _ wf vis]
    by (auto simp: ends_dead_def may_have_committed_def)
qed

text \<open>From a store with generations every end of a commit is one, the death apart.\<close>

lemma outcome_commit_gen:
  assumes M: "fit M" and ok: "input_ok (mc_platform M) input"
  shows "outcome M (shows_gen M r s) (commitGeneration input h)
     (\<lambda>s' w. shows_gen M r s' w \<and> carries input s')
     (\<lambda>e w. \<exists>s'. shows_gen M r s' w \<and> (s' = s \<or> carries input s'))
     (\<lambda>w. visible (mc_platform M) (w_disk w) = Inr s \<or> shows_new (mc_platform M) input (w_disk w))"
proof (rule outcome_from)
  let ?P = "mc_platform M"
  have laws: "url_laws ?P" "sha_law ?P" using M by (simp_all add: fit_def)
  fix w assume w: "shows_gen M r s w"
  then have wf: "wf_store r (w_disk w)" and gens: "has_generations r (w_disk w)"
    and vis: "visible ?P (w_disk w) = Inr s"
    by (simp_all add: shows_gen_def on_def has_generations_def)
  show "outcome M (on (same_store (w_disk w))) (commitGeneration input h)
      (ends_committed ?P input r (w_disk w)) (ends_failed ?P input r (w_disk w)) (ends_dead ?P input r (w_disk w))"
    by (rule commit_outcome [OF fit_calm [OF M] wf refl])
  note new = committed_gen [OF M ok wf]
  have same: "shows_gen M r s w'" if "unchanged (w_disk w) (w_disk w')" for w'
    using has_generations_unchanged [OF gens that] visible_unchanged [OF that wf vis]
    by (simp add: shows_gen_def on_def)
  fix w'
  show "shows_gen M r s' w' \<and> carries input s'" if "ends_committed ?P input r (w_disk w) s' w'" for s'
    using that by (auto simp: ends_committed_def dest: new)
  show "\<exists>s'. shows_gen M r s' w' \<and> (s' = s \<or> carries input s')"
    if "ends_failed ?P input r (w_disk w) e w'" for e
    using that same may_have_committed_gen [OF M ok wf] by (auto simp: ends_failed_def split: if_splits)
  show "visible ?P (w_disk w') = Inr s \<or> shows_new ?P input (w_disk w')"
    if "ends_dead ?P input r (w_disk w) w'"
    using that shows_committed(2) [OF laws ok] visible_unchanged [OF _ wf vis]
    by (auto simp: ends_dead_def may_have_committed_def)
qed

section \<open>After the commit\<close>

text \<open>A generation with the given configuration, whatever audit records are pending.\<close>

definition configured ::
    "machine \<Rightarrow> nat \<Rightarrow> NormalizedStoredRouterConfig option \<Rightarrow> StoredRouterDraft option \<Rightarrow> world \<Rightarrow> bool" where
  "configured M r a d w \<longleftrightarrow>
     (\<exists>s. shows_gen M r s w \<and> snap_ok (mc_platform M) s \<and> s_active s = a \<and> s_draft s = d)"

definition shows_config ::
    "platform \<Rightarrow> NormalizedStoredRouterConfig option \<Rightarrow> StoredRouterDraft option \<Rightarrow> disk \<Rightarrow> bool" where
  "shows_config P a d k \<longleftrightarrow> (\<exists>s. visible P k = Inr s \<and> s_active s = a \<and> s_draft s = d)"

lemma configured_shows: "configured M r a d w \<Longrightarrow> shows_config (mc_platform M) a d (w_disk w)"
  by (auto simp: configured_def shows_config_def shows_gen_def on_def)

lemma configured_ex:
  "(\<And>s. snap_ok (mc_platform M) s \<Longrightarrow> s_active s = a \<Longrightarrow> s_draft s = d \<Longrightarrow> outcome M (shows_gen M r s) m Q X C) \<Longrightarrow>
     outcome M (configured M r a d) m Q X C"
  unfolding configured_def [abs_def] by (intro outcome_ex outcome_pre) auto

lemma configured_same:
  fixes m :: "'a io"
  assumes "keeps M (wframe (Kz {}) (Lz {})) m"
  shows "outcome M (configured M r a d) m (\<lambda>_. configured M r a d) (\<lambda>_. configured M r a d) (configured M r a d)"
  by (rule configured_ex, rule outcome_weaken [OF outcome_same(2) [OF assms]]) (auto simp: configured_def)

lemma checkpoint_outcome:
  assumes M: "fit M"
  shows "outcome M (configured M r a d) (checkpointDeliveredAudit snapshot ids h)
     (\<lambda>_. configured M r a d) (\<lambda>_. configured M r a d) (\<lambda>w. shows_config (mc_platform M) a d (w_disk w))"
proof (rule configured_ex)
  fix s assume s: "snap_ok (mc_platform M) s" "s_active s = a" "s_draft s = d"
  let ?I = "shows_gen M r s" and ?C = "\<lambda>w. shows_config (mc_platform M) a d (w_disk w)"
  let ?K = "configured M r a d"
  have rely: "rely (Kz {}) (Lz {}) M" by (rule calm_rely [OF fit_calm [OF M]])
  have old: "configured M r a d w" "?C w" if "?I w" for w
    using that s by (auto simp: configured_def shows_config_def shows_gen_def on_def)
  have same: "outcome M ?I m (\<lambda>_. ?I) (\<lambda>_. ?K) ?C" if "keeps M (wframe (Kz {}) (Lz {})) m" for m :: "'b io"
    by (rule outcome_weaken [OF outcome_same(2) [OF that]]) (auto intro: old)
  have commit: "outcome M ?I (commitGeneration
        \<lparr> gi_generationId = None, gi_parentGenerationId = p, gi_committedAt = None, gi_active = s_active s,
          gi_draft = s_draft s, gi_pendingAudit = filter f (s_pendingAudit s) \<rparr> h) (\<lambda>_. ?K) (\<lambda>_. ?K) ?C"
    (is "outcome M ?I (commitGeneration ?input h) (\<lambda>_. ?K) (\<lambda>_. ?K) ?C") for p f
  proof -
    have ok: "input_ok (mc_platform M) ?input" using s(1) by (simp add: input_ok_def snap_ok_def)
    have new: "configured M r a d w" if "shows_gen M r s' w" "carries ?input s'" for s' w
      using that carries_ok [OF ok that(2)] s by (auto simp: configured_def carries_def)
    show ?thesis
      by (rule outcome_weaken [OF outcome_commit_gen [OF M ok]])
         (use s new old in \<open>auto simp: shows_new_def shows_config_def carries_def [of ?input]\<close>)
  qed
  have read: "outcome M ?I readCurrentSnapshot (\<lambda>x w. ?I w \<and> x = s) (\<lambda>_. ?K) ?C"
    by (rule outcome_weaken [OF outcome_read_gen [OF fit_calm [OF M]]]) (auto intro: old)
  have guard: "outcome M ?I (guard b e) (\<lambda>_. ?I) (\<lambda>_. ?K) ?C" for b e
    by (rule outcome_guard) (auto intro: old)
  show "outcome M ?I (checkpointDeliveredAudit snapshot ids h) (\<lambda>_. ?K) (\<lambda>_. ?K) ?C"
    unfolding checkpointDeliveredAudit_def Let_def
    by (intro outcome_thn [OF same [OF keeps_resolveHandle]] outcome_thn [OF same [OF keeps_assertOwned]]
          outcome_thn [OF guard] outcome_bnd [OF read] outcome_pre outcome_bnd [OF same [OF fr.keeps_lift]])
       (use rely in \<open>auto intro!: outcome_ret outcome_thn [OF guard] outcome_bnd [OF same [OF fr.keeps_lift]]
          outcome_thn [OF same [OF keeps_assertOwned]] intro: old commit\<close>)
qed

lemma still_outcome:
  assumes M: "fit M"
  shows "outcome M (configured M r a d) (pendingAuditStillVisible ids)
     (\<lambda>_. configured M r a d) (\<lambda>_ _. False) (\<lambda>w. shows_config (mc_platform M) a d (w_disk w))"
proof -
  have "outcome M (configured M r a d) readCurrentSnapshot (\<lambda>_. configured M r a d)
      (\<lambda>_. configured M r a d) (\<lambda>w. shows_config (mc_platform M) a d (w_disk w))"
    by (rule outcome_weaken [OF configured_same [OF keeps_reads(4) [OF calm_rely [OF fit_calm [OF M]]]]])
       (auto intro: configured_shows)
  then show ?thesis
    unfolding pendingAuditStillVisible_def
    by (intro outcome_catch [OF outcome_bnd] outcome_ret) auto
qed

lemma deliver_outcome:
  assumes M: "fit M"
  shows "outcome M (configured M r a d) (deliverAudit committed h)
     (\<lambda>_. configured M r a d) (\<lambda>_ _. False) (\<lambda>w. shows_config (mc_platform M) a d (w_disk w))"
proof -
  have "outcome M (configured M r a d) (flushAuditOutbox committed h) (\<lambda>_. configured M r a d)
      (\<lambda>_. configured M r a d) (\<lambda>w. shows_config (mc_platform M) a d (w_disk w))"
    by (rule outcome_weaken [OF configured_same [OF keeps_flush [OF calm_rely [OF fit_calm [OF M]]
          free_store [OF audit_not_router]]]])
       (auto intro: configured_shows)
  moreover have "outcome M (configured M r a d)
      (catch (thn (checkpointDeliveredAudit committed ids h) (ret False)) (\<lambda>e. pendingAuditStillVisible es))
      (\<lambda>_. configured M r a d) (\<lambda>_. configured M r a d) (\<lambda>w. shows_config (mc_platform M) a d (w_disk w))"
    for ids es
    by (rule outcome_catch [OF outcome_thn [OF checkpoint_outcome [OF M]]])
       (auto intro: outcome_ret outcome_weaken [OF still_outcome [OF M]])
  ultimately show ?thesis
    unfolding deliverAudit_def Let_def
    by (rule outcome_catch [OF outcome_bnd]) (rule still_outcome [OF M])
qed

lemma finalize_outcome:
  assumes M: "fit M"
  shows "outcome M (configured M r a d) (finalizeCommittedGeneration committed h g)
     (\<lambda>_. configured M r a d) (\<lambda>_ _. False) (\<lambda>w. shows_config (mc_platform M) a d (w_disk w))"
proof -
  have "outcome M (configured M r a d) (garbageCollectPlatformRouterArtifacts h g) (\<lambda>_. configured M r a d)
      (\<lambda>_. configured M r a d) (\<lambda>w. shows_config (mc_platform M) a d (w_disk w))"
    by (rule outcome_weaken [OF configured_same [OF keeps_gc [OF calm_rely [OF fit_calm [OF M]]
          free_store [OF managed_not_router]]]])
       (auto intro: configured_shows)
  then have "outcome M (configured M r a d)
      (catch (thn (garbageCollectPlatformRouterArtifacts h g) (ret False)) (\<lambda>e. ret True))
      (\<lambda>_. configured M r a d) (\<lambda>_ _. False) (\<lambda>w. shows_config (mc_platform M) a d (w_disk w))"
    by (intro outcome_catch [OF outcome_thn] outcome_ret) auto
  then show ?thesis
    unfolding finalizeCommittedGeneration_def
    by (intro outcome_bnd [OF deliver_outcome [OF M]] outcome_bnd outcome_ret) auto
qed

section \<open>Committing a semantic change\<close>

lemma reconcile_outcome:
  assumes M: "fit M"
  shows "outcome M (shows_gen M r s) (reconcileCommit current a d eid gid)
     (\<lambda>x w. shows_gen M r s w \<and> x = s) (\<lambda>e w. shows_gen M r s w \<and> e = StateIndeterminateError)
     (shows_gen M r s)"
proof -
  have rely: "rely (Kz {}) (Lz {}) M" by (rule calm_rely [OF fit_calm [OF M]])
  have "outcome M (shows_gen M r s) (bnd readCurrentSnapshot (\<lambda>v. thn (validateReferencedCredentials v) (ret v)))
      (\<lambda>x w. shows_gen M r s w \<and> x = s) (\<lambda>_. shows_gen M r s) (shows_gen M r s)"
    by (rule outcome_bnd [OF outcome_read_gen [OF fit_calm [OF M]]], rule outcome_pre,
        rule outcome_thn [OF outcome_same(2) [OF keeps_validateReferenced [OF rely]]], rule outcome_ret) simp
  then show ?thesis
    unfolding reconcileCommit_def
    by (intro outcome_bnd [OF outcome_catch]) (auto intro: outcome_ret outcome_throw)
qed

definition new_config ::
    "machine \<Rightarrow> nat \<Rightarrow> NormalizedStoredRouterConfig option \<Rightarrow> StoredRouterDraft option \<Rightarrow>
     PlatformRouterSnapshot \<Rightarrow> world \<Rightarrow> bool" where
  "new_config M r a d s w \<longleftrightarrow> shows_gen M r s w \<and> snap_ok (mc_platform M) s \<and>
     s_active s = a \<and> s_draft s = d \<and> s_source s = FromGeneration"

lemma new_configured: "new_config M r a d s w \<Longrightarrow> configured M r a d w"
  by (auto simp: new_config_def configured_def)

lemma semantic_outcome:
  assumes M: "fit M" and s: "snap_ok (mc_platform M) s"
    and a: "\<And>c. a = Some c \<Longrightarrow> cfg_ok (mc_platform M) c"
    and d: "\<And>x. d = Some x \<Longrightarrow> draft_fixed (mc_platform M) x \<and> wf_json (draft_json x)"
    and audit: "audit_ok (mc_platform M) audit" "wf_json (audit_json audit)"
  shows "outcome M (shows_snap M r s) (commitSemanticGeneration s a d eid h [audit])
     (new_config M r a d)
     (\<lambda>e w. visible (mc_platform M) (w_disk w) = Inr s \<or>
        e = StateIndeterminateError \<and> shows_config (mc_platform M) a d (w_disk w))
     (\<lambda>w. visible (mc_platform M) (w_disk w) = Inr s \<or> shows_config (mc_platform M) a d (w_disk w))"
  unfolding commitSemanticGeneration_def
proof (rule outcome_bnd)
  let ?P = "mc_platform M"
  show "outcome M (shows_snap M r s) next_id (\<lambda>_. shows_snap M r s)
      (\<lambda>e w. visible ?P (w_disk w) = Inr s \<or> e = StateIndeterminateError \<and> shows_config ?P a d (w_disk w))
      (\<lambda>w. visible ?P (w_disk w) = Inr s \<or> shows_config ?P a d (w_disk w))"
    by (rule outcome_weaken [OF outcome_same(1) [OF keeps_next_id]]) (auto simp: shows_snap_def on_def)
  fix gid
  let ?input = "\<lparr> gi_generationId = Some gid, gi_parentGenerationId = s_generationId s, gi_committedAt = None,
    gi_active = a, gi_draft = d, gi_pendingAudit = s_pendingAudit s @ [audit] \<rparr>"
  have ok: "input_ok ?P ?input" using s a d audit by (auto simp: input_ok_def snap_ok_def)
  have new: "new_config M r a d s' w" if "shows_gen M r s' w" "carries ?input s'" for s' w
    using that carries_ok [OF ok that(2)] by (simp add: new_config_def carries_def)
  have shown: "shows_config ?P a d (w_disk w)" if "shows_gen M r s' w" "carries ?input s'" for s' w
    using configured_shows [OF new_configured [OF new [OF that]]] .
  have later: "shows_config ?P a d k" if "shows_new ?P ?input k" for k
    using that by (auto simp: shows_new_def shows_config_def carries_def)
  let ?X = "\<lambda>e w. visible ?P (w_disk w) = Inr s \<or> e = StateIndeterminateError \<and> shows_config ?P a d (w_disk w)"
  let ?C = "\<lambda>w. visible ?P (w_disk w) = Inr s \<or> shows_config ?P a d (w_disk w)"
  have again: "outcome M (\<lambda>w. \<exists>s'. shows_gen M r s' w \<and> carries ?input s') (reconcileCommit s a d eid gid)
      (new_config M r a d) ?X ?C"
    by (intro outcome_ex outcome_pre, rule outcome_weaken [OF reconcile_outcome [OF M]])
       (auto intro: new shown)
  show "outcome M (shows_snap M r s)
      (catch (commitGeneration ?input h)
         (\<lambda>cause. if cause \<noteq> CommitUncertainError then throw cause else reconcileCommit s a d eid gid))
      (new_config M r a d) ?X ?C"
  proof (rule outcome_catch)
    let ?Y = "\<lambda>e w. if e = CommitUncertainError then \<exists>s'. shows_gen M r s' w \<and> carries ?input s'
        else visible ?P (w_disk w) = Inr s"
    show "outcome M (shows_snap M r s) (commitGeneration ?input h) (new_config M r a d) ?Y ?C"
      by (rule outcome_weaken [OF outcome_commit [OF M ok]])
         (auto intro: new later)
    show "outcome M (?Y e) (if e \<noteq> CommitUncertainError then throw e else reconcileCommit s a d eid gid)
        (new_config M r a d) ?X ?C" for e
      using again by (auto intro: outcome_throw)
  qed
qed

section \<open>The result of a mutation\<close>

lemma visible_generation_id:
  assumes "visible P d = Inr s" and "s_source s = FromGeneration"
  shows "\<exists>i. s_generationId s = Some i \<and> i \<noteq> []"
proof -
  have leg: "s_source x \<noteq> FromGeneration" if "legacySnapshot P a b c e = Inr x" for a b c e x
    using that by (auto simp: legacySnapshot_def rbind_Inr Let_def split: if_splits)
  have chk: "\<exists>i. s_generationId x = Some i \<and> i \<noteq> []" if "checked_generation P p gb = Inr x" for p gb x
  proof -
    from that obtain g v where "x = snapshotFromGeneration g p" "decodeGeneration P v = Inr g"
      by (auto simp: checked_generation_def rbind_Inr split: if_splits sum.splits)
    moreover from this(2) have "length (g_generationId g) = 36"
      by (auto simp: decodeGeneration_Inr dest: canonical_uuid(3))
    ultimately show ?thesis by (auto simp: snapshotFromGeneration_def)
  qed
  from assms(1) obtain r pb where "visible_at P r d = Inr s" "file_of d r POINTER_FILE = Inr pb"
    by (auto simp: visible_Inr visible_at_def rbind_Inr)
  with assms(2) show ?thesis
    by (cases pb) (auto simp: visible_at_def rbind_Inr split: sum.split_asm dest: leg chk)
qed

lemma public_ok:
  assumes "snap_ok P s"
  shows "\<exists>st. publicState P s ak dk = Inr st \<and>
     (ps_config st = None \<longleftrightarrow> s_active s = None) \<and> (ps_draft st = None \<longleftrightarrow> s_draft s = None)"
  using assms
  by (auto simp: snap_ok_def publicState_def publicDraft_def presentManagedConfig_def draftDigest_def
      cfg_ok_def draft_fixed_def split: option.splits)

text \<open>What a mutation from a world that shows \<open>s\<close> may end in; \<open>A\<close> describes the new configurations.\<close>

definition changed ::
    "platform \<Rightarrow> (NormalizedStoredRouterConfig option \<Rightarrow> StoredRouterDraft option \<Rightarrow> bool) \<Rightarrow> disk \<Rightarrow> bool" where
  "changed P A k \<longleftrightarrow> (\<exists>a d. A a d \<and> shows_config P a d k)"

definition untouched :: "platform \<Rightarrow> PlatformRouterSnapshot \<Rightarrow> disk \<Rightarrow> bool" where
  "untouched P s k \<longleftrightarrow> visible P k = Inr s"

definition mutates ::
    "machine \<Rightarrow> nat \<Rightarrow> PlatformRouterSnapshot \<Rightarrow>
     (NormalizedStoredRouterConfig option \<Rightarrow> StoredRouterDraft option \<Rightarrow> bool) \<Rightarrow> 'a io \<Rightarrow> bool" where
  "mutates M r s A m \<longleftrightarrow> outcome M (shows_snap M r s) m
     (\<lambda>_ w. changed (mc_platform M) A (w_disk w))
     (\<lambda>e w. untouched (mc_platform M) s (w_disk w) \<or>
        e = StateIndeterminateError \<and> changed (mc_platform M) A (w_disk w))
     (\<lambda>w. untouched (mc_platform M) s (w_disk w) \<or> changed (mc_platform M) A (w_disk w))"

lemma mutates_bnd:
  fixes m :: "'a io"
  assumes "keeps M (wframe (Kz {}) (Lz {})) m" and "returns M m B" and "\<And>x. B x \<Longrightarrow> mutates M r s A (f x)"
  shows "mutates M r s A (bnd m f)"
proof -
  let ?X = "\<lambda>e w. untouched (mc_platform M) s (w_disk w) \<or>
      e = StateIndeterminateError \<and> changed (mc_platform M) A (w_disk w)"
  let ?C = "\<lambda>w. untouched (mc_platform M) s (w_disk w) \<or> changed (mc_platform M) A (w_disk w)"
  have "outcome M (shows_snap M r s) m (\<lambda>x w. shows_snap M r s w \<and> B x) ?X ?C"
    by (rule outcome_weaken [OF outcome_returns [OF assms(2) outcome_same(1) [OF assms(1)]]])
       (auto simp: shows_snap_def on_def untouched_def)
  then show ?thesis
    unfolding mutates_def
    by (rule outcome_bnd) (use assms(3) in \<open>auto intro: outcome_pre simp: mutates_def\<close>)
qed

lemmas mutates_bnd' = mutates_bnd [OF _ returns_any]

lemma mutates_thn:
  fixes m :: "'a io"
  shows "keeps M (wframe (Kz {}) (Lz {})) m \<Longrightarrow> mutates M r s A n \<Longrightarrow> mutates M r s A (thn m n)"
  unfolding thn_def by (rule mutates_bnd')

lemma mutates_throw: "mutates M r s A (throw e)"
  unfolding mutates_def by (rule outcome_throw) (simp add: shows_snap_def on_def untouched_def)

lemma returns_lift: "returns M (lift_res x) (\<lambda>y. x = Inr y)"
  by (auto simp: returns_def lift_res_def ret_def throw_def split: sum.splits)

lemma mutates_lift: "(\<And>x. y = Inr x \<Longrightarrow> mutates M r s A (f x)) \<Longrightarrow> mutates M r s A (bnd (lift_res y) f)"
  by (rule mutates_bnd [OF fr.keeps_lift returns_lift])

lemma mutates_guard: "(b \<Longrightarrow> mutates M r s A n) \<Longrightarrow> mutates M r s A (thn (guard b e) n)"
  unfolding thn_def
  by (rule mutates_bnd [OF fr.keeps_guard, where B = "\<lambda>_. b"])
     (auto simp: returns_def guard_def ret_def throw_def split: if_splits)

lemma mutates_read:
  assumes M: "fit M" and "mutates M r s A (f s)"
  shows "mutates M r s A (bnd readValidatedSnapshot f)"
proof -
  have rely: "rely (Kz {}) (Lz {}) M" by (rule calm_rely [OF fit_calm [OF M]])
  let ?I = "shows_snap M r s"
  have "outcome M ?I (lstat (RootPath [])) (\<lambda>_. ?I) (\<lambda>e w. ?I w \<and> e \<noteq> NodeError ENOENT) ?I"
  proof -
    let ?k = "\<lambda>d. k_root d = Some (DirN r)"
    have "outcome M (on ?k) (lstat (RootPath [])) (\<lambda>_ _. True) (\<lambda>e _. e \<noteq> NodeError ENOENT) (\<lambda>_. True)"
      by (rule outcome_weaken [OF outcome_lstat [OF zstable_calm [OF zstable_root fit_calm [OF M]],
            where r = "Inr (DirN r)"]]) auto
    then have "outcome M ?I (lstat (RootPath [])) (\<lambda>_ _. True) (\<lambda>e _. e \<noteq> NodeError ENOENT) (\<lambda>_. True)"
      by (rule outcome_weaken) (auto simp: shows_snap_def on_def wf_store_def)
    from outcome_conj [OF outcome_same(1) [OF keeps_lstat [OF rely]] this] show ?thesis
      by (rule outcome_weaken) auto
  qed
  then have "outcome M ?I (attempt (lstat (RootPath [])))
      (\<lambda>x w. ?I w \<and> x \<noteq> Inl (NodeError ENOENT)) (\<lambda>_. ?I) ?I"
    unfolding attempt_def
    by (rule outcome_catch [OF outcome_bnd]) (auto intro: outcome_ret)
  moreover have "outcome M ?I (bnd readCurrentSnapshot (\<lambda>x. thn (validateReferencedCredentials x) (ret x)))
      (\<lambda>x w. ?I w \<and> x = s) (\<lambda>_. ?I) ?I"
    by (rule outcome_bnd [OF outcome_read_snap [OF fit_calm [OF M]]], rule outcome_pre,
        rule outcome_thn [OF outcome_same(1) [OF keeps_validateReferenced [OF rely]]], rule outcome_ret) simp
  ultimately have read: "outcome M ?I readValidatedSnapshot (\<lambda>x w. ?I w \<and> x = s) (\<lambda>_. ?I) ?I"
    unfolding readValidatedSnapshot_def
    by - (erule outcome_bnd, auto intro!: outcome_pre outcome_throw outcome_ret split: sum.split)
  show ?thesis
    unfolding mutates_def
  proof (rule outcome_bnd)
    show "outcome M ?I readValidatedSnapshot (\<lambda>x w. ?I w \<and> x = s)
        (\<lambda>e w. untouched (mc_platform M) s (w_disk w) \<or>
           e = StateIndeterminateError \<and> changed (mc_platform M) A (w_disk w))
        (\<lambda>w. untouched (mc_platform M) s (w_disk w) \<or> changed (mc_platform M) A (w_disk w))"
      by (rule outcome_weaken [OF read]) (auto simp: shows_snap_def on_def untouched_def)
  qed (use assms(2) in \<open>auto intro!: outcome_pre simp: mutates_def\<close>)
qed

lemma tail_outcome:
  assumes M: "fit M"
    and sel: "\<And>st. (ps_config st = None \<longleftrightarrow> a = None) \<Longrightarrow> (ps_draft st = None \<longleftrightarrow> d = None) \<Longrightarrow> sel st \<noteq> None"
  shows "outcome M (new_config M r a d committed)
     (bnd (lift_res (publicState (mc_platform M) committed ak dk)) (\<lambda>state.
      bnd (finalizeCommittedGeneration committed h g) (\<lambda>pending.
      case sel state of
        None \<Rightarrow> throw StateIndeterminateError
      | Some v \<Rightarrow> lift_res (mutationResult v state committed pending))))
     (\<lambda>_ w. shows_config (mc_platform M) a d (w_disk w)) (\<lambda>_ _. False)
     (\<lambda>w. shows_config (mc_platform M) a d (w_disk w))"
proof (cases "\<exists>w. new_config M r a d committed w")
  case True
  then obtain w where w: "new_config M r a d committed w" by blast
  then have s: "snap_ok (mc_platform M) committed" "s_active committed = a" "s_draft committed = d"
    by (simp_all add: new_config_def)
  from public_ok [OF s(1), of ak dk] obtain st where
    st: "publicState (mc_platform M) committed ak dk = Inr st" and
    "ps_config st = None \<longleftrightarrow> s_active committed = None" "ps_draft st = None \<longleftrightarrow> s_draft committed = None"
    by auto
  then have "sel st \<noteq> None" using s by (intro sel) simp_all
  then obtain v where v: "sel st = Some v" by auto
  have vis: "visible (mc_platform M) (w_disk w) = Inr committed" "s_source committed = FromGeneration"
    using w by (simp_all add: new_config_def shows_gen_def on_def)
  obtain i where i: "s_generationId committed = Some i" "i \<noteq> []"
    using visible_generation_id [OF vis] by blast
  have "outcome M (configured M r a d) (bnd (finalizeCommittedGeneration committed h g) (\<lambda>pending.
        case sel st of
          None \<Rightarrow> throw StateIndeterminateError
        | Some v \<Rightarrow> lift_res (mutationResult v st committed pending)))
      (\<lambda>_ w. shows_config (mc_platform M) a d (w_disk w)) (\<lambda>_ _. False)
      (\<lambda>w. shows_config (mc_platform M) a d (w_disk w))"
    by (rule outcome_bnd [OF finalize_outcome [OF M]])
       (use v i in \<open>auto simp: mutationResult_def lift_res_def intro: outcome_ret configured_shows\<close>)
  then show ?thesis
    unfolding st lift_res_def sum.case bnd_ret
    by (rule outcome_weaken) (auto intro: new_configured)
next
  case False
  then show ?thesis by (simp add: outcome_def)
qed

lemma mutates_commit:
  assumes M: "fit M" and s: "snap_ok (mc_platform M) s"
    and a: "\<And>c. a = Some c \<Longrightarrow> cfg_ok (mc_platform M) c"
    and d: "\<And>x. d = Some x \<Longrightarrow> draft_fixed (mc_platform M) x \<and> wf_json (draft_json x)"
    and audit: "audit_ok (mc_platform M) audit \<and> wf_json (audit_json audit)"
    and sel: "\<And>st. (ps_config st = None \<longleftrightarrow> a = None) \<Longrightarrow> (ps_draft st = None \<longleftrightarrow> d = None) \<Longrightarrow> sel st \<noteq> None"
    and A: "A a d"
  shows "mutates M r s A
     (bnd (commitSemanticGeneration s a d eid h [audit]) (\<lambda>committed.
      bnd (lift_res (publicState (mc_platform M) committed ak dk)) (\<lambda>state.
      bnd (finalizeCommittedGeneration committed h g) (\<lambda>pending.
      case sel state of
        None \<Rightarrow> throw StateIndeterminateError
      | Some v \<Rightarrow> lift_res (mutationResult v state committed pending)))))"
proof -
  let ?X = "\<lambda>e w. untouched (mc_platform M) s (w_disk w) \<or>
      e = StateIndeterminateError \<and> changed (mc_platform M) A (w_disk w)"
  let ?C = "\<lambda>w. untouched (mc_platform M) s (w_disk w) \<or> changed (mc_platform M) A (w_disk w)"
  have shown: "changed (mc_platform M) A k" if "shows_config (mc_platform M) a d k" for k
    using that A by (auto simp: changed_def)
  have commit: "outcome M (shows_snap M r s) (commitSemanticGeneration s a d eid h [audit]) (new_config M r a d) ?X ?C"
    by (rule outcome_weaken [OF semantic_outcome [OF M s a d]]) (use audit shown in \<open>auto simp: untouched_def\<close>)
  have tail: "outcome M (new_config M r a d committed)
     (bnd (lift_res (publicState (mc_platform M) committed ak dk)) (\<lambda>state.
      bnd (finalizeCommittedGeneration committed h g) (\<lambda>pending.
      case sel state of
        None \<Rightarrow> throw StateIndeterminateError
      | Some v \<Rightarrow> lift_res (mutationResult v state committed pending))))
     (\<lambda>_ w. changed (mc_platform M) A (w_disk w)) ?X ?C" for committed
    by (rule outcome_weaken [OF tail_outcome [OF M sel]]) (auto intro: shown)
  show ?thesis
    unfolding mutates_def by (rule outcome_bnd [OF commit tail])
qed

lemma returns_audit:
  assumes "url_laws (mc_platform M)" and "\<And>t. iso_instant (mc_now M t)"
    and "wf_str (x_actor ctx)" "wf_str (x_requestId ctx)" "wf_str (cfg_model c)"
  shows "returns M (buildAudit act ctx c k) (\<lambda>a. audit_ok (mc_platform M) a \<and> wf_json (audit_json a))"
proof -
  have "audit_wf a" if b: "buildPlatformRouterAuditRecord (mc_platform M) (audit_event i act ctx c k) (Some (mc_now M t)) [] = Inr a"
    for i t a
    using b assms
    by (auto simp: buildPlatformRouterAuditRecord_def audit_event_def rbind_Inr audit_wf_iff
        intro: wf_str_boundedAudit wf_str_boundedText wf_str_iso wf_str_eventId
          wf_str_ascii [OF auditEndpointOrigin_again(2) [OF assms(1)]])
  moreover have "audit_ok (mc_platform M) a" if b: "buildPlatformRouterAuditRecord (mc_platform M) (audit_event i act ctx c k) (Some (mc_now M t)) [] = Inr a"
    for i t a
    using buildAudit_ok [OF assms(1) b] assms(2) by auto
  ultimately show ?thesis
    unfolding audit_wf_def
    by (auto simp: returns_def buildAudit_def platform_of_def next_id_def now_iso_def get_def bnd_def lift_res_def
        ret_def throw_def split: sum.splits)
qed

section \<open>The three mutations\<close>

text \<open>The caller's context and clock: strings of code units, instants in ISO form.\<close>

definition sound_context :: "machine \<Rightarrow> PlatformRouterMutationContext \<Rightarrow> bool" where
  "sound_context M ctx \<longleftrightarrow> (\<forall>t. iso_instant (mc_now M t)) \<and> wf_str (x_actor ctx) \<and> wf_str (x_requestId ctx) \<and>
     boundedAuditText (x_requestId ctx) = Inr (x_requestId ctx)"

lemma cfg_model_wf: "wf_json (cfg_json c) \<Longrightarrow> wf_str (cfg_model c)"
  by (simp add: cfg_json_def wf_json_Obj)

lemma mutates_platform: "mutates M r s A (f (mc_platform M)) \<Longrightarrow> mutates M r s A (bnd platform_of f)"
  by (rule mutates_bnd [OF keeps_platform returns_platform]) simp

lemma mutates_audit:
  assumes "fit M" "sound_context M ctx" "wf_json (cfg_json c)"
    and "\<And>a. audit_ok (mc_platform M) a \<and> wf_json (audit_json a) \<Longrightarrow> mutates M r s A (f a)"
  shows "mutates M r s A (bnd (buildAudit act ctx c k) f)"
  by (rule mutates_bnd [OF keeps_buildAudit returns_audit])
     (use assms cfg_model_wf in \<open>auto simp: fit_def sound_context_def\<close>)

text \<open>A draft that may be activated: enabled, tested, and the digest is that of the tested draft.\<close>

definition activates ::
    "platform \<Rightarrow> PlatformRouterSnapshot \<Rightarrow> NormalizedStoredRouterConfig option \<Rightarrow> StoredRouterDraft option \<Rightarrow> bool" where
  "activates P s a d \<longleftrightarrow> (\<exists>x t key. s_draft s = Some x \<and> d_attestation x = Some t \<and>
     cfg_enabled (d_config x) \<and> draftDigest P (d_config x) key = Inr (t_digest t) \<and>
     a = Some (d_config x) \<and> d = None)"

lemma mutates_case_option:
  "(v = None \<Longrightarrow> mutates M r s A m) \<Longrightarrow> (\<And>x. v = Some x \<Longrightarrow> mutates M r s A (f x)) \<Longrightarrow>
     mutates M r s A (case v of None \<Rightarrow> m | Some x \<Rightarrow> f x)"
  by (cases v) simp_all

lemma snap_draft:
  assumes "snap_ok P s" "s_draft s = Some x"
  shows "normalizeStoredRouterConfig P (cand_of (d_config x)) = Inr (d_config x)"
    "wf_json (cfg_json (d_config x))" "cfg_ok P (d_config x)" "draft_fixed P x"
  using assms by (auto simp: snap_ok_def draft_fixed_def draft_json_def wf_json_Obj cfg_ok_def)

lemma readSecret_key:
  "returns M (readSecret (Some c)) (\<lambda>x. \<exists>k. x = Some \<lparr> sec_config = c, sec_apiKey = k \<rparr>)"
  unfolding readSecret_def option.case
  by (intro returns_bnd) (auto simp: returns_def ret_def throw_def split: option.split)

lemma activate_mutates:
  assumes M: "fit M" and s: "snap_ok (mc_platform M) s" and ctx: "sound_context M ctx"
  shows "mutates M r s (activates (mc_platform M) s) (activate_locked ctx g h)"
  unfolding activate_locked_def
  by (intro mutates_commit [OF M s] mutates_platform mutates_read [OF M] mutates_case_option mutates_throw
      mutates_bnd' [OF keeps_readSecret [OF calm_rely [OF fit_calm [OF M]]]] mutates_lift mutates_guard
      mutates_audit [OF M ctx])
     (auto simp: activates_def constantTime_correct snap_draft [OF s])

text \<open>The test names the generation and the digest it was run on.\<close>

definition attests ::
    "platform \<Rightarrow> PlatformRouterSnapshot \<Rightarrow> PlatformRouterMarkTestedInput \<Rightarrow>
     NormalizedStoredRouterConfig option \<Rightarrow> StoredRouterDraft option \<Rightarrow> bool" where
  "attests P s input a d \<longleftrightarrow> a = s_active s \<and> s_generationId s = Some (mt_expectedGenerationId input) \<and>
     (\<exists>x key instant requestId. s_draft s = Some x \<and>
        draftDigest P (d_config x) key = Inr (mt_expectedDraftDigest input) \<and>
        d = Some (x\<lparr> d_attestation := Some \<lparr> t_digest = mt_expectedDraftDigest input,
              t_testedAt = instant, t_requestId = requestId \<rparr> \<rparr>))"

lemma returns_now: "returns M now_iso (\<lambda>t. \<exists>i. t = mc_now M i)"
  by (auto simp: returns_def now_iso_def get_def)

lemma draftDigest_sha: "sha_law P \<Longrightarrow> draftDigest P c k = Inr g \<Longrightarrow> SHA256_PATTERN g"
  by (auto simp: draftDigest_def rbind_Inr sha_law_def)

lemma attested_ok:
  assumes "fit M" "sound_context M ctx" "snap_ok (mc_platform M) s" "s_draft s = Some x"
    and "draftDigest (mc_platform M) (d_config x) k = Inr g"
  shows "draft_fixed (mc_platform M) (x\<lparr> d_attestation := Some \<lparr> t_digest = g, t_testedAt = mc_now M i,
            t_requestId = x_requestId ctx \<rparr> \<rparr>) \<and>
     wf_json (draft_json (x\<lparr> d_attestation := Some \<lparr> t_digest = g, t_testedAt = mc_now M i,
            t_requestId = x_requestId ctx \<rparr> \<rparr>))"
  using assms snap_draft [OF assms(3,4)] draftDigest_sha [OF _ assms(5)]
  by (auto simp: draft_fixed_def attestation_ok_def fit_def sound_context_def draft_json_def
      attestation_json_def opt_json_def wf_json_Obj intro: wf_str_sha wf_str_iso)

lemma markTested_mutates:
  assumes M: "fit M" and s: "snap_ok (mc_platform M) s" and ctx: "sound_context M ctx"
  shows "mutates M r s (attests (mc_platform M) s input) (markTested_locked input ctx g h)"
proof -
  have active: "\<And>c. s_active s = Some c \<Longrightarrow> cfg_ok (mc_platform M) c" using s by (simp add: snap_ok_def)
  show ?thesis
    unfolding markTested_locked_def Let_def
    by (intro mutates_commit [OF M s active] mutates_platform mutates_read [OF M] mutates_case_option mutates_throw
        mutates_bnd' [OF keeps_readSecret [OF calm_rely [OF fit_calm [OF M]]]] mutates_lift mutates_guard
        mutates_audit [OF M ctx] mutates_bnd [OF keeps_now(2) returns_now])
       (auto simp: attests_def constantTime_correct snap_draft [OF s] attested_ok [OF M ctx s])
qed

section \<open>Well-formed configurations\<close>

text \<open>Representation of the input: strings of code units and numbers in normal form.\<close>

definition wf_input :: "StoredRouterConfigCandidate \<Rightarrow> bool" where
  "wf_input v \<longleftrightarrow> (\<forall>f \<in> {cand_assistantInstructions v, cand_assistantMaxOutputTokens v,
     cand_assistantTemperature v, cand_assistantMaxSteps v, cand_assistantTimeoutMs v}. \<forall>j. f = Some j \<longrightarrow> wf_json j)"

lemma dec_finite: "is_finite (dec m e)"
  by (induction m e rule: dec.induct) (subst dec.simps, simp)

lemma wf_bounded:
  assumes "wf_num f" "wf_num mn" "wf_num mx" "is_finite f" "is_finite mn" "is_finite mx"
    and "\<And>j. v = Some j \<Longrightarrow> wf_json j"
  shows "wf_json (JNum (boundedInteger v f mn mx))" "wf_json (JNum (boundedNumber v f mn mx))"
  using assms
  by (cases "(v, ())" rule: prod.exhaust; cases v rule: as_number.cases;
      auto simp: boundedInteger_def boundedNumber_def num_max_def num_min_def)+

lemma wf_numbers:
  assumes "\<And>j. v = Some j \<Longrightarrow> wf_json j"
  shows "wf_json (JNum (outputTokens v))" "wf_json (JNum (temperature v))"
    "wf_json (JNum (maxSteps v))" "wf_json (JNum (timeoutMs v))"
  unfolding outputTokens_def temperature_def maxSteps_def timeoutMs_def num_of_int_def
  by (intro wf_bounded; use assms in \<open>auto simp: dec_finite\<close>)+

lemma wf_model_chars: "list_all model_char s \<Longrightarrow> wf_str s" "effort_ok s \<Longrightarrow> wf_str s"
  by (auto simp: wf_str_def list_all_iff model_char_def effort_ok_def effort_char_def is_alnum_def
      is_digit_def is_upper_def is_lower_def dest!: bspec)

lemma wf_credential: "normalizeCredentialFile v = Inr n \<Longrightarrow> wf_str n"
proof -
  have "wf_str n" if m: "MANAGED_ROUTER_KEY_FILE n"
  proof -
    have "take 36 (drop 20 n) @ drop 56 n = drop 20 n"
      by (subst append_take_drop_id [of 36 "drop 20 n", symmetric]) simp
    then have "n = take 20 n @ take 36 (drop 20 n) @ drop 56 n" by simp
    moreover have "wf_str (take 36 (drop 20 n))"
      using m by (auto simp: MANAGED_ROUTER_KEY_FILE_def wf_str_def list_all_iff is_hex_lower_def is_digit_def dest!: bspec)
    moreover have "wf_str (take 20 n)" "wf_str (drop 56 n)" using m by (simp_all add: MANAGED_ROUTER_KEY_FILE_def)
    ultimately show ?thesis by (metis wf_str_simps(3))
  qed
  then show "normalizeCredentialFile v = Inr n \<Longrightarrow> wf_str n"
    by (auto simp: normalizeCredentialFile_def Let_def LEGACY_ROUTER_KEY_FILE_def split: if_splits)
qed

lemma wf_efforts:
  "list_all wf_str (normalizeReasoningEfforts v)" "wf_str (normalizeReasoningEffort w (normalizeReasoningEfforts v))"
proof -
  show l: "list_all wf_str (normalizeReasoningEfforts v)"
    using efforts_props(2) [of v] wf_model_chars(2) by (auto simp: list_all_iff)
  then show "wf_str (normalizeReasoningEffort w (normalizeReasoningEfforts v))"
    by (auto simp: normalizeReasoningEffort_def list_all_iff split: option.split)
qed

lemma wf_protocol: "wf_str (protocol_text p)"
  by (cases p) simp_all

lemma normalizeStored_wf:
  assumes laws: "url_laws P" and c: "normalizeStoredRouterConfig P v = Inr c" and wf: "wf_input v"
  shows "wf_json (cfg_json c)"
proof -
  from c have f: "normalizeEndpoint P (cand_endpoint v) = Inr (cfg_endpoint c)"
      "isValidProviderModel (Some (JStr (cfg_model c))) (Some (cfg_protocol c))"
      "normalizeCredentialFile (cand_credentialFile v) = Inr (cfg_credentialFile c)"
      "boundedOptionalText (cand_assistantInstructions v) 4000 = Inr (cfg_assistantInstructions c)"
    by (auto simp: normalizeStored_Inr normalizeProviderModel_Inr)
  have "wf_str (cfg_assistantInstructions c)"
  proof -
    have "wf_str (text_of (cand_assistantInstructions v))"
      using wf by (cases "cand_assistantInstructions v" rule: as_string.cases)
        (auto simp: text_of_def wf_input_def intro: wf_str_trim)
    with f(4) show ?thesis by (auto simp: boundedOptionalText_def Let_def split: if_splits)
  qed
  moreover have "wf_str (cfg_model c)"
    using f(2) by (auto simp: isValidProviderModel_def intro: wf_model_chars split: if_splits)
  moreover have "wf_json (JNum (outputTokens (cand_assistantMaxOutputTokens v)))"
      "wf_json (JNum (temperature (cand_assistantTemperature v)))"
      "wf_json (JNum (maxSteps (cand_assistantMaxSteps v)))"
      "wf_json (JNum (timeoutMs (cand_assistantTimeoutMs v)))"
    using wf by (intro wf_numbers; auto simp: wf_input_def)+
  ultimately show ?thesis
    using c wf_efforts wf_credential [OF f(3)] wf_str_ascii [OF normalizeEndpoint_ascii [OF laws f(1)]]
    by (auto simp: normalizeStored_Inr cfg_json_def wf_json_Obj list_all_iff wf_protocol)
qed

lemma normalizeManaged_ok:
  assumes laws: "url_laws P" and wf: "wf_input v" and c: "normalizeManagedRouterInput P v file = Inr c"
  shows "cfg_ok P c"
proof -
  from c obtain w x where w: "normalizeStoredRouterConfig P w = Inr c"
    and i: "cand_assistantInstructions w = Some (JStr x)"
      "boundedOptionalText (cand_assistantInstructions v) 4000 = Inr x"
    and n: "cand_assistantMaxOutputTokens w = Some (JNum (outputTokens (cand_assistantMaxOutputTokens v)))"
      "cand_assistantTemperature w = Some (JNum (temperature (cand_assistantTemperature v)))"
      "cand_assistantMaxSteps w = Some (JNum (maxSteps (cand_assistantMaxSteps v)))"
      "cand_assistantTimeoutMs w = Some (JNum (timeoutMs (cand_assistantTimeoutMs v)))"
    unfolding normalizeManagedRouterInput_def Let_def rbind_Inr by fastforce
  have "wf_str (text_of (cand_assistantInstructions v))"
    using wf by (cases "cand_assistantInstructions v" rule: as_string.cases)
      (auto simp: text_of_def wf_input_def intro: wf_str_trim)
  then have x: "wf_str x" using i(2) by (auto simp: boundedOptionalText_def Let_def split: if_splits)
  have num: "wf_json (JNum (outputTokens (cand_assistantMaxOutputTokens v)))"
      "wf_json (JNum (temperature (cand_assistantTemperature v)))"
      "wf_json (JNum (maxSteps (cand_assistantMaxSteps v)))"
      "wf_json (JNum (timeoutMs (cand_assistantTimeoutMs v)))"
    using wf by (intro wf_numbers; auto simp: wf_input_def)+
  have "wf_input w" using x i(1) n num by (auto simp: wf_input_def)
  from normalizeStored_wf [OF laws w this] normalizeStored_idem [OF laws w] show ?thesis
    by (simp add: cfg_ok_def)
qed

text \<open>A staged draft is the normalised input, never attested, over the active configuration as it was.\<close>

definition stages ::
    "platform \<Rightarrow> PlatformRouterSnapshot \<Rightarrow> ManagedPlatformRouterInput \<Rightarrow>
     NormalizedStoredRouterConfig option \<Rightarrow> StoredRouterDraft option \<Rightarrow> bool" where
  "stages P s input a d \<longleftrightarrow> a = s_active s \<and>
     (\<exists>file c changed. normalizeManagedRouterInput P (in_config input) file = Inr c \<and>
        (in_apiKey input = None \<longrightarrow> \<not> changed) \<and>
        d = Some \<lparr> d_config = c, d_keyChanged = changed, d_attestation = None \<rparr>)"

lemma staged_ok:
  "cfg_ok P c \<Longrightarrow> draft_fixed P \<lparr> d_config = c, d_keyChanged = b, d_attestation = None \<rparr> \<and>
     wf_json (draft_json \<lparr> d_config = c, d_keyChanged = b, d_attestation = None \<rparr>)"
  by (simp add: draft_fixed_def cfg_ok_def draft_json_def opt_json_def wf_json_Obj)

lemma keeps_credentialFile:
  "keeps M (wframe K L) (case k of
     Some k \<Rightarrow> bnd next_id (\<lambda>i. ret (js ''platform-router-key-'' @ i @ js ''.key'')) | None \<Rightarrow> ret f)"
  by (intro combinators keeps_intro)

lemma stage_mutates:
  assumes M: "fit M" and s: "snap_ok (mc_platform M) s" and ctx: "sound_context M ctx"
    and wf: "wf_input (in_config input)"
  shows "mutates M r s (stages (mc_platform M) s input) (stage_locked input ctx g h)"
proof -
  have active: "\<And>c. s_active s = Some c \<Longrightarrow> cfg_ok (mc_platform M) c" using s by (simp add: snap_ok_def)
  have laws: "url_laws (mc_platform M)" using M by (simp add: fit_def)
  have rely: "rely (Kz {}) (Lz {}) M" by (rule calm_rely [OF fit_calm [OF M]])
  note ok = normalizeManaged_ok [OF laws wf]
  have wfc: "wf_json (cfg_json c)" if "normalizeManagedRouterInput (mc_platform M) (in_config input) f = Inr c" for f c
    using ok [OF that] by (simp add: cfg_ok_def)
  have writes: "keeps M (wframe (Kz {}) (Lz {})) (case k of
      Some k \<Rightarrow> writeCredentialWithReconciliation f k | None \<Rightarrow> ret ())" for k f
    by (intro combinators keeps_intro rely)
  show ?thesis
    unfolding stage_locked_def Let_def
    by (intro mutates_commit [OF M s active] mutates_platform mutates_read [OF M] mutates_throw
        mutates_bnd' [OF keeps_readSecret [OF rely]] mutates_bnd' [OF keeps_credentialFile]
        mutates_thn [OF writes] mutates_lift mutates_guard mutates_audit [OF M ctx])
       (auto simp: stages_def wfc staged_ok [OF ok])
qed

section \<open>Statements\<close>

lemma mutatesD:
  assumes "mutates M r s A m" and "wf_store r (w_disk w)" and "visible (mc_platform M) (w_disk w) = Inr s"
    and "m M w = (result, w')"
  shows "case result of
       Ret x \<Rightarrow> changed (mc_platform M) A (w_disk w')
     | Throw e \<Rightarrow> untouched (mc_platform M) s (w_disk w') \<or>
         e = StateIndeterminateError \<and> changed (mc_platform M) A (w_disk w')
     | Crash \<Rightarrow> untouched (mc_platform M) s (w_disk w') \<or> changed (mc_platform M) A (w_disk w')"
proof -
  have w: "shows_snap M r s w" using assms(2,3) by (simp add: shows_snap_def on_def)
  from outcomeD [OF assms(1) [unfolded mutates_def] w] assms(4) show ?thesis
    by (cases result) auto
qed

lemma example_fit: "fit example_machine"
  by (simp add: fit_def example_calm example_laws)

lemma example_snap: "snap_ok P example_before"
  by (simp add: snap_ok_def example_before_def)

definition example_context :: PlatformRouterMutationContext where
  "example_context = \<lparr> x_actor = js ''root'', x_requestId = js ''r1'' \<rparr>"

lemma example_sound: "sound_context example_machine example_context"
proof -
  have "iso_instant (js ''2024-01-02T03:04:05.678Z'')"
    by (simp add: iso_instant_def picture_def js_simps is_digit_def valid_time_def field_def days_in_month_def
        read_nat_def leap_def)
  moreover have "boundedAuditText (js ''r1'') = Inr (js ''r1'')"
    by (simp add: boundedAuditText_def js_simps trim_def is_space_def)
  ultimately show ?thesis
    by (simp add: sound_context_def example_machine_def example_context_def)
qed

text \<open>
  C3. Activation publishes exactly what was tested, atomically. Under the lock and for every
  schedule of faults: when \<open>activate\<close> returns, the visible active configuration is the draft
  that was visible before, the draft was enabled and its attestation holds the digest of that
  very configuration with a credential; the draft is gone. On every error except
  \<open>StateIndeterminateError\<close> the visible snapshot is the old one, and after the death of the
  process it is one of the two.
\<close>

theorem activate_atomic:
  assumes "fit M" and "wf_store r (w_disk w)" and "visible (mc_platform M) (w_disk w) = Inr s"
    and "snap_ok (mc_platform M) s" and "sound_context M ctx"
    and "activate_locked ctx gcGrace h M w = (result, w')"
  shows "case result of
       Ret x \<Rightarrow> changed (mc_platform M) (activates (mc_platform M) s) (w_disk w')
     | Throw e \<Rightarrow> untouched (mc_platform M) s (w_disk w') \<or> e = StateIndeterminateError \<and>
         changed (mc_platform M) (activates (mc_platform M) s) (w_disk w')
     | Crash \<Rightarrow> untouched (mc_platform M) s (w_disk w') \<or>
         changed (mc_platform M) (activates (mc_platform M) s) (w_disk w')"
  by (rule mutatesD [OF activate_mutates [OF assms(1,4,5)] assms(2,3,6)])

theorem activate_atomic_witness:
  "\<exists>result w'. activate_locked example_context None example_handle example_machine locked_world = (result, w') \<and>
     (case result of
        Ret x \<Rightarrow> changed example_platform (activates example_platform example_before) (w_disk w')
      | Throw e \<Rightarrow> untouched example_platform example_before (w_disk w') \<or> e = StateIndeterminateError \<and>
          changed example_platform (activates example_platform example_before) (w_disk w')
      | Crash \<Rightarrow> untouched example_platform example_before (w_disk w') \<or>
          changed example_platform (activates example_platform example_before) (w_disk w'))"
proof -
  obtain result w' where run: "activate_locked example_context None example_handle example_machine locked_world = (result, w')"
    by fastforce
  note c = activate_atomic [of example_machine 0 locked_world example_before example_context None example_handle result w',
      unfolded example_platform_of locked_world_disk]
  show ?thesis
    by (intro exI conjI, rule run, rule c)
       (simp_all add: run example_fit example_wf example_visible example_snap example_sound)
qed

text \<open>
  C4. Recording a test is atomic and names what was tested: when \<open>markTested\<close> returns, the
  visible draft is the old one with an attestation of the digest the caller expected, the
  generation was the expected one and the active configuration is as before.
\<close>

theorem markTested_atomic:
  assumes "fit M" and "wf_store r (w_disk w)" and "visible (mc_platform M) (w_disk w) = Inr s"
    and "snap_ok (mc_platform M) s" and "sound_context M ctx"
    and "markTested_locked input ctx gcGrace h M w = (result, w')"
  shows "case result of
       Ret x \<Rightarrow> changed (mc_platform M) (attests (mc_platform M) s input) (w_disk w')
     | Throw e \<Rightarrow> untouched (mc_platform M) s (w_disk w') \<or> e = StateIndeterminateError \<and>
         changed (mc_platform M) (attests (mc_platform M) s input) (w_disk w')
     | Crash \<Rightarrow> untouched (mc_platform M) s (w_disk w') \<or>
         changed (mc_platform M) (attests (mc_platform M) s input) (w_disk w')"
  by (rule mutatesD [OF markTested_mutates [OF assms(1,4,5)] assms(2,3,6)])

definition example_test :: PlatformRouterMarkTestedInput where
  "example_test = \<lparr> mt_actor = js ''root'', mt_requestId = js ''r1'', mt_expectedGenerationId = example_uuid 1,
     mt_expectedDraftDigest = replicate 64 48, mt_status = None \<rparr>"

theorem markTested_atomic_witness:
  "\<exists>result w'. markTested_locked example_test example_context None example_handle example_machine locked_world = (result, w') \<and>
     (case result of
        Ret x \<Rightarrow> changed example_platform (attests example_platform example_before example_test) (w_disk w')
      | Throw e \<Rightarrow> untouched example_platform example_before (w_disk w') \<or> e = StateIndeterminateError \<and>
          changed example_platform (attests example_platform example_before example_test) (w_disk w')
      | Crash \<Rightarrow> untouched example_platform example_before (w_disk w') \<or>
          changed example_platform (attests example_platform example_before example_test) (w_disk w'))"
proof -
  obtain result w' where run:
      "markTested_locked example_test example_context None example_handle example_machine locked_world = (result, w')"
    by fastforce
  note c = markTested_atomic [of example_machine 0 locked_world example_before example_context example_test None
      example_handle result w', unfolded example_platform_of locked_world_disk]
  show ?thesis
    by (intro exI conjI, rule run, rule c)
       (simp_all add: run example_fit example_wf example_visible example_snap example_sound)
qed

text \<open>
  C5. Staging is atomic: when \<open>stage\<close> returns, the visible draft is the normalised input
  without an attestation and the active configuration is untouched; without a new key the
  draft does not claim that the key changed.
\<close>

theorem stage_atomic:
  assumes "fit M" and "wf_store r (w_disk w)" and "visible (mc_platform M) (w_disk w) = Inr s"
    and "snap_ok (mc_platform M) s" and "sound_context M ctx" and "wf_input (in_config input)"
    and "stage_locked input ctx gcGrace h M w = (result, w')"
  shows "case result of
       Ret x \<Rightarrow> changed (mc_platform M) (stages (mc_platform M) s input) (w_disk w')
     | Throw e \<Rightarrow> untouched (mc_platform M) s (w_disk w') \<or> e = StateIndeterminateError \<and>
         changed (mc_platform M) (stages (mc_platform M) s input) (w_disk w')
     | Crash \<Rightarrow> untouched (mc_platform M) s (w_disk w') \<or>
         changed (mc_platform M) (stages (mc_platform M) s input) (w_disk w')"
  by (rule mutatesD [OF stage_mutates [OF assms(1,4,5,6)] assms(2,3,7)])

definition example_stage :: ManagedPlatformRouterInput where
  "example_stage = \<lparr> in_config =
     \<lparr> cand_endpoint = Some (JStr (js ''https://ai.example/v1'')), cand_model = Some (JStr (js ''m1'')),
       cand_protocol = Some (JStr (js ''openai-compatible'')), cand_enabled = Some (JBool True),
       cand_credentialFile = None, cand_assistantInstructions = None, cand_assistantMaxOutputTokens = None,
       cand_assistantTemperature = None, cand_assistantMaxSteps = None, cand_assistantTimeoutMs = None,
       cand_modelReasoningEfforts = None, cand_assistantReasoningEffort = None \<rparr>,
     in_apiKey = Some (js ''secret'') \<rparr>"

theorem stage_atomic_witness:
  "\<exists>result w'. stage_locked example_stage example_context None example_handle example_machine locked_world = (result, w') \<and>
     (case result of
        Ret x \<Rightarrow> changed example_platform (stages example_platform example_before example_stage) (w_disk w')
      | Throw e \<Rightarrow> untouched example_platform example_before (w_disk w') \<or> e = StateIndeterminateError \<and>
          changed example_platform (stages example_platform example_before example_stage) (w_disk w')
      | Crash \<Rightarrow> untouched example_platform example_before (w_disk w') \<or>
          changed example_platform (stages example_platform example_before example_stage) (w_disk w'))"
proof -
  obtain result w' where run:
      "stage_locked example_stage example_context None example_handle example_machine locked_world = (result, w')"
    by fastforce
  note c = stage_atomic [of example_machine 0 locked_world example_before example_context example_stage None
      example_handle result w', unfolded example_platform_of locked_world_disk]
  have "wf_input (in_config example_stage)" by (simp add: wf_input_def example_stage_def)
  then show ?thesis
    by (intro exI conjI, rule_tac run, rule_tac c)
       (simp_all add: run example_fit example_wf example_visible example_snap example_sound)
qed

text \<open>
  Once a generation is committed, the work after it (delivery of the audit records,
  checkpoint, garbage collection) never raises and never changes the visible configuration.
\<close>

lemma finalize_harmless:
  assumes "fit M" and "configured M r a d w"
    and run: "finalizeCommittedGeneration committed h gcGrace M w = (result, w')"
  shows "shows_config (mc_platform M) a d (w_disk w') \<and> (\<forall>e. result \<noteq> Throw e)"
proof -
  note o = outcomeD [OF finalize_outcome [OF assms(1)] assms(2)]
  show ?thesis
    using run o configured_shows [of M r a d w'] by (cases result) auto
qed

end
