(* ===== verification/Js_String.thy ===== *)
theory Js_String
  imports Js_Json
begin

text \<open>
  Further string operations of the standard library: splitting and joining at a separator,
  iteration by code point (\<open>[...s]\<close>) and substring search.
\<close>

section \<open>Splitting and joining\<close>

fun split_on :: "nat \<Rightarrow> jstr \<Rightarrow> jstr list" where
  "split_on d [] = [[]]"
| "split_on d (c # s) =
     (if c = d then [] # split_on d s
      else case split_on d s of p # ps \<Rightarrow> (c # p) # ps | [] \<Rightarrow> [[c]])"

fun join_with :: "jstr \<Rightarrow> jstr list \<Rightarrow> jstr" where
  "join_with sep [] = []"
| "join_with sep [p] = p"
| "join_with sep (p # q # ps) = p @ sep @ join_with sep (q # ps)"

lemma split_on_nonempty [simp]: "split_on d s \<noteq> []"
  by (induction s) (auto split: list.split)

lemma split_on_free: "p \<in> set (split_on d s) \<Longrightarrow> d \<notin> set p"
proof (induction s arbitrary: p)
  case (Cons c s)
  then show ?case by (cases "split_on d s") (auto split: if_splits)
qed simp

lemma join_Cons: "ps \<noteq> [] \<Longrightarrow> join_with sep (p # ps) = p @ sep @ join_with sep ps"
  by (cases ps) simp_all

lemma join_split [simp]: "join_with [d] (split_on d s) = s"
proof (induction s)
  case (Cons c s)
  show ?case
  proof (cases "c = d")
    case True
    with Cons show ?thesis by (simp add: join_Cons)
  next
    case False
    from split_on_nonempty obtain p ps where s: "split_on d s = p # ps"
      by (meson neq_Nil_conv)
    with False Cons show ?thesis by (cases ps) auto
  qed
qed simp

section \<open>Code points\<close>

text \<open>The string iterator pairs a high surrogate with the low one that follows it.\<close>

fun scalars :: "jstr \<Rightarrow> jstr list" where
  "scalars [] = []"
| "scalars [c] = [[c]]"
| "scalars (c # d # s) =
     (if is_high c \<and> is_low d then [c, d] # scalars s else [c] # scalars (d # s))"

definition truncateScalars :: "jstr \<Rightarrow> nat \<Rightarrow> jstr" where
  "truncateScalars v maximum = concat (take maximum (scalars v))"

definition scalarLength :: "jstr \<Rightarrow> nat" where
  "scalarLength v = length (scalars v)"

lemma concat_scalars [simp]: "concat (scalars s) = s"
  by (induction s rule: scalars.induct) auto

lemma is_high_not_low: "is_high c \<Longrightarrow> \<not> is_low c"
  by (simp add: is_high_def is_low_def)

text \<open>Cutting after whole code points does not merge or split any of them.\<close>

lemma scalars_take: "scalars (concat (take n (scalars s))) = take n (scalars s)"
proof (induction s arbitrary: n rule: scalars.induct)
  case 1
  then show ?case by simp
next
  case (2 c)
  then show ?case by (cases n) auto
next
  case (3 c d s)
  show ?case
  proof (cases n)
    case 0
    then show ?thesis by simp
  next
    case (Suc m)
    show ?thesis
    proof (cases "is_high c \<and> is_low d")
      case True
      with 3(1) [of m] Suc show ?thesis by simp
    next
      case False
      with 3(2) [of m] have IH: "scalars (concat (take m (scalars (d # s)))) = take m (scalars (d # s))"
        by simp
      show ?thesis
      proof (cases m)
        case 0
        with False Suc show ?thesis by simp
      next
        case (Suc k)
        have "\<exists>r. concat (take m (scalars (d # s))) = d # r"
          using Suc by (cases s) auto
        then obtain r where "concat (take m (scalars (d # s))) = d # r" by blast
        with IH False \<open>n = Suc m\<close> show ?thesis by auto
      qed
    qed
  qed
qed

lemma scalarLength_truncate: "scalarLength (truncateScalars s n) = min n (scalarLength s)"
  by (simp add: scalarLength_def truncateScalars_def scalars_take min.commute)

lemma truncate_id: "scalarLength s \<le> n \<Longrightarrow> truncateScalars s n = s"
  by (simp add: scalarLength_def truncateScalars_def)

lemma truncate_prefix: "\<exists>r. s = truncateScalars s n @ r"
  by (metis append_take_drop_id concat_append concat_scalars truncateScalars_def)

lemma scalarLength_le: "scalarLength s \<le> length s"
  unfolding scalarLength_def by (induction s rule: scalars.induct) auto

section \<open>Searching\<close>

fun has_substring :: "jstr \<Rightarrow> jstr \<Rightarrow> bool" where
  "has_substring [] t \<longleftrightarrow> t = []"
| "has_substring (c # s) t \<longleftrightarrow> take (length t) (c # s) = t \<or> has_substring s t"

lemma has_substring_iff: "has_substring s t \<longleftrightarrow> (\<exists>a b. s = a @ t @ b)"
proof (induction s)
  case (Cons c s)
  have "take (length t) (c # s) = t \<longleftrightarrow> (\<exists>b. c # s = t @ b)"
    by (metis append_eq_conv_conj)
  with Cons show ?case
    by (auto simp: Cons_eq_append_conv)
qed auto

definition starts_with :: "jstr \<Rightarrow> jstr \<Rightarrow> bool" where
  "starts_with s t \<longleftrightarrow> take (length t) s = t"

definition ends_with :: "jstr \<Rightarrow> jstr \<Rightarrow> bool" where
  "ends_with s t \<longleftrightarrow> length t \<le> length s \<and> drop (length s - length t) s = t"

end
