(* ===== verification/Effective_Source.thy ===== *)
theory Effective_Source
  imports Router_Mutation Js_String
begin

text \<open>
  Which provider the platform router uses and whether it may be used, after
  \<open>web/src/lib/platform-router-config/effective-source.ts\<close>, with the facade
  \<open>web/src/lib/platform-router-config.ts\<close> and \<open>lifecycle.ts\<close>. The process environment is an
  argument (\<open>process.env\<close> is a record of optional strings). \<open>normalizeEndpoint\<close> and
  \<open>normalizeProtocol\<close> only ever throw \<open>PlatformRouterConfigValidationError\<close>
  (lemma \<open>normalize_errors\<close>), so the \<open>safe\<close> wrappers never rethrow.
\<close>

section \<open>Data\<close>

datatype EffectiveSourceKind = Managed | Environment | Unconfigured

datatype PolicyIssue =
    Provider_not_configured
  | Provider_not_enabled
  | Credential_not_configured
  | Endpoint_invalid
  | Model_invalid
  | Protocol_invalid
  | Origin_allowlist_invalid
  | Endpoint_origin_not_allowed
  | Managed_configuration_unreadable

record OriginAllowlistPolicy =
  al_configured :: bool
  al_valid :: bool
  al_origins :: "jstr list option"

record PlatformRouterProviderEnvironment =
  env_url :: "jstr option"
  env_model :: "jstr option"
  env_key :: "jstr option"
  env_protocol :: "jstr option"
  env_allowed_origins :: "jstr option"

record EnvironmentProviderStatus =
  ep_endpoint :: "jstr option"
  ep_model :: "jstr option"
  ep_protocol :: "ManagedRouterProtocol option"
  ep_credentialConfigured :: bool
  ep_present :: bool
  ep_configured :: bool
  ep_originAllowlist :: OriginAllowlistPolicy

record SelectedProviderStatus =
  sp_source :: EffectiveSourceKind
  sp_endpoint :: "jstr option"
  sp_model :: "jstr option"
  sp_protocol :: "ManagedRouterProtocol option"
  sp_enabled :: bool
  sp_credentialConfigured :: bool

record PolicyCandidate =
  pc_source :: "EffectiveSourceKind option"
  pc_endpoint :: "jstr option"
  pc_endpointOrigin :: "jstr option"
  pc_model :: "jstr option"
  pc_protocol :: "ManagedRouterProtocol option"
  pc_enabled :: bool
  pc_credentialConfigured :: bool

record ProviderConflicts =
  cf_endpoint :: "bool option"
  cf_model :: "bool option"
  cf_protocol :: "bool option"

record PlatformRouterEffectiveStatus =
  ef_ready :: bool
  ef_preferredHttpStatus :: "nat option"
  ef_source :: EffectiveSourceKind
  ef_managedOverridesEnvironment :: bool
  ef_conflicts :: ProviderConflicts
  ef_endpointOrigin :: "jstr option"
  ef_model :: "jstr option"
  ef_protocol :: "ManagedRouterProtocol option"
  ef_enabled :: bool
  ef_credentialConfigured :: bool
  ef_originAllowlistApplied :: bool
  ef_issues :: "PolicyIssue list"

record ManagedPlatformRouterState =
  mp_config :: "ManagedPlatformRouterConfig option"
  mp_draft :: "ManagedPlatformRouterDraftConfig option"
  mp_effective :: PlatformRouterEffectiveStatus

section \<open>Reading the environment\<close>

text \<open>\<open>value?.trim() || null\<close>.\<close>

definition trimmed :: "jstr option \<Rightarrow> jstr option" where
  "trimmed v = (case v of None \<Rightarrow> None | Some s \<Rightarrow> if trim s = [] then None else Some (trim s))"

definition safeProtocol :: "jstr option \<Rightarrow> ManagedRouterProtocol option" where
  "safeProtocol v =
     (case normalizeProtocol (Some (JStr (case trimmed v of Some s \<Rightarrow> s | None \<Rightarrow> js ''openai-compatible''))) of
        Inr p \<Rightarrow> Some p
      | Inl _ \<Rightarrow> None)"

definition safeNormalizedEndpoint :: "platform \<Rightarrow> jstr \<Rightarrow> jstr option" where
  "safeNormalizedEndpoint P v =
     (case normalizeEndpoint P (Some (JStr v)) of Inr e \<Rightarrow> Some e | Inl _ \<Rightarrow> None)"

definition safeUrlOrigin :: "platform \<Rightarrow> jstr \<Rightarrow> jstr option" where
  "safeUrlOrigin P v = map_option url_origin (url_parse P v)"

definition safeEndpointOrigin :: "platform \<Rightarrow> jstr option \<Rightarrow> jstr option" where
  "safeEndpointOrigin P v =
     (case v of
        None \<Rightarrow> None
      | Some s \<Rightarrow>
          if s = [] then None
          else case safeNormalizedEndpoint P s of
            None \<Rightarrow> None
          | Some e \<Rightarrow> if e = [] then None else safeUrlOrigin P e)"

definition endpointForComparison :: "platform \<Rightarrow> jstr option \<Rightarrow> jstr option" where
  "endpointForComparison P v =
     (case v of
        None \<Rightarrow> None
      | Some s \<Rightarrow>
          if s = [] then None
          else case safeNormalizedEndpoint P s of
            Some e \<Rightarrow> Some e
          | None \<Rightarrow> Some (strip_slashes (trim s)))"

definition safeExactHttpsOrigin :: "platform \<Rightarrow> jstr \<Rightarrow> jstr option" where
  "safeExactHttpsOrigin P v =
     (case url_parse P v of
        None \<Rightarrow> None
      | Some url \<Rightarrow>
          if url_protocol url \<noteq> js ''https:'' \<or> url_username url \<noteq> [] \<or> url_password url \<noteq> [] \<or>
             url_search url \<noteq> [] \<or> url_hash url \<noteq> [] \<or>
             (url_pathname url \<noteq> [] \<and> url_pathname url \<noteq> js ''/'')
          then None
          else case safeNormalizedEndpoint P (url_origin url) of
            None \<Rightarrow> None
          | Some e \<Rightarrow> if e = [] then None else Some (url_origin url))"

text \<open>
  The loop over the entries stops at the first that is no origin; \<open>!origin\<close> also holds of
  the empty string.
\<close>

fun allowed_origins :: "platform \<Rightarrow> jstr list \<Rightarrow> jstr list option" where
  "allowed_origins P [] = Some []"
| "allowed_origins P (e # es) =
     (case safeExactHttpsOrigin P e of
        None \<Rightarrow> None
      | Some origin \<Rightarrow>
          if origin = [] then None
          else map_option (\<lambda>os. origin # os) (allowed_origins P es))"

definition readOriginAllowlistPolicy :: "platform \<Rightarrow> jstr option \<Rightarrow> OriginAllowlistPolicy" where
  "readOriginAllowlistPolicy P v =
     (case trimmed v of
        None \<Rightarrow> \<lparr> al_configured = False, al_valid = True, al_origins = None \<rparr>
      | Some candidate \<Rightarrow>
          (let entries = map trim (split_on 44 candidate)
           in if [] \<in> set entries
              then \<lparr> al_configured = True, al_valid = False, al_origins = None \<rparr>
              else case allowed_origins P entries of
                None \<Rightarrow> \<lparr> al_configured = True, al_valid = False, al_origins = None \<rparr>
              | Some origins \<Rightarrow>
                  \<lparr> al_configured = True, al_valid = True, al_origins = Some (dedup origins) \<rparr>))"

section \<open>Policy\<close>

definition isKnownProtocol :: "ManagedRouterProtocol option \<Rightarrow> bool" where
  "isKnownProtocol v \<longleftrightarrow>
     v = Some OpenaiCompatible \<or> v = Some AnthropicMessages \<or> v = Some GeminiGenerateContent"

definition platformRouterPolicyIssues ::
    "platform \<Rightarrow> PolicyCandidate \<Rightarrow> OriginAllowlistPolicy \<Rightarrow> PolicyIssue list" where
  "platformRouterPolicyIssues P v allowlist =
     (let endpoint = (case pc_endpoint v of Some e \<Rightarrow> Some e | None \<Rightarrow> pc_endpointOrigin v);
          normalizedEndpoint = (case endpoint of
            None \<Rightarrow> None | Some e \<Rightarrow> if e = [] then None else safeNormalizedEndpoint P e);
          invalid = (normalizedEndpoint = None \<or> normalizedEndpoint = Some []);
          origin = (if invalid then None else safeUrlOrigin P (the normalizedEndpoint))
      in dedup (
        (if pc_source v = Some Unconfigured then [Provider_not_configured] else []) @
        (if \<not> pc_enabled v then [Provider_not_enabled] else []) @
        (if \<not> pc_credentialConfigured v then [Credential_not_configured] else []) @
        (if invalid then [Endpoint_invalid] else []) @
        (if \<not> isValidProviderModel (map_option JStr (pc_model v)) (pc_protocol v) then [Model_invalid] else []) @
        (if \<not> isKnownProtocol (pc_protocol v) then [Protocol_invalid] else []) @
        (if \<not> al_valid allowlist then [Origin_allowlist_invalid]
         else case (origin, al_origins allowlist) of
           (Some o', Some allowed) \<Rightarrow>
             if o' \<noteq> [] \<and> o' \<notin> set allowed then [Endpoint_origin_not_allowed] else []
         | _ \<Rightarrow> [])))"

text \<open>A \<open>SelectedProviderStatus\<close> passed where a \<open>PolicyCandidate\<close> is expected.\<close>

definition selected_candidate :: "SelectedProviderStatus \<Rightarrow> PolicyCandidate" where
  "selected_candidate s =
     \<lparr> pc_source = Some (sp_source s), pc_endpoint = sp_endpoint s, pc_endpointOrigin = None,
       pc_model = sp_model s, pc_protocol = sp_protocol s, pc_enabled = sp_enabled s,
       pc_credentialConfigured = sp_credentialConfigured s \<rparr>"

definition readEnvironmentProviderStatus ::
    "platform \<Rightarrow> PlatformRouterProviderEnvironment \<Rightarrow> EnvironmentProviderStatus" where
  "readEnvironmentProviderStatus P environment =
     (let endpoint = trimmed (env_url environment);
          model = trimmed (env_model environment);
          credentialConfigured = (trimmed (env_key environment) \<noteq> None);
          rawProtocol = trimmed (env_protocol environment);
          protocol = safeProtocol rawProtocol;
          present = (endpoint \<noteq> None \<or> model \<noteq> None \<or> credentialConfigured \<or> rawProtocol \<noteq> None);
          originAllowlist = readOriginAllowlistPolicy P (env_allowed_origins environment);
          candidate = \<lparr> sp_source = (if present then Environment else Unconfigured),
            sp_endpoint = endpoint, sp_model = model, sp_protocol = protocol,
            sp_enabled = present, sp_credentialConfigured = credentialConfigured \<rparr>
      in \<lparr> ep_endpoint = endpoint, ep_model = model, ep_protocol = protocol,
           ep_credentialConfigured = credentialConfigured, ep_present = present,
           ep_configured = (present \<and>
             platformRouterPolicyIssues P (selected_candidate candidate) originAllowlist = []),
           ep_originAllowlist = originAllowlist \<rparr>)"

section \<open>The effective provider\<close>

definition selectEffectiveProvider ::
    "ManagedPlatformRouterConfig option \<Rightarrow> EnvironmentProviderStatus \<Rightarrow> SelectedProviderStatus" where
  "selectEffectiveProvider managed environment =
     (case managed of
        Some m \<Rightarrow> \<lparr> sp_source = Managed, sp_endpoint = Some (m_endpoint m), sp_model = Some (m_model m),
          sp_protocol = Some (m_protocol m), sp_enabled = m_enabled m,
          sp_credentialConfigured = m_credentialConfigured m \<rparr>
      | None \<Rightarrow>
          if ep_present environment
          then \<lparr> sp_source = Environment, sp_endpoint = ep_endpoint environment,
            sp_model = ep_model environment, sp_protocol = ep_protocol environment,
            sp_enabled = True, sp_credentialConfigured = ep_credentialConfigured environment \<rparr>
          else \<lparr> sp_source = Unconfigured, sp_endpoint = None, sp_model = None, sp_protocol = None,
            sp_enabled = False, sp_credentialConfigured = False \<rparr>)"

definition managedEnvironmentConflicts ::
    "platform \<Rightarrow> ManagedPlatformRouterConfig option \<Rightarrow> EnvironmentProviderStatus \<Rightarrow> ProviderConflicts" where
  "managedEnvironmentConflicts P managed environment =
     (case managed of
        None \<Rightarrow> \<lparr> cf_endpoint = Some False, cf_model = Some False, cf_protocol = Some False \<rparr>
      | Some m \<Rightarrow>
          if \<not> ep_present environment
          then \<lparr> cf_endpoint = Some False, cf_model = Some False, cf_protocol = Some False \<rparr>
          else
          \<lparr> cf_endpoint = Some (case ep_endpoint environment of
              None \<Rightarrow> False
            | Some e \<Rightarrow> e \<noteq> [] \<and>
                endpointForComparison P (Some e) \<noteq> endpointForComparison P (Some (m_endpoint m))),
            cf_model = Some (case ep_model environment of
              None \<Rightarrow> False | Some x \<Rightarrow> x \<noteq> [] \<and> x \<noteq> m_model m),
            cf_protocol = Some (case ep_protocol environment of
              None \<Rightarrow> False | Some p \<Rightarrow> p \<noteq> m_protocol m) \<rparr>)"

definition platformRouterEffectiveStatusFrom ::
    "platform \<Rightarrow> ManagedPlatformRouterConfig option \<Rightarrow> EnvironmentProviderStatus \<Rightarrow>
     PlatformRouterEffectiveStatus" where
  "platformRouterEffectiveStatusFrom P managed environment =
     (let selected = selectEffectiveProvider managed environment;
          issues = platformRouterPolicyIssues P (selected_candidate selected) (ep_originAllowlist environment);
          ready = (issues = [])
      in \<lparr> ef_ready = ready, ef_preferredHttpStatus = (if ready then None else Some 451),
           ef_source = sp_source selected,
           ef_managedOverridesEnvironment = (sp_source selected = Managed \<and> ep_present environment),
           ef_conflicts = managedEnvironmentConflicts P managed environment,
           ef_endpointOrigin = safeEndpointOrigin P (sp_endpoint selected),
           ef_model = sp_model selected, ef_protocol = sp_protocol selected,
           ef_enabled = sp_enabled selected,
           ef_credentialConfigured = sp_credentialConfigured selected,
           ef_originAllowlistApplied = al_configured (ep_originAllowlist environment),
           ef_issues = issues \<rparr>)"

definition unreadableManagedPlatformRouterEffectiveStatus ::
    "EnvironmentProviderStatus \<Rightarrow> PlatformRouterEffectiveStatus" where
  "unreadableManagedPlatformRouterEffectiveStatus environment =
     \<lparr> ef_ready = False, ef_preferredHttpStatus = Some 451, ef_source = Managed,
       ef_managedOverridesEnvironment = ep_present environment,
       ef_conflicts = \<lparr> cf_endpoint = None, cf_model = None, cf_protocol = None \<rparr>,
       ef_endpointOrigin = None, ef_model = None, ef_protocol = None, ef_enabled = False,
       ef_credentialConfigured = False,
       ef_originAllowlistApplied = al_configured (ep_originAllowlist environment),
       ef_issues = [Managed_configuration_unreadable] \<rparr>"

definition platformRouterEffectiveStatusFromReader ::
    "ManagedPlatformRouterConfig option io \<Rightarrow> EnvironmentProviderStatus \<Rightarrow> PlatformRouterEffectiveStatus io" where
  "platformRouterEffectiveStatusFromReader readManaged environment =
     catch (bnd platform_of (\<lambda>P.
            bnd readManaged (\<lambda>m. ret (platformRouterEffectiveStatusFrom P m environment))))
       (\<lambda>_. ret (unreadableManagedPlatformRouterEffectiveStatus environment))"

text \<open>\<open>lifecycle.ts\<close> forwards to the production lifecycle.\<close>

definition getManagedPlatformRouterConfig :: "ManagedPlatformRouterConfig option io" where
  "getManagedPlatformRouterConfig = getActive"

definition readManagedPlatformRouterConfig :: "ManagedPlatformRouterSecretConfig option io" where
  "readManagedPlatformRouterConfig = readActive"

definition getPlatformRouterEffectiveStatus ::
    "PlatformRouterProviderEnvironment \<Rightarrow> PlatformRouterEffectiveStatus io" where
  "getPlatformRouterEffectiveStatus env =
     bnd platform_of (\<lambda>P.
     platformRouterEffectiveStatusFromReader getManagedPlatformRouterConfig (readEnvironmentProviderStatus P env))"

section \<open>The facade\<close>

definition managedPlatformRouterStateFromTransactionalState ::
    "platform \<Rightarrow> PlatformRouterPublicState \<Rightarrow> EnvironmentProviderStatus \<Rightarrow> ManagedPlatformRouterState" where
  "managedPlatformRouterStateFromTransactionalState P state environment =
     \<lparr> mp_config = ps_config state, mp_draft = ps_draft state,
       mp_effective = platformRouterEffectiveStatusFrom P (ps_config state) environment \<rparr>"

definition getManagedPlatformRouterState ::
    "PlatformRouterProviderEnvironment \<Rightarrow> ManagedPlatformRouterState io" where
  "getManagedPlatformRouterState env =
     bnd platform_of (\<lambda>P.
     let environment = readEnvironmentProviderStatus P env in
     catch (bnd getState (\<lambda>state.
              ret (managedPlatformRouterStateFromTransactionalState P state environment)))
       (\<lambda>_. ret \<lparr> mp_config = None, mp_draft = None,
          mp_effective = unreadableManagedPlatformRouterEffectiveStatus environment \<rparr>))"

section \<open>When the provider may be used\<close>

lemma normalize_errors:
  "normalizeEndpoint P v = Inl e \<Longrightarrow> e = ConfigValidation"
  "normalizeProtocol v = Inl e \<Longrightarrow> e = ConfigValidation"
  by (auto simp: normalizeEndpoint_def normalizeProtocol_def Let_def split: option.splits if_splits)

lemma isKnownProtocol_iff [simp]: "isKnownProtocol v \<longleftrightarrow> v \<noteq> None"
  by (cases v) (auto simp: isKnownProtocol_def, metis ManagedRouterProtocol.exhaust)

lemma dedup_Nil_iff [simp]: "dedup xs = [] \<longleftrightarrow> xs = []"
  by (cases xs) auto

lemma trimmed_Some: "trimmed v = Some s \<Longrightarrow> s \<noteq> [] \<and> trim s = s"
  by (auto simp: trimmed_def split: option.splits if_splits)

lemma trimmed_trimmed [simp]: "trimmed (trimmed v) = trimmed v"
  by (auto simp: trimmed_def split: option.splits)

definition usable_endpoint :: "platform \<Rightarrow> jstr option \<Rightarrow> OriginAllowlistPolicy \<Rightarrow> bool" where
  "usable_endpoint P endpoint allowlist \<longleftrightarrow>
     al_valid allowlist \<and>
     (\<exists>e n. endpoint = Some e \<and> e \<noteq> [] \<and> safeNormalizedEndpoint P e = Some n \<and> n \<noteq> [] \<and>
        (\<forall>o' allowed. safeUrlOrigin P n = Some o' \<and> o' \<noteq> [] \<and> al_origins allowlist = Some allowed \<longrightarrow>
           o' \<in> set allowed))"

lemma no_issues_iff:
  "platformRouterPolicyIssues P v allowlist = [] \<longleftrightarrow>
     pc_source v \<noteq> Some Unconfigured \<and> pc_enabled v \<and> pc_credentialConfigured v \<and>
     isValidProviderModel (map_option JStr (pc_model v)) (pc_protocol v) \<and>
     usable_endpoint P (case pc_endpoint v of Some e \<Rightarrow> Some e | None \<Rightarrow> pc_endpointOrigin v) allowlist"
  (is "?L \<longleftrightarrow> ?R")
proof -
  have "isValidProviderModel m p \<Longrightarrow> p \<noteq> None" for m p
    by (auto simp: isValidProviderModel_def split: option.splits if_splits)
  then show ?thesis
    unfolding platformRouterPolicyIssues_def Let_def usable_endpoint_def
    by (auto split: option.splits if_splits)
qed


lemma selected_no_issues:
  "platformRouterPolicyIssues P (selected_candidate s) allowlist = [] \<longleftrightarrow>
     sp_source s \<noteq> Unconfigured \<and> sp_enabled s \<and> sp_credentialConfigured s \<and>
     isValidProviderModel (map_option JStr (sp_model s)) (sp_protocol s) \<and>
     usable_endpoint P (sp_endpoint s) allowlist"
  by (cases "sp_endpoint s") (simp_all add: no_issues_iff selected_candidate_def)

lemma safeNormalizedEndpoint_Some:
  "safeNormalizedEndpoint P e = Some n \<longleftrightarrow> normalizeEndpoint P (Some (JStr e)) = Inr n"
  by (auto simp: safeNormalizedEndpoint_def split: sum.splits)

definition origin_law :: "platform \<Rightarrow> bool" where
  "origin_law P \<longleftrightarrow> (\<forall>s u. url_parse P s = Some u \<longrightarrow> url_origin u \<noteq> [])"

text \<open>What is known of the URL of an endpoint that the policy accepts.\<close>

definition safe_url :: "platform \<Rightarrow> jstr \<Rightarrow> url \<Rightarrow> bool" where
  "safe_url P e u \<longleftrightarrow>
     url_parse P (trim e) = Some u \<and> url_protocol u = js ''https:'' \<and> url_username u = [] \<and>
     url_password u = [] \<and> url_search u = [] \<and> url_hash u = [] \<and>
     \<not> isPrivateOrReservedIpLiteral P (url_hostname u)"

lemma usable_origin:
  assumes "url_laws P" "origin_law P" and "usable_endpoint P endpoint allowlist"
  obtains e u where "endpoint = Some e" "safe_url P e u" "safeEndpointOrigin P endpoint = Some (url_origin u)"
    "\<And>allowed. al_origins allowlist = Some allowed \<Longrightarrow> url_origin u \<in> set allowed"
proof -
  from assms(3) obtain e n where e: "endpoint = Some e" "e \<noteq> []" "safeNormalizedEndpoint P e = Some n" "n \<noteq> []"
    and allowed: "\<And>o' os. safeUrlOrigin P n = Some o' \<Longrightarrow> o' \<noteq> [] \<Longrightarrow> al_origins allowlist = Some os \<Longrightarrow> o' \<in> set os"
    unfolding usable_endpoint_def by blast
  from e(3) obtain u where u: "safe_url P e u" and n: "n = url_origin u @ strip_slashes (url_pathname u)"
    by (auto simp: safeNormalizedEndpoint_Some normalizeEndpoint_Inr safe_url_def)
  then have "url_parse P n = Some (reparsed u (strip_slashes (url_pathname u)))"
    using url_lawsD(3) [OF assms(1), of "trim e" u] by (auto simp: safe_url_def)
  then have o': "safeUrlOrigin P n = Some (url_origin u)" by (simp add: safeUrlOrigin_def reparsed_def)
  have "url_origin u \<noteq> []" using u assms(2) by (auto simp: origin_law_def safe_url_def)
  with allowed [OF o'] e o' u that show thesis by (simp add: safeEndpointOrigin_def)
qed

lemma ready_usable:
  "ef_ready (platformRouterEffectiveStatusFrom P managed environment) \<Longrightarrow>
     usable_endpoint P (sp_endpoint (selectEffectiveProvider managed environment)) (ep_originAllowlist environment)"
  by (simp add: platformRouterEffectiveStatusFrom_def Let_def selected_no_issues)

lemma status_origin:
  "ef_endpointOrigin (platformRouterEffectiveStatusFrom P managed environment) =
     safeEndpointOrigin P (sp_endpoint (selectEffectiveProvider managed environment))"
  by (simp add: platformRouterEffectiveStatusFrom_def Let_def)

lemma allowed_origins_sound:
  "allowed_origins P es = Some os \<Longrightarrow> o' \<in> set os \<Longrightarrow> \<exists>e \<in> set es. safeExactHttpsOrigin P e = Some o'"
  by (induction es arbitrary: os) (auto split: option.splits if_splits)

lemma allowlist_sound:
  assumes "trimmed v = Some text" and "al_valid (readOriginAllowlistPolicy P v)"
  obtains os where "al_origins (readOriginAllowlistPolicy P v) = Some os"
    "\<And>o'. o' \<in> set os \<Longrightarrow> \<exists>e \<in> set (split_on 44 text). safeExactHttpsOrigin P (trim e) = Some o'"
proof -
  from assms obtain os where "allowed_origins P (map trim (split_on 44 text)) = Some os"
    and "al_origins (readOriginAllowlistPolicy P v) = Some (dedup os)"
    by (auto simp: readOriginAllowlistPolicy_def Let_def split: option.splits if_splits)
  moreover from this have "\<exists>e \<in> set (split_on 44 text). safeExactHttpsOrigin P (trim e) = Some o'"
    if "o' \<in> set (dedup os)" for o'
    using allowed_origins_sound [of P "map trim (split_on 44 text)" os o'] that by auto
  ultimately show thesis using that by blast
qed

section \<open>Reading the managed state under faults\<close>

lemma validated_outcome:
  assumes M: "calm M" and wf: "wf_store r d0"
  shows "outcome M (on (same_store d0)) readValidatedSnapshot
     (\<lambda>s w. visible (mc_platform M) d0 = Inr s) (\<lambda>_ _. True) (\<lambda>_. True)"
proof -
  let ?I = "on (same_store d0)"
  have rely: "rely (Kz {}) (Lz {}) M" by (rule calm_rely [OF M])
  let ?k = "\<lambda>d. k_root d = Some (DirN r)"
  have "outcome M (on ?k) (lstat (RootPath [])) (\<lambda>_ _. True) (\<lambda>e _. e \<noteq> NodeError ENOENT) (\<lambda>_. True)"
    by (rule outcome_weaken [OF outcome_lstat [OF zstable_calm [OF zstable_root M], where r = "Inr (DirN r)"]]) auto
  then have "outcome M ?I (lstat (RootPath [])) (\<lambda>_ _. True) (\<lambda>e _. e \<noteq> NodeError ENOENT) (\<lambda>_. True)"
    using wf by (elim outcome_weaken) (auto simp: on_def wf_store_def frame_def)
  from outcome_conj [OF outcome_calm [OF keeps_lstat M zstable_same] this]
  have "outcome M ?I (lstat (RootPath [])) (\<lambda>_. ?I) (\<lambda>e w. ?I w \<and> e \<noteq> NodeError ENOENT) (\<lambda>_. True)"
    by (rule outcome_weaken) auto
  then have "outcome M ?I (attempt (lstat (RootPath [])))
      (\<lambda>x w. ?I w \<and> x \<noteq> Inl (NodeError ENOENT)) (\<lambda>_ _. True) (\<lambda>_. True)"
    unfolding attempt_def
    by (rule outcome_catch [OF outcome_bnd]) (auto intro: outcome_ret)
  moreover have "outcome M ?I (bnd readCurrentSnapshot (\<lambda>x. thn (validateReferencedCredentials x) (ret x)))
      (\<lambda>s w. visible (mc_platform M) d0 = Inr s) (\<lambda>_ _. True) (\<lambda>_. True)"
  proof (rule outcome_bnd)
    show "outcome M ?I readCurrentSnapshot (\<lambda>s w. ?I w \<and> visible (mc_platform M) d0 = Inr s) (\<lambda>_ _. True) (\<lambda>_. True)"
      by (rule outcome_weaken [OF read_outcome [OF M wf]]) auto
  qed (auto intro!: outcome_pre simp: outcome_def thn_def bnd_def ret_def split: outcome.split prod.split)
  ultimately show ?thesis
    unfolding readValidatedSnapshot_def
    by - (erule outcome_bnd, auto intro!: outcome_pre outcome_throw outcome_ret split: sum.split)
qed

definition presents :: "platform \<Rightarrow> NormalizedStoredRouterConfig option \<Rightarrow> ManagedPlatformRouterConfig option \<Rightarrow> bool" where
  "presents P a c \<longleftrightarrow> rel_option (\<lambda>a c. \<exists>b. presentManagedConfig P a b = Inr c) a c"

lemma publicState_presents: "publicState P s k k' = Inr st \<Longrightarrow> presents P (s_active s) (ps_config st)"
  by (auto simp: publicState_def presents_def rbind_Inr split: option.splits)

lemma getState_outcome:
  assumes "calm M" and "wf_store r d0"
  shows "outcome M (on (same_store d0)) getState
     (\<lambda>st w. \<exists>s. visible (mc_platform M) d0 = Inr s \<and> presents (mc_platform M) (s_active s) (ps_config st))
     (\<lambda>_ _. True) (\<lambda>_. True)"
proof -
  have "returns M (bnd (readSecret (s_active s)) (\<lambda>a. bnd (readSecret (map_option d_config (s_draft s))) (\<lambda>d.
      lift_res (publicState (mc_platform M) s (secret_key a) (secret_key d)))))
     (\<lambda>st. presents (mc_platform M) (s_active s) (ps_config st))" for s
    by (intro returns_bnd) (auto simp: returns_def lift_res_def ret_def throw_def split: sum.splits dest: publicState_presents)
  then have "outcome M (\<lambda>w. visible (mc_platform M) d0 = Inr s) (bnd (readSecret (s_active s)) (\<lambda>a.
      bnd (readSecret (map_option d_config (s_draft s))) (\<lambda>d.
      lift_res (publicState (mc_platform M) s (secret_key a) (secret_key d)))))
     (\<lambda>st w. \<exists>s. visible (mc_platform M) d0 = Inr s \<and> presents (mc_platform M) (s_active s) (ps_config st))
     (\<lambda>_ _. True) (\<lambda>_. True)" for s
    by (auto simp: returns_def outcome_def split: prod.split outcome.split)
  then show ?thesis
    unfolding getState_def platform_of_def
    by (intro outcome_bnd [OF outcome_get [where Q = "\<lambda>P w. on (same_store d0) w \<and> P = mc_platform M"]]
          outcome_pre outcome_bnd [OF validated_outcome [OF assms]]) auto
qed


section \<open>Claims\<close>

definition example_url :: url where
  "example_url = \<lparr> url_protocol = js ''https:'', url_username = [], url_password = [], url_hash = [],
     url_search = [], url_pathname = js ''/'', url_hostname = js ''ai.example'',
     url_origin = js ''https://ai.example'' \<rparr>"

definition web_platform :: platform where
  "web_platform = \<lparr> url_parse = (\<lambda>s. if s = js ''https://ai.example'' then Some example_url else None),
     isIP = (\<lambda>_. 0), ip_process = (\<lambda>_. None), sha256 = (\<lambda>_. replicate 64 48) \<rparr>"

definition example_env :: PlatformRouterProviderEnvironment where
  "example_env = \<lparr> env_url = Some (js ''https://ai.example ''), env_model = Some (js ''m1''),
     env_key = Some (js ''k''), env_protocol = None, env_allowed_origins = Some (js '' https://ai.example'') \<rparr>"

lemma web_laws: "url_laws web_platform" "origin_law web_platform"
proof -
  have "trim (js ''https://ai.example'') = js ''https://ai.example''"
    by (simp add: trim_def js_simps is_space_def)
  moreover have "list_all (\<lambda>c. c < 128) (js ''https://ai.example'')" by (simp add: js_simps)
  ultimately show "url_laws web_platform"
    by (auto simp: url_laws_def web_platform_def example_url_def reparsed_def strip_slashes_props)
  show "origin_law web_platform" by (auto simp: origin_law_def web_platform_def example_url_def)
qed

lemma example_endpoint:
  "trim (js ''https://ai.example'') = js ''https://ai.example''"
  "trim (js ''https://ai.example '') = js ''https://ai.example''"
  "trim (js '' https://ai.example'') = js ''https://ai.example''"
  "trim (js ''m1'') = js ''m1''" "trim (js ''k'') = js ''k''"
  "trim (js ''openai-compatible'') = js ''openai-compatible''"
  "split_on 44 (js ''https://ai.example'') = [js ''https://ai.example'']"
  by (simp_all add: trim_def js_simps is_space_def)

lemma example_normal: "safeNormalizedEndpoint web_platform (js ''https://ai.example'') = Some (js ''https://ai.example'')"
  by (simp add: safeNormalizedEndpoint_Some normalizeEndpoint_Inr example_endpoint web_platform_def
      example_url_def strip_slashes_props isPrivateOrReservedIpLiteral_def)

lemma example_allowlist:
  "readOriginAllowlistPolicy web_platform (env_allowed_origins example_env) =
     \<lparr> al_configured = True, al_valid = True, al_origins = Some [js ''https://ai.example''] \<rparr>"
proof -
  have "safeExactHttpsOrigin web_platform (js ''https://ai.example'') = Some (js ''https://ai.example'')"
    using example_normal by (simp add: safeExactHttpsOrigin_def web_platform_def example_url_def)
  then show ?thesis
    by (simp add: readOriginAllowlistPolicy_def trimmed_def example_env_def example_endpoint)
qed

lemma example_ready:
  "ef_ready (platformRouterEffectiveStatusFrom web_platform None
     (readEnvironmentProviderStatus web_platform example_env))"
proof -
  have "isValidProviderModel (Some (JStr (js ''m1''))) (Some OpenaiCompatible)"
    by (simp add: isValidProviderModel_def example_endpoint)
       (simp add: js_simps is_alnum_def is_digit_def is_lower_def is_upper_def model_char_def)
  moreover have "safeProtocol None = Some OpenaiCompatible"
    by (simp add: safeProtocol_def trimmed_def normalizeProtocol_def)
  moreover have "safeUrlOrigin web_platform (js ''https://ai.example'') = Some (js ''https://ai.example'')"
    by (simp add: safeUrlOrigin_def web_platform_def example_url_def)
  ultimately show ?thesis
    unfolding platformRouterEffectiveStatusFrom_def readEnvironmentProviderStatus_def Let_def
      PlatformRouterEffectiveStatus.simps selected_no_issues example_allowlist
    by (simp add: selectEffectiveProvider_def usable_endpoint_def trimmed_def
        example_env_def example_endpoint example_normal)
qed

text \<open>
  C10. A provider that the policy declares ready passes every check of the policy. There is one, managed or from the environment; it is
  enabled (a managed one by its own flag), has a credential (a managed one, or a non-blank key in the environment), and the reported model is valid
  for the reported protocol. It is reached over \<open>https\<close> at a host that is no private or reserved address literal, its URL holds no
  credentials, query or fragment, and the origin that the status reports is the origin of that
  URL. When the administrator restricts the origins, that origin is one of the entries of the list.
\<close>

theorem effective_ready_safe:
  assumes "url_laws P" and "origin_law P"
    and "status = platformRouterEffectiveStatusFrom P managed (readEnvironmentProviderStatus P env)" and "ef_ready status"
  shows "ef_source status = (if managed = None then Environment else Managed) \<and> ef_issues status = [] \<and>
     ef_preferredHttpStatus status = None \<and>
     (case managed of
        Some m \<Rightarrow> m_enabled m \<and> m_credentialConfigured m \<and> ef_model status = Some (m_model m) \<and> ef_protocol status = Some (m_protocol m)
      | None \<Rightarrow> trimmed (env_key env) \<noteq> None \<and> ef_model status = trimmed (env_model env) \<and>
          ef_protocol status = safeProtocol (trimmed (env_protocol env))) \<and>
     (\<exists>model protocol. ef_model status = Some model \<and> ef_protocol status = Some protocol \<and>
        isValidProviderModel (Some (JStr model)) (Some protocol)) \<and>
     (\<exists>e u. (case managed of Some m \<Rightarrow> Some (m_endpoint m) | None \<Rightarrow> trimmed (env_url env)) = Some e \<and> safe_url P e u \<and>
        ef_endpointOrigin status = Some (url_origin u) \<and>
        (\<forall>list. trimmed (env_allowed_origins env) = Some list \<longrightarrow>
           (\<exists>x \<in> set (split_on 44 list). safeExactHttpsOrigin P (trim x) = Some (url_origin u))))"
proof -
  let ?env = "readEnvironmentProviderStatus P env"
  let ?selected = "selectEffectiveProvider managed ?env"
  have al: "ep_originAllowlist ?env = readOriginAllowlistPolicy P (env_allowed_origins env)"
    by (simp add: readEnvironmentProviderStatus_def Let_def)
  have ready: "ef_ready (platformRouterEffectiveStatusFrom P managed ?env)" using assms(3,4) by simp
  note u = ready_usable [OF ready]
  then have valid: "al_valid (readOriginAllowlistPolicy P (env_allowed_origins env))"
    by (simp add: usable_endpoint_def al)
  have checks: "sp_source ?selected \<noteq> Unconfigured" "sp_enabled ?selected" "sp_credentialConfigured ?selected"
    "isValidProviderModel (map_option JStr (sp_model ?selected)) (sp_protocol ?selected)"
    using ready by (simp_all add: platformRouterEffectiveStatusFrom_def Let_def selected_no_issues)
  have endpoint: "sp_endpoint ?selected = (case managed of Some m \<Rightarrow> Some (m_endpoint m) | None \<Rightarrow> trimmed (env_url env))"
    using checks(1) by (auto simp: selectEffectiveProvider_def readEnvironmentProviderStatus_def Let_def split: option.splits)
  have reach: "\<exists>e u. sp_endpoint ?selected = Some e \<and> safe_url P e u \<and> ef_endpointOrigin status = Some (url_origin u) \<and>
      (\<forall>list. trimmed (env_allowed_origins env) = Some list \<longrightarrow>
         (\<exists>x \<in> set (split_on 44 list). safeExactHttpsOrigin P (trim x) = Some (url_origin u)))"
    unfolding assms(3) by (rule usable_origin [OF assms(1,2) u]) (metis al allowlist_sound status_origin valid)
  have model: "\<exists>model protocol. sp_model ?selected = Some model \<and> sp_protocol ?selected = Some protocol \<and>
      isValidProviderModel (Some (JStr model)) (Some protocol)"
    using checks(4) by (cases "sp_model ?selected"; cases "sp_protocol ?selected") (auto simp: isValidProviderModel_def split: if_splits)
  show ?thesis
    using checks reach model ready unfolding endpoint assms(3)
    by (auto simp: platformRouterEffectiveStatusFrom_def Let_def selectEffectiveProvider_def readEnvironmentProviderStatus_def
        split: option.splits if_splits)
qed

theorem effective_ready_safe_witness:
  "\<exists>e u. trimmed (env_url example_env) = Some e \<and> safe_url web_platform e u \<and>
     ef_source (platformRouterEffectiveStatusFrom web_platform None (readEnvironmentProviderStatus web_platform example_env)) = Environment \<and>
     trimmed (env_key example_env) \<noteq> None"
  using effective_ready_safe [OF web_laws refl example_ready] by (simp add: split_paired_Ex) blast

text \<open>
  The environment counts as configured exactly when it would be the effective provider and
  ready in the absence of a managed configuration.
\<close>

theorem environment_configured_iff_ready:
  "ep_configured (readEnvironmentProviderStatus P env) \<longleftrightarrow>
     ef_ready (platformRouterEffectiveStatusFrom P None (readEnvironmentProviderStatus P env))"
  by (auto simp: readEnvironmentProviderStatus_def platformRouterEffectiveStatusFrom_def Let_def
      selectEffectiveProvider_def selected_no_issues)

text \<open>
  C11. The status page fails closed. Whatever system calls fail: \<open>getManagedPlatformRouterState\<close>
  never throws; the environment provider (or none) is reported only when the store shows that
  no configuration is active, and a managed provider is reported ready only when the store
  shows an active configuration, which is the one reported. In particular a corrupt or
  unreadable store never falls back to the environment.
\<close>

theorem status_fails_closed:
  assumes "calm M" and "wf_store r (w_disk w)"
    and "getManagedPlatformRouterState env M w = (result, w')"
  shows "case result of
       Ret st \<Rightarrow>
         (ef_source (mp_effective st) \<noteq> Managed \<longrightarrow>
            (\<exists>s. visible (mc_platform M) (w_disk w) = Inr s \<and> s_active s = None)) \<and>
         (ef_source (mp_effective st) = Managed \<and> ef_ready (mp_effective st) \<longrightarrow>
            (\<exists>s a c. visible (mc_platform M) (w_disk w) = Inr s \<and> s_active s = Some a \<and>
               mp_config st = Some c \<and> presents (mc_platform M) (Some a) (Some c) \<and> m_enabled c))
     | Throw e \<Rightarrow> False
     | Crash \<Rightarrow> True"
proof -
  let ?P = "mc_platform M" and ?I = "on (same_store (w_disk w))"
  let ?env = "readEnvironmentProviderStatus ?P env"
  let ?Q = "\<lambda>st (w' :: world).
     (ef_source (mp_effective st) \<noteq> Managed \<longrightarrow> (\<exists>s. visible ?P (w_disk w) = Inr s \<and> s_active s = None)) \<and>
     (ef_source (mp_effective st) = Managed \<and> ef_ready (mp_effective st) \<longrightarrow>
        (\<exists>s a c. visible ?P (w_disk w) = Inr s \<and> s_active s = Some a \<and>
           mp_config st = Some c \<and> presents ?P (Some a) (Some c) \<and> m_enabled c))"
  have good: "?Q (managedPlatformRouterStateFromTransactionalState ?P st ?env) w'"
    if "\<exists>s. visible ?P (w_disk w) = Inr s \<and> presents ?P (s_active s) (ps_config st)" for st w'
    using that
    by (auto simp: managedPlatformRouterStateFromTransactionalState_def platformRouterEffectiveStatusFrom_def
        selectEffectiveProvider_def selected_no_issues Let_def presents_def option_rel_Some2
        split: option.splits)
  have "?I w" by (simp add: on_def frame_refl)
  moreover have "outcome M ?I (getManagedPlatformRouterState env) ?Q (\<lambda>_ _. False) (\<lambda>_. True)"
    unfolding getManagedPlatformRouterState_def platform_of_def Let_def
    by (intro outcome_bnd [OF outcome_get [where Q = "\<lambda>P w. ?I w \<and> P = ?P"]] outcome_pre
          outcome_catch [OF outcome_bnd [OF getState_outcome [OF assms(1,2)] outcome_ret]] outcome_ret)
       (use good in \<open>auto simp: unreadableManagedPlatformRouterEffectiveStatus_def\<close>)
  ultimately show ?thesis
    using assms(3) outcomeD [of M ?I "getManagedPlatformRouterState env" ?Q "\<lambda>_ _. False" "\<lambda>_. True" w]
    by (cases result) auto
qed

theorem status_fails_closed_witness:
  "\<exists>result w'. getManagedPlatformRouterState example_env example_machine locked_world = (result, w') \<and>
     (\<forall>e. result \<noteq> Throw e)"
proof -
  obtain result w' where run: "getManagedPlatformRouterState example_env example_machine locked_world = (result, w')"
    by fastforce
  from status_fails_closed [OF example_calm, of 0 locked_world example_env result w'] run
  show ?thesis by (cases result) (auto simp: example_wf)
qed

end
