(* ===== verification/Body_Limit.thy ===== *)
theory Body_Limit
  imports Js_Utf8 Js_String
begin

text \<open>
  Reading HTTP bodies under a byte limit, after \<open>web/src/lib/body-limit.ts\<close>. A body stream is
  the sequence of what its reader reports: chunks, the end, a failure, or the abort of the
  signal that races with the read. A sequence that stops without an end stands for a read that
  stays pending, and the result is then \<open>None\<close>. The calls on the stream (cancellation, the
  \<open>beforeCancel\<close> hook, release of the reader's lock) are recorded in the order they happen;
  the code ignores what they throw.
\<close>

section \<open>Streams, messages and errors\<close>

datatype stream_event = Chunk bytes | End | Broken | Abort

datatype body_error =
    RequestBodyTooLargeError nat
  | ResponseBodyTooLargeError nat
  | SyntaxError
  | AbortError
  | StreamError

datatype body_action = BeforeCancel | CancelReader | CancelBody | ReleaseLock

record http_message =
  hm_contentLength :: "jstr option"
  hm_body :: "stream_event list option"

section \<open>Declared lengths\<close>

text \<open>\<open>Number.parseInt(text, 10)\<close>; \<open>None\<close> is \<open>NaN\<close>.\<close>

definition parse_digits :: "jstr \<Rightarrow> nat option" where
  "parse_digits s = (let ds = takeWhile is_digit s in if ds = [] then None else Some (read_nat ds))"

definition parse_int10 :: "jstr \<Rightarrow> int option" where
  "parse_int10 s =
     (case trim_start s of
        [] \<Rightarrow> None
      | c # t \<Rightarrow>
          if c = 45 then map_option (\<lambda>n. - int n) (parse_digits t)
          else if c = 43 then map_option int (parse_digits t)
          else map_option int (parse_digits (c # t)))"

definition declares_more :: "jstr option \<Rightarrow> nat \<Rightarrow> bool" where
  "declares_more header maximumBytes =
     (case parse_int10 (case header of Some h \<Rightarrow> h | None \<Rightarrow> []) of
        None \<Rightarrow> False
      | Some declaredLength \<Rightarrow> \<bar>declaredLength\<bar> \<le> 2 ^ 53 - 1 \<and> int maximumBytes < declaredLength)"

section \<open>Reading\<close>

text \<open>\<open>cancelReader\<close>: the state is \<open>cancelStarted\<close> and the calls made so far.\<close>

definition cancelReader :: "bool \<Rightarrow> bool \<times> body_action list \<Rightarrow> bool \<times> body_action list" where
  "cancelReader hook st =
     (case st of (cancelStarted, calls) \<Rightarrow>
        if cancelStarted then st
        else (True, calls @ (if hook then [BeforeCancel] else []) @ [CancelReader]))"

fun read_loop ::
    "nat \<Rightarrow> body_error \<Rightarrow> bool \<Rightarrow> bool \<Rightarrow> nat \<Rightarrow> bytes list \<Rightarrow> bool \<times> body_action list \<Rightarrow> stream_event list \<Rightarrow>
     (body_error + nat \<times> bytes list) option \<times> bool \<times> body_action list" where
  "read_loop maximumBytes tooLarge signal hook got chunks st [] = (None, st)"
| "read_loop maximumBytes tooLarge signal hook got chunks st (End # events) =
     (Some (Inr (got, chunks)), st)"
| "read_loop maximumBytes tooLarge signal hook got chunks st (Broken # events) =
     (Some (Inl StreamError), st)"
| "read_loop maximumBytes tooLarge signal hook got chunks st (Abort # events) =
     (if signal then (Some (Inl AbortError), cancelReader hook st)
      else read_loop maximumBytes tooLarge signal hook got chunks st events)"
| "read_loop maximumBytes tooLarge signal hook got chunks st (Chunk v # events) =
     (if maximumBytes < got + length v then (Some (Inl tooLarge), st)
      else read_loop maximumBytes tooLarge signal hook (got + length v) (chunks @ [v]) st events)"

text \<open>The buffer of \<open>total\<close> bytes (\<open>got\<close> here) and the copy of every chunk to its offset.\<close>

fun copy_chunks :: "bytes \<Rightarrow> nat \<Rightarrow> bytes list \<Rightarrow> bytes" where
  "copy_chunks buffer offset [] = buffer"
| "copy_chunks buffer offset (chunk # chunks) =
     copy_chunks (take offset buffer @ chunk @ drop (offset + length chunk) buffer)
       (offset + length chunk) chunks"

definition readBoundedBytes ::
    "stream_event list \<Rightarrow> nat \<Rightarrow> body_error \<Rightarrow> bool option \<Rightarrow> bool \<Rightarrow>
     (body_error + bytes) option \<times> body_action list" where
  "readBoundedBytes body maximumBytes tooLarge signal hook =
     (let (r, st) = (if signal = Some True then (Some (Inl AbortError), (False, []))
                     else read_loop maximumBytes tooLarge (signal \<noteq> None) hook 0 [] (False, []) body)
      in case r of
        None \<Rightarrow> (None, snd st)
      | Some (Inl e) \<Rightarrow> (Some (Inl e), snd (cancelReader hook st) @ [ReleaseLock])
      | Some (Inr (got, chunks)) \<Rightarrow>
          (Some (Inr (copy_chunks (replicate got 0) 0 chunks)), snd st @ [ReleaseLock]))"

text \<open>\<open>new TextDecoder().decode\<close>: invalid sequences become U+FFFD, a leading byte order mark is dropped.\<close>

definition decode_text :: "bytes \<Rightarrow> jstr" where
  "decode_text b = drop_bom (utf8_lossy b)"

definition parseJson :: "jstr \<Rightarrow> body_error + json" where
  "parseJson text = (case json_parse text of None \<Rightarrow> Inl SyntaxError | Some v \<Rightarrow> Inr v)"

definition readOptionalJsonBody ::
    "http_message \<Rightarrow> nat \<Rightarrow> (body_error + json option) option \<times> body_action list" where
  "readOptionalJsonBody request maximumBytes =
     (if declares_more (hm_contentLength request) maximumBytes
      then (Some (Inl (RequestBodyTooLargeError maximumBytes)), [])
      else case hm_body request of
        None \<Rightarrow> (Some (Inr None), [])
      | Some body \<Rightarrow>
          (case readBoundedBytes body maximumBytes (RequestBodyTooLargeError maximumBytes) None False of
             (None, calls) \<Rightarrow> (None, calls)
           | (Some (Inl e), calls) \<Rightarrow> (Some (Inl e), calls)
           | (Some (Inr b), calls) \<Rightarrow>
               (Some (if b = [] then Inr None
                      else rbind (parseJson (decode_text b)) (\<lambda>v. Inr (Some v))), calls)))"

definition readJsonBody :: "http_message \<Rightarrow> nat \<Rightarrow> (body_error + json) option \<times> body_action list" where
  "readJsonBody request maximumBytes =
     (case readOptionalJsonBody request maximumBytes of
        (None, calls) \<Rightarrow> (None, calls)
      | (Some (Inl e), calls) \<Rightarrow> (Some (Inl e), calls)
      | (Some (Inr None), calls) \<Rightarrow> (Some (Inl SyntaxError), calls)
      | (Some (Inr (Some v)), calls) \<Rightarrow> (Some (Inr v), calls))"

definition readResponseTextBody ::
    "http_message \<Rightarrow> nat \<Rightarrow> bool option \<Rightarrow> bool \<Rightarrow> (body_error + jstr) option \<times> body_action list" where
  "readResponseTextBody response maximumBytes signal hook =
     (if declares_more (hm_contentLength response) maximumBytes
      then (Some (Inl (ResponseBodyTooLargeError maximumBytes)),
            (if hook then [BeforeCancel] else []) @ (if hm_body response \<noteq> None then [CancelBody] else []))
      else case hm_body response of
        None \<Rightarrow> (Some (Inl SyntaxError), [])
      | Some body \<Rightarrow>
          (case readBoundedBytes body maximumBytes (ResponseBodyTooLargeError maximumBytes) signal hook of
             (None, calls) \<Rightarrow> (None, calls)
           | (Some (Inl e), calls) \<Rightarrow> (Some (Inl e), calls)
           | (Some (Inr b), calls) \<Rightarrow> (Some (Inr (decode_text b)), calls)))"

definition readJsonResponseBody ::
    "http_message \<Rightarrow> nat \<Rightarrow> bool option \<Rightarrow> (body_error + json) option \<times> body_action list" where
  "readJsonResponseBody response maximumBytes signal =
     (case readResponseTextBody response maximumBytes signal False of
        (None, calls) \<Rightarrow> (None, calls)
      | (Some (Inl e), calls) \<Rightarrow> (Some (Inl e), calls)
      | (Some (Inr t), calls) \<Rightarrow> (Some (parseJson t), calls))"

section \<open>What a read returns\<close>

text \<open>
  Specification of a stream: the bytes before its end, when it ends; an abort without a signal
  to raise it is nothing.
\<close>

fun delivered :: "bool \<Rightarrow> stream_event list \<Rightarrow> bytes option" where
  "delivered signal (End # events) = Some []"
| "delivered signal (Chunk v # events) = map_option ((@) v) (delivered signal events)"
| "delivered signal (Abort # events) = (if signal then None else delivered signal events)"
| "delivered signal _ = None"

lemma copy_chunks_fill:
  "length buffer = offset + length (concat chunks) \<Longrightarrow>
     copy_chunks buffer offset chunks = take offset buffer @ concat chunks"
proof (induction chunks arbitrary: buffer offset)
  case (Cons chunk chunks)
  then have "length (take offset buffer @ chunk @ drop (offset + length chunk) buffer) =
      (offset + length chunk) + length (concat chunks)" by simp
  from Cons.IH [OF this] Cons.prems show ?case by simp
qed simp

lemma copy_chunks_concat: "copy_chunks (replicate (length (concat chunks)) 0) 0 chunks = concat chunks"
  by (rule copy_chunks_fill [of _ 0, simplified]) simp

lemma read_loop_sound:
  "read_loop m e sig hook (length (concat chunks)) chunks st events = (Some (Inr (t, cs)), st') \<Longrightarrow>
     length (concat chunks) \<le> m \<Longrightarrow>
     st' = st \<and> t = length (concat cs) \<and> t \<le> m \<and>
     (\<exists>d. delivered sig events = Some d \<and> concat cs = concat chunks @ d)"
proof (induction events arbitrary: chunks)
  case (Cons v events)
  show ?case
  proof (cases v)
    case (Chunk b)
    with Cons.prems Cons.IH [of "chunks @ [b]"] show ?thesis by (auto split: if_splits)
  qed (use Cons in \<open>auto split: if_splits\<close>)
qed simp

lemma read_loop_complete:
  "delivered sig events = Some d \<Longrightarrow> length (concat chunks @ d) \<le> m \<Longrightarrow>
     \<exists>cs. read_loop m e sig hook (length (concat chunks)) chunks st events =
       (Some (Inr (length (concat cs), cs)), st) \<and> concat cs = concat chunks @ d"
proof (induction events arbitrary: chunks d)
  case (Cons v events)
  show ?case
  proof (cases v)
    case (Chunk b)
    with Cons.prems Cons.IH [of _ "chunks @ [b]"] show ?thesis by auto
  qed (use Cons in \<open>auto split: if_splits\<close>)
qed simp

lemma read_loop_failed:
  "read_loop m e sig hook got chunks (False, []) events = (Some (Inl x), st) \<Longrightarrow>
     st = (False, []) \<or> st = (True, (if hook then [BeforeCancel] else []) @ [CancelReader])"
proof (induction events arbitrary: got chunks)
  case (Cons v events)
  then show ?case by (cases v) (auto simp: cancelReader_def split: if_splits)
qed simp

lemma bounded_Inr:
  "readBoundedBytes body m e signal hook = (Some (Inr b), calls) \<longleftrightarrow>
     signal \<noteq> Some True \<and> delivered (signal \<noteq> None) body = Some b \<and> length b \<le> m \<and> calls = [ReleaseLock]"
  (is "?L \<longleftrightarrow> ?R")
proof
  assume ?L
  then obtain t cs st where r: "read_loop m e (signal \<noteq> None) hook 0 [] (False, []) body = (Some (Inr (t, cs)), st)"
    and "signal \<noteq> Some True" and b: "b = copy_chunks (replicate t 0) 0 cs" "calls = snd st @ [ReleaseLock]"
    by (auto simp: readBoundedBytes_def Let_def split: prod.splits option.splits sum.splits if_splits)
  with read_loop_sound [of m e "signal \<noteq> None" hook "[]" "(False, [])" body t cs st] show ?R
    by (auto simp: copy_chunks_concat)
next
  assume R: ?R
  with read_loop_complete [of "signal \<noteq> None" body b "[]" m e hook "(False, [])"] show ?L
    by (auto simp: readBoundedBytes_def copy_chunks_concat)
qed

section \<open>Claims\<close>

text \<open>
  The bounded read returns exactly the bytes the stream delivers before its end, and only
  when they fit the limit: neither the splitting into chunks nor a wrong \<open>content-length\<close> lets
  a larger body through, a body that fits is never refused, and the reader's lock is released
  without a cancellation.
\<close>

theorem bounded_read_exact:
  "readBoundedBytes body maximumBytes tooLarge signal hook = (Some (Inr b), calls) \<longleftrightarrow>
     signal \<noteq> Some True \<and> delivered (signal \<noteq> None) body = Some b \<and> length b \<le> maximumBytes \<and>
     calls = [ReleaseLock]"
  by (rule bounded_Inr)

text \<open>
  A bounded read that fails (limit, abort, broken stream) runs the \<open>beforeCancel\<close> hook once
  and before the cancellation, cancels the stream exactly once although both the abort listener
  and the error handler ask for it, and then releases the lock.
\<close>

theorem failed_read_cleans_up:
  assumes "readBoundedBytes body maximumBytes tooLarge signal hook = (Some (Inl e), calls)"
  shows "calls = (if hook then [BeforeCancel] else []) @ [CancelReader, ReleaseLock]"
proof -
  from assms obtain st where "st = (False, []) \<or>
      read_loop maximumBytes tooLarge (signal \<noteq> None) hook 0 [] (False, []) body = (Some (Inl e), st)"
    and calls: "calls = snd (cancelReader hook st) @ [ReleaseLock]"
    by (auto simp: readBoundedBytes_def Let_def split: prod.splits option.splits sum.splits if_splits)
  then show ?thesis by (auto simp: cancelReader_def dest!: read_loop_failed)
qed

theorem failed_read_cleans_up_witness:
  "readBoundedBytes [Chunk [1, 2], Chunk [3], End] 2 SyntaxError (Some False) True = (Some (Inl SyntaxError),
     [BeforeCancel, CancelReader, ReleaseLock])"
proof -
  obtain calls where r: "readBoundedBytes [Chunk [1, 2], Chunk [3], End] 2 SyntaxError (Some False) True =
      (Some (Inl SyntaxError), calls)"
    by (simp add: readBoundedBytes_def)
  from failed_read_cleans_up [OF this] show ?thesis by (simp only: r) simp
qed

lemma printed_bytes:
  assumes "wf_json v"
  shows "utf8_encode (stringify v) \<noteq> []" "parseJson (decode_text (utf8_encode (stringify v))) = Inr v"
proof -
  note w = stringify_wf16(1) [OF assms]
  have s: "stringify v \<noteq> []"
    using json_parse_stringify [OF assms] by (auto simp: json_parse_def skip_ws_def)
  then show "utf8_encode (stringify v) \<noteq> []" using utf8_encode_Nil [OF w] by simp
  have "drop_bom (stringify v) = stringify v"
  proof (cases "stringify v")
    case (Cons c t)
    moreover have "c \<noteq> 65279"
    proof
      assume "c = 65279"
      with json_parse_stringify [OF assms] Cons show False
        by (simp add: json_parse_def skip_ws_def is_ws_def pnum_def pabs_def pint_def is_digit_def)
    qed
    ultimately show ?thesis by (simp add: drop_bom_def)
  qed (simp add: s)
  then show "parseJson (decode_text (utf8_encode (stringify v))) = Inr v"
    by (simp add: parseJson_def decode_text_def utf8_lossy_encode [OF w] json_parse_stringify [OF assms])
qed

lemma printed_body_read:
  assumes "wf_json v" and "hm_body request = Some (map Chunk chunks @ [End])"
    and "concat chunks = utf8_encode (stringify v)" and "length (concat chunks) \<le> maximumBytes"
    and "\<not> declares_more (hm_contentLength request) maximumBytes"
  shows "readJsonBody request maximumBytes = (Some (Inr v), [ReleaseLock])"
proof -
  have "delivered False (map Chunk chunks @ [End]) = Some (concat chunks)" by (induction chunks) auto
  then have "readBoundedBytes (map Chunk chunks @ [End]) maximumBytes (RequestBodyTooLargeError maximumBytes) None False =
      (Some (Inr (concat chunks)), [ReleaseLock])"
    using assms(4) by (simp add: bounded_Inr)
  with assms printed_bytes [OF assms(1)] show ?thesis
    by (simp add: readJsonBody_def readOptionalJsonBody_def)
qed

text \<open>
  A JSON value printed by \<open>JSON.stringify\<close> and encoded in UTF-8 is read back unchanged from
  a request, however the transport cuts the bytes into chunks (also inside a character),
  provided the message does not declare more than the limit and the bytes fit it.
\<close>

theorem json_body_round_trip:
  assumes "wf_json v" and "hm_body request = Some (map Chunk chunks @ [End])"
    and "concat chunks = utf8_encode (stringify v)" and "length (concat chunks) \<le> maximumBytes"
    and "\<not> declares_more (hm_contentLength request) maximumBytes"
  shows "readJsonBody request maximumBytes = (Some (Inr v), [ReleaseLock])"
  by (rule printed_body_read [OF assms])

theorem json_body_round_trip_witness:
  "readJsonBody \<lparr> hm_contentLength = Some (js ''4''), hm_body = Some [Chunk [116, 114], Chunk [], Chunk [117, 101], End] \<rparr> 4 =
     (Some (Inr (JBool True)), [ReleaseLock])"
proof -
  have "concat [[116, 114], [], [117, 101]] = utf8_encode (stringify (JBool True))"
    by (simp add: js_def encode_ascii)
  moreover have "\<not> declares_more (Some (js ''4'')) 4"
    by (simp add: declares_more_def parse_int10_def parse_digits_def trim_start_def js_def is_space_def
        is_digit_def read_nat_def)
  moreover have "length (concat [[116, 114], [], [117, 101 :: nat]]) \<le> 4" by simp
  ultimately show ?thesis
    using json_body_round_trip [of "JBool True" "\<lparr> hm_contentLength = Some (js ''4''),
        hm_body = Some [Chunk [116, 114], Chunk [], Chunk [117, 101], End] \<rparr>" "[[116, 114], [], [117, 101]]" 4]
    by (simp del: length_concat)
qed

end
