(* ===== verification/Public_Endpoint.thy ===== *)
theory Public_Endpoint
  imports Router_Contract Body_Limit
begin

text \<open>
  Outbound requests that reach public addresses only, after \<open>web/src/lib/public-endpoint.ts\<close> and
  \<open>web/src/lib/pinned-public-endpoint.ts\<close>. The URL parser, \<open>isIP\<close> and \<open>ipaddr.js\<close> are the
  fields of \<^typ>\<open>platform\<close>; the resolver, the fetch of Undici and the moments at which a signal
  aborts are arguments. A dispatcher is what decides where a socket connects: a plain agent
  connects to the literal address of the URL, a pinned one to the addresses its lookup reports.
\<close>

section \<open>Errors, options and events\<close>

datatype abort_reason = DomAbort | OtherError | NotAnError

datatype outbound_error =
    PolicyError
  | PinnedPublicRedirectError nat
  | AbortedWith abort_reason
  | Interrupted
  | FetchError
  | BodyError body_error

datatype resolve_event = Resolved "jstr list" | Rejected "abort_reason option" | AbortedFirst abort_reason

record PinnedPublicAddressOptions =
  ao_allowLoopback :: bool
  ao_signal :: "abort_reason option option"

datatype lookup_result =
    LookupAll "(jstr \<times> nat) list"
  | LookupOne jstr nat
  | LookupError outbound_error

datatype dispatcher = PlainAgent | PinnedAgent "jstr \<Rightarrow> bool \<Rightarrow> lookup_result"

section \<open>Resolution without pinning\<close>

definition resolvePublicAddresses :: "(jstr \<Rightarrow> (jstr \<times> nat) list option) \<Rightarrow> jstr \<Rightarrow> jstr list option" where
  "resolvePublicAddresses lookup hostname = map_option (map fst) (lookup hostname)"

definition hasOnlyPublicAddresses :: "platform \<Rightarrow> (jstr \<Rightarrow> jstr list option) \<Rightarrow> jstr \<Rightarrow> bool" where
  "hasOnlyPublicAddresses P resolveAddresses v =
     (case url_parse P v of
        None \<Rightarrow> False
      | Some url \<Rightarrow>
          (let hostname = strip_brackets (url_hostname url)
           in if hostname = [] then False
              else if isIP P hostname \<noteq> 0 then \<not> isPrivateOrReservedIpLiteral P hostname
              else case resolveAddresses hostname of
                None \<Rightarrow> False
              | Some addresses \<Rightarrow>
                  addresses \<noteq> [] \<and>
                  list_all (\<lambda>a. isIP P a \<noteq> 0 \<and> \<not> isPrivateOrReservedIpLiteral P a) addresses))"

section \<open>Pinned resolution\<close>

definition normalizedHostname :: "jstr \<Rightarrow> jstr" where
  "normalizedHostname v =
     (let l = to_lower (trim v);
          normalized = (if l \<noteq> [] \<and> last l = 46 then butlast l else l)
      in if normalized \<noteq> [] \<and> hd normalized = 91 \<and> last normalized = 93
         then butlast (tl normalized) else normalized)"

definition isLoopbackHostname :: "jstr \<Rightarrow> bool" where
  "isLoopbackHostname h \<longleftrightarrow> h \<in> {js ''localhost'', js ''127.0.0.1'', js ''::1''}"

definition isLoopbackHttpUrl :: "url \<Rightarrow> bool" where
  "isLoopbackHttpUrl u \<longleftrightarrow>
     url_protocol u = js ''http:'' \<and> isLoopbackHostname (normalizedHostname (url_hostname u))"

text \<open>
  The signal is absent (\<open>None\<close>), present and not aborted, or aborted with a reason. An abort
  that wins the race, and one that has happened by the time the resolver rejects, are part of
  the event.
\<close>

definition awaitWithAbort :: "abort_reason option option \<Rightarrow> resolve_event \<Rightarrow> outbound_error + jstr list" where
  "awaitWithAbort signal operation =
     (case signal of
        Some (Some reason) \<Rightarrow> Inl (AbortedWith reason)
      | _ \<Rightarrow>
          (case operation of
             Resolved addresses \<Rightarrow> Inr addresses
           | Rejected aborted \<Rightarrow>
               Inl (case aborted of Some reason \<Rightarrow> if signal = None then PolicyError else AbortedWith reason
                    | None \<Rightarrow> PolicyError)
           | AbortedFirst reason \<Rightarrow> Inl (if signal = None then PolicyError else AbortedWith reason)))"

definition resolvePinnedPublicAddresses ::
    "platform \<Rightarrow> (jstr \<Rightarrow> resolve_event) \<Rightarrow> url \<Rightarrow> PinnedPublicAddressOptions \<Rightarrow> outbound_error + jstr list" where
  "resolvePinnedPublicAddresses P resolveAddresses url options =
     (let hostname = normalizedHostname (url_hostname url);
          loopback = (ao_allowLoopback options \<and> isLoopbackHostname hostname)
      in rbind
           (if loopback
            then Inr (if hostname = js ''localhost'' then [js ''127.0.0.1'', js ''::1''] else [hostname])
            else if isIP P hostname \<noteq> 0 then Inr [hostname]
            else awaitWithAbort (ao_signal options) (resolveAddresses hostname))
           (\<lambda>addresses.
              let unique = dedup (map normalizedHostname addresses)
              in if unique = [] \<or>
                    list_ex (\<lambda>a. isIP P a = 0 \<or>
                      (isPrivateOrReservedIpLiteral P a \<and> \<not> (loopback \<and> isLoopbackHostname a))) unique
                 then Inl PolicyError else Inr unique))"

text \<open>An abort is reported to the connector as an ordinary error that carries its name.\<close>

definition lookup_error :: "outbound_error \<Rightarrow> outbound_error" where
  "lookup_error e =
     (case e of
        AbortedWith DomAbort \<Rightarrow> Interrupted
      | AbortedWith NotAnError \<Rightarrow> PolicyError
      | _ \<Rightarrow> e)"

definition createPinnedPublicLookup ::
    "platform \<Rightarrow> (jstr \<Rightarrow> resolve_event) \<Rightarrow> url \<Rightarrow> PinnedPublicAddressOptions \<Rightarrow> jstr \<Rightarrow> bool \<Rightarrow> lookup_result" where
  "createPinnedPublicLookup P resolveAddresses url options hostname wantAll =
     (if normalizedHostname hostname \<noteq> normalizedHostname (url_hostname url)
      then LookupError (lookup_error PolicyError)
      else case resolvePinnedPublicAddresses P resolveAddresses url options of
        Inl e \<Rightarrow> LookupError (lookup_error e)
      | Inr addresses \<Rightarrow>
          (let records = map (\<lambda>a. (a, isIP P a)) addresses
           in if wantAll then LookupAll records
              else LookupOne (fst (hd records)) (snd (hd records))))"

definition createPinnedPublicDispatcher ::
    "platform \<Rightarrow> (jstr \<Rightarrow> resolve_event) \<Rightarrow> url \<Rightarrow> PinnedPublicAddressOptions \<Rightarrow> outbound_error + dispatcher" where
  "createPinnedPublicDispatcher P resolveAddresses url options =
     (let hostname = normalizedHostname (url_hostname url)
      in if isIP P hostname \<noteq> 0
         then if isPrivateOrReservedIpLiteral P hostname \<and>
                 \<not> (ao_allowLoopback options \<and> isLoopbackHostname hostname)
              then Inl PolicyError
              else Inr PlainAgent
         else Inr (PinnedAgent (createPinnedPublicLookup P resolveAddresses url options)))"

section \<open>Fetching\<close>

record http_response =
  hr_status :: nat
  hr_redirected :: bool
  hr_message :: http_message

datatype fetch_event = Fetched http_response | FetchFailed outbound_error

datatype transport_action = DestroyTransport | CloseTransport | CancelResponse

record PinnedPublicTextRequestOptions =
  to_responseLimitBytes :: nat
  to_allowLoopback :: bool

text \<open>
  What happens around one request: whether the request signal is aborted before the fetch,
  whether the body signal is aborted when the read begins and when a failed read is examined,
  whether some signal is aborted at the end, and whether the orderly close of the dispatcher
  fails.
\<close>

record request_course =
  rc_abortedBefore :: "abort_reason option"
  rc_bodyAbortedAtStart :: bool
  rc_bodyAborted :: "abort_reason option"
  rc_interrupted :: bool
  rc_closeFails :: bool

text \<open>\<open>destroyTransport\<close>: the first call destroys the dispatcher, later ones do nothing.\<close>

definition destroyTransport :: "transport_action list \<Rightarrow> transport_action list" where
  "destroyTransport calls = (if DestroyTransport \<in> set calls then calls else calls @ [DestroyTransport])"

definition dispose :: "request_course \<Rightarrow> transport_action list \<Rightarrow> transport_action list" where
  "dispose course calls =
     (if rc_interrupted course \<or> DestroyTransport \<in> set calls then destroyTransport calls
      else if rc_closeFails course then destroyTransport (calls @ [CloseTransport])
      else calls @ [CloseTransport])"

definition fetchPinnedPublicText ::
    "platform \<Rightarrow> (jstr \<Rightarrow> resolve_event) \<Rightarrow> (dispatcher \<Rightarrow> fetch_event) \<Rightarrow> request_course \<Rightarrow> url \<Rightarrow>
     PinnedPublicTextRequestOptions \<Rightarrow>
     (outbound_error + http_response \<times> jstr) option \<times> transport_action list" where
  "fetchPinnedPublicText P resolveAddresses undiciFetch course url options =
     (if (url_protocol url \<noteq> js ''https:'' \<and> \<not> (to_allowLoopback options \<and> isLoopbackHttpUrl url)) \<or>
         url_hostname url = [] \<or> url_username url \<noteq> [] \<or> url_password url \<noteq> []
      then (Some (Inl PolicyError), [])
      else case rc_abortedBefore course of
        Some reason \<Rightarrow> (Some (Inl (AbortedWith reason)), [])
      | None \<Rightarrow>
          (case createPinnedPublicDispatcher P resolveAddresses url
                  \<lparr> ao_allowLoopback = to_allowLoopback options, ao_signal = Some None \<rparr> of
             Inl e \<Rightarrow> (Some (Inl e), [])
           | Inr dispatcher \<Rightarrow>
               (case undiciFetch dispatcher of
                  FetchFailed e \<Rightarrow> (Some (Inl e), dispose course [])
                | Fetched response \<Rightarrow>
                    if hr_redirected response \<or> (300 \<le> hr_status response \<and> hr_status response < 400)
                    then (Some (Inl (PinnedPublicRedirectError (hr_status response))),
                          dispose course (destroyTransport [] @
                            (if hm_body (hr_message response) \<noteq> None then [CancelResponse] else [])))
                    else case readResponseTextBody (hr_message response) (to_responseLimitBytes options)
                                (Some (rc_bodyAbortedAtStart course)) True of
                      (None, calls) \<Rightarrow> (None, if BeforeCancel \<in> set calls then destroyTransport [] else [])
                    | (Some (Inl e), calls) \<Rightarrow>
                        (Some (Inl (case rc_bodyAborted course of
                                      Some reason \<Rightarrow> AbortedWith reason | None \<Rightarrow> BodyError e)),
                         dispose course (if BeforeCancel \<in> set calls then destroyTransport [] else []))
                    | (Some (Inr t), calls) \<Rightarrow> (Some (Inr (response, t)), dispose course []))))"

section \<open>Addresses that may be reached\<close>

definition public_address :: "platform \<Rightarrow> jstr \<Rightarrow> bool" where
  "public_address P a \<longleftrightarrow> isIP P a \<noteq> 0 \<and> \<not> isPrivateOrReservedIpLiteral P a"

definition permitted :: "platform \<Rightarrow> bool \<Rightarrow> jstr \<Rightarrow> jstr \<Rightarrow> bool" where
  "permitted P allowLoopback hostname a \<longleftrightarrow>
     public_address P a \<or>
     allowLoopback \<and> isLoopbackHostname hostname \<and> isLoopbackHostname a \<and> isIP P a \<noteq> 0"

text \<open>The addresses to which a dispatcher lets a socket for \<open>hostname\<close> connect.\<close>

definition reachable :: "dispatcher \<Rightarrow> jstr \<Rightarrow> jstr set" where
  "reachable d hostname =
     (case d of
        PlainAgent \<Rightarrow> {normalizedHostname hostname}
      | PinnedAgent lookup \<Rightarrow>
          {a. \<exists>h rs. lookup h True = LookupAll rs \<and> a \<in> fst ` set rs} \<union>
          {a. \<exists>h f. lookup h False = LookupOne a f})"

lemma pinned_Inr:
  assumes "resolvePinnedPublicAddresses P resolve url options = Inr addresses"
  shows "addresses \<noteq> []" "distinct addresses"
    "\<And>a. a \<in> set addresses \<Longrightarrow> permitted P (ao_allowLoopback options) (normalizedHostname (url_hostname url)) a"
proof -
  let ?h = "normalizedHostname (url_hostname url)"
  from assms obtain xs where "addresses = dedup xs" "addresses \<noteq> []"
    and ok: "\<not> list_ex (\<lambda>a. isIP P a = 0 \<or> (isPrivateOrReservedIpLiteral P a \<and>
        \<not> ((ao_allowLoopback options \<and> isLoopbackHostname ?h) \<and> isLoopbackHostname a))) addresses"
    unfolding resolvePinnedPublicAddresses_def Let_def rbind_Inr by (metis Inl_Inr_False Inr_inject)
  then show "addresses \<noteq> []" "distinct addresses" by simp_all
  show "permitted P (ao_allowLoopback options) ?h a" if "a \<in> set addresses" for a
    using ok that by (auto simp: list_ex_iff permitted_def public_address_def)
qed

lemma lookup_permitted:
  "createPinnedPublicLookup P resolve url options h True = LookupAll rs \<Longrightarrow> a \<in> fst ` set rs \<Longrightarrow>
     permitted P (ao_allowLoopback options) (normalizedHostname (url_hostname url)) a"
  "createPinnedPublicLookup P resolve url options h False = LookupOne a f \<Longrightarrow>
     permitted P (ao_allowLoopback options) (normalizedHostname (url_hostname url)) a"
proof -
  assume "createPinnedPublicLookup P resolve url options h True = LookupAll rs" "a \<in> fst ` set rs"
  then show "permitted P (ao_allowLoopback options) (normalizedHostname (url_hostname url)) a"
    by (auto simp: createPinnedPublicLookup_def Let_def dest: pinned_Inr(3) split: if_splits sum.splits)
next
  assume "createPinnedPublicLookup P resolve url options h False = LookupOne a f"
  then obtain addresses where "resolvePinnedPublicAddresses P resolve url options = Inr addresses"
    "a = fst (hd (map (\<lambda>a. (a, isIP P a)) addresses))"
    by (auto simp: createPinnedPublicLookup_def Let_def split: if_splits sum.splits)
  with pinned_Inr [OF this(1)] show "permitted P (ao_allowLoopback options) (normalizedHostname (url_hostname url)) a"
    by (cases addresses) auto
qed

lemma dispatcher_permitted:
  assumes "createPinnedPublicDispatcher P resolve url options = Inr d" and "a \<in> reachable d (url_hostname url)"
  shows "permitted P (ao_allowLoopback options) (normalizedHostname (url_hostname url)) a"
proof (cases d)
  case PlainAgent
  with assms show ?thesis
    by (auto simp: createPinnedPublicDispatcher_def reachable_def Let_def permitted_def public_address_def
        split: if_splits)
next
  case (PinnedAgent lookup)
  with assms have "lookup = createPinnedPublicLookup P resolve url options"
    by (auto simp: createPinnedPublicDispatcher_def Let_def split: if_splits)
  with assms(2) PinnedAgent lookup_permitted [of P resolve url options] show ?thesis
    unfolding reachable_def by auto
qed


section \<open>Claims\<close>

definition safe_dispatcher :: "platform \<Rightarrow> bool \<Rightarrow> url \<Rightarrow> dispatcher \<Rightarrow> bool" where
  "safe_dispatcher P allowLoopback url d \<longleftrightarrow>
     (\<forall>a \<in> reachable d (url_hostname url).
        permitted P allowLoopback (normalizedHostname (url_hostname url)) a)"

text \<open>
  C9. A pinned request never connects to a private or reserved address: its whole course
  depends on the network only through dispatchers whose every reachable address is a public
  IP literal (or, when the caller allows loopback and the URL names it, a loopback literal).
  Two networks that behave alike for those dispatchers are indistinguishable to it, whatever
  the resolver answers and however its answers change between calls.
\<close>

theorem fetch_reaches_permitted_only:
  assumes "\<And>d. safe_dispatcher P (to_allowLoopback options) url d \<Longrightarrow> net d = net' d"
  shows "fetchPinnedPublicText P resolve net course url options =
    fetchPinnedPublicText P resolve net' course url options"
proof -
  have "safe_dispatcher P (to_allowLoopback options) url d"
    if "createPinnedPublicDispatcher P resolve url
      \<lparr> ao_allowLoopback = to_allowLoopback options, ao_signal = Some None \<rparr> = Inr d" for d
    using dispatcher_permitted [OF that] by (simp add: safe_dispatcher_def)
  with assms show ?thesis
    by (auto simp: fetchPinnedPublicText_def split: option.split sum.split)
qed

definition example_net :: platform where
  "example_net = \<lparr> url_parse = (\<lambda>_. None), isIP = (\<lambda>a. if a = js ''10.0.0.1'' then 4 else 0),
     ip_process = (\<lambda>_. Some \<lparr> ip_unicast = False, ip_is_v4 = True, ip_global6 = False \<rparr>), sha256 = (\<lambda>_. []) \<rparr>"

definition example_target :: url where
  "example_target = \<lparr> url_protocol = js ''https:'', url_username = [], url_password = [], url_hash = [],
     url_search = [], url_pathname = js ''/'', url_hostname = js ''intranet'', url_origin = js ''https://intranet'' \<rparr>"

text \<open>An intranet host that answers whoever reaches it, and a resolver that names it.\<close>

theorem fetch_reaches_permitted_only_witness:
  "fetchPinnedPublicText example_net (\<lambda>_. Resolved [js ''10.0.0.1''])
     (\<lambda>d. if safe_dispatcher example_net False example_target d then FetchFailed FetchError
          else Fetched \<lparr> hr_status = 200, hr_redirected = False,
            hr_message = \<lparr> hm_contentLength = None, hm_body = Some [Chunk [115], End] \<rparr> \<rparr>)
     \<lparr> rc_abortedBefore = None, rc_bodyAbortedAtStart = False, rc_bodyAborted = None, rc_interrupted = False,
       rc_closeFails = False \<rparr>
     example_target \<lparr> to_responseLimitBytes = 10, to_allowLoopback = False \<rparr> =
   (Some (Inl FetchError), [CloseTransport])"
proof -
  have h: "normalizedHostname (js ''intranet'') = js ''intranet''"
    by (simp add: normalizedHostname_def js_def trim_def is_space_def to_lower_def lower1_def is_upper_def)
  show ?thesis
    by (subst fetch_reaches_permitted_only [where net' = "\<lambda>_. FetchFailed FetchError"])
       (simp_all add: fetchPinnedPublicText_def createPinnedPublicDispatcher_def example_target_def h
        example_net_def dispose_def)
qed

text \<open>
  A pinned request that succeeds used \<open>https\<close> (or loopback \<open>http\<close> when allowed) without
  credentials in the URL, was not redirected, and returns the text of at most
  \<open>responseLimitBytes\<close> bytes that the response delivered.
\<close>

theorem fetch_result_sound:
  assumes "fetchPinnedPublicText P resolve net course url options = (Some (Inr (response, t)), calls)"
  shows "(url_protocol url = js ''https:'' \<or> to_allowLoopback options \<and> isLoopbackHttpUrl url) \<and>
    url_username url = [] \<and> url_password url = [] \<and> \<not> hr_redirected response \<and>
    \<not> (300 \<le> hr_status response \<and> hr_status response < 400) \<and>
    (\<exists>body b. hm_body (hr_message response) = Some body \<and> delivered True body = Some b \<and>
       length b \<le> to_responseLimitBytes options \<and> t = decode_text b)"
proof -
  from assms have guard: "url_protocol url = js ''https:'' \<or> to_allowLoopback options \<and> isLoopbackHttpUrl url"
    "url_username url = []" "url_password url = []"
    by (auto simp: fetchPinnedPublicText_def split: if_splits)
  from assms obtain c where "\<not> hr_redirected response"
    "\<not> (300 \<le> hr_status response \<and> hr_status response < 400)"
    and r: "readResponseTextBody (hr_message response) (to_responseLimitBytes options)
       (Some (rc_bodyAbortedAtStart course)) True = (Some (Inr t), c)"
    unfolding fetchPinnedPublicText_def
    by (auto split: if_splits option.splits sum.splits fetch_event.splits prod.splits)
  moreover from r obtain body b where "hm_body (hr_message response) = Some body" "t = decode_text b"
    and "readBoundedBytes body (to_responseLimitBytes options)
       (ResponseBodyTooLargeError (to_responseLimitBytes options)) (Some (rc_bodyAbortedAtStart course)) True =
       (Some (Inr b), c)"
    unfolding readResponseTextBody_def
    by (auto split: if_splits option.splits sum.splits prod.splits)
  ultimately show ?thesis using guard by (auto simp: bounded_Inr)
qed

definition example_answer :: http_response where
  "example_answer = \<lparr> hr_status = 200, hr_redirected = False,
     hr_message = \<lparr> hm_contentLength = None, hm_body = Some [Chunk [104], Chunk [105], End] \<rparr> \<rparr>"

definition example_course :: request_course where
  "example_course = \<lparr> rc_abortedBefore = None, rc_bodyAbortedAtStart = False, rc_bodyAborted = None,
     rc_interrupted = False, rc_closeFails = False \<rparr>"

lemma example_fetch:
  "fetchPinnedPublicText example_net (\<lambda>_. Rejected None) (\<lambda>_. Fetched example_answer) example_course example_target
     \<lparr> to_responseLimitBytes = 10, to_allowLoopback = False \<rparr> =
   (Some (Inr (example_answer, [104, 105])), [CloseTransport])"
proof -
  have "normalizedHostname (js ''intranet'') = js ''intranet''"
    by (simp add: normalizedHostname_def js_def trim_def is_space_def to_lower_def lower1_def is_upper_def)
  then show ?thesis
    by (simp add: fetchPinnedPublicText_def createPinnedPublicDispatcher_def example_target_def example_net_def
        example_answer_def example_course_def dispose_def readResponseTextBody_def declares_more_def parse_int10_def
        trim_start_def readBoundedBytes_def decode_text_def utf8_lossy_def items_ascii utf16_def drop_bom_def)
qed

theorem fetch_result_sound_witness:
  "\<not> hr_redirected example_answer \<and>
   (\<exists>b. delivered True [Chunk [104], Chunk [105], End] = Some b \<and> length b \<le> 10 \<and> [104, 105] = decode_text b)"
  using fetch_result_sound [OF example_fetch] by (auto simp: example_answer_def)

text \<open>
  Every pinned request that settles disposes of its transport: the dispatcher is destroyed
  at most once and closed at most once, and unless the request was refused before a dispatcher
  existed (then nothing is called), it is destroyed or closed; when a signal was aborted by the
  end it is destroyed.
\<close>

theorem fetch_disposes_transport:
  assumes "fetchPinnedPublicText P resolve net course url options = (Some r, calls)"
  shows "count_list calls DestroyTransport \<le> 1 \<and> count_list calls CloseTransport \<le> 1 \<and>
    (calls = [] \<and> (r = Inl PolicyError \<or> (\<exists>reason. r = Inl (AbortedWith reason))) \<or>
     DestroyTransport \<in> set calls \<or> CloseTransport \<in> set calls \<and> \<not> rc_interrupted course)"
proof -
  have e: "createPinnedPublicDispatcher P resolve url o' = Inl e \<Longrightarrow> e = PolicyError" for o' e
    by (auto simp: createPinnedPublicDispatcher_def Let_def split: if_splits)
  from assms show ?thesis
    unfolding fetchPinnedPublicText_def
    by (auto simp: dispose_def destroyTransport_def dest: e
        split: if_splits option.splits sum.splits fetch_event.splits prod.splits)
qed

theorem fetch_disposes_transport_witness:
  "count_list [CloseTransport] DestroyTransport \<le> 1 \<and>
   (DestroyTransport \<in> set [CloseTransport] \<or> CloseTransport \<in> set [CloseTransport] \<and> \<not> rc_interrupted example_course)"
  using fetch_disposes_transport [OF example_fetch] by blast

end
