(* ===== verification/Js_Object.thy ===== *)
theory Js_Object
  imports Js_String Js_Utf8 "HOL-Library.Multiset"
begin

text \<open>
  Own properties of objects. Member lists are in the order of creation; the enumeration order
  of the language (\<open>Object.keys\<close>, \<open>Object.entries\<close>, \<open>Object.values\<close>) puts array-index keys
  first, in ascending order.
\<close>

definition is_index_key :: "jstr \<Rightarrow> bool" where
  "is_index_key k \<longleftrightarrow>
     k \<noteq> [] \<and> list_all is_digit k \<and> (k = [48] \<or> hd k \<noteq> 48) \<and> read_nat k < 4294967295"

definition object_entries :: "(jstr \<times> json) list \<Rightarrow> (jstr \<times> json) list" where
  "object_entries ms =
     sort_key (\<lambda>m. read_nat (fst m)) (filter (\<lambda>m. is_index_key (fst m)) ms) @
     filter (\<lambda>m. \<not> is_index_key (fst m)) ms"

definition object_keys :: "(jstr \<times> json) list \<Rightarrow> jstr list" where
  "object_keys ms = map fst (object_entries ms)"

definition object_values :: "(jstr \<times> json) list \<Rightarrow> json list" where
  "object_values ms = map snd (object_entries ms)"

lemma set_object_entries [simp]: "set (object_entries ms) = set ms"
  by (auto simp: object_entries_def)

lemma set_object_keys [simp]: "set (object_keys ms) = fst ` set ms"
  by (simp add: object_keys_def)

lemma length_object_entries [simp]: "length (object_entries ms) = length ms"
  by (simp add: object_entries_def sum_length_filter_compl)

lemma sum_object_entries:
  fixes f :: "jstr \<times> json \<Rightarrow> nat"
  shows "sum_list (map f (object_entries ms)) = sum_list (map f ms)"
proof -
  have "mset (object_entries ms) = mset ms" by (simp add: object_entries_def)
  then have "mset (map f (object_entries ms)) = mset (map f ms)" by simp
  then show ?thesis by (metis sum_mset_sum_list)
qed

text \<open>\<open>Object.hasOwn\<close>.\<close>

definition has_own :: "(jstr \<times> json) list \<Rightarrow> jstr \<Rightarrow> bool" where
  "has_own ms k \<longleftrightarrow> map_of ms k \<noteq> None"

end
