(* ===== verification/Js_Regex.thy ===== *)
theory Js_Regex
  imports Js_String
begin

text \<open>
  The fragment of regular expressions that the source tests strings against: classes of code
  units, sequence, alternative, counted repetition, and the assertions \<open>^\<close>, \<open>$\<close> and \<open>\b\<close>.
  \<open>ends r s i\<close> computes the positions at which a match of \<open>r\<close> that starts at \<open>i\<close> may end;
  \<open>matches_at\<close> is the declarative meaning, and the two agree (\<open>ends_iff\<close>). A test only asks
  whether some match exists, so the preference between matches plays no role.
\<close>

datatype re =
    Class "nat \<Rightarrow> bool"
  | Seq re re
  | Alt re re
  | Star re
  | Empty_re
  | Start_re
  | Finish_re
  | Boundary

section \<open>Declarative meaning\<close>

definition word_at :: "jstr \<Rightarrow> nat \<Rightarrow> bool" where
  "word_at s i \<longleftrightarrow> i < length s \<and> (is_alnum (s ! i) \<or> s ! i = 95)"

definition boundary_at :: "jstr \<Rightarrow> nat \<Rightarrow> bool" where
  "boundary_at s i \<longleftrightarrow> (0 < i \<and> word_at s (i - 1)) \<noteq> word_at s i"

inductive matches_at :: "jstr \<Rightarrow> re \<Rightarrow> nat \<Rightarrow> nat \<Rightarrow> bool" for s where
  class_at: "i < length s \<Longrightarrow> p (s ! i) \<Longrightarrow> matches_at s (Class p) i (Suc i)"
| seq_at: "matches_at s r i j \<Longrightarrow> matches_at s q j k \<Longrightarrow> matches_at s (Seq r q) i k"
| alt_left: "matches_at s r i j \<Longrightarrow> matches_at s (Alt r q) i j"
| alt_right: "matches_at s q i j \<Longrightarrow> matches_at s (Alt r q) i j"
| star_stop: "matches_at s (Star r) i i"
| star_step: "matches_at s r i j \<Longrightarrow> matches_at s (Star r) j k \<Longrightarrow> matches_at s (Star r) i k"
| empty_at: "matches_at s Empty_re i i"
| start_at: "matches_at s Start_re 0 0"
| finish_at: "i = length s \<Longrightarrow> matches_at s Finish_re i i"
| boundary_in: "boundary_at s i \<Longrightarrow> matches_at s Boundary i i"

inductive_cases class_cases: "matches_at s (Class p) i j"
inductive_cases seq_cases: "matches_at s (Seq r q) i j"
inductive_cases alt_cases: "matches_at s (Alt r q) i j"
inductive_cases star_cases: "matches_at s (Star r) i j"

inductive_simps matches_simps:
  "matches_at s (Class p) i j" "matches_at s (Seq r q) i j" "matches_at s (Alt r q) i j"
  "matches_at s Empty_re i j" "matches_at s Start_re i j" "matches_at s Finish_re i j"
  "matches_at s Boundary i j"

section \<open>Computation\<close>

text \<open>Positions reached by repeated steps: the reached ones and the frontier still to explore.\<close>

fun reach :: "nat \<Rightarrow> (nat \<Rightarrow> nat list) \<Rightarrow> nat list \<Rightarrow> nat list \<Rightarrow> nat list" where
  "reach 0 f seen todo = seen"
| "reach (Suc n) f seen todo =
     (let new = dedup (filter (\<lambda>j. j \<notin> set seen) (concat (map f todo)))
      in if new = [] then seen else reach n f (seen @ new) new)"

fun ends :: "re \<Rightarrow> jstr \<Rightarrow> nat \<Rightarrow> nat list" where
  "ends (Class p) s i = (if i < length s \<and> p (s ! i) then [Suc i] else [])"
| "ends (Seq r q) s i = concat (map (ends q s) (ends r s i))"
| "ends (Alt r q) s i = ends r s i @ ends q s i"
| "ends (Star r) s i = reach (Suc (length s)) (ends r s) [i] [i]"
| "ends Empty_re s i = [i]"
| "ends Start_re s i = (if i = 0 then [i] else [])"
| "ends Finish_re s i = (if i = length s then [i] else [])"
| "ends Boundary s i = (if boundary_at s i then [i] else [])"

definition re_test :: "re \<Rightarrow> jstr \<Rightarrow> bool" where
  "re_test r s \<longleftrightarrow> list_ex (\<lambda>i. ends r s i \<noteq> []) [0..<Suc (length s)]"

section \<open>The computation is the meaning\<close>

lemma matches_forward: "matches_at s r i j \<Longrightarrow> i \<le> j \<and> (i \<le> length s \<longrightarrow> j \<le> length s)"
  by (induction rule: matches_at.induct) auto

text \<open>
  What \<open>reach\<close> computes, for a step function that stays below a bound: the reflexive and
  transitive closure of the step.
\<close>

lemma reach_sound: "x \<in> set (reach n f seen todo) \<Longrightarrow> set todo \<subseteq> set seen \<Longrightarrow>
    \<exists>y \<in> set seen. (y, x) \<in> {(a, b). b \<in> set (f a)}\<^sup>*"
proof (induction n f seen todo rule: reach.induct)
  case (2 n f seen todo)
  let ?new = "dedup (filter (\<lambda>j. j \<notin> set seen) (concat (map f todo)))"
  show ?case
  proof (cases "?new = []")
    case True
    with 2 show ?thesis by auto
  next
    case False
    with 2 obtain y where y: "y \<in> set (seen @ ?new)" "(y, x) \<in> {(a, b). b \<in> set (f a)}\<^sup>*"
      by (auto simp: Let_def)
    show ?thesis
    proof (cases "y \<in> set seen")
      case False
      with y obtain z where "z \<in> set todo" "y \<in> set (f z)" by auto
      with y 2(3) show ?thesis
        by (meson case_prodI converse_rtrancl_into_rtrancl mem_Collect_eq subsetD)
    qed (use y in blast)
  qed
qed auto

lemma reach_complete:
  assumes "set todo \<subseteq> set seen" "distinct seen" "set seen \<subseteq> {..m}"
    and "\<And>a b. a \<le> m \<Longrightarrow> b \<in> set (f a) \<Longrightarrow> b \<le> m"
    and "\<And>a b. a \<in> set seen - set todo \<Longrightarrow> b \<in> set (f a) \<Longrightarrow> b \<in> set seen"
    and "m < n + length seen"
  shows "set seen \<subseteq> set (reach n f seen todo) \<and>
    (\<forall>a b. a \<in> set (reach n f seen todo) \<longrightarrow> b \<in> set (f a) \<longrightarrow> b \<in> set (reach n f seen todo))"
  using assms
proof (induction n f seen todo rule: reach.induct)
  case (1 f seen todo)
  have "card (set seen) = length seen" using 1(2) by (rule distinct_card)
  moreover have "card (set seen) \<le> card {..m}" using 1(3) by (intro card_mono) auto
  ultimately have "length seen = Suc m" using 1(6) by simp
  with \<open>card (set seen) = length seen\<close> 1(3) have "set seen = {..m}"
    by (intro card_subset_eq) auto
  with 1(4) show ?case by auto
next
  case (2 n f seen todo)
  let ?new = "dedup (filter (\<lambda>j. j \<notin> set seen) (concat (map f todo)))"
  show ?case
  proof (cases "?new = []")
    case True
    have "b \<in> set seen" if "a \<in> set seen" "b \<in> set (f a)" for a b
    proof (rule ccontr)
      assume nb: "b \<notin> set seen"
      with 2(6) that have "a \<in> set todo" by blast
      with nb that have "b \<in> set ?new" by auto
      with True show False by simp
    qed
    with True show ?thesis by simp
  next
    case False
    have "set (seen @ ?new) \<subseteq> set (reach n f (seen @ ?new) ?new) \<and>
      (\<forall>a b. a \<in> set (reach n f (seen @ ?new) ?new) \<longrightarrow> b \<in> set (f a) \<longrightarrow>
         b \<in> set (reach n f (seen @ ?new) ?new))"
    proof (rule 2(1) [OF refl False])
      show "set (seen @ ?new) \<subseteq> {..m}" using 2(2,4,5) by fastforce
      show "b \<in> set (seen @ ?new)" if "a \<in> set (seen @ ?new) - set ?new" "b \<in> set (f a)" for a b
        using that 2(6) by (cases "a \<in> set todo") auto
      show "m < n + length (seen @ ?new)" using 2(7) False by (cases ?new) auto
    qed (use 2 in auto)
    with False show ?thesis by (simp add: Let_def)
  qed
qed

lemma star_rtrancl: "matches_at s (Star r) i j \<longleftrightarrow> (i, j) \<in> {(a, b). matches_at s r a b}\<^sup>*"
proof
  show "matches_at s (Star r) i j \<Longrightarrow> (i, j) \<in> {(a, b). matches_at s r a b}\<^sup>*"
  proof (induction "Star r" i j rule: matches_at.induct)
    case (star_step i j k)
    then show ?case by (meson case_prodI converse_rtrancl_into_rtrancl mem_Collect_eq)
  qed simp
  show "(i, j) \<in> {(a, b). matches_at s r a b}\<^sup>* \<Longrightarrow> matches_at s (Star r) i j"
    by (induction rule: converse_rtrancl_induct) (auto intro: star_stop star_step)
qed

lemma ends_iff: "i \<le> length s \<Longrightarrow> j \<in> set (ends r s i) \<longleftrightarrow> matches_at s r i j"
proof (induction r arbitrary: i j)
  case (Seq r q)
  have "j \<in> set (ends (Seq r q) s i) \<longleftrightarrow> (\<exists>k. k \<in> set (ends r s i) \<and> j \<in> set (ends q s k))" by auto
  also have "\<dots> \<longleftrightarrow> (\<exists>k. matches_at s r i k \<and> matches_at s q k j)"
    using Seq matches_forward by metis
  finally show ?case by (metis seq_at seq_cases)
next
  case (Star r)
  let ?R = "{(a, b). b \<in> set (ends r s a)}" and ?S = "{(a, b). matches_at s r a b}"
  have step: "b \<in> set (ends r s a) \<longleftrightarrow> matches_at s r a b" if "a \<le> length s" for a b
    using Star.IH that by blast
  have bound: "b \<le> length s" if "a \<le> length s" "b \<in> set (ends r s a)" for a b
    using step that matches_forward by blast
  have same: "(i, j) \<in> ?R\<^sup>* \<longleftrightarrow> (i, j) \<in> ?S\<^sup>*"
  proof
    show "(i, j) \<in> ?R\<^sup>* \<Longrightarrow> (i, j) \<in> ?S\<^sup>*"
    proof -
      assume "(i, j) \<in> ?R\<^sup>*"
      then have "(i, j) \<in> ?S\<^sup>* \<and> j \<le> length s"
        by (induction rule: rtrancl_induct)
           (use Star.prems step bound in \<open>auto intro: rtrancl_into_rtrancl\<close>)
      then show ?thesis by blast
    qed
    assume "(i, j) \<in> ?S\<^sup>*"
    then have "(i, j) \<in> ?R\<^sup>* \<and> j \<le> length s"
      by (induction rule: rtrancl_induct)
         (use Star.prems step matches_forward in \<open>auto intro: rtrancl_into_rtrancl\<close>)
    then show "(i, j) \<in> ?R\<^sup>*" by blast
  qed
  have c: "i \<in> set (reach (Suc (length s)) (ends r s) [i] [i])"
    "\<And>a b. a \<in> set (reach (Suc (length s)) (ends r s) [i] [i]) \<Longrightarrow> b \<in> set (ends r s a) \<Longrightarrow>
       b \<in> set (reach (Suc (length s)) (ends r s) [i] [i])"
    using reach_complete [of "[i]" "[i]" "length s" "ends r s" "Suc (length s)"] Star.prems bound by auto
  have "j \<in> set (ends (Star r) s i) \<longleftrightarrow> (i, j) \<in> ?R\<^sup>*"
  proof
    show "j \<in> set (ends (Star r) s i) \<Longrightarrow> (i, j) \<in> ?R\<^sup>*"
      using reach_sound [of j "Suc (length s)" "ends r s" "[i]" "[i]"] by (auto simp del: reach.simps)
    assume "(i, j) \<in> ?R\<^sup>*"
    then show "j \<in> set (ends (Star r) s i)"
      by (induction rule: rtrancl_induct) (use c in \<open>auto simp del: reach.simps\<close>)
  qed
  with same show ?case by (simp add: star_rtrancl)
qed (auto simp: matches_simps)

lemma re_test_iff: "re_test r s \<longleftrightarrow> (\<exists>i j. i \<le> length s \<and> matches_at s r i j)"
proof -
  have "re_test r s \<longleftrightarrow> (\<exists>i \<le> length s. ends r s i \<noteq> [])"
    unfolding re_test_def list_ex_iff by (auto simp: less_Suc_eq_le simp del: upt_Suc)
  also have "\<dots> \<longleftrightarrow> (\<exists>i \<le> length s. \<exists>j. j \<in> set (ends r s i))"
    by (metis list.set_sel(1) empty_iff empty_set)
  finally show ?thesis using ends_iff by blast
qed

section \<open>Derived forms\<close>

fun seq_all :: "re list \<Rightarrow> re" where
  "seq_all [] = Empty_re"
| "seq_all (r # rs) = Seq r (seq_all rs)"

fun alt_all :: "re list \<Rightarrow> re" where
  "alt_all [] = Class (\<lambda>_. False)"
| "alt_all [r] = r"
| "alt_all (r # q # rs) = Alt r (alt_all (q # rs))"

fun times_re :: "nat \<Rightarrow> re \<Rightarrow> re" where
  "times_re 0 r = Empty_re"
| "times_re (Suc n) r = Seq r (times_re n r)"

definition at_least :: "nat \<Rightarrow> re \<Rightarrow> re" where
  "at_least n r = Seq (times_re n r) (Star r)"

definition opt_re :: "re \<Rightarrow> re" where
  "opt_re r = Alt r Empty_re"

definition units :: "jstr \<Rightarrow> re" where
  "units s = seq_all (map (\<lambda>c. Class (\<lambda>d. d = c)) s)"

text \<open>A literal under the flag \<open>i\<close>; the literals are in lower case.\<close>

definition nocase :: "string \<Rightarrow> re" where
  "nocase s = seq_all (map (\<lambda>c. Class (\<lambda>d. lower1 d = c)) (js s))"

end
