(* ===== verification/Retrieval_Protocol.thy ===== *)
theory Retrieval_Protocol
  imports Js_Object Js_Regex
begin

text \<open>
  The retrieval protocol between the marketplace and its subplatforms, after
  \<open>web/src/retrieval-protocol.ts\<close>, with \<open>isUuid\<close> of \<open>web/src/lib/uuid.ts\<close> and
  \<open>normalizePlatformPath\<close> of \<open>web/src/platform-agent-handoff.ts\<close>. A \<open>ParseResult\<close> is a sum, its
  error the text the source builds. \<open>Date.parse\<close> is a parameter (its accepted formats depend on
  the engine).
\<close>

section \<open>Shared checks\<close>

definition isUuid :: "json option \<Rightarrow> bool" where
  "isUuid v = (case as_string v of
      None \<Rightarrow> False
    | Some s \<Rightarrow>
        length s = 36 \<and> s ! 8 = 45 \<and> s ! 13 = 45 \<and> s ! 18 = 45 \<and> s ! 23 = 45 \<and>
        list_all is_hex (take 8 s @ take 4 (drop 9 s) @ take 4 (drop 14 s) @ take 4 (drop 19 s) @ drop 24 s) \<and>
        49 \<le> s ! 14 \<and> s ! 14 \<le> 56 \<and> lower1 (s ! 19) \<in> {56, 57, 97, 98})"

definition isBoundedString :: "json option \<Rightarrow> nat \<Rightarrow> bool" where
  "isBoundedString v maximum =
     (case as_string v of None \<Rightarrow> False | Some s \<Rightarrow> 1 \<le> length s \<and> length s \<le> maximum)"

definition isWithinJsonBytes :: "json \<Rightarrow> nat \<Rightarrow> bool" where
  "isWithinJsonBytes v maximum \<longleftrightarrow> length (utf8_encode (stringify v)) \<le> maximum"

definition path_char :: "nat \<Rightarrow> bool" where
  "path_char c \<longleftrightarrow> is_lower c \<or> is_digit c \<or> c = 45"

definition normalizePlatformPath :: "json option \<Rightarrow> jstr option" where
  "normalizePlatformPath v =
     (case as_string v of
        None \<Rightarrow> None
      | Some s \<Rightarrow>
          if 512 < length s then None
          else
            (let segments = filter (\<lambda>p. p \<noteq> []) (split_on 47 s);
                 normalized = 47 # join_with [47] segments
             in if normalized = [47] \<or> list_all (list_all path_char) segments then Some normalized else None))"

section \<open>Data\<close>

type_synonym 'a ParseResult = "jstr + 'a"

definition RETRIEVAL_PROTOCOL :: jstr where
  "RETRIEVAL_PROTOCOL = js ''matchplane.retrieval/v1''"

record RetrievalQuery =
  rq_requestId :: jstr
  rq_tenantId :: jstr
  rq_domainId :: jstr
  rq_platformPath :: jstr
  rq_narrative :: jstr
  rq_requirements :: "(jstr \<times> json) list"
  rq_budgetMin :: "jstr option option"
  rq_budgetMax :: "jstr option option"
  rq_currency :: "jstr option option"
  rq_currencyScale :: "jsnum option option"
  rq_limit :: jsnum
  rq_traceId :: "jstr option option"

record RetrievalCandidate =
  rcand_assetId :: "jstr option"
  rcand_offerId :: "jstr option"
  rcand_displayName :: "jstr option"
  rcand_attributes :: "(jstr \<times> json) list option"
  rcand_terms :: "(jstr \<times> json) list option"
  rcand_score :: jsnum
  rcand_reasons :: "jstr list"
  rcand_risks :: "jstr list option"
  rcand_metadata :: "(jstr \<times> json) list option"

record RetrievalResult =
  rr_requestId :: jstr
  rr_provider_id :: jstr
  rr_provider_version :: jstr
  rr_provider_model :: "jstr option option"
  rr_candidates :: "RetrievalCandidate list"
  rr_degraded :: bool
  rr_generatedAt :: "jstr option option"

definition MAX_REQUIREMENTS_BYTES :: nat where
  "MAX_REQUIREMENTS_BYTES = 32 * 1024"

definition MAX_METADATA_BYTES :: nat where
  "MAX_METADATA_BYTES = 32 * 1024"

text \<open>\<open>TOOL_NAME_PATTERN\<close>: \<open>^[a-z0-9][a-z0-9._:-]{1,127}$\<close>.\<close>

definition TOOL_NAME_PATTERN :: "jstr \<Rightarrow> bool" where
  "TOOL_NAME_PATTERN s \<longleftrightarrow>
     2 \<le> length s \<and> length s \<le> 128 \<and> (is_lower (hd s) \<or> is_digit (hd s)) \<and>
     list_all (\<lambda>c. is_lower c \<or> is_digit c \<or> c \<in> {46, 95, 58, 45}) (tl s)"

text \<open>
  \<open>Object.keys(value).find((key) => !allowed.has(key))\<close> and the test \<open>if (unsupported)\<close>, which the
  empty string fails.
\<close>

definition unsupported_key :: "string list \<Rightarrow> (jstr \<times> json) list \<Rightarrow> jstr option" where
  "unsupported_key allowed ms = List.find (\<lambda>k. k \<notin> js ` set allowed) (object_keys ms)"

definition refuse_unsupported :: "string list \<Rightarrow> (jstr \<times> json) list \<Rightarrow> string \<Rightarrow> unit ParseResult" where
  "refuse_unsupported allowed ms message =
     (case unsupported_key allowed ms of
        None \<Rightarrow> Inr ()
      | Some k \<Rightarrow> if k = [] then Inr () else Inl (js message @ k))"

definition record_or :: "json option \<Rightarrow> jstr \<Rightarrow> (jstr \<times> json) list ParseResult" where
  "record_or v message = (case as_record v of Some ms \<Rightarrow> Inr ms | None \<Rightarrow> Inl message)"

definition uuid_or :: "json option \<Rightarrow> jstr \<Rightarrow> jstr ParseResult" where
  "uuid_or v message =
     (if isUuid v then (case as_string v of Some s \<Rightarrow> Inr s | None \<Rightarrow> Inl message) else Inl message)"

text \<open>A field that is absent, \<open>null\<close> or a string of 1 to \<open>maximum\<close> code units.\<close>

definition nullable_string :: "json option \<Rightarrow> nat \<Rightarrow> jstr \<Rightarrow> jstr option option ParseResult" where
  "nullable_string v maximum message =
     (case v of
        None \<Rightarrow> Inr None
      | Some x \<Rightarrow>
          (case x of
             JNull \<Rightarrow> Inr (Some None)
           | JStr s \<Rightarrow> if isBoundedString v maximum then Inr (Some (Some s)) else Inl message
           | _ \<Rightarrow> Inl message))"

definition validateCurrency :: "json option \<Rightarrow> jstr option option ParseResult" where
  "validateCurrency v =
     (case v of
        None \<Rightarrow> Inr None
      | Some x \<Rightarrow>
          (case x of
             JNull \<Rightarrow> Inr (Some None)
           | JStr s \<Rightarrow>
               if length s = 3 \<and> list_all is_upper s then Inr (Some (Some s))
               else Inl (js ''input.currency must be an ISO-4217 code or null'')
           | _ \<Rightarrow> Inl (js ''input.currency must be an ISO-4217 code or null'')))"

definition validateCurrencyScale :: "json option \<Rightarrow> jsnum option option ParseResult" where
  "validateCurrencyScale v =
     (case v of
        None \<Rightarrow> Inr None
      | Some x \<Rightarrow>
          (case x of
             JNull \<Rightarrow> Inr (Some None)
           | JNum n \<Rightarrow>
               if is_safe_integer n \<and> 0 \<le> num_int n \<and> num_int n \<le> 18 then Inr (Some (Some n))
               else Inl (js ''input.currency_scale must be an integer between 0 and 18 or null'')
           | _ \<Rightarrow> Inl (js ''input.currency_scale must be an integer between 0 and 18 or null'')))"

definition limit_or :: "json option \<Rightarrow> jsnum ParseResult" where
  "limit_or v =
     (case as_number v of
        Some n \<Rightarrow>
          if is_safe_integer n \<and> 1 \<le> num_int n \<and> num_int n \<le> 100 then Inr n
          else Inl (js ''limit must be an integer between 1 and 100'')
      | None \<Rightarrow> Inl (js ''limit must be an integer between 1 and 100''))"

section \<open>Queries\<close>

definition parseRetrievalQuery :: "json \<Rightarrow> RetrievalQuery ParseResult" where
  "parseRetrievalQuery v =
     rbind (record_or (Some v) (js ''retrieval query must be a JSON object'')) (\<lambda>ms.
     rbind (refuse_unsupported [''protocol'', ''request_id'', ''scope'', ''input'', ''limit'', ''trace_id''] ms
       ''retrieval query contains an unsupported field: '') (\<lambda>_.
     rbind (ensure (member ms ''protocol'' = Some (JStr RETRIEVAL_PROTOCOL))
       (js ''protocol must be matchplane.retrieval/v1'')) (\<lambda>_.
     rbind (uuid_or (member ms ''request_id'') (js ''request_id must be a UUID'')) (\<lambda>requestId.
     rbind (record_or (member ms ''scope'')
       (js ''scope must contain tenant_id, domain_id and platform_path'')) (\<lambda>scope.
     rbind (refuse_unsupported [''tenant_id'', ''domain_id'', ''platform_path''] scope
       ''scope contains an unsupported field: '') (\<lambda>_.
     rbind (uuid_or (member scope ''tenant_id'') (js ''scope.tenant_id must be a UUID'')) (\<lambda>tenantId.
     rbind (uuid_or (member scope ''domain_id'') (js ''scope.domain_id must be a UUID'')) (\<lambda>domainId.
     rbind (case normalizePlatformPath (member scope ''platform_path'') of
              Some p \<Rightarrow> Inr p
            | None \<Rightarrow> Inl (js ''scope.platform_path must be a normalized platform path'')) (\<lambda>platformPath.
     rbind (record_or (member ms ''input'') (js ''input must be an object'')) (\<lambda>input.
     rbind (refuse_unsupported
       [''narrative'', ''requirements'', ''budget_min'', ''budget_max'', ''currency'', ''currency_scale''] input
       ''input contains an unsupported field: '') (\<lambda>_.
     rbind (case as_string (member input ''narrative'') of
              None \<Rightarrow> Inl (js ''input.narrative must contain 1..10000 characters'')
            | Some s \<Rightarrow>
                if length (trim s) < 1 \<or> 10000 < length s
                then Inl (js ''input.narrative must contain 1..10000 characters'')
                else Inr (trim s)) (\<lambda>narrative.
     rbind (record_or (member input ''requirements'') (js ''input.requirements must be an object'')) (\<lambda>requirements.
     rbind (ensure (isWithinJsonBytes (JObj requirements) MAX_REQUIREMENTS_BYTES)
       (js ''input.requirements is too large'')) (\<lambda>_.
     rbind (validateCurrency (member input ''currency'')) (\<lambda>currency.
     rbind (validateCurrencyScale (member input ''currency_scale'')) (\<lambda>currencyScale.
     rbind (nullable_string (member input ''budget_min'') 200
       (js ''input.budget_min must be a string or null'')) (\<lambda>budgetMin.
     rbind (nullable_string (member input ''budget_max'') 200
       (js ''input.budget_max must be a string or null'')) (\<lambda>budgetMax.
     rbind (limit_or (member ms ''limit'')) (\<lambda>limit.
     rbind (nullable_string (member ms ''trace_id'') 200 (js ''trace_id must be a string or null'')) (\<lambda>traceId.
     Inr \<lparr> rq_requestId = requestId, rq_tenantId = tenantId, rq_domainId = domainId,
           rq_platformPath = platformPath, rq_narrative = narrative, rq_requirements = requirements,
           rq_budgetMin = budgetMin, rq_budgetMax = budgetMax, rq_currency = currency,
           rq_currencyScale = currencyScale, rq_limit = limit, rq_traceId = traceId \<rparr>))))))))))))))))))))"

section \<open>Contact material\<close>

definition CONTACT_FIELD_NAMES :: "jstr list" where
  "CONTACT_FIELD_NAMES = map js
     [''contact'', ''contact_details'', ''contact_info'', ''contact_method'', ''contact_phone'',
      ''contact_email'', ''email'', ''email_address'', ''phone'', ''phone_number'', ''telephone'',
      ''wechat'', ''wechat_id'', ''weixin'', ''whatsapp'', ''telegram'', ''skype'']"

definition mail_char :: "nat \<Rightarrow> bool" where
  "mail_char c \<longleftrightarrow> is_alnum c \<or> c \<in> {46, 95, 37, 43, 45}"

definition host_char :: "nat \<Rightarrow> bool" where
  "host_char c \<longleftrightarrow> is_alnum c \<or> c \<in> {46, 45}"

definition alpha :: "nat \<Rightarrow> bool" where
  "alpha c \<longleftrightarrow> is_upper c \<or> is_lower c"

definition pattern_scheme :: re where
  "pattern_scheme =
     alt_all
       [nocase ''mailto:'', nocase ''tel:'', nocase ''sms:'',
        Seq (alt_all (map nocase [''wechat'', ''weixin'', ''tg'', ''skype'', ''facetime''])) (nocase '':''),
        seq_all [nocase ''http'', opt_re (nocase ''s''), nocase ''://'',
          alt_all (map nocase [''wa.me'', ''api.whatsapp.com'', ''t.me'', ''telegram.me'', ''line.me'']), nocase ''/''],
        seq_all [Boundary, at_least 1 (Class mail_char), nocase ''@'', at_least 1 (Class host_char), nocase ''.'',
          at_least 2 (Class alpha), Boundary]]"

definition pattern_mobile :: re where
  "pattern_mobile =
     seq_all [Alt Start_re (Class (\<lambda>c. \<not> is_digit c)), Class (\<lambda>c. c = 49), Class (\<lambda>c. 51 \<le> c \<and> c \<le> 57),
       times_re 9 (Class is_digit), Alt Finish_re (Class (\<lambda>c. \<not> is_digit c))]"

definition pattern_international :: re where
  "pattern_international =
     seq_all [Class (\<lambda>c. c = 43), Class is_digit,
       at_least 6 (Class (\<lambda>c. is_digit c \<or> is_space c \<or> c \<in> {40, 41, 46, 45})), Class is_digit]"

definition pattern_handle :: re where
  "pattern_handle =
     seq_all
       [alt_all [nocase ''wechat'', nocase ''weixin'', units [24494, 20449, 21495], nocase ''telegram'',
          nocase ''skype'', nocase ''whatsapp''],
        opt_re (Seq (Star (Class is_space)) (alt_all [nocase ''id'', units [36134, 21495], units [24115, 34399]])),
        Star (Class is_space), Class (\<lambda>c. c \<in> {58, 61, 65306}), Star (Class is_space), Class alpha,
        at_least 4 (Class (\<lambda>c. is_alnum c \<or> c \<in> {95, 46, 45}))]"

definition CONTACT_VALUE_PATTERNS :: "re list" where
  "CONTACT_VALUE_PATTERNS = [pattern_scheme, pattern_mobile, pattern_international, pattern_handle]"

definition contact_text :: "jstr \<Rightarrow> bool" where
  "contact_text s \<longleftrightarrow> list_ex (\<lambda>r. re_test r s) CONTACT_VALUE_PATTERNS"

text \<open>
  The normal form of a key. \<open>toLowerCase\<close> maps exactly two code points outside ASCII to text with
  an ASCII letter, U+0130 and the Kelvin sign; every other unit outside ASCII stays outside, and
  becomes an underscore whatever it is.
\<close>

fun split_camel :: "jstr \<Rightarrow> jstr" where
  "split_camel (c # d # s) =
     (if (is_lower c \<or> is_digit c) \<and> is_upper d then c # 95 # split_camel (d # s) else c # split_camel (d # s))"
| "split_camel s = s"

definition lower_units :: "nat \<Rightarrow> jstr" where
  "lower_units c = (if c = 304 then [105, 775] else if c = 8490 then [107] else [lower1 c])"

fun squash :: "bool \<Rightarrow> jstr \<Rightarrow> jstr" where
  "squash inside [] = []"
| "squash inside (c # s) =
     (if is_lower c \<or> is_digit c then c # squash False s
      else if inside then squash True s else 95 # squash True s)"

definition contact_key_form :: "jstr \<Rightarrow> jstr" where
  "contact_key_form rawKey =
     (let k = squash False (concat (map lower_units (split_camel rawKey)))
      in rev (dropWhile (\<lambda>c. c = 95) (rev (dropWhile (\<lambda>c. c = 95) k))))"

definition role_contact :: "jstr list" where
  "role_contact = [js r @ [95] @ js c.
     r \<leftarrow> [''seller'', ''merchant'', ''buyer'', ''owner'', ''provider'', ''supplier'', ''support''],
     c \<leftarrow> [''phone'', ''email'']]"

definition contact_key :: "jstr \<Rightarrow> bool" where
  "contact_key rawKey =
     (let key = contact_key_form rawKey
      in key \<in> set CONTACT_FIELD_NAMES \<or> starts_with key (js ''contact_'') \<or> ends_with key (js ''_contact'') \<or>
         key \<in> set role_contact)"

text \<open>
  The scan: \<open>pending\<close> is the work list, its top at the head. The inner loop over the entries of an
  object returns at the first contact key (\<open>None\<close>) and pushes the values before it otherwise.
\<close>

fun push_entries :: "(jstr \<times> json) list \<Rightarrow> json list \<Rightarrow> json list option" where
  "push_entries [] pending = Some pending"
| "push_entries ((rawKey, nested) # es) pending =
     (if contact_key rawKey then None else push_entries es (nested # pending))"

definition scan_limit :: nat where
  "scan_limit = 4096"

function contact_scan :: "nat \<Rightarrow> json list \<Rightarrow> bool" where
  "contact_scan visited pending =
     (case pending of
        [] \<Rightarrow> False
      | current # rest \<Rightarrow>
          if scan_limit < Suc visited then True
          else case current of
            JStr s \<Rightarrow> if contact_text s then True else contact_scan (Suc visited) rest
          | JArr xs \<Rightarrow> contact_scan (Suc visited) (rev xs @ rest)
          | JObj ms \<Rightarrow>
              (case push_entries (object_entries ms) rest of
                 None \<Rightarrow> True
               | Some pending' \<Rightarrow> contact_scan (Suc visited) pending')
          | _ \<Rightarrow> contact_scan (Suc visited) rest)"
  by pat_completeness auto
termination
  by (relation "measure (\<lambda>(visited, pending). Suc scan_limit - visited)") auto

declare contact_scan.simps [simp del]

definition containsContactMaterial :: "json \<Rightarrow> bool" where
  "containsContactMaterial v = contact_scan 0 [v]"

section \<open>Results\<close>

definition candidate_error :: "nat \<Rightarrow> string \<Rightarrow> jstr" where
  "candidate_error index message = js ''retrieval candidate '' @ show_nat index @ js message"

definition optional_uuid :: "json option \<Rightarrow> jstr \<Rightarrow> jstr option ParseResult" where
  "optional_uuid v message = (if v = None then Inr None else rbind (uuid_or v message) (\<lambda>s. Inr (Some s)))"

text \<open>A list of at most 32 non-blank strings of at most 500 code units.\<close>

definition explanation_ok :: "json \<Rightarrow> bool" where
  "explanation_ok x \<longleftrightarrow>
     isBoundedString (Some x) 500 \<and> (case as_string (Some x) of Some s \<Rightarrow> length (trim s) \<noteq> 0 | None \<Rightarrow> False)"

definition explanations :: "json option \<Rightarrow> jstr \<Rightarrow> jstr list ParseResult" where
  "explanations v message =
     (case as_array v of
        None \<Rightarrow> Inl message
      | Some xs \<Rightarrow>
          if 32 < length xs \<or> list_ex (\<lambda>x. \<not> explanation_ok x) xs then Inl message
          else Inr (List.map_filter (\<lambda>x. as_string (Some x)) xs))"

definition optional_record :: "json option \<Rightarrow> jstr \<Rightarrow> (jstr \<times> json) list option ParseResult" where
  "optional_record v message =
     (case v of
        None \<Rightarrow> Inr None
      | Some x \<Rightarrow>
          (case x of
             JObj ms \<Rightarrow> if isWithinJsonBytes x MAX_METADATA_BYTES then Inr (Some ms) else Inl message
           | _ \<Rightarrow> Inl message))"

definition score_or :: "json option \<Rightarrow> jstr \<Rightarrow> jsnum ParseResult" where
  "score_or v message =
     (case as_number v of
        None \<Rightarrow> Inl message
      | Some x \<Rightarrow> if is_finite x \<and> \<not> num_val x < - 1 \<and> \<not> 1 < num_val x then Inr x else Inl message)"

definition parseCandidate :: "json \<Rightarrow> nat \<Rightarrow> RetrievalCandidate ParseResult" where
  "parseCandidate v index =
     (let err = candidate_error index in
     rbind (record_or (Some v) (err '' must be an object'')) (\<lambda>ms.
     rbind (refuse_unsupported
       [''asset_id'', ''offer_id'', ''display_name'', ''attributes'', ''terms'', ''score'', ''reasons'', ''risks'', ''metadata'']
       ms ''retrieval candidate contains an unsupported field: '') (\<lambda>_.
     rbind (ensure (\<not> (member ms ''asset_id'' = None \<and> member ms ''offer_id'' = None))
       (err '' must include asset_id or offer_id'')) (\<lambda>_.
     rbind (optional_uuid (member ms ''asset_id'') (err '' asset_id must be a UUID'')) (\<lambda>assetId.
     rbind (optional_uuid (member ms ''offer_id'') (err '' offer_id must be a UUID'')) (\<lambda>offerId.
     rbind (ensure (member ms ''display_name'' = None \<or> isBoundedString (member ms ''display_name'') 500)
       (err '' display_name is invalid'')) (\<lambda>_.
     rbind (score_or (member ms ''score'') (err '' score is invalid'')) (\<lambda>score.
     rbind (explanations (member ms ''reasons'') (err '' reasons are invalid'')) (\<lambda>reasons.
     rbind (if member ms ''risks'' = None then Inr None
            else rbind (explanations (member ms ''risks'') (err '' risks are invalid'')) (\<lambda>r. Inr (Some r))) (\<lambda>risks.
     rbind (optional_record (member ms ''attributes'') (err '' attributes is invalid'')) (\<lambda>attributes.
     rbind (optional_record (member ms ''terms'') (err '' terms is invalid'')) (\<lambda>terms.
     rbind (optional_record (member ms ''metadata'') (err '' metadata is invalid'')) (\<lambda>metadata.
     rbind (ensure (\<not> containsContactMaterial v)
       (err '' contains contact material; use the consent-gated introduction flow'')) (\<lambda>_.
     Inr \<lparr> rcand_assetId = assetId, rcand_offerId = offerId,
           rcand_displayName = as_string (member ms ''display_name''), rcand_attributes = attributes,
           rcand_terms = terms, rcand_score = score, rcand_reasons = reasons, rcand_risks = risks,
           rcand_metadata = metadata \<rparr>))))))))))))))"

fun parseCandidates :: "nat \<Rightarrow> json list \<Rightarrow> RetrievalCandidate list ParseResult" where
  "parseCandidates index [] = Inr []"
| "parseCandidates index (x # xs) =
     rbind (parseCandidate x index) (\<lambda>c. rbind (parseCandidates (Suc index) xs) (\<lambda>cs. Inr (c # cs)))"

definition generated_at_or :: "(jstr \<Rightarrow> bool) \<Rightarrow> json option \<Rightarrow> jstr option option ParseResult" where
  "generated_at_or date_ok v =
     rbind (nullable_string v 80 (js ''generated_at must be a valid date-time or null'')) (\<lambda>t.
       case t of
         Some (Some s) \<Rightarrow>
           if date_ok s then Inr t else Inl (js ''generated_at must be a valid date-time or null'')
       | _ \<Rightarrow> Inr t)"

definition parseRetrievalResult ::
    "(jstr \<Rightarrow> bool) \<Rightarrow> json \<Rightarrow> jstr \<Rightarrow> int \<Rightarrow> RetrievalResult ParseResult" where
  "parseRetrievalResult date_ok v requestId limit =
     rbind (record_or (Some v) (js ''retrieval provider result must be a JSON object'')) (\<lambda>ms.
     rbind (refuse_unsupported
       [''protocol'', ''request_id'', ''provider'', ''candidates'', ''degraded'', ''generated_at''] ms
       ''retrieval provider result contains an unsupported field: '') (\<lambda>_.
     rbind (ensure (member ms ''protocol'' = Some (JStr RETRIEVAL_PROTOCOL))
       (js ''retrieval provider returned an unsupported protocol'')) (\<lambda>_.
     rbind (ensure (member ms ''request_id'' = Some (JStr requestId))
       (js ''retrieval provider request_id does not match'')) (\<lambda>_.
     rbind (record_or (member ms ''provider'') (js ''retrieval provider metadata is required'')) (\<lambda>provider.
     rbind (case as_string (member provider ''id'') of
              Some i \<Rightarrow> if isBoundedString (Some (JStr i)) 128 \<and> TOOL_NAME_PATTERN i then Inr i
                else Inl (js ''retrieval provider id is invalid'')
            | None \<Rightarrow> Inl (js ''retrieval provider id is invalid'')) (\<lambda>providerId.
     rbind (case as_string (member provider ''version'') of
              Some s \<Rightarrow> if isBoundedString (Some (JStr s)) 128 then Inr s
                else Inl (js ''retrieval provider version is invalid'')
            | None \<Rightarrow> Inl (js ''retrieval provider version is invalid'')) (\<lambda>version.
     rbind (nullable_string (member provider ''model'') 200 (js ''retrieval provider model is invalid'')) (\<lambda>model.
     rbind (case as_array (member ms ''candidates'') of
              Some xs \<Rightarrow> if min 100 limit < int (length xs)
                then Inl (js ''retrieval candidates exceed the requested limit'') else Inr xs
            | None \<Rightarrow> Inl (js ''retrieval candidates exceed the requested limit'')) (\<lambda>xs.
     rbind (parseCandidates 0 xs) (\<lambda>candidates.
     rbind (case as_boolean (member ms ''degraded'') of
              Some b \<Rightarrow> Inr b | None \<Rightarrow> Inl (js ''retrieval degraded must be boolean'')) (\<lambda>degraded.
     rbind (generated_at_or date_ok (member ms ''generated_at'')) (\<lambda>generatedAt.
     Inr \<lparr> rr_requestId = requestId, rr_provider_id = providerId, rr_provider_version = version,
           rr_provider_model = model, rr_candidates = candidates, rr_degraded = degraded,
           rr_generatedAt = generatedAt \<rparr>))))))))))))"

text \<open>Extraction of the structured content from an MCP response.\<close>

fun first_record_text :: "json list \<Rightarrow> (jstr \<times> json) list option" where
  "first_record_text [] = None"
| "first_record_text (item # items) =
     (case as_record (Some item) of
        None \<Rightarrow> first_record_text items
      | Some ms \<Rightarrow>
          (case (member ms ''type'' = Some (JStr (js ''text'')), as_string (member ms ''text'')) of
             (True, Some t) \<Rightarrow>
               (case as_record (json_parse t) of Some r \<Rightarrow> Some r | None \<Rightarrow> first_record_text items)
           | _ \<Rightarrow> first_record_text items))"

definition extractMcpRetrievalResult :: "(jstr \<times> json) list \<Rightarrow> (jstr \<times> json) list ParseResult" where
  "extractMcpRetrievalResult payload =
     (if isRecord (member payload ''error'') then Inl (js ''retrieval provider returned an MCP error'')
      else
        let result = (case as_record (member payload ''result'') of Some r \<Rightarrow> r | None \<Rightarrow> payload)
        in if member result ''isError'' = Some (JBool True)
           then Inl (js ''retrieval provider reported a tool error'')
           else case as_record (member result ''structuredContent'') of
             Some r \<Rightarrow> Inr r
           | None \<Rightarrow>
               (case as_array (member result ''content'') of
                  None \<Rightarrow> Inl (js ''retrieval provider did not return structured JSON content'')
                | Some items \<Rightarrow>
                    (case first_record_text items of
                       Some r \<Rightarrow> Inr r
                     | None \<Rightarrow> Inl (js ''retrieval provider did not return structured JSON content''))))"


section \<open>The scan decides the recursive definition\<close>

text \<open>
  Specification of the scan: contact material somewhere inside a value, and the number of values
  inside it (itself included).
\<close>

fun has_contact :: "json \<Rightarrow> bool" where
  "has_contact (JStr s) \<longleftrightarrow> contact_text s"
| "has_contact (JArr xs) \<longleftrightarrow> list_ex has_contact xs"
| "has_contact (JObj ms) \<longleftrightarrow> list_ex (\<lambda>(k, v). contact_key k \<or> has_contact v) ms"
| "has_contact _ \<longleftrightarrow> False"

fun value_count :: "json \<Rightarrow> nat" where
  "value_count (JArr xs) = Suc (sum_list (map value_count xs))"
| "value_count (JObj ms) = Suc (sum_list (map (\<lambda>(k, v). value_count v) ms))"
| "value_count _ = 1"

lemma push_entries_eq:
  "push_entries es pending =
     (if list_ex (\<lambda>m. contact_key (fst m)) es then None else Some (rev (map snd es) @ pending))"
  by (induction es pending rule: push_entries.induct) auto

lemma scan_iff:
  "visited \<le> scan_limit \<Longrightarrow>
     contact_scan visited pending \<longleftrightarrow>
     list_ex has_contact pending \<or> scan_limit < visited + sum_list (map value_count pending)"
proof (induction visited pending rule: contact_scan.induct)
  case (1 visited pending)
  show ?case
  proof (cases pending)
    case Nil
    with 1 show ?thesis by (simp add: contact_scan.simps)
  next
    case (Cons v rest)
    show ?thesis
    proof (cases "scan_limit < Suc visited")
      case True
      moreover have "1 \<le> value_count v" by (cases v) auto
      ultimately show ?thesis using Cons by (subst contact_scan.simps) auto
    next
      case False
      then have le: "Suc visited \<le> scan_limit" by simp
      show ?thesis
      proof (cases v)
        case (JObj ms)
        let ?new = "rev (map snd (object_entries ms)) @ rest"
        have n: "sum_list (map value_count ?new) =
            sum_list (map (\<lambda>(k, v). value_count v) ms) + sum_list (map value_count rest)"
          using sum_object_entries [of "\<lambda>m. value_count (snd m)" ms]
          by (simp add: rev_map [symmetric] comp_def case_prod_unfold sum_list_rev)
        have new: "list_ex has_contact ?new \<longleftrightarrow> (\<exists>m \<in> set ms. has_contact (snd m)) \<or> list_ex has_contact rest"
          by (auto simp: list_ex_iff)
        have v: "has_contact v \<longleftrightarrow> (\<exists>m \<in> set ms. contact_key (fst m)) \<or> (\<exists>m \<in> set ms. has_contact (snd m))"
          using JObj by (simp add: list_ex_iff case_prod_unfold bex_disj_distrib)
        have k: "list_ex (\<lambda>m. contact_key (fst m)) (object_entries ms) \<longleftrightarrow> (\<exists>m \<in> set ms. contact_key (fst m))"
          by (auto simp: list_ex_iff)
        show ?thesis
        proof (cases "\<exists>m \<in> set ms. contact_key (fst m)")
          case True
          then have "push_entries (object_entries ms) rest = None" using k by (simp add: push_entries_eq)
          with JObj Cons False have "contact_scan visited pending" by (subst contact_scan.simps) simp
          with True v Cons show ?thesis by simp
        next
          case nk: False
          then have p: "push_entries (object_entries ms) rest = Some ?new" using k by (simp add: push_entries_eq)
          with JObj Cons False have "contact_scan visited pending = contact_scan (Suc visited) ?new"
            by (subst contact_scan.simps) simp
          also have "\<dots> \<longleftrightarrow> list_ex has_contact ?new \<or> scan_limit < Suc visited + sum_list (map value_count ?new)"
            by (rule 1(6) [OF Cons False JObj p le])
          finally show ?thesis using n new v nk Cons JObj by auto
        qed
      next
        case (JArr xs)
        with 1(5) [OF Cons False JArr le] Cons False show ?thesis
          by (subst contact_scan.simps) (auto simp: list_ex_iff sum_list_rev rev_map [symmetric])
      next
        case (JStr s)
        with 1(4) [OF Cons False JStr _ le] Cons False show ?thesis
          by (subst contact_scan.simps) auto
      next
        case JNull
        with 1(1) [OF Cons False JNull le] Cons False show ?thesis by (subst contact_scan.simps) auto
      next
        case (JBool b)
        with 1(2) [OF Cons False JBool le] Cons False show ?thesis by (subst contact_scan.simps) auto
      next
        case (JNum n)
        with 1(3) [OF Cons False JNum le] Cons False show ?thesis by (subst contact_scan.simps) auto
      qed
    qed
  qed
qed


section \<open>Parsed results\<close>

lemma parseCandidates_Inr:
  "parseCandidates index xs = Inr cs \<Longrightarrow>
     list_all2 (\<lambda>x c. \<exists>i. parseCandidate x i = Inr c) xs cs"
  by (induction index xs arbitrary: cs rule: parseCandidates.induct) (auto simp: rbind_Inr)

definition score_ok :: "jsnum \<Rightarrow> bool" where
  "score_ok x \<longleftrightarrow> is_finite x \<and> - 1 \<le> num_val x \<and> num_val x \<le> 1"

definition explained :: "jstr list \<Rightarrow> bool" where
  "explained rs \<longleftrightarrow> length rs \<le> 32 \<and> list_all (\<lambda>r. trim r \<noteq> [] \<and> length r \<le> 500) rs"

lemma explanations_ok: "explanations v message = Inr rs \<Longrightarrow> explained rs"
proof -
  assume "explanations v message = Inr rs"
  then obtain xs where xs: "as_array v = Some xs" "length xs \<le> 32" "\<forall>x \<in> set xs. explanation_ok x"
    and rs: "rs = List.map_filter (\<lambda>x. as_string (Some x)) xs"
    by (cases "as_array v") (auto simp: explanations_def list_ex_iff split: if_splits)
  moreover have "length rs \<le> length xs" unfolding rs List.map_filter_def by simp
  ultimately show ?thesis
    by (auto simp: explained_def list_all_iff List.map_filter_def explanation_ok_def isBoundedString_def
        split: option.splits)
qed

lemma explanations_exact:
  assumes "explanations v message = Inr rs"
  shows "v = Some (JArr (map JStr rs))"
proof -
  from assms obtain xs where v: "as_array v = Some xs" and xs: "\<forall>x \<in> set xs. explanation_ok x"
    and rs: "rs = List.map_filter (\<lambda>x. as_string (Some x)) xs"
    by (cases "as_array v") (auto simp: explanations_def list_ex_iff split: if_splits)
  from xs have "map JStr (List.map_filter (\<lambda>x. as_string (Some x)) xs) = xs"
    by (induction xs) (auto simp: explanation_ok_def as_simps split: option.splits)
  with v rs show ?thesis by (simp add: as_simps)
qed

definition bounded_record :: "(jstr \<times> json) list option \<Rightarrow> bool" where
  "bounded_record r \<longleftrightarrow> (\<forall>ms. r = Some ms \<longrightarrow> isWithinJsonBytes (JObj ms) MAX_METADATA_BYTES)"

text \<open>
  What is known of an accepted candidate: it says what the object \<open>ms\<close> says and nothing else, its
  identifiers are UUIDs, and every text, list and record is within its bound.
\<close>

definition candidate_reads :: "(jstr \<times> json) list \<Rightarrow> RetrievalCandidate \<Rightarrow> bool" where
  "candidate_reads ms c \<longleftrightarrow>
     member ms ''asset_id'' = map_option JStr (rcand_assetId c) \<and> member ms ''offer_id'' = map_option JStr (rcand_offerId c) \<and>
     member ms ''display_name'' = map_option JStr (rcand_displayName c) \<and> member ms ''score'' = Some (JNum (rcand_score c)) \<and>
     member ms ''reasons'' = Some (JArr (map JStr (rcand_reasons c))) \<and>
     member ms ''risks'' = map_option (\<lambda>rs. JArr (map JStr rs)) (rcand_risks c) \<and>
     member ms ''attributes'' = map_option JObj (rcand_attributes c) \<and> member ms ''terms'' = map_option JObj (rcand_terms c) \<and>
     member ms ''metadata'' = map_option JObj (rcand_metadata c)"

definition candidate_bounded :: "RetrievalCandidate \<Rightarrow> bool" where
  "candidate_bounded c \<longleftrightarrow>
     (rcand_assetId c \<noteq> None \<or> rcand_offerId c \<noteq> None) \<and>
     (\<forall>i. rcand_assetId c = Some i \<or> rcand_offerId c = Some i \<longrightarrow> isUuid (Some (JStr i))) \<and>
     (\<forall>s. rcand_displayName c = Some s \<longrightarrow> 1 \<le> length s \<and> length s \<le> 500) \<and>
     score_ok (rcand_score c) \<and> explained (rcand_reasons c) \<and> (\<forall>rs. rcand_risks c = Some rs \<longrightarrow> explained rs) \<and>
     bounded_record (rcand_attributes c) \<and> bounded_record (rcand_terms c) \<and> bounded_record (rcand_metadata c)"

lemma optional_uuid_reads: "optional_uuid v e = Inr y \<Longrightarrow> v = map_option JStr y \<and> (\<forall>i. y = Some i \<longrightarrow> isUuid (Some (JStr i)))"
  by (auto simp: optional_uuid_def uuid_or_def rbind_Inr as_simps split: if_splits option.splits)

lemma optional_record_reads: "optional_record v e = Inr y \<Longrightarrow> v = map_option JObj y \<and> bounded_record y"
  by (auto simp: optional_record_def bounded_record_def split: option.splits json.splits if_splits)

lemma score_reads: "score_or v e = Inr y \<Longrightarrow> v = Some (JNum y) \<and> score_ok y"
  by (auto simp: score_or_def score_ok_def not_less as_simps split: if_splits option.splits)

lemma explanations_reads: "explanations v e = Inr rs \<Longrightarrow> v = Some (JArr (map JStr rs)) \<and> explained rs"
  using explanations_exact explanations_ok by blast

lemma parseCandidate_parts:
  assumes "parseCandidate x i = Inr c"
  obtains ms where "x = JObj ms"
    "\<not> (member ms ''asset_id'' = None \<and> member ms ''offer_id'' = None)"
    "\<exists>e. optional_uuid (member ms ''asset_id'') e = Inr (rcand_assetId c)"
    "\<exists>e. optional_uuid (member ms ''offer_id'') e = Inr (rcand_offerId c)"
    "member ms ''display_name'' = None \<or> isBoundedString (member ms ''display_name'') 500"
    "rcand_displayName c = as_string (member ms ''display_name'')"
    "\<exists>e. score_or (member ms ''score'') e = Inr (rcand_score c)"
    "\<exists>e. explanations (member ms ''reasons'') e = Inr (rcand_reasons c)"
    "\<exists>e. (if member ms ''risks'' = None then Inr None
        else rbind (explanations (member ms ''risks'') e) (\<lambda>r. Inr (Some r))) = Inr (rcand_risks c)"
    "\<exists>e. optional_record (member ms ''attributes'') e = Inr (rcand_attributes c)"
    "\<exists>e. optional_record (member ms ''terms'') e = Inr (rcand_terms c)"
    "\<exists>e. optional_record (member ms ''metadata'') e = Inr (rcand_metadata c)"
    "\<not> containsContactMaterial x"
proof -
  from assms obtain ms where x: "x = JObj ms"
    by (cases x) (simp_all add: parseCandidate_def Let_def record_or_def)
  show thesis
    by (rule that [OF x]; insert assms; unfold x parseCandidate_def Let_def rbind_Inr ensure_Inr record_or_def;
        elim exE conjE; auto)
qed

lemma parseCandidate_ok:
  assumes "parseCandidate x i = Inr c"
  shows "\<not> has_contact x" "\<exists>ms. x = JObj ms \<and> candidate_reads ms c" "candidate_bounded c"
proof -
  obtain ms where x: "x = JObj ms"
    and some: "\<not> (member ms ''asset_id'' = None \<and> member ms ''offer_id'' = None)"
    and ids: "\<exists>e. optional_uuid (member ms ''asset_id'') e = Inr (rcand_assetId c)"
      "\<exists>e. optional_uuid (member ms ''offer_id'') e = Inr (rcand_offerId c)"
    and name: "member ms ''display_name'' = None \<or> isBoundedString (member ms ''display_name'') 500"
      "rcand_displayName c = as_string (member ms ''display_name'')"
    and score: "\<exists>e. score_or (member ms ''score'') e = Inr (rcand_score c)"
    and reasons: "\<exists>e. explanations (member ms ''reasons'') e = Inr (rcand_reasons c)"
    and risks: "\<exists>e. (if member ms ''risks'' = None then Inr None
        else rbind (explanations (member ms ''risks'') e) (\<lambda>r. Inr (Some r))) = Inr (rcand_risks c)"
    and records: "\<exists>e. optional_record (member ms ''attributes'') e = Inr (rcand_attributes c)"
      "\<exists>e. optional_record (member ms ''terms'') e = Inr (rcand_terms c)"
      "\<exists>e. optional_record (member ms ''metadata'') e = Inr (rcand_metadata c)"
    and contact: "\<not> containsContactMaterial x"
    by (rule parseCandidate_parts [OF assms]) (rule that)
  show "\<not> has_contact x" using contact scan_iff [of 0 "[x]"] by (simp add: containsContactMaterial_def)
  have ids: "member ms ''asset_id'' = map_option JStr (rcand_assetId c) \<and> (\<forall>i. rcand_assetId c = Some i \<longrightarrow> isUuid (Some (JStr i)))"
    "member ms ''offer_id'' = map_option JStr (rcand_offerId c) \<and> (\<forall>i. rcand_offerId c = Some i \<longrightarrow> isUuid (Some (JStr i)))"
    using ids optional_uuid_reads by blast+
  have records: "member ms ''attributes'' = map_option JObj (rcand_attributes c) \<and> bounded_record (rcand_attributes c)"
    "member ms ''terms'' = map_option JObj (rcand_terms c) \<and> bounded_record (rcand_terms c)"
    "member ms ''metadata'' = map_option JObj (rcand_metadata c) \<and> bounded_record (rcand_metadata c)"
    using records optional_record_reads by blast+
  have score: "member ms ''score'' = Some (JNum (rcand_score c)) \<and> score_ok (rcand_score c)" using score score_reads by blast
  have reasons: "member ms ''reasons'' = Some (JArr (map JStr (rcand_reasons c))) \<and> explained (rcand_reasons c)"
    using reasons explanations_reads by blast
  have risks: "member ms ''risks'' = map_option (\<lambda>rs. JArr (map JStr rs)) (rcand_risks c) \<and> (\<forall>rs. rcand_risks c = Some rs \<longrightarrow> explained rs)"
    using risks by (auto simp: rbind_Inr eq_commute [of _ "rcand_risks c"] split: if_splits dest: explanations_reads)
  have name: "member ms ''display_name'' = map_option JStr (rcand_displayName c) \<and>
      (\<forall>s. rcand_displayName c = Some s \<longrightarrow> 1 \<le> length s \<and> length s \<le> 500)"
    using name by (auto simp: isBoundedString_def as_simps split: option.splits)
  from x ids records score reasons risks name show "\<exists>ms. x = JObj ms \<and> candidate_reads ms c"
    by (simp add: candidate_reads_def)
  from some ids records score reasons risks name show "candidate_bounded c"
    by (auto simp: candidate_bounded_def)
qed

text \<open>What is known of the answer beside its candidates.\<close>

definition result_bounded :: "(jstr \<Rightarrow> bool) \<Rightarrow> RetrievalResult \<Rightarrow> bool" where
  "result_bounded date_ok r \<longleftrightarrow>
     TOOL_NAME_PATTERN (rr_provider_id r) \<and>
     1 \<le> length (rr_provider_version r) \<and> length (rr_provider_version r) \<le> 128 \<and>
     (\<forall>m. rr_provider_model r = Some (Some m) \<longrightarrow> 1 \<le> length m \<and> length m \<le> 200) \<and>
     (\<forall>t. rr_generatedAt r = Some (Some t) \<longrightarrow> 1 \<le> length t \<and> length t \<le> 80 \<and> date_ok t)"

lemma nullable_string_bounded: "nullable_string v n e = Inr (Some (Some s)) \<Longrightarrow> 1 \<le> length s \<and> length s \<le> n"
  by (auto simp: nullable_string_def isBoundedString_def split: option.splits json.splits if_splits)

lemma generated_at_bounded:
  assumes "generated_at_or date_ok v = Inr (Some (Some t))"
  shows "1 \<le> length t \<and> length t \<le> 80 \<and> date_ok t"
proof -
  from assms obtain y where "nullable_string v 80 (js ''generated_at must be a valid date-time or null'') = Inr y"
    "(case y of Some (Some s) \<Rightarrow> if date_ok s then Inr y else Inl (js ''generated_at must be a valid date-time or null'') | _ \<Rightarrow> Inr y) =
       Inr (Some (Some t))"
    by (auto simp: generated_at_or_def rbind_Inr)
  then show ?thesis using nullable_string_bounded by (auto split: option.splits if_splits)
qed

lemma parseResult_parts:
  assumes "parseRetrievalResult date_ok v requestId limit = Inr r"
  obtains ms xs where "v = JObj ms" "member ms ''protocol'' = Some (JStr RETRIEVAL_PROTOCOL)"
    "member ms ''candidates'' = Some (JArr xs)" "int (length xs) \<le> min 100 limit"
    "member ms ''request_id'' = Some (JStr requestId)" "rr_requestId r = requestId" "parseCandidates 0 xs = Inr (rr_candidates r)"
    "member ms ''degraded'' = Some (JBool (rr_degraded r))" "result_bounded date_ok r"
proof -
  from assms obtain ms where v: "v = JObj ms"
    by (cases v) (simp_all add: parseRetrievalResult_def record_or_def)
  from assms obtain xs p where c: "member ms ''request_id'' = Some (JStr requestId)" "rr_requestId r = requestId"
      "member ms ''protocol'' = Some (JStr RETRIEVAL_PROTOCOL)"
      "(case as_array (member ms ''candidates'') of
         Some xs \<Rightarrow> if min 100 limit < int (length xs)
           then Inl (js ''retrieval candidates exceed the requested limit'') else Inr xs
       | None \<Rightarrow> Inl (js ''retrieval candidates exceed the requested limit'')) = Inr xs"
      "parseCandidates 0 xs = Inr (rr_candidates r)" "as_boolean (member ms ''degraded'') = Some (rr_degraded r)"
    and id: "isBoundedString (Some (JStr (rr_provider_id r))) 128 \<and> TOOL_NAME_PATTERN (rr_provider_id r)"
    and version: "isBoundedString (Some (JStr (rr_provider_version r))) 128"
    and model: "nullable_string p 200 (js ''retrieval provider model is invalid'') = Inr (rr_provider_model r)"
    and at: "generated_at_or date_ok (member ms ''generated_at'') = Inr (rr_generatedAt r)"
    unfolding v parseRetrievalResult_def rbind_Inr ensure_Inr record_or_def
    by (elim exE conjE) (auto split: option.splits if_splits)
  from c(4) have xs: "member ms ''candidates'' = Some (JArr xs)" "int (length xs) \<le> min 100 limit"
    by (auto simp: as_simps not_less split: option.splits if_splits)
  have "result_bounded date_ok r"
    using id version model at nullable_string_bounded generated_at_bounded
    by (auto simp: result_bounded_def isBoundedString_def) metis+
  with v c xs show thesis by (intro that [of ms xs]) (simp_all add: as_simps)
qed

text \<open>The request a client prints for a query, and the queries that can be printed.\<close>

definition optional_member :: "string \<Rightarrow> ('a \<Rightarrow> json) \<Rightarrow> 'a option option \<Rightarrow> (jstr \<times> json) list" where
  "optional_member k f x =
     (case x of None \<Rightarrow> [] | Some y \<Rightarrow> [(js k, case y of None \<Rightarrow> JNull | Some z \<Rightarrow> f z)])"

definition query_members :: "RetrievalQuery \<Rightarrow> (jstr \<times> json) list" where
  "query_members q =
     [(js ''protocol'', JStr RETRIEVAL_PROTOCOL), (js ''request_id'', JStr (rq_requestId q)),
      (js ''scope'', JObj [(js ''tenant_id'', JStr (rq_tenantId q)), (js ''domain_id'', JStr (rq_domainId q)),
         (js ''platform_path'', JStr (rq_platformPath q))]),
      (js ''input'', JObj ([(js ''narrative'', JStr (rq_narrative q)),
         (js ''requirements'', JObj (rq_requirements q))] @
         optional_member ''budget_min'' JStr (rq_budgetMin q) @ optional_member ''budget_max'' JStr (rq_budgetMax q) @
         optional_member ''currency'' JStr (rq_currency q) @
         optional_member ''currency_scale'' JNum (rq_currencyScale q))),
      (js ''limit'', JNum (rq_limit q))] @ optional_member ''trace_id'' JStr (rq_traceId q)"

definition short_text :: "jstr option option \<Rightarrow> bool" where
  "short_text x \<longleftrightarrow> (\<forall>s. x = Some (Some s) \<longrightarrow> s \<noteq> [] \<and> length s \<le> 200)"

definition wf_query :: "RetrievalQuery \<Rightarrow> bool" where
  "wf_query q \<longleftrightarrow>
     isUuid (Some (JStr (rq_requestId q))) \<and> isUuid (Some (JStr (rq_tenantId q))) \<and>
     isUuid (Some (JStr (rq_domainId q))) \<and>
     normalizePlatformPath (Some (JStr (rq_platformPath q))) = Some (rq_platformPath q) \<and>
     trim (rq_narrative q) = rq_narrative q \<and> rq_narrative q \<noteq> [] \<and> length (rq_narrative q) \<le> 10000 \<and>
     isWithinJsonBytes (JObj (rq_requirements q)) MAX_REQUIREMENTS_BYTES \<and>
     short_text (rq_budgetMin q) \<and> short_text (rq_budgetMax q) \<and> short_text (rq_traceId q) \<and>
     (\<forall>s. rq_currency q = Some (Some s) \<longrightarrow> length s = 3 \<and> list_all is_upper s) \<and>
     (\<forall>n. rq_currencyScale q = Some (Some n) \<longrightarrow> is_safe_integer n \<and> 0 \<le> num_int n \<and> num_int n \<le> 18) \<and>
     is_safe_integer (rq_limit q) \<and> 1 \<le> num_int (rq_limit q) \<and> num_int (rq_limit q) \<le> 100"

definition query_fields :: "string list" where
  "query_fields = [''protocol'', ''request_id'', ''scope'', ''input'', ''limit'', ''trace_id'']"

lemma member_append:
  "member (ms @ ns) k = (case member ms k of Some v \<Rightarrow> Some v | None \<Rightarrow> member ns k)"
  by (simp add: member_def map_add_def split: option.split)

lemma member_optional:
  "member (optional_member k f x) k' =
     (if k = k' then map_option (\<lambda>y. case y of None \<Rightarrow> JNull | Some z \<Rightarrow> f z) x else None)"
  by (simp add: optional_member_def split: option.split)

lemma member_extra: "js k \<notin> fst ` set ms \<Longrightarrow> member ms k = None"
  by (simp add: member_def map_of_eq_None_iff)

lemma refuse_supported: "fst ` set ms \<subseteq> js ` set allowed \<Longrightarrow> refuse_unsupported allowed ms m = Inr ()"
proof -
  assume "fst ` set ms \<subseteq> js ` set allowed"
  then have "unsupported_key allowed ms = None" by (auto simp: unsupported_key_def find_None_iff)
  then show ?thesis by (simp add: refuse_unsupported_def)
qed

lemma fst_optional: "fst ` set (optional_member k f x) \<subseteq> {js k}"
  by (auto simp: optional_member_def split: option.splits)

lemma nullable_string_print:
  "short_text x \<Longrightarrow>
     nullable_string (map_option (\<lambda>y. case y of None \<Rightarrow> JNull | Some z \<Rightarrow> JStr z) x) 200 m = Inr x"
  by (auto simp: nullable_string_def short_text_def isBoundedString_def Suc_le_eq split: option.split)

lemma currency_print:
  "(\<And>s. x = Some (Some s) \<Longrightarrow> length s = 3 \<and> list_all is_upper s) \<Longrightarrow>
     validateCurrency (map_option (\<lambda>y. case y of None \<Rightarrow> JNull | Some z \<Rightarrow> JStr z) x) = Inr x"
  by (auto simp: validateCurrency_def split: option.split)

lemma currency_scale_print:
  "(\<And>n. x = Some (Some n) \<Longrightarrow> is_safe_integer n \<and> 0 \<le> num_int n \<and> num_int n \<le> 18) \<Longrightarrow>
     validateCurrencyScale (map_option (\<lambda>y. case y of None \<Rightarrow> JNull | Some z \<Rightarrow> JNum z) x) = Inr x"
  by (auto simp: validateCurrencyScale_def split: option.split)

lemma uuid_or_JStr: "isUuid (Some (JStr s)) \<Longrightarrow> uuid_or (Some (JStr s)) m = Inr s"
  by (simp add: uuid_or_def)

text \<open>The members after the known ones do not matter once the check for unknown fields passes.\<close>

lemma parse_query_members:
  assumes q: "wf_query q" and r: "refuse_unsupported query_fields (query_members q @ extra)
      ''retrieval query contains an unsupported field: '' = Inr ()"
    and x: "member extra ''trace_id'' = None"
  shows "parseRetrievalQuery (JObj (query_members q @ extra)) = Inr q"
proof -
  let ?ms = "query_members q @ extra"
  have m: "member ?ms ''protocol'' = Some (JStr RETRIEVAL_PROTOCOL)"
    "member ?ms ''request_id'' = Some (JStr (rq_requestId q))"
    "member ?ms ''limit'' = Some (JNum (rq_limit q))"
    "member ?ms ''trace_id'' = map_option (\<lambda>y. case y of None \<Rightarrow> JNull | Some z \<Rightarrow> JStr z) (rq_traceId q)"
    by (simp_all add: query_members_def member_append member_optional x split: option.split)
  obtain scope input where s: "member ?ms ''scope'' = Some (JObj scope)" "member ?ms ''input'' = Some (JObj input)"
    and scope: "scope = [(js ''tenant_id'', JStr (rq_tenantId q)), (js ''domain_id'', JStr (rq_domainId q)),
         (js ''platform_path'', JStr (rq_platformPath q))]"
    and input: "input = [(js ''narrative'', JStr (rq_narrative q)),
         (js ''requirements'', JObj (rq_requirements q))] @
         optional_member ''budget_min'' JStr (rq_budgetMin q) @ optional_member ''budget_max'' JStr (rq_budgetMax q) @
         optional_member ''currency'' JStr (rq_currency q) @
         optional_member ''currency_scale'' JNum (rq_currencyScale q)"
    by (simp add: query_members_def)
  have i: "member input ''narrative'' = Some (JStr (rq_narrative q))"
    "member input ''requirements'' = Some (JObj (rq_requirements q))"
    "member input ''budget_min'' = map_option (\<lambda>y. case y of None \<Rightarrow> JNull | Some z \<Rightarrow> JStr z) (rq_budgetMin q)"
    "member input ''budget_max'' = map_option (\<lambda>y. case y of None \<Rightarrow> JNull | Some z \<Rightarrow> JStr z) (rq_budgetMax q)"
    "member input ''currency'' = map_option (\<lambda>y. case y of None \<Rightarrow> JNull | Some z \<Rightarrow> JStr z) (rq_currency q)"
    "member input ''currency_scale'' = map_option (\<lambda>y. case y of None \<Rightarrow> JNull | Some z \<Rightarrow> JNum z) (rq_currencyScale q)"
    unfolding input by (simp_all add: member_append member_optional split: option.split)
  have "refuse_unsupported [''tenant_id'', ''domain_id'', ''platform_path''] scope e = Inr ()" for e
    by (rule refuse_supported) (auto simp: scope)
  moreover have "refuse_unsupported
      [''narrative'', ''requirements'', ''budget_min'', ''budget_max'', ''currency'', ''currency_scale''] input e = Inr ()" for e
    unfolding input set_append image_Un
    by (intro refuse_supported, unfold set_append image_Un, intro Un_least order_trans [OF fst_optional]) auto
  ultimately show ?thesis
    using q r [unfolded query_fields_def]
    by (simp add: parseRetrievalQuery_def record_or_def m s i scope wf_query_def uuid_or_JStr limit_or_def
        nullable_string_print currency_print currency_scale_print Suc_le_eq not_less_eq_eq)
qed

section \<open>Claims\<close>

text \<open>
  C13. The scan for contact material, an iteration over a work list that stops after 4096 values,
  decides exactly the recursive definition: it reports a value if and only if some key or string
  anywhere inside it is contact material, or the value is too large to be scanned.
\<close>

theorem contact_scan_exact:
  "containsContactMaterial v \<longleftrightarrow> has_contact v \<or> scan_limit < value_count v"
  using scan_iff [of 0 "[v]"] by (simp add: containsContactMaterial_def)

text \<open>
  C12. What a provider's answer can contain once it is accepted: it answers this request, holds
  at most \<open>min(100, limit)\<close> candidates, and every bound of the protocol holds of it. Each candidate
  says what its object says, names an asset or an offer, all its identifiers are UUIDs, its name has 1 to 500 code units,
  its score is finite and between -1 and 1, its reasons and its risks are at most 32 non-blank texts of at most 500 code units,
  its attributes, terms and metadata take at most 32 KiB of JSON each, and its object holds no contact material anywhere.
  The provider's identifier fits the pattern, its version and model have at most 128 and 200 code units, and the time is one that
  \<open>Date.parse\<close> accepts.
\<close>

theorem retrieval_result_sound:
  assumes "parseRetrievalResult date_ok v requestId limit = Inr r"
  shows "\<exists>ms xs. v = JObj ms \<and> member ms ''protocol'' = Some (JStr RETRIEVAL_PROTOCOL) \<and>
    member ms ''request_id'' = Some (JStr requestId) \<and> rr_requestId r = requestId \<and>
    member ms ''degraded'' = Some (JBool (rr_degraded r)) \<and> result_bounded date_ok r \<and>
    member ms ''candidates'' = Some (JArr xs) \<and> int (length (rr_candidates r)) \<le> min 100 limit \<and>
    list_all2 (\<lambda>x c. \<not> has_contact x \<and> candidate_bounded c \<and> (\<exists>ns. x = JObj ns \<and> candidate_reads ns c)) xs (rr_candidates r)"
proof -
  obtain ms xs where v: "v = JObj ms" "member ms ''protocol'' = Some (JStr RETRIEVAL_PROTOCOL)"
    "member ms ''candidates'' = Some (JArr xs)" "int (length xs) \<le> min 100 limit"
    "member ms ''request_id'' = Some (JStr requestId)" "rr_requestId r = requestId"
    "member ms ''degraded'' = Some (JBool (rr_degraded r))" "result_bounded date_ok r"
    and "parseCandidates 0 xs = Inr (rr_candidates r)"
    by (rule parseResult_parts [OF assms]) (rule that)
  then have cs: "list_all2 (\<lambda>x c. \<exists>i. parseCandidate x i = Inr c) xs (rr_candidates r)"
    by (intro parseCandidates_Inr)
  have "list_all2 (\<lambda>x c. \<not> has_contact x \<and> candidate_bounded c \<and> (\<exists>ns. x = JObj ns \<and> candidate_reads ns c)) xs (rr_candidates r)"
    by (rule list_all2_mono [OF cs]) (use parseCandidate_ok in blast)
  with v list_all2_lengthD [OF cs] show ?thesis by auto
qed

definition example_id :: jstr where
  "example_id = js ''00000000-0000-4000-8000-000000000000''"

lemma example_uuid: "isUuid (Some (JStr example_id))"
  by (simp add: isUuid_def example_id_def js_simps is_hex_def is_hex_lower_def is_digit_def lower1_def is_upper_def)

definition example_candidate_object :: json where
  "example_candidate_object = JObj
     [(js ''asset_id'', JStr example_id), (js ''display_name'', JStr (js ''Tea'')), (js ''score'', JNum (Dec 5 (- 1))),
      (js ''reasons'', JArr [JStr (js ''tea'')])]"

definition example_result :: json where
  "example_result = JObj
     [(js ''protocol'', JStr RETRIEVAL_PROTOCOL), (js ''request_id'', JStr (js ''r'')),
      (js ''provider'', JObj [(js ''id'', JStr (js ''p1'')), (js ''version'', JStr (js ''1''))]),
      (js ''candidates'', JArr [example_candidate_object]), (js ''degraded'', JBool False)]"

text \<open>A pattern that needs a unit outside the alphabet of a text does not match in it.\<close>

fun out_of_reach :: "nat list \<Rightarrow> re \<Rightarrow> bool" where
  "out_of_reach cs (Class p) \<longleftrightarrow> list_all (\<lambda>c. \<not> p c) cs"
| "out_of_reach cs (Seq r q) \<longleftrightarrow> out_of_reach cs r \<or> out_of_reach cs q"
| "out_of_reach cs (Alt r q) \<longleftrightarrow> out_of_reach cs r \<and> out_of_reach cs q"
| "out_of_reach cs _ \<longleftrightarrow> False"

lemma out_of_reach_sound: "matches_at s r i j \<Longrightarrow> set s \<subseteq> set cs \<Longrightarrow> \<not> out_of_reach cs r"
proof (induction rule: matches_at.induct)
  case (class_at i p)
  from class_at.hyps(1) class_at.prems have "s ! i \<in> set cs" using nth_mem by blast
  with class_at.hyps(2) show ?case by (auto simp: list_all_iff)
qed auto

lemma times_re_numeral: "times_re (numeral k) r = Seq r (times_re (pred_numeral k) r)" "times_re 1 r = Seq r (times_re 0 r)"
  by (simp_all add: numeral_eq_Suc)

lemma contact_free: "set s \<subseteq> set cs \<Longrightarrow> list_all (out_of_reach cs) CONTACT_VALUE_PATTERNS \<Longrightarrow> \<not> contact_text s"
  by (auto simp: contact_text_def list_ex_iff list_all_iff re_test_iff dest: out_of_reach_sound)

lemma example_alphabet: "list_all (out_of_reach [48, 45, 52, 56, 84, 116, 101, 97]) CONTACT_VALUE_PATTERNS"
  by (simp add: CONTACT_VALUE_PATTERNS_def pattern_scheme_def pattern_mobile_def pattern_international_def pattern_handle_def
      nocase_def opt_re_def at_least_def units_def js_simps times_re_numeral lower1_def is_upper_def)

lemma example_plain_texts: "\<not> contact_text example_id" "\<not> contact_text (js ''Tea'')" "\<not> contact_text (js ''tea'')"
  by (rule contact_free [OF _ example_alphabet]; simp add: example_id_def js_simps)+

lemma example_clean: "\<not> containsContactMaterial example_candidate_object"
proof -
  have "\<not> contact_key (js ''asset_id'')" "\<not> contact_key (js ''display_name'')" "\<not> contact_key (js ''score'')" "\<not> contact_key (js ''reasons'')"
    by code_simp+
  with example_plain_texts show ?thesis
    using scan_iff [of 0 "[example_candidate_object]"]
    by (simp add: containsContactMaterial_def example_candidate_object_def scan_limit_def)
qed

lemma example_candidate_parsed:
  "\<exists>c. parseCandidate example_candidate_object 0 = Inr c \<and> rcand_assetId c = Some example_id"
proof -
  have "object_keys [(js ''asset_id'', a), (js ''display_name'', b), (js ''score'', c), (js ''reasons'', d)] =
      [js ''asset_id'', js ''display_name'', js ''score'', js ''reasons'']" for a b c d :: json
    by (simp add: object_keys_def object_entries_def is_index_key_def js_simps is_digit_def)
  then show ?thesis
    using example_clean example_uuid
    by (simp add: parseCandidate_def Let_def example_candidate_object_def record_or_def refuse_unsupported_def unsupported_key_def
        optional_uuid_def uuid_or_def isBoundedString_def score_or_def explanations_def explanation_ok_def optional_record_def
        member_def trim_def is_space_def js_simps List.map_filter_def)
qed

lemma example_parsed: "\<exists>r c. parseRetrievalResult (\<lambda>_. True) example_result (js ''r'') 5 = Inr r \<and> rr_candidates r = [c]"
  using example_candidate_parsed
  by (auto simp: parseRetrievalResult_def example_result_def record_or_def refuse_unsupported_def unsupported_key_def
      object_keys_def object_entries_def is_index_key_def js_simps isBoundedString_def TOOL_NAME_PATTERN_def
      is_lower_def is_digit_def nullable_string_def generated_at_or_def RETRIEVAL_PROTOCOL_def member_def)

theorem retrieval_result_sound_witness:
  "\<exists>r c. parseRetrievalResult (\<lambda>_. True) example_result (js ''r'') 5 = Inr r \<and> rr_candidates r = [c] \<and>
     result_bounded (\<lambda>_. True) r \<and> candidate_bounded c"
proof -
  from example_parsed obtain r c where r: "parseRetrievalResult (\<lambda>_. True) example_result (js ''r'') 5 = Inr r" "rr_candidates r = [c]"
    by blast
  from retrieval_result_sound [OF r(1)] r show ?thesis by (auto simp: list_all2_Cons2)
qed

text \<open>
  A query that is printed with the protocol's field names is parsed back to itself, with every
  optional field absent, null or present.
\<close>

theorem query_round_trip:
  assumes "wf_query q"
  shows "parseRetrievalQuery (JObj (query_members q)) = Inr q"
proof -
  have "fst ` set (query_members q) \<subseteq> js ` set query_fields"
    unfolding query_members_def query_fields_def set_append image_Un
    by (intro Un_least order_trans [OF fst_optional]) auto
  from parse_query_members [OF assms, of "[]"] refuse_supported [OF this] show ?thesis by simp
qed

definition example_query :: RetrievalQuery where
  "example_query = \<lparr> rq_requestId = example_id, rq_tenantId = example_id, rq_domainId = example_id,
     rq_platformPath = js ''/a-b/c'', rq_narrative = js ''tea'', rq_requirements = [], rq_budgetMin = None,
     rq_budgetMax = Some None, rq_currency = Some (Some (js ''CNY'')), rq_currencyScale = Some (Some (num_of_int 2)),
     rq_limit = num_of_int 5, rq_traceId = None \<rparr>"

lemma example_query_wf: "wf_query example_query"
proof -
  note example_uuid
  moreover have "normalizePlatformPath (Some (JStr (js ''/a-b/c''))) = Some (js ''/a-b/c'')"
    by (simp add: normalizePlatformPath_def js_simps path_char_def is_lower_def is_digit_def)
  moreover have "trim (js ''tea'') = js ''tea''" by (simp add: trim_def js_simps is_space_def)
  moreover have "isWithinJsonBytes (JObj []) MAX_REQUIREMENTS_BYTES"
    by (simp add: isWithinJsonBytes_def MAX_REQUIREMENTS_BYTES_def encode_ascii)
  ultimately show ?thesis
    by (simp add: wf_query_def example_query_def short_text_def is_safe_integer_def) (simp add: js_simps is_upper_def)
qed

theorem query_round_trip_witness:
  "parseRetrievalQuery (JObj (query_members example_query)) = Inr example_query"
  by (rule query_round_trip [OF example_query_wf])

text \<open>
  C40. The check for unknown fields can be passed by. \<open>find\<close> returns the first unknown key, and the
  test \<open>if (unsupported)\<close> takes an empty key for none: a query with a field whose name is empty is
  accepted, together with any number of unknown fields after it.
\<close>

theorem empty_field_hides_unknown_fields:
  assumes "wf_query q" and "\<forall>k \<in> fst ` set extra. \<not> is_index_key k \<and> k \<notin> js ` set query_fields"
  shows "parseRetrievalQuery (JObj (query_members q @ ([], JNull) # extra)) = Inr q"
proof (rule parse_query_members [OF assms(1)])
  let ?ms = "query_members q @ ([], JNull) # extra"
  have k: "fst ` set (query_members q) \<subseteq> js ` set query_fields"
    unfolding query_members_def query_fields_def set_append image_Un
    by (intro Un_least order_trans [OF fst_optional]) auto
  have "\<not> is_index_key (js k)" if "k \<in> set query_fields" for k
    using that by (auto simp: query_fields_def is_index_key_def js_simps is_digit_def)
  with k assms(2) have "\<forall>m \<in> set ?ms. \<not> is_index_key (fst m)"
    by (auto simp: is_index_key_def [of "[]"])
  then have "filter (\<lambda>m. is_index_key (fst m)) ?ms = []" "filter (\<lambda>m. \<not> is_index_key (fst m)) ?ms = ?ms"
    by (simp_all add: filter_empty_conv filter_id_conv)
  then have o': "object_keys ?ms = map fst ?ms" by (simp add: object_keys_def object_entries_def)
  have "List.find P (xs @ ys) = List.find P ys" if "\<forall>x \<in> set xs. \<not> P x" for P and xs ys :: "jstr list"
    using that by (induction xs) auto
  moreover have "\<forall>x \<in> set (map fst (query_members q)). x \<in> js ` set query_fields" using k by auto
  moreover have "[] \<notin> js ` set query_fields" by (auto simp: query_fields_def)
  ultimately have "unsupported_key query_fields ?ms = Some []" by (simp add: unsupported_key_def o')
  then show "refuse_unsupported query_fields ?ms ''retrieval query contains an unsupported field: '' = Inr ()"
    by (simp add: refuse_unsupported_def)
  show "member (([], JNull) # extra) ''trace_id'' = None"
    using assms(2) by (intro member_extra) (auto simp: query_fields_def)
qed

theorem empty_field_hides_unknown_fields_witness:
  "parseRetrievalQuery (JObj (query_members example_query @ [([], JNull), (js ''admin'', JBool True)])) = Inr example_query"
proof -
  have "\<not> is_index_key (js ''admin'')" by (simp add: is_index_key_def js_simps is_digit_def)
  then show ?thesis
    using empty_field_hides_unknown_fields [OF example_query_wf, of "[(js ''admin'', JBool True)]"]
    by (auto simp: query_fields_def)
qed

end
