(* ===== verification/Shopping_Intent.thy ===== *)
theory Shopping_Intent
  imports Js_Object
begin

text \<open>
  Evaluation of a shopping intent against the public attributes and terms of an offer, after
  \<open>web/src/shopping-intent.ts\<close>. What the engine decides is collected in the record \<open>engine\<close>:
  \<open>toLocaleLowerCase\<close> (a locale and the Unicode tables), the reading of a number from text, and
  the floating-point results of \<open>+\<close> and of \<open>numeric / 10 ** scale\<close>, whose power the language
  leaves approximate. The laws a theorem needs of them are its hypotheses.
\<close>

section \<open>Data\<close>

record engine =
  to_locale_lower :: "jstr \<Rightarrow> jstr"
  number_of_text :: "jstr \<Rightarrow> jsnum"
  num_add :: "jsnum \<Rightarrow> jsnum \<Rightarrow> jsnum"
  scaled_amount :: "nat \<Rightarrow> int \<Rightarrow> jsnum"

datatype ShoppingRequirementMode = Must | Prefer | Exclude

datatype ShoppingRequirementOperator = Contains | Eq | Gte | Lte

record ShoppingIntentRequirement =
  sr_field :: "jstr option"
  sr_value :: jstr
  sr_mode :: ShoppingRequirementMode
  sr_operator :: ShoppingRequirementOperator

record ShoppingBudget =
  sb_minimum :: "jsnum option"
  sb_maximum :: "jsnum option"
  sb_currency :: "jstr option"

record PublicShoppingIntent =
  si_budget :: "ShoppingBudget option"
  si_requirements :: "ShoppingIntentRequirement list"

record ShoppingIntentEvaluation =
  se_eligible :: bool
  se_boost :: jsnum
  se_reasons :: "jstr list"

definition MAX_INTENT_REASONS :: nat where
  "MAX_INTENT_REASONS = 8"

definition MAX_INTENT_REASON_CHARACTERS :: nat where
  "MAX_INTENT_REASON_CHARACTERS = 500"

section \<open>Values\<close>

text \<open>\<open><\<close> on numbers: false when one of them is not a number.\<close>

fun num_less :: "jsnum \<Rightarrow> jsnum \<Rightarrow> bool" where
  "num_less NumNaN y = False"
| "num_less x NumNaN = False"
| "num_less (NumInf neg) (NumInf neg') = (neg \<and> \<not> neg')"
| "num_less (NumInf neg) (Dec s e) = neg"
| "num_less (Dec s e) (NumInf neg) = (\<not> neg)"
| "num_less (Dec s e) (Dec t f) = (num_val (Dec s e) < num_val (Dec t f))"

text \<open>\<open>Math.min\<close>.\<close>

definition js_min :: "jsnum \<Rightarrow> jsnum \<Rightarrow> jsnum" where
  "js_min x y = (if x = NumNaN \<or> y = NumNaN then NumNaN else if num_less y x then y else x)"

fun isPrimitive :: "json option \<Rightarrow> bool" where
  "isPrimitive (Some (JStr _)) = True"
| "isPrimitive (Some (JNum _)) = True"
| "isPrimitive (Some (JBool _)) = True"
| "isPrimitive _ = False"

text \<open>\<open>String(value)\<close> on primitive values.\<close>

fun text_of_number :: "jsnum \<Rightarrow> jstr" where
  "text_of_number NumNaN = js ''NaN''"
| "text_of_number (NumInf neg) = (if neg then js ''-Infinity'' else js ''Infinity'')"
| "text_of_number (Dec s e) = num_text (Dec s e)"

fun string_of :: "json \<Rightarrow> jstr" where
  "string_of (JStr s) = s"
| "string_of (JNum x) = text_of_number x"
| "string_of (JBool b) = (if b then js ''true'' else js ''false'')"
| "string_of _ = []"

definition normalizedValue :: "engine \<Rightarrow> json \<Rightarrow> jstr" where
  "normalizedValue E v = to_locale_lower E (trim (string_of v))"

definition remove_commas :: "jstr \<Rightarrow> jstr" where
  "remove_commas s = filter (\<lambda>c. c \<noteq> 44) s"

definition matchesRequirement :: "engine \<Rightarrow> jstr \<Rightarrow> jstr \<Rightarrow> ShoppingRequirementOperator \<Rightarrow> bool" where
  "matchesRequirement E candidate expectedValue operator =
     (let expected = to_locale_lower E (trim expectedValue)
      in if expected = [] then False
         else case operator of
           Contains \<Rightarrow> has_substring candidate expected
         | Eq \<Rightarrow> candidate = expected
         | _ \<Rightarrow>
             (let left = number_of_text E (remove_commas candidate);
                  right = number_of_text E (remove_commas expected)
              in if \<not> is_finite left \<or> \<not> is_finite right then False
                 else if operator = Gte then num_val right \<le> num_val left else num_val left \<le> num_val right))"

definition majorPrice :: "engine \<Rightarrow> (jstr \<times> json) list \<Rightarrow> jsnum option" where
  "majorPrice E terms =
     (case (as_string (member terms ''amount_minor''), as_number (member terms ''currency_scale'')) of
        (Some amount, Some scale) \<Rightarrow>
          if \<not> (1 \<le> length amount \<and> length amount \<le> 38 \<and> list_all is_digit amount) \<or> \<not> is_safe_integer scale
          then None
          else if read_nat amount \<le> 2 ^ 53 - 1 then Some (scaled_amount E (read_nat amount) (num_int scale))
          else None
      | _ \<Rightarrow> None)"

definition addReason :: "jstr list \<Rightarrow> jstr \<Rightarrow> jstr list" where
  "addReason reasons v =
     (if MAX_INTENT_REASONS \<le> length reasons then reasons
      else
        let cut = take MAX_INTENT_REASON_CHARACTERS (trim v);
            reason = (if cut \<noteq> [] \<and> is_high (last cut) then butlast cut else cut)
        in if reason \<noteq> [] then reasons @ [reason] else reasons)"

section \<open>Evaluation\<close>

definition ineligible :: ShoppingIntentEvaluation where
  "ineligible = \<lparr> se_eligible = False, se_boost = num_of_int 0, se_reasons = [] \<rparr>"

text \<open>The texts of the reasons, as the code units of the source's literals.\<close>

definition text_currency :: jstr where "text_currency = [24065, 31181, 31526, 21512, 32]"
definition text_budget :: jstr where "text_budget = [20215, 26684, 31526, 21512, 39044, 31639]"
definition text_attribute :: jstr where "text_attribute = [20844, 24320, 23646, 24615]"
definition text_not_excluded :: jstr where "text_not_excluded = [26410, 21629, 20013, 25490, 38500, 39033, 65306]"
definition text_matches :: jstr where "text_matches = [31526, 21512, 32]"

text \<open>One requirement: \<open>None\<close> makes the offer ineligible.\<close>

definition requirement_values :: "engine \<Rightarrow> (jstr \<times> json) list \<Rightarrow> ShoppingIntentRequirement \<Rightarrow> jstr list option" where
  "requirement_values E attributes r =
     (case sr_field r of
        Some field \<Rightarrow>
          (let normalizedFieldValue = (if isPrimitive (map_of attributes field)
                 then normalizedValue E (the (map_of attributes field)) else [])
           in if \<not> has_own attributes field \<or> normalizedFieldValue = [] then None else Some [normalizedFieldValue])
      | None \<Rightarrow>
          Some (map (normalizedValue E) (filter (\<lambda>v. isPrimitive (Some v)) (object_values attributes))))"

definition apply_requirement ::
    "engine \<Rightarrow> (jstr \<times> json) list \<Rightarrow> ShoppingIntentRequirement \<Rightarrow> jsnum \<times> jstr list \<Rightarrow> (jsnum \<times> jstr list) option" where
  "apply_requirement E attributes r st =
     (case st of (boost, reasons) \<Rightarrow>
     (case requirement_values E attributes r of
        None \<Rightarrow> if sr_mode r = Prefer then Some st else None
      | Some values \<Rightarrow>
          (let matched = list_ex (\<lambda>candidate. matchesRequirement E candidate (sr_value r) (sr_operator r)) values
           in if sr_mode r = Exclude
              then if matched then None
                   else if trim (sr_value r) \<noteq> []
                   then Some (num_add E boost (dec 8 (- 2)),
                     addReason reasons
                       (case sr_field r of
                          None \<Rightarrow> text_attribute @ text_not_excluded @ sr_value r
                        | Some field \<Rightarrow> text_attribute @ [32] @ field @ [32] @ text_not_excluded @ sr_value r))
                   else Some st
              else if sr_mode r = Must \<and> \<not> matched then None
              else if matched
              then Some (num_add E boost (if sr_mode r = Must then dec 16 (- 2) else dec 8 (- 2)),
                addReason reasons
                  (case sr_field r of
                     Some field \<Rightarrow> if field \<noteq> [] then field @ [32] @ text_matches @ sr_value r
                       else text_matches @ sr_value r
                   | None \<Rightarrow> text_matches @ sr_value r))
              else Some st)))"

fun apply_requirements ::
    "engine \<Rightarrow> (jstr \<times> json) list \<Rightarrow> ShoppingIntentRequirement list \<Rightarrow> jsnum \<times> jstr list \<Rightarrow>
     (jsnum \<times> jstr list) option" where
  "apply_requirements E attributes [] st = Some st"
| "apply_requirements E attributes (r # rs) st =
     (case apply_requirement E attributes r st of
        None \<Rightarrow> None
      | Some st' \<Rightarrow> apply_requirements E attributes rs st')"

definition currency_step ::
    "engine \<Rightarrow> (jstr \<times> json) list \<Rightarrow> jstr option \<Rightarrow> jsnum \<times> jstr list \<Rightarrow> (jsnum \<times> jstr list) option" where
  "currency_step E terms requested st =
     (case requested of
        None \<Rightarrow> Some st
      | Some requestedCurrency \<Rightarrow>
          (case as_string (member terms ''currency'') of
             Some c \<Rightarrow>
               if length c = 3 \<and> list_all is_upper c \<and> requestedCurrency = c
               then Some (num_add E (fst st) (dec 8 (- 2)), addReason (snd st) (text_currency @ c))
               else None
           | None \<Rightarrow> None))"

definition budget_step ::
    "engine \<Rightarrow> jsnum option \<Rightarrow> ShoppingBudget option \<Rightarrow> jsnum \<times> jstr list \<Rightarrow> (jsnum \<times> jstr list) option" where
  "budget_step E amount budget st =
     (let minimum = (case budget of Some b \<Rightarrow> sb_minimum b | None \<Rightarrow> None);
          maximum = (case budget of Some b \<Rightarrow> sb_maximum b | None \<Rightarrow> None)
      in if minimum = None \<and> maximum = None then Some st
         else case amount of
           None \<Rightarrow> None
         | Some a \<Rightarrow>
             if (case minimum of Some m \<Rightarrow> num_less a m | None \<Rightarrow> False) then None
             else if (case maximum of Some m \<Rightarrow> num_less m a | None \<Rightarrow> False) then None
             else Some (num_add E (fst st) (dec 24 (- 2)), addReason (snd st) text_budget))"

definition evaluateShoppingIntent ::
    "engine \<Rightarrow> (jstr \<times> json) list \<Rightarrow> (jstr \<times> json) list \<Rightarrow> PublicShoppingIntent option \<Rightarrow> ShoppingIntentEvaluation" where
  "evaluateShoppingIntent E attributes terms intent =
     (case intent of
        None \<Rightarrow> \<lparr> se_eligible = True, se_boost = num_of_int 0, se_reasons = [] \<rparr>
      | Some i \<Rightarrow>
          (case currency_step E terms (case si_budget i of Some b \<Rightarrow> sb_currency b | None \<Rightarrow> None) (num_of_int 0, []) of
             None \<Rightarrow> ineligible
           | Some st \<Rightarrow>
               (case budget_step E (majorPrice E terms) (si_budget i) st of
                  None \<Rightarrow> ineligible
                | Some st' \<Rightarrow>
                    (case apply_requirements E attributes (take 16 (si_requirements i)) st' of
                       None \<Rightarrow> ineligible
                     | Some (boost, reasons) \<Rightarrow>
                         \<lparr> se_eligible = True, se_boost = js_min (dec 7 (- 1)) boost, se_reasons = reasons \<rparr>))))"


section \<open>Eligibility\<close>

text \<open>Specification: what the currency, the budget and a requirement ask of an offer.\<close>

definition currency_ok :: "(jstr \<times> json) list \<Rightarrow> jstr option \<Rightarrow> bool" where
  "currency_ok terms requested \<longleftrightarrow>
     (\<forall>c. requested = Some c \<longrightarrow> member terms ''currency'' = Some (JStr c) \<and> length c = 3 \<and> list_all is_upper c)"

definition budget_ok :: "jsnum option \<Rightarrow> jsnum option \<Rightarrow> jsnum option \<Rightarrow> bool" where
  "budget_ok amount minimum maximum \<longleftrightarrow>
     (minimum \<noteq> None \<or> maximum \<noteq> None \<longrightarrow>
        (\<exists>a. amount = Some a \<and> (\<forall>m. minimum = Some m \<longrightarrow> \<not> num_less a m) \<and>
           (\<forall>m. maximum = Some m \<longrightarrow> \<not> num_less m a)))"

definition requirement_ok :: "engine \<Rightarrow> (jstr \<times> json) list \<Rightarrow> ShoppingIntentRequirement \<Rightarrow> bool" where
  "requirement_ok E attributes r \<longleftrightarrow>
     (case sr_mode r of
        Prefer \<Rightarrow> True
      | Must \<Rightarrow> (\<exists>vs. requirement_values E attributes r = Some vs \<and>
          (\<exists>v \<in> set vs. matchesRequirement E v (sr_value r) (sr_operator r)))
      | Exclude \<Rightarrow> (\<exists>vs. requirement_values E attributes r = Some vs \<and>
          (\<forall>v \<in> set vs. \<not> matchesRequirement E v (sr_value r) (sr_operator r))))"

lemma apply_requirement_None:
  "apply_requirement E attributes r st = None \<longleftrightarrow> \<not> requirement_ok E attributes r"
  by (cases "sr_mode r"; cases "requirement_values E attributes r")
     (auto simp: apply_requirement_def requirement_ok_def list_ex_iff Let_def split: prod.split)

lemma apply_requirements_None:
  "apply_requirements E attributes rs st = None \<longleftrightarrow> \<not> list_all (requirement_ok E attributes) rs"
proof (induction rs arbitrary: st)
  case (Cons r rs)
  show ?case
    using apply_requirement_None [of E attributes r st] Cons
    by (cases "apply_requirement E attributes r st") auto
qed simp

lemma currency_step_None: "currency_step E terms requested st = None \<longleftrightarrow> \<not> currency_ok terms requested"
  by (cases requested; cases "as_string (member terms ''currency'')")
     (auto simp: currency_step_def currency_ok_def as_simps)

lemma budget_step_None:
  "budget_step E amount budget st = None \<longleftrightarrow>
     \<not> budget_ok amount (case budget of Some b \<Rightarrow> sb_minimum b | None \<Rightarrow> None)
         (case budget of Some b \<Rightarrow> sb_maximum b | None \<Rightarrow> None)"
  by (cases budget; cases amount) (auto simp: budget_step_def budget_ok_def Let_def split: option.splits)

section \<open>Invariants of the evaluation\<close>

text \<open>
  A property of the boost and the reasons that holds at the start and is kept whenever a weight
  is added together with a reason holds of the result. The locale states this once; it is
  interpreted for the shape of the reasons and for the range of the boost.
\<close>

definition weights :: "jsnum set" where
  "weights = {dec 8 (- 2), dec 16 (- 2), dec 24 (- 2)}"

locale intent_invariant =
  fixes E :: engine and I :: "jsnum \<times> jstr list \<Rightarrow> bool"
  assumes start: "I (num_of_int 0, [])"
    and kept: "I (boost, reasons) \<Longrightarrow> w \<in> weights \<Longrightarrow> I (num_add E boost w, addReason reasons t)"
begin

lemma requirement_kept: "I st \<Longrightarrow> apply_requirement E attributes r st = Some st' \<Longrightarrow> I st'"
  by (auto simp: apply_requirement_def Let_def weights_def intro!: kept split: prod.splits option.splits if_splits)

lemma requirements_kept: "I st \<Longrightarrow> apply_requirements E attributes rs st = Some st' \<Longrightarrow> I st'"
  by (induction rs arbitrary: st) (auto intro: requirement_kept split: option.splits)

lemma currency_kept: "I st \<Longrightarrow> currency_step E terms requested st = Some st' \<Longrightarrow> I st'"
  by (cases st) (auto simp: currency_step_def weights_def intro!: kept split: option.splits if_splits)

lemma budget_kept: "I st \<Longrightarrow> budget_step E amount budget st = Some st' \<Longrightarrow> I st'"
  by (cases st) (auto simp: budget_step_def Let_def weights_def intro!: kept split: option.splits if_splits)

lemma evaluation_kept:
  "\<exists>boost. I (boost, se_reasons (evaluateShoppingIntent E attributes terms intent)) \<and>
     (se_boost (evaluateShoppingIntent E attributes terms intent) = num_of_int 0 \<or>
      se_boost (evaluateShoppingIntent E attributes terms intent) = js_min (dec 7 (- 1)) boost)"
proof -
  have zero: "\<exists>boost. I (boost, [])" using start by blast
  show ?thesis
    using zero start requirements_kept [OF budget_kept [OF currency_kept [OF start]]]
    by (auto simp: evaluateShoppingIntent_def ineligible_def split: option.splits) blast+
qed

end

definition reasons_ok :: "jstr list \<Rightarrow> bool" where
  "reasons_ok rs \<longleftrightarrow>
     length rs \<le> MAX_INTENT_REASONS \<and> list_all (\<lambda>r. r \<noteq> [] \<and> length r \<le> MAX_INTENT_REASON_CHARACTERS) rs"

lemma addReason_ok: "reasons_ok rs \<Longrightarrow> reasons_ok (addReason rs t)"
  by (auto simp: reasons_ok_def addReason_def Let_def)

interpretation reasons: intent_invariant E "\<lambda>(boost, rs). reasons_ok rs" for E
  by unfold_locales (simp_all add: addReason_ok, simp add: reasons_ok_def)

text \<open>Floating-point addition of non-negative finite numbers is non-negative and does not overflow here.\<close>

definition in_range :: "jsnum \<Rightarrow> bool" where
  "in_range x \<longleftrightarrow> is_finite x \<and> 0 \<le> num_val x"

definition add_law :: "engine \<Rightarrow> bool" where
  "add_law E \<longleftrightarrow> (\<forall>x w. in_range x \<and> w \<in> weights \<longrightarrow> in_range (num_add E x w))"

interpretation boosts: intent_invariant E "\<lambda>(boost, rs). add_law E \<longrightarrow> in_range boost" for E
  by unfold_locales (auto simp: in_range_def add_law_def is_integer_finite num_val_integer)

lemma js_min_range:
  assumes "in_range x"
  shows "in_range (js_min (dec 7 (- 1)) x) \<and> num_val (js_min (dec 7 (- 1)) x) \<le> 7 / 10"
proof -
  have "dec 7 (- 1) = Dec 7 (- 1)" by (simp add: dec.simps)
  with assms show ?thesis by (cases x) (auto simp: in_range_def js_min_def)
qed

lemma trim_suffix: "\<exists>a b. s = a @ trim s @ b \<and> list_all is_space a \<and> list_all is_space b"
proof -
  let ?t = "dropWhile is_space s"
  have "s = takeWhile is_space s @ ?t" by simp
  moreover have "rev ?t = takeWhile is_space (rev ?t) @ dropWhile is_space (rev ?t)" by simp
  then have "?t = trim s @ rev (takeWhile is_space (rev ?t))"
    unfolding trim_def by (metis rev_append rev_rev_ident)
  ultimately have "s = takeWhile is_space s @ trim s @ rev (takeWhile is_space (rev ?t))" by metis
  moreover have "list_all is_space (takeWhile is_space s)" "list_all is_space (rev (takeWhile is_space (rev ?t)))"
    by (auto simp: list_all_iff dest: set_takeWhileD)
  ultimately show ?thesis by blast
qed

lemma space_plain: "is_space c \<Longrightarrow> c < 65536 \<and> \<not> is_high c \<and> \<not> is_low c"
  by (auto simp: is_space_def is_high_def is_low_def)

lemma wf16_spaces: "list_all is_space a \<Longrightarrow> wf16 (a @ s) \<longleftrightarrow> wf16 s"
  by (induction a) (auto simp: wf16_single dest: space_plain)

lemma wf16_drop_end: "wf16 (s @ b) \<Longrightarrow> list_all is_space b \<Longrightarrow> wf16 s"
proof (induction "s @ b" arbitrary: s rule: wf16_induct)
  case (single c t)
  then show ?case by (cases s) (auto simp: wf16_single)
next
  case (pair c d t)
  show ?case
  proof (cases s)
    case (Cons c' s')
    with pair show ?thesis
      by (cases s') (auto simp: wf16_pair dest: space_plain)
  qed simp
qed simp

lemma wf16_trim: "wf16 s \<Longrightarrow> wf16 (trim s)"
  using trim_suffix [of s] wf16_spaces wf16_drop_end by metis

lemma wf16_take:
  "wf16 s \<Longrightarrow> wf16 (take n s) \<or> (\<exists>t h. take n s = t @ [h] \<and> is_high h \<and> wf16 t)"
proof (induction s arbitrary: n rule: wf16_induct)
  case (single c s)
  show ?case
  proof (cases n)
    case (Suc m)
    with single.IH [of m] single.hyps show ?thesis
      by (auto simp: wf16_single)
  qed simp
next
  case (pair c d s)
  consider "n = 0" | "n = 1" | m where "n = Suc (Suc m)" by (metis One_nat_def not0_implies_Suc)
  then show ?case
  proof cases
    case 2
    with pair have "take n (c # d # s) = [] @ [c]" "is_high c" by simp_all
    then show ?thesis by (metis wf16.simps(1))
  next
    case 3
    with pair.IH [of m] pair.hyps show ?thesis
      by (auto simp: wf16_pair)
  qed simp
qed simp

lemma wf16_last: "wf16 (s @ [h]) \<Longrightarrow> \<not> is_high h"
proof (induction "s @ [h]" arbitrary: s rule: wf16_induct)
  case (single c t)
  then show ?case by (cases s) auto
next
  case (pair c d t)
  show ?case
  proof (cases s)
    case (Cons c' s')
    with pair show ?thesis by (cases s') (auto dest: is_high_not_low)
  qed (use pair in simp)
qed simp

lemma addReason_wf16: "list_all wf16 rs \<Longrightarrow> wf16 t \<Longrightarrow> list_all wf16 (addReason rs t)"
proof -
  assume rs: "list_all wf16 rs" and "wf16 t"
  let ?cut = "take MAX_INTENT_REASON_CHARACTERS (trim t)"
  from wf16_take [OF wf16_trim [OF \<open>wf16 t\<close>]]
  consider "wf16 ?cut" | u h where "?cut = u @ [h]" "is_high h" "wf16 u" by blast
  then have "wf16 (if ?cut \<noteq> [] \<and> is_high (last ?cut) then butlast ?cut else ?cut)"
  proof cases
    case 1
    then show ?thesis using wf16_last by (metis append_butlast_last_id)
  next
    case 2
    then show ?thesis by simp
  qed
  with rs show ?thesis by (simp add: addReason_def Let_def)
qed

lemma evaluation_range:
  assumes law: "add_law E"
  shows "0 \<le> num_val (se_boost (evaluateShoppingIntent E attributes terms intent)) \<and>
    num_val (se_boost (evaluateShoppingIntent E attributes terms intent)) \<le> 7 / 10 \<and>
    is_finite (se_boost (evaluateShoppingIntent E attributes terms intent)) \<and>
    reasons_ok (se_reasons (evaluateShoppingIntent E attributes terms intent))"
proof -
  let ?v = "evaluateShoppingIntent E attributes terms intent"
  obtain b where b: "in_range b" and v: "se_boost ?v = num_of_int 0 \<or> se_boost ?v = js_min (dec 7 (- 1)) b"
    using boosts.evaluation_kept [of E attributes terms intent] law by (auto simp only: prod.case simp_thms)
  have "in_range (num_of_int 0)" by (simp add: in_range_def is_integer_finite num_val_integer)
  with v js_min_range [OF b] have "in_range (se_boost ?v) \<and> num_val (se_boost ?v) \<le> 7 / 10"
    by (elim disjE) (simp_all add: num_val_integer)
  moreover have "reasons_ok (se_reasons ?v)"
    using reasons.evaluation_kept [of E attributes terms intent] by (auto simp only: prod.case)
  ultimately show ?thesis by (simp add: in_range_def)
qed

section \<open>Claims\<close>

text \<open>
  An offer is eligible for an intent exactly when its currency is the requested one (a
  canonical three-letter code), its price lies within the budget when one is given, every
  required value among the first sixteen requirements is matched and no excluded one is; a
  field that the offer does not have satisfies neither, a preference never excludes.
\<close>

theorem eligible_iff:
  "se_eligible (evaluateShoppingIntent E attributes terms (Some intent)) \<longleftrightarrow>
     currency_ok terms (case si_budget intent of Some b \<Rightarrow> sb_currency b | None \<Rightarrow> None) \<and>
     budget_ok (majorPrice E terms) (case si_budget intent of Some b \<Rightarrow> sb_minimum b | None \<Rightarrow> None)
       (case si_budget intent of Some b \<Rightarrow> sb_maximum b | None \<Rightarrow> None) \<and>
     list_all (requirement_ok E attributes) (take 16 (si_requirements intent))"
proof -
  let ?b = "case si_budget intent of Some b \<Rightarrow> sb_currency b | None \<Rightarrow> None"
  let ?c = "currency_step E terms ?b (num_of_int 0, [])"
  let ?rs = "take 16 (si_requirements intent)"
  show ?thesis
  proof (cases ?c)
    case None
    then show ?thesis
      using currency_step_None [of E terms ?b] by (simp add: evaluateShoppingIntent_def ineligible_def)
  next
    case c: (Some st)
    then have co: "currency_ok terms ?b" using currency_step_None [of E terms ?b] by (metis option.distinct(1))
    show ?thesis
    proof (cases "budget_step E (majorPrice E terms) (si_budget intent) st")
      case None
      moreover from this have "\<not> budget_ok (majorPrice E terms) (case si_budget intent of Some b \<Rightarrow> sb_minimum b | None \<Rightarrow> None)
          (case si_budget intent of Some b \<Rightarrow> sb_maximum b | None \<Rightarrow> None)"
        by (simp only: budget_step_None simp_thms)
      ultimately show ?thesis using c by (simp add: evaluateShoppingIntent_def ineligible_def)
    next
      case b: (Some st')
      then have bo: "budget_ok (majorPrice E terms) (case si_budget intent of Some b \<Rightarrow> sb_minimum b | None \<Rightarrow> None)
          (case si_budget intent of Some b \<Rightarrow> sb_maximum b | None \<Rightarrow> None)"
        using budget_step_None by (metis option.distinct(1))
      show ?thesis
        using b c co bo apply_requirements_None [of E attributes ?rs st']
        by (cases "apply_requirements E attributes ?rs st'")
           (simp_all add: evaluateShoppingIntent_def ineligible_def split: prod.split)
    qed
  qed
qed

text \<open>
  The boost of an evaluation lies between 0 and 0.7, and there are at most eight reasons,
  each of 1 to 500 code units, whatever the intent and the offer contain.
\<close>

theorem evaluation_bounded:
  assumes "add_law E"
  shows "0 \<le> num_val (se_boost (evaluateShoppingIntent E attributes terms intent)) \<and>
    num_val (se_boost (evaluateShoppingIntent E attributes terms intent)) \<le> 7 / 10 \<and>
    is_finite (se_boost (evaluateShoppingIntent E attributes terms intent)) \<and>
    reasons_ok (se_reasons (evaluateShoppingIntent E attributes terms intent))"
  by (rule evaluation_range [OF assms])

definition example_engine :: engine where
  "example_engine = \<lparr> to_locale_lower = to_lower, number_of_text = (\<lambda>_. NumNaN), num_add = (\<lambda>x w. w),
     scaled_amount = (\<lambda>n k. num_of_int (int n)) \<rparr>"

lemma example_add_law: "add_law example_engine"
proof -
  have "dec 8 (- 2) = Dec 8 (- 2)" "dec 16 (- 2) = Dec 16 (- 2)" "dec 24 (- 2) = Dec 24 (- 2)"
    by (simp_all add: dec.simps)
  then show ?thesis by (auto simp: add_law_def example_engine_def weights_def in_range_def)
qed

theorem evaluation_bounded_witness:
  "0 \<le> num_val (se_boost (evaluateShoppingIntent example_engine [] [] None)) \<and>
   reasons_ok (se_reasons (evaluateShoppingIntent example_engine [] [] None))"
proof -
  from evaluation_bounded [OF example_add_law, of "[]" "[]" None] show ?thesis by blast
qed

end
