(* ===== verification/Ranking_Gateway.thy ===== *)
theory Ranking_Gateway
  imports Shopping_Intent Body_Limit Router_Contract
begin

text \<open>
  The gateway to the lexical ranking kernel, after \<open>web/src/storefront-ranking-gateway.ts\<close> and
  \<open>web/src/storefront-ranking-contract.ts\<close>: candidates are cut into batches bounded in number and
  in bytes, at most four workers post the batches concurrently, and every answer is validated
  before it is used. The network (\<open>fetch\<close>), the URL parser and printer and the loading of the
  bearer token are arguments. The worker pool is a step relation: each step is one turn of the
  event loop.
\<close>

section \<open>Contract\<close>

definition MAX_LEXICAL_RANK_BATCH_CANDIDATES :: nat where "MAX_LEXICAL_RANK_BATCH_CANDIDATES = 64"
definition MAX_LEXICAL_RANK_TOTAL_CANDIDATES :: nat where "MAX_LEXICAL_RANK_TOTAL_CANDIDATES = 2000"
definition MAX_LEXICAL_RANK_REQUEST_BYTES :: nat where "MAX_LEXICAL_RANK_REQUEST_BYTES = 700 * 1024"
definition MAX_LEXICAL_RANK_RESPONSE_BYTES :: nat where "MAX_LEXICAL_RANK_RESPONSE_BYTES = 700 * 1024"
definition MAX_LEXICAL_RANK_NARRATIVE_CHARACTERS :: nat where "MAX_LEXICAL_RANK_NARRATIVE_CHARACTERS = 8000"
definition MAX_LEXICAL_RANK_NAME_CHARACTERS :: nat where "MAX_LEXICAL_RANK_NAME_CHARACTERS = 512"
definition MAX_LEXICAL_RANK_DESCRIPTION_CHARACTERS :: nat where "MAX_LEXICAL_RANK_DESCRIPTION_CHARACTERS = 8000"
definition MAX_LEXICAL_RANK_INTENT_REASONS :: nat where "MAX_LEXICAL_RANK_INTENT_REASONS = 8"
definition MAX_LEXICAL_RANK_REASON_CHARACTERS :: nat where "MAX_LEXICAL_RANK_REASON_CHARACTERS = 500"
definition MAX_LEXICAL_RANK_OVERLAP_COUNT :: int where "MAX_LEXICAL_RANK_OVERLAP_COUNT = 512"
definition MAX_LEXICAL_RANK_OVERLAP_LABELS :: nat where "MAX_LEXICAL_RANK_OVERLAP_LABELS = 8"
definition MAX_LEXICAL_RANK_LABEL_CHARACTERS :: nat where "MAX_LEXICAL_RANK_LABEL_CHARACTERS = 500"
definition MAX_LEXICAL_RANK_CONCURRENCY :: nat where "MAX_LEXICAL_RANK_CONCURRENCY = 4"

definition LEXICAL_RANK_ADVISORY :: jstr where
  "LEXICAL_RANK_ADVISORY = js ''Matching results are recommendations only; they grant no authorization, contact consent, payment authority, contractual acceptance, or other right.''"

record PreparedLexicalRankCandidate =
  pr_displayName :: jstr
  pr_description :: jstr
  pr_eligible :: bool
  pr_intentBoost :: jsnum
  pr_intentReasons :: "jstr list"

record GatewayLexicalRankedCandidate =
  gr_candidateIndex :: nat
  gr_score :: jsnum
  gr_overlapCount :: int
  gr_overlapLabels :: "jstr list"

datatype PublicStorefrontRankingFailureKind =
    Configuration | Request_too_large | Timeout | Network | Upstream_http | Response_too_large | Malformed_response

record PublicStorefrontRankingError =
  er_kind :: PublicStorefrontRankingFailureKind
  er_batchIndex :: "nat option"
  er_candidateIndex :: "nat option"
  er_actualBytes :: "nat option"
  er_maximumBytes :: "nat option"
  er_status :: "nat option"

definition ranking_error :: "PublicStorefrontRankingFailureKind \<Rightarrow> PublicStorefrontRankingError" where
  "ranking_error kind = \<lparr> er_kind = kind, er_batchIndex = None, er_candidateIndex = None, er_actualBytes = None,
     er_maximumBytes = None, er_status = None \<rparr>"

type_synonym 'a ranking_result = "PublicStorefrontRankingError + 'a"

section \<open>Batches\<close>

record LexicalRankBatch =
  lb_body :: jstr
  lb_candidateIndexes :: "nat list"
  lb_candidates :: "PreparedLexicalRankCandidate list"

definition utf8Bytes :: "jstr \<Rightarrow> nat" where
  "utf8Bytes v = length (utf8_encode v)"

definition toRequestCandidate :: "PreparedLexicalRankCandidate \<Rightarrow> json" where
  "toRequestCandidate c = JObj
     [(js ''display_name'', JStr (pr_displayName c)), (js ''description'', JStr (pr_description c)),
      (js ''eligible'', JBool (pr_eligible c)), (js ''intent_boost'', JNum (pr_intentBoost c)),
      (js ''intent_reasons'', JArr (map JStr (pr_intentReasons c)))]"

definition batch_body :: "jstr \<Rightarrow> PreparedLexicalRankCandidate list \<Rightarrow> jstr" where
  "batch_body narrative candidates =
     stringify (JObj [(js ''narrative'', JStr narrative), (js ''candidates'', JArr (map toRequestCandidate candidates))])"

text \<open>The maximum \<open>None\<close> is \<open>Number.POSITIVE_INFINITY\<close>.\<close>

definition serializeBatch ::
    "jstr \<Rightarrow> PreparedLexicalRankCandidate list \<Rightarrow> nat list \<Rightarrow> nat option \<Rightarrow> LexicalRankBatch ranking_result" where
  "serializeBatch narrative candidates candidateIndexes maximumBytes =
     (let body = batch_body narrative candidates
      in case maximumBytes of
           Some m \<Rightarrow>
             if m < utf8Bytes body
             then Inl ((ranking_error Request_too_large)\<lparr>
                    er_candidateIndex := (if length candidateIndexes = 1 then Some (hd candidateIndexes) else None),
                    er_actualBytes := Some (utf8Bytes body), er_maximumBytes := Some m \<rparr>)
             else Inr \<lparr> lb_body = body, lb_candidateIndexes = candidateIndexes, lb_candidates = candidates \<rparr>
         | None \<Rightarrow> Inr \<lparr> lb_body = body, lb_candidateIndexes = candidateIndexes, lb_candidates = candidates \<rparr>)"

definition candidate_in_bounds :: "PreparedLexicalRankCandidate \<Rightarrow> bool" where
  "candidate_in_bounds c \<longleftrightarrow>
     scalarLength (pr_displayName c) \<le> MAX_LEXICAL_RANK_NAME_CHARACTERS \<and>
     scalarLength (pr_description c) \<le> MAX_LEXICAL_RANK_DESCRIPTION_CHARACTERS \<and>
     is_finite (pr_intentBoost c) \<and> 0 \<le> num_val (pr_intentBoost c) \<and> num_val (pr_intentBoost c) \<le> 7 / 10 \<and>
     length (pr_intentReasons c) \<le> MAX_LEXICAL_RANK_INTENT_REASONS \<and>
     list_all (\<lambda>r. scalarLength r \<le> MAX_LEXICAL_RANK_REASON_CHARACTERS) (pr_intentReasons c)"

fun first_out_of_bounds :: "nat \<Rightarrow> PreparedLexicalRankCandidate list \<Rightarrow> nat option" where
  "first_out_of_bounds i [] = None"
| "first_out_of_bounds i (c # cs) = (if candidate_in_bounds c then first_out_of_bounds (Suc i) cs else Some i)"

definition assertRequestInput :: "jstr \<Rightarrow> PreparedLexicalRankCandidate list \<Rightarrow> unit ranking_result" where
  "assertRequestInput narrative candidates =
     (if MAX_LEXICAL_RANK_NARRATIVE_CHARACTERS < scalarLength narrative \<or>
         MAX_LEXICAL_RANK_TOTAL_CANDIDATES < length candidates
      then Inl (ranking_error Request_too_large)
      else case first_out_of_bounds 0 candidates of
        Some i \<Rightarrow> Inl ((ranking_error Request_too_large)\<lparr> er_candidateIndex := Some i \<rparr>)
      | None \<Rightarrow> Inr ())"

type_synonym build_state = "LexicalRankBatch list \<times> PreparedLexicalRankCandidate list \<times> nat list"

definition flush_batch :: "jstr \<Rightarrow> nat \<Rightarrow> build_state \<Rightarrow> build_state ranking_result" where
  "flush_batch narrative maximumBytes st =
     (case st of (batches, cs, ix) \<Rightarrow>
        if cs = [] then Inr st
        else rbind (serializeBatch narrative cs ix (Some maximumBytes)) (\<lambda>b. Inr (batches @ [b], [], [])))"

fun build_loop ::
    "jstr \<Rightarrow> nat \<Rightarrow> nat \<Rightarrow> PreparedLexicalRankCandidate list \<Rightarrow> build_state \<Rightarrow> build_state ranking_result" where
  "build_loop narrative maximumBytes i [] st = Inr st"
| "build_loop narrative maximumBytes i (c # rest) st =
     rbind (if length (fst (snd st)) = MAX_LEXICAL_RANK_BATCH_CANDIDATES then flush_batch narrative maximumBytes st
            else Inr st) (\<lambda>st'. case st' of (batches, cs, ix) \<Rightarrow>
     rbind (serializeBatch narrative (cs @ [c]) (ix @ [i]) None) (\<lambda>proposed.
     if utf8Bytes (lb_body proposed) \<le> maximumBytes
     then build_loop narrative maximumBytes (Suc i) rest (batches, cs @ [c], ix @ [i])
     else rbind (flush_batch narrative maximumBytes (batches, cs, ix)) (\<lambda>st''. case st'' of (batches', _, _) \<Rightarrow>
          rbind (serializeBatch narrative [c] [i] None) (\<lambda>single.
          if maximumBytes < utf8Bytes (lb_body single)
          then Inl ((ranking_error Request_too_large)\<lparr> er_candidateIndex := Some i,
                 er_actualBytes := Some (utf8Bytes (lb_body single)), er_maximumBytes := Some maximumBytes \<rparr>)
          else build_loop narrative maximumBytes (Suc i) rest (batches', [c], [i])))))"

definition buildLexicalRankBatches ::
    "jstr \<Rightarrow> PreparedLexicalRankCandidate list \<Rightarrow> nat \<Rightarrow> LexicalRankBatch list ranking_result" where
  "buildLexicalRankBatches narrative candidates maximumBytes =
     rbind (assertRequestInput narrative candidates) (\<lambda>_.
     rbind (build_loop narrative maximumBytes 0 candidates ([], [], [])) (\<lambda>st.
     rbind (flush_batch narrative maximumBytes st) (\<lambda>st'. Inr (fst st'))))"

section \<open>Responses\<close>

definition malformed :: "nat \<Rightarrow> PublicStorefrontRankingError" where
  "malformed batchIndex = (ranking_error Malformed_response)\<lparr> er_batchIndex := Some batchIndex \<rparr>"

text \<open>\<open>record(value)\<close>: the members of an object, none for anything else.\<close>

definition record_of :: "json option \<Rightarrow> (jstr \<times> json) list" where
  "record_of v = (case as_record v of Some ms \<Rightarrow> ms | None \<Rightarrow> [])"

definition hasExactKeys :: "(jstr \<times> json) list \<Rightarrow> string list \<Rightarrow> bool" where
  "hasExactKeys ms expected \<longleftrightarrow>
     length (object_keys ms) = length expected \<and> list_all (\<lambda>k. has_own ms (js k)) expected"

definition is_control :: "nat \<Rightarrow> bool" where
  "is_control c \<longleftrightarrow> c \<le> 31 \<or> c = 127"

fun labels_ok :: "jstr list \<Rightarrow> json list \<Rightarrow> bool" where
  "labels_ok seen [] = True"
| "labels_ok seen (v # vs) =
     (case as_string (Some v) of
        None \<Rightarrow> False
      | Some label \<Rightarrow>
          if label = [] \<or> trim label \<noteq> label \<or> list_ex is_control label \<or>
             MAX_LEXICAL_RANK_LABEL_CHARACTERS < scalarLength label \<or> label \<in> set seen
          then False else labels_ok (seen @ [label]) vs)"

definition validOverlapLabels :: "json option \<Rightarrow> bool" where
  "validOverlapLabels v =
     (case as_array v of
        None \<Rightarrow> False
      | Some xs \<Rightarrow> length xs \<le> MAX_LEXICAL_RANK_OVERLAP_LABELS \<and> labels_ok [] xs)"

definition integer_between :: "json option \<Rightarrow> int \<Rightarrow> int \<Rightarrow> bool" where
  "integer_between v lo hi =
     (case as_number v of None \<Rightarrow> False | Some x \<Rightarrow> is_integer x \<and> lo \<le> num_int x \<and> num_int x \<le> hi)"

definition row_ok :: "LexicalRankBatch \<Rightarrow> nat list \<Rightarrow> (jstr \<times> json) list \<Rightarrow> bool" where
  "row_ok batch seen row \<longleftrightarrow>
     integer_between (member row ''candidate_index'') 0 (int (length (lb_candidates batch)) - 1) \<and>
     (let i = nat (num_int (the (as_number (member row ''candidate_index''))))
      in i \<notin> set seen \<and> pr_eligible (lb_candidates batch ! i)) \<and>
     (case as_number (member row ''score'') of
        None \<Rightarrow> False
      | Some score \<Rightarrow> is_finite score \<and> \<not> num_val score < 0 \<and> \<not> 99 / 100 < num_val score) \<and>
     integer_between (member row ''overlap_count'') 0 MAX_LEXICAL_RANK_OVERLAP_COUNT \<and>
     validOverlapLabels (member row ''overlap_labels'') \<and>
     int (length (the (as_array (member row ''overlap_labels'')))) \<le>
       num_int (the (as_number (member row ''overlap_count''))) \<and>
     member row ''advisory'' = Some (JStr LEXICAL_RANK_ADVISORY)"

fun validate_rows ::
    "LexicalRankBatch \<Rightarrow> nat \<Rightarrow> nat list \<Rightarrow> json list \<Rightarrow> GatewayLexicalRankedCandidate list ranking_result" where
  "validate_rows batch batchIndex seen [] = Inr []"
| "validate_rows batch batchIndex seen (v # vs) =
     (let row = record_of (Some v)
      in if \<not> hasExactKeys row [''candidate_index'', ''score'', ''overlap_count'', ''overlap_labels'', ''advisory'']
         then Inl (malformed batchIndex)
         else if \<not> row_ok batch seen row then Inl (malformed batchIndex)
         else
           let i = nat (num_int (the (as_number (member row ''candidate_index''))))
           in rbind (validate_rows batch batchIndex (i # seen) vs) (\<lambda>rest.
              Inr (\<lparr> gr_candidateIndex = lb_candidateIndexes batch ! i,
                     gr_score = the (as_number (member row ''score'')),
                     gr_overlapCount = num_int (the (as_number (member row ''overlap_count''))),
                     gr_overlapLabels =
                       List.map_filter (\<lambda>x. as_string (Some x)) (the (as_array (member row ''overlap_labels''))) \<rparr> # rest)))"

definition validateResponse ::
    "json \<Rightarrow> LexicalRankBatch \<Rightarrow> nat \<Rightarrow> GatewayLexicalRankedCandidate list ranking_result" where
  "validateResponse payload batch batchIndex =
     (let response = record_of (Some payload)
      in if \<not> hasExactKeys response [''schema_version'', ''ranked''] \<or>
            member response ''schema_version'' \<noteq> Some (JNum (num_of_int 1))
         then Inl (malformed batchIndex)
         else case as_array (member response ''ranked'') of
           None \<Rightarrow> Inl (malformed batchIndex)
         | Some rows \<Rightarrow>
             if length (lb_candidates batch) < length rows then Inl (malformed batchIndex)
             else validate_rows batch batchIndex [] rows)"

definition isJsonContentType :: "engine \<Rightarrow> jstr option \<Rightarrow> bool" where
  "isJsonContentType E v =
     (case v of
        None \<Rightarrow> False
      | Some s \<Rightarrow> to_locale_lower E (trim (hd (split_on 59 s))) = js ''application/json'')"

record gateway_response =
  gw_ok :: bool
  gw_status :: nat
  gw_contentType :: "jstr option"
  gw_message :: http_message

text \<open>The fetch throws (\<open>None\<close>) or answers; an answer whose body never ends leaves the batch pending.\<close>

definition executeBatch ::
    "engine \<Rightarrow> (jstr \<Rightarrow> gateway_response option) \<Rightarrow> LexicalRankBatch \<Rightarrow> nat \<Rightarrow>
     GatewayLexicalRankedCandidate list ranking_result option" where
  "executeBatch E post batch batchIndex =
     (case post (lb_body batch) of
        None \<Rightarrow> Some (Inl ((ranking_error Network)\<lparr> er_batchIndex := Some batchIndex \<rparr>))
      | Some response \<Rightarrow>
          if \<not> gw_ok response
          then Some (Inl ((ranking_error Upstream_http)\<lparr> er_batchIndex := Some batchIndex, er_status := Some (gw_status response) \<rparr>))
          else if \<not> isJsonContentType E (gw_contentType response) then Some (Inl (malformed batchIndex))
          else case fst (readJsonResponseBody (gw_message response) MAX_LEXICAL_RANK_RESPONSE_BYTES None) of
            None \<Rightarrow> None
          | Some (Inl (ResponseBodyTooLargeError _)) \<Rightarrow>
              Some (Inl ((ranking_error Response_too_large)\<lparr> er_batchIndex := Some batchIndex \<rparr>))
          | Some (Inl _) \<Rightarrow> Some (Inl ((ranking_error Malformed_response)\<lparr> er_batchIndex := Some batchIndex \<rparr>))
          | Some (Inr payload) \<Rightarrow> Some (validateResponse payload batch batchIndex))"

section \<open>Configuration\<close>

definition LEXICAL_RANK_PATH :: jstr where
  "LEXICAL_RANK_PATH = js ''/v1/internal/matching/lexical-rank''"

definition configuredEndpoint :: "platform \<Rightarrow> (url \<Rightarrow> jstr) \<Rightarrow> jstr \<Rightarrow> jstr ranking_result" where
  "configuredEndpoint P url_print configured =
     (case url_parse P (trim configured) of
        None \<Rightarrow> Inl (ranking_error Configuration)
      | Some endpoint \<Rightarrow>
          if url_protocol endpoint \<notin> {js ''http:'', js ''https:''} \<or> url_username endpoint \<noteq> [] \<or>
             url_password endpoint \<noteq> [] \<or> url_search endpoint \<noteq> [] \<or> url_hash endpoint \<noteq> []
          then Inl (ranking_error Configuration)
          else Inr (url_print (endpoint\<lparr> url_pathname := strip_slashes (url_pathname endpoint) @ LEXICAL_RANK_PATH \<rparr>)))"

definition configuredBearer :: "jstr option \<Rightarrow> jstr ranking_result" where
  "configuredBearer loaded =
     (case loaded of
        None \<Rightarrow> Inl (ranking_error Configuration)
      | Some bearer \<Rightarrow>
          if bearer = [] \<or> 8192 < length bearer \<or> list_ex is_control bearer
          then Inl (ranking_error Configuration) else Inr bearer)"

definition normalizeFailure :: "PublicStorefrontRankingError \<Rightarrow> bool \<Rightarrow> PublicStorefrontRankingError" where
  "normalizeFailure error timedOut = (if timedOut then ranking_error Timeout else error)"

section \<open>The worker pool\<close>

datatype worker = Ready | Running nat | Finished | Failed

record pool =
  pl_nextBatch :: nat
  pl_workers :: "worker list"
  pl_ranked :: "GatewayLexicalRankedCandidate list"
  pl_firstFailure :: "PublicStorefrontRankingError option"
  pl_timedOut :: bool
  pl_settled :: "GatewayLexicalRankedCandidate list ranking_result option"

definition start_pool :: "nat \<Rightarrow> pool" where
  "start_pool n = \<lparr> pl_nextBatch = 0, pl_workers = replicate (min MAX_LEXICAL_RANK_CONCURRENCY n) Ready,
     pl_ranked = [], pl_firstFailure = None, pl_timedOut = False, pl_settled = None \<rparr>"

definition note_failure :: "PublicStorefrontRankingError \<Rightarrow> pool \<Rightarrow> pool" where
  "note_failure e s =
     (let f = (case pl_firstFailure s of Some f \<Rightarrow> f | None \<Rightarrow> e)
      in s\<lparr> pl_firstFailure := Some f,
           pl_settled := (case pl_settled s of Some r \<Rightarrow> Some r
             | None \<Rightarrow> Some (Inl (normalizeFailure f (pl_timedOut s)))) \<rparr>)"

text \<open>
  One turn of the event loop, for \<open>n\<close> batches whose possible results are \<open>exec\<close>: a worker takes
  the next batch (\<open>nextBatch++\<close>), ends for want of batches, ends because another failed, appends
  the rows of its batch or fails; the deadline fires; all workers have ended and the ranking is
  returned. The first failure settles the call.
\<close>

inductive pool_step :: "nat \<Rightarrow> (nat \<Rightarrow> GatewayLexicalRankedCandidate list ranking_result \<Rightarrow> bool) \<Rightarrow> pool \<Rightarrow> pool \<Rightarrow> bool"
  for n exec where
  take_batch: "k < length (pl_workers s) \<Longrightarrow> pl_workers s ! k = Ready \<Longrightarrow> pl_firstFailure s = None \<Longrightarrow>
     pl_nextBatch s < n \<Longrightarrow>
     pool_step n exec s (s\<lparr> pl_nextBatch := Suc (pl_nextBatch s),
       pl_workers := (pl_workers s)[k := Running (pl_nextBatch s)] \<rparr>)"
| no_batch: "k < length (pl_workers s) \<Longrightarrow> pl_workers s ! k = Ready \<Longrightarrow> pl_firstFailure s = None \<Longrightarrow>
     n \<le> pl_nextBatch s \<Longrightarrow>
     pool_step n exec s (s\<lparr> pl_nextBatch := Suc (pl_nextBatch s), pl_workers := (pl_workers s)[k := Finished] \<rparr>)"
| give_up: "k < length (pl_workers s) \<Longrightarrow> pl_workers s ! k = Ready \<Longrightarrow> pl_firstFailure s \<noteq> None \<Longrightarrow>
     pool_step n exec s (s\<lparr> pl_workers := (pl_workers s)[k := Finished] \<rparr>)"
| batch_ranked: "k < length (pl_workers s) \<Longrightarrow> pl_workers s ! k = Running i \<Longrightarrow> exec i (Inr rows) \<Longrightarrow>
     pool_step n exec s (s\<lparr> pl_ranked := pl_ranked s @ rows, pl_workers := (pl_workers s)[k := Ready] \<rparr>)"
| batch_failed: "k < length (pl_workers s) \<Longrightarrow> pl_workers s ! k = Running i \<Longrightarrow> exec i (Inl e) \<Longrightarrow>
     pool_step n exec s (note_failure (normalizeFailure e (pl_timedOut s))
       (s\<lparr> pl_workers := (pl_workers s)[k := Failed] \<rparr>))"
| deadline: "pool_step n exec s (note_failure (ranking_error Timeout) (s\<lparr> pl_timedOut := True \<rparr>))"
| all_done: "pl_settled s = None \<Longrightarrow> list_all (\<lambda>x. x = Finished) (pl_workers s) \<Longrightarrow>
     pool_step n exec s (s\<lparr> pl_settled := Some (Inr (pl_ranked s)) \<rparr>)"

inductive_cases pool_stepE: "pool_step n exec s s'"

inductive pool_run :: "nat \<Rightarrow> (nat \<Rightarrow> GatewayLexicalRankedCandidate list ranking_result \<Rightarrow> bool) \<Rightarrow> pool \<Rightarrow> bool"
  for n exec where
  begin_run: "pool_run n exec (start_pool n)"
| step_run: "pool_run n exec s \<Longrightarrow> pool_step n exec s s' \<Longrightarrow> pool_run n exec s'"


section \<open>Batches cover the candidates\<close>

definition batch_ok :: "jstr \<Rightarrow> nat \<Rightarrow> PreparedLexicalRankCandidate list \<Rightarrow> LexicalRankBatch \<Rightarrow> bool" where
  "batch_ok narrative m all b \<longleftrightarrow>
     lb_candidates b = map ((!) all) (lb_candidateIndexes b) \<and> lb_candidates b \<noteq> [] \<and>
     length (lb_candidates b) \<le> MAX_LEXICAL_RANK_BATCH_CANDIDATES \<and>
     lb_body b = batch_body narrative (lb_candidates b) \<and> utf8Bytes (lb_body b) \<le> m"

definition build_inv :: "jstr \<Rightarrow> nat \<Rightarrow> PreparedLexicalRankCandidate list \<Rightarrow> nat \<Rightarrow> build_state \<Rightarrow> bool" where
  "build_inv narrative m all i st \<longleftrightarrow>
     (case st of (bs, cs, ix) \<Rightarrow>
        concat (map lb_candidateIndexes bs) @ ix = [0..<i] \<and> cs = map ((!) all) ix \<and>
        length cs \<le> MAX_LEXICAL_RANK_BATCH_CANDIDATES \<and> (cs \<noteq> [] \<longrightarrow> utf8Bytes (batch_body narrative cs) \<le> m) \<and>
        list_all (batch_ok narrative m all) bs)"

lemma serialize_unbounded [simp]:
  "serializeBatch narrative cs ix None = Inr \<lparr> lb_body = batch_body narrative cs, lb_candidateIndexes = ix, lb_candidates = cs \<rparr>"
  by (simp add: serializeBatch_def Let_def)

lemma flush_inv:
  assumes "build_inv narrative m all i st"
  obtains bs where "flush_batch narrative m st = Inr (bs, [], [])" "build_inv narrative m all i (bs, [], [])"
proof -
  obtain bs cs ix where st: "st = (bs, cs, ix)" by (cases st)
  show thesis
  proof (cases "cs = []")
    case True
    with assms st that show ?thesis by (auto simp: flush_batch_def build_inv_def)
  next
    case False
    with assms st have "serializeBatch narrative cs ix (Some m) =
        Inr \<lparr> lb_body = batch_body narrative cs, lb_candidateIndexes = ix, lb_candidates = cs \<rparr>"
      by (auto simp: serializeBatch_def Let_def build_inv_def)
    with assms st False that show ?thesis
      by (auto simp: flush_batch_def build_inv_def batch_ok_def)
  qed
qed

lemma build_loop_inv:
  assumes "build_inv narrative m all i st" and "drop i all = rest" and "i \<le> length all"
  shows "case build_loop narrative m i rest st of
      Inr st' \<Rightarrow> build_inv narrative m all (length all) st'
    | Inl e \<Rightarrow> \<exists>j < length all. er_kind e = Request_too_large \<and> er_candidateIndex e = Some j \<and>
        m < utf8Bytes (batch_body narrative [all ! j])"
  using assms
proof (induction rest arbitrary: i st)
  case Nil
  then have "i = length all" by simp
  with Nil show ?case by simp
next
  case (Cons c rest)
  have lt: "i < length all" using Cons.prems(2,3) by (cases "i = length all") auto
  with Cons.prems(2) have i: "i < length all" "all ! i = c" "drop (Suc i) all = rest" "Suc i \<le> length all"
    using Cons_nth_drop_Suc [OF lt] by auto
  obtain bs cs ix where st': "(if length (fst (snd st)) = MAX_LEXICAL_RANK_BATCH_CANDIDATES
      then flush_batch narrative m st else Inr st) = Inr (bs, cs, ix)"
    and inv: "build_inv narrative m all i (bs, cs, ix)" and short: "length cs < MAX_LEXICAL_RANK_BATCH_CANDIDATES"
  proof (cases "length (fst (snd st)) = MAX_LEXICAL_RANK_BATCH_CANDIDATES")
    case True
    obtain bs where "flush_batch narrative m st = Inr (bs, [], [])" "build_inv narrative m all i (bs, [], [])"
      by (rule flush_inv [OF Cons.prems(1)])
    with True that [of bs "[]" "[]"] show ?thesis by (simp add: MAX_LEXICAL_RANK_BATCH_CANDIDATES_def)
  next
    case False
    then show ?thesis
      using Cons.prems(1) that by (cases st) (auto simp: build_inv_def)
  qed
  show ?case
  proof (cases "utf8Bytes (batch_body narrative (cs @ [c])) \<le> m")
    case True
    then have "build_inv narrative m all (Suc i) (bs, cs @ [c], ix @ [i])"
      using inv short i by (auto simp: build_inv_def append_assoc [symmetric] simp del: append_assoc)
    with Cons.IH [OF this i(3,4)] st' True show ?thesis by simp
  next
    case False
    obtain bs' where f: "flush_batch narrative m (bs, cs, ix) = Inr (bs', [], [])"
      and inv': "build_inv narrative m all i (bs', [], [])"
      by (rule flush_inv [OF inv])
    show ?thesis
    proof (cases "utf8Bytes (batch_body narrative [c]) \<le> m")
      case fits: True
      then have "build_inv narrative m all (Suc i) (bs', [c], [i])"
        using inv' i by (simp add: build_inv_def MAX_LEXICAL_RANK_BATCH_CANDIDATES_def)
      with Cons.IH [OF this i(3,4)] st' False f fits show ?thesis by simp
    next
      case too_large: False
      with st' False f i show ?thesis by (auto simp: ranking_error_def)
    qed
  qed
qed

lemma build_batches:
  assumes "assertRequestInput narrative candidates = Inr ()"
  shows "case buildLexicalRankBatches narrative candidates m of
      Inr bs \<Rightarrow> concat (map lb_candidateIndexes bs) = [0..<length candidates] \<and>
        list_all (batch_ok narrative m candidates) bs
    | Inl e \<Rightarrow> \<exists>j < length candidates. er_kind e = Request_too_large \<and> er_candidateIndex e = Some j \<and>
        m < utf8Bytes (batch_body narrative [candidates ! j])"
proof -
  have "build_inv narrative m candidates 0 ([], [], [])" by (simp add: build_inv_def)
  note l = build_loop_inv [OF this, of candidates, simplified]
  show ?thesis
  proof (cases "build_loop narrative m 0 candidates ([], [], [])")
    case (Inl e)
    with l assms show ?thesis by (simp add: buildLexicalRankBatches_def)
  next
    case (Inr st)
    with l have inv: "build_inv narrative m candidates (length candidates) st" by simp
    then obtain bs where "flush_batch narrative m st = Inr (bs, [], [])"
      "build_inv narrative m candidates (length candidates) (bs, [], [])" by (rule flush_inv)
    with Inr assms show ?thesis by (simp add: buildLexicalRankBatches_def build_inv_def)
  qed
qed


section \<open>Validated rows\<close>

definition row_sound :: "GatewayLexicalRankedCandidate \<Rightarrow> bool" where
  "row_sound g \<longleftrightarrow>
     is_finite (gr_score g) \<and> 0 \<le> num_val (gr_score g) \<and> num_val (gr_score g) \<le> 99 / 100 \<and>
     int (length (gr_overlapLabels g)) \<le> gr_overlapCount g \<and> gr_overlapCount g \<le> MAX_LEXICAL_RANK_OVERLAP_COUNT \<and>
     length (gr_overlapLabels g) \<le> MAX_LEXICAL_RANK_OVERLAP_LABELS \<and> distinct (gr_overlapLabels g)"

lemma labels_ok_texts:
  "labels_ok seen xs \<Longrightarrow> distinct seen \<Longrightarrow>
     (\<exists>ls. xs = map JStr ls \<and> distinct (seen @ ls) \<and> List.map_filter (\<lambda>x. as_string (Some x)) xs = ls)"
proof (induction xs arbitrary: seen)
  case (Cons v vs)
  then obtain l where v: "v = JStr l" "l \<notin> set seen" "labels_ok (seen @ [l]) vs"
    by (auto simp: as_simps split: option.splits if_splits)
  with Cons.IH [of "seen @ [l]"] Cons.prems obtain ls where "vs = map JStr ls" "distinct ((seen @ [l]) @ ls)"
    "List.map_filter (\<lambda>x. as_string (Some x)) vs = ls" by auto
  with v show ?case by (intro exI [of _ "l # ls"]) (simp add: List.map_filter_def)
qed (simp add: List.map_filter_def)

lemma row_ok_sound:
  assumes "row_ok batch seen row"
  shows "row_sound \<lparr> gr_candidateIndex = j, gr_score = the (as_number (member row ''score'')),
       gr_overlapCount = num_int (the (as_number (member row ''overlap_count''))),
       gr_overlapLabels = List.map_filter (\<lambda>x. as_string (Some x)) (the (as_array (member row ''overlap_labels''))) \<rparr>"
    and "nat (num_int (the (as_number (member row ''candidate_index'')))) < length (lb_candidates batch)"
    and "nat (num_int (the (as_number (member row ''candidate_index'')))) \<notin> set seen"
    and "pr_eligible (lb_candidates batch ! nat (num_int (the (as_number (member row ''candidate_index'')))))"
proof -
  from assms obtain score where score: "as_number (member row ''score'') = Some score" "is_finite score"
    "0 \<le> num_val score" "num_val score \<le> 99 / 100"
    by (cases "as_number (member row ''score'')") (auto simp: row_ok_def not_less)
  from assms obtain xs where xs: "as_array (member row ''overlap_labels'') = Some xs"
    "length xs \<le> MAX_LEXICAL_RANK_OVERLAP_LABELS" "labels_ok [] xs"
    "int (length xs) \<le> num_int (the (as_number (member row ''overlap_count'')))"
    by (cases "as_array (member row ''overlap_labels'')") (auto simp: row_ok_def validOverlapLabels_def)
  from labels_ok_texts [OF xs(3)] obtain ls where ls: "xs = map JStr ls" "distinct ls"
    "List.map_filter (\<lambda>x. as_string (Some x)) xs = ls" by auto
  have "num_int (the (as_number (member row ''overlap_count''))) \<le> MAX_LEXICAL_RANK_OVERLAP_COUNT"
    using assms by (cases "as_number (member row ''overlap_count'')") (simp_all add: row_ok_def integer_between_def)
  with score xs ls show "row_sound \<lparr> gr_candidateIndex = j, gr_score = the (as_number (member row ''score'')),
       gr_overlapCount = num_int (the (as_number (member row ''overlap_count''))),
       gr_overlapLabels = List.map_filter (\<lambda>x. as_string (Some x)) (the (as_array (member row ''overlap_labels''))) \<rparr>"
    by (simp add: row_sound_def)
  show "nat (num_int (the (as_number (member row ''candidate_index'')))) < length (lb_candidates batch)"
    using assms
    by (cases "as_number (member row ''candidate_index'')") (auto simp: row_ok_def integer_between_def nat_less_iff)
  show "nat (num_int (the (as_number (member row ''candidate_index'')))) \<notin> set seen"
    "pr_eligible (lb_candidates batch ! nat (num_int (the (as_number (member row ''candidate_index'')))))"
    using assms by (simp_all add: row_ok_def Let_def)
qed

lemma validate_rows_sound:
  "validate_rows batch k seen vs = Inr rows \<Longrightarrow>
     \<exists>ix. map gr_candidateIndex rows = map ((!) (lb_candidateIndexes batch)) ix \<and> distinct ix \<and>
       set ix \<inter> set seen = {} \<and> list_all row_sound rows \<and>
       (\<forall>i \<in> set ix. i < length (lb_candidates batch) \<and> pr_eligible (lb_candidates batch ! i))"
proof (induction vs arbitrary: seen rows)
  case (Cons v vs)
  let ?row = "record_of (Some v)"
  let ?i = "nat (num_int (the (as_number (member ?row ''candidate_index''))))"
  from Cons.prems have ok: "row_ok batch seen ?row" by (auto simp: Let_def split: if_splits)
  from Cons.prems obtain rest where rest: "validate_rows batch k (?i # seen) vs = Inr rest"
    and rows: "gr_candidateIndex (hd rows) = lb_candidateIndexes batch ! ?i" "tl rows = rest" "rows \<noteq> []" "row_sound (hd rows)"
    using row_ok_sound(1) [OF ok] by (auto simp: Let_def rbind_Inr split: if_splits)
  from Cons.IH [OF rest] obtain ix where ix: "map gr_candidateIndex rest = map ((!) (lb_candidateIndexes batch)) ix"
    "distinct ix" "set ix \<inter> set (?i # seen) = {}" "list_all row_sound rest"
    "\<forall>i \<in> set ix. i < length (lb_candidates batch) \<and> pr_eligible (lb_candidates batch ! i)" by blast
  from rows obtain r where "rows = r # rest" by (cases rows) auto
  with ix rows row_ok_sound(2-4) [OF ok] show ?case by (intro exI [of _ "?i # ix"]) auto
qed simp

lemma validateResponse_sound:
  assumes "validateResponse payload batch k = Inr rows"
  obtains ix where "map gr_candidateIndex rows = map ((!) (lb_candidateIndexes batch)) ix" "distinct ix"
    "list_all row_sound rows" "\<And>i. i \<in> set ix \<Longrightarrow> i < length (lb_candidates batch) \<and> pr_eligible (lb_candidates batch ! i)"
proof -
  from assms obtain vs where "validate_rows batch k [] vs = Inr rows"
    by (auto simp: validateResponse_def Let_def split: if_splits option.splits)
  from validate_rows_sound [OF this] that show thesis by blast
qed


section \<open>Every batch is ranked exactly once\<close>

definition batch_of :: "worker \<Rightarrow> nat multiset" where
  "batch_of w = (case w of Running i \<Rightarrow> {#i#} | _ \<Rightarrow> {#})"

definition in_flight :: "worker list \<Rightarrow> nat multiset" where
  "in_flight ws = sum_list (map batch_of ws)"

lemma in_flight_update:
  assumes "k < length ws"
  shows "in_flight (ws[k := w]) + batch_of (ws ! k) = in_flight ws + batch_of w"
proof -
  have "ws = take k ws @ ws ! k # drop (Suc k) ws" using assms by (rule id_take_nth_drop)
  then have "in_flight ws = in_flight (take k ws) + batch_of (ws ! k) + in_flight (drop (Suc k) ws)"
    by (metis (no_types, lifting) add.assoc in_flight_def list.simps(9) map_append sum_list.Cons sum_list_append)
  moreover have "in_flight (ws[k := w]) = in_flight (take k ws) + batch_of w + in_flight (drop (Suc k) ws)"
    using assms by (simp add: upd_conv_take_nth_drop in_flight_def)
  ultimately show ?thesis by simp
qed

text \<open>The rows of completed batches, in the order of completion.\<close>

definition completed ::
    "(nat \<Rightarrow> GatewayLexicalRankedCandidate list ranking_result \<Rightarrow> bool) \<Rightarrow>
     (nat \<times> GatewayLexicalRankedCandidate list) list \<Rightarrow> GatewayLexicalRankedCandidate list \<Rightarrow> bool" where
  "completed exec done rows \<longleftrightarrow>
     rows = concat (map snd done) \<and> (\<forall>d \<in> set done. exec (fst d) (Inr (snd d)))"

definition pool_inv :: "nat \<Rightarrow> (nat \<Rightarrow> GatewayLexicalRankedCandidate list ranking_result \<Rightarrow> bool) \<Rightarrow> pool \<Rightarrow> bool" where
  "pool_inv n exec s \<longleftrightarrow>
     length (pl_workers s) = min MAX_LEXICAL_RANK_CONCURRENCY n \<and>
     (pl_settled s = None \<longrightarrow> pl_firstFailure s = None) \<and>
     (\<forall>rows. pl_settled s = Some (Inr rows) \<longrightarrow>
        (\<exists>done. completed exec done rows \<and> mset (map fst done) = mset [0..<n])) \<and>
     (pl_firstFailure s = None \<longrightarrow>
        (Finished \<in> set (pl_workers s) \<longrightarrow> n \<le> pl_nextBatch s) \<and>
        (\<exists>done. completed exec done (pl_ranked s) \<and>
           mset (map fst done) + in_flight (pl_workers s) = mset [0..<min (pl_nextBatch s) n]))"

lemma pool_inv_start: "pool_inv n exec (start_pool n)"
proof -
  have "in_flight (replicate m Ready) = {#}" for m
    by (induction m) (simp_all add: in_flight_def batch_of_def)
  then show ?thesis
    by (auto simp: pool_inv_def start_pool_def completed_def intro!: exI [of _ "[]"])
qed

lemma note_failure_inv:
  "pool_inv n exec s \<Longrightarrow> length ws = length (pl_workers s) \<Longrightarrow>
     pool_inv n exec (note_failure e (s\<lparr> pl_workers := ws, pl_timedOut := t \<rparr>))"
  by (auto simp: pool_inv_def note_failure_def Let_def split: option.splits)

lemma pool_inv_step: "pool_inv n exec s \<Longrightarrow> pool_step n exec s s' \<Longrightarrow> pool_inv n exec s'"
proof (erule pool_stepE)
  fix k
  assume inv: "pool_inv n exec s" and k: "k < length (pl_workers s)" "pl_workers s ! k = Ready"
    and f: "pl_firstFailure s = None" and lt: "pl_nextBatch s < n"
    and s': "s' = s\<lparr> pl_nextBatch := Suc (pl_nextBatch s), pl_workers := (pl_workers s)[k := Running (pl_nextBatch s)] \<rparr>"
  from inv f obtain dn where d: "completed exec dn (pl_ranked s)"
    "mset (map fst dn) + in_flight (pl_workers s) = mset [0..<min (pl_nextBatch s) n]"
    "Finished \<in> set (pl_workers s) \<longrightarrow> n \<le> pl_nextBatch s" by (auto simp: pool_inv_def)
  have "in_flight ((pl_workers s)[k := Running (pl_nextBatch s)]) = in_flight (pl_workers s) + {#pl_nextBatch s#}"
    using in_flight_update [OF k(1), of "Running (pl_nextBatch s)"] k(2) by (simp add: batch_of_def)
  with d lt have "mset (map fst dn) + in_flight ((pl_workers s)[k := Running (pl_nextBatch s)]) =
      mset [0..<min (Suc (pl_nextBatch s)) n]"
    by (simp add: min_def)
  moreover have "Finished \<notin> set ((pl_workers s)[k := Running (pl_nextBatch s)])"
    using d(3) lt set_update_subset_insert by fastforce
  ultimately show "pool_inv n exec s'" using inv d(1) f s' by (auto simp: pool_inv_def)
next
  fix k
  assume inv: "pool_inv n exec s" and k: "k < length (pl_workers s)" "pl_workers s ! k = Ready"
    and f: "pl_firstFailure s = None" and le: "n \<le> pl_nextBatch s"
    and s': "s' = s\<lparr> pl_nextBatch := Suc (pl_nextBatch s), pl_workers := (pl_workers s)[k := Finished] \<rparr>"
  have "in_flight ((pl_workers s)[k := Finished]) = in_flight (pl_workers s)"
    using in_flight_update [OF k(1), of Finished] k(2) by (simp add: batch_of_def)
  with inv f le s' show "pool_inv n exec s'" by (auto simp: pool_inv_def min_def)
next
  fix k y
  assume "pool_inv n exec s" "s' = s\<lparr> pl_workers := (pl_workers s)[k := Finished] \<rparr>" "pl_firstFailure s = Some y"
  then show "pool_inv n exec s'" by (simp add: pool_inv_def)
next
  fix k i rows
  assume inv: "pool_inv n exec s" and k: "k < length (pl_workers s)" "pl_workers s ! k = Running i"
    and e: "exec i (Inr rows)"
    and s': "s' = s\<lparr> pl_ranked := pl_ranked s @ rows, pl_workers := (pl_workers s)[k := Ready] \<rparr>"
  have fl: "in_flight ((pl_workers s)[k := Ready]) + {#i#} = in_flight (pl_workers s)"
    using in_flight_update [OF k(1), of Ready] k(2) by (simp add: batch_of_def)
  have "completed exec (dn @ [(i, rows)]) (pl_ranked s @ rows) \<and>
      mset (map fst (dn @ [(i, rows)])) + in_flight ((pl_workers s)[k := Ready]) = mset [0..<min (pl_nextBatch s) n]"
    if "completed exec dn (pl_ranked s)" "mset (map fst dn) + in_flight (pl_workers s) = mset [0..<min (pl_nextBatch s) n]" for dn
    using that e fl by (auto simp: completed_def simp del: mset_upt) (metis union_mset_add_mset_right)
  moreover have "Finished \<in> set ((pl_workers s)[k := Ready]) \<longrightarrow> Finished \<in> set (pl_workers s)"
    using set_update_subset_insert by fastforce
  ultimately show "pool_inv n exec s'" using inv s' by (fastforce simp: pool_inv_def)
next
  fix k i e
  assume "pool_inv n exec s" "s' = note_failure (normalizeFailure e (pl_timedOut s)) (s\<lparr> pl_workers := (pl_workers s)[k := Failed] \<rparr>)"
  then show "pool_inv n exec s'"
    using note_failure_inv [of n exec s "(pl_workers s)[k := Failed]" _ "pl_timedOut s"] by simp
next
  assume "pool_inv n exec s" "s' = note_failure (ranking_error Timeout) (s\<lparr> pl_timedOut := True \<rparr>)"
  then show "pool_inv n exec s'" using note_failure_inv [of n exec s "pl_workers s" _ True] by simp
next
  assume inv: "pool_inv n exec s" and none: "pl_settled s = None"
    and all: "list_all (\<lambda>x. x = Finished) (pl_workers s)" and s': "s' = s\<lparr> pl_settled := Some (Inr (pl_ranked s)) \<rparr>"
  have "in_flight ws = {#}" if "list_all (\<lambda>x. x = Finished) ws" for ws
    using that by (induction ws) (auto simp: in_flight_def batch_of_def)
  with all have "in_flight (pl_workers s) = {#}" by blast
  moreover have "n \<le> pl_nextBatch s"
  proof (cases "pl_workers s")
    case Nil
    with inv show ?thesis by (simp add: pool_inv_def MAX_LEXICAL_RANK_CONCURRENCY_def min_def split: if_splits)
  next
    case (Cons w ws)
    with all inv none show ?thesis by (auto simp: pool_inv_def)
  qed
  ultimately show "pool_inv n exec s'" using inv none s' by (auto simp: pool_inv_def min_def)
qed

lemma pool_inv_run: "pool_run n exec s \<Longrightarrow> pool_inv n exec s"
  by (induction rule: pool_run.induct) (auto intro: pool_inv_start pool_inv_step)


section \<open>The whole call\<close>

text \<open>
  A batch ends as its answer says, or with a network error when its request is aborted because
  another one failed. \<open>post i\<close> is what the network does with the request of batch \<open>i\<close>.
\<close>

definition gateway_exec ::
    "engine \<Rightarrow> (nat \<Rightarrow> jstr \<Rightarrow> gateway_response option) \<Rightarrow> LexicalRankBatch list \<Rightarrow> nat \<Rightarrow>
     GatewayLexicalRankedCandidate list ranking_result \<Rightarrow> bool" where
  "gateway_exec E post batches i r \<longleftrightarrow>
     i < length batches \<and>
     (executeBatch E (post i) (batches ! i) i = Some r \<or>
      r = Inl ((ranking_error Network)\<lparr> er_batchIndex := Some i \<rparr>))"

text \<open>The results a call may have: the order in which the workers run is not determined.\<close>

definition rankWithRustLexicalGateway ::
    "engine \<Rightarrow> platform \<Rightarrow> (url \<Rightarrow> jstr) \<Rightarrow> jstr \<Rightarrow> jstr option \<Rightarrow> (nat \<Rightarrow> jstr \<Rightarrow> gateway_response option) \<Rightarrow> jstr \<Rightarrow>
     PreparedLexicalRankCandidate list \<Rightarrow> GatewayLexicalRankedCandidate list ranking_result \<Rightarrow> bool" where
  "rankWithRustLexicalGateway E P url_print endpoint loaded post narrative candidates r \<longleftrightarrow>
     (case buildLexicalRankBatches narrative candidates MAX_LEXICAL_RANK_REQUEST_BYTES of
        Inl e \<Rightarrow> r = Inl e
      | Inr batches \<Rightarrow>
          if batches = [] then r = Inr []
          else case rbind (configuredEndpoint P url_print endpoint) (\<lambda>_. configuredBearer loaded) of
            Inl e \<Rightarrow> r = Inl e
          | Inr bearer \<Rightarrow>
              (\<exists>s. pool_run (length batches) (gateway_exec E post batches) s \<and> pl_settled s = Some r))"

lemma executeBatch_Inr:
  "executeBatch E post batch i = Some (Inr rows) \<Longrightarrow> \<exists>payload. validateResponse payload batch i = Inr rows"
  by (auto simp: executeBatch_def split: option.splits if_splits sum.splits body_error.splits)

lemma distinct_concat_nth:
  "distinct (concat xss) \<Longrightarrow> i < length xss \<Longrightarrow> j < length xss \<Longrightarrow> i \<noteq> j \<Longrightarrow> set (xss ! i) \<inter> set (xss ! j) = {}"
proof (induction xss arbitrary: i j)
  case (Cons xs xss)
  have "set (xss ! k) \<subseteq> set (concat xss)" if "k < length xss" for k
    using that by (metis UN_I nth_mem set_concat subsetI)
  with Cons show ?case by (cases i; cases j) fastforce+
qed simp

lemma distinct_by_parts:
  "distinct (map fst ds) \<Longrightarrow> (\<And>d. d \<in> set ds \<Longrightarrow> distinct (f d) \<and> set (f d) \<subseteq> A (fst d)) \<Longrightarrow>
     (\<And>i j. i \<in> fst ` set ds \<Longrightarrow> j \<in> fst ` set ds \<Longrightarrow> i \<noteq> j \<Longrightarrow> A i \<inter> A j = {}) \<Longrightarrow> distinct (concat (map f ds))"
proof (induction ds)
  case (Cons d ds)
  have "distinct (concat (map f ds))" using Cons by auto
  moreover have "set (f d) \<inter> set (f x) = {}" if "x \<in> set ds" for x
  proof -
    have "fst d \<noteq> fst x" using that Cons.prems(1) by auto
    with Cons.prems(3) [of "fst d" "fst x"] that have "A (fst d) \<inter> A (fst x) = {}" by auto
    with Cons.prems(2) [of d] Cons.prems(2) [of x] that show ?thesis by fastforce
  qed
  ultimately show ?case using Cons.prems(2) [of d] by auto
qed simp

lemma completed_rows:
  assumes bs: "concat (map lb_candidateIndexes bs) = [0..<length candidates]"
    and ok: "list_all (batch_ok narrative m candidates) bs"
    and c: "completed (gateway_exec E post bs) ds rows" and d: "mset (map fst ds) = mset [0..<length bs]"
  shows "distinct (map gr_candidateIndex rows)"
    and "\<And>g. g \<in> set rows \<Longrightarrow> gr_candidateIndex g < length candidates \<and>
      pr_eligible (candidates ! gr_candidateIndex g) \<and> row_sound g"
proof -
  let ?A = "\<lambda>i. set (lb_candidateIndexes (bs ! i))" and ?f = "\<lambda>d. map gr_candidateIndex (snd d)"
  have part: "distinct (?f x) \<and> set (?f x) \<subseteq> ?A (fst x) \<and>
      (\<forall>g \<in> set (snd x). pr_eligible (candidates ! gr_candidateIndex g) \<and> row_sound g)"
    if x: "x \<in> set ds" for x
  proof -
    from c x obtain payload where i: "fst x < length bs" "validateResponse payload (bs ! fst x) (fst x) = Inr (snd x)"
      by (auto simp: completed_def gateway_exec_def dest!: bspec executeBatch_Inr)
    from ok i(1) have b: "lb_candidates (bs ! fst x) = map ((!) candidates) (lb_candidateIndexes (bs ! fst x))"
      by (simp add: list_all_length batch_ok_def)
    obtain ix where ix: "?f x = map ((!) (lb_candidateIndexes (bs ! fst x))) ix" "distinct ix" "list_all row_sound (snd x)"
      "\<forall>i \<in> set ix. i < length (lb_candidates (bs ! fst x)) \<and> pr_eligible (lb_candidates (bs ! fst x) ! i)"
      by (rule validateResponse_sound [OF i(2)]) (use that in blast)
    have "distinct (concat (map lb_candidateIndexes bs))" using bs by simp
    then have "distinct (lb_candidateIndexes (bs ! fst x))"
      using i(1) by (auto simp: distinct_concat_iff)
    then have "distinct (?f x)"
      using ix(2,4) b by (simp only: ix(1)) (auto simp: distinct_map inj_on_def nth_eq_iff_index_eq)
    moreover have sub: "set (?f x) \<subseteq> ?A (fst x)" using ix(4) b by (simp only: ix(1)) auto
    moreover have "pr_eligible (candidates ! gr_candidateIndex g) \<and> row_sound g" if g: "g \<in> set (snd x)" for g
    proof -
      from g have "gr_candidateIndex g \<in> set (?f x)" by simp
      then obtain i where "i \<in> set ix" "gr_candidateIndex g = lb_candidateIndexes (bs ! fst x) ! i"
        by (simp only: ix(1)) auto
      with ix(3) [unfolded list_all_iff] ix(4) b g show ?thesis by force
    qed
    ultimately show ?thesis by blast
  qed
  have ids: "distinct (map fst ds)" "fst ` set ds = {0..<length bs}"
    using d mset_eq_imp_distinct_iff [OF d] mset_eq_setD [OF d] by auto
  have rows: "map gr_candidateIndex rows = concat (map ?f ds)" "set rows = (\<Union>x \<in> set ds. set (snd x))"
    using c by (auto simp: completed_def map_concat comp_def)
  show "distinct (map gr_candidateIndex rows)"
    unfolding rows(1)
  proof (rule distinct_by_parts [where A = ?A])
    show "?A i \<inter> ?A j = {}" if "i \<in> fst ` set ds" "j \<in> fst ` set ds" "i \<noteq> j" for i j
      using distinct_concat_nth [of "map lb_candidateIndexes bs" i j] that ids bs by simp
  qed (use ids part in auto)
  show "gr_candidateIndex g < length candidates \<and> pr_eligible (candidates ! gr_candidateIndex g) \<and> row_sound g"
    if "g \<in> set rows" for g
  proof -
    from that rows(2) obtain x where x: "x \<in> set ds" "g \<in> set (snd x)" by auto
    with part have "gr_candidateIndex g \<in> ?A (fst x)" by fastforce
    moreover have "fst x < length bs" using ids(2) x(1) by auto
    ultimately have "gr_candidateIndex g \<in> set (concat (map lb_candidateIndexes bs))" by auto
    with bs part [OF x(1)] x(2) show ?thesis by auto
  qed
qed

section \<open>Work left\<close>

fun worker_work :: "worker \<Rightarrow> nat" where
  "worker_work Ready = 1"
| "worker_work (Running i) = 2"
| "worker_work _ = 0"

definition pool_work :: "nat \<Rightarrow> pool \<Rightarrow> nat" where
  "pool_work n s = 2 * (n - pl_nextBatch s) + sum_list (map worker_work (pl_workers s))"

lemma work_update:
  assumes "k < length ws"
  shows "sum_list (map worker_work (ws[k := w])) + worker_work (ws ! k) = sum_list (map worker_work ws) + worker_work w"
  using assms sum_list_update [of k "map worker_work ws" "worker_work w"]
    member_le_sum_list [of "worker_work (ws ! k)" "map worker_work ws"]
  by (simp add: map_update [symmetric] del: map_update)

lemma timed_out_settled: "pool_run n exec s \<Longrightarrow> pl_timedOut s \<Longrightarrow> pl_settled s \<noteq> None"
  by (induction rule: pool_run.induct)
     (auto simp: start_pool_def note_failure_def Let_def elim!: pool_stepE split: option.splits)


lemma pool_step_work:
  assumes "pl_settled s = None" and "pool_step n exec s s'"
  shows "pl_settled s' \<noteq> None \<or> pool_work n s' < pool_work n s"
proof -
  have less: "pool_work n (s\<lparr> pl_nextBatch := m, pl_ranked := r, pl_workers := (pl_workers s)[k := w] \<rparr>) < pool_work n s"
    if "k < length (pl_workers s)" "2 * (n - m) + worker_work w < 2 * (n - pl_nextBatch s) + worker_work (pl_workers s ! k)"
    for k m r w
    using work_update [of k "pl_workers s" w] that by (simp add: pool_work_def)
  from assms(2) show ?thesis
  proof (rule pool_stepE)
    fix k
    assume "s' = s\<lparr> pl_nextBatch := Suc (pl_nextBatch s), pl_workers := (pl_workers s)[k := Running (pl_nextBatch s)] \<rparr>"
      "k < length (pl_workers s)" "pl_workers s ! k = Ready" "pl_nextBatch s < n"
    with less [of k "Suc (pl_nextBatch s)" "Running (pl_nextBatch s)" "pl_ranked s"] show ?thesis by simp
  next
    fix k
    assume "s' = s\<lparr> pl_nextBatch := Suc (pl_nextBatch s), pl_workers := (pl_workers s)[k := Finished] \<rparr>"
      "k < length (pl_workers s)" "pl_workers s ! k = Ready"
    with less [of k "Suc (pl_nextBatch s)" Finished "pl_ranked s"] show ?thesis by simp
  next
    fix k y
    assume "s' = s\<lparr> pl_workers := (pl_workers s)[k := Finished] \<rparr>" "k < length (pl_workers s)" "pl_workers s ! k = Ready"
    with less [of k "pl_nextBatch s" Finished "pl_ranked s"] show ?thesis by simp
  next
    fix k i rows
    assume "s' = s\<lparr> pl_ranked := pl_ranked s @ rows, pl_workers := (pl_workers s)[k := Ready] \<rparr>"
      "k < length (pl_workers s)" "pl_workers s ! k = Running i"
    with less [of k "pl_nextBatch s" Ready "pl_ranked s @ rows"] show ?thesis by simp
  qed (use assms(1) in \<open>auto simp: note_failure_def Let_def split: option.splits\<close>)
qed

lemma failed_settled: "pool_run n exec s \<Longrightarrow> Failed \<in> set (pl_workers s) \<Longrightarrow> pl_settled s \<noteq> None"
proof (induction rule: pool_run.induct)
  case (step_run s s')
  have upd: "Failed \<in> set (ws[k := w]) \<Longrightarrow> w \<noteq> Failed \<Longrightarrow> Failed \<in> set ws" for ws k w
    using set_update_subset_insert by fastforce
  from step_run.hyps(2) show ?case
    by (rule pool_stepE)
       (use step_run.IH step_run.prems in \<open>auto simp: note_failure_def Let_def dest: upd split: option.splits\<close>)
qed (simp add: start_pool_def)

lemma running_in_range:
  assumes inv: "pool_inv n exec s" and f: "pl_firstFailure s = None" and k: "k < length (pl_workers s)" "pl_workers s ! k = Running i"
  shows "i < n"
proof -
  have "in_flight (pl_workers s) = in_flight ((pl_workers s)[k := Ready]) + {#i#}"
    using in_flight_update [OF k(1), of Ready] k(2) by (simp add: batch_of_def)
  moreover obtain dn where "completed exec dn (pl_ranked s)"
    "mset (map fst dn) + in_flight (pl_workers s) = mset [0..<min (pl_nextBatch s) n]"
    using inv f unfolding pool_inv_def by blast
  ultimately have "i \<in># mset [0..<min (pl_nextBatch s) n]" by (metis union_iff union_single_eq_member add_mset_add_single)
  then show ?thesis by simp
qed

lemma pool_progress:
  assumes run: "pool_run n exec s" and open': "pl_settled s = None" and answers: "\<And>i. i < n \<Longrightarrow> \<exists>r. exec i r"
  shows "\<exists>s'. pool_step n exec s s' \<and> \<not> pl_timedOut s'"
proof -
  have inv: "pool_inv n exec s" by (rule pool_inv_run [OF run])
  have t: "\<not> pl_timedOut s" using timed_out_settled [OF run] open' by blast
  have f: "pl_firstFailure s = None" using inv open' by (simp add: pool_inv_def)
  have keep: "\<exists>s'. pool_step n exec s s' \<and> \<not> pl_timedOut s'" if "pool_step n exec s s'" "pl_timedOut s' = pl_timedOut s" for s'
    using that t by blast
  show ?thesis
  proof (cases "list_all (\<lambda>x. x = Finished) (pl_workers s)")
    case True
    from keep [OF all_done [OF open' this]] show ?thesis by simp
  next
    case False
    then obtain k where k: "k < length (pl_workers s)" "pl_workers s ! k \<noteq> Finished" by (auto simp: list_all_length)
    show ?thesis
    proof (cases "pl_workers s ! k")
      case Ready
      from keep [OF take_batch [OF k(1) this f]] keep [OF no_batch [OF k(1) this f]] show ?thesis
        by (cases "pl_nextBatch s < n") simp_all
    next
      case (Running i)
      from answers [OF running_in_range [OF inv f k(1) Running]] obtain r where "exec i r" by blast
      with keep [OF batch_ranked [OF k(1) Running]] keep [OF batch_failed [OF k(1) Running]] show ?thesis
        by (cases r) (simp_all add: note_failure_def Let_def)
    next
      case Finished
      with k show ?thesis by simp
    next
      case Failed
      with failed_settled [OF run] open' k(1) show ?thesis by (metis nth_mem)
    qed
  qed
qed

lemma gateway_rows:
  assumes "rankWithRustLexicalGateway E P url_print endpoint loaded post narrative candidates (Inr rows)"
  shows "distinct (map gr_candidateIndex rows) \<and>
    (\<forall>g \<in> set rows. gr_candidateIndex g < length candidates \<and> pr_eligible (candidates ! gr_candidateIndex g) \<and>
       row_sound g)"
proof -
  from assms obtain bs where bs: "buildLexicalRankBatches narrative candidates MAX_LEXICAL_RANK_REQUEST_BYTES = Inr bs"
    by (auto simp: rankWithRustLexicalGateway_def split: sum.splits)
  then have a: "assertRequestInput narrative candidates = Inr ()"
    by (auto simp: buildLexicalRankBatches_def rbind_Inr)
  show ?thesis
  proof (cases "bs = []")
    case True
    with assms bs show ?thesis by (simp add: rankWithRustLexicalGateway_def)
  next
    case False
    with assms bs obtain s where "pool_run (length bs) (gateway_exec E post bs) s" "pl_settled s = Some (Inr rows)"
      by (auto simp: rankWithRustLexicalGateway_def split: sum.splits)
    with pool_inv_run obtain ds where "completed (gateway_exec E post bs) ds rows" "mset (map fst ds) = mset [0..<length bs]"
      unfolding pool_inv_def by blast
    with build_batches [OF a, of MAX_LEXICAL_RANK_REQUEST_BYTES] bs show ?thesis
      using completed_rows [of bs candidates narrative MAX_LEXICAL_RANK_REQUEST_BYTES E post ds rows] by simp
  qed
qed

section \<open>Claims\<close>

text \<open>
  A request that passes the input check is cut into batches that together hold every
  candidate once and in order, each batch non-empty, of at most 64 candidates and, as it is
  sent, within the byte limit; it is refused only when one candidate alone does not fit the
  limit, and the refusal names that candidate.
\<close>

theorem batches_cover_candidates:
  assumes "assertRequestInput narrative candidates = Inr ()"
  shows "case buildLexicalRankBatches narrative candidates maximumBytes of
      Inr batches \<Rightarrow> concat (map lb_candidates batches) = candidates \<and>
        concat (map lb_candidateIndexes batches) = [0..<length candidates] \<and>
        (\<forall>b \<in> set batches. 0 < length (lb_candidates b) \<and> length (lb_candidates b) \<le> 64 \<and>
          lb_body b = batch_body narrative (lb_candidates b) \<and> length (utf8_encode (lb_body b)) \<le> maximumBytes)
    | Inl e \<Rightarrow> \<exists>j < length candidates. er_kind e = Request_too_large \<and> er_candidateIndex e = Some j \<and>
        maximumBytes < length (utf8_encode (batch_body narrative [candidates ! j]))"
proof (cases "buildLexicalRankBatches narrative candidates maximumBytes")
  case (Inl e)
  with build_batches [OF assms, of maximumBytes] show ?thesis by (simp add: utf8Bytes_def)
next
  case (Inr bs)
  with build_batches [OF assms, of maximumBytes]
  have ix: "concat (map lb_candidateIndexes bs) = [0..<length candidates]"
    and ok: "\<forall>b \<in> set bs. batch_ok narrative maximumBytes candidates b" by (simp_all add: list_all_iff)
  have "map lb_candidates bs = map (map ((!) candidates)) (map lb_candidateIndexes bs)"
    using ok by (auto simp: batch_ok_def)
  then have "concat (map lb_candidates bs) = map ((!) candidates) (concat (map lb_candidateIndexes bs))"
    by (simp only: map_concat)
  then have "concat (map lb_candidates bs) = candidates" by (simp add: ix map_nth)
  moreover have "0 < length (lb_candidates b) \<and> length (lb_candidates b) \<le> 64 \<and>
      lb_body b = batch_body narrative (lb_candidates b) \<and> length (utf8_encode (lb_body b)) \<le> maximumBytes"
    if "b \<in> set bs" for b
    using bspec [OF ok that] unfolding batch_ok_def utf8Bytes_def MAX_LEXICAL_RANK_BATCH_CANDIDATES_def by blast
  ultimately show ?thesis using Inr ix by (simp only: sum.case) blast
qed

definition example_candidate :: PreparedLexicalRankCandidate where
  "example_candidate = \<lparr> pr_displayName = js ''Tea'', pr_description = [], pr_eligible = True,
     pr_intentBoost = num_of_int 0, pr_intentReasons = [] \<rparr>"

lemma example_request: "assertRequestInput (js ''tea'') [example_candidate, example_candidate] = Inr ()"
  by (simp add: assertRequestInput_def candidate_in_bounds_def example_candidate_def is_integer_finite num_val_integer
      MAX_LEXICAL_RANK_NARRATIVE_CHARACTERS_def MAX_LEXICAL_RANK_TOTAL_CANDIDATES_def MAX_LEXICAL_RANK_NAME_CHARACTERS_def
      scalarLength_def js_def)

theorem batches_cover_candidates_witness:
  "case buildLexicalRankBatches (js ''tea'') [example_candidate, example_candidate] 1000 of
      Inr batches \<Rightarrow> concat (map lb_candidates batches) = [example_candidate, example_candidate]
    | Inl e \<Rightarrow> er_kind e = Request_too_large"
  using batches_cover_candidates [OF example_request, of 1000]
  by (cases "buildLexicalRankBatches (js ''tea'') [example_candidate, example_candidate] 1000") auto

text \<open>
  C8. Whatever the network answers and in whatever order the workers run: a ranking that is
  returned names no candidate twice, only candidates of the request that were eligible, with a
  score between 0 and 0.99 and at most eight distinct labels, no more than the overlap it
  counts.
\<close>

theorem gateway_result_sound:
  assumes "rankWithRustLexicalGateway E P url_print endpoint loaded post narrative candidates (Inr rows)"
  shows "distinct (map gr_candidateIndex rows) \<and>
    (\<forall>g \<in> set rows. gr_candidateIndex g < length candidates \<and> pr_eligible (candidates ! gr_candidateIndex g) \<and>
       row_sound g)"
  by (rule gateway_rows [OF assms])

definition example_payload :: json where
  "example_payload = JObj [(js ''schema_version'', JNum (num_of_int 1)),
     (js ''ranked'', JArr [JObj [(js ''candidate_index'', JNum (num_of_int 0)), (js ''score'', JNum (num_of_int 0)),
       (js ''overlap_count'', JNum (num_of_int 1)), (js ''overlap_labels'', JArr [JStr (js ''tea'')]),
       (js ''advisory'', JStr LEXICAL_RANK_ADVISORY)]])]"

definition example_post :: "jstr \<Rightarrow> gateway_response option" where
  "example_post body = Some \<lparr> gw_ok = True, gw_status = 200, gw_contentType = Some (js ''application/json''),
     gw_message = \<lparr> hm_contentLength = None, hm_body = Some [Chunk (utf8_encode (stringify example_payload)), End] \<rparr> \<rparr>"

definition example_row :: GatewayLexicalRankedCandidate where
  "example_row = \<lparr> gr_candidateIndex = 0, gr_score = num_of_int 0, gr_overlapCount = 1, gr_overlapLabels = [js ''tea''] \<rparr>"

lemma example_payload_wf: "wf_json example_payload"
  by (simp add: example_payload_def wf_json_Obj wf_str_def LEXICAL_RANK_ADVISORY_def js_def wf16_ascii is_integer_finite)

lemma response_round_trip:
  assumes "wf_json v" and "length (utf8_encode (stringify v)) \<le> m"
  shows "readJsonResponseBody \<lparr> hm_contentLength = None, hm_body = Some [Chunk (utf8_encode (stringify v)), End] \<rparr> m None =
    (Some (Inr v), [ReleaseLock])"
proof -
  have "readBoundedBytes [Chunk (utf8_encode (stringify v)), End] m (ResponseBodyTooLargeError m) None False =
      (Some (Inr (utf8_encode (stringify v))), [ReleaseLock])"
    using assms(2) by (simp add: bounded_Inr)
  with printed_bytes [OF assms(1)] show ?thesis
    by (simp add: readJsonResponseBody_def readResponseTextBody_def declares_more_def parse_int10_def trim_start_def)
qed

lemma example_numbers: "num_text (num_of_int 0) = [48]" "num_text (num_of_int 1) = [49]"
  by code_simp+

lemma example_payload_small: "length (utf8_encode (stringify example_payload)) \<le> MAX_LEXICAL_RANK_RESPONSE_BYTES"
  by (simp add: example_payload_def example_numbers LEXICAL_RANK_ADVISORY_def js_def quote_def quote_unit_def
      is_high_def is_low_def encode_ascii MAX_LEXICAL_RANK_RESPONSE_BYTES_def)

lemma example_validates:
  "lb_candidates b = [example_candidate] \<Longrightarrow> lb_candidateIndexes b = [0] \<Longrightarrow>
     validateResponse example_payload b 0 = Inr [example_row]"
  by (simp add: validateResponse_def example_payload_def Let_def record_of_def hasExactKeys_def object_keys_def has_own_def
    member_def row_ok_def integer_between_def is_integer_finite MAX_LEXICAL_RANK_OVERLAP_COUNT_def example_candidate_def
    validOverlapLabels_def example_row_def js_simps MAX_LEXICAL_RANK_OVERLAP_LABELS_def trim_def is_space_def is_control_def
    MAX_LEXICAL_RANK_LABEL_CHARACTERS_def scalarLength_def)

lemma example_batches:
  "buildLexicalRankBatches (js ''tea'') [example_candidate] MAX_LEXICAL_RANK_REQUEST_BYTES =
     Inr [\<lparr> lb_body = batch_body (js ''tea'') [example_candidate], lb_candidateIndexes = [0], lb_candidates = [example_candidate] \<rparr>]"
proof -
  have "utf8Bytes (batch_body (js ''tea'') [example_candidate]) \<le> MAX_LEXICAL_RANK_REQUEST_BYTES"
    by (simp add: utf8Bytes_def batch_body_def toRequestCandidate_def example_candidate_def example_numbers js_def quote_def
        quote_unit_def is_high_def is_low_def encode_ascii MAX_LEXICAL_RANK_REQUEST_BYTES_def)
  moreover have "assertRequestInput (js ''tea'') [example_candidate] = Inr ()"
    using example_request by (auto simp: assertRequestInput_def split: if_splits option.splits)
  ultimately show ?thesis
    by (simp add: buildLexicalRankBatches_def flush_batch_def serializeBatch_def MAX_LEXICAL_RANK_BATCH_CANDIDATES_def)
qed

lemma example_executed:
  "lb_candidates b = [example_candidate] \<Longrightarrow> lb_candidateIndexes b = [0] \<Longrightarrow>
     executeBatch example_engine example_post b 0 = Some (Inr [example_row])"
proof -
  assume b: "lb_candidates b = [example_candidate]" "lb_candidateIndexes b = [0]"
  have "isJsonContentType example_engine (Some (js ''application/json''))"
    by (simp add: isJsonContentType_def example_engine_def js_simps trim_def is_space_def to_lower_def lower1_def is_upper_def)
  then show ?thesis
    using example_validates [OF b] response_round_trip [OF example_payload_wf example_payload_small]
    by (simp add: executeBatch_def example_post_def)
qed

lemma example_pool:
  assumes "exec 0 (Inr rows)"
  shows "\<exists>s. pool_run 1 exec s \<and> pl_settled s = Some (Inr rows)"
proof -
  let ?s1 = "(start_pool 1)\<lparr> pl_nextBatch := 1, pl_workers := [Running 0] \<rparr>"
  let ?s2 = "?s1\<lparr> pl_ranked := rows, pl_workers := [Ready] \<rparr>"
  let ?s3 = "?s2\<lparr> pl_nextBatch := 2, pl_workers := [Finished] \<rparr>"
  have "pool_step 1 exec (start_pool 1) ?s1"
    using take_batch [of 0 "start_pool 1" 1 exec] by (simp add: start_pool_def MAX_LEXICAL_RANK_CONCURRENCY_def)
  moreover have "pool_step 1 exec ?s1 ?s2"
    using batch_ranked [of 0 ?s1 0 exec rows 1] assms by (simp add: start_pool_def)
  moreover have "pool_step 1 exec ?s2 ?s3"
    using no_batch [of 0 ?s2 1 exec] by (simp add: start_pool_def numeral_2_eq_2)
  moreover have "pool_step 1 exec ?s3 (?s3\<lparr> pl_settled := Some (Inr rows) \<rparr>)"
    using all_done [of ?s3 1 exec] by (simp add: start_pool_def)
  ultimately have "pool_run 1 exec (?s3\<lparr> pl_settled := Some (Inr rows) \<rparr>)"
    by (meson begin_run step_run)
  then show ?thesis by (intro exI [of _ "?s3\<lparr> pl_settled := Some (Inr rows) \<rparr>"]) simp
qed

definition example_host :: platform where
  "example_host = \<lparr> url_parse = (\<lambda>_. Some \<lparr> url_protocol = js ''http:'', url_username = [], url_password = [], url_hash = [],
     url_search = [], url_pathname = js ''/'', url_hostname = js ''kernel'', url_origin = js ''http://kernel'' \<rparr>),
     isIP = (\<lambda>_. 0), ip_process = (\<lambda>_. None), sha256 = (\<lambda>_. []) \<rparr>"

lemma example_rank:
  "rankWithRustLexicalGateway example_engine example_host (\<lambda>_. [])
     (js ''http://kernel/'') (Some (js ''token'')) (\<lambda>_. example_post) (js ''tea'') [example_candidate] (Inr [example_row])"
proof -
  let ?b = "\<lparr> lb_body = batch_body (js ''tea'') [example_candidate], lb_candidateIndexes = [0], lb_candidates = [example_candidate] \<rparr>"
  have "gateway_exec example_engine (\<lambda>_. example_post) [?b] 0 (Inr [example_row])"
    by (simp add: gateway_exec_def example_executed)
  with example_pool [of "gateway_exec example_engine (\<lambda>_. example_post) [?b]" "[example_row]"]
  have "\<exists>s. pool_run (length [?b]) (gateway_exec example_engine (\<lambda>_. example_post) [?b]) s \<and> pl_settled s = Some (Inr [example_row])"
    by simp
  moreover have "rbind (configuredEndpoint example_host (\<lambda>_. []) (js ''http://kernel/'')) (\<lambda>_. configuredBearer (Some (js ''token''))) =
      Inr (js ''token'')"
    by (simp add: configuredEndpoint_def example_host_def configuredBearer_def) (simp add: js_simps is_control_def)
  ultimately show ?thesis
    unfolding rankWithRustLexicalGateway_def example_batches by (simp only: sum.case list.distinct if_False)
qed

theorem gateway_result_sound_witness:
  "rankWithRustLexicalGateway example_engine example_host (\<lambda>_. [])
     (js ''http://kernel/'') (Some (js ''token'')) (\<lambda>_. example_post) (js ''tea'') [example_candidate] (Inr [example_row]) \<and>
   distinct (map gr_candidateIndex [example_row]) \<and> gr_candidateIndex example_row < 1 \<and> row_sound example_row"
  using gateway_result_sound [OF example_rank] example_rank by simp

text \<open>
  C14. The pool of workers neither stalls nor runs for ever: as long as the call has not settled
  and every batch can end, some run that does not wait for the deadline settles it, and whatever
  step is taken settles the call or leaves less work (two units for each batch not yet taken or
  running, one for each idle worker).
\<close>

theorem pool_settles:
  assumes "pool_run n exec s" and "pl_settled s = None" and "\<And>i. i < n \<Longrightarrow> \<exists>r. exec i r"
  shows "(\<exists>t. (pool_step n exec)\<^sup>*\<^sup>* s t \<and> pl_settled t \<noteq> None \<and> \<not> pl_timedOut t) \<and>
    (\<forall>s'. pool_step n exec s s' \<longrightarrow> pl_settled s' \<noteq> None \<or> pool_work n s' < pool_work n s)"
proof -
  have "\<exists>t. (pool_step n exec)\<^sup>*\<^sup>* s t \<and> pl_settled t \<noteq> None \<and> \<not> pl_timedOut t"
    using assms(1,2)
  proof (induction "pool_work n s" arbitrary: s rule: less_induct)
    case less
    from pool_progress [OF less.prems assms(3)] obtain s' where s': "pool_step n exec s s'" "\<not> pl_timedOut s'" by blast
    show ?case
    proof (cases "pl_settled s' = None")
      case True
      with pool_step_work [OF less.prems(2) s'(1)] have "pool_work n s' < pool_work n s" by simp
      from less.hyps [OF this step_run [OF less.prems(1) s'(1)] True] s'(1) show ?thesis
        by (meson converse_rtranclp_into_rtranclp)
    next
      case False
      with s' show ?thesis by blast
    qed
  qed
  with pool_step_work [OF assms(2)] show ?thesis by blast
qed

theorem pool_settles_witness:
  "\<exists>t. (pool_step 3 (\<lambda>i r. r = Inr []))\<^sup>*\<^sup>* (start_pool 3) t \<and> pl_settled t \<noteq> None \<and> \<not> pl_timedOut t"
  using pool_settles [OF begin_run, of 3 "\<lambda>i r. r = Inr []"] by (simp add: start_pool_def)

text \<open>
  C15. A ranking that the pool returns is made of the rows of every batch, each batch executed
  exactly once, in the order in which the batches completed.
\<close>

theorem every_batch_ranked_once:
  assumes "pool_run n exec s" and "pl_settled s = Some (Inr rows)"
  shows "\<exists>ds. rows = concat (map snd ds) \<and> mset (map fst ds) = mset [0..<n] \<and> (\<forall>d \<in> set ds. exec (fst d) (Inr (snd d)))"
  using pool_inv_run [OF assms(1)] assms(2) unfolding pool_inv_def completed_def by blast

theorem every_batch_ranked_once_witness:
  "\<exists>ds. [example_row] = concat (map snd ds) \<and> mset (map fst ds) = mset [0..<1] \<and> (\<forall>d \<in> set ds. snd d = [example_row])"
proof -
  obtain s where "pool_run 1 (\<lambda>i r. r = Inr [example_row]) s" "pl_settled s = Some (Inr [example_row])"
    using example_pool [of "\<lambda>i r. r = Inr [example_row]" "[example_row]"] by auto
  from every_batch_ranked_once [OF this] show ?thesis by simp
qed

end
