(* ===== verification/Storefront_Ranking.thy ===== *)
theory Storefront_Ranking
  imports Ranking_Gateway "HOL-Library.List_Lexorder"
begin

text \<open>
  Ranking of public offers, after \<open>web/src/storefront-ranking.ts\<close> and
  \<open>web/src/storefront-ranking-shared.ts\<close>: eligibility and reasons come from the shopping intent,
  the order comes from the rows of the ranking gateway, and catalogue orders compare exact
  prices. The gateway is the argument \<open>rustRanker\<close> as in the source; \<open>String.localeCompare\<close>
  is the argument \<open>locale_compare\<close>, which returns the sign.
\<close>

section \<open>Comparison functions and sorting\<close>

text \<open>
  \<open>Array.prototype.sort\<close> with a comparison function: for a consistent comparison the result is
  the stable sorted permutation, which this insertion sort computes.
\<close>

fun insert_by :: "('a \<Rightarrow> 'a \<Rightarrow> int) \<Rightarrow> 'a \<Rightarrow> 'a list \<Rightarrow> 'a list" where
  "insert_by cmp x [] = [x]"
| "insert_by cmp x (y # ys) = (if cmp x y \<le> 0 then x # y # ys else y # insert_by cmp x ys)"

definition sort_by :: "('a \<Rightarrow> 'a \<Rightarrow> int) \<Rightarrow> 'a list \<Rightarrow> 'a list" where
  "sort_by cmp xs = foldr (insert_by cmp) xs []"

locale consistent_compare =
  fixes cmp :: "'a \<Rightarrow> 'a \<Rightarrow> int"
  assumes opposite: "cmp x y < 0 \<longleftrightarrow> 0 < cmp y x"
    and trans: "cmp x y \<le> 0 \<Longrightarrow> cmp y z \<le> 0 \<Longrightarrow> cmp x z \<le> 0"
begin

lemma total: "\<not> cmp x y \<le> 0 \<Longrightarrow> cmp y x \<le> 0"
  using opposite [of y x] by linarith

lemma set_insert_by: "set (insert_by cmp x ys) = insert x (set ys)"
  by (induction ys) auto

lemma mset_insert_by: "mset (insert_by cmp x ys) = add_mset x (mset ys)"
  by (induction ys) auto

lemma insert_sorted: "sorted_wrt (\<lambda>x y. cmp x y \<le> 0) ys \<Longrightarrow> sorted_wrt (\<lambda>x y. cmp x y \<le> 0) (insert_by cmp x ys)"
  by (induction ys) (auto simp: set_insert_by intro: total trans)

lemma mset_sort_by: "mset (sort_by cmp xs) = mset xs"
  by (induction xs) (simp_all add: sort_by_def mset_insert_by)

lemma sorted_sort_by: "sorted_wrt (\<lambda>x y. cmp x y \<le> 0) (sort_by cmp xs)"
  by (induction xs) (simp_all add: sort_by_def insert_sorted)

text \<open>Elements that compare equal keep their order.\<close>

lemma insert_stable: "filter (\<lambda>y. cmp k y = 0) (insert_by cmp x ys) = filter (\<lambda>y. cmp k y = 0) (x # ys)"
proof (induction ys)
  case (Cons y ys)
  show ?case
  proof (cases "cmp x y \<le> 0")
    case False
    then have "\<not> (cmp k x = 0 \<and> cmp k y = 0)"
      using opposite [of x k] opposite [of k x] trans [of x k y] by linarith
    with False Cons show ?thesis by auto
  qed simp
qed simp

lemma stable_sort_by: "filter (\<lambda>y. cmp k y = 0) (sort_by cmp xs) = filter (\<lambda>y. cmp k y = 0) xs"
  by (induction xs) (simp_all add: sort_by_def insert_stable)

end

text \<open>Comparisons by a key, reversed, on a component and lexicographic ones.\<close>

lemma consistent_key: "consistent_compare (\<lambda>x y. if k x < k y then - 1 else if k y < k x then 1 else 0)" for k :: "'a \<Rightarrow> 'b :: linorder"
  by unfold_locales (auto split: if_splits)

lemma consistent_reverse: "consistent_compare f \<Longrightarrow> consistent_compare (\<lambda>x y. f y x)"
  unfolding consistent_compare_def by blast

lemma consistent_on: "consistent_compare f \<Longrightarrow> consistent_compare (\<lambda>x y. f (h x) (h y))"
  unfolding consistent_compare_def by blast

lemma consistent_lex:
  assumes f: "consistent_compare f" and g: "consistent_compare g"
  shows "consistent_compare (\<lambda>x y. if f x y \<noteq> 0 then f x y else g x y)"
proof
  show "(if f x y \<noteq> 0 then f x y else g x y) < 0 \<longleftrightarrow> 0 < (if f y x \<noteq> 0 then f y x else g y x)" for x y
    using consistent_compare.opposite [OF f, of x y] consistent_compare.opposite [OF f, of y x]
      consistent_compare.opposite [OF g, of x y] by auto
  show "(if f x z \<noteq> 0 then f x z else g x z) \<le> 0"
    if "(if f x y \<noteq> 0 then f x y else g x y) \<le> 0" "(if f y z \<noteq> 0 then f y z else g y z) \<le> 0" for x y z
  proof -
    from that have le: "f x y \<le> 0" "f y z \<le> 0" by (auto split: if_splits)
    with consistent_compare.trans [OF f] have "f x z \<le> 0" by blast
    moreover have "f x y = 0 \<and> f y z = 0" if "f x z = 0"
      using that le consistent_compare.trans [OF f, of z x y] consistent_compare.trans [OF f, of y z x]
        consistent_compare.opposite [OF f] by (metis less_le order.order_iff_strict not_less)
    ultimately show ?thesis using that consistent_compare.trans [OF g, of x y z] by auto
  qed
qed

section \<open>Shared rules\<close>

definition MAX_PUBLIC_MATCH_REASONS :: nat where "MAX_PUBLIC_MATCH_REASONS = 8"
definition MAX_PUBLIC_MATCH_REASON_CHARACTERS :: nat where "MAX_PUBLIC_MATCH_REASON_CHARACTERS = 500"

definition PRIVATE_ATTRIBUTE_KEY :: "jstr list" where
  "PRIVATE_ATTRIBUTE_KEY = map js
     [''accesskey'', ''apikey'', ''authorization'', ''bearer'', ''contact'', ''cookie'', ''credential'', ''email'',
      ''manifest'', ''oauth'', ''password'', ''phone'', ''private'', ''providerhint'', ''secret'', ''session'',
      ''supplyparty'', ''terms'', ''token'', ''wechat'']"

definition PRIVATE_ATTRIBUTE_KEY_CJK :: "jstr list" where
  "PRIVATE_ATTRIBUTE_KEY_CJK =
     [[32852, 31995], [30005, 35805], [25163, 26426], [24494, 20449], [37038, 31665], [23494, 38053], [31192, 23494],
      [20196, 29260], [28165, 21333]]"

definition isSafePublicAttributeKey :: "engine \<Rightarrow> jstr \<Rightarrow> bool" where
  "isSafePublicAttributeKey E key \<longleftrightarrow>
     (let normalized = filter (\<lambda>c. is_lower c \<or> is_digit c) (to_locale_lower E key)
      in \<not> list_ex (has_substring normalized) PRIVATE_ATTRIBUTE_KEY \<and>
         \<not> list_ex (has_substring key) PRIVATE_ATTRIBUTE_KEY_CJK)"

text \<open>The set \<open>seen\<close> of the source holds the reasons pushed so far.\<close>

fun bounded_loop :: "jstr list \<Rightarrow> jstr list \<Rightarrow> jstr list" where
  "bounded_loop reasons [] = reasons"
| "bounded_loop reasons (v # vs) =
     (let reason = truncateScalars (trim v) MAX_PUBLIC_MATCH_REASON_CHARACTERS
      in if reason = [] \<or> reason \<in> set reasons then bounded_loop reasons vs
         else if Suc (length reasons) = MAX_PUBLIC_MATCH_REASONS then reasons @ [reason]
         else bounded_loop (reasons @ [reason]) vs)"

definition boundedMatchReasons :: "jstr list \<Rightarrow> jstr list" where
  "boundedMatchReasons values = bounded_loop [] values"

section \<open>Candidates\<close>

record 'row PublicStorefrontRankingCandidate =
  rc_row :: 'row
  rc_displayName :: jstr
  rc_attributes :: "(jstr \<times> json) list"
  rc_terms :: "(jstr \<times> json) list"

record 'row RankedPublicStorefrontCandidate =
  rk_candidate :: "'row PublicStorefrontRankingCandidate"
  rk_score :: "jsnum option"
  rk_overlapCount :: int
  rk_overlapLabels :: "jstr list"
  rk_intentReasons :: "jstr list"
  rk_originalIndex :: nat

record 'row prepared =
  pp_candidate :: "'row PublicStorefrontRankingCandidate"
  pp_originalIndex :: nat
  pp_intentReasons :: "jstr list"
  pp_request :: PreparedLexicalRankCandidate

definition attribute_text :: "engine \<Rightarrow> jstr \<times> json \<Rightarrow> jstr list" where
  "attribute_text E m =
     (case m of (key, value) \<Rightarrow>
        if \<not> isSafePublicAttributeKey E key \<or> \<not> isPrimitive (Some value) then []
        else if (case as_number (Some value) of Some x \<Rightarrow> \<not> is_finite x | None \<Rightarrow> False) then []
        else let normalized = trim (string_of value) in if normalized \<noteq> [] then [normalized] else [])"

definition publicPrimitiveAttributeDescription :: "engine \<Rightarrow> (jstr \<times> json) list \<Rightarrow> jstr" where
  "publicPrimitiveAttributeDescription E attributes =
     truncateScalars (join_with [10] (concat (map (attribute_text E) (sort_key fst (object_entries attributes)))))
       MAX_LEXICAL_RANK_DESCRIPTION_CHARACTERS"

definition prepare ::
    "engine \<Rightarrow> PublicShoppingIntent option \<Rightarrow> 'row PublicStorefrontRankingCandidate \<Rightarrow> nat \<Rightarrow> 'row prepared" where
  "prepare E intent candidate originalIndex =
     (let evaluation = evaluateShoppingIntent E (rc_attributes candidate) (rc_terms candidate) intent
      in \<lparr> pp_candidate = candidate, pp_originalIndex = originalIndex,
           pp_intentReasons = take MAX_LEXICAL_RANK_INTENT_REASONS (boundedMatchReasons (se_reasons evaluation)),
           pp_request = \<lparr>
             pr_displayName = truncateScalars (trim (rc_displayName candidate)) MAX_LEXICAL_RANK_NAME_CHARACTERS,
             pr_description = publicPrimitiveAttributeDescription E (rc_attributes candidate),
             pr_eligible = se_eligible evaluation,
             pr_intentBoost = se_boost evaluation,
             pr_intentReasons = map (\<lambda>reason. truncateScalars reason MAX_LEXICAL_RANK_REASON_CHARACTERS)
               (boundedMatchReasons (se_reasons evaluation)) \<rparr> \<rparr>)"

definition prepare_all ::
    "engine \<Rightarrow> PublicShoppingIntent option \<Rightarrow> 'row PublicStorefrontRankingCandidate list \<Rightarrow> 'row prepared list" where
  "prepare_all E intent candidates = map2 (prepare E intent) candidates [0..<length candidates]"

definition hasStructuredIntentCriteria :: "PublicShoppingIntent option \<Rightarrow> bool" where
  "hasStructuredIntentCriteria intent =
     (case intent of None \<Rightarrow> False | Some i \<Rightarrow> si_budget i \<noteq> None \<or> si_requirements i \<noteq> [])"

definition hasPublicStorefrontRequestCriteria :: "jstr \<Rightarrow> PublicShoppingIntent option \<Rightarrow> bool" where
  "hasPublicStorefrontRequestCriteria narrative intent \<longleftrightarrow>
     0 < length (trim narrative) \<or> hasStructuredIntentCriteria intent"

section \<open>Merging\<close>

text \<open>The sign of \<open>x - y\<close>; 0 where the difference is not a number.\<close>

definition num_difference :: "jsnum \<Rightarrow> jsnum \<Rightarrow> int" where
  "num_difference x y = (if num_less x y then - 1 else if num_less y x then 1 else 0)"

definition compare_ranked :: "'row RankedPublicStorefrontCandidate \<Rightarrow> 'row RankedPublicStorefrontCandidate \<Rightarrow> int" where
  "compare_ranked left right =
     (let score = (\<lambda>c. case rk_score c of Some x \<Rightarrow> x | None \<Rightarrow> num_of_int 0);
          byOverlap = rk_overlapCount right - rk_overlapCount left;
          byScore = num_difference (score right) (score left)
      in if byOverlap \<noteq> 0 then byOverlap else if byScore \<noteq> 0 then byScore
         else int (rk_originalIndex left) - int (rk_originalIndex right))"

fun merge_rows ::
    "'row prepared list \<Rightarrow> nat list \<Rightarrow> GatewayLexicalRankedCandidate list \<Rightarrow>
     'row RankedPublicStorefrontCandidate list ranking_result" where
  "merge_rows prepared seen [] = Inr []"
| "merge_rows prepared seen (ranked # rows) =
     (let i = gr_candidateIndex ranked
      in if length prepared \<le> i \<or> i \<in> set seen \<or> \<not> pr_eligible (pp_request (prepared ! i))
         then Inl (ranking_error Malformed_response)
         else rbind (merge_rows prepared (i # seen) rows) (\<lambda>rest.
           Inr (\<lparr> rk_candidate = pp_candidate (prepared ! i), rk_score = Some (gr_score ranked),
                  rk_overlapCount = gr_overlapCount ranked, rk_overlapLabels = gr_overlapLabels ranked,
                  rk_intentReasons = pp_intentReasons (prepared ! i),
                  rk_originalIndex = pp_originalIndex (prepared ! i) \<rparr> # rest)))"

definition mergeRustRankedCandidates ::
    "'row prepared list \<Rightarrow> GatewayLexicalRankedCandidate list \<Rightarrow>
     'row RankedPublicStorefrontCandidate list ranking_result" where
  "mergeRustRankedCandidates prepared rankedRows =
     rbind (merge_rows prepared [] rankedRows) (\<lambda>merged. Inr (sort_by compare_ranked merged))"

definition unscored :: "'row prepared \<Rightarrow> 'row RankedPublicStorefrontCandidate" where
  "unscored p = \<lparr> rk_candidate = pp_candidate p, rk_score = None, rk_overlapCount = 0, rk_overlapLabels = [],
     rk_intentReasons = [], rk_originalIndex = pp_originalIndex p \<rparr>"

definition rankPublicStorefrontCandidates ::
    "engine \<Rightarrow> 'row PublicStorefrontRankingCandidate list \<Rightarrow> jstr \<Rightarrow> PublicShoppingIntent option \<Rightarrow>
     (jstr \<Rightarrow> PreparedLexicalRankCandidate list \<Rightarrow> GatewayLexicalRankedCandidate list ranking_result) \<Rightarrow>
     'row RankedPublicStorefrontCandidate list ranking_result" where
  "rankPublicStorefrontCandidates E candidates narrative intent rustRanker =
     (let prepared = prepare_all E intent candidates
      in if \<not> hasPublicStorefrontRequestCriteria narrative intent then Inr (map unscored prepared)
         else rbind (rustRanker narrative (map pp_request prepared)) (mergeRustRankedCandidates prepared))"

section \<open>Catalogue orders\<close>

datatype PublicOfferSearchSort = Latest | Popularity | Price_asc | Price_desc

record PublicStorefrontSortCandidate =
  so_publishedAt :: "jstr option"
  so_likeTotal :: "jstr option"
  so_terms :: json

text \<open>\<open>String(value)\<close> and \<open>Number(value)\<close> on any value.\<close>

fun js_string :: "json \<Rightarrow> jstr" where
  "js_string JNull = js ''null''"
| "js_string (JBool b) = (if b then js ''true'' else js ''false'')"
| "js_string (JNum x) = text_of_number x"
| "js_string (JStr s) = s"
| "js_string (JArr vs) = join_with [44] (map (\<lambda>v. if v = JNull then [] else js_string v) vs)"
| "js_string (JObj ms) = js ''[object Object]''"

fun js_number :: "engine \<Rightarrow> json option \<Rightarrow> jsnum" where
  "js_number E None = NumNaN"
| "js_number E (Some JNull) = num_of_int 0"
| "js_number E (Some (JBool b)) = (if b then num_of_int 1 else num_of_int 0)"
| "js_number E (Some (JNum x)) = x"
| "js_number E (Some v) = number_of_text E (js_string v)"

definition integerText :: "json option \<Rightarrow> nat" where
  "integerText v =
     (let textValue = (case v of None \<Rightarrow> [] | Some JNull \<Rightarrow> [] | Some w \<Rightarrow> js_string w)
      in if textValue \<noteq> [] \<and> list_all is_digit textValue then read_nat textValue else 0)"

definition compareBigInt :: "nat \<Rightarrow> nat \<Rightarrow> int" where
  "compareBigInt left right = (if left < right then - 1 else if right < left then 1 else 0)"

record public_price =
  pc_currency :: jstr
  pc_amount :: nat
  pc_scale :: nat

definition publicPrice :: "engine \<Rightarrow> json \<Rightarrow> public_price" where
  "publicPrice E v =
     (let terms = record_of (Some v); rawScale = js_number E (member terms ''currency_scale'')
      in \<lparr> pc_currency = (case as_string (member terms ''currency'') of Some s \<Rightarrow> trim s | None \<Rightarrow> []),
           pc_amount = integerText (member terms ''amount_minor''),
           pc_scale = (if is_integer rawScale then nat (max 0 (min 18 (num_int rawScale))) else 0) \<rparr>)"

definition comparePublicStorefrontOffers ::
    "engine \<Rightarrow> (jstr \<Rightarrow> jstr \<Rightarrow> int) \<Rightarrow> PublicStorefrontSortCandidate \<Rightarrow> PublicStorefrontSortCandidate \<Rightarrow>
     PublicOfferSearchSort \<Rightarrow> int" where
  "comparePublicStorefrontOffers E locale_compare left right order =
     (if order = Latest
      then locale_compare (case so_publishedAt right of Some t \<Rightarrow> t | None \<Rightarrow> [])
             (case so_publishedAt left of Some t \<Rightarrow> t | None \<Rightarrow> [])
      else if order = Popularity
      then compareBigInt (integerText (map_option JStr (so_likeTotal right))) (integerText (map_option JStr (so_likeTotal left)))
      else
        let direction = (if order = Price_asc then 1 else - 1);
            leftPrice = publicPrice E (so_terms left); rightPrice = publicPrice E (so_terms right);
            currencyOrder = locale_compare (pc_currency leftPrice) (pc_currency rightPrice)
        in if currencyOrder \<noteq> 0 then currencyOrder
           else
             let scale = max (pc_scale leftPrice) (pc_scale rightPrice);
                 leftAmount = pc_amount leftPrice * 10 ^ (scale - pc_scale leftPrice);
                 rightAmount = pc_amount rightPrice * 10 ^ (scale - pc_scale rightPrice)
             in direction * compareBigInt leftAmount rightAmount)"


section \<open>Consistency of the comparisons\<close>

lemma num_less_trans_le:
  "is_finite x \<Longrightarrow> is_finite y \<Longrightarrow> num_difference x y = (if num_val x < num_val y then - 1 else if num_val y < num_val x then 1 else 0)"
  by (cases x; cases y) (simp_all add: num_difference_def)

text \<open>
  Scores that are not a number compare equal to every score, so the comparison of ranked
  candidates is an order only on the finite scores that the gateway lets through.
\<close>

definition ranked_finite :: "'row RankedPublicStorefrontCandidate \<Rightarrow> bool" where
  "ranked_finite c \<longleftrightarrow> (case rk_score c of Some x \<Rightarrow> is_finite x | None \<Rightarrow> True)"

definition score_val :: "'row RankedPublicStorefrontCandidate \<Rightarrow> rat" where
  "score_val c = (case rk_score c of Some x \<Rightarrow> num_val x | None \<Rightarrow> 0)"

lemma compare_ranked_finite:
  assumes "ranked_finite l" and "ranked_finite r"
  shows "compare_ranked l r =
    (if rk_overlapCount l \<noteq> rk_overlapCount r then rk_overlapCount r - rk_overlapCount l
     else if score_val r < score_val l then - 1 else if score_val l < score_val r then 1
     else int (rk_originalIndex l) - int (rk_originalIndex r))"
proof -
  let ?s = "\<lambda>c. case rk_score c of Some x \<Rightarrow> x | None \<Rightarrow> num_of_int 0"
  have v: "is_finite (?s c) \<and> num_val (?s c) = score_val c" if "ranked_finite c" for c :: "'a RankedPublicStorefrontCandidate"
    using that by (cases "rk_score c") (simp_all add: ranked_finite_def score_val_def is_integer_finite num_val_integer)
  have "num_difference (?s r) (?s l) = (if score_val r < score_val l then - 1 else if score_val l < score_val r then 1 else 0)"
    using num_less_trans_le [of "?s r" "?s l"] v [OF assms(1)] v [OF assms(2)] by simp
  then show ?thesis by (simp add: compare_ranked_def Let_def)
qed

text \<open>The comparison with scores clamped to the finite ones is consistent on all candidates.\<close>

definition rank_order :: "'row RankedPublicStorefrontCandidate \<Rightarrow> 'row RankedPublicStorefrontCandidate \<Rightarrow> int" where
  "rank_order l r =
    (if rk_overlapCount l \<noteq> rk_overlapCount r then rk_overlapCount r - rk_overlapCount l
     else if score_val r < score_val l then - 1 else if score_val l < score_val r then 1
     else int (rk_originalIndex l) - int (rk_originalIndex r))"

interpretation ranking: consistent_compare rank_order
  by unfold_locales (auto simp: rank_order_def split: if_splits)

lemma insert_by_cong:
  "(\<And>y. y \<in> set ys \<Longrightarrow> f x y = g x y) \<Longrightarrow> insert_by f x ys = insert_by g x ys"
  by (induction ys) auto

lemma sort_ranked:
  assumes "list_all ranked_finite cs"
  shows "sort_by compare_ranked cs = sort_by rank_order cs"
  using assms
proof (induction cs)
  case (Cons c cs)
  have "set (sort_by rank_order cs) = set cs" using ranking.mset_sort_by mset_eq_setD by metis
  with Cons have "insert_by compare_ranked c (sort_by rank_order cs) = insert_by rank_order c (sort_by rank_order cs)"
    by (intro insert_by_cong) (auto simp: list_all_iff rank_order_def compare_ranked_finite)
  with Cons show ?case by (simp add: sort_by_def)
qed (simp add: sort_by_def)

section \<open>Reasons\<close>

definition reason_texts :: "jstr list \<Rightarrow> jstr list" where
  "reason_texts vs = filter (\<lambda>r. r \<noteq> []) (map (\<lambda>v. truncateScalars (trim v) MAX_PUBLIC_MATCH_REASON_CHARACTERS) vs)"

lemma bounded_loop_spec:
  "length rs < MAX_PUBLIC_MATCH_REASONS \<Longrightarrow>
     bounded_loop rs vs = rs @ take (MAX_PUBLIC_MATCH_REASONS - length rs)
       (dedup (filter (\<lambda>r. r \<notin> set rs) (reason_texts vs)))"
proof (induction vs arbitrary: rs)
  case (Cons v vs)
  let ?r = "truncateScalars (trim v) MAX_PUBLIC_MATCH_REASON_CHARACTERS"
  show ?case
  proof (cases "?r = [] \<or> ?r \<in> set rs")
    case True
    with Cons show ?thesis by (auto simp: reason_texts_def Let_def)
  next
    case False
    then have f: "dedup (filter (\<lambda>r. r \<notin> set rs) (reason_texts (v # vs))) =
        ?r # dedup (filter (\<lambda>r. r \<notin> set (rs @ [?r])) (reason_texts vs))"
      by (simp add: reason_texts_def conj_ac)
    show ?thesis
    proof (cases "Suc (length rs) = MAX_PUBLIC_MATCH_REASONS")
      case True
      then have "MAX_PUBLIC_MATCH_REASONS - length rs = Suc 0" by simp
      with False f True show ?thesis by (simp add: Let_def)
    next
      case m: False
      with Cons.prems have lt: "length (rs @ [?r]) < MAX_PUBLIC_MATCH_REASONS" by simp
      then have "MAX_PUBLIC_MATCH_REASONS - length rs = Suc (MAX_PUBLIC_MATCH_REASONS - length (rs @ [?r]))" by simp
      with False m f Cons.IH [OF lt] show ?thesis by (simp add: Let_def)
    qed
  qed
qed (simp add: reason_texts_def)

lemma bounded_reasons: "boundedMatchReasons vs = take MAX_PUBLIC_MATCH_REASONS (dedup (reason_texts vs))"
  by (simp add: boundedMatchReasons_def bounded_loop_spec MAX_PUBLIC_MATCH_REASONS_def)

section \<open>Prepared requests\<close>

lemma prepared_nth:
  "length (prepare_all E intent candidates) = length candidates"
  "i < length candidates \<Longrightarrow> prepare_all E intent candidates ! i = prepare E intent (candidates ! i) i"
  by (simp_all add: prepare_all_def)

lemma prepared_in_bounds:
  assumes "add_law E"
  shows "candidate_in_bounds (pp_request (prepare E intent c i))"
proof -
  note ev = evaluation_range [OF assms, of "rc_attributes c" "rc_terms c" intent]
  have "length (boundedMatchReasons vs) \<le> MAX_LEXICAL_RANK_INTENT_REASONS" for vs
    by (simp add: bounded_reasons MAX_PUBLIC_MATCH_REASONS_def MAX_LEXICAL_RANK_INTENT_REASONS_def)
  with ev show ?thesis
    by (simp add: candidate_in_bounds_def prepare_def Let_def scalarLength_truncate
        publicPrimitiveAttributeDescription_def list_all_iff)
qed

lemma first_out_of_bounds_None: "list_all candidate_in_bounds cs \<Longrightarrow> first_out_of_bounds i cs = None"
  by (induction cs arbitrary: i) auto

section \<open>Merged rows\<close>

lemma merge_rows_ok:
  assumes "distinct (map gr_candidateIndex rows)" and "set (map gr_candidateIndex rows) \<inter> set seen = {}"
    and "\<And>g. g \<in> set rows \<Longrightarrow> gr_candidateIndex g < length candidates \<and>
      pr_eligible (pp_request (prepare_all E intent candidates ! gr_candidateIndex g)) \<and> is_finite (gr_score g)"
  shows "\<exists>out. merge_rows (prepare_all E intent candidates) seen rows = Inr out \<and>
    map rk_originalIndex out = map gr_candidateIndex rows \<and> list_all ranked_finite out \<and>
    (\<forall>c \<in> set out. rk_originalIndex c < length candidates \<and> rk_candidate c = candidates ! rk_originalIndex c \<and>
       se_eligible (evaluateShoppingIntent E (rc_attributes (rk_candidate c)) (rc_terms (rk_candidate c)) intent))"
  using assms
proof (induction rows arbitrary: seen)
  case (Cons g rows)
  let ?i = "gr_candidateIndex g"
  have g: "?i < length candidates" "pr_eligible (pp_request (prepare_all E intent candidates ! ?i))" "is_finite (gr_score g)"
    "?i \<notin> set seen"
    using Cons.prems(2,3) by auto
  from Cons.IH [of "?i # seen"] Cons.prems obtain out where
    "merge_rows (prepare_all E intent candidates) (?i # seen) rows = Inr out"
    "map rk_originalIndex out = map gr_candidateIndex rows" "list_all ranked_finite out"
    "\<forall>c \<in> set out. rk_originalIndex c < length candidates \<and> rk_candidate c = candidates ! rk_originalIndex c \<and>
       se_eligible (evaluateShoppingIntent E (rc_attributes (rk_candidate c)) (rc_terms (rk_candidate c)) intent)"
    by auto
  with g show ?case
    by (auto simp: Let_def prepared_nth prepare_def ranked_finite_def list_all_iff)
qed simp

definition ranked_before :: "'row RankedPublicStorefrontCandidate \<Rightarrow> 'row RankedPublicStorefrontCandidate \<Rightarrow> bool" where
  "ranked_before l r \<longleftrightarrow>
     rk_overlapCount r < rk_overlapCount l \<or>
     rk_overlapCount l = rk_overlapCount r \<and>
       (score_val r < score_val l \<or> score_val l = score_val r \<and> rk_originalIndex l < rk_originalIndex r)"

lemma sorted_wrt_strict:
  "distinct (map f ys) \<Longrightarrow> sorted_wrt R ys \<Longrightarrow> (\<And>x y. R x y \<Longrightarrow> f x \<noteq> f y \<Longrightarrow> S x y) \<Longrightarrow> sorted_wrt S ys"
  by (induction ys) (auto simp: image_iff)

lemma sorted_ranked_before:
  assumes "distinct (map rk_originalIndex cs)"
  shows "sorted_wrt ranked_before (sort_by rank_order cs)"
proof -
  have m: "mset (sort_by rank_order cs) = mset cs" by (rule ranking.mset_sort_by)
  then have "mset (map rk_originalIndex (sort_by rank_order cs)) = mset (map rk_originalIndex cs)" by simp
  with assms have d: "distinct (map rk_originalIndex (sort_by rank_order cs))" using mset_eq_imp_distinct_iff by blast
  have "sorted_wrt (\<lambda>l r. rank_order l r \<le> 0) (sort_by rank_order cs)" by (rule ranking.sorted_sort_by)
  moreover have "ranked_before l r" if "rank_order l r \<le> 0" "rk_originalIndex l \<noteq> rk_originalIndex r" for l r :: "'a RankedPublicStorefrontCandidate"
    using that by (auto simp: rank_order_def ranked_before_def split: if_splits)
  ultimately show ?thesis using sorted_wrt_strict [OF d] by blast
qed

section \<open>Attributes\<close>

lemma entries_filter:
  "object_entries (filter (\<lambda>m. P (fst m)) ms) = filter (\<lambda>m. P (fst m)) (object_entries ms)"
  by (simp add: object_entries_def filter_sort [symmetric] conj_commute)

lemma concat_filter_empty: "(\<And>x. x \<in> set xs \<Longrightarrow> \<not> P x \<Longrightarrow> f x = []) \<Longrightarrow> concat (map f (filter P xs)) = concat (map f xs)"
  by (induction xs) auto

section \<open>Prices\<close>

definition price_value :: "public_price \<Rightarrow> rat" where
  "price_value p = of_nat (pc_amount p) / 10 ^ pc_scale p"

lemma scaled_less:
  fixes a b :: nat
  assumes "k \<le> m" "l \<le> m"
  shows "a * 10 ^ (m - k) < b * 10 ^ (m - l) \<longleftrightarrow> (of_nat a / 10 ^ k :: rat) < of_nat b / 10 ^ l"
proof -
  have "(of_nat (a * 10 ^ (m - k)) :: rat) = of_nat a / 10 ^ k * 10 ^ m" "(of_nat (b * 10 ^ (m - l)) :: rat) = of_nat b / 10 ^ l * 10 ^ m"
    using power_diff [of "10 :: rat" k m] power_diff [of "10 :: rat" l m] assms by simp_all
  then have "(of_nat (a * 10 ^ (m - k)) < (of_nat (b * 10 ^ (m - l)) :: rat)) \<longleftrightarrow>
      (of_nat a / 10 ^ k * 10 ^ m :: rat) < of_nat b / 10 ^ l * 10 ^ m" by (simp only:)
  moreover have "(of_nat a / 10 ^ k * 10 ^ m :: rat) < of_nat b / 10 ^ l * 10 ^ m \<longleftrightarrow> (of_nat a / 10 ^ k :: rat) < of_nat b / 10 ^ l"
    by (rule mult_less_cancel_right_pos) simp
  ultimately show ?thesis by (simp only: of_nat_less_iff)
qed

definition price_order :: "public_price \<Rightarrow> public_price \<Rightarrow> int" where
  "price_order p q = (if price_value p < price_value q then - 1 else if price_value q < price_value p then 1 else 0)"

lemma compare_price:
  "comparePublicStorefrontOffers E lc l r Price_asc =
     (let p = publicPrice E (so_terms l); q = publicPrice E (so_terms r)
      in if lc (pc_currency p) (pc_currency q) \<noteq> 0 then lc (pc_currency p) (pc_currency q) else price_order p q)"
  "comparePublicStorefrontOffers E lc l r Price_desc =
     (let p = publicPrice E (so_terms l); q = publicPrice E (so_terms r)
      in if lc (pc_currency p) (pc_currency q) \<noteq> 0 then lc (pc_currency p) (pc_currency q) else - price_order p q)"
  by (simp_all add: comparePublicStorefrontOffers_def Let_def compareBigInt_def price_order_def price_value_def scaled_less)

section \<open>Claims\<close>

text \<open>
  C7. Ranking on top of the gateway: with any search criteria, when the ranker is the gateway
  (whatever its network does), the call fails only with the gateway's own error; otherwise it
  returns exactly the candidates that the gateway ranked, each once and with its own original
  position, all of them eligible for the intent, ordered by overlap, then score, then original
  position.
\<close>

theorem ranking_sound:
  assumes "hasPublicStorefrontRequestCriteria narrative intent"
    and "rankWithRustLexicalGateway E P url_print endpoint loaded post narrative
      (map pp_request (prepare_all E intent candidates)) (rustRanker narrative (map pp_request (prepare_all E intent candidates)))"
  shows "case rustRanker narrative (map pp_request (prepare_all E intent candidates)) of
      Inl e \<Rightarrow> rankPublicStorefrontCandidates E candidates narrative intent rustRanker = Inl e
    | Inr rows \<Rightarrow> \<exists>out. rankPublicStorefrontCandidates E candidates narrative intent rustRanker = Inr out \<and>
        sorted_wrt ranked_before out \<and> distinct (map rk_originalIndex out) \<and>
        mset (map rk_originalIndex out) = mset (map gr_candidateIndex rows) \<and>
        (\<forall>c \<in> set out. rk_originalIndex c < length candidates \<and> rk_candidate c = candidates ! rk_originalIndex c \<and>
           se_eligible (evaluateShoppingIntent E (rc_attributes (rk_candidate c)) (rc_terms (rk_candidate c)) intent))"
proof (cases "rustRanker narrative (map pp_request (prepare_all E intent candidates))")
  case (Inl e)
  with assms(1) show ?thesis by (simp add: rankPublicStorefrontCandidates_def Let_def)
next
  case (Inr rows)
  with assms(2) have g: "distinct (map gr_candidateIndex rows)"
    "\<And>g. g \<in> set rows \<Longrightarrow> gr_candidateIndex g < length candidates \<and>
      pr_eligible (pp_request (prepare_all E intent candidates ! gr_candidateIndex g)) \<and> is_finite (gr_score g)"
    by (auto simp: prepared_nth row_sound_def dest!: gateway_rows)
  from merge_rows_ok [OF g(1) _ g(2), of "[]"] obtain out where
    out: "merge_rows (prepare_all E intent candidates) [] rows = Inr out" "map rk_originalIndex out = map gr_candidateIndex rows"
      "list_all ranked_finite out"
    and each: "\<forall>c \<in> set out. rk_originalIndex c < length candidates \<and> rk_candidate c = candidates ! rk_originalIndex c \<and>
       se_eligible (evaluateShoppingIntent E (rc_attributes (rk_candidate c)) (rc_terms (rk_candidate c)) intent)" by auto
  let ?out = "sort_by rank_order out"
  have m: "mset ?out = mset out" by (rule ranking.mset_sort_by)
  then have i: "mset (map rk_originalIndex ?out) = mset (map gr_candidateIndex rows)" by (metis out(2) mset_map)
  with g(1) have "distinct (map rk_originalIndex ?out)" using mset_eq_imp_distinct_iff by blast
  moreover have "sorted_wrt ranked_before ?out" using g(1) out(2) by (intro sorted_ranked_before) simp
  moreover have "rankPublicStorefrontCandidates E candidates narrative intent rustRanker = Inr ?out"
    using assms(1) Inr out
    by (simp add: rankPublicStorefrontCandidates_def Let_def mergeRustRankedCandidates_def sort_ranked)
  ultimately show ?thesis using Inr i each mset_eq_setD [OF m] by auto
qed

definition example_offer :: "nat PublicStorefrontRankingCandidate" where
  "example_offer = \<lparr> rc_row = 7, rc_displayName = js ''Tea'', rc_attributes = [], rc_terms = [] \<rparr>"

lemma example_prepared: "map pp_request (prepare_all example_engine None [example_offer]) = [example_candidate]"
  by (simp add: prepare_all_def prepare_def example_offer_def example_candidate_def evaluateShoppingIntent_def
      boundedMatchReasons_def publicPrimitiveAttributeDescription_def object_entries_def truncateScalars_def
      js_simps trim_def is_space_def is_high_def MAX_LEXICAL_RANK_NAME_CHARACTERS_def)

theorem ranking_sound_witness:
  "\<exists>out. rankPublicStorefrontCandidates example_engine [example_offer] (js ''tea'') None (\<lambda>_ _. Inr [example_row]) = Inr out \<and>
     map rk_originalIndex out = [0]"
proof -
  have "hasPublicStorefrontRequestCriteria (js ''tea'') None"
    by (simp add: hasPublicStorefrontRequestCriteria_def js_simps trim_def is_space_def)
  moreover have "rankWithRustLexicalGateway example_engine example_host (\<lambda>_. []) (js ''http://kernel/'') (Some (js ''token''))
      (\<lambda>_. example_post) (js ''tea'') (map pp_request (prepare_all example_engine None [example_offer])) (Inr [example_row])"
    unfolding example_prepared by (rule example_rank)
  ultimately show ?thesis
    using ranking_sound [of "js ''tea''" None example_engine example_host "\<lambda>_. []" "js ''http://kernel/''" "Some (js ''token'')"
        "\<lambda>_. example_post" "[example_offer]" "\<lambda>_ _. Inr [example_row]"]
    by (auto simp: example_row_def simp del: mset_map simp flip: mset_map)
qed

text \<open>
  Every request that the storefront prepares is within the limits of the gateway: the input
  check refuses only an overlong narrative or too many candidates, never a single candidate,
  whatever its name, attributes, terms and the intent contain.
\<close>

theorem prepared_requests_accepted:
  assumes "add_law E"
  shows "assertRequestInput narrative (map pp_request (prepare_all E intent candidates)) =
    (if 8000 < scalarLength narrative \<or> 2000 < length candidates then Inl (ranking_error Request_too_large) else Inr ())"
proof -
  have "list_all candidate_in_bounds (map pp_request (prepare_all E intent candidates))"
    by (simp add: list_all_length prepared_nth prepared_in_bounds [OF assms])
  from first_out_of_bounds_None [OF this] show ?thesis
    by (simp add: assertRequestInput_def prepared_nth MAX_LEXICAL_RANK_NARRATIVE_CHARACTERS_def
        MAX_LEXICAL_RANK_TOTAL_CANDIDATES_def)
qed

theorem prepared_requests_accepted_witness:
  "assertRequestInput (js ''tea'') (map pp_request (prepare_all example_engine None [example_offer])) = Inr ()"
  using prepared_requests_accepted [OF example_add_law, of "js ''tea''" None "[example_offer]"]
  by (simp add: js_simps scalarLength_def is_high_def)

text \<open>
  The reasons shown for a match are the trimmed texts, cut after 500 code points, without
  empty ones and repetitions, the first eight of them.
\<close>

theorem boundedMatchReasons_spec:
  "boundedMatchReasons values =
     take 8 (dedup (filter (\<lambda>r. r \<noteq> []) (map (\<lambda>v. truncateScalars (trim v) 500) values)))"
  by (simp add: bounded_reasons reason_texts_def MAX_PUBLIC_MATCH_REASONS_def MAX_PUBLIC_MATCH_REASON_CHARACTERS_def)

text \<open>
  Private attributes do not reach the ranking kernel: the description sent for an offer
  depends only on its attributes under safe keys.
\<close>

theorem private_attributes_withheld:
  "publicPrimitiveAttributeDescription E attributes =
     publicPrimitiveAttributeDescription E (filter (\<lambda>m. isSafePublicAttributeKey E (fst m)) attributes)"
proof -
  let ?P = "\<lambda>m :: jstr \<times> json. isSafePublicAttributeKey E (fst m)"
  have "concat (map (attribute_text E) (filter ?P xs)) = concat (map (attribute_text E) xs)" for xs
    by (rule concat_filter_empty) (auto simp: attribute_text_def)
  then show ?thesis
    by (simp add: publicPrimitiveAttributeDescription_def entries_filter filter_sort [symmetric])
qed

text \<open>
  Orders by price compare the exact decimal values of amounts of one currency, whatever
  scales they are given in (the scales are clamped to 0..18 and nothing is rounded).
\<close>

theorem price_order_exact:
  assumes "locale_compare (pc_currency (publicPrice E (so_terms left))) (pc_currency (publicPrice E (so_terms right))) = 0"
  shows "comparePublicStorefrontOffers E locale_compare left right Price_asc =
      (if price_value (publicPrice E (so_terms left)) < price_value (publicPrice E (so_terms right)) then - 1
       else if price_value (publicPrice E (so_terms right)) < price_value (publicPrice E (so_terms left)) then 1 else 0) \<and>
    comparePublicStorefrontOffers E locale_compare left right Price_desc =
      - comparePublicStorefrontOffers E locale_compare left right Price_asc"
  using assms by (simp add: compare_price price_order_def)

definition example_terms :: "string \<Rightarrow> int \<Rightarrow> json" where
  "example_terms amount scale = JObj [(js ''currency'', JStr (js ''USD'')), (js ''amount_minor'', JStr (js amount)),
     (js ''currency_scale'', JNum (num_of_int scale))]"

theorem price_order_exact_witness:
  "comparePublicStorefrontOffers example_engine (\<lambda>_ _. 0)
     \<lparr> so_publishedAt = None, so_likeTotal = None, so_terms = example_terms ''150'' 2 \<rparr>
     \<lparr> so_publishedAt = None, so_likeTotal = None, so_terms = example_terms ''1500'' 3 \<rparr> Price_asc = 0"
proof -
  let ?o = "\<lambda>a k. \<lparr> so_publishedAt = None, so_likeTotal = None, so_terms = example_terms a k \<rparr>"
  have "price_value (publicPrice example_engine (example_terms ''150'' 2)) = price_value (publicPrice example_engine (example_terms ''1500'' 3))"
    by (simp add: price_value_def publicPrice_def Let_def record_of_def example_terms_def integerText_def)
       (simp add: js_simps is_digit_def read_nat_Cons)
  with price_order_exact [of "\<lambda>_ _. 0" example_engine "?o ''150'' 2" "?o ''1500'' 3"] show ?thesis by simp
qed

text \<open>
  Every catalogue order (latest, most liked, cheapest and dearest first) is a consistent
  comparison, when the collation of the platform is one, so sorting by it is well defined.
\<close>

theorem offer_orders_consistent:
  assumes "consistent_compare locale_compare"
  shows "consistent_compare (\<lambda>left right. comparePublicStorefrontOffers E locale_compare left right order)"
proof (cases order)
  case Latest
  from consistent_reverse [OF consistent_on [OF assms, of "\<lambda>o'. case so_publishedAt o' of Some t \<Rightarrow> t | None \<Rightarrow> []"]] Latest show ?thesis
    by (simp add: comparePublicStorefrontOffers_def)
next
  case Popularity
  from consistent_reverse [OF consistent_key [of "\<lambda>o'. integerText (map_option JStr (so_likeTotal o'))"]] Popularity show ?thesis
    by (simp add: comparePublicStorefrontOffers_def compareBigInt_def)
next
  case Price_asc
  from consistent_lex [OF consistent_on [OF assms] consistent_key [of "\<lambda>o'. price_value (publicPrice E (so_terms o'))"],
      of "\<lambda>o'. pc_currency (publicPrice E (so_terms o'))"] Price_asc show ?thesis
    by (simp add: compare_price price_order_def Let_def cong: if_cong)
next
  case Price_desc
  have "(- (if a < b then - 1 else if b < a then 1 else 0 :: int)) = (if b < a then - 1 else if a < b then 1 else 0)" for a b :: rat by auto
  with consistent_lex [OF consistent_on [OF assms] consistent_reverse [OF consistent_key [of "\<lambda>o'. price_value (publicPrice E (so_terms o'))"]],
      of "\<lambda>o'. pc_currency (publicPrice E (so_terms o'))"] Price_desc show ?thesis
    by (simp add: compare_price price_order_def Let_def cong: if_cong)
qed

theorem offer_orders_consistent_witness:
  "consistent_compare (\<lambda>left right. comparePublicStorefrontOffers example_engine
     (\<lambda>s t. if s < t then - 1 else if t < s then 1 else 0) left right Price_desc)"
  by (rule offer_orders_consistent [OF consistent_key])

end
