(* ===== verification/Catalog_Projection.thy ===== *)
theory Catalog_Projection
  imports Router_Contract Js_Object "HOL-Library.List_Lexorder"
begin

text \<open>
  The catalogue protocol between the marketplace and its child platforms, after
  \<open>web/src/catalog-projection.ts\<close>: a projection of a canonical offer is bound to its version by
  a digest of its canonical JSON text, and the acknowledgement of a child is checked against the
  projection that was sent.
\<close>

section \<open>Data\<close>

definition CATALOG_PROJECTION_PROTOCOL :: jstr where
  "CATALOG_PROJECTION_PROTOCOL = js ''matchplane.catalog/v2''"

datatype CatalogOfferStatus = Draft | Active | Reserved | Sold | Withdrawn | Expired

fun status_text :: "CatalogOfferStatus \<Rightarrow> jstr" where
  "status_text Draft = js ''draft''"
| "status_text Active = js ''active''"
| "status_text Reserved = js ''reserved''"
| "status_text Sold = js ''sold''"
| "status_text Withdrawn = js ''withdrawn''"
| "status_text Expired = js ''expired''"

record CanonicalCatalogOffer =
  co_offerId :: jstr
  co_externalKey :: jstr
  co_displayName :: jstr
  co_attributes :: "(jstr \<times> json) list"
  co_terms :: "(jstr \<times> json) list"
  co_status :: CatalogOfferStatus
  co_canonicalVersion :: int

record projection_scope =
  ps_tenant_id :: jstr
  ps_domain_id :: jstr
  ps_platform_path :: jstr

record CatalogProjectionArguments =
  ca_request_id :: jstr
  ca_canonical_version :: int
  ca_projection_digest :: jstr
  ca_scope :: projection_scope
  ca_offer :: CanonicalCatalogOffer
  ca_attachments :: "jstr list"

datatype CatalogProjectionAck = AckOk bool int bool | AckFailure jstr

section \<open>Canonical JSON text\<close>

text \<open>The two ways in which the text can fail to be made.\<close>

datatype stable_error = NonFiniteNumber

text \<open>
  \<open>compareCanonicalKeys\<close>, the order of code units, is the order of the lists (\<open>sorted_canonical\<close>), by which
  \<open>stableJson\<close> sorts the members.
\<close>

definition compareCanonicalKeys :: "jstr \<Rightarrow> jstr \<Rightarrow> int" where
  "compareCanonicalKeys left right = (if left < right then - 1 else if right < left then 1 else 0)"

lemma sorted_canonical: "sorted ks \<longleftrightarrow> sorted_wrt (\<lambda>l r. compareCanonicalKeys l r \<le> 0) ks"
proof -
  have "compareCanonicalKeys l r \<le> 0 \<longleftrightarrow> l \<le> r" for l r by (auto simp: compareCanonicalKeys_def)
  then show ?thesis by (simp add: sorted_wrt_iff_nth_less sorted_iff_nth_mono_less)
qed

lemma rmap_cong [fundef_cong]:
  "xs = ys \<Longrightarrow> (\<And>x. x \<in> set ys \<Longrightarrow> f x = g x) \<Longrightarrow> rmap f xs = rmap g ys"
proof -
  have "(\<And>x. x \<in> set ys \<Longrightarrow> f x = g x) \<Longrightarrow> rmap f ys = rmap g ys"
    by (induction ys) auto
  then show "xs = ys \<Longrightarrow> (\<And>x. x \<in> set ys \<Longrightarrow> f x = g x) \<Longrightarrow> rmap f xs = rmap g ys" by simp
qed

lemma rbind_cong [fundef_cong]: "m = m' \<Longrightarrow> (\<And>x. m' = Inr x \<Longrightarrow> f x = g x) \<Longrightarrow> rbind m f = rbind m' g"
  by (cases m') auto

lemma size_member_value: "m \<in> set ms \<Longrightarrow> size (snd m) < Suc (size_list (size_prod (\<lambda>_. 0) size) ms)"
  by (induction ms) auto

fun stableJson :: "json \<Rightarrow> stable_error + jstr" where
  "stableJson JNull = Inr (js ''null'')"
| "stableJson (JStr s) = Inr (stringify (JStr s))"
| "stableJson (JBool b) = Inr (stringify (JBool b))"
| "stableJson (JNum x) = (if is_finite x then Inr (stringify (JNum x)) else Inl NonFiniteNumber)"
| "stableJson (JArr vs) = rbind (rmap stableJson vs) (\<lambda>ts. Inr (91 # join_with [44] ts @ [93]))"
| "stableJson (JObj ms) =
     rbind (rmap (\<lambda>m. rbind (stableJson (snd m)) (\<lambda>t. Inr (stringify (JStr (fst m)) @ 58 # t))) (sort_key fst ms))
       (\<lambda>ts. Inr (123 # join_with [44] ts @ [125]))"

section \<open>Projections\<close>

definition objectValue :: "json option \<Rightarrow> (jstr \<times> json) list option" where
  "objectValue v = as_record v"

definition attachment_ref :: "json \<Rightarrow> jstr list" where
  "attachment_ref v =
     (case objectValue (Some v) of
        None \<Rightarrow> []
      | Some r \<Rightarrow> (case as_string (member r ''attachment_ref'') of Some s \<Rightarrow> [s] | None \<Rightarrow> []))"

definition catalogAttachments :: "(jstr \<times> json) list \<Rightarrow> jstr list" where
  "catalogAttachments attributes =
     (case as_array (member attributes ''attachments'') of
        None \<Rightarrow> []
      | Some xs \<Rightarrow> concat (map attachment_ref xs))"

definition scope_json :: "projection_scope \<Rightarrow> json" where
  "scope_json s = JObj [(js ''tenant_id'', JStr (ps_tenant_id s)), (js ''domain_id'', JStr (ps_domain_id s)),
     (js ''platform_path'', JStr (ps_platform_path s))]"

definition offer_json :: "CanonicalCatalogOffer \<Rightarrow> json" where
  "offer_json o' = JObj
     [(js ''offer_id'', JStr (co_offerId o')), (js ''external_key'', JStr (co_externalKey o')),
      (js ''display_name'', JStr (co_displayName o')), (js ''attributes'', JObj (co_attributes o')),
      (js ''terms'', JObj (co_terms o')), (js ''status'', JStr (status_text (co_status o'))),
      (js ''attachments'', JArr (map JStr (catalogAttachments (co_attributes o'))))]"

definition digest_json :: "projection_scope \<Rightarrow> CanonicalCatalogOffer \<Rightarrow> json" where
  "digest_json scope o' = JObj
     [(js ''canonical_version'', JNum (num_of_int (co_canonicalVersion o'))), (js ''scope'', scope_json scope),
      (js ''offer'', offer_json o')]"

datatype build_error = UnsafeVersion | Unstable stable_error

definition buildCatalogProjectionArguments ::
    "platform \<Rightarrow> jstr \<Rightarrow> projection_scope \<Rightarrow> CanonicalCatalogOffer \<Rightarrow> build_error + CatalogProjectionArguments" where
  "buildCatalogProjectionArguments P requestId scope o' =
     (if \<not> is_safe_integer (num_of_int (co_canonicalVersion o')) \<or> co_canonicalVersion o' < 1 then Inl UnsafeVersion
      else case stableJson (digest_json scope o') of
        Inl e \<Rightarrow> Inl (Unstable e)
      | Inr text \<Rightarrow>
          Inr \<lparr> ca_request_id = requestId, ca_canonical_version = co_canonicalVersion o',
                ca_projection_digest = sha256 P (utf8_encode text), ca_scope = scope, ca_offer = o',
                ca_attachments = catalogAttachments (co_attributes o') \<rparr>)"

section \<open>Acknowledgements\<close>

definition positiveSafeInteger :: "json option \<Rightarrow> int option" where
  "positiveSafeInteger v =
     (case as_number v of
        None \<Rightarrow> None
      | Some x \<Rightarrow> if is_safe_integer x \<and> 0 < num_int x then Some (num_int x) else None)"

definition sameScope :: "json option \<Rightarrow> projection_scope \<Rightarrow> bool" where
  "sameScope v expected =
     (case objectValue v of
        None \<Rightarrow> False
      | Some scope \<Rightarrow>
          member scope ''tenant_id'' = Some (JStr (ps_tenant_id expected)) \<and>
          member scope ''domain_id'' = Some (JStr (ps_domain_id expected)) \<and>
          member scope ''platform_path'' = Some (JStr (ps_platform_path expected)))"

definition structured_ack :: "(jstr \<times> json) list \<Rightarrow> (jstr \<times> json) list option" where
  "structured_ack payload =
     (case objectValue (member payload ''result'') of
        None \<Rightarrow> None
      | Some result \<Rightarrow> objectValue (member result ''structuredContent''))"

definition parseCatalogProjectionAck :: "(jstr \<times> json) list \<Rightarrow> CatalogProjectionArguments \<Rightarrow> CatalogProjectionAck" where
  "parseCatalogProjectionAck payload expected =
     (case structured_ack payload of
        None \<Rightarrow> AckFailure (js ''child response has no structured catalog ACK'')
      | Some ack \<Rightarrow>
          if member ack ''protocol'' \<noteq> Some (JStr CATALOG_PROJECTION_PROTOCOL)
          then AckFailure (js ''child catalog ACK protocol mismatch'')
          else if member ack ''request_id'' \<noteq> Some (JStr (ca_request_id expected))
          then AckFailure (js ''child catalog ACK request mismatch'')
          else if \<not> sameScope (member ack ''scope'') (ca_scope expected)
          then AckFailure (js ''child catalog ACK scope mismatch'')
          else if member ack ''offer_id'' \<noteq> Some (JStr (co_offerId (ca_offer expected)))
          then AckFailure (js ''child catalog ACK offer mismatch'')
          else if member ack ''canonical_version'' \<noteq> Some (JNum (num_of_int (ca_canonical_version expected)))
          then AckFailure (js ''child catalog ACK did not echo the requested version'')
          else case positiveSafeInteger (member ack ''applied_version'') of
            None \<Rightarrow> AckFailure (js ''child catalog ACK applied version is stale or invalid'')
          | Some appliedVersion \<Rightarrow>
              if appliedVersion < ca_canonical_version expected
              then AckFailure (js ''child catalog ACK applied version is stale or invalid'')
              else case (as_boolean (member ack ''applied''), as_boolean (member ack ''indexed'')) of
                (Some applied, Some indexed) \<Rightarrow>
                  if ca_canonical_version expected < appliedVersion then AckOk True appliedVersion applied
                  else if member ack ''projection_digest'' \<noteq> Some (JStr (ca_projection_digest expected))
                  then AckFailure (js ''child catalog ACK projection digest mismatch'')
                  else if member ack ''status'' \<noteq> Some (JStr (status_text (co_status (ca_offer expected))))
                  then AckFailure (js ''child catalog ACK status mismatch'')
                  else if indexed \<noteq> (co_status (ca_offer expected) = Active)
                  then AckFailure (js ''child catalog ACK indexed flag contradicts canonical status'')
                  else AckOk False appliedVersion applied
              | _ \<Rightarrow> AckFailure (js ''child catalog ACK application flags are invalid''))"

section \<open>The canonical text is the text of the value with its keys sorted\<close>

fun sort_keys :: "json \<Rightarrow> json" where
  "sort_keys (JArr vs) = JArr (map sort_keys vs)"
| "sort_keys (JObj ms) = JObj (map (\<lambda>m. (fst m, sort_keys (snd m))) (sort_key fst ms))"
| "sort_keys v = v"

lemma str_elems_join: "str_elems vs = join_with [44] (map stringify vs)"
proof (induction vs)
  case (Cons v vs)
  then show ?case by (cases vs) auto
qed simp

lemma str_members_join: "str_members ms = join_with [44] (map (\<lambda>m. quote (fst m) @ 58 # stringify (snd m)) ms)"
proof (induction ms)
  case (Cons m ms)
  then show ?case by (cases m; cases ms) auto
qed simp

lemma rmap_Inr_map: "(\<And>x. x \<in> set xs \<Longrightarrow> f x = Inr (g x)) \<Longrightarrow> rmap f xs = Inr (map g xs)"
  by (induction xs) auto

lemma stable_sorted: "wf_json v \<Longrightarrow> stableJson v = Inr (stringify (sort_keys v))"
proof (induction v rule: stableJson.induct)
  case (5 vs)
  then have "rmap stableJson vs = Inr (map (\<lambda>v. stringify (sort_keys v)) vs)"
    by (intro rmap_Inr_map) (auto simp: list_all_iff)
  then show ?case by (simp add: str_elems_join comp_def)
next
  case (6 ms)
  then have "rmap (\<lambda>m. rbind (stableJson (snd m)) (\<lambda>t. Inr (stringify (JStr (fst m)) @ 58 # t))) (sort_key fst ms) =
      Inr (map (\<lambda>m. stringify (JStr (fst m)) @ 58 # stringify (sort_keys (snd m))) (sort_key fst ms))"
    by (intro rmap_Inr_map) (auto simp: wf_json_Obj list_all_iff)
  then show ?case by (simp add: str_members_join comp_def)
qed simp_all

lemma sort_keys_wf: "wf_json v \<Longrightarrow> wf_json (sort_keys v)"
proof (induction v rule: sort_keys.induct)
  case (2 ms)
  have "mset (map fst (sort_key fst ms)) = mset (map fst ms)" by simp
  then have "distinct (map fst (sort_key fst ms))" using 2 mset_eq_imp_distinct_iff by (fastforce simp: wf_json_Obj)
  with 2 show ?case by (auto simp: wf_json_Obj list_all_iff comp_def)
qed (auto simp: list_all_iff)

text \<open>Specification: two values are the same up to the order of the members of their objects.\<close>

inductive same_json :: "json \<Rightarrow> json \<Rightarrow> bool" where
  same_scalar: "(\<And>vs. v \<noteq> JArr vs) \<Longrightarrow> (\<And>ms. v \<noteq> JObj ms) \<Longrightarrow> same_json v v"
| same_array: "list_all2 same_json vs ws \<Longrightarrow> same_json (JArr vs) (JArr ws)"
| same_object: "mset ms' = mset ms \<Longrightarrow> list_all2 (\<lambda>m n. fst m = fst n \<and> same_json (snd m) (snd n)) ms' ns \<Longrightarrow>
    same_json (JObj ms) (JObj ns)"

lemma insort_all2:
  "fst a = fst b \<Longrightarrow> R a b \<Longrightarrow> list_all2 (\<lambda>m n. fst m = fst n \<and> R m n) xs ys \<Longrightarrow>
     list_all2 (\<lambda>m n. fst m = fst n \<and> R m n) (insort_key fst a xs) (insort_key fst b ys)"
  by (rotate_tac 2, induction rule: list_all2_induct) auto

lemma sort_all2:
  "list_all2 (\<lambda>m n. fst m = fst n \<and> R m n) xs ys \<Longrightarrow>
     list_all2 (\<lambda>m n. fst m = fst n \<and> R m n) (sort_key fst xs) (sort_key fst ys)"
  by (induction rule: list_all2_induct) (auto simp: insort_all2)

lemma same_sort_keys: "same_json v w \<Longrightarrow> wf_json v \<Longrightarrow> sort_keys v = sort_keys w"
proof (induction rule: same_json.induct)
  case (same_scalar v)
  then show ?case by (cases v) auto
next
  case (same_array vs ws)
  then show ?case by (auto simp: list_all2_conv_all_nth list_all_length intro!: nth_equalityI)
next
  case (same_object ms' ms ns)
  then have inj: "inj_on fst (set ms)" by (auto simp: wf_json_Obj distinct_map)
  have "mset (sort_key fst ms') = mset ms" using same_object by simp
  then have s: "sort_key fst ms = sort_key fst ms'"
    using sort_key_inj_key_eq [OF _ inj, of "sort_key fst ms'"] by simp
  have w: "wf_json (snd m)" if "m \<in> set ms'" for m
    using same_object that mset_eq_setD by (fastforce simp: wf_json_Obj list_all_iff)
  have "list_all2 (\<lambda>m n. fst m = fst n \<and> (m \<in> set ms' \<and> sort_keys (snd m) = sort_keys (snd n))) ms' ns"
    using same_object(2) w by (auto simp: list_all2_conv_all_nth)
  from sort_all2 [OF this] have "map (\<lambda>m. (fst m, sort_keys (snd m))) (sort_key fst ms') = map (\<lambda>m. (fst m, sort_keys (snd m))) (sort_key fst ns)"
    by (auto simp: list_all2_conv_all_nth intro!: nth_equalityI)
  with s show ?case by simp
qed

lemma sort_keys_shape:
  "JArr vs = sort_keys w \<Longrightarrow> \<exists>ws. w = JArr ws \<and> vs = map sort_keys ws"
  "JObj ms = sort_keys w \<Longrightarrow> \<exists>ns. w = JObj ns \<and> ms = map (\<lambda>m. (fst m, sort_keys (snd m))) (sort_key fst ns)"
  "v = sort_keys w \<Longrightarrow> (\<And>vs. v \<noteq> JArr vs) \<Longrightarrow> (\<And>ms. v \<noteq> JObj ms) \<Longrightarrow> same_json v w"
  by (cases w; auto intro: same_scalar)+

lemma sort_keys_same: "sort_keys v = sort_keys w \<Longrightarrow> same_json v w"
proof (induction v arbitrary: w rule: sort_keys.induct)
  case (1 vs)
  have "JArr (map sort_keys vs) = sort_keys w" using 1(2) by (simp only: sort_keys.simps)
  from sort_keys_shape(1) [OF this] obtain ws where w: "w = JArr ws" "map sort_keys vs = map sort_keys ws" by blast
  have "list_all2 same_json vs ws"
  proof (rule list_all2_all_nthI)
    show len: "length vs = length ws" using w(2) by (rule map_eq_imp_length_eq)
    fix i assume i: "i < length vs"
    with len w(2) have "sort_keys (vs ! i) = sort_keys (ws ! i)" by (metis nth_map)
    with 1(1) i show "same_json (vs ! i) (ws ! i)" by simp
  qed
  with w show ?case by (simp add: same_array)
next
  case (2 ms)
  let ?f = "\<lambda>m. (fst m, sort_keys (snd m))"
  have "JObj (map ?f (sort_key fst ms)) = sort_keys w" using 2(2) by (simp only: sort_keys.simps)
  from sort_keys_shape(2) [OF this] obtain ns where w: "w = JObj ns" "map ?f (sort_key fst ms) = map ?f (sort_key fst ns)" by blast
  have "list_all2 (\<lambda>m n. fst m = fst n \<and> same_json (snd m) (snd n)) (sort_key fst ms) (sort_key fst ns)"
  proof (rule list_all2_all_nthI)
    show len: "length (sort_key fst ms) = length (sort_key fst ns)" using w(2) by (rule map_eq_imp_length_eq)
    fix i assume i: "i < length (sort_key fst ms)"
    have "map ?f (sort_key fst ms) ! i = map ?f (sort_key fst ns) ! i" by (simp only: w(2))
    with i len have "?f (sort_key fst ms ! i) = ?f (sort_key fst ns ! i)" by (simp only: nth_map)
    moreover have "sort_key fst ms ! i \<in> set (sort_key fst ms)" using i by (rule nth_mem)
    ultimately show "fst (sort_key fst ms ! i) = fst (sort_key fst ns ! i) \<and>
        same_json (snd (sort_key fst ms ! i)) (snd (sort_key fst ns ! i))"
      using "2.IH" by (metis prod.inject)
  qed
  then have "list_all2 (\<lambda>n m. fst m = fst n \<and> same_json (snd m) (snd n)) (sort_key fst ns) (sort_key fst ms)"
    by (simp add: list_all2_conv_all_nth)
  from list_all2_reorder_left_invariance [OF this, of ns] obtain ms' where
    "list_all2 (\<lambda>n m. fst m = fst n \<and> same_json (snd m) (snd n)) ns ms'" "mset ms' = mset ms" by auto
  then have "list_all2 (\<lambda>m n. fst m = fst n \<and> same_json (snd m) (snd n)) ms' ns" "mset ms' = mset ms"
    by (simp_all add: list_all2_conv_all_nth)
  with w show ?case by (auto intro: same_object)
qed (rule sort_keys_shape(3), simp, (metis json.distinct)+)+

lemma stable_iff_same:
  assumes "wf_json v" and "wf_json w"
  shows "stableJson v = stableJson w \<longleftrightarrow> same_json v w"
proof -
  have "stringify (sort_keys v) = stringify (sort_keys w) \<longleftrightarrow> sort_keys v = sort_keys w"
    using json_parse_stringify [OF sort_keys_wf [OF assms(1)]] json_parse_stringify [OF sort_keys_wf [OF assms(2)]]
    by (metis option.inject)
  also have "\<dots> \<longleftrightarrow> same_json v w" using same_sort_keys [OF _ assms(1)] sort_keys_same by blast
  finally show ?thesis by (simp only: stable_sorted [OF assms(1)] stable_sorted [OF assms(2)] sum.inject)
qed

section \<open>Claims\<close>

text \<open>
  C21. The text under the projection digest identifies the projected value and nothing else:
  for values that JSON can hold it is always made, and it is the same for two values exactly
  when they differ at most in the order in which their objects list their members.
\<close>

theorem digest_text_canonical:
  assumes "wf_json v" and "wf_json w"
  shows "(\<exists>t. stableJson v = Inr t) \<and> (stableJson v = stableJson w \<longleftrightarrow> same_json v w)"
  using stable_iff_same [OF assms] stable_sorted [OF assms(1)] by simp

theorem digest_text_canonical_witness:
  "stableJson (JObj [(js ''b'', JNull), (js ''a'', JBool True)]) = stableJson (JObj [(js ''a'', JBool True), (js ''b'', JNull)])"
proof -
  let ?v = "JObj [(js ''b'', JNull), (js ''a'', JBool True)]" and ?w = "JObj [(js ''a'', JBool True), (js ''b'', JNull)]"
  have "wf_json ?v" "wf_json ?w" by (simp_all add: wf_json_Obj wf_str_def js_def)
  moreover have "same_json ?v ?w"
    by (rule same_object [of "[(js ''a'', JBool True), (js ''b'', JNull)]"]) (auto intro: same_scalar)
  ultimately show ?thesis using digest_text_canonical [of ?v ?w] by blast
qed

text \<open>
  An acknowledgement counts as the application of exactly the projection that was sent only
  when the child echoes its protocol, request, scope, offer, version, digest and status and
  reports the offer as indexed exactly when it is active; it counts as superseded only when the
  child has applied a later version.
\<close>

theorem ack_accepted_iff:
  "parseCatalogProjectionAck payload expected = AckOk superseded v applied \<longleftrightarrow>
     (\<exists>ack indexed. structured_ack payload = Some ack \<and>
        member ack ''protocol'' = Some (JStr CATALOG_PROJECTION_PROTOCOL) \<and>
        member ack ''request_id'' = Some (JStr (ca_request_id expected)) \<and>
        sameScope (member ack ''scope'') (ca_scope expected) \<and>
        member ack ''offer_id'' = Some (JStr (co_offerId (ca_offer expected))) \<and>
        member ack ''canonical_version'' = Some (JNum (num_of_int (ca_canonical_version expected))) \<and>
        positiveSafeInteger (member ack ''applied_version'') = Some v \<and>
        member ack ''applied'' = Some (JBool applied) \<and> member ack ''indexed'' = Some (JBool indexed) \<and>
        (if superseded then ca_canonical_version expected < v
         else v = ca_canonical_version expected \<and>
           member ack ''projection_digest'' = Some (JStr (ca_projection_digest expected)) \<and>
           member ack ''status'' = Some (JStr (status_text (co_status (ca_offer expected)))) \<and>
           indexed = (co_status (ca_offer expected) = Active)))"
  by (auto simp: parseCatalogProjectionAck_def as_simps split: option.splits if_splits)

end
