(* ===== verification/Catalog_Relay.thy ===== *)
theory Catalog_Relay
  imports Catalog_Projection Shopping_Intent
begin

text \<open>
  The relay that delivers catalogue projections, after \<open>web/src/catalog-projection-relay.ts\<close>. The
  table of jobs is a list of rows, each SQL statement of the source is a function on it, and a
  program of the relay is a sequence of statements: before every statement other sessions may
  have changed the table, and every statement may fail with or without its effect. Reading
  offers and routes, resolving endpoints and calling children are arguments.
\<close>

section \<open>Jobs\<close>

definition DEFAULT_INTERVAL_MS :: int where "DEFAULT_INTERVAL_MS = 5000"
definition DEFAULT_BATCH_SIZE :: int where "DEFAULT_BATCH_SIZE = 4"
definition DEFAULT_LEASE_SECONDS :: int where "DEFAULT_LEASE_SECONDS = 45"
definition DEFAULT_MAX_ATTEMPTS :: int where "DEFAULT_MAX_ATTEMPTS = 8"
definition MAX_RETRY_DELAY_SECONDS :: nat where "MAX_RETRY_DELAY_SECONDS = 15 * 60"
definition CATALOG_TOOL :: jstr where "CATALOG_TOOL = js ''catalog.upsert''"

datatype JobStatus = Pending | Processing | Retry | Acked | Superseded | Dead

text \<open>A row of \<open>marketplace_offer_projection_jobs\<close>; times are in microseconds.\<close>

record job_row =
  jr_id :: jstr
  jr_tenant_id :: jstr
  jr_domain_id :: jstr
  jr_store_id :: jstr
  jr_offer_id :: jstr
  jr_canonical_version :: int
  jr_request_id :: jstr
  jr_status :: JobStatus
  jr_attempts :: nat
  jr_next_attempt_at :: int
  jr_lease_owner :: "jstr option"
  jr_lease_expires_at :: "int option"
  jr_last_error_code :: "jstr option"
  jr_last_error :: "jstr option"
  jr_created_at :: int
  jr_acked_at :: "int option"
  jr_registration_id :: "jstr option"
  jr_platform_path :: "jstr option"
  jr_mcp_server_key :: "jstr option"

record ProjectionJob =
  pj_id :: jstr
  pj_tenantId :: jstr
  pj_domainId :: jstr
  pj_storeId :: jstr
  pj_offerId :: jstr
  pj_canonicalVersion :: int
  pj_requestId :: jstr
  pj_attempts :: nat
  pj_registrationId :: "jstr option"
  pj_platformPath :: "jstr option"
  pj_mcpServerKey :: "jstr option"

record CanonicalProjectionSnapshot =
  sn_tenantId :: jstr
  sn_domainId :: jstr
  sn_storeId :: jstr
  sn_offerId :: jstr
  sn_canonicalVersion :: int
  sn_externalKey :: jstr
  sn_displayName :: jstr
  sn_attributes :: "(jstr \<times> json) list"
  sn_terms :: "(jstr \<times> json) list"
  sn_status :: CatalogOfferStatus
  sn_registrationId :: "jstr option"
  sn_platformPath :: "jstr option"
  sn_mcpServerKey :: "jstr option"
  sn_storeStatus :: jstr
  sn_integrationKind :: jstr

record RelayOptions =
  ro_workerId :: jstr
  ro_batchSize :: nat
  ro_leaseSeconds :: nat
  ro_maxAttempts :: nat

record ProjectionProblem =
  pb_code :: jstr
  pb_message :: jstr
  pb_retryable :: bool

datatype projection_error =
    RetryableProjectionError jstr jstr
  | PermanentProjectionError jstr jstr
  | OtherError

section \<open>Values\<close>

definition boundedInteger :: "engine \<Rightarrow> jstr option \<Rightarrow> int \<Rightarrow> int \<Rightarrow> int \<Rightarrow> int" where
  "boundedInteger E v fallback minimum maximum =
     (let parsed = (case v of None \<Rightarrow> NumNaN | Some s \<Rightarrow> number_of_text E s)
      in if is_safe_integer parsed \<and> minimum \<le> num_int parsed \<and> num_int parsed \<le> maximum
         then num_int parsed else fallback)"

definition boundedWorkerId :: "jstr \<Rightarrow> jstr" where
  "boundedWorkerId v = take 200 v"

record relay_environment =
  en_batch_size :: "jstr option"
  en_lease_seconds :: "jstr option"
  en_max_attempts :: "jstr option"
  en_interval_ms :: "jstr option"

text \<open>The options with which \<open>startCatalogProjectionRelay\<close> runs its loop, and the interval of the loop.\<close>

definition relay_options :: "engine \<Rightarrow> jstr \<Rightarrow> relay_environment \<Rightarrow> RelayOptions" where
  "relay_options E worker env =
     \<lparr> ro_workerId = boundedWorkerId worker,
       ro_batchSize = nat (boundedInteger E (en_batch_size env) DEFAULT_BATCH_SIZE 1 32),
       ro_leaseSeconds = nat (boundedInteger E (en_lease_seconds env) DEFAULT_LEASE_SECONDS 15 300),
       ro_maxAttempts = nat (boundedInteger E (en_max_attempts env) DEFAULT_MAX_ATTEMPTS 1 DEFAULT_MAX_ATTEMPTS) \<rparr>"

definition relay_interval :: "engine \<Rightarrow> relay_environment \<Rightarrow> int" where
  "relay_interval E env = boundedInteger E (en_interval_ms env) DEFAULT_INTERVAL_MS 1000 60000"

definition optionalString :: "jstr option \<Rightarrow> jstr option" where
  "optionalString v = (case v of Some s \<Rightarrow> if s \<noteq> [] then Some s else None | None \<Rightarrow> None)"

definition object_members :: "json \<Rightarrow> (jstr \<times> json) list" where
  "object_members v = (case as_record (Some v) of Some ms \<Rightarrow> ms | None \<Rightarrow> [])"

definition safeDatabaseVersion :: "int \<Rightarrow> projection_error + int" where
  "safeDatabaseVersion version =
     (if \<bar>version\<bar> \<le> 2 ^ 53 - 1 \<and> 1 \<le> version then Inr version
      else Inl (PermanentProjectionError (js ''unsafe_canonical_version'')
        (js (''canonical version exceeds the relay'' @ [CHR 0x27] @ ''s safe integer range''))))"

definition offerStatus :: "jstr \<Rightarrow> projection_error + CatalogOfferStatus" where
  "offerStatus v =
     (if v = js ''draft'' then Inr Draft else if v = js ''active'' then Inr Active
      else if v = js ''reserved'' then Inr Reserved else if v = js ''sold'' then Inr Sold
      else if v = js ''withdrawn'' then Inr Withdrawn else if v = js ''expired'' then Inr Expired
      else Inl (PermanentProjectionError (js ''invalid_offer_status'') (js ''canonical offer status is invalid'')))"

definition is_control_unit :: "nat \<Rightarrow> bool" where
  "is_control_unit c \<longleftrightarrow> c \<le> 31 \<or> c = 127"

definition boundedError :: "jstr \<Rightarrow> nat \<Rightarrow> jstr" where
  "boundedError v maximum =
     (let sanitized = trim (map (\<lambda>c. if is_control_unit c then 32 else c) v)
      in take maximum (if sanitized \<noteq> [] then sanitized else js ''catalog projection failed''))"

definition projectionProblem :: "projection_error \<Rightarrow> ProjectionProblem" where
  "projectionProblem error =
     (case error of
        RetryableProjectionError code message \<Rightarrow>
          \<lparr> pb_code = boundedError code 80, pb_message = boundedError message 1000, pb_retryable = True \<rparr>
      | PermanentProjectionError code message \<Rightarrow>
          \<lparr> pb_code = boundedError code 80, pb_message = boundedError message 1000, pb_retryable = False \<rparr>
      | OtherError \<Rightarrow>
          \<lparr> pb_code = js ''relay_error'',
            pb_message = js ''catalog projection relay failed without exposing provider details'',
            pb_retryable = True \<rparr>)"

section \<open>Statements\<close>

definition micros :: "nat \<Rightarrow> int" where
  "micros seconds = int seconds * 1000000"

definition lease_over :: "int \<Rightarrow> job_row \<Rightarrow> bool" where
  "lease_over now j \<longleftrightarrow> (case jr_lease_expires_at j of Some t \<Rightarrow> t \<le> now | None \<Rightarrow> False)"

definition waiting :: "job_row \<Rightarrow> bool" where
  "waiting j \<longleftrightarrow> jr_status j = Pending \<or> jr_status j = Retry"

definition claimable :: "nat \<Rightarrow> int \<Rightarrow> job_row \<Rightarrow> bool" where
  "claimable maxAttempts now j \<longleftrightarrow>
     jr_attempts j < maxAttempts \<and>
     (waiting j \<and> jr_next_attempt_at j \<le> now \<or> jr_status j = Processing \<and> lease_over now j)"

text \<open>\<open>ORDER BY next_attempt_at, created_at\<close> over the rows that no other session has locked.\<close>

definition claim_candidates :: "nat \<Rightarrow> nat \<Rightarrow> int \<Rightarrow> (jstr \<Rightarrow> bool) \<Rightarrow> job_row list \<Rightarrow> jstr list" where
  "claim_candidates batchSize maxAttempts now locked jobs =
     map jr_id (take batchSize (sort_key jr_next_attempt_at (sort_key jr_created_at
       (filter (\<lambda>j. claimable maxAttempts now j \<and> \<not> locked (jr_id j)) jobs))))"

definition claim_row :: "jstr \<Rightarrow> nat \<Rightarrow> int \<Rightarrow> job_row \<Rightarrow> job_row" where
  "claim_row workerId leaseSeconds now j = j\<lparr> jr_status := Processing, jr_attempts := Suc (jr_attempts j),
     jr_lease_owner := Some workerId, jr_lease_expires_at := Some (now + micros leaseSeconds),
     jr_last_error_code := None, jr_last_error := None \<rparr>"

definition claim_sql :: "RelayOptions \<Rightarrow> int \<Rightarrow> (jstr \<Rightarrow> bool) \<Rightarrow> job_row list \<Rightarrow> job_row list" where
  "claim_sql options now locked jobs =
     (let ids = claim_candidates (ro_batchSize options) (ro_maxAttempts options) now locked jobs
      in map (\<lambda>j. if jr_id j \<in> set ids then claim_row (ro_workerId options) (ro_leaseSeconds options) now j else j) jobs)"

definition claim_returning :: "RelayOptions \<Rightarrow> int \<Rightarrow> (jstr \<Rightarrow> bool) \<Rightarrow> job_row list \<Rightarrow> job_row list" where
  "claim_returning options now locked jobs =
     (let ids = claim_candidates (ro_batchSize options) (ro_maxAttempts options) now locked jobs
      in filter (\<lambda>j. jr_id j \<in> set ids) (claim_sql options now locked jobs))"

text \<open>\<open>WHERE id = $1 AND status = 'processing' AND lease_owner = $2\<close>.\<close>

definition held_by :: "jstr \<Rightarrow> jstr \<Rightarrow> job_row \<Rightarrow> bool" where
  "held_by i workerId j \<longleftrightarrow> jr_id j = i \<and> jr_status j = Processing \<and> jr_lease_owner j = Some workerId"

definition update_where :: "(job_row \<Rightarrow> bool) \<Rightarrow> (job_row \<Rightarrow> job_row) \<Rightarrow> job_row list \<Rightarrow> job_row list" where
  "update_where P f jobs = map (\<lambda>j. if P j then f j else j) jobs"

definition finish_row :: "JobStatus \<Rightarrow> int \<Rightarrow> job_row \<Rightarrow> job_row" where
  "finish_row status now j = j\<lparr> jr_status := status, jr_lease_owner := None, jr_lease_expires_at := None,
     jr_acked_at := (if status = Acked then Some now else None), jr_last_error_code := None, jr_last_error := None \<rparr>"

definition retry_row :: "nat \<Rightarrow> ProjectionProblem \<Rightarrow> int \<Rightarrow> job_row \<Rightarrow> job_row" where
  "retry_row delay problem now j = j\<lparr> jr_status := Retry, jr_next_attempt_at := now + micros delay,
     jr_lease_owner := None, jr_lease_expires_at := None, jr_last_error_code := Some (pb_code problem),
     jr_last_error := Some (pb_message problem) \<rparr>"

definition dead_row :: "ProjectionProblem \<Rightarrow> job_row \<Rightarrow> job_row" where
  "dead_row problem j = j\<lparr> jr_status := Dead, jr_lease_owner := None, jr_lease_expires_at := None,
     jr_last_error_code := Some (pb_code problem), jr_last_error := Some (pb_message problem) \<rparr>"

definition exhausted :: "nat \<Rightarrow> int \<Rightarrow> job_row \<Rightarrow> bool" where
  "exhausted maxAttempts now j \<longleftrightarrow>
     maxAttempts \<le> jr_attempts j \<and> (waiting j \<or> jr_status j = Processing \<and> lease_over now j)"

definition close_row :: "job_row \<Rightarrow> job_row" where
  "close_row j = j\<lparr> jr_status := Dead, jr_lease_owner := None, jr_lease_expires_at := None,
     jr_last_error_code := Some (case jr_last_error_code j of Some c \<Rightarrow> c | None \<Rightarrow> js ''retry_exhausted''),
     jr_last_error := Some (case jr_last_error j of Some m \<Rightarrow> m | None \<Rightarrow> js ''catalog projection retry budget exhausted'') \<rparr>"

definition new_row :: "jstr \<Rightarrow> jstr \<Rightarrow> int \<Rightarrow> CanonicalProjectionSnapshot \<Rightarrow> job_row" where
  "new_row newId newRequest now sn = \<lparr> jr_id = newId, jr_tenant_id = sn_tenantId sn, jr_domain_id = sn_domainId sn,
     jr_store_id = sn_storeId sn, jr_offer_id = sn_offerId sn, jr_canonical_version = sn_canonicalVersion sn,
     jr_request_id = newRequest, jr_status = Pending, jr_attempts = 0, jr_next_attempt_at = now,
     jr_lease_owner = None, jr_lease_expires_at = None, jr_last_error_code = None, jr_last_error = None,
     jr_created_at = now, jr_acked_at = None, jr_registration_id = sn_registrationId sn,
     jr_platform_path = sn_platformPath sn, jr_mcp_server_key = sn_mcpServerKey sn \<rparr>"

text \<open>The key of \<open>ON CONFLICT (tenant_id, offer_id, canonical_version, registration_id)\<close>.\<close>

definition same_destination_version :: "CanonicalProjectionSnapshot \<Rightarrow> job_row \<Rightarrow> bool" where
  "same_destination_version sn j \<longleftrightarrow>
     jr_tenant_id j = sn_tenantId sn \<and> jr_offer_id j = sn_offerId sn \<and>
     jr_canonical_version j = sn_canonicalVersion sn \<and>
     jr_registration_id j = sn_registrationId sn \<and> sn_registrationId sn \<noteq> None"

text \<open>The statements that change the table, with the values they are sent with.\<close>

datatype statement =
    Claim RelayOptions "jstr \<Rightarrow> bool"
  | Finish jstr jstr JobStatus
  | RetryLater jstr jstr nat ProjectionProblem
  | DeadLetter jstr jstr ProjectionProblem
  | CloseExhausted nat
  | EnsureLatest CanonicalProjectionSnapshot jstr jstr

fun exec :: "int \<Rightarrow> statement \<Rightarrow> job_row list \<Rightarrow> job_row list" where
  "exec now (Claim options locked) jobs = claim_sql options now locked jobs"
| "exec now (Finish i w status) jobs = update_where (held_by i w) (finish_row status now) jobs"
| "exec now (RetryLater i w delay problem) jobs = update_where (held_by i w) (retry_row delay problem now) jobs"
| "exec now (DeadLetter i w problem) jobs = update_where (held_by i w) (dead_row problem) jobs"
| "exec now (CloseExhausted maxAttempts) jobs = update_where (exhausted maxAttempts now) close_row jobs"
| "exec now (EnsureLatest sn newId newRequest) jobs =
     (if list_ex (same_destination_version sn) jobs then jobs else jobs @ [new_row newId newRequest now sn])"

text \<open>An insertion whose generated identifiers are taken violates a unique constraint.\<close>

fun refused :: "statement \<Rightarrow> job_row list \<Rightarrow> bool" where
  "refused (EnsureLatest sn newId newRequest) jobs \<longleftrightarrow>
     \<not> list_ex (same_destination_version sn) jobs \<and>
     list_ex (\<lambda>j. jr_id j = newId \<or> jr_request_id j = newRequest) jobs"
| "refused _ jobs \<longleftrightarrow> False"

section \<open>Programs\<close>

datatype fault = NoFault | FailsBefore | FailsAfter

record child_route =
  rt_path :: jstr
  rt_tenantId :: jstr
  rt_domainId :: jstr
  rt_mcpServerKey :: jstr
  rt_agentMcpTools :: "jstr list"

record tool_execution =
  te_ok :: bool
  te_status :: nat
  te_payload :: "(jstr \<times> json) list"

text \<open>A row of the query in \<open>readCanonicalProjectionSnapshot\<close>.\<close>

record offer_row =
  of_tenant_id :: jstr
  of_domain_id :: jstr
  of_store_id :: jstr
  of_offer_id :: jstr
  of_canonical_version :: int
  of_external_key :: jstr
  of_display_name :: jstr
  of_attributes :: json
  of_terms :: json
  of_offer_status :: jstr
  of_registration_id :: "jstr option"
  of_platform_path :: "jstr option"
  of_mcp_server_key :: "jstr option"
  of_store_status :: jstr
  of_integration_kind :: jstr

text \<open>
  The surroundings of a worker: the time and the fate of its \<open>n\<close>-th statement, what other
  sessions do before it, which rows they hold locked, the identifiers that the database makes,
  what is read of offers, and the routes, endpoints and children (\<open>None\<close> where the call throws).
\<close>

record surroundings =
  su_now :: "nat \<Rightarrow> int"
  su_fault :: "nat \<Rightarrow> fault"
  su_others :: "nat \<Rightarrow> job_row list \<Rightarrow> job_row list"
  su_locked :: "nat \<Rightarrow> jstr \<Rightarrow> bool"
  su_new_id :: "nat \<Rightarrow> jstr"
  su_new_request :: "nat \<Rightarrow> jstr"
  su_offer :: "nat \<Rightarrow> ProjectionJob \<Rightarrow> offer_row option"
  su_routes :: "nat \<Rightarrow> jstr \<Rightarrow> child_route list option"
  su_endpoint :: "nat \<Rightarrow> jstr \<Rightarrow> jstr option option"
  su_invoke :: "nat \<Rightarrow> jstr \<Rightarrow> CatalogProjectionArguments \<Rightarrow> tool_execution option"
  su_scaled :: "nat \<Rightarrow> nat \<Rightarrow> int"
  su_platform :: platform

record relay_state =
  rs_jobs :: "job_row list"
  rs_tick :: nat

type_synonym 'a relay = "surroundings \<Rightarrow> relay_state \<Rightarrow> (projection_error + 'a) \<times> relay_state"

definition done_with :: "'a \<Rightarrow> 'a relay" where
  "done_with x = (\<lambda>S st. (Inr x, st))"

definition raise :: "projection_error \<Rightarrow> 'a relay" where
  "raise e = (\<lambda>S st. (Inl e, st))"

definition and_then :: "'a relay \<Rightarrow> ('a \<Rightarrow> 'b relay) \<Rightarrow> 'b relay" where
  "and_then m f = (\<lambda>S st. case m S st of (Inl e, st') \<Rightarrow> (Inl e, st') | (Inr x, st') \<Rightarrow> f x S st')"

definition recover :: "'a relay \<Rightarrow> (projection_error \<Rightarrow> 'a relay) \<Rightarrow> 'a relay" where
  "recover m h = (\<lambda>S st. case m S st of (Inl e, st') \<Rightarrow> h e S st' | (Inr x, st') \<Rightarrow> (Inr x, st'))"

definition lift :: "projection_error + 'a \<Rightarrow> 'a relay" where
  "lift r = (case r of Inl e \<Rightarrow> raise e | Inr x \<Rightarrow> done_with x)"

text \<open>One call of \<open>authDatabase.query\<close>: its result on the table it finds, and its effect.\<close>

definition query :: "(surroundings \<Rightarrow> nat \<Rightarrow> job_row list \<Rightarrow> 'a) \<Rightarrow> (surroundings \<Rightarrow> nat \<Rightarrow> statement option) \<Rightarrow> 'a relay" where
  "query result effect = (\<lambda>S st.
     let n = rs_tick st; jobs = su_others S n (rs_jobs st);
         rejected = (case effect S n of Some s \<Rightarrow> refused s jobs | None \<Rightarrow> False);
         after = (case effect S n of Some s \<Rightarrow> exec (su_now S n) s jobs | None \<Rightarrow> jobs)
     in if rejected then (Inl OtherError, \<lparr> rs_jobs = jobs, rs_tick = Suc n \<rparr>)
        else case su_fault S n of
          NoFault \<Rightarrow> (Inr (result S n jobs), \<lparr> rs_jobs = after, rs_tick = Suc n \<rparr>)
        | FailsBefore \<Rightarrow> (Inl OtherError, \<lparr> rs_jobs = jobs, rs_tick = Suc n \<rparr>)
        | FailsAfter \<Rightarrow> (Inl OtherError, \<lparr> rs_jobs = after, rs_tick = Suc n \<rparr>))"

text \<open>A call to something else than the table.\<close>

definition outside :: "(surroundings \<Rightarrow> nat \<Rightarrow> 'a option) \<Rightarrow> 'a relay" where
  "outside f = (\<lambda>S st.
     case f S (rs_tick st) of
       None \<Rightarrow> (Inl OtherError, st\<lparr> rs_tick := Suc (rs_tick st) \<rparr>)
     | Some x \<Rightarrow> (Inr x, st\<lparr> rs_tick := Suc (rs_tick st) \<rparr>))"

definition to_job :: "job_row \<Rightarrow> projection_error + ProjectionJob" where
  "to_job j = rbind (safeDatabaseVersion (jr_canonical_version j)) (\<lambda>v.
     Inr \<lparr> pj_id = jr_id j, pj_tenantId = jr_tenant_id j, pj_domainId = jr_domain_id j, pj_storeId = jr_store_id j,
           pj_offerId = jr_offer_id j, pj_canonicalVersion = v, pj_requestId = jr_request_id j,
           pj_attempts = jr_attempts j, pj_registrationId = optionalString (jr_registration_id j),
           pj_platformPath = optionalString (jr_platform_path j), pj_mcpServerKey = optionalString (jr_mcp_server_key j) \<rparr>)"

definition claimProjectionJobs :: "RelayOptions \<Rightarrow> ProjectionJob list relay" where
  "claimProjectionJobs options =
     and_then (query (\<lambda>S n jobs. claim_returning options (su_now S n) (su_locked S n) jobs)
                 (\<lambda>S n. Some (Claim options (su_locked S n))))
       (\<lambda>rows. lift (rmap to_job rows))"

definition to_snapshot :: "offer_row \<Rightarrow> projection_error + CanonicalProjectionSnapshot" where
  "to_snapshot row =
     rbind (safeDatabaseVersion (of_canonical_version row)) (\<lambda>v.
     rbind (offerStatus (of_offer_status row)) (\<lambda>s.
     Inr \<lparr> sn_tenantId = of_tenant_id row, sn_domainId = of_domain_id row, sn_storeId = of_store_id row,
           sn_offerId = of_offer_id row, sn_canonicalVersion = v, sn_externalKey = of_external_key row,
           sn_displayName = of_display_name row, sn_attributes = object_members (of_attributes row),
           sn_terms = object_members (of_terms row), sn_status = s,
           sn_registrationId = optionalString (of_registration_id row),
           sn_platformPath = optionalString (of_platform_path row),
           sn_mcpServerKey = optionalString (of_mcp_server_key row), sn_storeStatus = of_store_status row,
           sn_integrationKind = of_integration_kind row \<rparr>))"

definition readCanonicalProjectionSnapshot :: "ProjectionJob \<Rightarrow> CanonicalProjectionSnapshot option relay" where
  "readCanonicalProjectionSnapshot job =
     and_then (query (\<lambda>S n jobs. su_offer S n job) (\<lambda>S n. None)) (\<lambda>row.
       case row of
         None \<Rightarrow> done_with None
       | Some r \<Rightarrow> lift (rbind (to_snapshot r) (\<lambda>sn. Inr (Some sn))))"

text \<open>Empty texts do not occur: \<open>optionalString\<close> has made them null.\<close>

definition currentDestination :: "CanonicalProjectionSnapshot \<Rightarrow> (jstr \<times> jstr \<times> jstr) option" where
  "currentDestination sn =
     (case (sn_registrationId sn, sn_platformPath sn, sn_mcpServerKey sn) of
        (Some r, Some p, Some k) \<Rightarrow> if r \<noteq> [] \<and> p \<noteq> [] \<and> k \<noteq> [] then Some (r, p, k) else None
      | _ \<Rightarrow> None)"

definition resolveProjectionRoute :: "CanonicalProjectionSnapshot \<Rightarrow> jstr \<Rightarrow> jstr \<Rightarrow> child_route relay" where
  "resolveProjectionRoute sn path key =
     and_then (outside (\<lambda>S n. su_routes S n (sn_tenantId sn))) (\<lambda>routes.
       case find (\<lambda>c. rt_path c = path \<and> rt_tenantId c = sn_tenantId sn \<and> rt_domainId c = sn_domainId sn \<and>
                      rt_mcpServerKey c = key) routes of
         None \<Rightarrow> raise (RetryableProjectionError (js ''route_unavailable'') (js ''active child route is unavailable''))
       | Some route \<Rightarrow>
           if CATALOG_TOOL \<notin> set (rt_agentMcpTools route)
           then raise (RetryableProjectionError (js ''tool_unavailable'') (js ''child does not declare catalog.upsert''))
           else done_with route)"

definition ensureLatestProjectionJob :: "CanonicalProjectionSnapshot \<Rightarrow> unit relay" where
  "ensureLatestProjectionJob sn =
     query (\<lambda>S n jobs. ()) (\<lambda>S n. Some (EnsureLatest sn (su_new_id S n) (su_new_request S n)))"

definition finishJob :: "ProjectionJob \<Rightarrow> jstr \<Rightarrow> JobStatus \<Rightarrow> unit relay" where
  "finishJob job workerId status = query (\<lambda>S n jobs. ()) (\<lambda>S n. Some (Finish (pj_id job) workerId status))"

definition hex_byte :: "jstr \<Rightarrow> nat option" where
  "hex_byte s =
     (case map (\<lambda>c. if is_hex c then Some (hex_value c) else None) s of
        [Some a, Some b] \<Rightarrow> Some (16 * a + b)
      | Some a # _ \<Rightarrow> Some a
      | _ \<Rightarrow> None)"

text \<open>
  \<open>su_scaled e b\<close> stands for the floating-point \<open>Math.round(e * (0.8 + b / 255 * 0.4))\<close>. A request
  identifier is a UUID; the delay is not a number when its end is not hexadecimal.
\<close>

definition retryDelaySeconds :: "surroundings \<Rightarrow> ProjectionJob \<Rightarrow> nat option" where
  "retryDelaySeconds S job =
     (let exponential = min (5 * 2 ^ (pj_attempts job - 1)) MAX_RETRY_DELAY_SECONDS
      in map_option (\<lambda>b. nat (max 1 (su_scaled S exponential b))) (hex_byte (slice_last 2 (pj_requestId job))))"

definition retryJob :: "ProjectionJob \<Rightarrow> jstr \<Rightarrow> ProjectionProblem \<Rightarrow> unit relay" where
  "retryJob job workerId problem = (\<lambda>S.
     (case retryDelaySeconds S job of
        None \<Rightarrow> outside (\<lambda>S n. None)
      | Some delay \<Rightarrow> query (\<lambda>S n jobs. ()) (\<lambda>S n. Some (RetryLater (pj_id job) workerId delay problem))) S)"

definition deadLetterJob :: "ProjectionJob \<Rightarrow> jstr \<Rightarrow> ProjectionProblem \<Rightarrow> unit relay" where
  "deadLetterJob job workerId problem = query (\<lambda>S n jobs. ()) (\<lambda>S n. Some (DeadLetter (pj_id job) workerId problem))"

definition closeExhaustedJobs :: "nat \<Rightarrow> unit relay" where
  "closeExhaustedJobs maxAttempts = query (\<lambda>S n jobs. ()) (\<lambda>S n. Some (CloseExhausted maxAttempts))"

datatype outcome = OAcked | OSuperseded | ORetried | ODead

definition snapshot_offer :: "CanonicalProjectionSnapshot \<Rightarrow> CanonicalCatalogOffer" where
  "snapshot_offer sn = \<lparr> co_offerId = sn_offerId sn, co_externalKey = sn_externalKey sn, co_displayName = sn_displayName sn,
     co_attributes = sn_attributes sn, co_terms = sn_terms sn, co_status = sn_status sn,
     co_canonicalVersion = sn_canonicalVersion sn \<rparr>"

definition snapshot_scope :: "CanonicalProjectionSnapshot \<Rightarrow> jstr \<Rightarrow> projection_scope" where
  "snapshot_scope sn path = \<lparr> ps_tenant_id = sn_tenantId sn, ps_domain_id = sn_domainId sn, ps_platform_path = path \<rparr>"

definition http_error :: "nat \<Rightarrow> projection_error" where
  "http_error status =
     (let code = js ''child_http_'' @ show_nat status
      in if status = 429 \<or> 500 \<le> status
         then RetryableProjectionError code (js ''child catalog call failed with HTTP '' @ show_nat status)
         else PermanentProjectionError code (js ''child catalog call was rejected with HTTP '' @ show_nat status))"

text \<open>The call of the child and the check of its answer.\<close>

definition send_projection ::
    "ProjectionJob \<Rightarrow> RelayOptions \<Rightarrow> CanonicalProjectionSnapshot \<Rightarrow> jstr \<Rightarrow> jstr \<Rightarrow> outcome relay" where
  "send_projection job options sn path endpoint =
     and_then (\<lambda>S st. (case buildCatalogProjectionArguments (su_platform S) (pj_requestId job) (snapshot_scope sn path) (snapshot_offer sn) of
                  Inl _ \<Rightarrow> (Inl OtherError, st) | Inr a \<Rightarrow> (Inr a, st))) (\<lambda>projection.
     and_then (outside (\<lambda>S n. su_invoke S n endpoint projection)) (\<lambda>execution.
     if \<not> te_ok execution then raise (http_error (te_status execution))
     else case parseCatalogProjectionAck (te_payload execution) projection of
       AckFailure error \<Rightarrow> raise (PermanentProjectionError (js ''invalid_ack'') error)
     | AckOk superseded _ _ \<Rightarrow>
         and_then (finishJob job (ro_workerId options) (if superseded then Superseded else Acked)) (\<lambda>_.
           done_with (if superseded then OSuperseded else OAcked))))"

definition attempt_delivery :: "ProjectionJob \<Rightarrow> RelayOptions \<Rightarrow> outcome relay" where
  "attempt_delivery job options =
     and_then (readCanonicalProjectionSnapshot job) (\<lambda>read.
       case read of
         None \<Rightarrow> raise (PermanentProjectionError (js ''canonical_offer_missing'') (js ''canonical offer is missing''))
       | Some sn \<Rightarrow>
         (case currentDestination sn of
            None \<Rightarrow> raise (RetryableProjectionError (js ''destination_unavailable'')
              (js ''canonical offer has no active immutable projection destination''))
          | Some (registration, path, key) \<Rightarrow>
              if pj_canonicalVersion job < sn_canonicalVersion sn \<or> sn_registrationId sn \<noteq> pj_registrationId job \<or>
                 sn_platformPath sn \<noteq> pj_platformPath job \<or> sn_mcpServerKey sn \<noteq> pj_mcpServerKey job
              then and_then (ensureLatestProjectionJob sn) (\<lambda>_.
                   and_then (finishJob job (ro_workerId options) Superseded) (\<lambda>_. done_with OSuperseded))
              else if sn_canonicalVersion sn < pj_canonicalVersion job
              then raise (PermanentProjectionError (js ''canonical_version_regressed'')
                (js ''canonical offer version is lower than the durable job version''))
              else if sn_integrationKind sn = js ''hosted''
              then and_then (finishJob job (ro_workerId options) Superseded) (\<lambda>_. done_with OSuperseded)
              else if sn_storeStatus sn \<noteq> js ''active''
              then raise (RetryableProjectionError (js ''store_inactive'') (js ''connected store is not active''))
              else and_then (resolveProjectionRoute sn path key) (\<lambda>_.
                   and_then (outside (\<lambda>S n. su_endpoint S n key)) (\<lambda>endpoint.
                   case endpoint of
                     None \<Rightarrow> raise (RetryableProjectionError (js ''endpoint_unavailable'')
                       (js ''child MCP endpoint is unavailable''))
                   | Some e \<Rightarrow> send_projection job options sn path e))))"

definition deliverProjectionJob :: "ProjectionJob \<Rightarrow> RelayOptions \<Rightarrow> outcome relay" where
  "deliverProjectionJob job options =
     recover (attempt_delivery job options) (\<lambda>error.
       let problem = projectionProblem error
       in if pb_retryable problem \<and> pj_attempts job < ro_maxAttempts options
          then and_then (retryJob job (ro_workerId options) problem) (\<lambda>_. done_with ORetried)
          else and_then (deadLetterJob job (ro_workerId options) problem) (\<lambda>_. done_with ODead))"

record relay_summary =
  rm_claimed :: nat
  rm_outcomes :: "outcome list"

fun deliver_all :: "RelayOptions \<Rightarrow> ProjectionJob list \<Rightarrow> outcome list relay" where
  "deliver_all options [] = done_with []"
| "deliver_all options (job # jobs) =
     and_then (deliverProjectionJob job options) (\<lambda>o'.
     and_then (deliver_all options jobs) (\<lambda>os. done_with (o' # os)))"

text \<open>The summary of the source counts the outcomes by kind.\<close>

definition runCatalogProjectionRelayOnce :: "RelayOptions \<Rightarrow> relay_summary relay" where
  "runCatalogProjectionRelayOnce options =
     and_then (closeExhaustedJobs (ro_maxAttempts options)) (\<lambda>_.
     and_then (claimProjectionJobs options) (\<lambda>jobs.
     and_then (deliver_all options jobs) (\<lambda>os. done_with \<lparr> rm_claimed = length jobs, rm_outcomes = os \<rparr>)))"

section \<open>Constraints of the table\<close>

text \<open>The \<open>CHECK\<close> and \<open>UNIQUE\<close> constraints of the table (the shape of destinations without their patterns).\<close>

definition row_ok :: "job_row \<Rightarrow> bool" where
  "row_ok j \<longleftrightarrow>
     0 < jr_canonical_version j \<and> jr_attempts j \<le> 8 \<and>
     (jr_status j = Processing \<longleftrightarrow> jr_lease_owner j \<noteq> None) \<and>
     (jr_status j = Processing \<longleftrightarrow> jr_lease_expires_at j \<noteq> None) \<and>
     (jr_status j = Acked \<longleftrightarrow> jr_acked_at j \<noteq> None) \<and>
     (\<forall>w. jr_lease_owner j = Some w \<longrightarrow> 1 \<le> length w \<and> length w \<le> 200) \<and>
     (\<forall>c. jr_last_error_code j = Some c \<longrightarrow> 1 \<le> length c \<and> length c \<le> 80) \<and>
     (\<forall>m. jr_last_error j = Some m \<longrightarrow> 1 \<le> length m \<and> length m \<le> 1000) \<and>
     (jr_registration_id j = None \<longleftrightarrow> jr_platform_path j = None) \<and>
     (jr_registration_id j = None \<longleftrightarrow> jr_mcp_server_key j = None)"

definition row_key :: "job_row \<Rightarrow> jstr \<times> jstr \<times> int \<times> jstr option" where
  "row_key j = (jr_tenant_id j, jr_offer_id j, jr_canonical_version j, jr_registration_id j)"

definition table_ok :: "job_row list \<Rightarrow> bool" where
  "table_ok jobs \<longleftrightarrow>
     list_all row_ok jobs \<and> distinct (map jr_id jobs) \<and> distinct (map jr_request_id jobs) \<and>
     distinct (map row_key (filter (\<lambda>j. jr_registration_id j \<noteq> None) jobs))"

definition options_ok :: "RelayOptions \<Rightarrow> bool" where
  "options_ok o' \<longleftrightarrow> 1 \<le> length (ro_workerId o') \<and> length (ro_workerId o') \<le> 200 \<and> ro_maxAttempts o' \<le> 8"

definition problem_ok :: "ProjectionProblem \<Rightarrow> bool" where
  "problem_ok p \<longleftrightarrow> 1 \<le> length (pb_code p) \<and> length (pb_code p) \<le> 80 \<and>
     1 \<le> length (pb_message p) \<and> length (pb_message p) \<le> 1000"

fun statement_ok :: "statement \<Rightarrow> bool" where
  "statement_ok (Claim o' locked) \<longleftrightarrow> options_ok o'"
| "statement_ok (Finish i w status) \<longleftrightarrow> status = Acked \<or> status = Superseded"
| "statement_ok (RetryLater i w delay p) \<longleftrightarrow> problem_ok p"
| "statement_ok (DeadLetter i w p) \<longleftrightarrow> problem_ok p"
| "statement_ok (CloseExhausted m) \<longleftrightarrow> True"
| "statement_ok (EnsureLatest sn i r) \<longleftrightarrow>
     0 < sn_canonicalVersion sn \<and> sn_registrationId sn \<noteq> None \<and> sn_platformPath sn \<noteq> None \<and> sn_mcpServerKey sn \<noteq> None"

definition same_identity :: "job_row \<Rightarrow> job_row \<Rightarrow> bool" where
  "same_identity j j' \<longleftrightarrow> jr_id j' = jr_id j \<and> jr_request_id j' = jr_request_id j \<and> row_key j' = row_key j"

lemma map_rows_ok:
  assumes "table_ok jobs" and "\<And>j. j \<in> set jobs \<Longrightarrow> same_identity j (f j) \<and> row_ok (f j)"
  shows "table_ok (map f jobs)"
proof -
  have "map jr_id (map f jobs) = map jr_id jobs" "map jr_request_id (map f jobs) = map jr_request_id jobs"
    using assms(2) by (auto simp: same_identity_def)
  moreover have "map row_key (filter (\<lambda>j. jr_registration_id j \<noteq> None) (map f js)) =
      map row_key (filter (\<lambda>j. jr_registration_id j \<noteq> None) js)" if "set js \<subseteq> set jobs" for js
    using that assms(2) by (induction js) (auto simp: same_identity_def row_key_def)
  ultimately show ?thesis using assms by (auto simp: table_ok_def list_all_iff simp del: map_map filter_map)
qed

lemmas row_defs = claim_row_def finish_row_def retry_row_def dead_row_def close_row_def

lemma update_ok:
  assumes "table_ok jobs" and "\<And>j. row_ok j \<Longrightarrow> P j \<Longrightarrow> row_ok (f j)" and "\<And>j. same_identity j (f j)"
  shows "table_ok (update_where P f jobs)"
proof -
  have "same_identity j j" for j by (simp add: same_identity_def)
  then show ?thesis
    unfolding update_where_def using assms by (intro map_rows_ok) (auto simp: table_ok_def list_all_iff)
qed

lemma candidate_claimable:
  assumes "distinct (map jr_id jobs)" and "j \<in> set jobs" and "jr_id j \<in> set (claim_candidates b m now locked jobs)"
  shows "claimable m now j \<and> \<not> locked (jr_id j)"
proof -
  from assms(3) obtain k where k: "k \<in> set jobs" "jr_id k = jr_id j" "claimable m now k" "\<not> locked (jr_id k)"
    by (auto simp: claim_candidates_def dest!: in_set_takeD)
  with assms(1,2) have "k = j" by (metis (no_types) distinct_map inj_onD)
  with k show ?thesis by simp
qed

lemma exec_ok:
  assumes t: "table_ok jobs" and s: "statement_ok s" and r: "\<not> refused s jobs"
  shows "table_ok (exec now s jobs)"
proof (cases s)
  case (Claim o' locked)
  have d: "distinct (map jr_id jobs)" using t by (simp add: table_ok_def)
  have "row_ok (claim_row (ro_workerId o') (ro_leaseSeconds o') now j)"
    if "j \<in> set jobs" "jr_id j \<in> set (claim_candidates (ro_batchSize o') (ro_maxAttempts o') now locked jobs)" for j
    using candidate_claimable [OF d that] that(1) t s Claim
    by (auto simp: table_ok_def list_all_iff row_ok_def claim_row_def options_ok_def claimable_def waiting_def)
  with t Claim show ?thesis
    by (simp only: exec.simps claim_sql_def Let_def, intro map_rows_ok)
       (auto simp: same_identity_def row_key_def claim_row_def table_ok_def list_all_iff)
next
  case (EnsureLatest sn i q)
  with t s r show ?thesis
    by (auto simp: table_ok_def list_ex_iff row_ok_def new_row_def row_key_def same_destination_version_def)
qed (use t s in \<open>auto intro!: update_ok simp: row_defs row_ok_def problem_ok_def same_identity_def row_key_def held_by_def waiting_def exhausted_def split: option.splits\<close>)

lemma take_bounds: "v \<noteq> [] \<Longrightarrow> 0 < m \<Longrightarrow> 1 \<le> length (take m v) \<and> length (take m v) \<le> m"
  by (cases v) auto

lemma projectionProblem_ok: "problem_ok (projectionProblem e)"
proof -
  have "1 \<le> length (boundedError v m) \<and> length (boundedError v m) \<le> m" if "0 < m" for v m
    unfolding boundedError_def Let_def using that by (intro take_bounds) auto
  then show ?thesis
    by (cases e) (simp_all add: projectionProblem_def problem_ok_def)
qed

section \<open>What the statements of a program keep\<close>

text \<open>
  An invariant of the table that every accepted statement of the right shape keeps, and that the
  other sessions keep, is kept by every program of the relay: the programs send no other
  statements. \<open>keeps m Q\<close> says this of \<open>m\<close>, together with a property of its result.
\<close>

locale table_invariant =
  fixes I :: "job_row list \<Rightarrow> bool"
  assumes kept: "I jobs \<Longrightarrow> statement_ok s \<Longrightarrow> \<not> refused s jobs \<Longrightarrow> I (exec now s jobs)"
begin

definition keeps :: "'a relay \<Rightarrow> ('a \<Rightarrow> bool) \<Rightarrow> bool" where
  "keeps m Q \<longleftrightarrow>
     (\<forall>S st r st'. (\<forall>n js. I js \<longrightarrow> I (su_others S n js)) \<longrightarrow> I (rs_jobs st) \<longrightarrow> m S st = (r, st') \<longrightarrow>
        I (rs_jobs st') \<and> (\<forall>x. r = Inr x \<longrightarrow> Q x))"

lemma keeps_done: "Q x \<Longrightarrow> keeps (done_with x) Q"
  by (simp add: keeps_def done_with_def)

lemma keeps_raise: "keeps (raise e) Q"
  by (simp add: keeps_def raise_def)

lemma keeps_lift: "(\<And>x. r = Inr x \<Longrightarrow> Q x) \<Longrightarrow> keeps (lift r) Q"
  by (cases r) (auto simp: lift_def intro: keeps_done keeps_raise)

lemma keeps_then:
  assumes m: "keeps m P" and f: "\<And>x. P x \<Longrightarrow> keeps (f x) Q"
  shows "keeps (and_then m f) Q"
  unfolding keeps_def
proof (intro allI impI)
  fix S st r st'
  assume S: "\<forall>n js. I js \<longrightarrow> I (su_others S n js)" and i: "I (rs_jobs st)" and e: "and_then m f S st = (r, st')"
  obtain r1 st1 where m1: "m S st = (r1, st1)" by (cases "m S st")
  with m S i have k: "I (rs_jobs st1)" "\<And>x. r1 = Inr x \<Longrightarrow> P x" by (auto simp: keeps_def)
  show "I (rs_jobs st') \<and> (\<forall>x. r = Inr x \<longrightarrow> Q x)"
  proof (cases r1)
    case (Inl err)
    with e m1 k show ?thesis by (auto simp: and_then_def)
  next
    case (Inr x)
    with e m1 have "f x S st1 = (r, st')" by (simp add: and_then_def)
    with f [OF k(2) [OF Inr]] S k(1) show ?thesis unfolding keeps_def by blast
  qed
qed

lemma keeps_recover:
  assumes m: "keeps m Q" and h: "\<And>e. keeps (h e) Q"
  shows "keeps (recover m h) Q"
  unfolding keeps_def
proof (intro allI impI)
  fix S st r st'
  assume S: "\<forall>n js. I js \<longrightarrow> I (su_others S n js)" and i: "I (rs_jobs st)" and e: "recover m h S st = (r, st')"
  obtain r1 st1 where m1: "m S st = (r1, st1)" by (cases "m S st")
  with m S i have k: "I (rs_jobs st1)" "\<And>x. r1 = Inr x \<Longrightarrow> Q x" by (auto simp: keeps_def)
  show "I (rs_jobs st') \<and> (\<forall>x. r = Inr x \<longrightarrow> Q x)"
  proof (cases r1)
    case (Inl err)
    with e m1 have "h err S st1 = (r, st')" by (simp add: recover_def)
    with h S k(1) show ?thesis unfolding keeps_def by blast
  next
    case (Inr x)
    with e m1 k show ?thesis by (auto simp: recover_def)
  qed
qed

lemma keeps_query: "(\<And>S n s. effect S n = Some s \<Longrightarrow> statement_ok s) \<Longrightarrow> keeps (query result effect) (\<lambda>_. True)"
  by (auto simp: keeps_def query_def Let_def kept split: option.splits fault.splits if_splits)

lemma keeps_outside: "keeps (outside f) (\<lambda>_. True)"
  by (auto simp: keeps_def outside_def split: option.splits)

lemma keeps_weaken: "keeps m P \<Longrightarrow> (\<And>x. P x \<Longrightarrow> Q x) \<Longrightarrow> keeps m Q"
  unfolding keeps_def by blast

lemma keeps_finishJob: "status = Acked \<or> status = Superseded \<Longrightarrow> keeps (finishJob job w status) (\<lambda>_. True)"
  unfolding finishJob_def by (rule keeps_query) auto

lemma keeps_choice: "(\<And>S. keeps (m S) Q) \<Longrightarrow> keeps (\<lambda>S. m S S) Q"
  unfolding keeps_def by blast

lemma keeps_retry: "problem_ok p \<Longrightarrow> keeps (retryJob job w p) (\<lambda>_. True)"
proof -
  assume p: "problem_ok p"
  have "keeps (case retryDelaySeconds S job of None \<Rightarrow> outside (\<lambda>S n. None)
      | Some delay \<Rightarrow> query (\<lambda>S n jobs. ()) (\<lambda>S n. Some (RetryLater (pj_id job) w delay p))) (\<lambda>_. True)" for S
    using p by (auto intro!: keeps_outside keeps_query split: option.split)
  then show ?thesis unfolding retryJob_def by (rule keeps_choice)
qed

lemma keeps_snapshot:
  "keeps (readCanonicalProjectionSnapshot job) (\<lambda>r. \<forall>sn. r = Some sn \<longrightarrow> 0 < sn_canonicalVersion sn)"
  unfolding readCanonicalProjectionSnapshot_def
  by (rule keeps_then [OF keeps_query])
     (auto simp: to_snapshot_def safeDatabaseVersion_def rbind_Inr intro!: keeps_done keeps_lift split: option.splits if_splits)

lemma keeps_route: "keeps (resolveProjectionRoute sn p k) (\<lambda>_. True)"
  unfolding resolveProjectionRoute_def
  by (rule keeps_then [OF keeps_outside]) (auto intro: keeps_done keeps_raise split: option.split)

lemma keeps_send: "keeps (send_projection job options sn path e) (\<lambda>_. True)"
proof -
  have "keeps (\<lambda>S st. case buildCatalogProjectionArguments (su_platform S) (pj_requestId job) (snapshot_scope sn path) (snapshot_offer sn) of
      Inl _ \<Rightarrow> (Inl OtherError, st) | Inr a \<Rightarrow> (Inr a, st)) (\<lambda>_. True)"
    by (auto simp: keeps_def split: sum.splits)
  then show ?thesis
    unfolding send_projection_def
    by (rule keeps_then)
       (auto intro!: keeps_then [OF keeps_outside] keeps_then [OF keeps_finishJob] keeps_raise keeps_done
          split: CatalogProjectionAck.split)
qed

lemma keeps_delivery_attempt: "keeps (attempt_delivery job options) (\<lambda>_. True)"
proof -
  have e: "keeps (ensureLatestProjectionJob sn) (\<lambda>_. True)"
    if "0 < sn_canonicalVersion sn" "currentDestination sn = Some d" for sn d
    unfolding ensureLatestProjectionJob_def
    using that by (intro keeps_query) (auto simp: currentDestination_def split: option.splits)
  show ?thesis
    unfolding attempt_delivery_def
    by (rule keeps_then [OF keeps_snapshot])
       (auto intro!: keeps_raise keeps_done keeps_then [OF e] keeps_then [OF keeps_finishJob] keeps_then [OF keeps_route]
          keeps_then [OF keeps_outside] keeps_send split: option.split)
qed

lemma keeps_deliver: "keeps (deliverProjectionJob job options) (\<lambda>_. True)"
proof -
  have "problem_ok (projectionProblem e)" for e by (rule projectionProblem_ok)
  then show ?thesis
    unfolding deliverProjectionJob_def Let_def deadLetterJob_def
    by (auto intro!: keeps_recover keeps_delivery_attempt keeps_then [OF keeps_retry] keeps_then [OF keeps_query] keeps_done)
qed

lemma keeps_deliver_all: "keeps (deliver_all options jobs) (\<lambda>_. True)"
  by (induction jobs) (auto intro!: keeps_done keeps_then [OF keeps_deliver] keeps_then)

lemma keeps_run:
  assumes "options_ok options"
  shows "keeps (runCatalogProjectionRelayOnce options) (\<lambda>_. True)"
proof -
  have c: "keeps (claimProjectionJobs options) (\<lambda>_. True)"
    unfolding claimProjectionJobs_def
    by (rule keeps_then [OF keeps_query]) (auto simp: assms intro: keeps_lift)
  show ?thesis
    unfolding runCatalogProjectionRelayOnce_def closeExhaustedJobs_def
    by (rule keeps_then [OF keeps_query]) (auto intro!: keeps_then [OF c] keeps_then [OF keeps_deliver_all] keeps_done)
qed

end

interpretation constraints: table_invariant table_ok
  by unfold_locales (rule exec_ok)

section \<open>Work left on a job\<close>

definition row_of :: "jstr \<Rightarrow> job_row list \<Rightarrow> job_row option" where
  "row_of i jobs = find (\<lambda>j. jr_id j = i) jobs"

definition terminal :: "job_row \<Rightarrow> bool" where
  "terminal j \<longleftrightarrow> jr_status j = Acked \<or> jr_status j = Superseded \<or> jr_status j = Dead"

text \<open>Two units for each attempt left, one for waiting and two for being processed.\<close>

definition job_work :: "job_row \<Rightarrow> nat" where
  "job_work j = (if terminal j then 0 else 2 * (8 - jr_attempts j) + (if jr_status j = Processing then 2 else 1))"

lemma row_of_map: "(\<And>j. jr_id (f j) = jr_id j) \<Longrightarrow> row_of i (map f jobs) = map_option f (row_of i jobs)"
  by (induction jobs) (simp_all add: row_of_def)

lemma row_of_member: "row_of i jobs = Some j \<Longrightarrow> j \<in> set jobs \<and> jr_id j = i"
  by (auto simp: row_of_def find_Some_iff)

lemma row_of_update:
  assumes "\<And>j. jr_id (f j) = jr_id j"
  shows "row_of i (update_where P f jobs) = map_option (\<lambda>j. if P j then f j else j) (row_of i jobs)"
  unfolding update_where_def using assms by (intro row_of_map) simp

lemma step_work:
  assumes t: "distinct (map jr_id jobs)" and s: "statement_ok s" and j: "row_of i jobs = Some j"
  obtains j' where "row_of i (exec now s jobs) = Some j'" "j' = j \<or> job_work j' < job_work j"
proof -
  note defs = row_defs job_work_def terminal_def held_by_def exhausted_def waiting_def claimable_def
  have "\<exists>j'. row_of i (exec now s jobs) = Some j' \<and> (j' = j \<or> job_work j' < job_work j)"
  proof (cases s)
    case (Claim o' locked)
    let ?C = "set (claim_candidates (ro_batchSize o') (ro_maxAttempts o') now locked jobs)"
    let ?f = "\<lambda>j. if jr_id j \<in> ?C then claim_row (ro_workerId o') (ro_leaseSeconds o') now j else j"
    have "row_of i (exec now s jobs) = Some (?f j)"
      using row_of_map [of ?f i jobs] j by (simp add: Claim claim_sql_def Let_def claim_row_def)
    moreover have "job_work (claim_row (ro_workerId o') (ro_leaseSeconds o') now j) < job_work j" if "jr_id j \<in> ?C"
      using candidate_claimable [OF t _ that] row_of_member [OF j] s Claim
      by (auto simp: defs options_ok_def)
    ultimately show ?thesis by simp
  next
    case (EnsureLatest sn a b)
    have "row_of i (jobs @ [x]) = Some j" for x using j by (induction jobs) (auto simp: row_of_def split: if_splits)
    with j EnsureLatest show ?thesis by simp
  next
    case (Finish a w status)
    with j s show ?thesis by (auto simp: row_of_update finish_row_def defs)
  qed (use j in \<open>auto simp: row_of_update defs\<close>)
  with that show thesis by blast
qed

text \<open>How often a sequence of statements changes the row of a job.\<close>

fun job_changes :: "jstr \<Rightarrow> (int \<times> statement) list \<Rightarrow> job_row list \<Rightarrow> nat" where
  "job_changes i [] jobs = 0"
| "job_changes i ((now, s) # rest) jobs =
     (if row_of i (exec now s jobs) \<noteq> row_of i jobs then 1 else 0) + job_changes i rest (exec now s jobs)"

text \<open>Every statement of the sequence is of the right shape and accepted.\<close>

fun accepted :: "(int \<times> statement) list \<Rightarrow> job_row list \<Rightarrow> bool" where
  "accepted [] jobs \<longleftrightarrow> True"
| "accepted ((now, s) # rest) jobs \<longleftrightarrow> statement_ok s \<and> \<not> refused s jobs \<and> accepted rest (exec now s jobs)"

lemma changes_bounded:
  "table_ok jobs \<Longrightarrow> accepted ss jobs \<Longrightarrow> row_of i jobs = Some j \<Longrightarrow> job_changes i ss jobs \<le> job_work j"
proof (induction ss arbitrary: jobs j)
  case (Cons x ss)
  obtain now s where x: "x = (now, s)" by (cases x)
  with Cons.prems have s: "statement_ok s" "\<not> refused s jobs" "accepted ss (exec now s jobs)" by auto
  from Cons.prems(1) have d: "distinct (map jr_id jobs)" by (simp add: table_ok_def)
  from step_work [OF d s(1) Cons.prems(3)] obtain j' where
    j': "row_of i (exec now s jobs) = Some j'" "j' = j \<or> job_work j' < job_work j" by blast
  from Cons.IH [OF exec_ok [OF Cons.prems(1) s(1,2)] s(3) j'(1)] j' Cons.prems(3) x show ?case by auto
qed simp

end
