(* ===== verification/Catalog_Delivery.thy ===== *)
theory Catalog_Delivery
  imports Catalog_Relay
begin

text \<open>
  What a run of the catalogue relay achieves: the constraints of the table hold throughout, each
  job is tried a bounded number of times and comes to an end, a job is acknowledged only for the
  projection that the child confirmed, and what one unreadable version does to a whole batch.
\<close>

section \<open>Outcomes\<close>

lemma and_then_Inr: "and_then m f S st = (Inr y, st') \<longleftrightarrow> (\<exists>x st1. m S st = (Inr x, st1) \<and> f x S st1 = (Inr y, st'))"
  by (auto simp: and_then_def split: prod.splits sum.splits)

lemma recover_Inr:
  "recover m h S st = (Inr y, st') \<longleftrightarrow>
     m S st = (Inr y, st') \<or> (\<exists>e st1. m S st = (Inl e, st1) \<and> h e S st1 = (Inr y, st'))"
  by (auto simp: recover_def split: prod.splits sum.splits)

lemma basic_Inr:
  "done_with x S st = (Inr y, st') \<longleftrightarrow> x = y \<and> st = st'" "raise e S st \<noteq> (Inr y, st')"
  "lift r S st = (Inr z, st') \<longleftrightarrow> r = Inr z \<and> st = st'"
  by (auto simp: done_with_def raise_def lift_def split: sum.splits)

lemma query_Inr:
  "query result effect S st = (Inr x, st') \<longleftrightarrow>
     (let n = rs_tick st; jobs = su_others S n (rs_jobs st)
      in x = result S n jobs \<and> su_fault S n = NoFault \<and> (\<forall>s. effect S n = Some s \<longrightarrow> \<not> refused s jobs) \<and>
         st' = \<lparr> rs_jobs = (case effect S n of Some s \<Rightarrow> exec (su_now S n) s jobs | None \<Rightarrow> jobs), rs_tick = Suc n \<rparr>)"
  by (auto simp: query_def Let_def split: option.splits fault.splits if_splits)

lemma outside_Inr:
  "outside f S st = (Inr x, st') \<longleftrightarrow> f S (rs_tick st) = Some x \<and> st' = st\<lparr> rs_tick := Suc (rs_tick st) \<rparr>"
  by (auto simp: outside_def split: option.splits)

lemmas run_simps = and_then_Inr recover_Inr basic_Inr query_Inr outside_Inr Let_def

lemma read_snapshot:
  "readCanonicalProjectionSnapshot job S st = (Inr r, st') \<Longrightarrow>
     (case su_offer S (rs_tick st) job of
        None \<Rightarrow> r = None
      | Some row \<Rightarrow> \<exists>sn. to_snapshot row = Inr sn \<and> r = Some sn)"
  by (auto simp: readCanonicalProjectionSnapshot_def run_simps rbind_Inr split: option.splits)

lemma deliver_attempt:
  "deliverProjectionJob job options S st = (Inr o', st') \<Longrightarrow> o' = OAcked \<or> o' = OSuperseded \<Longrightarrow>
     attempt_delivery job options S st = (Inr o', st')"
  by (auto simp: deliverProjectionJob_def run_simps split: if_splits)

lemma send_outcome:
  assumes "send_projection job options sn path endpoint S st = (Inr o', st')"
  obtains projection n execution v applied where
    "buildCatalogProjectionArguments (su_platform S) (pj_requestId job) (snapshot_scope sn path) (snapshot_offer sn) = Inr projection"
    "su_invoke S n endpoint projection = Some execution" "te_ok execution"
    "parseCatalogProjectionAck (te_payload execution) projection = AckOk (o' = OSuperseded) v applied"
    "o' = OAcked \<or> o' = OSuperseded"
proof -
  from assms obtain projection execution where p: "buildCatalogProjectionArguments (su_platform S) (pj_requestId job)
      (snapshot_scope sn path) (snapshot_offer sn) = Inr projection"
    "su_invoke S (rs_tick st) endpoint projection = Some execution" "te_ok execution"
    and o': "(case parseCatalogProjectionAck (te_payload execution) projection of
       AckFailure error \<Rightarrow> raise (PermanentProjectionError (js ''invalid_ack'') error)
     | AckOk superseded _ _ \<Rightarrow>
         and_then (finishJob job (ro_workerId options) (if superseded then Superseded else Acked)) (\<lambda>_.
           done_with (if superseded then OSuperseded else OAcked))) S (st\<lparr> rs_tick := Suc (rs_tick st) \<rparr>) = (Inr o', st')"
    unfolding send_projection_def by (auto simp: run_simps split: sum.splits if_splits)
  from o' obtain v applied where "parseCatalogProjectionAck (te_payload execution) projection = AckOk (o' = OSuperseded) v applied"
    "o' = OAcked \<or> o' = OSuperseded"
    by (cases "parseCatalogProjectionAck (te_payload execution) projection") (auto simp: run_simps split: if_splits)
  with p that show thesis by blast
qed

text \<open>The snapshot asks for the version and the destination of the job.\<close>

definition same_target :: "ProjectionJob \<Rightarrow> CanonicalProjectionSnapshot \<Rightarrow> bool" where
  "same_target job sn \<longleftrightarrow>
     sn_canonicalVersion sn = pj_canonicalVersion job \<and> sn_registrationId sn = pj_registrationId job \<and>
     sn_platformPath sn = pj_platformPath job \<and> sn_mcpServerKey sn = pj_mcpServerKey job"

text \<open>
  The row of a job keeps its version and its registration, which no statement changes. The row that stands for the offer's
  current version at its current registration is another one as soon as one of the two differs.
\<close>

definition names_job :: "ProjectionJob \<Rightarrow> job_row list \<Rightarrow> bool" where
  "names_job job T \<longleftrightarrow>
     (\<forall>j \<in> set T. jr_id j = pj_id job \<longrightarrow>
        jr_canonical_version j = pj_canonicalVersion job \<and> jr_registration_id j = pj_registrationId job)"

definition successor_row :: "ProjectionJob \<Rightarrow> CanonicalProjectionSnapshot \<Rightarrow> job_row \<Rightarrow> bool" where
  "successor_row job sn j \<longleftrightarrow>
     same_destination_version sn j \<and>
     (sn_canonicalVersion sn \<noteq> pj_canonicalVersion job \<or> sn_registrationId sn \<noteq> pj_registrationId job \<longrightarrow> jr_id j \<noteq> pj_id job)"

lemma ensured:
  assumes "ensureLatestProjectionJob sn S st = (Inr u, st')" and "sn_registrationId sn \<noteq> None"
    and "names_job job (su_others S (rs_tick st) (rs_jobs st))" and "su_new_id S (rs_tick st) \<noteq> pj_id job"
  shows "\<exists>j \<in> set (rs_jobs st'). successor_row job sn j"
proof -
  let ?T = "su_others S (rs_tick st) (rs_jobs st)"
  have T: "rs_jobs st' = exec (su_now S (rs_tick st)) (EnsureLatest sn (su_new_id S (rs_tick st)) (su_new_request S (rs_tick st))) ?T"
    using assms(1) by (simp add: ensureLatestProjectionJob_def query_Inr Let_def)
  show ?thesis
  proof (cases "list_ex (same_destination_version sn) ?T")
    case True
    then obtain j where "j \<in> set ?T" "same_destination_version sn j" by (auto simp: list_ex_iff)
    moreover from this assms(3) have "successor_row job sn j"
      by (auto simp: successor_row_def names_job_def same_destination_version_def)
    ultimately show ?thesis using T True by auto
  next
    case False
    have "successor_row job sn (new_row (su_new_id S (rs_tick st)) (su_new_request S (rs_tick st)) (su_now S (rs_tick st)) sn)"
      using assms(2,4) by (simp add: successor_row_def same_destination_version_def new_row_def)
    with T False show ?thesis by simp
  qed
qed

lemma delivery_attempt_outcome:
  assumes "attempt_delivery job options S st = (Inr o', st')"
    and names: "names_job job (rs_jobs st)" "\<And>n T. names_job job T \<Longrightarrow> names_job job (su_others S n T)" "\<And>n. su_new_id S n \<noteq> pj_id job"
  obtains row sn registration path key where "su_offer S (rs_tick st) job = Some row" "to_snapshot row = Inr sn"
    "currentDestination sn = Some (registration, path, key)"
    "\<not> same_target job sn \<and> o' = OSuperseded \<and>
       (\<exists>T n. (\<exists>j \<in> set T. successor_row job sn j) \<and>
          rs_jobs st' = exec (su_now S n) (Finish (pj_id job) (ro_workerId options) Superseded) (su_others S n T)) \<or>
     same_target job sn \<and> sn_integrationKind sn = js ''hosted'' \<and> o' = OSuperseded \<or>
     same_target job sn \<and> sn_storeStatus sn = js ''active'' \<and>
       (\<exists>e st1. send_projection job options sn path e S st1 = (Inr o', st'))"
proof -
  from assms(1) obtain r st1 where r: "readCanonicalProjectionSnapshot job S st = (Inr r, st1)"
    and rest: "(case r of
         None \<Rightarrow> raise (PermanentProjectionError (js ''canonical_offer_missing'') (js ''canonical offer is missing''))
       | Some sn \<Rightarrow>
         (case currentDestination sn of
            None \<Rightarrow> raise (RetryableProjectionError (js ''destination_unavailable'')
              (js ''canonical offer has no active immutable projection destination''))
          | Some (registration, path, key) \<Rightarrow>
              if pj_canonicalVersion job < sn_canonicalVersion sn \<or> sn_registrationId sn \<noteq> pj_registrationId job \<or>
                 sn_platformPath sn \<noteq> pj_platformPath job \<or> sn_mcpServerKey sn \<noteq> pj_mcpServerKey job
              then and_then (ensureLatestProjectionJob sn) (\<lambda>_.
                   and_then (finishJob job (ro_workerId options) Superseded) (\<lambda>_. done_with OSuperseded))
              else if sn_canonicalVersion sn < pj_canonicalVersion job
              then raise (PermanentProjectionError (js ''canonical_version_regressed'')
                (js ''canonical offer version is lower than the durable job version''))
              else if sn_integrationKind sn = js ''hosted''
              then and_then (finishJob job (ro_workerId options) Superseded) (\<lambda>_. done_with OSuperseded)
              else if sn_storeStatus sn \<noteq> js ''active''
              then raise (RetryableProjectionError (js ''store_inactive'') (js ''connected store is not active''))
              else and_then (resolveProjectionRoute sn path key) (\<lambda>_.
                   and_then (outside (\<lambda>S n. su_endpoint S n key)) (\<lambda>endpoint.
                   case endpoint of
                     None \<Rightarrow> raise (RetryableProjectionError (js ''endpoint_unavailable'')
                       (js ''child MCP endpoint is unavailable''))
                   | Some e \<Rightarrow> send_projection job options sn path e)))) S st1 = (Inr o', st')"
    by (auto simp only: attempt_delivery_def and_then_Inr)
  from rest obtain sn registration path key where sn: "r = Some sn" "currentDestination sn = Some (registration, path, key)"
    by (auto simp: basic_Inr split: option.splits)
  from read_snapshot [OF r] sn(1) obtain row where row: "su_offer S (rs_tick st) job = Some row" "to_snapshot row = Inr sn"
    by (auto split: option.splits)
  have reg: "sn_registrationId sn \<noteq> None" using sn(2) by (auto simp: currentDestination_def split: option.splits)
  show thesis
  proof (cases "pj_canonicalVersion job < sn_canonicalVersion sn \<or> sn_registrationId sn \<noteq> pj_registrationId job \<or>
      sn_platformPath sn \<noteq> pj_platformPath job \<or> sn_mcpServerKey sn \<noteq> pj_mcpServerKey job")
    case True
    with rest sn obtain st2 where e: "ensureLatestProjectionJob sn S st1 = (Inr (), st2)"
      and f: "finishJob job (ro_workerId options) Superseded S st2 = (Inr (), st')" and o': "o' = OSuperseded"
      by (auto simp: and_then_Inr basic_Inr)
    from f have "rs_jobs st' = exec (su_now S (rs_tick st2)) (Finish (pj_id job) (ro_workerId options) Superseded)
        (su_others S (rs_tick st2) (rs_jobs st2))"
      by (simp add: finishJob_def query_Inr Let_def)
    moreover have "\<not> same_target job sn" using True by (auto simp: same_target_def)
    moreover from r have "rs_jobs st1 = su_others S (rs_tick st) (rs_jobs st)"
      by (auto simp: readCanonicalProjectionSnapshot_def run_simps split: option.splits)
    with names have "names_job job (su_others S (rs_tick st1) (rs_jobs st1))" by simp
    from ensured [OF e reg this names(3)] have "\<exists>j \<in> set (rs_jobs st2). successor_row job sn j" .
    ultimately show thesis using that [OF row sn(2)] o' by blast
  next
    case False
    with rest sn have "same_target job sn \<and> sn_integrationKind sn = js ''hosted'' \<and> o' = OSuperseded \<or>
        same_target job sn \<and> sn_storeStatus sn = js ''active'' \<and>
          (\<exists>e st1. send_projection job options sn path e S st1 = (Inr o', st'))"
      by (auto simp: same_target_def and_then_Inr basic_Inr outside_Inr split: if_splits option.splits)
    then show thesis using that [OF row sn(2)] by blast
  qed
qed

section \<open>A version that cannot be read\<close>

lemma to_job_unsafe: "\<bar>jr_canonical_version j\<bar> > 2 ^ 53 - 1 \<Longrightarrow> \<exists>c m. to_job j = Inl (PermanentProjectionError c m)"
  by (auto simp: to_job_def safeDatabaseVersion_def)

lemma rmap_to_job:
  "j \<in> set rows \<Longrightarrow> \<bar>jr_canonical_version j\<bar> > 2 ^ 53 - 1 \<Longrightarrow> \<exists>c m. rmap to_job rows = Inl (PermanentProjectionError c m)"
proof (induction rows)
  case (Cons r rows)
  show ?case
  proof (cases "to_job r")
    case (Inl e)
    then have "\<exists>c m. e = PermanentProjectionError c m"
      by (auto simp: to_job_def safeDatabaseVersion_def split: if_splits)
    with Inl show ?thesis by auto
  next
    case (Inr x)
    with Cons to_job_unsafe [of j] show ?thesis by auto
  qed
qed simp

section \<open>Claims\<close>

text \<open>
  C19. Whatever fails and whatever other sessions do to the table, as long as they respect its
  constraints, a run of the relay leaves a table that satisfies its \<open>CHECK\<close> and \<open>UNIQUE\<close>
  constraints, apart from the patterns of paths and server keys and the foreign keys: leases belong exactly to jobs in processing, acknowledgement times exactly to
  acknowledged jobs, no job has more than eight attempts, error texts are bounded and no version
  is queued twice for a destination.
\<close>

theorem relay_keeps_constraints:
  assumes "options_ok options" and "table_ok (rs_jobs st)" and "\<And>n js. table_ok js \<Longrightarrow> table_ok (su_others S n js)"
    and "runCatalogProjectionRelayOnce options S st = (r, st')"
  shows "table_ok (rs_jobs st')"
  using constraints.keeps_run [OF assms(1)] assms(2-4) unfolding constraints.keeps_def by blast

text \<open>
  C18. Delivery of a job ends: in any sequence of statements that workers send, in any order and
  with any clock readings, the row of a job changes at most eighteen times, so each job is
  claimed at most eight times; a job that is acknowledged, superseded or dead never changes again.
\<close>

theorem job_delivery_terminates:
  assumes "table_ok jobs" and "accepted ss jobs" and "row_of i jobs = Some j"
  shows "job_changes i ss jobs \<le> 18 \<and> (terminal j \<longrightarrow> job_changes i ss jobs = 0)"
proof -
  from changes_bounded [OF assms] have "job_changes i ss jobs \<le> job_work j" .
  moreover have "job_work j \<le> 18" unfolding job_work_def by (simp, arith)
  moreover have "terminal j \<Longrightarrow> job_work j = 0" by (simp add: job_work_def)
  ultimately show ?thesis by auto
qed

definition due :: "int \<Rightarrow> job_row \<Rightarrow> bool" where
  "due now j \<longleftrightarrow> waiting j \<and> jr_next_attempt_at j \<le> now \<or> jr_status j = Processing \<and> lease_over now j"

lemma close_keeps: "due now j \<Longrightarrow> \<not> exhausted m now j \<Longrightarrow> jr_attempts j < m"
  by (auto simp: due_def exhausted_def)

lemma claimed_when_room:
  assumes "j \<in> set jobs" and "claimable (ro_maxAttempts o') now j" and "\<not> locked (jr_id j)"
    and "length (filter (\<lambda>j. claimable (ro_maxAttempts o') now j \<and> \<not> locked (jr_id j)) jobs) \<le> ro_batchSize o'"
  shows "jr_id j \<in> set (claim_candidates (ro_batchSize o') (ro_maxAttempts o') now locked jobs)"
  using assms by (auto simp: claim_candidates_def)

text \<open>
  A job that is due does not wait for ever: when no other session holds its row and the
  batch is large enough for the jobs that can be claimed, the two statements that start a run
  bring it to its end as dead, when its attempts are used up, or into processing by this worker
  with one more attempt counted.
\<close>

theorem due_job_progresses:
  assumes "table_ok jobs" and "row_of i jobs = Some j" and "due now j" and "\<not> locked i"
    and "length (filter (claimable (ro_maxAttempts options) now) jobs) \<le> ro_batchSize options"
  shows "\<exists>j'. row_of i (exec now (Claim options locked) (exec now (CloseExhausted (ro_maxAttempts options)) jobs)) = Some j' \<and>
    (if ro_maxAttempts options \<le> jr_attempts j then jr_status j' = Dead
     else jr_status j' = Processing \<and> jr_lease_owner j' = Some (ro_workerId options) \<and> jr_attempts j' = Suc (jr_attempts j))"
proof -
  let ?m = "ro_maxAttempts options"
  let ?closed = "exec now (CloseExhausted ?m) jobs"
  let ?f = "\<lambda>j. if exhausted ?m now j then close_row j else j"
  have same: "jr_id (?f k) = jr_id k" for k by (simp add: close_row_def)
  have row: "row_of i ?closed = Some (?f j)"
    using assms(2) by (simp add: row_of_update close_row_def)
  have d: "distinct (map jr_id ?closed)"
    using exec_ok [OF assms(1), of "CloseExhausted ?m" now] by (simp add: table_ok_def)
  have f: "filter (\<lambda>j. claimable ?m now j \<and> \<not> locked (jr_id j)) ?closed = filter (\<lambda>j. claimable ?m now j \<and> \<not> locked (jr_id j)) jobs"
    by (induction jobs) (auto simp: update_where_def exhausted_def claimable_def close_row_def waiting_def)
  have "length (filter (\<lambda>j. claimable ?m now j \<and> \<not> locked (jr_id j)) jobs) \<le> length (filter (claimable ?m now) jobs)"
    by (induction jobs) auto
  with f assms(5) have room: "length (filter (\<lambda>j. claimable ?m now j \<and> \<not> locked (jr_id j)) ?closed) \<le> ro_batchSize options"
    by simp
  let ?C = "set (claim_candidates (ro_batchSize options) ?m now locked ?closed)"
  let ?g = "\<lambda>j. if jr_id j \<in> ?C then claim_row (ro_workerId options) (ro_leaseSeconds options) now j else j"
  have claimed: "row_of i (exec now (Claim options locked) ?closed) = Some (?g (?f j))"
    using row_of_map [of ?g i ?closed] row by (simp add: claim_sql_def Let_def claim_row_def)
  from row_of_member [OF row] have mem: "?f j \<in> set ?closed" "jr_id (?f j) = i" by auto
  show ?thesis
  proof (cases "?m \<le> jr_attempts j")
    case True
    with assms(3) have "exhausted ?m now j" by (auto simp: due_def exhausted_def)
    moreover from this have "\<not> claimable ?m now (?f j)"
      by (simp add: claimable_def close_row_def waiting_def)
    ultimately have "?g (?f j) = close_row j" using candidate_claimable [OF d mem(1)] by auto
    with claimed True show ?thesis by (simp add: close_row_def)
  next
    case False
    then have "?f j = j" by (simp add: exhausted_def)
    moreover have "claimable ?m now j" using False assms(3) by (auto simp: due_def claimable_def)
    ultimately have "jr_id (?f j) \<in> ?C"
      using claimed_when_room [of "?f j" ?closed options now locked] mem room assms(4) by simp
    with claimed False \<open>?f j = j\<close> show ?thesis by (simp add: claim_row_def)
  qed
qed

text \<open>
  C17. A delivery that ends well did what it reports. It is acknowledged only when the offer
  still had the version and the destination of the job, its store was active, and the child
  confirmed the projection built from it. It is superseded only when the child had a later version of that projection,
  when the store is hosted here and needs no projection, or when the offer has moved on. In the last case a row for the
  offer's current version at its current registration, added by this call or earlier, was in the table
  before this job was closed, and it is not the closed job when the version or the registration has changed. (When
  only the path or the server key has changed, it may be the closed job itself: see \<open>path_change_not_queued\<close>.)
  Assumed: no session changes the version or the registration of the job's row, and generated identifiers are new.
\<close>

theorem delivery_outcome_sound:
  assumes "deliverProjectionJob job options S st = (Inr o', st')" and "o' = OAcked \<or> o' = OSuperseded"
    and "names_job job (rs_jobs st)" and "\<And>n T. names_job job T \<Longrightarrow> names_job job (su_others S n T)"
    and "\<And>n. su_new_id S n \<noteq> pj_id job"
  shows "\<exists>row sn. su_offer S (rs_tick st) job = Some row \<and> to_snapshot row = Inr sn \<and>
    (if same_target job sn
     then sn_integrationKind sn = js ''hosted'' \<and> o' = OSuperseded \<or>
       sn_storeStatus sn = js ''active'' \<and>
       (\<exists>path projection n endpoint execution v applied. sn_platformPath sn = Some path \<and>
          buildCatalogProjectionArguments (su_platform S) (pj_requestId job) (snapshot_scope sn path) (snapshot_offer sn) = Inr projection \<and>
          su_invoke S n endpoint projection = Some execution \<and> te_ok execution \<and>
          parseCatalogProjectionAck (te_payload execution) projection = AckOk (o' = OSuperseded) v applied)
     else o' = OSuperseded \<and>
       (\<exists>T n. (\<exists>j \<in> set T. same_destination_version sn j \<and>
            (sn_canonicalVersion sn \<noteq> pj_canonicalVersion job \<or> sn_registrationId sn \<noteq> pj_registrationId job \<longrightarrow>
               jr_id j \<noteq> pj_id job)) \<and>
          rs_jobs st' = exec (su_now S n) (Finish (pj_id job) (ro_workerId options) Superseded) (su_others S n T)))"
proof -
  from delivery_attempt_outcome [OF deliver_attempt [OF assms(1,2)] assms(3-5)] obtain row sn registration path key where
    row: "su_offer S (rs_tick st) job = Some row" "to_snapshot row = Inr sn" "currentDestination sn = Some (registration, path, key)"
    and ways: "\<not> same_target job sn \<and> o' = OSuperseded \<and>
       (\<exists>T n. (\<exists>j \<in> set T. successor_row job sn j) \<and>
          rs_jobs st' = exec (su_now S n) (Finish (pj_id job) (ro_workerId options) Superseded) (su_others S n T)) \<or>
     same_target job sn \<and> sn_integrationKind sn = js ''hosted'' \<and> o' = OSuperseded \<or>
     same_target job sn \<and> sn_storeStatus sn = js ''active'' \<and>
       (\<exists>e st1. send_projection job options sn path e S st1 = (Inr o', st'))" .
  have path: "sn_platformPath sn = Some path" using row(3) by (auto simp: currentDestination_def split: option.splits if_splits)
  from ways show ?thesis
  proof (elim disjE)
    assume a: "same_target job sn \<and> sn_storeStatus sn = js ''active'' \<and>
       (\<exists>e st1. send_projection job options sn path e S st1 = (Inr o', st'))"
    then obtain e st1 where "send_projection job options sn path e S st1 = (Inr o', st')" by blast
    from send_outcome [OF this] obtain projection n execution v applied where
      "buildCatalogProjectionArguments (su_platform S) (pj_requestId job) (snapshot_scope sn path) (snapshot_offer sn) = Inr projection"
      "su_invoke S n e projection = Some execution" "te_ok execution"
      "parseCatalogProjectionAck (te_payload execution) projection = AckOk (o' = OSuperseded) v applied" .
    with a row path show ?thesis by (intro exI [of _ row] exI [of _ sn]) auto
  next
    assume "\<not> same_target job sn \<and> o' = OSuperseded \<and>
       (\<exists>T n. (\<exists>j \<in> set T. successor_row job sn j) \<and>
          rs_jobs st' = exec (su_now S n) (Finish (pj_id job) (ro_workerId options) Superseded) (su_others S n T))"
    with row show ?thesis by (intro exI [of _ row] exI [of _ sn]) (simp add: successor_row_def del: exec.simps)
  next
    assume "same_target job sn \<and> sn_integrationKind sn = js ''hosted'' \<and> o' = OSuperseded"
    with row show ?thesis by (intro exI [of _ row] exI [of _ sn]) simp
  qed
qed

text \<open>
  A change of the path alone is lost. The key of \<open>ON CONFLICT\<close> has the registration but not the path, so the row of the
  job itself stands in the way of the insertion: nothing is added, the job is closed as superseded, and no row of the table
  has the new path.
\<close>

theorem path_change_not_queued:
  assumes "\<And>n. su_fault S n = NoFault" "\<And>n T. su_others S n T = T"
    and "su_offer S (rs_tick st) job = Some row" "to_snapshot row = Inr sn" "currentDestination sn = Some d"
    and "sn_canonicalVersion sn = pj_canonicalVersion job" "sn_registrationId sn = pj_registrationId job"
    and "sn_platformPath sn \<noteq> pj_platformPath job"
    and "j \<in> set (rs_jobs st)" "same_destination_version sn j"
  shows "\<exists>st'. deliverProjectionJob job options S st = (Inr OSuperseded, st') \<and>
    map jr_platform_path (rs_jobs st') = map jr_platform_path (rs_jobs st) \<and>
    (jr_id j = pj_id job \<and> held_by (pj_id job) (ro_workerId options) j \<longrightarrow> (\<exists>t. finish_row Superseded t j \<in> set (rs_jobs st')))"
proof -
  obtain registration path key where d: "d = (registration, path, key)" by (cases d)
  have t: "list_ex (same_destination_version sn) (rs_jobs st)" using assms(9,10) by (auto simp: list_ex_iff)
  let ?st' = "\<lparr> rs_jobs = exec (su_now S (Suc (Suc (rs_tick st)))) (Finish (pj_id job) (ro_workerId options) Superseded) (rs_jobs st),
    rs_tick = Suc (Suc (Suc (rs_tick st))) \<rparr>"
  have "attempt_delivery job options S st = (Inr OSuperseded, ?st')"
    using assms(1-8) t d
    by (simp add: attempt_delivery_def readCanonicalProjectionSnapshot_def ensureLatestProjectionJob_def finishJob_def and_then_def
        query_def done_with_def lift_def Let_def)
  then have "deliverProjectionJob job options S st = (Inr OSuperseded, ?st')"
    by (simp add: deliverProjectionJob_def recover_def)
  moreover have "map jr_platform_path (rs_jobs ?st') = map jr_platform_path (rs_jobs st)"
    by (simp add: update_where_def finish_row_def)
  moreover have "held_by (pj_id job) (ro_workerId options) j \<Longrightarrow> \<exists>t. finish_row Superseded t j \<in> set (rs_jobs ?st')"
    using assms(9) by (force simp: update_where_def)
  ultimately show ?thesis by blast
qed

text \<open>
  C20. One job whose version is beyond the safe integers stops its whole batch: its error is
  raised while the claimed rows are converted, outside the handler that would bury that job
  alone, so the run ends with all claimed jobs in processing, an attempt spent on each, and none
  of them delivered.
\<close>

theorem unsafe_version_blocks_batch:
  assumes "su_fault S (rs_tick st) = NoFault" and "su_fault S (Suc (rs_tick st)) = NoFault"
    and "jobs = su_others S (Suc (rs_tick st)) (exec (su_now S (rs_tick st)) (CloseExhausted (ro_maxAttempts options))
        (su_others S (rs_tick st) (rs_jobs st)))"
    and "j \<in> set (claim_returning options (su_now S (Suc (rs_tick st))) (su_locked S (Suc (rs_tick st))) jobs)"
    and "jr_canonical_version j > 2 ^ 53 - 1"
  shows "\<exists>code message st'. runCatalogProjectionRelayOnce options S st = (Inl (PermanentProjectionError code message), st') \<and>
    rs_jobs st' = claim_sql options (su_now S (Suc (rs_tick st))) (su_locked S (Suc (rs_tick st))) jobs"
proof -
  from rmap_to_job [OF assms(4)] assms(5) obtain c m where
    "rmap to_job (claim_returning options (su_now S (Suc (rs_tick st))) (su_locked S (Suc (rs_tick st))) jobs) =
       Inl (PermanentProjectionError c m)" by auto
  with assms(1-3) show ?thesis
    by (simp add: runCatalogProjectionRelayOnce_def closeExhaustedJobs_def claimProjectionJobs_def and_then_def query_def
        Let_def lift_def raise_def)
qed

section \<open>An example\<close>

definition example_job :: job_row where
  "example_job = \<lparr> jr_id = js ''job'', jr_tenant_id = js ''t'', jr_domain_id = js ''d'', jr_store_id = js ''s'', jr_offer_id = js ''o'',
     jr_canonical_version = 3, jr_request_id = js ''r0'', jr_status = Pending, jr_attempts = 0, jr_next_attempt_at = 5,
     jr_lease_owner = None, jr_lease_expires_at = None, jr_last_error_code = None, jr_last_error = None, jr_created_at = 5,
     jr_acked_at = None, jr_registration_id = Some (js ''g''), jr_platform_path = Some (js ''/p''),
     jr_mcp_server_key = Some (js ''k'') \<rparr>"

definition example_options :: RelayOptions where
  "example_options = \<lparr> ro_workerId = js ''w'', ro_batchSize = 4, ro_leaseSeconds = 45, ro_maxAttempts = 8 \<rparr>"

definition example_offer_row :: offer_row where
  "example_offer_row = \<lparr> of_tenant_id = js ''t'', of_domain_id = js ''d'', of_store_id = js ''s'', of_offer_id = js ''o'',
     of_canonical_version = 3, of_external_key = js ''x'', of_display_name = js ''n'', of_attributes = JObj [], of_terms = JObj [],
     of_offer_status = js ''active'', of_registration_id = Some (js ''g''), of_platform_path = Some (js ''/p''),
     of_mcp_server_key = Some (js ''k''), of_store_status = js ''active'', of_integration_kind = js ''connected'' \<rparr>"

text \<open>A child that confirms what it is sent.\<close>

definition confirm :: "CatalogProjectionArguments \<Rightarrow> tool_execution" where
  "confirm a = \<lparr> te_ok = True, te_status = 200, te_payload = [(js ''result'', JObj [(js ''structuredContent'', JObj
     [(js ''protocol'', JStr CATALOG_PROJECTION_PROTOCOL), (js ''request_id'', JStr (ca_request_id a)),
      (js ''scope'', scope_json (ca_scope a)), (js ''offer_id'', JStr (co_offerId (ca_offer a))),
      (js ''canonical_version'', JNum (num_of_int (ca_canonical_version a))),
      (js ''applied_version'', JNum (num_of_int (ca_canonical_version a))), (js ''applied'', JBool True),
      (js ''indexed'', JBool (co_status (ca_offer a) = Active)),
      (js ''projection_digest'', JStr (ca_projection_digest a)), (js ''status'', JStr (status_text (co_status (ca_offer a))))])])] \<rparr>"

definition example_surroundings :: surroundings where
  "example_surroundings = \<lparr> su_now = (\<lambda>n. 10 + int n), su_fault = (\<lambda>_. NoFault), su_others = (\<lambda>_ js. js), su_locked = (\<lambda>_ _. False),
     su_new_id = (\<lambda>_. js ''new''), su_new_request = (\<lambda>_. js ''r1''), su_offer = (\<lambda>_ _. Some example_offer_row),
     su_routes = (\<lambda>_ _. Some [\<lparr> rt_path = js ''/p'', rt_tenantId = js ''t'', rt_domainId = js ''d'', rt_mcpServerKey = js ''k'',
       rt_agentMcpTools = [CATALOG_TOOL] \<rparr>]), su_endpoint = (\<lambda>_ _. Some (Some (js ''e''))),
     su_invoke = (\<lambda>_ _ a. Some (confirm a)), su_scaled = (\<lambda>e b. int e),
     su_platform = \<lparr> url_parse = (\<lambda>_. None), isIP = (\<lambda>_. 0), ip_process = (\<lambda>_. None), sha256 = (\<lambda>_. js ''h'') \<rparr> \<rparr>"

lemma example_table: "table_ok [example_job]" "options_ok example_options"
  by (simp_all add: table_ok_def row_ok_def example_job_def options_ok_def example_options_def js_simps)

lemma example_row: "row_of (js ''job'') [example_job] = Some example_job"
  by (simp add: row_of_def example_job_def)

theorem relay_keeps_constraints_witness:
  "table_ok (rs_jobs (snd (runCatalogProjectionRelayOnce example_options example_surroundings \<lparr> rs_jobs = [example_job], rs_tick = 0 \<rparr>)))"
proof -
  let ?st = "\<lparr> rs_jobs = [example_job], rs_tick = 0 \<rparr>"
  obtain r st' where run: "runCatalogProjectionRelayOnce example_options example_surroundings ?st = (r, st')"
    by (cases "runCatalogProjectionRelayOnce example_options example_surroundings ?st")
  have t: "table_ok (rs_jobs ?st)" using example_table(1) by simp
  have "table_ok js \<Longrightarrow> table_ok (su_others example_surroundings n js)" for n js by (simp add: example_surroundings_def)
  from relay_keeps_constraints [OF example_table(2) t this run] run show ?thesis by simp
qed

theorem job_delivery_terminates_witness:
  "job_changes (js ''job'') [(10, Claim example_options (\<lambda>_. False)), (11, Finish (js ''job'') (js ''w'') Acked)] [example_job] \<le> 18"
proof -
  have "accepted [(10, Claim example_options (\<lambda>_. False)), (11, Finish (js ''job'') (js ''w'') Acked)] [example_job]"
    using example_table(2) by simp
  from job_delivery_terminates [OF example_table(1) this example_row] show ?thesis by simp
qed

theorem due_job_progresses_witness:
  "\<exists>j'. row_of (js ''job'') (exec 10 (Claim example_options (\<lambda>_. False)) (exec 10 (CloseExhausted 8) [example_job])) = Some j' \<and>
     jr_status j' = Processing \<and> jr_attempts j' = 1"
proof -
  have d: "due 10 example_job" by (simp add: due_def waiting_def example_job_def)
  have m: "ro_maxAttempts example_options = 8" "ro_batchSize example_options = 4" "jr_attempts example_job = 0"
    by (simp_all add: example_options_def example_job_def)
  have "length (filter (claimable 8 10) [example_job]) \<le> 4" by simp
  with due_job_progresses [OF example_table(1) example_row d, of "\<lambda>_. False" example_options] show ?thesis
    unfolding m by auto
qed

definition example_projection_job :: ProjectionJob where
  "example_projection_job = \<lparr> pj_id = js ''job'', pj_tenantId = js ''t'', pj_domainId = js ''d'', pj_storeId = js ''s'', pj_offerId = js ''o'', pj_canonicalVersion = 2,
     pj_requestId = js ''r0'', pj_attempts = 1, pj_registrationId = Some (js ''g''), pj_platformPath = Some (js ''/p''),
     pj_mcpServerKey = Some (js ''k'') \<rparr>"

lemma example_run:
  "fst (deliverProjectionJob example_projection_job example_options example_surroundings \<lparr> rs_jobs = [], rs_tick = 0 \<rparr>) =
     Inr OSuperseded"
  by (simp add: deliverProjectionJob_def recover_def attempt_delivery_def readCanonicalProjectionSnapshot_def and_then_def query_def Let_def
      example_surroundings_def example_offer_row_def example_projection_job_def to_snapshot_def safeDatabaseVersion_def offerStatus_def
      lift_def done_with_def currentDestination_def optionalString_def ensureLatestProjectionJob_def finishJob_def
      same_destination_version_def example_job_def rbind_def js_simps)

theorem delivery_outcome_sound_witness:
  "\<exists>row sn st' T n j. su_offer example_surroundings 0 example_projection_job = Some row \<and> to_snapshot row = Inr sn \<and>
     deliverProjectionJob example_projection_job example_options example_surroundings \<lparr> rs_jobs = [], rs_tick = 0 \<rparr> =
       (Inr OSuperseded, st') \<and>
     j \<in> set T \<and> same_destination_version sn j \<and> jr_id j \<noteq> js ''job'' \<and>
     rs_jobs st' = exec (su_now example_surroundings n) (Finish (js ''job'') (js ''w'') Superseded) (su_others example_surroundings n T)"
proof -
  let ?st = "\<lparr> rs_jobs = [], rs_tick = 0 \<rparr>"
  obtain st' where run: "deliverProjectionJob example_projection_job example_options example_surroundings ?st = (Inr OSuperseded, st')"
    using example_run by (metis prod.collapse)
  have ids: "pj_id example_projection_job = js ''job''" "ro_workerId example_options = js ''w''"
    "pj_canonicalVersion example_projection_job = 2"
    by (simp_all add: example_projection_job_def example_options_def)
  have hyps: "names_job example_projection_job (rs_jobs ?st)"
    "\<And>n T. names_job example_projection_job T \<Longrightarrow> names_job example_projection_job (su_others example_surroundings n T)"
    "\<And>n. su_new_id example_surroundings n \<noteq> pj_id example_projection_job"
    by (simp_all add: names_job_def example_surroundings_def ids js_simps)
  from delivery_outcome_sound [OF run disjI2 [OF refl] hyps] obtain row sn where
    row: "su_offer example_surroundings 0 example_projection_job = Some row" "to_snapshot row = Inr sn"
    and moved: "\<not> same_target example_projection_job sn \<Longrightarrow> \<exists>T n. (\<exists>j \<in> set T. same_destination_version sn j \<and>
       (sn_canonicalVersion sn \<noteq> 2 \<or> sn_registrationId sn \<noteq> pj_registrationId example_projection_job \<longrightarrow> jr_id j \<noteq> js ''job'')) \<and>
       rs_jobs st' = exec (su_now example_surroundings n) (Finish (js ''job'') (js ''w'') Superseded)
        (su_others example_surroundings n T)"
    unfolding ids by (auto simp del: exec.simps split: if_splits)
  from row have "sn_canonicalVersion sn = 3"
    by (auto simp: example_surroundings_def example_offer_row_def to_snapshot_def safeDatabaseVersion_def rbind_Inr split: if_splits)
  moreover from this have "\<not> same_target example_projection_job sn" by (simp add: same_target_def ids)
  ultimately show ?thesis using row run moved by fastforce
qed

theorem unsafe_version_blocks_batch_witness:
  "\<exists>code message st'. runCatalogProjectionRelayOnce example_options example_surroundings
      \<lparr> rs_jobs = [example_job\<lparr> jr_canonical_version := 2 ^ 53 \<rparr>], rs_tick = 0 \<rparr> = (Inl (PermanentProjectionError code message), st') \<and>
    rs_jobs st' = claim_sql example_options 11 (\<lambda>_. False) [example_job\<lparr> jr_canonical_version := 2 ^ 53 \<rparr>]"
proof -
  let ?j = "example_job\<lparr> jr_canonical_version := 2 ^ 53 \<rparr>"
  have jobs: "[?j] = su_others example_surroundings (Suc 0) (exec (su_now example_surroundings 0) (CloseExhausted (ro_maxAttempts example_options))
      (su_others example_surroundings 0 [?j]))"
    by (simp add: example_surroundings_def example_options_def update_where_def exhausted_def example_job_def)
  let ?k = "claim_row (js ''w'') 45 11 ?j"
  have k: "?k \<in> set (claim_returning example_options (su_now example_surroundings (Suc 0)) (su_locked example_surroundings (Suc 0)) [?j])"
    by (simp add: claim_returning_def claim_candidates_def claimable_def waiting_def example_surroundings_def example_options_def
        example_job_def Let_def claim_sql_def claim_row_def)
  have v: "jr_canonical_version ?k > 2 ^ 53 - 1" by (simp add: claim_row_def)
  have n: "su_fault example_surroundings n = NoFault" for n by (simp add: example_surroundings_def)
  have st: "rs_tick \<lparr> rs_jobs = [?j], rs_tick = 0 \<rparr> = 0" "rs_jobs \<lparr> rs_jobs = [?j], rs_tick = 0 \<rparr> = [?j]" by simp_all
  have S: "su_now example_surroundings (Suc 0) = 11" "su_locked example_surroundings (Suc 0) = (\<lambda>_. False)"
    by (simp_all add: example_surroundings_def)
  from unsafe_version_blocks_batch [of example_surroundings "\<lparr> rs_jobs = [?j], rs_tick = 0 \<rparr>" "[?j]" example_options ?k, unfolded st,
      OF n n jobs k v]
  show ?thesis unfolding S .
qed

end
