(* ===== verification/Exact_Decimal.thy ===== *)
theory Exact_Decimal
  imports Js_String "HOL-Library.List_Lexorder"
begin

text \<open>
  Exact decimals of an exchange-rate provider, after the helpers of
  \<open>web/app/api/mall/exchange-rate/route.ts\<close>: \<open>quoteJsonNumbers\<close> turns the numbers of a JSON text into
  strings before it is parsed, and \<open>normalizeExactPositiveDecimal\<close> brings such a string into plain
  notation. The lemmas show that neither loses a digit.
\<close>

section \<open>Number tokens\<close>

text \<open>The parts of \<open>(0|[1-9]\d*)(?:\.(\d+))?(?:[eE]([+-]?\d+))?\<close> at the start of a text: the
  integer, the optional fraction and the optional exponent, each with what follows it. No part can
  gain by giving characters back, so the greedy match is the match.\<close>

definition opt_fraction :: "jstr \<Rightarrow> jstr option \<times> jstr" where
  "opt_fraction s =
     (case s of
        c # t \<Rightarrow> if c = 46 \<and> takeWhile is_digit t \<noteq> [] then (Some (takeWhile is_digit t), dropWhile is_digit t)
                 else (None, s)
      | [] \<Rightarrow> (None, s))"

definition opt_sign :: "jstr \<Rightarrow> jstr \<times> jstr" where
  "opt_sign s = (case s of c # t \<Rightarrow> if c = 43 \<or> c = 45 then ([c], t) else ([], s) | [] \<Rightarrow> ([], s))"

definition opt_exponent :: "jstr \<Rightarrow> (nat \<times> jstr) option \<times> jstr" where
  "opt_exponent s =
     (case s of
        c # t \<Rightarrow>
          (let (g, u) = opt_sign t; d = takeWhile is_digit u
           in if (c = 101 \<or> c = 69) \<and> d \<noteq> [] then (Some (c, g @ d), dropWhile is_digit u) else (None, s))
      | [] \<Rightarrow> (None, s))"

definition decimal_at :: "jstr \<Rightarrow> (jstr \<times> jstr option \<times> (nat \<times> jstr) option \<times> jstr) option" where
  "decimal_at s =
     (case pint s of
        None \<Rightarrow> None
      | Some (i, r) \<Rightarrow>
          (let (f, r1) = opt_fraction r; (x, r2) = opt_exponent r1 in Some (i, f, x, r2)))"

fun fraction_text :: "jstr option \<Rightarrow> jstr" where
  "fraction_text None = []"
| "fraction_text (Some f) = 46 # f"

fun exponent_text :: "(nat \<times> jstr) option \<Rightarrow> jstr" where
  "exponent_text None = []"
| "exponent_text (Some (c, x)) = c # x"

text \<open>The match of \<open>/^-?(?:0|[1-9]\d*)(?:\.\d+)?(?:[eE][+-]?\d+)?/\<close>.\<close>

definition number_token :: "jstr \<Rightarrow> jstr option" where
  "number_token s =
     (let (m, t) = (case s of c # t \<Rightarrow> if c = 45 then ([45], t) else ([], s) | [] \<Rightarrow> ([], s))
      in map_option (\<lambda>(i, f, x, r). m @ i @ fraction_text f @ exponent_text x) (decimal_at t))"

section \<open>Quoting the numbers of a text\<close>

text \<open>The loop, with \<open>inString\<close> and \<open>escaped\<close>.\<close>

function quote_loop :: "bool \<Rightarrow> bool \<Rightarrow> jstr \<Rightarrow> jstr" where
  "quote_loop inString escaped [] = []"
| "quote_loop inString escaped (c # s) =
     (if inString then
        c # (if escaped then quote_loop True False s
             else if c = 92 then quote_loop True True s
             else if c = 34 then quote_loop False escaped s
             else quote_loop True escaped s)
      else if c = 34 then c # quote_loop True escaped s
      else case (if c = 45 \<or> is_digit c then number_token (c # s) else None) of
        Some (d # token) \<Rightarrow> 34 # (d # token) @ 34 # quote_loop False escaped (drop (length token) s)
      | _ \<Rightarrow> c # quote_loop False escaped s)"
  by pat_completeness auto
termination
  by (relation "measure (\<lambda>(_, _, s). length s)") (auto split: if_splits)

definition quoteJsonNumbers :: "jstr \<Rightarrow> jstr" where
  "quoteJsonNumbers value = quote_loop False False value"

section \<open>Plain notation\<close>

definition expandDecimal :: "jstr \<Rightarrow> jstr \<Rightarrow> int \<Rightarrow> jstr" where
  "expandDecimal integer fraction exponent =
     (let digits = integer @ fraction; decimalIndex = int (length integer) + exponent
      in if decimalIndex \<le> 0 then js ''0.'' @ replicate (nat (- decimalIndex)) 48 @ digits
         else if int (length digits) \<le> decimalIndex then digits @ replicate (nat decimalIndex - length digits) 48
         else take (nat decimalIndex) digits @ 46 # drop (nat decimalIndex) digits)"

definition exactRateExceedsLimit :: "jstr \<Rightarrow> jstr \<Rightarrow> bool" where
  "exactRateExceedsLimit whole fraction \<longleftrightarrow>
     (if length whole \<noteq> 13 then length whole > 13
      else if whole \<noteq> js ''1000000000000'' then whole > js ''1000000000000''
      else length fraction > 0)"

text \<open>\<open>replace(/0+$/, "")\<close>.\<close>

definition strip_trailing_zeros :: "jstr \<Rightarrow> jstr" where
  "strip_trailing_zeros s = rev (dropWhile (\<lambda>c. c = 48) (rev s))"

text \<open>\<open>/^[+-]?\d{1,3}$/\<close> and the number that the matched text denotes.\<close>

definition short_exponent :: "jstr \<Rightarrow> bool" where
  "short_exponent x = (let d = snd (opt_sign x) in 1 \<le> length d \<and> length d \<le> 3 \<and> list_all is_digit d)"

definition exponent_number :: "jstr \<Rightarrow> int" where
  "exponent_number x = (let (g, d) = opt_sign x in if g = [45] then - int (read_nat d) else int (read_nat d))"

definition normalizeExactPositiveDecimal :: "json option \<Rightarrow> jstr option" where
  "normalizeExactPositiveDecimal v =
     (case v of
        Some (JStr value) \<Rightarrow>
          if length value > 256 then None
          else (case decimal_at value of
             Some (integer, f, x, []) \<Rightarrow>
               (let fraction = (case f of None \<Rightarrow> [] | Some d \<Rightarrow> d);
                    exponentText = (case x of None \<Rightarrow> js ''0'' | Some (_, d) \<Rightarrow> d)
                in if \<not> short_exponent exponentText then None
                   else if \<bar>exponent_number exponentText\<bar> > 100 then None
                   else (let expanded = expandDecimal integer fraction (exponent_number exponentText);
                             parts = split_on 46 expanded;
                             whole = strip_zeros (hd parts);
                             normalizedFraction = strip_trailing_zeros (if length parts > 1 then parts ! 1 else []);
                             normalized = (if normalizedFraction \<noteq> [] then whole @ 46 # normalizedFraction else whole)
                         in if \<not> list_ex (\<lambda>c. 49 \<le> c \<and> c \<le> 57) normalized then None
                            else if exactRateExceedsLimit whole normalizedFraction then None
                            else Some normalized))
           | _ \<Rightarrow> None)
      | _ \<Rightarrow> None)"

section \<open>Tokens and the numbers of the parser\<close>

definition exponent_of :: "(nat \<times> jstr) option \<Rightarrow> int" where
  "exponent_of x = (case x of None \<Rightarrow> 0 | Some (_, d) \<Rightarrow> exponent_number d)"

definition fraction_of :: "jstr option \<Rightarrow> jstr" where
  "fraction_of f = (case f of None \<Rightarrow> [] | Some d \<Rightarrow> d)"

text \<open>The number that the parts of a token denote.\<close>

definition decimal_number :: "bool \<Rightarrow> jstr \<Rightarrow> jstr option \<Rightarrow> (nat \<times> jstr) option \<Rightarrow> jsnum" where
  "decimal_number neg i f x =
     (let m = int (read_nat (i @ fraction_of f))
      in dec (if neg then - m else m) (exponent_of x - int (length (fraction_of f))))"

lemma pfrac_Some: "pfrac s = Some (f, r) \<longleftrightarrow>
    (case opt_fraction s of (Some f', r') \<Rightarrow> f = f' \<and> r = r'
     | (None, r') \<Rightarrow> f = [] \<and> r = s \<and> (s = [] \<or> hd s \<noteq> 46))"
  by (auto simp: pfrac_def opt_fraction_def Let_def split: list.splits)

lemma pexp_Some: "pexp s = Some (x, r) \<longleftrightarrow>
    (case opt_exponent s of (Some (c, d), r') \<Rightarrow> x = exponent_number d \<and> r = r'
     | (None, r') \<Rightarrow> x = 0 \<and> r = s \<and> (s = [] \<or> hd s \<noteq> 101 \<and> hd s \<noteq> 69))"
  by (auto simp: pexp_def opt_exponent_def pexp_digits_def opt_sign_def exponent_number_def Let_def is_digit_def
      split: list.splits if_splits)

lemma pabs_decimal:
  assumes "pabs neg s = Some (v, r)"
  obtains i f x where "decimal_at s = Some (i, f, x, r)" "v = JNum (decimal_number neg i f x)"
proof -
  from assms obtain i r1 f' r2 e where i: "pint s = Some (i, r1)" "pfrac r1 = Some (f', r2)" "pexp r2 = Some (e, r)"
    "v = JNum (dec (if neg then - int (read_nat (i @ f')) else int (read_nat (i @ f'))) (e - int (length f')))"
    by (auto simp: pabs_def Let_def split: option.splits)
  obtain f rf where f: "opt_fraction r1 = (f, rf)" by (cases "opt_fraction r1")
  obtain x rx where x: "opt_exponent r2 = (x, rx)" by (cases "opt_exponent r2")
  from i(2) f have "f' = fraction_of f" "r2 = rf"
    by (auto simp: pfrac_Some fraction_of_def opt_fraction_def split: option.splits list.splits if_splits)
  moreover from i(3) x have "e = exponent_of x" "r = rx"
    by (auto simp: pexp_Some exponent_of_def opt_exponent_def Let_def split: option.splits list.splits if_splits prod.splits)
  ultimately have "decimal_at s = Some (i, f, x, r)" "v = JNum (decimal_number neg i f x)"
    using i f x by (simp_all add: decimal_at_def decimal_number_def Let_def)
  with that show ?thesis .
qed

lemma pabs_whole:
  assumes "decimal_at s = Some (i, f, x, [])"
  shows "pabs neg s = Some (JNum (decimal_number neg i f x), [])"
proof -
  from assms obtain r1 r2 where i: "pint s = Some (i, r1)" "opt_fraction r1 = (f, r2)" "opt_exponent r2 = (x, [])"
    by (auto simp: decimal_at_def Let_def split: option.splits prod.splits)
  then have "r2 = [] \<or> hd r2 = 101 \<or> hd r2 = 69"
    by (auto simp: opt_exponent_def Let_def split: list.splits if_splits prod.splits)
  with i(2) have "pfrac r1 = Some (fraction_of f, r2)"
    by (auto simp: pfrac_Some fraction_of_def opt_fraction_def split: list.splits if_splits)
  moreover from i(3) have "pexp r2 = Some (exponent_of x, [])"
    by (auto simp: pexp_Some exponent_of_def opt_exponent_def Let_def split: list.splits if_splits prod.splits)
  ultimately show ?thesis using i(1) by (simp add: pabs_def decimal_number_def Let_def)
qed

text \<open>The shape of a token.\<close>

lemma decimal_at_shape:
  assumes "decimal_at s = Some (i, f, x, r)"
  shows "s = i @ fraction_text f @ exponent_text x @ r" "i \<noteq> []" "list_all is_digit i" "hd i = 48 \<Longrightarrow> i = [48]"
    "list_all is_digit (fraction_of f)"
    "list_all (\<lambda>c. is_digit c \<or> c = 43 \<or> c = 45 \<or> c = 101 \<or> c = 69) (exponent_text x)"
proof -
  from assms obtain r1 r2 where i: "pint s = Some (i, r1)" "opt_fraction r1 = (f, r2)" "opt_exponent r2 = (x, r)"
    by (auto simp: decimal_at_def Let_def split: option.splits prod.splits)
  have tw: "list_all is_digit (takeWhile is_digit t)" for t by (auto simp: list_all_iff dest: set_takeWhileD)
  have "s = i @ r1 \<and> i \<noteq> [] \<and> list_all is_digit i \<and> (hd i = 48 \<longrightarrow> i = [48])"
    using i(1) tw by (auto simp: pint_def is_digit_def split: list.splits if_splits)
  moreover have "r1 = fraction_text f @ r2 \<and> list_all is_digit (fraction_of f)"
    using i(2) tw by (auto simp: opt_fraction_def fraction_of_def split: list.splits if_splits)
  moreover have "list_all (\<lambda>c. is_digit c \<or> c = 43 \<or> c = 45 \<or> c = 101 \<or> c = 69) (takeWhile is_digit t)" for t
    using tw [of t] by (auto simp: list_all_iff)
  then have "r2 = exponent_text x @ r \<and> list_all (\<lambda>c. is_digit c \<or> c = 43 \<or> c = 45 \<or> c = 101 \<or> c = 69) (exponent_text x)"
    using i(3) by (auto simp: opt_exponent_def opt_sign_def Let_def split: list.splits if_splits prod.splits)
  ultimately show "s = i @ fraction_text f @ exponent_text x @ r" "i \<noteq> []" "list_all is_digit i" "hd i = 48 \<Longrightarrow> i = [48]"
    "list_all is_digit (fraction_of f)"
    "list_all (\<lambda>c. is_digit c \<or> c = 43 \<or> c = 45 \<or> c = 101 \<or> c = 69) (exponent_text x)"
    by simp_all
qed

lemma decimal_at_prefix:
  assumes "decimal_at s = Some (i, f, x, r)"
  shows "decimal_at (i @ fraction_text f @ exponent_text x) = Some (i, f, x, [])"
proof -
  from assms obtain r1 r2 where i: "pint s = Some (i, r1)" "opt_fraction r1 = (f, r2)" "opt_exponent r2 = (x, r)"
    by (auto simp: decimal_at_def Let_def split: option.splits prod.splits)
  note shape = decimal_at_shape [OF assms]
  have x: "nd (exponent_text x)" using i(3) by (cases x) (auto simp: opt_exponent_def Let_def is_digit_def split: list.splits if_splits prod.splits)
  have "opt_exponent (exponent_text x) = (x, [])"
  proof (cases x)
    case (Some p)
    obtain c d where p: "p = (c, d)" by (cases p)
    obtain g u where u: "opt_sign (tl r2) = (g, u)" by (cases "opt_sign (tl r2)")
    with Some p i(3) have e: "d = g @ takeWhile is_digit u" "takeWhile is_digit u \<noteq> []" "c = 101 \<or> c = 69" "g = [] \<or> g = [43] \<or> g = [45]"
      by (auto simp: opt_exponent_def opt_sign_def Let_def split: list.splits if_splits)
    have digits: "list_all is_digit (takeWhile is_digit u)" by (auto simp: list_all_iff dest: set_takeWhileD)
    with e have "opt_sign d = (g, takeWhile is_digit u)" by (cases "takeWhile is_digit u") (auto simp: opt_sign_def is_digit_def)
    with e Some p digits_split [OF digits, of "[]"] show ?thesis by (simp add: opt_exponent_def Let_def)
  qed (simp add: opt_exponent_def)
  moreover have "opt_fraction (fraction_text f @ exponent_text x) = (f, exponent_text x)"
    using i(2) shape(5) x i(3)
    by (cases f; cases x)
       (auto simp: opt_fraction_def opt_exponent_def fraction_of_def digits_split takeWhile_all dropWhile_all Let_def is_digit_def
          split: list.splits if_splits prod.splits)
  moreover have "pint (i @ fraction_text f @ exponent_text x) = Some (i, fraction_text f @ exponent_text x)"
  proof (rule pint_ok)
    show "nd (fraction_text f @ exponent_text x)" using x by (cases f) (auto simp: is_digit_def)
  qed (use shape(2-4) in auto)
  ultimately show ?thesis by (simp add: decimal_at_def)
qed

lemma number_token_pnum:
  assumes "pnum s = Some (v, r)"
  obtains tok where "number_token s = Some tok" "s = tok @ r" "tok \<noteq> []" "pnum tok = Some (v, [])"
    "list_all (\<lambda>c. is_digit c \<or> c = 43 \<or> c = 45 \<or> c = 46 \<or> c = 101 \<or> c = 69) tok"
    "hd s = 45 \<or> is_digit (hd s)"
proof -
  define neg where "neg = (s \<noteq> [] \<and> hd s = 45)"
  define t where "t = (if neg then tl s else s)"
  have p: "pabs neg t = Some (v, r)" using assms by (auto simp: pnum_def neg_def t_def split: list.splits if_splits)
  then obtain i f x where d: "decimal_at t = Some (i, f, x, r)" and v: "v = JNum (decimal_number neg i f x)"
    by (rule pabs_decimal)
  note shape = decimal_at_shape [OF d]
  let ?d = "i @ fraction_text f @ exponent_text x"
  let ?tok = "(if neg then [45] else []) @ ?d"
  have hd_i: "is_digit (hd i)" using shape(2,3) by (cases i) auto
  have s: "(if neg then [45] else []) @ t = s" by (cases s) (auto simp: neg_def t_def)
  have "number_token s = Some ?tok"
    using d by (cases s) (auto simp: number_token_def t_def neg_def Let_def)
  moreover have "s = ?tok @ r" using shape(1) unfolding s [symmetric] by simp
  moreover have "?tok \<noteq> []" using shape(2) by simp
  moreover have "pnum ?tok = Some (v, [])"
    using pabs_whole [OF decimal_at_prefix [OF d], of neg] v shape(2) hd_i
    by (cases i) (auto simp: pnum_def is_digit_def)
  moreover have "list_all (\<lambda>c. is_digit c \<or> c = 43 \<or> c = 45 \<or> c = 46 \<or> c = 101 \<or> c = 69) ?tok"
    using shape(3,5,6) by (cases f) (auto simp: list_all_iff fraction_of_def)
  moreover have "hd s = 45 \<or> is_digit (hd s)"
    unfolding s [symmetric] using shape(1,2) hd_i by (auto simp: hd_append)
  ultimately show ?thesis by (rule that)
qed

section \<open>Parsing a quoted text\<close>

text \<open>\<open>exact w v\<close>: \<open>w\<close> is \<open>v\<close> with every number replaced by a text that denotes exactly it.\<close>

fun exact :: "json \<Rightarrow> json \<Rightarrow> bool" where
  "exact (JStr t) (JNum n) \<longleftrightarrow> pnum t = Some (JNum n, [])"
| "exact (JArr ws) (JArr vs) \<longleftrightarrow> list_all2 exact ws vs"
| "exact (JObj ws) (JObj vs) \<longleftrightarrow> list_all2 (\<lambda>(k, w) (k', v). k = k' \<and> exact w v) ws vs"
| "exact w v \<longleftrightarrow> w = v"

text \<open>Outside of strings.\<close>

abbreviation quoted :: "jstr \<Rightarrow> jstr" where
  "quoted \<equiv> quote_loop False False"

lemma quoted_plain: "c \<noteq> 34 \<Longrightarrow> c \<noteq> 45 \<Longrightarrow> \<not> is_digit c \<Longrightarrow> quoted (c # s) = c # quoted s"
  by simp

lemma quoted_skip_ws: "skip_ws (quoted s) = quoted (skip_ws s)"
proof (induction s)
  case (Cons c s)
  show ?case
  proof (cases "is_ws c")
    case True
    then have "quoted (c # s) = c # quoted s" by (intro quoted_plain) (auto simp: is_ws_def is_digit_def)
    with True Cons show ?thesis by (simp add: skip_ws_def del: quote_loop.simps)
  next
    case False
    then have "\<exists>t d. quoted (c # s) = d # t \<and> \<not> is_ws d" by (auto simp: is_ws_def split: option.split list.split)
    with False show ?thesis by (auto simp: skip_ws_def)
  qed
qed (simp add: skip_ws_def)

lemma quote_hex:
  assumes "4 \<le> length t" "list_all is_hex (take 4 t)"
  shows "quote_loop True False t = take 4 t @ quote_loop True False (drop 4 t)"
proof -
  from assms(1) obtain a b c d u where t: "t = a # b # c # d # u"
    by (auto simp: numeral_eq_Suc Suc_le_length_iff)
  have "is_hex e \<Longrightarrow> e \<noteq> 92 \<and> e \<noteq> 34" for e by (auto simp: is_hex_def is_hex_lower_def is_digit_def)
  with assms(2) t show ?thesis by simp
qed

lemma quoted_string: "pstr s = Some (x, r) \<Longrightarrow> pstr (quote_loop True False s) = Some (x, quoted r)"
proof (induction s arbitrary: x rule: pstr.induct)
  case (2 c s)
  consider "c = 34" | "c = 92" | "c \<noteq> 34" "c \<noteq> 92" by blast
  then show ?case
  proof cases
    case 1
    with 2 show ?thesis by simp
  next
    case 2
    with "2.prems" obtain e t where s: "s = e # t" by (auto split: list.splits)
    show ?thesis
    proof (cases "e = 117")
      case True
      with "2.prems" 2 s obtain y where t: "4 \<le> length t" "list_all is_hex (take 4 t)" "pstr (drop 4 t) = Some (y, r)"
        "x = (hex_value (t ! 0) * 4096 + hex_value (t ! 1) * 256 + hex_value (t ! 2) * 16 + hex_value (t ! 3)) # y"
        by (auto split: if_splits)
      have "pstr (quote_loop True False (drop 4 t)) = Some (y, quoted r)"
        using "2.IH"(1) [OF _ 2 s True] t by (simp add: 2)
      with t True 2 s show ?thesis by (simp add: quote_hex nth_append min_def)
    next
      case False
      with "2.prems" 2 s obtain y z where t: "simple_escape e = Some y" "pstr t = Some (z, r)" "x = y # z"
        by (auto split: option.splits)
      then have "pstr (quote_loop True False t) = Some (z, quoted r)"
        using "2.IH"(2) [OF _ 2 s False] by (simp add: 2)
      with t False 2 s show ?thesis by simp
    qed
  next
    case 3
    with "2.prems" obtain y where y: "\<not> c < 32" "pstr s = Some (y, r)" "x = c # y" by (auto split: if_splits)
    with "2.IH"(3) 3 have "pstr (quote_loop True False s) = Some (y, quoted r)" by simp
    with y 3 show ?thesis by simp
  qed
qed simp

text \<open>A number is quoted as the token that the parser would have read.\<close>

lemma quoted_number:
  assumes "pnum (c # s) = Some (v, r)"
  obtains tok n where "quoted (c # s) = 34 # tok @ 34 # quoted r" "pstr (tok @ 34 # quoted r) = Some (tok, quoted r)"
    "exact (JStr tok) v"
proof -
  obtain tok where tok: "number_token (c # s) = Some tok" "c # s = tok @ r" "tok \<noteq> []"
    "pnum tok = Some (v, [])" "list_all (\<lambda>c. is_digit c \<or> c = 43 \<or> c = 45 \<or> c = 46 \<or> c = 101 \<or> c = 69) tok"
    "hd (c # s) = 45 \<or> is_digit (hd (c # s))" by (rule number_token_pnum [OF assms])
  from tok(2,3) obtain u where u: "tok = c # u" "s = u @ r" by (cases tok) auto
  have "c \<noteq> 34" using tok(6) by (auto simp: is_digit_def)
  with tok(1,6) u have "quoted (c # s) = 34 # tok @ 34 # quoted r" by auto
  moreover have "pstr (w @ 34 # q) = Some (w, q)"
    if "list_all (\<lambda>c. is_digit c \<or> c = 43 \<or> c = 45 \<or> c = 46 \<or> c = 101 \<or> c = 69) w" for w q
    using that by (induction w) (auto simp: is_digit_def)
  moreover obtain n where "v = JNum n" using tok(4) by (auto simp: pnum_def pabs_def Let_def split: list.splits if_splits option.splits)
  ultimately show ?thesis using that tok(4,5) by simp
qed

lemma quoted_word:
  assumes "pword w v s = Some (u, r)" and "list_all (\<lambda>c. is_lower c) (js w)"
  shows "pword w v (quoted s) = Some (u, quoted r)"
proof -
  have "quoted (t @ r) = t @ quoted r" if "list_all is_lower t" for t
    using that by (induction t) (auto simp: is_lower_def is_digit_def)
  moreover from assms(1) have "s = js w @ r" "u = v"
    unfolding pword_def by (metis append_take_drop_id option.distinct(1) option.inject prod.inject)+
  ultimately show ?thesis using assms(2) by (simp add: pword_def js_simps)
qed

lemma exact_obj_put:
  "list_all2 (\<lambda>(k, w) (k', v). k = k' \<and> exact w v) ws vs \<Longrightarrow> exact w v \<Longrightarrow>
     list_all2 (\<lambda>(k, w) (k', v). k = k' \<and> exact w v) (obj_put ws k w) (obj_put vs k v)"
  by (induction ws vs rule: list_all2_induct) auto

lemma quoted_first: "\<exists>d' t'. quoted (d # t) = d' # t' \<and> (d' = d \<or> d' = 34)"
  by (auto split: option.split list.split)

lemma quoted_parse:
  "pval n s = Some (v, r) \<Longrightarrow> \<exists>w. pval n (quoted s) = Some (w, quoted r) \<and> exact w v"
  "parr n vs s = Some (v, r) \<Longrightarrow> list_all2 exact ws vs \<Longrightarrow>
     \<exists>w. parr n ws (quoted s) = Some (w, quoted r) \<and> exact w v"
  "pobj n ms s = Some (v, r) \<Longrightarrow> list_all2 (\<lambda>(k, w) (k', v). k = k' \<and> exact w v) ns ms \<Longrightarrow>
     \<exists>w. pobj n ns (quoted s) = Some (w, quoted r) \<and> exact w v"
proof (induction n s and n vs s and n ms s arbitrary: v r and v r ws and v r ns rule: pval_parr_pobj.induct)
  case (2 n s)
  then obtain c t where ct: "skip_ws s = c # t" by (auto split: list.splits)
  have q: "skip_ws (quoted s) = quoted (c # t)" by (simp add: quoted_skip_ws ct del: quote_loop.simps)
  have plain: "quoted (c # t) = c # quoted t" if "c = 123 \<or> c = 91 \<or> c = 110 \<or> c = 116 \<or> c = 102"
    using that by (intro quoted_plain) (auto simp: is_digit_def)
  consider "c = 123" | "c = 91" | "c = 34" | "c = 110" | "c = 116" | "c = 102"
    | "c \<notin> {123, 91, 34, 110, 116, 102}" by blast
  then show ?case
  proof cases
    case 7
    with "2.prems" ct have "pnum (c # t) = Some (v, r)" by simp
    from quoted_number [OF this] obtain tok where
      "quoted (c # t) = 34 # tok @ 34 # quoted r" "pstr (tok @ 34 # quoted r) = Some (tok, quoted r)" "exact (JStr tok) v" by metis
    with q show ?thesis by simp
  next
    case 3
    with "2.prems" ct obtain x where "pstr t = Some (x, r)" "v = JStr x" by auto
    with quoted_string [OF this(1)] q 3 show ?thesis by simp
  next
    case 1
    with "2.prems" ct obtain d u where d: "skip_ws t = d # u" by (auto split: list.splits)
    then have qd: "skip_ws (quoted t) = quoted (d # u)" by (simp add: quoted_skip_ws del: quote_loop.simps)
    show ?thesis
    proof (cases "d = 125")
      case True
      with "2.prems" ct d 1 q qd plain show ?thesis by (auto simp: quoted_plain is_digit_def simp del: quote_loop.simps)
    next
      case False
      with "2.prems" ct d 1 have "pobj n [] (d # u) = Some (v, r)" by simp
      with "2.IH"(1) [OF ct 1 d False] obtain w where w: "pobj n [] (quoted (d # u)) = Some (w, quoted r)" "exact w v" by auto
      obtain d' t' where "quoted (d # u) = d' # t'" "d' \<noteq> 125" using quoted_first [of d u] False by auto
      with w q qd plain 1 show ?thesis by (simp del: quote_loop.simps)
    qed
  next
    case 2
    with "2.prems" ct obtain d u where d: "skip_ws t = d # u" by (auto split: list.splits)
    then have qd: "skip_ws (quoted t) = quoted (d # u)" by (simp add: quoted_skip_ws del: quote_loop.simps)
    show ?thesis
    proof (cases "d = 93")
      case True
      with "2.prems" ct d 2 q qd plain show ?thesis by (auto simp: quoted_plain is_digit_def simp del: quote_loop.simps)
    next
      case False
      with "2.prems" ct d 2 have "parr n [] (d # u) = Some (v, r)" by simp
      with "2.IH"(2) [OF ct _ 2 d False] 2 obtain w where w: "parr n [] (quoted (d # u)) = Some (w, quoted r)" "exact w v" by auto
      obtain d' t' where "quoted (d # u) = d' # t'" "d' \<noteq> 93" using quoted_first [of d u] False by auto
      with w q qd plain 2 show ?thesis by (simp del: quote_loop.simps)
    qed
  next
    case 4
    with "2.prems" ct have w: "pword ''null'' JNull (c # t) = Some (v, r)" by simp
    then have "v = JNull" by (auto simp: pword_def split: if_splits)
    with quoted_word [OF w] q plain 4 show ?thesis by (simp add: js_simps is_lower_def del: quote_loop.simps)
  next
    case 5
    with "2.prems" ct have w: "pword ''true'' (JBool True) (c # t) = Some (v, r)" by simp
    then have "v = JBool True" by (auto simp: pword_def split: if_splits)
    with quoted_word [OF w] q plain 5 show ?thesis by (simp add: js_simps is_lower_def del: quote_loop.simps)
  next
    case 6
    with "2.prems" ct have w: "pword ''false'' (JBool False) (c # t) = Some (v, r)" by simp
    then have "v = JBool False" by (auto simp: pword_def split: if_splits)
    with quoted_word [OF w] q plain 6 show ?thesis by (simp add: js_simps is_lower_def del: quote_loop.simps)
  qed
next
  case (4 n vs s)
  then obtain v1 r1 where v1: "pval n s = Some (v1, r1)" by (auto split: option.splits)
  with "4.IH"(1) obtain w1 where w1: "pval n (quoted s) = Some (w1, quoted r1)" "exact w1 v1" by blast
  from "4.prems"(1) v1 obtain c t where c: "skip_ws r1 = c # t" "c = 44 \<or> c = 93" by (auto split: list.splits if_splits)
  have qc: "skip_ws (quoted r1) = c # quoted t"
    using quoted_plain [of c t] c by (auto simp: quoted_skip_ws is_digit_def simp del: quote_loop.simps)
  have acc: "list_all2 exact (ws @ [w1]) (vs @ [v1])" using "4.prems"(2) w1(2) by (simp add: list_all2_appendI)
  show ?case
  proof (cases "c = 44")
    case True
    with "4.prems"(1) v1 c have "parr n (vs @ [v1]) t = Some (v, r)" by simp
    with "4.IH"(2) [OF v1 refl c(1) True] acc obtain w where "parr n (ws @ [w1]) (quoted t) = Some (w, quoted r)" "exact w v" by blast
    with w1 qc True show ?thesis by simp
  next
    case False
    with "4.prems"(1) v1 c have "v = JArr (vs @ [v1])" "r = t" by auto
    with w1 qc False c acc show ?thesis by simp
  qed
next
  case (6 n ms s)
  then obtain t where t: "skip_ws s = 34 # t" by (auto split: list.splits if_splits)
  with "6.prems"(1) obtain k r1 where k: "pstr t = Some (k, r1)" by (auto split: option.splits)
  with "6.prems"(1) t obtain u where u: "skip_ws r1 = 58 # u" by (auto split: list.splits if_splits)
  with "6.prems"(1) t k obtain v1 r2 where v1: "pval n u = Some (v1, r2)" by (auto split: option.splits)
  with "6.prems"(1) t k u obtain c t' where c: "skip_ws r2 = c # t'" "c = 44 \<or> c = 125" by (auto split: list.splits if_splits)
  from "6.IH"(1) [OF t _ k refl u _ ] v1 obtain w1 where w1: "pval n (quoted u) = Some (w1, quoted r2)" "exact w1 v1" by auto
  have q: "skip_ws (quoted s) = 34 # quote_loop True False t" "skip_ws (quoted r1) = 58 # quoted u" "skip_ws (quoted r2) = c # quoted t'"
    using t u c quoted_plain [of 58 u] quoted_plain [of c t'] by (auto simp: quoted_skip_ws is_digit_def)
  note acc = exact_obj_put [OF "6.prems"(2) w1(2), of k]
  show ?case
  proof (cases "c = 44")
    case True
    with "6.prems"(1) t k u v1 c have "pobj n (obj_put ms k v1) t' = Some (v, r)" by simp
    with "6.IH"(2) [OF t _ k refl u _ v1 refl c(1) True] acc obtain w where
      "pobj n (obj_put ns k w1) (quoted t') = Some (w, quoted r)" "exact w v" by auto
    with q quoted_string [OF k] w1 True show ?thesis by simp
  next
    case False
    with "6.prems"(1) t k u v1 c have "v = JObj (obj_put ms k v1)" "r = t'" by auto
    with q quoted_string [OF k] w1 False c acc show ?thesis by simp
  qed
qed simp_all

lemma parse_mono:
  "pval n s = Some x \<Longrightarrow> pval (Suc n) s = Some x"
  "parr n vs s = Some x \<Longrightarrow> parr (Suc n) vs s = Some x"
  "pobj n ms s = Some x \<Longrightarrow> pobj (Suc n) ms s = Some x"
proof (induction n s and n vs s and n ms s arbitrary: x and x and x rule: pval_parr_pobj.induct)
  case (2 n s)
  from "2.prems" [unfolded pval.simps(2) [of n s]] "2.IH" show ?case
    unfolding pval.simps(2) [of "Suc n" s]
    by (cases x) (auto simp del: pval.simps parr.simps pobj.simps split: list.splits if_splits)
next
  case (4 n vs s)
  from "4.prems" [unfolded parr.simps(2) [of n vs s]] "4.IH" show ?case
    unfolding parr.simps(2) [of "Suc n" vs s]
    by (cases x) (auto simp del: pval.simps parr.simps pobj.simps split: list.splits if_splits option.splits)
next
  case (6 n ms s)
  from "6.prems" [unfolded pobj.simps(2) [of n ms s]] "6.IH" show ?case
    unfolding pobj.simps(2) [of "Suc n" ms s]
    by (cases x) (auto simp del: pval.simps parr.simps pobj.simps split: list.splits if_splits option.splits)
qed simp_all

lemma pval_mono:
  assumes "n \<le> m" and "pval n s = Some x"
  shows "pval m s = Some x"
  using assms by (induction m rule: dec_induct) (blast intro: parse_mono(1))+

lemma length_quote_loop: "length s \<le> length (quote_loop inString escaped s)"
proof (induction inString escaped s rule: quote_loop.induct)
  case (2 inString escaped c s)
  then show ?case by (auto split: option.split list.split)
qed simp

lemma quoted_numbers:
  assumes "json_parse s = Some v"
  shows "\<exists>w. json_parse (quoteJsonNumbers s) = Some w \<and> exact w v"
proof -
  from assms obtain r where r: "pval (2 * length s + 2) s = Some (v, r)" "skip_ws r = []"
    by (auto simp: json_parse_def split: option.splits if_splits)
  from quoted_parse(1) [OF r(1)] obtain w where w: "pval (2 * length s + 2) (quoted s) = Some (w, quoted r)" "exact w v" by blast
  have "2 * length s + 2 \<le> 2 * length (quoted s) + 2" using length_quote_loop [of s False False] by simp
  from pval_mono [OF this w(1)] have "pval (2 * length (quoted s) + 2) (quoted s) = Some (w, quoted r)" .
  moreover have "skip_ws (quoted r) = []" by (simp add: quoted_skip_ws r(2))
  ultimately show ?thesis using w(2) by (simp add: json_parse_def quoteJsonNumbers_def)
qed

section \<open>The value of the normal form\<close>

lemma dec_scale: "dec (s * 10 ^ k) (e - int k) = dec s e"
proof (induction k arbitrary: e)
  case (Suc k)
  show ?case
  proof (cases "s = 0")
    case False
    then have "dec (s * 10 ^ Suc k) (e - int (Suc k)) = dec (s * 10 ^ k) (e - int k)"
      by (subst dec.simps) (auto simp: algebra_simps)
    with Suc show ?thesis by simp
  qed (simp add: dec.simps [of 0])
qed simp

lemma num_val_dec: "num_val (dec s e) = num_val (Dec s e)"
proof (induction s e rule: dec.induct)
  case (1 s e)
  show ?case
  proof (cases "s = 0 \<or> s mod 10 \<noteq> 0")
    case True
    then show ?thesis by (subst dec.simps) auto
  next
    case False
    then have s: "s = 10 * (s div 10)" and d: "dec s e = dec (s div 10) (e + 1)" by (auto simp: dec.simps [of s])
    from s have r: "rat_of_int s = 10 * rat_of_int (s div 10)" by (metis of_int_mult of_int_numeral)
    consider "0 \<le> e" | "e = -1" | "e < -1" by linarith
    then have "num_val (Dec (s div 10) (e + 1)) = num_val (Dec s e)"
    proof cases
      case 3
      then have "nat (- e) = Suc (nat (- (e + 1)))" by arith
      with 3 r show ?thesis by simp
    qed (use r in \<open>simp_all add: nat_add_distrib\<close>)
    with 1 False d show ?thesis by simp
  qed
qed

lemma positional_less:
  fixes u v p :: nat
  assumes "x < p" "y < p"
  shows "u * p + x < v * p + y \<longleftrightarrow> u < v \<or> u = v \<and> x < y"
proof -
  have "u * p + x < v * p + y" if "u < v" "x < p" for u v x y
  proof -
    from that have "Suc u * p \<le> v * p" by (intro mult_le_mono1) simp
    with that show ?thesis by simp
  qed
  with assms show ?thesis by (metis less_asym nat_add_left_cancel_less nat_neq_iff)
qed

lemma digits_less:
  "length a = length b \<Longrightarrow> list_all is_digit a \<Longrightarrow> list_all is_digit b \<Longrightarrow> a < b \<longleftrightarrow> read_nat a < read_nat b"
proof (induction a b rule: list_induct2)
  case (Cons x a y b)
  have "read_nat a < 10 ^ length b" "read_nat b < 10 ^ length b"
    using Cons.prems Cons.hyps read_nat_less [of a] read_nat_less [of b] by auto
  moreover have "x = 48 + (x - 48)" "y = 48 + (y - 48)" using Cons.prems by (auto simp: is_digit_def)
  then have "x < y \<longleftrightarrow> x - 48 < y - 48" "x = y \<longleftrightarrow> x - 48 = y - 48" by linarith+
  ultimately show ?case using Cons positional_less [of "read_nat a" "10 ^ length b" "read_nat b" "x - 48" "y - 48"]
    by (simp add: read_nat_Cons)
qed simp

lemma split_at_dot:
  "46 \<notin> set w \<Longrightarrow> split_on 46 w = [w]"
  "46 \<notin> set w \<Longrightarrow> 46 \<notin> set f \<Longrightarrow> split_on 46 (w @ 46 # f) = [w, f]"
proof -
  show "46 \<notin> set w \<Longrightarrow> split_on 46 w = [w]" for w by (induction w) auto
  then show "46 \<notin> set w \<Longrightarrow> 46 \<notin> set f \<Longrightarrow> split_on 46 (w @ 46 # f) = [w, f]" by (induction w) auto
qed

text \<open>Plain notation without superfluous zeros: a whole number and the digits of its fraction.\<close>

definition plain_text :: "nat \<Rightarrow> jstr \<Rightarrow> jstr" where
  "plain_text q f = (if f \<noteq> [] then show_nat q @ 46 # f else show_nat q)"

definition plain_fraction :: "jstr \<Rightarrow> bool" where
  "plain_fraction f \<longleftrightarrow> list_all is_digit f \<and> (f \<noteq> [] \<longrightarrow> last f \<noteq> 48)"

definition plain_number :: "nat \<Rightarrow> jstr \<Rightarrow> jsnum" where
  "plain_number q f = dec (int (q * 10 ^ length f + read_nat f)) (- int (length f))"

definition canonical :: "jstr \<Rightarrow> bool" where
  "canonical t \<longleftrightarrow> (\<exists>q f. t = plain_text q f \<and> plain_fraction f)"

lemma digits_no_dot: "list_all is_digit s \<Longrightarrow> 46 \<notin> set s"
  by (auto simp: list_all_iff is_digit_def)

lemma strip_trailing:
  assumes "list_all is_digit f"
  shows "plain_fraction (strip_trailing_zeros f)"
    "\<exists>k. f = strip_trailing_zeros f @ replicate k 48"
proof -
  let ?z = "\<lambda>c. c = (48::nat)"
  have f: "rev f = takeWhile ?z (rev f) @ dropWhile ?z (rev f)" by simp
  moreover have "takeWhile ?z (rev f) = replicate (length (takeWhile ?z (rev f))) 48"
    by (rule replicate_length_same [symmetric]) (auto dest: set_takeWhileD)
  ultimately show k: "\<exists>k. f = strip_trailing_zeros f @ replicate k 48"
    unfolding strip_trailing_zeros_def by (metis rev_append rev_replicate rev_rev_ident)
  have "last (strip_trailing_zeros f) \<noteq> 48" if "strip_trailing_zeros f \<noteq> []"
    using that hd_dropWhile [of ?z "rev f"] by (simp add: strip_trailing_zeros_def last_rev)
  with assms show "plain_fraction (strip_trailing_zeros f)"
    by (auto simp: plain_fraction_def strip_trailing_zeros_def list_all_iff dest: set_dropWhileD)
qed

lemma stripped_number:
  assumes "list_all is_digit w" "list_all is_digit f"
  shows "plain_number (read_nat w) (strip_trailing_zeros f) = dec (int (read_nat (w @ f))) (- int (length f))"
proof -
  let ?f = "strip_trailing_zeros f"
  from strip_trailing(2) [OF assms(2)] obtain k where k: "f = ?f @ replicate k 48" ..
  then have l: "length f = length ?f + k" by (metis length_append length_replicate)
  have "read_nat (w @ f) = (read_nat w * 10 ^ length ?f + read_nat ?f) * 10 ^ k"
    by (subst k) (simp add: read_nat_append algebra_simps power_add)
  with dec_scale [of "int (read_nat w * 10 ^ length ?f + read_nat ?f)" k "- int (length ?f)"] l show ?thesis
    by (simp add: plain_number_def)
qed

lemma expanded_parts:
  assumes i: "list_all is_digit i" "i \<noteq> []" and f: "list_all is_digit f"
  obtains w g where "list_all is_digit w" "w \<noteq> []" "list_all is_digit g"
    "expandDecimal i f e = (if g = [] then w else w @ 46 # g)"
    "dec (int (read_nat (w @ g))) (- int (length g)) = dec (int (read_nat (i @ f))) (e - int (length f))"
proof -
  let ?d = "i @ f" and ?x = "int (length i) + e"
  have d: "list_all is_digit ?d" using i f by simp
  consider "?x \<le> 0" | "0 < ?x" "int (length ?d) \<le> ?x" | "0 < ?x" "?x < int (length ?d)" by linarith
  then show ?thesis
  proof cases
    case 1
    have "list_all is_digit (replicate (nat (- ?x)) 48 @ ?d)" using d by (auto simp: list_all_iff is_digit_def)
    moreover have "read_nat ([48] @ replicate (nat (- ?x)) 48 @ ?d) = read_nat ?d" by (simp add: read_nat_append read_nat_Cons)
    ultimately show ?thesis using 1 i by (intro that [of "[48]" "replicate (nat (- ?x)) 48 @ ?d"])
       (auto simp: expandDecimal_def is_digit_def js_simps)
  next
    case 2
    let ?k = "nat ?x - length ?d"
    have k: "e - int (length f) = int ?k" using 2 by simp
    have "dec (int (read_nat (?d @ replicate ?k 48))) 0 = dec (int (read_nat ?d)) (e - int (length f))"
      unfolding k using dec_scale [of "int (read_nat ?d)" ?k "int ?k"] by (simp only: read_nat_append read_nat_replicate0) simp
    moreover have "expandDecimal i f e = ?d @ replicate ?k 48" using 2 unfolding expandDecimal_def Let_def by simp
    moreover have "list_all is_digit (?d @ replicate ?k 48)" "?d @ replicate ?k 48 \<noteq> []"
      using d i by (auto simp: list_all_iff is_digit_def)
    ultimately show ?thesis using that [of "?d @ replicate ?k 48" "[]"] by auto
  next
    case 3
    have "list_all is_digit (take (nat ?x) ?d)" "list_all is_digit (drop (nat ?x) ?d)"
      using list_all_take_drop [OF d] by auto
    moreover have "take (nat ?x) ?d \<noteq> []" using 3 i by (simp del: take_append)
    moreover have "expandDecimal i f e = take (nat ?x) ?d @ 46 # drop (nat ?x) ?d" "drop (nat ?x) ?d \<noteq> []"
      using 3 unfolding expandDecimal_def Let_def by (simp_all del: take_append drop_append)
    moreover have "- int (length (drop (nat ?x) ?d)) = e - int (length f)" using 3 by (simp del: drop_append)
    moreover have "read_nat (take (nat ?x) ?d @ drop (nat ?x) ?d) = read_nat ?d" by (simp only: append_take_drop_id)
    ultimately show ?thesis by (intro that [of "take (nat ?x) ?d" "drop (nat ?x) ?d"]) (simp_all only: if_False not_False_eq_True)
  qed
qed

text \<open>The number of a plain text, and that no two plain texts denote the same number.\<close>

lemma pnum_plain: "plain_fraction f \<Longrightarrow> pnum (plain_text q f) = Some (JNum (plain_number q f), [])"
proof -
  assume f: "plain_fraction f"
  have q: "list_all is_digit (show_nat q)" "show_nat q \<noteq> []" "hd (show_nat q) \<noteq> 48 \<or> show_nat q = [48]"
    using show_nat_hd [of q] by (simp, simp, cases "q = 0") auto
  have hd45: "hd (show_nat q) \<noteq> 45" using q(1,2) by (cases "show_nat q") (auto simp: is_digit_def)
  have "decimal_at (plain_text q f) = Some (show_nat q, if f = [] then None else Some f, None, [])"
  proof (cases "f = []")
    case True
    then show ?thesis using pint_ok [OF q, of "[]"] by (simp add: plain_text_def decimal_at_def opt_fraction_def opt_exponent_def)
  next
    case False
    have d: "takeWhile is_digit f = f" "dropWhile is_digit f = []"
      using f digits_split [of f "[]"] by (simp_all add: plain_fraction_def)
    have "pint (show_nat q @ 46 # f) = Some (show_nat q, 46 # f)" by (rule pint_ok [OF q]) (simp add: is_digit_def)
    then show ?thesis by (simp add: plain_text_def decimal_at_def opt_fraction_def opt_exponent_def d False)
  qed
  from pabs_whole [OF this, of False]
  have "pabs False (plain_text q f) = Some (JNum (plain_number q f), [])"
    by (simp add: decimal_number_def plain_number_def fraction_of_def exponent_of_def read_nat_append)
  then show ?thesis using hd45 q(2) by (cases "show_nat q") (auto simp: pnum_def plain_text_def)
qed

lemma dec_plain:
  assumes "plain_fraction f" "f \<noteq> []"
  shows "plain_number q f = Dec (int (q * 10 ^ length f + read_nat f)) (- int (length f))"
proof -
  obtain g c where f: "f = g @ [c]" using assms(2) by (metis append_butlast_last_id)
  with assms have "is_digit c" "c \<noteq> 48" by (simp_all add: plain_fraction_def)
  then obtain d where c: "c = 48 + d" "0 < d" "d < 10" by (auto simp: is_digit_def dest!: le_Suc_ex)
  let ?m = "q * 10 ^ length f + read_nat f"
  have "?m = 10 * (q * 10 ^ length g + read_nat g) + d" using f c by (simp add: algebra_simps)
  with c have "?m mod 10 \<noteq> 0" by presburger
  then have "int ?m mod 10 \<noteq> 0" using zmod_int [of ?m 10] by presburger
  moreover have "dec a e = Dec a e" if "a mod 10 \<noteq> 0" for a e by (subst dec.simps) (use that in auto)
  ultimately show ?thesis unfolding plain_number_def by blast
qed

lemma plain_whole: "is_integer (plain_number q []) \<and> num_int (plain_number q []) = int q"
  using dec_integer [of 0 "int q"] by (simp add: plain_number_def)

lemma digits_inj:
  "length a = length b \<Longrightarrow> list_all is_digit a \<Longrightarrow> list_all is_digit b \<Longrightarrow> read_nat a = read_nat b \<Longrightarrow> a = b"
  using digits_less [of a b] digits_less [of b a] by (metis less_irrefl linorder_less_linear)

lemma plain_number_inj:
  assumes f: "plain_fraction f" and g: "plain_fraction g" and eq: "plain_number p f = plain_number q g"
  shows "p = q \<and> f = g"
proof -
  have len: "length f = length g"
  proof (cases "f = [] \<or> g = []")
    case True
    have "f' = []" if "plain_fraction f'" "plain_number p' f' = plain_number q' []" for f' p' q'
    proof (rule ccontr)
      assume "f' \<noteq> []"
      with dec_plain [OF that(1) this, of p'] that(2) plain_whole [of q'] have "0 \<le> - int (length f')"
        by (metis is_integer.simps(1))
      with \<open>f' \<noteq> []\<close> show False by simp
    qed
    from this [OF f] this [OF g] eq True show ?thesis by metis
  next
    case False
    with dec_plain [OF f] dec_plain [OF g] eq show ?thesis by simp
  qed
  have "p * 10 ^ length f + read_nat f = q * 10 ^ length g + read_nat g"
  proof (cases "f = []")
    case True
    with len have "g = []" by simp
    with True eq plain_whole [of p] plain_whole [of q] have "int p = int q" by metis
    with True \<open>g = []\<close> show ?thesis by simp
  next
    case False
    moreover from this len have "g \<noteq> []" by auto
    ultimately have "int (p * 10 ^ length f + read_nat f) = int (q * 10 ^ length g + read_nat g)"
      using dec_plain [OF f, of p] dec_plain [OF g, of q] eq by (metis jsnum.inject(2))
    then show ?thesis by linarith
  qed
  moreover have "read_nat f < 10 ^ length f" "read_nat g < 10 ^ length f"
    using f g read_nat_less [of f] read_nat_less [of g] len by (simp_all add: plain_fraction_def)
  ultimately have "p = q" "read_nat f = read_nat g"
    using positional_less [of "read_nat f" "10 ^ length f" "read_nat g" p q]
      positional_less [of "read_nat g" "10 ^ length f" "read_nat f" q p] len by (metis less_irrefl nat_neq_iff)+
  with digits_inj [OF len] f g show ?thesis by (simp add: plain_fraction_def)
qed

text \<open>The limit of the rate and the test for a non-zero digit, on plain texts.\<close>

lemma plain_val: "num_val (plain_number q f) = of_nat (q * 10 ^ length f + read_nat f) / 10 ^ length f"
  unfolding plain_number_def num_val_dec by simp

lemma read_fraction_zero: "plain_fraction f \<Longrightarrow> read_nat f = 0 \<longleftrightarrow> f = []"
proof
  assume f: "plain_fraction f" and "read_nat f = 0"
  show "f = []"
  proof (rule ccontr)
    assume "f \<noteq> []"
    then obtain g c where g: "f = g @ [c]" by (metis append_butlast_last_id)
    with f \<open>read_nat f = 0\<close> show False by (auto simp: plain_fraction_def is_digit_def)
  qed
qed simp

lemma limit_exact:
  assumes "plain_fraction f"
  shows "exactRateExceedsLimit (show_nat q) f \<longleftrightarrow> \<not> num_val (plain_number q f) \<le> 10 ^ 12"
proof -
  have "num_val (plain_number q f) \<le> 10 ^ 12 \<longleftrightarrow>
      (of_nat (q * 10 ^ length f + read_nat f) :: rat) \<le> of_nat (10 ^ 12 * 10 ^ length f)"
    unfolding plain_val by (simp add: divide_le_eq)
  also have "\<dots> \<longleftrightarrow> q * 10 ^ length f + read_nat f \<le> 10 ^ 12 * 10 ^ length f" by (rule of_nat_le_iff)
  also have "\<dots> \<longleftrightarrow> q < 10 ^ 12 \<or> q = 10 ^ 12 \<and> f = []"
    using positional_less [of 0 "10 ^ length f" "read_nat f" "10 ^ 12" q] read_nat_less [of f] assms
      read_fraction_zero [OF assms] by (auto simp: plain_fraction_def not_less [symmetric])
  finally have val: "num_val (plain_number q f) \<le> 10 ^ 12 \<longleftrightarrow> q < 10 ^ 12 \<or> q = 10 ^ 12 \<and> f = []" .
  have lim: "js ''1000000000000'' = show_nat (10 ^ 12)" by (simp add: js_simps show_nat.simps)
  have len: "length (show_nat q) = 13 \<longleftrightarrow> 10 ^ 12 \<le> q \<and> q < 10 ^ 13"
    using show_nat_length_le [of 12 q] show_nat_length_le [of 13 q] by auto
  consider "q < 10 ^ 12" | "q = 10 ^ 12" | "10 ^ 12 < q" "q < 10 ^ 13" | "10 ^ 13 \<le> q" by linarith
  then show ?thesis
  proof cases
    case 3
    then have "length (show_nat (10 ^ 12)) = length (show_nat q)" using len arg_cong [OF lim, of length] by simp
    from digits_less [OF this] 3 have "show_nat q > show_nat (10 ^ 12)" by simp
    with 3 len val lim show ?thesis by (auto simp: exactRateExceedsLimit_def)
  qed (use len val lim show_nat_length_le [of 12 q] show_nat_length_le [of 13 q] in \<open>auto simp: exactRateExceedsLimit_def\<close>)
qed

lemma digits_positive:
  assumes "list_all is_digit s"
  shows "list_ex (\<lambda>c. 49 \<le> c \<and> c \<le> 57) s \<longleftrightarrow> 0 < read_nat s"
  using assms by (induction s) (auto simp: read_nat_Cons is_digit_def)

lemma plain_positive:
  assumes "plain_fraction f"
  shows "list_ex (\<lambda>c. 49 \<le> c \<and> c \<le> 57) (plain_text q f) \<longleftrightarrow> 0 < num_val (plain_number q f)"
proof -
  have "list_ex (\<lambda>c. 49 \<le> c \<and> c \<le> 57) (plain_text q f) \<longleftrightarrow> 0 < q \<or> 0 < read_nat f"
    using assms digits_positive [of f] digits_positive [of "show_nat q"] by (auto simp: plain_text_def plain_fraction_def)
  also have "\<dots> \<longleftrightarrow> 0 < q * 10 ^ length f + read_nat f" by simp
  also have "\<dots> \<longleftrightarrow> 0 < num_val (plain_number q f)" unfolding plain_val by (simp add: zero_less_divide_iff del: of_nat_add of_nat_mult of_nat_power)
  finally show ?thesis .
qed

text \<open>The exponent of a decimal has at most three digits and at most the value 100.\<close>

definition moderate_exponent :: "jstr \<Rightarrow> bool" where
  "moderate_exponent s \<longleftrightarrow>
     (case decimal_at s of
        Some (i, f, Some (c, x), []) \<Rightarrow> short_exponent x \<and> \<bar>exponent_number x\<bar> \<le> 100
      | Some (i, f, None, []) \<Rightarrow> True
      | _ \<Rightarrow> False)"

text \<open>What the normaliser computes on a text that matches: the plain text of its number.\<close>

lemma normalize_matched:
  assumes d: "decimal_at s = Some (i, f, x, [])" and m: "moderate_exponent s" and l: "length s \<le> 256"
  obtains q g where "plain_fraction g" "plain_number q g = decimal_number False i f x"
    "normalizeExactPositiveDecimal (Some (JStr s)) =
       (if 0 < num_val (plain_number q g) \<and> num_val (plain_number q g) \<le> 10 ^ 12 then Some (plain_text q g) else None)"
proof -
  note shape = decimal_at_shape [OF d]
  let ?x = "case x of None \<Rightarrow> js ''0'' | Some (_, d) \<Rightarrow> d"
  have x: "short_exponent ?x" "\<bar>exponent_number ?x\<bar> \<le> 100" "exponent_number ?x = exponent_of x"
    using d m by (auto simp: moderate_exponent_def exponent_of_def short_exponent_def exponent_number_def opt_sign_def js_simps is_digit_def
        split: option.splits)
  let ?e = "exponent_of x"
  obtain w g where wg: "list_all is_digit w" "w \<noteq> []" "list_all is_digit g"
    "expandDecimal i (fraction_of f) ?e = (if g = [] then w else w @ 46 # g)"
    "dec (int (read_nat (w @ g))) (- int (length g)) = dec (int (read_nat (i @ fraction_of f))) (?e - int (length (fraction_of f)))"
    by (rule expanded_parts [OF shape(3,2,5), of ?e])
  let ?q = "read_nat w" and ?g = "strip_trailing_zeros g"
  have plain: "plain_fraction ?g" by (rule strip_trailing(1) [OF wg(3)])
  have number: "plain_number ?q ?g = decimal_number False i f x"
    using stripped_number [OF wg(1,3)] wg(5) by (simp add: decimal_number_def)
  have parts: "split_on 46 (expandDecimal i (fraction_of f) ?e) = (if g = [] then [w] else [w, g])"
    using wg split_at_dot [of w] digits_no_dot [OF wg(1)] digits_no_dot [OF wg(3)] by simp
  have "strip_trailing_zeros [] = []" by (simp add: strip_trailing_zeros_def)
  then have "normalizeExactPositiveDecimal (Some (JStr s)) =
      (if \<not> list_ex (\<lambda>c. 49 \<le> c \<and> c \<le> 57) (plain_text ?q ?g) then None
       else if exactRateExceedsLimit (show_nat ?q) ?g then None else Some (plain_text ?q ?g))"
    using d l x parts strip_zeros_show [OF wg(1,2)]
    by (auto simp: normalizeExactPositiveDecimal_def Let_def fraction_of_def [symmetric] plain_text_def)
  with plain_positive [OF plain, of ?q] limit_exact [OF plain, of ?q] that [OF plain number] show ?thesis by auto
qed

lemma normalised_exactly:
  "normalizeExactPositiveDecimal (Some (JStr s)) = Some t \<longleftrightarrow>
     length s \<le> 256 \<and> moderate_exponent s \<and>
     (\<exists>n. pnum s = Some (JNum n, []) \<and> 0 < num_val n \<and> num_val n \<le> 10 ^ 12 \<and> canonical t \<and> pnum t = Some (JNum n, []))"
proof (cases "length s \<le> 256 \<and> moderate_exponent s")
  case True
  then obtain i f x where d: "decimal_at s = Some (i, f, x, [])"
    by (auto simp: moderate_exponent_def split: option.splits prod.splits list.splits)
  obtain q g where g: "plain_fraction g" "plain_number q g = decimal_number False i f x"
    "normalizeExactPositiveDecimal (Some (JStr s)) =
       (if 0 < num_val (plain_number q g) \<and> num_val (plain_number q g) \<le> 10 ^ 12 then Some (plain_text q g) else None)"
    using normalize_matched [OF d] True by metis
  have "s \<noteq> []" "hd s \<noteq> 45" using decimal_at_shape(1-3) [OF d] by (cases i; auto simp: is_digit_def)+
  then have n: "pnum s = Some (JNum (plain_number q g), [])"
    using pabs_whole [OF d, of False] g(2) by (cases s) (auto simp: pnum_def)
  have "canonical t \<and> pnum t = Some (JNum (plain_number q g), []) \<longleftrightarrow> t = plain_text q g"
  proof
    assume t: "canonical t \<and> pnum t = Some (JNum (plain_number q g), [])"
    then obtain p f where p: "t = plain_text p f" "plain_fraction f" by (auto simp: canonical_def)
    with t pnum_plain [OF p(2), of p] have "plain_number p f = plain_number q g" by simp
    with plain_number_inj [OF p(2) g(1)] p(1) show "t = plain_text q g" by blast
  qed (use g(1) pnum_plain [OF g(1)] in \<open>auto simp: canonical_def\<close>)
  with g n True show ?thesis by auto
next
  case False
  have "normalizeExactPositiveDecimal (Some (JStr s)) = None"
  proof (cases "length s \<le> 256")
    case True
    with False have "\<not> moderate_exponent s" by simp
    then consider "decimal_at s = None" | i f x c r where "decimal_at s = Some (i, f, x, c # r)"
      | i f c x where "decimal_at s = Some (i, f, Some (c, x), [])" "\<not> (short_exponent x \<and> \<bar>exponent_number x\<bar> \<le> 100)"
      by (auto simp: moderate_exponent_def split: option.splits prod.splits list.splits)
    then show ?thesis by cases (auto simp: normalizeExactPositiveDecimal_def Let_def)
  qed (simp add: normalizeExactPositiveDecimal_def)
  with False show ?thesis by auto
qed

section \<open>Claims\<close>

text \<open>
  Normalising a rate neither rounds it nor changes it. A text is accepted exactly when it is a
  decimal of at most 256 characters with a moderate exponent whose value is positive and at most
  10 to the power 12, and the result is the one plain notation without superfluous zeros that denotes
  exactly the same number.
\<close>

theorem rate_normalised_exactly:
  "normalizeExactPositiveDecimal (Some (JStr s)) = Some t \<longleftrightarrow>
     length s \<le> 256 \<and> moderate_exponent s \<and>
     (\<exists>n. pnum s = Some (JNum n, []) \<and> 0 < num_val n \<and> num_val n \<le> 10 ^ 12 \<and> canonical t \<and> pnum t = Some (JNum n, []))"
  by (rule normalised_exactly)

text \<open>
  Quoting the numbers of a provider's text before it is parsed loses nothing: when the text is
  JSON, the quoted text parses to the same value in which every number is replaced by its own
  digits, a text that denotes exactly that number.
\<close>

theorem quoted_numbers_exact:
  assumes "json_parse s = Some v"
  shows "\<exists>w. json_parse (quoteJsonNumbers s) = Some w \<and> exact w v"
  by (rule quoted_numbers [OF assms])

theorem quoted_numbers_exact_witness:
  "\<exists>w. json_parse (quoteJsonNumbers (js ''[7.10, 1e-3]'')) = Some w \<and>
     exact w (JArr [JNum (dec 71 (- 1)), JNum (dec 1 (- 3))])"
proof -
  have "json_parse (js ''[7.10, 1e-3]'') =
      Some (JArr [JNum (dec 71 (- 1)), JNum (dec 1 (- 3))])" by code_simp
  from quoted_numbers_exact [OF this] show ?thesis .
qed

end
