(* ===== verification/Request_Origin.thy ===== *)
theory Request_Origin
  imports Router_Contract Retrieval_Protocol
begin

text \<open>
  The boundary of the route handlers: which browser requests may change state
  (\<open>web/src/lib/request-origin.ts\<close>), the deployment profile (\<open>web/src/lib/runtime.ts\<close>) and the tenant the
  installation serves (\<open>configuredTenantId\<close> of \<open>web/src/lib/store-access.ts\<close>). The process environment
  is a record; a variable that is not set is \<open>None\<close>.
\<close>

record web_environment =
  we_MATCHPLANE_ENVIRONMENT :: "jstr option"
  we_NODE_ENV :: "jstr option"
  we_BETTER_AUTH_URL :: "jstr option"
  we_NEXT_PUBLIC_BETTER_AUTH_URL :: "jstr option"
  we_BETTER_AUTH_TRUSTED_ORIGINS :: "jstr option"
  we_MATCHPLANE_ROOT_TENANT_ID :: "jstr option"

record web_request =
  wr_method :: jstr
  wr_cookie :: "jstr option"
  wr_origin :: "jstr option"

text \<open>\<open>value?.trim() || undefined\<close>.\<close>

definition trimmed_variable :: "jstr option \<Rightarrow> jstr option" where
  "trimmed_variable v = (case map_option trim v of Some (c # s) \<Rightarrow> Some (c # s) | _ \<Rightarrow> None)"

definition runtimeEnvironment :: "web_environment \<Rightarrow> jstr option" where
  "runtimeEnvironment env =
     (case trimmed_variable (we_MATCHPLANE_ENVIRONMENT env) of
        Some profile \<Rightarrow> Some profile
      | None \<Rightarrow> trimmed_variable (we_NODE_ENV env))"

definition isProductionEnvironment :: "web_environment \<Rightarrow> bool" where
  "isProductionEnvironment env \<longleftrightarrow> runtimeEnvironment env = Some (js ''production'')"

definition configured_origins :: "web_environment \<Rightarrow> jstr list" where
  "configured_origins env =
     List.map_filter trimmed_variable
       ([we_BETTER_AUTH_URL env, we_NEXT_PUBLIC_BETTER_AUTH_URL env] @
        map Some (split_on 44 (case we_BETTER_AUTH_TRUSTED_ORIGINS env of None \<Rightarrow> [] | Some v \<Rightarrow> v))) @
     (if isProductionEnvironment env then [] else [js ''http://localhost:4173'', js ''http://127.0.0.1:4173''])"

definition isTrustedOrigin :: "platform \<Rightarrow> web_environment \<Rightarrow> jstr option \<Rightarrow> bool" where
  "isTrustedOrigin P env rawOrigin \<longleftrightarrow>
     (case trimmed_variable rawOrigin of
        None \<Rightarrow> False
      | Some origin \<Rightarrow>
          (case url_parse P origin of
             None \<Rightarrow> False
           | Some parsed \<Rightarrow>
               url_username parsed = [] \<and> url_password parsed = [] \<and> url_pathname parsed = js ''/'' \<and>
               url_search parsed = [] \<and> url_hash parsed = [] \<and>
               list_ex (\<lambda>v. case url_parse P v of Some u \<Rightarrow> url_origin u = url_origin parsed | None \<Rightarrow> False)
                 (configured_origins env)))"

definition hasTrustedBrowserOrigin :: "platform \<Rightarrow> web_environment \<Rightarrow> web_request \<Rightarrow> bool" where
  "hasTrustedBrowserOrigin P env request \<longleftrightarrow>
     wr_cookie request = None \<or> wr_cookie request = Some [] \<or>
     wr_method request = js ''GET'' \<or> wr_method request = js ''HEAD'' \<or>
     isTrustedOrigin P env (wr_origin request)"

definition hasTrustedCookieOrigin :: "platform \<Rightarrow> web_environment \<Rightarrow> web_request \<Rightarrow> bool" where
  "hasTrustedCookieOrigin P env request \<longleftrightarrow>
     wr_cookie request \<noteq> None \<and> wr_cookie request \<noteq> Some [] \<and> isTrustedOrigin P env (wr_origin request)"

definition configuredTenantId :: "web_environment \<Rightarrow> jstr option" where
  "configuredTenantId env =
     (let v = (case we_MATCHPLANE_ROOT_TENANT_ID env of None \<Rightarrow> [] | Some s \<Rightarrow> trim s)
      in if isUuid (Some (JStr v)) then Some v else None)"

section \<open>What the checks guarantee\<close>

lemma trusted_cookie_browser: "hasTrustedCookieOrigin P env request \<Longrightarrow> hasTrustedBrowserOrigin P env request"
  by (simp add: hasTrustedCookieOrigin_def hasTrustedBrowserOrigin_def)

lemma trusted_origin_configured:
  assumes "isTrustedOrigin P env (Some origin)"
  obtains parsed v u where "url_parse P (trim origin) = Some parsed" "v \<in> set (configured_origins env)"
    "url_parse P v = Some u" "url_origin u = url_origin parsed"
  using assms by (auto simp: isTrustedOrigin_def trimmed_variable_def list_ex_iff split: option.splits list.splits)

lemma tenant_uuid: "configuredTenantId env = Some t \<Longrightarrow> isUuid (Some (JStr t))"
  by (auto simp: configuredTenantId_def Let_def split: if_splits)

end
