(* ===== verification/Exchange_Rate.thy ===== *)
theory Exchange_Rate
  imports Exact_Decimal Request_Origin Public_Endpoint Router_Audit
begin

text \<open>
  The exchange rate of the mall, after \<open>web/app/api/mall/exchange-rate/route.ts\<close>: reading the setting,
  changing the local currency and fetching the latest rate from a provider.

  The record \<open>rate_world\<close> holds what the handlers meet: the environment of the process, the session
  library, the provider's network, the clock, and for the n-th statement whether it fails, what
  other sessions have committed before it and whether the request has been aborted by then. The
  messages of error responses are constructors.
\<close>

section \<open>Data\<close>

definition BASE_CURRENCY :: jstr where "BASE_CURRENCY = js ''USD''"
definition DEFAULT_LOCAL_CURRENCY :: jstr where "DEFAULT_LOCAL_CURRENCY = js ''CNY''"
definition DEFAULT_PROVIDER_URL :: jstr where "DEFAULT_PROVIDER_URL = js ''https://api.frankfurter.app/latest''"
definition PROVIDER_RESPONSE_LIMIT :: nat where "PROVIDER_RESPONSE_LIMIT = 64 * 1024"

text \<open>
  A date or timestamp as the driver returns it: an invalid date object, a date object by the text
  of its \<open>toISOString\<close>, a string, or null.
\<close>

datatype column_value = InvalidDate | DateObject jstr | Text jstr | Null

record StoredExchangeRate =
  sr_localCurrency :: jstr
  sr_usdToLocalRate :: "jstr option"
  sr_rateSource :: "jstr option"
  sr_rateProvider :: "jstr option"
  sr_rateEffectiveDate :: "jstr option"
  sr_rateResponseDigest :: "jstr option"
  sr_rateUpdatedAt :: "int option"
  sr_version :: int

record ExchangeRateInput =
  ei_localCurrency :: jstr
  ei_expectedVersion :: int

record ExchangeRateResult =
  er_localCurrency :: jstr
  er_usdToLocalRate :: "jsnum option"
  er_usdToLocalRateExact :: "jstr option"
  er_rateSource :: "jstr option"
  er_rateProvider :: "jstr option"
  er_rateEffectiveDate :: "jstr option"
  er_rateResponseDigest :: "jstr option"
  er_rateUpdatedAt :: "jstr option"
  er_version :: int

record ProviderRateSnapshot =
  pr_rateExact :: jstr
  pr_source :: jstr
  pr_provider :: jstr
  pr_effectiveDate :: jstr
  pr_responseDigest :: jstr

datatype rate_message =
    NotInitialised | UnknownMall | SettingsUnavailable | ReadFailed | SaveFailed | SyncFailed | SyncSaveFailed | SyncCancelled
  | VersionConflict | UntrustedOrigin | LoginRequired | OwnerOnly | BodyTooLarge | InvalidJson | NotAnObject
  | InvalidCurrency | InvalidVersion
  | UnsupportedCurrency | ProviderUnavailable | ProviderInvalidData | ProviderMisconfigured | ProviderTimeout

datatype ExchangeRateProviderError = ProviderError rate_message nat

datatype rate_response = RateResult ExchangeRateResult | RateError rate_message nat

text \<open>What a statement or the program around it can raise; the code is that of the database error, if any.\<close>

datatype rate_failure = ExchangeRateConflictError | AbortError | PlainFailure | DatabaseError "jstr option"

section \<open>Provider answers\<close>

definition normalizeProviderDate :: "json option \<Rightarrow> jstr option" where
  "normalizeProviderDate v =
     (case v of
        Some (JStr s) \<Rightarrow>
          if picture ''dddd-dd-dd'' s \<and> iso_instant (s @ js ''T00:00:00.000Z'') then Some s else None
      | _ \<Rightarrow> None)"

definition control_unit :: "nat \<Rightarrow> bool" where
  "control_unit c \<longleftrightarrow> c \<le> 31 \<or> c = 127"

definition normalizeProviderIdentifier :: "json option \<Rightarrow> jstr option" where
  "normalizeProviderIdentifier v =
     (case v of
        Some (JStr s) \<Rightarrow>
          (let identifier = trim s
           in if 1 \<le> length identifier \<and> length identifier \<le> 128 \<and> \<not> list_ex control_unit identifier
              then Some identifier else None)
      | _ \<Rightarrow> None)"

text \<open>\<open>a ?? b\<close>.\<close>

definition or_nullish :: "json option \<Rightarrow> json option \<Rightarrow> json option" where
  "or_nullish a b = (if a = None \<or> a = Some JNull then b else a)"

definition extractProviderRate :: "(jstr \<Rightarrow> jstr) \<Rightarrow> json \<Rightarrow> jstr \<Rightarrow> jstr \<Rightarrow> (jstr \<times> jstr \<times> jstr) option" where
  "extractProviderRate toUpperCase payload localCurrency fallbackProvider =
     (case payload of
        JObj record \<Rightarrow>
          (case member record ''base'' of
             Some (JStr base) \<Rightarrow>
               if toUpperCase (trim base) \<noteq> BASE_CURRENCY then None
               else (case normalizeProviderDate (or_nullish (member record ''date'')
                        (or_nullish (member record ''effectiveDate'') (member record ''effective_date''))) of
                  None \<Rightarrow> None
                | Some effectiveDate \<Rightarrow>
                    (case (if member record ''provider'' = None then (if fallbackProvider = [] then None else Some fallbackProvider)
                           else normalizeProviderIdentifier (member record ''provider'')) of
                       None \<Rightarrow> None
                     | Some provider \<Rightarrow>
                         (let rawRate = (case member record ''rates'' of
                              Some (JObj rates) \<Rightarrow> map_of rates localCurrency
                            | _ \<Rightarrow> member record ''rate'')
                          in map_option (\<lambda>rateExact. (rateExact, provider, effectiveDate))
                               (normalizeExactPositiveDecimal rawRate))))
           | _ \<Rightarrow> None)
      | _ \<Rightarrow> None)"

section \<open>The surroundings\<close>

datatype session_outcome = SessionFails | NoSession | Session "json option" jstr

datatype statement_fault = Succeeds | FailsBefore "jstr option" | FailsAfter "jstr option"

text \<open>The settings of the tenant, and the audit events written for them.\<close>

record audit_entry =
  ae_actor :: jstr
  ae_previous :: "StoredExchangeRate option"
  ae_next :: StoredExchangeRate

record rate_db =
  db_active :: bool
  db_row :: "StoredExchangeRate option"
  db_audit :: "audit_entry list"

record rate_world =
  rw_platform :: platform
  rw_env :: web_environment
  rw_exchangeRateUrl :: "jstr option"
  rw_toUpperCase :: "jstr \<Rightarrow> jstr"
  rw_number :: "jstr \<Rightarrow> jsnum"
  rw_session :: session_outcome
  rw_today :: jstr
  rw_with_query :: "url \<Rightarrow> jstr \<Rightarrow> url"
  rw_resolve :: "jstr \<Rightarrow> resolve_event"
  rw_net :: "url \<Rightarrow> dispatcher \<Rightarrow> fetch_event"
  rw_course :: request_course
  rw_date :: "jstr \<Rightarrow> column_value"
  rw_timestamp :: "int \<Rightarrow> column_value"
  rw_now :: "nat \<Rightarrow> int"
  rw_fault :: "nat \<Rightarrow> statement_fault"
  rw_others :: "nat \<Rightarrow> rate_db \<Rightarrow> rate_db"
  rw_aborted :: "nat \<Rightarrow> bool"

section \<open>Fetching the latest rate\<close>

definition exchangeRateProviderUrl :: "rate_world \<Rightarrow> ExchangeRateProviderError + url" where
  "exchangeRateProviderUrl W =
     (let raw = (case trimmed_variable (rw_exchangeRateUrl W) of Some v \<Rightarrow> v | None \<Rightarrow> DEFAULT_PROVIDER_URL)
      in case url_parse (rw_platform W) raw of
        None \<Rightarrow> Inl (ProviderError ProviderMisconfigured 503)
      | Some url \<Rightarrow>
          if url_protocol url \<noteq> js ''https:'' \<or> url_username url \<noteq> [] \<or> url_password url \<noteq> [] \<or> url_hash url \<noteq> [] \<or>
             url_hostname url = [] \<or> isPrivateOrReservedIpLiteral (rw_platform W) (url_hostname url)
          then Inl (ProviderError ProviderMisconfigured 503)
          else Inr url)"

text \<open>
  An abort reason that is a \<open>DOMException\<close> is named \<open>AbortError\<close> or \<open>TimeoutError\<close>; so are an
  interrupted lookup and an aborted body.
\<close>

fun mapProviderTransportError :: "outbound_error \<Rightarrow> ExchangeRateProviderError" where
  "mapProviderTransportError PolicyError = ProviderError ProviderMisconfigured 503"
| "mapProviderTransportError (AbortedWith DomAbort) = ProviderError ProviderTimeout 504"
| "mapProviderTransportError Interrupted = ProviderError ProviderTimeout 504"
| "mapProviderTransportError (BodyError Body_Limit.AbortError) = ProviderError ProviderTimeout 504"
| "mapProviderTransportError (PinnedPublicRedirectError _) = ProviderError ProviderUnavailable 502"
| "mapProviderTransportError (BodyError (ResponseBodyTooLargeError _)) = ProviderError ProviderInvalidData 502"
| "mapProviderTransportError _ = ProviderError ProviderUnavailable 502"

definition responseDigest :: "platform \<Rightarrow> jstr \<Rightarrow> jstr" where
  "responseDigest P value = js ''sha256:'' @ sha256 P (utf8_encode value)"

definition identity_summary :: "jstr \<Rightarrow> jstr" where
  "identity_summary effectiveDate = stringify (JObj [(js ''base'', JStr BASE_CURRENCY), (js ''date'', JStr effectiveDate),
     (js ''provider'', JStr (js ''identity'')), (js ''rate'', JStr (js ''1''))])"

text \<open>The part after the response has been read.\<close>

definition provider_snapshot :: "rate_world \<Rightarrow> jstr \<Rightarrow> url \<Rightarrow> nat \<Rightarrow> jstr \<Rightarrow> ExchangeRateProviderError + ProviderRateSnapshot" where
  "provider_snapshot W localCurrency url httpStatus text =
     (if \<not> (200 \<le> httpStatus \<and> httpStatus < 300)
      then Inl (if trimmed_variable (rw_exchangeRateUrl W) = None \<and> httpStatus = 404
                then ProviderError UnsupportedCurrency 400 else ProviderError ProviderUnavailable 502)
      else case json_parse (quoteJsonNumbers text) of
        None \<Rightarrow> Inl (ProviderError ProviderInvalidData 502)
      | Some payload \<Rightarrow>
          (case extractProviderRate (rw_toUpperCase W) payload localCurrency (url_hostname url) of
             None \<Rightarrow> Inl (ProviderError ProviderInvalidData 502)
           | Some (rateExact, provider, effectiveDate) \<Rightarrow>
               Inr \<lparr> pr_rateExact = rateExact, pr_source = url_hostname url, pr_provider = provider,
                     pr_effectiveDate = effectiveDate, pr_responseDigest = responseDigest (rw_platform W) text \<rparr>))"

text \<open>\<open>None\<close>: the request never settles.\<close>

definition fetchLatestUsdRate :: "rate_world \<Rightarrow> jstr \<Rightarrow> (ExchangeRateProviderError + ProviderRateSnapshot) option" where
  "fetchLatestUsdRate W localCurrency =
     (if localCurrency = BASE_CURRENCY
      then Some (Inr \<lparr> pr_rateExact = js ''1'', pr_source = js ''identity'', pr_provider = js ''identity'',
             pr_effectiveDate = take 10 (rw_today W),
             pr_responseDigest = responseDigest (rw_platform W) (identity_summary (take 10 (rw_today W))) \<rparr>)
      else case exchangeRateProviderUrl W of
        Inl e \<Rightarrow> Some (Inl e)
      | Inr base \<Rightarrow>
          (let url = rw_with_query W base localCurrency
           in case fst (fetchPinnedPublicText (rw_platform W) (rw_resolve W) (rw_net W url) (rw_course W) url
                     \<lparr> to_responseLimitBytes = PROVIDER_RESPONSE_LIMIT, to_allowLoopback = False \<rparr>) of
             None \<Rightarrow> None
           | Some (Inl e) \<Rightarrow> Some (Inl (mapProviderTransportError e))
           | Some (Inr (response, text)) \<Rightarrow> Some (provider_snapshot W localCurrency url (hr_status response) text)))"

section \<open>Responses\<close>

definition exchangeRateVersion :: "StoredExchangeRate option \<Rightarrow> int" where
  "exchangeRateVersion row =
     (case row of
        None \<Rightarrow> 1
      | Some r \<Rightarrow> if \<bar>sr_version r\<bar> \<le> 2 ^ 53 - 1 \<and> 0 < sr_version r then sr_version r else 1)"

definition normalizeDate :: "column_value \<Rightarrow> jstr option" where
  "normalizeDate v =
     (case v of
        DateObject t \<Rightarrow> Some (take 10 t)
      | Text s \<Rightarrow> if picture ''dddd-dd-dd'' s then Some s else None
      | _ \<Rightarrow> None)"

definition normalizeTimestamp :: "column_value \<Rightarrow> jstr option" where
  "normalizeTimestamp v =
     (case v of
        DateObject t \<Rightarrow> Some t
      | Text s \<Rightarrow> if trim s \<noteq> [] then Some s else None
      | _ \<Rightarrow> None)"

definition column :: "('a \<Rightarrow> column_value) \<Rightarrow> 'a option \<Rightarrow> column_value" where
  "column f v = (case v of None \<Rightarrow> Null | Some x \<Rightarrow> f x)"

definition toPublicExchangeRate :: "rate_world \<Rightarrow> StoredExchangeRate \<Rightarrow> ExchangeRateResult" where
  "toPublicExchangeRate W row =
     \<lparr> er_localCurrency = (if sr_localCurrency row = [] then DEFAULT_LOCAL_CURRENCY else sr_localCurrency row),
       er_usdToLocalRate = (case map_option (rw_number W) (sr_usdToLocalRate row) of
           Some n \<Rightarrow> if is_finite n \<and> 0 < num_val n then Some n else None
         | None \<Rightarrow> None),
       er_usdToLocalRateExact = sr_usdToLocalRate row,
       er_rateSource = sr_rateSource row,
       er_rateProvider = sr_rateProvider row,
       er_rateEffectiveDate = normalizeDate (column (rw_date W) (sr_rateEffectiveDate row)),
       er_rateResponseDigest = sr_rateResponseDigest row,
       er_rateUpdatedAt = normalizeTimestamp (column (rw_timestamp W) (sr_rateUpdatedAt row)),
       er_version = exchangeRateVersion (Some row) \<rparr>"

fun isExchangeRateConflict :: "rate_failure \<Rightarrow> bool" where
  "isExchangeRateConflict ExchangeRateConflictError \<longleftrightarrow> True"
| "isExchangeRateConflict (DatabaseError (Some code)) \<longleftrightarrow> code = js ''40001'' \<or> code = js ''40P01''"
| "isExchangeRateConflict _ \<longleftrightarrow> False"

fun isCurrencySettingsSchemaUnavailable :: "rate_failure \<Rightarrow> bool" where
  "isCurrencySettingsSchemaUnavailable (DatabaseError (Some code)) \<longleftrightarrow> code = js ''42P01'' \<or> code = js ''42703''"
| "isCurrencySettingsSchemaUnavailable _ \<longleftrightarrow> False"

section \<open>Requests\<close>

definition normalizeCurrency :: "(jstr \<Rightarrow> jstr) \<Rightarrow> json option \<Rightarrow> jstr option" where
  "normalizeCurrency toUpperCase v =
     (case v of
        Some (JStr s) \<Rightarrow>
          (let currency = toUpperCase (trim s)
           in if length currency = 3 \<and> list_all is_upper currency then Some currency else None)
      | _ \<Rightarrow> None)"

text \<open>\<open>None\<close>: the session library throws, and with it the handler.\<close>

definition requireEditor :: "rate_world \<Rightarrow> web_request \<Rightarrow> (rate_response + jstr) option" where
  "requireEditor W request =
     (if \<not> hasTrustedBrowserOrigin (rw_platform W) (rw_env W) request then Some (Inl (RateError UntrustedOrigin 403))
      else case rw_session W of
        SessionFails \<Rightarrow> None
      | NoSession \<Rightarrow> Some (Inl (RateError LoginRequired 401))
      | Session role actorId \<Rightarrow>
          if role \<noteq> Some (JStr (js ''rootSuperAdmin'')) then Some (Inl (RateError OwnerOnly 403)) else Some (Inr actorId))"

text \<open>\<open>None\<close>: the body never ends.\<close>

definition readExchangeRateInput :: "rate_world \<Rightarrow> http_message \<Rightarrow> (rate_response + ExchangeRateInput) option" where
  "readExchangeRateInput W message =
     (case fst (readJsonBody message (8 * 1024)) of
        None \<Rightarrow> None
      | Some (Inl (RequestBodyTooLargeError _)) \<Rightarrow> Some (Inl (RateError BodyTooLarge 413))
      | Some (Inl _) \<Rightarrow> Some (Inl (RateError InvalidJson 400))
      | Some (Inr (JObj input)) \<Rightarrow>
          (case normalizeCurrency (rw_toUpperCase W) (member input ''localCurrency'') of
             None \<Rightarrow> Some (Inl (RateError InvalidCurrency 400))
           | Some localCurrency \<Rightarrow>
               (case member input ''expectedVersion'' of
                  Some (JNum n) \<Rightarrow>
                    if is_safe_integer n \<and> 1 \<le> num_int n
                    then Some (Inr \<lparr> ei_localCurrency = localCurrency, ei_expectedVersion = num_int n \<rparr>)
                    else Some (Inl (RateError InvalidVersion 400))
                | _ \<Rightarrow> Some (Inl (RateError InvalidVersion 400))))
      | Some (Inr _) \<Rightarrow> Some (Inl (RateError NotAnObject 400)))"

section \<open>Transactions\<close>

text \<open>
  \<open>st_db\<close> is what is committed, \<open>st_work\<close> what the transaction of this request sees once it holds the
  lock on the tenant. The lock keeps every other request of this route from the settings, so other
  sessions change them only before it is taken. Nothing but \<open>COMMIT\<close> publishes the work, and only a
  statement that fails after its effect leaves the request in doubt.
\<close>

record rate_state =
  st_db :: rate_db
  st_work :: "rate_db option"
  st_tick :: nat
  st_released :: "bool option"

type_synonym 'a rate_program = "rate_world \<Rightarrow> rate_state \<Rightarrow> (rate_failure + 'a) \<times> rate_state"

definition rreturn :: "'a \<Rightarrow> 'a rate_program" where
  "rreturn x = (\<lambda>W st. (Inr x, st))"

definition rthrow :: "rate_failure \<Rightarrow> 'a rate_program" where
  "rthrow e = (\<lambda>W st. (Inl e, st))"

definition rthen :: "'a rate_program \<Rightarrow> ('a \<Rightarrow> 'b rate_program) \<Rightarrow> 'b rate_program" where
  "rthen m f = (\<lambda>W st. case m W st of (Inl e, st') \<Rightarrow> (Inl e, st') | (Inr x, st') \<Rightarrow> f x W st')"

text \<open>One statement: its result and its effect on the state, subject to the fault scheduled for it.\<close>

definition execute :: "(rate_world \<Rightarrow> nat \<Rightarrow> rate_state \<Rightarrow> (rate_failure + 'a) \<times> rate_state) \<Rightarrow> 'a rate_program" where
  "execute effect = (\<lambda>W st.
     let n = st_tick st; st1 = st\<lparr> st_tick := Suc n \<rparr>
     in case rw_fault W n of
          FailsBefore code \<Rightarrow> (Inl (DatabaseError code), st1)
        | FailsAfter code \<Rightarrow> (Inl (DatabaseError code), snd (effect W n st1))
        | Succeeds \<Rightarrow> effect W n st1)"

definition throwIfRequestAborted :: "bool \<Rightarrow> unit rate_program" where
  "throwIfRequestAborted hasSignal = (\<lambda>W st.
     if hasSignal \<and> rw_aborted W (st_tick st) then (Inl AbortError, st) else (Inr (), st))"

definition connect_client :: "unit rate_program" where
  "connect_client = execute (\<lambda>W n st. (Inr (), st\<lparr> st_released := Some False \<rparr>))"

definition begin_transaction :: "unit rate_program" where
  "begin_transaction = execute (\<lambda>W n st. (Inr (), st))"

definition rollback :: "unit rate_program" where
  "rollback = execute (\<lambda>W n st. (Inr (), st\<lparr> st_work := None \<rparr>))"

definition commit :: "unit rate_program" where
  "commit = execute (\<lambda>W n st.
     (Inr (), case st_work st of Some db \<Rightarrow> st\<lparr> st_db := db, st_work := None \<rparr> | None \<Rightarrow> st))"

definition lockActiveTenant :: "bool rate_program" where
  "lockActiveTenant = execute (\<lambda>W n st.
     let db = rw_others W n (st_db st) in (Inr (db_active db), st\<lparr> st_db := db, st_work := Some db \<rparr>))"

definition the_work :: "rate_state \<Rightarrow> rate_db" where
  "the_work st = (case st_work st of Some db \<Rightarrow> db | None \<Rightarrow> st_db st)"

definition readStoredExchangeRate :: "StoredExchangeRate option rate_program" where
  "readStoredExchangeRate = execute (\<lambda>W n st. (Inr (db_row (the_work st)), st))"

text \<open>An audit event keeps the two rows; the JSON object that the source builds of them is not modelled.\<close>

definition writeAuditEvent :: "jstr \<Rightarrow> StoredExchangeRate option \<Rightarrow> StoredExchangeRate \<Rightarrow> unit rate_program" where
  "writeAuditEvent actorId previous next = execute (\<lambda>W n st.
     (Inr (), st\<lparr> st_work := map_option
        (\<lambda>db. db\<lparr> db_audit := db_audit db @ [\<lparr> ae_actor = actorId, ae_previous = previous, ae_next = next \<rparr>] \<rparr>) (st_work st) \<rparr>))"

text \<open>The rate that a request writes; \<open>None\<close> when it clears the rate.\<close>

definition new_row :: "int \<Rightarrow> jstr \<Rightarrow> ProviderRateSnapshot option \<Rightarrow> int \<Rightarrow> StoredExchangeRate" where
  "new_row now localCurrency latest version =
     \<lparr> sr_localCurrency = localCurrency, sr_usdToLocalRate = map_option pr_rateExact latest,
       sr_rateSource = map_option pr_source latest, sr_rateProvider = map_option pr_provider latest,
       sr_rateEffectiveDate = map_option pr_effectiveDate latest,
       sr_rateResponseDigest = map_option pr_responseDigest latest,
       sr_rateUpdatedAt = map_option (\<lambda>_. now) latest, sr_version = version \<rparr>"

definition insert_row :: "jstr \<Rightarrow> ProviderRateSnapshot option \<Rightarrow> int \<Rightarrow> StoredExchangeRate rate_program" where
  "insert_row localCurrency latest version = execute (\<lambda>W n st.
     case db_row (the_work st) of
       Some _ \<Rightarrow> (Inl (DatabaseError (Some (js ''23505''))), st)
     | None \<Rightarrow> (let r = new_row (rw_now W n) localCurrency latest version
                in (Inr r, st\<lparr> st_work := map_option (\<lambda>db. db\<lparr> db_row := Some r \<rparr>) (st_work st) \<rparr>)))"

definition update_row :: "jstr \<Rightarrow> ProviderRateSnapshot option \<Rightarrow> int \<Rightarrow> StoredExchangeRate option rate_program" where
  "update_row localCurrency latest version = execute (\<lambda>W n st.
     case db_row (the_work st) of
       Some row \<Rightarrow>
         if sr_version row = version
         then (let r = new_row (rw_now W n) localCurrency latest (sr_version row + 1)
               in (Inr (Some r), st\<lparr> st_work := map_option (\<lambda>db. db\<lparr> db_row := Some r \<rparr>) (st_work st) \<rparr>))
         else (Inr None, st)
     | None \<Rightarrow> (Inr None, st))"

definition writeStoredExchangeRate ::
    "StoredExchangeRate option \<Rightarrow> jstr \<Rightarrow> ProviderRateSnapshot option \<Rightarrow> jstr \<Rightarrow> bool \<Rightarrow> StoredExchangeRate rate_program" where
  "writeStoredExchangeRate current localCurrency latest actorId hasSignal =
     (case current of
        None \<Rightarrow>
          rthen (insert_row localCurrency latest (exchangeRateVersion None + 1)) (\<lambda>row.
          rthen (throwIfRequestAborted hasSignal) (\<lambda>_.
          rthen (writeAuditEvent actorId None row) (\<lambda>_. rreturn row)))
      | Some c \<Rightarrow>
          rthen (update_row localCurrency latest (sr_version c)) (\<lambda>updated.
            case updated of
              None \<Rightarrow> rthrow ExchangeRateConflictError
            | Some row \<Rightarrow>
                rthen (throwIfRequestAborted hasSignal) (\<lambda>_.
                rthen (writeAuditEvent actorId (Some c) row) (\<lambda>_. rreturn row))))"

section \<open>Handlers\<close>

text \<open>The \<open>catch\<close> of a transaction: a quiet rollback when there is a client.\<close>

definition roll_back_quietly :: "unit rate_program" where
  "roll_back_quietly = (\<lambda>W st.
     if st_released st = Some False then (Inr (), snd (rollback W st)) else (Inr (), st))"

definition release_client :: "rate_state \<Rightarrow> rate_state" where
  "release_client st = (if st_released st = Some False then st\<lparr> st_released := Some True \<rparr> else st)"

definition run_transaction ::
    "rate_response rate_program \<Rightarrow> (rate_world \<Rightarrow> rate_state \<Rightarrow> rate_failure \<Rightarrow> rate_response) \<Rightarrow>
     rate_world \<Rightarrow> rate_state \<Rightarrow> rate_response \<times> rate_state" where
  "run_transaction body handler W st =
     (case body W st of
        (Inr r, st') \<Rightarrow> (r, release_client st')
      | (Inl e, st') \<Rightarrow> (let st'' = snd (roll_back_quietly W st') in (handler W st'' e, release_client st'')))"

definition patch_transaction :: "jstr \<Rightarrow> ExchangeRateInput \<Rightarrow> rate_response rate_program" where
  "patch_transaction actorId input =
     rthen connect_client (\<lambda>_.
     rthen begin_transaction (\<lambda>_.
     rthen lockActiveTenant (\<lambda>active.
     if \<not> active then rthen rollback (\<lambda>_. rreturn (RateError UnknownMall 404))
     else rthen readStoredExchangeRate (\<lambda>current.
       if exchangeRateVersion current \<noteq> ei_expectedVersion input
       then rthen rollback (\<lambda>_. rreturn (RateError VersionConflict 409))
       else case current of
         Some c \<Rightarrow>
           if sr_localCurrency c = ei_localCurrency input
           then rthen commit (\<lambda>_. (\<lambda>W st. (Inr (RateResult (toPublicExchangeRate W c)), st)))
           else rthen (writeStoredExchangeRate current (ei_localCurrency input) None actorId False) (\<lambda>updated.
                rthen commit (\<lambda>_. (\<lambda>W st. (Inr (RateResult (toPublicExchangeRate W updated)), st))))
       | None \<Rightarrow>
           rthen (writeStoredExchangeRate None (ei_localCurrency input) None actorId False) (\<lambda>updated.
           rthen commit (\<lambda>_. (\<lambda>W st. (Inr (RateResult (toPublicExchangeRate W updated)), st))))))))"

definition patch_failure :: "rate_world \<Rightarrow> rate_state \<Rightarrow> rate_failure \<Rightarrow> rate_response" where
  "patch_failure W st e =
     (if isExchangeRateConflict e then RateError VersionConflict 409
      else if isCurrencySettingsSchemaUnavailable e then RateError SettingsUnavailable 503
      else RateError SaveFailed 500)"

definition post_transaction :: "jstr \<Rightarrow> ExchangeRateInput \<Rightarrow> ProviderRateSnapshot \<Rightarrow> rate_response rate_program" where
  "post_transaction actorId input latest =
     rthen (throwIfRequestAborted True) (\<lambda>_.
     rthen connect_client (\<lambda>_.
     rthen (throwIfRequestAborted True) (\<lambda>_.
     rthen begin_transaction (\<lambda>_.
     rthen (throwIfRequestAborted True) (\<lambda>_.
     rthen lockActiveTenant (\<lambda>active.
     rthen (throwIfRequestAborted True) (\<lambda>_.
     if \<not> active then rthen rollback (\<lambda>_. rreturn (RateError UnknownMall 404))
     else rthen readStoredExchangeRate (\<lambda>current.
       rthen (throwIfRequestAborted True) (\<lambda>_.
       if exchangeRateVersion current \<noteq> ei_expectedVersion input
       then rthen rollback (\<lambda>_. rreturn (RateError VersionConflict 409))
       else rthen (writeStoredExchangeRate current (ei_localCurrency input) (Some latest) actorId True) (\<lambda>updated.
            rthen (throwIfRequestAborted True) (\<lambda>_.
            rthen commit (\<lambda>_. (\<lambda>W st. (Inr (RateResult (toPublicExchangeRate W updated)), st))))))))))))))"

definition post_failure :: "rate_world \<Rightarrow> rate_state \<Rightarrow> rate_failure \<Rightarrow> rate_response" where
  "post_failure W st e =
     (if rw_aborted W (st_tick st) then RateError SyncCancelled 504
      else if isExchangeRateConflict e then RateError VersionConflict 409
      else if isCurrencySettingsSchemaUnavailable e then RateError SettingsUnavailable 503
      else RateError SyncSaveFailed 500)"

text \<open>The checks that both mutations make before they touch the database.\<close>

definition admitted :: "rate_world \<Rightarrow> web_request \<Rightarrow> http_message \<Rightarrow> (rate_response + jstr \<times> ExchangeRateInput) option" where
  "admitted W request message =
     (case requireEditor W request of
        None \<Rightarrow> None
      | Some (Inl r) \<Rightarrow> Some (Inl r)
      | Some (Inr actorId) \<Rightarrow>
          (case readExchangeRateInput W message of
             None \<Rightarrow> None
           | Some (Inl r) \<Rightarrow> Some (Inl r)
           | Some (Inr input) \<Rightarrow>
               (case configuredTenantId (rw_env W) of
                  None \<Rightarrow> Some (Inl (RateError NotInitialised 503))
                | Some _ \<Rightarrow> Some (Inr (actorId, input)))))"

text \<open>\<open>None\<close>: no response, because the session library throws or a stream never settles.\<close>

definition PATCH :: "rate_world \<Rightarrow> web_request \<Rightarrow> http_message \<Rightarrow> rate_state \<Rightarrow> rate_response option \<times> rate_state" where
  "PATCH W request message st =
     (case admitted W request message of
        None \<Rightarrow> (None, st)
      | Some (Inl r) \<Rightarrow> (Some r, st)
      | Some (Inr (actorId, input)) \<Rightarrow> apfst Some (run_transaction (patch_transaction actorId input) patch_failure W st))"

definition POST :: "rate_world \<Rightarrow> web_request \<Rightarrow> http_message \<Rightarrow> rate_state \<Rightarrow> rate_response option \<times> rate_state" where
  "POST W request message st =
     (case admitted W request message of
        None \<Rightarrow> (None, st)
      | Some (Inl r) \<Rightarrow> (Some r, st)
      | Some (Inr (actorId, input)) \<Rightarrow>
          (case fetchLatestUsdRate W (ei_localCurrency input) of
             None \<Rightarrow> (None, st)
           | Some (Inl (ProviderError message' status')) \<Rightarrow> (Some (RateError message' status'), st)
           | Some (Inr latest) \<Rightarrow> apfst Some (run_transaction (post_transaction actorId input latest) post_failure W st)))"

definition GET :: "rate_world \<Rightarrow> rate_state \<Rightarrow> rate_response \<times> rate_state" where
  "GET W st =
     (case configuredTenantId (rw_env W) of
        None \<Rightarrow> (RateError NotInitialised 503, st)
      | Some _ \<Rightarrow>
          (case execute (\<lambda>W n st. let db = rw_others W n (st_db st) in (Inr db, st\<lparr> st_db := db \<rparr>)) W st of
             (Inl e, st') \<Rightarrow>
               (if isCurrencySettingsSchemaUnavailable e then RateError SettingsUnavailable 503 else RateError ReadFailed 500, st')
           | (Inr db, st') \<Rightarrow>
               (if \<not> db_active db then RateError UnknownMall 404
                else RateResult (toPublicExchangeRate W (case db_row db of
                    Some row \<Rightarrow> row
                  | None \<Rightarrow> new_row 0 DEFAULT_LOCAL_CURRENCY None 1)), st')))"

end
