(* ===== verification/Exchange_Mutation.thy ===== *)
theory Exchange_Mutation
  imports Exchange_Rate
begin

text \<open>
  What the handlers of the exchange rate guarantee: the fetched rate is exact, and a change of the
  settings happens completely, once, and on the version that the editor has seen.
\<close>

section \<open>Triples for the programs of the route\<close>

text \<open>From \<open>P\<close> the program returns into \<open>Q\<close> or raises into \<open>E\<close>.\<close>

definition rtriple :: "rate_world \<Rightarrow> (rate_state \<Rightarrow> bool) \<Rightarrow> 'a rate_program \<Rightarrow> ('a \<Rightarrow> rate_state \<Rightarrow> bool) \<Rightarrow> (rate_state \<Rightarrow> bool) \<Rightarrow> bool" where
  "rtriple W P m Q E \<longleftrightarrow>
     (\<forall>st. P st \<longrightarrow> (case m W st of (Inr x, st') \<Rightarrow> Q x st' | (Inl e, st') \<Rightarrow> E st'))"

lemma rtriple_then:
  assumes "rtriple W P m R E" and "\<And>x. rtriple W (R x) (f x) Q E"
  shows "rtriple W P (rthen m f) Q E"
  using assms unfolding rtriple_def rthen_def by (fastforce split: prod.splits sum.splits)

lemma rtriple_return: "(\<And>st. P st \<Longrightarrow> Q x st) \<Longrightarrow> rtriple W P (rreturn x) Q E"
  by (simp add: rtriple_def rreturn_def)

lemma rtriple_result: "(\<And>st. P st \<Longrightarrow> Q (f W) st) \<Longrightarrow> rtriple W P (\<lambda>W st. (Inr (f W), st)) Q E"
  by (simp add: rtriple_def)

lemma rtriple_throw: "(\<And>st. P st \<Longrightarrow> E st) \<Longrightarrow> rtriple W P (rthrow e) Q E"
  by (simp add: rtriple_def rthrow_def)

lemma rtriple_abort:
  assumes "\<And>st. P st \<Longrightarrow> E st"
  shows "rtriple W P (throwIfRequestAborted b) (\<lambda>_. P) E"
  using assms by (simp add: rtriple_def throwIfRequestAborted_def)

lemma rtriple_execute:
  assumes "\<And>st n st1. P st \<Longrightarrow> n = st_tick st \<Longrightarrow> st1 = st\<lparr> st_tick := Suc n \<rparr> \<Longrightarrow>
      E st1 \<and> (case effect W n st1 of (Inr x, st') \<Rightarrow> Q x st' \<and> ((\<exists>c. rw_fault W n = FailsAfter c) \<longrightarrow> E st') | (Inl e, st') \<Rightarrow> E st')"
  shows "rtriple W P (execute effect) Q E"
  unfolding rtriple_def execute_def Let_def
proof (intro allI impI)
  fix st assume "P st"
  from assms [OF this refl refl] show "case case rw_fault W (st_tick st) of
      Succeeds \<Rightarrow> effect W (st_tick st) (st\<lparr>st_tick := Suc (st_tick st)\<rparr>)
    | FailsBefore code \<Rightarrow> (Inl (DatabaseError code), st\<lparr>st_tick := Suc (st_tick st)\<rparr>)
    | FailsAfter code \<Rightarrow> (Inl (DatabaseError code), snd (effect W (st_tick st) (st\<lparr>st_tick := Suc (st_tick st)\<rparr>))) of
      (Inl e, st') \<Rightarrow> E st' | (Inr x, st') \<Rightarrow> Q x st'"
    by (cases "effect W (st_tick st) (st\<lparr>st_tick := Suc (st_tick st)\<rparr>)"; cases "rw_fault W (st_tick st)";
        cases "fst (effect W (st_tick st) (st\<lparr>st_tick := Suc (st_tick st)\<rparr>))") auto
qed

lemma rtriple_if: "(b \<Longrightarrow> rtriple W P m Q E) \<Longrightarrow> (\<not> b \<Longrightarrow> rtriple W P m' Q E) \<Longrightarrow> rtriple W P (if b then m else m') Q E"
  by simp

lemma rtriple_pre: "rtriple W P' m Q E \<Longrightarrow> (\<And>st. P st \<Longrightarrow> P' st) \<Longrightarrow> rtriple W P m Q E"
  by (simp add: rtriple_def)

section \<open>A change of the settings\<close>

text \<open>The state of the settings after one change by this request on top of what other sessions did.\<close>

definition next_version :: "StoredExchangeRate option \<Rightarrow> int" where
  "next_version row = (case row of None \<Rightarrow> 2 | Some c \<Rightarrow> sr_version c + 1)"

definition changed_db :: "rate_db \<Rightarrow> jstr \<Rightarrow> StoredExchangeRate \<Rightarrow> rate_db" where
  "changed_db db actor row = db\<lparr> db_row := Some row,
     db_audit := db_audit db @ [\<lparr> ae_actor = actor, ae_previous = db_row db, ae_next = row \<rparr>] \<rparr>"

definition right_change :: "rate_db \<Rightarrow> ExchangeRateInput \<Rightarrow> ProviderRateSnapshot option \<Rightarrow> StoredExchangeRate \<Rightarrow> bool" where
  "right_change db input latest row \<longleftrightarrow>
     db_active db \<and> exchangeRateVersion (db_row db) = ei_expectedVersion input \<and>
     (\<exists>now. row = new_row now (ei_localCurrency input) latest (next_version (db_row db)))"

text \<open>The settings as other sessions left them, at some moment.\<close>

definition by_others :: "rate_world \<Rightarrow> rate_db \<Rightarrow> rate_db \<Rightarrow> bool" where
  "by_others W db db' \<longleftrightarrow> db' = db \<or> (\<exists>n. db' = rw_others W n db)"

definition by_request :: "rate_world \<Rightarrow> rate_db \<Rightarrow> jstr \<Rightarrow> ExchangeRateInput \<Rightarrow> ProviderRateSnapshot option \<Rightarrow> rate_db \<Rightarrow> bool" where
  "by_request W db actor input latest db' \<longleftrightarrow>
     (\<exists>db0 row. by_others W db db0 \<and> right_change db0 input latest row \<and> db' = changed_db db0 actor row)"

definition in_doubt :: "rate_world \<Rightarrow> bool" where
  "in_doubt W \<longleftrightarrow> (\<exists>n c. rw_fault W n = FailsAfter c)"

text \<open>Before the commit only other sessions have changed anything.\<close>

definition untouched :: "rate_world \<Rightarrow> rate_db \<Rightarrow> rate_state \<Rightarrow> bool" where
  "untouched W db st \<longleftrightarrow> by_others W db (st_db st)"

definition raised :: "rate_world \<Rightarrow> rate_db \<Rightarrow> jstr \<Rightarrow> ExchangeRateInput \<Rightarrow> ProviderRateSnapshot option \<Rightarrow> rate_state \<Rightarrow> bool" where
  "raised W db actor input latest st \<longleftrightarrow>
     untouched W db st \<or> in_doubt W \<and> by_request W db actor input latest (st_db st)"

definition working :: "rate_world \<Rightarrow> rate_db \<Rightarrow> rate_db \<Rightarrow> rate_db \<Rightarrow> rate_state \<Rightarrow> bool" where
  "working W db db0 work st \<longleftrightarrow> by_others W db db0 \<and> st_db st = db0 \<and> st_work st = Some work"

lemma working_raised: "working W db db0 work st \<Longrightarrow> raised W db actor input latest st"
  by (simp add: working_def raised_def untouched_def)

lemmas statement_defs = connect_client_def begin_transaction_def rollback_def commit_def lockActiveTenant_def
  readStoredExchangeRate_def writeAuditEvent_def insert_row_def update_row_def

lemma triple_connect: "rtriple W (\<lambda>st. st_db st = db) connect_client (\<lambda>_ st. st_db st = db) (raised W db actor input latest)"
  unfolding connect_client_def by (rule rtriple_execute) (simp add: untouched_def raised_def by_others_def)

lemma triple_begin: "rtriple W (\<lambda>st. st_db st = db) begin_transaction (\<lambda>_ st. st_db st = db) (raised W db actor input latest)"
  unfolding begin_transaction_def by (rule rtriple_execute) (simp add: untouched_def raised_def by_others_def)

lemma triple_rollback: "rtriple W (untouched W db) rollback (\<lambda>_. untouched W db) (raised W db actor input latest)"
  unfolding rollback_def by (rule rtriple_execute) (simp add: untouched_def raised_def)

lemma triple_read:
  "rtriple W (working W db db0 db0) readStoredExchangeRate (\<lambda>current st. working W db db0 db0 st \<and> current = db_row db0)
     (raised W db actor input latest)"
  unfolding readStoredExchangeRate_def
  by (rule rtriple_execute) (auto simp: working_def raised_def untouched_def the_work_def)

text \<open>The statement that takes the lock starts from the settings that nobody else can change any more.\<close>

definition locked :: "rate_world \<Rightarrow> rate_db \<Rightarrow> rate_state \<Rightarrow> bool" where
  "locked W db st \<longleftrightarrow> by_others W db (st_db st) \<and> st_work st = Some (st_db st)"

lemma triple_lock:
  "rtriple W (\<lambda>st. st_db st = db) lockActiveTenant (\<lambda>active st. locked W db st \<and> active = db_active (st_db st))
     (raised W db actor input latest)"
  unfolding lockActiveTenant_def
  by (rule rtriple_execute) (auto simp: locked_def raised_def untouched_def by_others_def Let_def)

lemma triple_audit:
  "rtriple W (working W db db0 (db0\<lparr> db_row := Some row \<rparr>)) (writeAuditEvent actor (db_row db0) row)
     (\<lambda>_. working W db db0 (changed_db db0 actor row)) (raised W db actor input latest)"
  unfolding writeAuditEvent_def
  by (rule rtriple_execute) (auto simp: working_def raised_def untouched_def changed_db_def)

lemma triple_write:
  assumes "db_active db0" "exchangeRateVersion (db_row db0) = ei_expectedVersion input"
  shows "rtriple W (working W db db0 db0)
     (writeStoredExchangeRate (db_row db0) (ei_localCurrency input) latest actor b)
     (\<lambda>row st. working W db db0 (changed_db db0 actor row) st \<and> right_change db0 input latest row)
     (raised W db actor input latest)"
proof -
  let ?E = "raised W db actor input latest"
  let ?Q = "\<lambda>row st. working W db db0 (db0\<lparr> db_row := Some row \<rparr>) st \<and> right_change db0 input latest row"
  have tail: "rtriple W (?Q row) (rthen (throwIfRequestAborted b) (\<lambda>_. rthen (writeAuditEvent actor (db_row db0) row) (\<lambda>_. rreturn row)))
      (\<lambda>row st. working W db db0 (changed_db db0 actor row) st \<and> right_change db0 input latest row) ?E" for row
  proof (cases "right_change db0 input latest row")
    case True
    show ?thesis
      by (rule rtriple_then [OF rtriple_abort], fastforce intro: working_raised)
         (rule rtriple_then [OF rtriple_pre [OF triple_audit]], simp, rule rtriple_return, simp add: True)
  qed (simp add: rtriple_def)
  show ?thesis
  proof (cases "db_row db0")
    case None
    have "rtriple W (working W db db0 db0) (insert_row (ei_localCurrency input) latest (exchangeRateVersion None + 1)) ?Q ?E"
      unfolding insert_row_def
      by (rule rtriple_execute)
         (use assms None in \<open>auto simp: working_def raised_def untouched_def the_work_def Let_def right_change_def next_version_def
            exchangeRateVersion_def\<close>)
    from rtriple_then [OF this tail] None show ?thesis by (simp add: writeStoredExchangeRate_def)
  next
    case (Some c)
    have "rtriple W (working W db db0 db0) (update_row (ei_localCurrency input) latest (sr_version c))
        (\<lambda>r st. \<exists>row. r = Some row \<and> ?Q row st) ?E"
      unfolding update_row_def
      by (rule rtriple_execute)
         (use assms Some in \<open>auto simp: working_def raised_def untouched_def the_work_def Let_def right_change_def next_version_def\<close>)
    moreover have "rtriple W (\<lambda>st. \<exists>row. r = Some row \<and> ?Q row st)
        (case r of None \<Rightarrow> rthrow ExchangeRateConflictError
         | Some row \<Rightarrow> rthen (throwIfRequestAborted b) (\<lambda>_. rthen (writeAuditEvent actor (Some c) row) (\<lambda>_. rreturn row)))
        (\<lambda>row st. working W db db0 (changed_db db0 actor row) st \<and> right_change db0 input latest row) ?E" for r
      using tail Some by (cases r) (auto simp: rtriple_def)
    ultimately show ?thesis unfolding writeStoredExchangeRate_def Some option.case by (rule rtriple_then)
  qed
qed

lemma triple_commit:
  assumes "work = db0 \<or> by_request W db actor input latest work"
  shows "rtriple W (working W db db0 work) commit (\<lambda>_ st. by_others W db db0 \<and> st_db st = work) (raised W db actor input latest)"
  unfolding commit_def
  by (rule rtriple_execute) (use assms in \<open>auto simp: working_def raised_def untouched_def in_doubt_def\<close>)

text \<open>What a transaction that returns has done.\<close>

definition finished :: "rate_world \<Rightarrow> rate_db \<Rightarrow> jstr \<Rightarrow> ExchangeRateInput \<Rightarrow> ProviderRateSnapshot option \<Rightarrow> rate_response \<Rightarrow> rate_state \<Rightarrow> bool" where
  "finished W db actor input latest r st \<longleftrightarrow>
     (case r of
        RateError _ _ \<Rightarrow> untouched W db st
      | RateResult x \<Rightarrow>
          (untouched W db st \<or> by_request W db actor input latest (st_db st)) \<and>
          (\<exists>row. db_row (st_db st) = Some row \<and> x = toPublicExchangeRate W row))"

lemma triple_refused:
  "rtriple W (untouched W db) (rthen rollback (\<lambda>_. rreturn (RateError m n)))
     (finished W db actor input latest) (raised W db actor input latest)"
  by (rule rtriple_then [OF triple_rollback], rule rtriple_return) (simp add: finished_def)

lemma triple_publish:
  "rtriple W (\<lambda>st. working W db db0 (changed_db db0 actor row) st \<and> right_change db0 input latest row)
     (rthen commit (\<lambda>_. (\<lambda>W st. (Inr (RateResult (toPublicExchangeRate W row)), st))))
     (finished W db actor input latest) (raised W db actor input latest)"
proof (cases "right_change db0 input latest row \<and> by_others W db db0")
  case True
  then have r: "by_request W db actor input latest (changed_db db0 actor row)" unfolding by_request_def by blast
  have "rtriple W (\<lambda>st. working W db db0 (changed_db db0 actor row) st \<and> right_change db0 input latest row) commit
      (\<lambda>_ st. by_others W db db0 \<and> st_db st = changed_db db0 actor row) (raised W db actor input latest)"
    by (rule rtriple_pre [OF triple_commit]) (use r in auto)
  then show ?thesis
    by (rule rtriple_then) (use r in \<open>auto simp: rtriple_def finished_def changed_db_def\<close>)
qed (auto simp: rtriple_def working_def)

lemma triple_change:
  assumes "db_active db0" "exchangeRateVersion (db_row db0) = ei_expectedVersion input"
  shows "rtriple W (working W db db0 db0)
     (rthen (writeStoredExchangeRate (db_row db0) (ei_localCurrency input) latest actor b) (\<lambda>updated.
        rthen commit (\<lambda>_. (\<lambda>W st. (Inr (RateResult (toPublicExchangeRate W updated)), st)))))
     (finished W db actor input latest) (raised W db actor input latest)"
  by (rule rtriple_then [OF triple_write [OF assms] triple_publish])

lemma triple_locked:
  assumes "\<And>db0. db_active db0 \<Longrightarrow> rtriple W (working W db db0 db0) (F True) Q E" "rtriple W (untouched W db) (F False) Q E"
  shows "rtriple W (\<lambda>st. locked W db st \<and> active = db_active (st_db st)) (F active) Q E"
  unfolding rtriple_def
proof (intro allI impI)
  fix st assume "locked W db st \<and> active = db_active (st_db st)"
  with assms(1) [of "st_db st"] assms(2) show "case F active W st of (Inl e, st') \<Rightarrow> E st' | (Inr x, st') \<Rightarrow> Q x st'"
    by (cases active) (simp_all add: rtriple_def locked_def working_def untouched_def)
qed

lemma locked_raised: "locked W db st \<Longrightarrow> raised W db actor input latest st"
  by (simp add: locked_def raised_def untouched_def)

lemma clean_raised: "st_db st = db \<Longrightarrow> raised W db actor input latest st"
  by (simp add: raised_def untouched_def by_others_def)

lemma triple_patch:
  "rtriple W (\<lambda>st. st_db st = db) (patch_transaction actor input)
     (finished W db actor input None) (raised W db actor input None)"
proof -
  let ?Q = "finished W db actor input None" and ?E = "raised W db actor input None"
  have keep: "rtriple W (working W db db0 db0) (rthen commit (\<lambda>_. (\<lambda>W st. (Inr (RateResult (toPublicExchangeRate W c)), st)))) ?Q ?E"
    if "db_row db0 = Some c" for db0 c
    by (rule rtriple_then [OF triple_commit], simp, rule rtriple_result) (use that in \<open>auto simp: finished_def untouched_def\<close>)
  have body: "rtriple W (\<lambda>st. working W db db0 db0 st \<and> current = db_row db0)
      (if exchangeRateVersion current \<noteq> ei_expectedVersion input
       then rthen rollback (\<lambda>_. rreturn (RateError VersionConflict 409))
       else case current of
         Some c \<Rightarrow>
           if sr_localCurrency c = ei_localCurrency input
           then rthen commit (\<lambda>_. (\<lambda>W st. (Inr (RateResult (toPublicExchangeRate W c)), st)))
           else rthen (writeStoredExchangeRate current (ei_localCurrency input) None actor False) (\<lambda>updated.
                rthen commit (\<lambda>_. (\<lambda>W st. (Inr (RateResult (toPublicExchangeRate W updated)), st))))
       | None \<Rightarrow>
           rthen (writeStoredExchangeRate None (ei_localCurrency input) None actor False) (\<lambda>updated.
           rthen commit (\<lambda>_. (\<lambda>W st. (Inr (RateResult (toPublicExchangeRate W updated)), st))))) ?Q ?E"
    if "db_active db0" for db0 current
  proof (cases "current = db_row db0")
    case True
    have r: "rtriple W (working W db db0 db0) (rthen rollback (\<lambda>_. rreturn (RateError VersionConflict 409))) ?Q ?E"
      by (rule rtriple_pre [OF triple_refused]) (simp add: working_def untouched_def)
    from True r keep [of db0] triple_change [OF that, of input W db None actor False] show ?thesis
      by (cases "db_row db0") (auto simp: rtriple_def)
  qed (simp add: rtriple_def)
  show ?thesis
    unfolding patch_transaction_def
    by (rule rtriple_then [OF triple_connect], rule rtriple_then [OF triple_begin], rule rtriple_then [OF triple_lock], rule triple_locked)
       (simp_all add: triple_refused rtriple_then [OF triple_read body])
qed

lemma triple_post:
  "rtriple W (\<lambda>st. st_db st = db) (post_transaction actor input latest)
     (finished W db actor input (Some latest)) (raised W db actor input (Some latest))"
proof -
  let ?Q = "finished W db actor input (Some latest)" and ?E = "raised W db actor input (Some latest)"
  have publish: "rtriple W (\<lambda>st. working W db db0 (changed_db db0 actor row) st \<and> right_change db0 input (Some latest) row)
      (rthen (throwIfRequestAborted True) (\<lambda>_.
         rthen commit (\<lambda>_. (\<lambda>W st. (Inr (RateResult (toPublicExchangeRate W row)), st))))) ?Q ?E" for db0 row
    by (rule rtriple_then [OF rtriple_abort triple_publish]) (blast intro: working_raised)
  have body: "rtriple W (\<lambda>st. working W db db0 db0 st \<and> current = db_row db0)
      (rthen (throwIfRequestAborted True) (\<lambda>_.
       if exchangeRateVersion current \<noteq> ei_expectedVersion input
       then rthen rollback (\<lambda>_. rreturn (RateError VersionConflict 409))
       else rthen (writeStoredExchangeRate current (ei_localCurrency input) (Some latest) actor True) (\<lambda>updated.
            rthen (throwIfRequestAborted True) (\<lambda>_.
            rthen commit (\<lambda>_. (\<lambda>W st. (Inr (RateResult (toPublicExchangeRate W updated)), st))))))) ?Q ?E"
    if "db_active db0" for db0 current
  proof (cases "current = db_row db0")
    case True
    have "rtriple W (\<lambda>st. working W db db0 db0 st \<and> current = db_row db0) (rthen rollback (\<lambda>_. rreturn (RateError VersionConflict 409))) ?Q ?E"
      by (rule rtriple_pre [OF triple_refused]) (simp add: working_def untouched_def)
    moreover have "rtriple W (\<lambda>st. working W db db0 db0 st \<and> current = db_row db0)
        (rthen (writeStoredExchangeRate current (ei_localCurrency input) (Some latest) actor True) (\<lambda>updated.
            rthen (throwIfRequestAborted True) (\<lambda>_.
            rthen commit (\<lambda>_. (\<lambda>W st. (Inr (RateResult (toPublicExchangeRate W updated)), st)))))) ?Q ?E"
      if "exchangeRateVersion current = ei_expectedVersion input"
      unfolding True
      by (rule rtriple_pre [OF rtriple_then [OF triple_write publish]]) (use that True \<open>db_active db0\<close> in auto)
    ultimately show ?thesis
      by (intro rtriple_then [OF rtriple_abort] rtriple_if) (auto intro: working_raised)
  qed (simp add: rtriple_def rthen_def throwIfRequestAborted_def)
  have locked: "rtriple W (\<lambda>st. locked W db st \<and> active = db_active (st_db st)) (rthen (throwIfRequestAborted True) (\<lambda>_.
      if \<not> active then rthen rollback (\<lambda>_. rreturn (RateError UnknownMall 404))
      else rthen readStoredExchangeRate (\<lambda>current. G current))) ?Q ?E"
    if "\<And>db0 current. db_active db0 \<Longrightarrow> rtriple W (\<lambda>st. working W db db0 db0 st \<and> current = db_row db0) (G current) ?Q ?E" for G active
    by (rule rtriple_then [OF rtriple_abort], blast intro: locked_raised, rule triple_locked)
       (simp_all add: triple_refused rtriple_then [OF triple_read that])
  show ?thesis
    unfolding post_transaction_def
    by (rule rtriple_then [OF rtriple_abort], erule clean_raised, rule rtriple_then [OF triple_connect],
        rule rtriple_then [OF rtriple_abort], erule clean_raised, rule rtriple_then [OF triple_begin],
        rule rtriple_then [OF rtriple_abort], erule clean_raised, rule rtriple_then [OF triple_lock],
        rule locked, rule body)
qed

section \<open>The handlers\<close>

lemma rollback_db: "st_db (snd (roll_back_quietly W st)) = st_db st"
  by (simp add: roll_back_quietly_def rollback_def execute_def Let_def split: statement_fault.split)

lemma rollback_released: "st_released (snd (roll_back_quietly W st)) = st_released st"
  by (simp add: roll_back_quietly_def rollback_def execute_def Let_def split: statement_fault.split)

lemma release_db [simp]: "st_db (release_client st) = st_db st" "st_released (release_client st) \<noteq> Some False"
  by (simp_all add: release_client_def)

lemma run_outcome:
  assumes "rtriple W (\<lambda>st. st_db st = db) body (finished W db actor input latest) (raised W db actor input latest)"
    and "run_transaction body handler W st = (r, st')" and "st_db st = db"
    and "\<And>W st e. \<exists>m n. handler W st e = RateError m n"
  shows "st_released st' \<noteq> Some False \<and>
    (finished W db actor input latest r st' \<or> (\<exists>m n. r = RateError m n) \<and> raised W db actor input latest st')"
proof -
  obtain x st1 where b: "body W st = (x, st1)" by (cases "body W st")
  show ?thesis
  proof (cases x)
    case (Inr r1)
    with assms b have "finished W db actor input latest r1 st1" by (auto simp: rtriple_def)
    with Inr b assms(2) show ?thesis
      by (auto simp: run_transaction_def finished_def untouched_def split: rate_response.splits)
  next
    case (Inl e)
    with assms b have "raised W db actor input latest st1" by (auto simp: rtriple_def)
    with Inl b assms(2,4) rollback_db [of W st1] show ?thesis
      by (auto simp: run_transaction_def Let_def raised_def untouched_def)
  qed
qed

lemma admitted_Inr:
  assumes "admitted W request message = Some (Inr (actor, input))"
  shows "hasTrustedBrowserOrigin (rw_platform W) (rw_env W) request"
    "rw_session W = Session (Some (JStr (js ''rootSuperAdmin''))) actor" "readExchangeRateInput W message = Some (Inr input)"
  using assms by (auto simp: admitted_def requireEditor_def split: option.splits sum.splits if_splits session_outcome.splits)

lemma failure_errors: "\<exists>m n. patch_failure W st e = RateError m n" "\<exists>m n. post_failure W st e = RateError m n"
  by (simp_all add: patch_failure_def post_failure_def)

lemma handler_cases:
  assumes "h = PATCH \<or> h = POST" and "h W request message st = (r, st')"
  obtains "r = None \<or> (\<exists>m n. r = Some (RateError m n))" "st' = st"
    | actor input r1 where "h = PATCH" "admitted W request message = Some (Inr (actor, input))" "r = Some r1"
        "run_transaction (patch_transaction actor input) patch_failure W st = (r1, st')"
    | actor input latest r1 where "h = POST" "admitted W request message = Some (Inr (actor, input))" "r = Some r1"
        "fetchLatestUsdRate W (ei_localCurrency input) = Some (Inr latest)"
        "run_transaction (post_transaction actor input latest) post_failure W st = (r1, st')"
proof -
  have refusal: "\<exists>m n. x = RateError m n" if "admitted W request message = Some (Inl x)" for x
    using that by (auto simp: admitted_def requireEditor_def readExchangeRateInput_def
        split: option.splits sum.splits if_splits session_outcome.splits json.splits body_error.splits)
  from assms(1) show ?thesis
  proof
    assume h: "h = PATCH"
    show ?thesis
    proof (cases "\<exists>actor input. admitted W request message = Some (Inr (actor, input))")
      case True
      then obtain actor input where a: "admitted W request message = Some (Inr (actor, input))" by blast
      obtain r1 st1 where run: "run_transaction (patch_transaction actor input) patch_failure W st = (r1, st1)"
        by (cases "run_transaction (patch_transaction actor input) patch_failure W st")
      with a h assms(2) have "r = Some r1" "st1 = st'" by (auto simp: PATCH_def)
      with that(2) [OF h a] run show ?thesis by simp
    next
      case False
      with h assms(2) refusal that(1) show ?thesis by (auto simp: PATCH_def split: option.splits sum.splits)
    qed
  next
    assume h: "h = POST"
    show ?thesis
    proof (cases "\<exists>actor input latest. admitted W request message = Some (Inr (actor, input)) \<and>
        fetchLatestUsdRate W (ei_localCurrency input) = Some (Inr latest)")
      case True
      then obtain actor input latest where a: "admitted W request message = Some (Inr (actor, input))"
        "fetchLatestUsdRate W (ei_localCurrency input) = Some (Inr latest)" by blast
      obtain r1 st1 where run: "run_transaction (post_transaction actor input latest) post_failure W st = (r1, st1)"
        by (cases "run_transaction (post_transaction actor input latest) post_failure W st")
      with a h assms(2) have "r = Some r1" "st1 = st'" by (auto simp: POST_def)
      with that(3) [OF h a(1) _ a(2)] run show ?thesis by simp
    next
      case False
      with h assms(2) refusal that(1) show ?thesis
        by (auto simp: POST_def split: option.splits sum.splits ExchangeRateProviderError.splits)
    qed
  qed
qed

text \<open>
  C36. A request to change the exchange rate either changes the settings completely or not at all,
  whatever statement fails, whatever other requests do and whenever the client goes away. A change is
  made only for an authorised editor from a trusted origin, only on the version that the editor named,
  it raises the version by one, writes exactly what the request or the provider says, and one audit
  event with it. A success reports the stored settings; an error means that nothing was changed unless
  a statement failed after its effect; and the database client is always released.
\<close>

theorem rate_change_atomic:
  assumes "h = PATCH \<or> h = POST" and "h W request message st = (r, st')" and "st_released st = None"
  shows "st_released st' \<noteq> Some False \<and>
    (by_others W (st_db st) (st_db st') \<or>
     (\<exists>actor input latest. hasTrustedBrowserOrigin (rw_platform W) (rw_env W) request \<and>
        rw_session W = Session (Some (JStr (js ''rootSuperAdmin''))) actor \<and>
        readExchangeRateInput W message = Some (Inr input) \<and>
        (h = PATCH \<and> latest = None \<or> h = POST \<and> (\<exists>s. latest = Some s \<and> fetchLatestUsdRate W (ei_localCurrency input) = Some (Inr s))) \<and>
        by_request W (st_db st) actor input latest (st_db st'))) \<and>
    (\<forall>x. r = Some (RateResult x) \<longrightarrow> (\<exists>row. db_row (st_db st') = Some row \<and> x = toPublicExchangeRate W row)) \<and>
    (\<forall>m n. r = Some (RateError m n) \<and> \<not> in_doubt W \<longrightarrow> by_others W (st_db st) (st_db st'))"
proof -
  consider (skip) "r = None \<or> (\<exists>m n. r = Some (RateError m n))" "st' = st"
    | (patch) actor input r1 where "h = PATCH" "admitted W request message = Some (Inr (actor, input))" "r = Some r1"
        "run_transaction (patch_transaction actor input) patch_failure W st = (r1, st')"
    | (post) actor input latest r1 where "h = POST" "admitted W request message = Some (Inr (actor, input))" "r = Some r1"
        "fetchLatestUsdRate W (ei_localCurrency input) = Some (Inr latest)"
        "run_transaction (post_transaction actor input latest) post_failure W st = (r1, st')"
    using assms(1,2) by (rule handler_cases)
  then show ?thesis
  proof cases
    case skip
    then show ?thesis using assms(3) by (auto simp: by_others_def)
  next
    case patch
    from run_outcome [OF triple_patch patch(4) refl failure_errors(1)] admitted_Inr [OF patch(2)] patch(1,3) show ?thesis
      by (auto simp: finished_def raised_def untouched_def split: rate_response.splits)
  next
    case post
    from run_outcome [OF triple_post post(5) refl failure_errors(2)] admitted_Inr [OF post(2)] post(1,3,4) show ?thesis
      by (auto simp: finished_def raised_def untouched_def split: rate_response.splits)
  qed
qed

section \<open>The fetched rate\<close>

text \<open>The rate in a provider's answer, as the answer has it.\<close>

definition stated_rate :: "json \<Rightarrow> jstr \<Rightarrow> json option" where
  "stated_rate v currency =
     (case v of
        JObj record \<Rightarrow>
          (case member record ''rates'' of Some (JObj rates) \<Rightarrow> map_of rates currency | _ \<Rightarrow> member record ''rate'')
      | _ \<Rightarrow> None)"

lemma exact_map_of:
  "list_all2 (\<lambda>(k, w) (k', v). k = k' \<and> exact w v) ws vs \<Longrightarrow> rel_option exact (map_of ws k) (map_of vs k)"
  by (induction ws vs rule: list_all2_induct) auto

lemma exact_JObj: "exact (JObj ws) v \<Longrightarrow> \<exists>vs. v = JObj vs \<and> list_all2 (\<lambda>(k, w) (k', v). k = k' \<and> exact w v) ws vs"
  by (cases v) auto

lemma exact_shape: "exact w v \<Longrightarrow> (\<exists>ws. w = JObj ws) \<longleftrightarrow> (\<exists>vs. v = JObj vs)"
  by (cases w; cases v) auto

lemma stated_exact:
  assumes "exact w v"
  shows "rel_option exact (stated_rate w currency) (stated_rate v currency)"
proof (cases w)
  case (JObj ws)
  with assms obtain vs where v: "v = JObj vs" and m: "list_all2 (\<lambda>(k, w) (k', v). k = k' \<and> exact w v) ws vs"
    using exact_JObj by blast
  have rates: "rel_option exact (member ws ''rates'') (member vs ''rates'')"
    and rate: "rel_option exact (member ws ''rate'') (member vs ''rate'')"
    unfolding member_def using exact_map_of [OF m] by blast+
  show ?thesis
  proof (cases "\<exists>rs. member ws ''rates'' = Some (JObj rs)")
    case True
    then obtain rs where rs: "member ws ''rates'' = Some (JObj rs)" by blast
    with rates obtain y where y: "member vs ''rates'' = Some y" "exact (JObj rs) y" by (auto simp: option_rel_Some1)
    from exact_JObj [OF y(2)] obtain qs where "y = JObj qs" "list_all2 (\<lambda>(k, w) (k', v). k = k' \<and> exact w v) rs qs" by blast
    with exact_map_of [OF this(2), of currency] rs y JObj v show ?thesis by (simp add: stated_rate_def)
  next
    case False
    moreover from False rates have "\<not> (\<exists>rs. member vs ''rates'' = Some (JObj rs))"
      by (auto simp: option_rel_Some2) (metis exact_shape)
    ultimately have "stated_rate w currency = member ws ''rate''" "stated_rate v currency = member vs ''rate''"
      using JObj v by (auto simp: stated_rate_def split: option.splits json.splits)
    with rate show ?thesis by simp
  qed
qed (use assms exact_shape [OF assms] in \<open>auto simp: stated_rate_def split: json.splits\<close>)

lemma extracted_rate:
  assumes "extractProviderRate up payload currency fallback = Some (rate, provider, date)"
  shows "normalizeExactPositiveDecimal (stated_rate payload currency) = Some rate"
  using assms by (auto simp: extractProviderRate_def stated_rate_def Let_def split: json.splits option.splits if_splits)

text \<open>
  C37. The rate that a provider reports is stored to the last digit. When a rate is fetched, the rate is
  \<open>1\<close> for the base currency itself; otherwise it comes from a successful answer over the pinned
  transport, is recorded with the digest of that very text, and when the text is JSON the stored rate
  denotes exactly the number the answer states for the currency, which is positive and at most 10 to
  the power 12.
\<close>

theorem fetched_rate_exact:
  assumes "fetchLatestUsdRate W currency = Some (Inr latest)"
  shows "currency = BASE_CURRENCY \<and> pr_rateExact latest = js ''1'' \<or>
    (\<exists>url response text calls. fetchPinnedPublicText (rw_platform W) (rw_resolve W) (rw_net W url) (rw_course W) url
          \<lparr> to_responseLimitBytes = PROVIDER_RESPONSE_LIMIT, to_allowLoopback = False \<rparr> = (Some (Inr (response, text)), calls) \<and>
       pr_source latest = url_hostname url \<and> pr_responseDigest latest = responseDigest (rw_platform W) text \<and>
       (\<forall>v. json_parse text = Some v \<longrightarrow>
          (\<exists>n. (stated_rate v currency = Some (JNum n) \<or> (\<exists>s. stated_rate v currency = Some (JStr s) \<and> pnum s = Some (JNum n, []))) \<and>
             pnum (pr_rateExact latest) = Some (JNum n, []) \<and> 0 < num_val n \<and> num_val n \<le> 10 ^ 12)))"
proof (cases "currency = BASE_CURRENCY")
  case True
  with assms have "latest = \<lparr> pr_rateExact = js ''1'', pr_source = js ''identity'', pr_provider = js ''identity'',
      pr_effectiveDate = take 10 (rw_today W),
      pr_responseDigest = responseDigest (rw_platform W) (identity_summary (take 10 (rw_today W))) \<rparr>"
    by (simp add: fetchLatestUsdRate_def)
  with True show ?thesis by simp
next
  case False
  with assms obtain base where "exchangeRateProviderUrl W = Inr base" by (auto simp: fetchLatestUsdRate_def split: sum.splits)
  define url where "url = rw_with_query W base currency"
  let ?fetch = "fetchPinnedPublicText (rw_platform W) (rw_resolve W) (rw_net W url) (rw_course W) url
      \<lparr> to_responseLimitBytes = PROVIDER_RESPONSE_LIMIT, to_allowLoopback = False \<rparr>"
  obtain response body where f: "fst ?fetch = Some (Inr (response, body))"
    and p: "provider_snapshot W currency url (hr_status response) body = Inr latest"
    using assms False \<open>exchangeRateProviderUrl W = Inr base\<close>
    by (auto simp: fetchLatestUsdRate_def url_def Let_def split: option.splits sum.splits)
  from p obtain w rate provider date where w: "json_parse (quoteJsonNumbers body) = Some w"
    "extractProviderRate (rw_toUpperCase W) w currency (url_hostname url) = Some (rate, provider, date)"
    and l: "pr_rateExact latest = rate" "pr_source latest = url_hostname url" "pr_responseDigest latest = responseDigest (rw_platform W) body"
    by (auto simp: provider_snapshot_def split: if_splits option.splits)
  have "\<exists>n. (stated_rate v currency = Some (JNum n) \<or> (\<exists>s. stated_rate v currency = Some (JStr s) \<and> pnum s = Some (JNum n, []))) \<and>
      pnum rate = Some (JNum n, []) \<and> 0 < num_val n \<and> num_val n \<le> 10 ^ 12" if v: "json_parse body = Some v" for v
  proof -
    from quoted_numbers [OF v] w(1) have "exact w v" by simp
    from stated_exact [OF this, of currency] have rel: "rel_option exact (stated_rate w currency) (stated_rate v currency)" .
    from extracted_rate [OF w(2)] obtain s where s: "stated_rate w currency = Some (JStr s)"
      "normalizeExactPositiveDecimal (Some (JStr s)) = Some rate"
      by (cases "stated_rate w currency") (auto simp: normalizeExactPositiveDecimal_def split: json.splits)
    from normalised_exactly [THEN iffD1, OF s(2)] obtain n where n: "pnum s = Some (JNum n, [])" "0 < num_val n" "num_val n \<le> 10 ^ 12" "pnum rate = Some (JNum n, [])"
      by blast
    from rel s(1) obtain x where "stated_rate v currency = Some x" "exact (JStr s) x" by (auto simp: option_rel_Some1)
    with n show ?thesis by (cases x) auto
  qed
  with f l show ?thesis by (intro disjI2 exI [of _ url] exI [of _ response] exI [of _ body] exI [of _ "snd ?fetch"]) (auto simp: prod_eq_iff)
qed

section \<open>An example\<close>

definition example_provider :: url where
  "example_provider = \<lparr> url_protocol = js ''https:'', url_username = [], url_password = [], url_hash = [],
     url_search = [], url_pathname = js ''/'', url_hostname = js ''rates'', url_origin = js ''https://rates'' \<rparr>"

definition example_rates :: jstr where
  "example_rates = js ''{'' @ quote (js ''base'') @ js '':'' @ quote (js ''USD'') @ js '','' @ quote (js ''date'') @ js '':'' @
     quote (js ''2026-08-28'') @ js '','' @ quote (js ''rate'') @ js '':7.10}''"

definition example_world :: rate_world where
  "example_world = \<lparr>
     rw_platform = \<lparr> url_parse = (\<lambda>_. Some example_provider), isIP = (\<lambda>_. 0), ip_process = (\<lambda>_. None), sha256 = (\<lambda>_. []) \<rparr>,
     rw_env = \<lparr> we_MATCHPLANE_ENVIRONMENT = None, we_NODE_ENV = None, we_BETTER_AUTH_URL = None,
       we_NEXT_PUBLIC_BETTER_AUTH_URL = None, we_BETTER_AUTH_TRUSTED_ORIGINS = None,
       we_MATCHPLANE_ROOT_TENANT_ID = Some (js ''11111111-1111-1111-8111-111111111111'') \<rparr>,
     rw_exchangeRateUrl = None, rw_toUpperCase = (\<lambda>s. s), rw_number = (\<lambda>_. NumNaN),
     rw_session = Session (Some (JStr (js ''rootSuperAdmin''))) (js ''u''), rw_today = js ''2026-08-28T00:00:00.000Z'',
     rw_with_query = (\<lambda>u _. u), rw_resolve = (\<lambda>_. Resolved []),
     rw_net = (\<lambda>_ _. Fetched \<lparr> hr_status = 200, hr_redirected = False,
       hr_message = \<lparr> hm_contentLength = None, hm_body = Some [Chunk example_rates, End] \<rparr> \<rparr>),
     rw_course = example_course, rw_date = Text, rw_timestamp = (\<lambda>_. Null), rw_now = (\<lambda>n. int n),
     rw_fault = (\<lambda>_. Succeeds), rw_others = (\<lambda>_ db. db), rw_aborted = (\<lambda>_. False) \<rparr>"

definition example_change :: json where
  "example_change = JObj [(js ''localCurrency'', JStr (js ''EUR'')), (js ''expectedVersion'', JNum (Dec 1 0))]"

definition example_patch :: http_message where
  "example_patch = \<lparr> hm_contentLength = None, hm_body = Some [Chunk (utf8_encode (stringify example_change)), End] \<rparr>"

definition example_request :: web_request where
  "example_request = \<lparr> wr_method = js ''PATCH'', wr_cookie = None, wr_origin = None \<rparr>"

definition example_settings :: rate_state where
  "example_settings = \<lparr> st_db = \<lparr> db_active = True, db_row = None, db_audit = [] \<rparr>, st_work = None, st_tick = 0, st_released = None \<rparr>"

definition example_quoted :: json where
  "example_quoted = JObj [(js ''base'', JStr (js ''USD'')), (js ''date'', JStr (js ''2026-08-28'')), (js ''rate'', JStr (js ''7.10''))]"

lemma example_rates_parsed: "json_parse (quoteJsonNumbers example_rates) = Some example_quoted"
proof -
  have "wf_json example_quoted" by (simp add: example_quoted_def wf_json_Obj wf_str_def js_simps)
  moreover have "quoteJsonNumbers example_rates = stringify example_quoted"
    by (simp add: quoteJsonNumbers_def example_rates_def example_quoted_def js_simps quote_def quote_unit_def is_high_def is_low_def
        is_digit_def number_token_def decimal_at_def pint_def opt_fraction_def opt_exponent_def)
  ultimately show ?thesis by (simp add: json_parse_stringify)
qed

lemma example_text: "decode_text example_rates = example_rates" "length example_rates = 46"
  by (simp_all add: decode_text_def utf8_lossy_def example_rates_def js_simps quote_def quote_unit_def is_high_def is_low_def items_ascii
      utf16_def drop_bom_def)

lemma example_answered:
  "fst (fetchPinnedPublicText (rw_platform example_world) (rw_resolve example_world) (rw_net example_world example_provider)
      (rw_course example_world) example_provider \<lparr> to_responseLimitBytes = PROVIDER_RESPONSE_LIMIT, to_allowLoopback = False \<rparr>) =
    Some (Inr (\<lparr> hr_status = 200, hr_redirected = False,
       hr_message = \<lparr> hm_contentLength = None, hm_body = Some [Chunk example_rates, End] \<rparr> \<rparr>, example_rates))"
proof -
  have "readBoundedBytes [Chunk example_rates, End] PROVIDER_RESPONSE_LIMIT (ResponseBodyTooLargeError PROVIDER_RESPONSE_LIMIT) (Some False) True =
      (Some (Inr example_rates), [ReleaseLock])"
    using example_text(2) by (simp add: bounded_Inr PROVIDER_RESPONSE_LIMIT_def)
  then show ?thesis
    by (simp add: example_world_def fetchPinnedPublicText_def createPinnedPublicDispatcher_def example_provider_def example_course_def
        readResponseTextBody_def declares_more_def parse_int10_def trim_start_def example_text(1))
qed

lemma example_latest: "\<exists>latest. fetchLatestUsdRate example_world (js ''EUR'') = Some (Inr latest)"
proof -
  have w: "rw_with_query example_world base currency = base" "rw_toUpperCase example_world = (\<lambda>s. s)" for base currency
    by (simp_all add: example_world_def)
  have u: "exchangeRateProviderUrl example_world = Inr example_provider"
    by (simp add: exchangeRateProviderUrl_def example_world_def trimmed_variable_def example_provider_def isPrivateOrReservedIpLiteral_def
        Let_def js_simps)
  have "normalizeExactPositiveDecimal (Some (JStr (js ''7.10''))) = Some (js ''7.1'')" by code_simp
  moreover have "normalizeProviderDate (Some (JStr (js ''2026-08-28''))) = Some (js ''2026-08-28'')" by code_simp
  moreover have "trim (js ''USD'') = js ''USD''" by (simp add: trim_def js_simps is_space_def)
  ultimately have "extractProviderRate (\<lambda>s. s) example_quoted (js ''EUR'') (js ''rates'') = Some (js ''7.1'', js ''rates'', js ''2026-08-28'')"
    by (simp add: extractProviderRate_def example_quoted_def BASE_CURRENCY_def or_nullish_def)
  then show ?thesis
    using u example_answered example_rates_parsed
    by (simp add: fetchLatestUsdRate_def w provider_snapshot_def Let_def BASE_CURRENCY_def example_provider_def)
qed

theorem fetched_rate_exact_witness:
  "\<exists>latest url response body calls. fetchLatestUsdRate example_world (js ''EUR'') = Some (Inr latest) \<and>
     fetchPinnedPublicText (rw_platform example_world) (rw_resolve example_world) (rw_net example_world url) (rw_course example_world) url
       \<lparr> to_responseLimitBytes = PROVIDER_RESPONSE_LIMIT, to_allowLoopback = False \<rparr> = (Some (Inr (response, body)), calls) \<and>
     pr_responseDigest latest = responseDigest (rw_platform example_world) body"
proof -
  obtain latest where l: "fetchLatestUsdRate example_world (js ''EUR'') = Some (Inr latest)" using example_latest by blast
  have "js ''EUR'' \<noteq> BASE_CURRENCY" by (simp add: BASE_CURRENCY_def)
  with fetched_rate_exact [OF l] l show ?thesis by blast
qed

lemma example_change_read:
  "readExchangeRateInput example_world example_patch = Some (Inr \<lparr> ei_localCurrency = js ''EUR'', ei_expectedVersion = 1 \<rparr>)"
proof -
  have v: "wf_json example_change" by (simp add: example_change_def wf_json_Obj wf_str_def js_simps)
  have "length (utf8_encode (stringify example_change)) \<le> 8 * 1024"
    by (simp add: example_change_def js_simps quote_def quote_unit_def is_high_def is_low_def abs_text_def show_nat.simps Let_def encode_ascii)
  with v have "readJsonBody example_patch (8 * 1024) = (Some (Inr example_change), [ReleaseLock])"
    by (intro printed_body_read [where chunks = "[utf8_encode (stringify example_change)]"])
       (simp_all add: example_patch_def declares_more_def parse_int10_def trim_start_def)
  moreover have "trim (js ''EUR'') = js ''EUR''" "list_all is_upper (js ''EUR'')"
    by (simp_all add: trim_def js_simps is_space_def is_upper_def)
  ultimately show ?thesis
    by (simp add: readExchangeRateInput_def example_change_def normalizeCurrency_def example_world_def Let_def is_safe_integer_def)
qed

theorem rate_change_atomic_witness:
  "\<exists>x row st'. PATCH example_world example_request example_patch example_settings = (Some (RateResult x), st') \<and>
     db_row (st_db st') = Some row \<and> x = toPublicExchangeRate example_world row"
proof -
  have "isUuid (Some (JStr (js ''11111111-1111-1111-8111-111111111111'')))" by code_simp
  then have t: "configuredTenantId (rw_env example_world) \<noteq> None"
    by (simp add: configuredTenantId_def example_world_def trim_def js_simps is_space_def Let_def)
  then have a: "admitted example_world example_request example_patch = Some (Inr (js ''u'', \<lparr> ei_localCurrency = js ''EUR'', ei_expectedVersion = 1 \<rparr>))"
    using example_change_read
    by (auto simp: admitted_def requireEditor_def hasTrustedBrowserOrigin_def example_request_def example_world_def)
  have W: "rw_fault example_world = (\<lambda>_. Succeeds)" "rw_others example_world = (\<lambda>_ db. db)" by (simp_all add: example_world_def)
  have "\<exists>x. fst (PATCH example_world example_request example_patch example_settings) = Some (RateResult x)"
    by (simp add: PATCH_def a run_transaction_def patch_transaction_def rthen_def rreturn_def statement_defs execute_def Let_def
        W example_settings_def exchangeRateVersion_def writeStoredExchangeRate_def throwIfRequestAborted_def the_work_def)
  then obtain x st' where run: "PATCH example_world example_request example_patch example_settings = (Some (RateResult x), st')"
    by (metis prod.collapse)
  from rate_change_atomic [OF disjI1 [OF refl] run] run show ?thesis by (auto simp: example_settings_def)
qed

end
