(* ===== verification/Agent_Handoff.thy ===== *)
theory Agent_Handoff
  imports Retrieval_Protocol
begin

text \<open>
  The handoff of an external agent, after \<open>web/src/platform-agent-handoff.ts\<close> (its
  \<open>normalizePlatformPath\<close> is in \<open>Retrieval_Protocol\<close>). The envelope is what the database is given;
  \<open>handoff_sound\<close> says what can be relied on there.
\<close>

section \<open>Data\<close>

definition AGENT_HANDOFF_PROTOCOL :: jstr where
  "AGENT_HANDOFF_PROTOCOL = js ''matchplane.agent/v1''"

record AgentHandoffEnvelope =
  ah_requestId :: jstr
  ah_stage :: jstr
  ah_platformPath :: jstr
  ah_narrative :: jstr
  ah_requirements :: "(jstr \<times> json) list"
  ah_agent_id :: jstr
  ah_agent_version :: jstr
  ah_agent_capabilities :: "jstr list"
  ah_maxSteps :: int
  ah_maxInputCharacters :: int
  ah_maxOutputTokens :: int
  ah_selectedRefs :: "jstr list"

definition MAX_REQUIREMENTS_BYTES :: nat where "MAX_REQUIREMENTS_BYTES = 32 * 1024"
definition MAX_SELECTED_REFS :: nat where "MAX_SELECTED_REFS = 100"

definition allowedKeys :: "string list" where
  "allowedKeys = [''protocol'', ''request_id'', ''stage'', ''scope'', ''intent'', ''agent'', ''budget'', ''selected_refs'']"

section \<open>Patterns\<close>

text \<open>\<open>/^[a-zA-Z0-9][a-zA-Z0-9._:-]{0,127}$/\<close> and the same with \<open>+\<close>.\<close>

definition agent_id_pattern :: "jstr \<Rightarrow> bool" where
  "agent_id_pattern s \<longleftrightarrow>
     s \<noteq> [] \<and> length s \<le> 128 \<and> is_alnum (hd s) \<and> list_all (\<lambda>c. is_alnum c \<or> c \<in> {46, 95, 58, 45}) (tl s)"

definition agent_version_pattern :: "jstr \<Rightarrow> bool" where
  "agent_version_pattern s \<longleftrightarrow>
     s \<noteq> [] \<and> length s \<le> 128 \<and> is_alnum (hd s) \<and> list_all (\<lambda>c. is_alnum c \<or> c \<in> {46, 95, 58, 43, 45}) (tl s)"

text \<open>\<open>/^.{1,256}$/u\<close>: 1 to 256 code points, none of them a line terminator.\<close>

definition ref_pattern :: "jstr \<Rightarrow> bool" where
  "ref_pattern s \<longleftrightarrow> 1 \<le> scalarLength s \<and> scalarLength s \<le> 256 \<and> list_all (\<lambda>c. c \<notin> {10, 13, 8232, 8233}) s"

definition stringMatches :: "json option \<Rightarrow> (jstr \<Rightarrow> bool) \<Rightarrow> bool" where
  "stringMatches v pattern = (case as_string v of Some s \<Rightarrow> pattern s | None \<Rightarrow> False)"

definition boundedInteger :: "json option \<Rightarrow> int \<Rightarrow> int \<Rightarrow> int option" where
  "boundedInteger v minimum maximum =
     (case as_number v of
        Some n \<Rightarrow> if is_safe_integer n \<and> minimum \<le> num_int n \<and> num_int n \<le> maximum then Some (num_int n) else None
      | None \<Rightarrow> None)"

definition boundedStringArray :: "json option \<Rightarrow> nat \<Rightarrow> (jstr \<Rightarrow> bool) \<Rightarrow> jstr list option" where
  "boundedStringArray v maximum pattern =
     (case as_array v of
        None \<Rightarrow> None
      | Some items \<Rightarrow>
          if length items > maximum then None
          else (let values = List.map_filter (\<lambda>i. as_string (Some i)) items
                in if length values \<noteq> length items \<or> list_ex (\<lambda>s. \<not> pattern s) values then None
                   else Some (dedup values)))"

text \<open>\<open>Object.keys(r).some((key) => !allowed.includes(key))\<close>.\<close>

definition has_other_keys :: "string list \<Rightarrow> (jstr \<times> json) list \<Rightarrow> bool" where
  "has_other_keys allowed ms = list_ex (\<lambda>k. k \<notin> js ` set allowed) (object_keys ms)"

definition record_with :: "json option \<Rightarrow> string list \<Rightarrow> jstr \<Rightarrow> (jstr \<times> json) list ParseResult" where
  "record_with v allowed message =
     (case as_record v of
        Some ms \<Rightarrow> if has_other_keys allowed ms then Inl message else Inr ms
      | None \<Rightarrow> Inl message)"

definition or_error :: "'a option \<Rightarrow> jstr \<Rightarrow> 'a ParseResult" where
  "or_error v message = (case v of Some x \<Rightarrow> Inr x | None \<Rightarrow> Inl message)"

section \<open>The parser\<close>

definition parse_intent :: "json option \<Rightarrow> (jstr \<times> (jstr \<times> json) list) ParseResult" where
  "parse_intent v =
     rbind (record_with v [''narrative'', ''requirements''] (js ''intent.narrative and intent.requirements are required'')) (\<lambda>intent.
     rbind (or_error (case as_string (member intent ''narrative'') of
         Some s \<Rightarrow> if trim s = [] \<or> length s > 10000 then None else Some s
       | None \<Rightarrow> None) (js ''intent.narrative must contain 1..10000 characters'')) (\<lambda>narrative.
     rbind (or_error (as_record (member intent ''requirements'')) (js ''intent.requirements must be an object'')) (\<lambda>requirements.
     if length (utf8_encode (stringify (JObj requirements))) > MAX_REQUIREMENTS_BYTES
     then Inl (js ''intent.requirements is too large'')
     else Inr (trim narrative, requirements))))"

definition parse_agent :: "json option \<Rightarrow> (jstr \<times> jstr \<times> jstr list) ParseResult" where
  "parse_agent v =
     rbind (record_with v [''id'', ''version'', ''capabilities''] (js ''agent.id, agent.version and agent.capabilities are required'')) (\<lambda>agent.
     rbind (if stringMatches (member agent ''id'') agent_id_pattern then or_error (as_string (member agent ''id'')) []
            else Inl (js ''agent.id is invalid'')) (\<lambda>i.
     rbind (if stringMatches (member agent ''version'') agent_version_pattern then or_error (as_string (member agent ''version'')) []
            else Inl (js ''agent.version is invalid'')) (\<lambda>version.
     rbind (or_error (boundedStringArray (member agent ''capabilities'') 64 TOOL_NAME_PATTERN) (js ''agent.capabilities is invalid'')) (\<lambda>capabilities.
     Inr (i, version, capabilities)))))"

definition parse_budget :: "json option \<Rightarrow> (int \<times> int \<times> int) ParseResult" where
  "parse_budget v =
     rbind (record_with v [''max_steps'', ''max_input_characters'', ''max_output_tokens'', ''cost_bearer''] (js ''budget is invalid'')) (\<lambda>budget.
     case (boundedInteger (member budget ''max_steps'') 1 16, boundedInteger (member budget ''max_input_characters'') 1 24000,
           boundedInteger (member budget ''max_output_tokens'') 64 2048) of
       (Some maxSteps, Some maxInputCharacters, Some maxOutputTokens) \<Rightarrow>
         if member budget ''cost_bearer'' \<noteq> Some (JStr (js ''caller''))
         then Inl (js ''external handoff must use bounded caller-funded budget'')
         else Inr (maxSteps, maxInputCharacters, maxOutputTokens)
     | _ \<Rightarrow> Inl (js ''external handoff must use bounded caller-funded budget''))"

definition parseAgentHandoff :: "json option \<Rightarrow> AgentHandoffEnvelope ParseResult" where
  "parseAgentHandoff v =
     rbind (record_or v (js ''handoff must be a JSON object'')) (\<lambda>ms.
     rbind (refuse_unsupported allowedKeys ms ''handoff contains an unsupported field: '') (\<lambda>_.
     if member ms ''protocol'' \<noteq> Some (JStr AGENT_HANDOFF_PROTOCOL) then Inl (js ''protocol must be matchplane.agent/v1'')
     else rbind (uuid_or (member ms ''request_id'') (js ''request_id must be a UUID'')) (\<lambda>requestId.
     if \<not> stringMatches (member ms ''stage'') TOOL_NAME_PATTERN then Inl (js ''stage must be a bounded lowercase taxonomy key'')
     else rbind (or_error (as_string (member ms ''stage'')) []) (\<lambda>stage.
     rbind (record_with (member ms ''scope'') [''platform_path''] (js ''scope.platform_path is required'')) (\<lambda>scope.
     rbind (or_error (normalizePlatformPath (member scope ''platform_path'')) (js ''scope.platform_path is invalid'')) (\<lambda>platformPath.
     rbind (parse_intent (member ms ''intent'')) (\<lambda>(narrative, requirements).
     rbind (parse_agent (member ms ''agent'')) (\<lambda>(i, version, capabilities).
     rbind (parse_budget (member ms ''budget'')) (\<lambda>(maxSteps, maxInputCharacters, maxOutputTokens).
     rbind (or_error (if member ms ''selected_refs'' = None then Some []
                      else boundedStringArray (member ms ''selected_refs'') MAX_SELECTED_REFS ref_pattern)
              (js ''selected_refs is invalid'')) (\<lambda>selectedRefs.
     Inr \<lparr> ah_requestId = requestId, ah_stage = stage, ah_platformPath = platformPath, ah_narrative = narrative,
           ah_requirements = requirements, ah_agent_id = i, ah_agent_version = version, ah_agent_capabilities = capabilities,
           ah_maxSteps = maxSteps, ah_maxInputCharacters = maxInputCharacters, ah_maxOutputTokens = maxOutputTokens,
           ah_selectedRefs = selectedRefs \<rparr>))))))))))"

section \<open>What an accepted handoff satisfies\<close>

lemma or_error_Inr [simp]: "or_error v m = Inr x \<longleftrightarrow> v = Some x"
  by (cases v) (auto simp: or_error_def)

lemma boundedStringArray_Some:
  assumes "boundedStringArray v m p = Some xs"
  shows "length xs \<le> m" "distinct xs" "list_all p xs" "\<exists>items. v = Some (JArr items) \<and> set items = JStr ` set xs"
proof -
  from assms obtain items where items: "v = Some (JArr items)" "length items \<le> m"
    "length (List.map_filter (\<lambda>i. as_string (Some i)) items) = length items"
    "list_all p (List.map_filter (\<lambda>i. as_string (Some i)) items)"
    "xs = dedup (List.map_filter (\<lambda>i. as_string (Some i)) items)"
    by (auto simp: boundedStringArray_def as_simps Let_def list_all_iff list_ex_iff split: option.splits if_splits)
  have strings: "\<And>items. length (List.map_filter (\<lambda>i. as_string (Some i)) items) = length items \<Longrightarrow>
      set items = JStr ` set (List.map_filter (\<lambda>i. as_string (Some i)) items)"
  proof -
    fix items :: "json list"
    have le: "length (List.map_filter (\<lambda>i. as_string (Some i)) xs) \<le> length xs" for xs
      by (induction xs) (auto simp: List.map_filter_simps split: option.split)
    show "length (List.map_filter (\<lambda>i. as_string (Some i)) items) = length items \<Longrightarrow>
      set items = JStr ` set (List.map_filter (\<lambda>i. as_string (Some i)) items)"
    proof (induction items)
      case (Cons i items)
      with le [of items] obtain s where "as_string (Some i) = Some s"
        by (cases "as_string (Some i)") (auto simp: List.map_filter_simps)
      with Cons show ?case by (auto simp: List.map_filter_simps as_simps)
    qed (simp add: List.map_filter_simps)
  qed
  show "length xs \<le> m" using items(2,3,5) length_dedup [of "List.map_filter (\<lambda>i. as_string (Some i)) items"] by simp
  show "distinct xs" "list_all p xs" using items(4,5) by (simp_all add: list_all_iff)
  show "\<exists>items. v = Some (JArr items) \<and> set items = JStr ` set xs" using items strings [OF items(3)] by auto
qed

definition envelope_ok :: "AgentHandoffEnvelope \<Rightarrow> bool" where
  "envelope_ok e \<longleftrightarrow>
     isUuid (Some (JStr (ah_requestId e))) \<and> TOOL_NAME_PATTERN (ah_stage e) \<and>
     ah_narrative e \<noteq> [] \<and> length (ah_narrative e) \<le> 10000 \<and> trim (ah_narrative e) = ah_narrative e \<and>
     length (utf8_encode (stringify (JObj (ah_requirements e)))) \<le> 32768 \<and>
     agent_id_pattern (ah_agent_id e) \<and> agent_version_pattern (ah_agent_version e) \<and>
     length (ah_agent_capabilities e) \<le> 64 \<and> distinct (ah_agent_capabilities e) \<and> list_all TOOL_NAME_PATTERN (ah_agent_capabilities e) \<and>
     1 \<le> ah_maxSteps e \<and> ah_maxSteps e \<le> 16 \<and> 1 \<le> ah_maxInputCharacters e \<and> ah_maxInputCharacters e \<le> 24000 \<and>
     64 \<le> ah_maxOutputTokens e \<and> ah_maxOutputTokens e \<le> 2048 \<and>
     length (ah_selectedRefs e) \<le> 100 \<and> distinct (ah_selectedRefs e) \<and> list_all ref_pattern (ah_selectedRefs e)"

lemma intent_ok:
  assumes "parse_intent v = Inr (narrative, requirements)"
  shows "narrative \<noteq> []" "length narrative \<le> 10000" "trim narrative = narrative"
    "length (utf8_encode (stringify (JObj requirements))) \<le> 32768"
proof -
  from assms obtain s where s: "narrative = trim s" "trim s \<noteq> []" "length s \<le> 10000"
    "length (utf8_encode (stringify (JObj requirements))) \<le> 32768"
    by (auto simp: parse_intent_def rbind_Inr MAX_REQUIREMENTS_BYTES_def split: option.splits if_splits)
  then show "narrative \<noteq> []" "trim narrative = narrative" "length (utf8_encode (stringify (JObj requirements))) \<le> 32768" by simp_all
  show "length narrative \<le> 10000" using s(1,3) length_trim [of s] by simp
qed

lemma agent_ok:
  assumes "parse_agent v = Inr (i, version, capabilities)"
  shows "agent_id_pattern i" "agent_version_pattern version" "length capabilities \<le> 64" "distinct capabilities"
    "list_all TOOL_NAME_PATTERN capabilities"
  using assms boundedStringArray_Some
  by (auto simp: parse_agent_def rbind_Inr stringMatches_def split: option.splits if_splits)

lemma budget_ok:
  assumes "parse_budget v = Inr (s, c, t)"
  shows "1 \<le> s \<and> s \<le> 16" "1 \<le> c \<and> c \<le> 24000" "64 \<le> t \<and> t \<le> 2048"
  using assms by (auto simp: parse_budget_def rbind_Inr boundedInteger_def split: option.splits if_splits)

section \<open>Soundness\<close>

text \<open>
  Whatever an external agent sends, a handoff that is accepted respects every bound before it
  reaches the database: identifiers match their patterns, the narrative is trimmed and has 1 to 10000
  characters, the requirements have at most 32 KiB, lists are short and without repetition, and the
  budget stays within 16 steps, 24000 characters and 2048 tokens at the caller's expense.
\<close>

theorem handoff_sound:
  assumes "parseAgentHandoff v = Inr e"
  shows "envelope_ok e"
proof -
  from assms obtain ms where ms: "isUuid (member ms ''request_id'')" "member ms ''request_id'' = Some (JStr (ah_requestId e))"
    "TOOL_NAME_PATTERN (ah_stage e)"
    and i: "parse_intent (member ms ''intent'') = Inr (ah_narrative e, ah_requirements e)"
    and a: "parse_agent (member ms ''agent'') = Inr (ah_agent_id e, ah_agent_version e, ah_agent_capabilities e)"
    and b: "parse_budget (member ms ''budget'') = Inr (ah_maxSteps e, ah_maxInputCharacters e, ah_maxOutputTokens e)"
    and r: "(if member ms ''selected_refs'' = None then Some []
       else boundedStringArray (member ms ''selected_refs'') MAX_SELECTED_REFS ref_pattern) = Some (ah_selectedRefs e)"
    unfolding parseAgentHandoff_def
    by (auto simp: rbind_Inr uuid_or_def stringMatches_def as_simps split: if_splits option.splits prod.splits)
  from r have "length (ah_selectedRefs e) \<le> 100 \<and> distinct (ah_selectedRefs e) \<and> list_all ref_pattern (ah_selectedRefs e)"
    using boundedStringArray_Some [of "member ms ''selected_refs''" MAX_SELECTED_REFS ref_pattern "ah_selectedRefs e"]
    by (auto simp: MAX_SELECTED_REFS_def split: if_splits)
  with ms intent_ok [OF i] agent_ok [OF a] budget_ok [OF b] show ?thesis by (simp add: envelope_ok_def)
qed

definition example_handoff :: json where
  "example_handoff = JObj
     [(js ''protocol'', JStr AGENT_HANDOFF_PROTOCOL), (js ''request_id'', JStr (js ''11111111-1111-1111-8111-111111111111'')),
      (js ''stage'', JStr (js ''platform'')), (js ''scope'', JObj [(js ''platform_path'', JStr (js ''/tea''))]),
      (js ''intent'', JObj [(js ''narrative'', JStr (js '' green tea '')), (js ''requirements'', JObj [])]),
      (js ''agent'', JObj [(js ''id'', JStr (js ''a'')), (js ''version'', JStr (js ''1'')), (js ''capabilities'', JArr [])]),
      (js ''budget'', JObj [(js ''max_steps'', JNum (Dec 4 0)), (js ''max_input_characters'', JNum (Dec 1 3)),
         (js ''max_output_tokens'', JNum (Dec 64 0)), (js ''cost_bearer'', JStr (js ''caller''))])]"

theorem handoff_sound_witness:
  "\<exists>e. parseAgentHandoff (Some example_handoff) = Inr e \<and> envelope_ok e"
proof -
  have "isUuid (Some (JStr (js ''11111111-1111-1111-8111-111111111111'')))" by code_simp
  then have "\<exists>e. parseAgentHandoff (Some example_handoff) = Inr e"
    by (simp add: parseAgentHandoff_def example_handoff_def record_or_def refuse_unsupported_def unsupported_key_def allowedKeys_def
        object_keys_def object_entries_def is_index_key_def uuid_or_def stringMatches_def record_with_def has_other_keys_def
        parse_intent_def parse_agent_def parse_budget_def or_error_def boundedStringArray_def boundedInteger_def is_safe_integer_def
        normalizePlatformPath_def agent_id_pattern_def agent_version_pattern_def TOOL_NAME_PATTERN_def AGENT_HANDOFF_PROTOCOL_def
        member_def js_simps is_lower_def is_digit_def is_alnum_def is_upper_def path_char_def trim_def is_space_def
        List.map_filter_simps MAX_REQUIREMENTS_BYTES_def encode_ascii Let_def)
  with handoff_sound show ?thesis by blast
qed

end
