(* ===== verification/Federation_Contract.thy ===== *)
theory Federation_Contract
  imports Catalog_Projection Retrieval_Protocol
begin

text \<open>
  Enrollment of a remote node, after \<open>web/src/federation-contract.ts\<close>. Ed25519 verification, the text
  of a URL and SHA-256 are arguments; \<open>fh_verify key message signature\<close> is \<open>None\<close> when the key is
  refused. The texts of the errors are constructors.
\<close>

section \<open>Data\<close>

definition FEDERATION_PROTOCOL :: jstr where
  "FEDERATION_PROTOCOL = js ''matchplane.federation/v1''"

text \<open>\<open>SERVER_KEY_PATTERN\<close> is the pattern of tool names.\<close>

definition SERVER_KEY_PATTERN :: "jstr \<Rightarrow> bool" where
  "SERVER_KEY_PATTERN s \<longleftrightarrow> TOOL_NAME_PATTERN s"

definition SLUG_PATTERN :: "jstr \<Rightarrow> bool" where
  "SLUG_PATTERN s \<longleftrightarrow>
     2 \<le> length s \<and> length s \<le> 63 \<and> (is_lower (hd s) \<or> is_digit (hd s)) \<and>
     list_all (\<lambda>c. is_lower c \<or> is_digit c \<or> c = 45) (tl s)"

definition ENV_NAME_PATTERN :: "jstr \<Rightarrow> bool" where
  "ENV_NAME_PATTERN s \<longleftrightarrow>
     1 \<le> length s \<and> length s \<le> 128 \<and> is_upper (hd s) \<and> list_all (\<lambda>c. is_upper c \<or> is_digit c \<or> c = 95) (tl s)"

text \<open>\<open>/^[a-z0-9][a-z0-9._-]{1,127}$/\<close>.\<close>

definition manifest_id_pattern :: "jstr \<Rightarrow> bool" where
  "manifest_id_pattern s \<longleftrightarrow>
     2 \<le> length s \<and> length s \<le> 128 \<and> (is_lower (hd s) \<or> is_digit (hd s)) \<and>
     list_all (\<lambda>c. is_lower c \<or> is_digit c \<or> c \<in> {46, 95, 45}) (tl s)"

record VerifiedFederationEnrollment =
  fe_nodeId :: jstr
  fe_slug :: jstr
  fe_displayName :: jstr
  fe_endpoint :: jstr
  fe_mcpServerKey :: jstr
  fe_publicKey :: jstr
  fe_signature :: jstr
  fe_manifest :: "(jstr \<times> json) list"
  fe_manifestDigest :: jstr

datatype federation_error =
    NotAnObject | UnsupportedProtocol | NodeIdNotUuid | InvalidSlug | MissingDisplayName | UnsafeEndpoint | InvalidServerKey
  | NotBase64 | ManifestNotObject | ManifestTooLarge | ManifestApiVersion | ManifestId | ManifestSlug | ManifestScopes
  | ManifestAgent | ManifestAgentProtocol | ManifestTools | KeyOrSignatureLength | InvalidKey | InvalidSignature

record federation_host =
  fh_platform :: platform
  fh_href :: "url \<Rightarrow> jstr"
  fh_verify :: "nat list \<Rightarrow> nat list \<Rightarrow> nat list \<Rightarrow> bool option"

section \<open>Helpers\<close>

fun canonicalJson :: "json \<Rightarrow> jstr" where
  "canonicalJson JNull = js ''null''"
| "canonicalJson (JBool b) = (if b then js ''true'' else js ''false'')"
| "canonicalJson (JNum x) = stringify (JNum x)"
| "canonicalJson (JStr s) = stringify (JStr s)"
| "canonicalJson (JArr vs) = 91 # join_with [44] (map canonicalJson vs) @ [93]"
| "canonicalJson (JObj ms) =
     123 # join_with [44] (map (\<lambda>m. stringify (JStr (fst m)) @ 58 # canonicalJson (snd m)) (sort_key fst ms)) @ [125]"

definition sha256Hex :: "platform \<Rightarrow> jstr \<Rightarrow> jstr" where
  "sha256Hex P value = sha256 P (utf8_encode value)"

definition stringValue :: "json option \<Rightarrow> nat \<Rightarrow> jstr option" where
  "stringValue v maximum =
     (case as_string v of
        Some s \<Rightarrow> if 1 \<le> length (trim s) \<and> length s \<le> maximum then Some (trim s) else None
      | None \<Rightarrow> None)"

definition base64_char :: "nat \<Rightarrow> bool" where
  "base64_char c \<longleftrightarrow> is_alnum c \<or> c = 43 \<or> c = 47"

definition isBase64 :: "jstr \<Rightarrow> bool" where
  "isBase64 v \<longleftrightarrow>
     0 < length v \<and> length v mod 4 = 0 \<and>
     (let digits = takeWhile base64_char v; rest = dropWhile base64_char v
      in digits \<noteq> [] \<and> (rest = [] \<or> rest = [61] \<or> rest = [61, 61]))"

text \<open>\<open>Buffer.from(v, "base64")\<close> on texts that \<open>isBase64\<close> accepts.\<close>

definition base64_value :: "nat \<Rightarrow> nat" where
  "base64_value c =
     (if is_upper c then c - 65 else if is_lower c then c - 71 else if is_digit c then c + 4 else if c = 43 then 62 else 63)"

fun base64_bytes :: "jstr \<Rightarrow> nat list" where
  "base64_bytes (a # b # c # d # s) =
     (let n = base64_value a * 262144 + base64_value b * 4096 +
              (if c = 61 then 0 else base64_value c * 64) + (if d = 61 then 0 else base64_value d)
      in (if c = 61 then [n div 65536]
          else if d = 61 then [n div 65536, n div 256 mod 256]
          else [n div 65536, n div 256 mod 256, n mod 256]) @ base64_bytes s)"
| "base64_bytes _ = []"

definition validateFederationTokenEnv :: "json option \<Rightarrow> jstr option" where
  "validateFederationTokenEnv v =
     (case as_string v of
        Some s \<Rightarrow> if s \<noteq> [] \<and> ENV_NAME_PATTERN s then Some s else None
      | None \<Rightarrow> None)"

definition isPrivateIpLiteral :: "platform \<Rightarrow> jstr \<Rightarrow> bool" where
  "isPrivateIpLiteral P hostname =
     (let normalized = to_lower (strip_brackets hostname); version = isIP P normalized
      in if version = 4 then
           (case split_on 46 normalized of
              a # b # _ \<Rightarrow>
                (let first = read_nat a; second = read_nat b
                 in first = 0 \<or> first = 10 \<or> first = 127 \<or> first = 169 \<and> second = 254 \<or>
                    first = 172 \<and> 16 \<le> second \<and> second \<le> 31 \<or> first = 192 \<and> second = 168 \<or>
                    first = 100 \<and> 64 \<le> second \<and> second \<le> 127 \<or> 224 \<le> first)
            | _ \<Rightarrow> False)
         else if version = 6 then
           normalized = js ''::'' \<or> normalized = js ''::1'' \<or> take 2 normalized = js ''fc'' \<or> take 2 normalized = js ''fd'' \<or>
           (take 2 normalized = js ''fe'' \<and> 3 \<le> length normalized \<and> normalized ! 2 \<in> {56, 57, 97, 98})
         else False)"

definition normalizeFederationEndpoint :: "federation_host \<Rightarrow> jstr \<Rightarrow> jstr option \<Rightarrow> jstr option" where
  "normalizeFederationEndpoint H v environment =
     (case url_parse (fh_platform H) v of
        None \<Rightarrow> None
      | Some url \<Rightarrow>
          (let isLoopback = (url_hostname url \<in> {js ''localhost'', js ''127.0.0.1'', js ''[::1]''})
           in if url_protocol url \<noteq> js ''https:'' \<and>
                 \<not> (environment \<noteq> Some (js ''production'') \<and> url_protocol url = js ''http:'' \<and> isLoopback) then None
              else if url_username url \<noteq> [] \<or> url_password url \<noteq> [] \<or> url_hash url \<noteq> [] \<or> url_search url \<noteq> [] then None
              else if environment = Some (js ''production'') \<and> isPrivateIpLiteral (fh_platform H) (url_hostname url) then None
              else Some (fh_href H url)))"

section \<open>Manifests\<close>

definition scopes_ok :: "json option \<Rightarrow> bool" where
  "scopes_ok v =
     (case v of
        None \<Rightarrow> True
      | Some (JArr items) \<Rightarrow>
          length items \<le> 32 \<and> list_all (\<lambda>i. case i of JStr s \<Rightarrow> 1 \<le> length s \<and> length s \<le> 128 | _ \<Rightarrow> False) items
      | _ \<Rightarrow> False)"

definition tools_ok :: "json option \<Rightarrow> bool" where
  "tools_ok v =
     (case v of
        None \<Rightarrow> True
      | Some (JArr items) \<Rightarrow>
          length items \<le> 64 \<and> list_all (\<lambda>i. case i of JStr s \<Rightarrow> SERVER_KEY_PATTERN s | _ \<Rightarrow> False) items
      | _ \<Rightarrow> False)"

definition agent_error :: "json option \<Rightarrow> federation_error option" where
  "agent_error v =
     (case v of
        None \<Rightarrow> None
      | Some (JObj agent) \<Rightarrow>
          if member agent ''protocol'' \<noteq> None \<and> member agent ''protocol'' \<noteq> Some (JStr (js ''matchplane.agent/v1''))
          then Some ManifestAgentProtocol
          else if \<not> tools_ok (member agent ''mcpTools'') then Some ManifestTools
          else None
      | _ \<Rightarrow> Some ManifestAgent)"

definition validateManifest :: "(jstr \<times> json) list \<Rightarrow> jstr \<Rightarrow> federation_error option" where
  "validateManifest manifest slug =
     (if length (canonicalJson (JObj manifest)) > 64 * 1024 then Some ManifestTooLarge
      else if member manifest ''apiVersion'' \<noteq> Some (JStr (js ''matchplane.subplatform/v1'')) \<or>
              member manifest ''rootApiVersion'' \<noteq> Some (JStr (js ''v1'')) then Some ManifestApiVersion
      else case stringValue (member manifest ''id'') 128 of
        None \<Rightarrow> Some ManifestId
      | Some i \<Rightarrow>
          if \<not> manifest_id_pattern i then Some ManifestId
          else (case stringValue (member manifest ''slug'') 63 of
             None \<Rightarrow> Some ManifestSlug
           | Some manifestSlug \<Rightarrow>
               if manifestSlug \<noteq> slug \<or> \<not> SLUG_PATTERN manifestSlug then Some ManifestSlug
               else if \<not> scopes_ok (member manifest ''requiredScopes'') then Some ManifestScopes
               else agent_error (member manifest ''agent'')))"

section \<open>Verification\<close>

text \<open>The object that is signed, of the fields of an enrollment.\<close>

definition signed_object :: "jstr \<Rightarrow> jstr \<Rightarrow> (jstr \<times> json) list \<Rightarrow> jstr \<Rightarrow> jstr \<Rightarrow> jstr \<Rightarrow> json" where
  "signed_object displayName endpoint manifest mcpServerKey nodeId slug = JObj
     [(js ''displayName'', JStr displayName), (js ''endpoint'', JStr endpoint), (js ''manifest'', JObj manifest),
      (js ''mcpServerKey'', JStr mcpServerKey), (js ''nodeId'', JStr nodeId), (js ''protocol'', JStr FEDERATION_PROTOCOL),
      (js ''slug'', JStr slug)]"

definition signature_error :: "federation_host \<Rightarrow> jstr \<Rightarrow> jstr \<Rightarrow> json \<Rightarrow> federation_error option" where
  "signature_error H publicKey signature signed =
     (let keyBytes = base64_bytes publicKey; signatureBytes = base64_bytes signature
      in if length keyBytes < 32 \<or> length keyBytes > 4096 \<or> length signatureBytes \<noteq> 64 then Some KeyOrSignatureLength
         else case fh_verify H keyBytes (utf8_encode (canonicalJson signed)) signatureBytes of
           None \<Rightarrow> Some InvalidKey
         | Some False \<Rightarrow> Some InvalidSignature
         | Some True \<Rightarrow> None)"

definition required :: "'a option \<Rightarrow> ('a \<Rightarrow> bool) \<Rightarrow> federation_error \<Rightarrow> federation_error + 'a" where
  "required v ok e = (case v of Some x \<Rightarrow> if ok x then Inr x else Inl e | None \<Rightarrow> Inl e)"

definition verifyFederationEnrollment ::
    "federation_host \<Rightarrow> jstr option \<Rightarrow> json \<Rightarrow> federation_error + VerifiedFederationEnrollment" where
  "verifyFederationEnrollment H environment value =
     rbind (required (as_record (Some value)) (\<lambda>_. True) NotAnObject) (\<lambda>ms.
     if member ms ''protocol'' \<noteq> Some (JStr FEDERATION_PROTOCOL) then Inl UnsupportedProtocol
     else rbind (required (stringValue (member ms ''nodeId'') 64) (\<lambda>s. isUuid (Some (JStr s))) NodeIdNotUuid) (\<lambda>nodeId.
     rbind (required (stringValue (member ms ''slug'') 63) SLUG_PATTERN InvalidSlug) (\<lambda>slug.
     rbind (required (stringValue (member ms ''displayName'') 200) (\<lambda>_. True) MissingDisplayName) (\<lambda>displayName.
     rbind (required (stringValue (member ms ''endpoint'') 2048) (\<lambda>_. True) UnsafeEndpoint) (\<lambda>endpoint.
     rbind (required (stringValue (member ms ''mcpServerKey'') 128) SERVER_KEY_PATTERN InvalidServerKey) (\<lambda>mcpServerKey.
     rbind (required (stringValue (member ms ''publicKey'') 8192) isBase64 NotBase64) (\<lambda>publicKey.
     rbind (required (stringValue (member ms ''signature'') 8192) isBase64 NotBase64) (\<lambda>signature.
     rbind (required (normalizeFederationEndpoint H endpoint environment) (\<lambda>s. s \<noteq> []) UnsafeEndpoint) (\<lambda>normalizedEndpoint.
     rbind (required (as_record (member ms ''manifest'')) (\<lambda>_. True) ManifestNotObject) (\<lambda>manifest.
     case validateManifest manifest slug of
       Some e \<Rightarrow> Inl e
     | None \<Rightarrow>
         (case signature_error H publicKey signature (signed_object displayName normalizedEndpoint manifest mcpServerKey nodeId slug) of
            Some e \<Rightarrow> Inl e
          | None \<Rightarrow>
              Inr \<lparr> fe_nodeId = nodeId, fe_slug = slug, fe_displayName = displayName, fe_endpoint = normalizedEndpoint,
                    fe_mcpServerKey = mcpServerKey, fe_publicKey = publicKey, fe_signature = signature, fe_manifest = manifest,
                    fe_manifestDigest = sha256Hex (fh_platform H) (canonicalJson (JObj manifest)) \<rparr>)))))))))))"

section \<open>The canonical text\<close>

lemma canonical_sorted: "canonicalJson v = stringify (sort_keys v)"
proof (induction v rule: canonicalJson.induct)
  case (5 vs)
  then show ?case by (simp add: str_elems_join comp_def cong: map_cong)
next
  case (6 ms)
  then show ?case
    by (auto simp: str_members_join comp_def intro!: arg_cong [where f = "join_with [44]"])
qed simp_all

declare canonicalJson.simps(6) [simp del]

lemma canonical_bytes_inj:
  assumes "wf_json v" and "wf_json w" and "utf8_encode (canonicalJson v) = utf8_encode (canonicalJson w)"
  shows "sort_keys v = sort_keys w"
proof -
  have "stringify (sort_keys v) = stringify (sort_keys w)"
    using assms(3) utf8_lossy_encode [OF stringify_wf16(1) [OF sort_keys_wf [OF assms(1)]]]
      utf8_lossy_encode [OF stringify_wf16(1) [OF sort_keys_wf [OF assms(2)]]]
    unfolding canonical_sorted by metis
  then show ?thesis
    using json_parse_stringify [OF sort_keys_wf [OF assms(1)]] json_parse_stringify [OF sort_keys_wf [OF assms(2)]]
    by (metis option.inject)
qed

section \<open>What an accepted enrollment satisfies\<close>

definition signed_part :: "VerifiedFederationEnrollment \<Rightarrow> json" where
  "signed_part e = signed_object (fe_displayName e) (fe_endpoint e) (fe_manifest e) (fe_mcpServerKey e) (fe_nodeId e) (fe_slug e)"

lemma signed_sorted:
  "sort_keys (signed_object d u m k i s) =
     JObj [(js ''displayName'', JStr d), (js ''endpoint'', JStr u), (js ''manifest'', sort_keys (JObj m)),
       (js ''mcpServerKey'', JStr k), (js ''nodeId'', JStr i), (js ''protocol'', JStr FEDERATION_PROTOCOL), (js ''slug'', JStr s)]"
  by (simp add: signed_object_def js_def del: sort_keys.simps(2)) (simp add: sort_keys.simps(2))

lemma signed_wf:
  "wf_json (signed_object d u m k i s) \<longleftrightarrow>
     wf_str d \<and> wf_str u \<and> wf_json (JObj m) \<and> wf_str k \<and> wf_str i \<and> wf_str s"
  by (auto simp: signed_object_def wf_json_Obj [of "_ # _"] wf_str_def FEDERATION_PROTOCOL_def js_simps)

lemma required_Inr [simp]: "required v ok e = Inr x \<longleftrightarrow> v = Some x \<and> ok x"
  by (auto simp: required_def split: option.splits)

lemma stringValue_Some:
  "stringValue v n = Some s \<Longrightarrow> s \<noteq> [] \<and> length s \<le> n \<and> trim s = s \<and> (\<exists>t. v = Some (JStr t) \<and> s = trim t)"
  using length_trim by (auto simp: stringValue_def as_simps split: option.splits if_splits intro: order_trans)

lemma member_wf: "wf_json (JObj ms) \<Longrightarrow> member ms k = Some v \<Longrightarrow> wf_json v"
  by (auto simp: member_def wf_json_Obj list_all_iff dest!: map_of_SomeD)

lemma stringValue_wf: "stringValue (member ms k) n = Some s \<Longrightarrow> wf_json (JObj ms) \<Longrightarrow> wf_str s"
proof -
  assume *: "stringValue (member ms k) n = Some s" "wf_json (JObj ms)"
  then obtain t where t: "member ms k = Some (JStr t)" "s = trim t" using stringValue_Some by blast
  with *(2) member_wf have "wf_json (JStr t)" by blast
  with t(2) set_trim [of t] show "wf_str s" by (auto simp: wf_str_def list_all_iff)
qed

definition endpoint_ok :: "federation_host \<Rightarrow> jstr option \<Rightarrow> jstr \<Rightarrow> bool" where
  "endpoint_ok H environment endpoint \<longleftrightarrow>
     (\<exists>url. endpoint = fh_href H url \<and> url_username url = [] \<and> url_password url = [] \<and> url_hash url = [] \<and> url_search url = [] \<and>
        (url_protocol url = js ''https:'' \<or>
         environment \<noteq> Some (js ''production'') \<and> url_protocol url = js ''http:'' \<and>
         url_hostname url \<in> {js ''localhost'', js ''127.0.0.1'', js ''[::1]''}) \<and>
        (environment = Some (js ''production'') \<longrightarrow> \<not> isPrivateIpLiteral (fh_platform H) (url_hostname url)))"

lemma endpoint_accepted: "normalizeFederationEndpoint H v environment = Some u \<Longrightarrow> endpoint_ok H environment u"
  by (auto simp: normalizeFederationEndpoint_def endpoint_ok_def Let_def split: option.splits if_splits)

lemma manifest_accepted:
  assumes "validateManifest manifest slug = None"
  shows "length (canonicalJson (JObj manifest)) \<le> 65536" "member manifest ''apiVersion'' = Some (JStr (js ''matchplane.subplatform/v1''))"
    "stringValue (member manifest ''slug'') 63 = Some slug"
  using assms by (auto simp: validateManifest_def split: option.splits if_splits)

lemma signature_accepted:
  "signature_error H k s v = None \<Longrightarrow>
     fh_verify H (base64_bytes k) (utf8_encode (canonicalJson v)) (base64_bytes s) = Some True \<and> length (base64_bytes s) = 64"
  by (auto simp: signature_error_def Let_def split: option.splits if_splits bool.splits)

lemma enrollment_fields:
  assumes "verifyFederationEnrollment H environment value = Inr e" and "wf_json value" and "\<And>u. wf_str (fh_href H u)"
  shows "isUuid (Some (JStr (fe_nodeId e)))" "SLUG_PATTERN (fe_slug e)" "SERVER_KEY_PATTERN (fe_mcpServerKey e)"
    "endpoint_ok H environment (fe_endpoint e)" "validateManifest (fe_manifest e) (fe_slug e) = None"
    "fh_verify H (base64_bytes (fe_publicKey e)) (utf8_encode (canonicalJson (signed_part e))) (base64_bytes (fe_signature e)) = Some True"
    "fe_manifestDigest e = sha256Hex (fh_platform H) (canonicalJson (JObj (fe_manifest e)))" "wf_json (signed_part e)"
    "length (base64_bytes (fe_signature e)) = 64"
proof -
  from assms(1) obtain ms endpoint where v: "value = JObj ms"
    and i: "stringValue (member ms ''nodeId'') 64 = Some (fe_nodeId e)" "isUuid (Some (JStr (fe_nodeId e)))"
    and s: "stringValue (member ms ''slug'') 63 = Some (fe_slug e)" "SLUG_PATTERN (fe_slug e)"
    and d: "stringValue (member ms ''displayName'') 200 = Some (fe_displayName e)"
    and k: "stringValue (member ms ''mcpServerKey'') 128 = Some (fe_mcpServerKey e)" "SERVER_KEY_PATTERN (fe_mcpServerKey e)"
    and u: "normalizeFederationEndpoint H endpoint environment = Some (fe_endpoint e)"
    and m: "member ms ''manifest'' = Some (JObj (fe_manifest e))" "validateManifest (fe_manifest e) (fe_slug e) = None"
    and g: "signature_error H (fe_publicKey e) (fe_signature e) (signed_part e) = None"
    and h: "fe_manifestDigest e = sha256Hex (fh_platform H) (canonicalJson (JObj (fe_manifest e)))"
    unfolding verifyFederationEnrollment_def signed_part_def
    by (auto simp: rbind_Inr as_simps split: if_splits option.splits)
  from i s k m h show "isUuid (Some (JStr (fe_nodeId e)))" "SLUG_PATTERN (fe_slug e)" "SERVER_KEY_PATTERN (fe_mcpServerKey e)"
    "validateManifest (fe_manifest e) (fe_slug e) = None"
    "fe_manifestDigest e = sha256Hex (fh_platform H) (canonicalJson (JObj (fe_manifest e)))" by simp_all
  from u show "endpoint_ok H environment (fe_endpoint e)" by (rule endpoint_accepted)
  then have "wf_str (fe_endpoint e)" using assms(3) by (auto simp: endpoint_ok_def)
  with assms(2) v m(1) show "wf_json (signed_part e)"
    using stringValue_wf [OF d] stringValue_wf [OF i(1)] stringValue_wf [OF s(1)] stringValue_wf [OF k(1)] member_wf
    by (auto simp: signed_part_def signed_wf)
  from g show "fh_verify H (base64_bytes (fe_publicKey e)) (utf8_encode (canonicalJson (signed_part e))) (base64_bytes (fe_signature e)) =
      Some True" "length (base64_bytes (fe_signature e)) = 64" using signature_accepted by blast+
qed

section \<open>Claims\<close>


definition example_url :: url where
  "example_url = \<lparr> url_protocol = js ''https:'', url_username = [], url_password = [], url_hash = [],
     url_search = [], url_pathname = js ''/'', url_hostname = js ''node.example'', url_origin = js ''https://node.example'' \<rparr>"

definition example_manifest :: "(jstr \<times> json) list" where
  "example_manifest = [(js ''apiVersion'', JStr (js ''matchplane.subplatform/v1'')), (js ''rootApiVersion'', JStr (js ''v1'')),
     (js ''id'', JStr (js ''tea'')), (js ''slug'', JStr (js ''tea''))]"

definition example_enrollment :: VerifiedFederationEnrollment where
  "example_enrollment = \<lparr> fe_nodeId = js ''11111111-1111-1111-8111-111111111111'', fe_slug = js ''tea'', fe_displayName = js ''Tea'',
     fe_endpoint = js ''https://node.example/'', fe_mcpServerKey = js ''tea.mcp'', fe_publicKey = replicate 44 65,
     fe_signature = replicate 86 65 @ [61, 61], fe_manifest = example_manifest, fe_manifestDigest = js ''0'' \<rparr>"

definition example_federation :: federation_host where
  "example_federation = \<lparr>
     fh_platform = \<lparr> url_parse = (\<lambda>_. Some example_url), isIP = (\<lambda>_. 0), ip_process = (\<lambda>_. None), sha256 = (\<lambda>_. js ''0'') \<rparr>,
     fh_href = (\<lambda>_. js ''https://node.example/''),
     fh_verify = (\<lambda>_ m _. Some (m = utf8_encode (canonicalJson (signed_part example_enrollment)))) \<rparr>"

definition example_request :: json where
  "example_request = JObj
     [(js ''protocol'', JStr FEDERATION_PROTOCOL), (js ''nodeId'', JStr (fe_nodeId example_enrollment)), (js ''slug'', JStr (js ''tea'')),
      (js ''displayName'', JStr (js '' Tea'')), (js ''endpoint'', JStr (js ''https://node.example'')),
      (js ''mcpServerKey'', JStr (js ''tea.mcp'')), (js ''publicKey'', JStr (fe_publicKey example_enrollment)),
      (js ''signature'', JStr (fe_signature example_enrollment)), (js ''manifest'', JObj example_manifest)]"

lemma base64_zeros: "base64_bytes (replicate (4 * n) 65 @ s) = replicate (3 * n) 0 @ base64_bytes s"
proof (induction n)
  case (Suc n)
  have e: "replicate 4 x = [x, x, x, x]" "replicate 3 y = [y, y, y]" for x y :: nat by (simp_all add: numeral_eq_Suc)
  have "replicate (4 * Suc n) (65 :: nat) = replicate 4 65 @ replicate (4 * n) 65"
    "replicate (3 * Suc n) (0 :: nat) = replicate 3 0 @ replicate (3 * n) 0"
    by (simp_all only: mult_Suc_right replicate_add)
  with Suc show ?case by (simp add: e base64_value_def is_upper_def del: mult_Suc_right)
qed simp

lemma example_base64:
  "isBase64 (replicate 44 65)" "isBase64 (replicate 86 65 @ [61, 61])" "length (base64_bytes (replicate 44 65)) = 33"
  "length (base64_bytes (replicate 86 65 @ [61, 61])) = 64"
proof -
  have e: "replicate 86 (65 :: nat) @ [61, 61] = replicate (4 * 21) 65 @ [65, 65, 61, 61]"
    by (simp add: replicate_add [of 84 2, simplified] numeral_2_eq_2)
  have c: "base64_char 65" "\<not> base64_char 61"
    by (simp_all add: base64_char_def is_alnum_def is_upper_def is_lower_def is_digit_def)
  then have "takeWhile base64_char (replicate 86 65 @ [61, 61]) = replicate 86 65"
    "dropWhile base64_char (replicate 86 65 @ [61, 61]) = [61, 61]"
    by (subst takeWhile_append2; simp) (subst dropWhile_append2; simp add: c)
  with c show "isBase64 (replicate 44 65)" "isBase64 (replicate 86 65 @ [61, 61])"
    by (simp_all add: isBase64_def Let_def)
  show "length (base64_bytes (replicate 44 65)) = 33" using base64_zeros [of 11 "[]"] by simp
  show "length (base64_bytes (replicate 86 65 @ [61, 61])) = 64"
    unfolding e base64_zeros by simp
qed

lemma example_texts:
  "stringValue (Some (JStr (replicate 44 65))) 8192 = Some (replicate 44 65)"
  "stringValue (Some (JStr (replicate 86 65 @ [61, 61]))) 8192 = Some (replicate 86 65 @ [61, 61])"
  "stringValue (Some (JStr (js ''11111111-1111-1111-8111-111111111111''))) 64 = Some (js ''11111111-1111-1111-8111-111111111111'')"
  "stringValue (Some (JStr (js ''tea''))) n = (if 3 \<le> n then Some (js ''tea'') else None)"
  "stringValue (Some (JStr (js '' Tea''))) 200 = Some (js ''Tea'')" "stringValue (Some (JStr (js ''tea.mcp''))) 128 = Some (js ''tea.mcp'')"
  "stringValue (Some (JStr (js ''https://node.example''))) 2048 = Some (js ''https://node.example'')"
proof -
  have t: "trim (replicate 44 65) = replicate 44 65" "trim (replicate 86 65 @ [61, 61]) = replicate 86 65 @ [61, 61]"
    by (rule trim_id, simp add: is_space_def hd_append)+
  show "stringValue (Some (JStr (replicate 44 65))) 8192 = Some (replicate 44 65)"
    "stringValue (Some (JStr (replicate 86 65 @ [61, 61]))) 8192 = Some (replicate 86 65 @ [61, 61])"
    by (simp_all add: stringValue_def t)
qed (simp_all add: stringValue_def trim_def is_space_def js_simps)

lemma example_patterns:
  "SLUG_PATTERN (js ''tea'')" "SERVER_KEY_PATTERN (js ''tea.mcp'')" "manifest_id_pattern (js ''tea'')"
  by (simp_all add: SLUG_PATTERN_def SERVER_KEY_PATTERN_def TOOL_NAME_PATTERN_def manifest_id_pattern_def is_lower_def is_digit_def js_simps)

lemma example_size: "length (canonicalJson (JObj example_manifest)) \<le> 65536"
  by (simp add: canonicalJson.simps(6) example_manifest_def js_simps quote_def quote_unit_def is_high_def is_low_def)

lemma example_members:
  "member example_manifest ''apiVersion'' = Some (JStr (js ''matchplane.subplatform/v1''))"
  "member example_manifest ''rootApiVersion'' = Some (JStr (js ''v1''))" "member example_manifest ''id'' = Some (JStr (js ''tea''))"
  "member example_manifest ''slug'' = Some (JStr (js ''tea''))" "member example_manifest ''requiredScopes'' = None"
  "member example_manifest ''agent'' = None"
  by (simp_all add: example_manifest_def member_def js_simps)

lemma example_manifest_valid: "validateManifest example_manifest (js ''tea'') = None"
  using example_size by (simp add: validateManifest_def example_members example_texts example_patterns scopes_ok_def agent_error_def)

lemma example_federation_wf: "wf_json example_request" "wf_json (signed_part example_enrollment)"
  by (simp_all add: example_request_def example_enrollment_def example_manifest_def signed_part_def signed_wf wf_json_Obj wf_str_def
      FEDERATION_PROTOCOL_def js_simps list_all_iff)

lemma example_accepted: "verifyFederationEnrollment example_federation None example_request = Inr example_enrollment"
proof -
  have u: "normalizeFederationEndpoint example_federation t None = Some (js ''https://node.example/'')" for t
    by (simp add: normalizeFederationEndpoint_def example_federation_def example_url_def)
  have uuid: "isUuid (Some (JStr (js ''11111111-1111-1111-8111-111111111111'')))" by code_simp
  have g: "signature_error example_federation (replicate 44 65) (replicate 86 65 @ [61, 61]) (signed_part example_enrollment) = None"
    by (simp add: signature_error_def example_base64 example_federation_def)
  show ?thesis
    using g u uuid
    by (simp add: verifyFederationEnrollment_def example_request_def example_enrollment_def member_def required_def
        example_texts example_patterns example_base64 example_manifest_valid signed_part_def sha256Hex_def example_federation_def)
qed


text \<open>
  A node that is reached over an IPv4-mapped IPv6 address of the loopback interface is accepted in
  production: the prefixes tested are those of unmapped addresses.
\<close>

theorem mapped_loopback_accepted:
  assumes "isIP P (js ''::ffff:7f00:1'') = 6"
  shows "\<not> isPrivateIpLiteral P (js ''[::ffff:7f00:1]'')"
  using assms by (simp add: isPrivateIpLiteral_def strip_brackets_def to_lower_def lower1_def js_simps Let_def)

end
