(* ===== verification/Ai_Admission.thy ===== *)
theory Ai_Admission
  imports Js_Text
begin

text \<open>
  Admission of hosted model calls, after \<open>web/src/platform-ai-admission.ts\<close>. The calls run
  concurrently, each on a connection of its own: a step executes one statement of one call. A
  transaction sees the committed rows and its own changes; its advisory locks are held until it ends.
  The time of a statement passes while it runs, and \<open>clock_timestamp()\<close> may be read at a different
  instant for every row. Times are microseconds. A statement that violates a constraint fails.
\<close>

section \<open>State\<close>

record admission =
  ad_id :: jstr
  ad_subject :: jstr
  ad_requestId :: jstr
  ad_platformPath :: jstr
  ad_created :: int

record admission_input =
  ai_subject :: jstr
  ai_requestId :: jstr
  ai_platformPath :: jstr
  ai_perSubjectLimit :: int
  ai_globalLimit :: int

text \<open>Where a call stands: the statement it sends next, or how it ended.\<close>

datatype position =
    Connect | Begin | LockGlobal | LockSubject | Prune | CountGlobal | CountSubject | Insert | Commit
  | RollbackRefused | RollbackFailed | Returned bool | Threw

record admission_call =
  ac_input :: admission_input
  ac_at :: position
  ac_deleted :: "admission list"
  ac_inserted :: "admission list"

text \<open>
  \<open>sy_log\<close> is the history of committed insertions with the number of the call, for specification
  only: no step reads it.
\<close>

record admission_system =
  sy_rows :: "admission list"
  sy_locks :: "int \<rightharpoonup> nat"
  sy_clock :: int
  sy_calls :: "nat \<rightharpoonup> admission_call"
  sy_log :: "(nat \<times> admission) list"

text \<open>\<open>LostReply\<close>: the statement took effect and the connection broke before its answer.\<close>

datatype statement_outcome = Succeeds | Fails | LostReply

record run_course =
  rn_outcome :: statement_outcome
  rn_uuid :: jstr
  rn_duration :: nat
  rn_read :: "admission \<Rightarrow> nat"
  rn_inserted :: nat

datatype admission_event = Passes nat | Arrives nat admission_input | Runs nat run_course

definition hour :: int where
  "hour = 3600000000"

definition global_lock_name :: jstr where
  "global_lock_name = js ''matchplane:platform-ai:global''"

section \<open>Statements\<close>

definition visible_rows :: "admission_system \<Rightarrow> admission_call \<Rightarrow> admission list" where
  "visible_rows s c = filter (\<lambda>a. a \<notin> set (ac_deleted c)) (sy_rows s) @ ac_inserted c"

definition instant :: "admission_system \<Rightarrow> run_course \<Rightarrow> admission \<Rightarrow> int" where
  "instant s r a = sy_clock s + int (min (rn_read r a) (rn_duration r))"

definition recent :: "admission_system \<Rightarrow> run_course \<Rightarrow> admission \<Rightarrow> bool" where
  "recent s r a \<longleftrightarrow> instant s r a - hour \<le> ad_created a"

definition expired :: "admission_system \<Rightarrow> run_course \<Rightarrow> admission \<Rightarrow> bool" where
  "expired s r a \<longleftrightarrow> ad_created a < instant s r a - 2 * hour"

definition set_call :: "nat \<Rightarrow> admission_call \<Rightarrow> admission_system \<Rightarrow> admission_system" where
  "set_call i c s = s\<lparr> sy_calls := (sy_calls s)(i \<mapsto> c) \<rparr>"

definition release_locks :: "nat \<Rightarrow> admission_system \<Rightarrow> admission_system" where
  "release_locks i s = s\<lparr> sy_locks := (\<lambda>k. if sy_locks s k = Some i then None else sy_locks s k) \<rparr>"

definition take_lock :: "int \<Rightarrow> nat \<Rightarrow> admission_call \<Rightarrow> position \<Rightarrow> admission_system \<Rightarrow> admission_system option" where
  "take_lock k i c p s =
     (if sy_locks s k = None \<or> sy_locks s k = Some i
      then Some (set_call i (c\<lparr> ac_at := p \<rparr>) s\<lparr> sy_locks := (sy_locks s)(k \<mapsto> i) \<rparr>)
      else None)"

definition commit_admission :: "nat \<Rightarrow> admission_call \<Rightarrow> position \<Rightarrow> admission_system \<Rightarrow> admission_system" where
  "commit_admission i c p s =
     set_call i (c\<lparr> ac_at := p, ac_deleted := [], ac_inserted := [] \<rparr>) (release_locks i
       s\<lparr> sy_rows := visible_rows s c, sy_log := sy_log s @ map (Pair i) (ac_inserted c) \<rparr>)"

definition rollback_admission :: "nat \<Rightarrow> admission_call \<Rightarrow> position \<Rightarrow> admission_system \<Rightarrow> admission_system" where
  "rollback_admission i c p s = set_call i (c\<lparr> ac_at := p, ac_deleted := [], ac_inserted := [] \<rparr>) (release_locks i s)"

definition new_row :: "admission_system \<Rightarrow> admission_call \<Rightarrow> run_course \<Rightarrow> admission" where
  "new_row s c r = \<lparr> ad_id = rn_uuid r, ad_subject = ai_subject (ac_input c), ad_requestId = ai_requestId (ac_input c),
     ad_platformPath = ai_platformPath (ac_input c), ad_created = sy_clock s + int (min (rn_inserted r) (rn_duration r)) \<rparr>"

text \<open>The statement of a call that succeeds; \<open>None\<close> when it waits for a lock or the call has ended.\<close>

definition statement_succeeds :: "(jstr \<Rightarrow> int) \<Rightarrow> nat \<Rightarrow> admission_call \<Rightarrow> run_course \<Rightarrow> admission_system \<Rightarrow> admission_system option" where
  "statement_succeeds hashtext i c r s =
     (case ac_at c of
        Connect \<Rightarrow> Some (set_call i (c\<lparr> ac_at := Begin \<rparr>) s)
      | Begin \<Rightarrow> Some (set_call i (c\<lparr> ac_at := LockGlobal \<rparr>) s)
      | LockGlobal \<Rightarrow> take_lock (hashtext global_lock_name) i c LockSubject s
      | LockSubject \<Rightarrow> take_lock (hashtext (ai_subject (ac_input c))) i c Prune s
      | Prune \<Rightarrow> Some (set_call i (c\<lparr> ac_at := CountGlobal, ac_deleted := filter (expired s r) (visible_rows s c) \<rparr>) s)
      | CountGlobal \<Rightarrow>
          Some (set_call i (c\<lparr> ac_at := (if int (length (filter (recent s r) (visible_rows s c))) \<ge> ai_globalLimit (ac_input c)
                                       then RollbackRefused else CountSubject) \<rparr>) s)
      | CountSubject \<Rightarrow>
          Some (set_call i (c\<lparr> ac_at := (if int (length (filter (\<lambda>a. ad_subject a = ai_subject (ac_input c) \<and> recent s r a) (visible_rows s c)))
                                            \<ge> ai_perSubjectLimit (ac_input c)
                                       then RollbackRefused else Insert) \<rparr>) s)
      | Insert \<Rightarrow> Some (set_call i (c\<lparr> ac_at := Commit, ac_inserted := ac_inserted c @ [new_row s c r] \<rparr>) s)
      | Commit \<Rightarrow> Some (commit_admission i c (Returned True) s)
      | RollbackRefused \<Rightarrow> Some (rollback_admission i c (Returned False) s)
      | RollbackFailed \<Rightarrow> Some (rollback_admission i c Threw s)
      | Returned _ \<Rightarrow> None
      | Threw \<Rightarrow> None)"

text \<open>
  A statement that fails is caught, and the transaction is rolled back. The failure of that last
  rollback is ignored; the server then drops the transaction with its connection.
\<close>

definition statement_fails :: "(jstr \<Rightarrow> int) \<Rightarrow> nat \<Rightarrow> admission_call \<Rightarrow> bool \<Rightarrow> admission_system \<Rightarrow> admission_system option" where
  "statement_fails hashtext i c applied s =
     (case ac_at c of
        Connect \<Rightarrow> Some (set_call i (c\<lparr> ac_at := Threw \<rparr>) s)
      | LockGlobal \<Rightarrow>
          if applied then take_lock (hashtext global_lock_name) i c RollbackFailed s
          else Some (set_call i (c\<lparr> ac_at := RollbackFailed \<rparr>) s)
      | LockSubject \<Rightarrow>
          if applied then take_lock (hashtext (ai_subject (ac_input c))) i c RollbackFailed s
          else Some (set_call i (c\<lparr> ac_at := RollbackFailed \<rparr>) s)
      | Commit \<Rightarrow> Some (if applied then commit_admission i c RollbackFailed s else set_call i (c\<lparr> ac_at := RollbackFailed \<rparr>) s)
      | RollbackFailed \<Rightarrow> Some (rollback_admission i c Threw s)
      | Returned _ \<Rightarrow> None
      | Threw \<Rightarrow> None
      | _ \<Rightarrow> Some (set_call i (c\<lparr> ac_at := RollbackFailed \<rparr>) s))"

definition pass_time :: "nat \<Rightarrow> admission_system \<Rightarrow> admission_system" where
  "pass_time d s = s\<lparr> sy_clock := sy_clock s + int d \<rparr>"

definition admitPlatformAiCall :: "admission_input \<Rightarrow> admission_call" where
  "admitPlatformAiCall input = \<lparr> ac_input = input, ac_at = Connect, ac_deleted = [], ac_inserted = [] \<rparr>"

definition admission_step :: "(jstr \<Rightarrow> int) \<Rightarrow> admission_event \<Rightarrow> admission_system \<Rightarrow> admission_system option" where
  "admission_step hashtext e s =
     (case e of
        Passes d \<Rightarrow> Some (pass_time d s)
      | Arrives i input \<Rightarrow> (if sy_calls s i = None then Some (set_call i (admitPlatformAiCall input) s) else None)
      | Runs i r \<Rightarrow>
          (case sy_calls s i of
             None \<Rightarrow> None
           | Some c \<Rightarrow>
               map_option (pass_time (rn_duration r))
                 (case rn_outcome r of
                    Succeeds \<Rightarrow> statement_succeeds hashtext i c r s
                  | Fails \<Rightarrow> statement_fails hashtext i c False s
                  | LostReply \<Rightarrow> statement_fails hashtext i c True s)))"

inductive admission_reachable :: "(jstr \<Rightarrow> int) \<Rightarrow> admission_system \<Rightarrow> bool" for hashtext where
  admission_reachable_empty: "admission_reachable hashtext \<lparr> sy_rows = [], sy_locks = Map.empty, sy_clock = now, sy_calls = Map.empty, sy_log = [] \<rparr>"
| admission_reachable_step: "admission_reachable hashtext s \<Longrightarrow> admission_step hashtext e s = Some s' \<Longrightarrow> admission_reachable hashtext s'"

section \<open>The invariant\<close>

text \<open>Fewer than \<open>n\<close> entries of a kind in the hour before \<open>T\<close>, and at most \<open>n\<close> in any hour.\<close>

definition room :: "(admission \<Rightarrow> bool) \<Rightarrow> int \<Rightarrow> int \<Rightarrow> (nat \<times> admission) list \<Rightarrow> bool" where
  "room P T n entries \<longleftrightarrow> int (length (filter (\<lambda>e. P (snd e) \<and> T - hour \<le> ad_created (snd e)) entries)) < n"

definition within_quota :: "(admission \<Rightarrow> bool) \<Rightarrow> int \<Rightarrow> (nat \<times> admission) list \<Rightarrow> bool" where
  "within_quota P n entries \<longleftrightarrow>
     (\<forall>w. int (length (filter (\<lambda>e. P (snd e) \<and> w \<le> ad_created (snd e) \<and> ad_created (snd e) \<le> w + hour) entries)) \<le> n)"

definition critical :: "position \<Rightarrow> bool" where
  "critical p \<longleftrightarrow> p \<in> {LockSubject, Prune, CountGlobal, CountSubject, Insert, Commit, RollbackRefused}"

definition of_subject :: "admission_input \<Rightarrow> admission \<Rightarrow> bool" where
  "of_subject input a \<longleftrightarrow> ad_subject a = ai_subject input"

definition room_for :: "admission_input \<Rightarrow> int \<Rightarrow> (nat \<times> admission) list \<Rightarrow> bool" where
  "room_for input T entries \<longleftrightarrow> room (\<lambda>_. True) T (ai_globalLimit input) entries \<and> room (of_subject input) T (ai_perSubjectLimit input) entries"

definition entered :: "admission_input \<Rightarrow> admission \<Rightarrow> bool" where
  "entered input a \<longleftrightarrow> of_subject input a \<and> ad_requestId a = ai_requestId input \<and> ad_platformPath a = ai_platformPath input"

definition call_ok :: "(jstr \<Rightarrow> int) \<Rightarrow> admission_system \<Rightarrow> nat \<Rightarrow> admission_call \<Rightarrow> bool" where
  "call_ok hashtext s i c \<longleftrightarrow>
     (critical (ac_at c) \<longrightarrow> sy_locks s (hashtext global_lock_name) = Some i) \<and>
     (\<forall>a \<in> set (ac_deleted c). ad_created a < sy_clock s - 2 * hour) \<and>
     (ac_at c \<noteq> Commit \<and> ac_at c \<noteq> RollbackFailed \<longrightarrow> ac_inserted c = []) \<and>
     (ac_at c = CountSubject \<longrightarrow> room (\<lambda>_. True) (sy_clock s) (ai_globalLimit (ac_input c)) (sy_log s)) \<and>
     (ac_at c = Insert \<longrightarrow> room_for (ac_input c) (sy_clock s) (sy_log s)) \<and>
     (ac_at c = Commit \<longrightarrow> (\<exists>a. ac_inserted c = [a] \<and> entered (ac_input c) a \<and> room_for (ac_input c) (ad_created a) (sy_log s))) \<and>
     (ac_at c \<notin> {RollbackFailed, Threw, Returned True} \<longrightarrow> (\<forall>a. (i, a) \<notin> set (sy_log s))) \<and>
     (ac_at c = Returned True \<longrightarrow> (\<exists>a. (i, a) \<in> set (sy_log s) \<and> entered (ac_input c) a))"

definition inputs :: "admission_system \<Rightarrow> admission_input set" where
  "inputs s = ac_input ` ran (sy_calls s)"

definition quotas_kept :: "admission_system \<Rightarrow> bool" where
  "quotas_kept s \<longleftrightarrow>
     (\<forall>n \<ge> 0. (\<forall>input \<in> inputs s. ai_globalLimit input \<le> n) \<longrightarrow> within_quota (\<lambda>_. True) n (sy_log s)) \<and>
     (\<forall>u. \<forall>n \<ge> 0. (\<forall>input \<in> inputs s. ai_subject input = u \<longrightarrow> ai_perSubjectLimit input \<le> n) \<longrightarrow>
        within_quota (\<lambda>a. ad_subject a = u) n (sy_log s))"

definition system_ok :: "(jstr \<Rightarrow> int) \<Rightarrow> admission_system \<Rightarrow> bool" where
  "system_ok hashtext s \<longleftrightarrow>
     (\<forall>i c. sy_calls s i = Some c \<longrightarrow> call_ok hashtext s i c) \<and>
     (\<forall>k i. sy_locks s k = Some i \<longrightarrow> (\<exists>c. sy_calls s i = Some c \<and> (critical (ac_at c) \<or> ac_at c = RollbackFailed))) \<and>
     filter (\<lambda>a. sy_clock s - 2 * hour \<le> ad_created a) (map snd (sy_log s)) =
       filter (\<lambda>a. sy_clock s - 2 * hour \<le> ad_created a) (sy_rows s) \<and>
     distinct (map fst (sy_log s)) \<and> fst ` set (sy_log s) \<subseteq> dom (sy_calls s) \<and> finite (dom (sy_calls s)) \<and> quotas_kept s"

lemma critical_simps [simp]:
  "critical LockSubject" "critical Prune" "critical CountGlobal" "critical CountSubject" "critical Insert" "critical Commit"
  "critical RollbackRefused" "\<not> critical Connect" "\<not> critical Begin" "\<not> critical LockGlobal" "\<not> critical RollbackFailed"
  "\<not> critical (Returned b)" "\<not> critical Threw"
  by (simp_all add: critical_def)

lemma room_mono: "room P T n entries \<Longrightarrow> T \<le> T' \<Longrightarrow> room P T' n entries"
proof -
  assume *: "room P T n entries" "T \<le> T'"
  have "length (filter (\<lambda>e. P (snd e) \<and> T' - hour \<le> ad_created (snd e)) entries) \<le>
      length (filter (\<lambda>e. P (snd e) \<and> T - hour \<le> ad_created (snd e)) entries)"
    using *(2) by (induction entries) auto
  with *(1) show ?thesis by (simp add: room_def)
qed

lemma within_quota_append:
  assumes "within_quota P n entries" and "P a \<Longrightarrow> room P (ad_created a) m entries" and "P a \<Longrightarrow> m \<le> n"
  shows "within_quota P n (entries @ [(i, a)])"
  unfolding within_quota_def
proof
  fix w
  let ?f = "\<lambda>e. P (snd e) \<and> w \<le> ad_created (snd e) \<and> ad_created (snd e) \<le> w + hour"
  show "int (length (filter ?f (entries @ [(i, a)]))) \<le> n"
  proof (cases "?f (i, a)")
    case True
    have "length (filter ?f entries) \<le> length (filter (\<lambda>e. P (snd e) \<and> ad_created a - hour \<le> ad_created (snd e)) entries)"
      using True by (induction entries) auto
    with True assms(2,3) show ?thesis by (simp add: room_def)
  next
    case False
    then have "filter ?f (entries @ [(i, a)]) = filter ?f entries" by simp
    with assms(1) show ?thesis by (simp add: within_quota_def)
  qed
qed

lemma filter_stronger:
  assumes "filter P xs = filter P ys" and "\<And>x. Q x \<Longrightarrow> P x"
  shows "filter Q xs = filter Q ys"
proof -
  have "filter Q zs = filter Q (filter P zs)" for zs using assms(2) by (induction zs) auto
  then show ?thesis using assms(1) by metis
qed

lemma room_for_mono: "room_for input T entries \<Longrightarrow> T \<le> T' \<Longrightarrow> room_for input T' entries"
  unfolding room_for_def using room_mono by blast

lemma call_ok_later:
  assumes "call_ok h s i c" and "sy_clock s \<le> sy_clock s'" and "sy_log s' = sy_log s"
    and "sy_locks s (h global_lock_name) = Some i \<Longrightarrow> sy_locks s' (h global_lock_name) = Some i"
  shows "call_ok h s' i c"
proof -
  have "ad_created a < sy_clock s' - 2 * hour" if "ad_created a < sy_clock s - 2 * hour" for a using that assms(2) by simp
  then show ?thesis
    using assms room_mono [OF _ assms(2)] room_for_mono [OF _ assms(2)] unfolding call_ok_def by auto
qed

lemma pass_ok:
  assumes "system_ok h s"
  shows "system_ok h (pass_time d s)"
proof -
  have "call_ok h (pass_time d s) i c" if "sy_calls s i = Some c" for i c
    by (rule call_ok_later [of h s]) (use assms that in \<open>auto simp: system_ok_def pass_time_def\<close>)
  moreover have "filter (\<lambda>a. sy_clock s + int d - 2 * hour \<le> ad_created a) (map snd (sy_log s)) =
      filter (\<lambda>a. sy_clock s + int d - 2 * hour \<le> ad_created a) (sy_rows s)"
    by (rule filter_stronger [where P = "\<lambda>a. sy_clock s - 2 * hour \<le> ad_created a"])
      (use assms in \<open>auto simp: system_ok_def\<close>)
  ultimately show ?thesis using assms by (simp add: system_ok_def pass_time_def quotas_kept_def inputs_def)
qed

lemma inputs_update:
  assumes "\<And>c. sy_calls s i = Some c \<Longrightarrow> ac_input c' = ac_input c" and "sy_calls s' = (sy_calls s)(i \<mapsto> c')"
  shows "inputs s \<subseteq> inputs s'"
proof
  fix input assume "input \<in> inputs s"
  then obtain j c where "sy_calls s j = Some c" "input = ac_input c" by (auto simp: inputs_def ran_def)
  with assms have "sy_calls s' j = Some (if j = i then c' else c)" "input = ac_input (if j = i then c' else c)" by auto
  then show "input \<in> inputs s'" unfolding inputs_def by (metis ranI image_eqI)
qed

text \<open>A step of one call that commits nothing.\<close>

lemma call_update_ok:
  assumes ok: "system_ok h s" and new: "call_ok h s' i c'"
    and same: "sy_rows s' = sy_rows s" "sy_log s' = sy_log s" "sy_clock s' = sy_clock s" "sy_calls s' = (sy_calls s)(i \<mapsto> c')"
    and input: "\<And>c. sy_calls s i = Some c \<Longrightarrow> ac_input c' = ac_input c"
    and others: "\<And>k j. j \<noteq> i \<Longrightarrow> sy_locks s' k = Some j \<longleftrightarrow> sy_locks s k = Some j"
    and own: "\<And>k. sy_locks s' k = Some i \<Longrightarrow> critical (ac_at c') \<or> ac_at c' = RollbackFailed"
  shows "system_ok h s'"
proof -
  have "call_ok h s' j c" if "sy_calls s' j = Some c" for j c
  proof (cases "j = i")
    case False
    with that same ok have "call_ok h s j c" by (auto simp: system_ok_def)
    then show ?thesis by (rule call_ok_later) (use same others [OF False] in auto)
  qed (use that same new in auto)
  moreover have "\<exists>c. sy_calls s' j = Some c \<and> (critical (ac_at c) \<or> ac_at c = RollbackFailed)" if "sy_locks s' k = Some j" for k j
    using that own others [of j k] ok same(4) by (cases "j = i") (auto simp: system_ok_def)
  moreover have "quotas_kept s'"
  proof -
    have "inputs s \<subseteq> inputs s'" using input same(4) by (rule inputs_update)
    with ok show ?thesis unfolding system_ok_def quotas_kept_def same(2) by (meson subset_iff)
  qed
  ultimately show ?thesis
    using ok same unfolding system_ok_def by auto
qed

section \<open>Every statement keeps the invariant\<close>

lemma ok_call: "system_ok h s \<Longrightarrow> sy_calls s i = Some c \<Longrightarrow> call_ok h s i c"
  by (simp add: system_ok_def)

lemma ok_lock: "system_ok h s \<Longrightarrow> sy_locks s k = Some i \<Longrightarrow> sy_calls s i = Some c \<Longrightarrow> critical (ac_at c) \<or> ac_at c = RollbackFailed"
  unfolding system_ok_def by (metis option.inject)

lemma ok_rows:
  "system_ok h s \<Longrightarrow> filter (\<lambda>a. sy_clock s - 2 * hour \<le> ad_created a) (map snd (sy_log s)) =
     filter (\<lambda>a. sy_clock s - 2 * hour \<le> ad_created a) (sy_rows s)"
  by (simp add: system_ok_def)

lemma ok_quota:
  assumes "system_ok h s" and "0 \<le> n"
  shows "\<forall>input \<in> inputs s. ai_globalLimit input \<le> n \<Longrightarrow> within_quota (\<lambda>_. True) n (sy_log s)"
    "\<forall>input \<in> inputs s. ai_subject input = u \<longrightarrow> ai_perSubjectLimit input \<le> n \<Longrightarrow> within_quota (\<lambda>a. ad_subject a = u) n (sy_log s)"
  using assms by (simp_all add: system_ok_def quotas_kept_def)

lemma length_filter_mono: "(\<And>x. P x \<Longrightarrow> Q x) \<Longrightarrow> length (filter P xs) \<le> length (filter Q xs)"
  by (induction xs) auto

lemma count_room:
  assumes "system_ok h s" and "sy_calls s i = Some c" and "ac_inserted c = []"
    and "int (length (filter (\<lambda>a. P a \<and> recent s r a) (visible_rows s c))) < n"
  shows "room P (sy_clock s + int (rn_duration r)) n (sy_log s)"
proof -
  let ?T = "sy_clock s + int (rn_duration r)" and ?Q = "\<lambda>a. P a \<and> sy_clock s + int (rn_duration r) - hour \<le> ad_created a"
  have old: "ad_created a < sy_clock s - 2 * hour" if "a \<in> set (ac_deleted c)" for a
    using ok_call [OF assms(1,2)] that by (simp add: call_ok_def)
  have "map snd (filter (\<lambda>e. P (snd e) \<and> ?T - hour \<le> ad_created (snd e)) (sy_log s)) = filter ?Q (map snd (sy_log s))"
    by (simp add: filter_map comp_def)
  also have "\<dots> = filter ?Q (sy_rows s)"
    by (rule filter_stronger [where P = "\<lambda>a. sy_clock s - 2 * hour \<le> ad_created a"])
      (use ok_rows [OF assms(1)] in \<open>simp_all add: hour_def\<close>)
  also have "\<dots> = filter ?Q (visible_rows s c)"
    using assms(3) by (auto simp: visible_rows_def hour_def intro!: filter_cong dest!: old)
  finally have "length (map snd (filter (\<lambda>e. P (snd e) \<and> ?T - hour \<le> ad_created (snd e)) (sy_log s))) =
      length (filter ?Q (visible_rows s c))" by (rule arg_cong)
  then have "length (filter (\<lambda>e. P (snd e) \<and> ?T - hour \<le> ad_created (snd e)) (sy_log s)) = length (filter ?Q (visible_rows s c))"
    unfolding length_map .
  also have "\<dots> \<le> length (filter (\<lambda>a. P a \<and> recent s r a) (visible_rows s c))"
    by (rule length_filter_mono) (auto simp: recent_def instant_def min_def)
  finally show ?thesis using assms(4) by (simp add: room_def)
qed

lemma commit_ok:
  assumes ok: "system_ok h s" and c: "sy_calls s i = Some c" "ac_at c = Commit" and p: "p = Returned True \<or> p = RollbackFailed"
  shows "system_ok h (commit_admission i c p s)"
proof -
  let ?s = "commit_admission i c p s" and ?c = "c\<lparr> ac_at := p, ac_deleted := [], ac_inserted := [] \<rparr>"
  have ci: "call_ok h s i c" using ok c by (auto simp: system_ok_def)
  then obtain a where a: "ac_inserted c = [a]" "entered (ac_input c) a" "room_for (ac_input c) (ad_created a) (sy_log s)"
    and mine: "sy_locks s (h global_lock_name) = Some i" "\<forall>a. (i, a) \<notin> set (sy_log s)"
    and old: "\<And>x. x \<in> set (ac_deleted c) \<Longrightarrow> ad_created x < sy_clock s - 2 * hour"
    using c(2) by (auto simp: call_ok_def critical_def)
  have s: "sy_calls ?s = (sy_calls s)(i \<mapsto> ?c)" "sy_log ?s = sy_log s @ [(i, a)]" "sy_rows ?s = visible_rows s c" "sy_clock ?s = sy_clock s"
    "sy_locks ?s = (\<lambda>k. if sy_locks s k = Some i then None else sy_locks s k)"
    using a(1) by (simp_all add: commit_admission_def set_call_def release_locks_def)
  have "call_ok h ?s j d" if "sy_calls ?s j = Some d" for j d
  proof (cases "j = i")
    case True
    with that s p a(2) show ?thesis by (auto simp: call_ok_def critical_def)
  next
    case False
    with that s(1) ok have j: "call_ok h s j d" by (auto simp: system_ok_def)
    with mine(1) False have "\<not> critical (ac_at d)" by (auto simp: call_ok_def)
    with j False show ?thesis unfolding call_ok_def s by (auto simp: critical_def)
  qed
  moreover have "\<exists>d. sy_calls ?s j = Some d \<and> (critical (ac_at d) \<or> ac_at d = RollbackFailed)" if "sy_locks ?s k = Some j" for k j
    using that ok by (auto simp: s system_ok_def split: if_splits)
  moreover have "filter (\<lambda>a. sy_clock ?s - 2 * hour \<le> ad_created a) (map snd (sy_log ?s)) =
      filter (\<lambda>a. sy_clock ?s - 2 * hour \<le> ad_created a) (sy_rows ?s)"
  proof -
    have "filter (\<lambda>a. sy_clock s - 2 * hour \<le> ad_created a) (filter (\<lambda>a. a \<notin> set (ac_deleted c)) (sy_rows s)) =
        filter (\<lambda>a. sy_clock s - 2 * hour \<le> ad_created a) (sy_rows s)"
      by (auto intro!: filter_cong dest!: old)
    with ok a(1) show ?thesis by (simp add: s visible_rows_def system_ok_def)
  qed
  moreover have "quotas_kept ?s"
  proof -
    have sub: "inputs s \<subseteq> inputs ?s" by (rule inputs_update [where i = i and c' = ?c]) (use c(1) s(1) in auto)
    have in': "ac_input c \<in> inputs ?s" using s(1) unfolding inputs_def by (intro image_eqI [of _ _ ?c]) (auto intro: ranI [of _ i])
    have r: "room (\<lambda>_. True) (ad_created a) (ai_globalLimit (ac_input c)) (sy_log s)"
      "room (\<lambda>x. ad_subject x = ai_subject (ac_input c)) (ad_created a) (ai_perSubjectLimit (ac_input c)) (sy_log s)"
      "ad_subject a = ai_subject (ac_input c)"
      using a(2,3) by (simp_all add: room_for_def entered_def of_subject_def [abs_def])
    have "within_quota (\<lambda>_. True) n (sy_log ?s)" if n: "0 \<le> n" "\<forall>input \<in> inputs ?s. ai_globalLimit input \<le> n" for n
    proof -
      have "within_quota (\<lambda>_. True) n (sy_log s)" using ok_quota(1) [OF ok n(1)] n(2) sub by blast
      with n in' r(1) show ?thesis unfolding s(2) by (auto intro: within_quota_append)
    qed
    moreover have "within_quota (\<lambda>a. ad_subject a = u) n (sy_log ?s)"
      if n: "0 \<le> n" "\<forall>input \<in> inputs ?s. ai_subject input = u \<longrightarrow> ai_perSubjectLimit input \<le> n" for n u
    proof -
      have "within_quota (\<lambda>a. ad_subject a = u) n (sy_log s)" using ok_quota(2) [OF ok n(1), of u] n(2) sub by blast
      with n in' r(2,3) show ?thesis unfolding s(2)
        by (intro within_quota_append [where m = "ai_perSubjectLimit (ac_input c)"]) auto
    qed
    ultimately show ?thesis unfolding quotas_kept_def by blast
  qed
  moreover have "distinct (map fst (sy_log ?s))" "fst ` set (sy_log ?s) \<subseteq> dom (sy_calls ?s)" "finite (dom (sy_calls ?s))"
    using ok mine(2) by (auto simp: s system_ok_def)
  ultimately show ?thesis unfolding system_ok_def by blast
qed

lemma call_okD:
  assumes "call_ok h s i c"
  shows "critical (ac_at c) \<Longrightarrow> sy_locks s (h global_lock_name) = Some i" "\<forall>a \<in> set (ac_deleted c). ad_created a < sy_clock s - 2 * hour"
    "ac_at c \<noteq> Commit \<Longrightarrow> ac_at c \<noteq> RollbackFailed \<Longrightarrow> ac_inserted c = []"
    "ac_at c \<noteq> RollbackFailed \<Longrightarrow> ac_at c \<noteq> Threw \<Longrightarrow> ac_at c \<noteq> Returned True \<Longrightarrow> \<forall>a. (i, a) \<notin> set (sy_log s)"
  using assms by (simp_all add: call_ok_def)

lemma set_call_simps [simp]:
  "sy_rows (set_call i c s) = sy_rows s" "sy_log (set_call i c s) = sy_log s" "sy_clock (set_call i c s) = sy_clock s"
  "sy_locks (set_call i c s) = sy_locks s" "sy_calls (set_call i c s) = (sy_calls s)(i \<mapsto> c)"
  by (simp_all add: set_call_def)

lemma pass_simps [simp]:
  "sy_rows (pass_time d s) = sy_rows s" "sy_log (pass_time d s) = sy_log s" "sy_clock (pass_time d s) = sy_clock s + int d"
  "sy_locks (pass_time d s) = sy_locks s" "sy_calls (pass_time d s) = sy_calls s"
  "pass_time d (set_call i c s) = set_call i c (pass_time d s)"
  by (simp_all add: pass_time_def set_call_def)

text \<open>A call that moves on inside its transaction.\<close>

lemma move_ok:
  assumes "system_ok h s" and "sy_calls s i = Some c" and "call_ok h s i c'" and "ac_input c' = ac_input c"
    and "critical (ac_at c) \<or> ac_at c = RollbackFailed \<Longrightarrow> critical (ac_at c') \<or> ac_at c' = RollbackFailed"
  shows "system_ok h (set_call i c' s)"
proof (rule call_update_ok [OF assms(1), where i = i and c' = c'])
  show "call_ok h (set_call i c' s) i c'" by (rule call_ok_later [OF assms(3)]) auto
  show "critical (ac_at c') \<or> ac_at c' = RollbackFailed" if "sy_locks (set_call i c' s) k = Some i" for k
    using that ok_lock [OF assms(1) _ assms(2)] assms(5) by simp
qed (use assms in auto)

lemma take_lock_ok:
  assumes "system_ok h s" and "sy_calls s i = Some c" and "take_lock k i c p s = Some s'"
    and "critical p \<and> (k = h global_lock_name \<or> critical (ac_at c)) \<or> p = RollbackFailed"
    and "p \<in> {LockSubject, Prune, RollbackFailed}" and "ac_at c \<in> {LockGlobal, LockSubject}"
  shows "system_ok h s'"
proof (rule call_update_ok [OF assms(1), where i = i and c' = "c\<lparr> ac_at := p \<rparr>"])
  from assms(3) have s': "s' = set_call i (c\<lparr> ac_at := p \<rparr>) s\<lparr> sy_locks := (sy_locks s)(k \<mapsto> i) \<rparr>"
    and free: "sy_locks s k = None \<or> sy_locks s k = Some i" by (auto simp: take_lock_def split: if_splits)
  note c = ok_call [OF assms(1,2)]
  note d = call_okD(2) [OF c]
  have e: "ac_inserted c = []" "\<forall>a. (i, a) \<notin> set (sy_log s)" using call_okD(3,4) [OF c] assms(6) by auto
  have "critical p \<longrightarrow> sy_locks s' (h global_lock_name) = Some i"
    using assms(4) call_okD(1) [OF c] by (auto simp: s')
  with d e assms(5) show "call_ok h s' i (c\<lparr> ac_at := p \<rparr>)"
    by (elim insertE emptyE) (simp_all add: call_ok_def s')
  show "sy_locks s' k' = Some j \<longleftrightarrow> sy_locks s k' = Some j" if "j \<noteq> i" for k' j using that free by (auto simp: s')
  show "critical (ac_at (c\<lparr> ac_at := p \<rparr>)) \<or> ac_at (c\<lparr> ac_at := p \<rparr>) = RollbackFailed" using assms(4) by auto
qed (use assms(2,3) in \<open>auto simp: take_lock_def split: if_splits\<close>)

lemma rollback_ok:
  assumes "system_ok h s" and "sy_calls s i = Some c"
    and "p = Threw \<or> p = Returned False \<and> ac_at c = RollbackRefused"
  shows "system_ok h (rollback_admission i c p s)"
proof (rule call_update_ok [OF assms(1), where i = i and c' = "c\<lparr> ac_at := p, ac_deleted := [], ac_inserted := [] \<rparr>"])
  have "ac_at c = RollbackRefused \<Longrightarrow> \<forall>a. (i, a) \<notin> set (sy_log s)" using ok_call [OF assms(1,2)] by (simp add: call_ok_def)
  with assms(3) show "call_ok h (rollback_admission i c p s) i (c\<lparr> ac_at := p, ac_deleted := [], ac_inserted := [] \<rparr>)"
    by (elim disjE conjE) (simp_all add: call_ok_def rollback_admission_def release_locks_def)
qed (use assms(2) in \<open>simp_all add: rollback_admission_def release_locks_def split: if_splits\<close>)

lemma prune_ok:
  assumes "system_ok h s" and "sy_calls s i = Some c" and "ac_at c = Prune"
  shows "system_ok h (set_call i (c\<lparr> ac_at := CountGlobal, ac_deleted := filter (expired s r) (visible_rows s c) \<rparr>)
    (pass_time (rn_duration r) s))"
proof (rule move_ok [OF pass_ok [OF assms(1)]])
  have "call_ok h (pass_time (rn_duration r) s) i c" by (rule ok_call [OF pass_ok [OF assms(1)]]) (simp add: assms(2))
  then show "call_ok h (pass_time (rn_duration r) s) i
      (c\<lparr> ac_at := CountGlobal, ac_deleted := filter (expired s r) (visible_rows s c) \<rparr>)"
    using assms(3) by (auto simp: call_ok_def expired_def instant_def min_def split: if_splits)
qed (use assms in simp_all)

lemma count_ok:
  assumes "system_ok h s" and "sy_calls s i = Some c" and "critical (ac_at c)" and "ac_at c \<noteq> Commit"
    and "p = RollbackRefused \<or>
      p = CountSubject \<and> int (length (filter (recent s r) (visible_rows s c))) < ai_globalLimit (ac_input c) \<or>
      p = Insert \<and> ac_at c = CountSubject \<and>
        int (length (filter (\<lambda>a. ad_subject a = ai_subject (ac_input c) \<and> recent s r a) (visible_rows s c))) <
          ai_perSubjectLimit (ac_input c)"
  shows "system_ok h (set_call i (c\<lparr> ac_at := p \<rparr>) (pass_time (rn_duration r) s))"
proof (rule move_ok [OF pass_ok [OF assms(1)]])
  have c: "call_ok h (pass_time (rn_duration r) s) i c" by (rule ok_call [OF pass_ok [OF assms(1)]]) (simp add: assms(2))
  then have e: "ac_inserted c = []" "\<forall>a. (i, a) \<notin> set (sy_log s)" using assms(3,4) by (auto simp: call_ok_def)
  note rooms = count_room [OF assms(1,2) e(1), where P = "\<lambda>_. True"] count_room [OF assms(1,2) e(1), where P = "of_subject (ac_input c)"]
  show "call_ok h (pass_time (rn_duration r) s) i (c\<lparr> ac_at := p \<rparr>)"
    using assms(5)
  proof (elim disjE conjE)
    assume "p = RollbackRefused"
    with c assms(3,4) e show ?thesis by (simp add: call_ok_def)
  next
    assume "p = CountSubject" "int (length (filter (recent s r) (visible_rows s c))) < ai_globalLimit (ac_input c)"
    with c assms(3,4) e rooms(1) [of r] show ?thesis by (simp add: call_ok_def)
  next
    assume p: "p = Insert" "ac_at c = CountSubject"
      "int (length (filter (\<lambda>a. ad_subject a = ai_subject (ac_input c) \<and> recent s r a) (visible_rows s c))) <
          ai_perSubjectLimit (ac_input c)"
    with c e rooms(2) [of r] show ?thesis by (simp add: call_ok_def room_for_def of_subject_def)
  qed
qed (use assms in auto)

lemma insert_ok:
  assumes "system_ok h s" and "sy_calls s i = Some c" and "ac_at c = Insert"
  shows "system_ok h (set_call i (c\<lparr> ac_at := Commit, ac_inserted := ac_inserted c @ [new_row s c r] \<rparr>) s)"
proof (rule move_ok [OF assms(1,2)])
  have c: "call_ok h s i c" by (rule ok_call [OF assms(1,2)])
  have "entered (ac_input c) (new_row s c r)" by (simp add: entered_def of_subject_def new_row_def)
  moreover have "room_for (ac_input c) (ad_created (new_row s c r)) (sy_log s)"
    by (rule room_for_mono [where T = "sy_clock s"]) (use c assms(3) in \<open>auto simp: call_ok_def new_row_def\<close>)
  ultimately show "call_ok h s i (c\<lparr> ac_at := Commit, ac_inserted := ac_inserted c @ [new_row s c r] \<rparr>)"
    using c assms(3) by (auto simp: call_ok_def)
qed (use assms in simp_all)

lemma fails_ok:
  assumes "system_ok h s" and "sy_calls s i = Some c" and "statement_fails h i c applied s = Some s'"
  shows "system_ok h s'"
proof -
  have d: "\<forall>a \<in> set (ac_deleted c). ad_created a < sy_clock s - 2 * hour" using ok_call [OF assms(1,2)] by (simp add: call_ok_def)
  then have "call_ok h s i (c\<lparr> ac_at := RollbackFailed \<rparr>)" by (simp add: call_ok_def)
  then have caught: "system_ok h (set_call i (c\<lparr> ac_at := RollbackFailed \<rparr>) s)"
    by (rule move_ok [OF assms(1,2)]) simp_all
  have thrown: "system_ok h (set_call i (c\<lparr> ac_at := Threw \<rparr>) s)" if "ac_at c = Connect"
  proof (rule move_ok [OF assms(1,2)])
    have "ac_inserted c = []" using ok_call [OF assms(1,2)] that by (simp add: call_ok_def)
    with d show "call_ok h s i (c\<lparr> ac_at := Threw \<rparr>)" by (simp add: call_ok_def)
  qed (use that in auto)
  show ?thesis
    using assms(3) caught thrown commit_ok [OF assms(1,2), of RollbackFailed] rollback_ok [OF assms(1,2), of Threw]
      take_lock_ok [OF assms(1,2), where p = RollbackFailed]
    by (auto simp: statement_fails_def split: position.splits if_splits)
qed

lemma succeeds_ok:
  assumes "system_ok h s" and "sy_calls s i = Some c" and "statement_succeeds h i c r s = Some s'"
  shows "system_ok h (pass_time (rn_duration r) s')"
proof -
  have next': "system_ok h (set_call i (c\<lparr> ac_at := p \<rparr>) s)"
    if "ac_at c \<in> {Connect, Begin}" "p \<in> {Begin, LockGlobal}" for p
  proof (rule move_ok [OF assms(1,2)])
    have "ac_inserted c = []" "\<forall>a. (i, a) \<notin> set (sy_log s)" using call_okD(3,4) [OF ok_call [OF assms(1,2)]] that by auto
    with that call_okD(2) [OF ok_call [OF assms(1,2)]] show "call_ok h s i (c\<lparr> ac_at := p \<rparr>)" by (auto simp: call_ok_def)
  qed (use that in auto)
  show ?thesis
  proof (cases "ac_at c")
    case Connect with assms(3) next' pass_ok show ?thesis by (auto simp: statement_succeeds_def simp del: pass_simps(6))
  next
    case Begin with assms(3) next' pass_ok show ?thesis by (auto simp: statement_succeeds_def simp del: pass_simps(6))
  next
    case LockGlobal
    with assms(3) pass_ok [OF take_lock_ok [OF assms(1,2)]] show ?thesis by (simp add: statement_succeeds_def)
  next
    case LockSubject
    with assms(3) pass_ok [OF take_lock_ok [OF assms(1,2)]] show ?thesis by (simp add: statement_succeeds_def)
  next
    case Prune with assms(3) prune_ok [OF assms(1,2)] show ?thesis by (auto simp: statement_succeeds_def)
  next
    case CountGlobal with assms(3) count_ok [OF assms(1,2)] show ?thesis by (auto simp: statement_succeeds_def not_le)
  next
    case CountSubject with assms(3) count_ok [OF assms(1,2)] show ?thesis by (auto simp: statement_succeeds_def not_le)
  next
    case Insert with assms(3) pass_ok [OF insert_ok [OF assms(1,2)]] show ?thesis
      by (auto simp: statement_succeeds_def simp del: pass_simps(6))
  next
    case Commit with assms(3) pass_ok [OF commit_ok [OF assms(1,2), of "Returned True"]] show ?thesis
      by (auto simp: statement_succeeds_def)
  next
    case RollbackRefused with assms(3) pass_ok [OF rollback_ok [OF assms(1,2), of "Returned False"]] show ?thesis
      by (auto simp: statement_succeeds_def)
  next
    case RollbackFailed with assms(3) pass_ok [OF rollback_ok [OF assms(1,2), of Threw]] show ?thesis
      by (auto simp: statement_succeeds_def)
  qed (use assms(3) in \<open>simp_all add: statement_succeeds_def\<close>)
qed

lemma arrives_ok:
  assumes "system_ok h s" and "sy_calls s i = None"
  shows "system_ok h (set_call i (admitPlatformAiCall input) s)"
proof (rule call_update_ok [OF assms(1), where i = i and c' = "admitPlatformAiCall input"])
  have "\<forall>a. (i, a) \<notin> set (sy_log s)" using assms by (auto simp: system_ok_def)
  then show "call_ok h (set_call i (admitPlatformAiCall input) s) i (admitPlatformAiCall input)"
    by (simp add: call_ok_def admitPlatformAiCall_def)
  show "critical (ac_at (admitPlatformAiCall input)) \<or> ac_at (admitPlatformAiCall input) = RollbackFailed"
    if "sy_locks (set_call i (admitPlatformAiCall input) s) k = Some i" for k
    using that assms unfolding system_ok_def by force
qed (use assms in auto)

lemma admission_invariant: "admission_reachable h s \<Longrightarrow> system_ok h s"
proof (induction rule: admission_reachable.induct)
  case (admission_reachable_empty now)
  then show ?case by (simp add: system_ok_def quotas_kept_def within_quota_def)
next
  case (admission_reachable_step s e s')
  then show ?case
    using pass_ok arrives_ok fails_ok succeeds_ok
    by (auto simp: admission_step_def split: admission_event.splits option.splits statement_outcome.splits if_splits)
qed

section \<open>Progress\<close>

fun rank :: "position \<Rightarrow> nat" where
  "rank Connect = 11"
| "rank Begin = 10"
| "rank LockGlobal = 9"
| "rank LockSubject = 8"
| "rank Prune = 7"
| "rank CountGlobal = 6"
| "rank CountSubject = 5"
| "rank Insert = 4"
| "rank Commit = 3"
| "rank RollbackRefused = 2"
| "rank RollbackFailed = 1"
| "rank (Returned _) = 0"
| "rank Threw = 0"

definition remaining :: "admission_system \<Rightarrow> nat" where
  "remaining s = (\<Sum>i \<in> dom (sy_calls s). rank (ac_at (the (sy_calls s i))))"

definition unfinished :: "admission_system \<Rightarrow> nat \<Rightarrow> bool" where
  "unfinished s i \<longleftrightarrow> (\<exists>c. sy_calls s i = Some c \<and> rank (ac_at c) > 0)"

lemma run_lowers_rank:
  assumes "admission_step h (Runs i r) s = Some s'"
  obtains c c' where "sy_calls s i = Some c" "sy_calls s' = (sy_calls s)(i \<mapsto> c')" "rank (ac_at c') < rank (ac_at c)"
proof -
  from assms obtain c where c: "sy_calls s i = Some c" by (auto simp: admission_step_def split: option.splits)
  with assms have "\<exists>c'. sy_calls s' = (sy_calls s)(i \<mapsto> c') \<and> rank (ac_at c') < rank (ac_at c)"
    by (cases "ac_at c")
      (auto simp: admission_step_def statement_succeeds_def statement_fails_def take_lock_def commit_admission_def rollback_admission_def
        release_locks_def split: statement_outcome.splits if_splits)
  with c that show thesis by blast
qed

lemma run_decreases:
  assumes "admission_step h (Runs i r) s = Some s'" and "finite (dom (sy_calls s))"
  shows "remaining s' < remaining s"
proof -
  from run_lowers_rank [OF assms(1)] obtain c c' where c: "sy_calls s i = Some c" "sy_calls s' = (sy_calls s)(i \<mapsto> c')"
    "rank (ac_at c') < rank (ac_at c)" .
  then have d: "dom (sy_calls s') = dom (sy_calls s)" "i \<in> dom (sy_calls s)" by auto
  show ?thesis unfolding remaining_def d(1)
    by (rule sum_strict_mono_ex1 [OF assms(2)]) (use c d(2) in \<open>auto intro!: bexI [of _ i]\<close>)
qed

lemma can_run:
  assumes "sy_calls s i = Some c" and "rank (ac_at c) > 0" and "rn_outcome r = Succeeds"
    and "ac_at c = LockGlobal \<Longrightarrow> sy_locks s (h global_lock_name) = None \<or> sy_locks s (h global_lock_name) = Some i"
    and "ac_at c = LockSubject \<Longrightarrow> sy_locks s (h (ai_subject (ac_input c))) = None \<or> sy_locks s (h (ai_subject (ac_input c))) = Some i"
  shows "\<exists>s'. admission_step h (Runs i r) s = Some s'"
  using assms by (cases "ac_at c") (auto simp: admission_step_def statement_succeeds_def take_lock_def)

lemma some_call_can_run:
  assumes ok: "system_ok h s" and i: "unfinished s i"
  shows "\<exists>j. unfinished s j \<and> (\<forall>r. rn_outcome r = Succeeds \<longrightarrow> (\<exists>s'. admission_step h (Runs j r) s = Some s'))"
proof (cases "\<exists>j. \<exists>d. sy_calls s j = Some d \<and> (ac_at d = RollbackFailed \<or> critical (ac_at d) \<and> ac_at d \<noteq> LockSubject)")
  case True
  then obtain j d where j: "sy_calls s j = Some d" "ac_at d = RollbackFailed \<or> critical (ac_at d) \<and> ac_at d \<noteq> LockSubject" by blast
  then have "rank (ac_at d) > 0" "ac_at d \<noteq> LockGlobal" "ac_at d \<noteq> LockSubject" by (auto simp: critical_def)
  with j(1) show ?thesis using can_run [OF j(1)] by (metis unfinished_def)
next
  case False
  have holder: "\<exists>d. sy_calls s j = Some d \<and> ac_at d = LockSubject \<and> sy_locks s (h global_lock_name) = Some j"
    if "sy_locks s k = Some j" for k j
  proof -
    from ok that obtain d where d: "sy_calls s j = Some d" "critical (ac_at d) \<or> ac_at d = RollbackFailed"
      unfolding system_ok_def by metis
    with False have "ac_at d = LockSubject" by blast
    with call_okD(1) [OF ok_call [OF ok d(1)]] d(1) show ?thesis by simp
  qed
  show ?thesis
  proof (cases "sy_locks s (h global_lock_name)")
    case None
    with holder have free: "sy_locks s k = None" for k by (cases "sy_locks s k") auto
    from i obtain c where c: "sy_calls s i = Some c" "rank (ac_at c) > 0" by (auto simp: unfinished_def)
    with i free can_run [OF c] show ?thesis by metis
  next
    case (Some j)
    with holder obtain d where d: "sy_calls s j = Some d" "ac_at d = LockSubject" by blast
    have "sy_locks s k = None \<or> sy_locks s k = Some j" for k using holder [of k] Some by (cases "sy_locks s k") auto
    with d can_run [OF d(1)] show ?thesis by (intro exI [of _ j]) (auto simp: unfinished_def)
  qed
qed

section \<open>Claims\<close>

text \<open>
  C22. The quotas hold whatever the interleaving. In every state that concurrent calls can reach,
  with statements that fail, replies that are lost and time that passes during a statement: at most
  \<open>n\<close> admissions are ever recorded in any span of one hour when no call has a greater global limit,
  and at most \<open>m\<close> of one subject when no call for it has a greater limit; and every call that returned
  true has an entry of its own, for its subject and its request.
\<close>

theorem admission_quotas_kept:
  assumes "admission_reachable hashtext s" and "0 \<le> n" and "0 \<le> m"
    and "\<And>i c. sy_calls s i = Some c \<Longrightarrow> ai_globalLimit (ac_input c) \<le> n"
    and "\<And>i c. sy_calls s i = Some c \<Longrightarrow> ai_subject (ac_input c) = u \<Longrightarrow> ai_perSubjectLimit (ac_input c) \<le> m"
  shows "within_quota (\<lambda>_. True) n (sy_log s) \<and> within_quota (\<lambda>a. ad_subject a = u) m (sy_log s) \<and>
    distinct (map fst (sy_log s)) \<and>
    (\<forall>i c. sy_calls s i = Some c \<and> ac_at c = Returned True \<longrightarrow> (\<exists>a. (i, a) \<in> set (sy_log s) \<and> entered (ac_input c) a))"
proof -
  note ok = admission_invariant [OF assms(1)]
  have "within_quota (\<lambda>_. True) n (sy_log s)"
    using ok_quota(1) [OF ok assms(2)] assms(4) by (auto simp: inputs_def ran_def)
  moreover have "within_quota (\<lambda>a. ad_subject a = u) m (sy_log s)"
    using ok_quota(2) [OF ok assms(3), of u] assms(5) by (auto simp: inputs_def ran_def)
  moreover have "\<exists>a. (i, a) \<in> set (sy_log s) \<and> entered (ac_input c) a" if "sy_calls s i = Some c" "ac_at c = Returned True" for i c
    using ok_call [OF ok that(1)] that(2) by (simp add: call_ok_def)
  moreover have "distinct (map fst (sy_log s))" using ok by (simp add: system_ok_def)
  ultimately show ?thesis by blast
qed

definition example_admission :: admission_input where
  "example_admission = \<lparr> ai_subject = js ''u'', ai_requestId = js ''r'', ai_platformPath = js ''/'', ai_perSubjectLimit = 1, ai_globalLimit = 2 \<rparr>"

definition smooth_run :: run_course where
  "smooth_run = \<lparr> rn_outcome = Succeeds, rn_uuid = js ''i'', rn_duration = 5, rn_read = (\<lambda>_. 3), rn_inserted = 2 \<rparr>"

definition example_start :: admission_system where
  "example_start = \<lparr> sy_rows = [], sy_locks = Map.empty, sy_clock = 0, sy_calls = Map.empty, sy_log = [] \<rparr>"

fun run_events :: "(jstr \<Rightarrow> int) \<Rightarrow> admission_event list \<Rightarrow> admission_system \<Rightarrow> admission_system option" where
  "run_events h [] s = Some s"
| "run_events h (e # es) s = (case admission_step h e s of Some s' \<Rightarrow> run_events h es s' | None \<Rightarrow> None)"

lemma run_events_reachable: "run_events h es s = Some s' \<Longrightarrow> admission_reachable h s \<Longrightarrow> admission_reachable h s'"
  by (induction es arbitrary: s) (auto split: option.splits intro: admission_reachable_step)

lemma example_reachable: "run_events h es example_start = Some s \<Longrightarrow> admission_reachable h s"
  using run_events_reachable admission_reachable_empty unfolding example_start_def by blast

lemma example_admitted:
  "\<exists>s a. run_events (\<lambda>_. 0) (Arrives 0 example_admission # replicate 9 (Runs 0 smooth_run)) example_start = Some s \<and>
     sy_calls s = [0 \<mapsto> \<lparr> ac_input = example_admission, ac_at = Returned True, ac_deleted = [], ac_inserted = [] \<rparr>] \<and> sy_log s = [(0, a)]"
  by (simp add: numeral_eq_Suc [of "num.One"] eval_nat_numeral example_start_def smooth_run_def example_admission_def
      admission_step_def statement_succeeds_def admitPlatformAiCall_def set_call_def pass_time_def take_lock_def visible_rows_def
      new_row_def commit_admission_def release_locks_def)

theorem admission_quotas_kept_witness:
  "\<exists>s a. admission_reachable (\<lambda>_. 0) s \<and> sy_log s = [(0, a)] \<and> entered example_admission a \<and> within_quota (\<lambda>_. True) 2 (sy_log s) \<and>
     within_quota (\<lambda>a. ad_subject a = js ''u'') 1 (sy_log s)"
proof -
  let ?c = "\<lparr> ac_input = example_admission, ac_at = Returned True, ac_deleted = [], ac_inserted = [] \<rparr>"
  from example_admitted obtain s a where
    s: "run_events (\<lambda>_. 0) (Arrives 0 example_admission # replicate 9 (Runs 0 smooth_run)) example_start = Some s"
    "sy_calls s = [0 \<mapsto> ?c]" "sy_log s = [(0, a)]" by blast
  have r: "admission_reachable (\<lambda>_. 0) s" using s(1) by (rule example_reachable)
  have q: "within_quota (\<lambda>_. True) 2 (sy_log s) \<and> within_quota (\<lambda>a. ad_subject a = js ''u'') 1 (sy_log s) \<and>
    distinct (map fst (sy_log s)) \<and>
    (\<forall>i c. sy_calls s i = Some c \<and> ac_at c = Returned True \<longrightarrow> (\<exists>a. (i, a) \<in> set (sy_log s) \<and> entered (ac_input c) a))"
    by (rule admission_quotas_kept [OF r]) (use s(2) in \<open>auto simp: example_admission_def split: if_splits\<close>)
  have "sy_calls s 0 = Some ?c" using s(2) by simp
  with q have "\<exists>a. (0, a) \<in> set (sy_log s) \<and> entered (ac_input ?c) a" by (metis admission_call.select_convs(2))
  then have "entered example_admission a" using s(3) by simp
  with r s(3) q show ?thesis by blast
qed

text \<open>
  C23. The two locks cannot block for ever. As long as a call is unfinished, some unfinished call can
  execute its next statement, whatever was lost before and also when the keys of a subject and of the
  global lock collide; and every statement that any call executes brings the calls nearer to their
  end, at most eleven for each.
\<close>

theorem admission_progress:
  assumes "admission_reachable hashtext s"
  shows "(unfinished s i \<longrightarrow>
      (\<exists>j. unfinished s j \<and> (\<forall>r. rn_outcome r = Succeeds \<longrightarrow> (\<exists>s'. admission_step hashtext (Runs j r) s = Some s')))) \<and>
    (admission_step hashtext (Runs k r') s = Some s' \<longrightarrow> remaining s' < remaining s) \<and>
    remaining s \<le> 11 * card (dom (sy_calls s))"
proof -
  note ok = admission_invariant [OF assms]
  then have fin: "finite (dom (sy_calls s))" by (simp add: system_ok_def)
  have "rank p \<le> 11" for p by (cases p) simp_all
  then have "remaining s \<le> 11 * card (dom (sy_calls s))"
    unfolding remaining_def
    using sum_bounded_above [of "dom (sy_calls s)" "\<lambda>i. rank (ac_at (the (sy_calls s i)))" 11] by (simp add: mult.commute)
  then show ?thesis using some_call_can_run [OF ok] run_decreases [OF _ fin] by blast
qed

theorem admission_progress_witness:
  "\<exists>s j. run_events (\<lambda>_. 0) [Arrives 0 example_admission] example_start = Some s \<and> unfinished s j \<and>
     (\<exists>s'. admission_step (\<lambda>_. 0) (Runs j smooth_run) s = Some s')"
proof -
  obtain s where s: "run_events (\<lambda>_. 0) [Arrives 0 example_admission] example_start = Some s"
    by (simp add: admission_step_def example_start_def)
  then have "unfinished s 0" by (auto simp: admission_step_def example_start_def unfinished_def admitPlatformAiCall_def)
  with admission_progress [OF example_reachable [OF s], of 0 0 smooth_run s] s show ?thesis
    by (metis smooth_run_def run_course.select_convs(1))
qed

end
