(* ===== verification/Store_Finance.thy ===== *)
theory Store_Finance
  imports Storefront_Ranking
begin

text \<open>
  Reports on the finances of a store, after \<open>web/src/store-finance.ts\<close>: the period of a report,
  amounts as text and the export as comma-separated values. Times are milliseconds since 1970 in
  UTC; the calendar is the one of the language. \<open>Intl.NumberFormat\<close> and \<open>localeCompare\<close> are
  arguments. A scale is a natural number, as the server sends it.
\<close>

section \<open>Data\<close>

datatype StoreFinancePeriod = Month | NinetyDays | Year

datatype InterfaceLocale = En | ZhCn

record StoreFinancePayment =
  sp_payment_id :: jstr
  sp_merchant_order_id :: jstr
  sp_status :: jstr
  sp_amount :: jstr
  sp_captured_amount :: jstr
  sp_refunded_amount :: jstr
  sp_platform_fee :: jstr
  sp_currency :: jstr
  sp_currency_scale :: nat
  sp_created_at :: jstr

record StoreFinanceRefund =
  sf_refund_id :: jstr
  sf_payment_id :: jstr
  sf_merchant_order_id :: jstr
  sf_status :: jstr
  sf_amount :: jstr
  sf_platform_fee_reversal :: jstr
  sf_currency :: jstr
  sf_currency_scale :: nat
  sf_reason :: jstr
  sf_created_at :: jstr

record StoreFinanceInvoice =
  sv_invoice_id :: jstr
  sv_payment_id :: "jstr option"
  sv_status :: jstr
  sv_kind :: jstr
  sv_amount :: jstr
  sv_currency :: jstr
  sv_currency_scale :: nat
  sv_description :: jstr
  sv_invoice_number :: "jstr option"
  sv_requested_at :: jstr
  sv_issued_at :: "jstr option"

text \<open>The lists of a report; its totals and identification are not read here.\<close>

record StoreFinanceReport =
  sr_payments :: "StoreFinancePayment list"
  sr_refunds :: "StoreFinanceRefund list"
  sr_invoices :: "StoreFinanceInvoice list"

section \<open>The calendar of the language\<close>

definition ms_per_day :: int where
  "ms_per_day = 86400000"

definition day_from_year :: "int \<Rightarrow> int" where
  "day_from_year y = 365 * (y - 1970) + (y - 1969) div 4 - (y - 1901) div 100 + (y - 1601) div 400"

definition year_from_day :: "int \<Rightarrow> int" where
  "year_from_day d =
     (let y = 1970 + d * 400 div 146097
      in if d < day_from_year y then y - 1 else if day_from_year (y + 1) \<le> d then y + 1 else y)"

definition leap_year :: "int \<Rightarrow> bool" where
  "leap_year y \<longleftrightarrow> day_from_year (y + 1) - day_from_year y = 366"

text \<open>The day in the year on which a month starts, for months 0 to 12.\<close>

definition month_start :: "int \<Rightarrow> nat \<Rightarrow> int" where
  "month_start y m =
     [0, 31, 59, 90, 120, 151, 181, 212, 243, 273, 304, 334, 365] ! m + (if leap_year y \<and> 2 \<le> m then 1 else 0)"

definition month_from_day :: "int \<Rightarrow> nat" where
  "month_from_day d =
     (let y = year_from_day d; k = d - day_from_year y
      in
         if k < month_start y 1 then 0
         else if k < month_start y 2 then 1
         else if k < month_start y 3 then 2
         else if k < month_start y 4 then 3
         else if k < month_start y 5 then 4
         else if k < month_start y 6 then 5
         else if k < month_start y 7 then 6
         else if k < month_start y 8 then 7
         else if k < month_start y 9 then 8
         else if k < month_start y 10 then 9
         else if k < month_start y 11 then 10
         else 11)"

definition getUTCFullYear :: "int \<Rightarrow> int" where
  "getUTCFullYear t = year_from_day (t div ms_per_day)"

definition getUTCMonth :: "int \<Rightarrow> nat" where
  "getUTCMonth t = month_from_day (t div ms_per_day)"

definition getUTCDate :: "int \<Rightarrow> int" where
  "getUTCDate t =
     (let d = t div ms_per_day; y = year_from_day d in d - day_from_year y - month_start y (month_from_day d) + 1)"

text \<open>\<open>new Date(Date.UTC(y, m, 1))\<close>: years 0 to 99 are those of the twentieth century, and a time beyond the range is not valid.\<close>

definition time_clip :: "int \<Rightarrow> int option" where
  "time_clip t = (if \<bar>t\<bar> \<le> 8640000000000000 then Some t else None)"

definition date_utc :: "int \<Rightarrow> nat \<Rightarrow> int option" where
  "date_utc y m =
     (let year = (if 0 \<le> y \<and> y \<le> 99 then 1900 + y else y)
      in time_clip ((day_from_year year + month_start year m) * ms_per_day))"

definition iso_year :: "int \<Rightarrow> jstr" where
  "iso_year y =
     (if 0 \<le> y \<and> y \<le> 9999 then pad_start 4 48 (show_nat (nat y))
      else (if y < 0 then 45 else 43) # pad_start 6 48 (show_nat (nat \<bar>y\<bar>)))"

definition toISOString :: "int \<Rightarrow> jstr" where
  "toISOString t =
     (let ms = t mod ms_per_day; two = (\<lambda>n. pad_start 2 48 (show_nat (nat n)))
      in iso_year (getUTCFullYear t) @ 45 # two (int (getUTCMonth t) + 1) @ 45 # two (getUTCDate t) @ 84 #
         two (ms div 3600000) @ 58 # two (ms div 60000 mod 60) @ 58 # two (ms div 1000 mod 60) @ 46 #
         pad_start 3 48 (show_nat (nat (ms mod 1000))) @ [90])"

section \<open>Period\<close>

text \<open>The first instant of a report; \<open>None\<close> when it is out of range, where \<open>toISOString\<close> throws.\<close>

definition window_start :: "StoreFinancePeriod \<Rightarrow> int \<Rightarrow> int option" where
  "window_start period to =
     (case period of
        Month \<Rightarrow> date_utc (getUTCFullYear to) (getUTCMonth to)
      | Year \<Rightarrow> date_utc (getUTCFullYear to) 0
      | NinetyDays \<Rightarrow> time_clip (to - 90 * 24 * 60 * 60 * 1000))"

definition storeFinanceWindow :: "StoreFinancePeriod \<Rightarrow> int \<Rightarrow> (jstr \<times> jstr) option" where
  "storeFinanceWindow period now =
     (case window_start period now of
        None \<Rightarrow> None
      | Some start \<Rightarrow> Some (toISOString start, toISOString now))"

section \<open>Amounts\<close>

definition exactDecimal :: "jstr \<Rightarrow> nat \<Rightarrow> jstr" where
  "exactDecimal amount scale =
     (let negative = (amount \<noteq> [] \<and> hd amount = 45); digits = (if negative then tl amount else amount)
      in if scale = 0 then amount
         else (let padded = pad_start (scale + 1) 48 digits;
                   decimal = take (length padded - scale) padded @ 46 # drop (length padded - scale) padded
               in if negative then 45 # decimal else decimal))"

text \<open>\<open>BigInt(text)\<close>; \<open>None\<close> is the SyntaxError.\<close>

definition radix_digits :: "nat \<Rightarrow> jstr \<Rightarrow> nat option" where
  "radix_digits b s =
     (if s \<noteq> [] \<and> list_all (\<lambda>c. is_hex c \<and> hex_value c < b) s then Some (foldl (\<lambda>a c. b * a + hex_value c) 0 s) else None)"

definition to_bigint :: "jstr \<Rightarrow> int option" where
  "to_bigint s =
     (let t = trim s
      in case t of
           [] \<Rightarrow> Some 0
         | c # r \<Rightarrow>
             if c = 48 \<and> r \<noteq> [] \<and> hd r \<in> {120, 88} then map_option int (radix_digits 16 (tl r))
             else if c = 48 \<and> r \<noteq> [] \<and> hd r \<in> {111, 79} then map_option int (radix_digits 8 (tl r))
             else if c = 48 \<and> r \<noteq> [] \<and> hd r \<in> {98, 66} then map_option int (radix_digits 2 (tl r))
             else if c = 45 then map_option (\<lambda>n. - int n) (radix_digits 10 r)
             else if c = 43 then map_option int (radix_digits 10 r)
             else map_option int (radix_digits 10 t))"

datatype part_kind = IntegerPart | GroupPart | DecimalPart | FractionPart | MinusSignPart | OtherPart

text \<open>What \<open>formatToParts\<close> is given: an integer or the number \<open>-0\<close>.\<close>

datatype intl_value = BigIntValue int | NegativeZero

record finance_host =
  fi_parts :: "InterfaceLocale \<Rightarrow> jstr \<Rightarrow> intl_value \<Rightarrow> (part_kind \<times> jstr) list option"
  fi_compare :: "jstr \<Rightarrow> jstr \<Rightarrow> int"

definition number_part :: "part_kind \<times> jstr \<Rightarrow> bool" where
  "number_part p \<longleftrightarrow> fst p = IntegerPart \<or> fst p = GroupPart"

text \<open>The number of parts up to the last one that belongs to the number.\<close>

definition after_number :: "(part_kind \<times> jstr) list \<Rightarrow> nat" where
  "after_number parts = length parts - length (takeWhile (\<lambda>p. \<not> number_part p) (rev parts))"

definition formatStoreMoney :: "finance_host \<Rightarrow> jstr \<Rightarrow> nat \<Rightarrow> jstr \<Rightarrow> InterfaceLocale \<Rightarrow> jstr option" where
  "formatStoreMoney H amount scale currency locale =
     (case to_bigint amount of
        None \<Rightarrow> None
      | Some value \<Rightarrow>
          (let negative = value < 0; absolute = nat \<bar>value\<bar>; divisor = 10 ^ scale; integer = absolute div divisor;
               fraction = (if scale > 0 then pad_start scale 48 (show_nat (absolute mod divisor)) else []);
               formattedValue = (if negative then (if integer = 0 then NegativeZero else BigIntValue (- int integer))
                                 else BigIntValue (int integer))
           in case fi_parts H locale currency formattedValue of
                None \<Rightarrow> None
              | Some parts \<Rightarrow>
                  Some (concat (map snd
                    (if fraction = [] then parts
                     else take (after_number parts) parts @ [(DecimalPart, [46]), (FractionPart, fraction)] @
                          drop (after_number parts) parts)))))"

section \<open>Export\<close>

definition csvCell :: "jstr \<Rightarrow> jstr" where
  "csvCell value =
     (if list_ex (\<lambda>c. c \<in> {34, 44, 13, 10}) value then 34 # concat (map (\<lambda>c. if c = 34 then [34, 34] else [c]) value) @ [34]
      else value)"

record finance_row =
  fr_type :: jstr
  fr_reference :: jstr
  fr_order :: jstr
  fr_status :: jstr
  fr_amount :: jstr
  fr_currency :: jstr
  fr_occurredAt :: jstr
  fr_description :: jstr

definition csv_headers :: "InterfaceLocale \<Rightarrow> jstr list" where
  "csv_headers locale =
     (case locale of
        En \<Rightarrow> map js [''Type'', ''Reference'', ''Order'', ''Status'', ''Amount'', ''Currency'', ''Occurred at'', ''Description'']
      | ZhCn \<Rightarrow> [[31867, 22411], [32534, 21495], [35746, 21333], [29366, 24577], [37329, 39069], [24065, 31181],
                 [21457, 29983, 26102, 38388], [35828, 26126]])"

definition payment_row :: "InterfaceLocale \<Rightarrow> StoreFinancePayment \<Rightarrow> finance_row" where
  "payment_row locale p =
     \<lparr> fr_type = (case locale of En \<Rightarrow> js ''Payment'' | ZhCn \<Rightarrow> [25903, 20184]), fr_reference = sp_payment_id p,
       fr_order = sp_merchant_order_id p, fr_status = sp_status p,
       fr_amount = exactDecimal (sp_captured_amount p) (sp_currency_scale p), fr_currency = sp_currency p,
       fr_occurredAt = sp_created_at p, fr_description = [] \<rparr>"

definition refund_row :: "InterfaceLocale \<Rightarrow> StoreFinanceRefund \<Rightarrow> finance_row" where
  "refund_row locale r =
     \<lparr> fr_type = (case locale of En \<Rightarrow> js ''Refund'' | ZhCn \<Rightarrow> [36864, 27454]), fr_reference = sf_refund_id r,
       fr_order = sf_merchant_order_id r, fr_status = sf_status r,
       fr_amount = 45 # exactDecimal (sf_amount r) (sf_currency_scale r), fr_currency = sf_currency r,
       fr_occurredAt = sf_created_at r, fr_description = sf_reason r \<rparr>"

text \<open>\<open>a || b\<close> on an optional string.\<close>

definition or_text :: "jstr option \<Rightarrow> jstr \<Rightarrow> jstr" where
  "or_text v other = (case v of Some s \<Rightarrow> if s = [] then other else s | None \<Rightarrow> other)"

definition invoice_row :: "InterfaceLocale \<Rightarrow> StoreFinanceInvoice \<Rightarrow> finance_row" where
  "invoice_row locale i =
     \<lparr> fr_type = (case locale of En \<Rightarrow> js ''Invoice'' | ZhCn \<Rightarrow> [21457, 31080]),
       fr_reference = or_text (sv_invoice_number i) (sv_invoice_id i), fr_order = or_text (sv_payment_id i) [],
       fr_status = sv_status i, fr_amount = exactDecimal (sv_amount i) (sv_currency_scale i), fr_currency = sv_currency i,
       fr_occurredAt = sv_requested_at i, fr_description = sv_description i \<rparr>"

definition finance_rows :: "InterfaceLocale \<Rightarrow> StoreFinanceReport \<Rightarrow> finance_row list" where
  "finance_rows locale report =
     map (payment_row locale) (sr_payments report) @ map (refund_row locale) (sr_refunds report) @
     map (invoice_row locale) (sr_invoices report)"

definition row_fields :: "finance_row \<Rightarrow> jstr list" where
  "row_fields r = [fr_type r, fr_reference r, fr_order r, fr_status r, fr_amount r, fr_currency r, fr_occurredAt r, fr_description r]"

definition later_first :: "finance_host \<Rightarrow> finance_row \<Rightarrow> finance_row \<Rightarrow> int" where
  "later_first H left right = fi_compare H (fr_occurredAt right) (fr_occurredAt left)"

definition storeFinanceCsv :: "finance_host \<Rightarrow> StoreFinanceReport \<Rightarrow> InterfaceLocale \<Rightarrow> jstr" where
  "storeFinanceCsv H report locale =
     join_with [13, 10] (map (\<lambda>row. join_with [44] (map csvCell row))
       (csv_headers locale # map row_fields (sort_by (later_first H) (finance_rows locale report))))"

section \<open>The calendar\<close>

lemma div_bounds:
  fixes a k :: int
  assumes "0 < k"
  shows "k * (a div k) \<le> a" "a < k * (a div k) + k"
  using assms pos_mod_bound [OF assms, of a] pos_mod_sign [OF assms, of a] mult_div_mod_eq [of k a] by linarith+

lemma div_next:
  fixes a k :: int
  assumes "0 < k"
  shows "(a + 1) div k = a div k + (if k dvd a + 1 then 1 else 0)"
proof (cases "k dvd a + 1")
  case True
  then obtain q where q: "a + 1 = k * q" ..
  then have "a = k * (q - 1) + (k - 1)" by (simp add: algebra_simps)
  then have "a div k = q - 1" by (rule int_div_pos_eq) (use assms in auto)
  with True q assms show ?thesis by simp
next
  case False
  then have "(a + 1) mod k \<noteq> 0" by (simp add: dvd_eq_mod_eq_0)
  with pos_mod_sign [OF assms, of "a + 1"] have m: "1 \<le> (a + 1) mod k" by linarith
  have "a = k * ((a + 1) div k) + ((a + 1) mod k - 1)" using mult_div_mod_eq [of k "a + 1"] by linarith
  then have "a div k = (a + 1) div k" by (rule int_div_pos_eq) (use m pos_mod_bound [OF assms, of "a + 1"] in linarith)+
  with False show ?thesis by simp
qed

lemma day_from_year_bounds:
  shows "400 * day_from_year y \<le> 146097 * (y - 1970) + 592" and "146097 * (y - 1970) - 603 \<le> 400 * day_from_year y"
proof -
  have pos: "0 < (4 :: int)" "0 < (100 :: int)" "0 < (400 :: int)" by simp_all
  note d = div_bounds [OF pos(1), of "y - 1969"] div_bounds [OF pos(2), of "y - 1901"] div_bounds [OF pos(3), of "y - 1601"]
  show "400 * day_from_year y \<le> 146097 * (y - 1970) + 592" using d unfolding day_from_year_def right_diff_distrib distrib_left by linarith
  show "146097 * (y - 1970) - 603 \<le> 400 * day_from_year y" using d unfolding day_from_year_def right_diff_distrib distrib_left by linarith
qed

lemma year_from_day_spec: "day_from_year (year_from_day d) \<le> d" "d < day_from_year (year_from_day d + 1)"
proof -
  define y where "y = 1970 + d * 400 div 146097"
  have "146097 * (y - 1970) \<le> d * 400" "d * 400 < 146097 * (y - 1970) + 146097"
    using div_bounds [of 146097 "d * 400"] by (simp_all add: y_def)
  note y = this
  have "day_from_year (y - 1) \<le> d" using day_from_year_bounds(1) [of "y - 1"] y by (simp add: algebra_simps)
  moreover have "d < day_from_year (y + 2)" using day_from_year_bounds(2) [of "y + 2"] y by (simp add: algebra_simps)
  ultimately show "day_from_year (year_from_day d) \<le> d" "d < day_from_year (year_from_day d + 1)"
    by (simp_all add: year_from_day_def y_def [symmetric] Let_def add.commute)
qed

lemma year_length: "day_from_year (y + 1) - day_from_year y = 365 \<or> day_from_year (y + 1) - day_from_year y = 366"
proof -
  have "100 dvd y - 1900 \<Longrightarrow> 4 dvd y - 1968"
  proof -
    assume "100 dvd y - 1900"
    then have "4 dvd y - 1900" by (rule dvd_trans [rotated]) simp
    then have "4 dvd (y - 1900) - 68" by (rule dvd_diff) simp
    then show "4 dvd y - 1968" by (simp add: algebra_simps)
  qed
  moreover have "400 dvd y - 1600 \<Longrightarrow> 100 dvd y - 1900"
  proof -
    assume "400 dvd y - 1600"
    then have "100 dvd y - 1600" by (rule dvd_trans [rotated]) simp
    then have "100 dvd (y - 1600) - 300" by (rule dvd_diff) simp
    then show "100 dvd y - 1900" by (simp add: algebra_simps)
  qed
  moreover have "day_from_year (y + 1) - day_from_year y =
      365 + (if 4 dvd y - 1968 then 1 else 0) - (if 100 dvd y - 1900 then 1 else 0) + (if 400 dvd y - 1600 then 1 else 0)"
  proof -
    have e: "y + 1 - 1969 = y - 1968" "y + 1 - 1901 = y - 1900" "y + 1 - 1601 = y - 1600" by simp_all
    have pos: "0 < (4 :: int)" "0 < (100 :: int)" "0 < (400 :: int)" by simp_all
    have z: "y - 1969 + 1 = y - 1968" "y - 1901 + 1 = y - 1900" "y - 1601 + 1 = y - 1600" by simp_all
    note n = div_next [OF pos(1), of "y - 1969"] div_next [OF pos(2), of "y - 1901"] div_next [OF pos(3), of "y - 1601"]
    show ?thesis using n unfolding day_from_year_def e z by simp
  qed
  ultimately show ?thesis by (cases "4 dvd y - 1968"; cases "100 dvd y - 1900"; cases "400 dvd y - 1600") simp_all
qed

lemma month_from_day_spec:
  fixes d :: int
  defines "y \<equiv> year_from_day d"
  shows "month_start y (month_from_day d) \<le> d - day_from_year y" "d - day_from_year y < month_start y (month_from_day d) + 31"
proof -
  define k where "k = d - day_from_year y"
  have k: "0 \<le> k" "k < 365 + (if leap_year y then 1 else 0)"
    using year_from_day_spec [of d] year_length [of y] by (auto simp: k_def y_def leap_year_def)
  show "month_start y (month_from_day d) \<le> d - day_from_year y" "d - day_from_year y < month_start y (month_from_day d) + 31"
    using k unfolding month_from_day_def y_def [symmetric] Let_def k_def [symmetric]
    by (simp_all add: month_start_def split: if_splits)
qed

text \<open>
  A report on a month or a year begins with the first instant of the calendar month or year in
  which it ends, and does not begin later than it ends (from the year 100 on); its length is that of
  the period.
\<close>

theorem finance_window_covers:
  assumes "window_start period now = Some start" and "100 \<le> getUTCFullYear now"
  shows "start \<le> now \<and>
    (case period of
       Month \<Rightarrow> start = (day_from_year (getUTCFullYear now) + month_start (getUTCFullYear now) (getUTCMonth now)) * ms_per_day \<and>
         now - start < 31 * ms_per_day
     | Year \<Rightarrow> start = day_from_year (getUTCFullYear now) * ms_per_day \<and> now - start < 366 * ms_per_day
     | NinetyDays \<Rightarrow> now - start = 90 * ms_per_day)"
proof -
  define d where "d = now div ms_per_day"
  have t: "d * ms_per_day \<le> now" "now < (d + 1) * ms_per_day"
    using div_bounds [of ms_per_day now] by (simp_all add: d_def ms_per_day_def algebra_simps)
  note y = year_from_day_spec [of d] year_length [of "year_from_day d"] and m = month_from_day_spec [of d]
  show ?thesis
  proof (cases period)
    case Month
    with assms have s: "start = (day_from_year (year_from_day d) + month_start (year_from_day d) (month_from_day d)) * ms_per_day"
      by (auto simp: window_start_def date_utc_def time_clip_def getUTCFullYear_def getUTCMonth_def d_def Let_def split: if_splits)
    from m have "start \<le> d * ms_per_day" "d * ms_per_day + ms_per_day \<le> start + 31 * ms_per_day"
      unfolding s by (simp_all add: ms_per_day_def)
    with t have "start \<le> now" "now - start < 31 * ms_per_day" by (simp_all add: distrib_right)
    with s Month show ?thesis by (simp add: getUTCFullYear_def getUTCMonth_def d_def [symmetric])
  next
    case Year
    with assms have s: "start = day_from_year (year_from_day d) * ms_per_day"
      by (auto simp: window_start_def date_utc_def time_clip_def getUTCFullYear_def d_def month_start_def Let_def split: if_splits)
    from y have "start \<le> d * ms_per_day" "d * ms_per_day + ms_per_day \<le> start + 366 * ms_per_day"
      unfolding s by (auto simp: ms_per_day_def)
    with t have "start \<le> now" "now - start < 366 * ms_per_day" by (simp_all add: distrib_right)
    with s Year show ?thesis by (simp add: getUTCFullYear_def d_def [symmetric])
  next
    case NinetyDays
    with assms(1) show ?thesis by (auto simp: window_start_def time_clip_def ms_per_day_def split: if_splits)
  qed
qed

section \<open>Reading an export\<close>

text \<open>
  Specification: a reader of comma-separated values after RFC 4180, with records ended by CR LF,
  fields in quotation marks and doubled quotation marks inside them.
\<close>

fun csv_quoted :: "jstr \<Rightarrow> (jstr \<times> jstr) option" where
  "csv_quoted (c # s) =
     (if c = 34 then (case s of d # r \<Rightarrow> if d = 34 then map_option (apfst (Cons 34)) (csv_quoted r) else Some ([], s) | [] \<Rightarrow> Some ([], []))
      else map_option (apfst (Cons c)) (csv_quoted s))"
| "csv_quoted [] = None"

definition csv_field :: "jstr \<Rightarrow> (jstr \<times> jstr) option" where
  "csv_field s =
     (case s of
        c # r \<Rightarrow> if c = 34 then csv_quoted r
                else Some (takeWhile (\<lambda>c. c \<notin> {34, 44, 13, 10}) s, dropWhile (\<lambda>c. c \<notin> {34, 44, 13, 10}) s)
      | [] \<Rightarrow> Some ([], []))"

fun csv_records :: "nat \<Rightarrow> jstr \<Rightarrow> jstr list list option" where
  "csv_records 0 s = None"
| "csv_records (Suc n) s =
     (case csv_field s of
        None \<Rightarrow> None
      | Some (f, []) \<Rightarrow> Some [[f]]
      | Some (f, c # r) \<Rightarrow>
          if c = 44 then (case csv_records n r of Some (row # rows) \<Rightarrow> Some ((f # row) # rows) | _ \<Rightarrow> None)
          else if c = 13 \<and> r \<noteq> [] \<and> hd r = 10 then map_option (Cons [f]) (csv_records n (tl r))
          else None)"

definition csv_read :: "jstr \<Rightarrow> jstr list list option" where
  "csv_read s = csv_records (Suc (length s)) s"

definition field_end :: "jstr \<Rightarrow> bool" where
  "field_end r \<longleftrightarrow> r = [] \<or> hd r = 44 \<or> hd r = 13"

lemma csv_quoted_escaped:
  "field_end r \<Longrightarrow> csv_quoted (concat (map (\<lambda>c. if c = 34 then [34, 34] else [c]) s) @ 34 # r) = Some (s, r)"
  by (induction s) (auto simp: field_end_def split: list.split)

lemma csv_field_cell: "field_end r \<Longrightarrow> csv_field (csvCell s @ r) = Some (s, r)"
proof -
  assume r: "field_end r"
  show ?thesis
  proof (cases "list_ex (\<lambda>c. c \<in> {34, 44, 13, 10}) s")
    case True
    then show ?thesis using csv_quoted_escaped [OF r, of s] by (simp add: csvCell_def csv_field_def)
  next
    case False
    then have s: "list_all (\<lambda>c. c \<notin> {34, 44, 13, 10}) s" by (auto simp: list_all_iff list_ex_iff)
    with r have "takeWhile (\<lambda>c. c \<notin> {34, 44, 13, 10}) (s @ r) = s" "dropWhile (\<lambda>c. c \<notin> {34, 44, 13, 10}) (s @ r) = r"
      by (cases r; auto simp: field_end_def list_all_iff takeWhile_append dropWhile_append)+
    with False s r show ?thesis by (cases "s @ r") (auto simp: csvCell_def csv_field_def field_end_def)
  qed
qed

definition csv_line :: "jstr list \<Rightarrow> jstr" where
  "csv_line row = join_with [44] (map csvCell row)"

lemma csv_records_line:
  assumes "row \<noteq> []"
    and "rest = [] \<and> rows = [] \<or> (\<exists>t. rest = 13 # 10 # t \<and> (\<forall>k > length t. csv_records k t = Some rows))"
    and "length (csv_line row @ rest) < n"
  shows "csv_records n (csv_line row @ rest) = Some (row # rows)"
  using assms(1,3)
proof (induction row arbitrary: n)
  case (Cons f row)
  then obtain n' where n: "n = Suc n'" by (cases n) auto
  show ?case
  proof (cases "row = []")
    case True
    have "field_end rest" using assms(2) by (auto simp: field_end_def)
    then have f: "csv_field (csv_line (f # row) @ rest) = Some (f, rest)" using True csv_field_cell by (simp add: csv_line_def)
    from assms(2) show ?thesis
    proof (elim disjE exE conjE)
      fix t assume t: "rest = 13 # 10 # t" "\<forall>k > length t. csv_records k t = Some rows"
      moreover have "length t < n'" using Cons.prems(2) n t(1) by simp
      ultimately show ?thesis using f True n by simp
    qed (use f True n in simp)
  next
    case False
    then have line: "csv_line (f # row) @ rest = csvCell f @ 44 # csv_line row @ rest"
      by (simp add: csv_line_def join_Cons)
    have "csv_field (csvCell f @ 44 # csv_line row @ rest) = Some (f, 44 # csv_line row @ rest)"
      by (rule csv_field_cell) (simp add: field_end_def)
    moreover have "csv_records n' (csv_line row @ rest) = Some (row # rows)"
      using Cons.prems(2) by (intro Cons.IH [OF False]) (simp add: line n)
    ultimately show ?thesis by (simp add: line n)
  qed
qed simp

lemma csv_records_lines:
  "rows \<noteq> [] \<Longrightarrow> list_all (\<lambda>row. row \<noteq> []) rows \<Longrightarrow> length (join_with [13, 10] (map csv_line rows)) < n \<Longrightarrow>
     csv_records n (join_with [13, 10] (map csv_line rows)) = Some rows"
proof (induction rows arbitrary: n)
  case (Cons row rows)
  show ?case
  proof (cases "rows = []")
    case True
    with Cons.prems csv_records_line [of row "[]" "[]" n] show ?thesis by simp
  next
    case False
    let ?t = "join_with [13, 10] (map csv_line rows)"
    have joined: "join_with [13, 10] (map csv_line (row # rows)) = csv_line row @ 13 # 10 # ?t"
      using False by (simp add: join_Cons)
    have "\<forall>k > length ?t. csv_records k ?t = Some rows" using Cons.IH [OF False] Cons.prems(2) by simp
    moreover have "length (csv_line row @ 13 # 10 # ?t) < n" using Cons.prems(3) unfolding joined .
    ultimately show ?thesis
      using csv_records_line [of row "13 # 10 # ?t" rows n] Cons.prems(2) unfolding joined by simp
  qed
qed simp

lemma csv_read_lines:
  "rows \<noteq> [] \<Longrightarrow> list_all (\<lambda>row. row \<noteq> []) rows \<Longrightarrow> csv_read (join_with [13, 10] (map csv_line rows)) = Some rows"
  unfolding csv_read_def by (rule csv_records_lines) simp_all

section \<open>Exact amounts\<close>

text \<open>A decimal text of a sign, whole digits and exactly \<open>scale\<close> digits after the point.\<close>

definition decimal_text :: "bool \<Rightarrow> nat \<Rightarrow> nat \<Rightarrow> jstr \<Rightarrow> bool" where
  "decimal_text negative n scale s \<longleftrightarrow>
     (\<exists>whole fraction. s = (if negative then [45] else []) @ whole @ (if scale = 0 then [] else 46 # fraction) \<and>
        whole \<noteq> [] \<and> list_all is_digit (whole @ fraction) \<and> length fraction = scale \<and> read_nat (whole @ fraction) = n)"

lemma pad_start_read: "read_nat (pad_start n 48 s) = read_nat s"
  by (simp add: pad_start_def read_nat_append)

lemma exactDecimal_digits:
  assumes "list_all is_digit s" and "s \<noteq> []"
  shows "decimal_text False (read_nat s) scale (exactDecimal s scale)" "decimal_text True (read_nat s) scale (exactDecimal (45 # s) scale)"
proof -
  have hd: "hd s \<noteq> 45" using assms by (cases s) (auto simp: is_digit_def)
  let ?p = "pad_start (scale + 1) 48 s" let ?k = "length ?p - scale"
  have p: "list_all is_digit ?p" "scale < length ?p" "read_nat ?p = read_nat s"
    using assms by (auto simp: pad_start_def list_all_iff is_digit_def pad_start_read [unfolded pad_start_def])
  have parts: "take ?k ?p \<noteq> []" "list_all is_digit (take ?k ?p @ drop ?k ?p)" "length (drop ?k ?p) = scale"
    "read_nat (take ?k ?p @ drop ?k ?p) = read_nat s" using p by auto
  have "decimal_text False (read_nat s) scale (exactDecimal s scale) \<and> decimal_text True (read_nat s) scale (exactDecimal (45 # s) scale)"
  proof (cases "scale = 0")
    case True
    with assms show ?thesis by (auto simp: decimal_text_def exactDecimal_def)
  next
    case False
    with hd assms(2) have "exactDecimal s scale = take ?k ?p @ 46 # drop ?k ?p" "exactDecimal (45 # s) scale = 45 # take ?k ?p @ 46 # drop ?k ?p"
      by (simp_all add: exactDecimal_def Let_def)
    with False parts show ?thesis unfolding decimal_text_def
      by (intro conjI exI [of _ "take ?k ?p"] exI [of _ "drop ?k ?p"]) simp_all
  qed
  then show "decimal_text False (read_nat s) scale (exactDecimal s scale)"
    "decimal_text True (read_nat s) scale (exactDecimal (45 # s) scale)" by simp_all
qed

definition integer_digits :: "(part_kind \<times> jstr) list \<Rightarrow> jstr" where
  "integer_digits parts = concat (map snd (filter (\<lambda>p. fst p = IntegerPart) parts))"

text \<open>
  What is relied on of \<open>formatToParts\<close> without fraction digits, for the locales \<open>en-US\<close> and \<open>zh-CN\<close>: the integer parts are
  the digits of the absolute value, and a part of type \<open>minusSign\<close> with the text \<open>-\<close> is there exactly for negative
  values, \<open>-0\<close> included.
\<close>

definition negative_value :: "intl_value \<Rightarrow> bool" where
  "negative_value v \<longleftrightarrow> (case v of BigIntValue i \<Rightarrow> i < 0 | NegativeZero \<Rightarrow> True)"

definition intl_law :: "finance_host \<Rightarrow> bool" where
  "intl_law H \<longleftrightarrow>
     (\<forall>locale currency v parts. fi_parts H locale currency v = Some parts \<longrightarrow>
        integer_digits parts = show_nat (case v of BigIntValue i \<Rightarrow> nat \<bar>i\<bar> | NegativeZero \<Rightarrow> 0) \<and>
        ((MinusSignPart, [45]) \<in> set parts \<longleftrightarrow> negative_value v))"

lemma after_number_split:
  "list_all (\<lambda>p. \<not> number_part p) (drop (after_number parts) parts)" "integer_digits (take (after_number parts) parts) = integer_digits parts"
proof -
  let ?P = "\<lambda>p. \<not> number_part p"
  have d: "drop (after_number parts) parts = rev (takeWhile ?P (rev parts))"
  proof -
    have "rev parts = takeWhile ?P (rev parts) @ dropWhile ?P (rev parts)" by simp
    then have "parts = rev (dropWhile ?P (rev parts)) @ rev (takeWhile ?P (rev parts))" by (metis rev_append rev_rev_ident)
    moreover from this have "after_number parts = length (rev (dropWhile ?P (rev parts)))"
      unfolding after_number_def by (metis add_diff_cancel_right' length_append length_rev)
    ultimately show ?thesis by (metis append_eq_conv_conj)
  qed
  then show all: "list_all ?P (drop (after_number parts) parts)" by (auto simp: list_all_iff dest: set_takeWhileD)
  have "integer_digits (drop (after_number parts) parts) = []"
    using all by (auto simp: integer_digits_def list_all_iff number_part_def filter_empty_conv)
  moreover have "integer_digits (xs @ ys) = integer_digits xs @ integer_digits ys" for xs ys by (simp add: integer_digits_def)
  ultimately show "integer_digits (take (after_number parts) parts) = integer_digits parts"
    by (metis append_Nil2 append_take_drop_id)
qed

lemma show_nat_not_empty: "show_nat n \<noteq> []"
  by (cases n rule: show_nat.cases) simp

lemma after_number_last:
  assumes "integer_digits parts \<noteq> []"
  shows "take (after_number parts) parts \<noteq> []" "number_part (last (take (after_number parts) parts))"
proof -
  let ?P = "\<lambda>p. \<not> number_part p"
  have "\<exists>p \<in> set parts. number_part p"
    using assms by (auto simp: integer_digits_def number_part_def) force
  then have ne: "dropWhile ?P (rev parts) \<noteq> []" by auto
  have "rev parts = takeWhile ?P (rev parts) @ dropWhile ?P (rev parts)" by simp
  then have split: "parts = rev (dropWhile ?P (rev parts)) @ rev (takeWhile ?P (rev parts))" by (metis rev_append rev_rev_ident)
  then have "after_number parts = length (rev (dropWhile ?P (rev parts)))"
    unfolding after_number_def by (metis add_diff_cancel_right' length_append length_rev)
  with split have t: "take (after_number parts) parts = rev (dropWhile ?P (rev parts))" by (metis append_eq_conv_conj)
  show "take (after_number parts) parts \<noteq> []" using t ne by simp
  show "number_part (last (take (after_number parts) parts))" using t ne hd_dropWhile [of ?P "rev parts"] by (simp add: last_rev)
qed

section \<open>Claims\<close>

text \<open>
  C38. An export can be read back without loss. Whatever characters the fields contain, a reader of
  RFC 4180 finds in the text the headings and one record for each payment, refund and invoice of the
  report, with exactly the fields of the report, latest first by the collation; records of the same time
  keep the order of the report.
\<close>

theorem export_round_trip:
  assumes "consistent_compare (fi_compare H)"
  shows "\<exists>rows. csv_read (storeFinanceCsv H report locale) = Some (csv_headers locale # map row_fields rows) \<and>
    mset rows = mset (finance_rows locale report) \<and> sorted_wrt (\<lambda>x y. later_first H x y \<le> 0) rows \<and>
    (\<forall>k. filter (\<lambda>y. later_first H k y = 0) rows = filter (\<lambda>y. later_first H k y = 0) (finance_rows locale report))"
proof -
  have c: "consistent_compare (later_first H)"
    unfolding later_first_def using consistent_on [OF consistent_reverse [OF assms], where h = fr_occurredAt] .
  let ?rows = "sort_by (later_first H) (finance_rows locale report)"
  have "csv_read (storeFinanceCsv H report locale) = Some (csv_headers locale # map row_fields ?rows)"
    unfolding storeFinanceCsv_def csv_line_def [symmetric]
    by (rule csv_read_lines) (simp_all add: csv_headers_def row_fields_def list_all_iff split: InterfaceLocale.split)
  then show ?thesis
    using consistent_compare.mset_sort_by [OF c] consistent_compare.sorted_sort_by [OF c] consistent_compare.stable_sort_by [OF c] by blast
qed

definition example_report :: StoreFinanceReport where
  "example_report = \<lparr> sr_payments = [], sr_refunds =
     [\<lparr> sf_refund_id = js ''r'', sf_payment_id = js ''p'', sf_merchant_order_id = js ''o'', sf_status = js ''done'', sf_amount = js ''5'',
        sf_platform_fee_reversal = js ''0'', sf_currency = js ''USD'', sf_currency_scale = 2, sf_reason = [34, 44, 13, 10],
        sf_created_at = js ''2026'' \<rparr>], sr_invoices = [] \<rparr>"

definition example_finance :: finance_host where
  "example_finance = \<lparr> fi_parts = (\<lambda>_ _ v. Some ((case v of BigIntValue i \<Rightarrow> if i < 0 then [(MinusSignPart, [45])] else []
        | NegativeZero \<Rightarrow> [(MinusSignPart, [45])]) @ [(OtherPart, [36]),
      (IntegerPart, show_nat (case v of BigIntValue i \<Rightarrow> nat \<bar>i\<bar> | NegativeZero \<Rightarrow> 0)), (OtherPart, [32])])),
     fi_compare = (\<lambda>x y. if x < y then - 1 else if y < x then 1 else 0) \<rparr>"

theorem export_round_trip_witness:
  "\<exists>rows. csv_read (storeFinanceCsv example_finance example_report En) = Some (csv_headers En # map row_fields rows) \<and>
    mset rows = mset (finance_rows En example_report)"
  using export_round_trip [of example_finance example_report En] consistent_key [of "\<lambda>x. x"]
  by (auto simp: example_finance_def)

text \<open>
  C39. A displayed amount is exact, for every scale. The text consists of the parts that the formatter returned, in order; with a scale
  above 0 a decimal point stands directly after the last part of the number, before a trailing symbol, and is followed by exactly
  \<open>scale\<close> digits. The digits before and after the point together are those of the amount, and the text has a minus sign
  exactly for a negative amount, also below one unit. Relied on: the formatter prints the digits and the sign of the integer it is given.
\<close>

theorem store_money_exact:
  assumes "intl_law H" and "to_bigint amount = Some n" and "formatStoreMoney H amount scale currency locale = Some s"
  shows "\<exists>before after fraction. (\<exists>v. fi_parts H locale currency v = Some (before @ after)) \<and>
    s = concat (map snd before) @ (if scale = 0 then [] else 46 # fraction) @ concat (map snd after) \<and>
    before \<noteq> [] \<and> number_part (last before) \<and> list_all (\<lambda>p. \<not> number_part p) after \<and>
    length fraction = scale \<and> list_all is_digit fraction \<and> read_nat (integer_digits before @ fraction) = nat \<bar>n\<bar> \<and>
    ((MinusSignPart, [45]) \<in> set (before @ after) \<longleftrightarrow> n < 0)"
proof -
  let ?a = "nat \<bar>n\<bar>" and ?d = "10 ^ scale :: nat"
  define f where "f = (if scale > 0 then pad_start scale 48 (show_nat (?a mod ?d)) else [])"
  define v where "v = (if n < 0 then (if ?a div ?d = 0 then NegativeZero else BigIntValue (- int (?a div ?d))) else BigIntValue (int (?a div ?d)))"
  have less: "0 < scale \<Longrightarrow> length (show_nat (?a mod ?d)) \<le> scale" using show_nat_length_le by simp
  have f: "length f = scale \<and> list_all is_digit f \<and> read_nat f = ?a mod ?d"
  proof (cases "scale = 0")
    case False
    then show ?thesis using less show_nat_digits [of "?a mod ?d"]
      by (auto simp: f_def pad_start_def pad_start_read [unfolded pad_start_def] list_all_iff is_digit_def)
  qed (simp add: f_def read_nat_def)
  from assms(2,3) obtain parts where p: "fi_parts H locale currency v = Some parts"
    "s = concat (map snd (if f = [] then parts
       else take (after_number parts) parts @ [(DecimalPart, [46]), (FractionPart, f)] @ drop (after_number parts) parts))"
    unfolding formatStoreMoney_def v_def f_def by (auto simp: Let_def split: option.splits)
  let ?before = "take (after_number parts) parts" and ?after = "drop (after_number parts) parts"
  have digits: "integer_digits parts = show_nat (?a div ?d)" and sign: "(MinusSignPart, [45]) \<in> set parts \<longleftrightarrow> negative_value v"
    using assms(1) p(1) by (auto simp: intl_law_def v_def split: if_splits)
  then have ne: "integer_digits parts \<noteq> []" by (simp add: show_nat_not_empty)
  have s: "s = concat (map snd ?before) @ (if scale = 0 then [] else 46 # f) @ concat (map snd ?after)"
  proof (cases "scale = 0")
    case True
    then have "s = concat (map snd (?before @ ?after))" using p(2) f by simp
    with True show ?thesis by (simp only: map_append concat_append) simp
  next
    case False
    with f have "f \<noteq> []" by auto
    with p(2) False show ?thesis by simp
  qed
  have "read_nat (integer_digits ?before @ f) = ?a"
    using f digits div_mult_mod_eq [of ?a ?d] by (simp only: after_number_split read_nat_append read_show_nat)
  moreover have "negative_value v \<longleftrightarrow> n < 0" by (auto simp: v_def negative_value_def)
  ultimately show ?thesis
    using p(1) s f after_number_split(1) [of parts] after_number_last [OF ne] sign
    by - (rule exI [of _ ?before], rule exI [of _ ?after], rule exI [of _ f], auto)
qed

theorem store_money_exact_witness:
  "\<exists>s before after fraction. formatStoreMoney example_finance (js ''-5'') 2 (js ''USD'') En = Some s \<and>
     s = concat (map snd before) @ 46 # fraction @ concat (map snd after) \<and> number_part (last before) \<and> length fraction = 2 \<and>
     read_nat (integer_digits before @ fraction) = 5 \<and> (MinusSignPart, [45]) \<in> set (before @ after)"
proof -
  have law: "intl_law example_finance"
    by (auto simp: intl_law_def example_finance_def integer_digits_def negative_value_def split: intl_value.splits)
  have n: "to_bigint (js ''-5'') = Some (- 5)"
    by (simp add: to_bigint_def trim_def is_space_def js_simps radix_digits_def is_hex_def is_hex_lower_def is_digit_def hex_value_def)
  then obtain s where s: "formatStoreMoney example_finance (js ''-5'') 2 (js ''USD'') En = Some s"
    by (simp add: formatStoreMoney_def example_finance_def Let_def)
  from store_money_exact [OF law n s] s show ?thesis by fastforce
qed

end
