(* ===== verification/Media_Attachment.thy ===== *)
theory Media_Attachment
  imports Federation_Contract Agent_Handoff
begin

text \<open>
  Uploads of media to a child platform, after \<open>web/src/media-attachment.ts\<close>: the request of the
  browser, what the adapter of the child answers, and the reference that is stored.
\<close>

section \<open>Data\<close>

definition MEDIA_ATTACHMENT_PROTOCOL :: jstr where
  "MEDIA_ATTACHMENT_PROTOCOL = js ''matchplane.media/v1''"

definition DEFAULT_MAX_MEDIA_BYTES :: nat where "DEFAULT_MAX_MEDIA_BYTES = 25 * 1024 * 1024"
definition MAX_MEDIA_BYTES :: nat where "MAX_MEDIA_BYTES = 256 * 1024 * 1024"

datatype MediaAttachmentKind = KImage | KDocument | KVideo | KAudio | KFile

fun kind_text :: "MediaAttachmentKind \<Rightarrow> jstr" where
  "kind_text KImage = js ''image''"
| "kind_text KDocument = js ''document''"
| "kind_text KVideo = js ''video''"
| "kind_text KAudio = js ''audio''"
| "kind_text KFile = js ''file''"

record MarketplaceAttachment =
  ma_attachment_ref :: jstr
  ma_kind :: MediaAttachmentKind
  ma_file_name :: jstr
  ma_media_type :: jstr
  ma_size_bytes :: int
  ma_sha256 :: jstr
  ma_width :: "int option"
  ma_height :: "int option"
  ma_duration_ms :: "int option"
  ma_metadata :: "(jstr \<times> json) list option"

text \<open>\<open>mu_intent_id\<close>: absent, \<open>null\<close> or an identifier.\<close>

record MediaUploadRequest =
  mu_request_id :: jstr
  mu_tenant_id :: jstr
  mu_domain_id :: jstr
  mu_platform_path :: jstr
  mu_intent_id :: "jstr option option"
  mu_kind :: MediaAttachmentKind
  mu_file_name :: jstr
  mu_media_type :: jstr
  mu_size_bytes :: int
  mu_data_base64 :: jstr

record MediaUploadResponse =
  mr_request_id :: jstr
  mr_attachment :: MarketplaceAttachment

section \<open>Patterns\<close>

definition MEDIA_SHA256_PATTERN :: "jstr \<Rightarrow> bool" where
  "MEDIA_SHA256_PATTERN s \<longleftrightarrow> length s = 64 \<and> list_all is_hex s"

text \<open>\<open>[a-z0-9!#$&^_.+-]\<close> without regard to case, and the subtype may also contain \<open>*\<close>.\<close>

definition mime_char :: "nat \<Rightarrow> bool" where
  "mime_char c \<longleftrightarrow> is_alnum c \<or> c \<in> {33, 35, 36, 38, 94, 95, 46, 43, 45}"

definition mime_part :: "(nat \<Rightarrow> bool) \<Rightarrow> jstr \<Rightarrow> bool" where
  "mime_part ok s \<longleftrightarrow> s \<noteq> [] \<and> length s \<le> 127 \<and> is_alnum (hd s) \<and> list_all ok (tl s)"

definition MIME_PATTERN :: "jstr \<Rightarrow> bool" where
  "MIME_PATTERN s \<longleftrightarrow>
     (case split_on 47 s of [a, b] \<Rightarrow> mime_part mime_char a \<and> mime_part (\<lambda>c. mime_char c \<or> c = 42) b | _ \<Rightarrow> False)"

definition BASE64_PATTERN :: "jstr \<Rightarrow> bool" where
  "BASE64_PATTERN s \<longleftrightarrow>
     (let n = length (takeWhile base64_char s); rest = dropWhile base64_char s
      in rest = [] \<and> n mod 4 = 0 \<or> rest = [61] \<and> n mod 4 = 3 \<or> rest = [61, 61] \<and> n mod 4 = 2)"

definition MEDIA_TYPES :: "jstr list" where
  "MEDIA_TYPES = map js
     [''image/avif'', ''image/gif'', ''image/heic'', ''image/heif'', ''image/jpeg'', ''image/png'', ''image/webp'',
      ''application/json'', ''application/pdf'', ''application/zip'', ''text/plain'',
      ''audio/mpeg'', ''audio/mp4'', ''audio/ogg'', ''audio/wav'', ''audio/webm'',
      ''video/mp4'', ''video/quicktime'', ''video/webm'']"

text \<open>\<open>MEDIA_TYPES.some((pattern) => pattern.test(mediaType))\<close>: the patterns ignore case.\<close>

definition allowed_media_type :: "jstr \<Rightarrow> bool" where
  "allowed_media_type s \<longleftrightarrow> to_lower s \<in> set MEDIA_TYPES"

definition reference_pattern :: "jstr \<Rightarrow> bool" where
  "reference_pattern s \<longleftrightarrow>
     to_lower (take 8 s) = js ''media://'' \<and>
     (let r = drop 8 s in 2 \<le> length r \<and> length r \<le> 512 \<and> is_alnum (hd r) \<and>
        list_all (\<lambda>c. is_alnum c \<or> c \<in> {46, 95, 58, 47, 45}) (tl r))"

section \<open>Checks\<close>

definition isMediaKind :: "json option \<Rightarrow> MediaAttachmentKind option" where
  "isMediaKind v = List.find (\<lambda>k. v = Some (JStr (kind_text k))) [KImage, KDocument, KVideo, KAudio, KFile]"

definition isMimeType :: "json option \<Rightarrow> jstr option" where
  "isMimeType v = (case as_string v of Some s \<Rightarrow> if length s \<le> 255 \<and> MIME_PATTERN s then Some s else None | None \<Rightarrow> None)"

definition safe_file_name :: "jstr \<Rightarrow> bool" where
  "safe_file_name s \<longleftrightarrow>
     1 \<le> length s \<and> length s \<le> 255 \<and> \<not> list_ex (\<lambda>c. c = 92 \<or> c = 47 \<or> c \<le> 31 \<or> c = 127) s \<and> s \<noteq> js ''.'' \<and> s \<noteq> js ''..''"

definition isSafeFileName :: "json option \<Rightarrow> jstr option" where
  "isSafeFileName v = (case as_string v of Some s \<Rightarrow> if safe_file_name s then Some s else None | None \<Rightarrow> None)"

definition document_type :: "jstr \<Rightarrow> bool" where
  "document_type mediaType \<longleftrightarrow> mediaType \<in> {js ''application/pdf'', js ''application/json'', js ''text/plain''}"

definition inferMediaKind :: "jstr \<Rightarrow> MediaAttachmentKind" where
  "inferMediaKind mediaType =
     (if starts_with mediaType (js ''image/'') then KImage
      else if starts_with mediaType (js ''video/'') then KVideo
      else if starts_with mediaType (js ''audio/'') then KAudio
      else if document_type mediaType then KDocument
      else KFile)"

fun kindMatchesMediaType :: "MediaAttachmentKind \<Rightarrow> jstr \<Rightarrow> bool" where
  "kindMatchesMediaType KFile mediaType = True"
| "kindMatchesMediaType KImage mediaType = starts_with mediaType (js ''image/'')"
| "kindMatchesMediaType KVideo mediaType = starts_with mediaType (js ''video/'')"
| "kindMatchesMediaType KAudio mediaType = starts_with mediaType (js ''audio/'')"
| "kindMatchesMediaType KDocument mediaType = document_type mediaType"

definition decodedBase64Bytes :: "jstr \<Rightarrow> int" where
  "decodedBase64Bytes v =
     int (length v) * 3 div 4 - (if ends_with v [61, 61] then 2 else if ends_with v [61] then 1 else 0)"

definition jsonBytes :: "json \<Rightarrow> nat" where
  "jsonBytes v = length (utf8_encode (stringify v))"

text \<open>A safe integer within bounds, the shared test of sizes and dimensions.\<close>

definition whole_within :: "json option \<Rightarrow> int \<Rightarrow> int \<Rightarrow> int option" where
  "whole_within v low high =
     (case as_number v of
        Some n \<Rightarrow> if is_safe_integer n \<and> low \<le> num_int n \<and> num_int n \<le> high then Some (num_int n) else None
      | None \<Rightarrow> None)"

section \<open>Requests\<close>

definition parse_scope :: "json option \<Rightarrow> (jstr \<times> jstr \<times> jstr) ParseResult" where
  "parse_scope v =
     rbind (record_or v (js ''scope must contain tenant_id, domain_id and platform_path'')) (\<lambda>scope.
     rbind (refuse_unsupported [''tenant_id'', ''domain_id'', ''platform_path''] scope ''scope contains an unsupported field: '') (\<lambda>_.
     rbind (uuid_or (member scope ''tenant_id'') (js ''scope.tenant_id must be a UUID'')) (\<lambda>tenant.
     rbind (uuid_or (member scope ''domain_id'') (js ''scope.domain_id must be a UUID'')) (\<lambda>domain.
     case normalizePlatformPath (member scope ''platform_path'') of
       None \<Rightarrow> Inl (js ''scope.platform_path must identify a child platform'')
     | Some path \<Rightarrow>
         if path = [47] then Inl (js ''scope.platform_path must identify a child platform'') else Inr (tenant, domain, path)))))"

definition parse_intent_id :: "json option \<Rightarrow> jstr option option ParseResult" where
  "parse_intent_id v =
     (case v of
        None \<Rightarrow> Inr None
      | Some JNull \<Rightarrow> Inr (Some None)
      | _ \<Rightarrow> rbind (uuid_or v (js ''intent_id must be a UUID or null'')) (\<lambda>s. Inr (Some (Some s))))"

definition parse_upload :: "nat \<Rightarrow> json option \<Rightarrow> (MediaAttachmentKind \<times> jstr \<times> jstr \<times> int \<times> jstr) ParseResult" where
  "parse_upload maximumBytes v =
     rbind (record_or v (js ''attachment is required'')) (\<lambda>a.
     rbind (refuse_unsupported [''kind'', ''file_name'', ''media_type'', ''size_bytes'', ''data_base64''] a
              ''attachment contains an unsupported field: '') (\<lambda>_.
     rbind (or_error (isMediaKind (member a ''kind'')) (js ''attachment.kind is invalid'')) (\<lambda>kind.
     rbind (or_error (isSafeFileName (member a ''file_name'')) (js ''attachment.file_name is invalid'')) (\<lambda>fileName.
     rbind (or_error (case isMimeType (member a ''media_type'') of
          Some s \<Rightarrow> if allowed_media_type s then Some s else None
        | None \<Rightarrow> None) (js ''attachment.media_type is not an allowed media type'')) (\<lambda>mediaType.
     if \<not> kindMatchesMediaType kind mediaType then Inl (js ''attachment.kind does not match media_type'')
     else rbind (or_error (whole_within (member a ''size_bytes'') 1 (int maximumBytes))
            (js ''attachment.size_bytes must be between 1 and '' @ show_nat maximumBytes @ js '' bytes'')) (\<lambda>sizeBytes.
     rbind (or_error (case as_string (member a ''data_base64'') of
          Some s \<Rightarrow> if BASE64_PATTERN s \<and> s \<noteq> [] then Some s else None
        | None \<Rightarrow> None) (js ''attachment.data_base64 must be valid base64'')) (\<lambda>dataBase64.
     if decodedBase64Bytes dataBase64 \<noteq> sizeBytes then Inl (js ''attachment.size_bytes does not match data_base64'')
     else Inr (kind, fileName, to_lower mediaType, sizeBytes, dataBase64))))))))"

definition parseMediaUploadRequest :: "json option \<Rightarrow> nat \<Rightarrow> MediaUploadRequest ParseResult" where
  "parseMediaUploadRequest v maximumBytes =
     rbind (record_or v (js ''media upload must be a JSON object'')) (\<lambda>ms.
     rbind (refuse_unsupported [''protocol'', ''request_id'', ''scope'', ''intent_id'', ''attachment''] ms
              ''media upload contains an unsupported field: '') (\<lambda>_.
     if member ms ''protocol'' \<noteq> Some (JStr MEDIA_ATTACHMENT_PROTOCOL) then Inl (js ''protocol must be matchplane.media/v1'')
     else rbind (uuid_or (member ms ''request_id'') (js ''request_id must be a UUID'')) (\<lambda>requestId.
     rbind (parse_scope (member ms ''scope'')) (\<lambda>(tenant, domain, path).
     rbind (parse_intent_id (member ms ''intent_id'')) (\<lambda>intentId.
     rbind (parse_upload maximumBytes (member ms ''attachment'')) (\<lambda>(kind, fileName, mediaType, sizeBytes, dataBase64).
     Inr \<lparr> mu_request_id = requestId, mu_tenant_id = tenant, mu_domain_id = domain, mu_platform_path = path,
           mu_intent_id = intentId, mu_kind = kind, mu_file_name = fileName, mu_media_type = mediaType,
           mu_size_bytes = sizeBytes, mu_data_base64 = dataBase64 \<rparr>))))))"

section \<open>Answers\<close>

definition text_block :: "json \<Rightarrow> (jstr \<times> json) list option" where
  "text_block item =
     (case as_record (Some item) of
        None \<Rightarrow> None
      | Some ms \<Rightarrow>
          if member ms ''type'' \<noteq> Some (JStr (js ''text'')) then None
          else case as_string (member ms ''text'') of
            None \<Rightarrow> None
          | Some s \<Rightarrow> (case json_parse s of Some (JObj parsed) \<Rightarrow> Some parsed | _ \<Rightarrow> None))"

fun first_text_block :: "json list \<Rightarrow> (jstr \<times> json) list option" where
  "first_text_block [] = None"
| "first_text_block (item # items) = (case text_block item of Some parsed \<Rightarrow> Some parsed | None \<Rightarrow> first_text_block items)"

definition extractMcpMediaUploadResult :: "(jstr \<times> json) list \<Rightarrow> (jstr \<times> json) list ParseResult" where
  "extractMcpMediaUploadResult payload =
     (if as_record (member payload ''error'') \<noteq> None then Inl (js ''media adapter returned an MCP error'')
      else let result = (case as_record (member payload ''result'') of Some r \<Rightarrow> r | None \<Rightarrow> payload)
           in if member result ''isError'' = Some (JBool True) then Inl (js ''media adapter reported a tool error'')
              else case as_record (member result ''structuredContent'') of
                Some r \<Rightarrow> Inr r
              | None \<Rightarrow>
                  (case (case as_array (member result ''content'') of Some items \<Rightarrow> first_text_block items | None \<Rightarrow> None) of
                     Some parsed \<Rightarrow> Inr parsed
                   | None \<Rightarrow> Inl (js ''media adapter did not return structured JSON content'')))"

definition optional_dimension :: "(jstr \<times> json) list \<Rightarrow> string \<Rightarrow> int option ParseResult" where
  "optional_dimension ms field =
     (case member ms field of
        None \<Rightarrow> Inr None
      | v \<Rightarrow> rbind (or_error (whole_within v 0 2000000000) (js ''media attachment '' @ js field @ js '' is invalid'')) (\<lambda>n. Inr (Some n)))"

definition optional_metadata :: "(jstr \<times> json) list \<Rightarrow> (jstr \<times> json) list option ParseResult" where
  "optional_metadata ms =
     (case member ms ''metadata'' of
        None \<Rightarrow> Inr None
      | Some (JObj m) \<Rightarrow> if jsonBytes (JObj m) > 16 * 1024 then Inl (js ''media attachment metadata is invalid'') else Inr (Some m)
      | _ \<Rightarrow> Inl (js ''media attachment metadata is invalid''))"

definition parseAttachmentReference :: "json option \<Rightarrow> nat \<Rightarrow> MarketplaceAttachment ParseResult" where
  "parseAttachmentReference v maximumBytes =
     rbind (record_or v (js ''media adapter attachment must be an object'')) (\<lambda>ms.
     rbind (refuse_unsupported [''attachment_ref'', ''kind'', ''file_name'', ''media_type'', ''size_bytes'', ''sha256'', ''width'',
         ''height'', ''duration_ms'', ''metadata''] ms ''media attachment contains an unsupported field: '') (\<lambda>_.
     rbind (or_error (case as_string (member ms ''attachment_ref'') of
          Some s \<Rightarrow> if reference_pattern s then Some s else None
        | None \<Rightarrow> None) (js ''attachment_ref must be an opaque media:// reference'')) (\<lambda>reference.
     rbind (or_error (isMediaKind (member ms ''kind'')) (js ''media attachment identity is invalid'')) (\<lambda>kind.
     rbind (or_error (isSafeFileName (member ms ''file_name'')) (js ''media attachment identity is invalid'')) (\<lambda>fileName.
     rbind (or_error (isMimeType (member ms ''media_type'')) (js ''media attachment identity is invalid'')) (\<lambda>mediaType.
     if \<not> kindMatchesMediaType kind mediaType then Inl (js ''media attachment kind does not match media_type'')
     else rbind (or_error (whole_within (member ms ''size_bytes'') 1 (int maximumBytes)) (js ''media attachment size is invalid'')) (\<lambda>sizeBytes.
     rbind (or_error (case as_string (member ms ''sha256'') of
          Some s \<Rightarrow> if MEDIA_SHA256_PATTERN s then Some s else None
        | None \<Rightarrow> None) (js ''media attachment sha256 is invalid'')) (\<lambda>digest.
     rbind (optional_dimension ms ''width'') (\<lambda>width.
     rbind (optional_dimension ms ''height'') (\<lambda>height.
     rbind (optional_dimension ms ''duration_ms'') (\<lambda>duration.
     rbind (optional_metadata ms) (\<lambda>metadata.
     Inr \<lparr> ma_attachment_ref = reference, ma_kind = kind, ma_file_name = fileName, ma_media_type = to_lower mediaType,
           ma_size_bytes = sizeBytes, ma_sha256 = to_lower digest, ma_width = width, ma_height = height,
           ma_duration_ms = duration, ma_metadata = metadata \<rparr>))))))))))))"

definition parseMediaUploadResponse :: "json option \<Rightarrow> jstr \<Rightarrow> nat \<Rightarrow> MediaUploadResponse ParseResult" where
  "parseMediaUploadResponse v requestId maximumBytes =
     (case as_record v of
        None \<Rightarrow> Inl (js ''media adapter response must contain attachment'')
      | Some ms \<Rightarrow>
          if as_record (member ms ''attachment'') = None then Inl (js ''media adapter response must contain attachment'')
          else rbind (refuse_unsupported [''protocol'', ''request_id'', ''attachment''] ms
                 ''media adapter response contains an unsupported field: '') (\<lambda>_.
          if member ms ''protocol'' \<noteq> Some (JStr MEDIA_ATTACHMENT_PROTOCOL) then Inl (js ''media adapter returned an unsupported protocol'')
          else if member ms ''request_id'' \<noteq> Some (JStr requestId) then Inl (js ''media adapter request_id does not match'')
          else rbind (parseAttachmentReference (member ms ''attachment'') maximumBytes) (\<lambda>attachment.
               Inr \<lparr> mr_request_id = requestId, mr_attachment = attachment \<rparr>)))"

section \<open>The size of decoded data\<close>

lemma base64_char_not_pad: "base64_char c \<Longrightarrow> c \<noteq> 61"
  by (auto simp: base64_char_def is_alnum_def is_upper_def is_lower_def is_digit_def)

lemma base64_blocks:
  "length ds = 4 * n \<Longrightarrow> list_all base64_char ds \<Longrightarrow> length (base64_bytes (ds @ r)) = 3 * n + length (base64_bytes r)"
proof (induction n arbitrary: ds)
  case (Suc n)
  then obtain a b c d ds' where ds: "ds = a # b # c # d # ds'" by (cases ds rule: base64_bytes.cases) auto
  with Suc.prems base64_char_not_pad have "c \<noteq> 61" "d \<noteq> 61" by auto
  with Suc ds show ?case by (simp add: Let_def)
qed simp

lemma decoded_size:
  assumes "BASE64_PATTERN s"
  shows "decodedBase64Bytes s = int (length (base64_bytes s))"
proof -
  define ds rest where "ds = takeWhile base64_char s" and "rest = dropWhile base64_char s"
  have s: "s = ds @ rest" and all: "list_all base64_char ds"
    by (auto simp: ds_def rest_def list_all_iff dest: set_takeWhileD)
  define n where "n = length ds div 4"
  have head: "length (take (4 * n) ds) = 4 * n" "list_all base64_char (take (4 * n) ds)"
    using all by (auto simp: n_def list_all_iff dest: in_set_takeD)
  have split: "s = take (4 * n) ds @ drop (4 * n) ds @ rest" by (simp add: s)
  have tail: "length (drop (4 * n) ds) = length ds mod 4" by (simp add: n_def minus_mult_div_eq_mod)
  have bytes: "length (base64_bytes s) = 3 * n + length (base64_bytes (drop (4 * n) ds @ rest))"
    using base64_blocks [OF head] by (metis split)
  from assms consider "rest = []" "length ds mod 4 = 0" | "rest = [61]" "length ds mod 4 = 3" | "rest = [61, 61]" "length ds mod 4 = 2"
    by (auto simp: BASE64_PATTERN_def ds_def rest_def Let_def)
  then show ?thesis
  proof cases
    case 1
    then have "length s = 4 * n" using s tail head(1) by (metis append_Nil2 length_0_conv append_take_drop_id)
    moreover have "\<not> ends_with s [61]" "\<not> ends_with s [61, 61]"
    proof -
      have "61 \<notin> set s" using 1(1) s all base64_char_not_pad by (auto simp: list_all_iff)
      moreover have "ends_with s (61 # t) \<Longrightarrow> 61 \<in> set s" for t by (metis ends_with_def in_set_dropD list.set_intros(1))
      ultimately show "\<not> ends_with s [61]" "\<not> ends_with s [61, 61]" by blast+
    qed
    ultimately show ?thesis using bytes 1 tail by (simp add: decodedBase64Bytes_def)
  next
    case 2
    then obtain a b c where t: "drop (4 * n) ds = [a, b, c]" using tail by (auto simp: length_Suc_conv numeral_3_eq_3 simp del: length_drop)
    have "list_all base64_char [a, b, c]" using all t by (metis append_take_drop_id list_all_append)
    then have nc: "c \<noteq> 61" using base64_char_not_pad by auto
    have e: "s = take (4 * n) ds @ [a, b, c, 61]" using split t 2 by simp
    then have "length s = 4 * n + 4" using head(1) by simp
    moreover have "ends_with s [61]" "\<not> ends_with s [61, 61]" using nc head(1) by (auto simp: e ends_with_def)
    ultimately show ?thesis using bytes t 2 nc by (simp add: decodedBase64Bytes_def Let_def)
  next
    case 3
    then obtain a b where t: "drop (4 * n) ds = [a, b]" using tail by (auto simp: length_Suc_conv numeral_2_eq_2 simp del: length_drop)
    have e: "s = take (4 * n) ds @ [a, b, 61, 61]" using split t 3 by simp
    then have "length s = 4 * n + 4" using head(1) by simp
    moreover have "ends_with s [61, 61]" using head(1) by (auto simp: e ends_with_def)
    ultimately show ?thesis using bytes t 3 by (simp add: decodedBase64Bytes_def Let_def)
  qed
qed

section \<open>What accepted uploads and answers satisfy\<close>

lemma isMediaKind_Some: "isMediaKind v = Some k \<Longrightarrow> v = Some (JStr (kind_text k))"
  by (auto simp: isMediaKind_def split: if_splits)

lemma upload_parts:
  assumes "parse_upload maximumBytes v = Inr (kind, fileName, mediaType, sizeBytes, dataBase64)"
  shows "safe_file_name fileName" "mediaType \<in> set MEDIA_TYPES" "1 \<le> sizeBytes" "sizeBytes \<le> int maximumBytes"
    "BASE64_PATTERN dataBase64" "decodedBase64Bytes dataBase64 = sizeBytes" "\<exists>t. mediaType = to_lower t \<and> kindMatchesMediaType kind t"
  using assms
  by (auto simp: parse_upload_def rbind_Inr isSafeFileName_def isMimeType_def allowed_media_type_def whole_within_def
      split: if_splits option.splits)

lemma to_lower_starts: "starts_with t p \<Longrightarrow> to_lower p = p \<Longrightarrow> starts_with (to_lower t) p"
  by (simp add: starts_with_def to_lower_def take_map)

lemma to_lower_literals:
  "to_lower (js ''image/'') = js ''image/''" "to_lower (js ''video/'') = js ''video/''" "to_lower (js ''audio/'') = js ''audio/''"
  "to_lower (js ''application/pdf'') = js ''application/pdf''" "to_lower (js ''application/json'') = js ''application/json''"
  "to_lower (js ''text/plain'') = js ''text/plain''"
  by (simp_all add: to_lower_def lower1_def is_upper_def js_simps)

lemma kind_matches_lower: "kindMatchesMediaType k t \<Longrightarrow> kindMatchesMediaType k (to_lower t)"
  by (cases k) (auto simp: document_type_def to_lower_literals intro: to_lower_starts)

lemma scope_path:
  assumes "parse_scope v = Inr (tenant, domain, path)"
  shows "isUuid (Some (JStr tenant))" "isUuid (Some (JStr domain))" "path \<noteq> [47]" "\<exists>w. normalizePlatformPath w = Some path"
  using assms by (auto simp: parse_scope_def rbind_Inr uuid_or_def as_simps split: option.splits if_splits)

definition upload_ok :: "nat \<Rightarrow> MediaUploadRequest \<Rightarrow> bool" where
  "upload_ok maximumBytes u \<longleftrightarrow>
     isUuid (Some (JStr (mu_request_id u))) \<and> isUuid (Some (JStr (mu_tenant_id u))) \<and> isUuid (Some (JStr (mu_domain_id u))) \<and>
     mu_platform_path u \<noteq> [47] \<and> safe_file_name (mu_file_name u) \<and> mu_media_type u \<in> set MEDIA_TYPES \<and>
     kindMatchesMediaType (mu_kind u) (mu_media_type u) \<and>
     1 \<le> mu_size_bytes u \<and> mu_size_bytes u \<le> int maximumBytes \<and> mu_size_bytes u = int (length (base64_bytes (mu_data_base64 u)))"

section \<open>Claims\<close>

text \<open>
  C35. An upload that is accepted is what it says. The declared size is the number of bytes that its
  data decodes to, at least one and at most the limit, so that a limit on the declared size limits
  the data; the media type is one of the allowed ones in lower case and of the declared kind; the file
  name has no separator or control character; and the target is a child platform.
\<close>

theorem media_upload_sound:
  assumes "parseMediaUploadRequest v maximumBytes = Inr u"
  shows "upload_ok maximumBytes u"
proof -
  from assms obtain ms where i: "isUuid (Some (JStr (mu_request_id u)))"
    and s: "parse_scope (member ms ''scope'') = Inr (mu_tenant_id u, mu_domain_id u, mu_platform_path u)"
    and a: "parse_upload maximumBytes (member ms ''attachment'') =
      Inr (mu_kind u, mu_file_name u, mu_media_type u, mu_size_bytes u, mu_data_base64 u)"
    unfolding parseMediaUploadRequest_def
    by (auto simp: rbind_Inr uuid_or_def as_simps split: if_splits option.splits prod.splits)
  note a' = upload_parts [OF a]
  from a'(7) have "kindMatchesMediaType (mu_kind u) (mu_media_type u)" using kind_matches_lower by auto
  with i scope_path [OF s] a' decoded_size [OF a'(5)] show ?thesis by (simp add: upload_ok_def)
qed

definition example_upload :: json where
  "example_upload = JObj
     [(js ''protocol'', JStr MEDIA_ATTACHMENT_PROTOCOL), (js ''request_id'', JStr (js ''11111111-1111-1111-8111-111111111111'')),
      (js ''scope'', JObj [(js ''tenant_id'', JStr (js ''11111111-1111-1111-8111-111111111111'')),
         (js ''domain_id'', JStr (js ''11111111-1111-1111-8111-111111111111'')), (js ''platform_path'', JStr (js ''/tea''))]),
      (js ''attachment'', JObj [(js ''kind'', JStr (js ''file'')), (js ''file_name'', JStr (js ''a.png'')),
         (js ''media_type'', JStr (js ''IMAGE/PNG'')), (js ''size_bytes'', JNum (Dec 1 0)), (js ''data_base64'', JStr (js ''QQ==''))])]"

theorem media_upload_sound_witness:
  "\<exists>u. parseMediaUploadRequest (Some example_upload) DEFAULT_MAX_MEDIA_BYTES = Inr u \<and> upload_ok DEFAULT_MAX_MEDIA_BYTES u"
proof -
  have "isUuid (Some (JStr (js ''11111111-1111-1111-8111-111111111111'')))" by code_simp
  then have "\<exists>u. parseMediaUploadRequest (Some example_upload) DEFAULT_MAX_MEDIA_BYTES = Inr u"
    by (simp add: parseMediaUploadRequest_def example_upload_def record_or_def refuse_unsupported_def unsupported_key_def
        object_keys_def object_entries_def is_index_key_def uuid_or_def parse_scope_def parse_intent_id_def parse_upload_def
        normalizePlatformPath_def path_char_def isMediaKind_def isSafeFileName_def safe_file_name_def isMimeType_def MIME_PATTERN_def
        mime_part_def mime_char_def allowed_media_type_def MEDIA_TYPES_def to_lower_def lower1_def whole_within_def is_safe_integer_def
        BASE64_PATTERN_def base64_char_def decodedBase64Bytes_def ends_with_def or_error_def MEDIA_ATTACHMENT_PROTOCOL_def
        DEFAULT_MAX_MEDIA_BYTES_def member_def js_simps is_lower_def is_digit_def is_alnum_def is_upper_def Let_def)
  with media_upload_sound show ?thesis by blast
qed

text \<open>
  The same image under its own kind is refused: the list of media types ignores case, the comparison
  with the kind does not.
\<close>

theorem upper_case_type_refused:
  "allowed_media_type (js ''IMAGE/PNG'') \<and> \<not> kindMatchesMediaType KImage (js ''IMAGE/PNG'')"
  by (simp add: allowed_media_type_def MEDIA_TYPES_def to_lower_def lower1_def is_upper_def starts_with_def js_simps)

text \<open>What a stored reference satisfies.\<close>

theorem attachment_reference_sound:
  assumes "parseAttachmentReference v maximumBytes = Inr a"
  shows "reference_pattern (ma_attachment_ref a) \<and> safe_file_name (ma_file_name a) \<and> 1 \<le> ma_size_bytes a \<and>
    ma_size_bytes a \<le> int maximumBytes \<and> kindMatchesMediaType (ma_kind a) (ma_media_type a) \<and> length (ma_sha256 a) = 64"
proof -
  from assms obtain t d where "reference_pattern (ma_attachment_ref a)" "safe_file_name (ma_file_name a)" "1 \<le> ma_size_bytes a"
    "ma_size_bytes a \<le> int maximumBytes" and k: "kindMatchesMediaType (ma_kind a) t" "ma_media_type a = to_lower t"
    and d: "MEDIA_SHA256_PATTERN d" "ma_sha256 a = to_lower d"
    unfolding parseAttachmentReference_def
    by (auto simp: rbind_Inr isSafeFileName_def isMimeType_def whole_within_def split: if_splits option.splits)
  with kind_matches_lower [OF k(1)] show ?thesis by (simp add: MEDIA_SHA256_PATTERN_def to_lower_def)
qed

end
