(* ===== verification/Platform_Tree.thy ===== *)
theory Platform_Tree
  imports Retrieval_Protocol Request_Origin
begin

text \<open>
  Which platform paths are mounted and visible, after \<open>web/src/platform-mount.ts\<close> and
  \<open>web/src/platform-visibility.ts\<close>. The tables are lists of rows and a query is a function of them.
  Each function sends several queries; \<open>reads n\<close> is the database that query \<open>n\<close> sees, or \<open>None\<close> when
  the query fails (also for a text that is not a UUID where one is compared). UUIDs are stored in
  lower case, and a parameter that is cast to a UUID is compared in lower case. A query that takes one row
  takes the first in the order of the tables, which SQL leaves open, and a null text is the empty one. A path is measured in code units; a path
  with a character outside the alphabet of a platform path never grows into one.
\<close>

section \<open>Tables\<close>

record organization =
  og_id :: jstr
  og_slug :: jstr
  og_parent :: "jstr option"
  og_tenantId :: jstr
  og_domainId :: jstr
  og_rootPlatform :: bool

record registration =
  rg_id :: jstr
  rg_tenant :: jstr
  rg_slug :: jstr
  rg_domain :: jstr
  rg_state :: jstr
  rg_version :: int
  rg_membership_policy :: jstr
  rg_source_kind :: jstr
  rg_manifest :: "(jstr \<times> json) list"

record domain_row =
  dm_id :: jstr
  dm_tenant :: jstr
  dm_status :: jstr

record store_row =
  st_id :: jstr
  st_tenant :: jstr
  st_organization :: jstr
  st_domain :: jstr
  st_slug :: jstr
  st_display_name :: jstr
  st_description :: jstr
  st_status :: jstr
  st_integration_kind :: jstr
  st_visibility :: jstr
  st_registration :: "jstr option"
  st_binding :: "jstr option"

record alias_row =
  al_tenant :: jstr
  al_store :: jstr
  al_path :: jstr
  al_canonical :: bool

record binding_row =
  bd_id :: jstr
  bd_tenant :: jstr
  bd_domain :: jstr
  bd_slug :: jstr
  bd_organization :: jstr
  bd_registration :: jstr
  bd_status :: jstr
  bd_mcp_server_key :: jstr

record member_row =
  mb_organization :: jstr
  mb_user :: jstr

record database =
  db_organizations :: "organization list"
  db_registrations :: "registration list"
  db_domains :: "domain_row list"
  db_stores :: "store_row list"
  db_aliases :: "alias_row list"
  db_bindings :: "binding_row list"
  db_members :: "member_row list"

record PlatformViewer =
  vw_authUserId :: "jstr option"
  vw_organizationId :: "jstr option"
  vw_isRootAdministrator :: bool

record platform_environment =
  pe_web :: web_environment
  pe_rootOrganizationId :: "jstr option"

definition active :: jstr where
  "active = js ''active''"

section \<open>The tree of organizations\<close>

text \<open>\<open>EXISTS\<close> of an active registration in an active domain, for an organization of the tree.\<close>

definition domain_active :: "database \<Rightarrow> jstr \<Rightarrow> jstr \<Rightarrow> bool" where
  "domain_active D tenant domain \<longleftrightarrow>
     list_ex (\<lambda>d. dm_id d = domain \<and> dm_tenant d = tenant \<and> dm_status d = active) (db_domains D)"

definition active_registration :: "jstr \<Rightarrow> organization \<Rightarrow> database \<Rightarrow> registration \<Rightarrow> bool" where
  "active_registration tenant o' D r \<longleftrightarrow>
     rg_tenant r = to_lower tenant \<and> rg_slug r = og_slug o' \<and> og_domainId o' \<noteq> [] \<and> rg_domain r = to_lower (og_domainId o') \<and>
     rg_state r = active \<and> domain_active D (rg_tenant r) (rg_domain r)"

definition has_active_registration :: "jstr \<Rightarrow> database \<Rightarrow> organization \<Rightarrow> bool" where
  "has_active_registration tenant D o' \<longleftrightarrow> list_ex (active_registration tenant o' D) (db_registrations D)"

record tree_row =
  tr_organization :: organization
  tr_path :: jstr
  tr_active :: bool
  tr_depth :: nat

definition tree_roots :: "jstr \<Rightarrow> database \<Rightarrow> tree_row list" where
  "tree_roots tenant D =
     map (\<lambda>o'. \<lparr> tr_organization = o', tr_path = [47], tr_active = True, tr_depth = 0 \<rparr>)
       (filter (\<lambda>o'. og_tenantId o' = tenant \<and> og_parent o' = None \<and> og_rootPlatform o') (db_organizations D))"

definition child_path :: "jstr \<Rightarrow> jstr \<Rightarrow> jstr" where
  "child_path path slug = (if path = [47] then 47 # slug else path @ 47 # slug)"

text \<open>
  The recursive part. \<open>limit\<close> is the greatest depth that is extended, if the query has one;
  \<open>same_tenant\<close> is the join condition on the tenant, which one of the queries lacks.
\<close>

definition tree_child :: "jstr \<Rightarrow> database \<Rightarrow> nat option \<Rightarrow> bool \<Rightarrow> tree_row \<Rightarrow> organization \<Rightarrow> bool" where
  "tree_child tenant D limit same_tenant row child \<longleftrightarrow>
     og_parent child = Some (og_id (tr_organization row)) \<and>
     (same_tenant \<longrightarrow> og_tenantId child = og_tenantId (tr_organization row)) \<and>
     (case limit of Some n \<Rightarrow> tr_depth row < n | None \<Rightarrow> True) \<and> length (tr_path row) < 4096"

definition tree_step :: "jstr \<Rightarrow> database \<Rightarrow> nat option \<Rightarrow> bool \<Rightarrow> tree_row list \<Rightarrow> tree_row list" where
  "tree_step tenant D limit same_tenant level =
     concat (map (\<lambda>row. map (\<lambda>child.
         \<lparr> tr_organization = child, tr_path = child_path (tr_path row) (og_slug child),
           tr_active = (tr_active row \<and> has_active_registration tenant D child), tr_depth = Suc (tr_depth row) \<rparr>)
       (filter (tree_child tenant D limit same_tenant row) (db_organizations D))) level)"

fun tree_levels :: "nat \<Rightarrow> jstr \<Rightarrow> database \<Rightarrow> nat option \<Rightarrow> bool \<Rightarrow> tree_row list \<Rightarrow> tree_row list" where
  "tree_levels 0 tenant D limit same_tenant level = level"
| "tree_levels (Suc n) tenant D limit same_tenant level =
     (if level = [] then [] else level @ tree_levels n tenant D limit same_tenant (tree_step tenant D limit same_tenant level))"

text \<open>
  A path grows with every level as long as slugs are not empty, so that no row of level 4096 is
  extended.
\<close>

definition platform_tree :: "jstr \<Rightarrow> database \<Rightarrow> nat option \<Rightarrow> bool \<Rightarrow> tree_row list" where
  "platform_tree tenant D limit same_tenant = tree_levels 4096 tenant D limit same_tenant (tree_roots tenant D)"

text \<open>\<open>key_scope\<close>: an organization and its descendants to a depth of 64.\<close>

definition key_children :: "database \<Rightarrow> jstr list \<Rightarrow> jstr list" where
  "key_children D ids =
     concat (map (\<lambda>i. map og_id (filter (\<lambda>child. og_parent child = Some i) (db_organizations D))) ids)"

fun key_levels :: "nat \<Rightarrow> database \<Rightarrow> jstr list \<Rightarrow> jstr list" where
  "key_levels 0 D ids = ids"
| "key_levels (Suc n) D ids = ids @ key_levels n D (key_children D ids)"

definition key_scope :: "database \<Rightarrow> jstr \<Rightarrow> jstr list" where
  "key_scope D organization = key_levels 64 D [to_lower organization]"

section \<open>Stores\<close>

definition isPlatformPath :: "jstr \<Rightarrow> bool" where
  "isPlatformPath v \<longleftrightarrow>
     (case split_on 47 v of
        [] # p # ps \<Rightarrow> list_all (\<lambda>s. s \<noteq> [] \<and> list_all path_char s) (p # ps)
      | _ \<Rightarrow> False)"

definition store_at :: "database \<Rightarrow> jstr \<Rightarrow> jstr \<Rightarrow> store_row \<Rightarrow> bool" where
  "store_at D tenant path s \<longleftrightarrow>
     st_tenant s = to_lower tenant \<and>
     list_ex (\<lambda>a. al_tenant a = st_tenant s \<and> al_store a = st_id s \<and> al_path a = path) (db_aliases D)"

definition registration_in :: "database \<Rightarrow> store_row \<Rightarrow> jstr list \<Rightarrow> bool" where
  "registration_in D s states \<longleftrightarrow>
     list_ex (\<lambda>r. Some (rg_id r) = st_registration s \<and> rg_state r \<in> set states) (db_registrations D)"

definition binding_in :: "database \<Rightarrow> store_row \<Rightarrow> (jstr \<Rightarrow> bool) \<Rightarrow> bool" where
  "binding_in D s ok \<longleftrightarrow> list_ex (\<lambda>b. Some (bd_id b) = st_binding s \<and> ok (bd_status b)) (db_bindings D)"

definition open_states :: "jstr list" where
  "open_states = map js [''active'', ''closed'', ''suspended'', ''pending'']"

definition hosted :: jstr where "hosted = js ''hosted''"
definition external :: jstr where "external = js ''external''"
definition public_policy :: jstr where "public_policy = js ''public''"

definition is_member :: "database \<Rightarrow> jstr option \<Rightarrow> jstr \<Rightarrow> bool" where
  "is_member D user organization \<longleftrightarrow>
     (case user of
        Some u \<Rightarrow> list_ex (\<lambda>m. mb_organization m = organization \<and> mb_user m = to_lower u) (db_members D)
      | None \<Rightarrow> False)"

definition store_admits :: "database \<Rightarrow> PlatformViewer \<Rightarrow> store_row \<Rightarrow> bool" where
  "store_admits D viewer s \<longleftrightarrow>
     st_visibility s = public_policy \<or> is_member D (vw_authUserId viewer) (st_organization s) \<or>
     map_option to_lower (vw_organizationId viewer) = Some (st_organization s) \<or> vw_isRootAdministrator viewer"

definition visible_store :: "database \<Rightarrow> jstr \<Rightarrow> jstr \<Rightarrow> PlatformViewer \<Rightarrow> store_row \<Rightarrow> bool" where
  "visible_store D tenant path viewer s \<longleftrightarrow>
     store_at D tenant path s \<and> domain_active D (st_tenant s) (st_domain s) \<and> st_status s \<in> set open_states \<and>
     (st_integration_kind s = hosted \<or> registration_in D s [active]) \<and>
     (st_integration_kind s \<noteq> external \<or> binding_in D s (\<lambda>t. t = active)) \<and> store_admits D viewer s"

definition hasStoreProjection :: "database \<Rightarrow> jstr \<Rightarrow> jstr \<Rightarrow> bool" where
  "hasStoreProjection D tenant path \<longleftrightarrow> list_ex (store_at D tenant path) (db_stores D)"

definition scope_ids_ok :: "jstr \<Rightarrow> jstr \<Rightarrow> jstr \<Rightarrow> bool" where
  "scope_ids_ok organization tenant domain \<longleftrightarrow>
     isUuid (Some (JStr organization)) \<and> isUuid (Some (JStr tenant)) \<and> isUuid (Some (JStr domain))"

record MountedPlatformScope =
  mp_organizationId :: jstr
  mp_tenantId :: jstr
  mp_domainId :: jstr
  mp_slug :: jstr

definition store_scope :: "store_row \<Rightarrow> MountedPlatformScope" where
  "store_scope s = \<lparr> mp_organizationId = st_organization s, mp_tenantId = st_tenant s, mp_domainId = st_domain s, mp_slug = st_slug s \<rparr>"

text \<open>The first row of a query, when its identifiers are UUIDs.\<close>

definition checked_scope :: "MountedPlatformScope list \<Rightarrow> MountedPlatformScope option" where
  "checked_scope rows =
     (case rows of
        [] \<Rightarrow> None
      | r # _ \<Rightarrow> if scope_ids_ok (mp_organizationId r) (mp_tenantId r) (mp_domainId r) then Some r else None)"

definition mounted_store :: "database \<Rightarrow> jstr \<Rightarrow> jstr \<Rightarrow> store_row \<Rightarrow> bool" where
  "mounted_store D tenant path s \<longleftrightarrow>
     store_at D tenant path s \<and> domain_active D (st_tenant s) (st_domain s) \<and> st_status s \<in> set open_states \<and>
     (st_integration_kind s = hosted \<or> registration_in D s [active, js ''draft'']) \<and>
     (st_integration_kind s \<noteq> external \<or> binding_in D s (\<lambda>_. True))"

definition readMountedStoreScope :: "database \<Rightarrow> jstr \<Rightarrow> jstr \<Rightarrow> MountedPlatformScope option" where
  "readMountedStoreScope D tenant path = checked_scope (map store_scope (filter (mounted_store D tenant path) (db_stores D)))"

definition active_store :: "database \<Rightarrow> jstr \<Rightarrow> jstr \<Rightarrow> store_row \<Rightarrow> bool" where
  "active_store D tenant path s \<longleftrightarrow>
     store_at D tenant path s \<and> domain_active D (st_tenant s) (st_domain s) \<and> st_status s = active \<and>
     (st_integration_kind s = hosted \<or> registration_in D s [active]) \<and>
     (st_integration_kind s \<noteq> external \<or> binding_in D s (\<lambda>t. t = active))"

definition readActiveStoreScope :: "database \<Rightarrow> jstr \<Rightarrow> jstr \<Rightarrow> MountedPlatformScope option" where
  "readActiveStoreScope D tenant path = checked_scope (map store_scope (filter (active_store D tenant path) (db_stores D)))"

section \<open>Mounting\<close>

definition root_tenant :: "platform_environment \<Rightarrow> jstr option" where
  "root_tenant E = configuredTenantId (pe_web E)"

definition isMountedPlatformPath :: "platform_environment \<Rightarrow> (nat \<Rightarrow> database option) \<Rightarrow> jstr \<Rightarrow> bool" where
  "isMountedPlatformPath E reads path =
     (if \<not> isProductionEnvironment (pe_web E) \<or> path = [47] then True
      else case root_tenant E of
        None \<Rightarrow> False
      | Some tenant \<Rightarrow>
          if \<not> isPlatformPath path then False
          else case reads 0 of
            None \<Rightarrow> False
          | Some D0 \<Rightarrow>
              if readMountedStoreScope D0 tenant path \<noteq> None then True
              else case reads 1 of
                None \<Rightarrow> False
              | Some D1 \<Rightarrow>
                  if hasStoreProjection D1 tenant path then False
                  else case reads 2 of
                    None \<Rightarrow> False
                  | Some D2 \<Rightarrow> list_ex (\<lambda>row. tr_path row = path \<and> tr_active row) (platform_tree tenant D2 None True))"

definition tree_scope :: "tree_row \<Rightarrow> MountedPlatformScope" where
  "tree_scope row = (let o' = tr_organization row in
     \<lparr> mp_organizationId = og_id o', mp_tenantId = og_tenantId o', mp_domainId = og_domainId o', mp_slug = og_slug o' \<rparr>)"

definition readActivePlatformScope :: "platform_environment \<Rightarrow> (nat \<Rightarrow> database option) \<Rightarrow> jstr \<Rightarrow> MountedPlatformScope option" where
  "readActivePlatformScope E reads path =
     (if \<not> isProductionEnvironment (pe_web E) \<or> path = [47] then None
      else case root_tenant E of
        None \<Rightarrow> None
      | Some tenant \<Rightarrow>
          if \<not> isPlatformPath path then None
          else case reads 0 of
            None \<Rightarrow> None
          | Some D0 \<Rightarrow>
              (case readActiveStoreScope D0 tenant path of
                 Some scope \<Rightarrow> Some scope
               | None \<Rightarrow>
                   (case reads 1 of
                      None \<Rightarrow> None
                    | Some D1 \<Rightarrow>
                        if hasStoreProjection D1 tenant path then None
                        else case reads 2 of
                          None \<Rightarrow> None
                        | Some D2 \<Rightarrow>
                            checked_scope (map tree_scope
                              (filter (\<lambda>row. tr_path row = path \<and> tr_active row \<and> og_domainId (tr_organization row) \<noteq> [])
                                (platform_tree tenant D2 None False))))))"

definition configured_root :: "platform_environment \<Rightarrow> jstr option" where
  "configured_root E =
     (case pe_rootOrganizationId E of
        Some t \<Rightarrow> if isUuid (Some (JStr (trim t))) then Some (to_lower (trim t)) else None
      | None \<Rightarrow> None)"

definition isPlatformPathAccessibleByOrganization ::
    "platform_environment \<Rightarrow> (nat \<Rightarrow> database option) \<Rightarrow> jstr \<Rightarrow> jstr \<Rightarrow> bool" where
  "isPlatformPathAccessibleByOrganization E reads path organization =
     (case root_tenant E of
        None \<Rightarrow> False
      | Some tenant \<Rightarrow>
          if \<not> isUuid (Some (JStr organization)) then False
          else if path = [47] then
            (case reads 0 of
               None \<Rightarrow> False
             | Some D \<Rightarrow>
                 list_ex (\<lambda>o'. og_id o' = to_lower organization \<and> og_tenantId o' = tenant \<and> og_parent o' = None \<and> og_rootPlatform o' \<and>
                   (configured_root E = None \<or> configured_root E = Some (og_id o'))) (db_organizations D))
          else if \<not> isPlatformPath path then False
          else
            (case reads 0 of
               None \<Rightarrow> False
             | Some D \<Rightarrow>
                 list_ex (\<lambda>row. tr_path row = path \<and> tr_active row \<and>
                     og_id (tr_organization row) \<in> set (key_scope D organization) \<and>
                     to_lower organization \<in> og_id ` set (db_organizations D))
                   (platform_tree tenant D None True)))"

section \<open>Visibility\<close>

text \<open>The registration of a node with the greatest version, of those in an active domain.\<close>

definition latest_registration :: "jstr \<Rightarrow> database \<Rightarrow> organization \<Rightarrow> registration option" where
  "latest_registration tenant D o' =
     (let rs = filter (active_registration tenant o' D) (db_registrations D)
      in List.find (\<lambda>r. list_all (\<lambda>r'. rg_version r' \<le> rg_version r) rs) rs)"

definition node_admits :: "database \<Rightarrow> PlatformViewer \<Rightarrow> organization \<Rightarrow> jstr \<Rightarrow> bool" where
  "node_admits D viewer o' membership_policy \<longleftrightarrow>
     membership_policy = public_policy \<or> is_member D (vw_authUserId viewer) (og_id o') \<or>
     (case vw_organizationId viewer of Some k \<Rightarrow> og_id o' \<in> set (key_scope D k) | None \<Rightarrow> False) \<or>
     vw_isRootAdministrator viewer"

definition visible_node :: "jstr \<Rightarrow> database \<Rightarrow> jstr \<Rightarrow> PlatformViewer \<Rightarrow> tree_row \<Rightarrow> bool" where
  "visible_node tenant D path viewer row \<longleftrightarrow>
     tr_path row = path \<and> tr_active row \<and>
     (case latest_registration tenant D (tr_organization row) of
        Some r \<Rightarrow> node_admits D viewer (tr_organization row) (rg_membership_policy r)
      | None \<Rightarrow> False)"

definition isActivePlatformPathVisible ::
    "platform_environment \<Rightarrow> (nat \<Rightarrow> database option) \<Rightarrow> jstr \<Rightarrow> PlatformViewer \<Rightarrow> bool" where
  "isActivePlatformPathVisible E reads path viewer =
     (if path = [47] \<or> \<not> isProductionEnvironment (pe_web E) then True
      else case root_tenant E of
        None \<Rightarrow> False
      | Some tenant \<Rightarrow>
          if \<not> isPlatformPath path then False
          else case reads 0 of
            None \<Rightarrow> False
          | Some D0 \<Rightarrow>
              if list_ex (visible_store D0 tenant path viewer) (db_stores D0) then True
              else case reads 1 of
                None \<Rightarrow> False
              | Some D1 \<Rightarrow>
                  if hasStoreProjection D1 tenant path then False
                  else case reads 2 of
                    None \<Rightarrow> False
                  | Some D2 \<Rightarrow> list_ex (visible_node tenant D2 path viewer) (platform_tree tenant D2 (Some 64) True))"

section \<open>The tree query and its specification\<close>

text \<open>A chain of organizations below a root, and the path that their slugs spell.\<close>

fun chain_from :: "database \<Rightarrow> bool \<Rightarrow> organization \<Rightarrow> organization list \<Rightarrow> bool" where
  "chain_from D same_tenant parent [] \<longleftrightarrow> True"
| "chain_from D same_tenant parent (o' # os) \<longleftrightarrow>
     o' \<in> set (db_organizations D) \<and> og_parent o' = Some (og_id parent) \<and>
     (same_tenant \<longrightarrow> og_tenantId o' = og_tenantId parent) \<and> chain_from D same_tenant o' os"

definition chain_path :: "organization list \<Rightarrow> jstr" where
  "chain_path os = (if os = [] then [47] else concat (map (\<lambda>o'. 47 # og_slug o') os))"

definition is_root :: "jstr \<Rightarrow> database \<Rightarrow> organization \<Rightarrow> bool" where
  "is_root tenant D r \<longleftrightarrow> r \<in> set (db_organizations D) \<and> og_tenantId r = tenant \<and> og_parent r = None \<and> og_rootPlatform r"

definition slugs_ok :: "database \<Rightarrow> bool" where
  "slugs_ok D \<longleftrightarrow> (\<forall>o' \<in> set (db_organizations D). og_slug o' \<noteq> [])"

text \<open>The row that a chain stands for.\<close>

definition chain_row :: "jstr \<Rightarrow> database \<Rightarrow> organization \<Rightarrow> organization list \<Rightarrow> tree_row" where
  "chain_row tenant D r os =
     \<lparr> tr_organization = last (r # os), tr_path = chain_path os, tr_active = list_all (has_active_registration tenant D) os,
       tr_depth = length os \<rparr>"

text \<open>Every proper beginning of a chain is within the limits of the query.\<close>

definition within_limits :: "nat option \<Rightarrow> organization list \<Rightarrow> bool" where
  "within_limits limit os \<longleftrightarrow>
     (\<forall>k < length os. (case limit of Some n \<Rightarrow> k < n | None \<Rightarrow> True) \<and> length (chain_path (take k os)) < 4096)"

definition tree_chain :: "jstr \<Rightarrow> database \<Rightarrow> nat option \<Rightarrow> bool \<Rightarrow> organization \<Rightarrow> organization list \<Rightarrow> bool" where
  "tree_chain tenant D limit same_tenant r os \<longleftrightarrow>
     is_root tenant D r \<and> chain_from D same_tenant r os \<and> within_limits limit os"

lemma chain_from_snoc:
  "chain_from D same_tenant r (os @ [c]) \<longleftrightarrow>
     chain_from D same_tenant r os \<and> c \<in> set (db_organizations D) \<and> og_parent c = Some (og_id (last (r # os))) \<and>
     (same_tenant \<longrightarrow> og_tenantId c = og_tenantId (last (r # os)))"
  by (induction os arbitrary: r) auto

lemma chain_from_in: "chain_from D same_tenant r os \<Longrightarrow> o' \<in> set os \<Longrightarrow> o' \<in> set (db_organizations D)"
  by (induction os arbitrary: r) auto

lemma chain_path_length: "(\<And>o'. o' \<in> set os \<Longrightarrow> og_slug o' \<noteq> []) \<Longrightarrow> length os < length (chain_path os)"
proof -
  assume s: "\<And>o'. o' \<in> set os \<Longrightarrow> og_slug o' \<noteq> []"
  have "os \<noteq> [] \<Longrightarrow> length os < length (concat (map (\<lambda>o'. 47 # og_slug o') os))"
    using s
  proof (induction os)
    case (Cons o' os)
    then have "og_slug o' \<noteq> []" by simp
    then have "1 \<le> length (og_slug o')" by (cases "og_slug o'") auto
    with Cons show ?case by (cases "os = []") auto
  qed simp
  then show ?thesis by (auto simp: chain_path_def)
qed

lemma chain_path_snoc:
  assumes "\<And>o'. o' \<in> set os \<Longrightarrow> og_slug o' \<noteq> []"
  shows "child_path (chain_path os) (og_slug c) = chain_path (os @ [c])"
proof (cases "os = []")
  case False
  with chain_path_length [of os] assms have "1 < length (chain_path os)" by (cases os) auto
  then have "chain_path os \<noteq> [47]" by auto
  with False show ?thesis by (simp add: child_path_def chain_path_def)
qed (simp add: child_path_def chain_path_def)

lemma chain_row_child:
  assumes "slugs_ok D" and "tree_chain tenant D limit same_tenant r os" and "c \<in> set (db_organizations D)"
    and "tree_child tenant D limit same_tenant (chain_row tenant D r os) c"
  shows "tree_chain tenant D limit same_tenant r (os @ [c])"
    "\<lparr> tr_organization = c, tr_path = child_path (tr_path (chain_row tenant D r os)) (og_slug c),
       tr_active = (tr_active (chain_row tenant D r os) \<and> has_active_registration tenant D c),
       tr_depth = Suc (tr_depth (chain_row tenant D r os)) \<rparr> = chain_row tenant D r (os @ [c])"
proof -
  have s: "\<And>o'. o' \<in> set os \<Longrightarrow> og_slug o' \<noteq> []" using assms(1,2) chain_from_in unfolding slugs_ok_def tree_chain_def by blast
  show "tree_chain tenant D limit same_tenant r (os @ [c])"
    using assms(2-4) unfolding tree_chain_def chain_from_snoc within_limits_def
    by (auto simp: tree_child_def chain_row_def less_Suc_eq split: option.splits)
  show "\<lparr> tr_organization = c, tr_path = child_path (tr_path (chain_row tenant D r os)) (og_slug c),
       tr_active = (tr_active (chain_row tenant D r os) \<and> has_active_registration tenant D c),
       tr_depth = Suc (tr_depth (chain_row tenant D r os)) \<rparr> = chain_row tenant D r (os @ [c])"
    using chain_path_snoc [OF s] by (auto simp: chain_row_def)
qed

lemma tree_levels_sound:
  assumes "slugs_ok D"
  shows "(\<And>row. row \<in> set level \<Longrightarrow> \<exists>r os. tree_chain tenant D limit same_tenant r os \<and> row = chain_row tenant D r os) \<Longrightarrow>
    row \<in> set (tree_levels n tenant D limit same_tenant level) \<Longrightarrow>
    \<exists>r os. tree_chain tenant D limit same_tenant r os \<and> row = chain_row tenant D r os"
proof (induction n arbitrary: level)
  case (Suc n)
  have "\<exists>r os. tree_chain tenant D limit same_tenant r os \<and> row' = chain_row tenant D r os"
    if "row' \<in> set (tree_step tenant D limit same_tenant level)" for row'
  proof -
    from that obtain row0 c where c: "row0 \<in> set level" "c \<in> set (db_organizations D)" "tree_child tenant D limit same_tenant row0 c"
      "row' = \<lparr> tr_organization = c, tr_path = child_path (tr_path row0) (og_slug c),
           tr_active = (tr_active row0 \<and> has_active_registration tenant D c), tr_depth = Suc (tr_depth row0) \<rparr>"
      by (auto simp: tree_step_def)
    from Suc.prems(1) [OF c(1)] obtain r os where r: "tree_chain tenant D limit same_tenant r os" "row0 = chain_row tenant D r os" by blast
    from chain_row_child [OF assms r(1) c(2)] c(3,4) r(2) show ?thesis by metis
  qed
  with Suc.prems Suc.IH [of "tree_step tenant D limit same_tenant level"] show ?case by (auto split: if_splits)
qed simp

lemma tree_levels_include:
  "k \<le> n \<Longrightarrow> row \<in> set ((tree_step tenant D limit same_tenant ^^ k) level) \<Longrightarrow> row \<in> set (tree_levels n tenant D limit same_tenant level)"
proof (induction n arbitrary: k level)
  case (Suc n)
  have e: "(tree_step tenant D limit same_tenant ^^ m) [] = []" for m by (induction m) (auto simp: tree_step_def)
  show ?case
  proof (cases k)
    case 0
    with Suc.prems show ?thesis by auto
  next
    case (Suc m)
    with Suc.prems have row: "row \<in> set ((tree_step tenant D limit same_tenant ^^ m) (tree_step tenant D limit same_tenant level))"
      by (simp add: funpow_swap1)
    then have "level \<noteq> []" using e [of m] by (auto simp: tree_step_def)
    with Suc.IH [OF _ row] Suc.prems(1) Suc show ?thesis by simp
  qed
qed simp

lemma tree_step_child:
  "row \<in> set level \<Longrightarrow> c \<in> set (db_organizations D) \<Longrightarrow> tree_child tenant D limit same_tenant row c \<Longrightarrow>
    \<lparr> tr_organization = c, tr_path = child_path (tr_path row) (og_slug c),
      tr_active = (tr_active row \<and> has_active_registration tenant D c), tr_depth = Suc (tr_depth row) \<rparr>
      \<in> set (tree_step tenant D limit same_tenant level)"
  by (auto simp: tree_step_def)

lemma chain_in_level:
  assumes "slugs_ok D"
  shows "tree_chain tenant D limit same_tenant r os \<Longrightarrow>
    chain_row tenant D r os \<in> set ((tree_step tenant D limit same_tenant ^^ length os) (tree_roots tenant D))"
proof (induction os rule: rev_induct)
  case Nil
  then show ?case by (auto simp: tree_chain_def is_root_def tree_roots_def chain_row_def chain_path_def)
next
  case (snoc c os)
  let ?f = "tree_step tenant D limit same_tenant"
  have os: "tree_chain tenant D limit same_tenant r os"
    using snoc.prems unfolding tree_chain_def chain_from_snoc within_limits_def by (auto dest: less_SucI)
  have t: "tree_child tenant D limit same_tenant (chain_row tenant D r os) c" and c: "c \<in> set (db_organizations D)"
    using snoc.prems unfolding tree_chain_def chain_from_snoc within_limits_def
    by (auto simp: tree_child_def chain_row_def)
  have "chain_row tenant D r (os @ [c]) \<in> set (?f ((?f ^^ length os) (tree_roots tenant D)))"
    using tree_step_child [OF snoc.IH [OF os] c t] unfolding chain_row_child(2) [OF assms os c t] .
  then show ?case by simp
qed

lemma tree_query_rows:
  assumes "slugs_ok D"
  shows "row \<in> set (platform_tree tenant D limit same_tenant) \<longleftrightarrow>
    (\<exists>r os. tree_chain tenant D limit same_tenant r os \<and> row = chain_row tenant D r os)"
proof
  assume "row \<in> set (platform_tree tenant D limit same_tenant)"
  moreover have "\<exists>r os. tree_chain tenant D limit same_tenant r os \<and> row' = chain_row tenant D r os" if "row' \<in> set (tree_roots tenant D)" for row'
  proof -
    from that obtain r where "is_root tenant D r" "row' = chain_row tenant D r []"
      by (auto simp: tree_roots_def is_root_def chain_row_def chain_path_def)
    then show ?thesis unfolding tree_chain_def within_limits_def by (intro exI [of _ r] exI [of _ "[]"]) simp
  qed
  ultimately show "\<exists>r os. tree_chain tenant D limit same_tenant r os \<and> row = chain_row tenant D r os"
    using tree_levels_sound [OF assms, of "tree_roots tenant D" tenant limit same_tenant row 4096] unfolding platform_tree_def by blast
next
  assume "\<exists>r os. tree_chain tenant D limit same_tenant r os \<and> row = chain_row tenant D r os"
  then obtain r os where c: "tree_chain tenant D limit same_tenant r os" "row = chain_row tenant D r os" by blast
  have "length os \<le> 4096"
  proof (cases os rule: rev_cases)
    case (snoc os' x)
    have "length (chain_path os') < 4096"
      using c(1) snoc unfolding tree_chain_def within_limits_def by (auto dest: spec [of _ "length os'"])
    moreover have "\<And>o'. o' \<in> set os' \<Longrightarrow> og_slug o' \<noteq> []"
      using assms c(1) snoc chain_from_in unfolding slugs_ok_def tree_chain_def by (metis UnCI set_append)
    ultimately show ?thesis using chain_path_length [of os'] snoc by simp
  qed simp
  then show "row \<in> set (platform_tree tenant D limit same_tenant)"
    unfolding platform_tree_def c(2) using chain_in_level [OF assms c(1)] by (rule tree_levels_include)
qed

lemma latest_registration_Some: "latest_registration tenant D o' = Some r \<Longrightarrow> r \<in> set (db_registrations D) \<and> active_registration tenant o' D r"
  by (auto simp: latest_registration_def find_Some_iff Let_def dest: nth_mem)

lemma visible_store_mounted:
  assumes "list_ex (visible_store D tenant path viewer) (db_stores D)"
    and "\<forall>s \<in> set (db_stores D). scope_ids_ok (st_organization s) (st_tenant s) (st_domain s)"
  shows "readMountedStoreScope D tenant path \<noteq> None"
proof -
  have "mounted_store D tenant path s" if "visible_store D tenant path viewer s" for s
    using that by (auto simp: visible_store_def mounted_store_def registration_in_def binding_in_def list_ex_iff)
  with assms(1) obtain s where "s \<in> set (filter (mounted_store D tenant path) (db_stores D))" by (auto simp: list_ex_iff)
  then obtain x xs where x: "filter (mounted_store D tenant path) (db_stores D) = x # xs"
    by (cases "filter (mounted_store D tenant path) (db_stores D)") auto
  then have "x \<in> set (db_stores D)" using filter_is_subset by (metis list.set_intros(1) subsetD)
  with x assms(2) show ?thesis by (simp add: readMountedStoreScope_def checked_scope_def store_scope_def)
qed

lemma tree_chain_unlimited: "tree_chain tenant D limit same_tenant r os \<Longrightarrow> tree_chain tenant D None same_tenant r os"
  by (auto simp: tree_chain_def within_limits_def)

lemma visible_node_mounted:
  assumes "slugs_ok D" and "list_ex (visible_node tenant D path viewer) (platform_tree tenant D (Some 64) True)"
  shows "list_ex (\<lambda>row. tr_path row = path \<and> tr_active row) (platform_tree tenant D None True)"
proof -
  from assms(2) obtain row where row: "row \<in> set (platform_tree tenant D (Some 64) True)" "tr_path row = path" "tr_active row"
    by (auto simp: list_ex_iff visible_node_def)
  then have "row \<in> set (platform_tree tenant D None True)"
    unfolding tree_query_rows [OF assms(1)] using tree_chain_unlimited by blast
  with row(2,3) show ?thesis by (auto simp: list_ex_iff)
qed

section \<open>A database\<close>

definition tree_tenant :: jstr where "tree_tenant = js ''11111111-1111-4111-8111-111111111111''"
definition shop_uuid :: jstr where "shop_uuid = js ''22222222-2222-4222-8222-222222222222''"
definition domain_uuid :: jstr where "domain_uuid = js ''33333333-3333-4333-8333-333333333333''"
definition root_uuid :: jstr where "root_uuid = js ''44444444-4444-4444-8444-444444444444''"

definition root_organization :: organization where
  "root_organization =
     \<lparr> og_id = root_uuid, og_slug = js ''root'', og_parent = None, og_tenantId = tree_tenant, og_domainId = [], og_rootPlatform = True \<rparr>"

definition shop_organization :: organization where
  "shop_organization =
     \<lparr> og_id = shop_uuid, og_slug = js ''shop'', og_parent = Some root_uuid, og_tenantId = tree_tenant, og_domainId = domain_uuid,
       og_rootPlatform = False \<rparr>"

definition shop_registration :: registration where
  "shop_registration =
     \<lparr> rg_id = shop_uuid, rg_tenant = tree_tenant, rg_slug = js ''shop'', rg_domain = domain_uuid, rg_state = active, rg_version = 1,
       rg_membership_policy = js ''invite'', rg_source_kind = js ''hosted'', rg_manifest = [] \<rparr>"

definition example_tree :: database where
  "example_tree =
     \<lparr> db_organizations = [root_organization, shop_organization], db_registrations = [shop_registration],
       db_domains = [\<lparr> dm_id = domain_uuid, dm_tenant = tree_tenant, dm_status = active \<rparr>],
       db_stores = [], db_aliases = [], db_bindings = [], db_members = [\<lparr> mb_organization = shop_uuid, mb_user = root_uuid \<rparr>] \<rparr>"

definition tree_environment :: platform_environment where
  "tree_environment =
     \<lparr> pe_web = \<lparr> we_MATCHPLANE_ENVIRONMENT = Some (js ''production''), we_NODE_ENV = None, we_BETTER_AUTH_URL = None,
         we_NEXT_PUBLIC_BETTER_AUTH_URL = None, we_BETTER_AUTH_TRUSTED_ORIGINS = None, we_MATCHPLANE_ROOT_TENANT_ID = Some tree_tenant \<rparr>,
       pe_rootOrganizationId = None \<rparr>"

definition invited_viewer :: PlatformViewer where
  "invited_viewer = \<lparr> vw_authUserId = Some root_uuid, vw_organizationId = None, vw_isRootAdministrator = False \<rparr>"

lemma tree_environment_production: "isProductionEnvironment (pe_web tree_environment)"
  by (simp add: isProductionEnvironment_def runtimeEnvironment_def trimmed_variable_def tree_environment_def trim_def js_simps
      is_space_def Let_def)

lemma tree_environment_tenant: "root_tenant tree_environment = Some tree_tenant"
proof -
  have "isUuid (Some (JStr tree_tenant))" by code_simp
  then show ?thesis
    by (simp add: root_tenant_def configuredTenantId_def tree_environment_def tree_tenant_def trim_def js_simps is_space_def Let_def)
qed

lemma example_tree_visible: "isActivePlatformPathVisible tree_environment (\<lambda>_. Some example_tree) (js ''/shop'') invited_viewer"
proof -
  have "js ''/shop'' \<noteq> [47]" "isPlatformPath (js ''/shop'')" "\<not> list_ex (visible_store example_tree tree_tenant (js ''/shop'') invited_viewer) (db_stores example_tree)"
    "\<not> hasStoreProjection example_tree tree_tenant (js ''/shop'')"
    by code_simp+
  moreover have "list_ex (visible_node tree_tenant example_tree (js ''/shop'') invited_viewer) (platform_tree tree_tenant example_tree (Some 64) True)"
    by code_simp
  ultimately show ?thesis
    by (simp add: isActivePlatformPathVisible_def tree_environment_production tree_environment_tenant)
qed

lemma example_tree_slugs: "slugs_ok example_tree"
  by code_simp

section \<open>Claims\<close>

text \<open>
  C33. The recursive query lists exactly the chains of organizations: a row is in its result if
  and only if there is a chain from a root platform of the tenant, each organization the child of the one
  before, within the limits of the query, whose slugs spell the path; the row is active if and only if
  every organization on the chain below the root has an active registration in an active domain.
\<close>

theorem tree_query_exact:
  assumes "slugs_ok D"
  shows "(\<exists>row \<in> set (platform_tree tenant D limit same_tenant). tr_path row = path \<and> tr_active row \<and> tr_organization row = o') \<longleftrightarrow>
    (\<exists>r os. tree_chain tenant D limit same_tenant r os \<and> chain_path os = path \<and> last (r # os) = o' \<and>
       (\<forall>x \<in> set os. has_active_registration tenant D x))"
  (is "?L \<longleftrightarrow> ?R")
proof
  assume ?L
  then obtain row where row: "row \<in> set (platform_tree tenant D limit same_tenant)" "tr_path row = path" "tr_active row" "tr_organization row = o'"
    by blast
  from row(1) obtain r os where "tree_chain tenant D limit same_tenant r os" "row = chain_row tenant D r os"
    unfolding tree_query_rows [OF assms] by blast
  with row(2-4) show ?R by (intro exI [of _ r] exI [of _ os]) (simp add: chain_row_def list_all_iff)
next
  assume ?R
  then obtain r os where c: "tree_chain tenant D limit same_tenant r os" "chain_path os = path" "last (r # os) = o'"
    "\<forall>x \<in> set os. has_active_registration tenant D x" by blast
  then have "chain_row tenant D r os \<in> set (platform_tree tenant D limit same_tenant)" unfolding tree_query_rows [OF assms] by blast
  with c(2-4) show ?L by (intro bexI [of _ "chain_row tenant D r os"]) (simp_all add: chain_row_def list_all_iff)
qed

theorem tree_query_exact_witness:
  "slugs_ok example_tree \<and>
   (\<exists>r os. tree_chain tree_tenant example_tree (Some 64) True r os \<and> chain_path os = js ''/shop'' \<and> last (r # os) = shop_organization \<and>
      (\<forall>x \<in> set os. has_active_registration tree_tenant example_tree x))"
proof -
  have "\<exists>row \<in> set (platform_tree tree_tenant example_tree (Some 64) True).
      tr_path row = js ''/shop'' \<and> tr_active row \<and> tr_organization row = shop_organization"
    by code_simp
  with tree_query_exact [OF example_tree_slugs, of tree_tenant "Some 64" True "js ''/shop''" shop_organization] example_tree_slugs
  show ?thesis by blast
qed

text \<open>
  C32. In production a path is shown only to whom it is open, and an error hides it. When a path other
  than the root is visible, a root tenant is configured and either a store of the tenant has this path, is
  in an active domain with what its kind needs active, and is public or admits the viewer; or no store has
  the path and it is spelled by a chain of organizations that all have an active registration, the last of
  which is public, has the viewer as a member, is in the scope of the viewer's key, or the viewer is a
  root administrator.
\<close>

theorem visible_path_justified:
  assumes "isActivePlatformPathVisible E reads path viewer" and "isProductionEnvironment (pe_web E)" and "path \<noteq> [47]"
    and "\<And>D. reads 2 = Some D \<Longrightarrow> slugs_ok D"
  shows "\<exists>tenant. root_tenant E = Some tenant \<and>
    ((\<exists>D. \<exists>s \<in> set (db_stores D). reads 0 = Some D \<and> visible_store D tenant path viewer s) \<or>
     (\<exists>D1 D2 r os m. reads 1 = Some D1 \<and> \<not> hasStoreProjection D1 tenant path \<and> reads 2 = Some D2 \<and>
        tree_chain tenant D2 (Some 64) True r os \<and> chain_path os = path \<and> (\<forall>x \<in> set os. has_active_registration tenant D2 x) \<and>
        m \<in> set (db_registrations D2) \<and> active_registration tenant (last (r # os)) D2 m \<and>
        node_admits D2 viewer (last (r # os)) (rg_membership_policy m)))"
proof -
  from assms(1-3) obtain tenant D0 where t: "root_tenant E = Some tenant" "reads 0 = Some D0"
    by (auto simp: isActivePlatformPathVisible_def split: option.splits if_splits)
  show ?thesis
  proof (cases "list_ex (visible_store D0 tenant path viewer) (db_stores D0)")
    case True
    then obtain s where "s \<in> set (db_stores D0)" "visible_store D0 tenant path viewer s" by (auto simp: list_ex_iff)
    with t show ?thesis by blast
  next
    case False
    with assms(1-3) t obtain D1 D2 row where d: "reads 1 = Some D1" "\<not> hasStoreProjection D1 tenant path" "reads 2 = Some D2"
      "row \<in> set (platform_tree tenant D2 (Some 64) True)" "visible_node tenant D2 path viewer row"
      by (auto simp: isActivePlatformPathVisible_def list_ex_iff split: option.splits if_splits)
    from tree_query_rows [OF assms(4) [OF d(3)], THEN iffD1, OF d(4)] obtain r os where
      c: "tree_chain tenant D2 (Some 64) True r os" "row = chain_row tenant D2 r os" by blast
    from d(5) obtain m where m: "latest_registration tenant D2 (tr_organization row) = Some m" "tr_path row = path" "tr_active row"
      "node_admits D2 viewer (tr_organization row) (rg_membership_policy m)"
      by (auto simp: visible_node_def split: option.splits)
    from c(2) have row: "tr_organization row = last (r # os)" "tr_path row = chain_path os"
      "tr_active row \<longleftrightarrow> (\<forall>x \<in> set os. has_active_registration tenant D2 x)"
      by (simp_all add: chain_row_def list_all_iff)
    from latest_registration_Some [OF m(1)] m d c(1) t(1) show ?thesis unfolding row by blast
  qed
qed

theorem visible_path_justified_witness:
  "isActivePlatformPathVisible tree_environment (\<lambda>_. Some example_tree) (js ''/shop'') invited_viewer \<and>
   isProductionEnvironment (pe_web tree_environment) \<and> (\<exists>tenant. root_tenant tree_environment = Some tenant)"
proof -
  note p = tree_environment_production
  have n: "js ''/shop'' \<noteq> [47]" by code_simp
  have "\<And>D. Some example_tree = Some D \<Longrightarrow> slugs_ok D" using example_tree_slugs by simp
  from visible_path_justified [OF example_tree_visible p n this] p example_tree_visible show ?thesis by blast
qed

text \<open>
  C34. What is visible is mounted: on one state of the database, whose stores have the identifiers of their
  columns' type, a path that a viewer is shown is a path that the deployment serves.
\<close>

theorem visible_is_mounted:
  assumes "isActivePlatformPathVisible E (\<lambda>_. Some D) path viewer" and "slugs_ok D"
    and "\<forall>s \<in> set (db_stores D). scope_ids_ok (st_organization s) (st_tenant s) (st_domain s)"
  shows "isMountedPlatformPath E (\<lambda>_. Some D) path"
proof (cases "isProductionEnvironment (pe_web E) \<and> path \<noteq> [47]")
  case True
  with assms(1) obtain tenant where t: "root_tenant E = Some tenant" "isPlatformPath path"
    by (auto simp: isActivePlatformPathVisible_def split: option.splits if_splits)
  show ?thesis
  proof (cases "list_ex (visible_store D tenant path viewer) (db_stores D)")
    case v: True
    then show ?thesis using True t visible_store_mounted [OF v assms(3)] by (simp add: isMountedPlatformPath_def)
  next
    case False
    with assms(1) True t have "\<not> hasStoreProjection D tenant path"
      and "list_ex (visible_node tenant D path viewer) (platform_tree tenant D (Some 64) True)"
      by (auto simp: isActivePlatformPathVisible_def split: if_splits)
    then show ?thesis using True t visible_node_mounted [OF assms(2)] by (simp add: isMountedPlatformPath_def)
  qed
qed (auto simp: isMountedPlatformPath_def)

theorem visible_is_mounted_witness:
  "isActivePlatformPathVisible tree_environment (\<lambda>_. Some example_tree) (js ''/shop'') invited_viewer \<and>
   isMountedPlatformPath tree_environment (\<lambda>_. Some example_tree) (js ''/shop'')"
  using visible_is_mounted [OF example_tree_visible example_tree_slugs] example_tree_visible by (simp add: example_tree_def)

text \<open>
  A key of the parent organization admits to its child, although only a key that is bound directly to the
  organization of an invite-only node is to see it.
\<close>

theorem ancestor_key_admits:
  assumes "o' \<in> set (db_organizations D)" and "og_parent o' = Some (to_lower k)" and "vw_organizationId viewer = Some k"
  shows "node_admits D viewer o' policy"
proof -
  have mono: "x \<in> set (key_levels (Suc n) D ids) \<longleftrightarrow> x \<in> set ids \<or> x \<in> set (key_levels n D (key_children D ids))" for x n ids by simp
  have first: "x \<in> set ids \<Longrightarrow> x \<in> set (key_levels n D ids)" for x n ids by (cases n) auto
  have "og_id o' \<in> set (key_children D [to_lower k])" using assms(1,2) by (auto simp: key_children_def)
  then have "og_id o' \<in> set (key_levels 63 D (key_children D [to_lower k]))" by (rule first)
  then have "og_id o' \<in> set (key_levels (Suc 63) D [to_lower k])" unfolding mono by blast
  then show ?thesis using assms(3) by (simp add: node_admits_def key_scope_def)
qed

end
