(* ===== verification/Admin_Invite.thy ===== *)
theory Admin_Invite
  imports Request_Origin Body_Limit
begin

text \<open>
  Redemption of administrator invitations, after \<open>web/app/api/admin-invites/redeem/route.ts\<close> with
  \<open>applyPlatformAdminInviteRole\<close> of \<open>web/src/lib/auth.ts\<close>. The requests run concurrently, each on a
  connection of its own: a step executes one statement, or one call of the account library, of one
  request. A transaction works on the newest committed version of a row that it holds a lock on, and
  its changes are seen by others when it commits. Every statement may fail, may take effect without
  its answer arriving, and the process may die. The account library is an argument; its store is changed by
  others at any time.
\<close>

section \<open>Data\<close>

datatype invite_role = RootAdmin | SubplatformAdmin

text \<open>A row of \<open>platform_admin_invites\<close>.\<close>

record invite_row =
  iv_id :: jstr
  iv_tokenHash :: jstr
  iv_organization :: jstr
  iv_role :: invite_role
  iv_targetEmail :: "jstr option"
  iv_expires :: int
  iv_usedAt :: "int option"
  iv_usedBy :: "jstr option"
  iv_claimedBy :: "jstr option"
  iv_claimedAt :: "int option"
  iv_claimExpires :: "int option"

record InviteRow =
  in_inviteId :: jstr
  in_organizationId :: jstr
  in_role :: invite_role
  in_targetEmail :: "jstr option"
  in_tenantId :: jstr
  in_rootPlatform :: bool
  in_claimedBy :: "jstr option"

record session_user =
  su_id :: jstr
  su_email :: jstr
  su_emailVerified :: bool

datatype redeem_problem =
    UntrustedOrigin | NoSession | Unverified | TooLarge | BadJson | BadToken | NoTenant | Expired | WrongEmail
  | NotRootOrganization | RootOrganization | BoundElsewhere | Occupied | Unavailable

datatype redeem_response = Refused redeem_problem | Redeemed jstr jstr | Rejected

fun redeem_status :: "redeem_response \<Rightarrow> nat" where
  "redeem_status (Refused UntrustedOrigin) = 403"
| "redeem_status (Refused NoSession) = 401"
| "redeem_status (Refused Unverified) = 403"
| "redeem_status (Refused TooLarge) = 413"
| "redeem_status (Refused BadJson) = 400"
| "redeem_status (Refused BadToken) = 400"
| "redeem_status (Refused NoTenant) = 503"
| "redeem_status (Refused Expired) = 410"
| "redeem_status (Refused WrongEmail) = 403"
| "redeem_status (Refused NotRootOrganization) = 409"
| "redeem_status (Refused RootOrganization) = 409"
| "redeem_status (Refused BoundElsewhere) = 409"
| "redeem_status (Refused Occupied) = 409"
| "redeem_status (Refused Unavailable) = 503"
| "redeem_status (Redeemed _ _) = 200"
| "redeem_status Rejected = 500"

text \<open>
  What is not in the repository: the adapters of the account library over a store of type \<open>'a\<close>, and
  the conversion to lower case.
\<close>

record 'a redeem_world =
  rd_platform :: platform
  rd_env :: web_environment
  rd_toLowerCase :: "jstr \<Rightarrow> jstr"
  rd_findUserById :: "'a \<Rightarrow> jstr \<Rightarrow> jstr option option"
  rd_updateUser :: "'a \<Rightarrow> jstr \<Rightarrow> jstr \<Rightarrow> 'a"
  rd_findMember :: "'a \<Rightarrow> jstr \<Rightarrow> jstr \<Rightarrow> (jstr \<times> jstr) option"
  rd_createMember :: "'a \<Rightarrow> jstr \<Rightarrow> jstr \<Rightarrow> jstr \<Rightarrow> 'a"
  rd_updateMember :: "'a \<Rightarrow> jstr \<Rightarrow> jstr \<Rightarrow> 'a"

section \<open>Before the database\<close>

definition parseToken :: "json option \<Rightarrow> jstr option" where
  "parseToken v =
     (case as_string v of
        Some s \<Rightarrow> if take 4 s = js ''mpa_'' \<and> length s = 68 \<and> list_all is_hex_lower (drop 4 s) then Some s else None
      | None \<Rightarrow> None)"

definition token_hash :: "'a redeem_world \<Rightarrow> jstr \<Rightarrow> jstr" where
  "token_hash W token = sha256 (rd_platform W) (utf8_encode token)"

record redeem_request =
  rr_request :: web_request
  rr_message :: http_message
  rr_session :: "session_user option"

text \<open>
  The checks up to the connection: the token, the account and the tenant, or an answer. A body that is
  \<open>null\<close> makes the property access throw, which nothing catches. \<open>None\<close>: the body never ends.
\<close>

definition redeem_checks :: "'a redeem_world \<Rightarrow> redeem_request \<Rightarrow> (redeem_response + jstr \<times> session_user \<times> jstr) option" where
  "redeem_checks W r =
     (if \<not> hasTrustedBrowserOrigin (rd_platform W) (rd_env W) (rr_request r) then Some (Inl (Refused UntrustedOrigin))
      else case rr_session r of
        None \<Rightarrow> Some (Inl (Refused NoSession))
      | Some user \<Rightarrow>
          if \<not> su_emailVerified user then Some (Inl (Refused Unverified))
          else case fst (readJsonBody (rr_message r) (16 * 1024)) of
            None \<Rightarrow> None
          | Some (Inl (RequestBodyTooLargeError _)) \<Rightarrow> Some (Inl (Refused TooLarge))
          | Some (Inl _) \<Rightarrow> Some (Inl (Refused BadJson))
          | Some (Inr JNull) \<Rightarrow> Some (Inl Rejected)
          | Some (Inr v) \<Rightarrow>
              (case parseToken (case as_record (Some v) of Some ms \<Rightarrow> member ms ''token'' | None \<Rightarrow> None) of
                 None \<Rightarrow> Some (Inl (Refused BadToken))
               | Some token \<Rightarrow>
                   (case configuredTenantId (rd_env W) of
                      None \<Rightarrow> Some (Inl (Refused NoTenant))
                    | Some tenant \<Rightarrow> Some (Inr (token, user, tenant)))))"

section \<open>State\<close>

text \<open>Where a request stands: the statement or call that is next, or its end.\<close>

datatype redeem_position =
    RConnect | RBegin | RSelect | RRefuse redeem_problem | RClaim | RCommitClaim
  | RFindUser | RUpdateUser | RFindMember | RCreateMember | RUpdateMember jstr
  | RBeginMark | RMark | RRollbackMark | RCommitMark
  | RCaught | RBeginRelease | RRelease | RCommitRelease | RRollbackRelease
  | RDone redeem_response | RDead

text \<open>
  \<open>rc_change\<close> is the uncommitted version of a row. \<open>rc_selectedAt\<close> is the time at which the invitation was
  read, for specification only.
\<close>

record redeem_call =
  rc_token :: jstr
  rc_user :: session_user
  rc_tenant :: jstr
  rc_at :: redeem_position
  rc_invite :: "InviteRow option"
  rc_roleApplicationAttempted :: bool
  rc_change :: "invite_row option"
  rc_applied :: jstr
  rc_selectedAt :: int

text \<open>
  \<open>rs_organizations\<close> gives the tenant and the \<open>rootPlatform\<close> flag. \<open>rs_granted\<close> is the history of
  roles that were written, as invitation and account, for specification only.
\<close>

record 'a redeem_system =
  rs_invites :: "invite_row list"
  rs_organizations :: "jstr \<rightharpoonup> jstr \<times> bool"
  rs_locks :: "jstr \<rightharpoonup> nat"
  rs_accounts :: 'a
  rs_clock :: int
  rs_calls :: "nat \<rightharpoonup> redeem_call"
  rs_granted :: "(jstr \<times> jstr) list"

datatype outcome = Succeeds | Fails | LostReply

datatype 'a redeem_event =
    Passes nat | Issues invite_row | Accounts 'a | Arrives nat redeem_request | Runs nat outcome | Dies nat

section \<open>Statements\<close>

definition put_call :: "nat \<Rightarrow> redeem_call \<Rightarrow> 'a redeem_system \<Rightarrow> 'a redeem_system" where
  "put_call i c s = s\<lparr> rs_calls := (rs_calls s)(i \<mapsto> c) \<rparr>"

definition goes :: "nat \<Rightarrow> redeem_call \<Rightarrow> redeem_position \<Rightarrow> 'a redeem_system \<Rightarrow> 'a redeem_system" where
  "goes i c p s = put_call i (c\<lparr> rc_at := p \<rparr>) s"

definition lock_free :: "nat \<Rightarrow> jstr \<Rightarrow> 'a redeem_system \<Rightarrow> bool" where
  "lock_free i v s \<longleftrightarrow> rs_locks s v = None \<or> rs_locks s v = Some i"

definition unlocked :: "nat \<Rightarrow> 'a redeem_system \<Rightarrow> 'a redeem_system" where
  "unlocked i s = s\<lparr> rs_locks := (\<lambda>v. if rs_locks s v = Some i then None else rs_locks s v) \<rparr>"

definition locked :: "nat \<Rightarrow> jstr \<Rightarrow> 'a redeem_system \<Rightarrow> 'a redeem_system" where
  "locked i v s = s\<lparr> rs_locks := (rs_locks s)(v \<mapsto> i) \<rparr>"

definition row_of :: "'a redeem_system \<Rightarrow> jstr \<Rightarrow> invite_row option" where
  "row_of s v = List.find (\<lambda>row. iv_id row = v) (rs_invites s)"

definition put_row :: "invite_row \<Rightarrow> 'a redeem_system \<Rightarrow> 'a redeem_system" where
  "put_row row s = s\<lparr> rs_invites := map (\<lambda>r. if iv_id r = iv_id row then row else r) (rs_invites s) \<rparr>"

text \<open>The end of a transaction, with its change or without.\<close>

definition roll_back :: "nat \<Rightarrow> redeem_call \<Rightarrow> redeem_position \<Rightarrow> 'a redeem_system \<Rightarrow> 'a redeem_system" where
  "roll_back i c p s = goes i (c\<lparr> rc_change := None \<rparr>) p (unlocked i s)"

definition commit_change :: "nat \<Rightarrow> redeem_call \<Rightarrow> redeem_position \<Rightarrow> 'a redeem_system \<Rightarrow> 'a redeem_system" where
  "commit_change i c p s =
     goes i (c\<lparr> rc_change := None \<rparr>) p (unlocked i (case rc_change c of None \<Rightarrow> s | Some row \<Rightarrow> put_row row s))"

text \<open>\<open>SELECT \<dots> FOR UPDATE\<close>. The hash is unique in the table.\<close>

definition redeemable :: "'a redeem_world \<Rightarrow> redeem_call \<Rightarrow> 'a redeem_system \<Rightarrow> invite_row \<Rightarrow> bool" where
  "redeemable W c s row \<longleftrightarrow>
     iv_tokenHash row = token_hash W (rc_token c) \<and> iv_usedAt row = None \<and> rs_clock s < iv_expires row \<and>
     map_option fst (rs_organizations s (iv_organization row)) = Some (rc_tenant c)"

definition invite_of :: "'a redeem_system \<Rightarrow> redeem_call \<Rightarrow> invite_row \<Rightarrow> InviteRow" where
  "invite_of s c row =
     \<lparr> in_inviteId = iv_id row, in_organizationId = iv_organization row, in_role = iv_role row, in_targetEmail = iv_targetEmail row,
       in_tenantId = rc_tenant c, in_rootPlatform = (case rs_organizations s (iv_organization row) of Some (_, flag) \<Rightarrow> flag | None \<Rightarrow> False),
       in_claimedBy = iv_claimedBy row \<rparr>"

definition redeem_decision :: "'a redeem_world \<Rightarrow> session_user \<Rightarrow> InviteRow \<Rightarrow> redeem_position" where
  "redeem_decision W user invite =
     (if (case in_targetEmail invite of Some e \<Rightarrow> e \<noteq> [] \<and> rd_toLowerCase W e \<noteq> rd_toLowerCase W (su_email user) | None \<Rightarrow> False)
      then RRefuse WrongEmail
      else if in_role invite = RootAdmin \<and> \<not> in_rootPlatform invite then RRefuse NotRootOrganization
      else if in_role invite = SubplatformAdmin \<and> in_rootPlatform invite then RRefuse RootOrganization
      else if (case in_claimedBy invite of Some k \<Rightarrow> k \<noteq> su_id user | None \<Rightarrow> False) then RRefuse BoundElsewhere
      else RClaim)"

definition select_invite :: "'a redeem_world \<Rightarrow> nat \<Rightarrow> redeem_call \<Rightarrow> bool \<Rightarrow> 'a redeem_system \<Rightarrow> 'a redeem_system option" where
  "select_invite W i c answered s =
     (case List.find (redeemable W c s) (rs_invites s) of
        None \<Rightarrow> Some (goes i c (if answered then RRefuse Expired else RCaught) s)
      | Some row \<Rightarrow>
          if \<not> lock_free i (iv_id row) s then None
          else if \<not> answered then Some (goes i c RCaught (locked i (iv_id row) s))
          else let invite = invite_of s c row
               in Some (goes i (c\<lparr> rc_invite := Some invite, rc_selectedAt := rs_clock s \<rparr>) (redeem_decision W (rc_user c) invite)
                    (locked i (iv_id row) s)))"

text \<open>An \<open>UPDATE\<close> of one row by its identifier under a condition; it waits when another transaction holds the row.\<close>

definition update_row ::
    "(invite_row \<Rightarrow> bool) \<Rightarrow> (invite_row \<Rightarrow> invite_row) \<Rightarrow> redeem_position \<Rightarrow> redeem_position \<Rightarrow>
     nat \<Rightarrow> redeem_call \<Rightarrow> 'a redeem_system \<Rightarrow> 'a redeem_system option" where
  "update_row condition change hit miss i c s =
     (case rc_invite c of
        None \<Rightarrow> None
      | Some invite \<Rightarrow>
          (case row_of s (in_inviteId invite) of
             Some row \<Rightarrow>
               if \<not> condition row then Some (goes i c miss s)
               else if \<not> lock_free i (in_inviteId invite) s then None
               else Some (goes i (c\<lparr> rc_change := Some (change row) \<rparr>) hit (locked i (in_inviteId invite) s))
           | None \<Rightarrow> Some (goes i c miss s)))"

definition claimable :: "jstr \<Rightarrow> invite_row \<Rightarrow> bool" where
  "claimable u row \<longleftrightarrow> iv_usedAt row = None \<and> (iv_claimedBy row = None \<or> iv_claimedBy row = Some u)"

definition claimed :: "int \<Rightarrow> jstr \<Rightarrow> invite_row \<Rightarrow> invite_row" where
  "claimed now u row = row\<lparr> iv_claimedBy := Some u, iv_claimedAt := Some now, iv_claimExpires := Some (now + 10 * 60 * 1000000) \<rparr>"

definition held :: "jstr \<Rightarrow> invite_row \<Rightarrow> bool" where
  "held u row \<longleftrightarrow> iv_usedAt row = None \<and> iv_claimedBy row = Some u"

definition marked :: "int \<Rightarrow> jstr \<Rightarrow> invite_row \<Rightarrow> invite_row" where
  "marked now u row =
     row\<lparr> iv_usedAt := Some now, iv_usedBy := Some u, iv_claimedBy := None, iv_claimedAt := None, iv_claimExpires := None \<rparr>"

definition released :: "invite_row \<Rightarrow> invite_row" where
  "released row = row\<lparr> iv_claimedBy := None, iv_claimedAt := None, iv_claimExpires := None \<rparr>"

section \<open>The account library\<close>

text \<open>\<open>applyPlatformAdminInviteRole\<close>: the reads choose the next call, the writes give the role.\<close>

definition find_user :: "'a redeem_world \<Rightarrow> nat \<Rightarrow> redeem_call \<Rightarrow> InviteRow \<Rightarrow> 'a redeem_system \<Rightarrow> 'a redeem_system" where
  "find_user W i c invite s =
     (case rd_findUserById W (rs_accounts s) (su_id (rc_user c)) of
        None \<Rightarrow> goes i c RCaught s
      | Some role \<Rightarrow>
          if in_role invite = RootAdmin
          then if role = Some (js ''rootSuperAdmin'') then goes i (c\<lparr> rc_applied := js ''rootSuperAdmin'' \<rparr>) RBeginMark s
               else goes i c RUpdateUser s
          else goes i c RFindMember s)"

definition find_member :: "'a redeem_world \<Rightarrow> nat \<Rightarrow> redeem_call \<Rightarrow> InviteRow \<Rightarrow> 'a redeem_system \<Rightarrow> 'a redeem_system" where
  "find_member W i c invite s =
     (case rd_findMember W (rs_accounts s) (su_id (rc_user c)) (in_organizationId invite) of
        None \<Rightarrow> goes i c RCreateMember s
      | Some (m, role) \<Rightarrow>
          if role \<noteq> js ''owner'' \<and> role \<noteq> js ''admin'' then goes i c (RUpdateMember m) s
          else goes i (c\<lparr> rc_applied := (if role = js ''owner'' then js ''owner'' else js ''admin'') \<rparr>) RBeginMark s)"

definition gives :: "nat \<Rightarrow> redeem_call \<Rightarrow> InviteRow \<Rightarrow> bool \<Rightarrow> jstr \<Rightarrow> 'a \<Rightarrow> 'a redeem_system \<Rightarrow> 'a redeem_system" where
  "gives i c invite answered role accounts s =
     goes i (c\<lparr> rc_applied := role \<rparr>) (if answered then RBeginMark else RCaught)
       (s\<lparr> rs_accounts := accounts, rs_granted := rs_granted s @ [(in_inviteId invite, su_id (rc_user c))] \<rparr>)"

definition account_call :: "'a redeem_world \<Rightarrow> nat \<Rightarrow> redeem_call \<Rightarrow> InviteRow \<Rightarrow> outcome \<Rightarrow> 'a redeem_system \<Rightarrow> 'a redeem_system option" where
  "account_call W i c invite x s =
     (let u = su_id (rc_user c); a = rs_accounts s; org = in_organizationId invite; answered = (x = Succeeds)
      in if x = Fails then Some (goes i c RCaught s)
         else case rc_at c of
           RFindUser \<Rightarrow> Some (if answered then find_user W i c invite s else goes i c RCaught s)
         | RFindMember \<Rightarrow> Some (if answered then find_member W i c invite s else goes i c RCaught s)
         | RUpdateUser \<Rightarrow> Some (gives i c invite answered (js ''rootAdmin'') (rd_updateUser W a u (js ''rootAdmin'')) s)
         | RCreateMember \<Rightarrow> Some (gives i c invite answered (js ''admin'') (rd_createMember W a org u (js ''admin'')) s)
         | RUpdateMember m \<Rightarrow> Some (gives i c invite answered (js ''admin'') (rd_updateMember W a m (js ''admin'')) s)
         | _ \<Rightarrow> None)"

section \<open>A step of a request\<close>

text \<open>
  Whatever fails before an answer leads to the \<open>catch\<close>, which rolls back; when that fails too, the server
  drops the transaction with its connection. The claim is then released, unless the role may already
  have been applied by this request.
\<close>

definition statement :: "'a redeem_world \<Rightarrow> nat \<Rightarrow> redeem_call \<Rightarrow> outcome \<Rightarrow> 'a redeem_system \<Rightarrow> 'a redeem_system option" where
  "statement W i c x s =
     (let u = su_id (rc_user c); now = rs_clock s; ok = (x = Succeeds);
          to = (\<lambda>p q. if ok then p else q)
      in case rc_at c of
        RConnect \<Rightarrow> Some (goes i c (to RBegin (RDone Rejected)) s)
      | RBegin \<Rightarrow> Some (goes i c (to RSelect RCaught) s)
      | RSelect \<Rightarrow> if x = Fails then Some (goes i c RCaught s) else select_invite W i c ok s
      | RRefuse problem \<Rightarrow>
          Some (if x = Fails then goes i c RCaught s else roll_back i c (to (RDone (Refused problem)) RCaught) s)
      | RClaim \<Rightarrow>
          if x = Fails then Some (goes i c RCaught s)
          else update_row (claimable u) (claimed now u) (to RCommitClaim RCaught) (to (RRefuse Occupied) RCaught) i c s
      | RCommitClaim \<Rightarrow>
          Some (if x = Fails then goes i c RCaught s
                else if ok then commit_change i (c\<lparr> rc_roleApplicationAttempted := True \<rparr>) RFindUser s
                else commit_change i c RCaught s)
      | RBeginMark \<Rightarrow> Some (goes i c (to RMark RCaught) s)
      | RMark \<Rightarrow>
          if x = Fails then Some (goes i c RCaught s)
          else update_row (held u) (marked now u) (to RCommitMark RCaught) (to RRollbackMark RCaught) i c s
      | RRollbackMark \<Rightarrow> Some (if x = Fails then goes i c RCaught s else roll_back i c RCaught s)
      | RCommitMark \<Rightarrow>
          Some (if x = Fails then goes i c RCaught s
                else commit_change i c
                  (to (RDone (Redeemed (case rc_invite c of Some invite \<Rightarrow> in_organizationId invite | None \<Rightarrow> []) (rc_applied c))) RCaught) s)
      | RCaught \<Rightarrow>
          Some (roll_back i c (if rc_invite c \<noteq> None \<and> \<not> rc_roleApplicationAttempted c then RBeginRelease
                               else RDone (Refused Unavailable)) s)
      | RBeginRelease \<Rightarrow> Some (goes i c (to RRelease RRollbackRelease) s)
      | RRelease \<Rightarrow>
          if x = Fails then Some (goes i c RRollbackRelease s)
          else update_row (held u) released (to RCommitRelease RRollbackRelease) (to RCommitRelease RRollbackRelease) i c s
      | RCommitRelease \<Rightarrow>
          Some (if x = Fails then goes i c RRollbackRelease s
                else commit_change i c (to (RDone (Refused Unavailable)) RRollbackRelease) s)
      | RRollbackRelease \<Rightarrow> Some (roll_back i c (RDone (Refused Unavailable)) s)
      | RDone _ \<Rightarrow> None
      | RDead \<Rightarrow> None
      | _ \<Rightarrow> (case rc_invite c of Some invite \<Rightarrow> account_call W i c invite x s | None \<Rightarrow> None))"

definition new_call :: "jstr \<times> session_user \<times> jstr \<Rightarrow> redeem_call" where
  "new_call = (\<lambda>(token, user, tenant).
     \<lparr> rc_token = token, rc_user = user, rc_tenant = tenant, rc_at = RConnect, rc_invite = None,
       rc_roleApplicationAttempted = False, rc_change = None, rc_applied = [], rc_selectedAt = 0 \<rparr>)"

definition fresh_invite :: "'a redeem_system \<Rightarrow> invite_row \<Rightarrow> bool" where
  "fresh_invite s row \<longleftrightarrow>
     iv_usedAt row = None \<and> iv_usedBy row = None \<and> iv_claimedBy row = None \<and>
     list_all (\<lambda>r. iv_id r \<noteq> iv_id row \<and> iv_tokenHash r \<noteq> iv_tokenHash row) (rs_invites s)"

text \<open>A request that the checks answer has no further steps.\<close>

definition redeem_step :: "'a redeem_world \<Rightarrow> 'a redeem_event \<Rightarrow> 'a redeem_system \<Rightarrow> 'a redeem_system option" where
  "redeem_step W e s =
     (case e of
        Passes d \<Rightarrow> Some (s\<lparr> rs_clock := rs_clock s + int d \<rparr>)
      | Issues row \<Rightarrow> (if fresh_invite s row then Some (s\<lparr> rs_invites := rs_invites s @ [row] \<rparr>) else None)
      | Accounts a \<Rightarrow> Some (s\<lparr> rs_accounts := a \<rparr>)
      | Arrives i r \<Rightarrow>
          (case redeem_checks W r of
             Some (Inr x) \<Rightarrow> if rs_calls s i = None then Some (put_call i (new_call x) s) else None
           | _ \<Rightarrow> Some s)
      | Runs i x \<Rightarrow> (case rs_calls s i of Some c \<Rightarrow> statement W i c x s | None \<Rightarrow> None)
      | Dies i \<Rightarrow> (case rs_calls s i of Some c \<Rightarrow> Some (roll_back i c RDead s) | None \<Rightarrow> None))"

fun redeem_run :: "'a redeem_world \<Rightarrow> 'a redeem_event list \<Rightarrow> 'a redeem_system \<Rightarrow> 'a redeem_system option" where
  "redeem_run W [] s = Some s"
| "redeem_run W (e # es) s = (case redeem_step W e s of Some s' \<Rightarrow> redeem_run W es s' | None \<Rightarrow> None)"

section \<open>The table under a step\<close>

lemma row_of_put [simp]: "row_of (put_row row s) v = (if v = iv_id row then map_option (\<lambda>_. row) (row_of s v) else row_of s v)"
proof -
  have "List.find (\<lambda>r. iv_id r = v) (map (\<lambda>r. if iv_id r = iv_id row then row else r) rows) =
    (if v = iv_id row then map_option (\<lambda>_. row) (List.find (\<lambda>r. iv_id r = v) rows) else List.find (\<lambda>r. iv_id r = v) rows)" for rows
    by (induction rows) auto
  then show ?thesis by (simp add: row_of_def put_row_def)
qed

lemma put_row_simps [simp]:
  "rs_locks (put_row row s) = rs_locks s" "rs_calls (put_row row s) = rs_calls s" "rs_granted (put_row row s) = rs_granted s"
  by (simp_all add: put_row_def)

lemma goes_simps [simp]:
  "rs_locks (goes i c p s) = rs_locks s" "rs_calls (goes i c p s) = (rs_calls s)(i \<mapsto> c\<lparr> rc_at := p \<rparr>)"
  "rs_granted (goes i c p s) = rs_granted s" "row_of (goes i c p s) v = row_of s v"
  by (simp_all add: goes_def put_call_def row_of_def)

lemma lock_simps [simp]:
  "rs_locks (unlocked i s) v = (if rs_locks s v = Some i then None else rs_locks s v)" "rs_calls (unlocked i s) = rs_calls s"
  "rs_granted (unlocked i s) = rs_granted s" "row_of (unlocked i s) v = row_of s v"
  "rs_locks (locked i w s) = (rs_locks s)(w \<mapsto> i)" "rs_calls (locked i w s) = rs_calls s"
  "rs_granted (locked i w s) = rs_granted s" "row_of (locked i w s) v = row_of s v"
  by (simp_all add: unlocked_def locked_def row_of_def)

lemma invites_simps [simp]:
  "rs_invites (goes i c p s) = rs_invites s" "rs_invites (unlocked i s) = rs_invites s" "rs_invites (locked i w s) = rs_invites s"
  "map iv_id (rs_invites (put_row row s)) = map iv_id (rs_invites s)"
  by (auto simp: goes_def put_call_def unlocked_def locked_def put_row_def)

lemma row_of_in:
  assumes "distinct (map iv_id (rs_invites s))" and "row \<in> set (rs_invites s)"
  shows "row_of s (iv_id row) = Some row"
proof -
  have "distinct (map iv_id rows) \<Longrightarrow> row \<in> set rows \<Longrightarrow> List.find (\<lambda>r. iv_id r = iv_id row) rows = Some row" for rows
    by (induction rows) force+
  with assms show ?thesis by (simp add: row_of_def)
qed

lemma row_of_id: "row_of s v = Some row \<Longrightarrow> iv_id row = v"
  by (auto simp: row_of_def find_Some_iff)

text \<open>The columns that no statement of the route writes.\<close>

definition same_columns :: "invite_row \<Rightarrow> invite_row \<Rightarrow> bool" where
  "same_columns row row' \<longleftrightarrow>
     iv_id row' = iv_id row \<and> iv_tokenHash row' = iv_tokenHash row \<and> iv_organization row' = iv_organization row \<and>
     iv_role row' = iv_role row \<and> iv_targetEmail row' = iv_targetEmail row \<and> iv_expires row' = iv_expires row"

lemma same_columns_refl [simp]: "same_columns row row"
  by (simp add: same_columns_def)

lemma changes_keep_columns [simp]:
  "same_columns row (claimed t u row)" "same_columns row (marked t u row)" "same_columns row (released row)"
  by (simp_all add: same_columns_def claimed_def marked_def released_def)

text \<open>A step of request \<open>i\<close> seen from the others.\<close>

definition evolves :: "nat \<Rightarrow> 'a redeem_system \<Rightarrow> 'a redeem_system \<Rightarrow> bool" where
  "evolves i s s' \<longleftrightarrow>
     (\<forall>v row. row_of s v = Some row \<longrightarrow>
        (\<exists>row'. row_of s' v = Some row' \<and> same_columns row row' \<and> (\<forall>j. j \<noteq> i \<and> rs_locks s v = Some j \<longrightarrow> row' = row))) \<and>
     (\<forall>v j. j \<noteq> i \<and> rs_locks s v = Some j \<longrightarrow> rs_locks s' v = Some j)"

section \<open>What a request knows\<close>

definition applying :: "redeem_position \<Rightarrow> bool" where
  "applying p \<longleftrightarrow>
     (case p of RFindUser \<Rightarrow> True | RUpdateUser \<Rightarrow> True | RFindMember \<Rightarrow> True | RCreateMember \<Rightarrow> True | RUpdateMember _ \<Rightarrow> True
      | RBeginMark \<Rightarrow> True | RMark \<Rightarrow> True | RRollbackMark \<Rightarrow> True | RCommitMark \<Rightarrow> True | _ \<Rightarrow> False)"

definition early :: "redeem_position \<Rightarrow> bool" where
  "early p \<longleftrightarrow> p = RConnect \<or> p = RBegin \<or> p = RSelect"

definition read_ok :: "'a redeem_world \<Rightarrow> 'a redeem_system \<Rightarrow> redeem_call \<Rightarrow> InviteRow \<Rightarrow> bool" where
  "read_ok W s c invite \<longleftrightarrow>
     (\<exists>row. row_of s (in_inviteId invite) = Some row \<and> iv_tokenHash row = token_hash W (rc_token c) \<and>
        rc_selectedAt c < iv_expires row \<and> in_organizationId invite = iv_organization row \<and> in_role invite = iv_role row \<and>
        in_targetEmail invite = iv_targetEmail row)"

definition change_ok :: "redeem_position \<Rightarrow> jstr \<Rightarrow> invite_row \<Rightarrow> invite_row \<Rightarrow> bool" where
  "change_ok p u row row' \<longleftrightarrow>
     (p = RCommitClaim \<longrightarrow> claimable u row \<and> held u row') \<and>
     (p = RCommitMark \<longrightarrow> held u row \<and> iv_usedAt row' \<noteq> None \<and> iv_usedBy row' = Some u)"

definition call_fine :: "'a redeem_world \<Rightarrow> 'a redeem_system \<Rightarrow> nat \<Rightarrow> redeem_call \<Rightarrow> bool" where
  "call_fine W s i c \<longleftrightarrow>
     su_emailVerified (rc_user c) \<and>
     (\<forall>invite. rc_invite c = Some invite \<longrightarrow> read_ok W s c invite) \<and>
     (rc_roleApplicationAttempted c \<or> rc_at c = RClaim \<or> rc_at c = RCommitClaim \<longrightarrow>
        (\<exists>invite. rc_invite c = Some invite \<and> redeem_decision W (rc_user c) invite = RClaim)) \<and>
     (applying (rc_at c) \<longrightarrow> rc_roleApplicationAttempted c) \<and>
     (early (rc_at c) \<longrightarrow> \<not> rc_roleApplicationAttempted c \<and> rc_invite c = None \<and> rc_change c = None) \<and>
     (rc_at c = RCommitClaim \<longrightarrow> rc_change c \<noteq> None) \<and>
     (\<forall>row'. rc_change c = Some row' \<longrightarrow>
        (\<exists>invite row. rc_invite c = Some invite \<and> row_of s (in_inviteId invite) = Some row \<and> rs_locks s (in_inviteId invite) = Some i \<and>
           same_columns row row' \<and> change_ok (rc_at c) (su_id (rc_user c)) row row'))"

text \<open>A role that was written belongs to a request that had bound the invitation.\<close>

definition answered_for :: "'a redeem_system \<Rightarrow> jstr \<Rightarrow> jstr \<Rightarrow> bool" where
  "answered_for s v u \<longleftrightarrow>
     (\<exists>i c invite. rs_calls s i = Some c \<and> rc_roleApplicationAttempted c \<and> rc_invite c = Some invite \<and> in_inviteId invite = v \<and>
        su_id (rc_user c) = u)"

definition redeem_ok :: "'a redeem_world \<Rightarrow> 'a redeem_system \<Rightarrow> bool" where
  "redeem_ok W s \<longleftrightarrow>
     distinct (map iv_id (rs_invites s)) \<and>
     (\<forall>i c. rs_calls s i = Some c \<longrightarrow> call_fine W s i c) \<and> (\<forall>(v, u) \<in> set (rs_granted s). answered_for s v u)"

lemma applying_simps [simp]:
  "applying RFindUser" "applying RUpdateUser" "applying RFindMember" "applying RCreateMember" "applying (RUpdateMember m)"
  "applying RBeginMark" "applying RMark" "applying RRollbackMark" "applying RCommitMark"
  "\<not> applying RConnect" "\<not> applying RBegin" "\<not> applying RSelect" "\<not> applying (RRefuse p)" "\<not> applying RClaim"
  "\<not> applying RCommitClaim" "\<not> applying RCaught" "\<not> applying RBeginRelease" "\<not> applying RRelease" "\<not> applying RCommitRelease"
  "\<not> applying RRollbackRelease" "\<not> applying (RDone r)" "\<not> applying RDead"
  by (simp_all add: applying_def)

lemma early_simps [simp]:
  "early RConnect" "early RBegin" "early RSelect" "\<not> early (RRefuse problem)" "\<not> early RClaim" "\<not> early RCommitClaim" "\<not> early RFindUser"
  "\<not> early RUpdateUser" "\<not> early RFindMember" "\<not> early RCreateMember" "\<not> early (RUpdateMember m)" "\<not> early RBeginMark" "\<not> early RMark"
  "\<not> early RRollbackMark" "\<not> early RCommitMark" "\<not> early RCaught" "\<not> early RBeginRelease" "\<not> early RRelease" "\<not> early RCommitRelease"
  "\<not> early RRollbackRelease" "\<not> early (RDone r)" "\<not> early RDead"
  by (simp_all add: early_def)

lemma read_ok_evolves:
  assumes "evolves i s s'" and "read_ok W s c invite"
  shows "read_ok W s' c invite"
proof -
  from assms(2) obtain row where row: "row_of s (in_inviteId invite) = Some row" "iv_tokenHash row = token_hash W (rc_token c)"
    "rc_selectedAt c < iv_expires row" "in_organizationId invite = iv_organization row" "in_role invite = iv_role row"
    "in_targetEmail invite = iv_targetEmail row"
    unfolding read_ok_def by blast
  with assms(1) obtain row' where "row_of s' (in_inviteId invite) = Some row'" "same_columns row row'" unfolding evolves_def by blast
  with row show ?thesis unfolding read_ok_def same_columns_def by auto
qed

lemma call_fine_evolves:
  assumes e: "evolves i s s'" and "j \<noteq> i" and c: "call_fine W s j c"
  shows "call_fine W s' j c"
proof -
  have "\<exists>invite row. rc_invite c = Some invite \<and> row_of s' (in_inviteId invite) = Some row \<and> rs_locks s' (in_inviteId invite) = Some j \<and>
      same_columns row row' \<and> change_ok (rc_at c) (su_id (rc_user c)) row row'" if r: "rc_change c = Some row'" for row'
  proof -
    from c r obtain invite row where "rc_invite c = Some invite" "row_of s (in_inviteId invite) = Some row" "rs_locks s (in_inviteId invite) = Some j"
      "same_columns row row'" "change_ok (rc_at c) (su_id (rc_user c)) row row'" unfolding call_fine_def by blast
    with e assms(2) show ?thesis unfolding evolves_def by (metis (full_types))
  qed
  with c read_ok_evolves [OF e] show ?thesis unfolding call_fine_def by blast
qed

lemma answered_for_keeps:
  assumes "answered_for s v u" and "rs_calls s i = Some c" and "rs_calls s' = (rs_calls s)(i \<mapsto> c')"
    and "rc_roleApplicationAttempted c \<Longrightarrow> rc_roleApplicationAttempted c' \<and> rc_invite c' = rc_invite c" and "rc_user c' = rc_user c"
  shows "answered_for s' v u"
proof -
  from assms(1) obtain j d invite where d: "rs_calls s j = Some d" "rc_roleApplicationAttempted d" "rc_invite d = Some invite"
    "in_inviteId invite = v" "su_id (rc_user d) = u" unfolding answered_for_def by blast
  then show ?thesis
    using assms(2-5) unfolding answered_for_def by (cases "j = i") (auto intro: exI [of _ i] exI [of _ j])
qed

text \<open>The rule for a step: the request itself, what it does to others, and what it grants.\<close>

lemma redeem_okI:
  assumes ok: "redeem_ok W s" and c: "rs_calls s i = Some c" and calls: "rs_calls s' = (rs_calls s)(i \<mapsto> c')"
    and keep: "rc_roleApplicationAttempted c \<Longrightarrow> rc_roleApplicationAttempted c' \<and> rc_invite c' = rc_invite c" "rc_user c' = rc_user c"
    and e: "evolves i s s'" and fine: "call_fine W s' i c'"
    and granted: "\<And>v u. (v, u) \<in> set (rs_granted s') \<Longrightarrow> (v, u) \<in> set (rs_granted s) \<or> answered_for s' v u"
    and ids: "map iv_id (rs_invites s') = map iv_id (rs_invites s)"
  shows "redeem_ok W s'"
proof -
  have "call_fine W s' j d" if "rs_calls s' j = Some d" for j d
    using that calls fine ok call_fine_evolves [OF e, of j W d] unfolding redeem_ok_def by (cases "j = i") auto
  moreover have "answered_for s' v u" if "(v, u) \<in> set (rs_granted s')" for v u
    using granted [OF that] ok answered_for_keeps [OF _ c calls keep] unfolding redeem_ok_def by fast
  ultimately show ?thesis using ok unfolding redeem_ok_def ids by blast
qed

section \<open>Every statement keeps what requests know\<close>

lemma fineD:
  assumes "redeem_ok W s" and "rs_calls s i = Some c"
  shows "call_fine W s i c"
  using assms unfolding redeem_ok_def by blast

text \<open>A move without a statement on the table, to a position that demands nothing of a change.\<close>

lemma goes_ok:
  assumes ok: "redeem_ok W s" and c: "rs_calls s i = Some c" and "p \<noteq> RClaim" "p \<noteq> RCommitClaim" "p \<noteq> RCommitMark"
    and "applying p \<longrightarrow> rc_roleApplicationAttempted c" and "early p \<longrightarrow> early (rc_at c)"
  shows "redeem_ok W (goes i (c\<lparr> rc_applied := r \<rparr>) p s)"
proof (rule redeem_okI [OF ok c])
  show "call_fine W (goes i (c\<lparr> rc_applied := r \<rparr>) p s) i (c\<lparr> rc_applied := r, rc_at := p \<rparr>)"
    using fineD [OF ok c] assms(3-) unfolding call_fine_def read_ok_def change_ok_def by auto
qed (auto simp: evolves_def)

lemma roll_back_ok:
  assumes ok: "redeem_ok W s" and c: "rs_calls s i = Some c" and p: "p \<noteq> RClaim" "p \<noteq> RCommitClaim" "\<not> applying p" "\<not> early p"
  shows "redeem_ok W (roll_back i c p s)"
proof (rule redeem_okI [OF ok c])
  show "call_fine W (roll_back i c p s) i (c\<lparr> rc_change := None, rc_at := p \<rparr>)"
    using fineD [OF ok c] p unfolding roll_back_def call_fine_def read_ok_def by auto
qed (auto simp: evolves_def roll_back_def)

lemma decision_cases: "redeem_decision W user invite = RClaim \<or> (\<exists>problem. redeem_decision W user invite = RRefuse problem)"
  by (auto simp: redeem_decision_def)

lemma select_ok:
  assumes ok: "redeem_ok W s" and c: "rs_calls s i = Some c" "rc_at c = RSelect"
    and s': "select_invite W i c answered s = Some s'"
  shows "redeem_ok W s'"
proof (cases "List.find (redeemable W c s) (rs_invites s)")
  case None
  with s' goes_ok [OF ok c(1), of "if answered then RRefuse Expired else RCaught" "rc_applied c"] show ?thesis
    by (auto simp: select_invite_def split: if_splits)
next
  case (Some row)
  show ?thesis
  proof (cases answered)
    case False
    with Some s' have s'': "s' = goes i c RCaught (locked i (iv_id row) s)" "lock_free i (iv_id row) s"
      by (auto simp: select_invite_def split: if_splits)
    show ?thesis
    proof (rule redeem_okI [OF ok c(1)])
      show "call_fine W s' i (c\<lparr> rc_at := RCaught \<rparr>)"
        using fineD [OF ok c(1)] c unfolding s'' call_fine_def read_ok_def by auto
    qed (use s'' in \<open>auto simp: evolves_def lock_free_def\<close>)
  next
    case True
    let ?invite = "invite_of s c row" let ?p = "redeem_decision W (rc_user c) ?invite"
    from True Some s' have s'': "s' = goes i (c\<lparr> rc_invite := Some ?invite, rc_selectedAt := rs_clock s \<rparr>) ?p (locked i (iv_id row) s)"
      and free: "lock_free i (iv_id row) s"
      by (auto simp: select_invite_def Let_def split: if_splits)
    from Some have r: "redeemable W c s row" "row \<in> set (rs_invites s)" by (auto simp: find_Some_iff)
    have early: "\<not> rc_roleApplicationAttempted c" using fineD [OF ok c(1)] c(2) unfolding call_fine_def by simp
    from r have row: "row_of s (iv_id row) = Some row" using ok row_of_in unfolding redeem_ok_def by blast
    show ?thesis
    proof (rule redeem_okI [OF ok c(1)])
      show "call_fine W s' i (c\<lparr> rc_invite := Some ?invite, rc_selectedAt := rs_clock s, rc_at := ?p \<rparr>)"
        using fineD [OF ok c(1)] c(2-) r row decision_cases [of W "rc_user c" ?invite] unfolding s'' call_fine_def read_ok_def
        by (auto simp: invite_of_def redeemable_def)
    qed (use s'' free c early in \<open>auto simp: evolves_def lock_free_def\<close>)
  qed
qed

text \<open>The decision was made in favour of the account.\<close>

definition decided :: "'a redeem_world \<Rightarrow> redeem_call \<Rightarrow> bool" where
  "decided W c \<longleftrightarrow> (\<exists>invite. rc_invite c = Some invite \<and> redeem_decision W (rc_user c) invite = RClaim)"

lemma update_row_ok:
  assumes ok: "redeem_ok W s" and c: "rs_calls s i = Some c" and s': "update_row condition change hit miss i c s = Some s'"
    and change: "\<And>row. condition row \<Longrightarrow> change_ok hit (su_id (rc_user c)) row (change row)" "\<And>row. same_columns row (change row)"
    and hit: "hit \<noteq> RClaim" "\<not> early hit" "applying hit \<longrightarrow> rc_roleApplicationAttempted c" "hit = RCommitClaim \<longrightarrow> decided W c"
    and miss: "miss \<noteq> RClaim" "miss \<noteq> RCommitClaim" "miss \<noteq> RCommitMark" "\<not> early miss" "applying miss \<longrightarrow> rc_roleApplicationAttempted c"
  shows "redeem_ok W s'"
proof -
  from s' obtain invite where invite: "rc_invite c = Some invite" by (auto simp: update_row_def split: option.splits)
  let ?v = "in_inviteId invite"
  show ?thesis
  proof (cases "\<exists>row. row_of s ?v = Some row \<and> condition row")
    case False
    with s' invite have "s' = goes i (c\<lparr> rc_applied := rc_applied c \<rparr>) miss s" by (auto simp: update_row_def split: option.splits if_splits)
    with goes_ok [OF ok c] miss show ?thesis by blast
  next
    case True
    then obtain row where row: "row_of s ?v = Some row" "condition row" by blast
    with s' invite have s'': "s' = goes i (c\<lparr> rc_change := Some (change row) \<rparr>) hit (locked i ?v s)" and free: "lock_free i ?v s"
      by (auto simp: update_row_def split: if_splits)
    show ?thesis
    proof (rule redeem_okI [OF ok c])
      show "call_fine W s' i (c\<lparr> rc_change := Some (change row), rc_at := hit \<rparr>)"
        using fineD [OF ok c] hit invite row change [of row] unfolding s'' call_fine_def read_ok_def decided_def by auto
    qed (use s'' free in \<open>auto simp: evolves_def lock_free_def\<close>)
  qed
qed

lemma commit_change_ok:
  assumes ok: "redeem_ok W s" and c: "rs_calls s i = Some c"
    and p: "p \<noteq> RClaim" "p \<noteq> RCommitClaim" "\<not> early p" "applying p \<longrightarrow> a" and a: "rc_roleApplicationAttempted c \<longrightarrow> a" "a \<longrightarrow> decided W c"
  shows "redeem_ok W (commit_change i (c\<lparr> rc_roleApplicationAttempted := a \<rparr>) p s)" (is "redeem_ok W ?s'")
proof (rule redeem_okI [OF ok c])
  have change: "\<exists>invite row. rc_invite c = Some invite \<and> iv_id row' = in_inviteId invite \<and> row_of s (in_inviteId invite) = Some row \<and>
      rs_locks s (in_inviteId invite) = Some i \<and> same_columns row row'" if "rc_change c = Some row'" for row'
  proof -
    from fineD [OF ok c] that obtain invite row where r: "rc_invite c = Some invite" "row_of s (in_inviteId invite) = Some row"
      "rs_locks s (in_inviteId invite) = Some i" "same_columns row row'" unfolding call_fine_def by blast
    with row_of_id [OF r(2)] show ?thesis by (auto simp: same_columns_def)
  qed
  then show e: "evolves i s ?s'"
    unfolding evolves_def commit_change_def by (fastforce split: option.splits)
  show "call_fine W ?s' i (c\<lparr> rc_roleApplicationAttempted := a, rc_change := None, rc_at := p \<rparr>)"
    using fineD [OF ok c] p a read_ok_evolves [OF e] unfolding call_fine_def decided_def read_ok_def by auto
qed (use a in \<open>auto simp: commit_change_def split: option.splits\<close>)

lemma gives_ok:
  assumes ok: "redeem_ok W s" and c: "rs_calls s i = Some c" and a: "applying (rc_at c)" and invite: "rc_invite c = Some invite"
  shows "redeem_ok W (gives i c invite answered r accounts s)" (is "redeem_ok W ?s'")
proof (rule redeem_okI [OF ok c])
  have t: "rc_roleApplicationAttempted c" using fineD [OF ok c] a unfolding call_fine_def by blast
  have row: "row_of ?s' v = row_of s v" for v by (simp add: gives_def row_of_def)
  show "evolves i s ?s'" by (auto simp: evolves_def row) (auto simp: gives_def)
  show "call_fine W ?s' i (c\<lparr> rc_applied := r, rc_at := if answered then RBeginMark else RCaught \<rparr>)"
    using fineD [OF ok c] t unfolding call_fine_def read_ok_def row change_ok_def by (auto simp: gives_def)
  show "(v, u) \<in> set (rs_granted s) \<or> answered_for ?s' v u" if "(v, u) \<in> set (rs_granted ?s')" for v u
    using that t invite by (auto simp: gives_def answered_for_def)
qed (auto simp: gives_def)

lemma goes_same_ok:
  assumes "redeem_ok W s" and "rs_calls s i = Some c" and "p \<noteq> RClaim" "p \<noteq> RCommitClaim" "p \<noteq> RCommitMark"
    and "applying p \<longrightarrow> applying (rc_at c)" and "early p \<longrightarrow> early (rc_at c)"
  shows "redeem_ok W (goes i c p s)"
proof -
  have "applying p \<longrightarrow> rc_roleApplicationAttempted c" using fineD [OF assms(1,2)] assms(6) unfolding call_fine_def by blast
  then show ?thesis using goes_ok [OF assms(1-5) _ assms(7), of "rc_applied c"] by simp
qed

lemma account_call_ok:
  assumes ok: "redeem_ok W s" and c: "rs_calls s i = Some c" "rc_invite c = Some invite" and a: "applying (rc_at c)"
    and s': "account_call W i c invite x s = Some s'"
  shows "redeem_ok W s'"
proof -
  have t: "rc_roleApplicationAttempted c" using fineD [OF ok c(1)] a unfolding call_fine_def by blast
  have "redeem_ok W (find_user W i c invite s)" "redeem_ok W (find_member W i c invite s)"
    unfolding find_user_def find_member_def using t a
    by (auto split: option.splits prod.splits intro!: goes_same_ok [OF ok c(1)] goes_ok [OF ok c(1)])
  moreover have "redeem_ok W (goes i c RCaught s)" using goes_same_ok [OF ok c(1)] by simp
  ultimately show ?thesis
    using s' gives_ok [OF ok c(1) a c(2)] by (auto simp: account_call_def Let_def split: redeem_position.splits if_splits)
qed

lemma change_facts [simp]:
  "claimable u row \<Longrightarrow> change_ok RCommitClaim u row (claimed t u row)" "held u row \<Longrightarrow> change_ok RCommitMark u row (marked t u row)"
  "change_ok RCaught u row row'" "change_ok RCommitRelease u row row'" "change_ok RRollbackRelease u row row'"
  by (auto simp: change_ok_def claimable_def claimed_def held_def marked_def)

lemma statement_ok:
  assumes ok: "redeem_ok W s" and c: "rs_calls s i = Some c" and s': "statement W i c x s = Some s'"
  shows "redeem_ok W s'"
proof -
  note move = goes_same_ok [OF ok c] and undo = roll_back_ok [OF ok c] and upd = update_row_ok [OF ok c]
    and com = commit_change_ok [OF ok c] commit_change_ok [OF ok c, of _ "rc_roleApplicationAttempted c", simplified]
  have d: "rc_roleApplicationAttempted c \<Longrightarrow> decided W c" "rc_at c = RClaim \<Longrightarrow> decided W c" "rc_at c = RCommitClaim \<Longrightarrow> decided W c"
    "applying (rc_at c) \<Longrightarrow> rc_roleApplicationAttempted c"
    using fineD [OF ok c] unfolding call_fine_def decided_def by blast+
  show ?thesis
  proof (cases "rc_at c")
    case RSelect
    with s' move select_ok [OF ok c RSelect] show ?thesis by (auto simp: statement_def Let_def split: if_splits)
  next
    case RClaim
    with s' have "if x = Fails then s' = goes i c RCaught s else
      update_row (claimable (su_id (rc_user c))) (claimed (rs_clock s) (su_id (rc_user c))) (if x = Succeeds then RCommitClaim else RCaught)
        (if x = Succeeds then RRefuse Occupied else RCaught) i c s = Some s'"
      by (simp add: statement_def Let_def split: if_splits)
    then show ?thesis using move upd d(2) [OF RClaim] by (auto split: if_splits)
  next
    case RMark
    with s' have "if x = Fails then s' = goes i c RCaught s else
      update_row (held (su_id (rc_user c))) (marked (rs_clock s) (su_id (rc_user c))) (if x = Succeeds then RCommitMark else RCaught)
        (if x = Succeeds then RRollbackMark else RCaught) i c s = Some s'"
      by (simp add: statement_def Let_def split: if_splits)
    then show ?thesis using move upd d(4) RMark by (auto split: if_splits)
  next
    case RRelease
    with s' have "if x = Fails then s' = goes i c RRollbackRelease s else
      update_row (held (su_id (rc_user c))) released (if x = Succeeds then RCommitRelease else RRollbackRelease)
        (if x = Succeeds then RCommitRelease else RRollbackRelease) i c s = Some s'"
      by (simp add: statement_def Let_def split: if_splits)
    then show ?thesis using move upd by (auto split: if_splits)
  qed (use s' move undo com d account_call_ok [OF ok c, of _ x s'] in \<open>auto simp: statement_def Let_def split: if_splits option.splits\<close>)
qed

section \<open>Runs\<close>

definition redeem_start :: "(jstr \<rightharpoonup> jstr \<times> bool) \<Rightarrow> 'a \<Rightarrow> int \<Rightarrow> 'a redeem_system" where
  "redeem_start organizations accounts now =
     \<lparr> rs_invites = [], rs_organizations = organizations, rs_locks = Map.empty, rs_accounts = accounts, rs_clock = now,
       rs_calls = Map.empty, rs_granted = [] \<rparr>"

text \<open>The states that are reached with events that are allowed where they happen.\<close>

inductive redeem_reachable :: "'a redeem_world \<Rightarrow> ('a redeem_system \<Rightarrow> 'a redeem_event \<Rightarrow> bool) \<Rightarrow> 'a redeem_system \<Rightarrow> bool"
  for W allowed where
  redeem_reachable_start: "redeem_reachable W allowed (redeem_start organizations accounts now)"
| redeem_reachable_step: "redeem_reachable W allowed s \<Longrightarrow> allowed s e \<Longrightarrow> redeem_step W e s = Some s' \<Longrightarrow> redeem_reachable W allowed s'"

lemma row_of_append:
  assumes "row_of s v = Some r"
  shows "row_of (s\<lparr> rs_invites := rs_invites s @ rows \<rparr>) v = Some r"
proof -
  have "List.find P xs = Some r \<Longrightarrow> List.find P (xs @ rows) = Some r" for P xs by (induction xs) (auto split: if_splits)
  with assms show ?thesis by (simp add: row_of_def)
qed

lemma redeem_ok_more:
  assumes "redeem_ok W s" and "rs_calls s' = rs_calls s" "rs_locks s' = rs_locks s" "rs_granted s' = rs_granted s"
    and "\<And>v row. row_of s v = Some row \<Longrightarrow> row_of s' v = Some row" and "distinct (map iv_id (rs_invites s'))"
  shows "redeem_ok W s'"
proof -
  have "call_fine W s' i c" if "call_fine W s i c" for i c
  proof -
    have "read_ok W s' c invite" if "read_ok W s c invite" for invite using that assms(5) unfolding read_ok_def by blast
    moreover have "\<exists>invite row. rc_invite c = Some invite \<and> row_of s' (in_inviteId invite) = Some row \<and>
        rs_locks s' (in_inviteId invite) = Some i \<and> same_columns row row' \<and> change_ok (rc_at c) (su_id (rc_user c)) row row'"
      if "rc_change c = Some row'" for row'
      using \<open>call_fine W s i c\<close> that assms(5) unfolding call_fine_def assms(3) by blast
    ultimately show ?thesis using that unfolding call_fine_def by blast
  qed
  then show ?thesis using assms unfolding redeem_ok_def answered_for_def by auto
qed

lemma checks_verified: "redeem_checks W r = Some (Inr (token, user, tenant)) \<Longrightarrow> su_emailVerified user"
  by (auto simp: redeem_checks_def split: if_splits option.splits sum.splits body_error.splits json.splits)

lemma arrival_ok:
  assumes ok: "redeem_ok W s" and r: "redeem_checks W r = Some (Inr x)" and i: "rs_calls s i = None"
  shows "redeem_ok W (put_call i (new_call x) s)"
proof -
  obtain token user tenant where x: "x = (token, user, tenant)" by (cases x)
  have row: "row_of (put_call i (new_call x) s) v = row_of s v" for v by (simp add: row_of_def put_call_def)
  have "call_fine W (put_call i (new_call x) s) j c" if "rs_calls (put_call i (new_call x) s) j = Some c" for j c
    using that ok r checks_verified [of W r token user tenant]
    unfolding x redeem_ok_def by (cases "j = i") (auto simp: call_fine_def read_ok_def row x put_call_def new_call_def row_of_def)
  moreover have "answered_for (put_call i (new_call x) s) v u" if "answered_for s v u" for v u
  proof -
    from that obtain j c invite where "rs_calls s j = Some c" "rc_roleApplicationAttempted c" "rc_invite c = Some invite"
      "in_inviteId invite = v" "su_id (rc_user c) = u" unfolding answered_for_def by blast
    with i show ?thesis unfolding answered_for_def by (intro exI [of _ j] exI [of _ c] exI [of _ invite]) (auto simp: put_call_def)
  qed
  ultimately show ?thesis using ok unfolding redeem_ok_def by (auto simp: put_call_def)
qed

lemma step_ok:
  assumes ok: "redeem_ok W s" and s': "redeem_step W e s = Some s'"
  shows "redeem_ok W s'"
proof (cases e)
  case (Issues row)
  with s' have "fresh_invite s row" "s' = s\<lparr> rs_invites := rs_invites s @ [row] \<rparr>" by (auto simp: redeem_step_def split: if_splits)
  with ok row_of_append [of s] show ?thesis
    by (intro redeem_ok_more [OF ok]) (auto simp: redeem_ok_def fresh_invite_def list_all_iff)
next
  case (Arrives i r)
  with s' ok arrival_ok [OF ok, of r] show ?thesis by (auto simp: redeem_step_def split: option.splits sum.splits if_splits)
next
  case (Runs i x)
  with s' statement_ok [OF ok] show ?thesis by (auto simp: redeem_step_def split: option.splits)
next
  case (Dies i)
  with s' roll_back_ok [OF ok] show ?thesis by (auto simp: redeem_step_def split: option.splits)
next
  case (Passes d)
  with s' ok show ?thesis by (intro redeem_ok_more [OF ok]) (auto simp: redeem_step_def row_of_def redeem_ok_def)
next
  case (Accounts a)
  with s' ok show ?thesis by (intro redeem_ok_more [OF ok]) (auto simp: redeem_step_def row_of_def redeem_ok_def)
qed

lemma reachable_ok: "redeem_reachable W allowed s \<Longrightarrow> redeem_ok W s"
proof (induction rule: redeem_reachable.induct)
  case (redeem_reachable_start organizations accounts now)
  show ?case by (simp add: redeem_ok_def redeem_start_def)
qed (use step_ok in blast)

section \<open>One account\<close>

text \<open>The invitation is used by the account, or claimed by it.\<close>

definition bound :: "'a redeem_system \<Rightarrow> jstr \<Rightarrow> jstr \<Rightarrow> bool" where
  "bound s v u \<longleftrightarrow> (\<exists>row. row_of s v = Some row \<and> (iv_usedAt row \<noteq> None \<and> iv_usedBy row = Some u \<or> held u row))"

lemma bound_unique: "bound s v u \<Longrightarrow> bound s v u' \<Longrightarrow> u = u'"
  by (auto simp: bound_def held_def)

definition releasing :: "redeem_position \<Rightarrow> bool" where
  "releasing p \<longleftrightarrow> p = RBeginRelease \<or> p = RRelease \<or> p = RCommitRelease \<or> p = RRollbackRelease"

definition call_single :: "'a redeem_system \<Rightarrow> redeem_call \<Rightarrow> bool" where
  "call_single s c \<longleftrightarrow>
     (\<forall>invite. rc_roleApplicationAttempted c \<and> rc_invite c = Some invite \<longrightarrow> bound s (in_inviteId invite) (su_id (rc_user c))) \<and>
     \<not> releasing (rc_at c) \<and> (rc_at c = RCaught \<longrightarrow> rc_invite c = None \<or> rc_roleApplicationAttempted c)"

definition single_ok :: "'a redeem_system \<Rightarrow> bool" where
  "single_ok s \<longleftrightarrow> (\<forall>i c. rs_calls s i = Some c \<longrightarrow> call_single s c) \<and> (\<forall>(v, u) \<in> set (rs_granted s). bound s v u)"

text \<open>A statement of a request that has read its invitation fails before the role is applied.\<close>

definition fails_before_role :: "'a redeem_system \<Rightarrow> 'a redeem_event \<Rightarrow> bool" where
  "fails_before_role s e \<longleftrightarrow>
     (case e of
        Runs i x \<Rightarrow> x \<noteq> Succeeds \<and> (case rs_calls s i of
            Some c \<Rightarrow> rc_invite c \<noteq> None \<and> \<not> rc_roleApplicationAttempted c
          | None \<Rightarrow> False)
      | _ \<Rightarrow> False)"

lemma single_okI:
  assumes ok: "single_ok s" and calls: "rs_calls s' = (rs_calls s)(i \<mapsto> c')" and keeps: "\<And>v u. bound s v u \<Longrightarrow> bound s' v u"
    and new: "call_single s' c'" and granted: "\<And>v u. (v, u) \<in> set (rs_granted s') \<Longrightarrow> (v, u) \<in> set (rs_granted s) \<or> bound s' v u"
  shows "single_ok s'"
proof -
  have "call_single s' c" if "call_single s c" for c using that keeps unfolding call_single_def by blast
  then have "call_single s' d" if "rs_calls s' j = Some d" for j d
    using that calls new ok unfolding single_ok_def by (cases "j = i") auto
  moreover have "bound s' v u" if "(v, u) \<in> set (rs_granted s')" for v u
    using granted [OF that] ok keeps unfolding single_ok_def by blast
  ultimately show ?thesis unfolding single_ok_def by blast
qed

text \<open>A step that leaves the table alone.\<close>

lemma plain_single:
  assumes ok: "single_ok s" and c: "rs_calls s i = Some c" and calls: "rs_calls s' = (rs_calls s)(i \<mapsto> c')"
    and rows: "\<And>v. row_of s' v = row_of s v" and granted: "rs_granted s' = rs_granted s"
    and same: "rc_user c' = rc_user c" "rc_roleApplicationAttempted c' \<longrightarrow> rc_roleApplicationAttempted c \<and> rc_invite c' = rc_invite c"
    and p: "\<not> releasing (rc_at c')" "rc_at c' = RCaught \<longrightarrow> rc_invite c' = None \<or> rc_roleApplicationAttempted c'"
  shows "single_ok s'"
proof (rule single_okI [OF ok calls])
  have b: "bound s' v u \<longleftrightarrow> bound s v u" for v u by (simp add: bound_def rows)
  have "call_single s c" using ok c unfolding single_ok_def by blast
  with same p show "call_single s' c'" by (auto simp: call_single_def b)
qed (use rows granted in \<open>auto simp: bound_def\<close>)

lemma update_row_moves:
  assumes "update_row condition change hit miss i c s = Some s'"
  shows "\<exists>ch p L. (p = hit \<or> p = miss) \<and> s' = goes i (c\<lparr> rc_change := ch \<rparr>) p (s\<lparr> rs_locks := L \<rparr>)"
proof -
  from assms obtain invite where invite: "rc_invite c = Some invite" by (auto simp: update_row_def split: option.splits)
  with assms consider "s' = goes i (c\<lparr> rc_change := rc_change c \<rparr>) miss (s\<lparr> rs_locks := rs_locks s \<rparr>)"
    | row where "s' = goes i (c\<lparr> rc_change := Some (change row) \<rparr>) hit (s\<lparr> rs_locks := (rs_locks s)(in_inviteId invite \<mapsto> i) \<rparr>)"
    by (auto simp: update_row_def locked_def split: option.splits if_splits)
  then show ?thesis by cases blast+
qed

lemma goes_single:
  assumes ok: "single_ok s" and c: "rs_calls s i = Some c" and p: "\<not> releasing p" "p = RCaught \<longrightarrow> rc_invite c = None \<or> rc_roleApplicationAttempted c"
  shows "single_ok (goes i (c\<lparr> rc_change := ch, rc_applied := r \<rparr>) p (s\<lparr> rs_locks := L \<rparr>))"
  by (rule plain_single [OF ok c, where c' = "c\<lparr> rc_change := ch, rc_applied := r, rc_at := p \<rparr>"]) (use p in \<open>auto simp: row_of_def\<close>)

lemma goes_single_same:
  assumes "single_ok s" and "rs_calls s i = Some c" and "\<not> releasing p" "p = RCaught \<longrightarrow> rc_invite c = None \<or> rc_roleApplicationAttempted c"
  shows "single_ok (goes i c p s)" "single_ok (roll_back i c p s)" "single_ok (goes i (c\<lparr> rc_applied := r \<rparr>) p s)"
    "update_row condition change p p i c s = Some s' \<Longrightarrow> single_ok s'"
proof -
  note g = goes_single [OF assms]
  show "single_ok (goes i c p s)" "single_ok (goes i (c\<lparr> rc_applied := r \<rparr>) p s)"
    using g [where ch = "rc_change c" and r = "rc_applied c" and L = "rs_locks s"] g [where ch = "rc_change c" and r = r and L = "rs_locks s"]
    by simp_all
  show "single_ok (roll_back i c p s)"
    using g [where ch = None and r = "rc_applied c" and L = "rs_locks (unlocked i s)"] by (simp add: roll_back_def unlocked_def)
  show "update_row condition change p p i c s = Some s' \<Longrightarrow> single_ok s'"
    using g [where r = "rc_applied c"] by (auto dest!: update_row_moves)
qed

lemma update_single:
  assumes ok: "single_ok s" and c: "rs_calls s i = Some c" and u: "update_row condition change hit miss i c s = Some s'"
    and p: "\<And>p. p = hit \<or> p = miss \<Longrightarrow> \<not> releasing p \<and> (p = RCaught \<longrightarrow> rc_invite c = None \<or> rc_roleApplicationAttempted c)"
  shows "single_ok s'"
proof -
  from update_row_moves [OF u] obtain ch q L where q: "q = hit \<or> q = miss" "s' = goes i (c\<lparr> rc_change := ch \<rparr>) q (s\<lparr> rs_locks := L \<rparr>)" by blast
  with goes_single [OF ok c, where p = q and ch = ch and r = "rc_applied c" and L = L] p [OF q(1)] show ?thesis by simp
qed

lemma commit_bound:
  assumes ok: "redeem_ok W s" and c: "rs_calls s i = Some c" and at: "rc_at c = RCommitClaim \<or> rc_at c = RCommitMark"
  shows "bound s v u \<Longrightarrow> bound (commit_change i (c\<lparr> rc_roleApplicationAttempted := a \<rparr>) p s) v u"
    and "rc_at c = RCommitClaim \<Longrightarrow> rc_invite c = Some invite \<Longrightarrow>
      bound (commit_change i (c\<lparr> rc_roleApplicationAttempted := a \<rparr>) p s) (in_inviteId invite) (su_id (rc_user c))"
proof -
  let ?u = "su_id (rc_user c)"
  have change: "\<exists>invite row. rc_invite c = Some invite \<and> iv_id row' = in_inviteId invite \<and> row_of s (in_inviteId invite) = Some row \<and>
      change_ok (rc_at c) ?u row row'" if "rc_change c = Some row'" for row'
  proof -
    from fineD [OF ok c] that obtain invite row where r: "rc_invite c = Some invite" "row_of s (in_inviteId invite) = Some row"
      "same_columns row row'" "change_ok (rc_at c) ?u row row'" unfolding call_fine_def by blast
    with row_of_id [OF r(2)] show ?thesis by (auto simp: same_columns_def)
  qed
  show "bound (commit_change i (c\<lparr> rc_roleApplicationAttempted := a \<rparr>) p s) v u" if b: "bound s v u"
  proof (cases "rc_change c")
    case None
    then show ?thesis using b by (simp add: bound_def commit_change_def)
  next
    case (Some row')
    from change [OF Some] obtain invite row where "rc_invite c = Some invite" "iv_id row' = in_inviteId invite" "row_of s (in_inviteId invite) = Some row"
      "change_ok (rc_at c) ?u row row'" by blast
    with Some b at show ?thesis
      by (auto simp: bound_def commit_change_def change_ok_def claimable_def held_def)
  qed
  show "bound (commit_change i (c\<lparr> rc_roleApplicationAttempted := a \<rparr>) p s) (in_inviteId invite) ?u"
    if "rc_at c = RCommitClaim" "rc_invite c = Some invite"
  proof -
    from fineD [OF ok c] that(1) obtain row' where "rc_change c = Some row'" unfolding call_fine_def by blast
    with change [OF this] that show ?thesis by (auto simp: bound_def commit_change_def change_ok_def)
  qed
qed

lemma commit_single:
  assumes ok: "redeem_ok W s" "single_ok s" and c: "rs_calls s i = Some c" and at: "rc_at c = RCommitClaim \<or> rc_at c = RCommitMark"
    and a: "a \<longrightarrow> rc_at c = RCommitClaim \<or> rc_roleApplicationAttempted c"
    and p: "\<not> releasing p" "p = RCaught \<longrightarrow> rc_invite c = None \<or> a"
  shows "single_ok (commit_change i (c\<lparr> rc_roleApplicationAttempted := a \<rparr>) p s)" (is "single_ok ?s'")
proof (rule single_okI [OF ok(2)])
  have "bound ?s' (in_inviteId invite) (su_id (rc_user c))" if "a" "rc_invite c = Some invite" for invite
  proof (cases "rc_at c = RCommitClaim")
    case False
    with a that have "bound s (in_inviteId invite) (su_id (rc_user c))" using ok(2) c unfolding single_ok_def call_single_def by blast
    then show ?thesis by (rule commit_bound(1) [OF ok(1) c at])
  qed (rule commit_bound(2) [OF ok(1) c at _ that(2)])
  then show "call_single ?s' (c\<lparr> rc_roleApplicationAttempted := a, rc_change := None, rc_at := p \<rparr>)"
    using p by (auto simp: call_single_def)
qed (use commit_bound(1) [OF ok(1) c at] in \<open>auto simp: commit_change_def split: option.splits\<close>)

lemma gives_single:
  assumes ok: "single_ok s" and c: "rs_calls s i = Some c" and a: "rc_roleApplicationAttempted c" and invite: "rc_invite c = Some invite"
  shows "single_ok (gives i c invite answered r accounts s)" (is "single_ok ?s'")
proof (rule single_okI [OF ok])
  have row: "row_of ?s' v = row_of s v" for v by (simp add: gives_def row_of_def)
  have b: "bound s (in_inviteId invite) (su_id (rc_user c))" using ok c a invite unfolding single_ok_def call_single_def by blast
  show "bound s v u \<Longrightarrow> bound ?s' v u" for v u by (simp add: bound_def row)
  show "call_single ?s' (c\<lparr> rc_applied := r, rc_at := if answered then RBeginMark else RCaught \<rparr>)"
    using b a invite by (auto simp: call_single_def bound_def row releasing_def)
  show "(v, u) \<in> set (rs_granted s) \<or> bound ?s' v u" if "(v, u) \<in> set (rs_granted ?s')" for v u
  proof -
    have "bound ?s' (in_inviteId invite) (su_id (rc_user c))" using b by (simp add: bound_def row)
    with that show ?thesis by (auto simp: gives_def)
  qed
qed (simp add: gives_def)

lemma releasing_simps [simp]:
  "\<not> releasing RConnect" "\<not> releasing RBegin" "\<not> releasing RSelect" "\<not> releasing (RRefuse problem)" "\<not> releasing RClaim"
  "\<not> releasing RCommitClaim" "\<not> releasing RFindUser" "\<not> releasing RUpdateUser" "\<not> releasing RFindMember" "\<not> releasing RCreateMember"
  "\<not> releasing (RUpdateMember m)" "\<not> releasing RBeginMark" "\<not> releasing RMark" "\<not> releasing RRollbackMark" "\<not> releasing RCommitMark"
  "\<not> releasing RCaught" "\<not> releasing (RDone r)" "\<not> releasing RDead"
  "releasing RBeginRelease" "releasing RRelease" "releasing RCommitRelease" "releasing RRollbackRelease"
  by (simp_all add: releasing_def)

lemma select_single:
  assumes ok: "single_ok s" and c: "rs_calls s i = Some c" "\<not> rc_roleApplicationAttempted c" "rc_invite c = None"
    and s': "select_invite W i c answered s = Some s'"
  shows "single_ok s'"
proof -
  let ?c = "\<lambda>row. c\<lparr> rc_invite := Some (invite_of s c row), rc_selectedAt := rs_clock s,
      rc_at := redeem_decision W (rc_user c) (invite_of s c row) \<rparr>"
  have new: "single_ok (goes i (c\<lparr> rc_invite := Some (invite_of s c row), rc_selectedAt := rs_clock s \<rparr>)
      (redeem_decision W (rc_user c) (invite_of s c row)) (locked i (iv_id row) s))" for row
    by (rule plain_single [OF ok c(1), where c' = "?c row"])
      (use c(2) decision_cases [of W "rc_user c" "invite_of s c row"] in auto)
  have old: "single_ok (goes i c p (locked i v s))" "single_ok (goes i c p s)" if "p = RCaught \<or> (\<exists>problem. p = RRefuse problem)" for p v
    using goes_single [OF ok c(1), where p = p and ch = "rc_change c" and r = "rc_applied c" and L = "(rs_locks s)(v \<mapsto> i)"]
      goes_single_same(1) [OF ok c(1), of p] that c(3) by (auto simp: locked_def)
  show ?thesis using s' new old by (auto simp: select_invite_def Let_def split: option.splits if_splits)
qed

lemma account_call_single:
  assumes ok: "single_ok s" and c: "rs_calls s i = Some c" "rc_invite c = Some invite" and t: "rc_roleApplicationAttempted c"
    and s': "account_call W i c invite x s = Some s'"
  shows "single_ok s'"
proof -
  note g = goes_single_same [OF ok c(1)]
  have "single_ok (find_user W i c invite s)" "single_ok (find_member W i c invite s)"
    unfolding find_user_def find_member_def using t by (auto split: option.splits prod.splits intro!: g)
  moreover have "single_ok (goes i c RCaught s)" using g(1) t by simp
  ultimately show ?thesis
    using s' gives_single [OF ok c(1) t c(2)] by (auto simp: account_call_def Let_def split: redeem_position.splits if_splits)
qed

lemma statement_single:
  assumes ok: "redeem_ok W s" "single_ok s" and c: "rs_calls s i = Some c" and s': "statement W i c x s = Some s'"
    and x: "\<not> fails_before_role s (Runs i x)"
  shows "single_ok s'"
proof -
  note move = goes_single_same [OF ok(2) c] and upd = update_single [OF ok(2) c]
    and com = commit_single [OF ok c] commit_single [OF ok c, of "rc_roleApplicationAttempted c", simplified]
  have f: "x \<noteq> Succeeds \<Longrightarrow> rc_invite c = None \<or> rc_roleApplicationAttempted c" using x c by (auto simp: fails_before_role_def)
  have d: "applying (rc_at c) \<Longrightarrow> rc_roleApplicationAttempted c" "early (rc_at c) \<Longrightarrow> \<not> rc_roleApplicationAttempted c \<and> rc_invite c = None"
    using fineD [OF ok(1) c] unfolding call_fine_def by blast+
  have n: "\<not> releasing (rc_at c)" "rc_at c = RCaught \<Longrightarrow> rc_invite c = None \<or> rc_roleApplicationAttempted c"
    using ok(2) c unfolding single_ok_def call_single_def by blast+
  show ?thesis
  proof (cases "rc_at c")
    case RSelect
    with s' d move(1) [of RCaught] select_single [OF ok(2) c] show ?thesis by (auto simp: statement_def Let_def split: if_splits)
  next
    case RClaim
    with s' have "if x = Fails then s' = goes i c RCaught s else
      update_row (claimable (su_id (rc_user c))) (claimed (rs_clock s) (su_id (rc_user c))) (if x = Succeeds then RCommitClaim else RCaught)
        (if x = Succeeds then RRefuse Occupied else RCaught) i c s = Some s'"
      by (simp add: statement_def Let_def split: if_splits)
    then show ?thesis using move(1) [of RCaught] f by (auto split: if_splits elim!: upd)
  next
    case RMark
    with s' have "if x = Fails then s' = goes i c RCaught s else
      update_row (held (su_id (rc_user c))) (marked (rs_clock s) (su_id (rc_user c))) (if x = Succeeds then RCommitMark else RCaught)
        (if x = Succeeds then RRollbackMark else RCaught) i c s = Some s'"
      by (simp add: statement_def Let_def split: if_splits)
    then show ?thesis using move(1) [of RCaught] f by (auto split: if_splits elim!: upd)
  qed (use s' move com d f n account_call_single [OF ok(2) c, of _ W x s'] in \<open>auto simp: statement_def Let_def split: if_splits option.splits\<close>)
qed

lemma single_ok_more:
  assumes "single_ok s" and "rs_calls s' = rs_calls s" "rs_granted s' = rs_granted s"
    and "\<And>v row. row_of s v = Some row \<Longrightarrow> row_of s' v = Some row"
  shows "single_ok s'"
proof -
  have "bound s' v u" if "bound s v u" for v u using that assms(4) unfolding bound_def by blast
  then show ?thesis using assms(1-3) unfolding single_ok_def call_single_def by auto
qed

lemma step_single:
  assumes ok: "redeem_ok W s" "single_ok s" and s': "redeem_step W e s = Some s'" and e: "\<not> fails_before_role s e"
  shows "single_ok s'"
proof (cases e)
  case (Issues row)
  with s' ok(2) row_of_append [of s] show ?thesis by (auto simp: redeem_step_def split: if_splits intro!: single_ok_more [of s])
next
  case (Arrives i r)
  have "single_ok (put_call i (new_call x) s)" for x
  proof (rule single_okI [OF ok(2)])
    show "call_single (put_call i (new_call x) s) (new_call x)" by (cases x) (simp add: call_single_def new_call_def)
  qed (auto simp: put_call_def bound_def row_of_def)
  with s' ok(2) Arrives show ?thesis by (auto simp: redeem_step_def split: option.splits sum.splits if_splits)
next
  case (Runs i x)
  with s' e statement_single [OF ok] show ?thesis by (auto simp: redeem_step_def split: option.splits)
next
  case (Dies i)
  with s' goes_single_same(2) [OF ok(2), of _ _ RDead] show ?thesis by (auto simp: redeem_step_def split: option.splits)
next
  case (Passes d)
  with s' ok(2) show ?thesis by (auto simp: redeem_step_def row_of_def intro!: single_ok_more [of s])
next
  case (Accounts a)
  with s' ok(2) show ?thesis by (auto simp: redeem_step_def row_of_def intro!: single_ok_more [of s])
qed

lemma reachable_single: "redeem_reachable W (\<lambda>s e. \<not> fails_before_role s e) s \<Longrightarrow> single_ok s"
proof (induction rule: redeem_reachable.induct)
  case (redeem_reachable_start organizations accounts now)
  show ?case by (simp add: single_ok_def redeem_start_def)
qed (use step_single reachable_ok in blast)

section \<open>Two accounts\<close>

definition example_token :: jstr where
  "example_token = js ''mpa_'' @ replicate 64 48"

definition invite_tenant :: jstr where
  "invite_tenant = js ''11111111-1111-4111-8111-111111111111''"

definition example_body :: json where
  "example_body = JObj [(js ''token'', JStr example_token)]"

text \<open>An account store that keeps the role of every user.\<close>

definition example_redeem :: "(jstr \<Rightarrow> jstr option) redeem_world" where
  "example_redeem = \<lparr>
     rd_platform = \<lparr> url_parse = (\<lambda>_. None), isIP = (\<lambda>_. 0), ip_process = (\<lambda>_. None), sha256 = (\<lambda>_. js ''hash'') \<rparr>,
     rd_env = \<lparr> we_MATCHPLANE_ENVIRONMENT = None, we_NODE_ENV = None, we_BETTER_AUTH_URL = None,
       we_NEXT_PUBLIC_BETTER_AUTH_URL = None, we_BETTER_AUTH_TRUSTED_ORIGINS = None, we_MATCHPLANE_ROOT_TENANT_ID = Some invite_tenant \<rparr>,
     rd_toLowerCase = to_lower, rd_findUserById = (\<lambda>a u. Some (a u)), rd_updateUser = (\<lambda>a u role. a(u := Some role)),
     rd_findMember = (\<lambda>_ _ _. None), rd_createMember = (\<lambda>a _ _ _. a), rd_updateMember = (\<lambda>a _ _. a) \<rparr>"

definition example_invitee :: "jstr \<Rightarrow> session_user" where
  "example_invitee u = \<lparr> su_id = u, su_email = js ''a@b.c'', su_emailVerified = True \<rparr>"

definition example_redemption :: "jstr \<Rightarrow> redeem_request" where
  "example_redemption u = \<lparr>
     rr_request = \<lparr> wr_method = js ''POST'', wr_cookie = None, wr_origin = None \<rparr>,
     rr_message = \<lparr> hm_contentLength = None, hm_body = Some [Chunk (utf8_encode (stringify example_body)), End] \<rparr>,
     rr_session = Some (example_invitee u) \<rparr>"

definition example_invite :: invite_row where
  "example_invite = \<lparr> iv_id = js ''i'', iv_tokenHash = js ''hash'', iv_organization = js ''o'', iv_role = RootAdmin, iv_targetEmail = None,
     iv_expires = 1, iv_usedAt = None, iv_usedBy = None, iv_claimedBy = None, iv_claimedAt = None, iv_claimExpires = None \<rparr>"

definition example_invited :: "(jstr \<Rightarrow> jstr option) redeem_system" where
  "example_invited = redeem_start [js ''o'' \<mapsto> (invite_tenant, True)] (\<lambda>_. None) 0"

lemma example_checks: "redeem_checks example_redeem (example_redemption u) = Some (Inr (example_token, example_invitee u, invite_tenant))"
proof -
  have v: "wf_json example_body" by (simp add: example_body_def example_token_def js_simps wf_json_Obj wf_str_def list_all_iff)
  have "quote_body (replicate n 48) = replicate n 48" for n by (induction n) (simp_all add: quote_unit_def is_high_def is_low_def)
  moreover have "utf8_encode (replicate n 48 @ t) = replicate n 48 @ utf8_encode t" for n t by (induction n) (simp_all add: encode_ascii)
  ultimately have "length (utf8_encode (stringify example_body)) = 80"
    by (simp add: example_body_def example_token_def js_simps quote_def quote_unit_def is_high_def is_low_def encode_ascii)
  with v have "readJsonBody (rr_message (example_redemption u)) (16 * 1024) = (Some (Inr example_body), [ReleaseLock])"
    by (intro printed_body_read [where chunks = "[utf8_encode (stringify example_body)]"])
       (simp_all add: example_redemption_def declares_more_def parse_int10_def trim_start_def)
  moreover have "parseToken (Some (JStr example_token)) = Some example_token" by code_simp
  moreover have "isUuid (Some (JStr invite_tenant))" by code_simp
  then have "configuredTenantId (rd_env example_redeem) = Some invite_tenant"
    by (simp add: configuredTenantId_def example_redeem_def invite_tenant_def trim_def js_simps is_space_def Let_def)
  ultimately show ?thesis
    by (simp add: redeem_checks_def hasTrustedBrowserOrigin_def example_redemption_def example_invitee_def example_body_def)
qed

definition well :: "nat \<Rightarrow> nat \<Rightarrow> 'a redeem_event list" where
  "well n i = replicate n (Runs i Succeeds)"

text \<open>
  The first request gives the role and its process dies before the invitation is marked. The account tries
  again, and the claim fails: the \<open>catch\<close> releases the claim of the first request. Another account redeems
  the invitation.
\<close>

definition double_grant :: "(jstr \<Rightarrow> jstr option) redeem_event list" where
  "double_grant =
     Issues example_invite # Arrives 0 (example_redemption (js ''u'')) # well 7 0 @ Dies 0 #
     Arrives 1 (example_redemption (js ''u'')) # well 3 1 @ Runs 1 Fails # well 4 1 @
     Arrives 2 (example_redemption (js ''v'')) # well 7 2"

lemma well_simps:
  "well 3 i = [Runs i Succeeds, Runs i Succeeds, Runs i Succeeds]"
  "well 4 i = [Runs i Succeeds, Runs i Succeeds, Runs i Succeeds, Runs i Succeeds]"
  "well 7 i = [Runs i Succeeds, Runs i Succeeds, Runs i Succeeds, Runs i Succeeds, Runs i Succeeds, Runs i Succeeds, Runs i Succeeds]"
  by (simp_all add: well_def numeral_eq_Suc)

lemma example_redeem_simps:
  "token_hash example_redeem t = js ''hash''" "rd_findUserById example_redeem = (\<lambda>a u. Some (a u))"
  "rd_updateUser example_redeem = (\<lambda>a u role. a(u := Some role))"
  by (simp_all add: example_redeem_def token_hash_def)

lemmas redeem_eval = redeem_step_def example_checks new_call_def statement_def Let_def goes_def put_call_def select_invite_def
  redeemable_def invite_of_def redeem_decision_def update_row_def row_of_def lock_free_def locked_def unlocked_def
  claimable_def claimed_def held_def marked_def released_def commit_change_def roll_back_def put_row_def find_user_def gives_def
  account_call_def fresh_invite_def

lemma double_grant_run:
  "\<exists>s. redeem_run example_redeem double_grant example_invited = Some s \<and> rs_granted s = [(js ''i'', js ''u''), (js ''i'', js ''v'')]"
  unfolding double_grant_def well_simps
  by (simp add: redeem_eval example_invited_def redeem_start_def example_redeem_simps example_invitee_def example_invite_def)

lemma run_reachable:
  "redeem_reachable W allowed s \<Longrightarrow> redeem_run W es s = Some s' \<Longrightarrow> (\<And>s e. e \<in> set es \<Longrightarrow> allowed s e) \<Longrightarrow> redeem_reachable W allowed s'"
proof (induction es arbitrary: s)
  case (Cons e es)
  then obtain t where "redeem_step W e s = Some t" "redeem_run W es t = Some s'" by (auto split: option.splits)
  with Cons redeem_reachable_step [of W allowed s e t] show ?case by simp
qed simp

text \<open>A redemption that is granted and not disturbed.\<close>

definition smooth_redemption :: "(jstr \<Rightarrow> jstr option) redeem_event list" where
  "smooth_redemption = Issues example_invite # Arrives 0 (example_redemption (js ''u'')) # well 7 0"

lemma smooth_redemption_run:
  "\<exists>s. redeem_run example_redeem smooth_redemption example_invited = Some s \<and> rs_granted s = [(js ''i'', js ''u'')]"
  unfolding smooth_redemption_def well_simps
  by (simp add: redeem_eval example_invited_def redeem_start_def example_redeem_simps example_invitee_def example_invite_def)

lemma smooth_redemption_allowed: "e \<in> set smooth_redemption \<Longrightarrow> \<not> fails_before_role s e"
  by (auto simp: smooth_redemption_def well_simps fails_before_role_def)

section \<open>Claims\<close>

text \<open>
  C28. Whatever fails and however requests interleave, a role is written only for an account that was
  entitled to it: a request of the account, whose address is verified, presented the token of the
  invitation before it expired, with the address that the invitation names if it names one, and the kind
  of the invitation fits the organization.
\<close>

theorem invite_grant_justified:
  assumes "redeem_reachable W allowed s" and "(v, u) \<in> set (rs_granted s)"
  shows "\<exists>i c invite row. rs_calls s i = Some c \<and> su_id (rc_user c) = u \<and> su_emailVerified (rc_user c) \<and>
    row_of s v = Some row \<and> iv_tokenHash row = token_hash W (rc_token c) \<and> rc_selectedAt c < iv_expires row \<and>
    (\<forall>e. iv_targetEmail row = Some e \<and> e \<noteq> [] \<longrightarrow> rd_toLowerCase W e = rd_toLowerCase W (su_email (rc_user c))) \<and>
    rc_invite c = Some invite \<and> in_inviteId invite = v \<and> in_organizationId invite = iv_organization row \<and>
    (iv_role row = RootAdmin \<longleftrightarrow> in_rootPlatform invite)"
proof -
  from reachable_ok [OF assms(1)] have ok: "redeem_ok W s" .
  then have "answered_for s v u" using assms(2) unfolding redeem_ok_def by blast
  then obtain i c invite where c: "rs_calls s i = Some c" "rc_roleApplicationAttempted c" "rc_invite c = Some invite"
    "in_inviteId invite = v" "su_id (rc_user c) = u" unfolding answered_for_def by blast
  from fineD [OF ok c(1)] c(2,3) have d: "redeem_decision W (rc_user c) invite = RClaim" "read_ok W s c invite" "su_emailVerified (rc_user c)"
    unfolding call_fine_def by auto
  from d(2) obtain row where row: "row_of s v = Some row" "iv_tokenHash row = token_hash W (rc_token c)" "rc_selectedAt c < iv_expires row"
    "in_organizationId invite = iv_organization row" "in_role invite = iv_role row" "in_targetEmail invite = iv_targetEmail row"
    unfolding read_ok_def c(4) by blast
  have "\<forall>e. iv_targetEmail row = Some e \<and> e \<noteq> [] \<longrightarrow> rd_toLowerCase W e = rd_toLowerCase W (su_email (rc_user c))"
    "iv_role row = RootAdmin \<longleftrightarrow> in_rootPlatform invite"
    using d(1) row(5,6) by (auto simp: redeem_decision_def split: if_splits option.splits) (metis invite_role.exhaust)+
  with c d(3) row show ?thesis by blast
qed

theorem invite_grant_justified_witness:
  "\<exists>s i c. redeem_reachable example_redeem (\<lambda>_ _. True) s \<and> (js ''i'', js ''u'') \<in> set (rs_granted s) \<and>
     rs_calls s i = Some c \<and> su_id (rc_user c) = js ''u'' \<and> su_emailVerified (rc_user c)"
proof -
  obtain s where s: "redeem_run example_redeem smooth_redemption example_invited = Some s" "rs_granted s = [(js ''i'', js ''u'')]"
    using smooth_redemption_run by blast
  have r: "redeem_reachable example_redeem (\<lambda>_ _. True) s"
    by (rule run_reachable [OF _ s(1)]) (auto simp: example_invited_def intro: redeem_reachable_start)
  moreover have g: "(js ''i'', js ''u'') \<in> set (rs_granted s)" using s(2) by simp
  ultimately show ?thesis using invite_grant_justified [OF r g] by blast
qed

text \<open>
  C29. An invitation serves one account, as long as no statement fails between the read of an invitation and
  the application of its role: then two roles that were written for one invitation were written for the same account,
  in every interleaving, with every other failure and death.
\<close>

theorem invite_single_account:
  assumes "redeem_reachable W (\<lambda>s e. \<not> fails_before_role s e) s"
    and "(v, u) \<in> set (rs_granted s)" and "(v, u') \<in> set (rs_granted s)"
  shows "u = u'"
  using reachable_single [OF assms(1)] assms(2,3) bound_unique unfolding single_ok_def by fast

theorem invite_single_account_witness:
  "\<exists>s. redeem_reachable example_redeem (\<lambda>s e. \<not> fails_before_role s e) s \<and> (js ''i'', js ''u'') \<in> set (rs_granted s) \<and>
     (\<forall>u. (js ''i'', u) \<in> set (rs_granted s) \<longrightarrow> u = js ''u'')"
proof -
  obtain s where s: "redeem_run example_redeem smooth_redemption example_invited = Some s" "rs_granted s = [(js ''i'', js ''u'')]"
    using smooth_redemption_run by blast
  have r: "redeem_reachable example_redeem (\<lambda>s e. \<not> fails_before_role s e) s"
    by (rule run_reachable [OF _ s(1)]) (auto simp: example_invited_def smooth_redemption_allowed intro: redeem_reachable_start)
  have g: "(js ''i'', js ''u'') \<in> set (rs_granted s)" using s(2) by simp
  have "u = js ''u''" if "(js ''i'', u) \<in> set (rs_granted s)" for u using invite_single_account [OF r that g] .
  with r g show ?thesis by blast
qed

text \<open>
  Without that condition two accounts can get the role of one invitation. An account that was given
  the role by a request that died before it marked the invitation tries again; when the claim of
  the second request fails, its \<open>catch\<close> releases the claim that the first one left, and another account
  redeems the invitation.
\<close>

theorem invite_serves_two_accounts:
  "\<exists>s. redeem_run example_redeem double_grant example_invited = Some s \<and>
     (js ''i'', js ''u'') \<in> set (rs_granted s) \<and> (js ''i'', js ''v'') \<in> set (rs_granted s) \<and> js ''u'' \<noteq> js ''v''"
  using double_grant_run by (auto simp: js_simps)

end
