(* ===== verification/Provider_Adapter.thy ===== *)
theory Provider_Adapter
  imports Public_Endpoint
begin

text \<open>
  Calls of model providers, after \<open>web/src/provider-adapter.ts\<close>, on top of the pinned requests. The SDK
  is the caller of the fetch modelled here and is not in the repository; neither are the transports,
  whose errors are objects of a heap with any class, name, code, text and chain of causes. A transport gets the
  target and the dispatcher; the other options of a request, with \<open>redirect: "manual"\<close> among them, are the
  same in every call and part of the transport. Whether and
  when the signals abort is part of the course of a request.
\<close>

section \<open>Errors\<close>

datatype ProviderProtocol = OpenAiCompatible | AnthropicMessagesApi | GeminiGenerate

datatype ProviderAdapterErrorCode =
    MP_PROVIDER_INVALID_ENDPOINT | MP_PROVIDER_NETWORK_POLICY | MP_PROVIDER_REDIRECT | MP_PROVIDER_BODY_LIMIT

fun error_message :: "ProviderAdapterErrorCode \<Rightarrow> jstr" where
  "error_message MP_PROVIDER_INVALID_ENDPOINT = js ''Provider endpoint is invalid.''"
| "error_message MP_PROVIDER_NETWORK_POLICY = js ''Provider endpoint is blocked by network policy.''"
| "error_message MP_PROVIDER_REDIRECT = js ''Provider redirects are not allowed.''"
| "error_message MP_PROVIDER_BODY_LIMIT = js ''Provider response exceeded the allowed size.''"

text \<open>
  The classes that the code distinguishes. \<open>NonError\<close> is any value that is not an \<open>Error\<close>. The code and the
  cause are \<open>None\<close> when they are absent, not of the expected type, or their getter throws.
\<close>

datatype error_class = AdapterClass ProviderAdapterErrorCode "nat option" | EndpointClass | RedirectClass nat | TypeErrorClass | ErrorClass | NonError

record error_object =
  eo_class :: error_class
  eo_name :: jstr
  eo_message :: jstr
  eo_code :: "jstr option"
  eo_cause :: "nat option"

type_synonym error_heap = "nat \<Rightarrow> error_object"

definition ProviderAdapterError :: "ProviderAdapterErrorCode \<Rightarrow> nat option \<Rightarrow> error_object" where
  "ProviderAdapterError code status = \<lparr> eo_class = AdapterClass code status, eo_name = js ''ProviderAdapterError'',
     eo_message = error_message code, eo_code = None, eo_cause = None \<rparr>"

definition plain_error :: "jstr \<Rightarrow> jstr \<Rightarrow> jstr option \<Rightarrow> error_object" where
  "plain_error name message code = \<lparr> eo_class = ErrorClass, eo_name = name, eo_message = message, eo_code = code, eo_cause = None \<rparr>"

definition providerNetworkPolicyError :: error_object where
  "providerNetworkPolicyError = ProviderAdapterError MP_PROVIDER_NETWORK_POLICY None"

definition providerTransportFailure :: error_object where
  "providerTransportFailure = plain_error (js ''ProviderTransportError'') (js ''Provider request failed.'') None"

definition safeAbortError :: error_object where
  "safeAbortError = plain_error (js ''AbortError'') (js ''Provider request was aborted.'') None"

definition UNDICI_TIMEOUT_CODES :: "jstr list" where
  "UNDICI_TIMEOUT_CODES = map js [''UND_ERR_CONNECT_TIMEOUT'', ''UND_ERR_HEADERS_TIMEOUT'', ''UND_ERR_BODY_TIMEOUT'']"

definition timeout_code :: "jstr option \<Rightarrow> bool" where
  "timeout_code code \<longleftrightarrow> (case code of Some c \<Rightarrow> c \<in> set UNDICI_TIMEOUT_CODES | None \<Rightarrow> False)"

definition safeTimeoutError :: "jstr option \<Rightarrow> error_object" where
  "safeTimeoutError code =
     plain_error (js ''TimeoutError'') (js ''Provider request timed out.'') (if timeout_code code then code else None)"

definition safeKnownProviderError :: "error_object \<Rightarrow> error_object option" where
  "safeKnownProviderError e =
     (case eo_class e of
        AdapterClass _ _ \<Rightarrow> Some e
      | EndpointClass \<Rightarrow> Some providerNetworkPolicyError
      | RedirectClass status \<Rightarrow> Some (ProviderAdapterError MP_PROVIDER_REDIRECT (Some status))
      | NonError \<Rightarrow> None
      | _ \<Rightarrow>
          if eo_name e = js ''TimeoutError'' \<or> timeout_code (eo_code e) then Some (safeTimeoutError (eo_code e))
          else if eo_name e = js ''AbortError'' \<or> eo_code e = Some (js ''UND_ERR_ABORTED'')
          then Some (plain_error (js ''AbortError'') (js ''Provider request was aborted.'')
                 (if eo_code e = Some (js ''UND_ERR_ABORTED'') then eo_code e else None))
          else None)"

definition safeInterruptedError :: "error_object \<Rightarrow> error_object" where
  "safeInterruptedError reason = (case safeKnownProviderError reason of Some e \<Rightarrow> e | None \<Rightarrow> safeAbortError)"

definition safeErrorCause :: "error_heap \<Rightarrow> error_object \<Rightarrow> nat option" where
  "safeErrorCause H e =
     (if eo_class e = NonError then None
      else case eo_cause e of Some r \<Rightarrow> if eo_class (H r) = NonError then None else Some r | None \<Rightarrow> None)"

text \<open>The walk along the causes: at most six, and it stops when it meets an error again.\<close>

fun known_cause :: "nat \<Rightarrow> error_heap \<Rightarrow> nat list \<Rightarrow> nat option \<Rightarrow> error_object option" where
  "known_cause 0 H seen candidate = None"
| "known_cause (Suc n) H seen None = None"
| "known_cause (Suc n) H seen (Some r) =
     (if r \<in> set seen then None
      else case safeKnownProviderError (H r) of
        Some e \<Rightarrow> Some e
      | None \<Rightarrow> known_cause n H (r # seen) (safeErrorCause H (H r)))"

text \<open>What is thrown: an error that the adapter made, or an object of the heap. The signal's reason is one.\<close>

datatype thrown = Made error_object | Foreign nat

definition safeProviderFetchError :: "error_heap \<Rightarrow> thrown \<Rightarrow> nat option \<Rightarrow> error_object" where
  "safeProviderFetchError H e aborted =
     (case aborted of
        Some reason \<Rightarrow> safeInterruptedError (H reason)
      | None \<Rightarrow>
          (case safeKnownProviderError (case e of Made x \<Rightarrow> x | Foreign r \<Rightarrow> H r) of
             Some x \<Rightarrow> x
           | None \<Rightarrow>
               (case e of
                  Made _ \<Rightarrow> providerTransportFailure
                | Foreign r \<Rightarrow>
                    if eo_class (H r) \<noteq> TypeErrorClass then providerTransportFailure
                    else case known_cause 6 H [] (Some r) of Some x \<Rightarrow> x | None \<Rightarrow> providerTransportFailure)))"

section \<open>Endpoints\<close>

record provider_environment =
  pv_NODE_ENV :: "jstr option"
  pv_MATCHPLANE_ENVIRONMENT :: "jstr option"
  pv_proxies :: "jstr option list"

definition isExplicitTestEnvironment :: "provider_environment \<Rightarrow> bool" where
  "isExplicitTestEnvironment env \<longleftrightarrow>
     pv_NODE_ENV env = Some (js ''test'') \<and> pv_MATCHPLANE_ENVIRONMENT env \<noteq> Some (js ''production'')"

definition isDevelopmentLoopback :: "provider_environment \<Rightarrow> url \<Rightarrow> bool" where
  "isDevelopmentLoopback env url \<longleftrightarrow>
     pv_MATCHPLANE_ENVIRONMENT env \<noteq> Some (js ''production'') \<and> url_protocol url = js ''http:'' \<and>
     to_lower (url_hostname url) \<in> set (map js [''localhost'', ''127.0.0.1'', ''::1'', ''[::1]''])"

definition isAllowedProviderTransport :: "provider_environment \<Rightarrow> url \<Rightarrow> bool" where
  "isAllowedProviderTransport env url \<longleftrightarrow> url_protocol url = js ''https:'' \<or> isDevelopmentLoopback env url"

text \<open>\<open>models/[A-Za-z0-9._-]+:generateContent\<close>.\<close>

definition generate_suffix :: "jstr \<Rightarrow> bool" where
  "generate_suffix s \<longleftrightarrow>
     (let m = drop 7 s; n = length m - 16
      in take 7 s = js ''models/'' \<and> 17 \<le> length m \<and> drop n m = js '':generateContent'' \<and>
         list_all (\<lambda>c. is_alnum c \<or> c \<in> {46, 95, 45}) (take n m))"

definition base_path :: "ProviderProtocol \<Rightarrow> jstr \<Rightarrow> jstr option" where
  "base_path protocol path =
     (case protocol of
        OpenAiCompatible \<Rightarrow>
          if path \<in> set (map js [''/'', ''/v1'', ''/v1/chat/completions'', ''/v1/responses'']) then Some (js ''/v1'') else None
      | AnthropicMessagesApi \<Rightarrow>
          if path \<in> set (map js [''/'', ''/v1'', ''/v1/messages'']) then Some (js ''/v1'') else None
      | GeminiGenerate \<Rightarrow>
          if path \<in> set (map js [''/'', ''/v1beta'']) \<or>
             take 8 path = js ''/v1beta/'' \<and> generate_suffix (drop 8 path)
          then Some (js ''/v1beta'') else None)"

definition normalizeProviderBaseUrl ::
    "platform \<Rightarrow> provider_environment \<Rightarrow> ProviderProtocol \<Rightarrow> jstr \<Rightarrow> error_object + jstr" where
  "normalizeProviderBaseUrl P env protocol endpoint =
     (case url_parse P endpoint of
        None \<Rightarrow> Inl (ProviderAdapterError MP_PROVIDER_INVALID_ENDPOINT None)
      | Some url \<Rightarrow>
          if \<not> isAllowedProviderTransport env url \<or> url_username url \<noteq> [] \<or> url_password url \<noteq> [] \<or> url_search url \<noteq> [] \<or>
             url_hash url \<noteq> [] \<or> url_hostname url = []
          then Inl (ProviderAdapterError MP_PROVIDER_INVALID_ENDPOINT None)
          else let stripped = strip_slashes (url_pathname url)
               in case base_path protocol (if stripped = [] then js ''/'' else stripped) of
                 None \<Rightarrow> Inl (ProviderAdapterError MP_PROVIDER_INVALID_ENDPOINT None)
               | Some p \<Rightarrow> Inr (url_origin url @ p))"

definition isGeminiGenerateContentPath :: "jstr \<Rightarrow> jstr \<Rightarrow> bool" where
  "isGeminiGenerateContentPath path basePath \<longleftrightarrow>
     starts_with path (basePath @ [47]) \<and> generate_suffix (drop (length basePath + 1) path)"

text \<open>\<open>pathname.replace(/\\/$/, "")\<close> removes one slash at the end.\<close>

definition drop_slash :: "jstr \<Rightarrow> jstr" where
  "drop_slash s = (if s \<noteq> [] \<and> last s = 47 then butlast s else s)"

definition final_path_ok :: "ProviderProtocol \<Rightarrow> jstr \<Rightarrow> jstr \<Rightarrow> bool" where
  "final_path_ok protocol basePath path =
     (case protocol of
        OpenAiCompatible \<Rightarrow> path = basePath @ js ''/chat/completions''
      | AnthropicMessagesApi \<Rightarrow> path = basePath @ js ''/messages''
      | GeminiGenerate \<Rightarrow> isGeminiGenerateContentPath path basePath)"

definition validateFinalProviderUrl ::
    "platform \<Rightarrow> provider_environment \<Rightarrow> url \<Rightarrow> ProviderProtocol \<Rightarrow> jstr \<Rightarrow> error_object + unit" where
  "validateFinalProviderUrl P env url protocol baseURL =
     (case url_parse P baseURL of
        None \<Rightarrow> Inl (ProviderAdapterError MP_PROVIDER_INVALID_ENDPOINT None)
      | Some base \<Rightarrow>
          if \<not> isAllowedProviderTransport env url \<or> url_origin url \<noteq> url_origin base \<or> url_username url \<noteq> [] \<or>
             url_password url \<noteq> [] \<or> url_search url \<noteq> [] \<or> url_hash url \<noteq> [] \<or>
             \<not> final_path_ok protocol (drop_slash (url_pathname base)) (url_pathname url)
          then Inl (ProviderAdapterError MP_PROVIDER_INVALID_ENDPOINT None)
          else Inr ())"

definition finalProviderUrl :: "platform \<Rightarrow> jstr \<Rightarrow> error_object + url" where
  "finalProviderUrl P resource =
     (case url_parse P resource of
        None \<Rightarrow> Inl (ProviderAdapterError MP_PROVIDER_INVALID_ENDPOINT None)
      | Some url \<Rightarrow> Inr url)"

definition assertEnvironmentProxyUnsupported :: "provider_environment \<Rightarrow> url \<Rightarrow> error_object + unit" where
  "assertEnvironmentProxyUnsupported env url =
     (if isDevelopmentLoopback env url then Inr ()
      else if list_ex (\<lambda>v. case v of Some t \<Rightarrow> trim t \<noteq> [] | None \<Rightarrow> False) (pv_proxies env)
      then Inl providerNetworkPolicyError else Inr ())"

section \<open>The fetch\<close>

record ProviderFetchTelemetry =
  tm_phase :: jstr
  tm_firstByteAt :: "int option"
  tm_responseStatus :: "nat option"

text \<open>\<open>po_fetcher\<close>: a transport for tests is given. The limit is an integer in every use.\<close>

record SafeFetchOptions =
  po_protocol :: ProviderProtocol
  po_baseURL :: jstr
  po_fetcher :: bool
  po_responseLimitBytes :: int

text \<open>
  The course of a request: the reason of the combined signal, whether it is aborted at the points where
  the code looks, the error of a body that breaks, and whether the orderly close of the dispatcher fails.
\<close>

record provider_course =
  pc_reason :: nat
  pc_abortedBefore :: bool
  pc_bodyAbortedAtStart :: bool
  pc_abortedAtCatch :: bool
  pc_abortedAtEnd :: bool
  pc_streamError :: nat
  pc_closeFails :: bool
  pc_now :: int

datatype provider_event = Answered http_response | Broke nat

record provider_response =
  pr_status :: nat
  pr_body :: "bytes option"

definition made :: "error_object + 'a \<Rightarrow> thrown + 'a" where
  "made r = (case r of Inl e \<Rightarrow> Inl (Made e) | Inr x \<Rightarrow> Inr x)"

text \<open>Errors of the pinned resolution: its policy error is made by the adapter, an abort throws the reason.\<close>

definition outbound_thrown :: "provider_course \<Rightarrow> outbound_error \<Rightarrow> thrown" where
  "outbound_thrown course e = (if e = PolicyError then Made providerNetworkPolicyError else Foreign (pc_reason course))"

definition address_options :: "provider_environment \<Rightarrow> url \<Rightarrow> PinnedPublicAddressOptions" where
  "address_options env url = \<lparr> ao_allowLoopback = isDevelopmentLoopback env url, ao_signal = Some None \<rparr>"

definition resolveValidatedProviderAddresses ::
    "platform \<Rightarrow> provider_environment \<Rightarrow> (jstr \<Rightarrow> resolve_event) \<Rightarrow> url \<Rightarrow> outbound_error + jstr list" where
  "resolveValidatedProviderAddresses P env resolve url = resolvePinnedPublicAddresses P resolve url (address_options env url)"

definition createPinnedProviderDispatcher ::
    "platform \<Rightarrow> provider_environment \<Rightarrow> (jstr \<Rightarrow> resolve_event) \<Rightarrow> url \<Rightarrow> outbound_error + dispatcher" where
  "createPinnedProviderDispatcher P env resolve url = createPinnedPublicDispatcher P resolve url (address_options env url)"

definition createPinnedProviderLookup ::
    "platform \<Rightarrow> provider_environment \<Rightarrow> (jstr \<Rightarrow> resolve_event) \<Rightarrow> url \<Rightarrow> jstr \<Rightarrow> bool \<Rightarrow> lookup_result" where
  "createPinnedProviderLookup P env resolve url = createPinnedPublicLookup P resolve url (address_options env url)"

text \<open>The URL of the request, when it passes.\<close>

definition prepared_url :: "platform \<Rightarrow> provider_environment \<Rightarrow> SafeFetchOptions \<Rightarrow> provider_course \<Rightarrow> jstr \<Rightarrow> thrown + url" where
  "prepared_url P env options course resource =
     (if pc_abortedBefore course then Inl (Foreign (pc_reason course))
      else rbind (made (finalProviderUrl P resource)) (\<lambda>url.
           rbind (made (validateFinalProviderUrl P env url (po_protocol options) (po_baseURL options))) (\<lambda>_. Inr url)))"

text \<open>What the transport does, and whether there is a dispatcher.\<close>

definition provider_transport ::
    "platform \<Rightarrow> provider_environment \<Rightarrow> (jstr \<Rightarrow> resolve_event) \<Rightarrow> (url \<Rightarrow> provider_event) \<Rightarrow> (url \<Rightarrow> dispatcher \<Rightarrow> provider_event) \<Rightarrow>
     SafeFetchOptions \<Rightarrow> provider_course \<Rightarrow> url \<Rightarrow> thrown + bool \<times> provider_event" where
  "provider_transport P env resolve fetcher undiciFetch options course url =
     (if po_fetcher options
      then if \<not> isExplicitTestEnvironment env then Inl (Made providerNetworkPolicyError)
           else case resolveValidatedProviderAddresses P env resolve url of
             Inl e \<Rightarrow> Inl (outbound_thrown course e)
           | Inr _ \<Rightarrow> Inr (False, fetcher url)
      else rbind (made (assertEnvironmentProxyUnsupported env url)) (\<lambda>_.
           case createPinnedProviderDispatcher P env resolve url of
             Inl e \<Rightarrow> Inl (outbound_thrown course e)
           | Inr d \<Rightarrow> Inr (True, undiciFetch url d)))"

definition body_thrown :: "provider_course \<Rightarrow> nat \<Rightarrow> body_error \<Rightarrow> thrown" where
  "body_thrown course status e =
     (case e of
        ResponseBodyTooLargeError _ \<Rightarrow> Made (ProviderAdapterError MP_PROVIDER_BODY_LIMIT (Some status))
      | AbortError \<Rightarrow> Foreign (pc_reason course)
      | _ \<Rightarrow> Foreign (pc_streamError course))"

text \<open>
  The read of a body is the loop of \<open>body-limit.ts\<close> with another error. \<open>number\<close> is the conversion of a text
  to a number; a missing header is \<open>Number(null)\<close>.
\<close>

definition boundedResponse ::
    "(jstr \<Rightarrow> jsnum) \<Rightarrow> provider_course \<Rightarrow> http_response \<Rightarrow> int \<Rightarrow> (thrown + provider_response) option \<times> body_action list" where
  "boundedResponse number course response limitBytes =
     (let boundedLimit = max 1 limitBytes; status = hr_status response;
          declared = (case hm_contentLength (hr_message response) of Some h \<Rightarrow> number h | None \<Rightarrow> Dec 0 0)
      in if is_finite declared \<and> of_int boundedLimit < num_val declared
         then (Some (Inl (Made (ProviderAdapterError MP_PROVIDER_BODY_LIMIT (Some status)))),
               BeforeCancel # (if hm_body (hr_message response) \<noteq> None then [CancelBody] else []))
         else case hm_body (hr_message response) of
           None \<Rightarrow> (Some (Inr \<lparr> pr_status = status, pr_body = None \<rparr>), [])
         | Some body \<Rightarrow>
             (case readBoundedBytes body (nat boundedLimit) (ResponseBodyTooLargeError (nat boundedLimit))
                     (Some (pc_bodyAbortedAtStart course)) True of
                (None, calls) \<Rightarrow> (None, calls)
              | (Some (Inl e), calls) \<Rightarrow> (Some (Inl (body_thrown course status e)), calls)
              | (Some (Inr b), calls) \<Rightarrow> (Some (Inr \<lparr> pr_status = status, pr_body = Some b \<rparr>), calls)))"

text \<open>The \<open>catch\<close> and the \<open>finally\<close>: without a dispatcher there is nothing to destroy or close.\<close>

definition destroy_provider :: "bool \<Rightarrow> transport_action list \<Rightarrow> transport_action list" where
  "destroy_provider pinned calls = (if pinned then destroyTransport calls else calls)"

definition provider_end :: "provider_course \<Rightarrow> bool \<Rightarrow> bool \<Rightarrow> transport_action list \<Rightarrow> transport_action list" where
  "provider_end course pinned failed calls =
     (let c = (if failed then destroy_provider pinned calls else calls)
      in if \<not> pinned then c
         else if pc_abortedAtEnd course \<or> DestroyTransport \<in> set c then destroyTransport c
         else if pc_closeFails course then destroyTransport (c @ [CloseTransport])
         else c @ [CloseTransport])"

definition provider_failure :: "error_heap \<Rightarrow> provider_course \<Rightarrow> thrown \<Rightarrow> error_object" where
  "provider_failure H course e = safeProviderFetchError H e (if pc_abortedAtCatch course then Some (pc_reason course) else None)"

definition createSafeProviderFetch ::
    "platform \<Rightarrow> provider_environment \<Rightarrow> (jstr \<Rightarrow> jsnum) \<Rightarrow> (jstr \<Rightarrow> resolve_event) \<Rightarrow> (url \<Rightarrow> provider_event) \<Rightarrow>
     (url \<Rightarrow> dispatcher \<Rightarrow> provider_event) \<Rightarrow> error_heap \<Rightarrow> SafeFetchOptions \<Rightarrow> provider_course \<Rightarrow> jstr \<Rightarrow>
     (error_object + provider_response) option \<times> transport_action list \<times> ProviderFetchTelemetry" where
  "createSafeProviderFetch P env number resolve fetcher undiciFetch H options course resource =
     (let connect = \<lparr> tm_phase = js ''connect'', tm_firstByteAt = None, tm_responseStatus = None \<rparr>;
          first = connect\<lparr> tm_phase := js ''first_byte'' \<rparr>;
          fail = (\<lambda>e. Some (Inl (provider_failure H course e)))
      in case prepared_url P env options course resource of
           Inl e \<Rightarrow> (fail e, [], connect)
         | Inr url \<Rightarrow>
             (case provider_transport P env resolve fetcher undiciFetch options course url of
                Inl e \<Rightarrow> (fail e, [], first)
              | Inr (pinned, Broke r) \<Rightarrow> (fail (Foreign r), provider_end course pinned True [], first)
              | Inr (pinned, Answered response) \<Rightarrow>
                  (let status = hr_status response;
                       response' = \<lparr> tm_phase = js ''response'', tm_firstByteAt = Some (pc_now course), tm_responseStatus = Some status \<rparr>
                   in if hr_redirected response \<or> 300 \<le> status \<and> status < 400
                      then (fail (Made (ProviderAdapterError MP_PROVIDER_REDIRECT (Some status))),
                            provider_end course pinned True (destroy_provider pinned [] @
                              (if hm_body (hr_message response) \<noteq> None then [CancelResponse] else [])), response')
                      else case boundedResponse number course response (po_responseLimitBytes options) of
                        (None, calls) \<Rightarrow> (None, if BeforeCancel \<in> set calls then destroy_provider pinned [] else [], response')
                      | (Some (Inl e), calls) \<Rightarrow>
                          (fail e, provider_end course pinned True (if BeforeCancel \<in> set calls then destroy_provider pinned [] else []), response')
                      | (Some (Inr r), calls) \<Rightarrow> (Some (Inr r), provider_end course pinned False [], response'))))"

section \<open>The model and its usage\<close>

record ProviderModelOptions =
  mo_protocol :: ProviderProtocol
  mo_endpoint :: jstr
  mo_apiKey :: jstr
  mo_model :: jstr
  mo_fetcher :: bool
  mo_responseLimitBytes :: int

text \<open>What is handed to the SDK: the endpoint and key, and the options of the fetch.\<close>

record provider_model =
  pm_protocol :: ProviderProtocol
  pm_baseURL :: jstr
  pm_apiKey :: jstr
  pm_model :: jstr
  pm_fetch :: SafeFetchOptions

definition createProviderModel :: "platform \<Rightarrow> provider_environment \<Rightarrow> ProviderModelOptions \<Rightarrow> error_object + provider_model" where
  "createProviderModel P env options =
     (if mo_fetcher options \<and> \<not> isExplicitTestEnvironment env then Inl providerNetworkPolicyError
      else rbind (normalizeProviderBaseUrl P env (mo_protocol options) (mo_endpoint options)) (\<lambda>baseURL.
        Inr \<lparr> pm_protocol = mo_protocol options, pm_baseURL = baseURL, pm_apiKey = mo_apiKey options, pm_model = mo_model options,
              pm_fetch = \<lparr> po_protocol = mo_protocol options, po_baseURL = baseURL, po_fetcher = mo_fetcher options,
                po_responseLimitBytes = mo_responseLimitBytes options \<rparr> \<rparr>))"

definition boundedUsageToken :: "jsnum option \<Rightarrow> int option" where
  "boundedUsageToken v = (case v of Some x \<Rightarrow> if is_safe_integer x \<and> 0 \<le> num_int x then Some (num_int x) else None | None \<Rightarrow> None)"

text \<open>The sum of two safe integers as a double: beyond \<open>2^53\<close> an odd sum is rounded to a multiple of four.\<close>

definition double_add :: "int \<Rightarrow> int \<Rightarrow> int" where
  "double_add a b =
     (let s = a + b in if s \<le> 2 ^ 53 \<or> even s then s else if s mod 4 = 1 then s - 1 else s + 1)"

record provider_usage =
  us_promptTokens :: int
  us_completionTokens :: int
  us_totalTokens :: int

definition normalizeProviderUsage :: "(jsnum option \<times> jsnum option \<times> jsnum option) option \<Rightarrow> provider_usage option" where
  "normalizeProviderUsage usage =
     (case usage of
        None \<Rightarrow> None
      | Some (input, out, reported) \<Rightarrow>
          (case (boundedUsageToken input, boundedUsageToken out) of
             (Some p, Some c) \<Rightarrow>
               Some \<lparr> us_promptTokens = p, us_completionTokens = c,
                 us_totalTokens = (case boundedUsageToken reported of Some t \<Rightarrow> t | None \<Rightarrow> double_add p c) \<rparr>
           | _ \<Rightarrow> None))"

section \<open>Errors carry nothing of the request\<close>

text \<open>An instance of the class has the text that its constructor gives it.\<close>

definition heap_ok :: "error_heap \<Rightarrow> bool" where
  "heap_ok H \<longleftrightarrow> (\<forall>r code status. eo_class (H r) = AdapterClass code status \<longrightarrow> H r = ProviderAdapterError code status)"

definition safe_messages :: "jstr list" where
  "safe_messages = map js [''Provider endpoint is invalid.'', ''Provider endpoint is blocked by network policy.'',
     ''Provider redirects are not allowed.'', ''Provider response exceeded the allowed size.'', ''Provider request failed.'',
     ''Provider request was aborted.'', ''Provider request timed out.'']"

definition safe_codes :: "jstr list" where
  "safe_codes = js ''UND_ERR_ABORTED'' # UNDICI_TIMEOUT_CODES"

definition safe_names :: "jstr list" where
  "safe_names = map js [''ProviderAdapterError'', ''ProviderTransportError'', ''AbortError'', ''TimeoutError'']"

definition safe_error :: "error_object \<Rightarrow> bool" where
  "safe_error e \<longleftrightarrow>
     eo_message e \<in> set safe_messages \<and> eo_name e \<in> set safe_names \<and> eo_cause e = None \<and>
     (case eo_code e of Some c \<Rightarrow> c \<in> set safe_codes | None \<Rightarrow> True)"

lemma safe_made: "safe_error (ProviderAdapterError code status)"
  by (cases code) (auto simp: safe_error_def ProviderAdapterError_def safe_messages_def safe_names_def)

lemma safe_fixed: "safe_error providerNetworkPolicyError" "safe_error providerTransportFailure" "safe_error safeAbortError"
  "safe_error (safeTimeoutError code)"
  by (auto simp: providerNetworkPolicyError_def safe_made)
    (auto simp: safe_error_def providerTransportFailure_def safeAbortError_def safeTimeoutError_def plain_error_def safe_messages_def
      safe_names_def safe_codes_def timeout_code_def split: option.splits)

lemma safe_known:
  assumes "safeKnownProviderError e = Some x" and "\<And>code status. eo_class e = AdapterClass code status \<Longrightarrow> e = ProviderAdapterError code status"
  shows "safe_error x"
proof -
  have "safe_error (plain_error (js ''AbortError'') (js ''Provider request was aborted.'')
      (if eo_code e = Some (js ''UND_ERR_ABORTED'') then eo_code e else None))"
    by (auto simp: safe_error_def plain_error_def safe_messages_def safe_names_def safe_codes_def)
  with assms safe_made safe_fixed show ?thesis
    unfolding safeKnownProviderError_def by (cases "eo_class e") (auto split: if_splits)
qed

lemma safe_heap: "heap_ok H \<Longrightarrow> safeKnownProviderError (H r) = Some x \<Longrightarrow> safe_error x"
  by (rule safe_known) (auto simp: heap_ok_def)

lemma safe_cause: "heap_ok H \<Longrightarrow> known_cause n H seen candidate = Some x \<Longrightarrow> safe_error x"
  by (induction n H seen candidate rule: known_cause.induct) (auto split: if_splits option.splits dest: safe_heap)

lemma safe_thrown:
  assumes H: "heap_ok H" and e: "\<And>x. e = Made x \<Longrightarrow> \<exists>code status. x = ProviderAdapterError code status"
  shows "safe_error (safeProviderFetchError H e aborted)"
proof (cases aborted)
  case (Some reason)
  then show ?thesis using safe_heap [OF H] safe_fixed by (auto simp: safeProviderFetchError_def safeInterruptedError_def split: option.splits)
next
  case None
  have m: "safe_error x" if y: "e = Made y" and k: "safeKnownProviderError y = Some x" for x y
  proof (rule safe_known [OF k])
    obtain code' status' where "y = ProviderAdapterError code' status'" using e [OF y] by blast
    then show "y = ProviderAdapterError code status" if "eo_class y = AdapterClass code status" for code status
      using that by (simp add: ProviderAdapterError_def)
  qed
  show ?thesis
    unfolding safeProviderFetchError_def using None m safe_heap [OF H] safe_cause [OF H] safe_fixed
    by (auto split: thrown.splits option.splits)
qed

lemma made_Inl: "made r = Inl t \<longleftrightarrow> (\<exists>e. r = Inl e \<and> t = Made e)" "made r = Inr x \<longleftrightarrow> r = Inr x"
  by (auto simp: made_def split: sum.splits)

lemma prepared_thrown:
  assumes "prepared_url P env options course resource = Inl e" and "e = Made x"
  shows "\<exists>code status. x = ProviderAdapterError code status"
  using assms by (auto simp: prepared_url_def finalProviderUrl_def validateFinalProviderUrl_def made_Inl rbind_def
      split: if_splits option.splits sum.splits)

lemma transport_thrown:
  assumes "provider_transport P env resolve fetcher net options course url = Inl e" and "e = Made x"
  shows "\<exists>code status. x = ProviderAdapterError code status"
  using assms by (auto simp: provider_transport_def assertEnvironmentProxyUnsupported_def providerNetworkPolicyError_def outbound_thrown_def
      made_Inl rbind_def split: if_splits option.splits sum.splits)

lemma bounded_thrown:
  assumes "boundedResponse number course response limit = (Some (Inl e), calls)" and "e = Made x"
  shows "\<exists>code status. x = ProviderAdapterError code status"
  using assms by (auto simp: boundedResponse_def body_thrown_def Let_def split: if_splits option.splits sum.splits prod.splits body_error.splits)

section \<open>Where requests go\<close>

definition provider_target :: "platform \<Rightarrow> provider_environment \<Rightarrow> SafeFetchOptions \<Rightarrow> url \<Rightarrow> bool" where
  "provider_target P env options url \<longleftrightarrow>
     isAllowedProviderTransport env url \<and> url_username url = [] \<and> url_password url = [] \<and> url_search url = [] \<and> url_hash url = [] \<and>
     (\<exists>base. url_parse P (po_baseURL options) = Some base \<and> url_origin url = url_origin base \<and>
        final_path_ok (po_protocol options) (drop_slash (url_pathname base)) (url_pathname url))"

lemma prepared_target:
  assumes "prepared_url P env options course resource = Inr url"
  shows "url_parse P resource = Some url" "provider_target P env options url"
  using assms by (auto simp: prepared_url_def finalProviderUrl_def validateFinalProviderUrl_def made_Inl rbind_def provider_target_def
      split: if_splits option.splits sum.splits)

section \<open>Claims\<close>

text \<open>
  C26. An error of the fetch says nothing about the request or the response. Whatever the transports throw,
  with whatever texts, codes and causes, the error that leaves the adapter has one of seven fixed texts, a
  fixed name, one of four codes of the transport or none, and no cause.
\<close>

theorem provider_errors_safe:
  assumes "heap_ok H"
    and "createSafeProviderFetch P env number resolve fetcher undiciFetch H options course resource = (Some (Inl e), calls, telemetry)"
  shows "safe_error e"
proof -
  from assms(2) obtain t where e: "e = provider_failure H course t" and t: "\<And>x. t = Made x \<Longrightarrow> \<exists>code status. x = ProviderAdapterError code status"
    unfolding createSafeProviderFetch_def Let_def
    by (auto split: sum.splits prod.splits provider_event.splits if_splits option.splits
        dest: prepared_thrown transport_thrown bounded_thrown)
  show ?thesis unfolding e provider_failure_def by (rule safe_thrown [OF assms(1) t])
qed

text \<open>A name that resolves, and a transport that fails with the key in its text.\<close>

definition example_provider_url :: url where
  "example_provider_url = \<lparr> url_protocol = js ''https:'', url_username = [], url_password = [], url_hash = [], url_search = [],
     url_pathname = js ''/v1/messages'', url_hostname = js ''a.example'', url_origin = js ''https://a.example'' \<rparr>"

definition example_provider_net :: platform where
  "example_provider_net = \<lparr>
     url_parse = (\<lambda>s. if s = js ''https://a.example/v1'' then Some (example_provider_url\<lparr> url_pathname := js ''/v1'' \<rparr>)
       else if s = js ''https://a.example/v1/messages'' then Some example_provider_url else None),
     isIP = (\<lambda>_. 0), ip_process = (\<lambda>_. None), sha256 = (\<lambda>_. []) \<rparr>"

definition example_provider_env :: provider_environment where
  "example_provider_env = \<lparr> pv_NODE_ENV = None, pv_MATCHPLANE_ENVIRONMENT = Some (js ''production''), pv_proxies = [] \<rparr>"

definition example_fetch_options :: SafeFetchOptions where
  "example_fetch_options = \<lparr> po_protocol = AnthropicMessagesApi, po_baseURL = js ''https://a.example/v1'', po_fetcher = False,
     po_responseLimitBytes = 100 \<rparr>"

definition example_provider_course :: provider_course where
  "example_provider_course = \<lparr> pc_reason = 0, pc_abortedBefore = False, pc_bodyAbortedAtStart = False, pc_abortedAtCatch = False,
     pc_abortedAtEnd = False, pc_streamError = 0, pc_closeFails = False, pc_now = 0 \<rparr>"

definition example_heap :: error_heap where
  "example_heap = (\<lambda>r. \<lparr> eo_class = TypeErrorClass, eo_name = js ''TypeError'', eo_message = js ''key sk-1 was refused'', eo_code = None,
     eo_cause = Some r \<rparr>)"

lemma example_request_prepared:
  "prepared_url example_provider_net example_provider_env example_fetch_options example_provider_course (js ''https://a.example/v1/messages'') =
     Inr example_provider_url"
  by (simp add: prepared_url_def finalProviderUrl_def validateFinalProviderUrl_def made_def example_provider_net_def example_provider_env_def
      example_fetch_options_def example_provider_course_def example_provider_url_def isAllowedProviderTransport_def final_path_ok_def
      drop_slash_def js_simps)

lemma example_dispatcher:
  "createPinnedProviderDispatcher example_provider_net env resolve url =
     Inr (PinnedAgent (createPinnedPublicLookup example_provider_net resolve url (address_options env url)))"
  by (simp add: createPinnedProviderDispatcher_def createPinnedPublicDispatcher_def example_provider_net_def)

lemma example_refused:
  "\<exists>calls telemetry. createSafeProviderFetch example_provider_net example_provider_env (\<lambda>_. NumNaN) (\<lambda>_. Resolved []) (\<lambda>_. Broke 0) (\<lambda>_ _. Broke 0) example_heap
     example_fetch_options example_provider_course (js ''https://a.example/v1/messages'') = (Some (Inl providerTransportFailure), calls, telemetry)"
proof -
  have "provider_failure example_heap example_provider_course (Foreign 0) = providerTransportFailure"
    by (simp add: provider_failure_def safeProviderFetchError_def example_provider_course_def safeKnownProviderError_def example_heap_def
        timeout_code_def numeral_eq_Suc safeErrorCause_def)
  moreover have "provider_transport example_provider_net example_provider_env resolve fetcher net example_fetch_options course url =
      Inr (True, net url (PinnedAgent (createPinnedPublicLookup example_provider_net resolve url (address_options example_provider_env url))))"
    for resolve fetcher net course url
    by (simp add: provider_transport_def example_dispatcher assertEnvironmentProxyUnsupported_def made_def example_fetch_options_def)
      (simp add: example_provider_env_def)
  ultimately show ?thesis by (simp add: createSafeProviderFetch_def example_request_prepared)
qed

theorem provider_errors_safe_witness:
  "\<exists>e calls telemetry. heap_ok example_heap \<and> eo_message (example_heap 0) \<notin> set safe_messages \<and> safe_error e \<and>
     createSafeProviderFetch example_provider_net example_provider_env (\<lambda>_. NumNaN) (\<lambda>_. Resolved []) (\<lambda>_. Broke 0) (\<lambda>_ _. Broke 0) example_heap
       example_fetch_options example_provider_course (js ''https://a.example/v1/messages'') = (Some (Inl e), calls, telemetry)"
proof -
  have h: "heap_ok example_heap" by (simp add: heap_ok_def example_heap_def)
  have "eo_message (example_heap 0) \<notin> set safe_messages" by (simp add: example_heap_def safe_messages_def)
  with h provider_errors_safe [OF h] example_refused show ?thesis by blast
qed

text \<open>
  C25. Without a transport for tests, a request goes only to the configured endpoint, and only to addresses that the
  policy permits: its result depends on the network only through requests for URLs with the origin of the
  endpoint, the one path of the protocol, an allowed scheme, and neither credentials nor query, over
  dispatchers whose every reachable address is permitted; and not at all when a proxy is set.
\<close>

theorem provider_reaches_endpoint_only:
  assumes "\<not> po_fetcher options"
    and "\<And>url d. provider_target P env options url \<Longrightarrow> safe_dispatcher P (isDevelopmentLoopback env url) url d \<Longrightarrow>
      (\<forall>t. Some t \<in> set (pv_proxies env) \<and> trim t \<noteq> [] \<longrightarrow> isDevelopmentLoopback env url) \<Longrightarrow> net url d = net' url d"
  shows "createSafeProviderFetch P env number resolve fetcher net H options course resource =
    createSafeProviderFetch P env number resolve fetcher' net' H options course resource"
proof -
  have "provider_transport P env resolve fetcher net options course url = provider_transport P env resolve fetcher' net' options course url"
    if u: "prepared_url P env options course resource = Inr url" for url
  proof -
    have "safe_dispatcher P (isDevelopmentLoopback env url) url d" if "createPinnedProviderDispatcher P env resolve url = Inr d" for d
      using dispatcher_permitted [of P resolve url "address_options env url" d] that
      by (simp add: safe_dispatcher_def createPinnedProviderDispatcher_def address_options_def)
    moreover have "assertEnvironmentProxyUnsupported env url = Inr () \<Longrightarrow>
        \<forall>t. Some t \<in> set (pv_proxies env) \<and> trim t \<noteq> [] \<longrightarrow> isDevelopmentLoopback env url"
      by (auto simp: assertEnvironmentProxyUnsupported_def list_ex_iff split: if_splits option.splits)
    ultimately show ?thesis
      using assms prepared_target(2) [OF u] by (auto simp: provider_transport_def made_def rbind_def split: sum.splits)
  qed
  then show ?thesis by (cases "prepared_url P env options course resource") (simp_all add: createSafeProviderFetch_def)
qed

text \<open>A network in which only what is not permitted would answer.\<close>

theorem provider_reaches_endpoint_only_witness:
  "createSafeProviderFetch example_provider_net example_provider_env (\<lambda>_. NumNaN) (\<lambda>_. Resolved []) (\<lambda>_. Broke 0)
     (\<lambda>url d. if safe_dispatcher example_provider_net (isDevelopmentLoopback example_provider_env url) url d then Broke 0
        else Answered \<lparr> hr_status = 200, hr_redirected = False, hr_message = \<lparr> hm_contentLength = None, hm_body = None \<rparr> \<rparr>)
     example_heap example_fetch_options example_provider_course (js ''https://a.example/v1/messages'') =
   createSafeProviderFetch example_provider_net example_provider_env (\<lambda>_. NumNaN) (\<lambda>_. Resolved []) (\<lambda>_. Broke 0) (\<lambda>_ _. Broke 0)
     example_heap example_fetch_options example_provider_course (js ''https://a.example/v1/messages'')"
  by (rule provider_reaches_endpoint_only) (simp_all add: example_fetch_options_def)

text \<open>
  A response that the fetch returns was not redirected and has exactly the bytes that were
  delivered, at most as many as the limit allows; the dispatcher is destroyed or closed whenever there was one.
\<close>

theorem provider_response_bounded:
  assumes "createSafeProviderFetch P env number resolve fetcher net H options course resource = (Some (Inr r), calls, telemetry)"
  shows "\<not> (300 \<le> pr_status r \<and> pr_status r < 400) \<and> tm_responseStatus telemetry = Some (pr_status r) \<and>
    (\<forall>b. pr_body r = Some b \<longrightarrow> int (length b) \<le> max 1 (po_responseLimitBytes options) \<and> (\<exists>body. delivered True body = Some b)) \<and>
    (\<not> po_fetcher options \<longrightarrow> DestroyTransport \<in> set calls \<or> CloseTransport \<in> set calls)"
proof -
  from assms obtain url pinned response c where t: "provider_transport P env resolve fetcher net options course url = Inr (pinned, Answered response)"
    and s: "\<not> (300 \<le> hr_status response \<and> hr_status response < 400)" "tm_responseStatus telemetry = Some (hr_status response)"
    and r: "boundedResponse number course response (po_responseLimitBytes options) = (Some (Inr r), c)"
    and calls: "calls = provider_end course pinned False []"
    unfolding createSafeProviderFetch_def Let_def
    by (auto split: sum.splits prod.splits provider_event.splits if_splits option.splits)
  from r have "pr_status r = hr_status response"
    by (auto simp: boundedResponse_def Let_def split: if_splits option.splits sum.splits prod.splits)
  moreover have "int (length b) \<le> max 1 (po_responseLimitBytes options) \<and> (\<exists>body. delivered True body = Some b)" if "pr_body r = Some b" for b
  proof -
    from r that obtain body where "readBoundedBytes body (nat (max 1 (po_responseLimitBytes options)))
        (ResponseBodyTooLargeError (nat (max 1 (po_responseLimitBytes options)))) (Some (pc_bodyAbortedAtStart course)) True = (Some (Inr b), c)"
      by (auto simp: boundedResponse_def Let_def split: if_splits option.splits sum.splits prod.splits)
    then have "delivered True body = Some b" "length b \<le> nat (max 1 (po_responseLimitBytes options))" by (auto simp: bounded_Inr)
    then show ?thesis by auto
  qed
  moreover have "DestroyTransport \<in> set calls \<or> CloseTransport \<in> set calls" if "\<not> po_fetcher options"
  proof -
    from t that have "pinned" by (auto simp: provider_transport_def made_def rbind_def split: sum.splits)
    then show ?thesis unfolding calls by (simp add: provider_end_def destroyTransport_def)
  qed
  ultimately show ?thesis using s by simp
qed

section \<open>Configured endpoints can be used\<close>

text \<open>
  A path without characters that are escaped and without dot segments is kept by the URL parser: the origin of
  a parsed URL followed by it parses to the same URL with that path.
\<close>

definition plain_path :: "jstr \<Rightarrow> bool" where
  "plain_path p \<longleftrightarrow>
     p \<noteq> [] \<and> hd p = 47 \<and> list_all (\<lambda>c. is_alnum c \<or> c \<in> {46, 95, 45, 58, 47}) p \<and>
     list_all (\<lambda>segment. segment \<noteq> js ''.'' \<and> segment \<noteq> js ''..'') (split_on 47 p)"

definition with_path :: "url \<Rightarrow> jstr \<Rightarrow> url" where
  "with_path u p = u\<lparr> url_username := [], url_password := [], url_search := [], url_hash := [], url_pathname := p \<rparr>"

definition path_law :: "platform \<Rightarrow> bool" where
  "path_law P \<longleftrightarrow>
     (\<forall>s u p. url_parse P s = Some u \<and> (url_protocol u = js ''https:'' \<or> url_protocol u = js ''http:'') \<and> url_hostname u \<noteq> [] \<and>
        plain_path p \<longrightarrow> url_parse P (url_origin u @ p) = Some (with_path u p))"

text \<open>What the SDK appends to the base URL.\<close>

definition request_suffix :: "ProviderProtocol \<Rightarrow> jstr \<Rightarrow> bool" where
  "request_suffix protocol t =
     (case protocol of
        OpenAiCompatible \<Rightarrow> t = js ''/chat/completions''
      | AnthropicMessagesApi \<Rightarrow> t = js ''/messages''
      | GeminiGenerate \<Rightarrow> (\<exists>m. m \<noteq> [] \<and> list_all (\<lambda>c. is_alnum c \<or> c \<in> {46, 95, 45}) m \<and> t = js ''/models/'' @ m @ js '':generateContent''))"

lemma with_path_simps [simp]:
  "url_protocol (with_path u p) = url_protocol u" "url_username (with_path u p) = []" "url_password (with_path u p) = []"
  "url_search (with_path u p) = []" "url_hash (with_path u p) = []" "url_pathname (with_path u p) = p"
  "url_hostname (with_path u p) = url_hostname u" "url_origin (with_path u p) = url_origin u"
  by (simp_all add: with_path_def)

lemma allowed_with_path [simp]: "isAllowedProviderTransport env (with_path u p) \<longleftrightarrow> isAllowedProviderTransport env u"
  by (simp add: isAllowedProviderTransport_def isDevelopmentLoopback_def)

lemma allowed_scheme: "isAllowedProviderTransport env u \<Longrightarrow> url_protocol u = js ''https:'' \<or> url_protocol u = js ''http:''"
  by (auto simp: isAllowedProviderTransport_def isDevelopmentLoopback_def)

lemma normalize_Inr:
  assumes "normalizeProviderBaseUrl P env protocol endpoint = Inr base"
  obtains u p where "url_parse P endpoint = Some u" "base = url_origin u @ p" "isAllowedProviderTransport env u" "url_hostname u \<noteq> []"
    "protocol \<noteq> GeminiGenerate \<and> p = js ''/v1'' \<or> protocol = GeminiGenerate \<and> p = js ''/v1beta''"
  using assms by (auto simp: normalizeProviderBaseUrl_def base_path_def Let_def split: option.splits if_splits ProviderProtocol.splits)

lemma split_none: "d \<notin> set t \<Longrightarrow> split_on d t = [t]"
  by (induction t) auto

lemma plain_fixed:
  "plain_path (js ''/v1'')" "plain_path (js ''/v1beta'')" "plain_path (js ''/v1/chat/completions'')" "plain_path (js ''/v1/messages'')"
  by (simp_all add: plain_path_def js_simps is_alnum_def is_lower_def is_upper_def is_digit_def)

lemma plain_generate:
  assumes "m \<noteq> []" and m: "list_all (\<lambda>c. is_alnum c \<or> c \<in> {46, 95, 45}) m"
  shows "plain_path (js ''/v1beta/models/'' @ m @ js '':generateContent'')"
proof -
  have "47 \<notin> set (m @ js '':generateContent'')"
    using m by (auto simp: list_all_iff js_simps is_alnum_def is_lower_def is_upper_def is_digit_def)
  then have "split_on 47 (m @ js '':generateContent'') = [m @ js '':generateContent'']" by (rule split_none)
  moreover have "list_all (\<lambda>c. is_alnum c \<or> c \<in> {46, 95, 45, 58, 47}) m" using m by (auto simp: list_all_iff)
  ultimately show ?thesis
    using assms(1) by (auto simp: plain_path_def js_simps is_alnum_def is_lower_def is_upper_def is_digit_def append_eq_Cons_conv)
qed

lemma generate_suffix_model:
  assumes "m \<noteq> []" and "list_all (\<lambda>c. is_alnum c \<or> c \<in> {46, 95, 45}) m"
  shows "generate_suffix (js ''models/'' @ m @ js '':generateContent'')"
  using assms by (cases m) (auto simp: generate_suffix_def js_simps Let_def)

lemma suffix_paths:
  assumes "request_suffix protocol t" and "protocol \<noteq> GeminiGenerate \<and> p = js ''/v1'' \<or> protocol = GeminiGenerate \<and> p = js ''/v1beta''"
  shows "plain_path (p @ t)" "final_path_ok protocol p (p @ t)"
proof -
  show "plain_path (p @ t)"
    using assms plain_fixed plain_generate by (auto simp: request_suffix_def js_simps split: ProviderProtocol.splits)
  show "final_path_ok protocol p (p @ t)"
    using assms generate_suffix_model
    by (auto simp: request_suffix_def final_path_ok_def isGeminiGenerateContentPath_def starts_with_def js_simps split: ProviderProtocol.splits)
qed

text \<open>
  C27. An endpoint that the configuration accepts can be used. Under the law of the URL parser, the base URL that
  is derived from it is derived from itself again, and the request that the SDK sends for the protocol, the base URL
  with its suffix, passes the check of the final URL, at the origin that was configured.
\<close>

theorem provider_endpoint_usable:
  assumes law: "path_law P" and base: "normalizeProviderBaseUrl P env protocol endpoint = Inr base" and t: "request_suffix protocol t"
    and options: "po_protocol options = protocol" "po_baseURL options = base" and "\<not> pc_abortedBefore course"
  shows "normalizeProviderBaseUrl P env protocol base = Inr base \<and>
    (\<exists>u url. url_parse P endpoint = Some u \<and> prepared_url P env options course (base @ t) = Inr url \<and> url_origin url = url_origin u)"
proof -
  from base obtain u p where u: "url_parse P endpoint = Some u" and b: "base = url_origin u @ p" and a: "isAllowedProviderTransport env u"
    and h: "url_hostname u \<noteq> []" and p: "protocol \<noteq> GeminiGenerate \<and> p = js ''/v1'' \<or> protocol = GeminiGenerate \<and> p = js ''/v1beta''"
    by (rule normalize_Inr)
  have parse: "url_parse P (url_origin u @ q) = Some (with_path u q)" if "plain_path q" for q
    using law u allowed_scheme [OF a] h that unfolding path_law_def by blast
  have "plain_path p" using p plain_fixed by auto
  then have pb: "url_parse P base = Some (with_path u p)" unfolding b by (rule parse)
  have "normalizeProviderBaseUrl P env protocol base = Inr base"
    using pb a h p b by (auto simp: normalizeProviderBaseUrl_def base_path_def strip_slashes_def js_simps Let_def split: ProviderProtocol.splits)
  moreover have "url_parse P (base @ t) = Some (with_path u (p @ t))" using parse [OF suffix_paths(1) [OF t p]] b by simp
  moreover have "drop_slash p = p" using p by (auto simp: drop_slash_def js_simps)
  ultimately show ?thesis
    using pb a u suffix_paths(2) [OF t p] assms(4-6)
    by (auto simp: prepared_url_def finalProviderUrl_def validateFinalProviderUrl_def made_def)
qed

text \<open>A parser that knows one host.\<close>

definition example_parser :: platform where
  "example_parser = \<lparr>
     url_parse = (\<lambda>s. if take 17 s = js ''https://a.example'' \<and> plain_path (drop 17 s) then Some (with_path example_provider_url (drop 17 s)) else None),
     isIP = (\<lambda>_. 0), ip_process = (\<lambda>_. None), sha256 = (\<lambda>_. []) \<rparr>"

lemma example_parser_law: "path_law example_parser"
proof -
  have origin: "url_origin example_provider_url = js ''https://a.example''" by (simp add: example_provider_url_def)
  have "length (js ''https://a.example'') = 17" by (simp add: js_simps)
  then show ?thesis by (auto simp: path_law_def example_parser_def origin with_path_def split: if_splits)
qed

theorem provider_endpoint_usable_witness:
  "path_law example_parser \<and>
   normalizeProviderBaseUrl example_parser example_provider_env AnthropicMessagesApi (js ''https://a.example/v1'') = Inr (js ''https://a.example/v1'') \<and>
   (\<exists>url. prepared_url example_parser example_provider_env example_fetch_options example_provider_course
      (js ''https://a.example/v1'' @ js ''/messages'') = Inr url)"
proof -
  have "normalizeProviderBaseUrl example_parser example_provider_env AnthropicMessagesApi (js ''https://a.example/v1/messages'') =
      Inr (js ''https://a.example/v1'')"
    using plain_fixed(4)
    by (simp add: normalizeProviderBaseUrl_def example_parser_def isAllowedProviderTransport_def example_provider_url_def base_path_def
        strip_slashes_def js_simps Let_def)
  from provider_endpoint_usable [OF example_parser_law this, of "js ''/messages''" example_fetch_options example_provider_course]
  show ?thesis using example_parser_law by (auto simp: request_suffix_def example_fetch_options_def example_provider_course_def)
qed

end
