(* ===== verification/Shopping_Memory.thy ===== *)
theory Shopping_Memory
  imports Shopping_Intent Request_Origin Body_Limit Store_Finance
begin

text \<open>
  The shopping memory of a customer, after \<open>web/src/shopping-memory.ts\<close>,
  \<open>web/src/shopping-memory-contract.ts\<close> and \<open>web/app/api/mall/memory/route.ts\<close>. The state is the row of
  one customer with the audit events that the route writes. A statement may fail before or after its
  effect; other sessions change the row until the first statement of a transaction that touches it
  holds its lock. \<open>jsonb\<close>, the case conversion, the number of a text and the assistant are arguments.
\<close>

section \<open>Facts\<close>

datatype ShoppingMemoryFactKind = Budget | Purpose | Preference | Exclusion

fun fact_kind_text :: "ShoppingMemoryFactKind \<Rightarrow> jstr" where
  "fact_kind_text Budget = js ''budget''"
| "fact_kind_text Purpose = js ''purpose''"
| "fact_kind_text Preference = js ''preference''"
| "fact_kind_text Exclusion = js ''exclusion''"

definition SHOPPING_MEMORY_FACT_KINDS :: "ShoppingMemoryFactKind list" where
  "SHOPPING_MEMORY_FACT_KINDS = [Budget, Purpose, Preference, Exclusion]"

definition MAX_FACTS :: nat where "MAX_FACTS = 16"
definition MAX_VALUE_LENGTH :: nat where "MAX_VALUE_LENGTH = 300"

record ShoppingMemoryFact =
  mf_kind :: ShoppingMemoryFactKind
  mf_key :: jstr
  mf_value :: jstr
  mf_currency :: "jstr option"

record ShoppingMemorySnapshot =
  sn_enabled :: bool
  sn_facts :: "ShoppingMemoryFact list"
  sn_version :: int
  sn_updatedAt :: "jstr option"

record ShoppingMemoryMutation =
  mm_enabled :: bool
  mm_facts :: "ShoppingMemoryFact list"
  mm_expectedVersion :: int

text \<open>The validation errors, one for each text.\<close>

datatype memory_problem =
    BadRequest | BadEnabled | BadVersion | TooManyFacts | RepeatedFact | BadKind | BadKey | BadValue | BadAmount | AmountOutOfRange | BadCurrency

text \<open>\<open>String(value)\<close>.\<close>

fun string_value :: "json \<Rightarrow> jstr" where
  "string_value (JStr s) = s"
| "string_value (JNum x) = text_of_number x"
| "string_value (JBool b) = (if b then js ''true'' else js ''false'')"
| "string_value JNull = js ''null''"
| "string_value (JArr vs) = join_with [44] (map (\<lambda>v. if v = JNull then [] else string_value v) vs)"
| "string_value (JObj ms) = js ''[object Object]''"

definition fact_kind :: "json option \<Rightarrow> ShoppingMemoryFactKind option" where
  "fact_kind v =
     (case v of
        Some x \<Rightarrow> List.find (\<lambda>k. fact_kind_text k = string_value x) SHOPPING_MEMORY_FACT_KINDS
      | None \<Rightarrow> None)"

definition text_member :: "(jstr \<times> json) list \<Rightarrow> string \<Rightarrow> jstr" where
  "text_member ms k = (case as_string (member ms k) of Some s \<Rightarrow> trim s | None \<Rightarrow> [])"

definition fact_key_pattern :: "jstr \<Rightarrow> bool" where
  "fact_key_pattern s \<longleftrightarrow> 1 \<le> length s \<and> length s \<le> 64 \<and> list_all (\<lambda>c. is_alnum c \<or> c \<in> {95, 46, 45}) s"

definition control_unit :: "nat \<Rightarrow> bool" where
  "control_unit c \<longleftrightarrow> c \<le> 8 \<or> c = 11 \<or> c = 12 \<or> 14 \<le> c \<and> c \<le> 31"

text \<open>\<open>/^(?:0|[1-9]\d*)(?:\.\d{1,2})?$/\<close>.\<close>

definition amount_pattern :: "jstr \<Rightarrow> bool" where
  "amount_pattern s \<longleftrightarrow>
     (let whole = takeWhile is_digit s; rest = dropWhile is_digit s
      in whole \<noteq> [] \<and> (whole = [48] \<or> hd whole \<noteq> 48) \<and>
         (rest = [] \<or> hd rest = 46 \<and> list_all is_digit (tl rest) \<and> 1 \<le> length (tl rest) \<and> length (tl rest) \<le> 2))"

definition currency_pattern :: "jstr \<Rightarrow> bool" where
  "currency_pattern s \<longleftrightarrow> length s = 3 \<and> list_all is_upper s"

definition amount_in_range :: "jsnum \<Rightarrow> bool" where
  "amount_in_range x \<longleftrightarrow> is_finite x \<and> 0 < num_val x \<and> num_val x \<le> 1000000000000"

record memory_world =
  mw_number :: "jstr \<Rightarrow> jsnum"
  mw_toUpperCase :: "jstr \<Rightarrow> jstr"
  mw_jsonb :: "json \<Rightarrow> json"

definition fact_currency :: "memory_world \<Rightarrow> (jstr \<times> json) list \<Rightarrow> jstr" where
  "fact_currency W ms = (case as_string (member ms ''currency'') of Some s \<Rightarrow> mw_toUpperCase W (trim s) | None \<Rightarrow> js ''CNY'')"

definition parseFact :: "memory_world \<Rightarrow> json \<Rightarrow> memory_problem + ShoppingMemoryFact" where
  "parseFact W v =
     (case as_record (Some v) of
        None \<Rightarrow> Inl BadKind
      | Some ms \<Rightarrow>
          (case fact_kind (member ms ''kind'') of
             None \<Rightarrow> Inl BadKind
           | Some kind \<Rightarrow>
               (let key = text_member ms ''key''; factValue = text_member ms ''value''
                in if \<not> fact_key_pattern key then Inl BadKey
                   else if factValue = [] \<or> length factValue > MAX_VALUE_LENGTH \<or> list_ex control_unit factValue then Inl BadValue
                   else if kind = Budget
                   then if \<not> amount_pattern factValue then Inl BadAmount
                        else if \<not> amount_in_range (mw_number W factValue) then Inl AmountOutOfRange
                        else if \<not> currency_pattern (fact_currency W ms) then Inl BadCurrency
                        else Inr \<lparr> mf_kind = kind, mf_key = key, mf_value = factValue, mf_currency = Some (fact_currency W ms) \<rparr>
                   else Inr \<lparr> mf_kind = kind, mf_key = key, mf_value = factValue, mf_currency = None \<rparr>)))"

fun parse_facts :: "memory_world \<Rightarrow> json list \<Rightarrow> memory_problem + ShoppingMemoryFact list" where
  "parse_facts W [] = Inr []"
| "parse_facts W (v # vs) = rbind (parseFact W v) (\<lambda>f. rbind (parse_facts W vs) (\<lambda>fs. Inr (f # fs)))"

definition fact_identity :: "ShoppingMemoryFact \<Rightarrow> jstr" where
  "fact_identity f = fact_kind_text (mf_kind f) @ 58 # mf_key f"

definition parseShoppingMemoryMutation :: "memory_world \<Rightarrow> json \<Rightarrow> memory_problem + ShoppingMemoryMutation" where
  "parseShoppingMemoryMutation W v =
     (case as_record (Some v) of
        None \<Rightarrow> Inl BadRequest
      | Some ms \<Rightarrow>
          (case as_boolean (member ms ''enabled'') of
             None \<Rightarrow> Inl BadEnabled
           | Some enabled \<Rightarrow>
               (case as_number (member ms ''expectedVersion'') of
                  None \<Rightarrow> Inl BadVersion
                | Some n \<Rightarrow>
                    if \<not> is_safe_integer n \<or> num_int n < 0 then Inl BadVersion
                    else case as_array (member ms ''facts'') of
                      None \<Rightarrow> Inl TooManyFacts
                    | Some vs \<Rightarrow>
                        if length vs > MAX_FACTS then Inl TooManyFacts
                        else rbind (parse_facts W vs) (\<lambda>facts.
                             if \<not> distinct (map fact_identity facts) then Inl RepeatedFact
                             else Inr \<lparr> mm_enabled = enabled, mm_facts = facts, mm_expectedVersion = num_int n \<rparr>))))"

definition normalizeStoredFacts :: "memory_world \<Rightarrow> json \<Rightarrow> ShoppingMemoryFact list" where
  "normalizeStoredFacts W v =
     (case v of
        JArr vs \<Rightarrow> List.map_filter (\<lambda>x. case parseFact W x of Inr f \<Rightarrow> Some f | Inl _ \<Rightarrow> None) (take MAX_FACTS vs)
      | _ \<Rightarrow> [])"

text \<open>\<open>JSON.stringify\<close> of a fact omits a currency that is not set.\<close>

definition fact_json :: "ShoppingMemoryFact \<Rightarrow> json" where
  "fact_json f = JObj
     ([(js ''kind'', JStr (fact_kind_text (mf_kind f))), (js ''key'', JStr (mf_key f)), (js ''value'', JStr (mf_value f))] @
      (case mf_currency f of Some c \<Rightarrow> [(js ''currency'', JStr c)] | None \<Rightarrow> []))"

section \<open>Use in a search\<close>

definition shoppingMemoryIntent :: "memory_world \<Rightarrow> ShoppingMemorySnapshot option \<Rightarrow> PublicShoppingIntent" where
  "shoppingMemoryIntent W memory =
     (case memory of
        Some m \<Rightarrow>
          if \<not> sn_enabled m then \<lparr> si_budget = None, si_requirements = [] \<rparr>
          else (case List.find (\<lambda>f. mf_kind f = Budget \<and> mf_key f = js ''maximum'') (sn_facts m) of
             None \<Rightarrow> \<lparr> si_budget = None, si_requirements = [] \<rparr>
           | Some f \<Rightarrow>
               (let amount = mw_number W (mf_value f)
                in \<lparr> si_budget = (if is_finite amount \<and> 0 < num_val amount
                       then Some \<lparr> sb_minimum = None, sb_maximum = Some amount,
                              sb_currency = Some (case mf_currency f of Some c \<Rightarrow> c | None \<Rightarrow> js ''CNY'') \<rparr>
                       else None), si_requirements = [] \<rparr>))
      | None \<Rightarrow> \<lparr> si_budget = None, si_requirements = [] \<rparr>)"

definition memoryFactsForModel :: "ShoppingMemorySnapshot option \<Rightarrow> ShoppingMemoryFact list" where
  "memoryFactsForModel memory = (case memory of Some m \<Rightarrow> if sn_enabled m then take 16 (sn_facts m) else [] | None \<Rightarrow> [])"

section \<open>The table\<close>

record ShoppingMemoryRow =
  mr_enabled :: bool
  mr_facts :: json
  mr_version :: int
  mr_updated_at :: int

datatype memory_event =
    MemoryUpdated bool nat "ShoppingMemoryFactKind list" int jstr
  | MemoryDeleted bool nat int
  | MemoryRevised int

record memory_db =
  md_row :: "ShoppingMemoryRow option"
  md_audit :: "memory_event list"

definition snapshotFromRow :: "memory_world \<Rightarrow> ShoppingMemoryRow \<Rightarrow> ShoppingMemorySnapshot" where
  "snapshotFromRow W row =
     \<lparr> sn_enabled = mr_enabled row, sn_facts = normalizeStoredFacts W (mr_facts row), sn_version = mr_version row,
       sn_updatedAt = Some (toISOString (mr_updated_at row)) \<rparr>"

definition emptyMemory :: ShoppingMemorySnapshot where
  "emptyMemory = \<lparr> sn_enabled = True, sn_facts = [], sn_version = 0, sn_updatedAt = None \<rparr>"

section \<open>Transactions\<close>

datatype memory_fault = Fine | FailsBefore | FailsAfter

text \<open>
  The faults of the statements by number, what other sessions do before the row is locked, and the time.
\<close>

record memory_course =
  mc_fault :: "nat \<Rightarrow> memory_fault"
  mc_others :: "nat \<Rightarrow> memory_db \<Rightarrow> memory_db"
  mc_now :: int

record memory_state =
  ms_db :: memory_db
  ms_work :: "memory_db option"
  ms_tick :: nat

type_synonym 'a memory_program = "memory_course \<Rightarrow> memory_state \<Rightarrow> 'a option \<times> memory_state"

definition mreturn :: "'a \<Rightarrow> 'a memory_program" where
  "mreturn x = (\<lambda>course st. (Some x, st))"

definition mthen :: "'a memory_program \<Rightarrow> ('a \<Rightarrow> 'b memory_program) \<Rightarrow> 'b memory_program" where
  "mthen m f = (\<lambda>course st. case m course st of (None, st') \<Rightarrow> (None, st') | (Some x, st') \<Rightarrow> f x course st')"

definition sql :: "(memory_course \<Rightarrow> nat \<Rightarrow> memory_state \<Rightarrow> 'a \<times> memory_state) \<Rightarrow> 'a memory_program" where
  "sql effect = (\<lambda>course st.
     let n = ms_tick st; st1 = st\<lparr> ms_tick := Suc n \<rparr>
     in case mc_fault course n of
          FailsBefore \<Rightarrow> (None, st1)
        | FailsAfter \<Rightarrow> (None, snd (effect course n st1))
        | Fine \<Rightarrow> (case effect course n st1 of (x, st2) \<Rightarrow> (Some x, st2)))"

definition begin_memory :: "unit memory_program" where
  "begin_memory = sql (\<lambda>course n st. ((), st))"

definition rollback_memory :: "unit memory_program" where
  "rollback_memory = sql (\<lambda>course n st. ((), st\<lparr> ms_work := None \<rparr>))"

definition commit_memory :: "unit memory_program" where
  "commit_memory = sql (\<lambda>course n st. ((), case ms_work st of Some db \<Rightarrow> st\<lparr> ms_db := db, ms_work := None \<rparr> | None \<Rightarrow> st))"

text \<open>The first statement on the row: it sees what others have committed, and locks it.\<close>

definition on_row :: "(memory_course \<Rightarrow> ShoppingMemoryRow option \<Rightarrow> ShoppingMemoryRow option \<times> ShoppingMemoryRow option) \<Rightarrow> ShoppingMemoryRow option memory_program" where
  "on_row f = sql (\<lambda>course n st.
     let db = mc_others course n (ms_db st); (returned, row) = f course (md_row db)
     in (returned, st\<lparr> ms_db := db, ms_work := Some (db\<lparr> md_row := row \<rparr>) \<rparr>))"

definition audit_memory :: "memory_event \<Rightarrow> unit memory_program" where
  "audit_memory e = sql (\<lambda>course n st.
     ((), st\<lparr> ms_work := map_option (\<lambda>db. db\<lparr> md_audit := md_audit db @ [e] \<rparr>) (ms_work st) \<rparr>))"

definition memory_row :: "memory_world \<Rightarrow> ShoppingMemoryMutation \<Rightarrow> int \<Rightarrow> int \<Rightarrow> ShoppingMemoryRow" where
  "memory_row W m version now =
     \<lparr> mr_enabled = mm_enabled m, mr_facts = mw_jsonb W (JArr (map fact_json (mm_facts m))), mr_version = version, mr_updated_at = now \<rparr>"

definition upsert_memory :: "memory_world \<Rightarrow> ShoppingMemoryMutation \<Rightarrow> ShoppingMemoryRow option memory_program" where
  "upsert_memory W m = on_row (\<lambda>course row.
     if mm_expectedVersion m = 0
     then case row of
        None \<Rightarrow> (let r = memory_row W m 1 (mc_now course) in (Some r, Some r))
      | Some _ \<Rightarrow> (None, row)
     else case row of
        Some r0 \<Rightarrow>
          if mr_version r0 = mm_expectedVersion m
          then (let r = memory_row W m (mr_version r0 + 1) (mc_now course) in (Some r, Some r))
          else (None, row)
      | None \<Rightarrow> (None, row))"

definition update_event :: "ShoppingMemoryMutation \<Rightarrow> ShoppingMemoryRow \<Rightarrow> jstr \<Rightarrow> memory_event" where
  "update_event m row source =
     MemoryUpdated (mm_enabled m) (length (mm_facts m)) (dedup (map mf_kind (mm_facts m))) (mr_version row) source"

text \<open>The \<open>catch\<close>: a quiet rollback, and the error is thrown on. The connection is outside of it.\<close>

definition with_client :: "'a memory_program \<Rightarrow> 'a memory_program" where
  "with_client body = (\<lambda>course st.
     case sql (\<lambda>course n st. ((), st)) course st of
       (None, st') \<Rightarrow> (None, st')
     | (Some _, st') \<Rightarrow>
         (case body course st' of
            (None, st'') \<Rightarrow> (None, (snd (rollback_memory course st''))\<lparr> ms_work := None \<rparr>)
          | (Some x, st'') \<Rightarrow> (Some x, st'')))"

definition writeShoppingMemory :: "memory_world \<Rightarrow> ShoppingMemoryMutation \<Rightarrow> jstr \<Rightarrow> ShoppingMemorySnapshot option memory_program" where
  "writeShoppingMemory W m source = with_client (
     mthen begin_memory (\<lambda>_.
     mthen (upsert_memory W m) (\<lambda>result.
       case result of
         None \<Rightarrow> mthen rollback_memory (\<lambda>_. mreturn None)
       | Some row \<Rightarrow>
           mthen (audit_memory (update_event m row source)) (\<lambda>_.
           mthen commit_memory (\<lambda>_. mreturn (Some (snapshotFromRow W row)))))))"

definition deleteShoppingMemory :: "memory_world \<Rightarrow> ShoppingMemorySnapshot memory_program" where
  "deleteShoppingMemory W = with_client (
     mthen begin_memory (\<lambda>_.
     mthen (on_row (\<lambda>course row. (row, None))) (\<lambda>previous.
     mthen (case previous of
         Some row \<Rightarrow> audit_memory (MemoryDeleted (mr_enabled row) (length (normalizeStoredFacts W (mr_facts row))) (mr_version row))
       | None \<Rightarrow> mreturn ()) (\<lambda>_.
     mthen commit_memory (\<lambda>_. mreturn emptyMemory)))))"

definition readShoppingMemory :: "memory_world \<Rightarrow> ShoppingMemorySnapshot memory_program" where
  "readShoppingMemory W = sql (\<lambda>course n st.
     let db = mc_others course n (ms_db st)
     in (case md_row db of Some row \<Rightarrow> snapshotFromRow W row | None \<Rightarrow> emptyMemory, st\<lparr> ms_db := db \<rparr>))"

section \<open>The route\<close>

datatype memory_response = MemoryAnswer ShoppingMemorySnapshot | MemoryInvalid memory_problem | MemoryStatus nat

record memory_request =
  mq_platform :: platform
  mq_env :: web_environment
  mq_request :: web_request
  mq_message :: http_message
  mq_session :: "jstr option"

definition requestContext :: "memory_request \<Rightarrow> memory_response + jstr \<times> jstr" where
  "requestContext q =
     (case mq_session q of
        None \<Rightarrow> Inl (MemoryStatus 401)
      | Some u \<Rightarrow>
          if u = [] then Inl (MemoryStatus 401)
          else case configuredTenantId (mq_env q) of None \<Rightarrow> Inl (MemoryStatus 503) | Some tenant \<Rightarrow> Inr (tenant, u))"

definition trusted_context :: "memory_request \<Rightarrow> memory_response + jstr \<times> jstr" where
  "trusted_context q =
     (if \<not> hasTrustedBrowserOrigin (mq_platform q) (mq_env q) (mq_request q) then Inl (MemoryStatus 403) else requestContext q)"

definition memory_or_500 :: "ShoppingMemorySnapshot option \<times> memory_state \<Rightarrow> memory_response \<times> memory_state" where
  "memory_or_500 r = (case r of (Some m, st) \<Rightarrow> (MemoryAnswer m, st) | (None, st) \<Rightarrow> (MemoryStatus 500, st))"

definition memory_GET :: "memory_world \<Rightarrow> memory_request \<Rightarrow> memory_course \<Rightarrow> memory_state \<Rightarrow> memory_response \<times> memory_state" where
  "memory_GET W q course st =
     (case requestContext q of Inl r \<Rightarrow> (r, st) | Inr _ \<Rightarrow> memory_or_500 (readShoppingMemory W course st))"

definition memory_DELETE :: "memory_world \<Rightarrow> memory_request \<Rightarrow> memory_course \<Rightarrow> memory_state \<Rightarrow> memory_response \<times> memory_state" where
  "memory_DELETE W q course st =
     (case trusted_context q of Inl r \<Rightarrow> (r, st) | Inr _ \<Rightarrow> memory_or_500 (deleteShoppingMemory W course st))"

definition stored_response :: "ShoppingMemorySnapshot option option \<times> memory_state \<Rightarrow> memory_response \<times> memory_state" where
  "stored_response r =
     (case r of
        (Some (Some m), st) \<Rightarrow> (MemoryAnswer m, st)
      | (Some None, st) \<Rightarrow> (MemoryStatus 409, st)
      | (None, st) \<Rightarrow> (MemoryStatus 500, st))"

text \<open>\<open>None\<close>: the body never ends.\<close>

definition memory_PUT :: "memory_world \<Rightarrow> memory_request \<Rightarrow> memory_course \<Rightarrow> memory_state \<Rightarrow> (memory_response \<times> memory_state) option" where
  "memory_PUT W q course st =
     (case trusted_context q of
        Inl r \<Rightarrow> Some (r, st)
      | Inr _ \<Rightarrow>
          (case fst (readJsonBody (mq_message q) (8 * 1024)) of
             None \<Rightarrow> None
           | Some (Inl (RequestBodyTooLargeError _)) \<Rightarrow> Some (MemoryStatus 413, st)
           | Some (Inl _) \<Rightarrow> Some (MemoryStatus 500, st)
           | Some (Inr v) \<Rightarrow>
               (case parseShoppingMemoryMutation W v of
                  Inl problem \<Rightarrow> Some (MemoryInvalid problem, st)
                | Inr m \<Rightarrow> Some (stored_response (writeShoppingMemory W m (js ''self_service'') course st)))))"

text \<open>What the assistant answers to a suggestion: facts, or why not.\<close>

datatype memory_revision = Revised json | QuotaExceeded | AssistantUnavailable | RevisionFails

definition revision_request :: "json \<Rightarrow> memory_response + jstr \<times> int" where
  "revision_request v =
     (case v of
        JNull \<Rightarrow> Inl (MemoryStatus 500)
      | _ \<Rightarrow>
          (let ms = (case as_record (Some v) of Some ms \<Rightarrow> ms | None \<Rightarrow> []);
               suggestion = text_member ms ''suggestion''
           in if suggestion = [] \<or> length suggestion > 2000 then Inl (MemoryStatus 400)
              else case as_number (member ms ''expectedVersion'') of
                Some n \<Rightarrow> if is_safe_integer n \<and> 0 \<le> num_int n then Inr (suggestion, num_int n) else Inl (MemoryStatus 400)
              | None \<Rightarrow> Inl (MemoryStatus 400)))"

definition revised_mutation :: "memory_world \<Rightarrow> ShoppingMemorySnapshot \<Rightarrow> json \<Rightarrow> memory_problem + ShoppingMemoryMutation" where
  "revised_mutation W current facts = parseShoppingMemoryMutation W (JObj
     [(js ''enabled'', JBool (sn_enabled current)), (js ''facts'', facts), (js ''expectedVersion'', JNum (num_of_int (sn_version current)))])"

definition recordAiRevision :: "int \<Rightarrow> unit memory_program" where
  "recordAiRevision version = sql (\<lambda>course n st.
     ((), st\<lparr> ms_db := (ms_db st)\<lparr> md_audit := md_audit (ms_db st) @ [MemoryRevised version] \<rparr> \<rparr>))"

definition memory_revise ::
    "memory_world \<Rightarrow> (jstr \<Rightarrow> ShoppingMemorySnapshot \<Rightarrow> memory_revision) \<Rightarrow> jstr \<Rightarrow> int \<Rightarrow> memory_course \<Rightarrow> memory_state \<Rightarrow>
     memory_response \<times> memory_state" where
  "memory_revise W assistant suggestion expectedVersion course st =
     (case readShoppingMemory W course st of
        (None, st1) \<Rightarrow> (MemoryStatus 500, st1)
      | (Some current, st1) \<Rightarrow>
          if sn_version current \<noteq> expectedVersion then (MemoryStatus 409, st1)
          else case assistant suggestion current of
            QuotaExceeded \<Rightarrow> (MemoryStatus 429, st1)
          | AssistantUnavailable \<Rightarrow> (MemoryStatus 502, st1)
          | RevisionFails \<Rightarrow> (MemoryStatus 500, st1)
          | Revised facts \<Rightarrow>
              (case revised_mutation W current facts of
                 Inl problem \<Rightarrow> (MemoryInvalid problem, st1)
               | Inr m \<Rightarrow>
                   (case writeShoppingMemory W m (js ''assistant_revision'') course st1 of
                      (Some (Some memory), st2) \<Rightarrow> (MemoryAnswer memory, snd (recordAiRevision (sn_version memory) course st2))
                    | r \<Rightarrow> stored_response r)))"

definition memory_POST ::
    "memory_world \<Rightarrow> (jstr \<Rightarrow> ShoppingMemorySnapshot \<Rightarrow> memory_revision) \<Rightarrow> memory_request \<Rightarrow> memory_course \<Rightarrow> memory_state \<Rightarrow>
     (memory_response \<times> memory_state) option" where
  "memory_POST W assistant q course st =
     (case trusted_context q of
        Inl r \<Rightarrow> Some (r, st)
      | Inr _ \<Rightarrow>
          (case fst (readJsonBody (mq_message q) (8 * 1024)) of
             None \<Rightarrow> None
           | Some (Inl (RequestBodyTooLargeError _)) \<Rightarrow> Some (MemoryStatus 413, st)
           | Some (Inl _) \<Rightarrow> Some (MemoryStatus 500, st)
           | Some (Inr v) \<Rightarrow>
               (case revision_request v of
                  Inl r \<Rightarrow> Some (r, st)
                | Inr (suggestion, expectedVersion) \<Rightarrow> Some (memory_revise W assistant suggestion expectedVersion course st))))"

text \<open>The quotas that the admission of an assistant call gets. A number beyond the range of doubles is not finite.\<close>

definition boundedInteger :: "jstr option \<Rightarrow> int \<Rightarrow> int \<Rightarrow> int" where
  "boundedInteger v fallback maximum =
     (case parse_int10 (case v of Some s \<Rightarrow> s | None \<Rightarrow> []) of
        Some n \<Rightarrow> if 0 < n \<and> n < 2 ^ 1024 - 2 ^ 970 then min n maximum else fallback
      | None \<Rightarrow> fallback)"

section \<open>Facts survive the table\<close>

text \<open>
  \<open>jsonb\<close> keeps strings, the elements of arrays and the members of objects, not their order; a value that it refuses (with a NUL or
  a lone surrogate) makes the statement fail, so that nothing is read back of it. Conversion to
  upper case does not change capital letters of the Latin alphabet.
\<close>

definition jsonb_law :: "(json \<Rightarrow> json) \<Rightarrow> bool" where
  "jsonb_law J \<longleftrightarrow>
     (\<forall>s. J (JStr s) = JStr s) \<and> (\<forall>vs. J (JArr vs) = JArr (map J vs)) \<and>
     (\<forall>ms. distinct (map fst ms) \<longrightarrow> (\<exists>ms'. J (JObj ms) = JObj ms' \<and> (\<forall>k. member ms' k = map_option J (member ms k))))"

definition upper_law :: "(jstr \<Rightarrow> jstr) \<Rightarrow> bool" where
  "upper_law U \<longleftrightarrow> (\<forall>s. list_all is_upper s \<longrightarrow> U s = s)"

definition fact_ok :: "memory_world \<Rightarrow> ShoppingMemoryFact \<Rightarrow> bool" where
  "fact_ok W f \<longleftrightarrow>
     fact_key_pattern (mf_key f) \<and> trim (mf_key f) = mf_key f \<and> mf_value f \<noteq> [] \<and> trim (mf_value f) = mf_value f \<and>
     length (mf_value f) \<le> 300 \<and> \<not> list_ex control_unit (mf_value f) \<and>
     (if mf_kind f = Budget
      then amount_pattern (mf_value f) \<and> amount_in_range (mw_number W (mf_value f)) \<and> (\<exists>c. mf_currency f = Some c \<and> currency_pattern c)
      else mf_currency f = None)"

lemma trim_text_member: "trim (text_member ms k) = text_member ms k"
  by (simp add: text_member_def split: option.splits)

lemma parsed_fact_ok: "parseFact W v = Inr f \<Longrightarrow> fact_ok W f"
  by (auto simp: parseFact_def fact_ok_def Let_def MAX_VALUE_LENGTH_def trim_text_member split: option.splits if_splits)

lemma parsed_facts_ok: "parse_facts W vs = Inr fs \<Longrightarrow> f \<in> set fs \<Longrightarrow> fact_ok W f"
  by (induction vs arbitrary: fs) (auto simp: rbind_Inr dest: parsed_fact_ok)

lemma parse_facts_length: "parse_facts W vs = Inr fs \<Longrightarrow> length fs = length vs"
  by (induction vs arbitrary: fs) (auto simp: rbind_Inr)

lemma mutation_ok:
  assumes "parseShoppingMemoryMutation W v = Inr m"
  shows "\<And>f. f \<in> set (mm_facts m) \<Longrightarrow> fact_ok W f" "length (mm_facts m) \<le> 16" "distinct (map fact_identity (mm_facts m))"
    "0 \<le> mm_expectedVersion m"
  using assms
  by (auto simp: parseShoppingMemoryMutation_def rbind_Inr MAX_FACTS_def dest: parsed_facts_ok parse_facts_length split: option.splits if_splits)

lemma fact_kind_of_text: "fact_kind (Some (JStr (fact_kind_text k))) = Some k"
  by (cases k) (simp_all add: fact_kind_def SHOPPING_MEMORY_FACT_KINDS_def)

lemma fact_members:
  "\<exists>ms. fact_json f = JObj ms \<and> distinct (map fst ms) \<and> member ms ''kind'' = Some (JStr (fact_kind_text (mf_kind f))) \<and>
     member ms ''key'' = Some (JStr (mf_key f)) \<and> member ms ''value'' = Some (JStr (mf_value f)) \<and>
     member ms ''currency'' = map_option JStr (mf_currency f)"
  by (cases "mf_currency f") (auto simp: fact_json_def)

lemma stored_fact_parsed:
  assumes J: "jsonb_law (mw_jsonb W)" and U: "upper_law (mw_toUpperCase W)" and f: "fact_ok W f"
  shows "parseFact W (mw_jsonb W (fact_json f)) = Inr f"
proof -
  obtain ms where ms: "fact_json f = JObj ms" "distinct (map fst ms)" and m: "member ms ''kind'' = Some (JStr (fact_kind_text (mf_kind f)))"
    "member ms ''key'' = Some (JStr (mf_key f))" "member ms ''value'' = Some (JStr (mf_value f))" "member ms ''currency'' = map_option JStr (mf_currency f)"
    using fact_members by blast
  with J obtain ms' where ms': "mw_jsonb W (JObj ms) = JObj ms'" "\<And>k. member ms' k = map_option (mw_jsonb W) (member ms k)"
    unfolding jsonb_law_def by blast
  have s: "mw_jsonb W (JStr t) = JStr t" for t using J by (simp add: jsonb_law_def)
  have k: "fact_kind (member ms' ''kind'') = Some (mf_kind f)" "text_member ms' ''key'' = mf_key f" "text_member ms' ''value'' = mf_value f"
    using f by (simp_all add: ms'(2) m s fact_kind_of_text text_member_def as_simps fact_ok_def)
  have c: "fact_currency W ms' = c" if "mf_currency f = Some c" "currency_pattern c" for c
  proof -
    have "list_all is_upper c" using that(2) by (simp add: currency_pattern_def)
    then have "trim c = c" by (intro trim_no_space) (auto simp: list_all_iff is_upper_def is_space_def)
    with \<open>list_all is_upper c\<close> U that(1) show ?thesis by (simp add: fact_currency_def ms'(2) m s as_simps upper_law_def)
  qed
  show ?thesis
  proof (cases "mf_kind f = Budget")
    case True
    with f obtain cur where cur: "mf_currency f = Some cur" "currency_pattern cur" "amount_pattern (mf_value f)" "amount_in_range (mw_number W (mf_value f))"
      by (auto simp: fact_ok_def)
    have "f = \<lparr> mf_kind = Budget, mf_key = mf_key f, mf_value = mf_value f, mf_currency = Some cur \<rparr>" using True cur(1) by (cases f) simp
    with f k True cur c [OF cur(1,2)] show ?thesis
      by (simp add: ms(1) ms'(1) parseFact_def as_simps fact_ok_def Let_def MAX_VALUE_LENGTH_def)
  next
    case False
    with f have "f = \<lparr> mf_kind = mf_kind f, mf_key = mf_key f, mf_value = mf_value f, mf_currency = None \<rparr>" by (cases f) (simp add: fact_ok_def)
    with f k False show ?thesis
      by (simp add: ms(1) ms'(1) parseFact_def as_simps fact_ok_def Let_def MAX_VALUE_LENGTH_def)
  qed
qed

lemma stored_facts_parsed:
  assumes "jsonb_law (mw_jsonb W)" and "upper_law (mw_toUpperCase W)" and "\<And>f. f \<in> set fs \<Longrightarrow> fact_ok W f" and "length fs \<le> 16"
  shows "normalizeStoredFacts W (mw_jsonb W (JArr (map fact_json fs))) = fs"
proof -
  have "List.map_filter (\<lambda>x. case parseFact W x of Inr f \<Rightarrow> Some f | Inl _ \<Rightarrow> None) (map (\<lambda>f. mw_jsonb W (fact_json f)) fs) = fs"
    using assms(3)
  proof (induction fs)
    case (Cons f fs)
    with stored_fact_parsed [OF assms(1,2), of f] show ?case by (simp add: map_filter_simps)
  qed (simp add: map_filter_simps)
  moreover have "mw_jsonb W (JArr (map fact_json fs)) = JArr (map (\<lambda>f. mw_jsonb W (fact_json f)) fs)"
    using assms(1) by (simp add: jsonb_law_def comp_def)
  ultimately show ?thesis using assms(4) by (simp add: normalizeStoredFacts_def MAX_FACTS_def)
qed

section \<open>Writes\<close>

text \<open>The row that a mutation finds and the one that it leaves.\<close>

definition accepts :: "ShoppingMemoryMutation \<Rightarrow> ShoppingMemoryRow option \<Rightarrow> bool" where
  "accepts m row \<longleftrightarrow>
     (if mm_expectedVersion m = 0 then row = None else \<exists>r. row = Some r \<and> mr_version r = mm_expectedVersion m)"

definition written :: "memory_world \<Rightarrow> ShoppingMemoryMutation \<Rightarrow> jstr \<Rightarrow> int \<Rightarrow> memory_db \<Rightarrow> memory_db" where
  "written W m source now db =
     (let row = memory_row W m (mm_expectedVersion m + 1) now
      in \<lparr> md_row = Some row, md_audit = md_audit db @ [update_event m row source] \<rparr>)"

lemma upsert_effect:
  assumes "upsert_memory W m course st = (result, st')"
  shows "(mc_fault course (ms_tick st) = FailsBefore \<and> result = None \<and> st' = st\<lparr> ms_tick := Suc (ms_tick st) \<rparr>) \<or>
    (\<exists>db work. db = mc_others course (ms_tick st) (ms_db st) \<and> st' = st\<lparr> ms_tick := Suc (ms_tick st), ms_db := db, ms_work := Some work \<rparr> \<and>
       (mc_fault course (ms_tick st) = FailsAfter \<and> result = None \<or>
        mc_fault course (ms_tick st) = Fine \<and>
          (if accepts m (md_row db)
           then let row = memory_row W m (mm_expectedVersion m + 1) (mc_now course) in result = Some (Some row) \<and> work = db\<lparr> md_row := Some row \<rparr>
           else result = Some None \<and> work = db)))"
  using assms
  by (auto simp: upsert_memory_def on_row_def sql_def Let_def accepts_def split: memory_fault.splits option.splits if_splits)

text \<open>The frame of a transaction, and what the rollback of the \<open>catch\<close> does.\<close>

definition rolled_back :: "memory_course \<Rightarrow> memory_state \<Rightarrow> memory_state" where
  "rolled_back course st = (snd (rollback_memory course st))\<lparr> ms_work := None \<rparr>"

definition finishes :: "memory_course \<Rightarrow> 'a option \<times> memory_state \<Rightarrow> 'a option \<times> memory_state" where
  "finishes course r = (case r of (None, st) \<Rightarrow> (None, rolled_back course st) | (Some x, st) \<Rightarrow> (Some x, st))"

lemma rolled_back_db [simp]: "ms_db (rolled_back course st) = ms_db st"
  by (simp add: rolled_back_def rollback_memory_def sql_def Let_def split: memory_fault.splits)

lemma client_begin:
  "with_client (mthen begin_memory (\<lambda>_. body)) course st =
     (if mc_fault course (ms_tick st) \<noteq> Fine then (None, st\<lparr> ms_tick := Suc (ms_tick st) \<rparr>)
      else if mc_fault course (Suc (ms_tick st)) \<noteq> Fine then (None, rolled_back course (st\<lparr> ms_tick := Suc (Suc (ms_tick st)) \<rparr>))
      else finishes course (body course (st\<lparr> ms_tick := Suc (Suc (ms_tick st)) \<rparr>)))"
  by (cases "mc_fault course (ms_tick st)"; cases "mc_fault course (Suc (ms_tick st))")
    (simp_all add: with_client_def begin_memory_def mthen_def sql_def Let_def rolled_back_def finishes_def split: prod.split option.split)

text \<open>What a request leaves behind, seen from the table.\<close>

lemma write_outcome:
  assumes run: "writeShoppingMemory W m source course st = (r, st')" and "ms_work st = None"
  defines "db \<equiv> mc_others course (ms_tick st + 2) (ms_db st)"
  shows "case r of
      Some (Some memory) \<Rightarrow> accepts m (md_row db) \<and> ms_db st' = written W m source (mc_now course) db \<and>
        memory = snapshotFromRow W (memory_row W m (mm_expectedVersion m + 1) (mc_now course))
    | Some None \<Rightarrow> \<not> accepts m (md_row db) \<and> ms_db st' = db
    | None \<Rightarrow> ms_db st' = ms_db st \<or> ms_db st' = db \<or> accepts m (md_row db) \<and> ms_db st' = written W m source (mc_now course) db"
proof -
  obtain result st1 where u: "upsert_memory W m course (st\<lparr> ms_tick := Suc (Suc (ms_tick st)) \<rparr>) = (result, st1)"
    by (cases "upsert_memory W m course (st\<lparr> ms_tick := Suc (Suc (ms_tick st)) \<rparr>)")
  note w = run [unfolded writeShoppingMemory_def client_begin mthen_def [of "upsert_memory W m"] u, simplified]
  show ?thesis
  proof (cases "mc_fault course (ms_tick st) = Fine \<and> mc_fault course (Suc (ms_tick st)) = Fine")
    case False
    with w have "r = None \<and> ms_db st' = ms_db st" by (auto split: if_splits)
    then show ?thesis by simp
  next
    case True
    let ?rest = "case result of None \<Rightarrow> (None, st1) | Some None \<Rightarrow> mthen rollback_memory (\<lambda>_. mreturn None) course st1
      | Some (Some row) \<Rightarrow> mthen (audit_memory (update_event m row source)) (\<lambda>_. mthen commit_memory (\<lambda>_. mreturn (Some (snapshotFromRow W row)))) course st1"
    from True w have "(r, st') = finishes course ?rest" by (simp split: option.splits)
    with upsert_effect [OF u] show ?thesis
      unfolding db_def
      by (auto simp: finishes_def mthen_def rollback_memory_def audit_memory_def commit_memory_def mreturn_def sql_def Let_def written_def
          split: memory_fault.splits if_splits)
  qed
qed
section \<open>Claims\<close>

text \<open>
  C31. A write of the shopping memory is atomic, on the expected version, and kept exactly. Whatever fails and whatever
  other sessions did before: when a snapshot is returned, the row had the expected version (or there was none, for
  version 0), the row and one audit event were written together, and the snapshot has the enabled flag, the facts,
  one by one, and the next version; when a conflict is returned, nothing was written and the row did not fit; and when
  an error is thrown, either nothing was written or everything was.
\<close>

theorem memory_write_exact:
  assumes parsed: "parseShoppingMemoryMutation W v = Inr m" and laws: "jsonb_law (mw_jsonb W)" "upper_law (mw_toUpperCase W)"
    and run: "writeShoppingMemory W m source course st = (r, st')" "ms_work st = None"
  shows "let db = mc_others course (ms_tick st + 2) (ms_db st) in case r of
      Some (Some memory) \<Rightarrow> accepts m (md_row db) \<and> ms_db st' = written W m source (mc_now course) db \<and>
        sn_enabled memory = mm_enabled m \<and> sn_facts memory = mm_facts m \<and> sn_version memory = mm_expectedVersion m + 1
    | Some None \<Rightarrow> \<not> accepts m (md_row db) \<and> ms_db st' = db
    | None \<Rightarrow> ms_db st' = ms_db st \<or> ms_db st' = db \<or> accepts m (md_row db) \<and> ms_db st' = written W m source (mc_now course) db"
proof -
  have "sn_facts (snapshotFromRow W (memory_row W m k now)) = mm_facts m" for k now
    using stored_facts_parsed [OF laws mutation_ok(1) [OF parsed] mutation_ok(2) [OF parsed]] by (simp add: snapshotFromRow_def memory_row_def)
  moreover have "sn_enabled (snapshotFromRow W (memory_row W m k now)) = mm_enabled m" "sn_version (snapshotFromRow W (memory_row W m k now)) = k" for k now
    by (simp_all add: snapshotFromRow_def memory_row_def)
  ultimately show ?thesis using write_outcome [OF run] by (auto simp: Let_def split: option.splits)
qed

definition example_memory :: memory_world where
  "example_memory = \<lparr> mw_number = (\<lambda>_. Dec 5 2), mw_toUpperCase = (\<lambda>s. s), mw_jsonb = (\<lambda>v. v) \<rparr>"

definition example_facts :: json where
  "example_facts = JObj [(js ''enabled'', JBool True), (js ''expectedVersion'', JNum (Dec 0 0)),
     (js ''facts'', JArr [JObj [(js ''kind'', JStr (js ''budget'')), (js ''key'', JStr (js ''maximum'')), (js ''value'', JStr (js ''500''))]])]"

definition calm_course :: memory_course where
  "calm_course = \<lparr> mc_fault = (\<lambda>_. Fine), mc_others = (\<lambda>_ db. db), mc_now = 0 \<rparr>"

definition no_memory :: memory_state where
  "no_memory = \<lparr> ms_db = \<lparr> md_row = None, md_audit = [] \<rparr>, ms_work = None, ms_tick = 0 \<rparr>"

definition example_mutation :: ShoppingMemoryMutation where
  "example_mutation = \<lparr> mm_enabled = True,
     mm_facts = [\<lparr> mf_kind = Budget, mf_key = js ''maximum'', mf_value = js ''500'', mf_currency = Some (js ''CNY'') \<rparr>], mm_expectedVersion = 0 \<rparr>"

lemma example_facts_parsed: "parseShoppingMemoryMutation example_memory example_facts = Inr example_mutation"
proof -
  have t: "trim (js ''maximum'') = js ''maximum''" "trim (js ''500'') = js ''500''" by (simp_all add: trim_def js_simps is_space_def)
  have "fact_kind (Some (JStr (js ''budget''))) = Some Budget" using fact_kind_of_text [of Budget] by simp
  moreover have "fact_key_pattern (js ''maximum'')" "\<not> list_ex control_unit (js ''500'')" "amount_pattern (js ''500'')" "currency_pattern (js ''CNY'')"
    by code_simp+
  moreover have "amount_in_range (Dec 5 2)" by (simp add: amount_in_range_def)
  ultimately have "parseFact example_memory (JObj [(js ''kind'', JStr (js ''budget'')), (js ''key'', JStr (js ''maximum'')), (js ''value'', JStr (js ''500''))]) =
      Inr \<lparr> mf_kind = Budget, mf_key = js ''maximum'', mf_value = js ''500'', mf_currency = Some (js ''CNY'') \<rparr>"
    by (simp add: parseFact_def as_simps text_member_def t fact_currency_def example_memory_def Let_def MAX_VALUE_LENGTH_def)
  then show ?thesis
    by (simp add: parseShoppingMemoryMutation_def example_facts_def example_mutation_def as_simps is_safe_integer_def MAX_FACTS_def)
qed

theorem memory_write_exact_witness:
  "\<exists>memory st'. writeShoppingMemory example_memory example_mutation (js ''self_service'') calm_course no_memory = (Some (Some memory), st') \<and>
     sn_facts memory = mm_facts example_mutation \<and> sn_version memory = 1"
proof -
  have laws: "jsonb_law (mw_jsonb example_memory)" "upper_law (mw_toUpperCase example_memory)"
    by (auto simp: jsonb_law_def upper_law_def example_memory_def option.map_ident)
  have "\<exists>memory st'. writeShoppingMemory example_memory example_mutation (js ''self_service'') calm_course no_memory = (Some (Some memory), st')"
    unfolding writeShoppingMemory_def client_begin
    by (simp add: calm_course_def finishes_def mthen_def upsert_memory_def on_row_def sql_def Let_def
        no_memory_def example_mutation_def audit_memory_def commit_memory_def mreturn_def)
  then obtain memory st' where w: "writeShoppingMemory example_memory example_mutation (js ''self_service'') calm_course no_memory = (Some (Some memory), st')"
    by blast
  have "ms_work no_memory = None" by (simp add: no_memory_def)
  from memory_write_exact [OF example_facts_parsed laws w this] w show ?thesis by (auto simp: Let_def example_mutation_def)
qed

text \<open>
  A version is used again after the memory was deleted: a page that read version 1 before another page deleted the
  memory and started a new one overwrites the new one without a conflict.
\<close>

theorem stale_version_accepted:
  assumes "md_row (ms_db st) = Some old" and "mr_version old = 1" and "mm_expectedVersion new = 0" and "mm_expectedVersion stale = 1"
  shows "\<exists>st1 st2 st3 memory memory'. deleteShoppingMemory W calm_course st = (Some emptyMemory, st1) \<and>
    writeShoppingMemory W new source calm_course st1 = (Some (Some memory), st2) \<and>
    writeShoppingMemory W stale source calm_course st2 = (Some (Some memory'), st3)"
proof -
  have d: "\<exists>st1. deleteShoppingMemory W calm_course st = (Some emptyMemory, st1) \<and> md_row (ms_db st1) = None"
    unfolding deleteShoppingMemory_def client_begin
    using assms(1) by (simp add: calm_course_def finishes_def mthen_def on_row_def sql_def Let_def
        audit_memory_def commit_memory_def mreturn_def)
  have w: "\<exists>memory st'. writeShoppingMemory W m source calm_course st = (Some (Some memory), st') \<and>
      (\<exists>row. md_row (ms_db st') = Some row \<and> mr_version row = mm_expectedVersion m + 1)" if "accepts m (md_row (ms_db st))" for m st
    unfolding writeShoppingMemory_def client_begin
    using that by (auto simp: calm_course_def finishes_def mthen_def upsert_memory_def on_row_def sql_def Let_def
        audit_memory_def commit_memory_def mreturn_def accepts_def memory_row_def)
  from d obtain st1 where st1: "deleteShoppingMemory W calm_course st = (Some emptyMemory, st1)" "md_row (ms_db st1) = None" by blast
  with assms(3) w [of new st1] obtain memory st2 row where st2: "writeShoppingMemory W new source calm_course st1 = (Some (Some memory), st2)"
    "md_row (ms_db st2) = Some row" "mr_version row = 1" by (auto simp: accepts_def)
  with assms(4) w [of stale st2] show ?thesis using st1 by (auto simp: accepts_def)
qed

text \<open>A memory that is switched off changes neither a search nor what the assistant is told.\<close>

theorem paused_memory_unused:
  "\<not> sn_enabled memory \<Longrightarrow> shoppingMemoryIntent W (Some memory) = shoppingMemoryIntent W None \<and> memoryFactsForModel (Some memory) = []"
  by (simp add: shoppingMemoryIntent_def memoryFactsForModel_def)

end
