(* ===== verification/Store_Directory.thy ===== *)
theory Store_Directory
  imports Storefront_Ranking Platform_Tree
begin

text \<open>
  The public store directory, after \<open>web/src/store-directory.ts\<close>. The tables are those of the
  platform tree. A join is a list comprehension over the tables, with the multiplicity that SQL
  gives it; a left join yields \<open>None\<close> where no row matches. \<open>collate\<close> is the sign by which
  PostgreSQL compares two texts. \<open>reads\<close> is the database that the query sees, or \<open>None\<close>
  when it fails. UUIDs are ordered by their texts, which is their order in PostgreSQL, and limits are whole numbers.
\<close>

definition MAX_PUBLIC_STORES :: nat where "MAX_PUBLIC_STORES = 500"

definition MAX_PUBLIC_STORE_DIRECTORY_QUERY_LIMIT :: nat where
  "MAX_PUBLIC_STORE_DIRECTORY_QUERY_LIMIT = MAX_PUBLIC_STORES + 1"

datatype directory_error = Path_invalid | Limit_invalid | Path_limit_conflict | Directory_query_failed

record ReadPublicStoresOptions =
  rp_limit :: "int option"
  rp_path :: "jstr option"

datatype store_integration = Hosted_store | Package_store | External_store

record PublicStore =
  ps_id :: jstr
  ps_slug :: jstr
  ps_path :: jstr
  ps_displayName :: jstr
  ps_description :: jstr
  ps_integrationKind :: store_integration
  ps_capabilities :: "jstr list"
  ps_agentStages :: "jstr list"
  ps_agentSkills :: "jstr list"
  ps_publicFields :: "jstr list"
  ps_tenantId :: jstr
  ps_domainId :: jstr

section \<open>The joins\<close>

definition left_join :: "('a \<Rightarrow> bool) \<Rightarrow> 'a list \<Rightarrow> 'a option list" where
  "left_join p xs = (case filter p xs of [] \<Rightarrow> [None] | ms \<Rightarrow> map Some ms)"

definition store_registration :: "store_row \<Rightarrow> registration \<Rightarrow> bool" where
  "store_registration s r \<longleftrightarrow>
     Some (rg_id r) = st_registration s \<and> rg_tenant r = st_tenant s \<and> rg_domain r = st_domain s \<and>
     rg_slug r = st_slug s \<and> rg_state r = active"

definition store_binding :: "store_row \<Rightarrow> registration option \<Rightarrow> binding_row \<Rightarrow> bool" where
  "store_binding s r b \<longleftrightarrow>
     Some (bd_id b) = st_binding s \<and> bd_tenant b = st_tenant s \<and> bd_domain b = st_domain s \<and>
     bd_slug b = st_slug s \<and> bd_organization b = st_organization s \<and>
     Some (bd_registration b) = map_option rg_id r \<and> bd_status b = active"

definition integration_ready :: "store_row \<Rightarrow> registration option \<Rightarrow> binding_row option \<Rightarrow> bool" where
  "integration_ready s r b \<longleftrightarrow>
     (st_integration_kind s = hosted \<or> r \<noteq> None) \<and> (st_integration_kind s \<noteq> external \<or> b \<noteq> None) \<and>
     (st_integration_kind s = hosted \<or> (case r of Some g \<Rightarrow> rg_source_kind g \<noteq> js ''remote'' | None \<Rightarrow> False) \<or> b \<noteq> None)"

definition public_store :: "store_row \<Rightarrow> bool" where
  "public_store s \<longleftrightarrow> st_status s = active \<and> st_visibility s = public_policy"

text \<open>The rows that the two public queries join to a store: its canonical alias and its registration.\<close>

definition store_joins :: "database \<Rightarrow> store_row \<Rightarrow> (alias_row \<times> registration option) list" where
  "store_joins D s =
     [(a, r). d \<leftarrow> db_domains D, dm_tenant d = st_tenant s \<and> dm_id d = st_domain s \<and> dm_status d = active,
              r \<leftarrow> left_join (store_registration s) (db_registrations D),
              b \<leftarrow> left_join (store_binding s r) (db_bindings D),
              a \<leftarrow> db_aliases D, al_tenant a = st_tenant s \<and> al_store a = st_id s \<and> al_canonical a,
              integration_ready s r b]"

text \<open>\<open>COALESCE(registration.manifest -> k -> \<dots>, '[]'::jsonb)\<close>.\<close>

definition manifest_at :: "registration option \<Rightarrow> string list \<Rightarrow> json" where
  "manifest_at r ks =
     (case r of
        None \<Rightarrow> JArr []
      | Some g \<Rightarrow>
          (case foldl (\<lambda>v k. member (record_of v) k) (Some (JObj (rg_manifest g))) ks of
             Some v \<Rightarrow> v | None \<Rightarrow> JArr []))"

record directory_row =
  dr_store :: store_row
  dr_path :: jstr
  dr_capabilities :: json
  dr_agentStages :: json
  dr_agentSkills :: json
  dr_publicFields :: json

definition directory_row_of :: "store_row \<Rightarrow> alias_row \<times> registration option \<Rightarrow> directory_row" where
  "directory_row_of s j =
     \<lparr> dr_store = s, dr_path = al_path (fst j),
       dr_capabilities = manifest_at (snd j) [''capabilities''],
       dr_agentStages = manifest_at (snd j) [''agent'', ''stages''],
       dr_agentSkills = manifest_at (snd j) [''agent'', ''skills''],
       dr_publicFields = manifest_at (snd j) [''ui'', ''supplyFields''] \<rparr>"

definition text_order :: "jstr \<Rightarrow> jstr \<Rightarrow> int" where
  "text_order s t = (if s < t then - 1 else if t < s then 1 else 0)"

definition directory_order :: "(jstr \<Rightarrow> jstr \<Rightarrow> int) \<Rightarrow> directory_row \<Rightarrow> directory_row \<Rightarrow> int" where
  "directory_order collate left right =
     (let byName = collate (st_display_name (dr_store left)) (st_display_name (dr_store right))
      in if byName \<noteq> 0 then byName else text_order (st_id (dr_store left)) (st_id (dr_store right)))"

definition directory_rows :: "database \<Rightarrow> jstr \<Rightarrow> jstr option \<Rightarrow> directory_row list" where
  "directory_rows D tenant path =
     [directory_row_of s j. s \<leftarrow> db_stores D, st_tenant s = to_lower tenant \<and> public_store s,
        j \<leftarrow> store_joins D s, path = None \<or> path = Some (al_path (fst j))]"

section \<open>Reading a row\<close>

definition text_value :: "json option \<Rightarrow> jstr" where
  "text_value v = (case as_string v of Some s \<Rightarrow> trim s | None \<Rightarrow> [])"

definition isStoreSlug :: "jstr \<Rightarrow> bool" where
  "isStoreSlug v \<longleftrightarrow>
     2 \<le> length v \<and> length v \<le> 63 \<and> list_all (\<lambda>c. is_lower c \<or> is_digit c \<or> c = 45) v \<and> hd v \<noteq> 45"

definition boundedStrings :: "json \<Rightarrow> nat \<Rightarrow> jstr list" where
  "boundedStrings v maximum =
     (case as_array (Some v) of
        Some items \<Rightarrow> take maximum [trim s. JStr s \<leftarrow> items, trim s \<noteq> []]
      | None \<Rightarrow> [])"

definition field_key :: "jstr \<Rightarrow> bool" where
  "field_key k \<longleftrightarrow>
     1 \<le> length k \<and> length k \<le> 128 \<and> list_all (\<lambda>c. is_alnum c \<or> c = 95 \<or> c = 46 \<or> c = 45) k"

definition boundedFieldKeys :: "json \<Rightarrow> nat \<Rightarrow> jstr list" where
  "boundedFieldKeys v maximum =
     (case as_array (Some v) of
        Some items \<Rightarrow> take maximum (dedup
          (concat (map (\<lambda>item. case as_string (member (record_of (Some item)) ''key'') of
             Some key \<Rightarrow> if field_key key then [key] else [] | None \<Rightarrow> []) items)))
      | None \<Rightarrow> [])"

definition integration_of :: "jstr \<Rightarrow> store_integration" where
  "integration_of kind = (if kind = hosted then Hosted_store else if kind = external then External_store else Package_store)"

definition public_store_of :: "directory_row \<Rightarrow> PublicStore list" where
  "public_store_of row =
     (let s = dr_store row; id' = trim (st_id s); slug = trim (st_slug s); path = trim (dr_path row);
          displayName = trim (st_display_name s); tenantId = trim (st_tenant s); domainId = trim (st_domain s)
      in if \<not> isUuid (Some (JStr id')) \<or> \<not> isUuid (Some (JStr tenantId)) \<or> \<not> isUuid (Some (JStr domainId)) \<or>
            \<not> isStoreSlug slug \<or> path \<noteq> 47 # slug \<or> displayName = []
         then []
         else [\<lparr> ps_id = id', ps_slug = slug, ps_path = path, ps_displayName = displayName,
                 ps_description = take 2000 (trim (st_description s)),
                 ps_integrationKind = integration_of (st_integration_kind s),
                 ps_capabilities = boundedStrings (dr_capabilities row) 64,
                 ps_agentStages = boundedStrings (dr_agentStages row) 8,
                 ps_agentSkills = boundedStrings (dr_agentSkills row) 32,
                 ps_publicFields = boundedFieldKeys (dr_publicFields row) 32,
                 ps_tenantId = tenantId, ps_domainId = domainId \<rparr>])"

section \<open>The directory\<close>

definition validatedDirectoryPath :: "jstr option \<Rightarrow> directory_error + jstr option" where
  "validatedDirectoryPath v =
     (case v of
        None \<Rightarrow> Inr None
      | Some p \<Rightarrow>
          (let slug = (if starts_with p [47] then tl p else [])
           in if p \<noteq> 47 # slug \<or> \<not> isStoreSlug slug then Inl Path_invalid else Inr (Some p)))"

definition validatedDirectoryLimit :: "int option \<Rightarrow> directory_error + int option" where
  "validatedDirectoryLimit v =
     (case v of
        None \<Rightarrow> Inr None
      | Some n \<Rightarrow> if n < 1 \<or> int MAX_PUBLIC_STORE_DIRECTORY_QUERY_LIMIT < n then Inl Limit_invalid else Inr (Some n))"

definition readPublicStoresFromDatabase ::
    "(jstr \<Rightarrow> jstr \<Rightarrow> int) \<Rightarrow> database option \<Rightarrow> jstr \<Rightarrow> ReadPublicStoresOptions \<Rightarrow> directory_error + PublicStore list" where
  "readPublicStoresFromDatabase collate reads rootTenantId options =
     rbind (validatedDirectoryLimit (rp_limit options)) (\<lambda>requestedLimit.
     rbind (validatedDirectoryPath (rp_path options)) (\<lambda>path.
       if path \<noteq> None \<and> requestedLimit \<noteq> None \<and> requestedLimit \<noteq> Some 1 then Inl Path_limit_conflict
       else
         let limit = (if path = None then requestedLimit else Some 1)
         in if \<not> isUuid (Some (JStr rootTenantId)) then Inr []
            else (case reads of
              None \<Rightarrow> Inl Directory_query_failed
            | Some D \<Rightarrow>
                let rows = sort_by (directory_order collate) (directory_rows D rootTenantId path);
                    taken = (case limit of None \<Rightarrow> rows | Some n \<Rightarrow> take (nat n) rows)
                in Inr (concat (map public_store_of taken)))))"

text \<open>The candidates of the platform router.\<close>

record PlatformRouteCandidate =
  pt_slug :: jstr
  pt_path :: jstr
  pt_tenantId :: jstr
  pt_domainId :: jstr
  pt_displayName :: jstr
  pt_description :: jstr
  pt_capabilities :: "jstr list"
  pt_agentStages :: "jstr list"
  pt_agentSkills :: "jstr list"
  pt_depth :: nat

definition storeRouteCandidates :: "PublicStore list \<Rightarrow> PlatformRouteCandidate list" where
  "storeRouteCandidates stores =
     map (\<lambda>s. \<lparr> pt_slug = ps_slug s, pt_path = ps_path s, pt_tenantId = ps_tenantId s, pt_domainId = ps_domainId s,
       pt_displayName = ps_displayName s, pt_description = ps_description s, pt_capabilities = ps_capabilities s,
       pt_agentStages = ps_agentStages s, pt_agentSkills = ps_agentSkills s, pt_depth = 1 \<rparr>) stores"

section \<open>What the directory shows\<close>

lemma set_insert_by_any: "set (insert_by cmp x ys) = insert x (set ys)"
  by (induction ys) auto

lemma set_sort_by_any [simp]: "set (sort_by cmp xs) = set xs"
  unfolding sort_by_def by (induction xs) (simp_all add: set_insert_by_any)

lemma length_sort_by [simp]: "length (sort_by cmp xs) = length xs"
proof -
  have "length (insert_by cmp x ys) = Suc (length ys)" for x ys by (induction ys) auto
  then show ?thesis unfolding sort_by_def by (induction xs) simp_all
qed

lemma in_concat_map: "x \<in> set (concat (map f xs)) \<longleftrightarrow> (\<exists>y \<in> set xs. x \<in> set (f y))"
  by auto

lemma in_guard: "x \<in> set (if b then ys else []) \<longleftrightarrow> b \<and> x \<in> set ys"
  by simp

lemma left_join_rows: "x \<in> set (left_join p xs) \<longleftrightarrow> (case x of None \<Rightarrow> \<not> list_ex p xs | Some y \<Rightarrow> y \<in> set xs \<and> p y)"
proof (cases "filter p xs")
  case Nil
  then show ?thesis by (auto simp: left_join_def list_ex_iff filter_empty_conv split: option.splits)
next
  case (Cons y ys)
  then have "set (y # ys) = {z \<in> set xs. p z}" by (metis set_filter)
  with Cons show ?thesis by (auto simp: left_join_def list_ex_iff split: option.splits)
qed

text \<open>
  A store is listed at an alias when both public queries admit it: public and active, in an active
  domain, and with the registration and the binding that its kind of integration requires.
\<close>

definition listed_at :: "database \<Rightarrow> store_row \<Rightarrow> alias_row \<Rightarrow> registration option \<Rightarrow> bool" where
  "listed_at D s a r \<longleftrightarrow>
     s \<in> set (db_stores D) \<and> public_store s \<and> domain_active D (st_tenant s) (st_domain s) \<and>
     a \<in> set (db_aliases D) \<and> al_tenant a = st_tenant s \<and> al_store a = st_id s \<and> al_canonical a \<and>
     r \<in> set (left_join (store_registration s) (db_registrations D)) \<and>
     (\<exists>b \<in> set (left_join (store_binding s r) (db_bindings D)). integration_ready s r b)"

lemma listed_at_joins:
  "listed_at D s a r \<longleftrightarrow> s \<in> set (db_stores D) \<and> public_store s \<and> (a, r) \<in> set (store_joins D s)"
  by (auto simp: store_joins_def listed_at_def domain_active_def list_ex_iff)

lemma directory_rows_listed:
  "row \<in> set (directory_rows D tenant path) \<longleftrightarrow>
     (\<exists>s a r. listed_at D s a r \<and> st_tenant s = to_lower tenant \<and> (path = None \<or> path = Some (al_path a)) \<and>
        row = directory_row_of s (a, r))"
  unfolding directory_rows_def listed_at_joins by (auto simp: Bex_def)

lemma listed_external_bound:
  assumes "listed_at D s a r" and "st_integration_kind s = external"
  shows "\<exists>g b. r = Some g \<and> g \<in> set (db_registrations D) \<and> rg_state g = active \<and> b \<in> set (db_bindings D) \<and>
    Some (bd_id b) = st_binding s \<and> bd_registration b = rg_id g \<and> bd_status b = active"
proof -
  from assms obtain b where b: "b \<in> set (left_join (store_binding s r) (db_bindings D))" "integration_ready s r b"
    and r: "r \<in> set (left_join (store_registration s) (db_registrations D))" by (auto simp: listed_at_def)
  from b(2) assms(2) obtain c where "b = Some c" by (auto simp: integration_ready_def)
  with b r show ?thesis
    by (auto simp: left_join_rows store_binding_def store_registration_def split: option.splits)
qed

text \<open>
  Every store of the directory is a public active store of the tenant, in an active domain and ready for its kind of integration,
  at its canonical path, which is its slug; a lookup by path returns at most the store at that path.
\<close>

theorem directory_justified:
  assumes "readPublicStoresFromDatabase collate (Some D) tenant options = Inr stores" and "q \<in> set stores"
  shows "\<exists>s a r. listed_at D s a r \<and> st_tenant s = to_lower tenant \<and> ps_id q = trim (st_id s) \<and> ps_tenantId q = trim (st_tenant s) \<and>
    ps_domainId q = trim (st_domain s) \<and> ps_path q = trim (al_path a) \<and> ps_path q = 47 # ps_slug q \<and> isStoreSlug (ps_slug q) \<and>
    (\<forall>p. rp_path options = Some p \<longrightarrow> al_path a = p)"
proof -
  from assms(1) obtain path rows where path: "validatedDirectoryPath (rp_path options) = Inr path"
    and rows: "set rows \<subseteq> set (directory_rows D tenant path)" and stores: "stores = concat (map public_store_of rows) \<or> stores = []"
    by (auto simp: readPublicStoresFromDatabase_def rbind_Inr Let_def dest: in_set_takeD split: if_splits option.splits)
      (metis (no_types, lifting) in_set_takeD set_sort_by_any subsetI)+
  have "path = rp_path options"
    using path by (auto simp: validatedDirectoryPath_def Let_def split: option.splits if_splits)
  with rows stores assms(2) show ?thesis
    by (fastforce simp: public_store_of_def directory_row_of_def directory_rows_listed Let_def split: if_splits)
qed

end
