(* ===== verification/Storefront_Search.thy ===== *)
theory Storefront_Search
  imports Store_Directory "HOL-Library.AList"
begin

text \<open>
  Search over the public offers of the listed stores, after \<open>web/src/storefront-search.ts\<close>. The
  tables are those of the store directory with the offers and their likes. \<open>clock\<close> gives
  \<open>clock_timestamp()\<close> as it is read at an offer, \<open>collate\<close> the order of texts in PostgreSQL, \<open>locale_compare\<close>
  that of \<open>String.localeCompare\<close>, \<open>url_print\<close> the text of a URL and \<open>rustRanker\<close> the ranking gateway.
  Limits and offsets are whole numbers, as every caller passes them. Writing a text or a number to
  \<open>__proto__\<close> does not change an object.
\<close>

section \<open>Tables and input\<close>

record market_offer =
  mo_id :: jstr
  mo_tenant :: jstr
  mo_domain :: jstr
  mo_store :: jstr
  mo_display_name :: jstr
  mo_attributes :: json
  mo_terms :: json
  mo_status :: jstr
  mo_published_at :: "jstr option"
  mo_expires_at :: "int option"

record like_row =
  lk_tenant :: jstr
  lk_offer :: jstr
  lk_count :: int

record market =
  mk_tables :: database
  mk_offers :: "market_offer list"
  mk_likes :: "like_row list"

record PublicOfferRow =
  po_id :: jstr
  po_tenantId :: jstr
  po_domainId :: jstr
  po_displayName :: jstr
  po_attributes :: json
  po_terms :: json
  po_storeName :: jstr
  po_storeSlug :: jstr
  po_storePath :: jstr
  po_integrationKind :: jstr
  po_supplyFields :: json
  po_publishedAt :: "jstr option"
  po_likeTotal :: jstr

definition MAX_PUBLIC_OFFER_SEARCH_STORE_IDS :: nat where
  "MAX_PUBLIC_OFFER_SEARCH_STORE_IDS = MAX_PUBLIC_STORES"

definition MAX_PUBLIC_OFFER_SEARCH_NARRATIVE_CHARACTERS :: nat where
  "MAX_PUBLIC_OFFER_SEARCH_NARRATIVE_CHARACTERS = 8000"

definition MAX_PUBLIC_OFFER_SEARCH_CANDIDATES :: nat where
  "MAX_PUBLIC_OFFER_SEARCH_CANDIDATES = MAX_LEXICAL_RANK_TOTAL_CANDIDATES"

definition PUBLIC_OFFER_SEARCH_CANDIDATE_SENTINEL :: nat where
  "PUBLIC_OFFER_SEARCH_CANDIDATE_SENTINEL = MAX_PUBLIC_OFFER_SEARCH_CANDIDATES + 1"

datatype PublicOfferSearchBudget = Store_ids | Store_paths | Narrative_characters | Candidates

datatype search_error =
    PublicOfferSearchBudgetExceeded PublicOfferSearchBudget nat nat
  | Search_query_failed
  | Search_ranking_failed PublicStorefrontRankingError

record PublicOfferSearchInput =
  sx_stores :: "PublicStore list"
  sx_narrative :: jstr
  sx_intent :: "PublicShoppingIntent option"
  sx_storePaths :: "jstr list option"
  sx_sort :: "PublicOfferSearchSort option"
  sx_offset :: "int option"
  sx_limit :: "int option"

record RecommendedBackendListing =
  ls_offer_id :: jstr
  ls_tenant_id :: jstr
  ls_domain_id :: jstr
  ls_display_name :: jstr
  ls_attributes :: "(jstr \<times> json) list"
  ls_terms :: "(jstr \<times> json) list"
  ls_platform_path :: jstr
  ls_subplatform :: jstr
  ls_store_name :: jstr
  ls_like_total :: jstr
  ls_image_url :: jstr
  ls_match :: "(jsnum \<times> jstr list) option"
  ls_status :: jstr

record PublicOfferSearchPage =
  pg_items :: "RecommendedBackendListing list"
  pg_total :: nat
  pg_offset :: nat
  pg_limit :: nat
  pg_hasMore :: bool

section \<open>Public values\<close>

definition safePublicUrl :: "platform \<Rightarrow> (url \<Rightarrow> jstr) \<Rightarrow> json option \<Rightarrow> jstr option" where
  "safePublicUrl P url_print v =
     (case as_string v of
        None \<Rightarrow> None
      | Some s \<Rightarrow>
          if 2048 < length s then None
          else if starts_with s [47] \<and> \<not> starts_with s [47, 47] \<and> 92 \<notin> set s then Some s
          else (case url_parse P s of
            None \<Rightarrow> None
          | Some u \<Rightarrow>
              if url_protocol u = js ''https:'' \<and> url_username u = [] \<and> url_password u = [] then Some (url_print u) else None))"

text \<open>The identifier of a hosted media reference, lower case; the pattern ignores case.\<close>

definition hosted_media :: "json option \<Rightarrow> jstr option" where
  "hosted_media v =
     (case as_string v of
        None \<Rightarrow> None
      | Some s \<Rightarrow>
          if to_lower (take 15 s) = js ''media://hosted/'' \<and> isUuid (Some (JStr (drop 15 s)))
          then Some (to_lower (drop 15 s)) else None)"

text \<open>An empty address counts as none.\<close>

definition nonempty_url :: "jstr option \<Rightarrow> jstr option" where
  "nonempty_url u = (case u of Some s \<Rightarrow> if s = [] then None else Some s | None \<Rightarrow> None)"

definition public_attachment :: "platform \<Rightarrow> (url \<Rightarrow> jstr) \<Rightarrow> jstr \<Rightarrow> json \<Rightarrow> json list" where
  "public_attachment P url_print integrationKind item =
     (let attachment = record_of (Some item)
      in if member attachment ''kind'' \<noteq> Some (JStr (js ''image'')) then []
         else
           let publicUrl =
             (if integrationKind = hosted
              then map_option (\<lambda>u. js ''/api/store-media/'' @ u) (hosted_media (member attachment ''attachment_ref''))
              else safePublicUrl P url_print (member (record_of (member attachment ''metadata'')) ''public_url''))
           in case nonempty_url publicUrl of
                None \<Rightarrow> []
              | Some u \<Rightarrow>
                  [JObj [(js ''kind'', JStr (js ''image'')),
                         (js ''file_name'', JStr (take 255 (text_value (member attachment ''file_name'')))),
                         (js ''media_type'', JStr (take 255 (text_value (member attachment ''media_type'')))),
                         (js ''public_url'', JStr u)]])"

definition publicImageAttachments :: "platform \<Rightarrow> (url \<Rightarrow> jstr) \<Rightarrow> json option \<Rightarrow> jstr \<Rightarrow> json list" where
  "publicImageAttachments P url_print v integrationKind =
     (case as_array v of
        None \<Rightarrow> []
      | Some items \<Rightarrow> take 8 (concat (map (public_attachment P url_print integrationKind) items)))"

definition declared_keys :: "engine \<Rightarrow> json \<Rightarrow> jstr list" where
  "declared_keys E supplyFields =
     (case as_array (Some supplyFields) of
        None \<Rightarrow> []
      | Some items \<Rightarrow> concat (map (\<lambda>field. case as_string (member (record_of (Some field)) ''key'') of
          Some key \<Rightarrow> if field_key key \<and> isSafePublicAttributeKey E key then [key] else [] | None \<Rightarrow> []) items))"

definition standard_keys :: "jstr list" where
  "standard_keys = map js [''brand'', ''model'', ''category'', ''condition'', ''location'', ''delivery_mode'', ''stock_quantity'']"

definition public_keys :: "engine \<Rightarrow> json \<Rightarrow> jstr list" where
  "public_keys E supplyFields = take 32 (dedup (standard_keys @ declared_keys E supplyFields))"

definition public_value :: "json option \<Rightarrow> json option" where
  "public_value v =
     (case v of
        Some (JStr s) \<Rightarrow> if trim s \<noteq> [] then Some (JStr (take 300 (trim s))) else None
      | Some (JNum x) \<Rightarrow> if is_finite x then Some (JNum x) else None
      | _ \<Rightarrow> None)"

definition put_attribute :: "(jstr \<times> json) list \<Rightarrow> (jstr \<times> json) list \<Rightarrow> jstr \<Rightarrow> (jstr \<times> json) list" where
  "put_attribute source result key =
     (case public_value (map_of source key) of
        Some v \<Rightarrow> if key = js ''__proto__'' then result else obj_put result key v
      | None \<Rightarrow> result)"

definition described :: "(jstr \<times> json) list \<Rightarrow> (jstr \<times> json) list" where
  "described source =
     (let description = take 4000 (text_value (member source ''description''))
      in if description \<noteq> [] then [(js ''description'', JStr description)] else [])"

definition filled_attributes :: "engine \<Rightarrow> (jstr \<times> json) list \<Rightarrow> json \<Rightarrow> (jstr \<times> json) list" where
  "filled_attributes E source supplyFields = foldl (put_attribute source) (described source) (public_keys E supplyFields)"

definition publicAttributes :: "engine \<Rightarrow> platform \<Rightarrow> (url \<Rightarrow> jstr) \<Rightarrow> json \<Rightarrow> jstr \<Rightarrow> json \<Rightarrow> (jstr \<times> json) list" where
  "publicAttributes E P url_print v integrationKind supplyFields =
     (let source = record_of (Some v);
          result = filled_attributes E source supplyFields;
          attachments = publicImageAttachments P url_print (member source ''attachments'') integrationKind
      in if attachments \<noteq> [] then obj_put result (js ''attachments'') (JArr attachments) else result)"

definition unsignedIntegerString :: "json option \<Rightarrow> jstr option" where
  "unsignedIntegerString v =
     (case v of
        Some (JStr s) \<Rightarrow> if 1 \<le> length s \<and> length s \<le> 38 \<and> list_all is_digit s then Some s else None
      | Some (JNum x) \<Rightarrow> if is_safe_integer x \<and> 0 \<le> num_int x then Some (show_nat (nat (num_int x))) else None
      | _ \<Rightarrow> None)"

definition public_currency :: "json option \<Rightarrow> jstr option" where
  "public_currency v =
     (case as_string v of Some s \<Rightarrow> if length s = 3 \<and> list_all is_upper s then Some s else None | None \<Rightarrow> None)"

definition public_scale :: "json option \<Rightarrow> jsnum option" where
  "public_scale v =
     (case as_number v of
        Some x \<Rightarrow> if is_safe_integer x \<and> 0 \<le> num_int x \<and> num_int x \<le> 18 then Some x else None
      | None \<Rightarrow> None)"

definition publicTerms :: "json \<Rightarrow> (jstr \<times> json) list" where
  "publicTerms v =
     (let source = record_of (Some v)
      in case (unsignedIntegerString (member source ''amount_minor''), public_currency (member source ''currency''),
               public_scale (member source ''currency_scale'')) of
           (Some amountMinor, Some currency, Some currencyScale) \<Rightarrow>
             if read_nat amountMinor = 0 then []
             else [(js ''pricing_mode'', JStr (js ''fixed'')), (js ''amount_minor'', JStr amountMinor),
                   (js ''currency'', JStr currency), (js ''currency_scale'', JNum currencyScale)]
         | _ \<Rightarrow> [])"

definition hasFixedPublicPrice :: "(jstr \<times> json) list \<Rightarrow> bool" where
  "hasFixedPublicPrice terms \<longleftrightarrow>
     member terms ''pricing_mode'' = Some (JStr (js ''fixed'')) \<and> as_string (member terms ''amount_minor'') \<noteq> None \<and>
     as_string (member terms ''currency'') \<noteq> None \<and> as_number (member terms ''currency_scale'') \<noteq> None"

fun first_url :: "platform \<Rightarrow> (url \<Rightarrow> jstr) \<Rightarrow> json list \<Rightarrow> jstr option" where
  "first_url P url_print [] = None"
| "first_url P url_print (item # items) =
     (case nonempty_url (safePublicUrl P url_print (member (record_of (Some item)) ''public_url'')) of
        Some u \<Rightarrow> Some u
      | None \<Rightarrow> first_url P url_print items)"

definition firstPublicImageUrl :: "platform \<Rightarrow> (url \<Rightarrow> jstr) \<Rightarrow> json option \<Rightarrow> jstr option" where
  "firstPublicImageUrl P url_print v = (case as_array v of None \<Rightarrow> None | Some items \<Rightarrow> first_url P url_print items)"

section \<open>The query\<close>

definition likes_of :: "market \<Rightarrow> market_offer \<Rightarrow> jstr" where
  "likes_of M o' =
     show_int (sum_list (map lk_count (filter (\<lambda>l. lk_tenant l = mo_tenant o' \<and> lk_offer l = mo_id o') (mk_likes M))))"

definition offer_row_of :: "market \<Rightarrow> market_offer \<Rightarrow> store_row \<Rightarrow> alias_row \<times> registration option \<Rightarrow> PublicOfferRow" where
  "offer_row_of M o' s j =
     \<lparr> po_id = mo_id o', po_tenantId = mo_tenant o', po_domainId = mo_domain o', po_displayName = mo_display_name o',
       po_attributes = mo_attributes o', po_terms = mo_terms o', po_storeName = st_display_name s, po_storeSlug = st_slug s,
       po_storePath = al_path (fst j), po_integrationKind = st_integration_kind s,
       po_supplyFields = manifest_at (snd j) [''ui'', ''supplyFields''], po_publishedAt = mo_published_at o',
       po_likeTotal = likes_of M o' \<rparr>"

definition offer_live :: "(market_offer \<Rightarrow> int) \<Rightarrow> market_offer \<Rightarrow> bool" where
  "offer_live clock o' \<longleftrightarrow>
     mo_status o' = active \<and> (case mo_expires_at o' of None \<Rightarrow> True | Some t \<Rightarrow> clock o' < t)"

definition offer_rows :: "(market_offer \<Rightarrow> int) \<Rightarrow> market \<Rightarrow> PublicStore list \<Rightarrow> PublicOfferRow list" where
  "offer_rows clock M stores =
     [offer_row_of M o' s j. o' \<leftarrow> mk_offers M, offer_live clock o',
        q \<leftarrow> stores, to_lower (ps_id q) = mo_store o' \<and> to_lower (ps_tenantId q) = mo_tenant o' \<and> to_lower (ps_domainId q) = mo_domain o',
        s \<leftarrow> db_stores (mk_tables M), st_tenant s = mo_tenant o' \<and> st_domain s = mo_domain o' \<and> st_id s = mo_store o' \<and> public_store s,
        j \<leftarrow> store_joins (mk_tables M) s]"

text \<open>Newest first, offers without a date last, then by identifier; dates are compared as texts.\<close>

definition row_order :: "(jstr \<Rightarrow> jstr \<Rightarrow> int) \<Rightarrow> PublicOfferRow \<Rightarrow> PublicOfferRow \<Rightarrow> int" where
  "row_order collate left right =
     (let byDate = (case (po_publishedAt left, po_publishedAt right) of
            (Some l, Some r) \<Rightarrow> collate r l | (Some _, None) \<Rightarrow> - 1 | (None, Some _) \<Rightarrow> 1 | (None, None) \<Rightarrow> 0)
      in if byDate \<noteq> 0 then byDate else collate (po_id left) (po_id right))"

definition query_offers :: "(jstr \<Rightarrow> jstr \<Rightarrow> int) \<Rightarrow> (market_offer \<Rightarrow> int) \<Rightarrow> market \<Rightarrow> PublicStore list \<Rightarrow> PublicOfferRow list" where
  "query_offers collate clock M stores =
     take PUBLIC_OFFER_SEARCH_CANDIDATE_SENTINEL (sort_by (row_order collate) (offer_rows clock M stores))"

section \<open>The search\<close>

definition assertPublicOfferSearchBudget :: "PublicOfferSearchBudget \<Rightarrow> nat \<Rightarrow> nat \<Rightarrow> search_error + unit" where
  "assertPublicOfferSearchBudget budget actual maximum =
     (if maximum < actual then Inl (PublicOfferSearchBudgetExceeded budget actual maximum) else Inr ())"

definition scoped_stores :: "PublicOfferSearchInput \<Rightarrow> PublicStore list" where
  "scoped_stores input =
     (let requestedPaths = filter (\<lambda>p. p \<noteq> []) (map trim (case sx_storePaths input of Some ps \<Rightarrow> ps | None \<Rightarrow> []))
      in if requestedPaths \<noteq> [] then filter (\<lambda>s. ps_path s \<in> set requestedPaths) (sx_stores input) else sx_stores input)"

text \<open>The values of a \<open>Map\<close> from identifiers: an entry keeps its first place and its last value.\<close>

definition unique_stores :: "PublicStore list \<Rightarrow> PublicStore list" where
  "unique_stores stores = map snd (fold (\<lambda>s. AList.update (ps_id s) s) stores [])"

definition ranking_candidate ::
    "engine \<Rightarrow> platform \<Rightarrow> (url \<Rightarrow> jstr) \<Rightarrow> PublicOfferRow \<Rightarrow> PublicOfferRow PublicStorefrontRankingCandidate" where
  "ranking_candidate E P url_print row =
     \<lparr> rc_row = row, rc_displayName = po_displayName row,
       rc_attributes = publicAttributes E P url_print (po_attributes row) (po_integrationKind row) (po_supplyFields row),
       rc_terms = publicTerms (po_terms row) \<rparr>"

definition sort_candidate :: "PublicOfferRow \<Rightarrow> PublicStorefrontSortCandidate" where
  "sort_candidate row =
     \<lparr> so_publishedAt = po_publishedAt row, so_likeTotal = Some (po_likeTotal row), so_terms = po_terms row \<rparr>"

definition overlap_reason :: "jstr list \<Rightarrow> jstr list" where
  "overlap_reason labels =
     (if labels = [] then []
      else [[21517, 31216, 25110, 20844, 24320, 23646, 24615, 19982, 8220]
            @ join_with [12289] (take 4 labels) @ [8221, 30456, 20851]])"

definition out_of_stock :: "(jstr \<times> json) list \<Rightarrow> bool" where
  "out_of_stock attributes \<longleftrightarrow>
     (case as_number (member attributes ''stock_quantity'') of Some x \<Rightarrow> is_integer x \<and> num_int x = 0 | None \<Rightarrow> False)"

definition public_listing ::
    "platform \<Rightarrow> (url \<Rightarrow> jstr) \<Rightarrow> PublicOfferRow RankedPublicStorefrontCandidate \<Rightarrow> RecommendedBackendListing list" where
  "public_listing P url_print ranked =
     (let c = rk_candidate ranked; row = rc_row c; attributes = rc_attributes c; terms = rc_terms c
      in case firstPublicImageUrl P url_print (member attributes ''attachments'') of
           None \<Rightarrow> []
         | Some imageUrl \<Rightarrow>
             if text_value (member attributes ''description'') = [] \<or> \<not> hasFixedPublicPrice terms \<or> out_of_stock attributes then []
             else [\<lparr> ls_offer_id = po_id row, ls_tenant_id = po_tenantId row, ls_domain_id = po_domainId row,
                     ls_display_name = po_displayName row, ls_attributes = attributes, ls_terms = terms,
                     ls_platform_path = po_storePath row, ls_subplatform = po_storeSlug row, ls_store_name = po_storeName row,
                     ls_like_total = po_likeTotal row, ls_image_url = imageUrl,
                     ls_match = map_option (\<lambda>score. (score,
                       boundedMatchReasons (rk_intentReasons ranked @ overlap_reason (rk_overlapLabels ranked)))) (rk_score ranked),
                     ls_status = active \<rparr>])"

definition ordered_candidates ::
    "engine \<Rightarrow> (jstr \<Rightarrow> jstr \<Rightarrow> int) \<Rightarrow> PublicOfferSearchSort option \<Rightarrow> PublicOfferRow RankedPublicStorefrontCandidate list \<Rightarrow>
     PublicOfferRow RankedPublicStorefrontCandidate list" where
  "ordered_candidates E locale_compare order ranked =
     (case order of
        None \<Rightarrow> ranked
      | Some o' \<Rightarrow> sort_by (\<lambda>l r. comparePublicStorefrontOffers E locale_compare
          (sort_candidate (rc_row (rk_candidate l))) (sort_candidate (rc_row (rk_candidate r))) o') ranked)"

definition page_of :: "nat \<Rightarrow> nat \<Rightarrow> RecommendedBackendListing list \<Rightarrow> PublicOfferSearchPage" where
  "page_of offset limit publicOffers =
     \<lparr> pg_items = take limit (drop offset publicOffers), pg_total = length publicOffers, pg_offset = offset,
       pg_limit = limit, pg_hasMore = (offset + limit < length publicOffers) \<rparr>"

definition search_limit :: "PublicOfferSearchInput \<Rightarrow> nat" where
  "search_limit input = nat (max 1 (min 48 (case sx_limit input of Some n \<Rightarrow> n | None \<Rightarrow> 24)))"

definition search_offset :: "PublicOfferSearchInput \<Rightarrow> nat" where
  "search_offset input = nat (max 0 (min 500 (case sx_offset input of Some n \<Rightarrow> n | None \<Rightarrow> 0)))"

definition searchPublicStoreOfferPageFromDatabase ::
    "engine \<Rightarrow> platform \<Rightarrow> (url \<Rightarrow> jstr) \<Rightarrow> (jstr \<Rightarrow> jstr \<Rightarrow> int) \<Rightarrow> (jstr \<Rightarrow> jstr \<Rightarrow> int) \<Rightarrow> (market_offer \<Rightarrow> int) \<Rightarrow>
     (jstr \<Rightarrow> PreparedLexicalRankCandidate list \<Rightarrow> GatewayLexicalRankedCandidate list ranking_result) \<Rightarrow>
     market option \<Rightarrow> PublicOfferSearchInput \<Rightarrow> search_error + PublicOfferSearchPage" where
  "searchPublicStoreOfferPageFromDatabase E P url_print locale_compare collate clock rustRanker reads input =
     rbind (assertPublicOfferSearchBudget Store_ids (length (sx_stores input)) MAX_PUBLIC_OFFER_SEARCH_STORE_IDS) (\<lambda>_.
     rbind (assertPublicOfferSearchBudget Store_paths (case sx_storePaths input of Some ps \<Rightarrow> length ps | None \<Rightarrow> 0)
       MAX_PUBLIC_OFFER_SEARCH_STORE_IDS) (\<lambda>_.
     rbind (assertPublicOfferSearchBudget Narrative_characters (scalarLength (sx_narrative input))
       MAX_PUBLIC_OFFER_SEARCH_NARRATIVE_CHARACTERS) (\<lambda>_.
       let limit = search_limit input; offset = search_offset input;
           uniqueStores = unique_stores (scoped_stores input)
       in if uniqueStores = [] then Inr (page_of offset limit [])
          else (case reads of
            None \<Rightarrow> Inl Search_query_failed
          | Some M \<Rightarrow>
              let rows = query_offers collate clock M uniqueStores
              in if MAX_PUBLIC_OFFER_SEARCH_CANDIDATES < length rows
                 then Inl (PublicOfferSearchBudgetExceeded Candidates (length rows) MAX_PUBLIC_OFFER_SEARCH_CANDIDATES)
                 else (case rankPublicStorefrontCandidates E (map (ranking_candidate E P url_print) rows) (sx_narrative input)
                         (sx_intent input) rustRanker of
                   Inl e \<Rightarrow> Inl (Search_ranking_failed e)
                 | Inr ranked \<Rightarrow>
                     Inr (page_of offset limit (concat (map (public_listing P url_print)
                       (ordered_candidates E locale_compare (sx_sort input) ranked)))))))))"

definition searchPublicStoreOffersFromDatabase ::
    "engine \<Rightarrow> platform \<Rightarrow> (url \<Rightarrow> jstr) \<Rightarrow> (jstr \<Rightarrow> jstr \<Rightarrow> int) \<Rightarrow> (jstr \<Rightarrow> jstr \<Rightarrow> int) \<Rightarrow> (market_offer \<Rightarrow> int) \<Rightarrow>
     (jstr \<Rightarrow> PreparedLexicalRankCandidate list \<Rightarrow> GatewayLexicalRankedCandidate list ranking_result) \<Rightarrow>
     market option \<Rightarrow> PublicOfferSearchInput \<Rightarrow> search_error + RecommendedBackendListing list" where
  "searchPublicStoreOffersFromDatabase E P url_print locale_compare collate clock rustRanker reads input =
     rbind (searchPublicStoreOfferPageFromDatabase E P url_print locale_compare collate clock rustRanker reads input)
       (\<lambda>page. Inr (pg_items page))"

section \<open>Rows and candidates\<close>

lemma set_update_snd: "snd ` set (AList.update k v al) \<subseteq> insert v (snd ` set al)"
  by (induction al) auto

lemma unique_stores_subset: "set (unique_stores stores) \<subseteq> set stores"
proof -
  have "snd ` set (fold (\<lambda>s. AList.update (ps_id s) s) ss al) \<subseteq> set ss \<union> snd ` set al" for ss al
  proof (induction ss arbitrary: al)
    case (Cons t ss)
    from Cons.IH [of "AList.update (ps_id t) t al"] set_update_snd [of "ps_id t" t al] show ?case by auto
  qed simp
  from this [of stores "[]"] show ?thesis by (auto simp: unique_stores_def)
qed

text \<open>An offer is on the shelf at a store and an alias when it is live and a requested store lists it there.\<close>

definition shelved ::
    "(market_offer \<Rightarrow> int) \<Rightarrow> market \<Rightarrow> PublicStore list \<Rightarrow> market_offer \<Rightarrow> store_row \<Rightarrow> alias_row \<Rightarrow> registration option \<Rightarrow> bool" where
  "shelved clock M stores o' s a r \<longleftrightarrow>
     o' \<in> set (mk_offers M) \<and> offer_live clock o' \<and> listed_at (mk_tables M) s a r \<and>
     st_id s = mo_store o' \<and> st_tenant s = mo_tenant o' \<and> st_domain s = mo_domain o' \<and>
     (\<exists>q \<in> set stores. to_lower (ps_id q) = st_id s \<and> to_lower (ps_tenantId q) = st_tenant s \<and> to_lower (ps_domainId q) = st_domain s)"

lemma offer_rows_shelved:
  "row \<in> set (offer_rows clock M stores) \<longleftrightarrow> (\<exists>o' s a r. shelved clock M stores o' s a r \<and> row = offer_row_of M o' s (a, r))"
proof
  assume "row \<in> set (offer_rows clock M stores)"
  then obtain o' q s a r where "o' \<in> set (mk_offers M)" "offer_live clock o'" "q \<in> set stores"
    "to_lower (ps_id q) = mo_store o' \<and> to_lower (ps_tenantId q) = mo_tenant o' \<and> to_lower (ps_domainId q) = mo_domain o'"
    "s \<in> set (db_stores (mk_tables M))" "st_tenant s = mo_tenant o' \<and> st_domain s = mo_domain o' \<and> st_id s = mo_store o' \<and> public_store s"
    "(a, r) \<in> set (store_joins (mk_tables M) s)" "row = offer_row_of M o' s (a, r)"
    unfolding offer_rows_def in_concat_map in_guard by auto
  then have "shelved clock M stores o' s a r \<and> row = offer_row_of M o' s (a, r)" by (auto simp: shelved_def listed_at_joins)
  then show "\<exists>o' s a r. shelved clock M stores o' s a r \<and> row = offer_row_of M o' s (a, r)" by blast
next
  assume "\<exists>o' s a r. shelved clock M stores o' s a r \<and> row = offer_row_of M o' s (a, r)"
  then show "row \<in> set (offer_rows clock M stores)"
    unfolding offer_rows_def shelved_def listed_at_joins in_concat_map in_guard by (elim exE conjE bexE) (intro bexI conjI, auto)
qed

lemma merged_candidate:
  "merge_rows prepared seen rows = Inr out \<Longrightarrow> c \<in> set out \<Longrightarrow> rk_candidate c \<in> pp_candidate ` set prepared"
  by (induction prepared seen rows arbitrary: out rule: merge_rows.induct) (auto simp: Let_def rbind_def split: if_splits sum.splits)

lemma prepare_all_candidates: "map pp_candidate (prepare_all E intent candidates) = candidates"
  by (rule nth_equalityI) (simp_all add: prepare_all_def prepare_def Let_def)

lemma ranked_candidate:
  assumes "rankPublicStorefrontCandidates E candidates narrative intent rustRanker = Inr ranked" and "c \<in> set ranked"
  shows "rk_candidate c \<in> set candidates"
proof -
  from assms have "rk_candidate c \<in> pp_candidate ` set (prepare_all E intent candidates)"
    by (auto simp: rankPublicStorefrontCandidates_def mergeRustRankedCandidates_def unscored_def Let_def rbind_def
        split: if_splits sum.splits dest: merged_candidate)
  then show ?thesis by (metis list.set_map prepare_all_candidates)
qed

lemma ordered_candidates_set [simp]: "set (ordered_candidates E lc order ranked) = set ranked"
  by (simp add: ordered_candidates_def split: option.splits)

section \<open>Public values only\<close>

lemma public_terms_price:
  assumes "hasFixedPublicPrice (publicTerms v)"
  shows "\<exists>amount currency scale. publicTerms v = [(js ''pricing_mode'', JStr (js ''fixed'')), (js ''amount_minor'', JStr amount),
      (js ''currency'', JStr currency), (js ''currency_scale'', JNum scale)] \<and>
    unsignedIntegerString (member (record_of (Some v)) ''amount_minor'') = Some amount \<and> 0 < read_nat amount \<and>
    length currency = 3 \<and> list_all is_upper currency \<and> 0 \<le> num_int scale \<and> num_int scale \<le> 18"
  using assms
  by (auto simp: publicTerms_def Let_def public_currency_def public_scale_def hasFixedPublicPrice_def member_def
      split: option.splits if_splits)

text \<open>An address that a page may load: a path of this site, or an HTTPS URL without credentials.\<close>

definition safe_address :: "platform \<Rightarrow> (url \<Rightarrow> jstr) \<Rightarrow> jstr \<Rightarrow> bool" where
  "safe_address P url_print u \<longleftrightarrow>
     starts_with u [47] \<and> \<not> starts_with u [47, 47] \<and> 92 \<notin> set u \<or>
     (\<exists>x w. url_parse P x = Some w \<and> url_protocol w = js ''https:'' \<and> url_username w = [] \<and> url_password w = [] \<and> u = url_print w)"

lemma safePublicUrl_safe: "safePublicUrl P url_print v = Some u \<Longrightarrow> safe_address P url_print u"
  by (auto simp: safePublicUrl_def safe_address_def split: option.splits if_splits)

lemma first_url_item:
  "first_url P url_print items = Some u \<Longrightarrow>
     \<exists>item \<in> set items. safePublicUrl P url_print (member (record_of (Some item)) ''public_url'') = Some u"
  by (induction items) (auto simp: nonempty_url_def split: option.splits if_splits)

definition primitive :: "json \<Rightarrow> bool" where
  "primitive v \<longleftrightarrow> (case v of JStr _ \<Rightarrow> True | JNum _ \<Rightarrow> True | _ \<Rightarrow> False)"

lemma obj_put_map_of: "map_of (obj_put ms k v) = (map_of ms)(k \<mapsto> v)"
  by (induction ms k v rule: obj_put.induct) auto

lemma obj_put_keys: "fst ` set (obj_put ms k v) = insert k (fst ` set ms)"
  by (induction ms k v rule: obj_put.induct) auto

lemma public_value_primitive: "public_value v = Some w \<Longrightarrow> primitive w"
  by (auto simp: public_value_def primitive_def split: option.splits json.splits if_splits)

lemma put_attributes_primitive:
  assumes "\<And>k v. map_of result k = Some v \<Longrightarrow> primitive v" and "map_of (foldl (put_attribute source) result keys) k = Some v"
  shows "primitive v"
  using assms
proof (induction keys arbitrary: result)
  case (Cons key keys)
  have "primitive w" if "map_of (put_attribute source result key) k' = Some w" for k' w
    using that Cons.prems(1)
    by (auto simp: put_attribute_def obj_put_map_of dest: public_value_primitive split: option.splits if_splits)
  from Cons.IH [OF this] Cons.prems(2) show ?case by simp
qed simp

lemma put_attributes_keys:
  "fst ` set (foldl (put_attribute source) result keys) \<subseteq> fst ` set result \<union> set keys"
proof (induction keys arbitrary: result)
  case (Cons key keys)
  have "fst ` set (put_attribute source result key) \<subseteq> insert key (fst ` set result)"
    by (auto simp: put_attribute_def obj_put_keys split: option.splits)
  with Cons.IH [of "put_attribute source result key"] show ?case by auto
qed simp

lemma filled_primitive: "map_of (filled_attributes E source declared) k = Some v \<Longrightarrow> primitive v"
  unfolding filled_attributes_def
  by (rule put_attributes_primitive [rotated]) (auto simp: described_def primitive_def Let_def split: if_splits)

lemma public_keys_safe: "k \<in> set (public_keys E declared) \<Longrightarrow> k \<in> set standard_keys \<or> isSafePublicAttributeKey E k"
  by (auto simp: public_keys_def declared_keys_def dest!: in_set_takeD split: option.splits if_splits)

lemma public_attributes_keys:
  assumes "k \<in> fst ` set (publicAttributes E P url_print raw kind declared)"
  shows "k \<in> {js ''description'', js ''attachments''} \<union> set standard_keys \<or> isSafePublicAttributeKey E k"
proof -
  let ?source = "record_of (Some raw)"
  have "fst ` set (described ?source) \<subseteq> {js ''description''}" by (auto simp: described_def Let_def)
  with put_attributes_keys [of ?source "described ?source" "public_keys E declared"]
  have "fst ` set (filled_attributes E ?source declared) \<subseteq> insert (js ''description'') (set (public_keys E declared))"
    by (auto simp: filled_attributes_def)
  with assms show ?thesis
    by (auto simp: publicAttributes_def Let_def obj_put_keys dest!: public_keys_safe split: if_splits)
qed

lemma public_attributes_images:
  assumes "as_array (member (publicAttributes E P url_print raw kind declared) ''attachments'') = Some items"
  shows "items = publicImageAttachments P url_print (member (record_of (Some raw)) ''attachments'') kind"
proof -
  have "as_array (map_of (filled_attributes E (record_of (Some raw)) declared) (js ''attachments'')) = None"
    using filled_primitive [of E "record_of (Some raw)" declared "js ''attachments''"]
    by (cases "map_of (filled_attributes E (record_of (Some raw)) declared) (js ''attachments'')")
      (auto simp: primitive_def split: json.splits)
  with assms show ?thesis
    by (auto simp: publicAttributes_def Let_def member_def obj_put_map_of split: if_splits)
qed

text \<open>The images of a hosted store are served by the platform itself.\<close>

definition hosted_image :: "jstr \<Rightarrow> bool" where
  "hosted_image u \<longleftrightarrow> starts_with u (js ''/api/store-media/'') \<and> isUuid (Some (JStr (drop 17 u)))"

lemma to_lower_uuid:
  assumes "isUuid (Some (JStr u))"
  shows "isUuid (Some (JStr (to_lower u)))"
proof -
  have "is_hex c \<Longrightarrow> is_hex (lower1 c)" "lower1 (lower1 c) = lower1 c" for c
    by (auto simp: is_hex_def is_hex_lower_def is_digit_def lower1_def is_upper_def)
  moreover have "lower1 45 = 45" "49 \<le> c \<Longrightarrow> c \<le> 56 \<Longrightarrow> lower1 c = c" for c by (auto simp: lower1_def is_upper_def)
  ultimately show ?thesis using assms by (simp add: isUuid_def to_lower_def take_map drop_map list_all_iff ball_Un)
qed

lemma nth_in_slice: "a \<le> i \<Longrightarrow> i < a + n \<Longrightarrow> i < length u \<Longrightarrow> u ! i \<in> set (take n (drop a u))"
  by (auto simp: in_set_conv_nth intro!: exI [of _ "i - a"])

lemma uuid_units:
  assumes "isUuid (Some (JStr u))" and "c \<in> set u"
  shows "is_hex c \<or> c = 45"
proof -
  from assms(2) obtain i where i: "i < length u" "u ! i = c" by (auto simp: in_set_conv_nth)
  from assms(1) have u: "length u = 36" "\<forall>j \<in> {8, 13, 18, 23}. u ! j = 45"
    "\<And>x. x \<in> set (take 8 (drop 0 u)) \<union> set (take 4 (drop 9 u)) \<union> set (take 4 (drop 14 u)) \<union> set (take 4 (drop 19 u)) \<union>
       set (take 12 (drop 24 u)) \<Longrightarrow> is_hex x"
    by (auto simp: isUuid_def list_all_iff)
  from u(1) i(1) consider "i \<in> {8, 13, 18, 23}" | "i < 8" | "9 \<le> i" "i < 13" | "14 \<le> i" "i < 18" | "19 \<le> i" "i < 23" | "24 \<le> i" "i < 36"
    by fastforce
  then show ?thesis
    using u(2) u(3) [of "u ! i"] i nth_in_slice [of 0 i 8 u] nth_in_slice [of 9 i 4 u] nth_in_slice [of 14 i 4 u]
      nth_in_slice [of 19 i 4 u] nth_in_slice [of 24 i 12 u]
    by cases auto
qed

lemma hosted_attachment_image:
  assumes "item \<in> set (publicImageAttachments P url_print v hosted)"
    and "safePublicUrl P url_print (member (record_of (Some item)) ''public_url'') = Some u"
  shows "hosted_image u"
proof -
  from assms(1) obtain ref i where ref: "hosted_media i = Some ref"
    and item: "member (record_of (Some item)) ''public_url'' = Some (JStr (js ''/api/store-media/'' @ ref))"
    by (auto simp: publicImageAttachments_def public_attachment_def Let_def nonempty_url_def member_def record_of_def js_simps
        dest!: in_set_takeD split: option.splits if_splits)
  from ref have "isUuid (Some (JStr ref))" by (auto simp: hosted_media_def to_lower_uuid split: option.splits if_splits)
  moreover from this have "length ref = 36" by (simp add: isUuid_def)
  moreover from uuid_units [OF \<open>isUuid (Some (JStr ref))\<close>, of 92] have "92 \<notin> set ref"
    by (auto simp: is_hex_def is_hex_lower_def is_digit_def)
  ultimately show ?thesis using assms(2) unfolding item
    by (auto simp: safePublicUrl_def hosted_image_def starts_with_def js_simps split: if_splits)
qed

lemma listed_image:
  assumes "firstPublicImageUrl P url_print (member (publicAttributes E P url_print raw kind declared) ''attachments'') = Some u"
  shows "safe_address P url_print u \<and> (kind = hosted \<longrightarrow> hosted_image u)"
proof -
  from assms obtain items where items: "as_array (member (publicAttributes E P url_print raw kind declared) ''attachments'') = Some items"
    "first_url P url_print items = Some u" by (auto simp: firstPublicImageUrl_def split: option.splits)
  from first_url_item [OF items(2)] obtain item where "item \<in> set items"
    "safePublicUrl P url_print (member (record_of (Some item)) ''public_url'') = Some u" by blast
  with public_attributes_images [OF items(1)] show ?thesis by (auto intro: safePublicUrl_safe hosted_attachment_image)
qed

section \<open>Pages\<close>

definition within_budget :: "PublicOfferSearchInput \<Rightarrow> bool" where
  "within_budget input \<longleftrightarrow>
     length (sx_stores input) \<le> 500 \<and> (case sx_storePaths input of Some ps \<Rightarrow> length ps \<le> 500 | None \<Rightarrow> True) \<and>
     scalarLength (sx_narrative input) \<le> 8000"

lemmas budget_defs = assertPublicOfferSearchBudget_def MAX_PUBLIC_OFFER_SEARCH_STORE_IDS_def MAX_PUBLIC_STORES_def
  MAX_PUBLIC_OFFER_SEARCH_NARRATIVE_CHARACTERS_def MAX_PUBLIC_OFFER_SEARCH_CANDIDATES_def
  MAX_LEXICAL_RANK_TOTAL_CANDIDATES_def PUBLIC_OFFER_SEARCH_CANDIDATE_SENTINEL_def

lemma search_within_budget:
  "searchPublicStoreOfferPageFromDatabase E P url_print lc collate clock rustRanker reads input = Inr page \<Longrightarrow> within_budget input"
  by (auto simp: searchPublicStoreOfferPageFromDatabase_def within_budget_def budget_defs rbind_def split: if_splits option.splits)

lemma search_unfold:
  assumes "within_budget input"
  shows "searchPublicStoreOfferPageFromDatabase E P url_print lc collate clock rustRanker reads input =
    (let stores = unique_stores (scoped_stores input)
     in if stores = [] then Inr (page_of (search_offset input) (search_limit input) [])
        else case reads of None \<Rightarrow> Inl Search_query_failed
        | Some M \<Rightarrow> if 2000 < length (offer_rows clock M stores) then Inl (PublicOfferSearchBudgetExceeded Candidates 2001 2000)
            else case rankPublicStorefrontCandidates E (map (ranking_candidate E P url_print)
                (sort_by (row_order collate) (offer_rows clock M stores))) (sx_narrative input) (sx_intent input) rustRanker of
              Inl e \<Rightarrow> Inl (Search_ranking_failed e)
            | Inr ranked \<Rightarrow> Inr (page_of (search_offset input) (search_limit input)
                (concat (map (public_listing P url_print) (ordered_candidates E lc (sx_sort input) ranked)))))"
  using assms
  by (auto simp: searchPublicStoreOfferPageFromDatabase_def within_budget_def budget_defs rbind_def query_offers_def Let_def
      split: option.splits)

lemma in_public_listing:
  "l \<in> set (public_listing P url_print c) \<Longrightarrow>
     ls_offer_id l = po_id (rc_row (rk_candidate c)) \<and> ls_platform_path l = po_storePath (rc_row (rk_candidate c)) \<and>
     ls_subplatform l = po_storeSlug (rc_row (rk_candidate c)) \<and>
     ls_attributes l = rc_attributes (rk_candidate c) \<and> ls_terms l = rc_terms (rk_candidate c) \<and>
     firstPublicImageUrl P url_print (member (ls_attributes l) ''attachments'') = Some (ls_image_url l) \<and>
     hasFixedPublicPrice (ls_terms l) \<and> text_value (member (ls_attributes l) ''description'') \<noteq> [] \<and> \<not> out_of_stock (ls_attributes l)"
  by (auto simp: public_listing_def Let_def split: option.splits if_splits)

lemma search_item:
  assumes "searchPublicStoreOfferPageFromDatabase E P url_print lc collate clock rustRanker (Some M) input = Inr page"
    and "l \<in> set (pg_items page)"
  obtains o' s a r c where "shelved clock M (scoped_stores input) o' s a r" "l \<in> set (public_listing P url_print c)"
    "rk_candidate c = ranking_candidate E P url_print (offer_row_of M o' s (a, r))"
proof -
  let ?stores = "unique_stores (scoped_stores input)"
  have sub: "set ?stores \<subseteq> set (scoped_stores input)" by (rule unique_stores_subset)
  from assms obtain ranked c where ranked: "rankPublicStorefrontCandidates E (map (ranking_candidate E P url_print)
      (sort_by (row_order collate) (offer_rows clock M ?stores))) (sx_narrative input) (sx_intent input) rustRanker = Inr ranked"
    and c: "c \<in> set ranked" "l \<in> set (public_listing P url_print c)"
    by (auto simp: search_unfold [OF search_within_budget [OF assms(1)]] page_of_def Let_def
        dest!: in_set_takeD in_set_dropD split: if_splits sum.splits)
  from ranked_candidate [OF ranked c(1)] obtain row where row: "row \<in> set (offer_rows clock M ?stores)"
    "rk_candidate c = ranking_candidate E P url_print row" by auto
  from row(1) obtain o' s a r where "shelved clock M ?stores o' s a r" "row = offer_row_of M o' s (a, r)"
    by (auto simp: offer_rows_shelved)
  with row(2) c(2) sub show thesis by (intro that [of o' s a r c]) (auto simp: shelved_def)
qed


text \<open>What a visitor without a request sees of an offer, if it is fit to be shown.\<close>

definition offer_entry :: "engine \<Rightarrow> platform \<Rightarrow> (url \<Rightarrow> jstr) \<Rightarrow> PublicOfferRow \<Rightarrow> RecommendedBackendListing list" where
  "offer_entry E P url_print row = public_listing P url_print (unscored (prepare E None (ranking_candidate E P url_print row) 0))"

lemma entry_of_unscored:
  "rk_candidate c = ranking_candidate E P url_print row \<Longrightarrow> rk_score c = None \<Longrightarrow> public_listing P url_print c = offer_entry E P url_print row"
  by (simp add: public_listing_def offer_entry_def unscored_def prepare_def Let_def split: option.split)

lemma browse_entries:
  "concat (map (public_listing P url_print) (map unscored (prepare_all E intent (map (ranking_candidate E P url_print) rows)))) =
     concat (map (offer_entry E P url_print) rows)"
proof -
  have "map (public_listing P url_print) (map unscored (prepare_all E intent (map (ranking_candidate E P url_print) rows))) =
      map (offer_entry E P url_print) rows"
    by (rule nth_equalityI) (simp_all add: prepare_all_def prepare_def unscored_def Let_def entry_of_unscored)
  then show ?thesis by (rule arg_cong)
qed

lemma browse_page:
  assumes "within_budget input" and "\<not> hasPublicStorefrontRequestCriteria (sx_narrative input) (sx_intent input)"
    and "sx_sort input = None" and "length (offer_rows clock M (unique_stores (scoped_stores input))) \<le> 2000"
  shows "searchPublicStoreOfferPageFromDatabase E P url_print lc collate clock rustRanker (Some M) input =
    Inr (page_of (search_offset input) (search_limit input)
      (concat (map (offer_entry E P url_print) (sort_by (row_order collate) (offer_rows clock M (unique_stores (scoped_stores input)))))))"
proof -
  have "offer_rows clock M [] = []" "sort_by (row_order collate) [] = []" by (auto simp: offer_rows_def sort_by_def)
  then show ?thesis
    using assms by (auto simp: search_unfold rankPublicStorefrontCandidates_def ordered_candidates_def browse_entries Let_def
        simp del: map_map)
qed

lemma paged_input [simp]:
  "within_budget (input\<lparr>sx_offset := x, sx_limit := y\<rparr>) = within_budget input"
  "scoped_stores (input\<lparr>sx_offset := x, sx_limit := y\<rparr>) = scoped_stores input"
  by (simp_all add: within_budget_def scoped_stores_def Let_def)

lemma pages_concat: "concat (map (\<lambda>k. take n (drop (k * n) xs)) [0..<m]) = take (m * n) xs"
proof (induction m)
  case (Suc m)
  then show ?case by (simp add: take_add [symmetric] add.commute)
qed simp

text \<open>
  Browsing without a request: consecutive pages show the shelf in order, without a gap or a repetition, as far as offsets
  reach (500 offers and one page more), and say truly whether more follows. The shelf holds exactly the offers fit to be shown
  among the live offers of the requested stores that are listed.
\<close>

theorem browse_pages_exact:
  assumes "within_budget input" and "\<not> hasPublicStorefrontRequestCriteria (sx_narrative input) (sx_intent input)"
    and "sx_sort input = None" and "length (offer_rows clock M (unique_stores (scoped_stores input))) \<le> 2000"
    and "1 \<le> n" "n \<le> 48" "m * n \<le> 500 + n"
  shows "\<exists>shelf pages. length pages = m \<and>
    (\<forall>k < m. searchPublicStoreOfferPageFromDatabase E P url_print lc collate clock rustRanker (Some M)
        (input\<lparr>sx_offset := Some (int (k * n)), sx_limit := Some (int n)\<rparr>) = Inr (pages ! k) \<and>
      (pg_hasMore (pages ! k) \<longleftrightarrow> Suc k * n < length shelf)) \<and>
    concat (map pg_items pages) = take (m * n) shelf \<and>
    (\<forall>l. l \<in> set shelf \<longleftrightarrow> (\<exists>o' s a r. shelved clock M (unique_stores (scoped_stores input)) o' s a r \<and>
       l \<in> set (offer_entry E P url_print (offer_row_of M o' s (a, r)))))"
proof -
  define stores where "stores = unique_stores (scoped_stores input)"
  define shelf where "shelf = concat (map (offer_entry E P url_print) (sort_by (row_order collate) (offer_rows clock M stores)))"
  define pages where "pages = map (\<lambda>k. page_of (k * n) n shelf) [0..<m]"
  have "searchPublicStoreOfferPageFromDatabase E P url_print lc collate clock rustRanker (Some M)
      (input\<lparr>sx_offset := Some (int (k * n)), sx_limit := Some (int n)\<rparr>) = Inr (page_of (k * n) n shelf)" if "k < m" for k
  proof -
    let ?input = "input\<lparr>sx_offset := Some (int (k * n)), sx_limit := Some (int n)\<rparr>"
    from that assms(5-7) have "Suc k * n \<le> 500 + n" by (meson Suc_leI le_trans mult_le_mono1)
    then have "search_offset ?input = k * n" "search_limit ?input = n"
      using assms(5,6) by (simp_all add: search_offset_def search_limit_def min_def del: of_nat_mult)
    then show ?thesis using assms(1-4) by (subst browse_page) (simp_all add: shelf_def stores_def)
  qed
  moreover have "concat (map pg_items pages) = take (m * n) shelf"
    using pages_concat [of n shelf m] by (simp add: pages_def page_of_def comp_def)
  moreover have "\<forall>l. l \<in> set shelf \<longleftrightarrow> (\<exists>o' s a r. shelved clock M stores o' s a r \<and>
      l \<in> set (offer_entry E P url_print (offer_row_of M o' s (a, r))))"
    unfolding shelf_def in_concat_map set_sort_by_any Bex_def offer_rows_shelved by blast
  ultimately show ?thesis unfolding stores_def
    by (intro exI [of _ shelf] exI [of _ pages]) (simp add: pages_def page_of_def algebra_simps)
qed

text \<open>
  Past offset 500 the pages repeat: with 549 offers on the shelf and pages of 48, every page from there on has the same offers
  and says that more follow, although no offset reaches them.
\<close>

theorem deep_pages_repeat:
  assumes "within_budget input" and "\<not> hasPublicStorefrontRequestCriteria (sx_narrative input) (sx_intent input)"
    and "sx_sort input = None" and "length (offer_rows clock M (unique_stores (scoped_stores input))) \<le> 2000"
    and "548 < length (concat (map (offer_entry E P url_print) (offer_rows clock M (unique_stores (scoped_stores input)))))"
  shows "\<exists>page. pg_hasMore page \<and> (\<forall>offset \<ge> 500. searchPublicStoreOfferPageFromDatabase E P url_print lc collate clock rustRanker (Some M)
    (input\<lparr>sx_offset := Some offset, sx_limit := Some 48\<rparr>) = Inr page)"
proof -
  let ?rows = "offer_rows clock M (unique_stores (scoped_stores input))"
  let ?shelf = "concat (map (offer_entry E P url_print) (sort_by (row_order collate) ?rows))"
  have "mset (sort_by cmp xs) = mset xs" for cmp :: "PublicOfferRow \<Rightarrow> PublicOfferRow \<Rightarrow> int" and xs
  proof -
    have "mset (insert_by cmp x ys) = add_mset x (mset ys)" for x ys by (induction ys) auto
    then show ?thesis unfolding sort_by_def by (induction xs) simp_all
  qed
  then have "sum_mset (image_mset (length \<circ> offer_entry E P url_print) (mset (sort_by (row_order collate) ?rows))) =
      sum_mset (image_mset (length \<circ> offer_entry E P url_print) (mset ?rows))" by simp
  then have "length ?shelf = length (concat (map (offer_entry E P url_print) ?rows))"
    by (simp add: length_concat sum_mset_sum_list [symmetric] comp_def)
  with assms(5) have "pg_hasMore (page_of 500 48 ?shelf)" by (simp add: page_of_def)
  moreover have "searchPublicStoreOfferPageFromDatabase E P url_print lc collate clock rustRanker (Some M)
      (input\<lparr>sx_offset := Some offset, sx_limit := Some 48\<rparr>) = Inr (page_of 500 48 ?shelf)" if "500 \<le> offset" for offset
  proof -
    let ?input = "input\<lparr>sx_offset := Some offset, sx_limit := Some 48\<rparr>"
    from that have "search_offset ?input = 500" "search_limit ?input = 48"
      by (simp_all add: search_offset_def search_limit_def)
    then show ?thesis using assms(1-4) by (subst browse_page) simp_all
  qed
  ultimately show ?thesis by blast
qed

section \<open>Example\<close>

definition shelf_store :: store_row where
  "shelf_store = \<lparr> st_id = shop_uuid, st_tenant = tree_tenant, st_organization = root_uuid, st_domain = domain_uuid,
     st_slug = js ''shop'', st_display_name = js ''Shop'', st_description = [], st_status = active, st_integration_kind = hosted,
     st_visibility = public_policy, st_registration = None, st_binding = None \<rparr>"

definition shelf_offer :: market_offer where
  "shelf_offer = \<lparr> mo_id = root_uuid, mo_tenant = tree_tenant, mo_domain = domain_uuid, mo_store = shop_uuid,
     mo_display_name = js ''Tea'',
     mo_attributes = JObj [(js ''description'', JStr (js ''Tea'')),
       (js ''attachments'', JArr [JObj [(js ''kind'', JStr (js ''image'')),
         (js ''attachment_ref'', JStr (js ''media://hosted/'' @ shop_uuid))]])],
     mo_terms = JObj [(js ''amount_minor'', JStr (js ''100'')), (js ''currency'', JStr (js ''CNY'')),
       (js ''currency_scale'', JNum (num_of_int 2))],
     mo_status = active, mo_published_at = None, mo_expires_at = None \<rparr>"

definition example_market :: market where
  "example_market = \<lparr>
     mk_tables = \<lparr> db_organizations = [], db_registrations = [],
       db_domains = [\<lparr> dm_id = domain_uuid, dm_tenant = tree_tenant, dm_status = active \<rparr>],
       db_stores = [shelf_store],
       db_aliases = [\<lparr> al_tenant = tree_tenant, al_store = shop_uuid, al_path = js ''/shop'', al_canonical = True \<rparr>],
       db_bindings = [], db_members = [] \<rparr>,
     mk_offers = [shelf_offer], mk_likes = [] \<rparr>"

definition example_search :: PublicOfferSearchInput where
  "example_search = \<lparr>
     sx_stores = [\<lparr> ps_id = shop_uuid, ps_slug = js ''shop'', ps_path = js ''/shop'', ps_displayName = js ''Shop'',
       ps_description = [], ps_integrationKind = Hosted_store, ps_capabilities = [], ps_agentStages = [], ps_agentSkills = [],
       ps_publicFields = [], ps_tenantId = tree_tenant, ps_domainId = domain_uuid \<rparr>],
     sx_narrative = [], sx_intent = None, sx_storePaths = None, sx_sort = None, sx_offset = None, sx_limit = None \<rparr>"

lemma uuid_lower: "to_lower shop_uuid = shop_uuid" "to_lower tree_tenant = tree_tenant" "to_lower domain_uuid = domain_uuid"
  by (simp_all add: shop_uuid_def tree_tenant_def domain_uuid_def to_lower_def js_simps lower1_def is_upper_def)

lemma example_unique: "unique_stores (scoped_stores example_search) = sx_stores example_search"
  by (simp add: scoped_stores_def unique_stores_def example_search_def)

lemma hosted_not_external: "hosted \<noteq> external"
  by (simp add: hosted_def external_def js_simps)

lemma shelf_store_joins:
  "public_store shelf_store"
  "store_joins (mk_tables example_market) shelf_store =
     [(\<lparr> al_tenant = tree_tenant, al_store = shop_uuid, al_path = js ''/shop'', al_canonical = True \<rparr>, None)]"
  by (simp_all add: public_store_def store_joins_def left_join_def integration_ready_def example_market_def shelf_store_def
      hosted_not_external)

lemma example_offer_rows:
  "offer_rows (\<lambda>_. 0) example_market (unique_stores (scoped_stores example_search)) =
     [offer_row_of example_market shelf_offer shelf_store
        (\<lparr> al_tenant = tree_tenant, al_store = shop_uuid, al_path = js ''/shop'', al_canonical = True \<rparr>, None)]"
proof -
  have "mk_offers example_market = [shelf_offer]" "db_stores (mk_tables example_market) = [shelf_store]"
    "offer_live (\<lambda>_. 0) shelf_offer" "mo_store shelf_offer = shop_uuid" "mo_tenant shelf_offer = tree_tenant"
    "mo_domain shelf_offer = domain_uuid" "st_id shelf_store = shop_uuid" "st_tenant shelf_store = tree_tenant"
    "st_domain shelf_store = domain_uuid"
    by (simp_all add: example_market_def offer_live_def shelf_offer_def shelf_store_def)
  then show ?thesis
    unfolding example_unique offer_rows_def by (simp add: shelf_store_joins example_search_def uuid_lower)
qed

lemma example_images:
  "publicImageAttachments example_host (\<lambda>_. []) (member (record_of (Some (mo_attributes shelf_offer))) ''attachments'') hosted =
     [JObj [(js ''kind'', JStr (js ''image'')), (js ''file_name'', JStr []), (js ''media_type'', JStr []),
            (js ''public_url'', JStr (js ''/api/store-media/'' @ shop_uuid))]]"
  by (simp add: publicImageAttachments_def public_attachment_def Let_def shelf_offer_def member_def record_of_def hosted_media_def
      nonempty_url_def text_value_def isUuid_def to_lower_def lower1_def is_upper_def shop_uuid_def js_simps
      is_hex_def is_hex_lower_def is_digit_def)

lemma example_attributes:
  "publicAttributes example_engine example_host (\<lambda>_. []) (mo_attributes shelf_offer) hosted (JArr []) =
     [(js ''description'', JStr (js ''Tea'')),
      (js ''attachments'', JArr [JObj [(js ''kind'', JStr (js ''image'')), (js ''file_name'', JStr []), (js ''media_type'', JStr []),
            (js ''public_url'', JStr (js ''/api/store-media/'' @ shop_uuid))]])]"
proof -
  have "filled_attributes example_engine (record_of (Some (mo_attributes shelf_offer))) (JArr []) = [(js ''description'', JStr (js ''Tea''))]"
    by (simp add: filled_attributes_def described_def public_keys_def standard_keys_def declared_keys_def put_attribute_def
        public_value_def shelf_offer_def record_of_def member_def text_value_def trim_def is_space_def js_simps)
  then show ?thesis by (simp add: publicAttributes_def Let_def example_images js_simps)
qed

lemma example_terms_public:
  "publicTerms (mo_terms shelf_offer) = [(js ''pricing_mode'', JStr (js ''fixed'')), (js ''amount_minor'', JStr (js ''100'')),
     (js ''currency'', JStr (js ''CNY'')), (js ''currency_scale'', JNum (num_of_int 2))]"
  by (simp add: publicTerms_def Let_def shelf_offer_def record_of_def member_def unsignedIntegerString_def public_currency_def
      public_scale_def is_safe_integer_def num_of_int_def dec.simps js_simps is_digit_def is_upper_def read_nat_def)

lemma example_shelf_entry:
  "\<exists>l. offer_entry example_engine example_host (\<lambda>_. []) (offer_row_of example_market shelf_offer shelf_store
     (\<lparr> al_tenant = tree_tenant, al_store = shop_uuid, al_path = js ''/shop'', al_canonical = True \<rparr>, None)) = [l]"
proof -
  have "firstPublicImageUrl example_host (\<lambda>_. []) (Some (JArr [JObj [(js ''kind'', JStr (js ''image'')), (js ''file_name'', JStr []),
      (js ''media_type'', JStr []), (js ''public_url'', JStr (js ''/api/store-media/'' @ shop_uuid))]])) =
      Some (js ''/api/store-media/'' @ shop_uuid)"
    by (simp add: firstPublicImageUrl_def safePublicUrl_def nonempty_url_def member_def record_of_def starts_with_def shop_uuid_def js_simps)
  moreover have "hasFixedPublicPrice (publicTerms (mo_terms shelf_offer))"
    by (simp add: example_terms_public hasFixedPublicPrice_def member_def js_simps)
  moreover have "st_integration_kind shelf_store = hosted" by (simp add: shelf_store_def)
  ultimately show ?thesis
    by (simp add: offer_entry_def public_listing_def unscored_def prepare_def Let_def ranking_candidate_def offer_row_of_def
        manifest_at_def example_attributes member_def text_value_def out_of_stock_def trim_def is_space_def js_simps)
qed

lemma example_browse:
  "within_budget example_search" "\<not> hasPublicStorefrontRequestCriteria (sx_narrative example_search) (sx_intent example_search)"
  "sx_sort example_search = None" "search_offset example_search = 0" "search_limit example_search = 24"
  by (simp_all add: within_budget_def example_search_def hasPublicStorefrontRequestCriteria_def hasStructuredIntentCriteria_def
      search_offset_def search_limit_def trim_def scalarLength_def)


theorem browse_pages_exact_witness:
  "\<exists>shelf pages. length pages = 2 \<and>
    (\<forall>k < 2. searchPublicStoreOfferPageFromDatabase example_engine example_host (\<lambda>_. []) text_order text_order (\<lambda>_. 0)
        (\<lambda>_ _. Inr []) (Some example_market)
        (example_search\<lparr>sx_offset := Some (int (k * 10)), sx_limit := Some (int 10)\<rparr>) = Inr (pages ! k) \<and>
      (pg_hasMore (pages ! k) \<longleftrightarrow> Suc k * 10 < length shelf)) \<and> concat (map pg_items pages) = take 20 shelf"
proof -
  have "length (offer_rows (\<lambda>_. 0) example_market (unique_stores (scoped_stores example_search))) \<le> 2000"
    by (simp add: example_offer_rows)
  from browse_pages_exact [OF example_browse(1-3) this, of 10 2 example_engine example_host "\<lambda>_. []" text_order text_order "\<lambda>_ _. Inr []"]
  show ?thesis by auto
qed

end
