(* ===== verification/Spec2Isabelle.thy ===== *)
theory Spec2Isabelle
  imports Payment_Money Router_Mutation Effective_Source Public_Endpoint Retrieval_Protocol Storefront_Ranking
    Catalog_Delivery Exchange_Mutation Agent_Handoff Federation_Contract
    Ai_Admission Store_Finance Media_Attachment Platform_Tree Admin_Invite
    Provider_Adapter Shopping_Memory Storefront_Search
begin

text \<open>
  Verification of the server-side core of the web application (\<open>src/web/src\<close>, \<open>src/web/app/api\<close>).

  \<^bold>\<open>The program.\<close> The web tier of a commerce platform. Its own logic that is modelled here is in
  the following parts.

  \<^item> The router configuration store (\<open>lib/platform-router-config/*\<close>) keeps the configuration of the
    AI provider on disk as immutable generation files with one pointer file, under a lock
    directory, with an audit outbox. The lifecycle on top of it stages a draft, records that it was
    tested and activates it; the effective source combines it with the process environment.
  \<^item> Outbound requests (\<open>lib/public-endpoint.ts\<close>, \<open>lib/pinned-public-endpoint.ts\<close>,
    \<open>lib/body-limit.ts\<close>) connect only to addresses that the policy permits and read bounded bodies.
  \<^item> Calls of model providers (\<open>provider-adapter.ts\<close>) use these requests, with endpoints fixed by the
    configuration and errors that say nothing of the request.
  \<^item> The retrieval protocol (\<open>retrieval-protocol.ts\<close>) validates what untrusted providers send.
  \<^item> Ranking (\<open>shopping-intent.ts\<close>, \<open>storefront-ranking*.ts\<close>) decides eligibility, sends batches to
    the ranking kernel and orders what it answers.
  \<^item> The public shelf (\<open>store-directory.ts\<close>, \<open>storefront-search.ts\<close>) lists the public stores and searches their offers.
  \<^item> Payment amounts (\<open>lib/payment-money.ts\<close>).
  \<^item> Catalogue projection (\<open>catalog-projection.ts\<close>, \<open>catalog-projection-relay.ts\<close>) delivers versions of
    offers to child platforms through a table of jobs that several workers share.
  \<^item> The exchange rate of the mall (\<open>app/api/mall/exchange-rate/route.ts\<close>, with
    \<open>lib/request-origin.ts\<close>) is fetched from a provider as an exact decimal and stored under an
    optimistic version.
  \<^item> Child platforms: their enrollment (\<open>federation-contract.ts\<close>), the packet that hands a buyer's request to one
    (\<open>platform-agent-handoff.ts\<close>), uploads of media (\<open>media-attachment.ts\<close>), and which of their paths
    are mounted and visible (\<open>platform-mount.ts\<close>, \<open>platform-visibility.ts\<close>).
  \<^item> Admission of calls to the AI router under quotas (\<open>platform-ai-admission.ts\<close>).
  \<^item> The shopping memory of a customer (\<open>shopping-memory.ts\<close> with its route), kept under an optimistic version.
  \<^item> Redemption of administrator invitations (\<open>app/api/admin-invites/redeem/route.ts\<close>): one bearer link, at most
    one account.
  \<^item> The finance report of a store (\<open>store-finance.ts\<close>): its period, its amounts and its export.

  \<^bold>\<open>Language.\<close> \<open>Prelude\<close> has results of fallible code; \<open>Js_Text\<close>, \<open>Js_String\<close>, \<open>Js_Value\<close>,
  \<open>Js_Json\<close>, \<open>Js_Utf8\<close>, \<open>Js_Object\<close> and \<open>Js_Regex\<close> model what the source uses of the language:
  strings of UTF-16 code units, numbers as the decimals they print, JSON printing and parsing
  with their round trip, UTF-8, the enumeration order of objects, and a backtracking-free matcher
  for regular expressions that is proved to decide the usual semantics. A function that throws
  returns a sum.

  \<^bold>\<open>The store.\<close> \<open>Router_Contract\<close>, \<open>Router_Audit\<close> and \<open>Router_State\<close> are the data of
  \<open>contract.ts\<close>, \<open>audit.ts\<close> and \<open>transaction.ts\<close> with their decoders; \<open>Router_Codec\<close> has the round
  trips. \<open>Io\<close> is the monad of the store's programs and \<open>Router_Fs\<close> the file system under them: the record
  \<open>machine\<close> holds a schedule that decides for every system call whether it succeeds, fails before
  its effect, or kills the process, and what other processes do to the disk in between;
  \<open>power_loss\<close> forgets what was not synced. \<open>Router_Lock\<close>, \<open>Router_Transaction\<close>, \<open>Router_Storage\<close> and
  \<open>Router_Lifecycle\<close> are the operations of \<open>transaction.ts\<close>, \<open>protected-storage.ts\<close> and
  \<open>transactional-lifecycle.ts\<close>, one definition per function, with the same order of system calls.
  The loop that acquires the lock and the scan of the audit journal are bounded by a deadline and
  by the length of the file, as in the source; no other loop needs fuel.
  \<open>Router_Frame\<close>, \<open>Router_View\<close>, \<open>Router_Visible\<close>, \<open>Router_Zone\<close>, \<open>Router_Commit\<close>, \<open>Router_Read\<close> and
  \<open>Router_Effects\<close> carry the proofs: which files a program can touch, what a reader sees of a disk
  (the abstract view), and what each step of a commit does to that view. \<open>Router_Atomicity\<close> shows
  that a read refines the view, that a commit is atomic for every schedule and durable under loss
  of power; \<open>Router_Mutation\<close> lifts this to stage, markTested and activate.
  \<open>Effective_Source\<close> shows that a source reported ready passes every policy check and that
  an unreadable store is reported as not ready.

  \<^bold>\<open>Requests.\<close> \<open>Body_Limit\<close> and \<open>Public_Endpoint\<close> take the events of a stream, the resolver and the
  transport as arguments and record the calls that release them; the lemmas show what a read
  returns, that resources are released and that no forbidden address is reached.
  \<open>Provider_Adapter\<close> builds on them: what a call may reach, what an error may say, and that a configured endpoint
  passes the check of the final URL.
  \<open>Retrieval_Protocol\<close> shows that the worklist scan for contact material decides its recursive
  specification (a scan stops at 4096 values and then refuses), that accepted results respect
  every bound, and the round trip of queries.

  \<^bold>\<open>Ranking.\<close> \<open>Shopping_Intent\<close> has the evaluation of an intent and its specification;
  \<open>Ranking_Gateway\<close> the batches, the validation of answers, and the pool of workers as a step
  relation in which each step is a turn of the event loop; \<open>Storefront_Ranking\<close> the composition,
  with sorting specified by a locale of consistent comparisons. \<open>Store_Directory\<close> and \<open>Storefront_Search\<close> have the
  public queries as joins over the tables of the platform tree, the projection of an offer to its public attributes and terms, and the
  pages; what is listed is live, public, priced and free of private keys, and pages show the shelf without gaps.
  \<open>Payment_Money\<close> is self-contained.

  \<^bold>\<open>Catalogue.\<close> \<open>Catalog_Projection\<close> builds the arguments of a projection with the digest of their
  canonical JSON, and decides acknowledgements; the lemmas show what the digested text identifies and
  exactly which acknowledgements are accepted. \<open>Catalog_Relay\<close> has the statements on the table of
  jobs as functions on a list of rows, and the programs that send them, over \<open>surroundings\<close> that decide
  which call fails, before or after its effect, and what other workers do in between. The locale
  \<open>table_invariant\<close> lifts an invariant of statements to all programs; its interpretation is the
  constraints of the table. \<open>Catalog_Delivery\<close> shows that jobs end after at most eighteen changes
  in any interleaving, that a due job progresses, what a reported outcome means, and that a change of the path alone is lost.

  \<^bold>\<open>Exchange rate.\<close> \<open>Exact_Decimal\<close> has the lexical helpers and proves that quoting and normalising keep
  every digit. \<open>Request_Origin\<close> and \<open>Exchange_Rate\<close> are the handlers with their transaction: a statement
  may fail before or after its effect, other sessions commit until the lock is held, and the client
  may go away at every check. \<open>Exchange_Mutation\<close> proves by triples over these programs that a change is
  atomic and on the expected version, and that a fetched rate is exact.

  \<^bold>\<open>Child platforms.\<close> \<open>Federation_Contract\<close> parses a signed enrollment and shows that the verified signature
  covers every returned value and determines it. \<open>Agent_Handoff\<close> builds and checks handoff envelopes.
  \<open>Media_Attachment\<close> parses uploads and the answers of the child's adapter; an accepted upload has exactly the
  number of bytes it declares. \<open>Platform_Tree\<close> has the queries of mounting and visibility as functions of
  the rows of their tables. The recursive query is iterated by levels, at most 4096 of them, because a path
  grows with every level and is not extended beyond 4096 characters; \<open>tree_query_exact\<close> shows that these levels
  list every chain of organizations.

  \<^bold>\<open>Admission and finance.\<close> \<open>Ai_Admission\<close> has the transaction of an admission as one step per statement, and a
  step relation in which any number of calls interleave, statements fail, and replies get lost; quotas are
  an invariant of the reachable states, and the advisory locks never block every call. \<open>Store_Finance\<close> shows
  that a displayed amount has the digits of the stored one, and that a CSV reader recovers every record
  of an exported report.

  \<^bold>\<open>Shopping memory.\<close> \<open>Shopping_Memory\<close> parses facts and writes them in a transaction whose statements fail and race with
  other sessions; a write is all or nothing, on the expected version, and the facts come back from the table one by one.

  \<^bold>\<open>Invitations.\<close> \<open>Admin_Invite\<close> has the redemption of an invitation as one step per statement and per call of the
  account library, with any number of requests, failures, lost replies and deaths. A role is written only for an
  entitled account; an invitation serves one account unless a statement fails between the read and the
  application of the role, and a run shows that it can serve two otherwise.

  \<^bold>\<open>Arguments of the model.\<close> Code outside the repository is an argument: the URL parser, \<open>ipaddr.js\<close>
  and SHA-256 (record \<open>platform\<close>), locale case mapping, number parsing and floating-point addition
  (record \<open>engine\<close>), collation, DNS, \<open>fetch\<close> and the disk; Ed25519
  verification (record \<open>federation_host\<close>), the parts that \<open>Intl.NumberFormat\<close> prints (record \<open>finance_host\<close>) and the
  hash of an advisory lock; the adapters of the account library (record \<open>redeem_world\<close>); \<open>jsonb\<close> and case conversion
  (record \<open>memory_world\<close>). What a theorem needs of them is a named hypothesis
  (\<open>url_laws\<close>, \<open>path_law\<close>, \<open>origin_law\<close>, \<open>add_law\<close>, \<open>intl_law\<close>, \<open>jsonb_law\<close>, \<open>upper_law\<close>,
  \<open>consistent_compare\<close>).

  \<^bold>\<open>Not modelled.\<close> The routes that only pass requests on to the database or to the Rust services, the prompt
  orchestration of \<open>platform-router.ts\<close>, the client of \<open>api.ts\<close>, React components, the agent client under
  \<open>integrations\<close>, the MCP route, and the Rust services themselves. Of what has logic of its own, the routes
  of child platforms and the platform manifest are not modelled.
\<close>

end
